(* ===== verification/Prelude.thy ===== *)
theory Prelude
  imports Main "HOL-Library.Signed_Division"
begin

text \<open>
  Shared vocabulary of the development: the result type in which a JavaScript
  \<^verbatim>\<open>throw\<close> is the value \<^term>\<open>Inl\<close>, its sequencing operator, the BigInt
  operators of the language (truncating division and remainder, arithmetic
  shifts), \<^verbatim>\<open>Array.prototype.find\<close>, and the lemma collections that the
  component theories extend.
\<close>

named_theorems js_simps "evaluation rules of the JavaScript primitives"
named_theorems result_simps "rewriting rules of the result type"

section \<open>Results: a value or a thrown error\<close>

text \<open>
  The errors the modelled code throws. \<open>TypeError\<close> is the language's own
  error (a property read on \<^verbatim>\<open>undefined\<close>, \<^verbatim>\<open>BigInt(undefined)\<close>);
  \<open>SqlError\<close> is an error answer of the database; every
  \<^verbatim>\<open>throw new Error(msg)\<close> of the source is \<open>Error msg\<close>.
\<close>

datatype js_error =
    TypeError
  | RangeError
  | SyntaxError
  | SqlError string
  | Error string

type_synonym 'a result = "js_error + 'a"

definition bindR :: "'a result \<Rightarrow> ('a \<Rightarrow> 'b result) \<Rightarrow> 'b result" where
  "bindR x f = (case x of Inl e \<Rightarrow> Inl e | Inr a \<Rightarrow> f a)"

lemma bindR_Inl [simp, result_simps]: "bindR (Inl e) f = Inl e"
  by (simp add: bindR_def)

lemma bindR_Inr [simp, result_simps]: "bindR (Inr a) f = f a"
  by (simp add: bindR_def)

lemma bindR_assoc: "bindR (bindR x f) g = bindR x (\<lambda>a. bindR (f a) g)"
  by (cases x) simp_all

lemma bindR_eq_Inr:
  "bindR x f = Inr b \<longleftrightarrow> (\<exists>a. x = Inr a \<and> f a = Inr b)"
  by (cases x) simp_all

lemma bindR_eq_Inl:
  "bindR x f = Inl e \<longleftrightarrow> x = Inl e \<or> (\<exists>a. x = Inr a \<and> f a = Inl e)"
  by (cases x) simp_all

lemma bindR_cong [fundef_cong]:
  "x = y \<Longrightarrow> (\<And>a. y = Inr a \<Longrightarrow> f a = g a) \<Longrightarrow> bindR x f = bindR y g"
  by (cases y) simp_all

text \<open>A \<^verbatim>\<open>for\<close> loop over an array whose body may throw.\<close>

fun foldR :: "('a \<Rightarrow> 's \<Rightarrow> 's result) \<Rightarrow> 'a list \<Rightarrow> 's \<Rightarrow> 's result" where
  "foldR f [] s = Inr s"
| "foldR f (x # xs) s = bindR (f x s) (foldR f xs)"

lemma foldR_append: "foldR f (xs @ ys) s = bindR (foldR f xs s) (foldR f ys)"
  by (induction xs arbitrary: s) (simp_all add: bindR_assoc cong: bindR_cong)

text \<open>An invariant of the body is an invariant of the loop.\<close>

lemma foldR_invariant:
  assumes "foldR f xs s = Inr t" and "P s"
    and "\<And>x s s'. x \<in> set xs \<Longrightarrow> P s \<Longrightarrow> f x s = Inr s' \<Longrightarrow> P s'"
  shows "P t"
  using assms
proof (induction xs arbitrary: s)
  case Nil
  then show ?case by simp
next
  case (Cons x xs)
  from Cons.prems(1) obtain s' where s': "f x s = Inr s'" "foldR f xs s' = Inr t"
    by (auto simp: bindR_eq_Inr)
  with Cons.prems(2,3) have "P s'" by auto
  then show ?case using Cons.IH [OF s'(2)] Cons.prems(3) by auto
qed

text \<open>\<^verbatim>\<open>map\<close> with a function that may throw.\<close>

fun mapR :: "('a \<Rightarrow> 'b result) \<Rightarrow> 'a list \<Rightarrow> 'b list result" where
  "mapR f [] = Inr []"
| "mapR f (x # xs) = bindR (f x) (\<lambda>y. bindR (mapR f xs) (\<lambda>ys. Inr (y # ys)))"

text \<open>\<^verbatim>\<open>filter\<close> with a condition that may throw.\<close>

fun filterR :: "('a \<Rightarrow> bool result) \<Rightarrow> 'a list \<Rightarrow> 'a list result" where
  "filterR P [] = Inr []"
| "filterR P (x # xs) = bindR (P x) (\<lambda>b. bindR (filterR P xs) (\<lambda>ys. Inr (if b then x # ys else ys)))"

lemma filterR_set: "filterR P xs = Inr ys \<Longrightarrow> set ys = {x \<in> set xs. P x = Inr True}"
proof (induction xs arbitrary: ys)
  case (Cons x xs)
  then obtain b zs where b: "P x = Inr b" "filterR P xs = Inr zs" "ys = (if b then x # zs else zs)"
    by (auto simp: bindR_eq_Inr)
  note IH = Cons.IH [OF b(2)]
  show ?case
  proof (cases b)
    case True
    then show ?thesis using b(1) by (auto simp: b(3) IH)
  next
    case False
    then show ?thesis using b(1) by (auto simp: b(3) IH)
  qed
qed simp

section \<open>BigInt operators of the language\<close>

text \<open>
  BigInt division truncates towards zero and \<^verbatim>\<open>%\<close> takes the sign of the
  dividend: \<^term>\<open>(sdiv)\<close> and \<^term>\<open>(smod)\<close> of the library. The shifts are
  arithmetic, and a negative count shifts the other way.
\<close>

definition js_shl :: "int \<Rightarrow> int \<Rightarrow> int" where
  "js_shl v n = (if 0 \<le> n then push_bit (nat n) v else drop_bit (nat (- n)) v)"

definition js_shr :: "int \<Rightarrow> int \<Rightarrow> int" where
  "js_shr v n = js_shl v (- n)"

lemma js_shl_nonneg: "0 \<le> n \<Longrightarrow> js_shl v n = v * 2 ^ nat n"
  by (simp add: js_shl_def push_bit_eq_mult)

lemma js_shr_nonneg: "0 \<le> n \<Longrightarrow> js_shr v n = v div 2 ^ nat n"
  by (cases "n = 0") (simp_all add: js_shr_def js_shl_def drop_bit_eq_div)

lemma js_shl_numeral [js_simps]: "js_shl v (numeral k) = v * 2 ^ numeral k"
  by (simp add: js_shl_nonneg)

lemma js_shr_numeral [js_simps]: "js_shr v (numeral k) = v div 2 ^ numeral k"
  by (simp add: js_shr_nonneg)

lemma smod_pos [js_simps]: "0 \<le> a \<Longrightarrow> 0 < b \<Longrightarrow> a smod b = a mod (b :: int)"
  by (simp add: signed_modulo_int_def signed_divide_int_def minus_div_mult_eq_mod sgn_if)

lemma sdiv_pos [js_simps]: "0 \<le> a \<Longrightarrow> 0 < b \<Longrightarrow> a sdiv b = a div (b :: int)"
  by (auto simp add: signed_divide_int_def sgn_if)

text \<open>The idiom \<^verbatim>\<open>((a % n) + n) % n\<close> is the mathematical remainder.\<close>

lemma smod_twice:
  assumes "0 < n"
  shows "((a smod n) + n) smod n = a mod (n :: int)"
proof -
  have eq: "a smod n = (if 0 \<le> a then a mod n else - (- a mod n))"
    using assms by (auto simp: signed_modulo_int_def sgn_if abs_if)
  have lower: "- n < a smod n"
    using pos_mod_bound [OF assms, of "- a"] pos_mod_sign [OF assms, of a] assms
    unfolding eq by (simp only: split: if_split) linarith
  then have "((a smod n) + n) smod n = ((a smod n) + n) mod n"
    using assms by (simp add: smod_pos)
  also have "\<dots> = a mod n"
    unfolding eq by (simp add: mod_minus_eq)
  finally show ?thesis .
qed

section \<open>Arrays\<close>

text \<open>\<^verbatim>\<open>Array.prototype.find\<close>: the first match, or \<^verbatim>\<open>undefined\<close>.\<close>

lemma find_append: "List.find P (xs @ ys) = (case List.find P xs of None \<Rightarrow> List.find P ys | Some x \<Rightarrow> Some x)"
  by (induction xs) simp_all

lemma find_Some_member: "List.find P xs = Some x \<Longrightarrow> x \<in> set xs \<and> P x"
  by (metis find_Some_iff nth_mem)

lemma filter_eq_Nil_find: "filter P xs = [] \<longleftrightarrow> List.find P xs = None"
  by (auto simp: find_None_iff filter_empty_conv)

end
