(* ===== verification/Dex_Int.thy ===== *)
theory Dex_Int
  imports Prelude "HOL-Library.Word"
begin

text \<open>
  The fixed-width integers of the DEX library,
  \<^verbatim>\<open>services/blockchain-indexer/shared/indexer/utils/dexLib/int\<close>: the limit tables,
  the class \<^verbatim>\<open>BigIntBase\<close> with its wrapping arithmetic, and its subclasses.
  A \<^verbatim>\<open>string\<close>, a BigInt or another instance is accepted wherever the code calls
  \<^verbatim>\<open>BigInt(other.toString())\<close>; the model passes the integer it denotes.
  The locale \<open>int_class\<close> is the contract of a bounded subclass: what its two
  limits are. Every wrap-around, bound and closure fact is proved once there and
  instantiated for each subclass.
\<close>

unbundle bit_operations_syntax

named_theorems bi_defs "definitions of the BigIntBase operations"

section \<open>The limit tables\<close>

definition maxUnsigned :: "(nat \<times> int) list" where
  "maxUnsigned =
    [(8, 255),
     (16, 65535),
     (24, 16777215),
     (32, 4294967295),
     (40, 1099511627775),
     (48, 281474976710655),
     (56, 72057594037927935),
     (64, 18446744073709551615),
     (72, 4722366482869645213695),
     (80, 1208925819614629174706175),
     (88, 309485009821345068724781055),
     (96, 79228162514264337593543950335),
     (104, 20282409603651670423947251286015),
     (112, 5192296858534827628530496329220095),
     (120, 1329227995784915872903807060280344575),
     (128, 340282366920938463463374607431768211455),
     (136, 87112285931760246646623899502532662132735),
     (144, 22300745198530623141535718272648361505980415),
     (152, 5708990770823839524233143877797980545530986495),
     (160, 1461501637330902918203684832716283019655932542975),
     (168, 374144419156711147060143317175368453031918731001855),
     (176, 95780971304118053647396689196894323976171195136475135),
     (184, 24519928653854221733733552434404946937899825954937634815),
     (192, 6277101735386680763835789423207666416102355444464034512895),
     (200, 1606938044258990275541962092341162602522202993782792835301375),
     (208, 411376139330301510538742295639337626245683966408394965837152255),
     (216, 105312291668557186697918027683670432318895095400549111254310977535),
     (224, 26959946667150639794667015087019630673637144422540572481103610249215),
     (232, 6901746346790563787434755862277025452451108972170386555162524223799295),
     (240, 1766847064778384329583297500742918515827483896875618958121606201292619775),
     (248, 452312848583266388373324160190187140051835877600158453279131187530910662655),
     (256, 115792089237316195423570985008687907853269984665640564039457584007913129639935)]"

definition maxSigned :: "(nat \<times> int) list" where
  "maxSigned =
    [(8, 127),
     (16, 32767),
     (24, 8388607),
     (32, 2147483647),
     (40, 549755813887),
     (48, 140737488355327),
     (56, 36028797018963967),
     (64, 9223372036854775807),
     (72, 2361183241434822606847),
     (80, 604462909807314587353087),
     (88, 154742504910672534362390527),
     (96, 39614081257132168796771975167),
     (104, 10141204801825835211973625643007),
     (112, 2596148429267413814265248164610047),
     (120, 664613997892457936451903530140172287),
     (128, 170141183460469231731687303715884105727),
     (136, 43556142965880123323311949751266331066367),
     (144, 11150372599265311570767859136324180752990207),
     (152, 2854495385411919762116571938898990272765493247),
     (160, 730750818665451459101842416358141509827966271487),
     (168, 187072209578355573530071658587684226515959365500927),
     (176, 47890485652059026823698344598447161988085597568237567),
     (184, 12259964326927110866866776217202473468949912977468817407),
     (192, 3138550867693340381917894711603833208051177722232017256447),
     (200, 803469022129495137770981046170581301261101496891396417650687),
     (208, 205688069665150755269371147819668813122841983204197482918576127),
     (216, 52656145834278593348959013841835216159447547700274555627155488767),
     (224, 13479973333575319897333507543509815336818572211270286240551805124607),
     (232, 3450873173395281893717377931138512726225554486085193277581262111899647),
     (240, 883423532389192164791648750371459257913741948437809479060803100646309887),
     (248, 226156424291633194186662080095093570025917938800079226639565593765455331327),
     (256, 57896044618658097711785492504343953926634992332820282019728792003956564819967)]"

definition minSigned :: "(nat \<times> int) list" where
  "minSigned =
    [(8, - 128),
     (16, - 32768),
     (24, - 8388608),
     (32, - 2147483648),
     (40, - 549755813888),
     (48, - 140737488355328),
     (56, - 36028797018963968),
     (64, - 9223372036854775808),
     (72, - 2361183241434822606848),
     (80, - 604462909807314587353088),
     (88, - 154742504910672534362390528),
     (96, - 39614081257132168796771975168),
     (104, - 10141204801825835211973625643008),
     (112, - 2596148429267413814265248164610048),
     (120, - 664613997892457936451903530140172288),
     (128, - 170141183460469231731687303715884105728),
     (136, - 43556142965880123323311949751266331066368),
     (144, - 11150372599265311570767859136324180752990208),
     (152, - 2854495385411919762116571938898990272765493248),
     (160, - 730750818665451459101842416358141509827966271488),
     (168, - 187072209578355573530071658587684226515959365500928),
     (176, - 47890485652059026823698344598447161988085597568237568),
     (184, - 12259964326927110866866776217202473468949912977468817408),
     (192, - 3138550867693340381917894711603833208051177722232017256448),
     (200, - 803469022129495137770981046170581301261101496891396417650688),
     (208, - 205688069665150755269371147819668813122841983204197482918576128),
     (216, - 52656145834278593348959013841835216159447547700274555627155488768),
     (224, - 13479973333575319897333507543509815336818572211270286240551805124608),
     (232, - 3450873173395281893717377931138512726225554486085193277581262111899648),
     (240, - 883423532389192164791648750371459257913741948437809479060803100646309888),
     (248, - 226156424291633194186662080095093570025917938800079226639565593765455331328),
     (256, - 57896044618658097711785492504343953926634992332820282019728792003956564819968)]"

section \<open>BigIntBase\<close>

text \<open>
  An instance: \<^verbatim>\<open>_value\<close>, the arguments \<^verbatim>\<open>signed\<close> and \<^verbatim>\<open>bitSize\<close> its class
  passes to the constructor, and the fields \<^verbatim>\<open>max\<close> and \<^verbatim>\<open>min\<close>, where
  \<^term>\<open>None\<close> is the empty string of an unbounded class.
\<close>

record bigint =
  bi_value :: int
  bi_signed :: bool
  bi_bits :: nat
  bi_max :: "int option"
  bi_min :: "int option"

text \<open>
  \<^verbatim>\<open>setup\<close>: a positive width reads the tables; a width they do not list leaves
  \<^verbatim>\<open>undefined\<close>, on which the constructor's \<^verbatim>\<open>BigInt(this.max)\<close> throws.
\<close>

definition bi_setup :: "bool \<Rightarrow> nat \<Rightarrow> (int option \<times> int option) result" where
  "bi_setup sg bitSize =
     (if bitSize > 0 then
        (case (map_of (if sg then maxSigned else maxUnsigned) bitSize,
               if sg then map_of minSigned bitSize else Some 0) of
           (Some hi, Some lo) \<Rightarrow> Inr (Some hi, Some lo)
         | _ \<Rightarrow> Inl TypeError)
      else Inr (None, None))"

definition bi_new :: "int \<Rightarrow> bool \<Rightarrow> nat \<Rightarrow> bigint result" where
  "bi_new v sg bitSize =
     bindR (bi_setup sg bitSize) (\<lambda>(hi, lo).
       if (\<exists>m \<in> set_option hi. v > m) then Inl (Error ''exceeds maximum value'')
       else if (\<exists>m \<in> set_option lo. v < m) then Inl (Error ''exceeds minimum value'')
       else Inr \<lparr>bi_value = v, bi_signed = sg, bi_bits = bitSize, bi_max = hi, bi_min = lo\<rparr>)"

text \<open>
  \<^verbatim>\<open>BigIntFactory\<close>: an instance of the same class is returned as it is, an
  instance of another class gives its value, anything else is converted.
\<close>

datatype bi_arg = Inst bigint | Raw int

fun BigIntFactory :: "bi_arg \<Rightarrow> bool \<Rightarrow> nat \<Rightarrow> bigint result" where
  "BigIntFactory (Inst b) sg bitSize =
     (if bi_signed b = sg \<and> bi_bits b = bitSize then Inr b
      else bi_new (bi_value b) sg bitSize)"
| "BigIntFactory (Raw v) sg bitSize = bi_new v sg bitSize"

text \<open>\<^verbatim>\<open>toBigNumber\<close> is overridden in each subclass by its own \<^verbatim>\<open>from\<close>.\<close>

definition bi_toBigNumber :: "bigint \<Rightarrow> int \<Rightarrow> bigint result" where
  "bi_toBigNumber b v = BigIntFactory (Raw v) (bi_signed b) (bi_bits b)"

definition bi_hof :: "bigint \<Rightarrow> int \<Rightarrow> int" where
  "bi_hof b v =
     (case (bi_max b, bi_min b) of
        (Some hi, Some lo) \<Rightarrow>
          (if v < lo \<or> v > hi then
             let range = hi - lo + 1
             in ((((v - lo) smod range) + range) smod range) + lo
           else v)
      | _ \<Rightarrow> v)"

definition bi_abs :: "bigint \<Rightarrow> bigint result" where
  "bi_abs b = (if bi_value b < 0 then bi_toBigNumber b (bi_value b * (- 1)) else Inr b)"

definition bi_add :: "bigint \<Rightarrow> int \<Rightarrow> bigint result" where
  "bi_add b v = bi_toBigNumber b (bi_hof b (bi_value b + v))"

definition bi_sub :: "bigint \<Rightarrow> int \<Rightarrow> bigint result" where
  "bi_sub b v = bi_toBigNumber b (bi_hof b (bi_value b - v))"

definition bi_div :: "bigint \<Rightarrow> int \<Rightarrow> bigint result" where
  "bi_div b v =
     (if v = 0 then Inl (Error ''div: division-by-zero'')
      else bi_toBigNumber b (bi_hof b (bi_value b sdiv v)))"

definition bi_mul :: "bigint \<Rightarrow> int \<Rightarrow> bigint result" where
  "bi_mul b v = bi_toBigNumber b (bi_hof b (bi_value b * v))"

definition bi_mod :: "bigint \<Rightarrow> int \<Rightarrow> bigint result" where
  "bi_mod b v =
     (if v = 0 then Inl (Error ''mod: division-by-zero'')
      else bi_toBigNumber b (bi_hof b (((bi_value b smod v) + v) smod v)))"

definition bi_pow :: "bigint \<Rightarrow> int \<Rightarrow> bigint result" where
  "bi_pow b v =
     (if v < 0 then Inl (Error ''pow: negative-power'')
      else bi_toBigNumber b (bi_hof b (bi_value b ^ nat v)))"

definition bi_and :: "bigint \<Rightarrow> int \<Rightarrow> bigint result" where
  "bi_and b v = bi_toBigNumber b (bi_hof b (bi_value b AND v))"

definition bi_not :: "bigint \<Rightarrow> bigint result" where
  "bi_not b = bi_toBigNumber b (bi_hof b (NOT (bi_value b)))"

definition bi_or :: "bigint \<Rightarrow> int \<Rightarrow> bigint result" where
  "bi_or b v = bi_toBigNumber b (bi_hof b (bi_value b OR v))"

definition bi_xor :: "bigint \<Rightarrow> int \<Rightarrow> bigint result" where
  "bi_xor b v = bi_toBigNumber b (bi_hof b (bi_value b XOR v))"

definition bi_shl :: "bigint \<Rightarrow> int \<Rightarrow> bigint result" where
  "bi_shl b v = bi_toBigNumber b (bi_hof b (js_shl (bi_value b) v))"

definition bi_shr :: "bigint \<Rightarrow> int \<Rightarrow> bigint result" where
  "bi_shr b v = bi_toBigNumber b (bi_hof b (js_shr (bi_value b) v))"

definition bi_eq :: "bigint \<Rightarrow> int \<Rightarrow> bool" where
  "bi_eq b v = (bi_value b = v)"

definition bi_neq :: "bigint \<Rightarrow> int \<Rightarrow> bool" where
  "bi_neq b v = (bi_value b \<noteq> v)"

definition bi_lt :: "bigint \<Rightarrow> int \<Rightarrow> bool" where
  "bi_lt b v = (bi_value b < v)"

definition bi_lte :: "bigint \<Rightarrow> int \<Rightarrow> bool" where
  "bi_lte b v = (bi_value b \<le> v)"

definition bi_gt :: "bigint \<Rightarrow> int \<Rightarrow> bool" where
  "bi_gt b v = (bi_value b > v)"

definition bi_gte :: "bigint \<Rightarrow> int \<Rightarrow> bool" where
  "bi_gte b v = (bi_value b \<ge> v)"

definition bi_isNegative :: "bigint \<Rightarrow> bool" where
  "bi_isNegative b = (bi_value b < 0)"

definition bi_isZero :: "bigint \<Rightarrow> bool" where
  "bi_isZero b = (bi_value b = 0)"

lemmas bi_compare_defs =
  bi_eq_def bi_neq_def bi_lt_def bi_lte_def bi_gt_def bi_gte_def bi_isNegative_def bi_isZero_def

lemmas bi_arith_defs [bi_defs] =
  bi_add_def bi_sub_def bi_mul_def bi_and_def bi_not_def bi_or_def bi_xor_def bi_shl_def bi_shr_def

section \<open>The subclasses\<close>

definition Int8_from :: "bi_arg \<Rightarrow> bigint result" where
  "Int8_from v = BigIntFactory v True 8"

definition Int16_from :: "bi_arg \<Rightarrow> bigint result" where
  "Int16_from v = BigIntFactory v True 16"

definition Int24_from :: "bi_arg \<Rightarrow> bigint result" where
  "Int24_from v = BigIntFactory v True 24"

definition Int56_from :: "bi_arg \<Rightarrow> bigint result" where
  "Int56_from v = BigIntFactory v True 56"

definition Int128_from :: "bi_arg \<Rightarrow> bigint result" where
  "Int128_from v = BigIntFactory v True 128"

definition Int256_from :: "bi_arg \<Rightarrow> bigint result" where
  "Int256_from v = BigIntFactory v True 256"

definition Uint_from :: "bi_arg \<Rightarrow> bigint result" where
  "Uint_from v = BigIntFactory v False 0"

definition Uint8_from :: "bi_arg \<Rightarrow> bigint result" where
  "Uint8_from v = BigIntFactory v False 8"

definition Uint16_from :: "bi_arg \<Rightarrow> bigint result" where
  "Uint16_from v = BigIntFactory v False 16"

definition Uint24_from :: "bi_arg \<Rightarrow> bigint result" where
  "Uint24_from v = BigIntFactory v False 24"

definition Uint32_from :: "bi_arg \<Rightarrow> bigint result" where
  "Uint32_from v = BigIntFactory v False 32"

definition Uint64_from :: "bi_arg \<Rightarrow> bigint result" where
  "Uint64_from v = BigIntFactory v False 64"

definition Uint80_from :: "bi_arg \<Rightarrow> bigint result" where
  "Uint80_from v = BigIntFactory v False 80"

definition Uint96_from :: "bi_arg \<Rightarrow> bigint result" where
  "Uint96_from v = BigIntFactory v False 96"

definition Uint128_from :: "bi_arg \<Rightarrow> bigint result" where
  "Uint128_from v = BigIntFactory v False 128"

definition Uint160_from :: "bi_arg \<Rightarrow> bigint result" where
  "Uint160_from v = BigIntFactory v False 160"

definition Uint176_from :: "bi_arg \<Rightarrow> bigint result" where
  "Uint176_from v = BigIntFactory v False 176"

definition Uint192_from :: "bi_arg \<Rightarrow> bigint result" where
  "Uint192_from v = BigIntFactory v False 192"

definition Uint256_from :: "bi_arg \<Rightarrow> bigint result" where
  "Uint256_from v = BigIntFactory v False 256"

section \<open>The contract of a bounded class\<close>

text \<open>The wrap-around into the interval from \<open>lo\<close> to \<open>hi\<close>.\<close>

definition bi_wrap :: "int \<Rightarrow> int \<Rightarrow> int \<Rightarrow> int" where
  "bi_wrap lo hi v = lo + (v - lo) mod (hi - lo + 1)"

lemma bi_wrap_id: "lo \<le> v \<Longrightarrow> v \<le> hi \<Longrightarrow> bi_wrap lo hi v = v"
  by (simp add: bi_wrap_def)

lemma bi_wrap_range:
  assumes "lo \<le> hi"
  shows "lo \<le> bi_wrap lo hi v" and "bi_wrap lo hi v \<le> hi"
proof -
  have "0 < hi - lo + 1" using assms by simp
  from pos_mod_sign [OF this, of "v - lo"] pos_mod_bound [OF this, of "v - lo"]
  show "lo \<le> bi_wrap lo hi v" and "bi_wrap lo hi v \<le> hi"
    by (simp_all add: bi_wrap_def)
qed

lemma bi_wrap_unsigned: "bi_wrap 0 (2 ^ n - 1) v = v mod 2 ^ n"
  by (simp add: bi_wrap_def)

lemma bi_wrap_signed: "bi_wrap (- (2 ^ n)) (2 ^ n - 1) v = signed_take_bit n v"
  by (simp add: bi_wrap_def signed_take_bit_eq_take_bit_shift take_bit_eq_mod)

locale int_class =
  fixes mk :: "int \<Rightarrow> bigint" and sg :: bool and bits :: nat and lo hi :: int
  assumes mk_eq: "mk v = \<lparr>bi_value = v, bi_signed = sg, bi_bits = bits,
                            bi_max = Some hi, bi_min = Some lo\<rparr>"
    and setup_eq: "bi_setup sg bits = Inr (Some hi, Some lo)"
    and lo_le_hi: "lo \<le> hi"
begin

lemma mk_value: "bi_value (mk v) = v"
  by (simp add: mk_eq)

lemma mk_inject: "mk v = mk w \<longleftrightarrow> v = w"
  by (simp add: mk_eq)

lemma new_in: "lo \<le> v \<Longrightarrow> v \<le> hi \<Longrightarrow> bi_new v sg bits = Inr (mk v)"
  by (simp add: bi_new_def setup_eq mk_eq)

lemma new_above: "hi < v \<Longrightarrow> bi_new v sg bits = Inl (Error ''exceeds maximum value'')"
  by (simp add: bi_new_def setup_eq)

lemma new_below: "v < lo \<Longrightarrow> bi_new v sg bits = Inl (Error ''exceeds minimum value'')"
  using lo_le_hi by (simp add: bi_new_def setup_eq)

lemma factory_raw:
  "lo \<le> v \<Longrightarrow> v \<le> hi \<Longrightarrow> BigIntFactory (Raw v) sg bits = Inr (mk v)"
  by (simp add: new_in)

lemma factory_inst:
  "lo \<le> bi_value b \<Longrightarrow> bi_value b \<le> hi \<Longrightarrow> \<not> (bi_signed b = sg \<and> bi_bits b = bits) \<Longrightarrow>
   BigIntFactory (Inst b) sg bits = Inr (mk (bi_value b))"
  by (auto simp add: new_in)

lemma factory_same: "BigIntFactory (Inst (mk v)) sg bits = Inr (mk v)"
  by (simp add: mk_eq)

lemma hof: "bi_hof (mk v) x = bi_wrap lo hi x"
proof -
  have "0 < hi - lo + 1" using lo_le_hi by simp
  then show ?thesis
    by (auto simp: bi_hof_def mk_eq Let_def smod_twice bi_wrap_def)
qed

lemma toBigNumber_hof: "bi_toBigNumber (mk v) (bi_hof (mk v) x) = Inr (mk (bi_wrap lo hi x))"
  using bi_wrap_range [OF lo_le_hi, of x]
  by (simp add: bi_toBigNumber_def hof new_in) (simp add: mk_eq new_in [unfolded mk_eq])

lemma ops_wrap:
  "bi_add (mk v) x = Inr (mk (bi_wrap lo hi (v + x)))"
  "bi_sub (mk v) x = Inr (mk (bi_wrap lo hi (v - x)))"
  "bi_mul (mk v) x = Inr (mk (bi_wrap lo hi (v * x)))"
  "bi_and (mk v) x = Inr (mk (bi_wrap lo hi (v AND x)))"
  "bi_not (mk v) = Inr (mk (bi_wrap lo hi (NOT v)))"
  "bi_or (mk v) x = Inr (mk (bi_wrap lo hi (v OR x)))"
  "bi_xor (mk v) x = Inr (mk (bi_wrap lo hi (v XOR x)))"
  "bi_shl (mk v) x = Inr (mk (bi_wrap lo hi (js_shl v x)))"
  "bi_shr (mk v) x = Inr (mk (bi_wrap lo hi (js_shr v x)))"
  by (simp_all add: bi_defs toBigNumber_hof mk_value)

lemma div_wrap:
  "bi_div (mk v) x = (if x = 0 then Inl (Error ''div: division-by-zero'')
                      else Inr (mk (bi_wrap lo hi (v sdiv x))))"
  by (simp add: bi_div_def toBigNumber_hof mk_value)

lemma mod_wrap:
  "bi_mod (mk v) x = (if x = 0 then Inl (Error ''mod: division-by-zero'')
                      else Inr (mk (bi_wrap lo hi (((v smod x) + x) smod x))))"
  by (simp add: bi_mod_def toBigNumber_hof mk_value)

lemma pow_wrap:
  "bi_pow (mk v) x = (if x < 0 then Inl (Error ''pow: negative-power'')
                      else Inr (mk (bi_wrap lo hi (v ^ nat x))))"
  by (simp add: bi_pow_def toBigNumber_hof mk_value)

lemma compares:
  "bi_eq (mk v) x \<longleftrightarrow> v = x" "bi_neq (mk v) x \<longleftrightarrow> v \<noteq> x"
  "bi_lt (mk v) x \<longleftrightarrow> v < x" "bi_lte (mk v) x \<longleftrightarrow> v \<le> x"
  "bi_gt (mk v) x \<longleftrightarrow> x < v" "bi_gte (mk v) x \<longleftrightarrow> x \<le> v"
  by (auto simp: bi_compare_defs mk_value)

text \<open>Inside the range no operation wraps.\<close>

lemma ops_exact:
  "lo \<le> v + x \<Longrightarrow> v + x \<le> hi \<Longrightarrow> bi_add (mk v) x = Inr (mk (v + x))"
  "lo \<le> v - x \<Longrightarrow> v - x \<le> hi \<Longrightarrow> bi_sub (mk v) x = Inr (mk (v - x))"
  "lo \<le> v * x \<Longrightarrow> v * x \<le> hi \<Longrightarrow> bi_mul (mk v) x = Inr (mk (v * x))"
  "lo \<le> v OR x \<Longrightarrow> v OR x \<le> hi \<Longrightarrow> bi_or (mk v) x = Inr (mk (v OR x))"
  "lo \<le> v AND x \<Longrightarrow> v AND x \<le> hi \<Longrightarrow> bi_and (mk v) x = Inr (mk (v AND x))"
  "lo \<le> js_shl v x \<Longrightarrow> js_shl v x \<le> hi \<Longrightarrow> bi_shl (mk v) x = Inr (mk (js_shl v x))"
  "lo \<le> js_shr v x \<Longrightarrow> js_shr v x \<le> hi \<Longrightarrow> bi_shr (mk v) x = Inr (mk (js_shr v x))"
  by (simp_all add: ops_wrap bi_wrap_id)

text \<open>Every result of every operation is an instance of the class within its limits.\<close>

lemma ops_closed:
  assumes "r \<in> {bi_add (mk v) x, bi_sub (mk v) x, bi_mul (mk v) x, bi_div (mk v) x,
                bi_mod (mk v) x, bi_pow (mk v) x, bi_and (mk v) x, bi_not (mk v),
                bi_or (mk v) x, bi_xor (mk v) x, bi_shl (mk v) x, bi_shr (mk v) x}"
    and "r = Inr b"
  shows "\<exists>w. b = mk w \<and> lo \<le> w \<and> w \<le> hi"
  using assms bi_wrap_range [OF lo_le_hi]
  by (auto simp: ops_wrap div_wrap mod_wrap pow_wrap split: if_splits)

end

text \<open>Instances of the classes the DEX library uses.\<close>

definition u256 :: "int \<Rightarrow> bigint" where
  "u256 v = \<lparr>bi_value = v, bi_signed = False, bi_bits = 256,
             bi_max = Some (2 ^ 256 - 1), bi_min = Some 0\<rparr>"

definition u160 :: "int \<Rightarrow> bigint" where
  "u160 v = \<lparr>bi_value = v, bi_signed = False, bi_bits = 160,
             bi_max = Some (2 ^ 160 - 1), bi_min = Some 0\<rparr>"

definition u128 :: "int \<Rightarrow> bigint" where
  "u128 v = \<lparr>bi_value = v, bi_signed = False, bi_bits = 128,
             bi_max = Some (2 ^ 128 - 1), bi_min = Some 0\<rparr>"

definition i256 :: "int \<Rightarrow> bigint" where
  "i256 v = \<lparr>bi_value = v, bi_signed = True, bi_bits = 256,
             bi_max = Some (2 ^ 255 - 1), bi_min = Some (- (2 ^ 255))\<rparr>"

definition i24 :: "int \<Rightarrow> bigint" where
  "i24 v = \<lparr>bi_value = v, bi_signed = True, bi_bits = 24,
            bi_max = Some (2 ^ 23 - 1), bi_min = Some (- (2 ^ 23))\<rparr>"

interpretation Uint256: int_class u256 False 256 0 "2 ^ 256 - 1"
  by unfold_locales (simp_all add: u256_def bi_setup_def maxUnsigned_def)

interpretation Uint160: int_class u160 False 160 0 "2 ^ 160 - 1"
  by unfold_locales (simp_all add: u160_def bi_setup_def maxUnsigned_def)

interpretation Uint128: int_class u128 False 128 0 "2 ^ 128 - 1"
  by unfold_locales (simp_all add: u128_def bi_setup_def maxUnsigned_def)

interpretation Int256: int_class i256 True 256 "- (2 ^ 255)" "2 ^ 255 - 1"
  by unfold_locales (simp_all add: i256_def bi_setup_def maxSigned_def minSigned_def)

interpretation Int24: int_class i24 True 24 "- (2 ^ 23)" "2 ^ 23 - 1"
  by unfold_locales (simp_all add: i24_def bi_setup_def maxSigned_def minSigned_def)

text \<open>The unbounded class \<^verbatim>\<open>Uint\<close> computes exactly.\<close>

definition uint_inf :: "int \<Rightarrow> bigint" where
  "uint_inf v = \<lparr>bi_value = v, bi_signed = False, bi_bits = 0, bi_max = None, bi_min = None\<rparr>"

lemma Uint_from_raw [simp]: "Uint_from (Raw v) = Inr (uint_inf v)"
  by (simp add: Uint_from_def bi_new_def bi_setup_def uint_inf_def)

lemma uint_inf_value [simp]: "bi_value (uint_inf v) = v"
  by (simp add: uint_inf_def)

lemma uint_inf_ops [simp]:
  "bi_mul (uint_inf v) x = Inr (uint_inf (v * x))"
  "bi_div (uint_inf v) x = (if x = 0 then Inl (Error ''div: division-by-zero'')
                            else Inr (uint_inf (v sdiv x)))"
  "bi_mod (uint_inf v) x = (if x = 0 then Inl (Error ''mod: division-by-zero'')
                            else Inr (uint_inf (((v smod x) + x) smod x)))"
  by (simp_all add: bi_mul_def bi_div_def bi_mod_def bi_toBigNumber_def bi_hof_def bi_new_def
      bi_setup_def uint_inf_def)


section \<open>Properties\<close>

text \<open>
  the limit tables hold, for every multiple of 8 up to 256, exactly the
  largest unsigned, the largest signed and the least signed value of that width.
\<close>

theorem limit_tables_correct:
  "maxUnsigned = map (\<lambda>k. (8 * k, 2 ^ (8 * k) - 1)) [1..<33]
   \<and> maxSigned = map (\<lambda>k. (8 * k, 2 ^ (8 * k - 1) - 1)) [1..<33]
   \<and> minSigned = map (\<lambda>k. (8 * k, - (2 ^ (8 * k - 1)))) [1..<33]"
  by (intro conjI) code_simp+

lemma uint256_wrap: "bi_wrap 0 (2 ^ 256 - 1) v = v mod 2 ^ LENGTH(256)"
  using bi_wrap_unsigned [of 256 v] by simp

lemma uint256_wrap_take_bit: "bi_wrap 0 (2 ^ 256 - 1) v = take_bit LENGTH(256) v"
  by (simp only: uint256_wrap take_bit_eq_mod)

lemma int256_wrap: "bi_wrap (- (2 ^ 255)) (2 ^ 255 - 1) v = signed_take_bit (LENGTH(256) - 1) v"
  using bi_wrap_signed [of 255 v] by simp

lemma uint256_wrap_uint: "bi_wrap 0 (2 ^ 256 - 1) (uint (w :: 256 word)) = uint w"
  by (simp only: uint256_wrap_take_bit bintr_uint [OF order_refl])

lemma int256_wrap_sint: "bi_wrap (- (2 ^ 255)) (2 ^ 255 - 1) (sint (w :: 256 word)) = sint w"
  by (simp only: int256_wrap) (simp add: sint_uint)

lemma uint_drop_bit256: "uint (drop_bit n (w :: 256 word)) = drop_bit n (uint w)"
  by (simp only: unsigned_drop_bit_eq bintr_uint [OF order_refl])

lemma js_shr_int: "js_shr v (int n) = drop_bit n v"
  by (simp add: js_shr_nonneg drop_bit_eq_div)

text \<open>
  C14: the unsigned 256-bit class is 256-bit machine arithmetic: on the values of two
  words, every operation returns (never throws, division by zero apart) and its value
  is that of the word operation, wrap-around included.
\<close>

theorem Uint256_is_word_arithmetic:
  fixes a b :: "256 word"
  shows "bi_add (u256 (uint a)) (uint b) = Inr (u256 (uint (a + b)))
    \<and> bi_sub (u256 (uint a)) (uint b) = Inr (u256 (uint (a - b)))
    \<and> bi_mul (u256 (uint a)) (uint b) = Inr (u256 (uint (a * b)))
    \<and> bi_div (u256 (uint a)) (uint b) =
           (if b = 0 then Inl (Error ''div: division-by-zero'') else Inr (u256 (uint (a div b))))
    \<and> bi_mod (u256 (uint a)) (uint b) =
           (if b = 0 then Inl (Error ''mod: division-by-zero'') else Inr (u256 (uint (a mod b))))
    \<and> bi_and (u256 (uint a)) (uint b) = Inr (u256 (uint (a AND b)))
    \<and> bi_or (u256 (uint a)) (uint b) = Inr (u256 (uint (a OR b)))
    \<and> bi_xor (u256 (uint a)) (uint b) = Inr (u256 (uint (a XOR b)))
    \<and> bi_not (u256 (uint a)) = Inr (u256 (uint (NOT a)))
    \<and> bi_shl (u256 (uint a)) (int n) = Inr (u256 (uint (push_bit n a)))
    \<and> bi_shr (u256 (uint a)) (int n) = Inr (u256 (uint (drop_bit n a)))"
proof (intro conjI)
  have pos: "b \<noteq> 0 \<Longrightarrow> 0 < uint b"
    by (simp add: word_greater_zero_iff [symmetric] word_less_def)
  show "bi_add (u256 (uint a)) (uint b) = Inr (u256 (uint (a + b)))"
    by (simp only: Uint256.ops_wrap uint256_wrap uint_word_ariths)
  show "bi_sub (u256 (uint a)) (uint b) = Inr (u256 (uint (a - b)))"
    by (simp only: Uint256.ops_wrap uint256_wrap uint_word_ariths)
  show "bi_mul (u256 (uint a)) (uint b) = Inr (u256 (uint (a * b)))"
    by (simp only: Uint256.ops_wrap uint256_wrap uint_word_ariths)
  show "bi_div (u256 (uint a)) (uint b) =
      (if b = 0 then Inl (Error ''div: division-by-zero'') else Inr (u256 (uint (a div b))))"
    using pos
    by (auto simp only: Uint256.div_wrap sdiv_pos uint_ge_0 uint_div_distrib [symmetric]
        uint256_wrap_uint uint_0_iff split: if_split)
  show "bi_mod (u256 (uint a)) (uint b) =
      (if b = 0 then Inl (Error ''mod: division-by-zero'') else Inr (u256 (uint (a mod b))))"
    using pos
    by (auto simp only: Uint256.mod_wrap smod_twice uint_mod_distrib [symmetric]
        uint256_wrap_uint uint_0_iff split: if_split)
  show "bi_and (u256 (uint a)) (uint b) = Inr (u256 (uint (a AND b)))"
    by (simp only: Uint256.ops_wrap unsigned_and_eq [symmetric] uint256_wrap_uint)
  show "bi_or (u256 (uint a)) (uint b) = Inr (u256 (uint (a OR b)))"
    by (simp only: Uint256.ops_wrap unsigned_or_eq [symmetric] uint256_wrap_uint)
  show "bi_xor (u256 (uint a)) (uint b) = Inr (u256 (uint (a XOR b)))"
    by (simp only: Uint256.ops_wrap unsigned_xor_eq [symmetric] uint256_wrap_uint)
  show "bi_not (u256 (uint a)) = Inr (u256 (uint (NOT a)))"
    by (simp only: Uint256.ops_wrap uint256_wrap_take_bit) (simp add: unsigned_not_eq)
  show "bi_shl (u256 (uint a)) (int n) = Inr (u256 (uint (push_bit n a)))"
    by (simp only: Uint256.ops_wrap uint256_wrap_take_bit js_shl_def)
       (simp add: unsigned_push_bit_eq)
  show "bi_shr (u256 (uint a)) (int n) = Inr (u256 (uint (drop_bit n a)))"
    by (simp only: Uint256.ops_wrap js_shr_int uint_drop_bit256 [symmetric] uint256_wrap_uint)
qed

text \<open>
  the signed 256-bit class is two's-complement 256-bit arithmetic.
\<close>

theorem Int256_is_signed_word_arithmetic:
  fixes a b :: "256 word"
  shows "bi_add (i256 (sint a)) (sint b) = Inr (i256 (sint (a + b)))
    \<and> bi_sub (i256 (sint a)) (sint b) = Inr (i256 (sint (a - b)))
    \<and> bi_mul (i256 (sint a)) (sint b) = Inr (i256 (sint (a * b)))
    \<and> bi_or (i256 (sint a)) (sint b) = Inr (i256 (sint (a OR b)))
    \<and> bi_shr (i256 (sint a)) (int n) = Inr (i256 (sint (signed_drop_bit n a)))"
proof (intro conjI)
  show "bi_add (i256 (sint a)) (sint b) = Inr (i256 (sint (a + b)))"
    by (simp only: Int256.ops_wrap int256_wrap sint_word_ariths)
  show "bi_sub (i256 (sint a)) (sint b) = Inr (i256 (sint (a - b)))"
    by (simp only: Int256.ops_wrap int256_wrap sint_word_ariths)
  show "bi_mul (i256 (sint a)) (sint b) = Inr (i256 (sint (a * b)))"
    by (simp only: Int256.ops_wrap int256_wrap sint_word_ariths)
  show "bi_or (i256 (sint a)) (sint b) = Inr (i256 (sint (a OR b)))"
    by (simp only: Int256.ops_wrap signed_or_eq [symmetric] int256_wrap_sint)
  show "bi_shr (i256 (sint a)) (int n) = Inr (i256 (sint (signed_drop_bit n a)))"
    by (simp only: Int256.ops_wrap js_shr_int sint_signed_drop_bit_eq [symmetric] int256_wrap_sint)
qed

end
