(* ===== verification/Tick_Math.thy ===== *)
theory Tick_Math
  imports Dex_Int
begin

text \<open>
  \<^verbatim>\<open>dexLib/core/full_math.js\<close> and \<^verbatim>\<open>dexLib/tick_math.js\<close>: multiplication followed by
  division with the 256-bit overflow check, and the conversions between a tick and its
  square-root price. Decimal and hexadecimal strings are the integers they denote.
  The conversion from a tick is first shown to be exact integer arithmetic (no operation
  of the straight-line code wraps or throws inside the tick range); strict monotonicity
  and the bounds are then proved on that reference function.
\<close>

section \<open>Full-precision multiplication and division\<close>

definition MAX_UINT256 :: int where
  "MAX_UINT256 = 2 ^ 256 - 1"

definition mulDiv :: "int \<Rightarrow> int \<Rightarrow> int \<Rightarrow> int result" where
  "mulDiv a b denominator =
     (if denominator = 0 then Inl (Error ''Denominator must be greater than zero'')
      else bindR (Uint_from (Raw a)) (\<lambda>x. bindR (bi_mul x b) (\<lambda>p. bindR (bi_div p denominator) (\<lambda>q.
        if bi_gt q MAX_UINT256 then Inl (Error ''overflow'')
        else if a = 0 \<or> b = 0 then Inr 0
        else Inr (bi_value q)))))"

definition mulDivRoundingUp :: "int \<Rightarrow> int \<Rightarrow> int \<Rightarrow> int result" where
  "mulDivRoundingUp a b denominator =
     bindR (mulDiv a b denominator) (\<lambda>d. bindR (Uint256_from (Raw d)) (\<lambda>result.
       bindR (Uint_from (Raw a)) (\<lambda>x. bindR (bi_mul x b) (\<lambda>p. bindR (bi_mod p denominator) (\<lambda>m.
         if bi_gt m 0 then
           if bi_gte result MAX_UINT256
           then Inl (Error ''Result exceeds the maximum value for uint256'')
           else bindR (bi_add result 1) (\<lambda>r. Inr (bi_value r))
         else Inr (bi_value result))))))"

section \<open>The price of a tick\<close>

definition MIN_TICK :: int where "MIN_TICK = - 887272"
definition MAX_TICK :: int where "MAX_TICK = 887272"
definition MIN_SQRT_RATIO :: int where "MIN_SQRT_RATIO = 4295128739"
definition MAX_SQRT_RATIO :: int where
  "MAX_SQRT_RATIO = 1461446703485210103287273052203988822378723970342"

text \<open>
  The nineteen statements
  \<^verbatim>\<open>if (!absTick.and(mask).eq(0)) ratio = ratio.mul(factor).shr(128)\<close> as a table of
  masks and factors and one statement.
\<close>

definition tick_factors :: "(int \<times> int) list" where
  "tick_factors =
    [(2, 340248342086729790484326174814286782778),
     (4, 340214320654664324051920982716015181260),
     (8, 340146287995602323631171512101879684304),
     (16, 340010263488231146823593991679159461444),
     (32, 339738377640345403697157401104375502016),
     (64, 339195258003219555707034227454543997025),
     (128, 338111622100601834656805679988414885971),
     (256, 335954724994790223023589805789778977700),
     (512, 331682121138379247127172139078559817300),
     (1024, 323299236684853023288211250268160618739),
     (2048, 307163716377032989948697243942600083929),
     (4096, 277268403626896220162999269216087595045),
     (8192, 225923453940442621947126027127485391333),
     (16384, 149997214084966997727330242082538205943),
     (32768, 66119101136024775622716233608466517926),
     (65536, 12847376061809297530290974190478138313),
     (131072, 485053260817066172746253684029974020),
     (262144, 691415978906521570653435304214168),
     (524288, 1404880482679654955896180642)]"

definition ratio_step :: "bigint \<Rightarrow> int \<times> int \<Rightarrow> bigint \<Rightarrow> bigint result" where
  "ratio_step absTick mf ratio =
     bindR (bi_and absTick (fst mf)) (\<lambda>b.
       if \<not> bi_eq b 0 then bindR (bi_mul ratio (snd mf)) (\<lambda>p. bi_shr p 128) else Inr ratio)"

definition getSqrtRatioAtTick :: "int \<Rightarrow> int result" where
  "getSqrtRatioAtTick tick =
     bindR (Int24_from (Raw tick)) (\<lambda>t. bindR (bi_abs t) (\<lambda>a. bindR (Uint256_from (Inst a)) (\<lambda>absTick.
       if bi_gt absTick MAX_TICK then Inl (Error ''T'')
       else
         bindR (bi_and absTick 1) (\<lambda>b.
         bindR (Uint256_from (Raw (if \<not> bi_eq b 0 then 340265354078544963557816517032075149313
                                   else 340282366920938463463374607431768211456))) (\<lambda>ratio0.
         bindR (foldR (ratio_step absTick) tick_factors ratio0) (\<lambda>ratio1.
         bindR (if bi_gt t 0
                then bindR (Uint256_from (Raw MAX_UINT256)) (\<lambda>m. bi_div m (bi_value ratio1))
                else Inr ratio1) (\<lambda>ratio.
         bindR (bi_shr ratio 32) (\<lambda>hi. bindR (Uint160_from (Inst hi)) (\<lambda>sqrtPriceX96.
         bindR (bindR (Uint256_from (Raw 1)) (\<lambda>one. bi_shl one 32)) (\<lambda>m32.
         bindR (bi_mod ratio (bi_value m32)) (\<lambda>rm.
         bindR (bi_add sqrtPriceX96 (if bi_eq rm 0 then 0 else 1)) (\<lambda>r.
           Inr (bi_value r)))))))))))))"

section \<open>The tick of a price\<close>

text \<open>
  The search for the most significant bit: seven statements with a threshold and a
  shift, then a last one that does not shift \<open>r\<close>.
\<close>

definition msb_thresholds :: "(int \<times> int) list" where
  "msb_thresholds =
    [(340282366920938463463374607431768211455, 7), (18446744073709551615, 6),
     (4294967295, 5), (65535, 4), (255, 3), (15, 2), (3, 1)]"

definition msb_step :: "int \<times> int \<Rightarrow> bigint \<times> bigint \<Rightarrow> (bigint \<times> bigint) result" where
  "msb_step ts rm = (case rm of (r, msb) \<Rightarrow>
     bindR (Uint256_from (Raw (if bi_gt r (fst ts) then 1 else 0))) (\<lambda>g. bindR (bi_shl g (snd ts)) (\<lambda>f.
       bindR (bi_or msb (bi_value f)) (\<lambda>msb'. bindR (bi_shr r (bi_value f)) (\<lambda>r'.
         Inr (r', msb'))))))"

definition find_msb :: "bigint \<Rightarrow> bigint result" where
  "find_msb ratio =
     bindR (Uint256_from (Inst ratio)) (\<lambda>r0. bindR (Uint256_from (Raw 0)) (\<lambda>msb0.
       bindR (foldR msb_step msb_thresholds (r0, msb0)) (\<lambda>(r, msb).
         bindR (Uint256_from (Raw (if bi_gt r 1 then 1 else 0))) (\<lambda>f.
           bi_or msb (bi_value f)))))"

text \<open>The fourteen squarings that append the fractional bits 63 down to 50 of the logarithm.\<close>

definition log_step :: "int \<Rightarrow> bigint \<times> bigint \<Rightarrow> (bigint \<times> bigint) result" where
  "log_step k rl = (case rl of (r, log_2) \<Rightarrow>
     bindR (bindR (bi_mul r (bi_value r)) (\<lambda>p. bi_shr p 127)) (\<lambda>r'.
       bindR (bi_shr r' 128) (\<lambda>f. bindR (bi_shl f k) (\<lambda>fk.
         bindR (bi_or log_2 (bi_value fk)) (\<lambda>log_2'. bindR (bi_shr r' (bi_value f)) (\<lambda>r''.
           Inr (r'', log_2')))))))"

definition getTickAtSqrtRatio :: "int \<Rightarrow> int result" where
  "getTickAtSqrtRatio sqrtPriceX96 =
     bindR (Uint160_from (Raw sqrtPriceX96)) (\<lambda>p.
       if \<not> (bi_gte p MIN_SQRT_RATIO \<and> bi_lt p MAX_SQRT_RATIO) then Inl (Error ''R'')
       else
         bindR (bindR (Uint256_from (Raw sqrtPriceX96)) (\<lambda>x. bi_shl x 32)) (\<lambda>ratio.
         bindR (find_msb ratio) (\<lambda>msb.
         bindR (if bi_gte msb 128
                then bindR (bi_sub msb 127) (\<lambda>s. bi_shr ratio (bi_value s))
                else bindR (bindR (Uint256_from (Raw 127)) (\<lambda>c. bi_sub c (bi_value msb)))
                       (\<lambda>s. bi_shl ratio (bi_value s))) (\<lambda>r.
         bindR (bindR (bindR (Int256_from (Inst msb)) (\<lambda>m. bi_sub m 128)) (\<lambda>m. bi_shl m 64)) (\<lambda>l0.
         bindR (foldR log_step [63, 62, 61, 60, 59, 58, 57, 56, 55, 54, 53, 52, 51, 50] (r, l0))
           (\<lambda>(_, log_2).
         bindR (bi_mul log_2 255738958999603826347141) (\<lambda>log_sqrt10001.
         bindR (bindR (bindR (bi_sub log_sqrt10001 3402992956809132418596140100660247210)
                  (\<lambda>x. bi_shr x 128)) (\<lambda>x. Int24_from (Inst x))) (\<lambda>tickLow.
         bindR (bindR (bindR (bi_add log_sqrt10001 291339464771989622907027621153398088495)
                  (\<lambda>x. bi_shr x 128)) (\<lambda>x. Int24_from (Inst x))) (\<lambda>tickHi.
         if bi_eq tickLow (bi_value tickHi) then Inr (bi_value tickLow)
         else bindR (getSqrtRatioAtTick (bi_value tickHi)) (\<lambda>s. bindR (Int256_from (Raw s)) (\<lambda>x.
           if bi_lte x sqrtPriceX96 then Inr (bi_value tickHi) else Inr (bi_value tickLow))))))))))))"

section \<open>Reference definitions\<close>

text \<open>\<open>mulDiv\<close> is exact: floor of the quotient, or an error.\<close>

lemma mulDiv_eq:
  assumes "0 \<le> a" and "0 \<le> b" and "0 < d"
  shows "mulDiv a b d = (if a * b div d > MAX_UINT256 then Inl (Error ''overflow'')
                         else Inr (a * b div d))"
  using assms by (auto simp: mulDiv_def bi_gt_def sdiv_pos)

text \<open>One factor: \<^verbatim>\<open>ratio.mul(c).shr(128)\<close> without wrap-around.\<close>

definition mul_shr :: "int \<Rightarrow> int \<Rightarrow> int" where
  "mul_shr r c = r * c div 2 ^ 128"

text \<open>
  \<open>tick_fold\<close> multiplies in the factors selected by the binary digits of \<open>n\<close>,
  \<open>tick_full\<close> multiplies in all of them.
\<close>

fun tick_fold :: "int list \<Rightarrow> int \<Rightarrow> int \<Rightarrow> int" where
  "tick_fold [] n r = r"
| "tick_fold (c # cs) n r = tick_fold cs (n div 2) (if odd n then mul_shr r c else r)"

fun tick_full :: "int list \<Rightarrow> int \<Rightarrow> int" where
  "tick_full [] r = r"
| "tick_full (c # cs) r = tick_full cs (mul_shr r c)"

definition tick_constants :: "int list" where
  "tick_constants = 340265354078544963557816517032075149313 # map snd tick_factors"

definition ratio_at :: "int \<Rightarrow> int" where
  "ratio_at n = tick_fold tick_constants n (2 ^ 128)"

definition ceil_shr32 :: "int \<Rightarrow> int" where
  "ceil_shr32 x = x div 2 ^ 32 + (if x mod 2 ^ 32 = 0 then 0 else 1)"

definition signed_ratio :: "int \<Rightarrow> int" where
  "signed_ratio t = (if t > 0 then (2 ^ 256 - 1) div ratio_at \<bar>t\<bar> else ratio_at \<bar>t\<bar>)"

abbreviation unit_factors :: "int list \<Rightarrow> bool" where
  "unit_factors cs \<equiv> \<forall>c \<in> set cs. 0 \<le> c \<and> c \<le> 2 ^ 128"

lemma factor_shrinks:
  assumes "0 \<le> r" and "0 \<le> c" and "c \<le> 2 ^ 128"
  shows "0 \<le> mul_shr r c" and "mul_shr r c \<le> r"
proof -
  have "0 \<le> r * c" using assms by simp
  then show "0 \<le> mul_shr r c" unfolding mul_shr_def by (intro pos_imp_zdiv_nonneg_iff [THEN iffD2]) auto
  have "r * c \<le> r * 2 ^ 128" using assms by (intro mult_left_mono) auto
  then have "r * c div 2 ^ 128 \<le> r * 2 ^ 128 div 2 ^ 128" by (intro zdiv_mono1) auto
  then show "mul_shr r c \<le> r" by (simp add: mul_shr_def)
qed

lemma factor_mono: "0 \<le> c \<Longrightarrow> r \<le> s \<Longrightarrow> mul_shr r c \<le> mul_shr s c"
  unfolding mul_shr_def by (intro zdiv_mono1 mult_right_mono) auto

lemma div_add_le:
  assumes "0 < k"
  shows "a div k + b div k \<le> (a + b) div (k :: int)"
proof -
  have "k * (a div k) \<le> a" and "k * (b div k) \<le> b"
    using assms by (simp_all add: minus_mod_eq_mult_div [symmetric])
  then have "k * (a div k + b div k) div k \<le> (a + b) div k"
    using assms by (intro zdiv_mono1) (simp_all add: distrib_left)
  then show ?thesis using assms by simp
qed

lemma factor_superadditive:
  "mul_shr r c + mul_shr s c \<le> mul_shr (r + s) c"
  using div_add_le [of "2 ^ 128" "r * c" "s * c"] by (simp add: mul_shr_def distrib_right)

lemma tick_fold_mono:
  "unit_factors cs \<Longrightarrow> r \<le> s \<Longrightarrow> tick_fold cs n r \<le> tick_fold cs n s"
  by (induction cs arbitrary: n r s) (auto intro: factor_mono)

lemma tick_fold_superadditive:
  "unit_factors cs \<Longrightarrow> tick_fold cs n r + tick_fold cs n s \<le> tick_fold cs n (r + s)"
proof (induction cs arbitrary: n r s)
  case Nil
  then show ?case by simp
next
  case (Cons c cs)
  let ?f = "\<lambda>x. if odd n then mul_shr x c else x"
  have "tick_fold cs (n div 2) (?f r) + tick_fold cs (n div 2) (?f s)
        \<le> tick_fold cs (n div 2) (?f r + ?f s)"
    using Cons by simp
  also have "\<dots> \<le> tick_fold cs (n div 2) (?f (r + s))"
    using Cons.prems factor_superadditive [of r c s] by (intro tick_fold_mono) auto
  finally show ?case by simp
qed

lemma tick_full_mono: "unit_factors cs \<Longrightarrow> r \<le> s \<Longrightarrow> tick_full cs r \<le> tick_full cs s"
  by (induction cs arbitrary: r s) (auto intro: factor_mono)

lemma tick_full_le_fold: "unit_factors cs \<Longrightarrow> 0 \<le> r \<Longrightarrow> tick_full cs r \<le> tick_fold cs n r"
proof (induction cs arbitrary: n r)
  case Nil
  then show ?case by simp
next
  case (Cons c cs)
  let ?q = "mul_shr r c"
  have q: "0 \<le> ?q" "?q \<le> r" using Cons.prems by (intro factor_shrinks; simp)+
  have "tick_full cs ?q \<le> tick_fold cs (n div 2) ?q" using Cons q by simp
  also have "\<dots> \<le> tick_fold cs (n div 2) (if odd n then ?q else r)"
    using Cons.prems q by (intro tick_fold_mono) auto
  finally show ?case by simp
qed

lemma tick_fold_bounds: "unit_factors cs \<Longrightarrow> 0 \<le> r \<Longrightarrow> 0 \<le> tick_fold cs n r \<and> tick_fold cs n r \<le> r"
proof (induction cs arbitrary: n r)
  case Nil
  then show ?case by simp
next
  case (Cons c cs)
  let ?q = "if odd n then mul_shr r c else r"
  have "0 \<le> ?q" "?q \<le> r" using Cons.prems factor_shrinks [of r c] by auto
  with Cons.IH [of ?q "n div 2"] Cons.prems show ?case by simp
qed

section \<open>Consecutive ticks differ by a fixed margin\<close>

text \<open>
  Adding one to \<open>m\<close> turns its trailing ones into zeros and the next zero into a one.
  \<open>gap_ok g cs r r'\<close> checks, for every position of that digit, that the product of
  the factors below it (accumulated in \<open>r'\<close>) exceeds the factor of the digit itself
  by enough that at least \<open>g\<close> survives all remaining factors.
\<close>

fun gap_ok :: "int \<Rightarrow> int list \<Rightarrow> int \<Rightarrow> int \<Rightarrow> bool" where
  "gap_ok g [] r r' \<longleftrightarrow> True"
| "gap_ok g (c # cs) r r' \<longleftrightarrow>
     mul_shr r c \<le> r' \<and> g \<le> tick_full cs (r' - mul_shr r c)
     \<and> gap_ok g cs r (mul_shr r' c)"

lemma tick_fold_gap:
  "unit_factors cs \<Longrightarrow> gap_ok g cs r r' \<Longrightarrow> 0 \<le> m \<Longrightarrow> m + 1 < 2 ^ length cs \<Longrightarrow>
   tick_fold cs (m + 1) r + g \<le> tick_fold cs m r'"
proof (induction cs arbitrary: m r r')
  case Nil
  then show ?case by simp
next
  case (Cons c cs)
  let ?x = "mul_shr r c"
  show ?case
  proof (cases "even m")
    case True
    then have half: "(m + 1) div 2 = m div 2" "odd (m + 1)" by auto
    from Cons.prems have u: "unit_factors cs" and le: "?x \<le> r'" and g: "g \<le> tick_full cs (r' - ?x)"
      by auto
    have "tick_full cs (r' - ?x) \<le> tick_fold cs (m div 2) (r' - ?x)"
      using u le by (intro tick_full_le_fold) auto
    with g have "tick_fold cs (m div 2) ?x + g
                 \<le> tick_fold cs (m div 2) ?x + tick_fold cs (m div 2) (r' - ?x)" by simp
    also have "\<dots> \<le> tick_fold cs (m div 2) r'"
      using tick_fold_superadditive [OF u, of "m div 2" ?x "r' - ?x"] by simp
    finally show ?thesis using half True by simp
  next
    case False
    then have half: "(m + 1) div 2 = m div 2 + 1" "even (m + 1)" by auto
    have "m div 2 + 1 < 2 ^ length cs"
      using Cons.prems(4) False by (auto elim!: oddE)
    then have "tick_fold cs (m div 2 + 1) r + g \<le> tick_fold cs (m div 2) (mul_shr r' c)"
      using Cons.prems False by (intro Cons.IH) auto
    then show ?thesis using half False by simp
  qed
qed

lemma unit_tick_constants: "unit_factors tick_constants"
  by code_simp

lemma gap_ok_tick_constants: "gap_ok (2 ^ 38) tick_constants (2 ^ 128) (2 ^ 128)"
  by code_simp

lemma length_tick_constants [simp]: "length tick_constants = 20"
  by (simp add: tick_constants_def tick_factors_def)

lemma ratio_at_gap:
  assumes "0 \<le> n" and "n < 2 ^ 20 - 1"
  shows "ratio_at (n + 1) + 2 ^ 38 \<le> ratio_at n"
  using tick_fold_gap [OF unit_tick_constants gap_ok_tick_constants, of n] assms
  by (simp add: ratio_at_def)

lemma ratio_at_antimono:
  assumes "0 \<le> m" and "m \<le> n" and "n < 2 ^ 20"
  shows "ratio_at n \<le> ratio_at m"
  using assms(2,1,3)
proof (induction n rule: int_ge_induct)
  case base
  then show ?case by simp
next
  case (step i)
  then have "ratio_at (i + 1) + 2 ^ 38 \<le> ratio_at i" by (intro ratio_at_gap) auto
  with step show ?case by simp
qed

lemma ratio_at_0: "ratio_at 0 = 2 ^ 128"
  by code_simp

lemma ratio_at_max: "ratio_at 887272 = 18447437462383981825"
  by code_simp

lemma ratio_at_range:
  assumes "0 \<le> n" and "n \<le> 887272"
  shows "18447437462383981825 \<le> ratio_at n" and "ratio_at n \<le> 2 ^ 128"
  using ratio_at_antimono [of n 887272] ratio_at_antimono [of 0 n] assms
  by (simp_all add: ratio_at_0 ratio_at_max)

section \<open>The code refines the reference\<close>

lemma u256_and_digit:
  assumes "0 \<le> n" and "n < 2 ^ 256"
  shows "bindR (bi_and (u256 n) (2 ^ k)) (\<lambda>b. f (\<not> bi_eq b 0)) = f (odd (n div 2 ^ k))"
proof -
  have "n AND 2 ^ k \<le> n" "0 \<le> n AND 2 ^ k" using assms(1) by (simp_all add: AND_upper1)
  with assms have "bi_and (u256 n) (2 ^ k) = Inr (u256 (n AND 2 ^ k))"
    by (intro Uint256.ops_exact) auto
  then show ?thesis
    by (simp add: Uint256.compares and_exp_eq_0_iff_not_bit bit_iff_odd)
qed

lemma ratio_step_refines:
  assumes "0 \<le> n" and "n < 2 ^ 256" and "0 \<le> r" and "r \<le> 2 ^ 128" and "0 \<le> c" and "c < 2 ^ 128"
  shows "ratio_step (u256 n) (2 ^ k, c) (u256 r) =
         Inr (u256 (if odd (n div 2 ^ k) then mul_shr r c else r))"
proof -
  have "r * c \<le> 2 ^ 128 * (2 ^ 128 - 1)" using assms by (intro mult_mono) auto
  moreover have "0 \<le> r * c" using assms by simp
  ultimately have m: "bi_mul (u256 r) c = Inr (u256 (r * c))"
    by (intro Uint256.ops_exact) auto
  have sh: "js_shr (r * c) 128 = mul_shr r c" by (simp add: js_shr_numeral mul_shr_def)
  have "bi_shr (u256 (r * c)) 128 = Inr (u256 (mul_shr r c))"
    using factor_shrinks [of r c] assms unfolding sh [symmetric] by (intro Uint256.ops_exact) auto
  with m show ?thesis
    using u256_and_digit [OF assms(1,2), of k
        "\<lambda>d. if d then bindR (bi_mul (u256 r) c) (\<lambda>p. bi_shr p 128) else Inr (u256 r)"]
    unfolding ratio_step_def fst_conv snd_conv by simp
qed

lemma foldR_ratio_step:
  assumes "0 \<le> n" and "n < 2 ^ 256"
  shows "0 \<le> r \<Longrightarrow> r \<le> 2 ^ 128 \<Longrightarrow> \<forall>c \<in> set cs. 0 \<le> c \<and> c < 2 ^ 128 \<Longrightarrow>
    foldR (ratio_step (u256 n)) (zip (map ((^) 2) [k..<k + length cs]) cs) (u256 r) =
    Inr (u256 (tick_fold cs (n div 2 ^ k) r))"
proof (induction cs arbitrary: k r)
  case Nil
  then show ?case by simp
next
  case (Cons c cs)
  let ?q = "if odd (n div 2 ^ k) then mul_shr r c else r"
  have q: "0 \<le> ?q" "?q \<le> 2 ^ 128" using Cons.prems factor_shrinks [of r c] by auto
  have up: "[k..<k + length (c # cs)] = k # [Suc k..<Suc k + length cs]"
    by (simp add: upt_rec)
  have half: "n div 2 ^ k div 2 = n div 2 ^ Suc k" by (simp add: power_Suc2 zdiv_zmult2_eq del: power_Suc)
  have st: "ratio_step (u256 n) (2 ^ k, c) (u256 r) = Inr (u256 ?q)"
    using Cons.prems by (intro ratio_step_refines assms) auto
  show ?case
    unfolding up list.map zip_Cons_Cons foldR.simps st bindR_Inr tick_fold.simps half
    using Cons.prems by (intro Cons.IH q) auto
qed

lemma tick_factors_zip:
  "tick_factors = zip (map ((^) 2) [1..<1 + length (map snd tick_factors)]) (map snd tick_factors)"
  by code_simp

lemma strict_tick_factors: "\<forall>c \<in> set (map snd tick_factors). 0 \<le> c \<and> c < 2 ^ 128"
  by code_simp

lemma ratio_at_split:
  "ratio_at n = tick_fold (map snd tick_factors) (n div 2 ^ 1)
     (if odd n then 340265354078544963557816517032075149313 else 340282366920938463463374607431768211456)"
  by (simp add: ratio_at_def tick_constants_def mul_shr_def)


lemma ceil_shr32_range: "0 \<le> x \<Longrightarrow> x < 2 ^ 192 - 2 ^ 32 \<Longrightarrow> 0 \<le> ceil_shr32 x \<and> ceil_shr32 x < 2 ^ 160"
  by (auto simp: ceil_shr32_def)

lemma ceil_div_eq:
  assumes "0 < k"
  shows "x div k + (if x mod k = 0 then 0 else 1) = (x + (k - 1)) div (k :: int)"
proof -
  have "(x + (k - 1)) div k = ((x mod k + (k - 1)) + x div k * k) div k"
    using div_mult_mod_eq [of x k] by (simp add: algebra_simps)
  also have "\<dots> = x div k + (x mod k + (k - 1)) div k"
    using assms by (intro div_mult_self1) simp
  also have "(x mod k + (k - 1)) div k = (if x mod k = 0 then 0 else 1)"
  proof (cases "x mod k = 0")
    case True
    then show ?thesis using assms by (simp add: div_pos_pos_trivial)
  next
    case False
    then have "0 \<le> x mod k - 1" "x mod k - 1 < k"
      using pos_mod_sign [OF assms, of x] pos_mod_bound [OF assms, of x] by linarith+
    then have "(x mod k - 1 + k) div k = 1" using assms by (subst div_add_self2) auto
    then show ?thesis using False by (simp add: algebra_simps)
  qed
  finally show ?thesis by simp
qed

lemma ceil_shr32_strict:
  assumes "x + 2 ^ 32 \<le> y"
  shows "ceil_shr32 x < ceil_shr32 y"
proof -
  have "(x + (2 ^ 32 - 1)) div 2 ^ 32 + 1 = (x + (2 ^ 32 - 1) + 2 ^ 32) div 2 ^ 32"
    by (subst div_add_self2) simp_all
  also have "\<dots> \<le> (y + (2 ^ 32 - 1)) div 2 ^ 32" using assms by (intro zdiv_mono1) auto
  finally show ?thesis unfolding ceil_shr32_def by (subst (1 2) ceil_div_eq) auto
qed

text \<open>The last three statements: the quotient by \<open>2^32\<close> rounded up, at width 160.\<close>

lemma round_up_refines:
  assumes "0 \<le> x" and "x < 2 ^ 192 - 2 ^ 32"
  shows "bindR (bi_shr (u256 x) 32) (\<lambda>hi. bindR (Uint160_from (Inst hi)) (\<lambda>p.
         bindR (bindR (Uint256_from (Raw 1)) (\<lambda>one. bi_shl one 32)) (\<lambda>m32.
         bindR (bi_mod (u256 x) (bi_value m32)) (\<lambda>rm.
         bindR (bi_add p (if bi_eq rm 0 then 0 else 1)) (\<lambda>r. Inr (bi_value r)))))) =
         Inr (ceil_shr32 x)"
proof -
  have a: "bi_shr (u256 x) 32 = Inr (u256 (x div 2 ^ 32))"
    using assms Uint256.ops_exact(7) [of x 32] by (simp add: js_shr_numeral)
  have b: "Uint160_from (Inst (u256 (x div 2 ^ 32))) = Inr (u160 (x div 2 ^ 32))"
    using assms Uint160.factory_inst [of "u256 (x div 2 ^ 32)"]
    by (simp add: Uint160_from_def Uint256.mk_value u256_def)
  have c: "bindR (Uint256_from (Raw 1)) (\<lambda>one. bi_shl one 32) = Inr (u256 (2 ^ 32))"
    using Uint256.factory_raw [of 1] Uint256.ops_exact(6) [of 1 32]
    by (simp add: Uint256_from_def js_shl_numeral)
  have d: "bi_mod (u256 x) (2 ^ 32) = Inr (u256 (x mod 2 ^ 32))"
    by (simp add: Uint256.mod_wrap smod_twice bi_wrap_id)
  have e: "bi_add (u160 (x div 2 ^ 32)) (if x mod 2 ^ 32 = 0 then 0 else 1) = Inr (u160 (ceil_shr32 x))"
    using ceil_shr32_range [OF assms]
      Uint160.ops_exact(1) [of "x div 2 ^ 32" "if x mod 2 ^ 32 = 0 then 0 else 1"]
    by (simp add: ceil_shr32_def)
  show ?thesis
    unfolding a bindR_Inr b c Uint256.mk_value d Uint256.compares e Uint160.mk_value ..
qed

lemma signed_ratio_range:
  assumes "\<bar>t\<bar> \<le> 887272"
  shows "18447437462383981825 \<le> signed_ratio t" and "signed_ratio t < 2 ^ 192 - 2 ^ 32"
proof -
  note R = ratio_at_range [of "\<bar>t\<bar>"] assms
  have "(2 ^ 256 - 1) div 2 ^ 128 \<le> (2 ^ 256 - 1) div ratio_at \<bar>t\<bar>"
    using R by (intro zdiv_mono2) auto
  moreover have "(2 ^ 256 - 1) div ratio_at \<bar>t\<bar> \<le> (2 ^ 256 - 1) div 18447437462383981825"
    using R by (intro zdiv_mono2) auto
  ultimately show "18447437462383981825 \<le> signed_ratio t" and "signed_ratio t < 2 ^ 192 - 2 ^ 32"
    using R by (auto simp: signed_ratio_def)
qed

lemma getSqrtRatioAtTick_refines:
  assumes t: "\<bar>t\<bar> \<le> 887272"
  shows "getSqrtRatioAtTick t = Inr (ceil_shr32 (signed_ratio t))"
proof -
  have i: "Int24_from (Raw t) = Inr (i24 t)"
    using t Int24.factory_raw [of t] by (auto simp: Int24_from_def)
  have ab: "bi_abs (i24 t) = Inr (i24 \<bar>t\<bar>)"
    using t Int24.factory_raw [of "- t"]
    by (auto simp: bi_abs_def Int24.mk_value bi_toBigNumber_def) (simp_all add: i24_def)
  have u: "Uint256_from (Inst (i24 \<bar>t\<bar>)) = Inr (u256 \<bar>t\<bar>)"
    using t Uint256.factory_inst [of "i24 \<bar>t\<bar>"] by (simp add: Uint256_from_def Int24.mk_value i24_def)
  have n: "0 \<le> \<bar>t\<bar>" "\<bar>t\<bar> < 2 ^ 256" using t by auto
  let ?r0 = "if odd \<bar>t\<bar> then 340265354078544963557816517032075149313
             else 340282366920938463463374607431768211456 :: int"
  have start: "Uint256_from (Raw ?r0) = Inr (u256 ?r0)"
    using Uint256.factory_raw [of ?r0] by (simp add: Uint256_from_def)
  have loop: "foldR (ratio_step (u256 \<bar>t\<bar>)) tick_factors (u256 ?r0) = Inr (u256 (ratio_at \<bar>t\<bar>))"
    using foldR_ratio_step [OF n, of ?r0 "map snd tick_factors" 1] strict_tick_factors
    by (subst tick_factors_zip) (simp only: ratio_at_split, simp)
  have inv: "(if bi_gt (i24 t) 0
              then bindR (Uint256_from (Raw MAX_UINT256)) (\<lambda>m. bi_div m (bi_value (u256 (ratio_at \<bar>t\<bar>))))
              else Inr (u256 (ratio_at \<bar>t\<bar>))) = Inr (u256 (signed_ratio t))"
  proof (cases "t > 0")
    case True
    have "0 \<le> signed_ratio t" "signed_ratio t \<le> 2 ^ 256 - 1" using signed_ratio_range [OF t] by auto
    moreover have "0 < ratio_at \<bar>t\<bar>" using ratio_at_range [of "\<bar>t\<bar>"] t by auto
    ultimately have "bi_div (u256 (2 ^ 256 - 1)) (ratio_at \<bar>t\<bar>) = Inr (u256 (signed_ratio t))"
      using True by (simp add: Uint256.div_wrap sdiv_pos signed_ratio_def bi_wrap_id del: abs_of_pos)
    then show ?thesis
      using True Uint256.factory_raw [of MAX_UINT256]
      by (simp add: Int24.compares Uint256.mk_value Uint256_from_def MAX_UINT256_def)
  next
    case False
    then show ?thesis by (simp add: Int24.compares signed_ratio_def)
  qed
  have "\<not> bi_gt (u256 \<bar>t\<bar>) MAX_TICK" using t by (simp add: Uint256.compares MAX_TICK_def)
  moreover have "bindR (bi_and (u256 \<bar>t\<bar>) 1) (\<lambda>b. Uint256_from
        (Raw (if \<not> bi_eq b 0 then 340265354078544963557816517032075149313
              else 340282366920938463463374607431768211456))) = Inr (u256 ?r0)"
    using u256_and_digit [OF n, of 0 "\<lambda>d. Uint256_from
        (Raw (if d then 340265354078544963557816517032075149313
              else 340282366920938463463374607431768211456))"] start by simp
  moreover have "0 \<le> signed_ratio t" "signed_ratio t < 2 ^ 192 - 2 ^ 32"
    using signed_ratio_range [OF t] by auto
  ultimately show ?thesis
    unfolding getSqrtRatioAtTick_def i bindR_Inr ab u
    by (simp only: if_False bindR_assoc [symmetric] bindR_Inr loop inv)
       (simp only: bindR_assoc round_up_refines [unfolded bindR_assoc])
qed


lemma inverse_gap:
  fixes R R' :: int
  assumes "0 < R'" and "R' + 2 ^ 38 \<le> R" and "R \<le> 2 ^ 128"
  shows "(2 ^ 256 - 1) div R + (2 ^ 37 + 1) \<le> (2 ^ 256 - 1) div R'"
proof -
  define M q :: int where "M = 2 ^ 256 - 1" and "q = M div R"
  have qR: "q * R \<le> M" using assms by (simp add: q_def minus_mod_eq_div_mult [symmetric])
  have "M div 2 ^ 128 \<le> q" unfolding q_def using assms by (intro zdiv_mono2) (auto simp: M_def)
  then have q: "2 ^ 128 - 1 \<le> q" by (simp add: M_def)
  have "q * R' + (2 ^ 37 + 1) * R' \<le> q * (R - 2 ^ 38) + (2 ^ 37 + 1) * 2 ^ 128"
    using assms q by (intro add_mono mult_mono) auto
  then have "(q + (2 ^ 37 + 1)) * R' \<le> M"
    using q qR by (simp add: right_diff_distrib distrib_right)
  then have "(q + (2 ^ 37 + 1)) * R' div R' \<le> M div R'" using assms by (intro zdiv_mono1) auto
  then show ?thesis using assms by (simp add: q_def M_def)
qed

lemma signed_ratio_gap:
  assumes "- 887272 \<le> t" and "t < 887272"
  shows "signed_ratio t + 2 ^ 37 \<le> signed_ratio (t + 1)"
proof (cases "t < 0")
  case True
  have "ratio_at (\<bar>t + 1\<bar> + 1) + 2 ^ 38 \<le> ratio_at \<bar>t + 1\<bar>"
    using assms True by (intro ratio_at_gap) auto
  moreover have "\<bar>t\<bar> = \<bar>t + 1\<bar> + 1" using True by simp
  ultimately show ?thesis using True by (simp add: signed_ratio_def)
next
  case False
  have "ratio_at (t + 1) + 2 ^ 38 \<le> ratio_at t"
    using assms False by (intro ratio_at_gap) auto
  moreover have "0 < ratio_at (t + 1)" "ratio_at t \<le> 2 ^ 128"
    using ratio_at_range [of "t + 1"] ratio_at_range [of t] assms False by auto
  ultimately have "(2 ^ 256 - 1) div ratio_at t + (2 ^ 37 + 1) \<le> (2 ^ 256 - 1) div ratio_at (t + 1)"
    by (intro inverse_gap) auto
  then show ?thesis using False ratio_at_0 by (cases "t = 0") (auto simp: signed_ratio_def)
qed

lemma sqrt_price_strict_mono:
  assumes "- 887272 \<le> s" and "s < t" and "t \<le> 887272"
  shows "ceil_shr32 (signed_ratio s) < ceil_shr32 (signed_ratio t)"
proof -
  have next_tick: "ceil_shr32 (signed_ratio u) < ceil_shr32 (signed_ratio (u + 1))"
    if "- 887272 \<le> u" "u < 887272" for u
    using signed_ratio_gap [OF that] by (intro ceil_shr32_strict) simp
  have "s + 1 \<le> t" using assms by simp
  then show ?thesis using assms(1,3)
  proof (induction t rule: int_ge_induct)
    case base
    then show ?case using next_tick [of s] by simp
  next
    case (step i)
    then show ?case using next_tick [of i] by force
  qed
qed

lemma sqrt_price_endpoints:
  "ceil_shr32 (signed_ratio (- 887272)) = MIN_SQRT_RATIO"
  "ceil_shr32 (signed_ratio 887272) = MAX_SQRT_RATIO"
  by (simp_all add: signed_ratio_def ratio_at_max ceil_shr32_def MIN_SQRT_RATIO_def MAX_SQRT_RATIO_def)

section \<open>The most significant bit\<close>

text \<open>
  After the statement for shift \<open>s\<close>, the digits found so far form \<open>m\<close>, a multiple of
  \<open>2^s\<close>, and \<open>r\<close> is what is left of \<open>x\<close> above them, a positive number of at most
  \<open>2^s\<close> binary digits.
\<close>

definition msb_inv :: "int \<Rightarrow> nat \<Rightarrow> bigint \<times> bigint \<Rightarrow> bool" where
  "msb_inv x s st \<longleftrightarrow> (\<exists>m k. st = (u256 (x div 2 ^ m), u256 (int m)) \<and> m = k * 2 ^ s \<and> m + 2 ^ s \<le> 256
     \<and> 0 < x div 2 ^ m \<and> x div 2 ^ m < 2 ^ (2 ^ s))"

lemma or_above: "(int (k * 2 ^ Suc s)) OR (2 ^ s) = int (k * 2 ^ Suc s) + 2 ^ s"
proof -
  have "int (k * 2 ^ Suc s) AND 2 ^ s = 0"
    by (simp add: and_exp_eq_0_iff_not_bit bit_iff_odd)
  then show ?thesis by (simp add: disjunctive_add_eq_or)
qed

lemma u256_bit: "Uint256_from (Raw (if P then 1 else 0)) = Inr (u256 (if P then 1 else 0))"
  using Uint256.factory_raw [of "if P then 1 else 0"] by (simp add: Uint256_from_def)

lemma div_exp_bounds:
  assumes "0 \<le> x" and "x < 2 ^ 256"
  shows "0 \<le> x div 2 ^ j" and "x div 2 ^ j \<le> 2 ^ 256 - (1::int)"
proof -
  show "0 \<le> x div 2 ^ j" using assms by (simp add: pos_imp_zdiv_nonneg_iff)
  have "x div 2 ^ j \<le> x div 1" using assms by (intro zdiv_mono2) auto
  then show "x div 2 ^ j \<le> 2 ^ 256 - 1" using assms by simp
qed

text \<open>One statement, with \<open>F\<close> the shift it decides on.\<close>

lemma msb_step_eq:
  assumes x: "0 \<le> x" "x < 2 ^ 256" and s: "s < 8" and m: "m = k * 2 ^ Suc s" and le: "m + 2 ^ Suc s \<le> 256"
    and F: "F = (if x div 2 ^ m > t then 2 ^ s else 0)"
  shows "msb_step (t, int s) (u256 (x div 2 ^ m), u256 (int m)) =
         Inr (u256 (x div 2 ^ (m + F)), u256 (int (m + F)))"
proof -
  have Fle: "F \<le> 2 ^ s" "m + F \<le> 256" using F le by (auto simp: max_def)
  have s7: "(2::int) ^ s \<le> 2 ^ 7" using s by (intro power_increasing) auto
  have shl: "bi_shl (u256 (if x div 2 ^ m > t then 1 else 0)) (int s) = Inr (u256 (int F))"
    using Uint256.ops_exact(6) [of "if x div 2 ^ m > t then 1 else 0" "int s"] F Fle s7
    by (simp add: js_shl_nonneg split: if_splits)
  have "int m OR int F = int (m + F)"
    using or_above [of k s] F m by auto
  moreover have "int (m + F) \<le> 256" using Fle(2) by linarith
  ultimately have or: "bi_or (u256 (int m)) (int F) = Inr (u256 (int (m + F)))"
    using Uint256.ops_exact(4) [of "int m" "int F"] by simp
  have "x div 2 ^ m div 2 ^ F = x div 2 ^ (m + F)"
    by (simp add: zdiv_zmult2_eq power_add)
  then have shr: "bi_shr (u256 (x div 2 ^ m)) (int F) = Inr (u256 (x div 2 ^ (m + F)))"
    using Uint256.ops_exact(7) [of "x div 2 ^ m" "int F"] div_exp_bounds [OF x, of "m + F"]
    by (simp add: js_shr_nonneg)
  show ?thesis using shl or shr
    by (simp add: msb_step_def u256_bit Uint256.compares Uint256.mk_value)
qed

lemma zdiv_less:
  assumes "y < a * b" and "0 < (b :: int)"
  shows "y div b < a"
proof (rule ccontr)
  assume "\<not> y div b < a"
  then have "a * b \<le> y div b * b" using assms(2) by (intro mult_right_mono) auto
  also have "\<dots> \<le> y" using assms(2) by (simp add: minus_mod_eq_div_mult [symmetric])
  finally show False using assms(1) by simp
qed

lemma msb_step_inv:
  assumes x: "0 \<le> x" "x < 2 ^ 256" and s: "s < 8" and inv: "msb_inv x (Suc s) st"
  shows "\<exists>st'. msb_step (2 ^ (2 ^ s) - 1, int s) st = Inr st' \<and> msb_inv x s st'"
proof -
  from inv obtain m k where st: "st = (u256 (x div 2 ^ m), u256 (int m))" and m: "m = k * 2 ^ Suc s"
    and le: "m + 2 ^ Suc s \<le> 256" and r: "0 < x div 2 ^ m" "x div 2 ^ m < 2 ^ (2 ^ Suc s)"
    by (auto simp: msb_inv_def)
  define F :: nat where "F = (if x div 2 ^ m > 2 ^ (2 ^ s) - 1 then 2 ^ s else 0)"
  have split: "x div 2 ^ (m + F) = x div 2 ^ m div 2 ^ F"
    by (simp add: zdiv_zmult2_eq power_add)
  have sq: "(2::int) ^ 2 ^ Suc s = 2 ^ (2 ^ s) * 2 ^ (2 ^ s)"
    by (simp add: power_add [symmetric] mult_2)
  have "0 < x div 2 ^ (m + F) \<and> x div 2 ^ (m + F) < 2 ^ (2 ^ s)"
  proof (cases "x div 2 ^ m > 2 ^ (2 ^ s) - 1")
    case True
    then have "2 ^ (2 ^ s) div 2 ^ (2 ^ s) \<le> x div 2 ^ m div 2 ^ (2 ^ s)" by (intro zdiv_mono1) auto
    moreover have "x div 2 ^ m div 2 ^ (2 ^ s) < 2 ^ (2 ^ s)"
      using r(2) unfolding sq by (rule zdiv_less) simp
    ultimately show ?thesis using True unfolding split by (simp add: F_def)
  next
    case False
    then show ?thesis using r unfolding split by (simp add: F_def)
  qed
  moreover have "\<exists>k'. m + F = k' * 2 ^ s"
    using m by (cases "F = 0") (auto simp: F_def split: if_splits intro: exI [of _ "2 * k"] exI [of _ "2 * k + 1"])
  moreover have "m + F + 2 ^ s \<le> 256" using le by (auto simp: F_def)
  ultimately have "msb_inv x s (u256 (x div 2 ^ (m + F)), u256 (int (m + F)))"
    unfolding msb_inv_def by blast
  with msb_step_eq [OF x s m le, of F "2 ^ (2 ^ s) - 1"] st F_def show ?thesis by auto
qed

lemma foldR_msb_step:
  assumes x: "0 \<le> x" "x < 2 ^ 256"
  shows "i + n \<le> 8 \<Longrightarrow> msb_inv x (i + n) st \<Longrightarrow>
    \<exists>st'. foldR msb_step (map (\<lambda>s. (2 ^ (2 ^ s) - 1, int s)) (rev [i..<i + n])) st = Inr st' \<and> msb_inv x i st'"
proof (induction n arbitrary: st)
  case 0
  then show ?case by simp
next
  case (Suc n)
  from Suc.prems obtain st1 where st1: "msb_step (2 ^ (2 ^ (i + n)) - 1, int (i + n)) st = Inr st1"
    and "msb_inv x (i + n) st1"
    using msb_step_inv [OF x, of "i + n" st] by auto
  then obtain st2 where "foldR msb_step (map (\<lambda>s. (2 ^ (2 ^ s) - 1, int s)) (rev [i..<i + n])) st1 = Inr st2"
    and "msb_inv x i st2" using Suc.IH [of st1] Suc.prems(1) by auto
  with st1 show ?case by auto
qed

lemma msb_thresholds_eq: "msb_thresholds = map (\<lambda>s. (2 ^ (2 ^ s) - 1, int s)) (rev [1..<1 + 7])"
  by code_simp

lemma find_msb_correct:
  assumes "0 < x" and "x < 2 ^ 256"
  shows "\<exists>m. find_msb (u256 x) = Inr (u256 (int m)) \<and> 2 ^ m \<le> x \<and> x < 2 ^ Suc m"
proof -
  have x: "0 \<le> x" "x < 2 ^ 256" using assms by auto
  have "msb_inv x (1 + 7) (u256 x, u256 0)"
    unfolding msb_inv_def using assms by (intro exI [of _ 0]) auto
  then obtain st where st: "foldR msb_step msb_thresholds (u256 x, u256 0) = Inr st" "msb_inv x 1 st"
    using foldR_msb_step [OF x, of 1 7 "(u256 x, u256 0)"] unfolding msb_thresholds_eq by fastforce
  from st(2) obtain m k where m: "st = (u256 (x div 2 ^ m), u256 (int m))" "m = k * 2"
    "m + 2 \<le> 256" "0 < x div 2 ^ m" "x div 2 ^ m < 4" by (auto simp: msb_inv_def)
  define F :: nat where "F = (if x div 2 ^ m > 1 then 1 else 0)"
  have "(int k * 2) OR 1 = int k * 2 + 1" using or_above [of k 0] by (simp add: mult.commute)
  then have "bi_or (u256 (int m)) (int F) = Inr (u256 (int (m + F)))"
    using Uint256.ops_exact(4) [of "int m" "int F"] m by (auto simp: F_def)
  moreover have "(if x div 2 ^ m > 1 then 1 else 0) = int F" by (simp add: F_def)
  moreover have "Uint256_from (Inst (u256 x)) = Inr (u256 x)" "Uint256_from (Raw 0) = Inr (u256 0)"
    using Uint256.factory_same Uint256.factory_raw [of 0] by (simp_all add: Uint256_from_def)
  ultimately have "find_msb (u256 x) = Inr (u256 (int (m + F)))"
    using u256_bit [of "x div 2 ^ m > 1"]
    by (simp add: find_msb_def st m(1) Uint256.compares Uint256.mk_value)
  moreover have "2 ^ (m + F) \<le> x \<and> x < 2 ^ Suc (m + F)"
  proof -
    have "x div 2 ^ m = 1 \<or> x div 2 ^ m = 2 \<or> x div 2 ^ m = 3" using m(4,5) by linarith
    moreover have p: "0 < (2::int) ^ m" by simp
    from div_mult_mod_eq [of x "2 ^ m"] pos_mod_bound [OF p, of x] pos_mod_sign [OF p, of x]
    have "x div 2 ^ m * 2 ^ m \<le> x" "x < x div 2 ^ m * 2 ^ m + 2 ^ m" by linarith+
    ultimately show ?thesis by (auto simp: F_def)
  qed
  ultimately show ?thesis by blast
qed

section \<open>The logarithm\<close>

text \<open>
  Before the statement for bit \<open>k\<close> the mantissa has 128 binary digits and the logarithm is a
  multiple of \<open>2^(k+1)\<close> between \<open>-2^70\<close> and \<open>2^70 - 2^(k+1)\<close>.
\<close>

definition log_inv :: "nat \<Rightarrow> bigint \<times> bigint \<Rightarrow> bool" where
  "log_inv k rl \<longleftrightarrow> (\<exists>R a. rl = (u256 R, i256 (a * 2 ^ k)) \<and> 2 ^ 127 \<le> R \<and> R < 2 ^ 128
     \<and> - (2 ^ 70) \<le> a * 2 ^ k \<and> a * 2 ^ k \<le> 2 ^ 70 - 2 ^ k)"

lemma or_digit: "(a * 2 ^ Suc k) OR (2 ^ k) = a * 2 ^ Suc k + (2 ^ k :: int)"
proof -
  have "(a * 2 ^ Suc k) AND 2 ^ k = 0"
    by (simp add: and_exp_eq_0_iff_not_bit bit_iff_odd)
  then show ?thesis by (simp add: disjunctive_add_eq_or)
qed

lemma square_shift:
  assumes "2 ^ 127 \<le> R" and "R < (2 ^ 128 :: int)"
  shows "R * R < 2 ^ 256" and "2 ^ 127 \<le> R * R div 2 ^ 127" and "R * R div 2 ^ 127 < 2 ^ 129"
proof -
  have "R * R \<le> (2 ^ 128 - 1) * (2 ^ 128 - 1)" using assms by (intro mult_mono) auto
  then show lt: "R * R < 2 ^ 256" by simp
  have "2 ^ 127 * 2 ^ 127 \<le> R * R" using assms by (intro mult_mono) auto
  then have "2 ^ 127 * 2 ^ 127 div 2 ^ 127 \<le> R * R div 2 ^ 127" by (intro zdiv_mono1) auto
  then show "2 ^ 127 \<le> R * R div 2 ^ 127" by simp
  have "(2::int) ^ 256 = 2 ^ 129 * 2 ^ 127" by simp
  then show "R * R div 2 ^ 127 < 2 ^ 129" using lt by (intro zdiv_less) auto
qed

lemma log_step_inv:
  assumes "log_inv (Suc k) rl" and "k \<le> 63"
  shows "\<exists>rl'. log_step (int k) rl = Inr rl' \<and> log_inv k rl'"
proof -
  from assms obtain R a where rl: "rl = (u256 R, i256 (a * 2 ^ Suc k))"
    and R: "2 ^ 127 \<le> R" "R < 2 ^ 128"
    and L: "- (2 ^ 70) \<le> a * 2 ^ Suc k" "a * 2 ^ Suc k \<le> 2 ^ 70 - 2 ^ Suc k"
    by (auto simp: log_inv_def)
  note S = square_shift [OF R]
  define q where "q = R * R div 2 ^ 127"
  define f where "f = q div 2 ^ 128"
  have q: "2 ^ 127 \<le> q" "q < 2 ^ 129" using S by (simp_all add: q_def)
  have f: "f = (if q < 2 ^ 128 then 0 else 1)"
  proof (cases "q < 2 ^ 128")
    case False
    then have "2 ^ 128 div 2 ^ 128 \<le> f" unfolding f_def by (intro zdiv_mono1) auto
    moreover have "f < 2" unfolding f_def using q by (intro zdiv_less) auto
    ultimately show ?thesis using False by simp
  qed (use q in \<open>simp add: f_def\<close>)
  have k64: "(2::int) ^ k \<le> 2 ^ 63" using assms(2) by (intro power_increasing) auto
  have mul: "bindR (bi_mul (u256 R) R) (\<lambda>p. bi_shr p 127) = Inr (u256 q)"
    using Uint256.ops_exact(3) [of R R] Uint256.ops_exact(7) [of "R * R" 127] S R
    by (simp add: js_shr_numeral q_def)
  have shf: "bi_shr (u256 q) 128 = Inr (u256 f)"
  proof -
    have "js_shr q 128 = f" by (simp only: js_shr_numeral f_def)
    then show ?thesis using Uint256.ops_exact(7) [of q 128] f by simp
  qed
  have shl: "bi_shl (u256 f) (int k) = Inr (u256 (f * 2 ^ k))"
    using Uint256.ops_exact(6) [of f "int k"] f k64 by (simp add: js_shl_nonneg)
  let ?L = "(2 * a + f) * 2 ^ k"
  have Leq: "(a * 2 ^ Suc k) OR (f * 2 ^ k) = ?L"
    using f or_digit [of a k] by (simp add: algebra_simps)
  have Lb: "- (2 ^ 70) \<le> ?L" "?L \<le> 2 ^ 70 - 2 ^ k"
  proof -
    have "?L = a * 2 ^ Suc k + f * 2 ^ k" by (simp add: algebra_simps)
    moreover have "0 \<le> f * 2 ^ k" "f * 2 ^ k \<le> 2 ^ k" "(2::int) ^ Suc k = 2 * 2 ^ k" using f by auto
    ultimately show "- (2 ^ 70) \<le> ?L" "?L \<le> 2 ^ 70 - 2 ^ k" using L by linarith+
  qed
  have "?L \<le> 2 ^ 70" using Lb(2) zero_less_power [of "2::int" k] by linarith
  then have "- (2 ^ 255) \<le> ?L" "?L \<le> 2 ^ 255 - 1" using Lb(1) by simp_all
  then have or: "bi_or (i256 (a * 2 ^ Suc k)) (f * 2 ^ k) = Inr (i256 ?L)"
    using Int256.ops_exact(4) [of "a * 2 ^ Suc k" "f * 2 ^ k"] unfolding Leq by blast
  let ?R = "if f = 0 then q else q div 2"
  have shr: "bi_shr (u256 q) f = Inr (u256 ?R)"
    using Uint256.ops_exact(7) [of q f] f q by (auto simp: js_shr_nonneg)
  have Rb: "2 ^ 127 \<le> ?R \<and> ?R < 2 ^ 128" using f q by (auto split: if_splits)
  have "log_step (int k) rl = Inr (u256 ?R, i256 ?L)"
    unfolding rl log_step_def using mul shf shl or shr by (simp add: Uint256.mk_value)
  moreover have "log_inv k (u256 ?R, i256 ?L)"
    unfolding log_inv_def using Rb Lb by blast
  ultimately show ?thesis by blast
qed

lemma foldR_log_step:
  assumes "i + n \<le> 64" and "log_inv (i + n) rl"
  shows "\<exists>rl'. foldR log_step (map int (rev [i..<i + n])) rl = Inr rl' \<and> log_inv i rl'"
  using assms
proof (induction n arbitrary: rl)
  case 0
  then show ?case by simp
next
  case (Suc n)
  then obtain rl1 where st1: "log_step (int (i + n)) rl = Inr rl1" "log_inv (i + n) rl1"
    using log_step_inv [of "i + n" rl] by auto
  moreover obtain rl2 where "foldR log_step (map int (rev [i..<i + n])) rl1 = Inr rl2" "log_inv i rl2"
    using Suc.IH [of rl1] Suc.prems(1) st1(2) by auto
  ultimately show ?case by auto
qed

lemma log_positions: "[63, 62, 61, 60, 59, 58, 57, 56, 55, 54, 53, 52, 51, 50] = map int (rev [50..<50 + 14])"
  by code_simp


lemma normalise:
  assumes x: "0 < x" "x < 2 ^ 192" and m: "2 ^ m \<le> x" "x < 2 ^ Suc m"
  shows "\<exists>R. (if bi_gte (u256 (int m)) 128
           then bindR (bi_sub (u256 (int m)) 127) (\<lambda>s. bi_shr (u256 x) (bi_value s))
           else bindR (bindR (Uint256_from (Raw 127)) (\<lambda>c. bi_sub c (bi_value (u256 (int m)))))
                  (\<lambda>s. bi_shl (u256 x) (bi_value s))) = Inr (u256 R) \<and> 2 ^ 127 \<le> R \<and> R < 2 ^ 128"
proof (cases "128 \<le> m")
  case True
  define j where "j = m - 127"
  have j: "int m - 127 = int j" "Suc m = 128 + j" "m = 127 + j" using True by (auto simp: j_def)
  have "(2::int) ^ m < 2 ^ 192" using m(1) x(2) by linarith
  then have "m < 192" by (rule power_less_imp_less_exp [rotated]) simp
  then have a: "bi_sub (u256 (int m)) 127 = Inr (u256 (int j))"
    using Uint256.ops_exact(2) [of "int m" 127] True by (simp add: j)
  have b: "bi_shr (u256 x) (int j) = Inr (u256 (x div 2 ^ j))"
    using Uint256.ops_exact(7) [of x "int j"] div_exp_bounds [of x j] x by (simp add: js_shr_nonneg)
  have "2 ^ 127 * 2 ^ j div 2 ^ j \<le> x div 2 ^ j" 
    using m(1) unfolding j power_add by (intro zdiv_mono1) auto
  moreover have "x div 2 ^ j < 2 ^ 128" using m(2) unfolding j(2) power_add by (rule zdiv_less) simp
  ultimately show ?thesis using a b True by (simp add: Uint256.compares Uint256.mk_value Uint256.mk_inject)
next
  case False
  define j where "j = 127 - m"
  have j: "127 - int m = int j" "Suc m + j = 128" "m + j = 127" "j \<le> 127" using False by (auto simp: j_def)
  have a: "bindR (Uint256_from (Raw 127)) (\<lambda>c. bi_sub c (int m)) = Inr (u256 (int j))"
    using Uint256.factory_raw [of 127] Uint256.ops_exact(2) [of 127 "int m"] False j(4)
    by (simp add: j(1) Uint256_from_def)
  have lo: "2 ^ 127 \<le> x * 2 ^ j"
    using m(1) mult_right_mono [of "2 ^ m" x "2 ^ j"] by (simp add: power_add [symmetric] j(3))
  have hi: "x * 2 ^ j < 2 ^ 128"
    using m(2) mult_strict_right_mono [of x "2 ^ Suc m" "2 ^ j"]
    by (simp only: power_add [symmetric] j(2)) simp
  have b: "bi_shl (u256 x) (int j) = Inr (u256 (x * 2 ^ j))"
    using Uint256.ops_exact(6) [of x "int j"] lo hi by (simp add: js_shl_nonneg)
  show ?thesis using a b lo hi False by (simp add: Uint256.compares Uint256.mk_value Uint256.mk_inject)
qed

text \<open>The two candidate ticks of a logarithm truncated to fourteen fractional bits.\<close>

lemma candidate_ticks:
  assumes "- (2 ^ 70) \<le> L" and "L \<le> 2 ^ 70 - 2 ^ 50"
  defines "low \<equiv> (L * 255738958999603826347141 - 3402992956809132418596140100660247210) div 2 ^ 128"
    and "hi \<equiv> (L * 255738958999603826347141 + 291339464771989622907027621153398088495) div 2 ^ 128"
  shows "bindR (bi_mul (i256 L) 255738958999603826347141) (\<lambda>l.
           bindR (bindR (bindR (bi_sub l 3402992956809132418596140100660247210)
              (\<lambda>x. bi_shr x 128)) (\<lambda>x. Int24_from (Inst x))) (\<lambda>a.
           bindR (bindR (bindR (bi_add l 291339464771989622907027621153398088495)
              (\<lambda>x. bi_shr x 128)) (\<lambda>x. Int24_from (Inst x))) (\<lambda>b. k a b))) = k (i24 low) (i24 hi)"
    and "low \<le> hi" and "hi \<le> low + 1" and "- 887273 \<le> low" and "- 887272 \<le> hi" and "hi \<le> 887272"
proof -
  let ?l = "L * 255738958999603826347141"
  have l: "- 301923272085925880617572551717740177505910784 \<le> ?l"
          "?l \<le> 301922984149455766933985842149190336826572800"
    using assms(1,2) by simp_all
  have low: "- 887273 \<le> low" "low \<le> 887272"
    using l zdiv_mono1 [of "- 887273 * 2 ^ 128" "?l - 3402992956809132418596140100660247210" "2 ^ 128"]
      zdiv_mono1 [of "?l - 3402992956809132418596140100660247210" "887272 * 2 ^ 128" "2 ^ 128"]
    by (simp_all add: low_def)
  have hi: "- 887272 \<le> hi" "hi \<le> 887272"
    using l zdiv_mono1 [of "- 887272 * 2 ^ 128" "?l + 291339464771989622907027621153398088495" "2 ^ 128"]
      zdiv_less [of "?l + 291339464771989622907027621153398088495" 887273 "2 ^ 128"]
    by (simp_all add: hi_def)
  show "- 887273 \<le> low" "- 887272 \<le> hi" "hi \<le> 887272" using low hi by auto
  show "low \<le> hi" unfolding low_def hi_def by (intro zdiv_mono1) auto
  have "hi \<le> (?l - 3402992956809132418596140100660247210 + 2 ^ 128) div 2 ^ 128"
    unfolding hi_def by (intro zdiv_mono1) auto
  then show "hi \<le> low + 1" unfolding low_def by (simp add: div_add_self2 del: minus_add_distrib)
  show "bindR (bi_mul (i256 L) 255738958999603826347141) (\<lambda>l.
           bindR (bindR (bindR (bi_sub l 3402992956809132418596140100660247210)
              (\<lambda>x. bi_shr x 128)) (\<lambda>x. Int24_from (Inst x))) (\<lambda>a.
           bindR (bindR (bindR (bi_add l 291339464771989622907027621153398088495)
              (\<lambda>x. bi_shr x 128)) (\<lambda>x. Int24_from (Inst x))) (\<lambda>b. k a b))) = k (i24 low) (i24 hi)"
  proof -
    have a: "bi_mul (i256 L) 255738958999603826347141 = Inr (i256 ?l)"
      using l by (intro Int256.ops_exact) auto
    have b: "bi_sub (i256 ?l) 3402992956809132418596140100660247210
             = Inr (i256 (?l - 3402992956809132418596140100660247210))"
      using l by (intro Int256.ops_exact) auto
    have c: "bi_add (i256 ?l) 291339464771989622907027621153398088495
             = Inr (i256 (?l + 291339464771989622907027621153398088495))"
      using l by (intro Int256.ops_exact) auto
    have d: "bi_shr (i256 (?l - 3402992956809132418596140100660247210)) 128 = Inr (i256 low)"
      using Int256.ops_exact(7) [of "?l - 3402992956809132418596140100660247210" 128] low
      by (simp add: js_shr_numeral low_def)
    have e: "bi_shr (i256 (?l + 291339464771989622907027621153398088495)) 128 = Inr (i256 hi)"
      using Int256.ops_exact(7) [of "?l + 291339464771989622907027621153398088495" 128] hi
      by (simp add: js_shr_numeral hi_def)
    have f: "Int24_from (Inst (i256 t)) = Inr (i24 t)" if "- 887273 \<le> t" "t \<le> 887272" for t
      using that Int24.factory_inst [of "i256 t"] by (simp add: Int24_from_def Int256.mk_value i256_def)
    show ?thesis unfolding a bindR_Inr b c d e using low hi by (simp add: f)
  qed
qed


lemma getTickAtSqrtRatio_returns:
  assumes "MIN_SQRT_RATIO \<le> p" and "p < MAX_SQRT_RATIO"
  shows "\<exists>low hi. low \<le> hi \<and> hi \<le> low + 1 \<and> - 887272 \<le> hi \<and> hi \<le> 887272 \<and>
    getTickAtSqrtRatio p = Inr (if low = hi \<or> ceil_shr32 (signed_ratio hi) \<le> p then hi else low)"
proof -
  let ?x = "p * 2 ^ 32"
  have p: "4295128739 \<le> p" "p < 1461446703485210103287273052203988822378723970342"
    using assms by (simp_all add: MIN_SQRT_RATIO_def MAX_SQRT_RATIO_def)
  then have x: "0 < ?x" "2 ^ 64 \<le> ?x" "?x < 2 ^ 192" "?x < 2 ^ 256" by auto
  have conv: "Uint160_from (Raw p) = Inr (u160 p)" "Uint256_from (Raw p) = Inr (u256 p)"
    using Uint160.factory_raw [of p] Uint256.factory_raw [of p] p
    by (simp_all add: Uint160_from_def Uint256_from_def)
  have shl: "bi_shl (u256 p) 32 = Inr (u256 ?x)"
    using Uint256.ops_exact(6) [of p 32] p by (simp add: js_shl_numeral)
  obtain m where m: "find_msb (u256 ?x) = Inr (u256 (int m))" "2 ^ m \<le> ?x" "?x < 2 ^ Suc m"
    using find_msb_correct [OF x(1,4)] by auto
  have mb: "64 \<le> m" "m < 192"
  proof -
    have "(2::int) ^ 64 < 2 ^ Suc m" "(2::int) ^ m < 2 ^ 192" using x m by linarith+
    then have "64 < Suc m" "m < 192"
      using power_less_imp_less_exp [of "2::int" 64 "Suc m"] power_less_imp_less_exp [of "2::int" m 192] by auto
    then show "64 \<le> m" "m < 192" by auto
  qed
  obtain R where R: "(if bi_gte (u256 (int m)) 128
           then bindR (bi_sub (u256 (int m)) 127) (\<lambda>s. bi_shr (u256 ?x) (bi_value s))
           else bindR (bindR (Uint256_from (Raw 127)) (\<lambda>c. bi_sub c (bi_value (u256 (int m)))))
                  (\<lambda>s. bi_shl (u256 ?x) (bi_value s))) = Inr (u256 R)" "2 ^ 127 \<le> R" "R < 2 ^ 128"
    using normalise [OF x(1,3) m(2,3)] by auto
  have l0: "bindR (bindR (Int256_from (Inst (u256 (int m)))) (\<lambda>m. bi_sub m 128)) (\<lambda>m. bi_shl m 64)
            = Inr (i256 ((int m - 128) * 2 ^ 64))"
    using Int256.factory_inst [of "u256 (int m)"] Int256.ops_exact(2) [of "int m" 128]
      Int256.ops_exact(6) [of "int m - 128" 64] mb
    by (simp add: Int256_from_def Uint256.mk_value js_shl_numeral) (simp add: u256_def)
  have "log_inv (50 + 14) (u256 R, i256 ((int m - 128) * 2 ^ 64))"
    unfolding log_inv_def using R(2,3) mb by (intro exI [of _ R] exI [of _ "int m - 128"]) auto
  from foldR_log_step [OF _ this] obtain rl where
    rl: "foldR log_step (map int (rev [50..<50 + 14])) (u256 R, i256 ((int m - 128) * 2 ^ 64)) = Inr rl"
    and "log_inv 50 rl" by auto
  then obtain R' L where "rl = (u256 R', i256 L)" and L: "- (2 ^ 70) \<le> L" "L \<le> 2 ^ 70 - 2 ^ 50"
    unfolding log_inv_def by blast
  with rl have log: "foldR log_step (map int (rev [50..<50 + 14]))
      (u256 R, i256 ((int m - 128) * 2 ^ 64)) = Inr (u256 R', i256 L)" by simp
  note C = candidate_ticks [OF L]
  let ?low = "(L * 255738958999603826347141 - 3402992956809132418596140100660247210) div 2 ^ 128"
  let ?hi = "(L * 255738958999603826347141 + 291339464771989622907027621153398088495) div 2 ^ 128"
  have "bi_gte (u160 p) MIN_SQRT_RATIO \<and> bi_lt (u160 p) MAX_SQRT_RATIO"
    using assms by (simp add: Uint160.compares)
  then have "getTickAtSqrtRatio p = (if bi_eq (i24 ?low) (bi_value (i24 ?hi)) then Inr (bi_value (i24 ?low))
      else bindR (getSqrtRatioAtTick (bi_value (i24 ?hi))) (\<lambda>s. bindR (Int256_from (Raw s)) (\<lambda>x.
           if bi_lte x p then Inr (bi_value (i24 ?hi)) else Inr (bi_value (i24 ?low)))))"
    unfolding getTickAtSqrtRatio_def log_positions
    by (simp only: conv bindR_Inr shl m(1) R(1) l0 log prod.case C(1) simp_thms if_False)
  moreover have "\<bar>?hi\<bar> \<le> 887272" using C(5,6) by linarith
  moreover have "Int256_from (Raw (ceil_shr32 (signed_ratio ?hi))) = Inr (i256 (ceil_shr32 (signed_ratio ?hi)))"
    using ceil_shr32_range [of "signed_ratio ?hi"] signed_ratio_range [of ?hi] C(5,6)
      Int256.factory_raw [of "ceil_shr32 (signed_ratio ?hi)"]
    by (auto simp: Int256_from_def abs_le_iff)
  ultimately have "getTickAtSqrtRatio p =
      Inr (if ?low = ?hi \<or> ceil_shr32 (signed_ratio ?hi) \<le> p then ?hi else ?low)"
    by (simp only: getSqrtRatioAtTick_refines bindR_Inr Int24.compares Int24.mk_value Int256.compares)
       (simp split: if_split)
  then show ?thesis using C(2-6) by blast
qed

section \<open>Properties\<close>

text \<open>
  C13: \<open>getSqrtRatioAtTick\<close> on every integer: inside the tick range it returns the exact
  product of the selected factors (inverted for positive ticks), shifted right by 32 bits
  and rounded up, and no step wraps or throws; outside it throws: \<^verbatim>\<open>T\<close> while the tick fits
  24 bits, the range errors of \<^verbatim>\<open>Int24\<close> beyond, the least 24-bit value included.
\<close>

theorem getSqrtRatioAtTick_exact:
  "getSqrtRatioAtTick t =
     (if \<bar>t\<bar> \<le> MAX_TICK then Inr (ceil_shr32 (signed_ratio t))
      else if t < - (2 ^ 23) then Inl (Error ''exceeds minimum value'')
      else if t = - (2 ^ 23) \<or> t > 2 ^ 23 - 1 then Inl (Error ''exceeds maximum value'')
      else Inl (Error ''T''))"
proof -
  have i: "Int24_from (Raw t) = Inr (i24 t)" if "- (2 ^ 23) \<le> t" "t \<le> 2 ^ 23 - 1"
    using that Int24.factory_raw [of t] by (auto simp: Int24_from_def)
  have ab: "bi_abs (i24 t) = (if t = - (2 ^ 23) then Inl (Error ''exceeds maximum value'')
        else Inr (i24 \<bar>t\<bar>))" if "- (2 ^ 23) \<le> t" "t \<le> 2 ^ 23 - 1"
    using that Int24.factory_raw [of "- t"] Int24.new_above [of "- t"]
    by (auto simp: bi_abs_def Int24.mk_value bi_toBigNumber_def) (simp_all add: i24_def)
  have u: "Uint256_from (Inst (i24 \<bar>t\<bar>)) = Inr (u256 \<bar>t\<bar>)" if "- (2 ^ 23) \<le> t" "t \<le> 2 ^ 23 - 1"
    using that Uint256.factory_inst [of "i24 \<bar>t\<bar>"]
    by (simp add: Uint256_from_def Int24.mk_value i24_def)
  consider (range) "\<bar>t\<bar> \<le> MAX_TICK" | (low) "t < - (2 ^ 23)" | (high) "t > 2 ^ 23 - 1"
    | (T) "MAX_TICK < \<bar>t\<bar>" "- (2 ^ 23) \<le> t" "t \<le> 2 ^ 23 - 1" by linarith
  then show ?thesis
  proof cases
    case range
    then show ?thesis by (simp add: getSqrtRatioAtTick_refines MAX_TICK_def)
  next
    case low
    then show ?thesis
      using Int24.new_below [of t] by (simp add: getSqrtRatioAtTick_def Int24_from_def MAX_TICK_def)
  next
    case high
    then show ?thesis
      using Int24.new_above [of t] by (simp add: getSqrtRatioAtTick_def Int24_from_def MAX_TICK_def)
  next
    case T
    then show ?thesis
      using i ab u by (simp add: getSqrtRatioAtTick_def Uint256.compares)
  qed
qed

lemma tick_prices:
  assumes "MIN_TICK \<le> s" and "s < t" and "t \<le> MAX_TICK"
  shows "\<exists>p q. getSqrtRatioAtTick s = Inr p \<and> getSqrtRatioAtTick t = Inr q \<and> p < q
           \<and> MIN_SQRT_RATIO \<le> p \<and> q \<le> MAX_SQRT_RATIO"
proof -
  have r: "- 887272 \<le> s" "t \<le> 887272" using assms by (simp_all add: MIN_TICK_def MAX_TICK_def)
  have "MIN_SQRT_RATIO \<le> ceil_shr32 (signed_ratio s)"
    using sqrt_price_strict_mono [of "- 887272" s] r assms(2) sqrt_price_endpoints
    by (cases "s = - 887272") auto
  moreover have "ceil_shr32 (signed_ratio t) \<le> MAX_SQRT_RATIO"
    using sqrt_price_strict_mono [of t 887272] r assms(2) sqrt_price_endpoints
    by (cases "t = 887272") auto
  ultimately show ?thesis
    using sqrt_price_strict_mono [OF r(1) assms(2) r(2)] r assms(2)
    by (simp add: getSqrtRatioAtTick_refines)
qed

text \<open>
  C11: the price is strictly increasing in the tick over the whole tick range, and runs
  from exactly \<^verbatim>\<open>MIN_SQRT_RATIO\<close> to exactly \<^verbatim>\<open>MAX_SQRT_RATIO\<close>.
\<close>

theorem getSqrtRatioAtTick_strict_mono:
  assumes "MIN_TICK \<le> s" and "s < t" and "t \<le> MAX_TICK"
  shows "\<exists>p q. getSqrtRatioAtTick s = Inr p \<and> getSqrtRatioAtTick t = Inr q \<and> p < q
           \<and> MIN_SQRT_RATIO \<le> p \<and> q \<le> MAX_SQRT_RATIO"
  using assms by (rule tick_prices)

theorem getSqrtRatioAtTick_strict_mono_witness:
  "\<exists>p q. getSqrtRatioAtTick (- 887272) = Inr p \<and> getSqrtRatioAtTick 887272 = Inr q \<and> p < q
     \<and> MIN_SQRT_RATIO \<le> p \<and> q \<le> MAX_SQRT_RATIO"
  by (rule getSqrtRatioAtTick_strict_mono) (simp_all add: MIN_TICK_def MAX_TICK_def)

text \<open>
  C12: \<open>getTickAtSqrtRatio\<close> is total on prices: for every price from \<^verbatim>\<open>MIN_SQRT_RATIO\<close> up to,
  not including, \<^verbatim>\<open>MAX_SQRT_RATIO\<close> it returns a tick of the tick range (no wrap-around, no
  error of the nested \<open>getSqrtRatioAtTick\<close>), and that tick is either the larger of two
  neighbouring candidates, chosen when its price does not exceed the argument, or the
  smaller one; for every other unsigned 160-bit value it throws \<^verbatim>\<open>R\<close>.
\<close>

theorem getTickAtSqrtRatio_total:
  assumes "0 \<le> p" and "p < 2 ^ 160"
  shows "if MIN_SQRT_RATIO \<le> p \<and> p < MAX_SQRT_RATIO
         then \<exists>t. getTickAtSqrtRatio p = Inr t \<and> MIN_TICK \<le> t \<and> t \<le> MAX_TICK
         else getTickAtSqrtRatio p = Inl (Error ''R'')"
proof (cases "MIN_SQRT_RATIO \<le> p \<and> p < MAX_SQRT_RATIO")
  case True
  then obtain low hi where lh: "low \<le> hi" "hi \<le> low + 1" "- 887272 \<le> hi" "hi \<le> 887272"
    and get: "getTickAtSqrtRatio p = Inr (if low = hi \<or> ceil_shr32 (signed_ratio hi) \<le> p then hi else low)"
    using getTickAtSqrtRatio_returns by blast
  have "ceil_shr32 (signed_ratio hi) \<le> p" if "hi = - 887272"
    using that True sqrt_price_endpoints(1) by simp
  then have "- 887272 \<le> low" if "low \<noteq> hi" "\<not> ceil_shr32 (signed_ratio hi) \<le> p"
    using that lh by (cases "hi = - 887272") auto
  with get lh True show ?thesis by (auto simp: MIN_TICK_def MAX_TICK_def)
next
  case False
  have "Uint160_from (Raw p) = Inr (u160 p)"
    using assms Uint160.factory_raw [of p] by (simp add: Uint160_from_def)
  with False show ?thesis by (auto simp: getTickAtSqrtRatio_def Uint160.compares)
qed

theorem getTickAtSqrtRatio_total_witness:
  "\<exists>t. getTickAtSqrtRatio (2 ^ 96) = Inr t \<and> MIN_TICK \<le> t \<and> t \<le> MAX_TICK"
  using getTickAtSqrtRatio_total [of "2 ^ 96"] by (simp add: MIN_SQRT_RATIO_def MAX_SQRT_RATIO_def)

end
