(* ===== verification/Liquidity_Amounts.thy ===== *)
theory Liquidity_Amounts
  imports Tick_Math
begin

text \<open>
  \<^verbatim>\<open>dexLib/liquidity_amounts.js\<close>: how much liquidity a pair of token amounts buys in a price
  range, and which amounts a liquidity is worth. All arguments are the integers that the
  decimal strings of the code denote.
\<close>

section \<open>Definitions\<close>

definition RESOLUTION :: int where "RESOLUTION = 96"
definition Q96 :: int where "Q96 = 2 ^ 96"

definition toUint128 :: "int \<Rightarrow> int result" where
  "toUint128 x = bindR (Uint128_from (Raw x)) (\<lambda>b. Inr (bi_value b))"

text \<open>
  Every function begins with the same exchange of the two bounds
  (\<^verbatim>\<open>if (Uint160.from(A).gt(B))\<close>), and subtracts them at width 160.
\<close>

definition order_bounds :: "int \<Rightarrow> int \<Rightarrow> (int \<times> int) result" where
  "order_bounds sqrtRatioAX96 sqrtRatioBX96 =
     bindR (Uint160_from (Raw sqrtRatioAX96)) (\<lambda>a.
       Inr (if bi_gt a sqrtRatioBX96 then (sqrtRatioBX96, sqrtRatioAX96)
            else (sqrtRatioAX96, sqrtRatioBX96)))"

definition sub160 :: "int \<Rightarrow> int \<Rightarrow> int result" where
  "sub160 b a = bindR (Uint160_from (Raw b)) (\<lambda>x. bindR (bi_sub x a) (\<lambda>d. Inr (bi_value d)))"

definition getLiquidityForAmount0 :: "int \<Rightarrow> int \<Rightarrow> int \<Rightarrow> int result" where
  "getLiquidityForAmount0 sqrtRatioAX96 sqrtRatioBX96 amount0 =
     bindR (order_bounds sqrtRatioAX96 sqrtRatioBX96) (\<lambda>(a, b).
     bindR (mulDiv a b Q96) (\<lambda>intermediate.
     bindR (sub160 b a) (\<lambda>d. bindR (mulDiv amount0 intermediate d) toUint128)))"

definition getLiquidityForAmount1 :: "int \<Rightarrow> int \<Rightarrow> int \<Rightarrow> int result" where
  "getLiquidityForAmount1 sqrtRatioAX96 sqrtRatioBX96 amount1 =
     bindR (order_bounds sqrtRatioAX96 sqrtRatioBX96) (\<lambda>(a, b).
     bindR (sub160 b a) (\<lambda>d. bindR (mulDiv amount1 Q96 d) toUint128))"

definition getLiquidityForAmounts :: "int \<Rightarrow> int \<Rightarrow> int \<Rightarrow> int \<Rightarrow> int \<Rightarrow> int result" where
  "getLiquidityForAmounts sqrtRatioX96 sqrtRatioAX96 sqrtRatioBX96 amount0 amount1 =
     bindR (order_bounds sqrtRatioAX96 sqrtRatioBX96) (\<lambda>(a, b).
     bindR (Uint160_from (Raw sqrtRatioX96)) (\<lambda>x.
       if bi_lte x a then getLiquidityForAmount0 a b amount0
       else if bi_lt x b then
         bindR (getLiquidityForAmount0 sqrtRatioX96 b amount0) (\<lambda>liquidity0.
         bindR (getLiquidityForAmount1 a sqrtRatioX96 amount1) (\<lambda>liquidity1.
         bindR (Uint128_from (Raw liquidity0)) (\<lambda>l0.
           Inr (if bi_lt l0 liquidity1 then liquidity0 else liquidity1))))
       else getLiquidityForAmount1 a b amount1))"

definition getAmount0ForLiquidity :: "int \<Rightarrow> int \<Rightarrow> int \<Rightarrow> int result" where
  "getAmount0ForLiquidity sqrtRatioAX96 sqrtRatioBX96 liquidity =
     bindR (order_bounds sqrtRatioAX96 sqrtRatioBX96) (\<lambda>(a, b).
     bindR (bindR (Uint256_from (Raw liquidity)) (\<lambda>l. bi_shl l RESOLUTION)) (\<lambda>l.
     bindR (sub160 b a) (\<lambda>d.
     bindR (mulDiv (bi_value l) d b) (\<lambda>m.
     bindR (bindR (Uint256_from (Raw m)) (\<lambda>x. bi_div x a)) (\<lambda>r. Inr (bi_value r))))))"

definition getAmount1ForLiquidity :: "int \<Rightarrow> int \<Rightarrow> int \<Rightarrow> int result" where
  "getAmount1ForLiquidity sqrtRatioAX96 sqrtRatioBX96 liquidity =
     bindR (order_bounds sqrtRatioAX96 sqrtRatioBX96) (\<lambda>(a, b).
     bindR (sub160 b a) (\<lambda>d. mulDiv liquidity d Q96))"

definition getAmountsForLiquidity :: "int \<Rightarrow> int \<Rightarrow> int \<Rightarrow> int \<Rightarrow> (int \<times> int) result" where
  "getAmountsForLiquidity sqrtRatioX96 sqrtRatioAX96 sqrtRatioBX96 liquidity =
     bindR (order_bounds sqrtRatioAX96 sqrtRatioBX96) (\<lambda>(a, b).
     bindR (Uint160_from (Raw sqrtRatioX96)) (\<lambda>x.
       if bi_lte x a then
         bindR (getAmount0ForLiquidity a b liquidity) (\<lambda>amount0. Inr (amount0, 0))
       else if bi_lt x b then
         bindR (getAmount0ForLiquidity sqrtRatioX96 b liquidity) (\<lambda>amount0.
         bindR (getAmount1ForLiquidity a sqrtRatioX96 liquidity) (\<lambda>amount1.
           Inr (amount0, amount1)))
       else bindR (getAmount1ForLiquidity a b liquidity) (\<lambda>amount1. Inr (0, amount1))))"

section \<open>The functions on an ordered price range\<close>

abbreviation is_price :: "int \<Rightarrow> bool" where
  "is_price p \<equiv> 0 \<le> p \<and> p < 2 ^ 160"

lemma Uint160_price: "is_price p \<Longrightarrow> Uint160_from (Raw p) = Inr (u160 p)"
  using Uint160.factory_raw [of p] by (simp add: Uint160_from_def)

lemma order_bounds_price:
  "is_price a \<Longrightarrow> order_bounds a b = Inr (min a b, max a b)"
  by (auto simp: order_bounds_def Uint160_price Uint160.compares min_def max_def)

lemma sub160_price: "is_price b \<Longrightarrow> 0 \<le> a \<Longrightarrow> a \<le> b \<Longrightarrow> sub160 b a = Inr (b - a)"
  using Uint160.ops_exact(2) [of b a] by (simp add: sub160_def Uint160_price Uint160.mk_value)

lemma toUint128_eq:
  "0 \<le> x \<Longrightarrow> toUint128 x = (if x < 2 ^ 128 then Inr x else Inl (Error ''exceeds maximum value''))"
  using Uint128.factory_raw [of x] Uint128.new_above [of x]
  by (auto simp: toUint128_def Uint128_from_def Uint128.mk_value)

text \<open>The exact quotients that the two amounts are converted to.\<close>

lemma amount0_bounds:
  fixes a b amt :: int
  assumes "0 < a" and "a < b" and "0 \<le> amt"
  defines "l \<equiv> amt * (a * b div 2 ^ 96) div (b - a)"
  shows "0 \<le> l" and "l * 2 ^ 96 * (b - a) \<le> amt * (a * b)"
proof -
  let ?i = "a * b div 2 ^ 96 :: int"
  have i: "0 \<le> ?i" "?i * 2 ^ 96 \<le> a * b"
    using assms by (simp_all add: pos_imp_zdiv_nonneg_iff minus_mod_eq_div_mult [symmetric])
  show "0 \<le> l" unfolding l_def using assms i by (simp add: pos_imp_zdiv_nonneg_iff)
  have "l * (b - a) \<le> amt * ?i"
    unfolding l_def using assms by (simp add: minus_mod_eq_div_mult [symmetric])
  then have "l * (b - a) * 2 ^ 96 \<le> amt * ?i * 2 ^ 96" by (intro mult_right_mono) auto
  also have "\<dots> \<le> amt * (a * b)"
    using i(2) assms(3) mult_left_mono [of "?i * 2 ^ 96" "a * b" amt] by (simp add: ac_simps)
  finally show "l * 2 ^ 96 * (b - a) \<le> amt * (a * b)" by (simp add: ac_simps)
qed

lemma getLiquidityForAmount0_Inr:
  assumes "0 < a" and "a < b" and "b < 2 ^ 160" and "0 \<le> amt"
    and "getLiquidityForAmount0 a b amt = Inr l"
  shows "l = amt * (a * b div 2 ^ 96) div (b - a)" and "l < 2 ^ 128"
proof -
  have "0 \<le> a * b div 2 ^ 96" using assms by (simp add: pos_imp_zdiv_nonneg_iff)
  moreover from this have "0 \<le> amt * (a * b div 2 ^ 96) div (b - a)"
    using assms by (simp add: pos_imp_zdiv_nonneg_iff)
  ultimately show "l = amt * (a * b div 2 ^ 96) div (b - a)" and "l < 2 ^ 128"
    using assms
    by (auto simp: getLiquidityForAmount0_def order_bounds_price sub160_price mulDiv_eq Q96_def
        min_def max_def toUint128_eq bindR_eq_Inr split: if_splits)
qed

lemma getLiquidityForAmount1_Inr:
  assumes "0 \<le> a" and "a < b" and "b < 2 ^ 160" and "0 \<le> amt"
    and "getLiquidityForAmount1 a b amt = Inr l"
  shows "l = amt * 2 ^ 96 div (b - a)" and "l < 2 ^ 128"
proof -
  have "0 \<le> amt * 2 ^ 96 div (b - a)" using assms by (simp add: pos_imp_zdiv_nonneg_iff)
  then show "l = amt * 2 ^ 96 div (b - a)" and "l < 2 ^ 128"
    using assms
    by (auto simp: getLiquidityForAmount1_def order_bounds_price sub160_price mulDiv_eq Q96_def
        min_def max_def toUint128_eq bindR_eq_Inr split: if_splits)
qed

lemma getAmount0ForLiquidity_eq:
  assumes "0 < a" and "a < b" and "b < 2 ^ 160" and "0 \<le> l" and "l < 2 ^ 128"
  shows "getAmount0ForLiquidity a b l = Inr (l * 2 ^ 96 * (b - a) div b div a)"
proof -
  let ?q = "l * 2 ^ 96 * (b - a) div b"
  have sh: "bindR (Uint256_from (Raw l)) (\<lambda>x. bi_shl x RESOLUTION) = Inr (u256 (l * 2 ^ 96))"
    using Uint256.factory_raw [of l] Uint256.ops_exact(6) [of l 96] assms
    by (simp add: Uint256_from_def RESOLUTION_def js_shl_numeral)
  have "l * 2 ^ 96 * (b - a) \<le> l * 2 ^ 96 * b" using assms by (intro mult_left_mono) auto
  then have "?q \<le> l * 2 ^ 96 * b div b" using assms by (intro zdiv_mono1) auto
  then have q: "0 \<le> ?q" "?q \<le> l * 2 ^ 96" using assms by (simp_all add: pos_imp_zdiv_nonneg_iff)
  then have qq: "?q \<le> 2 ^ 256 - 1" using assms by simp
  have "?q div a \<le> ?q div 1" using assms q by (intro zdiv_mono2) auto
  with qq have d: "0 \<le> ?q div a" "?q div a \<le> 2 ^ 256 - 1"
    using assms q by (simp_all add: pos_imp_zdiv_nonneg_iff)
  have m: "mulDiv (l * 2 ^ 96) (b - a) b = Inr ?q"
    using assms q qq mulDiv_eq [of "l * 2 ^ 96" "b - a" b] by (simp add: MAX_UINT256_def)
  have u: "Uint256_from (Raw ?q) = Inr (u256 ?q)"
    using Uint256.factory_raw [OF q(1) qq] by (simp only: Uint256_from_def)
  have "bi_div (u256 ?q) a = Inr (u256 (?q div a))"
    using assms q(1) bi_wrap_id [OF d] by (simp only: Uint256.div_wrap sdiv_pos) simp
  with m u show ?thesis
    using assms by (simp add: getAmount0ForLiquidity_def order_bounds_price min_def max_def sh
        sub160_price Uint256.mk_value del: power_numeral)
qed

lemma getAmount1ForLiquidity_eq:
  assumes "0 \<le> a" and "a < b" and "b < 2 ^ 160" and "0 \<le> l" and "l < 2 ^ 128"
  shows "getAmount1ForLiquidity a b l = Inr (l * (b - a) div 2 ^ 96)"
proof -
  have "l * (b - a) \<le> 2 ^ 128 * 2 ^ 160" using assms by (intro mult_mono) auto
  then have "l * (b - a) div 2 ^ 96 \<le> 2 ^ 128 * 2 ^ 160 div 2 ^ 96" by (intro zdiv_mono1) auto
  then show ?thesis
    using assms mulDiv_eq [of l "b - a" "2 ^ 96"]
    by (simp add: getAmount1ForLiquidity_def order_bounds_price min_def max_def sub160_price
        Q96_def MAX_UINT256_def)
qed

text \<open>Converting an amount to liquidity and back never gives more than the amount.\<close>

lemma amount0_roundtrip:
  assumes "0 < a" and "a < b" and "0 \<le> amt" and "l * 2 ^ 96 * (b - a) \<le> amt * (a * b)"
  shows "l * 2 ^ 96 * (b - a) div b div a \<le> (amt :: int)"
proof -
  have "l * 2 ^ 96 * (b - a) div b div a = l * 2 ^ 96 * (b - a) div (b * a)"
    using assms by (simp add: zdiv_zmult2_eq)
  also have "\<dots> \<le> amt * (a * b) div (b * a)" using assms by (intro zdiv_mono1) auto
  also have "\<dots> = amt" using assms by (simp add: ac_simps)
  finally show ?thesis .
qed

lemma amount1_roundtrip:
  assumes "a < b" and "l * (b - a) \<le> amt * 2 ^ 96"
  shows "l * (b - a) div 2 ^ 96 \<le> (amt :: int)"
  using zdiv_mono1 [OF assms(2), of "2 ^ 96"] by simp


section \<open>Properties\<close>

text \<open>
  \<open>mulDiv\<close> is the exact floor of the quotient and \<open>mulDivRoundingUp\<close> its exact ceiling,
  computed without intermediate overflow; they throw exactly when the floor, respectively
  the ceiling, does not fit 256 bits.
\<close>

theorem mulDiv_floor_ceiling:
  assumes "0 \<le> a" and "0 \<le> b" and "0 < d"
  shows "mulDiv a b d = (if a * b div d < 2 ^ 256 then Inr (a * b div d) else Inl (Error ''overflow''))
    \<and> mulDivRoundingUp a b d =
        (if 2 ^ 256 \<le> a * b div d then Inl (Error ''overflow'')
         else if 2 ^ 256 \<le> (a * b + (d - 1)) div d
              then Inl (Error ''Result exceeds the maximum value for uint256'')
              else Inr ((a * b + (d - 1)) div d))"
proof -
  let ?q = "a * b div d"
  have q: "0 \<le> ?q" using assms by (simp add: pos_imp_zdiv_nonneg_iff)
  have m: "mulDiv a b d = (if ?q < 2 ^ 256 then Inr ?q else Inl (Error ''overflow''))"
    using mulDiv_eq [OF assms] by (auto simp: MAX_UINT256_def)
  have c: "(a * b + (d - 1)) div d = ?q + (if a * b mod d = 0 then 0 else 1)"
    using ceil_div_eq [OF assms(3), of "a * b"] by simp
  have r: "0 < a * b mod d \<longleftrightarrow> a * b mod d \<noteq> 0"
    using pos_mod_sign [OF assms(3), of "a * b"] by linarith
  have "mulDivRoundingUp a b d = (if 2 ^ 256 \<le> ?q then Inl (Error ''overflow'')
      else if a * b mod d = 0 then Inr ?q
      else if ?q = 2 ^ 256 - 1 then Inl (Error ''Result exceeds the maximum value for uint256'')
      else Inr (?q + 1))"
  proof (cases "?q < 2 ^ 256")
    case True
    have u: "Uint256_from (Raw ?q) = Inr (u256 ?q)"
      using Uint256.factory_raw [OF q] True by (simp add: Uint256_from_def)
    have "bi_add (u256 ?q) 1 = Inr (u256 (?q + 1))" if "?q \<noteq> 2 ^ 256 - 1"
      using Uint256.ops_exact(1) [of ?q 1] q True that by simp
    then show ?thesis
      using True m u assms
      by (auto simp: r mulDivRoundingUp_def bi_gt_def smod_twice Uint256.compares MAX_UINT256_def
          Uint256.mk_value)
  next
    case False
    then show ?thesis using m by (simp add: mulDivRoundingUp_def)
  qed
  with m c show ?thesis by auto
qed

theorem mulDiv_floor_ceiling_witness:
  "mulDiv 7 5 4 = Inr 8 \<and> mulDivRoundingUp 7 5 4 = Inr 9"
  using mulDiv_floor_ceiling [of 7 5 4] by simp

lemma liquidity_amount0_roundtrip:
  assumes "0 < a" and "a < b" and "b < 2 ^ 160" and "0 \<le> amt"
    and l: "0 \<le> l" "l \<le> l0" and "getLiquidityForAmount0 a b amt = Inr l0"
  shows "\<exists>x. getAmount0ForLiquidity a b l = Inr x \<and> 0 \<le> x \<and> x \<le> amt"
proof -
  note l0 = getLiquidityForAmount0_Inr [OF assms(1-4) assms(7)]
  have "l * 2 ^ 96 * (b - a) \<le> l0 * 2 ^ 96 * (b - a)" using assms by (intro mult_right_mono) auto
  also have "\<dots> \<le> amt * (a * b)" using amount0_bounds [OF assms(1,2,4)] l0 by simp
  finally have "l * 2 ^ 96 * (b - a) div b div a \<le> amt" using amount0_roundtrip assms by blast
  moreover have "0 \<le> l * 2 ^ 96 * (b - a) div b div a"
    using assms by (simp add: pos_imp_zdiv_nonneg_iff)
  ultimately show ?thesis using getAmount0ForLiquidity_eq [of a b l] assms l0(2) by simp
qed

lemma liquidity_amount1_roundtrip:
  assumes "0 \<le> a" and "a < b" and "b < 2 ^ 160" and "0 \<le> amt"
    and l: "0 \<le> l" "l \<le> l1" and "getLiquidityForAmount1 a b amt = Inr l1"
  shows "\<exists>y. getAmount1ForLiquidity a b l = Inr y \<and> 0 \<le> y \<and> y \<le> amt"
proof -
  note l1 = getLiquidityForAmount1_Inr [OF assms(1-4) assms(7)]
  have "l * (b - a) \<le> l1 * (b - a)" using assms by (intro mult_right_mono) auto
  also have "\<dots> \<le> amt * 2 ^ 96" using assms l1(1) by (simp add: minus_mod_eq_div_mult [symmetric])
  finally have "l * (b - a) div 2 ^ 96 \<le> amt" using amount1_roundtrip assms(2) by blast
  moreover have "0 \<le> l * (b - a) div 2 ^ 96" using assms by (simp add: pos_imp_zdiv_nonneg_iff)
  ultimately show ?thesis using getAmount1ForLiquidity_eq [of a b l] assms l1(2) by simp
qed

lemma liquidity_nonneg:
  "0 < a \<Longrightarrow> a < b \<Longrightarrow> b < 2 ^ 160 \<Longrightarrow> 0 \<le> amt \<Longrightarrow> getLiquidityForAmount0 a b amt = Inr l \<Longrightarrow> 0 \<le> l"
  "0 \<le> a \<Longrightarrow> a < b \<Longrightarrow> b < 2 ^ 160 \<Longrightarrow> 0 \<le> amt \<Longrightarrow> getLiquidityForAmount1 a b amt = Inr l \<Longrightarrow> 0 \<le> l"
  using amount0_bounds(1) [of a b amt] getLiquidityForAmount0_Inr(1) [of a b amt l]
    getLiquidityForAmount1_Inr(1) [of a b amt l]
  by (auto simp: pos_imp_zdiv_nonneg_iff)

text \<open>On an ordered range and a price, the amounts of a liquidity exist and only the token on the far side of
  the price is needed outside the range.\<close>

lemma amounts_exist:
  assumes "0 < a" and "a < b" and "b < 2 ^ 160" and "0 \<le> p" and "p < 2 ^ 160" and "0 \<le> l" and "l < 2 ^ 128"
  shows "\<exists>x y. getAmountsForLiquidity p a b l = Inr (x, y) \<and> 0 \<le> x \<and> 0 \<le> y \<and> (b \<le> p \<longrightarrow> x = 0) \<and> (p \<le> a \<longrightarrow> y = 0)"
proof -
  have ob: "order_bounds a b = Inr (a, b)" using assms order_bounds_price [of a b] by (simp add: min_def max_def)
  have up: "Uint160_from (Raw p) = Inr (u160 p)" using assms by (intro Uint160_price) auto
  note defs = getAmountsForLiquidity_def ob up Uint160.compares
  have n0: "0 \<le> l * 2 ^ 96 * (d - c) div d div c" if "0 < c" "c < d" for c d :: int using that assms by (simp add: pos_imp_zdiv_nonneg_iff)
  have n1: "0 \<le> l * (d - c) div 2 ^ 96" if "c < d" for c d :: int using that assms by (simp add: pos_imp_zdiv_nonneg_iff)
  consider (below) "p \<le> a" | (inside) "a < p" "p < b" | (above) "b \<le> p" "a < p" using assms(2) by linarith
  then show ?thesis
  proof cases
    case below
    then show ?thesis using assms getAmount0ForLiquidity_eq [of a b l] n0 [of a b] by (simp add: defs)
  next
    case inside
    then show ?thesis using assms getAmount0ForLiquidity_eq [of p b l] getAmount1ForLiquidity_eq [of a p l] n0 [of p b] n1 [of a p] by (simp add: defs)
  next
    case above
    then show ?thesis using assms getAmount1ForLiquidity_eq [of a b l] n1 [of a b] by (simp add: defs)
  qed
qed

text \<open>
  C4: liquidity never creates tokens. Whatever liquidity \<open>getLiquidityForAmounts\<close> grants for
  two amounts at a price, \<open>getAmountsForLiquidity\<close> at the same price and range returns (it
  never throws) and values it at no more than those amounts, in each of the three branches.
\<close>

theorem liquidity_never_exceeds_amounts:
  assumes "0 < a" and "a < b" and "b < 2 ^ 160" and "0 \<le> p" and "p < 2 ^ 160"
    and "0 \<le> amount0" and "0 \<le> amount1"
    and "getLiquidityForAmounts p a b amount0 amount1 = Inr l"
  shows "\<exists>x y. getAmountsForLiquidity p a b l = Inr (x, y)
           \<and> 0 \<le> x \<and> x \<le> amount0 \<and> 0 \<le> y \<and> y \<le> amount1"
proof -
  have ob: "order_bounds a b = Inr (a, b)" using assms order_bounds_price [of a b] by (simp add: min_def max_def)
  have up: "Uint160_from (Raw p) = Inr (u160 p)" using assms by (intro Uint160_price) auto
  note defs = getLiquidityForAmounts_def getAmountsForLiquidity_def ob up Uint160.compares
  consider (below) "p \<le> a" | (inside) "a < p" "p < b" | (above) "b \<le> p" "a < p"
    using assms(2) by linarith
  then show ?thesis
  proof cases
    case below
    then have "getLiquidityForAmount0 a b amount0 = Inr l" using assms(8) by (simp add: defs)
    moreover from this have "0 \<le> l" using liquidity_nonneg(1) assms by blast
    ultimately show ?thesis
      using liquidity_amount0_roundtrip [of a b amount0 l l] assms below by (auto simp: defs)
  next
    case above
    then have "getLiquidityForAmount1 a b amount1 = Inr l" using assms(2,8) by (simp add: defs)
    moreover from this have "0 \<le> l" using liquidity_nonneg(2) [of a b amount1 l] assms by simp
    ultimately show ?thesis
      using liquidity_amount1_roundtrip [of a b amount1 l l] assms above by (auto simp: defs)
  next
    case inside
    then obtain l0 l1 where l0: "getLiquidityForAmount0 p b amount0 = Inr l0"
      and l1: "getLiquidityForAmount1 a p amount1 = Inr l1"
      using assms(8) by (auto simp: defs bindR_eq_Inr)
    have n: "0 \<le> l0" "0 \<le> l1" "l0 < 2 ^ 128"
      using liquidity_nonneg(1) [of p b amount0 l0] liquidity_nonneg(2) [of a p amount1 l1]
        getLiquidityForAmount0_Inr(2) [of p b amount0 l0] assms inside l0 l1 by auto
    then have "Uint128_from (Raw l0) = Inr (u128 l0)"
      using Uint128.factory_raw [of l0] by (simp add: Uint128_from_def)
    then have "l = min l0 l1"
      using assms(8) l0 l1 inside by (auto simp: defs Uint128.compares min_def split: if_splits)
    then have "0 \<le> l" "l \<le> l0" "l \<le> l1" using n by auto
    then show ?thesis
      using liquidity_amount0_roundtrip [of p b amount0 l l0] liquidity_amount1_roundtrip [of a p amount1 l l1]
        l0 l1 assms inside by (force simp: defs)
  qed
qed

lemma liquidity_example:
  "getLiquidityForAmounts (2 ^ 97) (2 ^ 96) (2 ^ 98) 1000 3000 = Inr 3000"
  by (simp add: getLiquidityForAmounts_def getLiquidityForAmount0_def getLiquidityForAmount1_def
      order_bounds_price Uint160_price Uint160.compares sub160_price mulDiv_eq Q96_def
      MAX_UINT256_def toUint128_eq Uint128_from_def Uint128.new_in Uint128.compares)

theorem liquidity_never_exceeds_amounts_witness:
  "\<exists>x y. getAmountsForLiquidity (2 ^ 97) (2 ^ 96) (2 ^ 98) 3000 = Inr (x, y)
     \<and> 0 \<le> x \<and> x \<le> 1000 \<and> 0 \<le> y \<and> y \<le> 3000"
  by (rule liquidity_never_exceeds_amounts [OF _ _ _ _ _ _ _ liquidity_example]) simp_all

text \<open>
  the order in which the two bounds of a range are given does not matter.
\<close>

theorem liquidity_bounds_symmetric:
  assumes "0 \<le> a" and "a < 2 ^ 160" and "0 \<le> b" and "b < 2 ^ 160"
  shows "getLiquidityForAmounts p a b x y = getLiquidityForAmounts p b a x y
    \<and> getAmountsForLiquidity p a b l = getAmountsForLiquidity p b a l"
  using assms by (simp add: getLiquidityForAmounts_def getAmountsForLiquidity_def
      order_bounds_price min.commute max.commute)

theorem liquidity_bounds_symmetric_witness:
  "getLiquidityForAmounts 7 (2 ^ 96) (2 ^ 97) 5 6 = getLiquidityForAmounts 7 (2 ^ 97) (2 ^ 96) 5 6
    \<and> getAmountsForLiquidity 7 (2 ^ 96) (2 ^ 97) 9 = getAmountsForLiquidity 7 (2 ^ 97) (2 ^ 96) 9"
  by (rule liquidity_bounds_symmetric) simp_all

end
