(* ===== verification/Js_Values.thy ===== *)
theory Js_Values
  imports Prelude "HOL-Library.Char_ord" "HOL-Library.List_Lexorder" "HOL-Library.Product_Lexorder"
begin

text \<open>
  The JavaScript values that reach the database layer and the conversions
  \<^verbatim>\<open>Number\<close>, \<^verbatim>\<open>String\<close>, \<^verbatim>\<open>Boolean\<close> and \<^verbatim>\<open>BigInt\<close> of the language. A Number is an
  integer-valued double or \<open>JNaN\<close>; reading an integer that needs more than 53 significant
  bits rounds it, ties to even. Fractions and exponents do not occur in the values that the
  modelled code converts, and numeric literals are read in decimal integer notation.
\<close>

section \<open>Decimal notation\<close>

definition digit_char :: "nat \<Rightarrow> char" where
  "digit_char d = char_of (48 + d)"

definition is_digit :: "char \<Rightarrow> bool" where
  "is_digit c \<longleftrightarrow> 48 \<le> (of_char c :: nat) \<and> (of_char c :: nat) \<le> 57"

definition digit_val :: "char \<Rightarrow> nat" where
  "digit_val c = of_char c - 48"

fun show_nat :: "nat \<Rightarrow> string" where
  "show_nat n = (if n < 10 then [digit_char n] else show_nat (n div 10) @ [digit_char (n mod 10)])"

declare show_nat.simps [simp del]

definition show_int :: "int \<Rightarrow> string" where
  "show_int i = (if i < 0 then CHR ''-'' # show_nat (nat (- i)) else show_nat (nat i))"

definition digits_val :: "string \<Rightarrow> nat" where
  "digits_val cs = foldl (\<lambda>acc c. acc * 10 + digit_val c) 0 cs"

text \<open>A decimal integer literal: an optional minus sign and at least one digit.\<close>

definition parse_int :: "string \<Rightarrow> int option" where
  "parse_int s =
     (let (neg, ds) = (case s of c # cs \<Rightarrow> if c = CHR ''-'' then (True, cs) else (False, s) | [] \<Rightarrow> (False, s))
      in if ds \<noteq> [] \<and> list_all is_digit ds
         then Some (if neg then - int (digits_val ds) else int (digits_val ds)) else None)"

lemma digit_char_simps [simp]:
  "d < 10 \<Longrightarrow> is_digit (digit_char d)" "d < 10 \<Longrightarrow> digit_val (digit_char d) = d"
  by (simp_all add: digit_char_def is_digit_def digit_val_def)

lemma digit_not_minus: "is_digit c \<Longrightarrow> c \<noteq> CHR ''-''"
  by (auto simp: is_digit_def)

lemma show_nat_digits: "list_all is_digit (show_nat n) \<and> show_nat n \<noteq> []"
proof (induction n rule: show_nat.induct)
  case (1 n)
  then show ?case by (cases "n < 10") (simp_all add: show_nat.simps [of n])
qed

lemma digits_val_show_nat [simp]: "digits_val (show_nat n) = n"
proof (induction n rule: show_nat.induct)
  case (1 n)
  then show ?case by (cases "n < 10") (simp_all add: show_nat.simps [of n] digits_val_def)
qed

lemma parse_show_int [simp]: "parse_int (show_int i) = Some i"
proof (cases "i < 0")
  case True
  then show ?thesis using show_nat_digits [of "nat (- i)"] by (simp add: show_int_def parse_int_def)
next
  case False
  obtain c cs where c: "show_nat (nat i) = c # cs" using show_nat_digits [of "nat i"] by (cases "show_nat (nat i)") auto
  then have "is_digit c" "list_all is_digit cs" using show_nat_digits [of "nat i"] by simp_all
  then show ?thesis using False c digits_val_show_nat [of "nat i"] digit_not_minus [of c]
    by (simp add: show_int_def parse_int_def)
qed

lemma show_int_nonempty [simp]: "show_int i \<noteq> []"
  using show_nat_digits by (simp add: show_int_def)

lemma show_int_inject [simp]: "show_int i = show_int j \<longleftrightarrow> i = j"
  by (metis parse_show_int option.inject)

section \<open>Doubles\<close>

text \<open>
  The double nearest to an integer: integers below \<open>2^53\<close> in absolute value are exact, a
  larger one keeps its 53 leading bits, rounded to nearest with ties to even.
\<close>

fun excess_bits :: "nat \<Rightarrow> nat" where
  "excess_bits n = (if n < 2 ^ 53 then 0 else Suc (excess_bits (n div 2)))"

declare excess_bits.simps [simp del]

definition round_half_even :: "nat \<Rightarrow> nat \<Rightarrow> nat" where
  "round_half_even n k =
     (let q = n div 2 ^ k; r = n mod 2 ^ k
      in if 2 * r > 2 ^ k \<or> (2 * r = 2 ^ k \<and> odd q) then (q + 1) * 2 ^ k else q * 2 ^ k)"

definition to_double :: "int \<Rightarrow> int" where
  "to_double i = sgn i * int (round_half_even (nat \<bar>i\<bar>) (excess_bits (nat \<bar>i\<bar>)))"

lemma to_double_exact [simp]:
  assumes "\<bar>i\<bar> < 2 ^ 53"
  shows "to_double i = i"
proof -
  have "nat \<bar>i\<bar> < 2 ^ 53" using assms by (simp add: nat_less_iff)
  then have "excess_bits (nat \<bar>i\<bar>) = 0" by (simp add: excess_bits.simps)
  then show ?thesis by (simp add: to_double_def round_half_even_def sgn_mult_abs)
qed

section \<open>Values and conversions\<close>

datatype jsval =
    JUndefined
  | JNull
  | JBool bool
  | JNum int
  | JNaN
  | JBig int
  | JStr string

fun js_typeof :: "jsval \<Rightarrow> string" where
  "js_typeof JUndefined = ''undefined''"
| "js_typeof JNull = ''object''"
| "js_typeof (JBool _) = ''boolean''"
| "js_typeof (JNum _) = ''number''"
| "js_typeof JNaN = ''number''"
| "js_typeof (JBig _) = ''bigint''"
| "js_typeof (JStr _) = ''string''"

fun js_Number :: "jsval \<Rightarrow> jsval" where
  "js_Number JUndefined = JNaN"
| "js_Number JNull = JNum 0"
| "js_Number (JBool b) = JNum (if b then 1 else 0)"
| "js_Number (JNum n) = JNum n"
| "js_Number JNaN = JNaN"
| "js_Number (JBig n) = JNum (to_double n)"
| "js_Number (JStr s) = (if s = [] then JNum 0
     else case parse_int s of Some n \<Rightarrow> JNum (to_double n) | None \<Rightarrow> JNaN)"

fun js_String :: "jsval \<Rightarrow> string" where
  "js_String JUndefined = ''undefined''"
| "js_String JNull = ''null''"
| "js_String (JBool b) = (if b then ''true'' else ''false'')"
| "js_String (JNum n) = show_int n"
| "js_String JNaN = ''NaN''"
| "js_String (JBig n) = show_int n"
| "js_String (JStr s) = s"

fun js_Boolean :: "jsval \<Rightarrow> bool" where
  "js_Boolean JUndefined = False"
| "js_Boolean JNull = False"
| "js_Boolean (JBool b) = b"
| "js_Boolean (JNum n) = (n \<noteq> 0)"
| "js_Boolean JNaN = False"
| "js_Boolean (JBig n) = (n \<noteq> 0)"
| "js_Boolean (JStr s) = (s \<noteq> [])"

fun js_BigInt :: "jsval \<Rightarrow> int result" where
  "js_BigInt JUndefined = Inl TypeError"
| "js_BigInt JNull = Inl TypeError"
| "js_BigInt (JBool b) = Inr (if b then 1 else 0)"
| "js_BigInt (JNum n) = Inr n"
| "js_BigInt JNaN = Inl RangeError"
| "js_BigInt (JBig n) = Inr n"
| "js_BigInt (JStr s) = (if s = [] then Inr 0
     else case parse_int s of Some n \<Rightarrow> Inr n | None \<Rightarrow> Inl SyntaxError)"

text \<open>\<^verbatim>\<open>JSON.stringify\<close> of a scalar; a bigint is refused.\<close>

definition hex_digit :: "nat \<Rightarrow> char" where
  "hex_digit n = (if n < 10 then char_of (48 + n) else char_of (87 + n))"

definition json_char :: "char \<Rightarrow> string" where
  "json_char c =
     (let n = (of_char c :: nat) in
      if n = 34 \<or> n = 92 then [CHR 0x5C, c]
      else if n = 8 then [CHR 0x5C, CHR ''b'']
      else if n = 9 then [CHR 0x5C, CHR ''t'']
      else if n = 10 then [CHR 0x5C, CHR ''n'']
      else if n = 12 then [CHR 0x5C, CHR ''f'']
      else if n = 13 then [CHR 0x5C, CHR ''r'']
      else if n < 32 then CHR 0x5C # ''u00'' @ [hex_digit (n div 16), hex_digit (n mod 16)]
      else [c])"

fun js_JSON :: "jsval \<Rightarrow> string result" where
  "js_JSON JUndefined = Inr ''undefined''"
| "js_JSON JNull = Inr ''null''"
| "js_JSON (JBool b) = Inr (if b then ''true'' else ''false'')"
| "js_JSON (JNum n) = Inr (show_int n)"
| "js_JSON JNaN = Inr ''null''"
| "js_JSON (JBig n) = Inl TypeError"
| "js_JSON (JStr s) = Inr (CHR 0x22 # concat (map json_char s) @ [CHR 0x22])"

text \<open>\<^verbatim>\<open>parseInt(s, 10)\<close>: leading white space, a sign, and the longest run of digits.\<close>

definition is_space :: "char \<Rightarrow> bool" where
  "is_space c \<longleftrightarrow> (of_char c :: nat) \<in> {9, 10, 11, 12, 13, 32, 160}"

definition js_parseInt :: "string \<Rightarrow> jsval" where
  "js_parseInt s =
     (let s' = dropWhile is_space s;
          (neg, ds) = (case s' of c # cs \<Rightarrow> if c = CHR ''-'' then (True, cs)
                         else if c = CHR ''+'' then (False, cs) else (False, s') | [] \<Rightarrow> (False, s'));
          n = int (digits_val (takeWhile is_digit ds))
      in if takeWhile is_digit ds = [] then JNaN else JNum (to_double (if neg then - n else n)))"

lemma js_parseInt_show_nat:
  assumes "int n < 2 ^ 53"
  shows "js_parseInt (show_nat n) = JNum (int n)"
proof -
  obtain c cs where c: "show_nat n = c # cs" using show_nat_digits [of n] by (cases "show_nat n") auto
  have "is_digit c" using show_nat_digits [of n] c by simp
  then have "\<not> is_space c" "c \<noteq> CHR ''-''" "c \<noteq> CHR ''+''" by (auto simp: is_digit_def is_space_def)
  moreover have "takeWhile is_digit (show_nat n) = show_nat n"
    using show_nat_digits [of n] by (simp add: takeWhile_eq_all_conv list_all_iff)
  ultimately show ?thesis using c assms digits_val_show_nat [of n] by (simp add: js_parseInt_def Let_def)
qed

text \<open>\<^verbatim>\<open>a || b\<close>\<close>

definition js_or :: "jsval \<Rightarrow> jsval \<Rightarrow> jsval" where
  "js_or a b = (if js_Boolean a then a else b)"

section \<open>The order of the values\<close>

text \<open>
  The order in which the database sorts a column: \<^verbatim>\<open>NULL\<close> first, numbers (booleans are stored
  as 0 and 1) by value, strings by their characters. The last component keeps values apart
  that the database would treat as equal, so that the order is linear.
\<close>

fun jsval_rank :: "jsval \<Rightarrow> nat \<times> int \<times> string \<times> nat" where
  "jsval_rank JUndefined = (0, 0, [], 0)"
| "jsval_rank JNull = (0, 0, [], 1)"
| "jsval_rank JNaN = (0, 0, [], 2)"
| "jsval_rank (JBool b) = (1, if b then 1 else 0, [], 0)"
| "jsval_rank (JNum n) = (1, n, [], 1)"
| "jsval_rank (JBig n) = (1, n, [], 2)"
| "jsval_rank (JStr s) = (2, 0, s, 0)"

lemma jsval_rank_inject: "jsval_rank a = jsval_rank b \<Longrightarrow> a = b"
  by (cases a; cases b) (auto split: if_splits)

instantiation jsval :: linorder
begin

definition less_eq_jsval :: "jsval \<Rightarrow> jsval \<Rightarrow> bool" where
  "less_eq_jsval a b \<longleftrightarrow> jsval_rank a \<le> jsval_rank b"

definition less_jsval :: "jsval \<Rightarrow> jsval \<Rightarrow> bool" where
  "less_jsval a b \<longleftrightarrow> jsval_rank a < jsval_rank b"

instance
  by standard (auto simp: less_eq_jsval_def less_jsval_def intro: jsval_rank_inject)

end

end
