(* ===== verification/Pool_Address.thy ===== *)
theory Pool_Address
  imports Js_Values
begin

text \<open>
  \<^verbatim>\<open>indexer/utils/poolAddress.js\<close> and \<^verbatim>\<open>indexer/utils/tradingPath.js\<close>: pool keys, the 20-byte
  pool addresses they encode to, NFT identifiers and swap paths. A Buffer is a list of bytes;
  the address codec and the hash function of \<^verbatim>\<open>@klayr/cryptography\<close> are parameters.
\<close>

section \<open>Buffers\<close>

type_synonym buffer = "nat list"

definition hex_val :: "char \<Rightarrow> nat option" where
  "hex_val c = (let n = (of_char c :: nat) in
     if 48 \<le> n \<and> n \<le> 57 then Some (n - 48)
     else if 97 \<le> n \<and> n \<le> 102 then Some (n - 87)
     else if 65 \<le> n \<and> n \<le> 70 then Some (n - 55)
     else None)"

text \<open>\<^verbatim>\<open>Buffer.from(s, 'hex')\<close> stops at the first pair that is not hexadecimal.\<close>

fun hex_decode :: "string \<Rightarrow> buffer" where
  "hex_decode (a # b # cs) = (case (hex_val a, hex_val b) of
     (Some x, Some y) \<Rightarrow> (16 * x + y) # hex_decode cs | _ \<Rightarrow> [])"
| "hex_decode _ = []"

text \<open>\<^verbatim>\<open>buf.toString('hex')\<close>\<close>

definition hex_encode :: "buffer \<Rightarrow> string" where
  "hex_encode bs = concat (map (\<lambda>b. [hex_digit (b div 16), hex_digit (b mod 16)]) bs)"

definition be_val :: "buffer \<Rightarrow> nat" where
  "be_val bs = foldl (\<lambda>acc b. acc * 256 + b) 0 bs"

fun be_bytes :: "nat \<Rightarrow> nat \<Rightarrow> buffer" where
  "be_bytes 0 v = []"
| "be_bytes (Suc n) v = be_bytes n (v div 256) @ [v mod 256]"

definition readUIntBE :: "buffer \<Rightarrow> nat \<Rightarrow> nat result" where
  "readUIntBE bs n = (if length bs < n then Inl RangeError else Inr (be_val (take n bs)))"

text \<open>A value out of range is refused; \<^verbatim>\<open>NaN\<close> passes the range check and is written as zero.\<close>

definition writeUIntBE :: "jsval \<Rightarrow> nat \<Rightarrow> buffer result" where
  "writeUIntBE v n = (case v of
     JNum i \<Rightarrow> (if i < 0 \<or> i \<ge> 256 ^ n then Inl RangeError else Inr (be_bytes n (nat i)))
   | _ \<Rightarrow> Inr (replicate n 0))"

definition is_byte :: "nat \<Rightarrow> bool" where
  "is_byte b \<longleftrightarrow> b < 256"

definition is_hex :: "char \<Rightarrow> bool" where
  "is_hex c \<longleftrightarrow> is_digit c \<or> (97 \<le> (of_char c :: nat) \<and> (of_char c :: nat) \<le> 102)"

lemma hex_val_digit [simp]: "n < 16 \<Longrightarrow> hex_val (hex_digit n) = Some n"
  by (simp add: hex_val_def hex_digit_def)

lemma hex_digit_val: "is_hex c \<Longrightarrow> \<exists>n < 16. hex_val c = Some n \<and> hex_digit n = c"
  by (auto simp: is_hex_def is_digit_def hex_val_def hex_digit_def Let_def)

lemma is_hex_digit [simp]: "n < 16 \<Longrightarrow> is_hex (hex_digit n)"
  by (simp add: is_hex_def is_digit_def hex_digit_def)

lemma hex_encode_Nil [simp]: "hex_encode [] = []"
  and hex_encode_Cons [simp]: "hex_encode (b # bs) = hex_digit (b div 16) # hex_digit (b mod 16) # hex_encode bs"
  and hex_encode_append: "hex_encode (bs @ cs) = hex_encode bs @ hex_encode cs"
  by (simp_all add: hex_encode_def)

lemma length_hex_encode [simp]: "length (hex_encode bs) = 2 * length bs"
  by (induction bs) simp_all

lemma hex_decode_encode [simp]: "list_all is_byte bs \<Longrightarrow> hex_decode (hex_encode bs) = bs"
proof (induction bs)
  case (Cons b bs)
  then have "b div 16 < 16" by (simp add: is_byte_def less_mult_imp_div_less)
  then show ?case using Cons by simp
qed simp

lemma hex_encode_decode: "list_all is_hex s \<Longrightarrow> even (length s) \<Longrightarrow> hex_encode (hex_decode s) = s"
proof (induction s rule: hex_decode.induct)
  case (1 a b cs)
  have "is_hex a" "is_hex b" using 1(2) by simp_all
  then obtain x y where "x < 16" "hex_val a = Some x" "hex_digit x = a" "y < 16" "hex_val b = Some y" "hex_digit y = b"
    using hex_digit_val by meson
  then show ?case using 1 by simp
qed simp_all

lemma hex_decode_props:
  "list_all is_hex s \<Longrightarrow> even (length s) \<Longrightarrow> list_all is_byte (hex_decode s) \<and> length (hex_decode s) = length s div 2"
proof (induction s rule: hex_decode.induct)
  case (1 a b cs)
  have "is_hex a" "is_hex b" using 1(2) by simp_all
  then obtain x y where "x < 16" "hex_val a = Some x" "y < 16" "hex_val b = Some y"
    using hex_digit_val by meson
  then show ?case using 1 by (simp add: is_byte_def)
qed simp_all

lemma length_be_bytes [simp]: "length (be_bytes n v) = n"
  by (induction n arbitrary: v) simp_all

lemma be_bytes_byte [simp]: "list_all is_byte (be_bytes n v)"
  by (induction n arbitrary: v) (simp_all add: is_byte_def)

lemma be_val_snoc [simp]: "be_val (bs @ [b]) = be_val bs * 256 + b"
  by (simp add: be_val_def)

lemma be_val_bytes [simp]: "v < 256 ^ n \<Longrightarrow> be_val (be_bytes n v) = v"
proof (induction n arbitrary: v)
  case (Suc n)
  then have "v div 256 < 256 ^ n" by (simp add: less_mult_imp_div_less mult.commute)
  then show ?case using Suc.IH by simp
qed (simp add: be_val_def)

lemma be_val_bound: "list_all is_byte bs \<Longrightarrow> be_val bs < 256 ^ length bs"
proof (induction bs rule: rev_induct)
  case (snoc b bs)
  then have "be_val bs + 1 \<le> 256 ^ length bs" "b < 256" by (simp_all add: is_byte_def)
  then have "be_val bs * 256 + b < 256 * (256 ^ length bs)" by linarith
  then show ?case by simp
qed (simp add: be_val_def)

lemma be_bytes_val: "list_all is_byte bs \<Longrightarrow> be_bytes (length bs) (be_val bs) = bs"
  by (induction bs rule: rev_induct) (simp_all add: is_byte_def)

section \<open>Pool keys and addresses\<close>

record pool_key =
  token0 :: string
  token1 :: string
  fee :: string

text \<open>An address argument is a string or a Buffer.\<close>

datatype address = AStr string | ABuf buffer

definition getPoolKey :: "string \<Rightarrow> string \<Rightarrow> string \<Rightarrow> pool_key result" where
  "getPoolKey tokenA tokenB f =
     (if tokenA = tokenB then Inl (Error ''same token address'')
      else Inr \<lparr>token0 = (if tokenA < tokenB then tokenA else tokenB),
                token1 = (if tokenA < tokenB then tokenB else tokenA), fee = f\<rparr>)"

definition decodePoolAddress :: "(string \<Rightarrow> buffer result) \<Rightarrow> address \<Rightarrow> pool_key result" where
  "decodePoolAddress getAddressFromKlayr32Address poolAddress =
     bindR (case poolAddress of
              AStr s \<Rightarrow> (if length s = 41 then getAddressFromKlayr32Address s else Inr (hex_decode s))
            | ABuf b \<Rightarrow> Inr b) (\<lambda>pool.
     bindR (readUIntBE (drop 16 pool) 4) (\<lambda>f.
     Inr \<lparr>token0 = hex_encode (take 8 pool), token1 = hex_encode (take 8 (drop 8 pool)), fee = show_nat f\<rparr>))"

definition computePoolAddress :: "pool_key \<Rightarrow> buffer result" where
  "computePoolAddress key =
     (if token0 key = replicate 16 (CHR ''0'') \<and> token1 key = replicate 16 (CHR ''0'') \<and> fee key = ''0''
      then Inl (Error ''zero'')
      else if token0 key > token1 key then Inl (Error ''invalid token0/token1'')
      else if token0 key = [] then Inl (Error ''invalid token0'')
      else bindR (writeUIntBE (js_parseInt (fee key)) 4) (\<lambda>feeBuf.
             Inr (hex_decode (token0 key) @ hex_decode (token1 key) @ feeBuf)))"

definition computePoolId :: "(string \<Rightarrow> buffer result) \<Rightarrow> (buffer \<Rightarrow> buffer) \<Rightarrow> address \<Rightarrow> string result" where
  "computePoolId getAddressFromKlayr32Address hash poolAddress =
     bindR (case poolAddress of AStr s \<Rightarrow> getAddressFromKlayr32Address s | ABuf b \<Rightarrow> Inr b) (\<lambda>pool.
     if length pool \<noteq> 20 then Inl (Error ''invalid poolAddress'')
     else Inr (hex_encode (take 4 (hash pool))))"

record nft_id =
  chainId :: string
  collectionId :: string
  nft_index :: nat

definition decodeNFTId :: "string \<Rightarrow> nft_id result" where
  "decodeNFTId nftId =
     (let nft = hex_decode nftId in
      bindR (readUIntBE (drop 8 nft) 8) (\<lambda>i.
      Inr \<lparr>chainId = hex_encode (take 4 nft), collectionId = hex_encode (take 4 (drop 4 nft)), nft_index = i\<rparr>))"

section \<open>Round trips\<close>

definition is_token_id :: "string \<Rightarrow> bool" where
  "is_token_id s \<longleftrightarrow> length s = 16 \<and> list_all is_hex s"

definition valid_pool_key :: "pool_key \<Rightarrow> nat \<Rightarrow> bool" where
  "valid_pool_key key f \<longleftrightarrow> is_token_id (token0 key) \<and> is_token_id (token1 key) \<and> token0 key < token1 key
     \<and> f < 2 ^ 32 \<and> fee key = show_nat f"

lemma token_bytes:
  assumes "is_token_id s"
  shows "length (hex_decode s) = 8" "list_all is_byte (hex_decode s)" "hex_encode (hex_decode s) = s"
  using assms hex_decode_props [of s] hex_encode_decode [of s] by (simp_all add: is_token_id_def)

lemma computePoolAddress_valid:
  assumes "valid_pool_key key f"
  shows "computePoolAddress key = Inr (hex_decode (token0 key) @ hex_decode (token1 key) @ be_bytes 4 f)"
proof -
  have f: "js_parseInt (fee key) = JNum (int f)" using assms by (simp add: valid_pool_key_def js_parseInt_show_nat)
  have ne: "token0 key \<noteq> []" "\<not> token1 key < token0 key" "token0 key \<noteq> token1 key"
    using assms by (auto simp: valid_pool_key_def is_token_id_def)
  have "writeUIntBE (JNum (int f)) 4 = Inr (be_bytes 4 f)"
    using assms by (simp add: writeUIntBE_def valid_pool_key_def)
  then show ?thesis using f ne by (auto simp: computePoolAddress_def)
qed

lemma decode_pool_bytes:
  assumes "valid_pool_key key f"
  shows "decodePoolAddress dec (ABuf (hex_decode (token0 key) @ hex_decode (token1 key) @ be_bytes 4 f)) = Inr key"
proof -
  have t: "is_token_id (token0 key)" "is_token_id (token1 key)" using assms by (simp_all add: valid_pool_key_def)
  have "be_val (be_bytes 4 f) = f" using assms by (intro be_val_bytes) (simp add: valid_pool_key_def)
  then show ?thesis using assms token_bytes [OF t(1)] token_bytes [OF t(2)]
    by (simp add: decodePoolAddress_def readUIntBE_def valid_pool_key_def)
qed

text \<open>
  C17: Two different token identifiers and a 32-bit fee give a pool key, in either order of the
  tokens the same one; the key encodes to a 20-byte address, and decoding the address, as a
  Buffer, in hexadecimal or in the Klayr32 form, gives the key back. The codec of the Klayr32
  form is a parameter of which only decoding after encoding and the length 41 are used.
\<close>

theorem pool_address_roundtrip:
  assumes "is_token_id a" and "is_token_id b" and "a \<noteq> b" and "f < 2 ^ 32"
    and "\<And>bs. length bs = 20 \<Longrightarrow> list_all is_byte bs \<Longrightarrow> dec (enc bs) = Inr bs \<and> length (enc bs) = 41"
  shows "\<exists>key bs. getPoolKey a b (show_nat f) = Inr key \<and> getPoolKey b a (show_nat f) = Inr key
     \<and> computePoolAddress key = Inr bs \<and> length bs = 20
     \<and> decodePoolAddress dec (ABuf bs) = Inr key
     \<and> decodePoolAddress dec (AStr (hex_encode bs)) = Inr key
     \<and> decodePoolAddress dec (AStr (enc bs)) = Inr key"
proof -
  define key where "key = \<lparr>token0 = min a b, token1 = max a b, fee = show_nat f\<rparr>"
  have key: "getPoolKey a b (show_nat f) = Inr key" "getPoolKey b a (show_nat f) = Inr key"
    using assms(3) by (auto simp: getPoolKey_def key_def min_def max_def)
  have v: "valid_pool_key key f"
    using assms(1-4) by (auto simp: valid_pool_key_def key_def min_def max_def)
  define bs where "bs = hex_decode (token0 key) @ hex_decode (token1 key) @ be_bytes 4 f"
  have t: "is_token_id (token0 key)" "is_token_id (token1 key)" using v by (simp_all add: valid_pool_key_def)
  have len: "length bs = 20" and bytes: "list_all is_byte bs"
    using token_bytes [OF t(1)] token_bytes [OF t(2)] by (simp_all add: bs_def)
  have buf: "decodePoolAddress dec (ABuf bs) = Inr key" unfolding bs_def by (rule decode_pool_bytes [OF v])
  have "decodePoolAddress dec (AStr (hex_encode bs)) = decodePoolAddress dec (ABuf bs)"
    using len bytes by (simp add: decodePoolAddress_def)
  moreover have "decodePoolAddress dec (AStr (enc bs)) = decodePoolAddress dec (ABuf bs)"
    using assms(5) [OF len bytes] by (simp add: decodePoolAddress_def)
  ultimately show ?thesis using key buf len computePoolAddress_valid [OF v] by (auto simp: bs_def)
qed

theorem pool_address_roundtrip_witness:
  "\<exists>key bs. getPoolKey ''0000000100000000'' ''0000000000000000'' (show_nat 3000) = Inr key
     \<and> computePoolAddress key = Inr bs
     \<and> decodePoolAddress (\<lambda>s. Inr (hex_decode (tl s))) (AStr (CHR ''k'' # hex_encode bs)) = Inr key"
proof -
  have "is_token_id ''0000000100000000''" "is_token_id ''0000000000000000''"
    by (simp_all add: is_token_id_def is_hex_def is_digit_def)
  then show ?thesis
    using pool_address_roundtrip [of "''0000000100000000''" "''0000000000000000''" 3000 "\<lambda>s. Inr (hex_decode (tl s))" "\<lambda>bs. CHR ''k'' # hex_encode bs"]
    by fastforce
qed

text \<open>
  An NFT identifier is the chain, the collection and the index one after the other: a
  32-digit identifier decodes to its first eight digits, its next eight digits and the 64-bit
  number the rest denotes; a shorter one is refused.
\<close>

theorem decodeNFTId_fields:
  assumes "list_all is_hex s" and "even (length s)"
  shows "(length s < 32 \<longrightarrow> decodeNFTId s = Inl RangeError)
       \<and> (length s = 32 \<longrightarrow> (\<exists>nft. decodeNFTId s = Inr nft \<and> nft_index nft < 2 ^ 64
            \<and> s = chainId nft @ collectionId nft @ hex_encode (be_bytes 8 (nft_index nft))
            \<and> length (chainId nft) = 8 \<and> length (collectionId nft) = 8))"
proof -
  let ?b = "hex_decode s"
  have b: "list_all is_byte ?b" "length ?b = length s div 2" "hex_encode ?b = s"
    using hex_decode_props [OF assms] hex_encode_decode [OF assms] by simp_all
  have short: "decodeNFTId s = Inl RangeError" if "length s < 32"
    using that b(2) assms(2) by (auto simp: decodeNFTId_def readUIntBE_def Let_def elim!: evenE)
  have "\<exists>nft. decodeNFTId s = Inr nft \<and> nft_index nft < 2 ^ 64
            \<and> s = chainId nft @ collectionId nft @ hex_encode (be_bytes 8 (nft_index nft))
            \<and> length (chainId nft) = 8 \<and> length (collectionId nft) = 8" if l: "length s = 32"
  proof -
    have l8: "length (drop 8 ?b) = 8" and by8: "list_all is_byte (drop 8 ?b)"
      using b l by (auto simp: list_all_iff dest: in_set_dropD)
    have "s = hex_encode (take 4 ?b @ take 4 (drop 4 ?b) @ drop 8 ?b)"
      using b(3) by (metis append_take_drop_id drop_drop numeral_Bit0)
    then have "s = hex_encode (take 4 ?b) @ hex_encode (take 4 (drop 4 ?b)) @ hex_encode (drop 8 ?b)"
      by (simp add: hex_encode_append)
    moreover define nft where "nft = \<lparr>chainId = hex_encode (take 4 ?b), collectionId = hex_encode (take 4 (drop 4 ?b)),
        nft_index = be_val (drop 8 ?b)\<rparr>"
    ultimately have "s = chainId nft @ collectionId nft @ hex_encode (be_bytes 8 (nft_index nft))"
      using be_bytes_val [OF by8] l8 by simp
    moreover have "decodeNFTId s = Inr nft" "nft_index nft < 2 ^ 64" "length (chainId nft) = 8" "length (collectionId nft) = 8"
      using l8 l b(2) be_val_bound [OF by8] by (simp_all add: decodeNFTId_def readUIntBE_def nft_def Let_def)
    ultimately show ?thesis by blast
  qed
  then show ?thesis using short by blast
qed

theorem decodeNFTId_fields_witness:
  "\<exists>nft. decodeNFTId ''0000000000001234000000000000002a'' = Inr nft
     \<and> chainId nft = ''00000000'' \<and> collectionId nft = ''00001234'' \<and> nft_index nft < 2 ^ 64"
proof -
  let ?s = "''0000000000001234000000000000002a''"
  have "list_all is_hex ?s" "even (length ?s)" "length ?s = 32" by (simp_all add: is_hex_def is_digit_def)
  then obtain nft where nft: "decodeNFTId ?s = Inr nft" "nft_index nft < 2 ^ 64"
    and s: "?s = chainId nft @ collectionId nft @ hex_encode (be_bytes 8 (nft_index nft))"
    and l: "length (chainId nft) = 8" "length (collectionId nft) = 8"
    using decodeNFTId_fields [of ?s] by blast
  have "chainId nft = take 8 ?s" "collectionId nft = take 8 (drop 8 ?s)" unfolding s using l by simp_all
  then show ?thesis using nft by simp
qed

end
