(* ===== verification/Price_Quoter.thy ===== *)
theory Price_Quoter
  imports Complex_Main Pool_Address
begin

text \<open>
  \<^verbatim>\<open>indexer/utils/tradingPath.js\<close> and the price quotation of \<^verbatim>\<open>dataService/dex/priceQuoter.js\<close>:
  swap paths in hexadecimal, the recursive query that enumerates routes through the pools, and
  the price of one token in another. The two SQL queries are given their meaning on the list of
  pool rows; prices and liquidities, which the code keeps as decimals and doubles, are exact
  rationals here, so rounding is not modelled.
\<close>

section \<open>Swap paths\<close>

definition ADDR_SIZE :: nat where "ADDR_SIZE = 8"

definition FEE_SIZE :: nat where "FEE_SIZE = 3"

definition NEXT_OFFSET :: nat where "NEXT_OFFSET = ADDR_SIZE + FEE_SIZE"

definition POP_OFFSET :: nat where "POP_OFFSET = NEXT_OFFSET + ADDR_SIZE"

definition MULTIPLE_POOLS_MIN_LENGTH :: nat where "MULTIPLE_POOLS_MIN_LENGTH = POP_OFFSET + NEXT_OFFSET"

text \<open>\<^verbatim>\<open>s.substring(i, j)\<close>\<close>

definition substring :: "string \<Rightarrow> nat \<Rightarrow> nat \<Rightarrow> string" where
  "substring s i j = take (j - i) (drop i s)"

definition hasMultiplePools :: "string \<Rightarrow> bool" where
  "hasMultiplePools path \<longleftrightarrow> length path \<ge> MULTIPLE_POOLS_MIN_LENGTH * 2"

definition numPools :: "string \<Rightarrow> rat" where
  "numPools path = (of_nat (length path) - of_nat (ADDR_SIZE * 2)) / of_nat (NEXT_OFFSET * 2)"

text \<open>The fee is read from the character codes of the substring, since \<^verbatim>\<open>Buffer.from\<close> is called
  without the encoding \<^verbatim>\<open>'hex'\<close>.\<close>

definition decodeFirstPool :: "string \<Rightarrow> (string \<times> string \<times> string) result" where
  "decodeFirstPool path =
     bindR (readUIntBE (map of_char (substring path (ADDR_SIZE * 2) (ADDR_SIZE * 2 + 6))) 3) (\<lambda>f.
       Inr (substring path 0 16, substring path (NEXT_OFFSET * 2) (NEXT_OFFSET * 2 + 16), show_nat f))"

definition getFirstPool :: "string \<Rightarrow> string" where
  "getFirstPool path = substring path 0 (POP_OFFSET * 2)"

definition skipToken :: "string \<Rightarrow> string" where
  "skipToken path = drop (NEXT_OFFSET * 2) path"

section \<open>Queries on the pool table\<close>

record pool_row =
  pr_token0 :: string
  pr_token1 :: string
  pr_feeHex :: string
  pr_price :: rat
  pr_liquidity :: rat

definition getWeightedPrice :: "pool_row list \<Rightarrow> string \<Rightarrow> string \<Rightarrow> rat result" where
  "getWeightedPrice pools tokenA tokenB =
     (if length tokenA \<noteq> 16 then Inl (Error ''invalid token0'')
      else if length tokenB \<noteq> 16 then Inl (Error ''invalid token1'')
      else let sel = filter (\<lambda>p. pr_token0 p = tokenA \<and> pr_token1 p = tokenB) pools;
               liq = sum_list (map pr_liquidity sel)
           in Inr (if liq = 0 then 0 else sum_list (map (\<lambda>p. pr_price p * pr_liquidity p) sel) / liq))"

text \<open>A row of the recursive common table expression \<^verbatim>\<open>ShortestPath\<close>.\<close>

record sp_row =
  sp_node :: string
  sp_next :: string
  sp_price :: rat
  sp_liquidity :: rat
  sp_depth :: nat
  sp_path :: string

definition sp_base :: "pool_row list \<Rightarrow> string \<Rightarrow> rat \<Rightarrow> sp_row list" where
  "sp_base pools a minLiquidity =
     map (\<lambda>t. \<lparr>sp_node = pr_token0 t, sp_next = pr_token1 t, sp_price = pr_price t, sp_liquidity = pr_liquidity t,
              sp_depth = 1, sp_path = pr_token0 t @ pr_feeHex t @ pr_token1 t\<rparr>)
       (filter (\<lambda>t. pr_token0 t = a \<and> pr_liquidity t \<ge> minLiquidity) pools)"

definition sp_extend :: "pool_row list \<Rightarrow> rat \<Rightarrow> sp_row \<Rightarrow> sp_row list" where
  "sp_extend pools minLiquidity sp =
     map (\<lambda>t. \<lparr>sp_node = sp_next sp, sp_next = pr_token1 t, sp_price = sp_price sp * pr_price t,
              sp_liquidity = sp_liquidity sp + pr_liquidity t, sp_depth = sp_depth sp + 1,
              sp_path = sp_path sp @ pr_feeHex t @ pr_token1 t\<rparr>)
       (filter (\<lambda>t. pr_token0 t = sp_next sp \<and> pr_liquidity t \<ge> minLiquidity) pools)"

text \<open>\<^verbatim>\<open>UNION ALL\<close> of the rounds; a round only extends rows of depth below \<^verbatim>\<open>maxRecursion\<close>, so
  \<open>k\<close> further rounds are left when the rows of the current one have depth \<open>maxRecursion - k\<close>.\<close>

fun sp_rounds :: "pool_row list \<Rightarrow> rat \<Rightarrow> nat \<Rightarrow> sp_row list \<Rightarrow> sp_row list" where
  "sp_rounds pools minLiquidity 0 rows = rows"
| "sp_rounds pools minLiquidity (Suc k) rows =
     rows @ sp_rounds pools minLiquidity k (concat (map (sp_extend pools minLiquidity) rows))"

definition getRoute :: "pool_row list \<Rightarrow> string \<Rightarrow> string \<Rightarrow> nat \<Rightarrow> nat \<Rightarrow> rat \<Rightarrow> sp_row list result" where
  "getRoute pools a b maxRecursion limit minLiquidity =
     (if length a \<noteq> 16 then Inl (Error ''invalid from'')
      else if length b \<noteq> 16 then Inl (Error ''invalid to'')
      else let rows = sp_rounds pools minLiquidity (maxRecursion - 1) (sp_base pools a minLiquidity);
               hits = filter (\<lambda>r. sp_next r = b \<and> sp_liquidity r \<ge> minLiquidity) rows
           in Inr (take limit (sort_key (\<lambda>r. (sp_depth r, sp_price r, - sp_liquidity r)) hits)))"

section \<open>The price of a token in another\<close>

record dex_tokens =
  klyTokenId :: string
  swlTokenId :: string
  swxTokenId :: string

definition usdTokenId :: string where
  "usdTokenId = ''X'' @ concat (replicate 5 ''USD'')"

function price_loop :: "pool_row list \<Rightarrow> string \<Rightarrow> rat \<Rightarrow> rat result" where
  "price_loop pools path price =
     bindR (decodeFirstPool path) (\<lambda>(tokenIn, tokenOut, _).
     bindR (getWeightedPrice pools tokenIn tokenOut) (\<lambda>weightedPrice.
       if hasMultiplePools path then price_loop pools (skipToken path) (price * weightedPrice)
       else Inr (price * weightedPrice)))"
  by pat_completeness auto
termination
  by (relation "measure (\<lambda>(_, path, _). length path)")
    (auto simp: hasMultiplePools_def skipToken_def MULTIPLE_POOLS_MIN_LENGTH_def POP_OFFSET_def NEXT_OFFSET_def ADDR_SIZE_def FEE_SIZE_def)

declare price_loop.simps [simp del]

definition getPrice :: "dex_tokens \<Rightarrow> nat \<Rightarrow> rat \<Rightarrow> pool_row list \<Rightarrow> string \<Rightarrow> string \<Rightarrow> rat result" where
  "getPrice tk maxRouteLength klyUSDPrice pools base quote =
     (if base = quote then Inr 1
      else let q = (if quote = usdTokenId then klyTokenId tk else quote);
               route = (if base = swlTokenId tk \<and> q = klyTokenId tk
                        then Inr (Some (swlTokenId tk @ ''000064'' @ swxTokenId tk @ ''000bb8'' @ klyTokenId tk))
                        else if base = klyTokenId tk \<and> q = swlTokenId tk
                        then Inr (Some (klyTokenId tk @ ''000bb8'' @ swxTokenId tk @ ''000064'' @ swlTokenId tk))
                        else bindR (getRoute pools base q maxRouteLength 1 1) (\<lambda>rs.
                          Inr (case rs of [] \<Rightarrow> None | r # _ \<Rightarrow> Some (sp_path r))))
           in bindR route (\<lambda>path. case path of
                None \<Rightarrow> Inr 0
              | Some p \<Rightarrow> bindR (price_loop pools p 1) (\<lambda>price.
                  Inr (if quote = usdTokenId then price * klyUSDPrice else price))))"

section \<open>Paths as lists of hops\<close>

fun encode_path :: "string \<Rightarrow> (string \<times> string) list \<Rightarrow> string" where
  "encode_path t [] = t"
| "encode_path t ((f, u) # hs) = t @ f @ encode_path u hs"

definition hop_ok :: "string \<times> string \<Rightarrow> bool" where
  "hop_ok h \<longleftrightarrow> length (fst h) = 6 \<and> length (snd h) = 16"

lemmas path_sizes = ADDR_SIZE_def FEE_SIZE_def NEXT_OFFSET_def POP_OFFSET_def MULTIPLE_POOLS_MIN_LENGTH_def

lemma length_encode_path:
  "length t = 16 \<Longrightarrow> list_all hop_ok hs \<Longrightarrow> length (encode_path t hs) = 16 + 22 * length hs"
  by (induction t hs rule: encode_path.induct) (simp_all add: hop_ok_def)

lemma encode_path_snoc: "encode_path t (hs @ [(f, u)]) = encode_path t hs @ f @ u"
  by (induction t hs rule: encode_path.induct) simp_all

lemma hd_encode_path: "\<exists>rest. encode_path u hs = u @ rest"
  by (cases hs) auto

lemma decodeFirstPool_path:
  assumes "length t = 16" and "hop_ok (f, u)"
  shows "\<exists>g. decodeFirstPool (encode_path t ((f, u) # hs)) = Inr (t, u, g)"
proof -
  obtain rest where "encode_path u hs = u @ rest" using hd_encode_path by blast
  then show ?thesis using assms
    by (simp add: decodeFirstPool_def substring_def path_sizes readUIntBE_def hop_ok_def)
qed

lemma hasMultiplePools_path:
  "length t = 16 \<Longrightarrow> list_all hop_ok ((f, u) # hs) \<Longrightarrow> hasMultiplePools (encode_path t ((f, u) # hs)) \<longleftrightarrow> hs \<noteq> []"
  unfolding hasMultiplePools_def length_encode_path by (cases hs) (simp_all add: path_sizes)

lemma skipToken_path:
  "length t = 16 \<Longrightarrow> hop_ok (f, u) \<Longrightarrow> skipToken (encode_path t ((f, u) # hs)) = encode_path u hs"
  by (simp add: skipToken_def path_sizes hop_ok_def)

text \<open>
  A path of \<open>n\<close> hops, sixteen digits for each token and six for each fee, is taken apart as
  intended: \<open>numPools\<close> is \<open>n\<close>, there are several pools exactly from two hops on, the first
  pool is the first two tokens and their fee, the tokens of the first pool are decoded, and
  skipping a token leaves the path of the remaining hops.
\<close>

theorem path_operations:
  assumes "length t = 16" and "list_all hop_ok ((f, u) # hs)"
  shows "numPools (encode_path t ((f, u) # hs)) = of_nat (Suc (length hs))
     \<and> (hasMultiplePools (encode_path t ((f, u) # hs)) \<longleftrightarrow> hs \<noteq> [])
     \<and> getFirstPool (encode_path t ((f, u) # hs)) = encode_path t [(f, u)]
     \<and> skipToken (encode_path t ((f, u) # hs)) = encode_path u hs
     \<and> (\<exists>g. decodeFirstPool (encode_path t ((f, u) # hs)) = Inr (t, u, g))"
proof -
  obtain rest where rest: "encode_path u hs = u @ rest" using hd_encode_path by blast
  have hop: "hop_ok (f, u)" using assms(2) by simp
  have "numPools (encode_path t ((f, u) # hs)) = of_nat (Suc (length hs))"
    unfolding numPools_def length_encode_path [OF assms] by (simp add: path_sizes)
  moreover have "getFirstPool (encode_path t ((f, u) # hs)) = encode_path t [(f, u)]"
    using rest hop assms(1) by (simp add: getFirstPool_def substring_def path_sizes hop_ok_def)
  ultimately show ?thesis
    using hasMultiplePools_path [OF assms] skipToken_path [OF assms(1) hop] decodeFirstPool_path [OF assms(1) hop]
    by blast
qed

theorem path_operations_witness:
  "numPools (encode_path (replicate 16 (CHR ''0'')) [(''000bb8'', replicate 16 (CHR ''1''))]) = 1"
  using path_operations [of "replicate 16 (CHR ''0'')" "''000bb8''" "replicate 16 (CHR ''1'')" "[]"]
  by (simp add: hop_ok_def)

text \<open>The fee a path carries is not the fee that is decoded.\<close>

lemma decodeFirstPool_fee_wrong:
  "decodeFirstPool (encode_path ''0000000000000000'' [(''000bb8'', ''1111111111111111'')])
     = Inr (''0000000000000000'', ''1111111111111111'', show_nat 3158064)"
  by (simp add: decodeFirstPool_def substring_def path_sizes readUIntBE_def be_val_def)

section \<open>The price along a path\<close>

definition weighted_price :: "pool_row list \<Rightarrow> string \<Rightarrow> string \<Rightarrow> rat" where
  "weighted_price pools a b =
     (let sel = filter (\<lambda>p. pr_token0 p = a \<and> pr_token1 p = b) pools
      in sum_list (map (\<lambda>p. pr_price p * pr_liquidity p) sel) / sum_list (map pr_liquidity sel))"

fun path_price :: "pool_row list \<Rightarrow> string \<Rightarrow> (string \<times> string) list \<Rightarrow> rat" where
  "path_price pools t [] = 1"
| "path_price pools t ((f, u) # hs) = weighted_price pools t u * path_price pools u hs"

lemma getWeightedPrice_ok:
  "length a = 16 \<Longrightarrow> length b = 16 \<Longrightarrow> getWeightedPrice pools a b = Inr (weighted_price pools a b)"
  by (simp add: getWeightedPrice_def weighted_price_def Let_def)

lemma price_loop_path:
  assumes "length t = 16" and "hs \<noteq> []" and "list_all hop_ok hs"
  shows "price_loop pools (encode_path t hs) p = Inr (p * path_price pools t hs)"
  using assms
proof (induction pools t hs arbitrary: p rule: path_price.induct)
  case (2 pools t f u hs)
  obtain g where g: "decodeFirstPool (encode_path t ((f, u) # hs)) = Inr (t, u, g)"
    using decodeFirstPool_path [OF 2(2)] 2(4) by fastforce
  have u: "length u = 16" and hop: "hop_ok (f, u)" using 2(4) by (simp_all add: hop_ok_def)
  have "price_loop pools (encode_path t ((f, u) # hs)) p =
      (if hs \<noteq> [] then price_loop pools (encode_path u hs) (p * weighted_price pools t u) else Inr (p * weighted_price pools t u))"
    by (subst price_loop.simps)
      (simp only: g bindR_Inr case_prod_conv getWeightedPrice_ok [OF 2(2) u] hasMultiplePools_path [OF 2(2,4)] skipToken_path [OF 2(2) hop])
  then show ?case using 2 u by (auto simp: mult.assoc)
qed simp

section \<open>Routes are walks through the pools\<close>

text \<open>A walk is a sequence of liquid pools in which each starts at the token where the one
  before ends.\<close>

fun walk :: "pool_row list \<Rightarrow> rat \<Rightarrow> string \<Rightarrow> pool_row list \<Rightarrow> bool" where
  "walk pools m a [] = True"
| "walk pools m a (t # ts) = (t \<in> set pools \<and> pr_liquidity t \<ge> m \<and> pr_token0 t = a \<and> walk pools m (pr_token1 t) ts)"

definition hops :: "pool_row list \<Rightarrow> (string \<times> string) list" where
  "hops ts = map (\<lambda>t. (pr_feeHex t, pr_token1 t)) ts"

definition route_row :: "string \<Rightarrow> pool_row list \<Rightarrow> sp_row" where
  "route_row a ts = \<lparr>sp_node = pr_token0 (last ts), sp_next = pr_token1 (last ts),
     sp_price = prod_list (map pr_price ts), sp_liquidity = sum_list (map pr_liquidity ts),
     sp_depth = length ts, sp_path = encode_path a (hops ts)\<rparr>"

definition routes :: "pool_row list \<Rightarrow> rat \<Rightarrow> string \<Rightarrow> nat \<Rightarrow> sp_row set" where
  "routes pools m a n = {route_row a ts | ts. walk pools m a ts \<and> length ts = n}"

lemma walk_snoc:
  "ts \<noteq> [] \<Longrightarrow> walk pools m a (ts @ [t]) \<longleftrightarrow>
     walk pools m a ts \<and> t \<in> set pools \<and> pr_liquidity t \<ge> m \<and> pr_token0 t = pr_token1 (last ts)"
proof (induction ts arbitrary: a)
  case (Cons s ts)
  then show ?case by (cases ts) auto
qed simp

lemma route_row_snoc:
  "ts \<noteq> [] \<Longrightarrow> pr_token0 t = pr_token1 (last ts) \<Longrightarrow> route_row a (ts @ [t]) =
     \<lparr>sp_node = sp_next (route_row a ts), sp_next = pr_token1 t, sp_price = sp_price (route_row a ts) * pr_price t,
      sp_liquidity = sp_liquidity (route_row a ts) + pr_liquidity t, sp_depth = sp_depth (route_row a ts) + 1,
      sp_path = sp_path (route_row a ts) @ pr_feeHex t @ pr_token1 t\<rparr>"
  by (simp add: route_row_def hops_def encode_path_snoc)

lemma sp_base_routes: "set (sp_base pools a m) = routes pools m a 1"
proof -
  have "routes pools m a 1 = {route_row a [t] | t. t \<in> set pools \<and> pr_liquidity t \<ge> m \<and> pr_token0 t = a}"
    by (auto simp: routes_def length_Suc_conv)
  then show ?thesis by (auto simp: sp_base_def route_row_def hops_def)
qed

lemma sp_extend_routes:
  assumes "n > 0"
  shows "(\<Union>r \<in> routes pools m a n. set (sp_extend pools m r)) = routes pools m a (Suc n)" (is "?L = ?R")
proof
  show "?L \<subseteq> ?R"
  proof
    fix x assume "x \<in> ?L"
    then obtain ts where ts: "walk pools m a ts" "length ts = n" and x': "x \<in> set (sp_extend pools m (route_row a ts))"
      by (auto simp: routes_def)
    have ne: "ts \<noteq> []" using ts(2) assms by auto
    have nx: "sp_next (route_row a ts) = pr_token1 (last ts)" by (simp add: route_row_def)
    obtain t where t: "t \<in> set pools" "pr_liquidity t \<ge> m" "pr_token0 t = pr_token1 (last ts)"
      and x: "x = route_row a (ts @ [t])"
      using x' unfolding sp_extend_def nx by (auto simp: route_row_snoc [OF ne] nx)
    have "walk pools m a (ts @ [t])" using ts t walk_snoc [OF ne] by simp
    then show "x \<in> ?R" using ts x by (auto simp: routes_def intro!: exI [of _ "ts @ [t]"])
  qed
  show "?R \<subseteq> ?L"
  proof
    fix x assume "x \<in> ?R"
    then obtain us where us: "walk pools m a us" "length us = Suc n" "x = route_row a us" by (auto simp: routes_def)
    then obtain ts t where u: "us = ts @ [t]" "length ts = n" by (metis length_Suc_conv_rev)
    then have ne: "ts \<noteq> []" using assms by auto
    have w: "walk pools m a ts" "t \<in> set pools" "pr_liquidity t \<ge> m" "pr_token0 t = pr_token1 (last ts)"
      using us(1) u(1) walk_snoc [OF ne] by auto
    have "x \<in> set (sp_extend pools m (route_row a ts))"
      using w us(3) u(1) route_row_snoc [OF ne w(4)] by (auto simp: sp_extend_def route_row_def)
    then show "x \<in> ?L" using w(1) u(2) by (auto simp: routes_def)
  qed
qed

lemma sp_rounds_routes:
  "n > 0 \<Longrightarrow> set rows = routes pools m a n \<Longrightarrow> set (sp_rounds pools m k rows) = (\<Union>j \<in> {n..n + k}. routes pools m a j)"
proof (induction k arbitrary: n rows)
  case (Suc k)
  have "set (concat (map (sp_extend pools m) rows)) = routes pools m a (Suc n)"
    using sp_extend_routes [OF Suc.prems(1)] Suc.prems(2) by simp
  then have "set (sp_rounds pools m (Suc k) rows) = routes pools m a n \<union> (\<Union>j \<in> {Suc n..Suc n + k}. routes pools m a j)"
    using Suc.IH [of "Suc n"] Suc.prems by (simp del: set_concat add: Un_commute)
  also have "\<dots> = (\<Union>j \<in> {n..n + Suc k}. routes pools m a j)"
  proof -
    have "{n..n + Suc k} = insert n {Suc n..Suc n + k}" by auto
    then show ?thesis by simp
  qed
  finally show ?case .
qed simp

text \<open>A route is a shortest one between two tokens within a number of hops.\<close>

definition shortest_walk :: "pool_row list \<Rightarrow> rat \<Rightarrow> string \<Rightarrow> string \<Rightarrow> nat \<Rightarrow> pool_row list \<Rightarrow> bool" where
  "shortest_walk pools m a b k ts \<longleftrightarrow> ts \<noteq> [] \<and> walk pools m a ts \<and> pr_token1 (last ts) = b \<and> length ts \<le> k
     \<and> (\<forall>us. us \<noteq> [] \<longrightarrow> walk pools m a us \<longrightarrow> pr_token1 (last us) = b \<longrightarrow> length ts \<le> length us)"

lemma walk_liquidity:
  assumes "0 \<le> m"
  shows "walk pools m a ts \<Longrightarrow> ts \<noteq> [] \<Longrightarrow> m \<le> sum_list (map pr_liquidity ts)"
proof (induction ts arbitrary: a)
  case (Cons t ts)
  then show ?case using assms by (cases ts) (force intro: add_increasing2)+
qed simp

lemma route_hits:
  assumes "0 \<le> m" and "k > 0"
  shows "set (filter (\<lambda>r. sp_next r = b \<and> sp_liquidity r \<ge> m) (sp_rounds pools m (k - 1) (sp_base pools a m)))
     = {route_row a ts | ts. ts \<noteq> [] \<and> walk pools m a ts \<and> length ts \<le> k \<and> pr_token1 (last ts) = b}"
proof -
  have "set (sp_rounds pools m (k - 1) (sp_base pools a m)) = (\<Union>j \<in> {1..k}. routes pools m a j)"
    using sp_rounds_routes [of 1 "sp_base pools a m" pools m a "k - 1"] sp_base_routes assms(2) by simp
  also have "\<dots> = {route_row a ts | ts. ts \<noteq> [] \<and> walk pools m a ts \<and> length ts \<le> k}"
    by (force simp: routes_def Suc_le_eq)
  finally show ?thesis using walk_liquidity [OF assms(1)] by (auto simp: route_row_def)
qed

lemma sort_key_hd: "sort_key f xs = y # ys \<Longrightarrow> y \<in> set xs \<and> (\<forall>x \<in> set xs. f y \<le> f x)"
  by (metis list.set_intros(1) list.simps(9) order_refl set_ConsD set_sort sorted_sort_key sorted_simps(2) imageI list.set_map)

lemma getRoute_cases:
  assumes "length a = 16" and "length b = 16" and "0 \<le> m" and "0 < k"
  shows "(\<exists>r ts. getRoute pools a b k 1 m = Inr [r] \<and> shortest_walk pools m a b k ts \<and> r = route_row a ts)
     \<or> (getRoute pools a b k 1 m = Inr [] \<and> (\<forall>us. us \<noteq> [] \<and> walk pools m a us \<and> length us \<le> k \<longrightarrow> pr_token1 (last us) \<noteq> b))"
proof -
  define hits where "hits = filter (\<lambda>r. sp_next r = b \<and> sp_liquidity r \<ge> m) (sp_rounds pools m (k - 1) (sp_base pools a m))"
  let ?key = "\<lambda>r. (sp_depth r, sp_price r, - sp_liquidity r)"
  have route: "getRoute pools a b k 1 m = Inr (take 1 (sort_key ?key hits))"
    using assms(1,2) by (simp add: getRoute_def hits_def Let_def)
  have hits: "set hits = {route_row a ts | ts. ts \<noteq> [] \<and> walk pools m a ts \<and> length ts \<le> k \<and> pr_token1 (last ts) = b}"
    unfolding hits_def by (rule route_hits [OF assms(3,4)])
  show ?thesis
  proof (cases "sort_key ?key hits")
    case Nil
    then have "hits = []" by (metis set_empty2 set_sort)
    then show ?thesis using route Nil hits by auto
  next
    case (Cons r rs)
    then have r: "r \<in> set hits" "\<forall>x \<in> set hits. ?key r \<le> ?key x" using sort_key_hd [OF Cons] by blast+
    then obtain ts where ts: "r = route_row a ts" "ts \<noteq> []" "walk pools m a ts" "length ts \<le> k" "pr_token1 (last ts) = b"
      using hits by auto
    have "length ts \<le> length us" if "us \<noteq> []" "walk pools m a us" "pr_token1 (last us) = b" for us
    proof (cases "length us \<le> k")
      case True
      then have "?key r \<le> ?key (route_row a us)" using that hits r(2) by blast
      then show ?thesis using ts(1) by (auto simp: route_row_def less_eq_prod_def)
    qed (use ts(4) in simp)
    then have "shortest_walk pools m a b k ts" using ts by (simp add: shortest_walk_def)
    then show ?thesis using route Cons ts(1) by auto
  qed
qed

text \<open>
  C10: The recursive route query finds a route through liquid pools exactly when there is one of
  at most \<^verbatim>\<open>maxRecursion\<close> hops, and the first answer is a shortest one: no chain of liquid
  pools from the first token to the second has fewer hops. Its path spells the tokens and fees of
  the pools in order.
\<close>

theorem getRoute_shortest:
  assumes "length a = 16" and "length b = 16" and "0 \<le> m" and "0 < k"
  shows "(\<exists>r ts. getRoute pools a b k 1 m = Inr [r] \<and> shortest_walk pools m a b k ts \<and> r = route_row a ts)
     \<or> (getRoute pools a b k 1 m = Inr [] \<and> (\<forall>us. us \<noteq> [] \<and> walk pools m a us \<and> length us \<le> k \<longrightarrow> pr_token1 (last us) \<noteq> b))"
  by (rule getRoute_cases [OF assms])

theorem getRoute_shortest_witness:
  "\<exists>r. getRoute [\<lparr>pr_token0 = ''0000000000000000'', pr_token1 = ''1111111111111111'', pr_feeHex = ''000bb8'', pr_price = 2, pr_liquidity = 10\<rparr>]
      ''0000000000000000'' ''1111111111111111'' 5 1 1 = Inr [r]"
proof -
  define a where "a = ''0000000000000000''"
  define b where "b = ''1111111111111111''"
  define p where "p = \<lparr>pr_token0 = a, pr_token1 = b, pr_feeHex = ''000bb8'', pr_price = 2, pr_liquidity = 10\<rparr>"
  have len: "length a = 16" "length b = 16" by (simp_all add: a_def b_def)
  have w: "walk [p] 1 a [p]" "pr_token1 (last [p]) = b" by (simp_all add: p_def)
  have "\<exists>r. getRoute [p] a b 5 1 1 = Inr [r]"
    using getRoute_shortest [OF len zero_le_one, of 5 "[p]"] w
    by (metis One_nat_def length_Cons list.distinct(1) list.size(3) one_le_numeral zero_less_numeral)
  then show ?thesis unfolding p_def a_def b_def .
qed

section \<open>Prices\<close>

definition pools_ok :: "pool_row list \<Rightarrow> bool" where
  "pools_ok pools = list_all (\<lambda>t. length (pr_token0 t) = 16 \<and> length (pr_token1 t) = 16 \<and> length (pr_feeHex t) = 6) pools"

lemma walk_hops_ok: "pools_ok pools \<Longrightarrow> walk pools m a ts \<Longrightarrow> list_all hop_ok (hops ts)"
proof (induction ts arbitrary: a)
  case (Cons t ts)
  then have "length (pr_token1 t) = 16" "length (pr_feeHex t) = 6" by (simp_all add: pools_ok_def list_all_iff)
  then show ?case using Cons.IH [of "pr_token1 t"] Cons.prems by (simp add: hops_def hop_ok_def)
qed (simp add: hops_def)

lemma price_loop_route:
  assumes "pools_ok pools" and "length a = 16" and "shortest_walk pools m a b k ts"
  shows "price_loop pools (sp_path (route_row a ts)) 1 = Inr (path_price pools a (hops ts))"
proof -
  have "walk pools m a ts" "ts \<noteq> []" using assms(3) by (simp_all add: shortest_walk_def)
  then show ?thesis using walk_hops_ok [OF assms(1)] price_loop_path [OF assms(2), of "hops ts"]
    by (simp add: route_row_def hops_def)
qed

text \<open>The token whose price is looked up and the factor applied at the end.\<close>

definition quote_token :: "dex_tokens \<Rightarrow> string \<Rightarrow> string" where
  "quote_token tk quote = (if quote = usdTokenId then klyTokenId tk else quote)"

definition usd_factor :: "rat \<Rightarrow> string \<Rightarrow> rat" where
  "usd_factor usd quote = (if quote = usdTokenId then usd else 1)"

lemma getPrice_route:
  assumes "base \<noteq> quote" and "\<not> (base = swlTokenId tk \<and> quote_token tk quote = klyTokenId tk)"
    and "\<not> (base = klyTokenId tk \<and> quote_token tk quote = swlTokenId tk)"
  shows "getPrice tk k usd pools base quote =
    bindR (bindR (getRoute pools base (quote_token tk quote) k 1 1) (\<lambda>rs. Inr (case rs of [] \<Rightarrow> None | r # _ \<Rightarrow> Some (sp_path r))))
      (\<lambda>path. case path of None \<Rightarrow> Inr 0 | Some p \<Rightarrow> bindR (price_loop pools p 1) (\<lambda>price. Inr (price * usd_factor usd quote)))"
proof -
  have "(if quote = usdTokenId then price * usd else price) = price * usd_factor usd quote" for price
    by (simp add: usd_factor_def)
  then show ?thesis using assms unfolding getPrice_def Let_def quote_token_def [symmetric]
    by (simp only: if_False)
qed

lemma getPrice_fixed_route:
  assumes "length (swlTokenId tk) = 16" and "length (swxTokenId tk) = 16" and "length (klyTokenId tk) = 16" and "base \<noteq> quote"
  shows "base = swlTokenId tk \<Longrightarrow> quote_token tk quote = klyTokenId tk \<Longrightarrow> getPrice tk k usd pools base quote =
      Inr (weighted_price pools (swlTokenId tk) (swxTokenId tk) * weighted_price pools (swxTokenId tk) (klyTokenId tk) * usd_factor usd quote)"
    and "base = klyTokenId tk \<Longrightarrow> quote_token tk quote = swlTokenId tk \<Longrightarrow> klyTokenId tk \<noteq> swlTokenId tk \<Longrightarrow> getPrice tk k usd pools base quote =
      Inr (weighted_price pools (klyTokenId tk) (swxTokenId tk) * weighted_price pools (swxTokenId tk) (swlTokenId tk) * usd_factor usd quote)"
proof -
  have fixed: "price_loop pools (a @ f @ b @ g @ c) 1 = Inr (weighted_price pools a b * weighted_price pools b c)"
    if "length a = 16" "length b = 16" "length c = 16" "length f = 6" "length g = 6" for a b c f g
    using price_loop_path [of a "[(f, b), (g, c)]" pools 1] that by (simp add: hop_ok_def)
  have usd: "(if quote = usdTokenId then price * usd else price) = price * usd_factor usd quote" for price by (simp add: usd_factor_def)
  show "base = swlTokenId tk \<Longrightarrow> quote_token tk quote = klyTokenId tk \<Longrightarrow> getPrice tk k usd pools base quote =
      Inr (weighted_price pools (swlTokenId tk) (swxTokenId tk) * weighted_price pools (swxTokenId tk) (klyTokenId tk) * usd_factor usd quote)"
    using assms(4) unfolding getPrice_def Let_def quote_token_def [symmetric] usd
    using fixed [OF assms(1-3), of "''000064''" "''000bb8''"] by simp
  show "base = klyTokenId tk \<Longrightarrow> quote_token tk quote = swlTokenId tk \<Longrightarrow> klyTokenId tk \<noteq> swlTokenId tk \<Longrightarrow> getPrice tk k usd pools base quote =
      Inr (weighted_price pools (klyTokenId tk) (swxTokenId tk) * weighted_price pools (swxTokenId tk) (swlTokenId tk) * usd_factor usd quote)"
    using assms(4) unfolding getPrice_def Let_def quote_token_def [symmetric] usd
    using fixed [OF assms(3,2,1), of "''000bb8''" "''000064''"] by simp
qed


text \<open>Two pools from \<open>b\<close> to \<open>c\<close> behind one from \<open>a\<close> to \<open>b\<close>: the second pair has the average price 5.\<close>

definition example_pool_rows :: "string \<Rightarrow> string \<Rightarrow> string \<Rightarrow> pool_row list" where
  "example_pool_rows a b c =
     [\<lparr>pr_token0 = a, pr_token1 = b, pr_feeHex = ''000bb8'', pr_price = 2, pr_liquidity = 10\<rparr>,
      \<lparr>pr_token0 = b, pr_token1 = c, pr_feeHex = ''000bb8'', pr_price = 3, pr_liquidity = 5\<rparr>,
      \<lparr>pr_token0 = b, pr_token1 = c, pr_feeHex = ''000064'', pr_price = 6, pr_liquidity = 10\<rparr>]"

lemma example_walks:
  assumes "distinct [a, b, c]"
  shows "shortest_walk (example_pool_rows a b c) 1 a c k ts \<Longrightarrow> path_price (example_pool_rows a b c) a (hops ts) = 10"
    and "\<exists>us. us \<noteq> [] \<and> walk (example_pool_rows a b c) 1 a us \<and> length us \<le> 5 \<and> pr_token1 (last us) = c"
proof -
  let ?P = "example_pool_rows a b c"
  have pools: "t \<in> set ?P \<Longrightarrow> (pr_token0 t, pr_token1 t) \<in> {(a, b), (b, c)}" for t by (auto simp: example_pool_rows_def)
  have c: "\<not> walk ?P 1 c (t # ts)" for t ts using pools [of t] assms by auto
  have b: "pr_token1 t = c" if "walk ?P 1 b (t # ts)" for t ts using that pools [of t] assms by auto
  have a: "pr_token1 t = b" if "walk ?P 1 a (t # ts)" for t ts using that pools [of t] assms by auto
  have w: "weighted_price ?P a b = 2" "weighted_price ?P b c = 5" using assms by (auto simp: weighted_price_def example_pool_rows_def)
  show "path_price ?P a (hops ts) = 10" if "shortest_walk ?P 1 a c k ts"
  proof -
    have ts: "ts \<noteq> []" "walk ?P 1 a ts" "pr_token1 (last ts) = c" using that by (simp_all add: shortest_walk_def)
    then obtain t us where t: "ts = t # us" by (cases ts) auto
    then have tb: "pr_token1 t = b" "walk ?P 1 b us" using a ts(2) by fastforce+
    then have "us \<noteq> []" using ts(3) t assms by auto
    then obtain u vs where u: "us = u # vs" by (cases us) auto
    then have uc: "pr_token1 u = c" using b tb(2) by blast
    then have "vs = []" using tb(2) u c by (cases vs) auto
    then show ?thesis using t u tb uc w by (simp add: hops_def)
  qed
  show "\<exists>us. us \<noteq> [] \<and> walk ?P 1 a us \<and> length us \<le> 5 \<and> pr_token1 (last us) = c"
    by (rule exI [of _ "take 2 ?P"]) (simp add: example_pool_rows_def)
qed


text \<open>The price of KLY in US dollars is not the quoted dollar price: the code looks for a route
  from KLY to itself, and without pools the answer is 0.\<close>

lemma getPrice_KLY_USD_no_pools:
  assumes "length (klyTokenId tk) = 16" and "klyTokenId tk \<noteq> usdTokenId" and "klyTokenId tk \<noteq> swlTokenId tk"
  shows "getPrice tk k usd [] (klyTokenId tk) usdTokenId = Inr 0"
proof -
  have "sp_rounds [] 1 n [] = []" for n by (induction n) simp_all
  then have "getRoute [] (klyTokenId tk) (klyTokenId tk) k 1 1 = Inr []"
    using assms(1) by (simp add: getRoute_def sp_base_def)
  then show ?thesis using assms getPrice_route [of "klyTokenId tk" usdTokenId tk k usd "[]"] by (simp add: quote_token_def)
qed

end
