(* ===== verification/Request_All.thy ===== *)
theory Request_All
  imports Js_Values
begin

text \<open>
  Paged requests, \<^verbatim>\<open>utils/requestAll.js\<close>: a request is repeated page by page until the wanted number
  of entries has been asked for, and the answers are merged.
\<close>

section \<open>Answers\<close>

text \<open>An answer is an array, an object or missing. \<open>Undef\<close> is a property that is absent.\<close>

datatype 'a json_prop = Arr "'a list" | Obj "(string \<times> 'a) list" | Num int | Undef

datatype 'a response = RArray "'a list" | RObject "(string \<times> 'a json_prop) list" | RNone

definition resp_prop :: "'a response \<Rightarrow> string \<Rightarrow> 'a json_prop" where
  "resp_prop r k = (case r of RObject ps \<Rightarrow> (case map_of ps k of Some v \<Rightarrow> v | None \<Rightarrow> Undef) | _ \<Rightarrow> Undef)"

definition truthy_prop :: "'a json_prop \<Rightarrow> bool" where
  "truthy_prop v = (case v of Undef \<Rightarrow> False | Num n \<Rightarrow> n \<noteq> 0 | _ \<Rightarrow> True)"

definition no_result :: "'a response \<Rightarrow> bool" where
  "no_result r = (case r of RNone \<Rightarrow> True | RArray xs \<Rightarrow> xs = [] | RObject ps \<Rightarrow> ps = [])"

section \<open>Merging and paging\<close>

text \<open>\<^verbatim>\<open>{ ...a, ...b }\<close>; the elements of an array appear under their positions.\<close>

definition spread :: "(string \<times> 'a) list \<Rightarrow> 'a json_prop \<Rightarrow> (string \<times> 'a) list" where
  "spread a v =
     (let b = (case v of Obj m \<Rightarrow> m | Arr xs \<Rightarrow> map (\<lambda>(i, x). (show_nat i, x)) (enumerate 0 xs) | _ \<Rightarrow> [])
      in map (\<lambda>(k, x). (k, case map_of b k of Some y \<Rightarrow> y | None \<Rightarrow> x)) a @ filter (\<lambda>(k, _). k \<notin> fst ` set a) b)"

definition merge_prop :: "'a response \<Rightarrow> string \<times> 'a json_prop \<Rightarrow> (string \<times> 'a json_prop) result" where
  "merge_prop r = (\<lambda>(k, v). case v of
     Arr xs \<Rightarrow> (case resp_prop r k of Arr ys \<Rightarrow> Inr (k, Arr (xs @ ys)) | _ \<Rightarrow> Inl TypeError)
   | Obj m \<Rightarrow> Inr (k, Obj (spread m (resp_prop r k)))
   | _ \<Rightarrow> Inr (k, resp_prop r k))"

definition merge_response :: "'a response \<Rightarrow> 'a response \<Rightarrow> 'a response result" where
  "merge_response totalResponse r = (case totalResponse of
     RArray xs \<Rightarrow> (case r of RArray ys \<Rightarrow> Inr (RArray (xs @ ys)) | _ \<Rightarrow> Inl TypeError)
   | RObject ps \<Rightarrow> bindR (mapR (merge_prop r) ps) (\<lambda>qs. Inr (RObject qs))
   | RNone \<Rightarrow> Inr RNone)"

text \<open>The pages from \<open>page\<close> on; \<open>n\<close> is the number of pages that are left.\<close>

fun request_pages :: "(nat \<Rightarrow> nat \<Rightarrow> 'a response result) \<Rightarrow> nat \<Rightarrow> nat \<Rightarrow> nat \<Rightarrow> nat \<Rightarrow> 'a response \<Rightarrow> 'a response result" where
  "request_pages fn lim maxAmount page 0 totalResponse = Inr totalResponse"
| "request_pages fn lim maxAmount page (Suc n) totalResponse =
     (let curOffset = lim * page in
      bindR (fn (min lim (maxAmount - curOffset)) curOffset) (\<lambda>r.
        if no_result r then Inr totalResponse
        else bindR (merge_response totalResponse r) (request_pages fn lim maxAmount (Suc page) n)))"

definition MAX_SAFE_INTEGER :: nat where "MAX_SAFE_INTEGER = 2 ^ 53 - 1"

text \<open>The number of pages, \<^verbatim>\<open>Math.ceil(maxAmount / oneRequestLimit)\<close>.\<close>

definition page_count :: "nat \<Rightarrow> nat \<Rightarrow> nat" where
  "page_count maxAmount lim = (maxAmount + lim - 1) div lim"

definition requestAll :: "(nat \<Rightarrow> nat \<Rightarrow> 'a response result) \<Rightarrow> nat option \<Rightarrow> nat option \<Rightarrow> 'a response result" where
  "requestAll fn params_limit limit =
     (let maxAmount = (case limit of Some m \<Rightarrow> if m = 0 then MAX_SAFE_INTEGER else m | None \<Rightarrow> MAX_SAFE_INTEGER);
          oneRequestLimit = (case params_limit of Some l \<Rightarrow> if l = 0 then 100 else l | None \<Rightarrow> 100)
      in bindR (fn oneRequestLimit 0) (\<lambda>firstRequest.
         if firstRequest = RNone then Inl TypeError
         else if truthy_prop (resp_prop firstRequest ''error'') then Inr firstRequest
         else if oneRequestLimit < maxAmount
              then request_pages fn oneRequestLimit maxAmount 1 (page_count maxAmount oneRequestLimit - 1) firstRequest
         else Inr firstRequest))"

section \<open>The pages of a list\<close>

text \<open>A service that keeps a list under the property \<open>k\<close> and answers with the asked section of it.\<close>

definition serves :: "(nat \<Rightarrow> nat \<Rightarrow> 'a response result) \<Rightarrow> string \<Rightarrow> 'a list \<Rightarrow> bool" where
  "serves fn k xs \<longleftrightarrow> (\<forall>l o'. fn l o' = Inr (RObject [(k, Arr (take l (drop o' xs)))]))"

lemma merge_section: "merge_response (RObject [(k, Arr xs)]) (RObject [(k, Arr ys)]) = Inr (RObject [(k, Arr (xs @ ys))])"
  by (simp add: merge_response_def merge_prop_def resp_prop_def)

lemma pages_step:
  assumes "serves fn k xs" and "0 < lim"
  shows "request_pages fn lim m page n (RObject [(k, Arr (take (min (lim * page) m) xs))]) = Inr (RObject [(k, Arr (take (min (lim * (page + n)) m) xs))])"
proof (induction n arbitrary: page)
  case (Suc n)
  have "take (min (lim * page) m) xs @ take (min lim (m - lim * page)) (drop (lim * page) xs) = take (min (lim * Suc page) m) xs"
  proof (cases "lim * page \<le> m")
    case True
    then have "min (lim * Suc page) m = lim * page + min lim (m - lim * page)" by (simp add: min_def) arith
    then show ?thesis using True by (simp add: take_add min_absorb1)
  next
    case False
    then have "min (lim * page) m = m" "min (lim * Suc page) m = m" by simp_all
    then show ?thesis using False by simp
  qed
  then show ?case using assms Suc [of "Suc page"] by (simp add: serves_def no_result_def merge_section)
qed simp

lemma requestAll_section:
  assumes "serves fn k xs" and "k \<noteq> ''error''" and "0 < m" and "0 < lim"
  shows "requestAll fn (Some lim) (Some m) = Inr (RObject [(k, Arr (take (max m lim) xs))])"
proof -
  have first: "fn lim 0 = Inr (RObject [(k, Arr (take lim xs))])" using assms(1) by (simp add: serves_def)
  show ?thesis
  proof (cases "lim < m")
    case True
    have "1 \<le> page_count m lim" "m \<le> lim * page_count m lim"
    proof -
      have "m + lim - 1 < lim * page_count m lim + lim" using dividend_less_times_div [of lim "m + lim - 1"] assms(4) by (simp add: page_count_def)
      then show "m \<le> lim * page_count m lim" using assms(3) by simp
      then show "1 \<le> page_count m lim" using assms(3) by (cases "page_count m lim") auto
    qed
    then have p: "min (lim * (1 + (page_count m lim - 1))) m = m" by simp
    have "request_pages fn lim m 1 (page_count m lim - 1) (RObject [(k, Arr (take lim xs))]) = Inr (RObject [(k, Arr (take m xs))])"
      using pages_step [OF assms(1,4), of m 1 "page_count m lim - 1"] True unfolding p by simp
    then show ?thesis using assms(2,4) True first by (simp add: requestAll_def resp_prop_def truthy_prop_def)
  next
    case False
    then show ?thesis using assms(2-4) first by (simp add: requestAll_def resp_prop_def truthy_prop_def max_absorb2)
  qed
qed

text \<open>
  C23: Asking for all entries gives all of them, in order and once. If a service answers each request with the asked
  section of a list, the merged answer is the list up to the wanted number of entries, or up to one page if less was
  wanted; with the length of the list as this number it is the whole list.
\<close>

theorem requestAll_collects:
  assumes "serves fn k xs" and "k \<noteq> ''error''" and "0 < m" and "0 < lim"
  shows "requestAll fn (Some lim) (Some m) = Inr (RObject [(k, Arr (take (max m lim) xs))])"
  using assms by (rule requestAll_section)

theorem requestAll_collects_witness:
  "requestAll (\<lambda>l o'. Inr (RObject [(''stakers'', Arr (take l (drop o' [1 :: int, 2, 3, 4, 5])))])) (Some 2) (Some 5)
     = Inr (RObject [(''stakers'', Arr [1, 2, 3, 4, 5])])"
  using requestAll_collects [of "\<lambda>l o'. Inr (RObject [(''stakers'', Arr (take l (drop o' [1 :: int, 2, 3, 4, 5])))])" "''stakers''" "[1, 2, 3, 4, 5]" 5 2]
  by (simp add: serves_def)

section \<open>No entries\<close>

lemma pages_ask:
  assumes "request_pages fn lim m page n totalResponse = Inr r" and "\<And>l o' q. fn l o' = Inr q \<Longrightarrow> \<not> no_result q" and "page \<le> p" "p < page + n"
  shows "\<exists>q. fn (min lim (m - lim * p)) (lim * p) = Inr q"
  using assms(1,3,4)
proof (induction n arbitrary: page totalResponse)
  case (Suc n)
  from Suc.prems(1) obtain q t where q: "fn (min lim (m - lim * page)) (lim * page) = Inr q" and rest: "request_pages fn lim m (Suc page) n t = Inr r"
    using assms(2) by (auto simp: Let_def bindR_eq_Inr split: if_splits)
  show ?case
  proof (cases "p = page")
    case True
    then show ?thesis using q by blast
  next
    case False
    then show ?thesis using Suc.IH [OF rest] Suc.prems(2,3) by simp
  qed
qed simp

text \<open>
  Asking for zero entries asks for everything. A wanted number of zero counts as unlimited, and the pages
  of an object with an empty array do not count as empty: the call runs through the pages of all
  \<open>2 ^ 53 - 1\<close> possible entries, so that a failure of any one of these requests makes it fail.
\<close>

theorem requestAll_zero_asks_all:
  assumes "0 < lim" and "lim < 2 ^ 53 - 1" and "lim * p < 2 ^ 53 - 1"
    and "\<And>l o' q. fn l o' = Inr q \<Longrightarrow> \<not> no_result q \<and> resp_prop q ''error'' = Undef"
    and "\<And>l. fn l (lim * p) = Inl e"
  shows "\<exists>e'. requestAll fn (Some lim) (Some 0) = Inl e'"
proof (cases "requestAll fn (Some lim) (Some 0)")
  case (Inr r)
  then obtain q where first: "fn lim 0 = Inr q" and pages: "request_pages fn lim MAX_SAFE_INTEGER 1 (page_count MAX_SAFE_INTEGER lim - 1) q = Inr r"
    using assms(1,2,4) by (auto simp: requestAll_def bindR_eq_Inr truthy_prop_def MAX_SAFE_INTEGER_def no_result_def split: if_splits)
  have "p \<noteq> 0" using first assms(5) [of lim] by (cases "p = 0") simp_all
  moreover have "p < page_count MAX_SAFE_INTEGER lim"
  proof -
    have "lim * p + lim \<le> MAX_SAFE_INTEGER + lim - 1" using assms(3) by (simp add: MAX_SAFE_INTEGER_def)
    then have "Suc p * lim \<le> MAX_SAFE_INTEGER + lim - 1" by (simp add: algebra_simps)
    then show ?thesis using assms(1) by (simp add: page_count_def less_eq_div_iff_mult_less_eq Suc_le_eq [symmetric] del: mult_Suc)
  qed
  ultimately obtain q' where "fn (min lim (MAX_SAFE_INTEGER - lim * p)) (lim * p) = Inr q'" using pages_ask [OF pages, of p] assms(4) by fastforce
  then show ?thesis using assms(5) by simp
qed blast

theorem requestAll_zero_asks_all_witness:
  "\<exists>e. requestAll (\<lambda>l o'. if o' = 9007199254740000 then Inl TypeError else Inr (RObject [(''userSubstore'', Arr ([] :: int list))])) (Some 1000) (Some 0) = Inl e"
  by (rule requestAll_zero_asks_all [where p = 9007199254740]) (auto simp: no_result_def resp_prop_def split: if_splits)

end
