(* ===== verification/Database.thy ===== *)
theory Database
  imports Js_Values "HOL-Library.Multiset"
begin

text \<open>
  \<^verbatim>\<open>framework/src/database/util.js\<close>: the table operations all services use. The query builder
  and the driver turn each operation into one SQL statement; the model gives each statement
  its SQL meaning on a table, a list of rows that all carry the columns of the table's schema.
  A cell holds the value as it is handed to the driver. Operations that receive a transaction
  read and write the transaction's view (\<open>working\<close>); operations without one run in a
  transaction of their own that is committed at once, so they read \<open>committed\<close> and their
  writes reach both views. Joins, grouping, distinct, aggregation, raw fragments and JSON
  containment of the query builder are not modelled.
\<close>

named_theorems db_simps "rules that evaluate table operations"

section \<open>Tables\<close>

type_synonym row = "(string \<times> jsval) list"
type_synonym table = "row list"

text \<open>A column of a schema: its type, whether it may be \<^verbatim>\<open>NULL\<close>, and its default
  (\<open>JNull\<close> where none is given).\<close>

record column =
  col_name :: string
  col_type :: string
  col_null :: bool
  col_default :: jsval

record table_config =
  tableName :: string
  primaryKey :: "string list"
  schema :: "column list"
  indexes :: "(string \<times> string) list"
  compositeIndexes :: "(string \<times> (string \<times> string) list) list"

record db =
  committed :: "string \<Rightarrow> table"
  working :: "string \<Rightarrow> table"

definition mk_col :: "string \<Rightarrow> string \<Rightarrow> column" where
  "mk_col c ty = \<lparr>col_name = c, col_type = ty, col_null = True, col_default = JNull\<rparr>"

definition row_get :: "row \<Rightarrow> string \<Rightarrow> jsval" where
  "row_get r c = (case map_of r c of Some v \<Rightarrow> v | None \<Rightarrow> JNull)"

definition row_key :: "table_config \<Rightarrow> row \<Rightarrow> jsval list" where
  "row_key cfg r = map (row_get r) (primaryKey cfg)"

section \<open>Conversion of rows\<close>

definition cast :: "jsval \<Rightarrow> string \<Rightarrow> jsval result" where
  "cast val ty =
     (if val = JUndefined then Inr JNull
      else if ty = ''number'' then Inr (js_Number val)
      else if ty = ''integer'' then Inr (js_Number val)
      else if ty = ''string'' then Inr (JStr (js_String val))
      else if ty = ''boolean'' then Inr (JBool (js_Boolean val))
      else if ty = ''bigInteger'' then bindR (js_BigInt val) (\<lambda>n. Inr (JBig n))
      else if ty = ''json'' then bindR (js_JSON val) (\<lambda>s. Inr (JStr s))
      else Inr val)"

definition getValue :: "jsval \<Rightarrow> jsval" where
  "getValue val = (if val = JUndefined then JNull else if val = JNaN then JNull else val)"

text \<open>One raw row: the columns of the schema that the item has, in the order of the schema.\<close>

fun map_row :: "row \<Rightarrow> column list \<Rightarrow> row result" where
  "map_row item [] = Inr []"
| "map_row item (c # cs) =
     (case map_of item (col_name c) of
        None \<Rightarrow> map_row item cs
      | Some val \<Rightarrow> bindR (cast val (col_type c)) (\<lambda>v. bindR (map_row item cs) (\<lambda>r.
          Inr ((col_name c, getValue v) # r))))"

fun mapRowsBySchema :: "row list \<Rightarrow> column list \<Rightarrow> row list result" where
  "mapRowsBySchema [] sch = Inr []"
| "mapRowsBySchema (item # items) sch =
     bindR (map_row item sch) (\<lambda>r. bindR (mapRowsBySchema items sch) (\<lambda>rs. Inr (r # rs)))"

section \<open>The statements\<close>

text \<open>\<^verbatim>\<open>INSERT ... ON DUPLICATE KEY UPDATE\<close>: the given columns overwrite those of the row with
  the same primary key; a new row takes the default of every column that is not given.\<close>

definition merge_row :: "row \<Rightarrow> row \<Rightarrow> row" where
  "merge_row old new = map (\<lambda>(c, v). (c, case map_of new c of Some w \<Rightarrow> w | None \<Rightarrow> v)) old"

definition fill_row :: "table_config \<Rightarrow> row \<Rightarrow> row" where
  "fill_row cfg new = map (\<lambda>c. (col_name c, case map_of new (col_name c) of Some v \<Rightarrow> v
                                            | None \<Rightarrow> col_default c)) (schema cfg)"

definition sql_insert_merge :: "table_config \<Rightarrow> row \<Rightarrow> table \<Rightarrow> table" where
  "sql_insert_merge cfg new t =
     (let k = row_key cfg (fill_row cfg new)
      in if \<exists>r \<in> set t. row_key cfg r = k
         then map (\<lambda>r. if row_key cfg r = k then merge_row r new else r) t
         else t @ [fill_row cfg new])"

definition sql_delete :: "(row \<Rightarrow> bool) \<Rightarrow> table \<Rightarrow> table" where
  "sql_delete P t = filter (\<lambda>r. \<not> P r) t"

definition sql_update :: "(row \<Rightarrow> bool) \<Rightarrow> row \<Rightarrow> table \<Rightarrow> table" where
  "sql_update P updates t = map (\<lambda>r. if P r then merge_row r updates else r) t"

text \<open>\<^verbatim>\<open>SET c = c + n\<close>; \<^verbatim>\<open>NULL + n\<close> is \<^verbatim>\<open>NULL\<close>.\<close>

fun sql_plus :: "jsval \<Rightarrow> int \<Rightarrow> jsval" where
  "sql_plus (JNum m) n = JNum (m + n)"
| "sql_plus (JBig m) n = JBig (m + n)"
| "sql_plus v n = JNull"

definition sql_add :: "(row \<Rightarrow> bool) \<Rightarrow> string \<Rightarrow> int \<Rightarrow> table \<Rightarrow> table" where
  "sql_add P c n t = map (\<lambda>r. if P r then map (\<lambda>(d, v). (d, if d = c then sql_plus v n else v)) r else r) t"

section \<open>Conditions\<close>

text \<open>The values a parameter object maps its keys to; the field of an absent string is empty,
  which the code treats like an absent one.\<close>

record prop_between =
  pb_property :: string
  pb_from :: "jsval option"
  pb_to :: "jsval option"
  pb_greaterThanEqualTo :: "jsval option"
  pb_lowerThanEqualTo :: "jsval option"
  pb_greaterThan :: "jsval option"
  pb_lowerThan :: "jsval option"

record search_param =
  se_property :: string
  se_pattern :: string
  se_startsWith :: string
  se_endsWith :: string
  se_allowWildCards :: bool

datatype pval =
    PVal jsval
  | PBetweens "prop_between list"
  | PIn "(string \<times> jsval list) list"
  | PCols "string list"
  | PRow row
  | PSearch "search_param list"

type_synonym params = "(string \<times> pval) list"

definition KNOWN_QUERY_PARAMS :: "string list" where
  "KNOWN_QUERY_PARAMS =
    [''sort'', ''limit'', ''offset'', ''propBetweens'', ''andWhere'', ''orWhere'', ''orWhereWith'',
     ''whereNot'', ''whereIn'', ''whereNotIn'', ''orWhereIn'', ''whereBetween'',
     ''whereJsonSupersetOf'', ''search'', ''aggregate'', ''distinct'', ''order'', ''orSearch'',
     ''whereNull'', ''whereNotNull'', ''leftOuterJoin'', ''rightOuterJoin'', ''innerJoin'',
     ''groupBy'', ''orderByRaw'', ''havingRaw'']"

definition resolveQueryParams :: "params \<Rightarrow> params" where
  "resolveQueryParams ps = filter (\<lambda>(k, v). k \<notin> set KNOWN_QUERY_PARAMS) ps"

text \<open>
  Comparison in the database. Numbers compare by value, strings by their characters; a string
  compared with a number is read as a number (its leading digits). No comparison with
  \<^verbatim>\<open>NULL\<close> holds; the test of a condition object for \<^verbatim>\<open>null\<close> is written as \<^verbatim>\<open>IS NULL\<close>.
\<close>

definition num_prefix :: "string \<Rightarrow> int" where
  "num_prefix s = (case s of c # cs \<Rightarrow>
       if c = CHR ''-'' then - int (digits_val (takeWhile is_digit cs))
       else int (digits_val (takeWhile is_digit s)) | [] \<Rightarrow> 0)"

fun sql_num :: "jsval \<Rightarrow> int option" where
  "sql_num (JBool b) = Some (if b then 1 else 0)"
| "sql_num (JNum n) = Some n"
| "sql_num (JBig n) = Some n"
| "sql_num (JStr s) = Some (num_prefix s)"
| "sql_num _ = None"

fun sql_leq :: "jsval \<Rightarrow> jsval \<Rightarrow> bool" where
  "sql_leq (JStr s) (JStr t) = (s \<le> t)"
| "sql_leq a b = (case (sql_num a, sql_num b) of (Some m, Some n) \<Rightarrow> m \<le> n | _ \<Rightarrow> False)"

definition sql_eq :: "jsval \<Rightarrow> jsval \<Rightarrow> bool" where
  "sql_eq cell v \<longleftrightarrow> cell = v \<or> (sql_leq cell v \<and> sql_leq v cell)"

definition sql_less :: "jsval \<Rightarrow> jsval \<Rightarrow> bool" where
  "sql_less a b \<longleftrightarrow> sql_leq a b \<and> \<not> sql_leq b a"

text \<open>
  \<^verbatim>\<open>LIKE\<close>: \<^verbatim>\<open>%\<close> stands for any characters, \<^verbatim>\<open>_\<close> for one, and a backslash takes the
  next character literally.
\<close>

definition backslash :: char where
  "backslash = CHR 0x5C"

fun like :: "string \<Rightarrow> string \<Rightarrow> bool" where
  "like [] t = (t = [])"
| "like (p # ps) t =
     (if p = CHR ''%'' then like ps t \<or> (case t of [] \<Rightarrow> False | _ # t' \<Rightarrow> like (p # ps) t')
      else if p = backslash \<and> ps \<noteq> []
      then (case t of [] \<Rightarrow> False | c # t' \<Rightarrow> c = hd ps \<and> like (tl ps) t')
      else (case t of [] \<Rightarrow> False | c # t' \<Rightarrow> (p = CHR ''_'' \<or> c = p) \<and> like ps t'))"

definition escapeUserInput :: "string \<Rightarrow> string" where
  "escapeUserInput input =
     concat (map (\<lambda>c. if c = CHR ''%'' \<or> c = CHR ''_'' then [backslash, c] else [c]) input)"

text \<open>
  The conditions of a query are collected as clauses joined by \<^verbatim>\<open>AND\<close> or (\<open>True\<close>) \<^verbatim>\<open>OR\<close>,
  of which \<^verbatim>\<open>AND\<close> binds tighter; the connective of the first clause is dropped.
\<close>

type_synonym clause = "bool \<times> (row \<Rightarrow> bool)"

fun eval_clauses :: "bool \<Rightarrow> clause list \<Rightarrow> row \<Rightarrow> bool" where
  "eval_clauses acc [] r = acc"
| "eval_clauses acc ((is_or, P) # cs) r =
     (if is_or then acc \<or> eval_clauses (P r) cs r else eval_clauses (acc \<and> P r) cs r)"

fun eval_where :: "clause list \<Rightarrow> row \<Rightarrow> bool" where
  "eval_where [] r = True"
| "eval_where ((_, P) # cs) r = eval_clauses (P r) cs r"

abbreviation both :: "(row \<Rightarrow> bool) \<Rightarrow> clause" where
  "both P \<equiv> (False, P)"

text \<open>\<^verbatim>\<open>query.where(object)\<close>: one equality for each key; a binding that is \<^verbatim>\<open>undefined\<close> is
  refused by the query builder.\<close>

definition eq_cond :: "row \<Rightarrow> row \<Rightarrow> bool" where
  "eq_cond conds r = list_all (\<lambda>(c, v). sql_eq (row_get r c) v) conds"

definition eq_clauses :: "row \<Rightarrow> clause list" where
  "eq_clauses conds = map (\<lambda>(c, v). both (\<lambda>r. sql_eq (row_get r c) v)) conds"

fun plain_conds :: "params \<Rightarrow> row" where
  "plain_conds [] = []"
| "plain_conds ((k, PVal v) # ps) = (k, v) # plain_conds ps"
| "plain_conds (_ # ps) = plain_conds ps"

definition where_clauses :: "params \<Rightarrow> clause list result" where
  "where_clauses ps =
     (let conds = (case map_of ps ''where'' of Some (PRow r) \<Rightarrow> r
                   | _ \<Rightarrow> plain_conds (resolveQueryParams ps))
      in if JUndefined \<in> snd ` set conds then Inl (Error ''Undefined binding(s) detected'')
         else Inr (eq_clauses conds))"

definition between_clauses :: "prop_between \<Rightarrow> clause list" where
  "between_clauses pb =
     (let cell = (\<lambda>r. row_get r (pb_property pb)) in
        (case pb_from pb of Some v \<Rightarrow> [both (\<lambda>r. sql_leq v (cell r))] | None \<Rightarrow> [])
      @ (case pb_to pb of Some v \<Rightarrow> [both (\<lambda>r. sql_leq (cell r) v)] | None \<Rightarrow> [])
      @ (case pb_greaterThanEqualTo pb of Some v \<Rightarrow> [both (\<lambda>r. sql_leq v (cell r))] | None \<Rightarrow> [])
      @ (case pb_lowerThanEqualTo pb of Some v \<Rightarrow> [both (\<lambda>r. sql_leq (cell r) v)] | None \<Rightarrow> [])
      @ (case pb_greaterThan pb of Some v \<Rightarrow> [both (\<lambda>r. sql_less v (cell r))] | None \<Rightarrow> [])
      @ (case pb_lowerThan pb of Some v \<Rightarrow> [both (\<lambda>r. sql_less (cell r) v)] | None \<Rightarrow> []))"

definition in_list :: "jsval list \<Rightarrow> jsval \<Rightarrow> bool" where
  "in_list vs cell \<longleftrightarrow> cell \<noteq> JNull \<and> list_ex (sql_eq cell) vs"

definition whereIn_clauses :: "params \<Rightarrow> clause list" where
  "whereIn_clauses ps =
     (case map_of ps ''whereIn'' of
        Some (PIn ins) \<Rightarrow> map (\<lambda>(c, vs). both (\<lambda>r. in_list vs (row_get r c))) ins | _ \<Rightarrow> [])"

definition in_clauses :: "params \<Rightarrow> clause list" where
  "in_clauses ps =
     (case map_of ps ''whereNotIn'' of
        Some (PIn [(c, vs)]) \<Rightarrow> [both (\<lambda>r. row_get r c \<noteq> JNull \<and> \<not> in_list vs (row_get r c))] | _ \<Rightarrow> [])
   @ (case map_of ps ''whereNot'' of
        Some (PRow [(c, v)]) \<Rightarrow> [both (\<lambda>r. row_get r c \<noteq> JNull \<and> \<not> sql_eq (row_get r c) v)] | _ \<Rightarrow> [])
   @ (case map_of ps ''whereBetween'' of
        Some (PIn [(c, [a, b])]) \<Rightarrow> [both (\<lambda>r. sql_leq a (row_get r c) \<and> sql_leq (row_get r c) b)] | _ \<Rightarrow> [])"

definition nested_clauses :: "params \<Rightarrow> clause list" where
  "nested_clauses ps =
     (case map_of ps ''andWhere'' of Some (PRow c) \<Rightarrow> [both (eq_cond c)] | _ \<Rightarrow> [])
   @ (case (map_of ps ''orWhere'', map_of ps ''orWhereWith'') of
        (Some (PRow a), Some (PRow b)) \<Rightarrow> [both (\<lambda>r. eq_cond a r \<or> eq_cond b r)] | _ \<Rightarrow> [])
   @ (case map_of ps ''orWhereIn'' of
        Some (PIn [(c, vs)]) \<Rightarrow> [(True, \<lambda>r. in_list vs (row_get r c))] | _ \<Rightarrow> [])"

text \<open>The patterns of one search object.\<close>

definition search_patterns :: "search_param \<Rightarrow> string list" where
  "search_patterns se =
     (let esc = (if se_allowWildCards se then (\<lambda>x. x) else escapeUserInput) in
        (if se_pattern se = [] then [] else [CHR ''%'' # esc (se_pattern se) @ [CHR ''%'']])
      @ (if se_startsWith se = [] then [] else [esc (se_startsWith se) @ [CHR ''%'']])
      @ (if se_endsWith se = [] then [] else [CHR ''%'' # esc (se_endsWith se)]))"

definition like_cell :: "string \<Rightarrow> jsval \<Rightarrow> bool" where
  "like_cell pat cell \<longleftrightarrow> cell \<noteq> JNull \<and> like pat (js_String cell)"

definition search_clauses :: "bool \<Rightarrow> search_param \<Rightarrow> clause list" where
  "search_clauses is_or se =
     map (\<lambda>pat. (is_or, \<lambda>r. like_cell pat (row_get r (se_property se)))) (search_patterns se)"

definition like_clauses :: "params \<Rightarrow> clause list" where
  "like_clauses ps =
     (case map_of ps ''search'' of Some (PSearch ss) \<Rightarrow> concat (map (search_clauses False) ss) | _ \<Rightarrow> [])
   @ (case map_of ps ''orSearch'' of
        Some (PSearch (s # ss)) \<Rightarrow>
          [both (eval_where (search_clauses False s @ concat (map (search_clauses True) ss)))]
      | _ \<Rightarrow> [])"

definition null_clauses :: "params \<Rightarrow> clause list" where
  "null_clauses ps =
     (case map_of ps ''whereNull'' of Some (PCols cs) \<Rightarrow> map (\<lambda>c. both (\<lambda>r. row_get r c = JNull)) cs | _ \<Rightarrow> [])
   @ (case map_of ps ''whereNotNull'' of Some (PCols cs) \<Rightarrow> map (\<lambda>c. both (\<lambda>r. row_get r c \<noteq> JNull)) cs | _ \<Rightarrow> [])"

text \<open>\<^verbatim>\<open>column:direction\<close>; rows without a value in the sort column are left out.\<close>

fun split_at :: "char \<Rightarrow> string \<Rightarrow> string list" where
  "split_at d [] = [[]]"
| "split_at d (c # cs) = (if c = d then [] # split_at d cs
     else case split_at d cs of w # ws \<Rightarrow> (c # w) # ws | [] \<Rightarrow> [[c]])"

definition sort_param :: "params \<Rightarrow> string \<Rightarrow> (string \<times> bool) option" where
  "sort_param ps key = (case map_of ps key of
     Some (PVal (JStr s)) \<Rightarrow> (if s = [] then None
        else (case split_at (CHR '':'') s of
                c # dir # _ \<Rightarrow> Some (c, dir = ''desc'') | c # [] \<Rightarrow> Some (c, False) | [] \<Rightarrow> None))
   | _ \<Rightarrow> None)"

definition sort_clauses :: "params \<Rightarrow> clause list" where
  "sort_clauses ps =
     (case sort_param ps ''sort'' of Some (c, _) \<Rightarrow> [both (\<lambda>r. row_get r c \<noteq> JNull)] | None \<Rightarrow> [])
   @ (case sort_param ps ''order'' of Some (c, _) \<Rightarrow> [both (\<lambda>r. row_get r c \<noteq> JNull)] | None \<Rightarrow> [])"

definition queryBuilder :: "bool \<Rightarrow> params \<Rightarrow> (row \<Rightarrow> bool) result" where
  "queryBuilder isCountQuery ps =
     bindR (where_clauses ps) (\<lambda>w. Inr (eval_where
       ((if isCountQuery then [] else sort_clauses ps) @ w
        @ (case map_of ps ''propBetweens'' of Some (PBetweens pbs) \<Rightarrow> concat (map between_clauses pbs) | _ \<Rightarrow> [])
        @ whereIn_clauses ps @ in_clauses ps @ nested_clauses ps @ like_clauses ps @ null_clauses ps)))"

section \<open>Operations of a table instance\<close>

text \<open>A statement within the given transaction, or committed on its own.\<close>

definition run_stmt :: "string \<Rightarrow> bool \<Rightarrow> (table \<Rightarrow> table) \<Rightarrow> db \<Rightarrow> db" where
  "run_stmt name trx f d =
     (if trx then d\<lparr>working := (working d)(name := f (working d name))\<rparr>
      else d\<lparr>committed := (committed d)(name := f (committed d name)),
             working := (working d)(name := f (working d name))\<rparr>)"

definition read_table :: "string \<Rightarrow> bool \<Rightarrow> db \<Rightarrow> table" where
  "read_table name trx d = (if trx then working d name else committed d name)"

text \<open>A column declared \<^verbatim>\<open>null: false\<close> and a key column refuse \<^verbatim>\<open>NULL\<close>, given or by default.\<close>

definition not_null_ok :: "table_config \<Rightarrow> row \<Rightarrow> bool" where
  "not_null_ok cfg new = list_all (\<lambda>c. (col_null c \<and> col_name c \<notin> set (primaryKey cfg))
     \<or> row_get (fill_row cfg new) (col_name c) \<noteq> JNull) (schema cfg)"

definition upsert :: "table_config \<Rightarrow> row list \<Rightarrow> bool \<Rightarrow> db \<Rightarrow> db result" where
  "upsert cfg inputRows trx d =
     bindR (mapRowsBySchema inputRows (schema cfg)) (\<lambda>rows.
       if list_all (not_null_ok cfg) rows
       then Inr (run_stmt (tableName cfg) trx (fold (sql_insert_merge cfg) rows) d)
       else Inl (SqlError ''Column cannot be null''))"

definition deleteByParams :: "table_config \<Rightarrow> params \<Rightarrow> bool \<Rightarrow> db \<Rightarrow> db result" where
  "deleteByParams cfg ps trx d =
     bindR (queryBuilder False ps) (\<lambda>P. Inr (run_stmt (tableName cfg) trx (sql_delete P) d))"

text \<open>
  \<^verbatim>\<open>whereIn(primaryKey, ids)\<close>: with several key columns every element of the list must be a
  tuple of as many values; a scalar element is the SQL error 1241.
\<close>

datatype pk_id = Scalar jsval | Tuple "jsval list"

fun pk_tuple :: "nat \<Rightarrow> pk_id \<Rightarrow> jsval list result" where
  "pk_tuple n (Scalar v) = (if n = 1 then Inr [v] else Inl (SqlError ''Operand should contain n column(s)''))"
| "pk_tuple n (Tuple vs) = (if length vs = n then Inr vs else Inl (SqlError ''Operand should contain n column(s)''))"

fun pk_tuples :: "nat \<Rightarrow> pk_id list \<Rightarrow> jsval list list result" where
  "pk_tuples n [] = Inr []"
| "pk_tuples n (i # is) = bindR (pk_tuple n i) (\<lambda>k. bindR (pk_tuples n is) (\<lambda>ks. Inr (k # ks)))"

definition deleteByPrimaryKey :: "table_config \<Rightarrow> pk_id list \<Rightarrow> bool \<Rightarrow> db \<Rightarrow> db result" where
  "deleteByPrimaryKey cfg ids trx d =
     bindR (pk_tuples (length (primaryKey cfg)) ids) (\<lambda>ks.
       Inr (run_stmt (tableName cfg) trx (sql_delete (\<lambda>r. row_key cfg r \<in> set ks)) d))"

text \<open>The query builder leaves out updates whose value is \<^verbatim>\<open>undefined\<close>.\<close>

definition update_tbl :: "table_config \<Rightarrow> params \<Rightarrow> row \<Rightarrow> bool \<Rightarrow> db \<Rightarrow> db result" where
  "update_tbl cfg wh updates trx d =
     bindR (queryBuilder False wh) (\<lambda>P. Inr (run_stmt (tableName cfg) trx
       (sql_update P (filter (\<lambda>(c, v). v \<noteq> JUndefined) updates)) d))"

text \<open>Ordering by \<^verbatim>\<open>sort\<close> first and \<^verbatim>\<open>order\<close> second, then offset and limit; a limit or an
  offset of 0 is falsy and ignored. Rows that compare equal keep their order.\<close>

definition order_by :: "(string \<times> bool) option \<Rightarrow> table \<Rightarrow> table" where
  "order_by s rs = (case s of
     Some (c, desc) \<Rightarrow> (if desc then rev (sort_key (\<lambda>r. row_get r c) (rev rs))
                        else sort_key (\<lambda>r. row_get r c) rs)
   | None \<Rightarrow> rs)"

lemma mset_order_by [simp]: "mset (order_by s rs) = mset rs"
  by (simp add: order_by_def split: option.splits)

definition num_param :: "params \<Rightarrow> string \<Rightarrow> nat option" where
  "num_param ps key = (case map_of ps key of
     Some (PVal v) \<Rightarrow> (if js_Boolean v then (case js_Number v of JNum n \<Rightarrow> Some (nat n) | _ \<Rightarrow> None) else None)
   | _ \<Rightarrow> None)"

definition limit_rows :: "params \<Rightarrow> table \<Rightarrow> table" where
  "limit_rows ps rs =
     (let rs' = (case num_param ps ''offset'' of Some n \<Rightarrow> drop n rs | None \<Rightarrow> rs)
      in case num_param ps ''limit'' of Some n \<Rightarrow> take n rs' | None \<Rightarrow> rs')"

definition sort_columns :: "params \<Rightarrow> string list" where
  "sort_columns ps = (case sort_param ps ''sort'' of Some (c, _) \<Rightarrow> [c] | None \<Rightarrow> [])
     @ (case sort_param ps ''order'' of Some (c, _) \<Rightarrow> [c] | None \<Rightarrow> [])"

definition find_tbl :: "table_config \<Rightarrow> params \<Rightarrow> string list option \<Rightarrow> bool \<Rightarrow> db \<Rightarrow> row list result" where
  "find_tbl cfg ps columns trx d =
     (let cols = (case columns of Some cs \<Rightarrow> cs | None \<Rightarrow> primaryKey cfg);
          sel = cols @ filter (\<lambda>c. c \<notin> set cols) (sort_columns ps)
      in bindR (queryBuilder False ps) (\<lambda>P.
           Inr (map (\<lambda>r. map (\<lambda>c. (c, row_get r c)) sel)
             (limit_rows ps (order_by (sort_param ps ''sort'') (order_by (sort_param ps ''order'')
               (filter P (read_table (tableName cfg) trx d))))))))"

text \<open>\<^verbatim>\<open>SELECT count(column)\<close> counts the rows whose column is not \<^verbatim>\<open>NULL\<close>; the number is
  unpacked from the answer only when the operation runs in a transaction of its own.\<close>

definition count_tbl :: "table_config \<Rightarrow> params \<Rightarrow> string option \<Rightarrow> bool \<Rightarrow> db \<Rightarrow> (jsval + row list) result" where
  "count_tbl cfg ps col trx d =
     (let c = (case col of Some c \<Rightarrow> c | None \<Rightarrow> hd (primaryKey cfg))
      in bindR (queryBuilder True ps) (\<lambda>P.
           let n = JNum (int (length (filter (\<lambda>r. P r \<and> row_get r c \<noteq> JNull)
                     (read_table (tableName cfg) trx d))))
           in Inr (if trx then Inr [[(''count'', n)]] else Inl n)))"

definition increment :: "table_config \<Rightarrow> string \<Rightarrow> int \<Rightarrow> row \<Rightarrow> bool \<Rightarrow> db \<Rightarrow> db result" where
  "increment cfg c n wh trx d =
     bindR (queryBuilder False [(''where'', PRow wh)]) (\<lambda>P. Inr (run_stmt (tableName cfg) trx (sql_add P c n) d))"

definition decrement :: "table_config \<Rightarrow> string \<Rightarrow> int \<Rightarrow> row \<Rightarrow> bool \<Rightarrow> db \<Rightarrow> db result" where
  "decrement cfg c n wh trx d =
     bindR (queryBuilder False [(''where'', PRow wh)]) (\<lambda>P. Inr (run_stmt (tableName cfg) trx (sql_add P c (- n)) d))"

definition startDBTransaction :: "db \<Rightarrow> db" where
  "startDBTransaction d = d\<lparr>working := committed d\<rparr>"

definition commitDBTransaction :: "db \<Rightarrow> db" where
  "commitDBTransaction d = d\<lparr>committed := working d\<rparr>"

definition rollbackDBTransaction :: "db \<Rightarrow> db" where
  "rollbackDBTransaction d = d\<lparr>working := committed d\<rparr>"

section \<open>Laws of the statements\<close>

definition config_wf :: "table_config \<Rightarrow> bool" where
  "config_wf cfg \<longleftrightarrow> distinct (map col_name (schema cfg))
     \<and> list_all (\<lambda>k. k \<in> set (map col_name (schema cfg))) (primaryKey cfg)"

definition row_wf :: "table_config \<Rightarrow> row \<Rightarrow> bool" where
  "row_wf cfg r \<longleftrightarrow> map fst r = map col_name (schema cfg)"

definition table_wf :: "table_config \<Rightarrow> table \<Rightarrow> bool" where
  "table_wf cfg t \<longleftrightarrow> list_all (row_wf cfg) t \<and> distinct (map (row_key cfg) t)"

definition lookup_key :: "table_config \<Rightarrow> jsval list \<Rightarrow> table \<Rightarrow> row option" where
  "lookup_key cfg k t = List.find (\<lambda>r. row_key cfg r = k) t"

text \<open>\<open>given new\<close> are the columns a statement writes.\<close>

abbreviation given :: "row \<Rightarrow> string set" where
  "given new \<equiv> dom (map_of new)"

lemma map_of_merge_row:
  "map_of (merge_row old new) c = (case map_of old c of None \<Rightarrow> None
     | Some v \<Rightarrow> Some (case map_of new c of Some w \<Rightarrow> w | None \<Rightarrow> v))"
  by (induction old) (auto simp: merge_row_def split: option.splits)

lemma fst_merge_row [simp]: "map fst (merge_row old new) = map fst old"
  by (auto simp: merge_row_def)

lemma fst_fill_row [simp]: "map fst (fill_row cfg new) = map col_name (schema cfg)"
  by (simp add: fill_row_def)

lemma row_wf_fill [simp]: "row_wf cfg (fill_row cfg new)"
  by (simp add: row_wf_def)

lemma row_wf_merge [simp]: "row_wf cfg (merge_row r new) = row_wf cfg r"
  by (simp add: row_wf_def)

lemma row_get_merge:
  "row_get (merge_row old new) c =
     (case map_of old c of None \<Rightarrow> JNull
      | Some v \<Rightarrow> (case map_of new c of Some w \<Rightarrow> w | None \<Rightarrow> v))"
  by (simp add: row_get_def map_of_merge_row split: option.splits)

lemma row_get_merge_other: "map_of ups c = None \<Longrightarrow> row_get (merge_row r ups) c = row_get r c"
  by (simp add: row_get_def map_of_merge_row split: option.splits)

lemma merge_row_twice:
  assumes "given new1 \<subseteq> given new2"
  shows "merge_row (merge_row r new1) new2 = merge_row r new2"
proof -
  have "map_of new1 c = None" if "map_of new2 c = None" for c
    using assms that by (meson domIff subsetD)
  then show ?thesis by (auto simp: merge_row_def split: option.splits)
qed

lemma merge_row_id:
  assumes "distinct (map fst r)" and "\<And>c v. map_of new c = Some v \<Longrightarrow> c \<in> fst ` set r \<Longrightarrow> map_of r c = Some v"
  shows "merge_row r new = r"
  unfolding merge_row_def
proof (rule map_idI)
  fix x assume x: "x \<in> set r"
  obtain c v where cv: "x = (c, v)" by (cases x)
  then have "map_of r c = Some v" and "c \<in> fst ` set r" using x assms(1) by (force simp: image_iff)+
  then show "(\<lambda>(c, v). (c, case map_of new c of Some w \<Rightarrow> w | None \<Rightarrow> v)) x = x"
    using assms(2) [of c] cv by (auto split: option.splits)
qed

lemma map_of_fill_row:
  assumes "distinct (map col_name cs)" and "c \<in> set cs"
  shows "map_of (map (\<lambda>c. (col_name c, f c)) cs) (col_name c) = Some (f c)"
  using assms by (induction cs) (auto simp: image_iff)

lemma fill_then_merge:
  assumes "given new1 \<subseteq> given new2"
  shows "merge_row (fill_row cfg new1) new2 = fill_row cfg new2"
proof -
  have "map_of new1 c = None" if "map_of new2 c = None" for c
    using assms that by (meson domIff subsetD)
  then show ?thesis by (auto simp: merge_row_def fill_row_def split: option.splits)
qed

text \<open>Two rows of a schema with the same key agree on every key column.\<close>

lemma row_key_eq_iff: "row_key cfg r = row_key cfg s \<longleftrightarrow> (\<forall>c \<in> set (primaryKey cfg). row_get r c = row_get s c)"
  by (simp add: row_key_def)

lemma row_get_fill:
  assumes "config_wf cfg" and "c \<in> set (schema cfg)"
  shows "row_get (fill_row cfg new) (col_name c) =
           (case map_of new (col_name c) of Some v \<Rightarrow> v | None \<Rightarrow> col_default c)"
  using assms by (simp add: row_get_def fill_row_def config_wf_def map_of_fill_row)

lemma map_of_row_wf:
  assumes "row_wf cfg r" and "c \<in> set (schema cfg)"
  obtains v where "map_of r (col_name c) = Some v"
proof -
  have "col_name c \<in> set (map fst r)" using assms by (simp add: row_wf_def)
  then have "map_of r (col_name c) \<noteq> None" by (simp add: map_of_eq_None_iff)
  then show ?thesis using that by auto
qed

lemma primaryKey_column:
  assumes "config_wf cfg" and "k \<in> set (primaryKey cfg)"
  obtains c where "c \<in> set (schema cfg)" and "k = col_name c"
  using assms by (auto simp: config_wf_def list_all_iff)

lemma row_key_merge:
  assumes cfg: "config_wf cfg" and r: "row_wf cfg r"
    and k: "row_key cfg r = row_key cfg (fill_row cfg new)"
  shows "row_key cfg (merge_row r new) = row_key cfg r"
  unfolding row_key_eq_iff
proof
  fix k assume k': "k \<in> set (primaryKey cfg)"
  then obtain c where c: "c \<in> set (schema cfg)" "k = col_name c" by (rule primaryKey_column [OF cfg])
  obtain v where v: "map_of r (col_name c) = Some v" by (rule map_of_row_wf [OF r c(1)])
  have "row_get r k = row_get (fill_row cfg new) k" using k k' by (simp add: row_key_eq_iff)
  moreover have "row_get r k = v" using v c by (simp add: row_get_def)
  ultimately show "row_get (merge_row r new) k = row_get r k"
    using c v row_get_fill [OF cfg c(1), of new] by (auto simp: row_get_merge split: option.splits)
qed

lemma row_wf_of: "table_wf cfg t \<Longrightarrow> r \<in> set t \<Longrightarrow> row_wf cfg r"
  by (simp add: table_wf_def list_all_iff)

lemma lookup_key_Some:
  "table_wf cfg t \<Longrightarrow> lookup_key cfg k t = Some r \<longleftrightarrow> r \<in> set t \<and> row_key cfg r = k"
  by (auto simp: lookup_key_def table_wf_def find_Some_iff in_set_conv_nth distinct_conv_nth)

lemma lookup_key_None: "lookup_key cfg k t = None \<longleftrightarrow> (\<forall>r \<in> set t. row_key cfg r \<noteq> k)"
  by (auto simp: lookup_key_def find_None_iff)

text \<open>The statement as a case distinction on the row with the key.\<close>

lemma insert_merge_cases:
  "sql_insert_merge cfg new t =
     (if lookup_key cfg (row_key cfg (fill_row cfg new)) t = None then t @ [fill_row cfg new]
      else map (\<lambda>r. if row_key cfg r = row_key cfg (fill_row cfg new) then merge_row r new else r) t)"
  by (auto simp: sql_insert_merge_def lookup_key_None Let_def)

lemma map_row_key_insert:
  assumes "config_wf cfg" "table_wf cfg t"
  shows "map (row_key cfg) (map (\<lambda>r. if row_key cfg r = row_key cfg (fill_row cfg new) then merge_row r new else r) t)
           = map (row_key cfg) t"
  using row_key_merge [OF assms(1)] row_wf_of [OF assms(2)] by simp

lemma table_wf_insert:
  assumes "config_wf cfg" "table_wf cfg t"
  shows "table_wf cfg (sql_insert_merge cfg new t)"
proof (cases "lookup_key cfg (row_key cfg (fill_row cfg new)) t = None")
  case True
  then show ?thesis using assms(2)
    by (auto simp: insert_merge_cases table_wf_def list_all_iff lookup_key_None)
next
  case False
  let ?f = "\<lambda>r. if row_key cfg r = row_key cfg (fill_row cfg new) then merge_row r new else r"
  have "distinct (map (row_key cfg) (map ?f t))"
    using assms(2) by (simp only: map_row_key_insert [OF assms] table_wf_def)
  then show ?thesis using False assms(2)
    by (auto simp: insert_merge_cases table_wf_def list_all_iff simp del: map_map)
qed

lemma find_map_if:
  assumes "\<And>r. r \<in> set t \<Longrightarrow> K (f r) = K r"
  shows "List.find (\<lambda>r. K r = k) (map f t) = map_option f (List.find (\<lambda>r. K r = k) t)"
  using assms by (induction t) auto

lemma lookup_insert:
  assumes "config_wf cfg" "table_wf cfg t"
  shows "lookup_key cfg k (sql_insert_merge cfg new t) =
     (if k = row_key cfg (fill_row cfg new)
      then Some (case lookup_key cfg k t of None \<Rightarrow> fill_row cfg new | Some r \<Rightarrow> merge_row r new)
      else lookup_key cfg k t)"
proof (cases "lookup_key cfg (row_key cfg (fill_row cfg new)) t = None")
  case True
  then show ?thesis
    by (auto simp: insert_merge_cases lookup_key_def find_append split: option.splits)
next
  case False
  let ?f = "\<lambda>r. if row_key cfg r = row_key cfg (fill_row cfg new) then merge_row r new else r"
  have "lookup_key cfg k (map ?f t) = map_option ?f (lookup_key cfg k t)"
    unfolding lookup_key_def
    by (rule find_map_if) (use row_key_merge [OF assms(1)] row_wf_of [OF assms(2)] in simp)
  moreover have "row_key cfg r = k" if "lookup_key cfg k t = Some r" for r
    using that lookup_key_Some [OF assms(2)] by simp
  ultimately show ?thesis using False
    by (cases "lookup_key cfg k t") (auto simp: insert_merge_cases)
qed

section \<open>The interface of a table with a primary key\<close>

text \<open>
  What the indexing code relies on: a row written under a key is found under it and under no
  other, a later write of the same columns replaces an earlier one, writing back the values a
  row already has changes nothing, writes under different keys do not interfere, and deleting
  a freshly inserted row undoes the insertion.
\<close>

locale keyed_table =
  fixes upd :: "'r \<Rightarrow> 't \<Rightarrow> 't"
    and look :: "'k \<Rightarrow> 't \<Rightarrow> 'v option"
    and del :: "'k \<Rightarrow> 't \<Rightarrow> 't"
    and keyof :: "'r \<Rightarrow> 'k"
    and fill :: "'r \<Rightarrow> 'v"
    and merge :: "'v \<Rightarrow> 'r \<Rightarrow> 'v"
    and cols :: "'r \<Rightarrow> string set"
    and inv :: "'t \<Rightarrow> bool"
  assumes inv_upd: "inv t \<Longrightarrow> inv (upd n t)"
    and inv_del: "inv t \<Longrightarrow> inv (del k t)"
    and look_upd: "inv t \<Longrightarrow> look k (upd n t) =
          (if k = keyof n then Some (case look k t of None \<Rightarrow> fill n | Some r \<Rightarrow> merge r n) else look k t)"
    and look_del: "inv t \<Longrightarrow> look k (del k' t) = (if k = k' then None else look k t)"
    and fill_merge: "cols m \<subseteq> cols n \<Longrightarrow> merge (fill m) n = fill n"
    and merge_merge: "cols m \<subseteq> cols n \<Longrightarrow> merge (merge r m) n = merge r n"
    and upd_absorb: "inv t \<Longrightarrow> keyof m = keyof n \<Longrightarrow> cols m \<subseteq> cols n \<Longrightarrow> upd n (upd m t) = upd n t"
    and upd_same: "inv t \<Longrightarrow> look (keyof n) t = Some r \<Longrightarrow> merge r n = r \<Longrightarrow> upd n t = t"
    and upd_commute: "inv t \<Longrightarrow> keyof m \<noteq> keyof n \<Longrightarrow> look (keyof m) t \<noteq> None \<Longrightarrow>
          upd m (upd n t) = upd n (upd m t)"
    and del_fresh: "inv t \<Longrightarrow> look (keyof n) t = None \<Longrightarrow> del (keyof n) (upd n t) = t"
begin

lemma inv_fold: "inv t \<Longrightarrow> inv (fold upd ns t)"
  by (induction ns arbitrary: t) (simp_all add: inv_upd)

text \<open>Writes under other keys leave a row alone.\<close>

lemma look_fold_other: "inv t \<Longrightarrow> k \<notin> keyof ` set ns \<Longrightarrow> look k (fold upd ns t) = look k t"
  by (induction ns arbitrary: t) (simp_all add: inv_upd look_upd)

text \<open>Two rows are written, then written back with the values they had.\<close>

lemma write_back_pair:
  assumes t: "inv t" and ne: "keyof a \<noteq> keyof b"
    and a: "keyof a' = keyof a" "cols a \<subseteq> cols a'" "look (keyof a) t = Some ra" "merge ra a' = ra"
    and b: "keyof b' = keyof b" "cols b \<subseteq> cols b'" "look (keyof b) t = Some rb" "merge rb b' = rb"
  shows "upd b' (upd a' (upd b (upd a t))) = t"
proof -
  have "upd a' (upd b (upd a t)) = upd b (upd a' (upd a t))"
    using t ne a by (intro upd_commute) (simp_all add: inv_upd look_upd)
  also have "upd a' (upd a t) = t" using upd_absorb [OF t _ a(2)] upd_same [OF t _ a(4)] a by simp
  finally show ?thesis using upd_absorb [OF t _ b(2)] upd_same [OF t _ b(4)] b by simp
qed

text \<open>The same, seen through lookups: it also covers rows that did not exist before.\<close>

lemma look_write_back_pair:
  assumes t: "inv t" and ne: "keyof a \<noteq> keyof b"
    and a: "keyof a' = keyof a" "cols a \<subseteq> cols a'" and b: "keyof b' = keyof b" "cols b \<subseteq> cols b'"
  shows "look k (upd b' (upd a' (upd b (upd a t)))) = look k (upd b' (upd a' t))"
proof -
  note inv = t inv_upd [OF t] inv_upd [OF inv_upd [OF t]] inv_upd [OF inv_upd [OF inv_upd [OF t]]]
  show ?thesis using ne a b
    by (simp add: inv look_upd fill_merge merge_merge split: option.splits)
qed

text \<open>Two fresh rows are inserted and deleted again.\<close>

lemma insert_delete_pair:
  assumes t: "inv t" and ne: "keyof a \<noteq> keyof b"
    and fresh: "look (keyof a) t = None" "look (keyof b) t = None"
  shows "del (keyof a) (del (keyof b) (upd b (upd a t))) = t"
proof -
  have "del (keyof b) (upd b (upd a t)) = upd a t"
    using t ne fresh by (intro del_fresh) (simp_all add: inv_upd look_upd)
  then show ?thesis using del_fresh [OF t fresh(1)] by simp
qed

end

definition delete_key :: "table_config \<Rightarrow> jsval list \<Rightarrow> table \<Rightarrow> table" where
  "delete_key cfg k = sql_delete (\<lambda>r. row_key cfg r = k)"

definition new_key :: "table_config \<Rightarrow> row \<Rightarrow> jsval list" where
  "new_key cfg new = row_key cfg (fill_row cfg new)"

lemma table_wf_delete: "table_wf cfg t \<Longrightarrow> table_wf cfg (sql_delete P t)"
  by (auto simp: table_wf_def sql_delete_def list_all_iff distinct_map intro: inj_on_subset)

lemma lookup_delete: "lookup_key cfg k (delete_key cfg k' t) = (if k = k' then None else lookup_key cfg k t)"
  by (induction t) (auto simp: lookup_key_def delete_key_def sql_delete_def)

definition upd_row :: "table_config \<Rightarrow> row \<Rightarrow> row \<Rightarrow> row" where
  "upd_row cfg new r = (if row_key cfg r = new_key cfg new then merge_row r new else r)"

lemma insert_fresh:
  "lookup_key cfg (new_key cfg new) t = None \<Longrightarrow> sql_insert_merge cfg new t = t @ [fill_row cfg new]"
  by (simp add: insert_merge_cases new_key_def)

lemma insert_existing:
  "lookup_key cfg (new_key cfg new) t \<noteq> None \<Longrightarrow> sql_insert_merge cfg new t = map (upd_row cfg new) t"
  by (simp add: insert_merge_cases new_key_def upd_row_def)

lemma upd_row_other: "row_key cfg r \<noteq> new_key cfg new \<Longrightarrow> upd_row cfg new r = r"
  by (simp add: upd_row_def)

lemma row_key_upd_row [simp]:
  "config_wf cfg \<Longrightarrow> row_wf cfg r \<Longrightarrow> row_key cfg (upd_row cfg new r) = row_key cfg r"
  by (simp add: upd_row_def new_key_def row_key_merge)

lemma insert_absorb:
  assumes cfg: "config_wf cfg" and t: "table_wf cfg t"
    and k: "new_key cfg m = new_key cfg n" and sub: "given m \<subseteq> given n"
  shows "sql_insert_merge cfg n (sql_insert_merge cfg m t) = sql_insert_merge cfg n t"
proof (cases "lookup_key cfg (new_key cfg n) t = None")
  case True
  then have "map (upd_row cfg n) t = t" by (intro map_idI upd_row_other) (auto simp: lookup_key_None)
  moreover have "upd_row cfg n (fill_row cfg m) = fill_row cfg n"
    using k fill_then_merge [OF sub] by (simp add: upd_row_def new_key_def)
  moreover have "lookup_key cfg (new_key cfg n) (t @ [fill_row cfg m]) \<noteq> None"
    using k by (auto simp: lookup_key_None new_key_def)
  ultimately show ?thesis using True k by (simp add: insert_fresh insert_existing)
next
  case False
  have "upd_row cfg n (upd_row cfg m r) = upd_row cfg n r" if "r \<in> set t" for r
    using k merge_row_twice [OF sub] row_key_upd_row [OF cfg row_wf_of [OF t that], of m]
    by (simp add: upd_row_def split: if_splits)
  then have "map (upd_row cfg n) (map (upd_row cfg m) t) = map (upd_row cfg n) t" by simp
  moreover have "lookup_key cfg (new_key cfg n) (sql_insert_merge cfg m t) \<noteq> None"
    using lookup_insert [OF cfg t] k by (simp add: new_key_def)
  ultimately show ?thesis using False k by (simp add: insert_existing)
qed

lemma insert_same:
  assumes t: "table_wf cfg t" and r: "lookup_key cfg (new_key cfg n) t = Some r" and m: "merge_row r n = r"
  shows "sql_insert_merge cfg n t = t"
proof -
  have "s = r" if "s \<in> set t" "row_key cfg s = new_key cfg n" for s
    using that r lookup_key_Some [OF t] by (metis option.inject)
  then have "map (upd_row cfg n) t = t" using m by (intro map_idI) (auto simp: upd_row_def)
  then show ?thesis using r by (simp add: insert_existing)
qed

lemma insert_commute:
  assumes cfg: "config_wf cfg" and t: "table_wf cfg t"
    and ne: "new_key cfg m \<noteq> new_key cfg n" and ex: "lookup_key cfg (new_key cfg m) t \<noteq> None"
  shows "sql_insert_merge cfg m (sql_insert_merge cfg n t) = sql_insert_merge cfg n (sql_insert_merge cfg m t)"
proof -
  have m: "sql_insert_merge cfg m t = map (upd_row cfg m) t" using ex by (simp add: insert_existing)
  have m': "sql_insert_merge cfg m (sql_insert_merge cfg n t) = map (upd_row cfg m) (sql_insert_merge cfg n t)"
    using ex lookup_insert [OF cfg t] ne by (intro insert_existing) (simp add: new_key_def)
  have n: "lookup_key cfg (new_key cfg n) (sql_insert_merge cfg m t) = lookup_key cfg (new_key cfg n) t"
    using lookup_insert [OF cfg t] ne by (simp add: new_key_def)
  have g: "upd_row cfg m (upd_row cfg n r) = upd_row cfg n (upd_row cfg m r)" if "r \<in> set t" for r
    using ne row_key_upd_row [OF cfg row_wf_of [OF t that]] by (auto simp: upd_row_def)
  show ?thesis
  proof (cases "lookup_key cfg (new_key cfg n) t = None")
    case True
    then show ?thesis using m m' n ne
      by (simp add: insert_fresh upd_row_other new_key_def [of cfg n, symmetric])
  next
    case False
    then show ?thesis using m m' n g by (simp add: insert_existing)
  qed
qed

lemma delete_fresh:
  assumes "lookup_key cfg (new_key cfg n) t = None"
  shows "delete_key cfg (new_key cfg n) (sql_insert_merge cfg n t) = t"
  using assms
  by (auto simp: insert_merge_cases new_key_def delete_key_def sql_delete_def lookup_key_None intro!: filter_True)

text \<open>Every schema whose key columns are among its columns provides the interface.\<close>

lemma keyed_table_config:
  assumes "config_wf cfg"
  shows "keyed_table (sql_insert_merge cfg) (lookup_key cfg) (delete_key cfg) (new_key cfg)
           (fill_row cfg) merge_row given (table_wf cfg)"
proof (unfold_locales, goal_cases)
  case 1 then show ?case by (rule table_wf_insert [OF assms])
next
  case 2 then show ?case by (simp add: delete_key_def table_wf_delete)
next
  case 3 then show ?case by (simp add: lookup_insert [OF assms] new_key_def)
next
  case 4 show ?case by (rule lookup_delete)
next
  case 5 then show ?case by (rule fill_then_merge)
next
  case 6 then show ?case by (rule merge_row_twice)
next
  case 7 then show ?case by (rule insert_absorb [OF assms])
next
  case 8 then show ?case by (rule insert_same)
next
  case 9 then show ?case by (rule insert_commute [OF assms])
next
  case 10 then show ?case by (intro delete_fresh)
qed

section \<open>Pattern search\<close>

declare like.simps [simp del]

lemma like_Nil [simp]: "like [] t \<longleftrightarrow> t = []"
  by (simp add: like.simps)

lemma like_percent: "like (CHR ''%'' # ps) t \<longleftrightarrow> (\<exists>a b. t = a @ b \<and> like ps b)"
proof (induction t)
  case Nil
  then show ?case by (simp add: like.simps(2) [of "CHR ''%''"])
next
  case (Cons c t)
  have "like (CHR ''%'' # ps) (c # t) \<longleftrightarrow> like ps (c # t) \<or> like (CHR ''%'' # ps) t"
    by (subst like.simps) simp
  also have "\<dots> \<longleftrightarrow> (\<exists>a b. c # t = a @ b \<and> like ps b)"
    unfolding Cons.IH by (auto simp: Cons_eq_append_conv)
  finally show ?case .
qed

lemma like_backslash: "like (backslash # p # ps) t \<longleftrightarrow> (\<exists>t'. t = p # t' \<and> like ps t')"
  by (simp add: like.simps(2) [of backslash]) (auto simp: backslash_def split: list.splits)

lemma like_plain:
  "p \<noteq> CHR ''%'' \<Longrightarrow> p \<noteq> CHR ''_'' \<Longrightarrow> p \<noteq> backslash \<Longrightarrow> like (p # ps) t \<longleftrightarrow> (\<exists>t'. t = p # t' \<and> like ps t')"
  by (simp add: like.simps(2) [of p] split: list.splits)

lemma like_escaped:
  assumes "backslash \<notin> set s"
  shows "like (escapeUserInput s @ ps) t \<longleftrightarrow> (\<exists>b. t = s @ b \<and> like ps b)"
  using assms
proof (induction s arbitrary: t)
  case Nil
  then show ?case by (simp add: escapeUserInput_def)
next
  case (Cons c s)
  have esc: "escapeUserInput (c # s) =
      (if c = CHR ''%'' \<or> c = CHR ''_'' then [backslash, c] else [c]) @ escapeUserInput s"
    by (simp add: escapeUserInput_def)
  have "like (escapeUserInput (c # s) @ ps) t \<longleftrightarrow>
          (\<exists>t'. t = c # t' \<and> like (escapeUserInput s @ ps) t')"
    using Cons.prems unfolding esc
    by (cases "c = CHR ''%'' \<or> c = CHR ''_''"; cases t)
      (auto simp: like_backslash like_plain)
  then show ?case using Cons by auto
qed

lemma like_trailing_percent: "like [CHR ''%''] b"
  by (simp add: like_percent)

lemma eval_where_single [simp]: "eval_where [(b, P)] = P"
  by (rule ext) simp

lemma ex_append: "(\<exists>a b. t = a @ b \<and> (\<exists>e. b = s @ e)) \<longleftrightarrow> (\<exists>a b. t = a @ s @ b)"
  by auto

lemma search_query:
  "find_tbl cfg [(''search'', PSearch [se])] (Some cols) trx d =
     Inr (map (\<lambda>r. map (\<lambda>c. (c, row_get r c)) cols)
       (filter (eval_where (search_clauses False se)) (read_table (tableName cfg) trx d)))"
  by (simp add: find_tbl_def queryBuilder_def where_clauses_def resolveQueryParams_def KNOWN_QUERY_PARAMS_def
      sort_columns_def sort_param_def sort_clauses_def order_by_def limit_rows_def num_param_def eq_clauses_def
      in_clauses_def whereIn_clauses_def nested_clauses_def null_clauses_def like_clauses_def)

text \<open>
  A search without wild cards selects exactly the rows in whose cell the text the user typed
  occurs literally, at any place for \<^verbatim>\<open>pattern\<close>, at the beginning for \<^verbatim>\<open>startsWith\<close> and at the
  end for \<^verbatim>\<open>endsWith\<close>, whatever per cent signs and underscores the text has, provided that
  it has no backslash.
\<close>

theorem search_is_literal:
  assumes "s \<noteq> []" and "backslash \<notin> set s"
  shows "find_tbl cfg [(''search'', PSearch [\<lparr>se_property = c, se_pattern = s, se_startsWith = [], se_endsWith = [], se_allowWildCards = False\<rparr>])] (Some cols) trx d
       = Inr (map (\<lambda>r. map (\<lambda>c. (c, row_get r c)) cols) (filter (\<lambda>r. row_get r c \<noteq> JNull \<and> (\<exists>a b. js_String (row_get r c) = a @ s @ b))
           (read_table (tableName cfg) trx d)))
     \<and> find_tbl cfg [(''search'', PSearch [\<lparr>se_property = c, se_pattern = [], se_startsWith = s, se_endsWith = [], se_allowWildCards = False\<rparr>])] (Some cols) trx d
       = Inr (map (\<lambda>r. map (\<lambda>c. (c, row_get r c)) cols) (filter (\<lambda>r. row_get r c \<noteq> JNull \<and> (\<exists>b. js_String (row_get r c) = s @ b))
           (read_table (tableName cfg) trx d)))
     \<and> find_tbl cfg [(''search'', PSearch [\<lparr>se_property = c, se_pattern = [], se_startsWith = [], se_endsWith = s, se_allowWildCards = False\<rparr>])] (Some cols) trx d
       = Inr (map (\<lambda>r. map (\<lambda>c. (c, row_get r c)) cols) (filter (\<lambda>r. row_get r c \<noteq> JNull \<and> (\<exists>a. js_String (row_get r c) = a @ s))
           (read_table (tableName cfg) trx d)))"
  using assms like_escaped [OF assms(2), of "[]"]
  by (simp add: search_query search_clauses_def search_patterns_def like_cell_def like_percent like_escaped like_trailing_percent ex_append)

theorem search_is_literal_witness:
  "find_tbl \<lparr>tableName = ''t'', primaryKey = [''k''], schema = [mk_col ''k'' ''string''], indexes = [], compositeIndexes = []\<rparr>
     [(''search'', PSearch [\<lparr>se_property = ''k'', se_pattern = ''%b'', se_startsWith = [], se_endsWith = [], se_allowWildCards = False\<rparr>])]
     (Some [''k'']) False \<lparr>committed = (\<lambda>_. [[(''k'', JStr ''a%bc'')], [(''k'', JStr ''axbc'')]]), working = (\<lambda>_. [])\<rparr>
   = Inr [[(''k'', JStr ''a%bc'')]]"
proof -
  have "\<exists>a b. ''a%bc'' = a @ ''%b'' @ b" by (rule exI [of _ "''a''"]) simp
  moreover have "\<not> (\<exists>a b. ''axbc'' = a @ ''%b'' @ b)" by (auto simp: Cons_eq_append_conv)
  ultimately show ?thesis
    by (subst search_is_literal [THEN conjunct1]) (simp_all add: backslash_def read_table_def row_get_def)
qed

section \<open>Types of the cells\<close>

text \<open>The values the conversion leaves in a column of each type.\<close>

fun is_num :: "jsval \<Rightarrow> bool" where
  "is_num (JNum _) = True"
| "is_num (JBig _) = True"
| "is_num _ = False"

fun is_int :: "jsval \<Rightarrow> bool" where
  "is_int (JNum _) = True"
| "is_int _ = False"

fun is_str :: "jsval \<Rightarrow> bool" where
  "is_str (JStr _) = True"
| "is_str _ = False"

fun is_bool :: "jsval \<Rightarrow> bool" where
  "is_bool (JBool _) = True"
| "is_bool _ = False"

definition cell_ok :: "string \<Rightarrow> jsval \<Rightarrow> bool" where
  "cell_ok ty v \<longleftrightarrow> v = JNull
     \<or> (if ty = ''number'' \<or> ty = ''integer'' then is_int v
        else if ty = ''bigInteger'' then is_num v
        else if ty = ''string'' \<or> ty = ''json'' then is_str v
        else if ty = ''boolean'' then is_bool v
        else v \<noteq> JUndefined \<and> v \<noteq> JNaN)"

definition row_typed :: "table_config \<Rightarrow> row \<Rightarrow> bool" where
  "row_typed cfg r = list_all (\<lambda>c. cell_ok (col_type c) (row_get r (col_name c))) (schema cfg)"

definition table_typed :: "table_config \<Rightarrow> table \<Rightarrow> bool" where
  "table_typed cfg t \<longleftrightarrow> table_wf cfg t \<and> list_all (row_typed cfg) t"

definition config_typed :: "table_config \<Rightarrow> bool" where
  "config_typed cfg \<longleftrightarrow> config_wf cfg \<and> list_all (\<lambda>c. cell_ok (col_type c) (col_default c)) (schema cfg)"

lemma cell_ok_null: "cell_ok ty JNull"
  by (simp add: cell_ok_def)

lemma cast_cell_ok: "cast v ty = Inr w \<Longrightarrow> cell_ok ty (getValue w)"
  by (cases v) (auto simp: cast_def getValue_def cell_ok_def bindR_eq_Inr split: if_splits option.splits)

lemma map_row_Cons:
  "map_row item (c # cs) = Inr r \<longleftrightarrow>
     (case map_of item (col_name c) of
        None \<Rightarrow> map_row item cs = Inr r
      | Some val \<Rightarrow> (\<exists>w r'. cast val (col_type c) = Inr w \<and> map_row item cs = Inr r' \<and> r = (col_name c, getValue w) # r'))"
  by (auto simp: bindR_eq_Inr split: option.splits)

lemma map_row_names: "map_row item cs = Inr r \<Longrightarrow> fst ` set r \<subseteq> col_name ` set cs"
proof (induction cs arbitrary: r)
  case (Cons c cs)
  show ?case
  proof (cases "map_of item (col_name c)")
    case None
    then show ?thesis using Cons.IH [of r] Cons.prems by auto
  next
    case (Some val)
    then obtain w r' where "map_row item cs = Inr r'" "r = (col_name c, getValue w) # r'"
      using Cons.prems unfolding map_row_Cons by auto
    then show ?thesis using Cons.IH [of r'] by auto
  qed
qed simp

lemma map_row_typed:
  "map_row item cs = Inr r \<Longrightarrow> distinct (map col_name cs) \<Longrightarrow> c \<in> set cs \<Longrightarrow>
   map_of r (col_name c) = Some v \<Longrightarrow> cell_ok (col_type c) v"
proof (induction cs arbitrary: r)
  case (Cons d cs)
  show ?case
  proof (cases "map_of item (col_name d)")
    case None
    then have r: "map_row item cs = Inr r" using Cons.prems(1) unfolding map_row_Cons by simp
    then have "c \<noteq> d" using map_row_names [OF r] Cons.prems by (auto dest!: map_of_SomeD)
    then show ?thesis using Cons r by simp
  next
    case (Some val)
    then obtain w r' where w: "cast val (col_type d) = Inr w" and r': "map_row item cs = Inr r'"
      and r: "r = (col_name d, getValue w) # r'"
      using Cons.prems(1) unfolding map_row_Cons by auto
    show ?thesis
    proof (cases "c = d")
      case True
      then show ?thesis using Cons.prems(4) r cast_cell_ok [OF w] by simp
    next
      case False
      then have "c \<in> set cs" using Cons.prems by simp
      then have "col_name c \<noteq> col_name d" using Cons.prems(2) by (auto simp: image_iff)
      then show ?thesis using Cons.IH [OF r'] Cons.prems r \<open>c \<in> set cs\<close> by simp
    qed
  qed
qed simp

lemma row_typed_fill:
  assumes cfg: "config_typed cfg" and r: "map_row item (schema cfg) = Inr new"
  shows "row_typed cfg (fill_row cfg new)"
  unfolding row_typed_def list_all_iff
proof
  fix c assume c: "c \<in> set (schema cfg)"
  have wf: "config_wf cfg" "distinct (map col_name (schema cfg))" "cell_ok (col_type c) (col_default c)"
    using cfg c by (simp_all add: config_typed_def config_wf_def list_all_iff)
  show "cell_ok (col_type c) (row_get (fill_row cfg new) (col_name c))"
    using row_get_fill [OF wf(1) c] map_row_typed [OF r wf(2) c] wf(3) by (simp split: option.splits)
qed

lemma row_typed_merge:
  assumes cfg: "config_typed cfg" and r: "map_row item (schema cfg) = Inr new"
    and old: "row_wf cfg old" "row_typed cfg old"
  shows "row_typed cfg (merge_row old new)"
  unfolding row_typed_def list_all_iff
proof
  fix c assume c: "c \<in> set (schema cfg)"
  obtain v where v: "map_of old (col_name c) = Some v" by (rule map_of_row_wf [OF old(1) c])
  have d: "distinct (map col_name (schema cfg))" using cfg by (simp add: config_typed_def config_wf_def)
  have "cell_ok (col_type c) v" using old(2) c v by (force simp: row_typed_def list_all_iff row_get_def)
  then show "cell_ok (col_type c) (row_get (merge_row old new) (col_name c))"
    using v map_row_typed [OF r d c] by (simp add: row_get_merge split: option.splits)
qed

lemma table_typed_insert:
  assumes cfg: "config_typed cfg" and r: "map_row item (schema cfg) = Inr new" and t: "table_typed cfg t"
  shows "table_typed cfg (sql_insert_merge cfg new t)"
proof -
  have "table_wf cfg (sql_insert_merge cfg new t)"
    using cfg t by (simp add: config_typed_def table_typed_def table_wf_insert)
  moreover have "list_all (row_typed cfg) (sql_insert_merge cfg new t)"
    using t row_typed_fill [OF cfg r] row_typed_merge [OF cfg r]
    by (auto simp: insert_merge_cases list_all_iff table_typed_def table_wf_def)
  ultimately show ?thesis by (simp add: table_typed_def)
qed

lemma mapRows_fold_typed:
  assumes cfg: "config_typed cfg" and rows: "mapRowsBySchema items (schema cfg) = Inr rows" and t: "table_typed cfg t"
  shows "table_typed cfg (fold (sql_insert_merge cfg) rows t)"
  using rows t
proof (induction items arbitrary: rows t)
  case (Cons i items)
  then obtain r rs where r: "map_row i (schema cfg) = Inr r" "mapRowsBySchema items (schema cfg) = Inr rs" "rows = r # rs"
    by (auto simp: bindR_eq_Inr)
  show ?case using Cons.IH [OF r(2)] table_typed_insert [OF cfg r(1) Cons.prems(2)] r(3) by simp
qed simp

lemma row_get_add:
  "row_get (map (\<lambda>(d, v). (d, if d = c then sql_plus v n else v)) r) k =
     (if k = c then (case map_of r k of None \<Rightarrow> JNull | Some v \<Rightarrow> sql_plus v n) else row_get r k)"
  by (induction r) (auto simp: row_get_def)

lemma sql_plus_cell_ok: "cell_ok ty v \<Longrightarrow> cell_ok ty (sql_plus v n)"
  by (cases v) (auto simp: cell_ok_def split: if_splits)

lemma table_typed_add:
  assumes c: "c \<notin> set (primaryKey cfg)" and t: "table_typed cfg t"
  shows "table_typed cfg (sql_add P c n t)"
proof -
  define a where "a r = (if P r then map (\<lambda>(d, v). (d, if d = c then sql_plus v n else v)) r else r)" for r :: row
  have add: "sql_add P c n t = map a t" by (simp add: sql_add_def a_def)
  have "row_key cfg (a r) = row_key cfg r" for r
    using c by (auto simp: a_def row_key_def row_get_add)
  moreover have "map fst (a r) = map fst r" for r by (auto simp: a_def)
  moreover have "row_typed cfg (a r)" if "row_typed cfg r" for r
  proof -
    have "cell_ok ty (case map_of r k of None \<Rightarrow> JNull | Some v \<Rightarrow> sql_plus v n)" if "cell_ok ty (row_get r k)" for ty k
      using that by (auto simp: row_get_def cell_ok_def [of _ JNull] intro: sql_plus_cell_ok split: option.splits)
    then show ?thesis using that by (auto simp: a_def row_typed_def list_all_iff row_get_add)
  qed
  ultimately show ?thesis using t
    by (simp add: add table_typed_def table_wf_def row_wf_def list_all_iff comp_def)
qed

lemma list_all_filter: "list_all P xs \<Longrightarrow> list_all P (filter Q xs)"
  by (auto simp: list_all_iff)

lemma table_typed_delete: "table_typed cfg t \<Longrightarrow> table_typed cfg (sql_delete P t)"
  by (simp add: table_typed_def table_wf_delete) (simp add: sql_delete_def list_all_filter)

definition db_typed :: "table_config \<Rightarrow> db \<Rightarrow> bool" where
  "db_typed cfg d \<longleftrightarrow> table_typed cfg (committed d (tableName cfg)) \<and> table_typed cfg (working d (tableName cfg))"

lemma db_typed_run:
  "db_typed cfg d \<Longrightarrow> (\<And>t. table_typed cfg t \<Longrightarrow> table_typed cfg (f t)) \<Longrightarrow>
   db_typed cfg (run_stmt (tableName cfg) trx f d)"
  by (simp add: db_typed_def run_stmt_def)

lemma upsert_typed:
  assumes "config_typed cfg" and "db_typed cfg d" and "upsert cfg rows trx d = Inr d'"
  shows "db_typed cfg d'"
  using assms mapRows_fold_typed [OF assms(1)]
  by (auto simp: upsert_def bindR_eq_Inr split: if_splits intro!: db_typed_run)

lemma deleteByParams_typed: "db_typed cfg d \<Longrightarrow> deleteByParams cfg ps trx d = Inr d' \<Longrightarrow> db_typed cfg d'"
  by (auto simp: deleteByParams_def bindR_eq_Inr intro!: db_typed_run table_typed_delete)

lemma deleteByPrimaryKey_typed: "db_typed cfg d \<Longrightarrow> deleteByPrimaryKey cfg ids trx d = Inr d' \<Longrightarrow> db_typed cfg d'"
  by (auto simp: deleteByPrimaryKey_def bindR_eq_Inr intro!: db_typed_run table_typed_delete)

lemma increment_typed:
  "db_typed cfg d \<Longrightarrow> c \<notin> set (primaryKey cfg) \<Longrightarrow> increment cfg c n wh trx d = Inr d' \<Longrightarrow> db_typed cfg d'"
  "db_typed cfg d \<Longrightarrow> c \<notin> set (primaryKey cfg) \<Longrightarrow> decrement cfg c n wh trx d = Inr d' \<Longrightarrow> db_typed cfg d'"
  by (auto simp: increment_def decrement_def bindR_eq_Inr intro!: db_typed_run table_typed_add)

lemma table_wf_sql_update:
  assumes "\<And>r. row_key cfg (merge_row r ups) = row_key cfg r" and "table_wf cfg t"
  shows "table_wf cfg (sql_update P ups t)"
proof -
  have "map (row_key cfg) (sql_update P ups t) = map (row_key cfg) t" using assms(1) by (simp add: sql_update_def)
  moreover have "list_all (row_wf cfg) (sql_update P ups t)" using assms(2) by (auto simp: table_wf_def list_all_iff sql_update_def)
  ultimately show ?thesis using assms(2) by (simp add: table_wf_def)
qed

text \<open>Updates of columns outside the key, by values that have the types of their columns.\<close>

definition updates_fit :: "table_config \<Rightarrow> row \<Rightarrow> bool" where
  "updates_fit cfg updates = list_all (\<lambda>(c, v). c \<notin> set (primaryKey cfg) \<and>
     list_all (\<lambda>col. col_name col = c \<longrightarrow> v = JUndefined \<or> cell_ok (col_type col) v) (schema cfg)) updates"

lemma updates_fit_map_of:
  assumes "updates_fit cfg ups" and "map_of (filter (\<lambda>(c, v). v \<noteq> JUndefined) ups) c = Some v"
  shows "c \<notin> set (primaryKey cfg)" "col \<in> set (schema cfg) \<Longrightarrow> col_name col = c \<Longrightarrow> cell_ok (col_type col) v"
proof -
  have "(c, v) \<in> set ups" "v \<noteq> JUndefined" using map_of_SomeD [OF assms(2)] by simp_all
  then show "c \<notin> set (primaryKey cfg)" "col \<in> set (schema cfg) \<Longrightarrow> col_name col = c \<Longrightarrow> cell_ok (col_type col) v"
    using assms(1) by (auto simp: updates_fit_def list_all_iff)
qed

lemma table_typed_update:
  assumes "updates_fit cfg ups" and t: "table_typed cfg t"
  shows "table_typed cfg (sql_update P (filter (\<lambda>(c, v). v \<noteq> JUndefined) ups) t)"
proof -
  let ?u = "filter (\<lambda>(c, v). v \<noteq> JUndefined) ups"
  have "row_get (merge_row r ?u) c = row_get r c" if "c \<in> set (primaryKey cfg)" for r c
    using updates_fit_map_of(1) [OF assms(1)] that by (cases "map_of ?u c") (auto simp: row_get_merge_other)
  then have key: "row_key cfg (merge_row r ?u) = row_key cfg r" for r by (simp add: row_key_def)
  have "row_typed cfg (merge_row r ?u)" if r: "row_typed cfg r" for r
    unfolding row_typed_def list_all_iff
  proof
    fix col
    assume col: "col \<in> set (schema cfg)"
    then have "cell_ok (col_type col) (row_get r (col_name col))" using r by (simp add: row_typed_def list_all_iff)
    moreover have "cell_ok (col_type col) v" if "map_of ?u (col_name col) = Some v" for v
      using updates_fit_map_of(2) [OF assms(1) that col] by simp
    ultimately show "cell_ok (col_type col) (row_get (merge_row r ?u) (col_name col))"
      unfolding row_get_merge by (simp add: row_get_def cell_ok_null split: option.splits)
  qed
  then show ?thesis using t table_wf_sql_update [OF key] by (auto simp: table_typed_def list_all_iff sql_update_def)
qed

lemma update_typed:
  "db_typed cfg d \<Longrightarrow> updates_fit cfg ups \<Longrightarrow> update_tbl cfg wh ups trx d = Inr d' \<Longrightarrow> db_typed cfg d'"
  by (auto simp: update_tbl_def bindR_eq_Inr intro!: db_typed_run table_typed_update)

lemma transaction_typed:
  "db_typed cfg d \<Longrightarrow> db_typed cfg (startDBTransaction d)"
  "db_typed cfg d \<Longrightarrow> db_typed cfg (commitDBTransaction d)"
  "db_typed cfg d \<Longrightarrow> db_typed cfg (rollbackDBTransaction d)"
  by (simp_all add: db_typed_def startDBTransaction_def commitDBTransaction_def rollbackDBTransaction_def)



section \<open>Queries by key\<close>

lemma sql_eq_string [simp]: "sql_eq (JStr a) (JStr b) \<longleftrightarrow> a = b" "\<not> sql_eq JNull (JStr b)"
  by (auto simp: sql_eq_def)

lemma filter_key_find:
  "distinct (map f t) \<Longrightarrow> filter (\<lambda>r. f r = k) t = (case List.find (\<lambda>r. f r = k) t of None \<Rightarrow> [] | Some r \<Rightarrow> [r])"
  by (induction t) (auto split: option.splits dest!: find_Some_member intro: rev_image_eqI)

lemma filter_string_key:
  assumes t: "table_typed cfg t" and k: "primaryKey cfg = [c]" and c: "(c, ''string'') \<in> set (map (\<lambda>c. (col_name c, col_type c)) (schema cfg))"
  shows "filter (\<lambda>r. sql_eq (row_get r c) (JStr s)) t = (case lookup_key cfg [JStr s] t of None \<Rightarrow> [] | Some r \<Rightarrow> [r])"
proof -
  have "sql_eq (row_get r c) (JStr s) \<longleftrightarrow> row_key cfg r = [JStr s]" if "r \<in> set t" for r
  proof -
    obtain d where "d \<in> set (schema cfg)" "col_name d = c" "col_type d = ''string''" using c by auto
    moreover from this have "cell_ok ''string'' (row_get r c)"
      using t that by (force simp: table_typed_def list_all_iff row_typed_def)
    ultimately have "row_get r c = JNull \<or> is_str (row_get r c)" by (simp add: cell_ok_def)
    then show ?thesis using k by (cases "row_get r c") (auto simp: row_key_def)
  qed
  then have "filter (\<lambda>r. sql_eq (row_get r c) (JStr s)) t = filter (\<lambda>r. row_key cfg r = [JStr s]) t"
    by (intro filter_cong) auto
  then show ?thesis using t filter_key_find [of "row_key cfg" t]
    by (simp add: table_typed_def table_wf_def lookup_key_def)
qed

lemma eval_clauses_eq: "eval_clauses acc (eq_clauses cs) r \<longleftrightarrow> acc \<and> eq_cond cs r"
proof (induction cs arbitrary: acc)
  case (Cons c cs)
  have "eq_clauses (c # cs) = both (\<lambda>r. sql_eq (row_get r (fst c)) (snd c)) # eq_clauses cs"
    by (simp add: eq_clauses_def case_prod_beta)
  then show ?case using Cons by (simp add: eq_cond_def case_prod_beta)
qed (simp add: eq_clauses_def eq_cond_def)

lemma eval_where_both: "eval_where (eq_clauses conds) = eq_cond conds"
proof
  fix r
  show "eval_where (eq_clauses conds) r = eq_cond conds r"
  proof (cases conds)
    case (Cons c cs)
    have "eq_clauses (c # cs) = both (\<lambda>r. sql_eq (row_get r (fst c)) (snd c)) # eq_clauses cs"
      by (simp add: eq_clauses_def case_prod_beta)
    then show ?thesis using Cons by (simp add: eval_clauses_eq) (simp add: eq_cond_def case_prod_beta)
  qed (simp add: eq_clauses_def eq_cond_def)
qed

lemma eq_cond_fun: "eq_cond conds = (\<lambda>r. list_all (\<lambda>(c, v). sql_eq (row_get r c) v) conds)"
  by (rule ext) (simp add: eq_cond_def)

text \<open>Rules that evaluate a query whose parameters are plain conditions.\<close>

lemmas find_query_simps =
  queryBuilder_def where_clauses_def resolveQueryParams_def KNOWN_QUERY_PARAMS_def
  sort_columns_def sort_param_def sort_clauses_def order_by_def limit_rows_def num_param_def
  in_clauses_def whereIn_clauses_def nested_clauses_def null_clauses_def like_clauses_def eval_where_both eq_cond_fun

section \<open>Rows that give every column\<close>

lemma fill_full:
  assumes "config_wf cfg" and "map fst new = map col_name (schema cfg)"
  shows "fill_row cfg new = new"
proof (rule nth_equalityI)
  show l: "length (fill_row cfg new) = length new" using assms(2) by (simp add: fill_row_def) (metis length_map)
  fix i assume "i < length (fill_row cfg new)"
  then have i: "i < length new" "i < length (schema cfg)" using l by (simp_all add: fill_row_def)
  have n: "col_name (schema cfg ! i) = fst (new ! i)" using assms(2) i by (metis nth_map)
  have "map_of new (fst (new ! i)) = Some (snd (new ! i))"
    using assms i by (intro map_of_is_SomeI) (simp_all add: config_wf_def)
  then show "fill_row cfg new ! i = new ! i" using i n by (simp add: fill_row_def)
qed

lemma merge_full:
  assumes "config_wf cfg" and "map fst new = map col_name (schema cfg)" and "row_wf cfg r"
  shows "merge_row r new = new"
proof (rule nth_equalityI)
  have l': "length r = length new" using assms(2,3) by (metis length_map row_wf_def)
  then show l: "length (merge_row r new) = length new" by (simp add: merge_row_def)
  fix i assume "i < length (merge_row r new)"
  then have i: "i < length new" "i < length r" using l l' by simp_all
  have "map fst r = map fst new" using assms(2,3) by (simp add: row_wf_def)
  then have "map fst r ! i = map fst new ! i" by simp
  then have n: "fst (r ! i) = fst (new ! i)" using i by simp
  have "map_of new (fst (new ! i)) = Some (snd (new ! i))"
    using assms(1,2) i by (intro map_of_is_SomeI) (simp_all add: config_wf_def)
  then show "merge_row r new ! i = new ! i" using i n by (simp add: merge_row_def case_prod_beta)
qed

lemma lookup_insert_full:
  assumes "config_wf cfg" and "table_wf cfg t" and "map fst new = map col_name (schema cfg)"
  shows "lookup_key cfg k (sql_insert_merge cfg new t) = (if k = row_key cfg new then Some new else lookup_key cfg k t)"
proof -
  have "merge_row r new = new" if "lookup_key cfg k t = Some r" for r
    using that lookup_key_Some [OF assms(2)] row_wf_of [OF assms(2)] merge_full [OF assms(1,3)] by blast
  then show ?thesis using lookup_insert [OF assms(1,2)] fill_full [OF assms(1,3)] by (simp split: option.splits)
qed

section \<open>Effects of the statements\<close>

lemma working_run [simp]:
  "working (run_stmt n trx f d) m = (if m = n then f (working d n) else working d m)"
  by (simp add: run_stmt_def)

lemma committed_run [simp]:
  "committed (run_stmt n trx f d) m = (if \<not> trx \<and> m = n then f (committed d n) else committed d m)"
  by (simp add: run_stmt_def)

lemma sql_eq_typed:
  "cell_ok ''string'' v \<Longrightarrow> sql_eq v (JStr s) \<longleftrightarrow> v = JStr s"
  "cell_ok ''integer'' v \<Longrightarrow> sql_eq v (JNum i) \<longleftrightarrow> v = JNum i"
  by (cases v; auto simp: cell_ok_def sql_eq_def)+

lemma cast_types:
  "cast v ''string'' = Inr (if v = JUndefined then JNull else JStr (js_String v))"
  "cast v ''integer'' = Inr (if v = JUndefined then JNull else js_Number v)"
  "cast v ''text'' = Inr (if v = JUndefined then JNull else v)"
  "cast v ''decimal'' = Inr (if v = JUndefined then JNull else v)"
  "cast v ''boolean'' = Inr (if v = JUndefined then JNull else JBool (js_Boolean v))"
  by (simp_all add: cast_def)

lemma getValue_simps [simp]: "getValue JNull = JNull" "getValue (JStr s) = JStr s"
  by (simp_all add: getValue_def)

text \<open>Adding to a numeric column and subtracting again.\<close>

definition numeric_col :: "string \<Rightarrow> table \<Rightarrow> bool" where
  "numeric_col c t = list_all (list_all (\<lambda>(d, v). d = c \<longrightarrow> v = JNull \<or> is_num v)) t"

lemma sql_plus_back: "v = JNull \<or> is_num v \<Longrightarrow> m + n = 0 \<Longrightarrow> sql_plus (sql_plus v m) n = v"
  by (cases v) auto

lemma sql_add_back:
  assumes num: "numeric_col c t" and P: "\<And>r m. P (map (\<lambda>(d, v). (d, if d = c then sql_plus v m else v)) r) = P r"
    and mn: "m + n = 0"
  shows "sql_add P c n (sql_add P c m t) = t"
proof -
  have "map (\<lambda>(d, v). (d, if d = c then sql_plus v n else v)) (map (\<lambda>(d, v). (d, if d = c then sql_plus v m else v)) r) = r"
    if "list_all (\<lambda>(d, v). d = c \<longrightarrow> v = JNull \<or> is_num v) r" for r
    using that sql_plus_back [OF _ mn] by (induction r) auto
  then show ?thesis using num P unfolding sql_add_def map_map
    by (intro map_idI) (auto simp: numeric_col_def list_all_iff)
qed

text \<open>Every row a search returns is a row of the table, seen through the selected columns.\<close>

lemma find_rows_member:
  assumes "find_tbl cfg ps (Some cs) False d = Inr rs" and "r \<in> set rs"
  shows "\<exists>q \<in> set (committed d (tableName cfg)). \<forall>c \<in> set cs. row_get r c = row_get q c"
proof -
  obtain P where P: "queryBuilder False ps = Inr P" using assms(1) by (cases "queryBuilder False ps") (auto simp: find_tbl_def Let_def)
  let ?sel = "cs @ filter (\<lambda>c. c \<notin> set cs) (sort_columns ps)"
  let ?t = "limit_rows ps (order_by (sort_param ps ''sort'') (order_by (sort_param ps ''order'') (filter P (committed d (tableName cfg)))))"
  have "rs = map (\<lambda>q. map (\<lambda>c. (c, row_get q c)) ?sel) ?t" using assms(1) P by (simp add: find_tbl_def Let_def read_table_def)
  then obtain q where q: "q \<in> set ?t" "r = map (\<lambda>c. (c, row_get q c)) ?sel" using assms(2) by auto
  have "set (limit_rows ps xs) \<subseteq> set xs" for xs
    by (auto simp: limit_rows_def Let_def dest!: in_set_takeD in_set_dropD split: option.splits)
  moreover have "set (order_by s xs) = set xs" for s xs by (auto simp: order_by_def split: option.splits)
  ultimately have "q \<in> set (committed d (tableName cfg))" using q(1) by fastforce
  moreover have "row_get (map (\<lambda>c. (c, row_get q c)) xs) c = row_get q c" if "c \<in> set xs" for xs c
    using that by (induction xs) (auto simp: row_get_def)
  ultimately show ?thesis using q(2) by (intro bexI [of _ q]) (auto simp del: map_append)
qed

end
