(* ===== verification/Schemas.thy ===== *)
theory Schemas
  imports Database
begin

text \<open>
  The tables of the services: \<^verbatim>\<open>shared/database/schema/*.js\<close> and
  \<^verbatim>\<open>shared/database/dynamic-schema/*.js\<close> of the indexer, and the schemas of the transaction
  statistics, the application registry and the connector. A primary key given as a string is the
  one-element list of it. \<open>loadSchema\<close> of \<^verbatim>\<open>framework/src/database/util.js\<close> creates a table
  from such a description.
\<close>

section \<open>The schemas\<close>

definition accountBalancesTableSchema :: "table_config" where
  "accountBalancesTableSchema = \<lparr>tableName = ''account_balances'', primaryKey = [''address'', ''tokenID''],
     schema = [\<lparr>col_name = ''address'', col_type = ''string'', col_null = False, col_default = JNull\<rparr>,
       \<lparr>col_name = ''tokenID'', col_type = ''string'', col_null = False, col_default = JNull\<rparr>,
       \<lparr>col_name = ''balance'', col_type = ''bigInteger'', col_null = False, col_default = JBig 0\<rparr>],
     indexes = [(''address'', ''key''), (''tokenID'', ''key'')],
     compositeIndexes = []\<rparr>"

definition accountsTableSchema :: "table_config" where
  "accountsTableSchema = \<lparr>tableName = ''accounts'', primaryKey = [''address''],
     schema = [mk_col ''address'' ''string'',
       mk_col ''publicKey'' ''string'',
       mk_col ''name'' ''string'',
       \<lparr>col_name = ''isValidator'', col_type = ''boolean'', col_null = False, col_default = JBool False\<rparr>],
     indexes = [],
     compositeIndexes = []\<rparr>"

definition blockchainAppsTableSchema :: "table_config" where
  "blockchainAppsTableSchema = \<lparr>tableName = ''blockchain_apps'', primaryKey = [''chainID''],
     schema = [mk_col ''chainID'' ''string'',
       mk_col ''chainName'' ''string'',
       mk_col ''status'' ''string'',
       mk_col ''address'' ''string'',
       mk_col ''lastUpdated'' ''string'',
       mk_col ''lastCertificateHeight'' ''string''],
     indexes = [(''chainID'', ''key''), (''status'', ''key''), (''name'', ''key'')],
     compositeIndexes = []\<rparr>"

definition blocksTableSchema :: "table_config" where
  "blocksTableSchema = \<lparr>tableName = ''blocks'', primaryKey = [''height''],
     schema = [mk_col ''id'' ''string'',
       mk_col ''height'' ''integer'',
       mk_col ''timestamp'' ''integer'',
       mk_col ''generatorAddress'' ''string'',
       mk_col ''size'' ''integer'',
       \<lparr>col_name = ''isFinal'', col_type = ''boolean'', col_null = True, col_default = JBool False\<rparr>,
       mk_col ''assetsModules'' ''json'',
       \<lparr>col_name = ''numberOfEvents'', col_type = ''integer'', col_null = True, col_default = JNum 0\<rparr>,
       \<lparr>col_name = ''reward'', col_type = ''bigInteger'', col_null = True, col_default = JBig 0\<rparr>],
     indexes = [(''id'', ''key''), (''height'', ''range''), (''timestamp'', ''range''), (''generatorAddress'', ''key''), (''size'', ''range''), (''isFinal'', ''key'')],
     compositeIndexes = []\<rparr>"

definition ccuTableSchema :: "table_config" where
  "ccuTableSchema = \<lparr>tableName = ''ccu'', primaryKey = [''transactionID''],
     schema = [\<lparr>col_name = ''transactionID'', col_type = ''string'', col_null = False, col_default = JNull\<rparr>,
       \<lparr>col_name = ''height'', col_type = ''integer'', col_null = False, col_default = JNull\<rparr>,
       mk_col ''sendingChainID'' ''string''],
     indexes = [(''height'', ''range''), (''sendingChainID'', ''key'')],
     compositeIndexes = []\<rparr>"

definition commissionsTableSchema :: "table_config" where
  "commissionsTableSchema = \<lparr>tableName = ''commissions'', primaryKey = [''address'', ''height''],
     schema = [\<lparr>col_name = ''address'', col_type = ''string'', col_null = False, col_default = JNull\<rparr>,
       \<lparr>col_name = ''commission'', col_type = ''string'', col_null = False, col_default = JNull\<rparr>,
       \<lparr>col_name = ''height'', col_type = ''string'', col_null = False, col_default = JNull\<rparr>],
     indexes = [(''address'', ''key''), (''commission'', ''range''), (''height'', ''range'')],
     compositeIndexes = []\<rparr>"

definition eventTopicsTableSchema :: "table_config" where
  "eventTopicsTableSchema = \<lparr>tableName = ''event_topics'', primaryKey = [''eventID'', ''topic''],
     schema = [mk_col ''eventID'' ''string'',
       mk_col ''topic'' ''string''],
     indexes = [(''eventID'', ''key''), (''topic'', ''key'')],
     compositeIndexes = []\<rparr>"

definition eventsTableSchema :: "table_config" where
  "eventsTableSchema = \<lparr>tableName = ''events'', primaryKey = [''id''],
     schema = [mk_col ''id'' ''string'',
       mk_col ''name'' ''string'',
       mk_col ''module'' ''string'',
       mk_col ''blockID'' ''string'',
       mk_col ''height'' ''integer'',
       mk_col ''index'' ''integer'',
       mk_col ''eventStr'' ''text'',
       mk_col ''timestamp'' ''integer''],
     indexes = [(''height'', ''range''), (''blockID'', ''key''), (''index'', ''range''), (''timestamp'', ''range'')],
     compositeIndexes = [(''timestamp_desc_index_asc'', [(''timestamp'', ''DESC''), (''index'', ''ASC'')]),
       (''timestamp_asc_index_asc'', [(''timestamp'', ''ASC''), (''index'', ''ASC'')]),
       (''timestamp_desc_index_desc'', [(''timestamp'', ''DESC''), (''index'', ''DESC'')]),
       (''timestamp_asc_index_desc'', [(''timestamp'', ''ASC''), (''index'', ''DESC'')]),
       (''height_desc_index_asc'', [(''height'', ''DESC''), (''index'', ''ASC'')]),
       (''height_asc_index_asc'', [(''height'', ''ASC''), (''index'', ''ASC'')]),
       (''height_desc_index_desc'', [(''height'', ''DESC''), (''index'', ''DESC'')]),
       (''height_asc_index_desc'', [(''height'', ''ASC''), (''index'', ''DESC'')])]\<rparr>"

definition lastPriceTableSchema :: "table_config" where
  "lastPriceTableSchema = \<lparr>tableName = ''last_price'', primaryKey = [''tokenId''],
     schema = [mk_col ''tokenId'' ''string'',
       mk_col ''updatedOn'' ''integer'',
       mk_col ''current'' ''decimal'',
       mk_col ''1h'' ''decimal'',
       mk_col ''24h'' ''decimal'',
       mk_col ''7d'' ''decimal'',
       mk_col ''30d'' ''decimal'',
       mk_col ''1y'' ''decimal''],
     indexes = [(''tokenId'', ''key''), (''updatedOn'', ''key'')],
     compositeIndexes = []\<rparr>"

definition multisignatureTableSchema :: "table_config" where
  "multisignatureTableSchema = \<lparr>tableName = ''multisignature'', primaryKey = [''id''],
     schema = [mk_col ''id'' ''string'',
       mk_col ''groupAddress'' ''string'',
       mk_col ''memberAddress'' ''string''],
     indexes = [(''groupAddress'', ''key''), (''memberAddress'', ''key'')],
     compositeIndexes = []\<rparr>"

definition poolTableSchema :: "table_config" where
  "poolTableSchema = \<lparr>tableName = ''pool'', primaryKey = [''token0'', ''token1'', ''fee''],
     schema = [mk_col ''token0'' ''string'',
       mk_col ''token1'' ''string'',
       mk_col ''fee'' ''integer'',
       mk_col ''inverted'' ''boolean'',
       mk_col ''created'' ''integer'',
       mk_col ''poolAddress'' ''string'',
       mk_col ''collectionId'' ''string'',
       mk_col ''feeHex'' ''string'',
       mk_col ''tickSpacing'' ''integer'',
       mk_col ''tick'' ''integer'',
       mk_col ''liquidity'' ''decimal'',
       mk_col ''price'' ''decimal''],
     indexes = [(''poolAddress'', ''key''), (''collectionId'', ''key''), (''created'', ''key''), (''token0'', ''key''), (''token1'', ''key''), (''fee'', ''key''), (''inverted'', ''key'')],
     compositeIndexes = []\<rparr>"

definition positionTableSchema :: "table_config" where
  "positionTableSchema = \<lparr>tableName = ''position'', primaryKey = [''tokenId''],
     schema = [mk_col ''tokenId'' ''string'',
       mk_col ''collectionId'' ''string'',
       mk_col ''owner'' ''string'',
       mk_col ''name'' ''string'',
       mk_col ''description'' ''text'',
       mk_col ''image'' ''text'',
       mk_col ''tickUpper'' ''integer'',
       mk_col ''tickLower'' ''integer'',
       mk_col ''liquidity'' ''decimal'',
       mk_col ''tokenURI'' ''string''],
     indexes = [(''tokenId'', ''key''), (''collectionId'', ''key''), (''owner'', ''key'')],
     compositeIndexes = []\<rparr>"

definition dexTokenTableSchema :: "table_config" where
  "dexTokenTableSchema = \<lparr>tableName = ''registered_dex_token'', primaryKey = [''tokenId''],
     schema = [mk_col ''tokenId'' ''string'',
       mk_col ''symbol'' ''string'',
       mk_col ''decimal'' ''integer'',
       mk_col ''logo'' ''string''],
     indexes = [(''tokenId'', ''key''), (''symbol'', ''key'')],
     compositeIndexes = []\<rparr>"

definition stakesTableSchema :: "table_config" where
  "stakesTableSchema = \<lparr>tableName = ''stakes'', primaryKey = [''validatorAddress'', ''stakerAddress''],
     schema = [mk_col ''stakerAddress'' ''string'',
       mk_col ''validatorAddress'' ''string'',
       mk_col ''amount'' ''bigInteger''],
     indexes = [(''validatorAddress'', ''key''), (''stakerAddress'', ''key'')],
     compositeIndexes = []\<rparr>"

definition tickTableSchema :: "table_config" where
  "tickTableSchema = \<lparr>tableName = ''tick'', primaryKey = [''poolAddress'', ''tick''],
     schema = [mk_col ''poolAddress'' ''string'',
       mk_col ''tick'' ''integer'',
       mk_col ''liquidityNet'' ''decimal''],
     indexes = [(''poolAddress'', ''key''), (''tick'', ''key'')],
     compositeIndexes = []\<rparr>"

definition tokenFactoryTableSchema :: "table_config" where
  "tokenFactoryTableSchema = \<lparr>tableName = ''token_factory'', primaryKey = [''tokenID''],
     schema = [mk_col ''tokenID'' ''string'',
       mk_col ''owner'' ''string'',
       mk_col ''supply'' ''decimal'',
       mk_col ''tokenName'' ''string'',
       mk_col ''description'' ''string'',
       mk_col ''decimal'' ''integer'',
       mk_col ''baseDenom'' ''string'',
       mk_col ''symbol'' ''string'',
       mk_col ''logoPng'' ''string'',
       mk_col ''logoSvg'' ''string''],
     indexes = [(''tokenID'', ''key'')],
     compositeIndexes = []\<rparr>"

definition tokenMetadataTableSchema :: "table_config" where
  "tokenMetadataTableSchema = \<lparr>tableName = ''token_metadata'', primaryKey = [''tokenID''],
     schema = [mk_col ''chainName'' ''string'',
       mk_col ''network'' ''string'',
       mk_col ''tokenName'' ''string'',
       mk_col ''tokenID'' ''string''],
     indexes = [(''chainName'', ''key''), (''tokenName'', ''key''), (''network'', ''key'')],
     compositeIndexes = []\<rparr>"

definition transactionsTableSchema :: "table_config" where
  "transactionsTableSchema = \<lparr>tableName = ''transactions'', primaryKey = [''id''],
     schema = [\<lparr>col_name = ''id'', col_type = ''string'', col_null = False, col_default = JNull\<rparr>,
       \<lparr>col_name = ''height'', col_type = ''integer'', col_null = False, col_default = JNull\<rparr>,
       \<lparr>col_name = ''moduleCommand'', col_type = ''string'', col_null = False, col_default = JNull\<rparr>,
       \<lparr>col_name = ''nonce'', col_type = ''integer'', col_null = False, col_default = JNull\<rparr>,
       \<lparr>col_name = ''blockID'', col_type = ''string'', col_null = False, col_default = JNull\<rparr>,
       \<lparr>col_name = ''timestamp'', col_type = ''integer'', col_null = False, col_default = JNull\<rparr>,
       \<lparr>col_name = ''senderAddress'', col_type = ''string'', col_null = False, col_default = JNull\<rparr>,
       mk_col ''recipientAddress'' ''string'',
       mk_col ''tokenID'' ''string'',
       mk_col ''amount'' ''bigInteger'',
       mk_col ''receivingChainID'' ''string'',
       mk_col ''messageFee'' ''bigInteger'',
       mk_col ''data'' ''string'',
       \<lparr>col_name = ''size'', col_type = ''integer'', col_null = False, col_default = JNull\<rparr>,
       \<lparr>col_name = ''fee'', col_type = ''bigInteger'', col_null = False, col_default = JNull\<rparr>,
       \<lparr>col_name = ''minFee'', col_type = ''bigInteger'', col_null = False, col_default = JNull\<rparr>,
       \<lparr>col_name = ''executionStatus'', col_type = ''string'', col_null = False, col_default = JNull\<rparr>,
       \<lparr>col_name = ''index'', col_type = ''integer'', col_null = False, col_default = JNull\<rparr>],
     indexes = [(''height'', ''range''), (''moduleCommand'', ''key''), (''nonce'', ''range''), (''blockID'', ''key''), (''timestamp'', ''range''), (''amount'', ''range''), (''data'', ''key''), (''senderAddress'', ''key''), (''receivingChainID'', ''key''), (''executionStatus'', ''key'')],
     compositeIndexes = []\<rparr>"

definition tvlTableSchema :: "table_config" where
  "tvlTableSchema = \<lparr>tableName = ''tvl'', primaryKey = [''transactionId'', ''index''],
     schema = [mk_col ''transactionId'' ''string'',
       mk_col ''index'' ''integer'',
       mk_col ''time'' ''integer'',
       mk_col ''sender'' ''string'',
       mk_col ''poolAddress'' ''string'',
       mk_col ''amount'' ''decimal'',
       mk_col ''tokenId'' ''string''],
     indexes = [(''time'', ''key''), (''sender'', ''key''), (''poolAddress'', ''key'')],
     compositeIndexes = []\<rparr>"

definition validatorsTableSchema :: "table_config" where
  "validatorsTableSchema = \<lparr>tableName = ''validators'', primaryKey = [''address''],
     schema = [mk_col ''address'' ''string'',
       mk_col ''name'' ''string'',
       mk_col ''blsKey'' ''string'',
       mk_col ''proofOfPossession'' ''string'',
       mk_col ''generatorKey'' ''string'',
       \<lparr>col_name = ''generatedBlocks'', col_type = ''integer'', col_null = False, col_default = JNum 0\<rparr>,
       \<lparr>col_name = ''totalCommission'', col_type = ''bigInteger'', col_null = False, col_default = JNum 0\<rparr>,
       \<lparr>col_name = ''totalSelfStakeRewards'', col_type = ''bigInteger'', col_null = False, col_default = JNum 0\<rparr>],
     indexes = [(''name'', ''key''), (''generatorKey'', ''key''), (''blsKey'', ''key'')],
     compositeIndexes = []\<rparr>"

definition volumeTableSchema :: "table_config" where
  "volumeTableSchema = \<lparr>tableName = ''volume'', primaryKey = [''height'', ''index''],
     schema = [mk_col ''height'' ''integer'',
       mk_col ''index'' ''integer'',
       mk_col ''poolAddress'' ''string'',
       mk_col ''sender'' ''string'',
       mk_col ''recipient'' ''string'',
       mk_col ''time'' ''integer'',
       mk_col ''amount0'' ''decimal'',
       mk_col ''amount1'' ''decimal'',
       mk_col ''feeGrowth0'' ''decimal'',
       mk_col ''feeGrowth1'' ''decimal''],
     indexes = [(''poolAddress'', ''key''), (''sender'', ''key''), (''recipient'', ''key''), (''time'', ''key'')],
     compositeIndexes = []\<rparr>"

definition transactionStatisticsSchema :: "table_config" where
  "transactionStatisticsSchema = \<lparr>tableName = ''transaction_statistics'', primaryKey = [''id''],
     schema = [mk_col ''amount_range'' ''string'',
       mk_col ''count'' ''integer'',
       mk_col ''date'' ''integer'',
       mk_col ''id'' ''string'',
       mk_col ''moduleCommand'' ''string'',
       mk_col ''volume'' ''bigInteger'',
       \<lparr>col_name = ''tokenID'', col_type = ''string'', col_null = False, col_default = JNull\<rparr>],
     indexes = [(''date'', ''range''), (''tokenID'', ''key'')],
     compositeIndexes = []\<rparr>"

definition applicationMetadataIndexSchema :: "table_config" where
  "applicationMetadataIndexSchema = \<lparr>tableName = ''application_metadata'', primaryKey = [''network'', ''chainName''],
     schema = [mk_col ''chainName'' ''string'',
       mk_col ''displayName'' ''string'',
       mk_col ''chainID'' ''string'',
       mk_col ''network'' ''string'',
       \<lparr>col_name = ''isDefault'', col_type = ''boolean'', col_null = False, col_default = JBool False\<rparr>,
       mk_col ''appDirName'' ''string''],
     indexes = [(''chainID'', ''key''), (''chainName'', ''key''), (''network'', ''key''), (''isDefault'', ''key'')],
     compositeIndexes = []\<rparr>"

definition tokenMetadataIndexSchema :: "table_config" where
  "tokenMetadataIndexSchema = \<lparr>tableName = ''token_metadata'', primaryKey = [''tokenID''],
     schema = [mk_col ''chainName'' ''string'',
       mk_col ''network'' ''string'',
       mk_col ''tokenName'' ''string'',
       mk_col ''tokenID'' ''string''],
     indexes = [(''chainName'', ''key''), (''tokenName'', ''key''), (''network'', ''key'')],
     compositeIndexes = []\<rparr>"

definition connectorBlocksTableSchema :: "table_config" where
  "connectorBlocksTableSchema = \<lparr>tableName = ''blocks'', primaryKey = [''id''],
     schema = [\<lparr>col_name = ''id'', col_type = ''string'', col_null = False, col_default = JNull\<rparr>,
       \<lparr>col_name = ''block'', col_type = ''json'', col_null = False, col_default = JNull\<rparr>,
       \<lparr>col_name = ''timestamp'', col_type = ''integer'', col_null = False, col_default = JNull\<rparr>],
     indexes = [(''timestamp'', ''range'')],
     compositeIndexes = []\<rparr>"

definition connectorTransactionsTableSchema :: "table_config" where
  "connectorTransactionsTableSchema = \<lparr>tableName = ''transactions'', primaryKey = [''transactionID''],
     schema = [\<lparr>col_name = ''transactionID'', col_type = ''string'', col_null = False, col_default = JNull\<rparr>,
       \<lparr>col_name = ''blockID'', col_type = ''string'', col_null = False, col_default = JNull\<rparr>],
     indexes = [(''blockID'', ''key'')],
     compositeIndexes = []\<rparr>"

definition getTickPriceTableSchema :: "string \<Rightarrow> table_config" where
  "getTickPriceTableSchema pair = \<lparr>tableName = ''tick_'' @ pair, primaryKey = [''time''],
     schema = [mk_col ''time'' ''integer'',
       mk_col ''value'' ''decimal''],
     indexes = [(''time'', ''key'')],
     compositeIndexes = []\<rparr>"

definition getOhlcTableSchema :: "string \<Rightarrow> string \<Rightarrow> table_config" where
  "getOhlcTableSchema pair timeframe = \<lparr>tableName = ''ohlc_'' @ pair @ ''_'' @ timeframe, primaryKey = [''time''],
     schema = [mk_col ''time'' ''integer'',
       mk_col ''open'' ''decimal'',
       mk_col ''high'' ''decimal'',
       mk_col ''low'' ''decimal'',
       mk_col ''close'' ''decimal''],
     indexes = [(''time'', ''key'')],
     compositeIndexes = []\<rparr>"

definition getPoolTickTableSchema :: "string \<Rightarrow> table_config" where
  "getPoolTickTableSchema poolAddress = \<lparr>tableName = ''tick_pool_'' @ poolAddress, primaryKey = [''tick''],
     schema = [mk_col ''tick'' ''integer'',
       mk_col ''liquidity'' ''decimal''],
     indexes = [(''tick'', ''key'')],
     compositeIndexes = []\<rparr>"

section \<open>Creation of a table\<close>

text \<open>The statements \<open>loadSchema\<close> sends: the creation of the table, if it is missing, and one
  statement for each composite index.\<close>

datatype ddl =
    CreateTable string "(column \<times> bool) list" "string list"
  | AddIndex string string "(string \<times> string) list"

definition loadSchema :: "table_config \<Rightarrow> string list \<Rightarrow> ddl list" where
  "loadSchema cfg existing =
     (if tableName cfg \<in> set existing then []
      else CreateTable (tableName cfg)
             (map (\<lambda>c. (c, col_name c \<in> fst ` set (indexes cfg))) (schema cfg)) (primaryKey cfg)
           # map (\<lambda>(key, directions). AddIndex (tableName cfg) (tableName cfg @ ''_index_'' @ key) directions)
               (compositeIndexes cfg))"

text \<open>What the database checks before it accepts the statements: distinct columns, key and index
  columns that exist, distinct index names.\<close>

fun ddl_ok :: "table_config \<Rightarrow> ddl \<Rightarrow> bool" where
  "ddl_ok cfg (CreateTable n cs pk) \<longleftrightarrow> distinct (map (col_name \<circ> fst) cs) \<and> pk \<noteq> [] \<and> distinct pk
     \<and> set pk \<subseteq> set (map (col_name \<circ> fst) cs)"
| "ddl_ok cfg (AddIndex n i ds) \<longleftrightarrow> set (map fst ds) \<subseteq> set (map col_name (schema cfg))
     \<and> set (map snd ds) \<subseteq> {''ASC'', ''DESC''}"

definition index_names :: "ddl list \<Rightarrow> string list" where
  "index_names ds = concat (map (\<lambda>d. case d of AddIndex n i _ \<Rightarrow> [i] | CreateTable _ _ _ \<Rightarrow> []) ds)"

definition indexer_schemas :: "table_config list" where
  "indexer_schemas = [accountBalancesTableSchema,
     accountsTableSchema,
     blockchainAppsTableSchema,
     blocksTableSchema,
     ccuTableSchema,
     commissionsTableSchema,
     eventTopicsTableSchema,
     eventsTableSchema,
     lastPriceTableSchema,
     multisignatureTableSchema,
     poolTableSchema,
     positionTableSchema,
     dexTokenTableSchema,
     stakesTableSchema,
     tickTableSchema,
     tokenFactoryTableSchema,
     tokenMetadataTableSchema,
     transactionsTableSchema,
     tvlTableSchema,
     validatorsTableSchema,
     volumeTableSchema]"

definition service_schemas :: "table_config list" where
  "service_schemas = [transactionStatisticsSchema,
     applicationMetadataIndexSchema,
     tokenMetadataIndexSchema,
     connectorBlocksTableSchema,
     connectorTransactionsTableSchema]"

lemmas schema_defs =
  accountBalancesTableSchema_def
  accountsTableSchema_def
  blockchainAppsTableSchema_def
  blocksTableSchema_def
  ccuTableSchema_def
  commissionsTableSchema_def
  eventTopicsTableSchema_def
  eventsTableSchema_def
  lastPriceTableSchema_def
  multisignatureTableSchema_def
  poolTableSchema_def
  positionTableSchema_def
  dexTokenTableSchema_def
  stakesTableSchema_def
  tickTableSchema_def
  tokenFactoryTableSchema_def
  tokenMetadataTableSchema_def
  transactionsTableSchema_def
  tvlTableSchema_def
  validatorsTableSchema_def
  volumeTableSchema_def
  transactionStatisticsSchema_def
  applicationMetadataIndexSchema_def
  tokenMetadataIndexSchema_def
  connectorBlocksTableSchema_def
  connectorTransactionsTableSchema_def
  getTickPriceTableSchema_def getOhlcTableSchema_def getPoolTickTableSchema_def mk_col_def

lemma config_wf_accountBalancesTableSchema: "config_wf accountBalancesTableSchema"
  by (simp add: config_wf_def schema_defs)

lemma config_wf_accountsTableSchema: "config_wf accountsTableSchema"
  by (simp add: config_wf_def schema_defs)

lemma config_wf_blockchainAppsTableSchema: "config_wf blockchainAppsTableSchema"
  by (simp add: config_wf_def schema_defs)

lemma config_wf_blocksTableSchema: "config_wf blocksTableSchema"
  by (simp add: config_wf_def schema_defs)

lemma config_wf_ccuTableSchema: "config_wf ccuTableSchema"
  by (simp add: config_wf_def schema_defs)

lemma config_wf_commissionsTableSchema: "config_wf commissionsTableSchema"
  by (simp add: config_wf_def schema_defs)

lemma config_wf_eventTopicsTableSchema: "config_wf eventTopicsTableSchema"
  by (simp add: config_wf_def schema_defs)

lemma config_wf_eventsTableSchema: "config_wf eventsTableSchema"
  by (simp add: config_wf_def schema_defs)

lemma config_wf_lastPriceTableSchema: "config_wf lastPriceTableSchema"
  by (simp add: config_wf_def schema_defs)

lemma config_wf_multisignatureTableSchema: "config_wf multisignatureTableSchema"
  by (simp add: config_wf_def schema_defs)

lemma config_wf_poolTableSchema: "config_wf poolTableSchema"
  by (simp add: config_wf_def schema_defs)

lemma config_wf_positionTableSchema: "config_wf positionTableSchema"
  by (simp add: config_wf_def schema_defs)

lemma config_wf_dexTokenTableSchema: "config_wf dexTokenTableSchema"
  by (simp add: config_wf_def schema_defs)

lemma config_wf_stakesTableSchema: "config_wf stakesTableSchema"
  by (simp add: config_wf_def schema_defs)

lemma config_wf_tickTableSchema: "config_wf tickTableSchema"
  by (simp add: config_wf_def schema_defs)

lemma config_wf_tokenFactoryTableSchema: "config_wf tokenFactoryTableSchema"
  by (simp add: config_wf_def schema_defs)

lemma config_wf_tokenMetadataTableSchema: "config_wf tokenMetadataTableSchema"
  by (simp add: config_wf_def schema_defs)

lemma config_wf_transactionsTableSchema: "config_wf transactionsTableSchema"
  by (simp add: config_wf_def schema_defs)

lemma config_wf_tvlTableSchema: "config_wf tvlTableSchema"
  by (simp add: config_wf_def schema_defs)

lemma config_wf_validatorsTableSchema: "config_wf validatorsTableSchema"
  by (simp add: config_wf_def schema_defs)

lemma config_wf_volumeTableSchema: "config_wf volumeTableSchema"
  by (simp add: config_wf_def schema_defs)

lemma config_wf_transactionStatisticsSchema: "config_wf transactionStatisticsSchema"
  by (simp add: config_wf_def schema_defs)

lemma config_wf_applicationMetadataIndexSchema: "config_wf applicationMetadataIndexSchema"
  by (simp add: config_wf_def schema_defs)

lemma config_wf_tokenMetadataIndexSchema: "config_wf tokenMetadataIndexSchema"
  by (simp add: config_wf_def schema_defs)

lemma config_wf_connectorBlocksTableSchema: "config_wf connectorBlocksTableSchema"
  by (simp add: config_wf_def schema_defs)

lemma config_wf_connectorTransactionsTableSchema: "config_wf connectorTransactionsTableSchema"
  by (simp add: config_wf_def schema_defs)

lemma config_wf_getTickPriceTableSchema: "config_wf (getTickPriceTableSchema pair)"
  by (simp add: config_wf_def schema_defs)

lemma config_wf_getOhlcTableSchema: "config_wf (getOhlcTableSchema pair timeframe)"
  by (simp add: config_wf_def schema_defs)

lemma config_wf_getPoolTickTableSchema: "config_wf (getPoolTickTableSchema poolAddress)"
  by (simp add: config_wf_def schema_defs)

text \<open>
  Every table description of the indexer can be created by the statements \<open>loadSchema\<close> sends:
  the columns are distinct, the key columns and the columns of the composite indexes exist, the
  names of the indexes are distinct, and the tables have distinct names. Exactly one declared
  single-column index is never created, the one on \<^verbatim>\<open>name\<close> of \<^verbatim>\<open>blockchain_apps\<close>, whose column
  is called \<^verbatim>\<open>chainName\<close>.
\<close>

theorem indexer_tables_creatable:
  "distinct (map tableName indexer_schemas)
   \<and> list_all (\<lambda>cfg. list_all (ddl_ok cfg) (loadSchema cfg []) \<and> distinct (index_names (loadSchema cfg []))) indexer_schemas
   \<and> concat (map (\<lambda>cfg. map (\<lambda>i. (tableName cfg, i)) (filter (\<lambda>i. i \<notin> set (map col_name (schema cfg))) (map fst (indexes cfg)))) indexer_schemas)
       = [(''blockchain_apps'', ''name'')]"
  by code_simp

section \<open>Every table provides the interface\<close>

interpretation accountBalances_tbl: keyed_table "sql_insert_merge accountBalancesTableSchema" "lookup_key accountBalancesTableSchema" "delete_key accountBalancesTableSchema"
  "new_key accountBalancesTableSchema" "fill_row accountBalancesTableSchema" merge_row given "table_wf accountBalancesTableSchema"
  by (rule keyed_table_config [OF config_wf_accountBalancesTableSchema])

interpretation accounts_tbl: keyed_table "sql_insert_merge accountsTableSchema" "lookup_key accountsTableSchema" "delete_key accountsTableSchema"
  "new_key accountsTableSchema" "fill_row accountsTableSchema" merge_row given "table_wf accountsTableSchema"
  by (rule keyed_table_config [OF config_wf_accountsTableSchema])

interpretation blockchainApps_tbl: keyed_table "sql_insert_merge blockchainAppsTableSchema" "lookup_key blockchainAppsTableSchema" "delete_key blockchainAppsTableSchema"
  "new_key blockchainAppsTableSchema" "fill_row blockchainAppsTableSchema" merge_row given "table_wf blockchainAppsTableSchema"
  by (rule keyed_table_config [OF config_wf_blockchainAppsTableSchema])

interpretation blocks_tbl: keyed_table "sql_insert_merge blocksTableSchema" "lookup_key blocksTableSchema" "delete_key blocksTableSchema"
  "new_key blocksTableSchema" "fill_row blocksTableSchema" merge_row given "table_wf blocksTableSchema"
  by (rule keyed_table_config [OF config_wf_blocksTableSchema])

interpretation ccu_tbl: keyed_table "sql_insert_merge ccuTableSchema" "lookup_key ccuTableSchema" "delete_key ccuTableSchema"
  "new_key ccuTableSchema" "fill_row ccuTableSchema" merge_row given "table_wf ccuTableSchema"
  by (rule keyed_table_config [OF config_wf_ccuTableSchema])

interpretation commissions_tbl: keyed_table "sql_insert_merge commissionsTableSchema" "lookup_key commissionsTableSchema" "delete_key commissionsTableSchema"
  "new_key commissionsTableSchema" "fill_row commissionsTableSchema" merge_row given "table_wf commissionsTableSchema"
  by (rule keyed_table_config [OF config_wf_commissionsTableSchema])

interpretation eventTopics_tbl: keyed_table "sql_insert_merge eventTopicsTableSchema" "lookup_key eventTopicsTableSchema" "delete_key eventTopicsTableSchema"
  "new_key eventTopicsTableSchema" "fill_row eventTopicsTableSchema" merge_row given "table_wf eventTopicsTableSchema"
  by (rule keyed_table_config [OF config_wf_eventTopicsTableSchema])

interpretation events_tbl: keyed_table "sql_insert_merge eventsTableSchema" "lookup_key eventsTableSchema" "delete_key eventsTableSchema"
  "new_key eventsTableSchema" "fill_row eventsTableSchema" merge_row given "table_wf eventsTableSchema"
  by (rule keyed_table_config [OF config_wf_eventsTableSchema])

interpretation lastPrice_tbl: keyed_table "sql_insert_merge lastPriceTableSchema" "lookup_key lastPriceTableSchema" "delete_key lastPriceTableSchema"
  "new_key lastPriceTableSchema" "fill_row lastPriceTableSchema" merge_row given "table_wf lastPriceTableSchema"
  by (rule keyed_table_config [OF config_wf_lastPriceTableSchema])

interpretation multisignature_tbl: keyed_table "sql_insert_merge multisignatureTableSchema" "lookup_key multisignatureTableSchema" "delete_key multisignatureTableSchema"
  "new_key multisignatureTableSchema" "fill_row multisignatureTableSchema" merge_row given "table_wf multisignatureTableSchema"
  by (rule keyed_table_config [OF config_wf_multisignatureTableSchema])

interpretation pool_tbl: keyed_table "sql_insert_merge poolTableSchema" "lookup_key poolTableSchema" "delete_key poolTableSchema"
  "new_key poolTableSchema" "fill_row poolTableSchema" merge_row given "table_wf poolTableSchema"
  by (rule keyed_table_config [OF config_wf_poolTableSchema])

interpretation position_tbl: keyed_table "sql_insert_merge positionTableSchema" "lookup_key positionTableSchema" "delete_key positionTableSchema"
  "new_key positionTableSchema" "fill_row positionTableSchema" merge_row given "table_wf positionTableSchema"
  by (rule keyed_table_config [OF config_wf_positionTableSchema])

interpretation dexToken_tbl: keyed_table "sql_insert_merge dexTokenTableSchema" "lookup_key dexTokenTableSchema" "delete_key dexTokenTableSchema"
  "new_key dexTokenTableSchema" "fill_row dexTokenTableSchema" merge_row given "table_wf dexTokenTableSchema"
  by (rule keyed_table_config [OF config_wf_dexTokenTableSchema])

interpretation stakes_tbl: keyed_table "sql_insert_merge stakesTableSchema" "lookup_key stakesTableSchema" "delete_key stakesTableSchema"
  "new_key stakesTableSchema" "fill_row stakesTableSchema" merge_row given "table_wf stakesTableSchema"
  by (rule keyed_table_config [OF config_wf_stakesTableSchema])

interpretation tick_tbl: keyed_table "sql_insert_merge tickTableSchema" "lookup_key tickTableSchema" "delete_key tickTableSchema"
  "new_key tickTableSchema" "fill_row tickTableSchema" merge_row given "table_wf tickTableSchema"
  by (rule keyed_table_config [OF config_wf_tickTableSchema])

interpretation tokenFactory_tbl: keyed_table "sql_insert_merge tokenFactoryTableSchema" "lookup_key tokenFactoryTableSchema" "delete_key tokenFactoryTableSchema"
  "new_key tokenFactoryTableSchema" "fill_row tokenFactoryTableSchema" merge_row given "table_wf tokenFactoryTableSchema"
  by (rule keyed_table_config [OF config_wf_tokenFactoryTableSchema])

interpretation tokenMetadata_tbl: keyed_table "sql_insert_merge tokenMetadataTableSchema" "lookup_key tokenMetadataTableSchema" "delete_key tokenMetadataTableSchema"
  "new_key tokenMetadataTableSchema" "fill_row tokenMetadataTableSchema" merge_row given "table_wf tokenMetadataTableSchema"
  by (rule keyed_table_config [OF config_wf_tokenMetadataTableSchema])

interpretation transactions_tbl: keyed_table "sql_insert_merge transactionsTableSchema" "lookup_key transactionsTableSchema" "delete_key transactionsTableSchema"
  "new_key transactionsTableSchema" "fill_row transactionsTableSchema" merge_row given "table_wf transactionsTableSchema"
  by (rule keyed_table_config [OF config_wf_transactionsTableSchema])

interpretation tvl_tbl: keyed_table "sql_insert_merge tvlTableSchema" "lookup_key tvlTableSchema" "delete_key tvlTableSchema"
  "new_key tvlTableSchema" "fill_row tvlTableSchema" merge_row given "table_wf tvlTableSchema"
  by (rule keyed_table_config [OF config_wf_tvlTableSchema])

interpretation validators_tbl: keyed_table "sql_insert_merge validatorsTableSchema" "lookup_key validatorsTableSchema" "delete_key validatorsTableSchema"
  "new_key validatorsTableSchema" "fill_row validatorsTableSchema" merge_row given "table_wf validatorsTableSchema"
  by (rule keyed_table_config [OF config_wf_validatorsTableSchema])

interpretation volume_tbl: keyed_table "sql_insert_merge volumeTableSchema" "lookup_key volumeTableSchema" "delete_key volumeTableSchema"
  "new_key volumeTableSchema" "fill_row volumeTableSchema" merge_row given "table_wf volumeTableSchema"
  by (rule keyed_table_config [OF config_wf_volumeTableSchema])

end
