(* ===== verification/KV_Store.thy ===== *)
theory KV_Store
  imports Schemas
begin

text \<open>
  \<^verbatim>\<open>framework/src/database/mysql/kvStore.js\<close>: the key-value table in which the services keep
  their progress and totals. Every value is stored as a string beside the name of its
  JavaScript type and converted back when it is read.
\<close>

section \<open>The store\<close>

definition keyValueStoreSchema :: table_config where
  "keyValueStoreSchema = \<lparr>tableName = ''key_value_store'', primaryKey = [''key''],
     schema = [mk_col ''key'' ''string'', mk_col ''value'' ''string'', mk_col ''type'' ''string''],
     indexes = [], compositeIndexes = []\<rparr>"

definition KV_STORE_ALLOWED_VALUE_TYPES :: "string list" where
  "KV_STORE_ALLOWED_VALUE_TYPES = [''boolean'', ''number'', ''bigint'', ''string'', ''undefined'']"

definition formatValue :: "jsval \<Rightarrow> jsval \<Rightarrow> jsval result" where
  "formatValue value type =
     (if type = JStr ''boolean'' then Inr (JBool (js_Boolean value))
      else if type = JStr ''number'' then Inr (js_Number value)
      else if type = JStr ''bigint'' then bindR (js_BigInt value) (\<lambda>n. Inr (JBig n))
      else if type = JStr ''string'' then Inr (JStr (js_String value))
      else if type = JStr ''undefined'' then Inr JUndefined
      else Inr value)"

text \<open>\<open>prefix\<close> is \<^verbatim>\<open>kvStoreConfig.prefix\<close>; a value of another type is logged and stored all the
  same.\<close>

definition kv_key :: "string \<Rightarrow> string \<Rightarrow> jsval" where
  "kv_key prefix key = JStr (prefix @ ''_'' @ key)"

definition kv_row :: "string \<Rightarrow> string \<Rightarrow> jsval \<Rightarrow> row" where
  "kv_row prefix key value =
     [(''key'', kv_key prefix key),
      (''value'', if value = JUndefined then value else JStr (js_String value)),
      (''type'', JStr (js_typeof value))]"

definition kv_set :: "string \<Rightarrow> string \<Rightarrow> jsval \<Rightarrow> bool \<Rightarrow> db \<Rightarrow> db result" where
  "kv_set prefix key value dbTrx d = upsert keyValueStoreSchema [kv_row prefix key value] dbTrx d"

definition kv_get :: "string \<Rightarrow> string \<Rightarrow> bool \<Rightarrow> db \<Rightarrow> jsval result" where
  "kv_get prefix key dbTrx d =
     bindR (find_tbl keyValueStoreSchema [(''key'', PVal (kv_key prefix key)), (''limit'', PVal (JNum 1))]
              (Some [''value'', ''type'']) dbTrx d) (\<lambda>rows.
       case rows of
         [] \<Rightarrow> formatValue JUndefined JUndefined
       | r # _ \<Rightarrow> formatValue (row_get r ''value'') (row_get r ''type''))"

definition kv_getByPattern :: "string \<Rightarrow> string \<Rightarrow> bool \<Rightarrow> db \<Rightarrow> (string \<times> jsval) list result" where
  "kv_getByPattern prefix pattern dbTrx d =
     bindR (find_tbl keyValueStoreSchema
              [(''search'', PSearch [\<lparr>se_property = ''key'', se_pattern = pattern, se_startsWith = [], se_endsWith = [], se_allowWildCards = False\<rparr>])]
              (Some [''key'', ''value'', ''type'']) dbTrx d) (\<lambda>rows.
       foldR (\<lambda>r acc. bindR (formatValue (row_get r ''value'') (row_get r ''type'')) (\<lambda>v.
                Inr (acc @ [(drop (length prefix + 1) (js_String (row_get r ''key'')), v)]))) rows [])"

definition kv_delete :: "string \<Rightarrow> string \<Rightarrow> bool \<Rightarrow> db \<Rightarrow> db result" where
  "kv_delete prefix key dbTrx d = deleteByPrimaryKey keyValueStoreSchema [Scalar (kv_key prefix key)] dbTrx d"

section \<open>Laws of the store\<close>

lemma config_typed_kv: "config_typed keyValueStoreSchema"
  by (simp add: config_typed_def config_wf_def keyValueStoreSchema_def mk_col_def cell_ok_def)

lemma config_wf_kv: "config_wf keyValueStoreSchema"
  using config_typed_kv by (simp add: config_typed_def)

interpretation kv_tbl: keyed_table "sql_insert_merge keyValueStoreSchema" "lookup_key keyValueStoreSchema"
  "delete_key keyValueStoreSchema" "new_key keyValueStoreSchema" "fill_row keyValueStoreSchema"
  merge_row given "table_wf keyValueStoreSchema"
  by (rule keyed_table_config [OF config_wf_kv])

text \<open>What the statement of \<open>kv_set\<close> writes.\<close>

definition kv_cells :: "string \<Rightarrow> string \<Rightarrow> jsval \<Rightarrow> row" where
  "kv_cells prefix key value =
     [(''key'', kv_key prefix key),
      (''value'', if value = JUndefined then JNull else JStr (js_String value)),
      (''type'', JStr (js_typeof value))]"

lemma kv_fill: "fill_row keyValueStoreSchema (kv_cells prefix key value) = kv_cells prefix key value"
  by (simp add: fill_row_def keyValueStoreSchema_def kv_cells_def mk_col_def)

lemma kv_new_key: "new_key keyValueStoreSchema (kv_cells prefix key value) = [kv_key prefix key]"
  unfolding new_key_def kv_fill by (simp add: row_key_def keyValueStoreSchema_def kv_cells_def row_get_def)

lemma kv_set_stmt:
  "kv_set prefix key value dbTrx d =
     Inr (run_stmt ''key_value_store'' dbTrx (sql_insert_merge keyValueStoreSchema (kv_cells prefix key value)) d)"
proof -
  have "mapRowsBySchema [kv_row prefix key value] (schema keyValueStoreSchema) = Inr [kv_cells prefix key value]"
    by (simp add: kv_row_def kv_cells_def keyValueStoreSchema_def mk_col_def cast_def getValue_def kv_key_def)
  moreover have "not_null_ok keyValueStoreSchema (kv_cells prefix key value)"
    unfolding not_null_ok_def kv_fill
    by (simp add: keyValueStoreSchema_def mk_col_def kv_cells_def kv_key_def row_get_def)
  ultimately show ?thesis by (simp add: kv_set_def upsert_def) (simp add: keyValueStoreSchema_def)
qed

lemma kv_get_lookup:
  assumes "table_typed keyValueStoreSchema (read_table ''key_value_store'' dbTrx d)"
  shows "kv_get prefix key dbTrx d =
     (case lookup_key keyValueStoreSchema [kv_key prefix key] (read_table ''key_value_store'' dbTrx d) of
        None \<Rightarrow> Inr JUndefined
      | Some r \<Rightarrow> formatValue (row_get r ''value'') (row_get r ''type''))"
proof -
  let ?t = "read_table ''key_value_store'' dbTrx d"
  have rows: "filter (\<lambda>r. sql_eq (row_get r ''key'') (kv_key prefix key)) ?t
      = (case lookup_key keyValueStoreSchema [kv_key prefix key] ?t of None \<Rightarrow> [] | Some r \<Rightarrow> [r])"
    unfolding kv_key_def
    by (rule filter_string_key [OF assms]) (simp_all add: keyValueStoreSchema_def mk_col_def)
  have find: "find_tbl keyValueStoreSchema [(''key'', PVal (kv_key prefix key)), (''limit'', PVal (JNum 1))]
              (Some [''value'', ''type'']) dbTrx d
     = Inr (map (\<lambda>r. [(''value'', row_get r ''value''), (''type'', row_get r ''type'')])
         (take 1 (filter (\<lambda>r. sql_eq (row_get r ''key'') (kv_key prefix key)) ?t)))"
    by (simp add: find_tbl_def find_query_simps kv_key_def keyValueStoreSchema_def)
  show ?thesis unfolding kv_get_def find rows
    by (cases "lookup_key keyValueStoreSchema [kv_key prefix key] ?t") (simp_all add: formatValue_def row_get_def)
qed

text \<open>What is read of a value that was written: \<^verbatim>\<open>Boolean('false')\<close> is \<^verbatim>\<open>true\<close>, and \<^verbatim>\<open>null\<close>, whose type is
  \<^verbatim>\<open>'object'\<close>, comes back as its string.\<close>

fun kv_read_back :: "jsval \<Rightarrow> jsval" where
  "kv_read_back (JBool b) = JBool True"
| "kv_read_back JNull = JStr ''null''"
| "kv_read_back v = v"

lemma format_stored:
  assumes "\<forall>n. v = JNum n \<longrightarrow> \<bar>n\<bar> < 2 ^ 53"
  shows "formatValue (if v = JUndefined then JNull else JStr (js_String v)) (JStr (js_typeof v)) = Inr (kv_read_back v)"
proof (cases v)
  case (JNum n)
  then show ?thesis using assms by (simp add: formatValue_def)
next
  case JNaN
  then show ?thesis by (simp add: formatValue_def parse_int_def is_digit_def)
qed (use assms in \<open>simp_all add: formatValue_def\<close>)

lemma kv_merge:
  "row_wf keyValueStoreSchema r \<Longrightarrow> merge_row r (kv_cells p k v) = kv_cells p k v"
  by (auto simp: row_wf_def keyValueStoreSchema_def mk_col_def merge_row_def kv_cells_def map_eq_Cons_conv)

lemma kv_lookup_set:
  assumes "table_typed keyValueStoreSchema t"
  shows "lookup_key keyValueStoreSchema [kv_key p k'] (sql_insert_merge keyValueStoreSchema (kv_cells p k v) t)
       = (if k' = k then Some (kv_cells p k v) else lookup_key keyValueStoreSchema [kv_key p k'] t)"
proof -
  have wf: "table_wf keyValueStoreSchema t" using assms by (simp add: table_typed_def)
  have "merge_row r (kv_cells p k v) = kv_cells p k v"
    if "lookup_key keyValueStoreSchema [kv_key p k] t = Some r" for r
    using that lookup_key_Some [OF wf] row_wf_of [OF wf] kv_merge by blast
  then show ?thesis using kv_tbl.look_upd [OF wf]
    by (auto simp: kv_new_key kv_fill kv_key_def split: option.splits)
qed

lemma table_typed_kv_set:
  "table_typed keyValueStoreSchema t \<Longrightarrow> table_typed keyValueStoreSchema (sql_insert_merge keyValueStoreSchema (kv_cells p k v) t)"
  by (rule table_typed_insert [OF config_typed_kv, where item = "kv_row p k v"])
    (simp_all add: kv_row_def kv_cells_def keyValueStoreSchema_def mk_col_def cast_def getValue_def kv_key_def)

lemma kv_get_format:
  "formatValue (row_get (kv_cells p k v) ''value'') (row_get (kv_cells p k v) ''type'')
     = formatValue (if v = JUndefined then JNull else JStr (js_String v)) (JStr (js_typeof v))"
  by (simp add: kv_cells_def row_get_def)

lemma kv_get_set_gen:
  assumes "db_typed keyValueStoreSchema d" and "kv_set p k v trx d = Inr d'"
  shows "kv_get p k' trx d' =
     (if k' = k then formatValue (if v = JUndefined then JNull else JStr (js_String v)) (JStr (js_typeof v))
      else kv_get p k' trx d)"
proof -
  let ?t = "read_table ''key_value_store'' trx d"
  have t: "table_typed keyValueStoreSchema ?t"
    using assms(1) by (simp add: db_typed_def read_table_def keyValueStoreSchema_def)
  have d': "read_table ''key_value_store'' trx d' = sql_insert_merge keyValueStoreSchema (kv_cells p k v) ?t"
    using assms(2) by (auto simp: kv_set_stmt run_stmt_def read_table_def)
  show ?thesis
    using kv_get_lookup [OF t] kv_get_lookup [of trx d', unfolded d', OF table_typed_kv_set [OF t]]
    by (simp add: kv_lookup_set [OF t] kv_get_format)
qed



text \<open>The string \<^verbatim>\<open>'false'\<close> is truthy: \<^verbatim>\<open>false\<close> is read back as \<^verbatim>\<open>true\<close>.\<close>

lemma kv_false_becomes_true:
  assumes "db_typed keyValueStoreSchema d" and "kv_set p k (JBool False) trx d = Inr d'"
  shows "kv_get p k trx d' = Inr (JBool True)"
  using kv_get_set_gen [OF assms] by (simp add: formatValue_def)

text \<open>A deleted key reads as \<^verbatim>\<open>undefined\<close>, and deleting needs no prior value.\<close>

lemma kv_delete_get:
  assumes "db_typed keyValueStoreSchema d"
  shows "\<exists>d'. kv_delete p k trx d = Inr d' \<and> kv_get p k trx d' = Inr JUndefined"
proof -
  let ?cfg = keyValueStoreSchema and ?t = "read_table ''key_value_store'' trx d"
  obtain d' where d': "kv_delete p k trx d = Inr d'"
    by (simp add: kv_delete_def deleteByPrimaryKey_def keyValueStoreSchema_def)
  have t: "read_table ''key_value_store'' trx d' = delete_key ?cfg [kv_key p k] ?t"
    using d' by (auto simp: kv_delete_def deleteByPrimaryKey_def read_table_def run_stmt_def delete_key_def keyValueStoreSchema_def)
  have "table_typed ?cfg (read_table ''key_value_store'' trx d')"
    using deleteByPrimaryKey_typed [OF assms d' [unfolded kv_delete_def]]
    by (simp add: db_typed_def read_table_def keyValueStoreSchema_def)
  then show ?thesis using d' by (simp add: kv_get_lookup t lookup_delete)
qed

end
