(* ===== verification/Events.thy ===== *)
theory Events
  imports KV_Store
begin

text \<open>
  \<^verbatim>\<open>indexer/utils/events.js\<close>: selection of the events of a transaction, the rows indexed for
  the events of a block, and the removal of serialized events of finalized blocks. The data
  object of an event is the list of its fields; reading a missing field gives \<^verbatim>\<open>undefined\<close>.
\<close>

section \<open>Events\<close>

record event =
  ev_id :: string
  ev_name :: string
  ev_module :: string
  ev_topics :: "string list option"
  ev_index :: int
  ev_height :: int
  ev_data :: row

text \<open>\<^verbatim>\<open>o.c\<close> for an object given by its fields\<close>

definition field :: "row \<Rightarrow> string \<Rightarrow> jsval" where
  "field r c = (case map_of r c of Some v \<Rightarrow> v | None \<Rightarrow> JUndefined)"

abbreviation data :: "event \<Rightarrow> string \<Rightarrow> jsval" where
  "data e c \<equiv> field (ev_data e) c"

definition TX_ID :: string where "TX_ID = ''04''"

definition CCM_ID :: string where "CCM_ID = ''05''"

definition LENGTH_ID :: nat where "LENGTH_ID = 32 * 2"

definition topics_include :: "event \<Rightarrow> string \<Rightarrow> bool result" where
  "topics_include e topic = (case ev_topics e of None \<Rightarrow> Inl TypeError | Some ts \<Rightarrow> Inr (topic \<in> set ts))"

text \<open>The predicate of both selections; a hole of the list is skipped.\<close>

definition event_matches :: "string \<Rightarrow> string \<Rightarrow> string option \<Rightarrow> event option \<Rightarrow> bool result" where
  "event_matches module name topic t = (case t of
     None \<Rightarrow> Inr False
   | Some e \<Rightarrow> (if ev_module e = module \<and> ev_name e = name
       then (case topic of Some tx \<Rightarrow> topics_include e (TX_ID @ tx) | None \<Rightarrow> Inr True)
       else Inr False))"

fun findR :: "('a \<Rightarrow> bool result) \<Rightarrow> 'a list \<Rightarrow> 'a option result" where
  "findR P [] = Inr None"
| "findR P (x # xs) = bindR (P x) (\<lambda>b. if b then Inr (Some x) else findR P xs)"

definition parseSingleEvent :: "event option list \<Rightarrow> string \<Rightarrow> string \<Rightarrow> string option \<Rightarrow> event option result" where
  "parseSingleEvent events module name topic =
     bindR (findR (event_matches module name topic) events) (\<lambda>e. Inr (Option.bind e (\<lambda>x. x)))"

definition parseEvents :: "event option list \<Rightarrow> string \<Rightarrow> string \<Rightarrow> string option \<Rightarrow> event list result" where
  "parseEvents events module name topic =
     bindR (filterR (event_matches module name topic) events) (\<lambda>es. Inr (List.map_filter (\<lambda>e. e) es))"

section \<open>Rows for the events of a block\<close>

record block =
  bl_id :: string
  bl_height :: int
  bl_timestamp :: int
  bl_isFinal :: bool

record events_info =
  eventsInfo :: "row list"
  eventTopicsInfo :: "row list"

definition event_row :: "bool \<Rightarrow> (event \<Rightarrow> string) \<Rightarrow> block \<Rightarrow> event \<Rightarrow> row" where
  "event_row isPersistEvents stringify block e =
     [(''id'', JStr (ev_id e)), (''name'', JStr (ev_name e)), (''module'', JStr (ev_module e)),
      (''height'', JNum (bl_height block)), (''index'', JNum (ev_index e)), (''blockID'', JStr (bl_id block)),
      (''timestamp'', JNum (bl_timestamp block))]
     @ (if \<not> bl_isFinal block \<or> isPersistEvents then [(''eventStr'', JStr (stringify e))] else [])"

definition topic_row :: "event \<Rightarrow> jsval \<Rightarrow> row" where
  "topic_row e topic = [(''eventID'', JStr (ev_id e)), (''topic'', topic)]"

text \<open>The first topic of the execution result that follows; the search does not skip holes.\<close>

definition transaction_topic :: "event option list \<Rightarrow> string result" where
  "transaction_topic later =
     bindR (findR (\<lambda>t. case t of None \<Rightarrow> Inl TypeError | Some e \<Rightarrow> Inr (ev_name e = ''commandExecutionResult'')) later) (\<lambda>r.
       case r of
         Some (Some e) \<Rightarrow> (case ev_topics e of
             Some (t # _) \<Rightarrow> Inr (if length t = length TX_ID + LENGTH_ID then drop (length TX_ID) t else t)
           | _ \<Rightarrow> Inl TypeError)
       | _ \<Rightarrow> Inl TypeError)"

definition topic_rows :: "event \<Rightarrow> event option list \<Rightarrow> string \<Rightarrow> row list result" where
  "topic_rows e later topic =
     (if take (length CCM_ID) topic = CCM_ID \<and> length topic = length CCM_ID + LENGTH_ID
      then bindR (transaction_topic later) (\<lambda>tx. Inr [topic_row e (JStr topic), topic_row e (JStr tx)])
      else Inr [topic_row e (JStr topic)])"

definition event_topic_rows :: "event \<Rightarrow> event option list \<Rightarrow> string list \<Rightarrow> row list result" where
  "event_topic_rows e later topics =
     bindR (foldR (\<lambda>topic acc. bindR (topic_rows e later topic) (\<lambda>rs. Inr (acc @ rs))) topics []) (\<lambda>rs.
       Inr (rs @ (if ev_module e = ''pos'' \<and> ev_name e = ''rewardsAssigned''
                  then [topic_row e (data e ''validatorAddress'')] else [])))"

fun events_loop :: "bool \<Rightarrow> (event \<Rightarrow> string) \<Rightarrow> block \<Rightarrow> event option list \<Rightarrow> events_info \<Rightarrow> events_info result" where
  "events_loop persist stringify block [] info = Inr info"
| "events_loop persist stringify block (None # es) info = events_loop persist stringify block es info"
| "events_loop persist stringify block (Some e # es) info =
     (case ev_topics e of
        None \<Rightarrow> events_loop persist stringify block es info
      | Some topics \<Rightarrow> bindR (event_topic_rows e (Some e # es) topics) (\<lambda>rs.
          events_loop persist stringify block es
            \<lparr>eventsInfo = eventsInfo info @ [event_row persist stringify block e],
             eventTopicsInfo = eventTopicsInfo info @ rs\<rparr>))"

definition getEventsInfoToIndex :: "bool \<Rightarrow> (event \<Rightarrow> string) \<Rightarrow> block \<Rightarrow> event option list \<Rightarrow> events_info result" where
  "getEventsInfoToIndex isPersistEvents stringify block events =
     events_loop isPersistEvents stringify block events \<lparr>eventsInfo = [], eventTopicsInfo = []\<rparr>"

section \<open>Removal of serialized events\<close>

definition LAST_DELETED_EVENTS_HEIGHT :: string where
  "LAST_DELETED_EVENTS_HEIGHT = ''lastDeletedEventsHeight''"

text \<open>\<^verbatim>\<open>fromHeight + 1\<close>\<close>

fun js_succ :: "jsval \<Rightarrow> jsval result" where
  "js_succ (JNum n) = Inr (JNum (n + 1))"
| "js_succ (JStr s) = Inr (JStr (s @ ''1''))"
| "js_succ (JBool b) = Inr (JNum (if b then 2 else 1))"
| "js_succ JNull = Inr (JNum 1)"
| "js_succ (JBig _) = Inl TypeError"
| "js_succ _ = Inr JNaN"

definition height_between :: "jsval \<Rightarrow> jsval \<Rightarrow> params" where
  "height_between a b = [(''propBetweens'', PBetweens [\<lparr>pb_property = ''height'', pb_from = Some a, pb_to = Some b,
     pb_greaterThanEqualTo = None, pb_lowerThanEqualTo = None, pb_greaterThan = None, pb_lowerThan = None\<rparr>])]"

definition deleteEventStrTillHeight :: "string \<Rightarrow> int \<Rightarrow> int \<Rightarrow> db \<Rightarrow> db result" where
  "deleteEventStrTillHeight prefix genesisHeight toHeight d =
     bindR (kv_get prefix LAST_DELETED_EVENTS_HEIGHT False d) (\<lambda>fromHeight.
       let d1 = startDBTransaction d;
           attempt = bindR (if js_Boolean fromHeight then js_succ fromHeight else Inr (JNum genesisHeight)) (\<lambda>a.
             bindR (update_tbl eventsTableSchema (height_between a (JNum toHeight)) [(''eventStr'', JNull)] True d1) (\<lambda>d2.
             kv_set prefix LAST_DELETED_EVENTS_HEIGHT (JNum toHeight) True d2))
       in Inr (case attempt of Inr d3 \<Rightarrow> commitDBTransaction d3 | Inl _ \<Rightarrow> rollbackDBTransaction d1))"

section \<open>Selection\<close>

lemma find_of_filterR:
  "filterR P xs = Inr ys \<Longrightarrow> findR P xs = Inr (case ys of [] \<Rightarrow> None | y # _ \<Rightarrow> Some y)"
proof (induction xs arbitrary: ys)
  case (Cons x xs)
  then obtain b zs where b: "P x = Inr b" "filterR P xs = Inr zs" "ys = (if b then x # zs else zs)"
    by (auto simp: bindR_eq_Inr)
  then show ?case using Cons.IH [OF b(2)] by simp
qed simp

lemma filterR_total: "(\<And>x. x \<in> set xs \<Longrightarrow> \<exists>b. P x = Inr b) \<Longrightarrow> \<exists>ys. filterR P xs = Inr ys"
proof (induction xs)
  case (Cons x xs)
  obtain b where "P x = Inr b" using Cons.prems [of x] by auto
  moreover obtain ys where "filterR P xs = Inr ys" using Cons.IH Cons.prems by (meson list.set_intros(2))
  ultimately show ?case by simp
qed simp

lemma set_map_filter_id: "set (List.map_filter (\<lambda>e. e) ys) = {e. Some e \<in> set ys}"
  by (induction ys) (auto simp: map_filter_simps split: option.splits)

definition event_of :: "string \<Rightarrow> string \<Rightarrow> string option \<Rightarrow> event \<Rightarrow> bool" where
  "event_of module name topic e \<longleftrightarrow> ev_module e = module \<and> ev_name e = name
     \<and> (case topic of None \<Rightarrow> True | Some tx \<Rightarrow> (\<exists>ts. ev_topics e = Some ts \<and> TX_ID @ tx \<in> set ts))"

lemma event_matches_True:
  "event_matches module name topic t = Inr True \<longleftrightarrow> (\<exists>e. t = Some e \<and> event_of module name topic e)"
  by (auto simp: event_matches_def event_of_def topics_include_def split: option.splits)

lemma event_matches_total:
  "(\<And>e. t = Some e \<Longrightarrow> ev_topics e \<noteq> None) \<Longrightarrow> \<exists>b. event_matches module name topic t = Inr b"
  by (auto simp: event_matches_def topics_include_def split: option.splits)

text \<open>
  Selecting events never fails on events that have topics, and the two selections agree: all
  matches are exactly the events of the module and name whose topics contain the prefixed
  transaction identifier, and the single match is the first of them, or none if there is none.
\<close>

theorem event_selection:
  assumes "\<forall>e. Some e \<in> set events \<longrightarrow> ev_topics e \<noteq> None"
  shows "\<exists>es. parseEvents events module name topic = Inr es
     \<and> set es = {e. Some e \<in> set events \<and> event_of module name topic e}
     \<and> parseSingleEvent events module name topic = Inr (case es of [] \<Rightarrow> None | e # _ \<Rightarrow> Some e)"
proof -
  let ?P = "event_matches module name topic"
  obtain ys where ys: "filterR ?P events = Inr ys"
    using filterR_total [of events ?P] event_matches_total assms by metis
  have set: "set ys = {t \<in> set events. ?P t = Inr True}" by (rule filterR_set [OF ys])
  have some: "\<exists>e. y = Some e" if "y \<in> set ys" for y using that set event_matches_True by blast
  have first: "Option.bind (case ys of [] \<Rightarrow> None | y # _ \<Rightarrow> Some y) (\<lambda>x. x)
      = (case List.map_filter (\<lambda>e. e) ys of [] \<Rightarrow> None | e # _ \<Rightarrow> Some e)"
    using some by (cases ys) (force simp: map_filter_simps)+
  have "set (List.map_filter (\<lambda>e. e) ys) = {e. Some e \<in> set events \<and> event_of module name topic e}"
    using set event_matches_True by (auto simp: set_map_filter_id)
  then show ?thesis using ys first
    by (auto simp: parseEvents_def parseSingleEvent_def find_of_filterR [OF ys])
qed

theorem event_selection_witness:
  "\<exists>es. parseEvents [None, Some \<lparr>ev_id = ''1'', ev_name = ''swap'', ev_module = ''dex'', ev_topics = Some [''04ab''], ev_index = 0, ev_height = 7, ev_data = []\<rparr>]
     ''dex'' ''swap'' (Some ''ab'') = Inr es \<and> length es > 0"
proof -
  let ?e = "\<lparr>ev_id = ''1'', ev_name = ''swap'', ev_module = ''dex'', ev_topics = Some [''04ab''], ev_index = 0, ev_height = 7, ev_data = []\<rparr>"
  obtain es where es: "parseEvents [None, Some ?e] ''dex'' ''swap'' (Some ''ab'') = Inr es"
    "set es = {e. Some e \<in> set [None, Some ?e] \<and> event_of ''dex'' ''swap'' (Some ''ab'') e}"
    using event_selection [of "[None, Some ?e]" "''dex''" "''swap''" "Some ''ab''"] by auto
  have "?e \<in> set es" unfolding es(2) by (simp add: event_of_def TX_ID_def)
  then show ?thesis using es(1) by (auto intro: length_pos_if_in_set)
qed

section \<open>The indexed rows\<close>

definition has_topics :: "event \<Rightarrow> bool" where
  "has_topics e \<longleftrightarrow> ev_topics e \<noteq> None"

definition ccm_topic :: "string \<Rightarrow> bool" where
  "ccm_topic t \<longleftrightarrow> take (length CCM_ID) t = CCM_ID \<and> length t = length CCM_ID + LENGTH_ID"

lemma topic_rows_member: "topic_rows e later t = Inr rs \<Longrightarrow> topic_row e (JStr t) \<in> set rs"
  by (auto simp: topic_rows_def bindR_eq_Inr split: if_splits)

lemma topic_fold_member:
  assumes "foldR (\<lambda>t acc. bindR (topic_rows e later t) (\<lambda>rs. Inr (acc @ rs))) ts acc = Inr rs"
  shows "set acc \<subseteq> set rs \<and> (\<forall>t \<in> set ts. topic_row e (JStr t) \<in> set rs)"
  using assms
proof (induction ts arbitrary: acc)
  case (Cons t ts)
  then obtain rs' where rs': "topic_rows e later t = Inr rs'"
    "foldR (\<lambda>t acc. bindR (topic_rows e later t) (\<lambda>rs. Inr (acc @ rs))) ts (acc @ rs') = Inr rs"
    by (auto simp: bindR_eq_Inr)
  then show ?case using Cons.IH [OF rs'(2)] topic_rows_member [OF rs'(1)] by auto
qed simp

lemma event_topic_rows_member:
  assumes "event_topic_rows e later ts = Inr rs"
  shows "\<forall>t \<in> set ts. topic_row e (JStr t) \<in> set rs"
  using assms topic_fold_member [of e later ts "[]"] by (auto simp: event_topic_rows_def bindR_eq_Inr)

lemma events_loop_rows:
  assumes "events_loop p s b evs info = Inr info'"
  shows "eventsInfo info' = eventsInfo info @ map (event_row p s b) (filter has_topics (List.map_filter (\<lambda>e. e) evs))
     \<and> set (eventTopicsInfo info) \<subseteq> set (eventTopicsInfo info')
     \<and> (\<forall>e ts t. Some e \<in> set evs \<longrightarrow> ev_topics e = Some ts \<longrightarrow> t \<in> set ts \<longrightarrow> topic_row e (JStr t) \<in> set (eventTopicsInfo info'))"
  using assms
proof (induction p s b evs info rule: events_loop.induct)
  case (3 p s b e es info)
  show ?case
  proof (cases "ev_topics e")
    case None
    then show ?thesis using 3 by (auto simp: map_filter_simps has_topics_def)
  next
    case (Some topics)
    then obtain rs where rs: "event_topic_rows e (Some e # es) topics = Inr rs"
      and rest: "events_loop p s b es \<lparr>eventsInfo = eventsInfo info @ [event_row p s b e], eventTopicsInfo = eventTopicsInfo info @ rs\<rparr> = Inr info'"
      using 3(3) by (auto simp: bindR_eq_Inr)
    show ?thesis using 3(2) [OF Some rs rest] event_topic_rows_member [OF rs] Some
      by (auto simp: map_filter_simps has_topics_def)
  qed
qed (simp_all add: map_filter_simps)

text \<open>A block in which every cross-chain message event is followed by an execution result that
  names its transaction.\<close>

fun ccm_closed :: "event option list \<Rightarrow> bool" where
  "ccm_closed [] = True"
| "ccm_closed (None # es) = False"
| "ccm_closed (Some e # es) = (((\<exists>ts. ev_topics e = Some ts \<and> list_ex ccm_topic ts) \<longrightarrow>
       (\<exists>tx. transaction_topic (Some e # es) = Inr tx)) \<and> ccm_closed es)"

lemma topic_rows_total:
  assumes "ccm_topic t \<Longrightarrow> \<exists>tx. transaction_topic later = Inr tx"
  shows "\<exists>rs. topic_rows e later t = Inr rs"
  using assms by (auto simp: topic_rows_def ccm_topic_def)

lemma event_topic_rows_total:
  assumes "list_ex ccm_topic ts \<Longrightarrow> \<exists>tx. transaction_topic later = Inr tx"
  shows "\<exists>rs. event_topic_rows e later ts = Inr rs"
proof -
  have "\<exists>rs. foldR (\<lambda>t acc. bindR (topic_rows e later t) (\<lambda>rs. Inr (acc @ rs))) ts acc = Inr rs" for acc
    using assms
  proof (induction ts arbitrary: acc)
    case (Cons t ts)
    obtain rs where "topic_rows e later t = Inr rs" using topic_rows_total [of t later e] Cons.prems by auto
    then show ?case using Cons by auto
  qed simp
  then obtain rs where "foldR (\<lambda>t acc. bindR (topic_rows e later t) (\<lambda>rs. Inr (acc @ rs))) ts [] = Inr rs" by blast
  then show ?thesis by (simp add: event_topic_rows_def)
qed

lemma events_loop_total: "ccm_closed evs \<Longrightarrow> \<exists>info'. events_loop p s b evs info = Inr info'"
proof (induction evs arbitrary: info rule: ccm_closed.induct)
  case (3 e es)
  show ?case
  proof (cases "ev_topics e")
    case None
    then show ?thesis using 3 by simp
  next
    case (Some ts)
    obtain rs where "event_topic_rows e (Some e # es) ts = Inr rs"
      using event_topic_rows_total [of ts "Some e # es" e] 3(2) Some by auto
    then show ?thesis using 3 Some by simp
  qed
qed simp_all

text \<open>
  Indexing the events of a block in which every cross-chain message event is followed by the
  execution result of its transaction always succeeds. There is one row for each event that has
  topics, in their order, it carries the serialized event exactly when the block is not final or
  persistence is configured, and every topic of every event is indexed for that event.
\<close>

theorem events_indexed:
  assumes "ccm_closed evs"
  shows "\<exists>info. getEventsInfoToIndex p s b evs = Inr info
     \<and> eventsInfo info = map (event_row p s b) (filter has_topics (List.map_filter (\<lambda>e. e) evs))
     \<and> (\<forall>r \<in> set (eventsInfo info). (''eventStr'' \<in> given r) = (\<not> bl_isFinal b \<or> p))
     \<and> (\<forall>e ts t. Some e \<in> set evs \<longrightarrow> ev_topics e = Some ts \<longrightarrow> t \<in> set ts \<longrightarrow> topic_row e (JStr t) \<in> set (eventTopicsInfo info))"
proof -
  obtain info where info: "getEventsInfoToIndex p s b evs = Inr info"
    using events_loop_total [OF assms] unfolding getEventsInfoToIndex_def by blast
  have "(''eventStr'' \<in> given (event_row p s b e)) = (\<not> bl_isFinal b \<or> p)" for e
    by (auto simp: event_row_def)
  then show ?thesis using info events_loop_rows [OF info [unfolded getEventsInfoToIndex_def]] by auto
qed

theorem events_indexed_witness:
  "\<exists>info. getEventsInfoToIndex False (\<lambda>_. ''{}'') \<lparr>bl_id = ''b'', bl_height = 5, bl_timestamp = 9, bl_isFinal = False\<rparr>
     [Some \<lparr>ev_id = ''1'', ev_name = ''swap'', ev_module = ''dex'', ev_topics = Some [''04ab''], ev_index = 0, ev_height = 5, ev_data = []\<rparr>] = Inr info
     \<and> length (eventsInfo info) = 1"
proof -
  let ?evs = "[Some \<lparr>ev_id = ''1'', ev_name = ''swap'', ev_module = ''dex'', ev_topics = Some [''04ab''], ev_index = 0, ev_height = 5, ev_data = []\<rparr>]"
  have "ccm_closed ?evs" by (simp add: ccm_topic_def CCM_ID_def)
  from events_indexed [OF this] show ?thesis by (fastforce simp: map_filter_simps has_topics_def)
qed

section \<open>Pruning\<close>

lemma prune_query:
  "queryBuilder False (height_between a b) = Inr (\<lambda>r. sql_leq a (row_get r ''height'') \<and> sql_leq (row_get r ''height'') b)"
proof -
  have "queryBuilder False (height_between a b) = Inr (eval_where
      [both (\<lambda>r. sql_leq a (row_get r ''height'')), both (\<lambda>r. sql_leq (row_get r ''height'') b)])"
    by (simp add: height_between_def find_query_simps between_clauses_def eq_clauses_def Let_def)
  moreover have "eval_where [both P, both Q] = (\<lambda>r. P r \<and> Q r)" for P Q by (rule ext) simp
  ultimately show ?thesis by simp
qed

text \<open>Where pruning starts, given the height stored by the last run.\<close>

definition prune_from :: "jsval \<Rightarrow> int \<Rightarrow> int" where
  "prune_from v genesis = (case v of JNum n \<Rightarrow> (if n = 0 then genesis else n + 1) | _ \<Rightarrow> genesis)"

definition prune_row :: "int \<Rightarrow> int \<Rightarrow> row \<Rightarrow> row" where
  "prune_row a b r = (if sql_leq (JNum a) (row_get r ''height'') \<and> sql_leq (row_get r ''height'') (JNum b)
     then merge_row r [(''eventStr'', JNull)] else r)"

text \<open>
  Removing serialized events up to a height always succeeds and commits: exactly the events
  from just above the height of the last run (or from the genesis height, at the first run) up
  to the new height lose their serialized form, all other events keep theirs, and the height is
  remembered for the next run.
\<close>

theorem deleteEventStr_prunes:
  assumes "db_typed keyValueStoreSchema d"
    and "kv_get prefix LAST_DELETED_EVENTS_HEIGHT False d = Inr v" and "v = JUndefined \<or> (\<exists>n. v = JNum n)"
    and "\<bar>toHeight\<bar> < 2 ^ 53"
  shows "\<exists>d'. deleteEventStrTillHeight prefix genesis toHeight d = Inr d'
     \<and> committed d' ''events'' = map (prune_row (prune_from v genesis) toHeight) (committed d ''events'')
     \<and> kv_get prefix LAST_DELETED_EVENTS_HEIGHT False d' = Inr (JNum toHeight)
     \<and> working d' = committed d'"
proof -
  let ?a = "prune_from v genesis"
  define d1 where "d1 = startDBTransaction d"
  define d2 where "d2 = run_stmt ''events'' True (map (prune_row ?a toHeight)) d1"
  have a: "(if js_Boolean v then js_succ v else Inr (JNum genesis)) = Inr (JNum ?a)"
    using assms(3) by (auto simp: prune_from_def)
  have upd: "update_tbl eventsTableSchema (height_between (JNum ?a) (JNum toHeight)) [(''eventStr'', JNull)] True d1 = Inr d2"
    by (simp add: update_tbl_def prune_query d2_def eventsTableSchema_def sql_update_def [abs_def] prune_row_def [abs_def])
  have t2: "db_typed keyValueStoreSchema d2"
    using assms(1) by (simp add: db_typed_def d2_def d1_def run_stmt_def startDBTransaction_def keyValueStoreSchema_def)
  obtain d3 where d3: "kv_set prefix LAST_DELETED_EVENTS_HEIGHT (JNum toHeight) True d2 = Inr d3"
    by (simp add: kv_set_stmt)
  have get: "kv_get prefix LAST_DELETED_EVENTS_HEIGHT True d3 = Inr (JNum toHeight)"
    using kv_get_set_gen [OF t2 d3] format_stored [of "JNum toHeight"] assms(4) by simp
  have "deleteEventStrTillHeight prefix genesis toHeight d = Inr (commitDBTransaction d3)"
    by (simp add: deleteEventStrTillHeight_def assms(2) Let_def a upd d3 d1_def [symmetric])
  moreover have "working d3 ''events'' = map (prune_row ?a toHeight) (committed d ''events'')"
    using d3 by (auto simp: kv_set_stmt run_stmt_def d2_def d1_def startDBTransaction_def)
  moreover have "kv_get prefix LAST_DELETED_EVENTS_HEIGHT False (commitDBTransaction d3) = Inr (JNum toHeight)"
    using get by (simp add: kv_get_def find_tbl_def read_table_def commitDBTransaction_def)
  ultimately show ?thesis by (auto simp: commitDBTransaction_def)
qed

theorem deleteEventStr_prunes_witness:
  "\<exists>d'. deleteEventStrTillHeight ''p'' 0 12 \<lparr>committed = (\<lambda>_. []), working = (\<lambda>_. [])\<rparr> = Inr d'
     \<and> kv_get ''p'' LAST_DELETED_EVENTS_HEIGHT False d' = Inr (JNum 12)"
proof -
  let ?d = "\<lparr>committed = (\<lambda>_. []), working = (\<lambda>_. [])\<rparr> :: db"
  have t: "db_typed keyValueStoreSchema ?d" by (simp add: db_typed_def table_typed_def table_wf_def)
  have "kv_get ''p'' LAST_DELETED_EVENTS_HEIGHT False ?d = Inr JUndefined"
    using kv_get_lookup [of False ?d] by (simp add: read_table_def lookup_key_def table_typed_def table_wf_def)
  from deleteEventStr_prunes [OF t this, of 12 0] show ?thesis by auto
qed

end
