(* ===== verification/Export_Entries.thy ===== *)
theory Export_Entries
  imports Events
begin

text \<open>
  The export service, \<^verbatim>\<open>services/export/shared\<close>, first part: the lines of an account history.
  \<^verbatim>\<open>getEntriesByChronology\<close> walks through the events of a day and writes lines for transfers, fees, cross-chain messages,
  rewards and punishments. All values are what the indexer answers; the moment library, the
  address library and the indexer are fields of the environment.
\<close>

section \<open>Data\<close>

text \<open>An event as the indexer answers it: \<open>ev_blockID\<close> is \<^verbatim>\<open>block.id\<close>, \<open>ev_ccm\<close> the object \<^verbatim>\<open>data.ccm\<close>.\<close>

record export_event = event +
  ev_blockID :: string
  ev_ccm :: "row option"

text \<open>
  \<open>xt_sender_publicKey\<close> is \<^verbatim>\<open>sender.publicKey\<close>, \<open>xt_recipient_publicKey\<close> is
  \<^verbatim>\<open>meta.recipient.publicKey\<close>, \<^verbatim>\<open>undefined\<close> where an object on the way is missing.
\<close>

record export_tx =
  xt_id :: string
  xt_moduleCommand :: string
  xt_executionStatus :: string
  xt_fee :: jsval
  xt_params :: row
  xt_sender_address :: jsval
  xt_sender_publicKey :: jsval
  xt_senderPublicKey :: jsval
  xt_recipient_publicKey :: jsval
  xt_block_id :: string
  xt_block_height :: int
  xt_block_timestamp :: int
  xt_sendingChainID :: jsval
  isSelfTokenTransferCredit :: bool
  isIncomingCrossChainTransferTransaction :: bool

record export_block =
  xb_id :: string
  xb_height :: int
  xb_timestamp :: int
  xb_generator_publicKey :: jsval

record export_entry =
  xe_date :: jsval
  xe_time :: jsval
  xe_blockHeight :: jsval
  xe_transactionID :: jsval
  xe_moduleCommand :: jsval
  xe_fee :: jsval
  xe_txFeeTokenID :: jsval
  xe_amount :: jsval
  xe_amountTokenID :: jsval
  xe_senderAddress :: jsval
  xe_senderPublicKey :: jsval
  xe_recipientAddress :: jsval
  xe_recipientPublicKey :: jsval
  xe_note :: jsval
  xe_sendingChainID :: jsval
  xe_receivingChainID :: jsval

record export_params =
  xp_address :: jsval
  xp_publicKey :: jsval
  xp_interval :: jsval

record entry_env =
  dateFromTimestamp :: "int \<Rightarrow> string"
  timeFromTimestamp :: "int \<Rightarrow> string"
  publicKey_address :: "string \<Rightarrow> string"
  currentChain :: string
  feeTokenID :: string
  posTokenID :: string
  events_at :: "int \<Rightarrow> export_event list result"
  all_events_at :: "int \<Rightarrow> export_event list result"
  transactions_by_id :: "string option \<Rightarrow> export_tx list result"
  blocks_by_id :: "string \<Rightarrow> export_block list result"

type_synonym pk_cache = "string \<rightharpoonup> string"

section \<open>Helpers\<close>

definition TRANSFER :: string where "TRANSFER = ''token:transfer''"

definition TRANSFER_CROSS_CHAIN :: string where "TRANSFER_CROSS_CHAIN = ''token:transferCrossChain''"

definition LENGTH_DEFAULT_TOPIC :: nat where "LENGTH_DEFAULT_TOPIC = 1 * 2"

abbreviation xt_param :: "export_tx \<Rightarrow> string \<Rightarrow> jsval" where
  "xt_param tx c \<equiv> field (xt_params tx) c"

definition js_big :: "int \<Rightarrow> jsval" where "js_big n = JStr (show_int n)"

definition getAddressFromParams :: "entry_env \<Rightarrow> export_params \<Rightarrow> jsval result" where
  "getAddressFromParams env params =
     (if js_Boolean (xp_address params) then Inr (xp_address params)
      else case xp_publicKey params of JStr k \<Rightarrow> Inr (JStr (publicKey_address env k)) | _ \<Rightarrow> Inl TypeError)"

text \<open>The promise of \<^verbatim>\<open>cachePublicKey\<close> is not awaited; for a missing key it is rejected without an effect.\<close>

definition cachePublicKey :: "entry_env \<Rightarrow> jsval \<Rightarrow> pk_cache \<Rightarrow> pk_cache" where
  "cachePublicKey env k c = (case k of JStr s \<Rightarrow> c(publicKey_address env s \<mapsto> s) | _ \<Rightarrow> c)"

definition cache_present :: "entry_env \<Rightarrow> jsval \<Rightarrow> pk_cache \<Rightarrow> pk_cache" where
  "cache_present env k c = (if js_Boolean k then cachePublicKey env k c else c)"

definition getPublicKeyByAddress :: "pk_cache \<Rightarrow> jsval \<Rightarrow> jsval" where
  "getPublicKeyByAddress c a =
     (case a of JStr s \<Rightarrow> (case c s of Some k \<Rightarrow> if k \<noteq> [] then JStr k else JNull | None \<Rightarrow> JNull) | _ \<Rightarrow> JNull)"

definition topic_id :: "string \<Rightarrow> string \<Rightarrow> string option" where
  "topic_id prefix topic0 =
     (if take (length prefix) topic0 = prefix \<and> length topic0 = length prefix + LENGTH_ID then Some (drop (length prefix) topic0) else None)"

definition getTransactionIDFromTopic0 :: "string \<Rightarrow> string option" where
  "getTransactionIDFromTopic0 = topic_id TX_ID"

definition getCcmIDFromTopic0 :: "string \<Rightarrow> string option" where
  "getCcmIDFromTopic0 = topic_id CCM_ID"

text \<open>\<^verbatim>\<open>e.topics[0]\<close>, on which a string method is called next.\<close>

definition topic0_of :: "export_event \<Rightarrow> string result" where
  "topic0_of e = (case ev_topics e of Some (t # _) \<Rightarrow> Inr t | _ \<Rightarrow> Inl TypeError)"

definition resolveReceivingChainID :: "export_tx \<Rightarrow> string \<Rightarrow> jsval" where
  "resolveReceivingChainID tx currentChainID =
     (if xt_moduleCommand tx = TRANSFER_CROSS_CHAIN then xt_param tx ''receivingChainID'' else JStr currentChainID)"

definition resolveChainIDs :: "export_tx \<Rightarrow> string \<Rightarrow> jsval \<times> jsval" where
  "resolveChainIDs tx currentChainID =
     (if xt_moduleCommand tx = TRANSFER \<or> xt_moduleCommand tx = TRANSFER_CROSS_CHAIN \<or> isIncomingCrossChainTransferTransaction tx
      then (js_or (xt_sendingChainID tx) (JStr currentChainID), resolveReceivingChainID tx currentChainID)
      else (JStr currentChainID, JStr currentChainID))"

definition add_chain :: "jsval \<Rightarrow> jsval list \<Rightarrow> jsval list" where
  "add_chain c cs = (if js_Boolean c \<and> c \<notin> set cs then cs @ [c] else cs)"

definition getUniqueChainIDs :: "export_entry list \<Rightarrow> jsval list" where
  "getUniqueChainIDs txs = fold (\<lambda>tx cs. add_chain (xe_receivingChainID tx) (add_chain (xe_sendingChainID tx) cs)) txs []"

definition normalizeTransactionAmount :: "jsval \<Rightarrow> export_tx \<Rightarrow> string \<Rightarrow> jsval result" where
  "normalizeTransactionAmount address tx currentChainID =
     (if xt_moduleCommand tx \<notin> {TRANSFER, TRANSFER_CROSS_CHAIN} \<or> xt_executionStatus tx \<noteq> ''successful'' then Inr JNull
      else bindR (js_BigInt (xt_param tx ''amount'')) (\<lambda>amount.
        if xt_moduleCommand tx = TRANSFER_CROSS_CHAIN
        then Inr (js_big ((if xt_param tx ''receivingChainID'' \<noteq> JStr currentChainID then - 1 else 1) * amount))
        else let isRecipient = (address = xt_param tx ''recipientAddress'');
                 isSelfTransfer = (xt_sender_address tx = xt_param tx ''recipientAddress'')
             in Inr (js_big ((if (isRecipient \<and> \<not> isSelfTransfer) \<or> (isRecipient \<and> isSelfTransfer \<and> isSelfTokenTransferCredit tx)
                               \<or> isIncomingCrossChainTransferTransaction tx then 1 else - 1) * amount))))"

definition normalizeTransactionFee :: "jsval \<Rightarrow> export_tx \<Rightarrow> jsval result" where
  "normalizeTransactionFee addressFromParams tx =
     bindR (js_BigInt (xt_fee tx)) (\<lambda>fee.
       if xt_moduleCommand tx \<noteq> TRANSFER then Inr (js_big (- 1 * fee))
       else if addressFromParams = xt_param tx ''recipientAddress'' \<or> isIncomingCrossChainTransferTransaction tx then Inr (js_big 0)
       else Inr (js_big (- 1 * fee)))"

definition normalizeMessageFee :: "export_tx \<Rightarrow> jsval result" where
  "normalizeMessageFee tx = bindR (js_BigInt (xt_param tx ''messageFee'')) (\<lambda>fee. Inr (js_big (- 1 * fee)))"

definition checkIfSelfTokenTransfer :: "export_tx \<Rightarrow> bool" where
  "checkIfSelfTokenTransfer tx \<longleftrightarrow> xt_moduleCommand tx = TRANSFER \<and> xt_sender_address tx = xt_param tx ''recipientAddress''"

text \<open>\<^verbatim>\<open>findIndex\<close> always finds the element itself.\<close>

fun first_index :: "'a \<Rightarrow> 'a list \<Rightarrow> nat" where
  "first_index v [] = 0"
| "first_index v (x # xs) = (if v = x then 0 else Suc (first_index v xs))"

definition dropDuplicatesDeep :: "'a list \<Rightarrow> 'a list" where
  "dropDuplicatesDeep arr = map snd (filter (\<lambda>(i, v). first_index v arr = i) (enumerate 0 arr))"

section \<open>Lines\<close>

text \<open>The fields that all lines of a block share; the others are \<^verbatim>\<open>null\<close> unless they are set.\<close>

definition entry_at :: "entry_env \<Rightarrow> int \<Rightarrow> int \<Rightarrow> jsval \<Rightarrow> export_entry" where
  "entry_at env timestamp height txID =
     \<lparr>xe_date = JStr (dateFromTimestamp env timestamp), xe_time = JStr (timeFromTimestamp env timestamp), xe_blockHeight = JNum height,
      xe_transactionID = txID, xe_moduleCommand = JNull, xe_fee = JNull, xe_txFeeTokenID = JNull, xe_amount = JNull, xe_amountTokenID = JNull,
      xe_senderAddress = JNull, xe_senderPublicKey = JNull, xe_recipientAddress = JNull, xe_recipientPublicKey = JNull, xe_note = JNull,
      xe_sendingChainID = JNull, xe_receivingChainID = JNull\<rparr>"

text \<open>The block may be \<^verbatim>\<open>undefined\<close>; it is first used when a line is written.\<close>

definition block_entry :: "entry_env \<Rightarrow> export_block option \<Rightarrow> jsval \<Rightarrow> export_entry result" where
  "block_entry env b txID = (case b of Some b \<Rightarrow> Inr (entry_at env (xb_timestamp b) (xb_height b) txID) | None \<Rightarrow> Inl TypeError)"

definition local_entry :: "entry_env \<Rightarrow> export_entry \<Rightarrow> export_entry" where
  "local_entry env e = e\<lparr>xe_sendingChainID := JStr (currentChain env), xe_receivingChainID := JStr (currentChain env)\<rparr>"

definition formatTransaction :: "entry_env \<Rightarrow> jsval \<Rightarrow> export_tx \<Rightarrow> string \<Rightarrow> string \<Rightarrow> pk_cache \<Rightarrow> (export_entry \<times> pk_cache) result" where
  "formatTransaction env addressFromParams tx currentChainID txFeeTokenID c =
     bindR (normalizeTransactionAmount addressFromParams tx currentChainID) (\<lambda>amount.
     bindR (normalizeTransactionFee addressFromParams tx) (\<lambda>fee.
     let recipientAddress = js_or (xt_param tx ''recipientAddress'') JNull;
         recipientPublicKey = js_or (xt_recipient_publicKey tx) (getPublicKeyByAddress c recipientAddress);
         (sendingChainID, receivingChainID) = resolveChainIDs tx currentChainID
     in Inr ((entry_at env (xt_block_timestamp tx) (xt_block_height tx) (JStr (xt_id tx)))
          \<lparr>xe_moduleCommand := JStr (xt_moduleCommand tx), xe_fee := fee, xe_txFeeTokenID := JStr txFeeTokenID, xe_amount := amount,
           xe_amountTokenID := xt_param tx ''tokenID'', xe_senderAddress := xt_sender_address tx, xe_senderPublicKey := xt_senderPublicKey tx,
           xe_recipientAddress := recipientAddress, xe_recipientPublicKey := recipientPublicKey, xe_note := js_or (xt_param tx ''data'') JNull,
           xe_sendingChainID := sendingChainID, xe_receivingChainID := receivingChainID\<rparr>,
         cache_present env recipientPublicKey (cache_present env (xt_senderPublicKey tx) c))))"

definition getGeneratorFeeEntries :: "entry_env \<Rightarrow> jsval \<Rightarrow> export_event \<Rightarrow> export_tx \<Rightarrow> export_block option \<Rightarrow> pk_cache \<Rightarrow> (export_entry list \<times> pk_cache) result" where
  "getGeneratorFeeEntries env addressFromParams ev tx b c =
     (let c = cachePublicKey env (xt_sender_publicKey tx) c; generatorAddress = field (ev_data ev) ''generatorAddress'' in
      if generatorAddress \<noteq> addressFromParams then Inr ([], c)
      else bindR (js_BigInt (field (ev_data ev) ''generatorAmount'')) (\<lambda>generatorAmount.
        if generatorAmount = 0 then Inr ([], c)
        else bindR (block_entry env b (JStr (xt_id tx))) (\<lambda>e.
          Inr ([local_entry env (e\<lparr>xe_amount := js_big generatorAmount, xe_amountTokenID := JStr (feeTokenID env),
                     xe_senderAddress := field (ev_data ev) ''senderAddress'', xe_senderPublicKey := xt_sender_publicKey tx,
                     xe_recipientAddress := generatorAddress, xe_recipientPublicKey := getPublicKeyByAddress c generatorAddress,
                     xe_note := JStr ''Generator Fee''\<rparr>)], c))))"

definition ccm_field :: "export_event \<Rightarrow> string \<Rightarrow> jsval result" where
  "ccm_field ev k = (case ev_ccm ev of Some r \<Rightarrow> Inr (field r k) | None \<Rightarrow> Inl TypeError)"

definition getOutgoingTransferCCEntries ::
  "entry_env \<Rightarrow> jsval \<Rightarrow> export_event \<Rightarrow> export_event option \<Rightarrow> export_tx \<Rightarrow> export_block option \<Rightarrow> pk_cache \<Rightarrow> (export_entry list \<times> pk_cache) result" where
  "getOutgoingTransferCCEntries env addressFromParams transferEvent sendEvent tx b c0 =
     (let senderPublicKey = xt_sender_publicKey tx; recipientPublicKey = xt_recipient_publicKey tx;
          c = cache_present env recipientPublicKey (cache_present env senderPublicKey c0) in
      bindR (normalizeTransactionFee addressFromParams tx) (\<lambda>fee.
      bindR (normalizeTransactionAmount addressFromParams tx (currentChain env)) (\<lambda>amount.
      bindR (block_entry env b (JStr (xt_id tx))) (\<lambda>e.
      let transfer = e\<lparr>xe_moduleCommand := JStr (xt_moduleCommand tx), xe_fee := fee,
            xe_txFeeTokenID := JStr (feeTokenID env), xe_amount := amount, xe_amountTokenID := xt_param tx ''tokenID'',
            xe_senderAddress := addressFromParams, xe_senderPublicKey := senderPublicKey, xe_recipientAddress := xt_param tx ''recipientAddress'',
            xe_recipientPublicKey := js_or recipientPublicKey (getPublicKeyByAddress c (xt_param tx ''recipientAddress'')),
            xe_note := xt_param tx ''data'', xe_sendingChainID := JStr (currentChain env),
            xe_receivingChainID := field (ev_data transferEvent) ''receivingChainID''\<rparr> in
      case sendEvent of None \<Rightarrow> Inr ([transfer], c)
      | Some ev \<Rightarrow>
          bindR (normalizeMessageFee tx) (\<lambda>messageFee.
          bindR (ccm_field ev ''receivingChainID'') (\<lambda>receiving.
            Inr ([transfer, e\<lparr>xe_amount := messageFee, xe_amountTokenID := xt_param tx ''messageFeeTokenID'',
              xe_senderAddress := xt_sender_address tx, xe_senderPublicKey := senderPublicKey, xe_note := JStr ''Message Fee'',
              xe_sendingChainID := JStr (currentChain env), xe_receivingChainID := receiving\<rparr>], c)))))))"

definition getIncomingTransferCCEntries :: "entry_env \<Rightarrow> jsval \<Rightarrow> export_event \<Rightarrow> export_tx \<Rightarrow> export_block option \<Rightarrow> pk_cache \<Rightarrow> export_entry list result" where
  "getIncomingTransferCCEntries env addressFromParams ev tx b c =
     (if field (ev_data ev) ''result'' \<noteq> JNum 0 then Inr []
      else bindR (block_entry env b (JStr (xt_id tx))) (\<lambda>e.
        Inr [e\<lparr>xe_amount := field (ev_data ev) ''amount'', xe_amountTokenID := field (ev_data ev) ''tokenID'',
              xe_senderAddress := field (ev_data ev) ''senderAddress'', xe_senderPublicKey := getPublicKeyByAddress c (field (ev_data ev) ''senderAddress''),
              xe_recipientAddress := addressFromParams, xe_recipientPublicKey := getPublicKeyByAddress c addressFromParams,
              xe_note := JStr ''Incoming CCM from specified CCU transactionID'', xe_sendingChainID := xt_param tx ''sendingChainID'',
              xe_receivingChainID := field (ev_data ev) ''receivingChainID''\<rparr>]))"

definition getMessageFeeEntries ::
  "entry_env \<Rightarrow> jsval \<Rightarrow> export_event \<Rightarrow> export_tx \<Rightarrow> export_block option \<Rightarrow> jsval \<Rightarrow> jsval \<Rightarrow> jsval \<Rightarrow> pk_cache \<Rightarrow> export_entry list result" where
  "getMessageFeeEntries env addressFromParams ev tx b messageFeeTokenID sendingChainID receivingChainID c =
     bindR (js_BigInt (field (ev_data ev) ''relayerAmount'')) (\<lambda>relayerAmount.
       if relayerAmount = 0 then Inr []
       else bindR (block_entry env b (JStr (xt_id tx))) (\<lambda>e.
              Inr [e\<lparr>xe_moduleCommand := JStr (xt_moduleCommand tx), xe_amount := js_big relayerAmount,
                    xe_amountTokenID := messageFeeTokenID, xe_recipientAddress := addressFromParams,
                    xe_recipientPublicKey := getPublicKeyByAddress c addressFromParams, xe_note := JStr ''Message fee for relayer'',
                    xe_sendingChainID := sendingChainID, xe_receivingChainID := receivingChainID\<rparr>]))"

definition getLegacyAccountReclaimEntries :: "entry_env \<Rightarrow> jsval \<Rightarrow> export_event \<Rightarrow> export_tx \<Rightarrow> export_block option \<Rightarrow> pk_cache \<Rightarrow> export_entry list result" where
  "getLegacyAccountReclaimEntries env addressFromParams ev tx b c =
     bindR (block_entry env b (JStr (xt_id tx))) (\<lambda>e.
       Inr [local_entry env (e\<lparr>xe_amount := field (ev_data ev) ''amount'', xe_amountTokenID := JStr (feeTokenID env),
        xe_recipientAddress := addressFromParams, xe_recipientPublicKey := getPublicKeyByAddress c addressFromParams,
        xe_note := JStr ''Legacy account balance reclaimed''\<rparr>)])"

definition getPomEntries ::
  "entry_env \<Rightarrow> jsval \<Rightarrow> export_event option \<Rightarrow> export_event \<Rightarrow> export_tx \<Rightarrow> export_block option \<Rightarrow> pk_cache \<Rightarrow> export_entry list result" where
  "getPomEntries env addressFromParams transferEvent punishedEvent tx b c =
     (case transferEvent of None \<Rightarrow> Inl TypeError
      | Some ev \<Rightarrow>
          let isPunishedValidator = (addressFromParams = field (ev_data punishedEvent) ''address'');
              sender = field (ev_data ev) ''senderAddress''; recipient = field (ev_data ev) ''recipientAddress'' in
          bindR (block_entry env b (JStr (xt_id tx))) (\<lambda>e.
          bindR (js_BigInt (field (ev_data ev) ''amount'')) (\<lambda>amount.
            Inr [local_entry env (e\<lparr>xe_amount := js_big ((if isPunishedValidator then - 1 else 1) * amount),
              xe_amountTokenID := JStr (posTokenID env), xe_senderAddress := sender, xe_senderPublicKey := getPublicKeyByAddress c sender,
              xe_recipientAddress := recipient, xe_recipientPublicKey := getPublicKeyByAddress c recipient,
              xe_note := JStr (if isPunishedValidator then ''PoM punishment validator reward deduction'' else ''PoM successful report reward'')\<rparr>)])))"

definition getSharedRewardsAssignedEntries ::
  "entry_env \<Rightarrow> jsval \<Rightarrow> export_event \<Rightarrow> export_tx \<Rightarrow> export_block option \<Rightarrow> pk_cache \<Rightarrow> (export_entry list \<times> pk_cache) result" where
  "getSharedRewardsAssignedEntries env addressFromParams ev tx b c0 =
     (let recipientPublicKey = xt_sender_publicKey tx; c = cache_present env recipientPublicKey c0;
          staker = field (ev_data ev) ''stakerAddress''; validator = field (ev_data ev) ''validatorAddress'' in
      bindR (block_entry env b (JStr (xt_id tx))) (\<lambda>e.
      bindR (js_BigInt (field (ev_data ev) ''amount'')) (\<lambda>amount.
        Inr ([local_entry env (e\<lparr>xe_amount := js_big ((if addressFromParams = staker then 1 else - 1) * amount),
          xe_amountTokenID := JStr (posTokenID env), xe_senderAddress := validator, xe_senderPublicKey := getPublicKeyByAddress c validator,
          xe_recipientAddress := staker, xe_recipientPublicKey := recipientPublicKey,
          xe_note := JStr ''Custodial shared rewards transfer to the staker''\<rparr>)], c))))"

definition getBlockRewardEntries ::
  "entry_env \<Rightarrow> jsval \<Rightarrow> export_event \<Rightarrow> export_event option \<Rightarrow> export_block option \<Rightarrow> pk_cache \<Rightarrow> (export_entry list \<times> pk_cache) result" where
  "getBlockRewardEntries env addressFromParams mintedEvent lockedEvent b c =
     bindR (case lockedEvent of Some ev \<Rightarrow> js_BigInt (field (ev_data ev) ''amount'') | None \<Rightarrow> Inr 0) (\<lambda>sharedReward.
     bindR (js_BigInt (field (ev_data mintedEvent) ''amount'')) (\<lambda>minted.
     bindR (block_entry env b JNull) (\<lambda>e.
     let generatorPublicKey = xb_generator_publicKey (the b);
         commonEntry = local_entry env (e\<lparr>xe_amountTokenID := JStr (posTokenID env), xe_recipientAddress := addressFromParams,
           xe_recipientPublicKey := generatorPublicKey\<rparr>) in
     Inr (commonEntry\<lparr>xe_amount := js_big (minted - sharedReward), xe_note := JStr ''Block generation reward (commission + self-stake)''\<rparr>
          # (if lockedEvent \<noteq> None
             then [commonEntry\<lparr>xe_amount := js_big sharedReward, xe_note := JStr ''Block generation reward (custodial shared rewards locked)''\<rparr>] else []),
          cachePublicKey env generatorPublicKey c))))"

section \<open>The events of a day\<close>

definition is_event :: "string \<Rightarrow> string \<Rightarrow> export_event \<Rightarrow> bool" where
  "is_event module name e \<longleftrightarrow> ev_module e = module \<and> ev_name e = name"

definition is_ccc :: "jsval \<Rightarrow> export_event \<Rightarrow> bool" where
  "is_ccc ccmID e \<longleftrightarrow> is_event ''token'' ''beforeCCCExecution'' e \<and> field (ev_data e) ''ccmID'' = ccmID"

text \<open>\<^verbatim>\<open>while (j--)\<close> tests \<open>j\<close> before it is decremented.\<close>

fun ccc_before :: "export_event list \<Rightarrow> string \<Rightarrow> nat \<Rightarrow> export_event option" where
  "ccc_before events ccmID 0 = None"
| "ccc_before events ccmID (Suc j) = (if is_ccc (JStr ccmID) (events ! j) then Some (events ! j) else ccc_before events ccmID j)"

text \<open>
  The identifier of the transaction, and the other events that were read for it. The search for the event before a
  cross-chain command starts with \<^verbatim>\<open>j = i - 1\<close>; for the first event it reads \<^verbatim>\<open>sortedEvents[-2]\<close>.
\<close>

definition ccu_transaction :: "entry_env \<Rightarrow> export_event list \<Rightarrow> nat \<Rightarrow> string \<Rightarrow> (string option \<times> export_event list) result" where
  "ccu_transaction env sortedEvents i ccmID =
     (if i = 0 then Inl TypeError
      else case ccc_before sortedEvents ccmID (i - 1) of
        Some prev \<Rightarrow> bindR (topic0_of prev) (\<lambda>t. Inr (getTransactionIDFromTopic0 t, []))
      | None \<Rightarrow>
          bindR (events_at env (ev_height (sortedEvents ! i))) (\<lambda>eventsForHeight.
          case List.find (is_ccc (JStr ccmID)) eventsForHeight of
            Some e \<Rightarrow> bindR (topic0_of e) (\<lambda>t. Inr (getTransactionIDFromTopic0 t, eventsForHeight))
          | None \<Rightarrow> Inl (Error ''CCU transactionID cannot be determined'')))"

definition event_transaction ::
  "entry_env \<Rightarrow> export_tx list \<Rightarrow> export_event list \<Rightarrow> nat \<Rightarrow> string \<Rightarrow> (export_tx \<times> export_event list) result" where
  "event_transaction env sortedTransactions sortedEvents i topic0 =
     bindR (case getCcmIDFromTopic0 topic0 of None \<Rightarrow> Inr (getTransactionIDFromTopic0 topic0, [])
            | Some ccmID \<Rightarrow> ccu_transaction env sortedEvents i ccmID) (\<lambda>(transactionID, other).
     case List.find (\<lambda>t. Some (xt_id t) = transactionID) sortedTransactions of
       Some tx \<Rightarrow> Inr (tx, other)
     | None \<Rightarrow> bindR (transactions_by_id env transactionID) (\<lambda>txs. case txs of tx # _ \<Rightarrow> Inr (tx, other) | [] \<Rightarrow> Inl TypeError))"

definition event_block :: "entry_env \<Rightarrow> export_block list \<Rightarrow> export_tx \<Rightarrow> export_block option result" where
  "event_block env sortedBlocks tx =
     (case List.find (\<lambda>b. xb_id b = xt_block_id tx) sortedBlocks of
        Some b \<Rightarrow> Inr (Some b)
      | None \<Rightarrow> bindR (blocks_by_id env (xt_block_id tx)) (\<lambda>bs. Inr (case bs of b # _ \<Rightarrow> Some b | [] \<Rightarrow> None)))"

definition transfer_entries :: "entry_env \<Rightarrow> jsval \<Rightarrow> export_tx \<Rightarrow> pk_cache \<Rightarrow> (export_entry list \<times> pk_cache) result" where
  "transfer_entries env addr tx c =
     bindR (formatTransaction env addr tx (currentChain env) (feeTokenID env) c) (\<lambda>(e1, c).
       if checkIfSelfTokenTransfer tx
       then bindR (formatTransaction env addr (tx\<lparr>xt_fee := JNull, isSelfTokenTransferCredit := True\<rparr>) (currentChain env) (feeTokenID env) c) (\<lambda>(e2, c).
              Inr ([e1, e2], c))
       else Inr ([e1], c))"

definition ccm_send_success :: "entry_env \<Rightarrow> export_tx \<Rightarrow> export_event option result" where
  "ccm_send_success env tx =
     bindR (all_events_at env (xt_block_height tx)) (\<lambda>evs.
       findR (\<lambda>ev. if is_event ''interoperability'' ''ccmSendSuccess'' ev
                   then (case ev_topics ev of None \<Rightarrow> Inl TypeError | Some ts \<Rightarrow> Inr (TX_ID @ xt_id tx \<in> set ts)) else Inr False) evs)"

text \<open>Both lookups of a relayer fee go through the events of the day and then the other events.\<close>

definition relayer_entries ::
  "entry_env \<Rightarrow> jsval \<Rightarrow> export_event list \<Rightarrow> export_event \<Rightarrow> export_tx \<Rightarrow> export_block option \<Rightarrow> pk_cache \<Rightarrow> export_entry list result" where
  "relayer_entries env addr evs e tx b c =
     (case List.find (is_ccc (field (ev_data e) ''ccmID'')) evs of
        None \<Rightarrow> Inl (Error ''messageFeeTokenID cannot be determined'')
      | Some ccc \<Rightarrow>
          bindR (findR (\<lambda>ev. if is_event ''interoperability'' ''ccmProcessed'' ev
                     then (case ev_topics ev of None \<Rightarrow> Inl TypeError | Some ts \<Rightarrow> Inr (take 1 ts = take 1 (the (ev_topics e)))) else Inr False) evs) (\<lambda>p.
          case p of None \<Rightarrow> Inl (Error ''sendingChainID & receivingChainID cannot be determined'')
          | Some processed \<Rightarrow>
              bindR (ccm_field processed ''sendingChainID'') (\<lambda>sending.
              bindR (ccm_field processed ''receivingChainID'') (\<lambda>receiving.
                getMessageFeeEntries env addr e tx b (field (ev_data ccc) ''messageFeeTokenID'') sending receiving c))))"

text \<open>\<^verbatim>\<open>x.endsWith(y)\<close>\<close>

definition ends_with :: "string \<Rightarrow> string \<Rightarrow> bool" where
  "ends_with x y \<longleftrightarrow> length y \<le> length x \<and> drop (length x - length y) x = y"

definition pom_entries ::
  "entry_env \<Rightarrow> jsval \<Rightarrow> export_event list \<Rightarrow> export_event \<Rightarrow> export_tx \<Rightarrow> export_block option \<Rightarrow> pk_cache \<Rightarrow> export_entry list result" where
  "pom_entries env addr evs e tx b c =
     bindR (findR (\<lambda>ev. if is_event ''token'' ''transfer'' ev then bindR (topic0_of ev) (\<lambda>t. Inr (ends_with t (xt_id tx))) else Inr False) evs) (\<lambda>ev.
       getPomEntries env addr ev e tx b c)"

text \<open>\<^verbatim>\<open>e.topics[n] === s\<close>\<close>

definition topic_is :: "export_event \<Rightarrow> nat \<Rightarrow> jsval \<Rightarrow> bool" where
  "topic_is e n s = (case ev_topics e of Some ts \<Rightarrow> n < length ts \<and> JStr (ts ! n) = s | None \<Rightarrow> False)"

text \<open>The lines of an event of a transaction or a cross-chain message; the conditions of the code exclude each other.\<close>

definition message_entries ::
  "entry_env \<Rightarrow> jsval \<Rightarrow> export_event list \<Rightarrow> export_event \<Rightarrow> export_tx \<Rightarrow> export_block option \<Rightarrow> pk_cache \<Rightarrow> (export_entry list \<times> pk_cache) result" where
  "message_entries env addr evs e tx b c =
     (let pure = (\<lambda>r. bindR r (\<lambda>es. Inr (es, c))) in
      if is_event ''token'' ''lock'' e \<and> xt_moduleCommand tx \<noteq> TRANSFER_CROSS_CHAIN then transfer_entries env addr tx c
      else if is_event ''fee'' ''generatorFeeProcessed'' e then getGeneratorFeeEntries env addr e tx b c
      else if is_event ''token'' ''transferCrossChain'' e \<and> field (ev_data e) ''senderAddress'' = addr
        then bindR (ccm_send_success env tx) (\<lambda>sent. getOutgoingTransferCCEntries env addr e sent tx b c)
      else if is_event ''token'' ''ccmTransfer'' e \<and> field (ev_data e) ''recipientAddress'' = addr
              \<and> field (ev_data e) ''receivingChainID'' = JStr (currentChain env)
        then pure (getIncomingTransferCCEntries env addr e tx b c)
      else if is_event ''fee'' ''relayerFeeProcessed'' e then pure (relayer_entries env addr evs e tx b c)
      else if is_event ''legacy'' ''accountReclaimed'' e \<and> topic_is e 2 addr then pure (getLegacyAccountReclaimEntries env addr e tx b c)
      else if is_event ''pos'' ''validatorPunished'' e then pure (pom_entries env addr evs e tx b c)
      else Inr ([], c))"

definition reward_entries ::
  "entry_env \<Rightarrow> jsval \<Rightarrow> export_block list \<Rightarrow> export_event list \<Rightarrow> nat \<Rightarrow> pk_cache \<Rightarrow> (export_entry list \<times> pk_cache) result" where
  "reward_entries env addr sortedBlocks sortedEvents i c =
     (let e = sortedEvents ! i in
      if is_event ''token'' ''mint'' e \<and> topic_is e 1 addr
      then (if length sortedEvents \<le> i + 1 then Inl TypeError
            else let nextEvent = sortedEvents ! (i + 1);
                     locked = (if is_event ''token'' ''lock'' nextEvent \<and> field (ev_data nextEvent) ''address'' = addr then Some nextEvent else None)
                 in getBlockRewardEntries env addr e locked (List.find (\<lambda>b. xb_id b = ev_blockID e) sortedBlocks) c)
      else Inr ([], c))"

definition event_entries ::
  "entry_env \<Rightarrow> jsval \<Rightarrow> export_block list \<Rightarrow> export_tx list \<Rightarrow> export_event list \<Rightarrow> nat \<Rightarrow> pk_cache \<Rightarrow> (export_entry list \<times> pk_cache) result" where
  "event_entries env addr sortedBlocks sortedTransactions sortedEvents i c =
     (let e = sortedEvents ! i in
      bindR (topic0_of e) (\<lambda>topic0.
        if length topic0 = LENGTH_ID + length TX_ID \<or> length topic0 = LENGTH_ID + length CCM_ID
        then bindR (event_transaction env sortedTransactions sortedEvents i topic0) (\<lambda>(tx, other).
             bindR (event_block env sortedBlocks tx) (\<lambda>b.
             bindR (if getTransactionIDFromTopic0 topic0 \<noteq> None \<or> getCcmIDFromTopic0 topic0 \<noteq> None
                    then message_entries env addr (sortedEvents @ other) e tx b c else Inr ([], c)) (\<lambda>(es, c).
             bindR (if is_event ''pos'' ''rewardsAssigned'' e then getSharedRewardsAssignedEntries env addr e tx b c else Inr ([], c)) (\<lambda>(es', c).
               Inr (es @ es', c)))))
        else if length topic0 = LENGTH_DEFAULT_TOPIC then reward_entries env addr sortedBlocks sortedEvents i c
        else Inr ([], c)))"

definition chronology_loop ::
  "entry_env \<Rightarrow> jsval \<Rightarrow> export_block list \<Rightarrow> export_tx list \<Rightarrow> export_event list \<Rightarrow> nat list \<Rightarrow> export_entry list \<times> pk_cache
     \<Rightarrow> (export_entry list \<times> pk_cache) result" where
  "chronology_loop env addr bs txs evs =
     foldR (\<lambda>i (entries, c). bindR (event_entries env addr bs txs evs i c) (\<lambda>(es, c). Inr (entries @ es, c)))"

definition getEntriesByChronology ::
  "entry_env \<Rightarrow> export_params \<Rightarrow> export_block list \<Rightarrow> export_tx list \<Rightarrow> export_event list \<Rightarrow> pk_cache \<Rightarrow> (export_entry list \<times> pk_cache) result" where
  "getEntriesByChronology env params sortedBlocks sortedTransactions sortedEvents c =
     bindR (getAddressFromParams env params) (\<lambda>addr.
     bindR (chronology_loop env addr sortedBlocks sortedTransactions sortedEvents [0..<length sortedEvents] ([], c)) (\<lambda>(entries, c).
       Inr (dropDuplicatesDeep entries, c)))"

section \<open>Lines without repetition\<close>

lemma first_index_append: "first_index v (xs @ ys) = (if v \<in> set xs then first_index v xs else length xs + first_index v ys)"
  by (induction xs) auto

lemma first_index_less: "v \<in> set xs \<Longrightarrow> first_index v xs < length xs"
  by (induction xs) auto

lemma dropDuplicatesDeep_eq: "dropDuplicatesDeep arr = rev (remdups (rev arr))"
proof (induction arr rule: rev_induct)
  case (snoc v arr)
  have "filter (\<lambda>(i, x). first_index x (arr @ [v]) = i) (enumerate 0 arr) = filter (\<lambda>(i, x). first_index x arr = i) (enumerate 0 arr)"
    by (rule filter_cong) (auto simp: first_index_append in_set_enumerate_eq dest: nth_mem)
  moreover have "first_index v (arr @ [v]) = length arr \<longleftrightarrow> v \<notin> set arr"
    using first_index_less [of v arr] by (auto simp: first_index_append)
  ultimately show ?case using snoc by (simp add: dropDuplicatesDeep_def enumerate_append_eq)
qed (simp add: dropDuplicatesDeep_def)

lemma dropDuplicatesDeep_props: "distinct (dropDuplicatesDeep arr)" "set (dropDuplicatesDeep arr) = set arr"
  by (simp_all add: dropDuplicatesDeep_eq)

section \<open>The whole day\<close>

lemma chronology_step:
  "chronology_loop env addr bs txs evs (i # is) (entries, c)
     = bindR (event_entries env addr bs txs evs i c) (\<lambda>(es, c'). chronology_loop env addr bs txs evs is (entries @ es, c'))"
  unfolding chronology_loop_def by (cases "event_entries env addr bs txs evs i c") (auto split: prod.split)

lemma chronology_lines:
  assumes "chronology_loop env addr bs txs evs is (entries, c) = Inr (out, c')"
  shows "\<exists>lines caches. length lines = length is \<and> length caches = length is \<and> out = entries @ concat lines
     \<and> (\<forall>k < length is. \<exists>d. event_entries env addr bs txs evs (is ! k) (caches ! k) = Inr (lines ! k, d))"
  using assms
proof (induction "is" arbitrary: entries c)
  case Nil
  then show ?case by (simp add: chronology_loop_def)
next
  case (Cons i "is")
  then obtain es d where es: "event_entries env addr bs txs evs i c = Inr (es, d)"
    and rest: "chronology_loop env addr bs txs evs is (entries @ es, d) = Inr (out, c')"
    by (auto simp: chronology_step bindR_eq_Inr)
  from Cons.IH [OF rest] obtain lines caches where l: "length lines = length is" "length caches = length is" "out = (entries @ es) @ concat lines"
    "\<forall>k < length is. \<exists>d. event_entries env addr bs txs evs (is ! k) (caches ! k) = Inr (lines ! k, d)" by blast
  then have "\<forall>k < length (i # is). \<exists>d. event_entries env addr bs txs evs ((i # is) ! k) ((c # caches) ! k) = Inr ((es # lines) ! k, d)"
    using es by (auto simp: less_Suc_eq_0_disj)
  then show ?case using l by (intro exI [of _ "es # lines"] exI [of _ "c # caches"]) simp
qed

lemma chronology_fails:
  assumes "i \<in> set is" and "\<And>c. \<exists>e. event_entries env addr bs txs evs i c = Inl e"
  shows "\<exists>e. chronology_loop env addr bs txs evs is (entries, c) = Inl e"
  using assms(1)
proof (induction "is" arbitrary: entries c)
  case (Cons j "is")
  show ?case
  proof (cases "event_entries env addr bs txs evs j c")
    case (Inr x)
    then have "i \<in> set is" using Cons.prems assms(2) by (metis Inr_not_Inl set_ConsD)
    then show ?thesis using Cons.IH Inr by (cases x) (simp add: chronology_step)
  qed (simp add: chronology_step)
qed simp

section \<open>Amounts\<close>

definition amount_of :: "export_entry \<Rightarrow> int" where
  "amount_of e = (case js_BigInt (xe_amount e) of Inr n \<Rightarrow> n | Inl _ \<Rightarrow> 0)"

lemma BigInt_js_big [simp]: "js_BigInt (js_big n) = Inr n"
  by (simp add: js_big_def)

lemma normalized_transfer:
  assumes "xt_moduleCommand tx = TRANSFER" and "xt_executionStatus tx = ''successful''" and "\<not> isIncomingCrossChainTransferTransaction tx"
    and "js_BigInt (xt_param tx ''amount'') = Inr n" and "js_BigInt (xt_fee tx) = Inr f" and "xt_sender_address tx \<noteq> xt_param tx ''recipientAddress''"
  shows "normalizeTransactionAmount addr tx ch = Inr (js_big (if addr = xt_param tx ''recipientAddress'' then n else - n))"
    "normalizeTransactionFee addr tx = Inr (js_big (if addr = xt_param tx ''recipientAddress'' then 0 else - f))" "\<not> checkIfSelfTokenTransfer tx"
  using assms by (auto simp: normalizeTransactionAmount_def normalizeTransactionFee_def checkIfSelfTokenTransfer_def TRANSFER_def TRANSFER_CROSS_CHAIN_def Let_def)

text \<open>
  A transfer is exported alike for both sides. For a successful transfer between two accounts with
  readable amount and fee, the history of the recipient has the amount with a fee of 0, the history of the sender has the negated amount
  and the negated fee, so the two amounts cancel.
\<close>

theorem transfer_balanced:
  assumes "xt_moduleCommand tx = TRANSFER" and "xt_executionStatus tx = ''successful''" and "\<not> isIncomingCrossChainTransferTransaction tx"
    and "js_BigInt (xt_param tx ''amount'') = Inr n" and "js_BigInt (xt_fee tx) = Inr f"
    and "xt_sender_address tx = sender" and "xt_param tx ''recipientAddress'' = recipient" and "sender \<noteq> recipient"
  shows "\<exists>es er cs cr. transfer_entries env sender tx c = Inr ([es], cs) \<and> transfer_entries env recipient tx c = Inr ([er], cr)
     \<and> amount_of es = - n \<and> amount_of er = n \<and> xe_fee es = js_big (- f) \<and> xe_fee er = js_big 0"
proof -
  have "xt_sender_address tx \<noteq> xt_param tx ''recipientAddress''" using assms by simp
  note n = normalized_transfer [OF assms(1-5) this]
  show ?thesis using assms(7,8) n by (auto simp: transfer_entries_def formatTransaction_def case_prod_beta Let_def amount_of_def)
qed

text \<open>
  The reward of a block is exported completely. The lines of a block reward add up to the minted amount, whether a part of it was
  locked for the stakers or not, and they all name the generator as the recipient.
\<close>

theorem reward_adds_up:
  assumes "getBlockRewardEntries env addr minted locked b c = Inr (es, c')" and "js_BigInt (field (ev_data minted) ''amount'') = Inr m"
  shows "sum_list (map amount_of es) = m \<and> (\<forall>e \<in> set es. xe_recipientAddress e = addr) \<and> length es = (if locked = None then 1 else 2)"
  using assms by (auto simp: getBlockRewardEntries_def bindR_eq_Inr Let_def amount_of_def local_entry_def split: option.splits)

section \<open>The movements of a day\<close>

text \<open>
  What a history has to say: a change of the balance of an account with the transaction, the height, the token, the two sides and the fee. The amounts are signed, negative
  when the account pays.
\<close>

record movement =
  mv_transaction :: jsval
  mv_height :: int
  mv_amount :: int
  mv_token :: jsval
  mv_sender :: jsval
  mv_recipient :: jsval
  mv_fee :: int

definition fee_of :: "export_entry \<Rightarrow> int" where
  "fee_of e = (case js_BigInt (xe_fee e) of Inr n \<Rightarrow> n | Inl _ \<Rightarrow> 0)"

definition shows_movement :: "export_entry \<Rightarrow> movement \<Rightarrow> bool" where
  "shows_movement e m \<longleftrightarrow> xe_transactionID e = mv_transaction m \<and> xe_blockHeight e = JNum (mv_height m) \<and> amount_of e = mv_amount m \<and> xe_amountTokenID e = mv_token m
     \<and> xe_senderAddress e = mv_sender m \<and> xe_recipientAddress e = mv_recipient m \<and> fee_of e = mv_fee m"

text \<open>The event belongs to the transaction \<open>tx\<close> of the day, in the block \<open>b\<close>.\<close>

definition of_transaction :: "export_block list \<Rightarrow> export_tx list \<Rightarrow> export_event \<Rightarrow> export_tx \<Rightarrow> export_block \<Rightarrow> bool" where
  "of_transaction bs txs e tx b \<longleftrightarrow> topic0_of e = Inr (TX_ID @ xt_id tx) \<and> length (xt_id tx) = LENGTH_ID
     \<and> List.find (\<lambda>t. xt_id t = xt_id tx) txs = Some tx \<and> List.find (\<lambda>b. xb_id b = xt_block_id tx) bs = Some b"

text \<open>
  The movements of the account \<open>addr\<close> that the events of a day stand for: a successful transfer to another account, seen by its sender and by its recipient; the
  fee of a transaction for the generator of its block; a reward shared by a validator with a staker, seen by both; a reclaimed legacy balance; and the reward of a block, of which the amount locked by
  the next event is the part shared with the stakers.
\<close>

inductive movement_due :: "entry_env \<Rightarrow> jsval \<Rightarrow> export_block list \<Rightarrow> export_tx list \<Rightarrow> export_event list \<Rightarrow> nat \<Rightarrow> movement \<Rightarrow> bool"
  for env addr bs txs evs i where
  sent: "of_transaction bs txs (evs ! i) tx b \<Longrightarrow> is_event ''token'' ''lock'' (evs ! i) \<Longrightarrow> xt_moduleCommand tx = TRANSFER \<Longrightarrow> xt_executionStatus tx = ''successful''
    \<Longrightarrow> \<not> isIncomingCrossChainTransferTransaction tx \<Longrightarrow> js_BigInt (xt_param tx ''amount'') = Inr n \<Longrightarrow> js_BigInt (xt_fee tx) = Inr f
    \<Longrightarrow> xt_sender_address tx = addr \<Longrightarrow> xt_param tx ''recipientAddress'' = r \<Longrightarrow> r \<noteq> addr \<Longrightarrow> js_Boolean r
    \<Longrightarrow> movement_due env addr bs txs evs i \<lparr>mv_transaction = JStr (xt_id tx), mv_height = xt_block_height tx, mv_amount = - n, mv_token = xt_param tx ''tokenID'',
          mv_sender = addr, mv_recipient = r, mv_fee = - f\<rparr>"
| received: "of_transaction bs txs (evs ! i) tx b \<Longrightarrow> is_event ''token'' ''lock'' (evs ! i) \<Longrightarrow> xt_moduleCommand tx = TRANSFER \<Longrightarrow> xt_executionStatus tx = ''successful''
    \<Longrightarrow> \<not> isIncomingCrossChainTransferTransaction tx \<Longrightarrow> js_BigInt (xt_param tx ''amount'') = Inr n \<Longrightarrow> js_BigInt (xt_fee tx) = Inr f
    \<Longrightarrow> xt_sender_address tx \<noteq> addr \<Longrightarrow> xt_param tx ''recipientAddress'' = addr \<Longrightarrow> js_Boolean addr
    \<Longrightarrow> movement_due env addr bs txs evs i \<lparr>mv_transaction = JStr (xt_id tx), mv_height = xt_block_height tx, mv_amount = n, mv_token = xt_param tx ''tokenID'',
          mv_sender = xt_sender_address tx, mv_recipient = addr, mv_fee = 0\<rparr>"
| generator_fee: "of_transaction bs txs (evs ! i) tx b \<Longrightarrow> is_event ''fee'' ''generatorFeeProcessed'' (evs ! i) \<Longrightarrow> field (ev_data (evs ! i)) ''generatorAddress'' = addr
    \<Longrightarrow> js_BigInt (field (ev_data (evs ! i)) ''generatorAmount'') = Inr n \<Longrightarrow> n \<noteq> 0
    \<Longrightarrow> movement_due env addr bs txs evs i \<lparr>mv_transaction = JStr (xt_id tx), mv_height = xb_height b, mv_amount = n, mv_token = JStr (feeTokenID env),
          mv_sender = field (ev_data (evs ! i)) ''senderAddress'', mv_recipient = addr, mv_fee = 0\<rparr>"
| shared_reward: "of_transaction bs txs (evs ! i) tx b \<Longrightarrow> is_event ''pos'' ''rewardsAssigned'' (evs ! i)
    \<Longrightarrow> js_BigInt (field (ev_data (evs ! i)) ''amount'') = Inr n \<Longrightarrow> field (ev_data (evs ! i)) ''stakerAddress'' = s \<Longrightarrow> field (ev_data (evs ! i)) ''validatorAddress'' = v
    \<Longrightarrow> m = (if addr = s then n else - n) \<Longrightarrow> addr = s \<or> addr = v
    \<Longrightarrow> movement_due env addr bs txs evs i \<lparr>mv_transaction = JStr (xt_id tx), mv_height = xb_height b, mv_amount = m, mv_token = JStr (posTokenID env),
          mv_sender = v, mv_recipient = s, mv_fee = 0\<rparr>"
| reclaimed: "of_transaction bs txs (evs ! i) tx b \<Longrightarrow> is_event ''legacy'' ''accountReclaimed'' (evs ! i) \<Longrightarrow> topic_is (evs ! i) 2 addr
    \<Longrightarrow> js_BigInt (field (ev_data (evs ! i)) ''amount'') = Inr n
    \<Longrightarrow> movement_due env addr bs txs evs i \<lparr>mv_transaction = JStr (xt_id tx), mv_height = xb_height b, mv_amount = n, mv_token = JStr (feeTokenID env),
          mv_sender = JNull, mv_recipient = addr, mv_fee = 0\<rparr>"
| block_reward: "is_event ''token'' ''mint'' (evs ! i) \<Longrightarrow> topic_is (evs ! i) 1 addr \<Longrightarrow> topic0_of (evs ! i) = Inr t \<Longrightarrow> length t = LENGTH_DEFAULT_TOPIC
    \<Longrightarrow> List.find (\<lambda>b. xb_id b = ev_blockID (evs ! i)) bs = Some b \<Longrightarrow> js_BigInt (field (ev_data (evs ! i)) ''amount'') = Inr n
    \<Longrightarrow> if is_event ''token'' ''lock'' (evs ! Suc i) \<and> field (ev_data (evs ! Suc i)) ''address'' = addr
        then js_BigInt (field (ev_data (evs ! Suc i)) ''amount'') = Inr k \<and> m \<in> {n - k, k} else m = n
    \<Longrightarrow> movement_due env addr bs txs evs i \<lparr>mv_transaction = JNull, mv_height = xb_height b, mv_amount = m, mv_token = JStr (posTokenID env),
          mv_sender = JNull, mv_recipient = addr, mv_fee = 0\<rparr>"

lemma event_of_transaction:
  assumes "of_transaction bs txs (evs ! i) tx b" and "event_entries env addr bs txs evs i c = Inr (es, d)"
  shows "\<exists>es1 c1 es2. message_entries env addr evs (evs ! i) tx (Some b) c = Inr (es1, c1) \<and> set es1 \<subseteq> set es
     \<and> (is_event ''pos'' ''rewardsAssigned'' (evs ! i) \<longrightarrow> getSharedRewardsAssignedEntries env addr (evs ! i) tx (Some b) c1 = Inr (es2, d) \<and> set es2 \<subseteq> set es)"
proof -
  have t: "getCcmIDFromTopic0 (TX_ID @ xt_id tx) = None" "getTransactionIDFromTopic0 (TX_ID @ xt_id tx) = Some (xt_id tx)"
    using assms(1) by (simp_all add: of_transaction_def getCcmIDFromTopic0_def getTransactionIDFromTopic0_def topic_id_def TX_ID_def CCM_ID_def)
  have "event_transaction env txs evs i (TX_ID @ xt_id tx) = Inr (tx, [])" "event_block env bs tx = Inr (Some b)"
    using assms(1) by (simp_all add: event_transaction_def t of_transaction_def event_block_def)
  then have "bindR (message_entries env addr evs (evs ! i) tx (Some b) c) (\<lambda>(es, c).
      bindR (if is_event ''pos'' ''rewardsAssigned'' (evs ! i) then getSharedRewardsAssignedEntries env addr (evs ! i) tx (Some b) c else Inr ([], c)) (\<lambda>(es', c).
        Inr (es @ es', c))) = Inr (es, d)"
    using assms by (simp add: of_transaction_def event_entries_def t Let_def)
  then show ?thesis by (auto simp: bindR_eq_Inr split: if_splits)
qed

lemma transaction_lines:
  assumes "of_transaction bs txs (evs ! i) tx b" and "event_entries env addr bs txs evs i c = Inr (es, d)"
  obtains es1 c1 where "message_entries env addr evs (evs ! i) tx (Some b) c = Inr (es1, c1)" "set es1 \<subseteq> set es"
  using event_of_transaction [OF assms] by blast

lemma js_or_present: "js_Boolean v \<Longrightarrow> js_or v w = v"
  by (simp add: js_or_def)

lemma transfer_line:
  assumes "xt_moduleCommand tx = TRANSFER" and "xt_executionStatus tx = ''successful''" and "\<not> isIncomingCrossChainTransferTransaction tx"
    and "js_BigInt (xt_param tx ''amount'') = Inr n" and "js_BigInt (xt_fee tx) = Inr f"
    and "xt_sender_address tx \<noteq> xt_param tx ''recipientAddress''" and "js_Boolean (xt_param tx ''recipientAddress'')"
    and "transfer_entries env addr tx c = Inr (es, d)" and "is = (addr = xt_param tx ''recipientAddress'')"
  shows "\<exists>l \<in> set es. shows_movement l \<lparr>mv_transaction = JStr (xt_id tx), mv_height = xt_block_height tx, mv_amount = (if is then n else - n),
      mv_token = xt_param tx ''tokenID'', mv_sender = xt_sender_address tx, mv_recipient = xt_param tx ''recipientAddress'', mv_fee = (if is then 0 else - f)\<rparr>"
  using assms(7-9) normalized_transfer [OF assms(1-6)]
  by (auto simp: transfer_entries_def formatTransaction_def case_prod_beta Let_def shows_movement_def amount_of_def fee_of_def js_or_present entry_at_def)

lemma due_shown:
  assumes "movement_due env addr bs txs evs i m" and run: "event_entries env addr bs txs evs i c = Inr (es, d)"
  shows "\<exists>l \<in> set es. shows_movement l m"
  using assms(1)
proof cases
  case (sent tx b n f r)
  from sent(2) run obtain es1 c1 where "message_entries env addr evs (evs ! i) tx (Some b) c = Inr (es1, c1)" "set es1 \<subseteq> set es" by (rule transaction_lines)
  then have "transfer_entries env addr tx c = Inr (es1, c1)" "set es1 \<subseteq> set es"
    using sent by (auto simp: message_entries_def TRANSFER_def TRANSFER_CROSS_CHAIN_def)
  then show ?thesis using transfer_line [of tx n f env addr c _ _ False] sent by fastforce
next
  case (received tx b n f)
  from received(2) run obtain es1 c1 where "message_entries env addr evs (evs ! i) tx (Some b) c = Inr (es1, c1)" "set es1 \<subseteq> set es" by (rule transaction_lines)
  then have "transfer_entries env addr tx c = Inr (es1, c1)" "set es1 \<subseteq> set es"
    using received by (auto simp: message_entries_def TRANSFER_def TRANSFER_CROSS_CHAIN_def)
  then show ?thesis using transfer_line [of tx n f env addr c _ _ True] received by fastforce
next
  case (generator_fee tx b n)
  from generator_fee(2) run obtain es1 c1 where "message_entries env addr evs (evs ! i) tx (Some b) c = Inr (es1, c1)" "set es1 \<subseteq> set es" by (rule transaction_lines)
  then have "getGeneratorFeeEntries env addr (evs ! i) tx (Some b) c = Inr (es1, c1)" "set es1 \<subseteq> set es"
    using generator_fee(3) by (auto simp: message_entries_def is_event_def)
  moreover from this have "\<exists>l \<in> set es1. shows_movement l m" using generator_fee
    by (auto simp: getGeneratorFeeEntries_def Let_def block_entry_def local_entry_def entry_at_def shows_movement_def amount_of_def fee_of_def)
  ultimately show ?thesis by blast
next
  case (shared_reward tx b n s v k)
  obtain es2 c1 where "getSharedRewardsAssignedEntries env addr (evs ! i) tx (Some b) c1 = Inr (es2, d)" "set es2 \<subseteq> set es"
    using event_of_transaction [OF shared_reward(2) run] shared_reward(3) by blast
  moreover from this have "\<exists>l \<in> set es2. shows_movement l m" using shared_reward
    by (auto simp: getSharedRewardsAssignedEntries_def Let_def block_entry_def local_entry_def entry_at_def shows_movement_def amount_of_def fee_of_def split: if_splits)
  ultimately show ?thesis by blast
next
  case (reclaimed tx b n)
  from reclaimed(2) run obtain es1 c1 where "message_entries env addr evs (evs ! i) tx (Some b) c = Inr (es1, c1)" "set es1 \<subseteq> set es" by (rule transaction_lines)
  then have "getLegacyAccountReclaimEntries env addr (evs ! i) tx (Some b) c = Inr es1" "set es1 \<subseteq> set es"
    using reclaimed(3,4) by (auto simp: message_entries_def is_event_def Let_def bindR_eq_Inr)
  moreover from this have "\<exists>l \<in> set es1. shows_movement l m" using reclaimed
    by (auto simp: getLegacyAccountReclaimEntries_def block_entry_def local_entry_def entry_at_def shows_movement_def amount_of_def fee_of_def)
  ultimately show ?thesis by blast
next
  case (block_reward t b n k j)
  let ?lock = "is_event ''token'' ''lock'' (evs ! Suc i) \<and> field (ev_data (evs ! Suc i)) ''address'' = addr"
  have "getBlockRewardEntries env addr (evs ! i) (if ?lock then Some (evs ! Suc i) else None) (Some b) c = Inr (es, d)"
    using block_reward run by (auto simp: event_entries_def reward_entries_def LENGTH_DEFAULT_TOPIC_def LENGTH_ID_def TX_ID_def CCM_ID_def Let_def split: if_splits)
  then show ?thesis using block_reward
    by (auto simp: getBlockRewardEntries_def Let_def block_entry_def local_entry_def entry_at_def shows_movement_def amount_of_def fee_of_def split: if_splits)
qed


section \<open>Days that cannot be exported\<close>

lemma self_transfer_fails:
  assumes "checkIfSelfTokenTransfer tx"
  shows "\<exists>e. transfer_entries env addr tx c = Inl e"
proof -
  have "\<exists>e. formatTransaction env addr (tx\<lparr>xt_fee := JNull, isSelfTokenTransferCredit := True\<rparr>) ch tok d = Inl e" for ch tok d
  proof (cases "normalizeTransactionAmount addr (tx\<lparr>xt_fee := JNull, isSelfTokenTransferCredit := True\<rparr>) ch")
  qed (simp_all add: formatTransaction_def normalizeTransactionFee_def)
  then have f: "bindR (formatTransaction env addr (tx\<lparr>xt_fee := JNull, isSelfTokenTransferCredit := True\<rparr>) ch tok d) g
      = Inl (projl (formatTransaction env addr (tx\<lparr>xt_fee := JNull, isSelfTokenTransferCredit := True\<rparr>) ch tok d))"
    for ch tok d and g :: "export_entry \<times> pk_cache \<Rightarrow> (export_entry list \<times> pk_cache) result"
    by (metis bindR_Inl sum.sel(1))
  show ?thesis using assms
    by (cases "formatTransaction env addr tx (currentChain env) (feeTokenID env) c") (auto simp: transfer_entries_def f)
qed

text \<open>
  No history with a transfer of an account to itself. When the events of the day contain the lock event of a
  token transfer whose sender is the recipient, the export of the day fails: the second line is written for a copy of the transaction whose fee is
  \<^verbatim>\<open>null\<close>, which \<^verbatim>\<open>BigInt\<close> refuses.
\<close>

theorem self_transfer_not_exported:
  assumes "i < length evs" and "is_event ''token'' ''lock'' (evs ! i)" and "topic0_of (evs ! i) = Inr (TX_ID @ xt_id tx)" and "length (xt_id tx) = LENGTH_ID"
    and "List.find (\<lambda>t. xt_id t = xt_id tx) txs = Some tx" and "List.find (\<lambda>b. xb_id b = xt_block_id tx) bs = Some b" and "checkIfSelfTokenTransfer tx"
  shows "\<exists>e. getEntriesByChronology env params bs txs evs c = Inl e"
proof -
  have tid: "getCcmIDFromTopic0 (TX_ID @ xt_id tx) = None" "getTransactionIDFromTopic0 (TX_ID @ xt_id tx) = Some (xt_id tx)"
    using assms(4) by (simp_all add: getCcmIDFromTopic0_def getTransactionIDFromTopic0_def topic_id_def TX_ID_def CCM_ID_def)
  have "\<exists>e. event_entries env addr bs txs evs i d = Inl e" for addr d
  proof -
    obtain e where "transfer_entries env addr tx d = Inl e" using self_transfer_fails [OF assms(7)] by blast
    moreover have "xt_moduleCommand tx \<noteq> TRANSFER_CROSS_CHAIN"
      using assms(7) by (simp add: checkIfSelfTokenTransfer_def TRANSFER_def TRANSFER_CROSS_CHAIN_def)
    ultimately have "message_entries env addr evs (evs ! i) tx (Some b) d = Inl e" using assms(2) by (simp add: message_entries_def)
    then show ?thesis using assms tid
      by (simp add: event_entries_def event_transaction_def event_block_def TX_ID_def)
  qed
  then have "\<exists>e. chronology_loop env addr bs txs evs [0..<length evs] ([], c) = Inl e" for addr
    using assms(1) by (intro chronology_fails [of i]) simp_all
  then have "\<exists>e. bindR (chronology_loop env addr bs txs evs [0..<length evs] ([], c)) (\<lambda>(entries, c). Inr (dropDuplicatesDeep entries, c)) = Inl e" for addr
    by (metis bindR_Inl)
  then show ?thesis by (cases "getAddressFromParams env params") (auto simp: getEntriesByChronology_def)
qed

text \<open>
  A cross-chain message as the first event of a day stops the export of the day: the search for the event before it starts two positions in
  front of the list.
\<close>

theorem first_message_not_exported:
  assumes "getAddressFromParams env params = Inr addr" and "topic0_of e = Inr (CCM_ID @ ccm)" and "length ccm = LENGTH_ID"
  shows "getEntriesByChronology env params bs txs (e # evs) c = Inl TypeError"
proof -
  have "getCcmIDFromTopic0 (CCM_ID @ ccm) = Some ccm" using assms by (simp add: getCcmIDFromTopic0_def topic_id_def)
  then have "event_entries env addr bs txs (e # evs) 0 c = Inl TypeError"
    using assms by (simp add: event_entries_def event_transaction_def ccu_transaction_def)
  moreover have "[0..<length (e # evs)] = 0 # [1..<length (e # evs)]" by (subst upt_conv_Cons) simp_all
  ultimately show ?thesis using assms unfolding getEntriesByChronology_def by (simp only: chronology_step bindR_Inl bindR_Inr)
qed

text \<open>Nor is a day exported whose last event mints the reward of the account.\<close>

theorem last_reward_not_exported:
  assumes "is_event ''token'' ''mint'' e" and "getAddressFromParams env params = Inr addr" and "topic_is e 1 addr"
    and "topic0_of e = Inr t" and "length t = LENGTH_DEFAULT_TOPIC"
  shows "\<exists>err. getEntriesByChronology env params bs txs (evs @ [e]) c = Inl err"
proof -
  have "event_entries env addr bs txs (evs @ [e]) (length evs) d = Inl TypeError" for d
    using assms by (simp add: event_entries_def reward_entries_def LENGTH_DEFAULT_TOPIC_def LENGTH_ID_def TX_ID_def CCM_ID_def)
  then have "\<exists>err. chronology_loop env addr bs txs (evs @ [e]) [0..<length (evs @ [e])] ([], c) = Inl err"
    by (intro chronology_fails [of "length evs"]) simp_all
  then show ?thesis using assms(2) by (auto simp: getEntriesByChronology_def)
qed

section \<open>Examples\<close>

definition example_id :: string where "example_id = replicate 64 (CHR ''a'')"

definition example_transfer :: "string \<Rightarrow> export_tx" where
  "example_transfer recipient =
     \<lparr>xt_id = example_id, xt_moduleCommand = TRANSFER, xt_executionStatus = ''successful'', xt_fee = JStr ''3'',
      xt_params = [(''amount'', JStr ''10''), (''recipientAddress'', JStr recipient), (''tokenID'', JStr ''00'')], xt_sender_address = JStr ''s'',
      xt_sender_publicKey = JStr ''01'', xt_senderPublicKey = JStr ''01'', xt_recipient_publicKey = JUndefined, xt_block_id = ''b'', xt_block_height = 7,
      xt_block_timestamp = 100, xt_sendingChainID = JUndefined, isSelfTokenTransferCredit = False, isIncomingCrossChainTransferTransaction = False\<rparr>"

definition example_event :: "string \<Rightarrow> string \<Rightarrow> string list \<Rightarrow> row \<Rightarrow> export_event" where
  "example_event m n ts d = \<lparr>ev_id = ''e'', ev_name = n, ev_module = m, ev_topics = Some ts, ev_index = 0, ev_height = 7, ev_data = d, ev_blockID = ''b'', ev_ccm = None\<rparr>"

definition example_xblock :: export_block where
  "example_xblock = \<lparr>xb_id = ''b'', xb_height = 7, xb_timestamp = 100, xb_generator_publicKey = JStr ''02''\<rparr>"

definition example_entry_env :: entry_env where
  "example_entry_env = \<lparr>dateFromTimestamp = (\<lambda>_. ''2024-01-01''), timeFromTimestamp = (\<lambda>_. ''01:00:00''), publicKey_address = (\<lambda>k. ''kly'' @ k), currentChain = ''04000000'',
     feeTokenID = ''00'', posTokenID = ''00'', events_at = (\<lambda>_. Inr []), all_events_at = (\<lambda>_. Inr []), transactions_by_id = (\<lambda>_. Inr []), blocks_by_id = (\<lambda>_. Inr [])\<rparr>"

definition example_params :: export_params where
  "example_params = \<lparr>xp_address = JStr ''s'', xp_publicKey = JUndefined, xp_interval = JUndefined\<rparr>"

lemma export_numbers: "js_BigInt (JStr ''10'') = Inr 10" "js_BigInt (JStr ''3'') = Inr 3"
  by code_simp+

theorem transfer_balanced_witness:
  "\<exists>es er cs cr. transfer_entries example_entry_env (JStr ''s'') (example_transfer ''r'') Map.empty = Inr ([es], cs)
     \<and> transfer_entries example_entry_env (JStr ''r'') (example_transfer ''r'') Map.empty = Inr ([er], cr) \<and> amount_of es = - 10 \<and> amount_of er = 10"
proof -
  let ?tx = "example_transfer ''r''"
  have "xt_param ?tx ''amount'' = JStr ''10''" "xt_param ?tx ''recipientAddress'' = JStr ''r''" "xt_fee ?tx = JStr ''3''"
    by (simp_all add: example_transfer_def field_def)
  then show ?thesis
    using transfer_balanced [of ?tx 10 3 "JStr ''s''" "JStr ''r''" example_entry_env Map.empty] export_numbers
    by (auto simp: example_transfer_def)
qed

theorem reward_adds_up_witness:
  "\<exists>es c'. getBlockRewardEntries example_entry_env (JStr ''s'') (example_event ''token'' ''mint'' [''03'', ''s''] [(''amount'', JStr ''10'')])
       (Some (example_event ''token'' ''lock'' [''03''] [(''amount'', JStr ''3'')])) (Some example_xblock) Map.empty = Inr (es, c') \<and> sum_list (map amount_of es) = 10"
proof -
  let ?m = "example_event ''token'' ''mint'' [''03'', ''s''] [(''amount'', JStr ''10'')]" and ?l = "example_event ''token'' ''lock'' [''03''] [(''amount'', JStr ''3'')]"
  have m: "js_BigInt (field (ev_data ?m) ''amount'') = Inr 10" "js_BigInt (field (ev_data ?l) ''amount'') = Inr 3"
    by (simp_all add: example_event_def field_def export_numbers del: js_BigInt.simps)
  then obtain es c' where e: "getBlockRewardEntries example_entry_env (JStr ''s'') ?m (Some ?l) (Some example_xblock) Map.empty = Inr (es, c')"
    by (simp add: getBlockRewardEntries_def block_entry_def Let_def del: js_BigInt.simps)
  show ?thesis using reward_adds_up [OF e m(1)] e by blast
qed

lemma example_topic:
  "topic0_of (example_event m n ((p @ example_id) # ts) d) = Inr (p @ example_id)" "length example_id = LENGTH_ID"
  by (simp_all add: topic0_of_def example_event_def example_id_def LENGTH_ID_def)

theorem self_transfer_not_exported_witness:
  "\<exists>e. getEntriesByChronology example_entry_env example_params [example_xblock] [example_transfer ''s'']
     [example_event ''token'' ''lock'' [TX_ID @ example_id, ''s''] []] Map.empty = Inl e"
proof -
  let ?e = "example_event ''token'' ''lock'' [TX_ID @ example_id, ''s''] []" and ?tx = "example_transfer ''s''"
  have i: "xt_id ?tx = example_id" by (simp add: example_transfer_def)
  show ?thesis
    by (rule self_transfer_not_exported [of 0 "[?e]" ?tx "[?tx]" "[example_xblock]" example_xblock])
      (simp_all add: i example_topic is_event_def example_event_def [of _ _ _ "[]"] topic0_of_def example_transfer_def example_xblock_def checkIfSelfTokenTransfer_def field_def)
qed

theorem first_message_not_exported_witness:
  "getEntriesByChronology example_entry_env example_params [] [] [example_event ''token'' ''ccmTransfer'' [CCM_ID @ example_id] []] Map.empty = Inl TypeError"
  by (rule first_message_not_exported [where addr = "JStr ''s''" and ccm = example_id])
    (simp_all add: getAddressFromParams_def example_params_def example_topic)

theorem last_reward_not_exported_witness:
  "\<exists>e. getEntriesByChronology example_entry_env example_params [] [] ([] @ [example_event ''token'' ''mint'' [''03'', ''s''] []]) Map.empty = Inl e"
  by (rule last_reward_not_exported [where addr = "JStr ''s''" and t = "''03''"])
    (simp_all add: getAddressFromParams_def example_params_def is_event_def example_event_def topic_is_def topic0_of_def LENGTH_DEFAULT_TOPIC_def)

lemma example_day:
  "\<exists>es c'. getEntriesByChronology example_entry_env example_params [example_xblock] [example_transfer ''r'']
     [example_event ''token'' ''lock'' [TX_ID @ example_id, ''s''] []] Map.empty = Inr ([es], c')"
proof -
  let ?e = "example_event ''token'' ''lock'' [TX_ID @ example_id, ''s''] []" and ?tx = "example_transfer ''r''"
  have i: "xt_id ?tx = example_id" "xt_block_id ?tx = ''b''" by (simp_all add: example_transfer_def)
  have t: "getCcmIDFromTopic0 (TX_ID @ example_id) = None" "getTransactionIDFromTopic0 (TX_ID @ example_id) = Some example_id"
    by (simp_all add: getCcmIDFromTopic0_def getTransactionIDFromTopic0_def topic_id_def TX_ID_def CCM_ID_def example_topic)
  have f: "\<not> isIncomingCrossChainTransferTransaction ?tx" by (simp add: example_transfer_def)
  have b: "xb_id example_xblock = ''b''" "length TX_ID = 2" "length CCM_ID = 2" by (simp_all add: example_xblock_def TX_ID_def CCM_ID_def)
  have a: "getAddressFromParams example_entry_env example_params = Inr (JStr ''s'')" by (simp add: getAddressFromParams_def example_params_def)
  have "xt_param ?tx ''amount'' = JStr ''10''" "xt_param ?tx ''recipientAddress'' = JStr ''r''" "xt_fee ?tx = JStr ''3''"
    "xt_moduleCommand ?tx = TRANSFER" "xt_executionStatus ?tx = ''successful''" "xt_sender_address ?tx = JStr ''s''"
    by (simp_all add: example_transfer_def field_def)
  then obtain es c' where tr: "transfer_entries example_entry_env (JStr ''s'') ?tx Map.empty = Inr ([es], c')"
    using normalized_transfer [of ?tx 10 3] export_numbers f
    by (auto simp: transfer_entries_def formatTransaction_def case_prod_beta Let_def simp del: js_BigInt.simps)
  have "message_entries example_entry_env (JStr ''s'') [?e] ?e ?tx (Some example_xblock) Map.empty = Inr ([es], c')"
    using tr by (simp add: message_entries_def is_event_def example_event_def example_transfer_def TRANSFER_def TRANSFER_CROSS_CHAIN_def)
  moreover have "\<not> is_event ''pos'' ''rewardsAssigned'' ?e" by (simp add: is_event_def example_event_def)
  ultimately have "event_entries example_entry_env (JStr ''s'') [example_xblock] [?tx] [?e] 0 Map.empty = Inr ([es], c')"
    by (simp add: event_entries_def event_transaction_def event_block_def example_topic t i b)
  then show ?thesis by (simp add: getEntriesByChronology_def a chronology_loop_def dropDuplicatesDeep_eq)
qed


end
