(* ===== verification/Export_Jobs.thy ===== *)
theory Export_Jobs
  imports Export_Entries
begin

text \<open>
  The export service, second part: requests for an account history, the queue of export jobs and the files. A
  job computes the history day by day; the days before today are kept as partial files, or as a flag in Redis when
  they are empty. The library moment is a set of functions on dates in the environment, the indexer a function of limit and offset per
  list.
\<close>

section \<open>Paged requests\<close>

text \<open>The answer of the indexer: a list with its total number (0 when it is missing), or an error in the place of the list.\<close>

datatype 'a page = Page "'a list" nat | PageError string

definition js_includes :: "string \<Rightarrow> string \<Rightarrow> bool" where
  "js_includes s sub \<longleftrightarrow> list_ex (\<lambda>i. take (length sub) (drop i s) = sub) [0..<Suc (length s)]"

fun standard_pages :: "(nat \<Rightarrow> nat \<Rightarrow> 'a page result) \<Rightarrow> nat \<Rightarrow> nat \<Rightarrow> nat \<Rightarrow> 'a list \<Rightarrow> 'a list result" where
  "standard_pages fn lim page 0 acc = Inr acc"
| "standard_pages fn lim page (Suc n) acc =
     bindR (fn lim (lim * page)) (\<lambda>r. case r of
       Page (x # xs) _ \<Rightarrow> standard_pages fn lim (Suc page) n (acc @ x # xs)
     | _ \<Rightarrow> Inr acc)"

definition requestAllStandard :: "(nat \<Rightarrow> nat \<Rightarrow> 'a page result) \<Rightarrow> nat \<Rightarrow> 'a list result" where
  "requestAllStandard fn limit =
     (let defaultMaxAmount = (if limit = 0 then 1000 else limit); oneRequestLimit = 100 in
      bindR (fn oneRequestLimit 0) (\<lambda>firstRequest. case firstRequest of
        PageError e \<Rightarrow> if js_includes e ''Not found'' then Inr [] else Inl TypeError
      | Page xs total_count \<Rightarrow>
          let maxAmount = (if total_count = 0 \<or> defaultMaxAmount < total_count then defaultMaxAmount else total_count) in
          if oneRequestLimit < maxAmount
          then standard_pages fn oneRequestLimit 1 ((maxAmount + oneRequestLimit - 1) div oneRequestLimit - 1) xs
          else Inr xs))"

definition page_total :: "'a page result \<Rightarrow> nat result" where
  "page_total r = bindR r (\<lambda>p. case p of Page _ n \<Rightarrow> Inr n | PageError _ \<Rightarrow> Inl TypeError)"

definition all_in_asc :: "(jsval \<Rightarrow> nat \<Rightarrow> nat \<Rightarrow> 'a page result) \<Rightarrow> jsval \<Rightarrow> jsval \<Rightarrow> 'a list result" where
  "all_in_asc fn count_address address = bindR (page_total (fn count_address 1 0)) (requestAllStandard (fn address))"

section \<open>Environment and state\<close>

record export_env = entry_env +
  today :: string
  days_between :: "string \<Rightarrow> string \<Rightarrow> string list"
  date_before :: "string \<Rightarrow> string \<Rightarrow> bool"
  day_start :: "string \<Rightarrow> int"
  day_end_ms :: "string \<Rightarrow> int"
  defaultStartDate :: string
  indexer_blocks :: "int \<times> int \<Rightarrow> jsval \<Rightarrow> nat \<Rightarrow> nat \<Rightarrow> export_block page result"
  indexer_transactions :: "int \<times> int \<Rightarrow> jsval \<Rightarrow> nat \<Rightarrow> nat \<Rightarrow> export_tx page result"
  indexer_events :: "int \<times> int \<Rightarrow> jsval \<Rightarrow> nat \<Rightarrow> nat \<Rightarrow> export_event page result"
  account_transactions :: "jsval \<Rightarrow> export_tx list result"
  account_validators :: "jsval \<Rightarrow> jsval list result"
  account_exists :: "jsval \<Rightarrow> bool result"
  balances_at_genesis :: "jsval \<Rightarrow> (jsval \<times> jsval \<times> jsval list) list result"
  chain_name :: "jsval \<Rightarrow> jsval result"
  index_status :: "(int \<times> int \<times> int \<times> int) result"
  blocks_at_height :: "int \<Rightarrow> export_block list result"

record export_job =
  job_params :: export_params
  isRescheduled :: bool
  attemptsMade :: nat

text \<open>\<open>timeouts\<close> are the pending timers that schedule a job again, by the parameters of the job.\<close>

record export_state =
  partials :: "string \<rightharpoonup> export_entry list"
  noHistoryCache :: "string \<Rightarrow> bool"
  jobScheduledCache :: "string \<Rightarrow> bool"
  staticFiles :: "string \<rightharpoonup> export_entry list \<times> row list"
  exportQueue :: "export_job list"
  timeouts :: "export_params list"
  publicKeyCache :: pk_cache

section \<open>Intervals and file names\<close>

fun split_on :: "(char \<Rightarrow> bool) \<Rightarrow> string \<Rightarrow> string list" where
  "split_on P [] = [[]]"
| "split_on P (c # cs) = (case split_on P cs of
     p # ps \<Rightarrow> if P c then [] # p # ps else (c # p) # ps
   | [] \<Rightarrow> [])"

abbreviation colon :: "char \<Rightarrow> bool" where "colon c \<equiv> c = CHR '':''"

definition standardizeIntervalFromParams :: "export_env \<Rightarrow> export_params \<Rightarrow> string result" where
  "standardizeIntervalFromParams env params = (case xp_interval params of
     JStr interval \<Rightarrow>
       if list_ex colon interval
       then let from = split_on colon interval ! 0; to = split_on colon interval ! 1 in
            if date_before env to from then Inl (Error ''ValidationException'') else Inr (from @ '':'' @ to)
       else if interval \<noteq> [] then Inr (interval @ '':'' @ today env)
       else Inr (defaultStartDate env @ '':'' @ today env)
   | _ \<Rightarrow> Inr (defaultStartDate env @ '':'' @ today env))"

definition interval_bounds :: "string \<Rightarrow> string \<times> string" where
  "interval_bounds interval = (split_on colon interval ! 0, split_on colon interval ! 1)"

definition getPartialFilenameFromParams :: "export_env \<Rightarrow> export_params \<Rightarrow> string \<Rightarrow> string result" where
  "getPartialFilenameFromParams env params day =
     bindR (getAddressFromParams (entry_env.truncate env) params) (\<lambda>address. Inr (js_String address @ ''_'' @ day @ ''.json''))"

definition getExcelFilenameFromParams :: "export_env \<Rightarrow> export_params \<Rightarrow> string result" where
  "getExcelFilenameFromParams env params =
     bindR (getAddressFromParams (entry_env.truncate env) params) (\<lambda>address.
     bindR (standardizeIntervalFromParams env params) (\<lambda>interval.
       let (from, to) = interval_bounds interval in
       Inr (''transactions_'' @ currentChain env @ ''_'' @ js_String address @ ''_'' @ from @ ''_'' @ to @ ''.xlsx'')))"

definition getExcelFileUrlFromParams :: "export_env \<Rightarrow> export_params \<Rightarrow> string result" where
  "getExcelFileUrlFromParams env params =
     bindR (getExcelFilenameFromParams env params) (\<lambda>f. Inr (''/api/v3/export/download?filename='' @ f))"

section \<open>The metadata sheet\<close>

definition getOpeningBalances :: "export_env \<Rightarrow> jsval \<Rightarrow> (jsval \<times> jsval) list result" where
  "getOpeningBalances env address =
     bindR (balances_at_genesis env address) (mapR (\<lambda>(tokenID, availableBalance, lockedBalances).
       bindR (mapR js_BigInt lockedBalances) (\<lambda>locked.
       bindR (js_BigInt availableBalance) (\<lambda>available. Inr (tokenID, js_big (available + sum_list locked))))))"

definition metadata_entry :: "jsval \<Rightarrow> jsval \<Rightarrow> string \<Rightarrow> jsval \<Rightarrow> jsval \<Rightarrow> row" where
  "metadata_entry chainID chainName currentChainID amount tokenID =
     [(''chainID'', chainID), (''chainName'', chainName), (''note'', JStr (''Current Chain ID: '' @ currentChainID)),
      (''openingBalanceAmount'', amount), (''tokenID'', tokenID)]"

definition getMetadataEntries :: "export_env \<Rightarrow> export_params \<Rightarrow> jsval \<Rightarrow> row list result" where
  "getMetadataEntries env params chainID =
     bindR (chain_name env chainID) (\<lambda>chainName.
     bindR (if chainID = JStr (currentChain env) then getOpeningBalances env (xp_address params) else Inr []) (\<lambda>openingBalances.
       Inr (if openingBalances \<noteq> [] then map (\<lambda>(tokenID, amount). metadata_entry chainID chainName (currentChain env) amount tokenID) openingBalances
            else [metadata_entry chainID chainName (currentChain env) JNull JNull])))"

section \<open>The job\<close>

definition day_range :: "export_env \<Rightarrow> string \<Rightarrow> int \<times> int" where
  "day_range env day = (day_start env day, day_end_ms env day div 1000)"

definition getAllBlocksInAsc :: "export_env \<Rightarrow> export_params \<Rightarrow> int \<times> int \<Rightarrow> export_block list result" where
  "getAllBlocksInAsc env params timestamp =
     bindR (getAddressFromParams (entry_env.truncate env) params) (all_in_asc (indexer_blocks env timestamp) (xp_address params))"

definition getAllTransactionsInAsc :: "export_env \<Rightarrow> export_params \<Rightarrow> int \<times> int \<Rightarrow> export_tx list result" where
  "getAllTransactionsInAsc env params timestamp =
     bindR (getAddressFromParams (entry_env.truncate env) params) (all_in_asc (indexer_transactions env timestamp) (xp_address params))"

definition getAllEventsInAsc :: "export_env \<Rightarrow> export_params \<Rightarrow> int \<times> int \<Rightarrow> export_event list result" where
  "getAllEventsInAsc env params timestamp = all_in_asc (indexer_events env timestamp) (xp_address params) (xp_address params)"

definition day_history :: "export_env \<Rightarrow> export_params \<Rightarrow> string \<Rightarrow> pk_cache \<Rightarrow> (export_entry list \<times> pk_cache) result" where
  "day_history env params day c =
     (let timestamp = day_range env day in
      bindR (getAllBlocksInAsc env params timestamp) (\<lambda>sortedBlocks.
      bindR (getAllTransactionsInAsc env params timestamp) (\<lambda>sortedTransactions.
      bindR (getAllEventsInAsc env params timestamp) (\<lambda>sortedEvents.
        getEntriesByChronology (entry_env.truncate env) params sortedBlocks sortedTransactions sortedEvents c))))"

text \<open>What a day leaves behind: only days that are over are kept.\<close>

definition remember_day :: "export_env \<Rightarrow> string \<Rightarrow> string \<Rightarrow> export_entry list \<Rightarrow> export_state \<Rightarrow> export_state" where
  "remember_day env day f entriesForDay s =
     (if day = today env then s
      else if entriesForDay \<noteq> [] then s\<lparr>partials := (partials s)(f \<mapsto> entriesForDay)\<rparr>
      else s\<lparr>noHistoryCache := (noHistoryCache s)(f := True)\<rparr>)"

text \<open>
  The day is fetched with the clock and the indexer of one moment, \<open>env\<close>, and remembered with the clock of a later one, \<open>now\<close>; a job that ends within one day
  sees the same clock in both.
\<close>

definition export_day_at :: "export_env \<Rightarrow> export_env \<Rightarrow> export_params \<Rightarrow> string \<Rightarrow> export_state \<Rightarrow> (export_entry list \<times> export_state) result" where
  "export_day_at env now params day s =
     bindR (getPartialFilenameFromParams env params day) (\<lambda>f.
       if noHistoryCache s f then Inr ([], s)
       else case partials s f of
         Some entriesForDay \<Rightarrow> Inr (entriesForDay, s)
       | None \<Rightarrow> bindR (day_history env params day (publicKeyCache s)) (\<lambda>(entriesForDay, c).
           Inr (entriesForDay, remember_day now day f entriesForDay (s\<lparr>publicKeyCache := c\<rparr>))))"

definition export_day :: "export_env \<Rightarrow> export_params \<Rightarrow> string \<Rightarrow> export_state \<Rightarrow> (export_entry list \<times> export_state) result" where
  "export_day env params day s = export_day_at env env params day s"

lemmas export_day_simps = export_day_def export_day_at_def

text \<open>An error stops the loop; what the days before it left behind stays.\<close>

fun export_days :: "export_env \<Rightarrow> export_params \<Rightarrow> string list \<Rightarrow> export_entry list \<Rightarrow> export_state \<Rightarrow> export_state \<times> export_entry list result" where
  "export_days env params [] all s = (s, Inr all)"
| "export_days env params (day # days) all s =
     (case export_day env params day s of
        Inl e \<Rightarrow> (s, Inl e)
      | Inr (entriesForDay, s') \<Rightarrow> export_days env params days (all @ entriesForDay) s')"

definition MAX_ATTEMPTS :: nat where "MAX_ATTEMPTS = 5"

definition set_timeout :: "export_job \<Rightarrow> export_state \<Rightarrow> export_state" where
  "set_timeout job s =
     (if \<not> isRescheduled job \<and> attemptsMade job = MAX_ATTEMPTS - 1 then s\<lparr>timeouts := timeouts s @ [job_params job]\<rparr> else s)"

definition clear_timeout :: "export_job \<Rightarrow> export_state \<Rightarrow> export_state" where
  "clear_timeout job s =
     (if \<not> isRescheduled job \<and> attemptsMade job = MAX_ATTEMPTS - 1 then s\<lparr>timeouts := remove1 (job_params job) (timeouts s)\<rparr> else s)"

definition has_history :: "export_env \<Rightarrow> export_params \<Rightarrow> bool result" where
  "has_history env params =
     bindR (account_transactions env (xp_address params)) (\<lambda>txs.
     bindR (account_validators env (xp_address params)) (\<lambda>vs. Inr (txs \<noteq> [] \<or> vs \<noteq> [])))"

definition export_interval :: "export_env \<Rightarrow> export_job \<Rightarrow> export_state \<Rightarrow> export_state \<times> export_entry list result" where
  "export_interval env job s =
     (case standardizeIntervalFromParams env (job_params job) of
        Inl e \<Rightarrow> (s, Inl e)
      | Inr interval \<Rightarrow>
          let (from, to) = interval_bounds interval in export_days env (job_params job) (days_between env from to) [] (set_timeout job s))"

definition write_workbook :: "export_env \<Rightarrow> export_params \<Rightarrow> export_entry list \<Rightarrow> export_state \<Rightarrow> (string \<times> export_state) result" where
  "write_workbook env params entries s =
     bindR (mapR (getMetadataEntries env params) (getUniqueChainIDs entries)) (\<lambda>metadataEntriesList.
     bindR (getExcelFilenameFromParams env params) (\<lambda>f.
       Inr (f, s\<lparr>staticFiles := (staticFiles s)(f \<mapsto> (entries, concat metadataEntriesList)), jobScheduledCache := (jobScheduledCache s)(f := False)\<rparr>)))"

definition exportTransactions :: "export_env \<Rightarrow> export_job \<Rightarrow> export_state \<Rightarrow> export_state \<times> string result" where
  "exportTransactions env job s =
     (case has_history env (job_params job) of
        Inl e \<Rightarrow> (s, Inl e)
      | Inr history \<Rightarrow>
          (case (if history then export_interval env job s else (s, Inr [])) of
             (s, Inl e) \<Rightarrow> (s, Inl e)
           | (s, Inr entries) \<Rightarrow>
               (case write_workbook env (job_params job) entries s of
                  Inl e \<Rightarrow> (s, Inl e)
                | Inr (f, s) \<Rightarrow> (if history then clear_timeout job s else s, Inr f))))"

definition rescheduleExportOnTimeout :: "export_env \<Rightarrow> export_params \<Rightarrow> export_state \<Rightarrow> export_state" where
  "rescheduleExportOnTimeout env params s =
     (case getExcelFilenameFromParams env params of
        Inl _ \<Rightarrow> s
      | Inr f \<Rightarrow> s\<lparr>jobScheduledCache := (jobScheduledCache s)(f := False),
                   exportQueue := exportQueue s @ [\<lparr>job_params = params, isRescheduled = True, attemptsMade = 0\<rparr>]\<rparr>)"

section \<open>Requests\<close>

datatype export_response = Pending | Accepted | Ready string string

text \<open>\<open>index_status\<close> holds \<^verbatim>\<open>percentageIndexed\<close> in hundredths, the last indexed height, the length of the chain and the number of indexed blocks.\<close>

definition checkIfIndexReadyForInterval :: "export_env \<Rightarrow> string \<Rightarrow> bool" where
  "checkIfIndexReadyForInterval env interval =
     (case index_status env of Inl _ \<Rightarrow> False
      | Inr (percentageIndexed, lastIndexedBlockHeight, chainLength, numBlocksIndexed) \<Rightarrow>
          if percentageIndexed = 10000 then True
          else let to = day_end_ms env (snd (interval_bounds interval)) in
          (case (if to < day_start env (today env) * 1000
                 then bindR (blocks_at_height env lastIndexedBlockHeight) (\<lambda>bs. case bs of b # _ \<Rightarrow> Inr (to \<le> xb_timestamp b * 1000) | [] \<Rightarrow> Inl TypeError)
                 else Inr False) of
             Inl _ \<Rightarrow> False
           | Inr covered \<Rightarrow> covered \<or> chainLength - numBlocksIndexed \<le> 10))"

text \<open>
  The request up to the call of \<^verbatim>\<open>add\<close>, and the flag that is set after it; between the two a job may run.
\<close>

definition request_export :: "export_env \<Rightarrow> export_params \<Rightarrow> export_state \<Rightarrow> (export_response \<times> export_state) result" where
  "request_export env params s =
     bindR (getAddressFromParams (entry_env.truncate env) params) (\<lambda>address.
     bindR (standardizeIntervalFromParams env params) (\<lambda>requestInterval.
     bindR (getExcelFilenameFromParams env params) (\<lambda>f.
       if jobScheduledCache s f then Inr (Pending, s)
       else if staticFiles s f \<noteq> None then bindR (getExcelFileUrlFromParams env params) (\<lambda>url. Inr (Ready f url, s))
       else bindR (account_exists env address) (\<lambda>ex.
         if \<not> ex then Inl (Error ''Unable to schedule transaction history export'')
         else if \<not> checkIfIndexReadyForInterval env requestInterval then Inl (Error ''ValidationException'')
         else Inr (Accepted, s\<lparr>exportQueue := exportQueue s @ [\<lparr>job_params = params\<lparr>xp_address := address\<rparr>, isRescheduled = False, attemptsMade = 0\<rparr>]\<rparr>)))))"

definition flag_export :: "export_env \<Rightarrow> export_params \<Rightarrow> export_state \<Rightarrow> export_state" where
  "flag_export env params s =
     (case getExcelFilenameFromParams env params of Inr f \<Rightarrow> s\<lparr>jobScheduledCache := (jobScheduledCache s)(f := True)\<rparr> | Inl _ \<Rightarrow> s)"

definition scheduleTransactionHistoryExport :: "export_env \<Rightarrow> export_params \<Rightarrow> export_state \<Rightarrow> (export_response \<times> export_state) result" where
  "scheduleTransactionHistoryExport env params s =
     bindR (request_export env params s) (\<lambda>(r, s). Inr (r, if r = Accepted then flag_export env params s else s))"

section \<open>Downloads\<close>

definition is_hex_char :: "char \<Rightarrow> bool" where
  "is_hex_char c \<longleftrightarrow> is_digit c \<or> c \<in> set ''abcdefABCDEF''"

definition is_address_char :: "char \<Rightarrow> bool" where
  "is_address_char c \<longleftrightarrow> c \<in> set ''abcdefghjkmnopqrstuvwxyz23456789''"

definition in_range :: "char \<Rightarrow> string \<Rightarrow> bool" where "in_range c s \<longleftrightarrow> c \<in> set s"

definition is_month :: "string \<Rightarrow> bool" where
  "is_month m = (case m of
     [c] \<Rightarrow> in_range c ''123456789''
   | [c, d] \<Rightarrow> (c = CHR ''1'' \<and> in_range d ''012'') \<or> (c = CHR ''0'' \<and> in_range d ''123456789'')
   | _ \<Rightarrow> False)"

definition is_day :: "string \<Rightarrow> bool" where
  "is_day m = (case m of
     [c, d] \<Rightarrow> (in_range c ''012'' \<and> in_range d ''123456789'') \<or> (in_range c ''123'' \<and> d = CHR ''0'') \<or> m = ''31''
   | _ \<Rightarrow> False)"

definition is_date :: "string \<Rightarrow> bool" where
  "is_date s = (case split_on (\<lambda>c. c = CHR ''-'') s of
     [y, m, d] \<Rightarrow> length y = 4 \<and> list_all is_digit y \<and> is_month m \<and> is_day d
   | _ \<Rightarrow> False)"

text \<open>The parts of the expression \<^verbatim>\<open>EXCEL_EXPORT_FILENAME\<close> contain no underscore, so they are the sections between the underscores.\<close>

definition EXCEL_EXPORT_FILENAME :: "string \<Rightarrow> bool" where
  "EXCEL_EXPORT_FILENAME f = (case split_on (\<lambda>c. c = CHR ''_'') f of
     [t, chain, address, from, to] \<Rightarrow>
        t = ''transactions'' \<and> length chain = 8 \<and> list_all is_hex_char chain
        \<and> take 3 address = ''kly'' \<and> length address = 41 \<and> list_all is_address_char (drop 3 address)
        \<and> is_date from \<and> 5 \<le> length to \<and> drop (length to - 5) to = ''.xlsx'' \<and> is_date (take (length to - 5) to)
   | _ \<Rightarrow> False)"

definition end_date :: "string \<Rightarrow> string" where
  "end_date filename = (let splits = split_on (\<lambda>c. c = CHR ''_'' \<or> c = CHR ''.'') filename in splits ! (length splits - 2))"

definition downloadTransactionHistory :: "export_env \<Rightarrow> string \<Rightarrow> export_state \<Rightarrow> ((export_entry list \<times> row list) \<times> export_state) result" where
  "downloadTransactionHistory env filename s =
     (if \<not> EXCEL_EXPORT_FILENAME filename then Inl (Error ''ValidationException'')
      else case staticFiles s filename of
        None \<Rightarrow> Inl (Error ''NotFoundException'')
      | Some content \<Rightarrow> Inr (content, if end_date filename = today env then s\<lparr>staticFiles := (staticFiles s)(filename := None)\<rparr> else s))"

section \<open>Pages\<close>

text \<open>An indexer that keeps the list \<open>xs\<close> and answers with the asked section of it.\<close>

definition serves_list :: "(nat \<Rightarrow> nat \<Rightarrow> 'a page result) \<Rightarrow> 'a list \<Rightarrow> bool" where
  "serves_list fn xs \<longleftrightarrow> (\<forall>l o'. fn l o' = Inr (Page (take l (drop o' xs)) (length xs)))"

lemma standard_pages_serve:
  assumes "serves_list fn xs" and "0 < lim"
  shows "standard_pages fn lim page n (take (lim * page) xs) = Inr (take (lim * (page + n)) xs)"
proof (induction n arbitrary: page)
  case (Suc n)
  show ?case
  proof (cases "take lim (drop (lim * page) xs)")
    case Nil
    then have "length xs \<le> lim * page" using assms(2) by simp
    moreover from this have "length xs \<le> lim * (page + Suc n)" by (meson le_add1 mult_le_mono2 order_trans)
    ultimately show ?thesis using assms(1) by (simp add: serves_list_def)
  next
    case (Cons y ys)
    have "take (lim * page) xs @ y # ys = take (lim * Suc page) xs"
      unfolding Cons [symmetric] take_add [symmetric] by (simp add: algebra_simps)
    then show ?thesis using Suc.IH [of "Suc page"] assms(1) Cons by (simp add: serves_list_def)
  qed
qed simp

lemma requestAllStandard_all:
  assumes "serves_list fn xs"
  shows "requestAllStandard fn (length xs) = Inr xs"
proof -
  define m where "m = (if xs = [] then 1000 else length xs)"
  have f: "fn 100 0 = Inr (Page (take (100 * 1) xs) (length xs))" using assms by (simp add: serves_list_def)
  have "m \<le> 100 * ((m + 99) div 100)" using div_mult_mod_eq [of "m + 99" 100] mod_less_divisor [of 100 "m + 99"] by linarith
  moreover have "length xs \<le> m" by (simp add: m_def)
  ultimately have "length xs \<le> 100 * ((m + 99) div 100)" by linarith
  then have "standard_pages fn 100 1 ((m + 99) div 100 - 1) (take (100 * 1) xs) = Inr xs" if "100 < m"
    using standard_pages_serve [OF assms, of 100 1 "(m + 99) div 100 - 1"] that by simp
  moreover have "take 100 xs = xs" if "\<not> 100 < m" using that by (auto simp: m_def split: if_splits)
  ultimately show ?thesis unfolding requestAllStandard_def Let_def f m_def by (auto simp: add.commute split: if_splits)
qed

text \<open>
  A list requested page by page from the indexer is the whole list. Asked with the number of its entries, as all callers do,
  \<^verbatim>\<open>requestAllStandard\<close> ends and gives exactly the entries, in order; for an empty list the ten pages it
  may ask for stop at the first.
\<close>

theorem requestAllStandard_collects:
  assumes "serves_list fn xs"
  shows "requestAllStandard fn (length xs) = Inr xs"
  using assms by (rule requestAllStandard_all)

section \<open>Cached days\<close>

definition is_history :: "export_env \<Rightarrow> export_params \<Rightarrow> string \<Rightarrow> export_entry list \<Rightarrow> bool" where
  "is_history env params day es \<longleftrightarrow> (\<exists>c c'. day_history env params day c = Inr (es, c'))"

definition caches_ok :: "export_env \<Rightarrow> export_params \<Rightarrow> export_state \<Rightarrow> bool" where
  "caches_ok env params s \<longleftrightarrow> (\<forall>day f. getPartialFilenameFromParams env params day = Inr f \<longrightarrow>
     (noHistoryCache s f \<longrightarrow> is_history env params day []) \<and> (\<forall>es. partials s f = Some es \<longrightarrow> is_history env params day es))"

lemma partial_name_inject:
  "getPartialFilenameFromParams env params day = Inr f \<Longrightarrow> getPartialFilenameFromParams env params day' = Inr f \<Longrightarrow> day = day'"
  by (auto simp: getPartialFilenameFromParams_def bindR_eq_Inr)

lemma export_day_ok:
  assumes ok: "caches_ok env params s" and run: "export_day env params day s = Inr (es, s')"
  shows "is_history env params day es \<and> caches_ok env params s'"
proof -
  obtain f where f: "getPartialFilenameFromParams env params day = Inr f" using run by (auto simp: export_day_simps bindR_eq_Inr)
  show ?thesis
  proof (cases "noHistoryCache s f \<or> partials s f \<noteq> None")
    case True
    then show ?thesis using run ok f by (auto simp: export_day_simps caches_ok_def split: if_splits)
  next
    case False
    then obtain c' where h: "day_history env params day (publicKeyCache s) = Inr (es, c')"
      and s': "s' = remember_day env day f es (s\<lparr>publicKeyCache := c'\<rparr>)" using run f by (auto simp: export_day_simps bindR_eq_Inr)
    from h have "is_history env params day es" by (auto simp: is_history_def)
    moreover from this have "caches_ok env params s'"
      using ok partial_name_inject [OF f] unfolding caches_ok_def s' by (auto simp: remember_day_def split: if_splits)
    ultimately show ?thesis ..
  qed
qed

lemma export_days_ok:
  assumes "caches_ok env params s" and "export_days env params days all s = (s', r)"
  shows "caches_ok env params s' \<and> (\<forall>out. r = Inr out \<longrightarrow> (\<exists>ess. list_all2 (is_history env params) days ess \<and> out = all @ concat ess))"
  using assms
proof (induction days arbitrary: all s)
  case (Cons day days)
  show ?case
  proof (cases "export_day env params day s")
    case (Inr x)
    obtain es s1 where x: "x = (es, s1)" by (cases x)
    then have d: "is_history env params day es" "caches_ok env params s1" using export_day_ok [OF Cons.prems(1)] Inr by simp_all
    moreover have "export_days env params days (all @ es) s1 = (s', r)" using Cons.prems(2) Inr x by simp
    ultimately have IH: "caches_ok env params s' \<and> (\<forall>out. r = Inr out \<longrightarrow> (\<exists>ess. list_all2 (is_history env params) days ess \<and> out = (all @ es) @ concat ess))"
      using Cons.IH by blast
    show ?thesis
    proof (intro conjI allI impI)
      fix out assume "r = Inr out"
      then obtain ess where "list_all2 (is_history env params) days ess" "out = (all @ es) @ concat ess" using IH by blast
      then show "\<exists>ess. list_all2 (is_history env params) (day # days) ess \<and> out = all @ concat ess" using d(1) by (intro exI [of _ "es # ess"]) simp
    qed (use IH in blast)
  qed (use Cons.prems in auto)
qed auto

lemma caches_ok_fields:
  "partials s' = partials s \<Longrightarrow> noHistoryCache s' = noHistoryCache s \<Longrightarrow> caches_ok env params s' = caches_ok env params s"
  by (simp add: caches_ok_def)

lemma timeout_caches:
  "caches_ok env params (set_timeout job s) = caches_ok env params s" "caches_ok env params (clear_timeout job s) = caches_ok env params s"
  "partials (set_timeout job s) = partials s" "noHistoryCache (set_timeout job s) = noHistoryCache s" "staticFiles (clear_timeout job s) = staticFiles s"
  "partials (clear_timeout job s) = partials s" "noHistoryCache (clear_timeout job s) = noHistoryCache s"
  by (simp_all add: caches_ok_def set_timeout_def clear_timeout_def)

lemma workbook_written:
  assumes "write_workbook env params entries s = Inr (f, s')"
  shows "\<exists>ms. staticFiles s' f = Some (entries, ms)" "partials s' = partials s" "noHistoryCache s' = noHistoryCache s"
    "getExcelFilenameFromParams env params = Inr f" "\<not> jobScheduledCache s' f"
  using assms by (auto simp: write_workbook_def bindR_eq_Inr)

lemma interval_run:
  assumes "export_interval env job s = (s', Inr entries)"
  obtains interval where "standardizeIntervalFromParams env (job_params job) = Inr interval"
    "export_days env (job_params job) (days_between env (fst (interval_bounds interval)) (snd (interval_bounds interval))) [] (set_timeout job s) = (s', Inr entries)"
  using assms by (auto simp: export_interval_def case_prod_beta Let_def split: sum.splits)


lemma job_interval:
  assumes "exportTransactions env job s = (s', r)"
  obtains s1 r1 where "(s1, r1) = (s, Inr []) \<or> export_interval env job s = (s1, r1)" "partials s' = partials s1" "noHistoryCache s' = noHistoryCache s1"
proof (cases "has_history env (job_params job)")
  case (Inr h)
  define p where "p = (if h then export_interval env job s else (s, Inr []))"
  obtain s1 r1 where p1: "p = (s1, r1)" by (cases p)
  have "partials s' = partials s1 \<and> noHistoryCache s' = noHistoryCache s1"
  proof (cases r1)
    case (Inl e)
    then show ?thesis using assms Inr p1 by (simp add: exportTransactions_def p_def [symmetric])
  next
    case r1: (Inr entries)
    then show ?thesis using assms Inr p1 workbook_written(2,3) [of env "job_params job" entries s1]
      by (auto simp: exportTransactions_def p_def [symmetric] timeout_caches split: sum.splits prod.splits)
  qed
  then show ?thesis using that [of s1 r1] p1 by (simp add: p_def split: if_splits)
qed (use assms that [of s "Inr []"] in \<open>auto simp: exportTransactions_def\<close>)

text \<open>
  The handling of one day by some job at some time, with the clock and the indexer as they are then. The days of different jobs may follow each other in any order.
\<close>

definition handle_day :: "export_env \<times> export_env \<times> export_params \<times> string \<Rightarrow> export_state \<Rightarrow> export_state" where
  "handle_day x s = (case x of (env, now, params, day) \<Rightarrow> case export_day_at env now params day s of Inl _ \<Rightarrow> s | Inr (_, s') \<Rightarrow> s')"

lemma handle_day_ok:
  assumes ok: "caches_ok final params s" and a: "js_Boolean (xp_address params)" "xp_address p = xp_address params"
    and past: "day = today now \<or> (\<forall>es. is_history env p day es \<longrightarrow> is_history final params day es)"
  shows "caches_ok final params (handle_day (env, now, p, day) s)"
proof (cases "export_day_at env now p day s")
  case (Inr x)
  obtain es s' where x: "x = (es, s')" by (cases x)
  have n: "getPartialFilenameFromParams e q d = Inr (js_String (xp_address params) @ ''_'' @ d @ ''.json'')" if "xp_address q = xp_address params" for e q d
    using that a(1) by (simp add: getPartialFilenameFromParams_def getAddressFromParams_def)
  let ?f = "js_String (xp_address params) @ ''_'' @ day @ ''.json''"
  show ?thesis
  proof (cases "noHistoryCache s ?f \<or> partials s ?f \<noteq> None")
    case True
    then have "s' = s" using Inr a(2) by (auto simp: export_day_at_def n x split: if_splits)
    then show ?thesis using ok Inr by (simp add: handle_day_def x)
  next
    case False
    then obtain c where h: "day_history env p day (publicKeyCache s) = Inr (es, c)" and s': "s' = remember_day now day ?f es (s\<lparr>publicKeyCache := c\<rparr>)"
      using Inr a(2) by (auto simp: export_day_at_def n x bindR_eq_Inr)
    have "is_history env p day es" using h by (auto simp: is_history_def)
    then have "day = today now \<or> is_history final params day es" using past by blast
    then show ?thesis using ok Inr by (auto simp: handle_day_def x s' remember_day_def caches_ok_def n split: if_splits)
  qed
qed (use ok in \<open>simp add: handle_day_def\<close>)

lemma export_days_handled:
  assumes "export_days env params days all s = (s', r)"
  shows "\<exists>n. s' = fold handle_day (map (\<lambda>day. (env, env, params, day)) (take n days)) s"
  using assms
proof (induction days arbitrary: all s)
  case (Cons day days)
  show ?case
  proof (cases "export_day env params day s")
    case (Inl e)
    then show ?thesis using Cons.prems by (intro exI [of _ 0]) simp
  next
    case (Inr x)
    obtain es s1 where x: "x = (es, s1)" by (cases x)
    then obtain n where "s' = fold handle_day (map (\<lambda>day. (env, env, params, day)) (take n days)) s1" using Cons Inr by fastforce
    moreover have "handle_day (env, env, params, day) s = s1" using Inr x by (simp add: handle_day_def export_day_def)
    ultimately show ?thesis by (intro exI [of _ "Suc n"]) simp
  qed
qed (simp add: exI [of _ 0])

lemma handle_days_fields:
  assumes "partials s = partials t" "noHistoryCache s = noHistoryCache t" "publicKeyCache s = publicKeyCache t"
  shows "partials (fold handle_day steps s) = partials (fold handle_day steps t) \<and> noHistoryCache (fold handle_day steps s) = noHistoryCache (fold handle_day steps t)
     \<and> publicKeyCache (fold handle_day steps s) = publicKeyCache (fold handle_day steps t)"
  using assms
proof (induction steps arbitrary: s t)
  case (Cons x steps)
  obtain env now p day where x: "x = (env, now, p, day)" by (metis prod_cases4)
  have "partials (handle_day x s) = partials (handle_day x t) \<and> noHistoryCache (handle_day x s) = noHistoryCache (handle_day x t)
     \<and> publicKeyCache (handle_day x s) = publicKeyCache (handle_day x t)"
    using Cons.prems
    by (auto simp: x handle_day_def export_day_at_def remember_day_def bindR_def split: sum.splits option.splits if_splits prod.splits)
  then show ?case using Cons.IH [of "handle_day x s" "handle_day x t"] by simp
qed simp

lemma job_handles_days:
  assumes "exportTransactions env job s = (s', r)"
  shows "\<exists>days. partials s' = partials (fold handle_day (map (\<lambda>day. (env, env, job_params job, day)) days) s)
     \<and> noHistoryCache s' = noHistoryCache (fold handle_day (map (\<lambda>day. (env, env, job_params job, day)) days) s)"
proof -
  from assms obtain s1 r1 where r1: "(s1, r1) = (s, Inr []) \<or> export_interval env job s = (s1, r1)"
    and eq: "partials s' = partials s1" "noHistoryCache s' = noHistoryCache s1" by (rule job_interval)
  have "s1 = s \<or> (\<exists>ds. export_days env (job_params job) ds [] (set_timeout job s) = (s1, r1))"
    using r1 by (auto simp: export_interval_def case_prod_beta Let_def split: sum.splits)
  then obtain days where "s1 = s \<and> days = [] \<or> s1 = fold handle_day (map (\<lambda>day. (env, env, job_params job, day)) days) (set_timeout job s)"
    using export_days_handled by metis
  moreover have "publicKeyCache (set_timeout job s) = publicKeyCache s" by (simp add: set_timeout_def)
  ultimately show ?thesis using eq handle_days_fields [of "set_timeout job s" s] by (intro exI [of _ days]) (auto simp: timeout_caches)
qed


text \<open>
  A day to come is not the current day: asked for too early, it is flagged as empty, and the flag still holds when the day has
  passed and has a history.
\<close>

theorem future_day_lost:
  assumes "getPartialFilenameFromParams env params day = Inr f" and "\<not> noHistoryCache s f" and "partials s f = None" and "day \<noteq> today env"
    and "day_history env params day (publicKeyCache s) = Inr ([], c)" and "getPartialFilenameFromParams later params day = Inr f"
  shows "\<exists>s'. export_day env params day s = Inr ([], s') \<and> export_day later params day s' = Inr ([], s')"
  using assms by (simp add: export_day_simps remember_day_def)

section \<open>Requests and files\<close>

lemma named_address:
  assumes "getAddressFromParams e params = Inr address"
  shows "getAddressFromParams e (params\<lparr>xp_address := address\<rparr>) = Inr address"
  using assms by (auto simp: getAddressFromParams_def split: if_splits jsval.splits)

lemma named_file:
  assumes "getAddressFromParams (entry_env.truncate env) params = Inr address"
  shows "getExcelFilenameFromParams env (params\<lparr>xp_address := address\<rparr>) = getExcelFilenameFromParams env params"
  using assms named_address [OF assms] by (simp add: getExcelFilenameFromParams_def standardizeIntervalFromParams_def)

lemma request_accepted:
  assumes "request_export env params s = Inr (Accepted, s1)"
  obtains address interval f where "getAddressFromParams (entry_env.truncate env) params = Inr address" "standardizeIntervalFromParams env params = Inr interval"
    "getExcelFilenameFromParams env params = Inr f"
    "s1 = s\<lparr>exportQueue := exportQueue s @ [\<lparr>job_params = params\<lparr>xp_address := address\<rparr>, isRescheduled = False, attemptsMade = 0\<rparr>]\<rparr>"
  using assms by (auto simp: request_export_def bindR_eq_Inr split: if_splits)

lemma request_known:
  assumes "getAddressFromParams (entry_env.truncate env) params = Inr address" and "standardizeIntervalFromParams env params = Inr interval"
    and "getExcelFilenameFromParams env params = Inr f"
  shows "jobScheduledCache s f \<Longrightarrow> scheduleTransactionHistoryExport env params s = Inr (Pending, s)"
    "\<not> jobScheduledCache s f \<Longrightarrow> staticFiles s f \<noteq> None \<Longrightarrow> \<exists>url. scheduleTransactionHistoryExport env params s = Inr (Ready f url, s)"
  using assms by (simp_all add: scheduleTransactionHistoryExport_def request_export_def getExcelFileUrlFromParams_def)

lemma job_file:
  assumes "exportTransactions env job s = (s', Inr f)"
  shows "getExcelFilenameFromParams env (job_params job) = Inr f" "staticFiles s' f \<noteq> None" "\<not> jobScheduledCache s' f"
proof -
  obtain h where h: "has_history env (job_params job) = Inr h" using assms by (cases "has_history env (job_params job)") (auto simp: exportTransactions_def)
  define p where "p = (if h then export_interval env job s else (s, Inr []))"
  obtain s1 entries s2 where w: "write_workbook env (job_params job) entries s1 = Inr (f, s2)" and s': "s' = (if h then clear_timeout job s2 else s2)"
    using assms h by (auto simp: exportTransactions_def p_def [symmetric] split: sum.splits prod.splits)
  show "getExcelFilenameFromParams env (job_params job) = Inr f" "staticFiles s' f \<noteq> None" "\<not> jobScheduledCache s' f"
    using workbook_written [OF w] by (auto simp: s' clear_timeout_def)
qed

text \<open>
  A later time at which a request means the same: the same account, the same interval, which is so when its two ends are given or the day is the same, and the same chain.
\<close>

definition same_request :: "export_env \<Rightarrow> export_env \<Rightarrow> export_params \<Rightarrow> bool" where
  "same_request env env' params \<longleftrightarrow> currentChain env' = currentChain env
     \<and> getAddressFromParams (entry_env.truncate env') params = getAddressFromParams (entry_env.truncate env) params
     \<and> standardizeIntervalFromParams env' params = standardizeIntervalFromParams env params"

lemma same_request_file: "same_request env env' params \<Longrightarrow> getExcelFilenameFromParams env' params = getExcelFilenameFromParams env params"
  by (simp add: same_request_def getExcelFilenameFromParams_def)

text \<open>The flag of a request in Redis expires after twice the timeout of a job.\<close>

definition expire_flag :: "string \<Rightarrow> export_state \<Rightarrow> export_state" where
  "expire_flag f s = s\<lparr>jobScheduledCache := (jobScheduledCache s)(f := False)\<rparr>"


text \<open>
  A job that is faster than its request hides its file. The flag is set after the job is added to the queue; if the job
  runs in between, the file exists but the request is answered as pending, and no job is left that would clear the flag.
\<close>

theorem late_flag_hides_file:
  assumes "request_export env params s = Inr (Accepted, s1)" and "exportQueue s1 = q @ [job]" and "exportTransactions env job s1 = (s2, Inr f)"
  shows "staticFiles (flag_export env params s2) f \<noteq> None
     \<and> scheduleTransactionHistoryExport env params (flag_export env params s2) = Inr (Pending, flag_export env params s2)"
proof -
  from assms(1) obtain address interval f' where a: "getAddressFromParams (entry_env.truncate env) params = Inr address"
    and i: "standardizeIntervalFromParams env params = Inr interval" and f: "getExcelFilenameFromParams env params = Inr f'"
    and s1: "s1 = s\<lparr>exportQueue := exportQueue s @ [\<lparr>job_params = params\<lparr>xp_address := address\<rparr>, isRescheduled = False, attemptsMade = 0\<rparr>]\<rparr>"
    by (rule request_accepted)
  have "job_params job = params\<lparr>xp_address := address\<rparr>" using assms(2) by (auto simp: s1)
  then have "f' = f" using job_file(1) [OF assms(3)] named_file [OF a] f by simp
  then show ?thesis using job_file(2) [OF assms(3)] request_known(1) [OF a i f, of "flag_export env params s2"] f by (simp add: flag_export_def)
qed

lemma split_on_nonempty: "split_on P xs \<noteq> []"
  by (induction xs) (auto split: list.split)

lemma split_on_join: "P c \<Longrightarrow> split_on P (xs @ c # ys) = split_on P xs @ split_on P ys"
proof (induction xs)
  case Nil
  then show ?case using split_on_nonempty [of P ys] by (cases "split_on P ys") auto
next
  case (Cons x xs)
  then show ?case using split_on_nonempty [of P xs] by (cases "split_on P xs") auto
qed

lemma split_on_none: "list_all (\<lambda>c. \<not> P c) xs \<Longrightarrow> split_on P xs = [xs]"
  by (induction xs) simp_all

text \<open>
  The file of an interval that ends today is removed by its download, so that the next request computes the day again; every other file stays. The end of the
  interval is read back from the name of the file.
\<close>

theorem download_removes_unfinished:
  assumes "getExcelFilenameFromParams env params = Inr f" and "standardizeIntervalFromParams env params = Inr interval"
    and "interval_bounds interval = (from, to)" and "list_all (\<lambda>c. c \<noteq> CHR ''_'' \<and> c \<noteq> CHR ''.'') to"
    and "downloadTransactionHistory env f s = Inr (content, s')"
  shows "staticFiles s f = Some content \<and> staticFiles s' f = (if to = today env then None else Some content) \<and> (\<forall>g. g \<noteq> f \<longrightarrow> staticFiles s' g = staticFiles s g)"
proof -
  let ?P = "\<lambda>c. c = CHR ''_'' \<or> c = CHR ''.''"
  have "\<exists>pre. f = pre @ CHR ''_'' # (to @ CHR ''.'' # ''xlsx'')"
  proof -
    obtain address where "f = ''transactions_'' @ currentChain env @ ''_'' @ js_String address @ ''_'' @ from @ ''_'' @ to @ ''.xlsx''"
      using assms(1-3) by (auto simp: getExcelFilenameFromParams_def bindR_eq_Inr)
    then have "f = (''transactions_'' @ currentChain env @ ''_'' @ js_String address @ ''_'' @ from) @ CHR ''_'' # (to @ CHR ''.'' # ''xlsx'')" by simp
    then show ?thesis by blast
  qed
  then obtain pre where "f = pre @ CHR ''_'' # (to @ CHR ''.'' # ''xlsx'')" by blast
  moreover have "split_on ?P (to @ CHR ''.'' # ''xlsx'') = [to, ''xlsx'']"
    using split_on_join [of ?P "CHR ''.''" to "''xlsx''"] split_on_none [of ?P to] assms(4) by simp
  ultimately have "split_on ?P f = split_on ?P pre @ [to, ''xlsx'']" using split_on_join [of ?P "CHR ''_''" pre "to @ CHR ''.'' # ''xlsx''"] by simp
  then have "end_date f = to" by (simp add: end_date_def nth_append)
  then show ?thesis using assms(5) by (auto simp: downloadTransactionHistory_def split: if_splits option.splits)
qed

section \<open>Examples\<close>

definition example_pages :: "'a list \<Rightarrow> nat \<Rightarrow> nat \<Rightarrow> 'a page result" where
  "example_pages xs l o' = Inr (Page (take l (drop o' xs)) (length xs))"

definition example_export_env :: export_env where
  "example_export_env = entry_env.extend example_entry_env
     \<lparr>today = ''2024-01-02'', days_between = (\<lambda>from to. if from = to then [from] else [from, to]), date_before = (\<lambda>_ _. False),
      day_start = (\<lambda>_. 0), day_end_ms = (\<lambda>_. 86399999), defaultStartDate = ''2024-01-01'',
      indexer_blocks = (\<lambda>_ _. example_pages [example_xblock]), indexer_transactions = (\<lambda>_ _. example_pages [example_transfer ''r'']),
      indexer_events = (\<lambda>_ _. example_pages [example_event ''token'' ''lock'' [TX_ID @ example_id, ''s''] []]),
      account_transactions = (\<lambda>_. Inr [example_transfer ''r'']), account_validators = (\<lambda>_. Inr []), account_exists = (\<lambda>_. Inr True),
      balances_at_genesis = (\<lambda>_. Inr []), chain_name = (\<lambda>_. Inr (JStr ''swaptoshi'')), index_status = Inr (10000, 7, 8, 8), blocks_at_height = (\<lambda>_. Inr [])\<rparr>"

definition example_request :: export_params where
  "example_request = example_params\<lparr>xp_interval := JStr ''2024-01-01:2024-01-01''\<rparr>"

definition example_exports :: export_state where
  "example_exports = \<lparr>partials = Map.empty, noHistoryCache = (\<lambda>_. False), jobScheduledCache = (\<lambda>_. False), staticFiles = Map.empty, exportQueue = [],
     timeouts = [], publicKeyCache = Map.empty\<rparr>"

lemma example_pages_serve: "serves_list (example_pages xs) xs"
  by (simp add: serves_list_def example_pages_def)

lemma example_export_fields:
  "entry_env.truncate example_export_env = example_entry_env" "today example_export_env = ''2024-01-02''" "days_between example_export_env d d = [d]"
  "account_transactions example_export_env a = Inr [example_transfer ''r'']" "account_validators example_export_env a = Inr []" "account_exists example_export_env a = Inr True"
  "index_status example_export_env = Inr (10000, 7, 8, 8)" "chain_name example_export_env k = Inr (JStr ''swaptoshi'')" "balances_at_genesis example_export_env a = Inr []"
  "indexer_blocks example_export_env t = (\<lambda>_. example_pages [example_xblock])" "indexer_transactions example_export_env t = (\<lambda>_. example_pages [example_transfer ''r''])"
  "indexer_events example_export_env t = (\<lambda>_. example_pages [example_event ''token'' ''lock'' [TX_ID @ example_id, ''s''] []])"
  by (simp_all add: example_export_env_def entry_env.defs)

lemma example_pages_all: "fn = (\<lambda>_. example_pages xs) \<Longrightarrow> all_in_asc fn a b = Inr xs"
proof -
  have "requestAllStandard (example_pages xs) (length xs) = Inr xs"
    by (rule requestAllStandard_all [OF example_pages_serve])
  moreover assume "fn = (\<lambda>_. example_pages xs)"
  ultimately show ?thesis by (simp add: all_in_asc_def page_total_def example_pages_def)
qed

lemma example_request_facts:
  "getAddressFromParams e example_request = Inr (JStr ''s'')" "getAddressFromParams e example_params = Inr (JStr ''s'')"
  "standardizeIntervalFromParams example_export_env example_request = Inr ''2024-01-01:2024-01-01''"
  "interval_bounds ''2024-01-01:2024-01-01'' = (''2024-01-01'', ''2024-01-01'')"
  "has_history example_export_env example_request = Inr True"
  by (simp_all add: getAddressFromParams_def example_request_def example_params_def standardizeIntervalFromParams_def interval_bounds_def has_history_def
      example_export_fields) (simp add: example_export_env_def entry_env.defs)

lemma example_history:
  obtains e c where "day_history example_export_env example_request day Map.empty = Inr ([e], c)"
proof -
  obtain e c where "getEntriesByChronology example_entry_env example_params [example_xblock] [example_transfer ''r'']
     [example_event ''token'' ''lock'' [TX_ID @ example_id, ''s''] []] Map.empty = Inr ([e], c)" using example_day by blast
  then have "getEntriesByChronology example_entry_env example_request [example_xblock] [example_transfer ''r'']
     [example_event ''token'' ''lock'' [TX_ID @ example_id, ''s''] []] Map.empty = Inr ([e], c)"
    by (simp add: getEntriesByChronology_def example_request_facts)
  then show ?thesis
    by (intro that [of e c]) (simp add: day_history_def getAllBlocksInAsc_def getAllTransactionsInAsc_def getAllEventsInAsc_def Let_def
        example_export_fields example_request_facts example_pages_all)
qed

lemma example_metadata: "\<exists>ms. mapR (getMetadataEntries example_export_env params) cs = Inr ms"
  by (induction cs) (auto simp: getMetadataEntries_def getOpeningBalances_def example_export_fields)

lemma example_file:
  "getExcelFilenameFromParams example_export_env example_request = Inr ''transactions_04000000_s_2024-01-01_2024-01-01.xlsx''"
  by (simp add: getExcelFilenameFromParams_def example_export_fields example_request_facts) (simp add: example_export_env_def entry_env.defs example_entry_env_def)

lemma example_job:
  assumes "partials s = Map.empty" "\<And>f. \<not> noHistoryCache s f" "publicKeyCache s = Map.empty"
  shows "\<exists>s' f. exportTransactions example_export_env \<lparr>job_params = example_request, isRescheduled = False, attemptsMade = 0\<rparr> s = (s', Inr f)"
proof -
  let ?job = "\<lparr>job_params = example_request, isRescheduled = False, attemptsMade = 0\<rparr>"
  obtain e c where h: "day_history example_export_env example_request ''2024-01-01'' Map.empty = Inr ([e], c)" using example_history .
  have "\<exists>s1. export_interval example_export_env ?job s = (s1, Inr [e])"
    using assms h by (simp add: export_interval_def example_request_facts example_export_fields set_timeout_def MAX_ATTEMPTS_def export_day_simps
        getPartialFilenameFromParams_def)
  then obtain s1 where i: "export_interval example_export_env ?job s = (s1, Inr [e])" by blast
  obtain ms where "mapR (getMetadataEntries example_export_env example_request) (getUniqueChainIDs [e]) = Inr ms" using example_metadata by blast
  then have "\<exists>f s2. write_workbook example_export_env example_request [e] s1 = Inr (f, s2)" by (simp add: write_workbook_def example_file)
  then show ?thesis using i by (auto simp: exportTransactions_def example_request_facts)
qed

lemma example_caches: "caches_ok example_export_env params example_exports"
  by (simp add: caches_ok_def example_exports_def)

theorem requestAllStandard_collects_witness: "requestAllStandard (example_pages [1, 2, 3 :: nat]) 3 = Inr [1, 2, 3]"
  using requestAllStandard_collects [OF example_pages_serve, of "[1, 2, 3 :: nat]"] by (simp add: eval_nat_numeral)



lemma example_request_export:
  "request_export example_export_env example_request example_exports
     = Inr (Accepted, example_exports\<lparr>exportQueue := [\<lparr>job_params = example_request, isRescheduled = False, attemptsMade = 0\<rparr>]\<rparr>)"
proof -
  have "example_request\<lparr>xp_address := JStr ''s''\<rparr> = example_request" by (simp add: example_request_def example_params_def)
  then show ?thesis
    by (simp add: request_export_def example_request_facts example_file example_export_fields checkIfIndexReadyForInterval_def) (simp add: example_exports_def)
qed


theorem late_flag_hides_file_witness:
  "\<exists>s f. staticFiles s f \<noteq> None \<and> scheduleTransactionHistoryExport example_export_env example_request s = Inr (Pending, s)"
proof -
  let ?job = "\<lparr>job_params = example_request, isRescheduled = False, attemptsMade = 0\<rparr>"
  let ?s1 = "example_exports\<lparr>exportQueue := [?job]\<rparr>"
  obtain s2 f where r: "exportTransactions example_export_env ?job ?s1 = (s2, Inr f)" using example_job [of ?s1] by (auto simp: example_exports_def)
  have "exportQueue ?s1 = [] @ [?job]" by simp
  from late_flag_hides_file [OF example_request_export this r] show ?thesis by blast
qed

theorem download_removes_unfinished_witness:
  "\<exists>f s'. downloadTransactionHistory example_export_env f (example_exports\<lparr>staticFiles := [f \<mapsto> ([], [])]\<rparr>) = Inr (([], []), s') \<and> staticFiles s' f = Some ([], [])"
proof -
  let ?p = "\<lparr>xp_address = JStr (''kly'' @ replicate 38 (CHR ''a'')), xp_publicKey = JUndefined, xp_interval = JStr ''2024-01-01:2024-01-01''\<rparr>"
  let ?f = "''transactions_04000000_kly'' @ replicate 38 (CHR ''a'') @ ''_2024-01-01_2024-01-01.xlsx''"
  have i: "standardizeIntervalFromParams example_export_env ?p = Inr ''2024-01-01:2024-01-01''"
    by (simp add: standardizeIntervalFromParams_def) (simp add: example_export_env_def entry_env.defs)
  have f: "getExcelFilenameFromParams example_export_env ?p = Inr ?f"
    unfolding getExcelFilenameFromParams_def i
    by (simp add: getAddressFromParams_def example_request_facts) (simp add: example_export_env_def entry_env.defs example_entry_env_def)
  have "EXCEL_EXPORT_FILENAME ?f" by code_simp
  then obtain s' where d: "downloadTransactionHistory example_export_env ?f (example_exports\<lparr>staticFiles := [?f \<mapsto> ([], [])]\<rparr>) = Inr (([], []), s')"
    by (simp add: downloadTransactionHistory_def)
  have "list_all (\<lambda>c. c \<noteq> CHR ''_'' \<and> c \<noteq> CHR ''.'') ''2024-01-01''" by simp
  from download_removes_unfinished [OF f i example_request_facts(4) this d] d show ?thesis by (auto simp: example_export_fields)
qed

end
