(* ===== verification/Js_Sort.thy ===== *)
theory Js_Sort
  imports Js_Values "HOL-Library.Multiset"
begin

text \<open>
  Sorting with a comparator, as the code sorts lists of validators, of dates and of keys.
\<close>

text \<open>\<^verbatim>\<open>Array.prototype.sort\<close>: a stable sort; for a consistent comparator its result does not depend on the algorithm.\<close>

fun js_insert :: "('a \<Rightarrow> 'a \<Rightarrow> int) \<Rightarrow> 'a \<Rightarrow> 'a list \<Rightarrow> 'a list" where
  "js_insert cmp x [] = [x]"
| "js_insert cmp x (y # ys) = (if cmp x y \<le> 0 then x # y # ys else y # js_insert cmp x ys)"

definition js_sort :: "('a \<Rightarrow> 'a \<Rightarrow> int) \<Rightarrow> 'a list \<Rightarrow> 'a list" where
  "js_sort cmp xs = foldr (js_insert cmp) xs []"

section \<open>Sorting with a comparator\<close>

text \<open>Whatever the comparator, sorting loses and invents nothing.\<close>

lemma mset_js_insert: "mset (js_insert cmp x xs) = add_mset x (mset xs)"
  by (induction xs) auto

lemma mset_js_sort [simp]: "mset (js_sort cmp xs) = mset xs"
  unfolding js_sort_def by (induction xs) (simp_all add: mset_js_insert)

lemma set_js_sort [simp]: "set (js_sort cmp xs) = set xs"
  using mset_js_sort by (metis set_mset_mset)

locale consistent_comparator =
  fixes cmp :: "'a \<Rightarrow> 'a \<Rightarrow> int"
  assumes linear: "cmp x y \<le> 0 \<or> cmp y x \<le> 0"
    and transitive: "cmp x y \<le> 0 \<Longrightarrow> cmp y z \<le> 0 \<Longrightarrow> cmp x z \<le> 0"
begin

lemma sorted_insert:
  assumes "sorted_wrt (\<lambda>x y. cmp x y \<le> 0) xs"
  shows "sorted_wrt (\<lambda>x y. cmp x y \<le> 0) (js_insert cmp x xs)"
  using assms
proof (induction xs)
  case (Cons y ys)
  show ?case
  proof (cases "cmp x y \<le> 0")
    case True
    then show ?thesis using Cons.prems transitive [OF True] by auto
  next
    case False
    moreover have "set (js_insert cmp x ys) = insert x (set ys)" using mset_js_insert [of cmp x ys] by (metis set_mset_add_mset_insert set_mset_mset)
    ultimately show ?thesis using Cons linear [of x y] by auto
  qed
qed simp

lemma sorted_sort: "sorted_wrt (\<lambda>x y. cmp x y \<le> 0) (js_sort cmp xs)"
  unfolding js_sort_def by (induction xs) (simp_all add: sorted_insert)

lemma sort_before:
  assumes "i < length (js_sort cmp xs)" and "j < length (js_sort cmp xs)" and "0 < cmp (js_sort cmp xs ! j) (js_sort cmp xs ! i)"
  shows "i < j"
proof (rule ccontr)
  assume "\<not> i < j"
  then have "j = i \<or> j < i" by linarith
  then show False
  proof
    assume "j = i"
    then show False using assms(3) linear [of "js_sort cmp xs ! i" "js_sort cmp xs ! i"] by auto
  next
    assume "j < i"
    then have "cmp (js_sort cmp xs ! j) (js_sort cmp xs ! i) \<le> 0" using sorted_wrt_nth_less [OF sorted_sort] assms(1) by blast
    then show False using assms(3) by simp
  qed
qed

end

end
