(* ===== verification/Validator_List.thy ===== *)
theory Validator_List
  imports Js_Sort
begin

text \<open>
  The validators of the chain, \<^verbatim>\<open>dataService/pos/validators.js\<close> and \<^verbatim>\<open>dataService/business/pos/validators.js\<close>: a list in memory with the weight, the rank and
  the status of every validator, loaded from the node and kept up to date by listeners for new and deleted blocks.
\<close>

section \<open>Validators\<close>

text \<open>
  \<open>punishmentPeriods\<close> and \<open>reportMisbehaviorHeights\<close> hold the fields \<^verbatim>\<open>start\<close> and \<^verbatim>\<open>end\<close> of their entries; a field may be missing.
\<close>

record pos_validator =
  pv_address :: string
  pv_name :: string
  pv_isBanned :: bool
  totalStake :: jsval
  selfStake :: jsval
  punishmentPeriods :: "(jsval \<times> jsval) list"
  reportMisbehaviorHeights :: "(jsval \<times> jsval) list"
  validatorWeight :: int
  pv_publicKey :: jsval
  pv_rank :: "nat option"
  pv_status :: "string option"
  pv_generatedBlocks :: jsval
  pv_rewards :: jsval
  pv_commission :: jsval

record validator_env =
  hexAddress :: "string \<Rightarrow> nat list"
  publicKey_to_address :: "string \<Rightarrow> string"
  rawValidators :: "pos_validator list result"
  rawValidator :: "string \<Rightarrow> pos_validator result"
  indexed_publicKey :: "string \<Rightarrow> jsval result"
  generators :: "string list result"
  numberActiveValidators :: nat
  numberStandbyValidators :: nat
  latest_height :: "int option"
  isPosModuleRegistered :: bool
  MIN_ELIGIBLE_VOTE_WEIGHT :: int
  header_generator :: "string \<Rightarrow> string result"

definition in_period :: "int option \<Rightarrow> jsval \<times> jsval \<Rightarrow> bool" where
  "in_period h = (\<lambda>(s, e). case (h, s, e) of (Some n, JNum a, JNum b) \<Rightarrow> a \<le> n \<and> n \<le> b | _ \<Rightarrow> False)"

section \<open>Weights\<close>

text \<open>The weight of a validator is its stake, at most ten times what it staked itself; a banned or punished one has none.\<close>

definition weigh :: "validator_env \<Rightarrow> pos_validator \<Rightarrow> pos_validator result" where
  "weigh env v =
     (if pv_isBanned v \<or> list_ex (in_period (latest_height env)) (reportMisbehaviorHeights v) then Inr (v\<lparr>validatorWeight := 0\<rparr>)
      else bindR (js_BigInt (selfStake v)) (\<lambda>self.
           bindR (js_BigInt (totalStake v)) (\<lambda>stake.
             let cap = self * 10 in Inr (v\<lparr>totalStake := JBig stake, validatorWeight := if cap < stake then cap else stake\<rparr>))))"

definition business_getPosValidators :: "validator_env \<Rightarrow> string list \<Rightarrow> pos_validator list result" where
  "business_getPosValidators env addresses = mapR (\<lambda>a. bindR (rawValidator env a) (weigh env)) addresses"

definition getAllPosValidators :: "validator_env \<Rightarrow> pos_validator list result" where
  "getAllPosValidators env =
     bindR (rawValidators env) (mapR (\<lambda>v.
       bindR (weigh env v) (\<lambda>v. bindR (indexed_publicKey env (pv_address v)) (\<lambda>k. Inr (v\<lparr>pv_publicKey := k\<rparr>)))))"

section \<open>Ranks\<close>

definition buffer_compare :: "nat list \<Rightarrow> nat list \<Rightarrow> int" where
  "buffer_compare a b = (if a = b then 0 else if a < b then - 1 else 1)"

definition validatorComparator :: "validator_env \<Rightarrow> pos_validator \<Rightarrow> pos_validator \<Rightarrow> int" where
  "validatorComparator env a b =
     (let diff = validatorWeight b - validatorWeight a in
      if diff \<noteq> 0 then diff else buffer_compare (hexAddress env (pv_address b)) (hexAddress env (pv_address a)))"

definition computeValidatorRank :: "validator_env \<Rightarrow> pos_validator list \<Rightarrow> pos_validator list" where
  "computeValidatorRank env validatorList =
     map (\<lambda>(i, v). v\<lparr>pv_rank := Some (i + 1)\<rparr>) (enumerate 0 (js_sort (validatorComparator env) validatorList))"

section \<open>Status\<close>

definition slice_from :: "int \<Rightarrow> 'a list \<Rightarrow> 'a list" where
  "slice_from i xs = drop (nat (if i < 0 then max 0 (int (length xs) + i) else i)) xs"

definition validator_status :: "validator_env \<Rightarrow> string list \<Rightarrow> string list \<Rightarrow> pos_validator \<Rightarrow> string" where
  "validator_status env active standby v =
     (if pv_isBanned v then ''banned''
      else if list_ex (in_period (latest_height env)) (punishmentPeriods v) then ''punished''
      else if pv_address v \<in> set active then ''active''
      else if pv_address v \<in> set standby then ''standby''
      else if MIN_ELIGIBLE_VOTE_WEIGHT env \<le> validatorWeight v then ''standby''
      else ''ineligible'')"

definition generator_info :: "validator_env \<Rightarrow> string list \<Rightarrow> pos_validator list \<Rightarrow> pos_validator list" where
  "generator_info env gens validatorList = js_sort (validatorComparator env) (filter (\<lambda>v. pv_address v \<in> set gens) validatorList)"

definition computeValidatorStatus :: "validator_env \<Rightarrow> pos_validator list \<Rightarrow> pos_validator list result" where
  "computeValidatorStatus env validatorList =
     bindR (generators env) (\<lambda>gens.
     let info = generator_info env gens validatorList;
         active = map pv_address (take (numberActiveValidators env) info);
         standby = map pv_address (slice_from (int (length info) - int (numberStandbyValidators env)) info)
     in Inr (map (\<lambda>v. v\<lparr>pv_status := Some (validator_status env active standby v)\<rparr>) validatorList))"

text \<open>A failure while loading keeps the old list. The names are also written to the cache and the accounts table, which are not read here.\<close>

definition loadAllPosValidators :: "validator_env \<Rightarrow> pos_validator list \<Rightarrow> pos_validator list" where
  "loadAllPosValidators env validatorList = (case getAllPosValidators env of Inr vs \<Rightarrow> vs | Inl _ \<Rightarrow> validatorList)"

definition reloadValidatorCache :: "validator_env \<Rightarrow> pos_validator list \<Rightarrow> pos_validator list result" where
  "reloadValidatorCache env validatorList =
     (if \<not> isPosModuleRegistered env then Inr validatorList
      else computeValidatorStatus env (computeValidatorRank env (loadAllPosValidators env validatorList)))"

definition getAllValidators :: "validator_env \<Rightarrow> pos_validator list \<Rightarrow> pos_validator list result" where
  "getAllValidators env validatorList = (if validatorList = [] then reloadValidatorCache env validatorList else Inr validatorList)"

section \<open>Blocks\<close>

record pos_tx =
  px_module :: string
  px_command :: string
  px_senderPublicKey :: string
  px_stakes :: "string list"
  px_header1 :: string

datatype block_event = NewBlock | DeleteBlock

text \<open>The addresses that a transaction changes, and whether it reports misbehaviour.\<close>

definition updated_addresses :: "validator_env \<Rightarrow> pos_tx \<Rightarrow> string list \<times> bool \<Rightarrow> (string list \<times> bool) result" where
  "updated_addresses env tx = (\<lambda>(as, misbehaviour).
     if px_module tx \<noteq> ''pos'' then Inr (as, misbehaviour)
     else if px_command tx \<in> {''registerValidator'', ''changeCommission''} then Inr (as @ [publicKey_to_address env (px_senderPublicKey tx)], misbehaviour)
     else if px_command tx = ''stake'' then Inr (as @ px_stakes tx, misbehaviour)
     else if px_command tx = ''reportMisbehavior'' then bindR (header_generator env (px_header1 tx)) (\<lambda>g. Inr (as @ [g], True))
     else Inr (as, misbehaviour))"

fun find_validator :: "string \<Rightarrow> pos_validator list \<Rightarrow> nat option" where
  "find_validator a [] = None"
| "find_validator a (v # vs) = (if pv_address v = a then Some 0 else map_option Suc (find_validator a vs))"

definition merge_validator :: "block_event \<Rightarrow> pos_validator \<Rightarrow> pos_validator list \<Rightarrow> pos_validator list" where
  "merge_validator eventType v validatorList =
     (case find_validator (pv_address v) validatorList of
        Some i \<Rightarrow> if eventType = DeleteBlock then take i validatorList @ drop (Suc i) validatorList
                  else validatorList[i := v\<lparr>pv_status := pv_status (validatorList ! i)\<rparr>]
      | None \<Rightarrow> validatorList @ [v])"

definition count_reward :: "block_event \<Rightarrow> jsval \<Rightarrow> pos_validator \<Rightarrow> pos_validator" where
  "count_reward eventType reward v =
     (case pv_generatedBlocks v of
        JNum n \<Rightarrow>
          if n \<noteq> 0 \<and> js_Boolean (pv_rewards v)
          then let v = v\<lparr>pv_generatedBlocks := JNum (if eventType = NewBlock then n + 1 else n - 1)\<rparr> in
               (case bindR (js_BigInt (pv_rewards v)) (\<lambda>r. bindR (js_BigInt reward) (\<lambda>x. Inr (if eventType = NewBlock then r + x else r - x))) of
                  Inr r \<Rightarrow> v\<lparr>pv_rewards := JStr (show_int r)\<rparr> | Inl _ \<Rightarrow> v)
          else v
      | _ \<Rightarrow> v)"

text \<open>The handler of both signals. An error is logged; what was changed before it stays.\<close>

definition apply_updates :: "validator_env \<Rightarrow> block_event \<Rightarrow> string list \<Rightarrow> pos_validator list \<Rightarrow> pos_validator list result" where
  "apply_updates env eventType addresses validatorList =
     (if addresses = [] then Inr validatorList
      else bindR (business_getPosValidators env addresses) (\<lambda>accounts.
        Inr (computeValidatorRank env (fold (merge_validator eventType) accounts validatorList))))"

definition generator_update :: "block_event \<Rightarrow> string \<Rightarrow> jsval \<Rightarrow> pos_validator list \<Rightarrow> pos_validator list" where
  "generator_update eventType generatorAddress reward vs =
     (case find_validator generatorAddress vs of
        Some i \<Rightarrow> vs[i := count_reward eventType reward (vs ! i)]
      | None \<Rightarrow> vs)"

definition updateValidatorCacheListener :: "validator_env \<Rightarrow> block_event \<Rightarrow> pos_tx list \<Rightarrow> string \<Rightarrow> jsval \<Rightarrow> pos_validator list \<Rightarrow> pos_validator list" where
  "updateValidatorCacheListener env eventType transactions generatorAddress reward validatorList =
     (case bindR (foldR (updated_addresses env) transactions ([], False)) (\<lambda>(addresses, misbehaviour).
             bindR (apply_updates env eventType addresses validatorList) (\<lambda>vs. Inr (vs, addresses \<noteq> [] \<and> misbehaviour))) of
        Inl _ \<Rightarrow> validatorList
      | Inr (vs, False) \<Rightarrow> generator_update eventType generatorAddress reward vs
      | Inr (vs, True) \<Rightarrow> (case computeValidatorStatus env vs of Inr vs' \<Rightarrow> generator_update eventType generatorAddress reward vs' | Inl _ \<Rightarrow> vs))"

section \<open>Ranking\<close>

interpretation ranking: consistent_comparator "validatorComparator env"
  by unfold_locales (auto simp: validatorComparator_def buffer_compare_def Let_def split: if_splits)

lemma comparator_greater:
  assumes "validatorWeight b < validatorWeight a \<or> validatorWeight b = validatorWeight a \<and> hexAddress env (pv_address b) < hexAddress env (pv_address a)"
  shows "0 < validatorComparator env b a"
  using assms by (auto simp: validatorComparator_def buffer_compare_def)

text \<open>
  C15: The ranks are a ranking by weight. Computing them keeps the validators, numbers them from 1 without gaps, gives the smaller number to the greater
  weight, and orders equal weights by the address, the greater one first.
\<close>

theorem ranks_follow_weight:
  "mset (map pv_address (computeValidatorRank env vs)) = mset (map pv_address vs)
   \<and> map pv_rank (computeValidatorRank env vs) = map (\<lambda>i. Some (i + 1)) [0..<length vs]
   \<and> (\<forall>v \<in> set (computeValidatorRank env vs). \<forall>w \<in> set (computeValidatorRank env vs).
        validatorWeight w < validatorWeight v \<or> validatorWeight w = validatorWeight v \<and> hexAddress env (pv_address w) < hexAddress env (pv_address v)
          \<longrightarrow> the (pv_rank v) < the (pv_rank w))"
proof (intro conjI ballI impI)
  let ?c = "validatorComparator env" and ?r = "computeValidatorRank env vs"
  have len: "length (js_sort ?c vs) = length vs" using mset_js_sort [of "validatorComparator env" vs] by (metis size_mset)
  have "map pv_address ?r = map pv_address (map snd (enumerate 0 (js_sort ?c vs)))"
    unfolding computeValidatorRank_def map_map by (rule map_cong) (auto simp: comp_def)
  then have "map pv_address ?r = map pv_address (js_sort ?c vs)" by simp
  moreover have "mset (map pv_address (js_sort ?c vs)) = mset (map pv_address vs)" by (simp add: mset_js_sort)
  ultimately show "mset (map pv_address ?r) = mset (map pv_address vs)" by simp
  show "map pv_rank ?r = map (\<lambda>i. Some (i + 1)) [0..<length vs]"
  proof -
    have "map pv_rank ?r = map (\<lambda>i. Some (i + 1)) (map fst (enumerate 0 (js_sort ?c vs)))"
      unfolding computeValidatorRank_def map_map by (rule map_cong) (auto simp: comp_def)
    then show ?thesis by (simp add: len)
  qed
  fix v w assume v: "v \<in> set ?r" and w: "w \<in> set ?r"
    and less: "validatorWeight w < validatorWeight v \<or> validatorWeight w = validatorWeight v \<and> hexAddress env (pv_address w) < hexAddress env (pv_address v)"
  obtain i where i: "i < length vs" "v = (js_sort ?c vs ! i)\<lparr>pv_rank := Some (i + 1)\<rparr>"
    using v by (auto simp: computeValidatorRank_def in_set_enumerate_eq len)
  obtain j where j: "j < length vs" "w = (js_sort ?c vs ! j)\<lparr>pv_rank := Some (j + 1)\<rparr>"
    using w by (auto simp: computeValidatorRank_def in_set_enumerate_eq len)
  have "validatorWeight v = validatorWeight (js_sort ?c vs ! i)" "pv_address v = pv_address (js_sort ?c vs ! i)"
    "validatorWeight w = validatorWeight (js_sort ?c vs ! j)" "pv_address w = pv_address (js_sort ?c vs ! j)" by (simp_all add: i(2) j(2))
  then have "0 < ?c (js_sort ?c vs ! j) (js_sort ?c vs ! i)" using less by (intro comparator_greater) metis
  then have "i < j" using ranking.sort_before [of i env vs j] i j len by simp
  then show "the (pv_rank v) < the (pv_rank w)" using i j by simp
qed

section \<open>Status and weights\<close>

text \<open>
  At most the configured number of validators is active, every active validator is a generator that is neither
  banned nor punished, and every banned validator is shown as banned.
\<close>

theorem active_validators_bounded:
  assumes "distinct (map pv_address vs)" and "generators env = Inr gens" and "computeValidatorStatus env vs = Inr vs'"
  shows "map pv_address vs' = map pv_address vs \<and> length (filter (\<lambda>v. pv_status v = Some ''active'') vs') \<le> numberActiveValidators env
     \<and> (\<forall>v \<in> set vs'. (pv_status v = Some ''active'' \<longrightarrow> pv_address v \<in> set gens \<and> \<not> pv_isBanned v \<and> \<not> list_ex (in_period (latest_height env)) (punishmentPeriods v))
          \<and> (pv_isBanned v \<longrightarrow> pv_status v = Some ''banned''))"
proof -
  define info where "info = generator_info env gens vs"
  define active where "active = map pv_address (take (numberActiveValidators env) info)"
  obtain standby where vs': "vs' = map (\<lambda>v. v\<lparr>pv_status := Some (validator_status env active standby v)\<rparr>) vs"
    using assms(2,3) by (auto simp: computeValidatorStatus_def info_def active_def Let_def)
  have addr: "map pv_address vs' = map pv_address vs" by (simp add: vs')
  have "set active \<subseteq> pv_address ` set info" by (auto simp: active_def dest: in_set_takeD)
  moreover have "set info = set (filter (\<lambda>v. pv_address v \<in> set gens) vs)"
    unfolding info_def generator_info_def by (rule mset_eq_setD) (rule mset_js_sort)
  ultimately have gens: "set active \<subseteq> set gens" by auto
  have st: "pv_status v = Some ''active'' \<longrightarrow> pv_address v \<in> set active \<and> \<not> pv_isBanned v \<and> \<not> list_ex (in_period (latest_height env)) (punishmentPeriods v)"
    "pv_isBanned v \<longrightarrow> pv_status v = Some ''banned''" if "v \<in> set vs'" for v
    using that by (auto simp: vs' validator_status_def split: if_splits)
  let ?f = "filter (\<lambda>v. pv_status v = Some ''active'') vs'"
  have "distinct (map pv_address vs')" using assms(1) addr by simp
  then have "length ?f = card (set (map pv_address ?f))" using distinct_card [OF distinct_map_filter, of pv_address vs' "\<lambda>v. pv_status v = Some ''active''"] by simp
  also have "\<dots> \<le> card (set active)" using st(1) by (intro card_mono subsetI) (simp, auto)
  also have "\<dots> \<le> length active" by (rule card_length)
  also have "\<dots> \<le> numberActiveValidators env" by (simp add: active_def)
  finally show ?thesis using addr st gens by blast
qed

text \<open>
  A weight never exceeds the stake nor ten times the own stake, and a banned validator has none.
\<close>

theorem weight_capped:
  assumes "weigh env v = Inr v'" and "js_BigInt (totalStake v) = Inr total_stake" and "js_BigInt (selfStake v) = Inr own" and "0 \<le> total_stake" and "0 \<le> own"
  shows "0 \<le> validatorWeight v' \<and> validatorWeight v' \<le> total_stake \<and> validatorWeight v' \<le> 10 * own \<and> (pv_isBanned v \<longrightarrow> validatorWeight v' = 0)"
  using assms by (auto simp: weigh_def Let_def split: if_splits)

section \<open>New and deleted blocks\<close>

lemma find_validator_Some: "find_validator a vs = Some i \<Longrightarrow> i < length vs \<and> pv_address (vs ! i) = a"
  by (induction vs arbitrary: i) (auto split: if_splits)

lemma find_validator_None: "find_validator a vs = None \<longleftrightarrow> a \<notin> pv_address ` set vs"
  by (induction vs) auto

lemma rank_addresses: "mset (map pv_address (computeValidatorRank env vs)) = mset (map pv_address vs)"
proof -
  let ?s = "js_sort (validatorComparator env) vs"
  have "map pv_address (computeValidatorRank env vs) = map pv_address (map snd (enumerate 0 ?s))"
    unfolding computeValidatorRank_def map_map by (rule map_cong) (auto simp: comp_def)
  then show ?thesis by (simp add: mset_js_sort)
qed

lemma rank_distinct: "distinct (map pv_address (computeValidatorRank env vs)) = distinct (map pv_address vs)"
  using rank_addresses [of env vs] by (metis mset_eq_imp_distinct_iff)

lemma rank_set: "pv_address ` set (computeValidatorRank env vs) = pv_address ` set vs"
  using rank_addresses [of env vs] by (metis list.set_map mset_eq_setD)

lemma status_addresses: "computeValidatorStatus env vs = Inr vs' \<Longrightarrow> map pv_address vs' = map pv_address vs"
  by (auto simp: computeValidatorStatus_def bindR_eq_Inr Let_def)

lemma update_addresses: "pv_address v = pv_address (vs ! i) \<Longrightarrow> map pv_address (vs[i := v]) = map pv_address vs"
  by (cases "i < length vs") (simp_all add: map_update list_update_same_conv list_update_beyond)

lemma generator_addresses: "map pv_address (generator_update ev g r vs) = map pv_address vs"
proof (cases "find_validator g vs")
  case (Some i)
  have "pv_address (count_reward ev r (vs ! i)) = pv_address (vs ! i)" by (simp add: count_reward_def Let_def split: jsval.split sum.split)
  then show ?thesis using Some by (simp add: generator_update_def update_addresses)
qed (simp add: generator_update_def)

lemma merge_new: "map pv_address (merge_validator NewBlock v vs) = map pv_address vs @ (if pv_address v \<in> pv_address ` set vs then [] else [pv_address v])"
proof (cases "find_validator (pv_address v) vs")
  case None
  then show ?thesis using find_validator_None [of "pv_address v" vs] by (simp add: merge_validator_def)
next
  case (Some i)
  then have "i < length vs" "pv_address (vs ! i) = pv_address v" using find_validator_Some by simp_all
  moreover from this have "pv_address v \<in> pv_address ` set vs" by (metis image_eqI nth_mem)
  ultimately show ?thesis using Some by (simp add: merge_validator_def update_addresses)
qed

lemma merge_fold_new:
  "distinct (map pv_address vs) \<Longrightarrow> distinct (map pv_address (fold (merge_validator NewBlock) ws vs))
     \<and> pv_address ` set (fold (merge_validator NewBlock) ws vs) = pv_address ` set vs \<union> pv_address ` set ws"
proof (induction ws arbitrary: vs)
  case (Cons w ws)
  have d: "distinct (map pv_address (merge_validator NewBlock w vs))" using Cons.prems by (auto simp: merge_new)
  have "set (map pv_address (merge_validator NewBlock w vs)) = insert (pv_address w) (pv_address ` set vs)" unfolding merge_new by auto
  then show ?case using Cons.IH [OF d] by auto
qed simp

lemma listener_addresses:
  assumes "foldR (updated_addresses env) txs ([], False) = Inr (as, m)" and "apply_updates env ev as vs = Inr us"
  shows "map pv_address (updateValidatorCacheListener env ev txs g r vs) = map pv_address us"
  using assms by (auto simp: updateValidatorCacheListener_def generator_addresses status_addresses split: sum.split bool.split)

lemma weigh_address: "weigh env v = Inr v' \<Longrightarrow> pv_address v' = pv_address v"
  by (auto simp: weigh_def bindR_eq_Inr Let_def split: if_splits)

lemma asked_addresses:
  assumes "\<And>a v. rawValidator env a = Inr v \<Longrightarrow> pv_address v = a" and "business_getPosValidators env as = Inr ws"
  shows "map pv_address ws = as"
  using assms(2) unfolding business_getPosValidators_def
proof (induction as arbitrary: ws)
  case (Cons a as)
  then show ?case using assms(1) weigh_address by (auto simp: bindR_eq_Inr)
qed simp

text \<open>
  A new block loses no validator. If the node answers for the addresses that the transactions of the block name, the list afterwards has
  exactly the validators it had and those named, each once.
\<close>

theorem new_block_keeps_validators:
  assumes "distinct (map pv_address vs)" and "\<And>a v. rawValidator env a = Inr v \<Longrightarrow> pv_address v = a"
    and "foldR (updated_addresses env) txs ([], False) = Inr (as, m)" and "business_getPosValidators env as = Inr ws"
  shows "distinct (map pv_address (updateValidatorCacheListener env NewBlock txs g r vs))
     \<and> pv_address ` set (updateValidatorCacheListener env NewBlock txs g r vs) = pv_address ` set vs \<union> set as"
proof -
  define us where "us = (if as = [] then vs else computeValidatorRank env (fold (merge_validator NewBlock) ws vs))"
  have u: "apply_updates env NewBlock as vs = Inr us" using assms(4) by (simp add: apply_updates_def us_def)
  have "map pv_address ws = as" using asked_addresses [OF assms(2,4)] .
  then have "pv_address ` set ws = set as" by (metis list.set_map)
  then have "distinct (map pv_address us)" "pv_address ` set us = pv_address ` set vs \<union> set as"
    using assms(1) merge_fold_new [OF assms(1), of ws] rank_distinct [of env "fold (merge_validator NewBlock) ws vs"] rank_set [of env "fold (merge_validator NewBlock) ws vs"]
    by (auto simp: us_def)
  then show ?thesis using listener_addresses [OF assms(3) u, of g r] by (metis list.set_map)
qed

text \<open>
  A deleted block loses validators. When a block with a stake for a validator is deleted, the validator is removed from the list
  although it is still registered; the comment in the code expects only registrations here.
\<close>

theorem deleted_stake_drops_validator:
  assumes "distinct (map pv_address vs)" and "a \<in> pv_address ` set vs" and "rawValidator env a = Inr v" and "pv_address v = a" and "weigh env v = Inr v'"
    and "px_module tx = ''pos''" and "px_command tx = ''stake''" and "px_stakes tx = [a]"
  shows "a \<notin> pv_address ` set (updateValidatorCacheListener env DeleteBlock [tx] g r vs)"
proof -
  obtain i where "find_validator a vs = Some i" using assms(2) find_validator_None by (metis option.exhaust)
  then have i: "find_validator a vs = Some i" "i < length vs" "pv_address (vs ! i) = a" using find_validator_Some by auto
  have v': "pv_address v' = a" using weigh_address [OF assms(5)] assms(4) by simp
  have f: "foldR (updated_addresses env) [tx] ([], False) = Inr ([a], False)" using assms(6-8) by (simp add: updated_addresses_def)
  have m: "merge_validator DeleteBlock v' vs = take i vs @ drop (Suc i) vs" using i(1) v' by (simp add: merge_validator_def)
  have u: "apply_updates env DeleteBlock [a] vs = Inr (computeValidatorRank env (take i vs @ drop (Suc i) vs))"
    using assms(3,5) m by (simp add: apply_updates_def business_getPosValidators_def)
  have "vs = take i vs @ vs ! i # drop (Suc i) vs" using i(2) by (rule id_take_nth_drop)
  then have "map pv_address vs = map pv_address (take i vs) @ a # map pv_address (drop (Suc i) vs)" using i(3) by (metis list.simps(9) map_append)
  then have "a \<notin> pv_address ` set (take i vs @ drop (Suc i) vs)" using assms(1) by auto
  then show ?thesis using listener_addresses [OF f u, of g r] rank_set [of env "take i vs @ drop (Suc i) vs"] by (metis list.set_map)
qed

section \<open>Examples\<close>

definition example_validator :: "string \<Rightarrow> int \<Rightarrow> pos_validator" where
  "example_validator a w = \<lparr>pv_address = a, pv_name = a, pv_isBanned = False, totalStake = JBig w, selfStake = JBig w, punishmentPeriods = [], reportMisbehaviorHeights = [],
     validatorWeight = w, pv_publicKey = JNull, pv_rank = None, pv_status = None, pv_generatedBlocks = JUndefined, pv_rewards = JUndefined, pv_commission = JNum 100\<rparr>"

definition example_validator_env :: validator_env where
  "example_validator_env = \<lparr>hexAddress = map of_char, publicKey_to_address = id, rawValidators = Inr [], rawValidator = (\<lambda>a. Inr (example_validator a 5)),
     indexed_publicKey = (\<lambda>_. Inr JNull), generators = Inr [''a'', ''b''], numberActiveValidators = 1, numberStandbyValidators = 1, latest_height = Some 3,
     isPosModuleRegistered = True, MIN_ELIGIBLE_VOTE_WEIGHT = 100, header_generator = (\<lambda>_. Inl TypeError)\<rparr>"

definition example_list :: "pos_validator list" where
  "example_list = [example_validator ''a'' 3, example_validator ''b'' 7]"

definition example_pos_tx :: pos_tx where
  "example_pos_tx = \<lparr>px_module = ''pos'', px_command = ''stake'', px_senderPublicKey = [], px_stakes = [''a''], px_header1 = []\<rparr>"

lemma example_list_addresses: "map pv_address example_list = [''a'', ''b'']"
  by (simp add: example_list_def example_validator_def)

theorem ranks_follow_weight_witness: "map (\<lambda>v. (pv_address v, pv_rank v)) (computeValidatorRank example_validator_env example_list) = [(''b'', Some 1), (''a'', Some 2)]"
proof -
  let ?r = "computeValidatorRank example_validator_env example_list"
  have "length ?r = 2" "map pv_address ?r = [''b'', ''a'']"
    by (simp_all add: computeValidatorRank_def js_sort_def example_list_def validatorComparator_def example_validator_def)
  moreover have "map pv_rank ?r = [Some 1, Some 2]"
    using ranks_follow_weight [of example_validator_env example_list] by (simp add: example_list_def upt_rec)
  ultimately show ?thesis by (auto simp: length_Suc_conv numeral_2_eq_2)
qed

theorem active_validators_bounded_witness:
  "\<exists>vs'. computeValidatorStatus example_validator_env example_list = Inr vs' \<and> length (filter (\<lambda>v. pv_status v = Some ''active'') vs') \<le> 1"
proof -
  have d: "distinct (map pv_address example_list)" and g: "generators example_validator_env = Inr [''a'', ''b'']"
    by (simp_all add: example_list_addresses example_validator_env_def)
  obtain vs' where c: "computeValidatorStatus example_validator_env example_list = Inr vs'" using g by (simp add: computeValidatorStatus_def Let_def)
  show ?thesis using active_validators_bounded [OF d g c] c by (auto simp: example_validator_env_def)
qed

lemma example_weigh: "\<exists>v'. weigh example_validator_env (example_validator a w) = Inr v'"
  by (simp add: weigh_def example_validator_def)

theorem weight_capped_witness: "\<exists>v'. weigh example_validator_env (example_validator ''a'' 5) = Inr v' \<and> validatorWeight v' \<le> 5"
proof -
  obtain v' where v': "weigh example_validator_env (example_validator ''a'' 5) = Inr v'" using example_weigh by blast
  have "js_BigInt (totalStake (example_validator ''a'' 5)) = Inr 5" "js_BigInt (selfStake (example_validator ''a'' 5)) = Inr 5" by (simp_all add: example_validator_def)
  from weight_capped [OF v' this] v' show ?thesis by auto
qed

theorem new_block_keeps_validators_witness:
  "pv_address ` set (updateValidatorCacheListener example_validator_env NewBlock [example_pos_tx\<lparr>px_stakes := [''c'']\<rparr>] ''a'' JUndefined example_list) = {''a'', ''b'', ''c''}"
proof -
  let ?tx = "example_pos_tx\<lparr>px_stakes := [''c'']\<rparr>"
  have d: "distinct (map pv_address example_list)" by (simp add: example_list_addresses)
  have raw: "pv_address v = a" if "rawValidator example_validator_env a = Inr v" for a v
    using that by (auto simp: example_validator_env_def example_validator_def)
  have f: "foldR (updated_addresses example_validator_env) [?tx] ([], False) = Inr ([''c''], False)" by (simp add: updated_addresses_def example_pos_tx_def)
  obtain w where "weigh example_validator_env (example_validator ''c'' 5) = Inr w" using example_weigh by blast
  moreover have "rawValidator example_validator_env ''c'' = Inr (example_validator ''c'' 5)" by (simp add: example_validator_env_def)
  ultimately have b: "business_getPosValidators example_validator_env [''c''] = Inr [w]" by (simp add: business_getPosValidators_def)
  have "pv_address ` set example_list = {''a'', ''b''}" by (simp add: example_list_def example_validator_def)
  then show ?thesis using new_block_keeps_validators [OF d raw f b, of "''a''" JUndefined] by auto
qed

theorem deleted_stake_drops_validator_witness:
  "''a'' \<notin> pv_address ` set (updateValidatorCacheListener example_validator_env DeleteBlock [example_pos_tx] ''b'' JUndefined example_list)"
proof -
  have d: "distinct (map pv_address example_list)" by (simp add: example_list_addresses)
  have a: "''a'' \<in> pv_address ` set example_list" by (simp add: example_list_def example_validator_def)
  have r: "rawValidator example_validator_env ''a'' = Inr (example_validator ''a'' 5)" "pv_address (example_validator ''a'' 5) = ''a''"
    by (simp_all add: example_validator_env_def example_validator_def)
  obtain w where w: "weigh example_validator_env (example_validator ''a'' 5) = Inr w" using example_weigh by blast
  show ?thesis by (rule deleted_stake_drops_validator [OF d a r w]) (simp_all add: example_pos_tx_def)
qed

end
