(* ===== verification/Fee_Estimates.thy ===== *)
theory Fee_Estimates
  imports Complex_Main Events Pool_Address
begin

text \<open>
  The fee of a transaction before it is sent, \<^verbatim>\<open>dataService/business/transactionsEstimateFees.js\<close> with \<^verbatim>\<open>feeEstimates.js\<close> and
  \<^verbatim>\<open>interoperability/channel.js\<close>: the transaction is completed with mock values, its
  size and minimum fee are asked from the node, and fees for new accounts, registrations and cross-chain messages are added. Fees per byte are rationals, which stand for the
  doubles of the fee estimator.
\<close>

section \<open>Transactions and services\<close>

text \<open>\<open>et_fields\<close> are the remaining fields of the transaction.\<close>

record est_tx =
  et_module :: string
  et_command :: string
  et_senderPublicKey :: string
  et_params :: row
  et_fee :: jsval
  et_signatures :: "string list"
  et_id :: jsval
  et_fields :: row

record fee_rates =
  feeTokenID :: jsval
  fee_low :: rat
  fee_med :: rat
  fee_high :: rat
  minFeePerByte :: int

record dry_run =
  dr_errorMessage :: "string option"
  dr_events :: "(string \<times> int \<times> string) list"

record channel =
  messageFeeTokenID :: jsval
  minReturnFeePerByte :: jsval

record estimate_env =
  sender_address :: "string \<Rightarrow> string"
  bufferBytesLength :: nat
  random_signature :: "nat \<Rightarrow> string"
  random_id :: string
  chain_id :: string
  getAuthAccount :: "string \<Rightarrow> (nat \<times> nat) result"
  node_channel :: "jsval \<Rightarrow> channel result"
  mainchain_channel :: "jsval \<Rightarrow> channel option result"
  dryRunTransactions :: "bool \<Rightarrow> est_tx \<Rightarrow> dry_run result"
  encodeCCM :: "string \<Rightarrow> string result"
  tokenHasUserAccount :: "jsval \<Rightarrow> jsval \<Rightarrow> bool result"
  getTokenBalances :: "string \<Rightarrow> jsval \<Rightarrow> jsval list result"
  userAccountInitializationFee :: "jsval result"
  receiving_chain :: "jsval \<Rightarrow> (jsval \<times> jsval) option result"
  receiving_account_exists :: "jsval \<Rightarrow> jsval \<Rightarrow> jsval \<Rightarrow> bool result"
  tokenHasEscrowAccount :: "jsval \<Rightarrow> jsval \<Rightarrow> bool result"
  validatorRegistrationFee :: "jsval result"
  chainRegistrationFee :: "jsval result"
  validate_params :: "est_tx \<Rightarrow> bool result"
  node_formatTransaction :: "est_tx \<Rightarrow> string \<Rightarrow> (est_tx \<times> jsval \<times> jsval) result"

definition is_transfer_cross_chain :: "est_tx \<Rightarrow> bool" where
  "is_transfer_cross_chain tx \<longleftrightarrow> et_module tx = ''token'' \<and> et_command tx = ''transferCrossChain''"

abbreviation est_param :: "est_tx \<Rightarrow> string \<Rightarrow> jsval" where
  "est_param tx k \<equiv> field (et_params tx) k"

definition set_param :: "string \<Rightarrow> jsval \<Rightarrow> row \<Rightarrow> row" where
  "set_param k v r = (if k \<in> fst ` set r then map (\<lambda>(k', w). (k', if k' = k then v else w)) r else r @ [(k, v)])"

definition omit :: "row \<Rightarrow> string list \<Rightarrow> row" where
  "omit r ks = filter (\<lambda>(k, _). k \<notin> set ks) r"

section \<open>Channels\<close>

definition chain_hex_digit :: "char \<Rightarrow> bool" where
  "chain_hex_digit c \<longleftrightarrow> c \<in> set ''0123456789abcdefABCDEF''"

definition MAINCHAIN_ID :: "string \<Rightarrow> bool" where
  "MAINCHAIN_ID s \<longleftrightarrow> length s = 8 \<and> list_all chain_hex_digit (take 2 s) \<and> drop 2 s = ''000000''"

text \<open>\<^verbatim>\<open>test\<close> converts its argument to a string. Every error becomes a validation error.\<close>

definition resolveChannelInfo :: "estimate_env \<Rightarrow> jsval \<Rightarrow> channel result" where
  "resolveChannelInfo env inputChainID =
     (if inputChainID = JStr (chain_id env) then Inl (Error ''ValidationException'')
      else case (if MAINCHAIN_ID (chain_id env) \<noteq> MAINCHAIN_ID (js_String inputChainID) then node_channel env inputChainID
                 else bindR (mainchain_channel env inputChainID) (\<lambda>r. case r of Some c \<Rightarrow> Inr c | None \<Rightarrow> Inl (Error ''ValidationException''))) of
        Inr c \<Rightarrow> Inr c | Inl _ \<Rightarrow> Inl (Error ''ValidationException''))"

section \<open>Mock values\<close>

definition mock_params :: "jsval \<Rightarrow> row \<Rightarrow> row" where
  "mock_params token r = omit r [''messageFee'', ''messageFeeTokenID''] @ [(''messageFee'', JStr ''0''), (''messageFeeTokenID'', token)]"

definition mockTransaction :: "estimate_env \<Rightarrow> est_tx \<Rightarrow> nat \<Rightarrow> est_tx result" where
  "mockTransaction env tx numberOfSignatures =
     bindR (if is_transfer_cross_chain tx
            then bindR (resolveChannelInfo env (est_param tx ''receivingChainID'')) (\<lambda>c. Inr (messageFeeTokenID c)) else Inr JUndefined) (\<lambda>token.
       Inr (tx\<lparr>et_fee := JStr ''0'', et_signatures := map (random_signature env) [0..<numberOfSignatures], et_id := JStr (random_id env),
              et_params := if js_Boolean token then mock_params token (et_params tx) else et_params tx\<rparr>))"

definition DEFAULT_NUM_OF_SIGNATURES :: nat where "DEFAULT_NUM_OF_SIGNATURES = 1"

definition getNumberOfSignatures :: "estimate_env \<Rightarrow> string \<Rightarrow> nat" where
  "getNumberOfSignatures env address =
     (case getAuthAccount env address of
        Inr (mandatory, optional) \<Rightarrow> if mandatory + optional = 0 then DEFAULT_NUM_OF_SIGNATURES else mandatory + optional
      | Inl _ \<Rightarrow> DEFAULT_NUM_OF_SIGNATURES)"

section \<open>The cross-chain message\<close>

definition find_event :: "string \<Rightarrow> dry_run \<Rightarrow> (string \<times> int \<times> string) option" where
  "find_event n d = List.find (\<lambda>e. fst e = n) (dr_events d)"

text \<open>Only called for cross-chain transfers; the result is the buffer. An event carries its code and its message.\<close>

definition getCcmBuffer :: "estimate_env \<Rightarrow> est_tx \<Rightarrow> buffer result" where
  "getCcmBuffer env tx =
     (if \<not> is_transfer_cross_chain tx then Inl TypeError
      else bindR (dryRunTransactions env True tx) (\<lambda>d.
        case find_event ''ccmSendSuccess'' d of
          Some (_, _, ccm) \<Rightarrow> bindR (encodeCCM env ccm) (\<lambda>s. Inr (hex_decode s))
        | None \<Rightarrow>
            bindR (dryRunTransactions env False tx) (\<lambda>d'.
              if (case dr_errorMessage d' of Some m \<Rightarrow> m \<noteq> [] | None \<Rightarrow> False) then Inl (Error ''ValidationException'')
              else if find_event ''ccmSentFailed'' d' \<noteq> None then Inl (Error ''ValidationException'')
              else Inr [])))"

section \<open>Additional fees\<close>

record additional_fees =
  af_fee :: row
  af_messageFee :: "jsval option"
  af_total :: int

definition starts_with :: "string \<Rightarrow> string \<Rightarrow> bool" where
  "starts_with s p \<longleftrightarrow> take (length p) s = p"

definition no_fees :: additional_fees where
  "no_fees = \<lparr>af_fee = [], af_messageFee = None, af_total = 0\<rparr>"

definition extra_fee :: "string \<Rightarrow> jsval \<Rightarrow> additional_fees result" where
  "extra_fee k v = bindR (js_BigInt v) (\<lambda>n. Inr \<lparr>af_fee = [(k, v)], af_messageFee = None, af_total = n\<rparr>)"

text \<open>\<open>receiving_chain\<close> is the metadata of the receiving chain, with the two extra fees of its token module: for an escrow account and for a user account.\<close>

definition cross_chain_fees :: "estimate_env \<Rightarrow> est_tx \<Rightarrow> additional_fees result" where
  "cross_chain_fees env tx =
     bindR (receiving_chain env (est_param tx ''receivingChainID'')) (\<lambda>m. case m of
       None \<Rightarrow> Inl (Error ''ValidationException'')
     | Some (escrowFee, userFee) \<Rightarrow>
         bindR (case est_param tx ''tokenID'' of JStr tokenID \<Rightarrow> Inr tokenID | _ \<Rightarrow> Inl TypeError) (\<lambda>tokenID.
         bindR (if starts_with tokenID (chain_id env)
                then bindR (tokenHasEscrowAccount env (JStr tokenID) (est_param tx ''receivingChainID'')) (\<lambda>ex.
                       if ex then Inr no_fees else extra_fee ''escrowAccountInitializationFee'' escrowFee)
                else Inr no_fees) (\<lambda>fees.
         bindR (receiving_account_exists env (est_param tx ''receivingChainID'') (JStr tokenID) (est_param tx ''recipientAddress'')) (\<lambda>ex.
           Inr (if ex then fees else fees\<lparr>af_messageFee := Some userFee\<rparr>)))))"

definition calcAdditionalFees :: "estimate_env \<Rightarrow> est_tx \<Rightarrow> additional_fees result" where
  "calcAdditionalFees env tx =
     (if et_module tx = ''token''
      then (if et_command tx = ''transfer''
            then bindR (tokenHasUserAccount env (est_param tx ''tokenID'') (est_param tx ''recipientAddress'')) (\<lambda>ex.
                   if ex then Inr no_fees else bindR (userAccountInitializationFee env) (extra_fee ''userAccountInitializationFee''))
            else if et_command tx = ''transferCrossChain'' then cross_chain_fees env tx
            else Inr no_fees)
      else if et_module tx = ''pos'' \<and> et_command tx = ''registerValidator''
        then bindR (validatorRegistrationFee env) (extra_fee ''validatorRegistrationFee'')
      else if et_module tx = ''interoperability'' \<and> et_command tx \<in> {''registerMainchain'', ''registerSidechain''}
        then bindR (chainRegistrationFee env) (extra_fee ''chainRegistrationFee'')
      else Inr no_fees)"

section \<open>Validation\<close>

definition DEFAULT_MESSAGE_FEE :: string where "DEFAULT_MESSAGE_FEE = ''10000000''"

definition DEFAULT_MESSAGE_FEE_TOKEN_ID :: string where "DEFAULT_MESSAGE_FEE_TOKEN_ID = ''0000000000000000''"

definition default_params :: "est_tx \<Rightarrow> est_tx" where
  "default_params tx =
     (if is_transfer_cross_chain tx
      then let r = et_params tx;
               r = (if ''messageFee'' \<in> fst ` set r then r else r @ [(''messageFee'', JStr DEFAULT_MESSAGE_FEE)]);
               r = (if ''messageFeeTokenID'' \<in> fst ` set r then r else r @ [(''messageFeeTokenID'', JStr DEFAULT_MESSAGE_FEE_TOKEN_ID)])
           in tx\<lparr>et_params := r\<rparr>
      else tx)"

text \<open>The defaults are written into the transaction of the request, which is used further.\<close>

definition validateTransactionParams :: "estimate_env \<Rightarrow> est_tx \<Rightarrow> est_tx result" where
  "validateTransactionParams env tx0 =
     (let tx = default_params tx0 in
      bindR (if js_Boolean (est_param tx ''tokenID'')
             then bindR (getTokenBalances env (sender_address env (et_senderPublicKey tx)) (est_param tx ''tokenID'')) (\<lambda>bs. case bs of
                    [] \<Rightarrow> Inl TypeError
                  | b # _ \<Rightarrow> bindR (js_BigInt b) (\<lambda>available. bindR (js_BigInt (est_param tx ''amount'')) (\<lambda>amount.
                      if available < amount then Inl (Error ''ValidationException'') else Inr ())))
             else Inr ()) (\<lambda>_.
      bindR (validate_params env tx) (\<lambda>ok. if ok then Inr tx else Inl (Error ''ValidationException''))))"

definition validateUserHasTokenAccount :: "estimate_env \<Rightarrow> jsval \<Rightarrow> string \<Rightarrow> unit result" where
  "validateUserHasTokenAccount env tokenID address =
     bindR (tokenHasUserAccount env tokenID (JStr address)) (\<lambda>ex. if ex then Inr () else Inl (Error ''ValidationException''))"

section \<open>The estimate\<close>

definition math_round :: "rat \<Rightarrow> int" where "math_round x = \<lfloor>x + 1 / 2\<rfloor>"

definition calcDynamicFeeEstimates :: "fee_rates \<Rightarrow> int \<Rightarrow> int \<Rightarrow> int \<times> int \<times> int" where
  "calcDynamicFeeEstimates rates minFee txSize =
     (minFee + math_round (fee_low rates * of_int txSize), minFee + math_round (fee_med rates * of_int txSize), minFee + math_round (fee_high rates * of_int txSize))"

record fee_estimate =
  fe_tokenID :: jsval
  fe_messageFee :: "(jsval \<times> int) option"
  fe_messageBreakdown :: "(int \<times> row) option"
  fe_minimum :: int
  fe_byteFee :: int
  fe_additional :: row

definition buffer_fee :: "estimate_env \<Rightarrow> fee_rates \<Rightarrow> int" where
  "buffer_fee env rates = int (bufferBytesLength env) * minFeePerByte rates"

definition with_buffer :: "estimate_env \<Rightarrow> fee_rates \<Rightarrow> row \<Rightarrow> row" where
  "with_buffer env rates r = r @ (if bufferBytesLength env \<noteq> 0 then [(''bufferBytes'', JBig (buffer_fee env rates))] else [])"

definition message_breakdown :: "additional_fees \<Rightarrow> row" where
  "message_breakdown additional = (case af_messageFee additional of Some v \<Rightarrow> [(''userAccountInitializationFee'', v)] | None \<Rightarrow> [])"

text \<open>The token and the amount of the message fee, the part of it that pays for the bytes, and the transaction with the fee in it, formatted again.\<close>

definition message_fee :: "estimate_env \<Rightarrow> est_tx \<Rightarrow> est_tx \<Rightarrow> additional_fees \<Rightarrow> est_tx \<Rightarrow> jsval \<Rightarrow> ((jsval \<times> int) \<times> int \<times> (est_tx \<times> jsval \<times> jsval)) result" where
  "message_fee env tx mocked additional formattedTransaction minFee =
     bindR (resolveChannelInfo env (est_param tx ''receivingChainID'')) (\<lambda>channelInfo.
     bindR (validateUserHasTokenAccount env (messageFeeTokenID channelInfo) (sender_address env (et_senderPublicKey tx))) (\<lambda>_.
     bindR (getCcmBuffer env (formattedTransaction\<lparr>et_fee := minFee\<rparr>)) (\<lambda>ccmBuffer.
     bindR (js_BigInt (minReturnFeePerByte channelInfo)) (\<lambda>feePerByte.
     let ccmByteFee = int (length ccmBuffer) * feePerByte in
     bindR (case af_messageFee additional of Some v \<Rightarrow> bindR (js_BigInt v) (\<lambda>n. Inr (ccmByteFee + n)) | None \<Rightarrow> Inr ccmByteFee) (\<lambda>totalMessageFee.
     bindR (node_formatTransaction env (mocked\<lparr>et_params := set_param ''messageFee'' (JStr (show_int totalMessageFee))
               (set_param ''messageFeeTokenID'' (messageFeeTokenID channelInfo) (et_params mocked))\<rparr>) (show_int (af_total additional))) (\<lambda>formatted.
       Inr ((messageFeeTokenID channelInfo, totalMessageFee), ccmByteFee, formatted)))))))"

text \<open>
  The priority fees are stored under \<^verbatim>\<open>estimateTransactionFeesRes.transaction\<close>, which does not exist; the response has its transaction under
  \<^verbatim>\<open>data\<close>.
\<close>

definition estimateTransactionFees :: "estimate_env \<Rightarrow> fee_rates \<Rightarrow> est_tx \<Rightarrow> fee_estimate result" where
  "estimateTransactionFees env rates tx0 =
     (let senderAddress = sender_address env (et_senderPublicKey tx0) in
      bindR (validateUserHasTokenAccount env (feeTokenID rates) senderAddress) (\<lambda>_.
      bindR (validateTransactionParams env tx0) (\<lambda>tx.
      bindR (mockTransaction env tx (getNumberOfSignatures env senderAddress)) (\<lambda>mocked.
      bindR (calcAdditionalFees env mocked) (\<lambda>additional.
      bindR (node_formatTransaction env mocked (show_int (af_total additional))) (\<lambda>(formattedTransaction, minFee0, size0).
      bindR (if is_transfer_cross_chain tx
             then bindR (message_fee env tx mocked additional formattedTransaction minFee0) (\<lambda>(fee, ccmByteFee, formatted).
                    Inr (Some fee, Some (ccmByteFee, with_buffer env rates (message_breakdown additional)), formatted))
             else Inr (None, None, (formattedTransaction, minFee0, size0))) (\<lambda>(messageFee, breakdown, (_, minFee, txSize)).
      bindR (js_BigInt minFee) (\<lambda>minFee.
      bindR (js_BigInt txSize) (\<lambda>txSize.
        if fee_low rates \<noteq> 0 \<or> fee_med rates \<noteq> 0 \<or> fee_high rates \<noteq> 0 then Inl TypeError
        else Inr \<lparr>fe_tokenID = feeTokenID rates, fe_messageFee = messageFee, fe_messageBreakdown = breakdown, fe_minimum = minFee + buffer_fee env rates,
               fe_byteFee = txSize * minFeePerByte rates, fe_additional = with_buffer env rates (af_fee additional)\<rparr>)))))))))"

section \<open>The cached rates\<close>

text \<open>\<open>None\<close> is an empty or unavailable answer of the fee estimator.\<close>

definition setFeeEstimates :: "fee_rates option \<Rightarrow> fee_rates \<Rightarrow> fee_rates" where
  "setFeeEstimates payload feeEstimates = (case payload of Some p \<Rightarrow> p | None \<Rightarrow> feeEstimates)"

definition getFeeEstimatesFromFeeEstimator :: "fee_rates option result \<Rightarrow> fee_rates \<Rightarrow> fee_rates" where
  "getFeeEstimatesFromFeeEstimator response feeEstimates = (case response of Inr p \<Rightarrow> setFeeEstimates p feeEstimates | Inl _ \<Rightarrow> feeEstimates)"

definition initFeeEstimates :: "jsval result \<Rightarrow> int result \<Rightarrow> fee_rates \<Rightarrow> fee_rates result" where
  "initFeeEstimates token minFee feeEstimates =
     bindR token (\<lambda>t. bindR minFee (\<lambda>f. Inr (feeEstimates\<lparr>feeTokenID := t, minFeePerByte := f\<rparr>)))"

section \<open>Lemmas\<close>

lemma map_of_set_param: "map_of (set_param k v r) = (map_of r)(k \<mapsto> v)"
proof (cases "k \<in> fst ` set r")
  case True
  have "map_of (map (\<lambda>(k', w). (k', if k' = k then v else w)) r) x = (if x = k \<and> k \<in> fst ` set r then Some v else map_of r x)" for x
  proof (induction r)
    case (Cons a r)
    then show ?case by (cases a) (cases "x = k"; auto)
  qed simp
  then have "map_of (map (\<lambda>(k', w). (k', if k' = k then v else w)) r) = (map_of r)(k \<mapsto> v)"
    using True by (auto simp: fun_eq_iff)
  with True show ?thesis by (simp only: set_param_def if_True)
next
  case False
  then have "map_of r k = None" by (simp add: map_of_eq_None_iff)
  then show ?thesis using False by (auto simp: set_param_def fun_eq_iff map_add_def split: option.splits)
qed

lemma field_set_param [simp]: "field (set_param k v r) k' = (if k' = k then v else field r k')"
  by (simp add: field_def map_of_set_param)

lemma math_round_mono: "x \<le> y \<Longrightarrow> math_round x \<le> math_round y"
  by (simp add: math_round_def floor_mono)

lemma math_round_int [simp]: "math_round (of_int n) = n"
  by (simp add: math_round_def floor_eq_iff)

lemma math_round_error: "\<bar>of_int (math_round x) - x\<bar> \<le> 1 / 2"
proof -
  have "of_int (math_round x) \<le> x + 1 / 2" "x + 1 / 2 < of_int (math_round x) + 1"
    unfolding math_round_def by linarith+
  then show ?thesis by (simp only: abs_le_iff) linarith
qed

lemma default_params_simps [simp]:
  "is_transfer_cross_chain (default_params tx) = is_transfer_cross_chain tx"
  "et_senderPublicKey (default_params tx) = et_senderPublicKey tx"
  by (simp_all add: default_params_def is_transfer_cross_chain_def Let_def)

lemma validateTransactionParams_Inr: "validateTransactionParams env tx = Inr tx' \<Longrightarrow> tx' = default_params tx"
  by (auto simp: validateTransactionParams_def Let_def bindR_eq_Inr split: if_splits)

text \<open>What a computed message fee consists of.\<close>

lemma message_fee_Inr:
  assumes "message_fee env tx mocked additional formattedTransaction minFee = Inr ((token, amount), ccmByteFee, formatted)"
  obtains channelInfo ccmBuffer perByte new where
    "resolveChannelInfo env (est_param tx ''receivingChainID'') = Inr channelInfo" "token = messageFeeTokenID channelInfo"
    "getCcmBuffer env (formattedTransaction\<lparr>et_fee := minFee\<rparr>) = Inr ccmBuffer" "js_BigInt (minReturnFeePerByte channelInfo) = Inr perByte"
    "ccmByteFee = int (length ccmBuffer) * perByte" "amount = ccmByteFee + new"
    "case af_messageFee additional of Some v \<Rightarrow> js_BigInt v = Inr new | None \<Rightarrow> new = 0"
    "node_formatTransaction env (mocked\<lparr>et_params := set_param ''messageFee'' (JStr (show_int amount)) (set_param ''messageFeeTokenID'' token (et_params mocked))\<rparr>)
       (show_int (af_total additional)) = Inr formatted"
proof -
  from assms obtain channelInfo ccmBuffer perByte where *:
    "resolveChannelInfo env (est_param tx ''receivingChainID'') = Inr channelInfo" "token = messageFeeTokenID channelInfo"
    "getCcmBuffer env (formattedTransaction\<lparr>et_fee := minFee\<rparr>) = Inr ccmBuffer" "js_BigInt (minReturnFeePerByte channelInfo) = Inr perByte"
    "ccmByteFee = int (length ccmBuffer) * perByte"
    "(case af_messageFee additional of Some v \<Rightarrow> bindR (js_BigInt v) (\<lambda>n. Inr (ccmByteFee + n)) | None \<Rightarrow> Inr ccmByteFee) = Inr amount"
    "node_formatTransaction env (mocked\<lparr>et_params := set_param ''messageFee'' (JStr (show_int amount)) (set_param ''messageFeeTokenID'' token (et_params mocked))\<rparr>)
       (show_int (af_total additional)) = Inr formatted"
    by (auto simp: message_fee_def Let_def bindR_eq_Inr simp del: js_BigInt.simps)
  then show thesis
    by (intro that [where new = "amount - ccmByteFee", OF *(1-5)]) (auto simp: bindR_eq_Inr simp del: js_BigInt.simps split: option.splits)
qed

text \<open>The steps of a successful estimate.\<close>

lemma estimateTransactionFees_Inr:
  assumes "estimateTransactionFees env rates tx = Inr est"
  obtains mocked additional formattedTransaction minFee0 size0 messageFee breakdown extra minFee txSize n where
    "mockTransaction env (default_params tx) (getNumberOfSignatures env (sender_address env (et_senderPublicKey tx))) = Inr mocked"
    "calcAdditionalFees env mocked = Inr additional"
    "node_formatTransaction env mocked (show_int (af_total additional)) = Inr (formattedTransaction, minFee0, size0)"
    "(if is_transfer_cross_chain tx
      then bindR (message_fee env (default_params tx) mocked additional formattedTransaction minFee0) (\<lambda>(fee, ccmByteFee, formatted).
             Inr (Some fee, Some (ccmByteFee, with_buffer env rates (message_breakdown additional)), formatted))
      else Inr (None, None, (formattedTransaction, minFee0, size0))) = Inr (messageFee, breakdown, (extra, minFee, txSize))"
    "js_BigInt minFee = Inr (fe_minimum est - buffer_fee env rates)" "js_BigInt txSize = Inr n" "fe_byteFee est = n * minFeePerByte rates"
    "fe_messageFee est = messageFee" "fe_messageBreakdown est = breakdown" "fe_tokenID est = feeTokenID rates"
    "fe_additional est = with_buffer env rates (af_fee additional)"
    "fee_low rates = 0 \<and> fee_med rates = 0 \<and> fee_high rates = 0"
  using assms
  by (auto simp: estimateTransactionFees_def Let_def bindR_eq_Inr simp del: js_BigInt.simps split: if_splits prod.splits dest!: validateTransactionParams_Inr)

section \<open>Properties\<close>

text \<open>
  The minimum fee that the node asks for a transaction. It counts the signatures, computes its own fee and ignores the identifier, so it is the same for two transactions
  that differ only in the fee, the identifier and the contents of their signatures.
\<close>

definition min_fee_asked :: "estimate_env \<Rightarrow> est_tx \<Rightarrow> string \<Rightarrow> jsval result" where
  "min_fee_asked env t extra = bindR (node_formatTransaction env t extra) (\<lambda>(_, minFee, _). Inr minFee)"

definition fee_by_shape :: "estimate_env \<Rightarrow> bool" where
  "fee_by_shape env \<longleftrightarrow> (\<forall>t f sigs i extra. length sigs = length (et_signatures t) \<and> list_all (\<lambda>s. s \<noteq> []) sigs \<and> list_all (\<lambda>s. s \<noteq> []) (et_signatures t) \<longrightarrow>
     min_fee_asked env (t\<lparr>et_fee := f, et_signatures := sigs, et_id := i\<rparr>) extra = min_fee_asked env t extra)"

text \<open>The transaction of a request with a message fee, a fee, signatures and an identifier: what the client will send.\<close>

definition completed :: "est_tx \<Rightarrow> (jsval \<times> int) option \<Rightarrow> jsval \<Rightarrow> string list \<Rightarrow> jsval \<Rightarrow> est_tx" where
  "completed tx messageFee f sigs i = tx\<lparr>et_fee := f, et_signatures := sigs, et_id := i,
     et_params := (case messageFee of None \<Rightarrow> et_params tx
       | Some (token, amount) \<Rightarrow> omit (et_params tx) [''messageFee'', ''messageFeeTokenID''] @ [(''messageFee'', JStr (show_int amount)), (''messageFeeTokenID'', token)])\<rparr>"

lemma omit_simps [simp]: "omit (r @ r') ks = omit r ks @ omit r' ks" "omit (omit r ks) ks = omit r ks"
  "omit ((k, v) # r) ks = (if k \<in> set ks then omit r ks else (k, v) # omit r ks)" "omit [] ks = []"
  by (simp_all add: omit_def)

lemma omit_default_params: "is_transfer_cross_chain tx \<Longrightarrow> default_params tx = tx\<lparr>et_params := et_params (default_params tx)\<rparr>
     \<and> omit (et_params (default_params tx)) [''messageFee'', ''messageFeeTokenID''] = omit (et_params tx) [''messageFee'', ''messageFeeTokenID'']"
  by (simp add: default_params_def Let_def)

lemma default_params_other: "\<not> is_transfer_cross_chain tx \<Longrightarrow> default_params tx = tx"
  by (simp add: default_params_def)

lemma field_omit: "k \<notin> set ks \<Longrightarrow> field (omit r ks) k = field r k"
  by (induction r) (auto simp: omit_def field_def)

lemma field_mock: "k \<notin> {''messageFee'', ''messageFeeTokenID''} \<Longrightarrow> field (mock_params token r) k = field r k"
  using field_omit [of k "[''messageFee'', ''messageFeeTokenID'']" r] by (simp add: mock_params_def field_def map_add_def split: option.splits)

text \<open>The mock values of a request, and what the fees depend on.\<close>

lemma mocked_completed:
  assumes "mockTransaction env (default_params tx) n = Inr mocked"
  shows "\<not> is_transfer_cross_chain tx \<Longrightarrow> mocked = completed tx None (JStr ''0'') (map (random_signature env) [0..<n]) (JStr (random_id env))"
    "is_transfer_cross_chain tx \<Longrightarrow> resolveChannelInfo env (est_param (default_params tx) ''receivingChainID'') = Inr c \<Longrightarrow> js_Boolean (messageFeeTokenID c)
      \<Longrightarrow> mocked = completed tx (Some (messageFeeTokenID c, 0)) (JStr ''0'') (map (random_signature env) [0..<n]) (JStr (random_id env))"
proof -
  show "mocked = completed tx None (JStr ''0'') (map (random_signature env) [0..<n]) (JStr (random_id env))" if "\<not> is_transfer_cross_chain tx"
    using assms that by (cases tx) (auto simp: mockTransaction_def default_params_other completed_def)
next
  assume x: "is_transfer_cross_chain tx" and c: "resolveChannelInfo env (est_param (default_params tx) ''receivingChainID'') = Inr c" "js_Boolean (messageFeeTokenID c)"
  have z: "show_int 0 = ''0''" by code_simp
  obtain P where P: "default_params tx = tx\<lparr>et_params := P\<rparr>" "omit P [''messageFee'', ''messageFeeTokenID''] = omit (et_params tx) [''messageFee'', ''messageFeeTokenID'']"
    using omit_default_params [OF x] by blast
  have "mocked = (default_params tx)\<lparr>et_fee := JStr ''0'', et_signatures := map (random_signature env) [0..<n], et_id := JStr (random_id env),
      et_params := mock_params (messageFeeTokenID c) (et_params (default_params tx))\<rparr>"
    using assms x c by (simp add: mockTransaction_def)
  then show "mocked = completed tx (Some (messageFeeTokenID c, 0)) (JStr ''0'') (map (random_signature env) [0..<n]) (JStr (random_id env))"
    using P by (simp add: completed_def mock_params_def z)
qed

lemma completed_params:
  "k \<notin> {''messageFee'', ''messageFeeTokenID''} \<Longrightarrow> est_param (completed tx m f sigs i) k = est_param tx k"
  "et_module (completed tx m f sigs i) = et_module tx" "et_command (completed tx m f sigs i) = et_command tx"
  "et_signatures (completed tx m f sigs i) = sigs"
  "is_transfer_cross_chain (completed tx m f sigs i) = is_transfer_cross_chain tx"
  using field_mock [of k _ "et_params tx"] field_omit [of k "[''messageFee'', ''messageFeeTokenID'']" "et_params tx"]
  by (auto simp: completed_def is_transfer_cross_chain_def field_def map_add_def split: option.splits)

lemma fees_completed: "calcAdditionalFees env (completed tx m f sigs i) = calcAdditionalFees env tx"
proof -
  have "est_param (completed tx m f sigs i) ''tokenID'' = est_param tx ''tokenID''" "est_param (completed tx m f sigs i) ''recipientAddress'' = est_param tx ''recipientAddress''"
    "est_param (completed tx m f sigs i) ''receivingChainID'' = est_param tx ''receivingChainID''"
    by (simp_all add: completed_params(1))
  then show ?thesis by (simp only: calcAdditionalFees_def cross_chain_fees_def completed_params(2,3))
qed

lemma completed_again:
  "completed tx (Some (token, a)) f sigs i\<lparr>et_params := set_param ''messageFee'' (JStr (show_int b))
      (set_param ''messageFeeTokenID'' token (et_params (completed tx (Some (token, a)) f sigs i)))\<rparr> = completed tx (Some (token, b)) f sigs i"
proof -
  have keep: "map (\<lambda>(k', w). (k', if k' = k then v else w)) (omit r ks) = omit r ks" if "k \<in> set ks" for k v r ks
    using that by (auto simp: omit_def intro!: map_idI)
  show ?thesis by (simp add: completed_def set_param_def keep)
qed

lemma completed_receiver: "est_param (default_params tx) ''receivingChainID'' = est_param tx ''receivingChainID''"
  by (auto simp: default_params_def Let_def field_def map_add_def split: option.splits)

text \<open>The minimum fee does not depend on the mock values.\<close>

lemma min_fee_completed:
  assumes "fee_by_shape env" and "\<And>k. random_signature env k \<noteq> []" and "length sigs = n" and "list_all (\<lambda>s. s \<noteq> []) sigs"
    and "node_formatTransaction env (completed tx m (JStr ''0'') (map (random_signature env) [0..<n]) (JStr (random_id env))) extra = Inr (formatted, minFee, txSize)"
  shows "min_fee_asked env (completed tx m f sigs i) extra = Inr minFee"
proof -
  let ?mock = "completed tx m (JStr ''0'') (map (random_signature env) [0..<n]) (JStr (random_id env))"
  have "completed tx m f sigs i = ?mock\<lparr>et_fee := f, et_signatures := sigs, et_id := i\<rparr>" by (cases tx) (simp add: completed_def)
  moreover have "min_fee_asked env (?mock\<lparr>et_fee := f, et_signatures := sigs, et_id := i\<rparr>) extra = min_fee_asked env ?mock extra"
    using assms(1-4) unfolding fee_by_shape_def by (simp add: completed_params list_all_iff)
  ultimately show ?thesis using assms(5) by (simp add: min_fee_asked_def)
qed


text \<open>
  As soon as one of the fee rates is not zero no estimate is returned: the place for the priority fees does not exist in the response.
\<close>

theorem priority_fees_fail:
  assumes "fee_low rates \<noteq> 0 \<or> fee_med rates \<noteq> 0 \<or> fee_high rates \<noteq> 0"
  shows "\<exists>e. estimateTransactionFees env rates tx = Inl e"
proof (cases "estimateTransactionFees env rates tx")
  case (Inr est)
  then show ?thesis using assms by (elim estimateTransactionFees_Inr) simp
qed blast

text \<open>
  The completed transaction does not depend on what the client put into the optional fields: the fee, the signatures and the identifier, and for a
  cross-chain transfer the message fee and its token.
\<close>

theorem mock_ignores_optional:
  assumes "is_transfer_cross_chain tx" "resolveChannelInfo env (est_param tx ''receivingChainID'') = Inr c" "js_Boolean (messageFeeTokenID c)"
    and "omit (et_params tx') [''messageFee'', ''messageFeeTokenID''] = omit (et_params tx) [''messageFee'', ''messageFeeTokenID'']"
    and "tx' = tx\<lparr>et_fee := f, et_signatures := sigs, et_id := i, et_params := et_params tx'\<rparr>"
  shows "mockTransaction env tx' n = mockTransaction env tx n"
proof -
  have f: "field r k = field (omit r [''messageFee'', ''messageFeeTokenID'']) k" if "k \<noteq> ''messageFee''" "k \<noteq> ''messageFeeTokenID''" for r k
    using that by (induction r) (auto simp: omit_def field_def)
  have "est_param tx' ''receivingChainID'' = est_param tx ''receivingChainID''"
    using f [of "''receivingChainID''" "et_params tx"] f [of "''receivingChainID''" "et_params tx'"] by (simp only: assms(4)) simp
  moreover have "et_module tx' = et_module tx" "et_command tx' = et_command tx" by (subst assms(5), simp)+
  moreover have "tx'\<lparr>et_fee := a, et_signatures := b, et_id := d, et_params := e\<rparr> = tx\<lparr>et_fee := a, et_signatures := b, et_id := d, et_params := e\<rparr>" for a b d e
    by (subst assms(5), simp)
  ultimately show ?thesis
    using assms(1-4) by (simp add: mockTransaction_def is_transfer_cross_chain_def mock_params_def)
qed

text \<open>
  The priority fees lie above the minimum fee, in the order of their rates, and each is within half a unit of the exact product.
\<close>

theorem priority_fees_ordered:
  assumes "0 \<le> fee_low rates" "fee_low rates \<le> fee_med rates" "fee_med rates \<le> fee_high rates" "0 \<le> txSize"
    and "calcDynamicFeeEstimates rates minFee txSize = (low, medium, high)"
  shows "minFee \<le> low \<and> low \<le> medium \<and> medium \<le> high \<and> \<bar>of_int high - (of_int minFee + fee_high rates * of_int txSize)\<bar> \<le> 1 / 2"
proof (intro conjI)
  have m: "math_round (x * of_int txSize) \<le> math_round (y * of_int txSize)" if "x \<le> y" for x y
    using that assms(4) by (intro math_round_mono mult_right_mono) simp_all
  have v: "low = minFee + math_round (fee_low rates * of_int txSize)" "medium = minFee + math_round (fee_med rates * of_int txSize)"
    "high = minFee + math_round (fee_high rates * of_int txSize)"
    using assms(5) by (simp_all add: calcDynamicFeeEstimates_def)
  show "minFee \<le> low" using m [OF assms(1)] math_round_int [of 0] by (simp add: v)
  show "low \<le> medium" "medium \<le> high" using m [OF assms(2)] m [OF assms(3)] by (simp_all add: v)
  show "\<bar>of_int high - (of_int minFee + fee_high rates * of_int txSize)\<bar> \<le> 1 / 2"
    using math_round_error [of "fee_high rates * of_int txSize"] by (simp add: v)
qed

section \<open>An example\<close>

text \<open>
  A cross-chain transfer to a new account: the message has 2 bytes at 10 units, the account costs 50, and the node asks 1000 units for the transaction.
\<close>

definition example_channel :: channel where
  "example_channel = \<lparr>messageFeeTokenID = JStr ''0400000000000000'', minReturnFeePerByte = JNum 10\<rparr>"

definition example_estimate_tx :: "row \<Rightarrow> est_tx" where
  "example_estimate_tx extra = \<lparr>et_module = ''token'', et_command = ''transferCrossChain'', et_senderPublicKey = ''aa'',
     et_params = [(''tokenID'', JStr ''0400000000000000''), (''amount'', JNum 5), (''receivingChainID'', JStr ''04000001'')] @ extra,
     et_fee = JUndefined, et_signatures = [], et_id = JUndefined, et_fields = []\<rparr>"

definition example_estimate_env :: estimate_env where
  "example_estimate_env = \<lparr>sender_address = (\<lambda>s. s), bufferBytesLength = 0, random_signature = (\<lambda>_. ''ff''), random_id = ''ee'', chain_id = ''04000000'',
     getAuthAccount = (\<lambda>_. Inr (0, 0)), node_channel = (\<lambda>_. Inr example_channel), mainchain_channel = (\<lambda>_. Inr None),
     dryRunTransactions = (\<lambda>_ _. Inr \<lparr>dr_errorMessage = None, dr_events = [(''ccmSendSuccess'', 0, ''ccm'')]\<rparr>), encodeCCM = (\<lambda>_. Inr ''0a0b''),
     tokenHasUserAccount = (\<lambda>_ _. Inr True), getTokenBalances = (\<lambda>_ _. Inr [JNum 7]), userAccountInitializationFee = Inr (JNum 50),
     receiving_chain = (\<lambda>_. Inr (Some (JNum 60, JNum 50))), receiving_account_exists = (\<lambda>_ _ _. Inr False), tokenHasEscrowAccount = (\<lambda>_ _. Inr True),
     validatorRegistrationFee = Inr (JNum 70), chainRegistrationFee = Inr (JNum 80), validate_params = (\<lambda>_. Inr True),
     node_formatTransaction = (\<lambda>tx _. Inr (tx, JNum 1000, JNum 100))\<rparr>"

definition example_rates :: "rat \<Rightarrow> fee_rates" where
  "example_rates x = \<lparr>feeTokenID = JStr ''0400000000000000'', fee_low = 0, fee_med = 0, fee_high = x, minFeePerByte = 10\<rparr>"

lemmas example_estimate_defs = example_estimate_env_def example_estimate_tx_def example_rates_def example_channel_def

definition example_mocked :: est_tx where
  "example_mocked = (example_estimate_tx [(''messageFee'', JStr ''0''), (''messageFeeTokenID'', JStr ''0400000000000000'')])
     \<lparr>et_fee := JStr ''0'', et_signatures := [''ff''], et_id := JStr ''ee''\<rparr>"

definition example_additional :: additional_fees where
  "example_additional = no_fees\<lparr>af_messageFee := Some (JNum 50)\<rparr>"

lemma example_xchain: "is_transfer_cross_chain (example_estimate_tx r)" "is_transfer_cross_chain example_mocked"
  by (simp_all add: is_transfer_cross_chain_def example_estimate_tx_def example_mocked_def)

lemma example_tx_params:
  "est_param (example_estimate_tx r) ''tokenID'' = JStr ''0400000000000000''" "est_param (example_estimate_tx r) ''amount'' = JNum 5"
  "est_param (example_estimate_tx r) ''receivingChainID'' = JStr ''04000001''"
  by (simp_all add: example_estimate_tx_def field_def)

lemma example_channel_resolved: "resolveChannelInfo example_estimate_env (JStr ''04000001'') = Inr example_channel"
  by (simp add: resolveChannelInfo_def example_estimate_env_def MAINCHAIN_ID_def chain_hex_digit_def)

lemma example_validated: "validateTransactionParams example_estimate_env (example_estimate_tx []) = Inr (default_params (example_estimate_tx []))"
  and example_defaulted: "default_params (example_estimate_tx []) =
    example_estimate_tx [(''messageFee'', JStr ''10000000''), (''messageFeeTokenID'', JStr ''0000000000000000'')]"
proof -
  show d: "default_params (example_estimate_tx []) = example_estimate_tx [(''messageFee'', JStr ''10000000''), (''messageFeeTokenID'', JStr ''0000000000000000'')]"
    by (simp add: default_params_def example_xchain Let_def DEFAULT_MESSAGE_FEE_def DEFAULT_MESSAGE_FEE_TOKEN_ID_def)
      (simp add: example_estimate_tx_def)
  show "validateTransactionParams example_estimate_env (example_estimate_tx []) = Inr (default_params (example_estimate_tx []))"
    by (simp add: validateTransactionParams_def d example_tx_params) (simp add: example_estimate_env_def)
qed

lemma example_mock: "mockTransaction example_estimate_env (default_params (example_estimate_tx [])) 1 = Inr example_mocked"
  by (simp add: mockTransaction_def example_defaulted example_xchain example_tx_params example_channel_resolved)
    (simp add: example_estimate_defs example_mocked_def mock_params_def omit_def)

lemma example_fees: "calcAdditionalFees example_estimate_env example_mocked = Inr example_additional"
  by (simp add: calcAdditionalFees_def cross_chain_fees_def example_additional_def)
    (simp add: example_estimate_defs starts_with_def example_mocked_def field_def)

lemma example_message:
  "\<exists>tx'. message_fee example_estimate_env (default_params (example_estimate_tx [])) example_mocked example_additional example_mocked (JNum 1000)
     = Inr ((JStr ''0400000000000000'', 70), 20, (tx', JNum 1000, JNum 100))"
  by (simp add: message_fee_def example_defaulted example_tx_params example_channel_resolved)
    (simp add: example_estimate_defs validateUserHasTokenAccount_def getCcmBuffer_def find_event_def example_xchain
      example_additional_def is_transfer_cross_chain_def example_mocked_def no_fees_def hex_val_def Let_def)

lemma example_estimate:
  "\<exists>est. estimateTransactionFees example_estimate_env (example_rates 0) (example_estimate_tx []) = Inr est \<and> fe_minimum est = 1000
     \<and> fe_messageFee est = Some (JStr ''0400000000000000'', 70) \<and> fe_byteFee est = 1000"
proof -
  have n: "getNumberOfSignatures example_estimate_env a = 1" for a
    by (simp add: getNumberOfSignatures_def example_estimate_env_def DEFAULT_NUM_OF_SIGNATURES_def)
  have v: "validateUserHasTokenAccount example_estimate_env t a = Inr ()" for t a
    by (simp add: validateUserHasTokenAccount_def example_estimate_env_def)
  have f: "node_formatTransaction example_estimate_env tx s = Inr (tx, JNum 1000, JNum 100)" for tx s
    by (simp add: example_estimate_env_def)
  obtain tx' where m: "message_fee example_estimate_env (default_params (example_estimate_tx [])) example_mocked example_additional example_mocked (JNum 1000)
     = Inr ((JStr ''0400000000000000'', 70), 20, (tx', JNum 1000, JNum 100))" using example_message by blast
  show ?thesis
    by (simp add: estimateTransactionFees_def Let_def n v f m example_validated example_mock [unfolded One_nat_def] example_fees example_xchain)
      (simp add: buffer_fee_def example_rates_def example_estimate_env_def)
qed


theorem priority_fees_fail_witness:
  "(\<exists>est. estimateTransactionFees example_estimate_env (example_rates 0) (example_estimate_tx []) = Inr est)
   \<and> (\<exists>e. estimateTransactionFees example_estimate_env (example_rates (1 / 10)) (example_estimate_tx []) = Inl e)"
  using example_estimate priority_fees_fail [of "example_rates (1 / 10)" example_estimate_env "example_estimate_tx []"] by (auto simp: example_rates_def)

theorem mock_ignores_optional_witness:
  "mockTransaction example_estimate_env (example_estimate_tx [(''messageFee'', JNum 99)]) 2 = mockTransaction example_estimate_env (example_estimate_tx []) 2"
  using mock_ignores_optional [of "example_estimate_tx []" example_estimate_env example_channel "example_estimate_tx [(''messageFee'', JNum 99)]" JUndefined "[]" JUndefined 2]
  by (simp add: example_xchain example_tx_params example_channel_resolved) (simp add: example_channel_def example_estimate_tx_def omit_def)

theorem priority_fees_ordered_witness:
  "\<exists>low medium high. calcDynamicFeeEstimates (example_rates (1 / 10)) 1000 100 = (low, medium, high) \<and> 1000 \<le> low \<and> low \<le> medium \<and> medium \<le> high"
proof -
  obtain low medium high where c: "calcDynamicFeeEstimates (example_rates (1 / 10)) 1000 100 = (low, medium, high)" by (metis prod_cases3)
  have "1000 \<le> low \<and> low \<le> medium \<and> medium \<le> high \<and> \<bar>of_int high - (of_int 1000 + fee_high (example_rates (1 / 10)) * of_int 100)\<bar> \<le> 1 / 2"
    by (rule priority_fees_ordered [OF _ _ _ _ c]) (simp_all add: example_rates_def)
  with c show ?thesis by blast
qed

end
