(* ===== verification/Transaction_Statistics.thy ===== *)
theory Transaction_Statistics
  imports Schemas Js_Sort "HOL-Library.AList"
begin

text \<open>
  The service \<^verbatim>\<open>services/transaction-statistics\<close>: a job per day counts the transactions of the day by type and by range of value and
  writes the counts to a table (\<^verbatim>\<open>shared/buildTransactionStatistics.js\<close>); requests add them up over days
  (\<^verbatim>\<open>shared/transactionStatistics.js\<close>).
\<close>

section \<open>Transactions and services\<close>

record stat_tx =
  sx_moduleCommand :: string
  sx_fee :: jsval
  sx_params :: row

text \<open>
  A page of the answer of the indexer: the data, \<open>None\<close> if it is an error object, and the field \<^verbatim>\<open>total\<close> of the meta data, both of which may be
  missing.
\<close>

record ix_page =
  ix_data :: "stat_tx list option"
  ix_meta :: "nat option option"

text \<open>
  The packages \<^verbatim>\<open>big-number\<close> and \<^verbatim>\<open>moment\<close> and the other services: \<open>bn_of\<close> makes a number, \<open>bn_plus t v\<close> is the
  value of the object \<open>t\<close> after \<^verbatim>\<open>t.plus(v)\<close>, \<open>bn_add\<close> the value of the result of \<^verbatim>\<open>add\<close>; \<open>floor_log10 v\<close> is the
  floating-point \<^verbatim>\<open>Math.floor(Math.log10(v / 1e8))\<close> of a positive \<open>v\<close>, which the language leaves to the engine; \<open>day_start i\<close> is the start of the day \<open>i\<close> days ago, \<open>next_day\<close> adds a day,
  \<open>stats_window\<close> gives the first and the last second of a request.
\<close>

record stats_env =
  bn_of :: "jsval \<Rightarrow> int"
  bn_plus :: "int \<Rightarrow> jsval \<Rightarrow> int"
  bn_add :: "int \<Rightarrow> int \<Rightarrow> int"
  floor_log10 :: "int \<Rightarrow> int"
  day_start :: "nat \<Rightarrow> int"
  next_day :: "int \<Rightarrow> int"
  format_unix :: "string \<Rightarrow> int \<Rightarrow> string"
  date_parse :: "string \<Rightarrow> int"
  localeCompare :: "string \<Rightarrow> string \<Rightarrow> int"
  indexer_transactions :: "string \<Rightarrow> nat \<Rightarrow> nat \<Rightarrow> ix_page result"
  indexer_total :: "string \<Rightarrow> string \<Rightarrow> nat result"
  network_commands :: "nat result"
  stats_window :: "string \<Rightarrow> nat \<Rightarrow> nat \<Rightarrow> int \<times> int"
  intervals_since :: "string \<Rightarrow> int \<Rightarrow> int"

section \<open>Values and ranges\<close>

definition str_endsWith :: "string \<Rightarrow> string \<Rightarrow> bool" where
  "str_endsWith s p \<longleftrightarrow> length p \<le> length s \<and> drop (length s - length p) s = p"

definition getTxValue :: "stats_env \<Rightarrow> stat_tx \<Rightarrow> int" where
  "getTxValue env tx = fold (\<lambda>(k, v) t. if str_endsWith k ''Fee'' \<or> k = ''amount'' then bn_plus env t v else t) (sx_params tx) (bn_of env (sx_fee tx))"

text \<open>\<^verbatim>\<open>String(Math.pow(10, e))\<close>\<close>

definition pow10_string :: "int \<Rightarrow> string" where
  "pow10_string e =
     (if 21 \<le> e then ''1e+'' @ show_int e
      else if 0 \<le> e then CHR ''1'' # replicate (nat e) (CHR ''0'')
      else if - 6 \<le> e then ''0.'' @ replicate (nat (- e - 1)) (CHR ''0'') @ ''1''
      else ''1e'' @ show_int e)"

text \<open>The powers of ten around a value in units of \<open>10\<^sup>-\<^sup>8\<close>; the logarithm of 0 is minus infinity, that of a negative number \<^verbatim>\<open>NaN\<close>.\<close>

definition range_of_value :: "stats_env \<Rightarrow> int \<Rightarrow> string" where
  "range_of_value env v =
     (if v < 0 then ''NaN_NaN'' else if v = 0 then ''0_0''
      else let lowerBoundExponent = floor_log10 env v
           in pow10_string lowerBoundExponent @ ''_'' @ pow10_string (lowerBoundExponent + 1))"

definition getRange :: "stats_env \<Rightarrow> stat_tx \<Rightarrow> string" where
  "getRange env tx = range_of_value env (getTxValue env tx)"

section \<open>The statistics of a day\<close>

definition ANY :: string where "ANY = ''any''"

definition UNAVAILABLE :: string where "UNAVAILABLE = ''na''"

record tx_stat =
  st_count :: nat
  st_volume :: int
  st_tokenID :: string

type_synonym stats_object = "(string \<times> (string \<times> tx_stat) list) list"

definition default_stat :: tx_stat where
  "default_stat = \<lparr>st_count = 0, st_volume = 0, st_tokenID = UNAVAILABLE\<rparr>"

definition getTxStatsWithFallback :: "stats_object \<Rightarrow> string \<Rightarrow> string \<Rightarrow> tx_stat" where
  "getTxStatsWithFallback acc moduleCommand rng =
     (case map_of acc moduleCommand of Some ranges \<Rightarrow> (case map_of ranges rng of Some s \<Rightarrow> s | None \<Rightarrow> default_stat) | None \<Rightarrow> default_stat)"

definition any_transaction :: stat_tx where
  "any_transaction = \<lparr>sx_moduleCommand = ANY, sx_fee = JStr ''0'', sx_params = [(''amount'', JStr ''0'')]\<rparr>"

definition getInitialValueToEnsureEachDayHasAtLeastOneEntry :: "stats_env \<Rightarrow> stats_object" where
  "getInitialValueToEnsureEachDayHasAtLeastOneEntry env = [(ANY, [(getRange env any_transaction, default_stat)])]"

definition tx_token :: "stat_tx \<Rightarrow> string" where
  "tx_token tx = (case map_of (sx_params tx) ''tokenID'' of Some v \<Rightarrow> if js_Boolean v then js_String v else UNAVAILABLE | None \<Rightarrow> UNAVAILABLE)"

definition count_transaction :: "stats_env \<Rightarrow> stat_tx \<Rightarrow> stats_object \<Rightarrow> stats_object" where
  "count_transaction env tx acc =
     (let old = getTxStatsWithFallback acc (sx_moduleCommand tx) (getRange env tx);
          ranges = (case map_of acc (sx_moduleCommand tx) of Some rs \<Rightarrow> rs | None \<Rightarrow> [])
      in AList.update (sx_moduleCommand tx)
           (AList.update (getRange env tx)
              \<lparr>st_count = st_count old + 1, st_volume = bn_add env (st_volume old) (getTxValue env tx), st_tokenID = tx_token tx\<rparr> ranges) acc)"

definition computeTransactionStats :: "stats_env \<Rightarrow> stat_tx list \<Rightarrow> stats_object" where
  "computeTransactionStats env transactions = fold (count_transaction env) transactions (getInitialValueToEnsureEachDayHasAtLeastOneEntry env)"

record stat_row =
  sr_moduleCommand :: string
  sr_volume :: int
  sr_count :: nat
  sr_range :: string
  sr_tokenID :: string

definition transformStatsObjectToList :: "stats_object \<Rightarrow> stat_row list" where
  "transformStatsObjectToList statsObject =
     concat (map (\<lambda>(moduleCommand, rangeObject). map (\<lambda>(rng, s).
       \<lparr>sr_moduleCommand = moduleCommand, sr_volume = to_double (st_volume s), sr_count = st_count s, sr_range = rng, sr_tokenID = st_tokenID s\<rparr>) rangeObject) statsObject)"

section \<open>The table\<close>

definition stat_id :: "int \<Rightarrow> stat_row \<Rightarrow> string" where
  "stat_id date s = show_int date @ ''-'' @ sr_moduleCommand s @ ''-'' @ sr_range s"

definition stat_item :: "int \<Rightarrow> stat_row \<Rightarrow> row" where
  "stat_item date s =
     [(''moduleCommand'', JStr (sr_moduleCommand s)), (''volume'', JNum (sr_volume s)), (''count'', JNum (int (sr_count s))), (''range'', JStr (sr_range s)),
      (''tokenID'', JStr (sr_tokenID s)), (''date'', JNum date), (''amount_range'', JStr (sr_range s)), (''id'', JStr (stat_id date s))]"

text \<open>
  The lookup of the old rows of the day is not awaited: a promise is not iterable, the destructuring throws and the error is taken for a missing row. So nothing
  is deleted.
\<close>

definition insertToDB :: "stat_row list \<Rightarrow> int \<Rightarrow> db \<Rightarrow> db \<times> unit result" where
  "insertToDB statsList date d =
     (let trx = startDBTransaction d in
      case upsert transactionStatisticsSchema (map (stat_item date) statsList) True trx of
        Inr d' \<Rightarrow> (commitDBTransaction d', Inr ())
      | Inl e \<Rightarrow> (rollbackDBTransaction trx, Inl e))"

section \<open>The transactions of a day\<close>

fun stats_pages :: "(nat \<Rightarrow> nat \<Rightarrow> ix_page result) \<Rightarrow> nat \<Rightarrow> nat \<Rightarrow> nat \<Rightarrow> stat_tx list \<Rightarrow> stat_tx list result" where
  "stats_pages fn oneRequestLimit page 0 txs = Inr txs"
| "stats_pages fn oneRequestLimit page (Suc n) txs =
     bindR (fn oneRequestLimit (oneRequestLimit * page)) (\<lambda>r. case ix_data r of
       Some (t # ts) \<Rightarrow> stats_pages fn oneRequestLimit (Suc page) n (txs @ t # ts)
     | _ \<Rightarrow> Inr txs)"

text \<open>The answer is \<open>None\<close> if the first page is an error object. \<open>limit\<close> is \<open>None\<close> when undefined.\<close>

definition stats_requestAll :: "(nat \<Rightarrow> nat \<Rightarrow> ix_page result) \<Rightarrow> nat \<Rightarrow> nat option \<Rightarrow> stat_tx list option result" where
  "stats_requestAll fn oneRequestLimit limit =
     (let defaultMaxAmount = (case limit of Some n \<Rightarrow> if n = 0 then 1000 else n | None \<Rightarrow> 1000) in
      bindR (fn oneRequestLimit 0) (\<lambda>firstRequest. case ix_data firstRequest of
        None \<Rightarrow> Inr None
      | Some txs \<Rightarrow> (case ix_meta firstRequest of
          None \<Rightarrow> Inl TypeError
        | Some meta_total \<Rightarrow>
            let maxAmount = (case meta_total of Some n \<Rightarrow> if n = 0 \<or> defaultMaxAmount < n then defaultMaxAmount else n | None \<Rightarrow> defaultMaxAmount);
                pages = (maxAmount + oneRequestLimit - 1) div oneRequestLimit
            in if oneRequestLimit < maxAmount then bindR (stats_pages fn oneRequestLimit 1 (pages - 1) txs) (\<lambda>ts. Inr (Some ts)) else Inr (Some txs))))"

definition day_interval :: "stats_env \<Rightarrow> int \<Rightarrow> string" where
  "day_interval env date = show_int date @ '':'' @ show_int (next_day env date)"

definition fetchTransactions :: "stats_env \<Rightarrow> int \<Rightarrow> stat_tx list result" where
  "fetchTransactions env date =
     (let fn = indexer_transactions env (day_interval env date) in
      bindR (fn 1 0) (\<lambda>first.
      bindR (stats_requestAll fn 100 (case ix_meta first of Some t \<Rightarrow> t | None \<Rightarrow> Some 1000)) (\<lambda>answer.
        Inr (case answer of Some txs \<Rightarrow> txs | None \<Rightarrow> []))))"

section \<open>Jobs\<close>

definition queueJob :: "stats_env \<Rightarrow> int \<Rightarrow> db \<Rightarrow> db \<times> unit result" where
  "queueJob env date d =
     (if date = 0 then (d, Inl (Error ''Missing date.''))
      else case fetchTransactions env date of
        Inr txs \<Rightarrow> insertToDB (transformStatsObjectToList (computeTransactionStats env txs)) date d
      | Inl e \<Rightarrow> (d, Inl e))"

definition date_missing :: "int \<Rightarrow> db \<Rightarrow> bool result" where
  "date_missing date d = bindR (find_tbl transactionStatisticsSchema [(''date'', PVal (JNum date)), (''limit'', PVal (JNum 1))] (Some [''id'']) False d) (\<lambda>rows. Inr (rows = []))"

text \<open>The days that are added to the queue.\<close>

definition fetchTransactionsForPastNDays :: "stats_env \<Rightarrow> nat \<Rightarrow> bool \<Rightarrow> db \<Rightarrow> int list result" where
  "fetchTransactionsForPastNDays env n forceReload d =
     foldR (\<lambda>i scheduled.
       bindR (if i = 0 then Inr True else date_missing (day_start env i) d) (\<lambda>shouldUpdate.
         Inr (if shouldUpdate \<or> forceReload then scheduled @ [day_start env i] else scheduled))) [0..<n] []"

definition updateTodayStats :: "stats_env \<Rightarrow> db \<Rightarrow> int list result" where
  "updateTodayStats env d = fetchTransactionsForPastNDays env 1 True d"

definition stats_init :: "stats_env \<Rightarrow> nat \<Rightarrow> db \<Rightarrow> int list result" where
  "stats_init env historyLengthDays d = fetchTransactionsForPastNDays env historyLengthDays True d"

section \<open>Requests\<close>

record stats_params =
  sp_dateFormat :: "string option"
  sp_dateFrom :: "int option"
  sp_dateTo :: "int option"
  sp_limit :: "nat option"
  sp_tokenIDs :: "string list option"

definition no_stats_params :: stats_params where
  "no_stats_params = \<lparr>sp_dateFormat = None, sp_dateFrom = None, sp_dateTo = None, sp_limit = None, sp_tokenIDs = None\<rparr>"

definition date_between :: "stats_params \<Rightarrow> prop_between" where
  "date_between ps = \<lparr>pb_property = ''date'', pb_from = map_option JNum (sp_dateFrom ps), pb_to = map_option JNum (sp_dateTo ps),
     pb_greaterThanEqualTo = None, pb_lowerThanEqualTo = None, pb_greaterThan = None, pb_lowerThan = None\<rparr>"

definition getSelector :: "nat \<Rightarrow> stats_params \<Rightarrow> params" where
  "getSelector numTrxTypes ps =
     (let limit = (case sp_limit ps of Some n \<Rightarrow> if n = 0 then 366 * (numTrxTypes + 1) else n | None \<Rightarrow> 366 * (numTrxTypes + 1));
          base = [(''sort'', PVal (JStr ''date:desc'')), (''limit'', PVal (JNum (int limit)))]
      in if ps = no_stats_params then base else (''propBetweens'', PBetweens [date_between ps]) # base)"

definition cell_num :: "jsval \<Rightarrow> int" where
  "cell_num v = (case v of JNum n \<Rightarrow> n | JBig n \<Rightarrow> n | _ \<Rightarrow> 0)"

text \<open>An object of sums: \<^verbatim>\<open>if (!o[k]) o[k] = 0; o[k] += n\<close>.\<close>

definition tally :: "('a \<Rightarrow> string) \<Rightarrow> ('a \<Rightarrow> int) \<Rightarrow> 'a list \<Rightarrow> (string \<times> int) list" where
  "tally key weight xs = fold (\<lambda>x o'. AList.update (key x) ((case map_of o' (key x) of Some n \<Rightarrow> n | None \<Rightarrow> 0) + weight x) o') xs []"

definition sort_object :: "stats_env \<Rightarrow> (string \<times> 'a) list \<Rightarrow> (string \<times> 'a) list" where
  "sort_object env o' = js_sort (\<lambda>a b. localeCompare env (fst a) (fst b)) o'"

definition token_rows :: "params \<Rightarrow> string \<Rightarrow> string list \<Rightarrow> db \<Rightarrow> row list result" where
  "token_rows ps tokenID cols d =
     find_tbl transactionStatisticsSchema (ps @ [(''whereIn'', PIn [(''tokenID'', [JStr tokenID, JStr UNAVAILABLE])])]) (Some cols) False d"

record timeline_entry =
  tl_date :: string
  tl_transactionCount :: int
  tl_volume :: int
  tl_timestamp :: int

definition timeline_step :: "stats_env \<Rightarrow> string \<Rightarrow> row \<Rightarrow> (string \<times> int \<times> int) list \<Rightarrow> (string \<times> int \<times> int) list" where
  "timeline_step env dateFormat entry o' =
     (let k = format_unix env dateFormat (cell_num (row_get entry ''date''));
          (c, v) = (case map_of o' k of Some x \<Rightarrow> x | None \<Rightarrow> (0, 0))
      in AList.update k (c + cell_num (row_get entry ''count''), to_double (v + cell_num (row_get entry ''volume''))) o')"

definition token_timeline :: "stats_env \<Rightarrow> string \<Rightarrow> row list \<Rightarrow> timeline_entry list" where
  "token_timeline env dateFormat rows =
     map (\<lambda>(k, c, v). \<lparr>tl_date = k, tl_transactionCount = c, tl_volume = v, tl_timestamp = date_parse env k\<rparr>)
       (rev (sort_object env (fold (timeline_step env dateFormat) rows [])))"

definition getStatsTimeline :: "stats_env \<Rightarrow> nat \<Rightarrow> string \<Rightarrow> string list \<Rightarrow> stats_params \<Rightarrow> db \<Rightarrow> (string \<times> timeline_entry list) list result" where
  "getStatsTimeline env numTrxTypes dateFormat tokenIDs ps d =
     bindR (mapR (\<lambda>tokenID. bindR (token_rows (getSelector numTrxTypes ps) tokenID [''date'', ''count'', ''volume''] d) (\<lambda>rows.
              Inr (tokenID, token_timeline env dateFormat rows))) tokenIDs)
       (\<lambda>timelines. Inr (filter (\<lambda>(t, _). t \<noteq> UNAVAILABLE) timelines))"

definition getDistributionByAmount :: "stats_env \<Rightarrow> nat \<Rightarrow> string list \<Rightarrow> stats_params \<Rightarrow> db \<Rightarrow> (string \<times> (string \<times> int) list) list result" where
  "getDistributionByAmount env numTrxTypes tokenIDs ps d =
     bindR (mapR (\<lambda>tokenID. bindR (token_rows (getSelector numTrxTypes ps) tokenID [''amount_range'', ''count''] d) (\<lambda>rows.
              Inr (tokenID, sort_object env (tally (\<lambda>r. js_String (row_get r ''amount_range'')) (\<lambda>r. cell_num (row_get r ''count''))
                (filter (\<lambda>r. 0 < cell_num (row_get r ''count'')) rows))))) tokenIDs)
       (\<lambda>distributions. Inr (filter (\<lambda>(t, _). t \<noteq> UNAVAILABLE) distributions))"

definition getDistributionByType :: "stats_env \<Rightarrow> nat \<Rightarrow> stats_params \<Rightarrow> db \<Rightarrow> (string \<times> int) list result" where
  "getDistributionByType env numTrxTypes ps d =
     bindR (find_tbl transactionStatisticsSchema (getSelector numTrxTypes ps) (Some [''moduleCommand'', ''count'']) False d) (\<lambda>rows.
       Inr (sort_object env (tally (\<lambda>r. js_String (row_get r ''moduleCommand'')) (\<lambda>r. cell_num (row_get r ''count''))
         (filter (\<lambda>r. 0 < cell_num (row_get r ''count'')) rows))))"

text \<open>The verification of the table: the days to be built again. The bounds of the interval are given.\<close>

definition validateTransactionStatistics :: "stats_env \<Rightarrow> nat \<Rightarrow> int \<Rightarrow> int \<Rightarrow> nat \<Rightarrow> db \<Rightarrow> int list result" where
  "validateTransactionStatistics env historyLengthDays dateFrom dateTo numTrxTypes d =
     bindR (getDistributionByType env numTrxTypes \<lparr>sp_dateFormat = Some ''YYYY-MM-DD'', sp_dateFrom = Some dateFrom, sp_dateTo = Some dateTo, sp_limit = None, sp_tokenIDs = None\<rparr> d)
       (\<lambda>distribution.
     bindR (mapR (\<lambda>(moduleCommand, n). bindR (indexer_total env moduleCommand (show_int dateFrom @ '':'' @ show_int dateTo)) (\<lambda>t. Inr (int t = n))) distribution) (\<lambda>verified.
       if list_all id verified then Inr [] else fetchTransactionsForPastNDays env historyLengthDays True d))"

record stats_answer =
  sa_timeline :: "(string \<times> timeline_entry list) list"
  sa_distributionByType :: "(string \<times> int) list"
  sa_distributionByAmount :: "(string \<times> (string \<times> int) list) list"
  sa_total :: int
  sa_duration :: "string \<times> string"

text \<open>The tokens are those of \<^verbatim>\<open>SELECT DISTINCT\<close>. The number of commands is asked once.\<close>

definition getTransactionsStatistics :: "stats_env \<Rightarrow> string \<Rightarrow> nat \<Rightarrow> nat \<Rightarrow> db \<Rightarrow> stats_answer result" where
  "getTransactionsStatistics env interval limit offset d =
     (let dateFormat = (if interval = ''day'' then ''YYYY-MM-DD'' else ''YYYY-MM'');
          (dateFrom, dateTo) = stats_window env interval limit offset;
          tokenIDs = map js_String (remdups (map (\<lambda>r. row_get r ''tokenID'') (read_table ''transaction_statistics'' False d)));
          ps = \<lparr>sp_dateFormat = Some dateFormat, sp_dateFrom = Some dateFrom, sp_dateTo = Some dateTo, sp_limit = None, sp_tokenIDs = Some tokenIDs\<rparr>
      in bindR (network_commands env) (\<lambda>numTrxTypes.
         bindR (getStatsTimeline env numTrxTypes dateFormat tokenIDs ps d) (\<lambda>timeline.
         bindR (getDistributionByType env numTrxTypes ps d) (\<lambda>byType.
         bindR (getDistributionByAmount env numTrxTypes tokenIDs ps d) (\<lambda>byAmount.
         bindR (find_tbl transactionStatisticsSchema [(''sort'', PVal (JStr ''date:asc'')), (''limit'', PVal (JNum 1))] (Some [''date'']) False d) (\<lambda>rows.
           let minDate = (case rows of r # _ \<Rightarrow> cell_num (row_get r ''date'') | [] \<Rightarrow> 0)
           in Inr \<lparr>sa_timeline = timeline, sa_distributionByType = byType, sa_distributionByAmount = byAmount,
                sa_total = (if minDate = 0 then 0 else intervals_since env interval minDate),
                sa_duration = (format_unix env dateFormat dateFrom, format_unix env dateFormat dateTo)\<rparr>))))))"

section \<open>Sums\<close>

lemma map_of_tally:
  "map_of (tally key weight xs) k = (if k \<in> key ` set xs then Some (sum_list (map weight (filter (\<lambda>x. key x = k) xs))) else None)"
proof (induction xs rule: rev_induct)
  case (snoc x xs)
  have "filter (\<lambda>y. key y = key x) xs = []" if "key x \<notin> key ` set xs"
    using that by (metis (mono_tags, lifting) filter_False image_eqI)
  moreover have "tally key weight (xs @ [x]) = AList.update (key x) ((case map_of (tally key weight xs) (key x) of Some n \<Rightarrow> n | None \<Rightarrow> 0) + weight x) (tally key weight xs)"
    by (simp add: tally_def)
  ultimately show ?case using snoc by (auto simp: update_conv')
qed (simp add: tally_def)

lemma distinct_tally: "distinct (map fst (tally key weight xs))"
proof -
  have "distinct (map fst (fold (\<lambda>x o'. AList.update (key x) (g x o') o') xs m))" if "distinct (map fst m)" for g :: "'a \<Rightarrow> (string \<times> int) list \<Rightarrow> int" and m
    using that by (induction xs arbitrary: m) (simp_all add: distinct_update)
  then show ?thesis by (simp add: tally_def)
qed

lemma map_of_sort_object:
  assumes "distinct (map fst o')"
  shows "map_of (sort_object env o') = map_of o'"
proof -
  have "mset (map fst (sort_object env o')) = mset (map fst o')" by (simp add: sort_object_def)
  then have "distinct (map fst (sort_object env o'))" using assms mset_eq_imp_distinct_iff by blast
  then show ?thesis using assms by (subst map_of_inject_set) (simp_all add: sort_object_def)
qed

lemma sum_update:
  "sum_list (map (\<lambda>p. f (snd p)) (AList.update k v al)) + (case map_of al k of Some w \<Rightarrow> f w | None \<Rightarrow> 0) = sum_list (map (\<lambda>p. f (snd p)) al) + (f v :: nat)"
  by (induction al) (auto split: option.splits)

section \<open>The object of a day\<close>

definition stats_wf :: "stats_object \<Rightarrow> bool" where
  "stats_wf acc \<longleftrightarrow> distinct (map fst acc) \<and> (\<forall>(mc, rs) \<in> set acc. distinct (map fst rs))"

lemma stats_wf_count: "stats_wf acc \<Longrightarrow> stats_wf (count_transaction env tx acc)"
proof -
  assume wf: "stats_wf acc"
  let ?mc = "sx_moduleCommand tx"
  have "distinct (map fst (case map_of acc ?mc of Some rs \<Rightarrow> rs | None \<Rightarrow> []))"
    using wf by (auto simp: stats_wf_def split: option.splits dest: map_of_SomeD)
  moreover have "set (AList.update k v al) \<subseteq> insert (k, v) (set al)" for k v and al :: stats_object
    by (induction al) auto
  ultimately show ?thesis
    using wf unfolding stats_wf_def count_transaction_def Let_def by (fastforce simp: distinct_update)
qed

lemma stats_wf_compute: "stats_wf (computeTransactionStats env txs)"
proof -
  have "stats_wf (fold (count_transaction env) txs acc)" if "stats_wf acc" for acc
    using that by (induction txs arbitrary: acc) (simp_all add: stats_wf_count)
  moreover have "stats_wf (getInitialValueToEnsureEachDayHasAtLeastOneEntry env)"
    by (simp add: getInitialValueToEnsureEachDayHasAtLeastOneEntry_def stats_wf_def)
  ultimately show ?thesis by (simp add: computeTransactionStats_def)
qed

definition add_to_stat :: "stats_env \<Rightarrow> stat_tx \<Rightarrow> tx_stat \<Rightarrow> tx_stat" where
  "add_to_stat env tx s = \<lparr>st_count = st_count s + 1, st_volume = bn_add env (st_volume s) (getTxValue env tx), st_tokenID = tx_token tx\<rparr>"

lemma stat_count_transaction:
  "getTxStatsWithFallback (count_transaction env tx acc) mc r =
     (if mc = sx_moduleCommand tx \<and> r = getRange env tx then add_to_stat env tx (getTxStatsWithFallback acc mc r) else getTxStatsWithFallback acc mc r)"
  by (auto simp: count_transaction_def getTxStatsWithFallback_def add_to_stat_def Let_def update_conv' split: option.splits)

text \<open>Every entry is the sum over the transactions of its type and range.\<close>

lemma stat_compute:
  "getTxStatsWithFallback (computeTransactionStats env txs) mc r =
     fold (add_to_stat env) (filter (\<lambda>tx. sx_moduleCommand tx = mc \<and> getRange env tx = r) txs) default_stat"
proof (induction txs rule: rev_induct)
  case Nil
  then show ?case by (simp add: computeTransactionStats_def getInitialValueToEnsureEachDayHasAtLeastOneEntry_def getTxStatsWithFallback_def)
next
  case (snoc tx txs)
  have "computeTransactionStats env (txs @ [tx]) = count_transaction env tx (computeTransactionStats env txs)" by (simp add: computeTransactionStats_def)
  then show ?case using snoc by (auto simp: stat_count_transaction)
qed

lemma fold_add_count: "st_count (fold (add_to_stat env) txs s) = st_count s + length txs"
  by (induction txs arbitrary: s) (simp_all add: add_to_stat_def)

lemma fold_add_token: "txs \<noteq> [] \<Longrightarrow> st_tokenID (fold (add_to_stat env) txs s) = tx_token (last txs)"
  by (induction txs rule: rev_induct) (simp_all add: add_to_stat_def)

lemma fold_add_volume:
  assumes "\<And>a b. bn_add env a b = a + b"
  shows "st_volume (fold (add_to_stat env) txs s) = st_volume s + sum_list (map (getTxValue env) txs)"
  using assms by (induction txs arbitrary: s) (simp_all add: add_to_stat_def)

section \<open>The rows of a day\<close>

lemma transform_Cons:
  "transformStatsObjectToList ((mc, rs) # acc) = map (\<lambda>(rng, st). \<lparr>sr_moduleCommand = mc, sr_volume = to_double (st_volume st), sr_count = st_count st,
     sr_range = rng, sr_tokenID = st_tokenID st\<rparr>) rs @ transformStatsObjectToList acc"
  by (simp add: transformStatsObjectToList_def)

lemma transform_types: "sr_moduleCommand ` set (transformStatsObjectToList acc) \<subseteq> fst ` set acc"
  by (auto simp: transformStatsObjectToList_def) force

lemma transform_distinct:
  "stats_wf acc \<Longrightarrow> distinct (map (\<lambda>s. (sr_moduleCommand s, sr_range s)) (transformStatsObjectToList acc))"
proof (induction acc)
  case (Cons x acc)
  obtain mc rs where x: "x = (mc, rs)" by fastforce
  have "map (\<lambda>s. (sr_moduleCommand s, sr_range s)) (transformStatsObjectToList (x # acc)) =
      map (Pair mc) (map fst rs) @ map (\<lambda>s. (sr_moduleCommand s, sr_range s)) (transformStatsObjectToList acc)"
    by (simp add: x transform_Cons comp_def case_prod_beta)
  moreover have "distinct (map (Pair mc) (map fst rs))" using Cons.prems by (simp add: x stats_wf_def distinct_map inj_on_def)
  moreover have "mc \<notin> fst ` set acc" using Cons.prems by (simp add: x stats_wf_def)
  moreover have "stats_wf acc" using Cons.prems by (simp add: stats_wf_def)
  moreover have "mc \<notin> sr_moduleCommand ` set (transformStatsObjectToList acc)" using transform_types [of acc] calculation(3) by blast
  then have "set (map (Pair mc) (map fst rs)) \<inter> set (map (\<lambda>s. (sr_moduleCommand s, sr_range s)) (transformStatsObjectToList acc)) = {}" by auto
  ultimately show ?case using Cons.IH by (simp only: distinct_append simp_thms)
qed (simp add: transformStatsObjectToList_def)

lemma in_transform:
  assumes "stats_wf acc" and "s \<in> set (transformStatsObjectToList acc)"
  defines "st \<equiv> getTxStatsWithFallback acc (sr_moduleCommand s) (sr_range s)"
  shows "sr_count s = st_count st \<and> sr_volume s = to_double (st_volume st) \<and> sr_tokenID s = st_tokenID st"
proof -
  obtain mc rs rng x where s: "(mc, rs) \<in> set acc" "(rng, x) \<in> set rs" and s': "s = \<lparr>sr_moduleCommand = mc, sr_volume = to_double (st_volume x), sr_count = st_count x,
     sr_range = rng, sr_tokenID = st_tokenID x\<rparr>"
    using assms(2) by (auto simp: transformStatsObjectToList_def)
  have "map_of acc mc = Some rs" "map_of rs rng = Some x" using assms(1) s by (auto simp: stats_wf_def)
  then show ?thesis by (simp add: s' st_def getTxStatsWithFallback_def)
qed

lemma transform_has:
  assumes "st_count (getTxStatsWithFallback acc mc rng) \<noteq> 0"
  shows "\<exists>s \<in> set (transformStatsObjectToList acc). sr_moduleCommand s = mc \<and> sr_range s = rng"
proof -
  obtain rs x where "map_of acc mc = Some rs" "map_of rs rng = Some x"
    using assms by (auto simp: getTxStatsWithFallback_def default_stat_def split: option.splits)
  then have "(mc, rs) \<in> set acc" "(rng, x) \<in> set rs" by (simp_all add: map_of_SomeD)
  then show ?thesis by (force simp: transformStatsObjectToList_def)
qed

definition type_count :: "stats_object \<Rightarrow> string \<Rightarrow> nat" where
  "type_count acc mc = (case map_of acc mc of Some rs \<Rightarrow> sum_list (map (\<lambda>p. st_count (snd p)) rs) | None \<Rightarrow> 0)"

lemma type_count_transform:
  "stats_wf acc \<Longrightarrow> sum_list (map sr_count (filter (\<lambda>s. sr_moduleCommand s = mc) (transformStatsObjectToList acc))) = type_count acc mc"
proof (induction acc)
  case (Cons x acc)
  obtain k rs where x: "x = (k, rs)" by fastforce
  have none: "filter (\<lambda>s. sr_moduleCommand s = k) (transformStatsObjectToList acc) = []" "map_of acc k = None"
    using Cons.prems transform_types [of acc] by (auto simp: x stats_wf_def filter_empty_conv map_of_eq_None_iff)
  show ?case
  proof (cases "k = mc")
    case True
    have "filter (\<lambda>s. sr_moduleCommand s = mc) (transformStatsObjectToList (x # acc)) = map (\<lambda>(rng, st). \<lparr>sr_moduleCommand = mc, sr_volume = to_double (st_volume st),
        sr_count = st_count st, sr_range = rng, sr_tokenID = st_tokenID st\<rparr>) rs"
      using none(1) by (simp add: x True transform_Cons filter_map comp_def case_prod_beta)
    then show ?thesis by (simp add: x True type_count_def comp_def case_prod_beta)
  next
    case False
    then have "filter (\<lambda>s. sr_moduleCommand s = mc) (transformStatsObjectToList (x # acc)) = filter (\<lambda>s. sr_moduleCommand s = mc) (transformStatsObjectToList acc)"
      by (simp add: x transform_Cons filter_map comp_def case_prod_beta)
    then show ?thesis using Cons False by (simp add: x type_count_def stats_wf_def)
  qed
qed (simp add: transformStatsObjectToList_def type_count_def)

lemma type_count_step: "type_count (count_transaction env tx acc) mc = type_count acc mc + (if sx_moduleCommand tx = mc then 1 else 0)"
proof (cases "sx_moduleCommand tx = mc")
  case True
  define rs where "rs = (case map_of acc mc of Some rs \<Rightarrow> rs | None \<Rightarrow> [])"
  define old where "old = getTxStatsWithFallback acc mc (getRange env tx)"
  have "st_count old = (case map_of rs (getRange env tx) of Some w \<Rightarrow> st_count w | None \<Rightarrow> 0)"
    by (simp add: old_def rs_def getTxStatsWithFallback_def default_stat_def split: option.splits)
  then show ?thesis
    using True sum_update [where f = st_count and k = "getRange env tx" and al = rs and v = "add_to_stat env tx old"]
    by (auto simp: type_count_def count_transaction_def Let_def update_conv' rs_def [symmetric] old_def [symmetric] add_to_stat_def split: option.splits)
      (simp_all add: rs_def)
next
  case False
  then show ?thesis by (simp add: type_count_def count_transaction_def Let_def update_conv')
qed

lemma type_count_compute: "type_count (computeTransactionStats env txs) mc = length (filter (\<lambda>tx. sx_moduleCommand tx = mc) txs)"
proof (induction txs rule: rev_induct)
  case Nil
  then show ?case by (simp add: computeTransactionStats_def getInitialValueToEnsureEachDayHasAtLeastOneEntry_def type_count_def default_stat_def)
next
  case (snoc tx txs)
  have "computeTransactionStats env (txs @ [tx]) = count_transaction env tx (computeTransactionStats env txs)" by (simp add: computeTransactionStats_def)
  then show ?case using snoc by (simp add: type_count_step)
qed

section \<open>The rows in the table\<close>

definition stat_cells :: "int \<Rightarrow> stat_row \<Rightarrow> row" where
  "stat_cells date s =
     [(''amount_range'', JStr (sr_range s)), (''count'', JNum (int (sr_count s))), (''date'', JNum date), (''id'', JStr (stat_id date s)),
      (''moduleCommand'', JStr (sr_moduleCommand s)), (''volume'', JBig (sr_volume s)), (''tokenID'', JStr (sr_tokenID s))]"

lemma stat_cells_full: "map fst (stat_cells date s) = map col_name (schema transactionStatisticsSchema)"
  by (simp add: stat_cells_def transactionStatisticsSchema_def mk_col_def)

lemma stat_cells_key: "row_key transactionStatisticsSchema (stat_cells date s) = [JStr (stat_id date s)]"
  by (simp add: stat_cells_def transactionStatisticsSchema_def row_key_def row_get_def)

lemma stat_rows_mapped: "mapRowsBySchema (map (stat_item date) l) (schema transactionStatisticsSchema) = Inr (map (stat_cells date) l)"
  by (induction l) (simp_all add: stat_item_def stat_cells_def transactionStatisticsSchema_def mk_col_def cast_def getValue_def)

lemma stat_rows_not_null: "list_all (not_null_ok transactionStatisticsSchema) (map (stat_cells date) l)"
proof -
  have "fill_row transactionStatisticsSchema (stat_cells date s) = stat_cells date s" for s
    by (rule fill_full [OF config_wf_transactionStatisticsSchema stat_cells_full])
  then show ?thesis by (simp add: list_all_iff not_null_ok_def) (simp add: stat_cells_def transactionStatisticsSchema_def mk_col_def row_get_def)
qed

abbreviation stats_table :: "db \<Rightarrow> table" where
  "stats_table d \<equiv> committed d ''transaction_statistics''"

lemma insertToDB_eq:
  "insertToDB l date d = (let ts = (committed d)(''transaction_statistics'' := fold (sql_insert_merge transactionStatisticsSchema) (map (stat_cells date) l) (stats_table d))
     in d\<lparr>committed := ts, working := ts\<rparr>, Inr ())"
  using stat_rows_not_null [of date l]
  by (simp add: insertToDB_def upsert_def stat_rows_mapped startDBTransaction_def commitDBTransaction_def run_stmt_def Let_def)
    (simp add: transactionStatisticsSchema_def)

lemma fold_insert_fresh:
  assumes "config_wf cfg" and "\<forall>n \<in> set news. map fst n = map col_name (schema cfg)" and "distinct (map (row_key cfg) (t @ news))"
  shows "fold (sql_insert_merge cfg) news t = t @ news"
  using assms(2,3)
proof (induction news arbitrary: t)
  case (Cons n news)
  have f: "fill_row cfg n = n" using Cons.prems(1) fill_full [OF assms(1)] by simp
  have "lookup_key cfg (new_key cfg n) t = None"
    unfolding lookup_key_None new_key_def f using Cons.prems(2) by (auto simp: image_iff)
  then have "sql_insert_merge cfg n t = t @ [n]" by (simp add: insert_fresh f)
  then show ?case using Cons.IH [of "t @ [n]"] Cons.prems by simp
qed simp

lemma show_int_no_dash: "0 \<le> n \<Longrightarrow> CHR ''-'' \<notin> set (show_int n)"
  using show_nat_digits [of "nat n"] by (auto simp: show_int_def list_all_iff is_digit_def)

lemma sep_inject: "c \<notin> set a \<Longrightarrow> c \<notin> set b \<Longrightarrow> a @ c # x = b @ c # y \<longleftrightarrow> a = b \<and> x = y"
proof (induction a arbitrary: b)
  case Nil
  then show ?case by (cases b) auto
next
  case (Cons e a)
  then show ?case by (cases b) auto
qed

lemma stat_id_inject:
  assumes "0 \<le> date" "0 \<le> date'" "CHR ''-'' \<notin> set (sr_moduleCommand s)" "CHR ''-'' \<notin> set (sr_moduleCommand s')"
  shows "stat_id date s = stat_id date' s' \<longleftrightarrow> date = date' \<and> sr_moduleCommand s = sr_moduleCommand s' \<and> sr_range s = sr_range s'"
  using sep_inject [OF show_int_no_dash [OF assms(1)] show_int_no_dash [OF assms(2)]] sep_inject [OF assms(3,4)]
  by (simp add: stat_id_def)

text \<open>What a job writes for a list of transactions.\<close>

definition day_rows :: "stats_env \<Rightarrow> stat_tx list \<Rightarrow> stat_row list" where
  "day_rows env txs = transformStatsObjectToList (computeTransactionStats env txs)"

lemma queueJob_eq: "date \<noteq> 0 \<Longrightarrow> fetchTransactions env date = Inr txs \<Longrightarrow> queueJob env date d = insertToDB (day_rows env txs) date d"
  by (simp add: queueJob_def day_rows_def)

lemma types_count: "fst ` set (count_transaction env tx acc) = insert (sx_moduleCommand tx) (fst ` set acc)"
  by (auto simp: count_transaction_def Let_def dom_update)

lemma types_compute: "fst ` set (computeTransactionStats env txs) = insert ANY (sx_moduleCommand ` set txs)"
proof (induction txs rule: rev_induct)
  case Nil
  then show ?case by (simp add: computeTransactionStats_def getInitialValueToEnsureEachDayHasAtLeastOneEntry_def)
next
  case (snoc tx txs)
  have "computeTransactionStats env (txs @ [tx]) = count_transaction env tx (computeTransactionStats env txs)" by (simp add: computeTransactionStats_def)
  then show ?case using snoc by (simp add: types_count) blast
qed

lemma day_rows_plain:
  assumes "\<forall>tx \<in> set txs. CHR ''-'' \<notin> set (sx_moduleCommand tx)" and "s \<in> set (day_rows env txs)"
  shows "CHR ''-'' \<notin> set (sr_moduleCommand s)"
proof -
  have "sr_moduleCommand s \<in> insert ANY (sx_moduleCommand ` set txs)"
    using assms(2) transform_types [of "computeTransactionStats env txs"] unfolding types_compute day_rows_def by blast
  then show ?thesis using assms(1) by (auto simp: ANY_def)
qed

lemma day_rows_keys:
  assumes "0 \<le> date" and "\<forall>tx \<in> set txs. CHR ''-'' \<notin> set (sx_moduleCommand tx)"
  shows "distinct (map (row_key transactionStatisticsSchema) (map (stat_cells date) (day_rows env txs)))"
proof -
  have d: "distinct (map (\<lambda>s. (sr_moduleCommand s, sr_range s)) (day_rows env txs))"
    unfolding day_rows_def by (rule transform_distinct [OF stats_wf_compute])
  have "inj_on (\<lambda>s. [JStr (stat_id date s)]) (set (day_rows env txs))"
    using d day_rows_plain [OF assms(2)] stat_id_inject [OF assms(1,1)] by (auto simp: distinct_map inj_on_def)
  then show ?thesis using d by (auto simp: distinct_map comp_def stat_cells_key)
qed

lemma jobs_append:
  assumes "distinct dates" and "\<forall>date \<in> set dates. 0 < date \<and> fetchTransactions env date = Inr (txs date) \<and> (\<forall>tx \<in> set (txs date). CHR ''-'' \<notin> set (sx_moduleCommand tx))"
    and "\<forall>r \<in> set (stats_table d). \<forall>date \<in> set dates. \<forall>s. CHR ''-'' \<notin> set (sr_moduleCommand s) \<longrightarrow> row_key transactionStatisticsSchema r \<noteq> [JStr (stat_id date s)]"
    and "distinct (map (row_key transactionStatisticsSchema) (stats_table d))"
  shows "stats_table (fold (\<lambda>date d. fst (queueJob env date d)) dates d) = stats_table d @ concat (map (\<lambda>date. map (stat_cells date) (day_rows env (txs date))) dates)"
  using assms
proof (induction dates arbitrary: d)
  case (Cons date dates)
  let ?new = "map (stat_cells date) (day_rows env (txs date))"
  let ?d = "fst (queueJob env date d)"
  have p: "0 < date" "fetchTransactions env date = Inr (txs date)" "\<forall>tx \<in> set (txs date). CHR ''-'' \<notin> set (sx_moduleCommand tx)" using Cons.prems(2) by simp_all
  have k: "row_key transactionStatisticsSchema r \<notin> row_key transactionStatisticsSchema ` set (stats_table d)" if "r \<in> set ?new" for r
    using that Cons.prems(3) day_rows_plain [OF p(3)] by (fastforce simp: stat_cells_key)
  have dist: "distinct (map (row_key transactionStatisticsSchema) (stats_table d @ ?new))"
  proof -
    have "row_key transactionStatisticsSchema ` set (stats_table d) \<inter> row_key transactionStatisticsSchema ` set ?new = {}"
    proof (rule equals0I)
      fix y assume y: "y \<in> row_key transactionStatisticsSchema ` set (stats_table d) \<inter> row_key transactionStatisticsSchema ` set ?new"
      then obtain r where "r \<in> set ?new" "y = row_key transactionStatisticsSchema r" by (elim IntE imageE)
      with k [of r] y show False by simp
    qed
    then show ?thesis using Cons.prems(4) day_rows_keys [OF _ p(3), of date env] p(1) unfolding map_append distinct_append set_map by simp
  qed
  have t: "stats_table ?d = stats_table d @ ?new"
    using p fold_insert_fresh [OF config_wf_transactionStatisticsSchema _ dist] stat_cells_full
    by (simp add: queueJob_eq [OF _ p(2)] insertToDB_eq Let_def)
  have fresh: "\<forall>r \<in> set (stats_table ?d). \<forall>date' \<in> set dates. \<forall>s. CHR ''-'' \<notin> set (sr_moduleCommand s) \<longrightarrow> row_key transactionStatisticsSchema r \<noteq> [JStr (stat_id date' s)]"
  proof (intro ballI allI impI)
    fix r date' and s :: stat_row assume r: "r \<in> set (stats_table ?d)" "date' \<in> set dates" "CHR ''-'' \<notin> set (sr_moduleCommand s)"
    have "0 \<le> date'" "date \<noteq> date'" using r(2) Cons.prems(1,2) by force+
    then show "row_key transactionStatisticsSchema r \<noteq> [JStr (stat_id date' s)]"
      using r Cons.prems(3) p(1) day_rows_plain [OF p(3)] stat_id_inject [of date date' _ s] by (auto simp: t stat_cells_key)
  qed
  show ?case using Cons.IH [OF _ _ fresh] Cons.prems(1,2) dist by (simp add: t)
qed simp

section \<open>Adding up over days\<close>

definition key_sum :: "('a \<Rightarrow> string) \<Rightarrow> ('a \<Rightarrow> int) \<Rightarrow> 'a list \<Rightarrow> string \<Rightarrow> int" where
  "key_sum key weight xs k = sum_list (map weight (filter (\<lambda>x. key x = k) xs))"

lemma key_sum_pairs: "key_sum key weight xs k = key_sum fst snd (map (\<lambda>x. (key x, weight x)) xs) k"
  by (induction xs) (simp_all add: key_sum_def)

lemma key_sum_mset: "mset xs = mset ys \<Longrightarrow> key_sum key weight xs k = key_sum key weight ys k"
proof -
  assume "mset xs = mset ys"
  then have "mset (map weight (filter (\<lambda>x. key x = k) xs)) = mset (map weight (filter (\<lambda>x. key x = k) ys))" by simp
  then show ?thesis unfolding key_sum_def by (simp only: flip: sum_mset_sum_list)
qed

lemma key_sum_concat: "key_sum key weight (concat xss) k = sum_list (map (\<lambda>xs. key_sum key weight xs k) xss)"
  by (induction xss) (simp_all add: key_sum_def)

lemma tally_positive:
  assumes "\<forall>x \<in> set xs. 0 \<le> weight x"
  shows "map_of (tally key weight (filter (\<lambda>x. 0 < weight x) xs)) k = (if key_sum key weight xs k = 0 then None else Some (key_sum key weight xs k))"
proof -
  let ?ys = "filter (\<lambda>x. key x = k) (filter (\<lambda>x. 0 < weight x) xs)"
  have eq: "sum_list (map weight ?ys) = key_sum key weight xs k"
    using assms unfolding key_sum_def by (induction xs) auto
  have "sum_list (map weight ?ys) = 0 \<longleftrightarrow> ?ys = []"
  proof
    assume "sum_list (map weight ?ys) = 0"
    moreover have "int (length ?ys) \<le> sum_list (map weight ?ys)" by (induction xs) auto
    ultimately show "?ys = []" by simp
  qed simp
  moreover have "k \<in> key ` set (filter (\<lambda>x. 0 < weight x) xs) \<longleftrightarrow> ?ys \<noteq> []" by (auto simp: filter_empty_conv)
  ultimately show ?thesis unfolding map_of_tally eq by auto
qed

lemma selector_rows:
  assumes "\<forall>r \<in> set (stats_table d). \<exists>n. row_get r ''date'' = JNum n" and "ps \<noteq> no_stats_params" and "sp_dateFrom ps = Some a" and "sp_dateTo ps = Some b" and "sp_limit ps = None"
    and "length (filter (\<lambda>r. case row_get r ''date'' of JNum n \<Rightarrow> a \<le> n \<and> n \<le> b | _ \<Rightarrow> False) (stats_table d)) \<le> 366 * (numTrxTypes + 1)"
  shows "\<exists>rows. find_tbl transactionStatisticsSchema (getSelector numTrxTypes ps) (Some cols) False d = Inr (map (\<lambda>r. map (\<lambda>c. (c, row_get r c)) (cols @ filter (\<lambda>c. c \<notin> set cols) [''date''])) rows)
     \<and> mset rows = mset (filter (\<lambda>r. case row_get r ''date'' of JNum n \<Rightarrow> a \<le> n \<and> n \<le> b | _ \<Rightarrow> False) (stats_table d))"
proof -
  let ?P = "\<lambda>r. case row_get r ''date'' of JNum n \<Rightarrow> a \<le> n \<and> n \<le> b | _ \<Rightarrow> False"
  let ?ps = "getSelector numTrxTypes ps"
  let ?rows = "limit_rows ?ps (order_by (sort_param ?ps ''sort'') (order_by (sort_param ?ps ''order'') (filter ?P (stats_table d))))"
  have s: "?ps = [(''propBetweens'', PBetweens [date_between ps]), (''sort'', PVal (JStr ''date:desc'')), (''limit'', PVal (JNum (int (366 * (numTrxTypes + 1)))))]"
    using assms(2,5) by (simp add: getSelector_def)
  have sort: "sort_param ?ps ''sort'' = Some (''date'', True)" by (simp add: s sort_param_def)
  obtain P where P: "queryBuilder False ?ps = Inr P" "\<forall>r \<in> set (stats_table d). P r = ?P r"
  proof -
    have "\<exists>P. queryBuilder False ?ps = Inr P \<and> (\<forall>r \<in> set (stats_table d). P r = ?P r)"
      using assms(1,3,4) by (auto simp: s queryBuilder_def where_clauses_def resolveQueryParams_def KNOWN_QUERY_PARAMS_def sort_clauses_def sort_param_def in_clauses_def
        whereIn_clauses_def nested_clauses_def null_clauses_def like_clauses_def between_clauses_def date_between_def eq_clauses_def Let_def)
    then show ?thesis using that by blast
  qed
  have f: "filter P (stats_table d) = filter ?P (stats_table d)" using P(2) by (intro filter_cong) simp_all
  have lim: "num_param ?ps ''offset'' = None" "num_param ?ps ''limit'' = Some (366 * (numTrxTypes + 1))"
    unfolding s num_param_def by (simp_all del: of_nat_mult of_nat_add of_nat_Suc)
  have "?rows = order_by (sort_param ?ps ''sort'') (order_by (sort_param ?ps ''order'') (filter ?P (stats_table d)))"
    using assms(6) size_mset [of "order_by _ _"] by (simp add: limit_rows_def lim mset_order_by flip: size_mset)
  then have "mset ?rows = mset (filter ?P (stats_table d))" by (simp add: mset_order_by)
  moreover have "sort_columns ?ps = [''date'']" by (simp add: sort_columns_def sort) (simp add: s sort_param_def)
  moreover have "tableName transactionStatisticsSchema = ''transaction_statistics''" by (simp add: transactionStatisticsSchema_def)
  ultimately show ?thesis by (intro exI [of _ ?rows]) (simp add: find_tbl_def P(1) f read_table_def)
qed

lemma day_rows_type: "key_sum sr_moduleCommand (\<lambda>s. int (sr_count s)) (day_rows env txs) mc = int (length (filter (\<lambda>tx. sx_moduleCommand tx = mc) txs))"
proof -
  have "key_sum sr_moduleCommand (\<lambda>s. int (sr_count s)) l mc = int (sum_list (map sr_count (filter (\<lambda>s. sr_moduleCommand s = mc) l)))" for l :: "stat_row list"
    by (induction l) (simp_all add: key_sum_def)
  then show ?thesis by (simp add: day_rows_def type_count_transform [OF stats_wf_compute] type_count_compute)
qed

lemma stat_cells_get:
  "row_get (stat_cells date s) ''date'' = JNum date" "row_get (stat_cells date s) ''moduleCommand'' = JStr (sr_moduleCommand s)"
  "row_get (stat_cells date s) ''count'' = JNum (int (sr_count s))"
  by (simp_all add: stat_cells_def row_get_def)

text \<open>
  The jobs of any set of days on an empty table, and a request over an interval whose rows do not exceed the limit of the request: the distribution by type adds
  up what was fetched for the days of the interval.
\<close>

lemma distribution_counts_fetched:
  assumes "distinct dates" and "\<forall>date \<in> set dates. 0 < date \<and> fetchTransactions env date = Inr (txs date) \<and> (\<forall>tx \<in> set (txs date). CHR ''-'' \<notin> set (sx_moduleCommand tx))"
    and "stats_table d = []" and "d' = fold (\<lambda>date d. fst (queueJob env date d)) dates d"
    and "ps = \<lparr>sp_dateFormat = Some f, sp_dateFrom = Some a, sp_dateTo = Some b, sp_limit = None, sp_tokenIDs = ts\<rparr>"
    and "sum_list (map (\<lambda>date. length (day_rows env (txs date))) (filter (\<lambda>date. a \<le> date \<and> date \<le> b) dates)) \<le> 366 * (numTrxTypes + 1)"
  shows "\<exists>distribution. getDistributionByType env numTrxTypes ps d' = Inr distribution
     \<and> (\<forall>mc. map_of distribution mc = (let n = sum_list (map (\<lambda>date. int (length (filter (\<lambda>tx. sx_moduleCommand tx = mc) (txs date)))) (filter (\<lambda>date. a \<le> date \<and> date \<le> b) dates))
          in if n = 0 then None else Some n))"
proof -
  let ?in = "\<lambda>date. a \<le> date \<and> date \<le> b"
  let ?P = "\<lambda>r. case row_get r ''date'' of JNum n \<Rightarrow> ?in n | _ \<Rightarrow> False"
  let ?key = "\<lambda>r. js_String (row_get r ''moduleCommand'')" and ?w = "\<lambda>r. cell_num (row_get r ''count'')"
  let ?cells = "\<lambda>date. map (stat_cells date) (day_rows env (txs date))"
  have t: "stats_table d' = concat (map ?cells dates)" using jobs_append [OF assms(1,2)] assms(3,4) by simp
  have ft: "filter ?P (concat (map ?cells ds)) = concat (map ?cells (filter ?in ds))" for ds
    by (induction ds) (auto simp: stat_cells_get filter_map comp_def)
  have len: "length (filter ?P (stats_table d')) \<le> 366 * (numTrxTypes + 1)"
    unfolding t ft using assms(6) by (simp add: length_concat comp_def)
  have dt: "\<forall>r \<in> set (stats_table d'). \<exists>n. row_get r ''date'' = JNum n" by (auto simp: t stat_cells_get)
  obtain rows where rows: "find_tbl transactionStatisticsSchema (getSelector numTrxTypes ps) (Some [''moduleCommand'', ''count'']) False d' =
       Inr (map (\<lambda>r. map (\<lambda>c. (c, row_get r c)) ([''moduleCommand'', ''count''] @ filter (\<lambda>c. c \<notin> set [''moduleCommand'', ''count'']) [''date''])) rows)"
    "mset rows = mset (concat (map ?cells (filter ?in dates)))"
    using selector_rows [OF dt _ _ _ _ len, of ps "[''moduleCommand'', ''count'']"] assms(5) by (auto simp: no_stats_params_def t ft)
  let ?sel = "map (\<lambda>r. map (\<lambda>c. (c, row_get r c)) [''moduleCommand'', ''count'', ''date'']) rows"
  have rows': "find_tbl transactionStatisticsSchema (getSelector numTrxTypes ps) (Some [''moduleCommand'', ''count'']) False d' = Inr ?sel" using rows(1) by simp
  have pairs: "map (\<lambda>r. (?key r, ?w r)) ?sel = map (\<lambda>r. (?key r, ?w r)) rows" by (simp add: row_get_def)
  have key: "key_sum ?key ?w ?sel mc = sum_list (map (\<lambda>date. int (length (filter (\<lambda>tx. sx_moduleCommand tx = mc) (txs date)))) (filter ?in dates))" for mc
  proof -
    have day: "key_sum ?key ?w (?cells date) mc = int (length (filter (\<lambda>tx. sx_moduleCommand tx = mc) (txs date)))" for date
      using day_rows_type [of env "txs date" mc] by (simp add: key_sum_def filter_map comp_def stat_cells_get cell_num_def)
    have "key_sum ?key ?w ?sel mc = key_sum ?key ?w rows mc" using key_sum_pairs [of ?key ?w ?sel mc] key_sum_pairs [of ?key ?w rows mc] unfolding pairs by simp
    also have "\<dots> = key_sum ?key ?w (concat (map ?cells (filter ?in dates))) mc" by (rule key_sum_mset [OF rows(2)])
    also have "\<dots> = sum_list (map (\<lambda>date. key_sum ?key ?w (?cells date) mc) (filter ?in dates))" by (simp add: key_sum_concat comp_def)
    also have "\<dots> = sum_list (map (\<lambda>date. int (length (filter (\<lambda>tx. sx_moduleCommand tx = mc) (txs date)))) (filter ?in dates))" by (simp only: day)
    finally show ?thesis .
  qed
  have "set rows = set (concat (map ?cells (filter ?in dates)))" using rows(2) by (rule mset_eq_setD)
  then have "\<forall>r \<in> set rows. 0 \<le> ?w r" by (auto simp: stat_cells_get cell_num_def)
  then have pos: "\<forall>r \<in> set ?sel. 0 \<le> ?w r" by (simp add: row_get_def)
  let ?dist = "sort_object env (tally ?key ?w (filter (\<lambda>r. 0 < ?w r) ?sel))"
  have "getDistributionByType env numTrxTypes ps d' = Inr ?dist" by (simp only: getDistributionByType_def rows' bindR_Inr)
  moreover have "map_of ?dist mc = (if key_sum ?key ?w ?sel mc = 0 then None else Some (key_sum ?key ?w ?sel mc))" for mc
    by (simp only: map_of_sort_object [OF distinct_tally] tally_positive [OF pos])
  ultimately show ?thesis unfolding key Let_def by blast
qed

text \<open>
  The rows of a day are its transactions counted by type and range: every combination has one row, its count is the number of transactions of that type
  and range, its volume the sum of their values up to the precision of a double, and every transaction is counted.
\<close>

theorem statistics_count_transactions:
  assumes "\<And>x y. bn_add env x y = x + y"
  shows "distinct (map (\<lambda>s. (sr_moduleCommand s, sr_range s)) (day_rows env txs))
     \<and> (\<forall>s \<in> set (day_rows env txs). let g = filter (\<lambda>tx. sx_moduleCommand tx = sr_moduleCommand s \<and> getRange env tx = sr_range s) txs
          in sr_count s = length g \<and> sr_volume s = to_double (sum_list (map (getTxValue env) g)))
     \<and> (\<forall>tx \<in> set txs. \<exists>s \<in> set (day_rows env txs). sr_moduleCommand s = sx_moduleCommand tx \<and> sr_range s = getRange env tx)"
proof (intro conjI ballI)
  show "distinct (map (\<lambda>s. (sr_moduleCommand s, sr_range s)) (day_rows env txs))"
    unfolding day_rows_def by (rule transform_distinct [OF stats_wf_compute])
next
  fix s assume "s \<in> set (day_rows env txs)"
  then show "let g = filter (\<lambda>tx. sx_moduleCommand tx = sr_moduleCommand s \<and> getRange env tx = sr_range s) txs
     in sr_count s = length g \<and> sr_volume s = to_double (sum_list (map (getTxValue env) g))"
    using in_transform [OF stats_wf_compute] by (simp add: day_rows_def stat_compute fold_add_count fold_add_volume [OF assms] default_stat_def Let_def)
next
  fix tx assume "tx \<in> set txs"
  then have "filter (\<lambda>t. sx_moduleCommand t = sx_moduleCommand tx \<and> getRange env t = getRange env tx) txs \<noteq> []" by (auto simp: filter_empty_conv)
  then show "\<exists>s \<in> set (day_rows env txs). sr_moduleCommand s = sx_moduleCommand tx \<and> sr_range s = getRange env tx"
    unfolding day_rows_def by (intro transform_has) (simp add: stat_compute fold_add_count)
qed

text \<open>
  Tokens are mixed up. A row carries the token of the last transaction of its type and range: when a transaction of another token precedes it in the
  day, its value is added to the volume of the other token.
\<close>

theorem volume_under_last_token:
  assumes "s \<in> set (day_rows env txs)" and "tx \<in> set txs" and "sx_moduleCommand tx = sr_moduleCommand s" and "getRange env tx = sr_range s"
  shows "sr_tokenID s = tx_token (last (filter (\<lambda>t. sx_moduleCommand t = sr_moduleCommand s \<and> getRange env t = sr_range s) txs))"
proof -
  have "filter (\<lambda>t. sx_moduleCommand t = sr_moduleCommand s \<and> getRange env t = sr_range s) txs \<noteq> []" using assms(2-4) by (auto simp: filter_empty_conv)
  then show ?thesis using in_transform [OF stats_wf_compute] assms(1) by (simp add: day_rows_def stat_compute fold_add_token)
qed

lemma lookup_written:
  assumes "table_wf transactionStatisticsSchema t"
  shows "lookup_key transactionStatisticsSchema k (fold (sql_insert_merge transactionStatisticsSchema) (map (stat_cells date) l) t) =
      (case List.find (\<lambda>s. [JStr (stat_id date s)] = k) (rev l) of Some s \<Rightarrow> Some (stat_cells date s) | None \<Rightarrow> lookup_key transactionStatisticsSchema k t)"
proof (induction l rule: rev_induct)
  case (snoc s l)
  have "table_wf transactionStatisticsSchema (fold (sql_insert_merge transactionStatisticsSchema) (map (stat_cells date) l) t)"
    using assms by (induction l arbitrary: t) (simp_all add: table_wf_insert [OF config_wf_transactionStatisticsSchema])
  then show ?case
    using snoc lookup_insert_full [OF config_wf_transactionStatisticsSchema _ stat_cells_full] by (auto simp: stat_cells_key)
qed simp

text \<open>
  Building a day again removes nothing. A row of the day that the transactions no longer give, for instance after a fork, stays in the table; the rows they
  give are written over the old ones.
\<close>

theorem rebuild_keeps_old_rows:
  assumes "table_wf transactionStatisticsSchema (stats_table d)" and "0 < date" and "fetchTransactions env date = Inr txs"
    and "\<forall>tx \<in> set txs. CHR ''-'' \<notin> set (sx_moduleCommand tx)" and "queueJob env date d = (d', res)"
  shows "res = Inr () \<and> (\<forall>s \<in> set (day_rows env txs). lookup_key transactionStatisticsSchema [JStr (stat_id date s)] (stats_table d') = Some (stat_cells date s))
     \<and> (\<forall>k. k \<notin> (\<lambda>s. [JStr (stat_id date s)]) ` set (day_rows env txs) \<longrightarrow> lookup_key transactionStatisticsSchema k (stats_table d') = lookup_key transactionStatisticsSchema k (stats_table d))"
proof -
  let ?cfg = transactionStatisticsSchema
  let ?new = "map (stat_cells date) (day_rows env txs)"
  have q: "res = Inr ()" "stats_table d' = fold (sql_insert_merge ?cfg) ?new (stats_table d)"
    using assms(2,3,5) by (auto simp: queueJob_eq insertToDB_eq Let_def)
  have inj: "s = s'" if "s \<in> set (day_rows env txs)" "s' \<in> set (day_rows env txs)" "stat_id date s = stat_id date s'" for s s'
  proof -
    have "distinct (map (\<lambda>s. [JStr (stat_id date s)]) (day_rows env txs))" using day_rows_keys [OF _ assms(4), of date env] assms(2) by (simp add: comp_def stat_cells_key)
    then show ?thesis using that by (simp add: distinct_map inj_on_def)
  qed
  show ?thesis
  proof (intro conjI ballI allI impI)
    fix s assume s: "s \<in> set (day_rows env txs)"
    then have "\<exists>s'. List.find (\<lambda>s'. [JStr (stat_id date s')] = [JStr (stat_id date s)]) (rev (day_rows env txs)) = Some s' \<and> s' \<in> set (day_rows env txs) \<and> stat_id date s' = stat_id date s"
      by (cases "List.find (\<lambda>s'. [JStr (stat_id date s')] = [JStr (stat_id date s)]) (rev (day_rows env txs))") (auto simp: find_None_iff find_Some_iff, metis length_rev nth_mem set_rev)
    then obtain s' where "List.find (\<lambda>s'. [JStr (stat_id date s')] = [JStr (stat_id date s)]) (rev (day_rows env txs)) = Some s'" "s' = s" using s inj by blast
    then show "lookup_key ?cfg [JStr (stat_id date s)] (stats_table d') = Some (stat_cells date s)" unfolding q(2) lookup_written [OF assms(1)] by simp
  next
    fix k assume "k \<notin> (\<lambda>s. [JStr (stat_id date s)]) ` set (day_rows env txs)"
    then have "List.find (\<lambda>s. [JStr (stat_id date s)] = k) (rev (day_rows env txs)) = None" by (auto simp: find_None_iff)
    then show "lookup_key ?cfg k (stats_table d') = lookup_key ?cfg k (stats_table d)" unfolding q(2) lookup_written [OF assms(1)] by simp
  qed (rule q(1))
qed

section \<open>Fetching\<close>

definition serves_day :: "(nat \<Rightarrow> nat \<Rightarrow> ix_page result) \<Rightarrow> stat_tx list \<Rightarrow> bool" where
  "serves_day fn txs \<longleftrightarrow> (\<forall>l o'. fn l o' = Inr \<lparr>ix_data = Some (take l (drop o' txs)), ix_meta = Some (Some (length txs))\<rparr>)"

lemma stats_pages_collect:
  assumes "serves_day fn txs" and "0 < l"
  shows "stats_pages fn l page n (take (l * page) txs) = Inr (take (l * (page + n)) txs)"
proof (induction n arbitrary: page)
  case (Suc n)
  have fn: "fn l (l * page) = Inr \<lparr>ix_data = Some (take l (drop (l * page) txs)), ix_meta = Some (Some (length txs))\<rparr>" using assms(1) by (simp add: serves_day_def)
  show ?case
  proof (cases "take l (drop (l * page) txs)")
    case Nil
    then have "length txs \<le> l * page" using assms(2) by simp
    moreover have "l * page \<le> l * (page + Suc n)" by (rule mult_le_mono2) simp
    ultimately show ?thesis using fn Nil by simp
  next
    case (Cons t ts)
    then have "take (l * Suc page) txs = take (l * page) txs @ t # ts" by (simp only: mult_Suc_right add.commute [of l] take_add)
    then show ?thesis using fn Cons Suc.IH [of "Suc page"] by simp
  qed
qed simp

lemma stats_requestAll_collects:
  assumes "serves_day fn txs" and "0 < l" and "limit = Some (length txs) \<or> limit = None \<and> length txs \<le> 1000"
  shows "stats_requestAll fn l limit = Inr (Some txs)"
proof -
  define m where "m = (if length txs = 0 then 1000 else length txs)"
  have f: "fn l 0 = Inr \<lparr>ix_data = Some (take l txs), ix_meta = Some (Some (length txs))\<rparr>" using assms(1) by (simp add: serves_day_def)
  have "stats_requestAll fn l limit = (if l < m then bindR (stats_pages fn l 1 ((m + l - 1) div l - 1) (take l txs)) (\<lambda>ts. Inr (Some ts)) else Inr (Some (take l txs)))"
    using assms(3) by (auto simp: stats_requestAll_def f Let_def m_def)
  also have "\<dots> = Inr (Some txs)"
  proof (cases "l < m")
    case True
    have "m \<le> l * ((m + l - 1) div l)"
    proof -
      have "(m + l - 1) mod l < l" using assms(2) by simp
      moreover have "l * ((m + l - 1) div l) + (m + l - 1) mod l = m + l - 1" by simp
      ultimately show ?thesis using assms(2) by linarith
    qed
    moreover have "1 \<le> (m + l - 1) div l" using True assms(2) by (simp add: div_greater_zero_iff Suc_le_eq)
    moreover have "length txs \<le> m" by (simp add: m_def)
    ultimately show ?thesis using stats_pages_collect [OF assms(1,2), of 1 "(m + l - 1) div l - 1"] True by simp
  next
    case False
    then show ?thesis by (auto simp: m_def split: if_splits)
  qed
  finally show ?thesis .
qed

lemma fetch_all:
  assumes "serves_day (indexer_transactions env (day_interval env date)) txs"
  shows "fetchTransactions env date = Inr txs"
proof -
  have "indexer_transactions env (day_interval env date) 1 0 = Inr \<lparr>ix_data = Some (take 1 txs), ix_meta = Some (Some (length txs))\<rparr>"
    using assms by (simp add: serves_day_def)
  then show ?thesis using stats_requestAll_collects [OF assms] by (simp add: fetchTransactions_def)
qed

text \<open>
  The transactions of the index with their timestamps, and what the indexer answers to a request for an interval of time: a page of those whose timestamp lies
  between the two bounds, both included, and their number.
\<close>

type_synonym ledger = "(int \<times> stat_tx) list"

definition ledger_between :: "int \<Rightarrow> int \<Rightarrow> ledger \<Rightarrow> stat_tx list" where
  "ledger_between a b L = map snd (filter (\<lambda>(ts, _). a \<le> ts \<and> ts \<le> b) L)"

definition ledger_serves :: "stats_env \<Rightarrow> ledger \<Rightarrow> bool" where
  "ledger_serves env L \<longleftrightarrow> (\<forall>a b l o'. indexer_transactions env (show_int a @ '':'' @ show_int b) l o' =
     Inr \<lparr>ix_data = Some (take l (drop o' (ledger_between a b L))), ix_meta = Some (Some (length (ledger_between a b L)))\<rparr>)"

lemma fetch_ledger: "ledger_serves env L \<Longrightarrow> fetchTransactions env date = Inr (ledger_between date (next_day env date) L)"
  by (rule fetch_all) (simp add: serves_day_def ledger_serves_def day_interval_def)


section \<open>Scheduling\<close>

lemma date_missing_eq:
  "date_missing date d = Inr (\<forall>r \<in> set (stats_table d). \<not> sql_eq (row_get r ''date'') (JNum date))"
proof -
  have "queryBuilder False [(''date'', PVal (JNum date)), (''limit'', PVal (JNum 1))] = Inr (\<lambda>r. sql_eq (row_get r ''date'') (JNum date))"
    by (simp add: find_query_simps)
  moreover have "tableName transactionStatisticsSchema = ''transaction_statistics''" by (simp add: transactionStatisticsSchema_def)
  ultimately show ?thesis
    by (simp add: date_missing_def find_tbl_def sort_columns_def sort_param_def order_by_def limit_rows_def num_param_def read_table_def Let_def filter_empty_conv)
qed

text \<open>
  Which days are built. Without a forced reload these are today and the days of the history that have no row, with it all days, each once and in
  order.
\<close>

theorem scheduled_days:
  "fetchTransactionsForPastNDays env n forceReload d =
     Inr (map (day_start env) (filter (\<lambda>i. forceReload \<or> i = 0 \<or> (\<forall>r \<in> set (stats_table d). \<not> sql_eq (row_get r ''date'') (JNum (day_start env i)))) [0..<n]))"
proof -
  let ?f = "\<lambda>i scheduled. bindR (if i = 0 then Inr True else date_missing (day_start env i) d) (\<lambda>shouldUpdate.
         Inr (if shouldUpdate \<or> forceReload then scheduled @ [day_start env i] else scheduled))"
  let ?P = "\<lambda>i. forceReload \<or> i = 0 \<or> (\<forall>r \<in> set (stats_table d). \<not> sql_eq (row_get r ''date'') (JNum (day_start env i)))"
  have "foldR ?f is acc = Inr (acc @ map (day_start env) (filter ?P is))" for "is" acc
    by (induction "is" arbitrary: acc) (auto simp: date_missing_eq)
  then show ?thesis by (simp add: fetchTransactionsForPastNDays_def)
qed

section \<open>Examples\<close>

definition example_stat_tx :: "string \<Rightarrow> int \<Rightarrow> stat_tx" where
  "example_stat_tx t n = \<lparr>sx_moduleCommand = ''token:transfer'', sx_fee = JNum 1, sx_params = [(''amount'', JNum n), (''tokenID'', JStr t)]\<rparr>"

definition example_stats_env :: stats_env where
  "example_stats_env = \<lparr>bn_of = cell_num, bn_plus = (\<lambda>t v. t + cell_num v), bn_add = (+), floor_log10 = (\<lambda>v. int (length (show_int v)) - 9), day_start = (\<lambda>i. 86400 * (10 - int i)), next_day = (\<lambda>d. d + 86400),
     format_unix = (\<lambda>_ d. show_int d), date_parse = (\<lambda>_. 0), localeCompare = (\<lambda>_ _. 0),
     indexer_transactions = (\<lambda>_ l o'. Inr \<lparr>ix_data = Some (take l (drop o' [example_stat_tx ''aa'' 4, example_stat_tx ''bb'' 5])), ix_meta = Some (Some 2)\<rparr>),
     indexer_total = (\<lambda>_ _. Inr 2), network_commands = Inr 10, stats_window = (\<lambda>_ _ _. (0, 0)), intervals_since = (\<lambda>_ _. 0)\<rparr>"

definition example_day :: "stat_tx list" where
  "example_day = [example_stat_tx ''aa'' 4, example_stat_tx ''bb'' 5]"

lemma example_day_rows:
  "day_rows example_stats_env example_day =
     [\<lparr>sr_moduleCommand = ''any'', sr_volume = 0, sr_count = 0, sr_range = ''0_0'', sr_tokenID = ''na''\<rparr>,
      \<lparr>sr_moduleCommand = ''token:transfer'', sr_volume = 11, sr_count = 2, sr_range = ''1e-8_1e-7'', sr_tokenID = ''bb''\<rparr>]"
proof -
  have "computeTransactionStats example_stats_env example_day =
     [(''any'', [(''0_0'', \<lparr>st_count = 0, st_volume = 0, st_tokenID = ''na''\<rparr>)]),
      (''token:transfer'', [(''1e-8_1e-7'', \<lparr>st_count = 2, st_volume = 11, st_tokenID = ''bb''\<rparr>)])]" by code_simp
  then show ?thesis by (simp add: day_rows_def transformStatsObjectToList_def)
qed

lemma example_fetch: "fetchTransactions example_stats_env date = Inr example_day"
  by (rule fetch_all) (simp add: serves_day_def example_stats_env_def example_day_def)

lemma example_plain: "\<forall>tx \<in> set example_day. CHR ''-'' \<notin> set (sx_moduleCommand tx)"
  by (simp add: example_day_def example_stat_tx_def)

definition example_stats_db :: db where
  "example_stats_db = \<lparr>committed = (\<lambda>_. []), working = (\<lambda>_. [])\<rparr>"

text \<open>
  An index of three transactions, one of them in the first second of the second day, that answers requests for intervals.
\<close>

definition example_ledger :: ledger where
  "example_ledger = [(90000, example_stat_tx ''aa'' 4), (172800, example_stat_tx ''bb'' 5), (260000, example_stat_tx ''aa'' 6)]"

definition example_bounds :: "string \<Rightarrow> int \<times> int" where
  "example_bounds i = (the (parse_int (takeWhile (\<lambda>c. c \<noteq> CHR '':'') i)), the (parse_int (tl (dropWhile (\<lambda>c. c \<noteq> CHR '':'') i))))"

definition example_ledger_env :: stats_env where
  "example_ledger_env = example_stats_env\<lparr>indexer_transactions := (\<lambda>i l o'. let txs = ledger_between (fst (example_bounds i)) (snd (example_bounds i)) example_ledger in
     Inr \<lparr>ix_data = Some (take l (drop o' txs)), ix_meta = Some (Some (length txs))\<rparr>)\<rparr>"

lemma show_int_no_colon: "c \<in> set (show_int i) \<Longrightarrow> c \<noteq> CHR '':''"
  using show_nat_digits [of "nat i"] show_nat_digits [of "nat (- i)"] by (auto simp: show_int_def is_digit_def list_all_iff split: if_splits)

lemma example_ledger_served: "ledger_serves example_ledger_env example_ledger"
proof -
  have "example_bounds (show_int a @ CHR '':'' # show_int b) = (a, b)" for a b
    using show_int_no_colon by (simp add: example_bounds_def takeWhile_append2 dropWhile_append2)
  then show ?thesis by (simp add: ledger_serves_def example_ledger_env_def Let_def)
qed

lemma example_ledger_days:
  "next_day example_ledger_env date = date + 86400"
  "ledger_between 86400 172800 example_ledger = [example_stat_tx ''aa'' 4, example_stat_tx ''bb'' 5]"
  "ledger_between 172800 259200 example_ledger = [example_stat_tx ''bb'' 5]"
  by (simp_all add: example_ledger_env_def example_stats_env_def ledger_between_def example_ledger_def)

lemma example_ledger_rows: "day_rows example_ledger_env = day_rows example_stats_env"
proof -
  have f: "bn_of example_ledger_env = bn_of example_stats_env" "bn_plus example_ledger_env = bn_plus example_stats_env"
      "bn_add example_ledger_env = bn_add example_stats_env" "floor_log10 example_ledger_env = floor_log10 example_stats_env"
    by (simp_all add: example_ledger_env_def)
  have "getTxValue example_ledger_env = getTxValue example_stats_env" "range_of_value example_ledger_env = range_of_value example_stats_env"
    unfolding fun_eq_iff getTxValue_def range_of_value_def f by simp_all
  then have "count_transaction example_ledger_env = count_transaction example_stats_env"
      "getInitialValueToEnsureEachDayHasAtLeastOneEntry example_ledger_env = getInitialValueToEnsureEachDayHasAtLeastOneEntry example_stats_env"
    unfolding fun_eq_iff count_transaction_def getRange_def getInitialValueToEnsureEachDayHasAtLeastOneEntry_def f by simp_all
  then show ?thesis by (intro ext) (simp add: day_rows_def computeTransactionStats_def)
qed


theorem statistics_count_transactions_witness:
  "\<exists>s \<in> set (day_rows example_stats_env example_day). sr_moduleCommand s = ''token:transfer'' \<and> sr_count s = 2"
proof -
  have b: "bn_add example_stats_env x y = x + y" for x y by (simp add: example_stats_env_def)
  have r: "getRange example_stats_env (example_stat_tx ''aa'' 4) = ''1e-8_1e-7''" "getRange example_stats_env (example_stat_tx ''bb'' 5) = ''1e-8_1e-7''" by code_simp+
  have m: "example_stat_tx ''aa'' 4 \<in> set example_day" by (simp add: example_day_def)
  obtain s where s: "s \<in> set (day_rows example_stats_env example_day)" "sr_moduleCommand s = ''token:transfer''" "sr_range s = ''1e-8_1e-7''"
    using statistics_count_transactions [OF b, of example_day] m r(1) by (force simp: example_stat_tx_def)
  then have "sr_count s = length (filter (\<lambda>tx. sx_moduleCommand tx = ''token:transfer'' \<and> getRange example_stats_env tx = ''1e-8_1e-7'') example_day)"
    using statistics_count_transactions [OF b, of example_day] by (simp add: Let_def)
  also have "\<dots> = 2" using r by (simp add: example_day_def) (simp add: example_stat_tx_def)
  finally show ?thesis using s by blast
qed

theorem volume_under_last_token_witness:
  "\<exists>s \<in> set (day_rows example_stats_env example_day). sr_count s = 2 \<and> sr_volume s = 11 \<and> sr_tokenID s = ''bb''"
proof -
  let ?s = "\<lparr>sr_moduleCommand = ''token:transfer'', sr_volume = 11, sr_count = 2, sr_range = ''1e-8_1e-7'', sr_tokenID = ''bb''\<rparr>"
  have r: "getRange example_stats_env (example_stat_tx ''aa'' 4) = ''1e-8_1e-7''" by code_simp
  have s: "?s \<in> set (day_rows example_stats_env example_day)" by (simp add: example_day_rows)
  have "sr_tokenID ?s = tx_token (last (filter (\<lambda>t. sx_moduleCommand t = sr_moduleCommand ?s \<and> getRange example_stats_env t = sr_range ?s) example_day))"
    by (rule volume_under_last_token [OF s, of "example_stat_tx ''aa'' 4"]) (simp_all add: example_day_def r, simp add: example_stat_tx_def)
  with s show ?thesis by force
qed

theorem rebuild_keeps_old_rows_witness:
  "lookup_key transactionStatisticsSchema [JStr ''7-old-0_0''] (stats_table (fst (queueJob example_stats_env 7
     (example_stats_db\<lparr>committed := (\<lambda>_. [stat_cells 7 \<lparr>sr_moduleCommand = ''old'', sr_volume = 0, sr_count = 0, sr_range = ''0_0'', sr_tokenID = ''na''\<rparr>])\<rparr>)))) \<noteq> None"
proof -
  let ?s = "\<lparr>sr_moduleCommand = ''old'', sr_volume = 0, sr_count = 0, sr_range = ''0_0'', sr_tokenID = ''na''\<rparr>"
  let ?d = "example_stats_db\<lparr>committed := (\<lambda>_. [stat_cells 7 ?s])\<rparr>"
  have wf: "table_wf transactionStatisticsSchema (stats_table ?d)" using stat_cells_full [of 7 ?s] by (simp add: table_wf_def row_wf_def)
  have i: "stat_id 7 ?s = ''7-old-0_0''" by code_simp
  have k: "[JStr (stat_id 7 ?s)] \<notin> (\<lambda>s. [JStr (stat_id 7 s)]) ` set (day_rows example_stats_env example_day)"
    by (simp add: example_day_rows stat_id_def)
  have "lookup_key transactionStatisticsSchema [JStr (stat_id 7 ?s)] (stats_table (fst (queueJob example_stats_env 7 ?d))) = lookup_key transactionStatisticsSchema [JStr (stat_id 7 ?s)] (stats_table ?d)"
    by (rule rebuild_keeps_old_rows [OF wf _ example_fetch example_plain surjective_pairing, THEN conjunct2, THEN conjunct2, rule_format, OF _ k]) simp
  also have "\<dots> = Some (stat_cells 7 ?s)" by (simp add: lookup_key_def stat_cells_key)
  finally show ?thesis by (simp add: i)
qed

end
