(* ===== verification/Fee_Estimator.thy ===== *)
theory Fee_Estimator
  imports Complex_Main Js_Values
begin

text \<open>
  The service \<^verbatim>\<open>services/fee-estimator\<close>: from the transactions of the last blocks it estimates what priority a fee buys, keeps the estimate in a cache and
  follows the chain block by block. Rationals stand for the doubles of the code, and sizes of transactions are taken to be positive.
\<close>

section \<open>Configuration and blocks\<close>

text \<open>
  \<open>ema_alpha\<close> is \<^verbatim>\<open>(1 - Math.pow(1 - emaDecayRate, 1 / emaBatchSize)).toFixed(5)\<close>.
\<close>

record fee_config =
  quickAlgorithmEnabled :: bool
  fullAlgorithmEnabled :: bool
  coldStartBatchSize :: nat
  defaultStartBlockHeight :: int
  medEstLowerPercentile :: rat
  medEstUpperPercentile :: rat
  highEstLowerPercentile :: rat
  highEstUpperPercentile :: rat
  emaBatchSize :: int
  ema_alpha :: rat
  wavgDecayPercentage :: rat

record fee_tx =
  ft_size :: int
  ft_fee :: jsval
  ft_minFee :: jsval

record fee_block =
  fb_height :: int
  fb_id :: string
  fb_transactions :: "fee_tx list"
  fb_valid :: bool

text \<open>An estimate. The first two fields are missing in the value that a computation starts from.\<close>

record fee_point =
  fp_updated :: "int option"
  fp_blockID :: "string option"
  fp_blockHeight :: int
  fp_low :: rat
  fp_med :: rat
  fp_high :: rat

section \<open>The estimate of a block\<close>

text \<open>\<open>None\<close> is an empty object.\<close>

definition EMAcalc :: "fee_config \<Rightarrow> rat \<times> rat \<times> rat \<Rightarrow> (rat \<times> rat \<times> rat) option \<Rightarrow> rat \<times> rat \<times> rat" where
  "EMAcalc cfg feePerByte prevFeeEstPerByte =
     (let (low, med, high) = feePerByte;
          (prevLow, prevMed, prevHigh) = (case prevFeeEstPerByte of Some p \<Rightarrow> p | None \<Rightarrow> (0, 0, 0));
          ema = (\<lambda>x y. ema_alpha cfg * x + (1 - ema_alpha cfg) * y)
      in (ema low prevLow, ema med prevMed, ema high prevHigh))"

definition calculateBlockSize :: "fee_block \<Rightarrow> int" where
  "calculateBlockSize block = sum_list (map ft_size (fb_transactions block))"

definition maxBlockSize :: int where "maxBlockSize = 15 * 2 ^ 10"

text \<open>A transaction is given by its priority and its size; the state is the position of its first byte and the sum so far.\<close>

definition avg_step :: "int \<Rightarrow> int \<Rightarrow> rat \<times> int \<Rightarrow> int \<times> rat \<Rightarrow> int \<times> rat" where
  "avg_step lowerBytePos upperBytePos = (\<lambda>(feePriority, txSize) (currentBytePos, totalFeePriority).
     let t1 = (if currentBytePos \<le> lowerBytePos \<and> lowerBytePos < currentBytePos + txSize \<and> currentBytePos + txSize \<le> upperBytePos
               then totalFeePriority + feePriority * of_int (currentBytePos + txSize - lowerBytePos + 1) else totalFeePriority);
         t2 = (if lowerBytePos \<le> currentBytePos \<and> currentBytePos + txSize \<le> upperBytePos then t1 + feePriority * of_int txSize else t1);
         t3 = (if lowerBytePos \<le> currentBytePos \<and> currentBytePos \<le> upperBytePos \<and> upperBytePos \<le> currentBytePos + txSize
               then t2 + feePriority * of_int (upperBytePos - currentBytePos + 1) else t2)
     in (currentBytePos + txSize, t3))"

definition calculateAvgFeePerByte :: "rat \<Rightarrow> rat \<Rightarrow> (rat \<times> int) list \<Rightarrow> rat" where
  "calculateAvgFeePerByte lowerPercentile upperPercentile transactionDetails =
     (let lowerBytePos = \<lceil>lowerPercentile / 100 * of_int maxBlockSize\<rceil>;
          upperBytePos = \<lfloor>upperPercentile / 100 * of_int maxBlockSize\<rfloor>
      in snd (fold (avg_step lowerBytePos upperBytePos) transactionDetails (0, 0)) / of_int (upperBytePos - lowerBytePos + 1))"

definition wavg_step :: "rat \<Rightarrow> int \<Rightarrow> rat \<times> rat \<times> rat \<Rightarrow> rat \<times> rat \<times> rat" where
  "wavg_step decayFactor blockSize = (\<lambda>(partial_sum, weight, totalWeight). (partial_sum + of_int blockSize * weight, weight * decayFactor, totalWeight + weight))"

definition calculateWeightedAvg :: "fee_config \<Rightarrow> fee_block list \<Rightarrow> rat" where
  "calculateWeightedAvg cfg blocks =
     (let (blockSizeSum, _, totalWeight) = fold (wavg_step (1 - wavgDecayPercentage cfg / 100)) (map calculateBlockSize blocks) (0, 1, 0)
      in blockSizeSum / totalWeight)"

definition fee_priority :: "fee_tx \<Rightarrow> (rat \<times> int) result" where
  "fee_priority tx = bindR (js_BigInt (ft_fee tx)) (\<lambda>fee. bindR (js_BigInt (ft_minFee tx)) (\<lambda>minFee. Inr (of_int (fee - minFee) / of_int (ft_size tx), ft_size tx)))"

definition calculateFeePerByte :: "fee_config \<Rightarrow> fee_block \<Rightarrow> (rat \<times> rat \<times> rat) result" where
  "calculateFeePerByte cfg block =
     bindR (mapR fee_priority (fb_transactions block)) (\<lambda>details.
       let transactionDetails = sort_key fst details;
           med = calculateAvgFeePerByte (medEstLowerPercentile cfg) (medEstUpperPercentile cfg) transactionDetails;
           high = max (calculateAvgFeePerByte (highEstLowerPercentile cfg) (highEstUpperPercentile cfg) transactionDetails) (13 / 10 * med + 1)
       in bindR (if calculateBlockSize block < 12800 then Inr 0 else case transactionDetails of t # _ \<Rightarrow> Inr (fst t) | [] \<Rightarrow> Inl TypeError) (\<lambda>low.
            Inr (low, med, high)))"

text \<open>The first block of the batch is the newest. \<open>now\<close> is the time in seconds.\<close>

definition getEstimateFeePerByteForBlock :: "fee_config \<Rightarrow> int \<Rightarrow> fee_block list \<Rightarrow> fee_point \<Rightarrow> fee_point result" where
  "getEstimateFeePerByteForBlock cfg now blockBatch prev =
     (case blockBatch of [] \<Rightarrow> Inl TypeError | block # _ \<Rightarrow>
        bindR (calculateFeePerByte cfg block) (\<lambda>feePerByte.
          let (low, med, high) =
                (if 12800 < calculateWeightedAvg cfg blockBatch \<or> 75776 / 5 < (of_int (calculateBlockSize block) :: rat)
                 then EMAcalc cfg feePerByte (Some (fp_low prev, fp_med prev, fp_high prev)) else (0, 0, 0))
          in Inr \<lparr>fp_updated = Some now, fp_blockID = Some (fb_id block), fp_blockHeight = fb_height block, fp_low = low, fp_med = med, fp_high = high\<rparr>))"

section \<open>Following the chain\<close>

text \<open>\<open>batch_heights\<close> are the heights that are read for the estimate of the block after \<open>prevHeight\<close>, the newest first.\<close>

definition batch_heights :: "fee_config \<Rightarrow> int \<Rightarrow> int \<Rightarrow> int list" where
  "batch_heights cfg genesisHeight prevHeight =
     (let maxEMABasedOnHeight = prevHeight - genesisHeight;
          finalEMABatchSize = (if maxEMABasedOnHeight < emaBatchSize cfg then maxEMABasedOnHeight + 1 else emaBatchSize cfg)
      in map (\<lambda>i. prevHeight + 1 - int i) [0..<nat finalEMABatchSize])"

type_synonym fee_cache = "string \<Rightarrow> fee_point option"

text \<open>
  The loop, with the cache it writes to. \<open>None\<close> is a loop that has not ended within the given number of rounds. An error leaves the intermediate values in the cache.
\<close>

fun batch_loop :: "fee_config \<Rightarrow> (int \<Rightarrow> fee_block result) \<Rightarrow> int \<Rightarrow> int \<Rightarrow> int \<Rightarrow> string \<Rightarrow> nat \<Rightarrow> fee_point \<Rightarrow> fee_cache \<Rightarrow> (fee_cache \<times> fee_point result) option" where
  "batch_loop cfg getBlockByHeight now genesisHeight toHeight cacheKey 0 prev cache = None"
| "batch_loop cfg getBlockByHeight now genesisHeight toHeight cacheKey (Suc n) prev cache =
     (case bindR (mapR getBlockByHeight (batch_heights cfg genesisHeight (fp_blockHeight prev))) (\<lambda>blocks. getEstimateFeePerByteForBlock cfg now blocks prev) of
        Inl e \<Rightarrow> Some (cache, Inl e)
      | Inr next \<Rightarrow>
          let cache' = cache(cacheKey \<mapsto> next)
          in if fp_blockHeight next < toHeight then batch_loop cfg getBlockByHeight now genesisHeight toHeight cacheKey n next cache' else Some (cache', Inr next))"

definition cacheKeyFeeEstFull :: string where "cacheKeyFeeEstFull = ''lastFeeEstimateFull''"

definition cacheKeyFeeEstQuick :: string where "cacheKeyFeeEstQuick = ''lastFeeEstimateQuick''"

text \<open>The test \<^verbatim>\<open>cacheKey.includes('Quick')\<close> is written out for the two keys.\<close>

definition start_point :: "fee_config \<Rightarrow> int \<Rightarrow> int \<Rightarrow> string \<Rightarrow> fee_cache \<Rightarrow> fee_point" where
  "start_point cfg genesisHeight fromHeight0 cacheKey cache =
     (let fromHeight = max (defaultStartBlockHeight cfg) (max (genesisHeight + 1) fromHeight0);
          fresh = \<lparr>fp_updated = None, fp_blockID = None, fp_blockHeight = fromHeight - 1, fp_low = 0, fp_med = 0, fp_high = 0\<rparr>
      in case cache cacheKey of
           Some cached \<Rightarrow> if cacheKey = cacheKeyFeeEstQuick then (if 0 < fromHeight then fresh else cached)
                         else if fp_blockHeight cached < fromHeight then fresh else cached
         | None \<Rightarrow> fresh)"

definition getEstimateFeePerByteForBatch :: "fee_config \<Rightarrow> (int \<Rightarrow> fee_block result) \<Rightarrow> int \<Rightarrow> int \<Rightarrow> nat \<Rightarrow> int \<Rightarrow> int \<Rightarrow> string \<Rightarrow> fee_cache \<Rightarrow> (fee_cache \<times> fee_point result) option" where
  "getEstimateFeePerByteForBatch cfg getBlockByHeight now genesisHeight fuel fromHeight toHeight cacheKey cache =
     batch_loop cfg getBlockByHeight now genesisHeight toHeight cacheKey fuel (start_point cfg genesisHeight fromHeight cacheKey cache) cache"

text \<open>
  \<^verbatim>\<open>executionStatus\<close> is frozen: an assignment to one of its fields does nothing.
\<close>

definition executionStatus :: "string \<Rightarrow> bool" where
  "executionStatus cacheKey = False"

definition set_executionStatus :: "(string \<Rightarrow> bool) \<Rightarrow> string \<Rightarrow> bool \<Rightarrow> (string \<Rightarrow> bool)" where
  "set_executionStatus status cacheKey b = status"

definition isFeeCalculationRunningInMode :: "(string \<Rightarrow> bool) \<Rightarrow> string \<Rightarrow> bool" where
  "isFeeCalculationRunningInMode status execMode = status execMode"

text \<open>The result is the new estimate, or the one in the cache before if the computation fails.\<close>

definition checkAndProcessExecution :: "fee_config \<Rightarrow> (int \<Rightarrow> fee_block result) \<Rightarrow> int \<Rightarrow> int \<Rightarrow> nat \<Rightarrow> (string \<Rightarrow> bool) \<Rightarrow> int \<Rightarrow> int \<Rightarrow> string \<Rightarrow> fee_cache \<Rightarrow> (fee_cache \<times> fee_point option) option" where
  "checkAndProcessExecution cfg getBlockByHeight now genesisHeight fuel status fromHeight toHeight cacheKey cache =
     (if status cacheKey then Some (cache, cache cacheKey)
      else case getEstimateFeePerByteForBatch cfg getBlockByHeight now genesisHeight fuel fromHeight toHeight cacheKey cache of
        None \<Rightarrow> None
      | Some (cache', Inr p) \<Rightarrow> Some (cache', Some p)
      | Some (cache', Inl _) \<Rightarrow> Some (cache', cache cacheKey))"

definition calculateEstimateFeePerByteFull where
  "calculateEstimateFeePerByteFull cfg getBlockByHeight now genesisHeight fuel status newBlock =
     checkAndProcessExecution cfg getBlockByHeight now genesisHeight fuel status (defaultStartBlockHeight cfg) (fb_height newBlock) cacheKeyFeeEstFull"

definition calculateEstimateFeePerByteQuick where
  "calculateEstimateFeePerByteQuick cfg getBlockByHeight now genesisHeight fuel status newBlock =
     checkAndProcessExecution cfg getBlockByHeight now genesisHeight fuel status (fb_height newBlock - int (coldStartBatchSize cfg)) (fb_height newBlock) cacheKeyFeeEstQuick"

text \<open>The two computations write under different keys. The second component is the estimate that is announced, if any.\<close>

definition newBlockListener :: "fee_config \<Rightarrow> (int \<Rightarrow> fee_block result) \<Rightarrow> int \<Rightarrow> int \<Rightarrow> nat \<Rightarrow> fee_block \<Rightarrow> fee_cache \<Rightarrow> (fee_cache \<times> fee_point option option) option" where
  "newBlockListener cfg getBlockByHeight now genesisHeight fuel newBlock cache =
     (case (if fullAlgorithmEnabled cfg then map_option fst (calculateEstimateFeePerByteFull cfg getBlockByHeight now genesisHeight fuel executionStatus newBlock cache) else Some cache) of
        None \<Rightarrow> None
      | Some cache1 \<Rightarrow>
          if quickAlgorithmEnabled cfg
          then map_option (\<lambda>(cache2, est). (cache2, Some est)) (calculateEstimateFeePerByteQuick cfg getBlockByHeight now genesisHeight fuel executionStatus newBlock cache1)
          else Some (cache1, None))"

section \<open>Answers\<close>

text \<open>The two getters read each other's key.\<close>

definition getEstimateFeePerByteQuick :: "fee_cache \<Rightarrow> fee_point option" where
  "getEstimateFeePerByteQuick cache = cache cacheKeyFeeEstFull"

definition getEstimateFeePerByteFull :: "fee_cache \<Rightarrow> fee_point option" where
  "getEstimateFeePerByteFull cache = cache cacheKeyFeeEstQuick"

definition valid_estimate :: "int \<Rightarrow> int \<Rightarrow> fee_point option \<Rightarrow> bool" where
  "valid_estimate latestHeight allowedLag est =
     (case est of Some p \<Rightarrow> fp_updated p \<noteq> None \<and> fp_blockID p \<noteq> None \<and> latestHeight - fp_blockHeight p \<le> allowedLag | None \<Rightarrow> False)"

datatype fee_answer = Disabled | Processing | Estimate fee_point "jsval \<times> jsval"

definition getEstimateFeePerByte :: "fee_config \<Rightarrow> int result \<Rightarrow> (jsval \<times> jsval) result \<Rightarrow> fee_cache \<Rightarrow> fee_answer result" where
  "getEstimateFeePerByte cfg latestHeight feeConstants cache =
     (if \<not> quickAlgorithmEnabled cfg \<and> \<not> fullAlgorithmEnabled cfg then Inr Disabled
      else bindR latestHeight (\<lambda>h.
        let full = getEstimateFeePerByteFull cache; quick = getEstimateFeePerByteQuick cache in
        if valid_estimate h 15 full then bindR feeConstants (\<lambda>c. Inr (Estimate (the full) c))
        else if valid_estimate h 5 quick then bindR feeConstants (\<lambda>c. Inr (Estimate (the quick) c))
        else Inr Processing))"

section \<open>Blocks by height\<close>

text \<open>The last block and the blocks by height that the service keeps, \<^verbatim>\<open>utils/chain.js\<close>. Only blocks with all three parts are kept.\<close>

record block_store =
  latestBlock :: "fee_block option"
  blockByHeightCache :: "int \<Rightarrow> fee_block option"

definition setLatestBlock :: "fee_block \<Rightarrow> block_store \<Rightarrow> block_store" where
  "setLatestBlock block st = (if fb_valid block then st\<lparr>latestBlock := Some block\<rparr> else st)"

definition getLatestBlock :: "fee_block result \<Rightarrow> block_store \<Rightarrow> block_store \<times> fee_block result" where
  "getLatestBlock node_last st = (case latestBlock st of Some b \<Rightarrow> (st, Inr b) | None \<Rightarrow> (case node_last of Inr b \<Rightarrow> (st\<lparr>latestBlock := Some b\<rparr>, Inr b) | Inl e \<Rightarrow> (st, Inl e)))"

definition cacheBlockByHeight :: "fee_block \<Rightarrow> block_store \<Rightarrow> block_store" where
  "cacheBlockByHeight block st = (if fb_valid block then st\<lparr>blockByHeightCache := (blockByHeightCache st)(fb_height block \<mapsto> block)\<rparr> else st)"

definition emptyCacheBlockByHeight :: "fee_block \<Rightarrow> block_store \<Rightarrow> block_store" where
  "emptyCacheBlockByHeight block st = (if fb_valid block then st\<lparr>blockByHeightCache := (blockByHeightCache st)(fb_height block := None)\<rparr> else st)"

definition getBlockByHeight :: "(int \<Rightarrow> fee_block result) \<Rightarrow> int \<Rightarrow> block_store \<Rightarrow> block_store \<times> fee_block result" where
  "getBlockByHeight node height st =
     (case blockByHeightCache st height of
        Some b \<Rightarrow> (st, Inr b)
      | None \<Rightarrow> (case node height of Inr b \<Rightarrow> (cacheBlockByHeight b st, Inr b) | Inl e \<Rightarrow> (st, Inl e)))"

text \<open>
  The chain of the node, given by its blocks, and the store. The node announces the blocks it adds and removes at its end; a kept block may expire.
\<close>

inductive store_step :: "fee_block list \<times> block_store \<Rightarrow> fee_block list \<times> block_store \<Rightarrow> bool" where
  added: "fb_valid b \<Longrightarrow> fb_height b = int (length chain) \<Longrightarrow> store_step (chain, st) (chain @ [b], cacheBlockByHeight b (setLatestBlock b st))"
| removed: "store_step (chain @ [b], st) (chain, emptyCacheBlockByHeight b st)"
| asked: "store_step (chain, st) (chain, fst (getBlockByHeight (\<lambda>h. if 0 \<le> h \<and> h < int (length chain) then Inr (chain ! nat h) else Inl TypeError) h st))"
| expired: "store_step (chain, st) (chain, st\<lparr>blockByHeightCache := (blockByHeightCache st)(h := None)\<rparr>)"

inductive_cases store_stepE: "store_step s s'"

definition chain_ok :: "fee_block list \<Rightarrow> bool" where
  "chain_ok chain \<longleftrightarrow> (\<forall>i < length chain. fb_valid (chain ! i) \<and> fb_height (chain ! i) = int i)"

definition store_ok :: "fee_block list \<times> block_store \<Rightarrow> bool" where
  "store_ok = (\<lambda>(chain, st). chain_ok chain \<and> (\<forall>h b. blockByHeightCache st h = Some b \<longrightarrow> 0 \<le> h \<and> h < int (length chain) \<and> b = chain ! nat h))"

lemma chain_ok_snoc: "chain_ok (chain @ [b]) \<longleftrightarrow> chain_ok chain \<and> fb_valid b \<and> fb_height b = int (length chain)"
  by (auto simp: chain_ok_def All_less_Suc nth_append)

lemma store_ok_step: "store_step s s' \<Longrightarrow> store_ok s \<Longrightarrow> store_ok s'"
proof (induction rule: store_step.induct)
  case (added b chain st)
  then have "chain_ok (chain @ [b])" by (simp add: store_ok_def chain_ok_snoc)
  moreover have "0 \<le> h \<and> h < int (length chain) \<and> x = chain ! nat h" if "blockByHeightCache st h = Some x" for h x
    using added that by (auto simp: store_ok_def)
  then have "0 \<le> h \<and> h < int (length (chain @ [b])) \<and> x = (chain @ [b]) ! nat h" if "blockByHeightCache (cacheBlockByHeight b (setLatestBlock b st)) h = Some x" for h x
    using that added(1,2) by (force simp: cacheBlockByHeight_def setLatestBlock_def nth_append split: if_splits)
  ultimately show ?case by (auto simp: store_ok_def)
next
  case (removed chain b st)
  then have c: "chain_ok (chain @ [b])" and k: "\<And>h x. blockByHeightCache st h = Some x \<Longrightarrow> 0 \<le> h \<and> h < int (length (chain @ [b])) \<and> x = (chain @ [b]) ! nat h"
    by (auto simp: store_ok_def)
  have b: "fb_valid b" "fb_height b = int (length chain)" "chain_ok chain" using c by (simp_all add: chain_ok_snoc)
  have "0 \<le> h \<and> h < int (length chain) \<and> x = chain ! nat h" if "blockByHeightCache (emptyCacheBlockByHeight b st) h = Some x" for h x
    using that k [of h x] b by (auto simp: emptyCacheBlockByHeight_def nth_append split: if_splits)
  then show ?case using b(3) by (auto simp: store_ok_def)
next
  case (asked chain st h)
  then show ?case by (auto simp: store_ok_def chain_ok_def getBlockByHeight_def cacheBlockByHeight_def split: option.splits if_splits)
next
  case (expired chain st h)
  then show ?case by (auto simp: store_ok_def)
qed

text \<open>
  The kept blocks are those of the node. Through every sequence of added and removed blocks, requests and expiries, reading a height returns the block
  that the node has at this height now.
\<close>

theorem kept_blocks_follow_node:
  assumes "store_step\<^sup>*\<^sup>* ([], \<lparr>latestBlock = None, blockByHeightCache = (\<lambda>_. None)\<rparr>) (chain, st)" and "h < length chain"
  shows "snd (getBlockByHeight (\<lambda>h. if 0 \<le> h \<and> h < int (length chain) then Inr (chain ! nat h) else Inl TypeError) (int h) st) = Inr (chain ! h)"
proof -
  have "store_ok (chain, st)"
    using assms(1)
  proof (induction rule: rtranclp_induct)
    case base
    show ?case by (simp add: store_ok_def chain_ok_def)
  qed (rule store_ok_step)
  then have "x = chain ! h" if "blockByHeightCache st (int h) = Some x" for x using that by (force simp: store_ok_def)
  then show ?thesis using assms(2) by (auto simp: getBlockByHeight_def split: option.splits)
qed

section \<open>Averages\<close>

lemma mix_between:
  fixes x y a :: rat
  assumes "0 \<le> a" "a \<le> 1" "m \<le> x" "m \<le> y" "x \<le> M" "y \<le> M"
  shows "m \<le> a * x + (1 - a) * y \<and> a * x + (1 - a) * y \<le> M"
proof -
  have "a * m + (1 - a) * m \<le> a * x + (1 - a) * y" using assms by (intro add_mono mult_left_mono) simp_all
  moreover have "a * x + (1 - a) * y \<le> a * M + (1 - a) * M" using assms by (intro add_mono mult_left_mono) simp_all
  ultimately show ?thesis by (simp add: algebra_simps)
qed

text \<open>
  A smoothed fee rate lies between the rate of the new block and the previous estimate, for each of the three rates.
\<close>

theorem smoothed_between:
  assumes "0 \<le> ema_alpha cfg" "ema_alpha cfg \<le> 1" and "EMAcalc cfg (low, med, high) (Some (prevLow, prevMed, prevHigh)) = (l, m, h)"
  shows "min low prevLow \<le> l \<and> l \<le> max low prevLow \<and> min med prevMed \<le> m \<and> m \<le> max med prevMed \<and> min high prevHigh \<le> h \<and> h \<le> max high prevHigh"
  using mix_between [OF assms(1,2), of "min low prevLow" low prevLow "max low prevLow"] mix_between [OF assms(1,2), of "min med prevMed" med prevMed "max med prevMed"]
    mix_between [OF assms(1,2), of "min high prevHigh" high prevHigh "max high prevHigh"] assms(3)
  by (auto simp: EMAcalc_def Let_def)

lemma wavg_fold:
  assumes "0 \<le> d" "0 \<le> w" "\<forall>x \<in> set sizes. m \<le> x \<and> x \<le> M" "of_int m * t \<le> s" "s \<le> of_int M * t" "fold (wavg_step d) sizes (s, w, t) = (s', w', t')"
  shows "of_int m * t' \<le> s' \<and> s' \<le> of_int M * t' \<and> t \<le> (t' :: rat)"
  using assms(2-)
proof (induction sizes arbitrary: s w t)
  case (Cons x sizes)
  have "of_int m * w \<le> of_int x * w" "of_int x * w \<le> of_int M * w" using Cons.prems(1,2) by (auto intro: mult_right_mono)
  then have "of_int m * (t + w) \<le> s + of_int x * w" "s + of_int x * w \<le> of_int M * (t + w)" using Cons.prems(3,4) by (simp_all add: algebra_simps)
  then show ?case using Cons.IH [of "w * d" "t + w" "s + of_int x * w"] Cons.prems assms(1) by (auto simp: wavg_step_def)
qed simp

text \<open>
  The weighted average of the block sizes lies between the smallest and the largest size of the blocks.
\<close>

theorem weighted_average_between:
  assumes "wavgDecayPercentage cfg \<le> 100" and "blocks \<noteq> []" and "\<forall>b \<in> set blocks. m \<le> calculateBlockSize b \<and> calculateBlockSize b \<le> M"
  shows "of_int m \<le> calculateWeightedAvg cfg blocks \<and> calculateWeightedAvg cfg blocks \<le> of_int M"
proof -
  let ?d = "1 - wavgDecayPercentage cfg / 100"
  obtain b bs where bs: "blocks = b # bs" using assms(2) by (cases blocks) auto
  obtain s w t where f: "fold (wavg_step ?d) (map calculateBlockSize blocks) (0, 1, 0) = (s, w, t)" by (metis prod_cases3)
  have "of_int m * t \<le> s \<and> s \<le> of_int M * t \<and> 1 \<le> t"
    by (rule wavg_fold [where d = ?d and w = ?d and sizes = "map calculateBlockSize bs" and t = 1 and s = "of_int (calculateBlockSize b)"])
      (use assms(1,3) f in \<open>simp_all add: bs wavg_step_def\<close>)
  then show ?thesis by (simp add: calculateWeightedAvg_def f pos_le_divide_eq pos_divide_le_eq)
qed

section \<open>Progress\<close>

lemma batch_heights_bounds:
  assumes "genesisHeight \<le> prevHeight" and "0 < emaBatchSize cfg"
  shows "\<exists>hs. batch_heights cfg genesisHeight prevHeight = (prevHeight + 1) # hs \<and> (\<forall>h \<in> set hs. genesisHeight < h \<and> h \<le> prevHeight)"
proof -
  define n where "n = (if prevHeight - genesisHeight < emaBatchSize cfg then prevHeight - genesisHeight + 1 else emaBatchSize cfg)"
  have n: "0 < n" "n \<le> prevHeight - genesisHeight + 1" using assms by (auto simp: n_def)
  then obtain k where k: "nat n = Suc k" by (cases "nat n") auto
  have "batch_heights cfg genesisHeight prevHeight = map (\<lambda>i. prevHeight + 1 - int i) (0 # [1..<Suc k])"
    by (simp add: batch_heights_def n_def [symmetric] Let_def k upt_conv_Cons del: upt_Suc)
  moreover have "genesisHeight < prevHeight + 1 - int i \<and> prevHeight + 1 - int i \<le> prevHeight" if "i \<in> set [1..<Suc k]" for i
    using that n k by auto
  ultimately show ?thesis by auto
qed

definition readable :: "fee_config \<Rightarrow> (int \<Rightarrow> fee_block result) \<Rightarrow> int \<Rightarrow> bool" where
  "readable cfg getBlock h \<longleftrightarrow> (\<exists>b r. getBlock h = Inr b \<and> fb_height b = h \<and> calculateFeePerByte cfg b = Inr r)"

lemma mapR_readable: "\<forall>h \<in> set hs. readable cfg getBlock h \<Longrightarrow> \<exists>bs. mapR getBlock hs = Inr bs"
  by (induction hs) (auto simp: readable_def)

lemma round_reaches_next:
  assumes "genesisHeight \<le> fp_blockHeight prev" and "0 < emaBatchSize cfg" and "\<forall>h. genesisHeight < h \<and> h \<le> fp_blockHeight prev + 1 \<longrightarrow> readable cfg getBlock h"
  shows "\<exists>next. bindR (mapR getBlock (batch_heights cfg genesisHeight (fp_blockHeight prev))) (\<lambda>blocks. getEstimateFeePerByteForBlock cfg now blocks prev) = Inr next
     \<and> fp_blockHeight next = fp_blockHeight prev + 1"
proof -
  obtain hs where hs: "batch_heights cfg genesisHeight (fp_blockHeight prev) = (fp_blockHeight prev + 1) # hs" "\<forall>h \<in> set hs. genesisHeight < h \<and> h \<le> fp_blockHeight prev"
    using batch_heights_bounds [OF assms(1,2)] by blast
  obtain b r where b: "getBlock (fp_blockHeight prev + 1) = Inr b" "fb_height b = fp_blockHeight prev + 1" "calculateFeePerByte cfg b = Inr r"
    using assms(1,3) by (force simp: readable_def)
  obtain bs where "mapR getBlock hs = Inr bs" using mapR_readable [of hs cfg getBlock] hs(2) assms(3) by force
  then show ?thesis using b by (simp add: hs(1) getEstimateFeePerByteForBlock_def Let_def split: prod.splits)
qed

lemma batch_loop_reaches:
  assumes "genesisHeight \<le> fp_blockHeight prev" and "0 < emaBatchSize cfg" and "\<forall>h. genesisHeight < h \<and> h \<le> max toHeight (fp_blockHeight prev + 1) \<longrightarrow> readable cfg getBlock h"
    and "nat (toHeight - fp_blockHeight prev) \<le> fuel" and "0 < fuel"
  shows "\<exists>cache' p. batch_loop cfg getBlock now genesisHeight toHeight cacheKey fuel prev cache = Some (cache', Inr p)
     \<and> fp_blockHeight p = max toHeight (fp_blockHeight prev + 1) \<and> cache' cacheKey = Some p"
  using assms(1,3-)
proof (induction fuel arbitrary: prev cache)
  case (Suc n)
  obtain next_p where nx: "bindR (mapR getBlock (batch_heights cfg genesisHeight (fp_blockHeight prev))) (\<lambda>blocks. getEstimateFeePerByteForBlock cfg now blocks prev) = Inr next_p"
    "fp_blockHeight next_p = fp_blockHeight prev + 1"
    using round_reaches_next [OF Suc.prems(1) assms(2), where getBlock = getBlock and now = now] Suc.prems(2) by force
  show ?case
  proof (cases "fp_blockHeight next_p < toHeight")
    case False
    then show ?thesis using nx by (simp add: Let_def)
  next
    case True
    have "max toHeight (fp_blockHeight next_p + 1) = max toHeight (fp_blockHeight prev + 1)" "0 < n" "nat (toHeight - fp_blockHeight next_p) \<le> n"
      using True nx(2) Suc.prems(3) by auto
    then have "\<exists>cache' p. batch_loop cfg getBlock now genesisHeight toHeight cacheKey n next_p (cache(cacheKey \<mapsto> next_p)) = Some (cache', Inr p)
       \<and> fp_blockHeight p = max toHeight (fp_blockHeight prev + 1) \<and> cache' cacheKey = Some p"
      using Suc.IH [where prev = next_p and cache = "cache(cacheKey \<mapsto> next_p)"] Suc.prems(1,2) nx(2) by (simp del: fun_upd_apply)
    then show ?thesis using nx(1) True by (simp add: Let_def)
  qed
qed simp

lemma start_point_above_genesis: "0 \<le> genesisHeight \<Longrightarrow> genesisHeight \<le> fp_blockHeight (start_point cfg genesisHeight fromHeight cacheKey cache)"
  by (auto simp: start_point_def Let_def split: option.splits)

text \<open>
  C24: The estimate catches up with the chain. If the node has the blocks, a computation for a height ends after at most one round per block, with an estimate for
  this height (or for the block after the cached one, if that is later), which is in the cache afterwards. The genesis block is never read.
\<close>

theorem estimate_reaches_head:
  assumes "0 \<le> genesisHeight" and "0 < emaBatchSize cfg"
    and "prev = fp_blockHeight (start_point cfg genesisHeight fromHeight cacheKey cache)"
    and "\<forall>h. genesisHeight < h \<and> h \<le> max toHeight (prev + 1) \<longrightarrow> readable cfg getBlock h"
    and "nat (toHeight - prev) \<le> fuel" and "0 < fuel"
  shows "\<exists>cache' p. getEstimateFeePerByteForBatch cfg getBlock now genesisHeight fuel fromHeight toHeight cacheKey cache = Some (cache', Inr p)
     \<and> fp_blockHeight p = max toHeight (prev + 1) \<and> cache' cacheKey = Some p"
  unfolding getEstimateFeePerByteForBatch_def assms(3)
  by (rule batch_loop_reaches [OF start_point_above_genesis [OF assms(1)] assms(2)]) (use assms(3-6) in auto)

section \<open>Answers and flags\<close>

text \<open>
  An answered estimate is at most 15 blocks old, and no estimate is made up: it is one of the two in the cache.
\<close>

theorem answer_is_recent:
  assumes "getEstimateFeePerByte cfg (Inr h) constants cache = Inr (Estimate p c)"
  shows "h - fp_blockHeight p \<le> 15 \<and> (cache cacheKeyFeeEstFull = Some p \<or> cache cacheKeyFeeEstQuick = Some p)"
  using assms by (auto simp: getEstimateFeePerByte_def valid_estimate_def getEstimateFeePerByteFull_def getEstimateFeePerByteQuick_def bindR_eq_Inr Let_def
    split: if_splits option.splits)

text \<open>
  The quick estimate is preferred. Whenever it is at most 15 blocks old it is returned, whatever the full computation has found; the names of the keys are
  swapped in the getters.
\<close>

theorem quick_preferred:
  assumes "quickAlgorithmEnabled cfg" and "cache cacheKeyFeeEstQuick = Some quick" and "fp_updated quick \<noteq> None" and "fp_blockID quick \<noteq> None" and "h - fp_blockHeight quick \<le> 15"
  shows "getEstimateFeePerByte cfg (Inr h) (Inr c) cache = Inr (Estimate quick c)"
  using assms by (simp add: getEstimateFeePerByte_def valid_estimate_def getEstimateFeePerByteFull_def)

text \<open>Runs of the computation: each is given by its key and the height it was started for; the cache has the height of the last estimate.\<close>

record run_state =
  rn_status :: "string \<Rightarrow> bool"
  rn_active :: "(string \<times> int) list"
  rn_cache :: "string \<Rightarrow> int option"

inductive run_step :: "run_state \<Rightarrow> run_state \<Rightarrow> bool" where
  start: "\<not> isFeeCalculationRunningInMode (rn_status s) key \<Longrightarrow>
     run_step s (s\<lparr>rn_status := set_executionStatus (rn_status s) key True, rn_active := rn_active s @ [(key, toHeight)]\<rparr>)"
| finish: "(key, toHeight) \<in> set (rn_active s) \<Longrightarrow>
     run_step s (s\<lparr>rn_status := set_executionStatus (rn_status s) key False, rn_active := remove1 (key, toHeight) (rn_active s), rn_cache := (rn_cache s)(key \<mapsto> toHeight)\<rparr>)"

text \<open>
  The flag does not exclude anything. A computation can start while another one of the same kind runs, and when the older one ends last the cache keeps the
  estimate of the older block.
\<close>

theorem runs_overlap:
  assumes "old < new"
  shows "\<exists>s. run_step\<^sup>*\<^sup>* \<lparr>rn_status = executionStatus, rn_active = [], rn_cache = (\<lambda>_. None)\<rparr> s \<and> rn_active s = [(key, old), (key, new)]
     \<and> (\<exists>s'. run_step\<^sup>*\<^sup>* s s' \<and> rn_active s' = [] \<and> rn_cache s' key = Some old)"
proof -
  let ?s0 = "\<lparr>rn_status = executionStatus, rn_active = [], rn_cache = (\<lambda>_. None)\<rparr>"
  let ?s1 = "?s0\<lparr>rn_active := [(key, old)]\<rparr>" and ?s2 = "?s0\<lparr>rn_active := [(key, old), (key, new)]\<rparr>"
  let ?s3 = "?s1\<lparr>rn_cache := [key \<mapsto> new]\<rparr>" and ?s4 = "?s0\<lparr>rn_cache := [key \<mapsto> old]\<rparr>"
  have "run_step ?s0 ?s1" using start [of ?s0 key old] by (simp add: isFeeCalculationRunningInMode_def executionStatus_def set_executionStatus_def)
  moreover have "run_step ?s1 ?s2" using start [of ?s1 key new] by (simp add: isFeeCalculationRunningInMode_def executionStatus_def set_executionStatus_def)
  moreover have "run_step ?s2 ?s3" using finish [of key new ?s2] assms by (simp add: set_executionStatus_def)
  moreover have "run_step ?s3 ?s4" using finish [of key old ?s3] by (simp add: set_executionStatus_def)
  ultimately have "run_step\<^sup>*\<^sup>* ?s0 ?s2" "run_step\<^sup>*\<^sup>* ?s2 ?s4" by (meson converse_rtranclp_into_rtranclp rtranclp.rtrancl_refl)+
  then show ?thesis by (intro exI [of _ ?s2] conjI exI [of _ ?s4]) simp_all
qed

text \<open>
  Bytes are counted several times. There are blocks in which every transaction has the same positive priority and the average comes out more than twice
  as large: a transaction that begins at the lower bound or ends at the upper one satisfies several of the conditions.
\<close>

theorem average_exceeds_priorities:
  assumes "0 < p"
  shows "\<exists>txs. fst ` set txs = {p} \<and> 2 * p < calculateAvgFeePerByte 25 75 txs"
proof -
  have c: "\<lceil>25 / 100 * (of_int maxBlockSize :: rat)\<rceil> = 3840" "\<lfloor>75 / 100 * (of_int maxBlockSize :: rat)\<rfloor> = 11520" by (simp_all add: maxBlockSize_def)
  have "calculateAvgFeePerByte 25 75 [(p, 3840), (p, 7680)] = p * 23042 / 7681"
    unfolding calculateAvgFeePerByte_def c Let_def by (simp add: avg_step_def Let_def)
  then show ?thesis using assms by (intro exI [of _ "[(p, 3840), (p, 7680)]"]) simp
qed

section \<open>Examples\<close>

definition example_fee_config :: fee_config where
  "example_fee_config = \<lparr>quickAlgorithmEnabled = True, fullAlgorithmEnabled = False, coldStartBatchSize = 1, defaultStartBlockHeight = 1, medEstLowerPercentile = 25,
     medEstUpperPercentile = 75, highEstLowerPercentile = 80, highEstUpperPercentile = 100, emaBatchSize = 20, ema_alpha = 3406 / 100000, wavgDecayPercentage = 10\<rparr>"

definition example_fee_block :: "int \<Rightarrow> fee_block" where
  "example_fee_block h = \<lparr>fb_height = h, fb_id = show_int h, fb_transactions = [\<lparr>ft_size = 100, ft_fee = JNum 300, ft_minFee = JNum 100\<rparr>], fb_valid = True\<rparr>"

definition example_fee_point :: fee_point where
  "example_fee_point = \<lparr>fp_updated = Some 9, fp_blockID = Some ''7'', fp_blockHeight = 7, fp_low = 0, fp_med = 0, fp_high = 0\<rparr>"

lemma example_readable: "readable example_fee_config (\<lambda>h. Inr (example_fee_block h)) h"
  by (simp add: readable_def calculateFeePerByte_def example_fee_block_def fee_priority_def calculateBlockSize_def Let_def)

theorem estimate_reaches_head_witness:
  "\<exists>cache' p. getEstimateFeePerByteForBatch example_fee_config (\<lambda>h. Inr (example_fee_block h)) 0 0 9 1 9 cacheKeyFeeEstFull (\<lambda>_. None) = Some (cache', Inr p)
     \<and> fp_blockHeight p = 9 \<and> cache' cacheKeyFeeEstFull = Some p"
proof -
  have p: "0 = fp_blockHeight (start_point example_fee_config 0 1 cacheKeyFeeEstFull (\<lambda>_. None))" by (simp add: start_point_def example_fee_config_def)
  have "\<exists>cache' p. getEstimateFeePerByteForBatch example_fee_config (\<lambda>h. Inr (example_fee_block h)) 0 0 9 1 9 cacheKeyFeeEstFull (\<lambda>_. None) = Some (cache', Inr p)
     \<and> fp_blockHeight p = max 9 (0 + 1) \<and> cache' cacheKeyFeeEstFull = Some p"
    by (rule estimate_reaches_head [OF _ _ p]) (simp_all add: example_readable, simp add: example_fee_config_def)
  then show ?thesis by simp
qed

theorem kept_blocks_follow_node_witness:
  "\<exists>st. snd (getBlockByHeight (\<lambda>h. if 0 \<le> h \<and> h < int (length [example_fee_block 0]) then Inr ([example_fee_block 0] ! nat h) else Inl TypeError) (int 0) st) = Inr (example_fee_block 0)"
proof -
  let ?i = "\<lparr>latestBlock = None, blockByHeightCache = (\<lambda>_. None)\<rparr>"
  have "store_step ([], ?i) ([] @ [example_fee_block 0], cacheBlockByHeight (example_fee_block 0) (setLatestBlock (example_fee_block 0) ?i))"
    by (rule store_step.added) (simp_all add: example_fee_block_def)
  then show ?thesis
    using kept_blocks_follow_node [of "[example_fee_block 0]" "cacheBlockByHeight (example_fee_block 0) (setLatestBlock (example_fee_block 0) ?i)" 0] by auto
qed

theorem smoothed_between_witness:
  "\<exists>l m h. EMAcalc example_fee_config (1, 2, 4) (Some (0, 0, 0)) = (l, m, h) \<and> 0 \<le> l \<and> l \<le> 1 \<and> m \<le> 2 \<and> h \<le> 4"
proof -
  obtain l m h where e: "EMAcalc example_fee_config (1, 2, 4) (Some (0, 0, 0)) = (l, m, h)" by (metis prod_cases3)
  have "min 1 0 \<le> l \<and> l \<le> max 1 0 \<and> min 2 0 \<le> m \<and> m \<le> max 2 0 \<and> min 4 0 \<le> h \<and> h \<le> max 4 0"
    by (rule smoothed_between [OF _ _ e]) (simp_all add: example_fee_config_def)
  with e show ?thesis by auto
qed

theorem weighted_average_between_witness: "calculateWeightedAvg example_fee_config [example_fee_block 1, example_fee_block 2] \<le> 100"
  using weighted_average_between [of example_fee_config "[example_fee_block 1, example_fee_block 2]" 100 100]
  by (simp add: example_fee_config_def example_fee_block_def calculateBlockSize_def)

lemma example_quick: "getEstimateFeePerByte example_fee_config (Inr 9) (Inr (JNull, JNull)) [cacheKeyFeeEstQuick \<mapsto> example_fee_point] = Inr (Estimate example_fee_point (JNull, JNull))"
  by (simp add: getEstimateFeePerByte_def valid_estimate_def getEstimateFeePerByteFull_def example_fee_config_def example_fee_point_def)

theorem answer_is_recent_witness: "9 - fp_blockHeight example_fee_point \<le> 15"
  using answer_is_recent [OF example_quick] by simp

theorem quick_preferred_witness:
  "getEstimateFeePerByte example_fee_config (Inr 20) (Inr (JNull, JNull)) [cacheKeyFeeEstQuick \<mapsto> example_fee_point, cacheKeyFeeEstFull \<mapsto> example_fee_point\<lparr>fp_blockHeight := 20\<rparr>]
     = Inr (Estimate example_fee_point (JNull, JNull))"
  by (rule quick_preferred) (simp_all add: example_fee_config_def example_fee_point_def cacheKeyFeeEstQuick_def cacheKeyFeeEstFull_def)

theorem runs_overlap_witness:
  "\<exists>s. run_step\<^sup>*\<^sup>* \<lparr>rn_status = executionStatus, rn_active = [], rn_cache = (\<lambda>_. None)\<rparr> s \<and> rn_active s = [(cacheKeyFeeEstQuick, 5), (cacheKeyFeeEstQuick, 6)]"
  using runs_overlap [of 5 6 cacheKeyFeeEstQuick] by auto

theorem average_exceeds_priorities_witness: "\<exists>txs. fst ` set txs = {3} \<and> 6 < calculateAvgFeePerByte 25 75 txs"
  using average_exceeds_priorities [of 3] by simp

end
