(* ===== verification/Json_Values.thy ===== *)
theory Json_Values
  imports Database "HOL-Library.AList"
begin

text \<open>
  Arrays and objects beside the scalar values: what a request carries, what a service answers and what \<^verbatim>\<open>JSON.parse\<close> returns.
  An object is the list of its own properties, in their order.
\<close>

section \<open>Values and conversions\<close>

datatype json = JV jsval | JArr "json list" | JObj "(string \<times> json) list"

abbreviation JUndef :: json where "JUndef \<equiv> JV JUndefined"

abbreviation JString :: "string \<Rightarrow> json" where "JString s \<equiv> JV (JStr s)"

type_synonym object = "(string \<times> json) list"

fun join_with :: "string \<Rightarrow> string list \<Rightarrow> string" where
  "join_with sep [] = []"
| "join_with sep [x] = x"
| "join_with sep (x # y # xs) = x @ sep @ join_with sep (y # xs)"

text \<open>\<^verbatim>\<open>String(v)\<close>; the empty elements of an array print as nothing.\<close>

fun json_String :: "json \<Rightarrow> string" where
  "json_String (JV v) = js_String v"
| "json_String (JArr vs) = join_with '','' (map (\<lambda>v. case v of JV JUndefined \<Rightarrow> [] | JV JNull \<Rightarrow> [] | _ \<Rightarrow> json_String v) vs)"
| "json_String (JObj _) = ''[object Object]''"

definition json_Number :: "json \<Rightarrow> json" where
  "json_Number v = JV (case v of JV x \<Rightarrow> js_Number x | _ \<Rightarrow> js_Number (JStr (json_String v)))"

definition json_Boolean :: "json \<Rightarrow> bool" where
  "json_Boolean v = (case v of JV x \<Rightarrow> js_Boolean x | _ \<Rightarrow> True)"

definition json_typeof :: "json \<Rightarrow> string" where
  "json_typeof v = (case v of JV x \<Rightarrow> js_typeof x | _ \<Rightarrow> ''object'')"

text \<open>\<^verbatim>\<open>o[k]\<close>, \<^verbatim>\<open>o[k] = v\<close> and \<^verbatim>\<open>{ ...a, ...b }\<close> for objects\<close>

definition prop_of :: "object \<Rightarrow> string \<Rightarrow> json" where
  "prop_of obj k = (case map_of obj k of Some v \<Rightarrow> v | None \<Rightarrow> JUndef)"

definition spread2 :: "object \<Rightarrow> object \<Rightarrow> object" where
  "spread2 a b = fold (\<lambda>(k, v) acc. AList.update k v acc) b a"

section \<open>Property access\<close>

definition indexed :: "json list \<Rightarrow> object" where
  "indexed vs = zip (map show_nat [0..<length vs]) vs"

text \<open>\<^verbatim>\<open>v[k]\<close> for any value: own properties only.\<close>

definition json_get :: "json \<Rightarrow> string \<Rightarrow> json result" where
  "json_get v k =
     (case v of
        JObj obj \<Rightarrow> Inr (prop_of obj k)
      | JArr vs \<Rightarrow> Inr (prop_of ((''length'', JV (JNum (int (length vs)))) # indexed vs) k)
      | JV JUndefined \<Rightarrow> Inl TypeError
      | JV JNull \<Rightarrow> Inl TypeError
      | JV (JStr s) \<Rightarrow> Inr (prop_of ((''length'', JV (JNum (int (length s)))) # indexed (map (\<lambda>c. JString [c]) s)) k)
      | JV _ \<Rightarrow> Inr JUndef)"

text \<open>What \<^verbatim>\<open>...v\<close> adds to an object\<close>

definition spread_fields :: "json \<Rightarrow> object" where
  "spread_fields v = (case v of JObj obj \<Rightarrow> obj | JArr vs \<Rightarrow> indexed vs | JV (JStr s) \<Rightarrow> indexed (map (\<lambda>c. JString [c]) s) | _ \<Rightarrow> [])"

text \<open>\<^verbatim>\<open>endsWith\<close> of a string\<close>

definition has_suffix :: "string \<Rightarrow> string \<Rightarrow> bool" where
  "has_suffix s suffix \<longleftrightarrow> drop (length s - length suffix) s = suffix"

section \<open>Objects\<close>

lemma map_of_updates: "map_of (fold (\<lambda>(k, v) acc. AList.update k v acc) b a) k = (case map_of (rev b) k of Some v \<Rightarrow> Some v | None \<Rightarrow> map_of a k)"
  by (induction b arbitrary: a) (auto simp: update_conv' map_add_def split: option.splits)

lemma keys_spread2: "fst ` set (spread2 a b) = fst ` set a \<union> fst ` set b"
  unfolding spread2_def
proof (induction b arbitrary: a)
  case (Cons x b)
  then show ?case by (cases x) (simp add: dom_update)
qed simp

lemma prop_of_Nil [simp]: "prop_of [] k = JUndef"
  by (simp add: prop_of_def)

lemma prop_of_update: "prop_of (AList.update k v acc) k' = (if k' = k then v else prop_of acc k')"
  by (simp add: prop_of_def update_conv')

section \<open>Recursion through loops that may throw\<close>

lemma foldR_cong [fundef_cong]:
  "xs = ys \<Longrightarrow> s = t \<Longrightarrow> (\<And>x a. x \<in> set ys \<Longrightarrow> f x a = g x a) \<Longrightarrow> foldR f xs s = foldR g ys t"
proof (induction xs arbitrary: ys s t)
  case (Cons x xs)
  have "bindR (f x s) (foldR f xs) = bindR (g x s) (foldR g xs)"
    using Cons.IH [of xs] Cons.prems by (intro bindR_cong) auto
  then show ?case using Cons.prems by auto
qed simp

lemma mapR_cong [fundef_cong]: "xs = ys \<Longrightarrow> (\<And>x. x \<in> set ys \<Longrightarrow> f x = g x) \<Longrightarrow> mapR f xs = mapR g ys"
  by (induction xs arbitrary: ys) auto

lemma mapR_set: "mapR f xs = Inr ys \<Longrightarrow> y \<in> set ys \<Longrightarrow> \<exists>x \<in> set xs. f x = Inr y"
  by (induction xs arbitrary: ys) (auto simp: bindR_eq_Inr)

end
