(* ===== verification/Gateway_Params.thy ===== *)
theory Gateway_Params
  imports Json_Values "HOL-Library.Multiset"
begin

text \<open>
  The way of a request through the gateway, \<^verbatim>\<open>services/gateway/shared\<close>: the report on its parameters (\<^verbatim>\<open>paramValidator.js\<close>), their translation for
  the service that answers (\<^verbatim>\<open>apiUtils.js\<close>), and the routes with the checks before a call (\<^verbatim>\<open>registerHttpApi.js\<close>,
  \<^verbatim>\<open>registerRpcApi.js\<close>).
\<close>

section \<open>The specification of a method\<close>

record param_spec =
  ps_type :: string
  ps_required :: bool
  ps_default :: json
  ps_convert :: "bool option"

datatype mdef = DStr string | DList "mdef list" | DObj "(string \<times> mdef) list" | DNull

datatype etag = EDefault | EWeak | ETrue | EFalse | ECustom

record method_spec =
  ms_version :: string
  ms_params :: "(string \<times> param_spec) list"
  ms_paramsRequired :: bool
  ms_validParamPairings :: "string list list"
  ms_httpMethod :: string
  ms_swaggerApiPath :: string
  ms_rpcMethod :: string
  ms_source_method :: string
  ms_source_params :: "(string \<times> string) list option"
  ms_definition :: mdef
  ms_envelope :: object
  ms_eTag :: "etag option"

section \<open>The report on parameters\<close>

definition dropEmptyProps :: "object \<Rightarrow> object" where
  "dropEmptyProps p = filter (\<lambda>(k, v). v \<noteq> JString []) p"

definition parseDefaultParams :: "(string \<times> param_spec) list \<Rightarrow> object" where
  "parseDefaultParams p = map (\<lambda>(k, s). (k, ps_default s)) (filter (\<lambda>(k, s). ps_default s \<noteq> JUndef) p)"

text \<open>What a parameter of the specification becomes.\<close>

definition parse_param :: "object \<Rightarrow> string \<times> param_spec \<Rightarrow> object \<Rightarrow> object" where
  "parse_param requestParams = (\<lambda>(cur, s) acc.
     let acc1 = (if ps_default s \<noteq> JUndef then AList.update cur (ps_default s) acc else acc);
         given = prop_of requestParams cur
     in if given \<noteq> JUndef
        then AList.update cur (if ps_type s = ''number'' then (if given = JString [] then prop_of acc1 cur else json_Number given) else given) acc1
        else acc1)"

definition parseAllParams :: "(string \<times> param_spec) list \<Rightarrow> object \<Rightarrow> object" where
  "parseAllParams routeParams requestParams = fold (parse_param requestParams) routeParams []"

text \<open>Both values of the comparison in \<^verbatim>\<open>parseParams\<close> are the same, so every defined parameter stays as it is.\<close>

definition parseParams :: "object \<Rightarrow> object \<Rightarrow> object \<times> object" where
  "parseParams swaggerParams inputParams =
     (let combined = spread2 swaggerParams inputParams;
          invalidParamsList = filter (\<lambda>k. k \<notin> fst ` set swaggerParams) (map fst combined)
      in (filter (\<lambda>(k, v). v \<noteq> JUndef) swaggerParams, map (\<lambda>k. (k, prop_of inputParams k)) invalidParamsList))"

definition validateFromParamPairings :: "bool \<Rightarrow> string list \<Rightarrow> string list list \<Rightarrow> string list list" where
  "validateFromParamPairings paramsRequired inputParamKeys paramPairings =
     (if \<not> paramsRequired then []
      else let filtered = filter (\<lambda>k. list_ex (\<lambda>ks. k \<in> set ks) paramPairings) inputParamKeys
           in if list_ex (\<lambda>ks. length ks = length filtered \<and> set ks \<subseteq> set filtered) paramPairings then [] else paramPairings)"

definition checkMissingParams :: "(string \<times> param_spec) list \<Rightarrow> object \<Rightarrow> string list" where
  "checkMissingParams routeParams requestParams = filter (\<lambda>k. k \<notin> fst ` set requestParams) (map fst (filter (\<lambda>(k, s). ps_required s) routeParams))"

text \<open>A \<^verbatim>\<open>convert\<close> of the specification itself takes precedence.\<close>

definition looseSpecParams :: "(string \<times> param_spec) list \<Rightarrow> (string \<times> param_spec) list" where
  "looseSpecParams specPar = map (\<lambda>(k, s). (k, if ps_type s = ''number'' \<or> ps_type s = ''boolean'' then s\<lparr>ps_convert := Some (case ps_convert s of Some b \<Rightarrow> b | None \<Rightarrow> True)\<rparr> else s)) specPar"

record param_report =
  rp_valid :: object
  rp_unknown :: object
  rp_required :: "string list list"
  rp_missing :: "string list"
  rp_invalid :: "string list option"

text \<open>\<open>check\<close> is the validator package: the messages for values that do not fit.\<close>

definition validateInputParams :: "(object \<Rightarrow> (string \<times> param_spec) list \<Rightarrow> string list) \<Rightarrow> object \<Rightarrow> method_spec \<Rightarrow> param_report" where
  "validateInputParams check inputParams specs =
     (let (valid, unknown) = parseParams (parseAllParams (ms_params specs) inputParams) (spread2 (parseDefaultParams (ms_params specs)) inputParams);
          required = validateFromParamPairings (ms_paramsRequired specs) (map fst inputParams) (ms_validParamPairings specs);
          missing = checkMissingParams (ms_params specs) inputParams;
          report = \<lparr>rp_valid = valid, rp_unknown = unknown, rp_required = required, rp_missing = missing, rp_invalid = None\<rparr>
      in if missing \<noteq> [] \<or> unknown \<noteq> [] \<or> required \<noteq> [] then report
         else report\<lparr>rp_invalid := Some (check (dropEmptyProps inputParams) (looseSpecParams (ms_params specs)))\<rparr>)"

section \<open>The parameters of the service\<close>

definition convertType :: "json \<Rightarrow> string \<Rightarrow> json" where
  "convertType item toType =
     (let fromType = (case item of JArr _ \<Rightarrow> ''array'' | _ \<Rightarrow> json_typeof item) in
      if fromType = ''string'' \<and> toType = ''number'' then json_Number item
      else if fromType = ''number'' \<and> toType = ''string'' then JString (json_String item)
      else if fromType = ''array'' \<and> toType = ''string'' then JString (json_String item)
      else if fromType = ''string'' \<and> toType = ''boolean'' then JV (JBool (map (\<lambda>c. if ''A'' \<le> [c] \<and> [c] \<le> ''Z'' then char_of (of_char c + 32 :: nat) else c) (json_String item) = ''true''))
      else item)"

definition mapParam :: "object \<Rightarrow> string \<Rightarrow> string \<Rightarrow> (string \<times> json) option" where
  "mapParam source originalKey mappingKey =
     (if mappingKey \<noteq> [] then Some (mappingKey, if originalKey = ''='' then prop_of source mappingKey else prop_of source originalKey) else None)"

text \<open>\<^verbatim>\<open>typeof null\<close> is \<^verbatim>\<open>object\<close>, and \<^verbatim>\<open>null.constructor\<close> throws.\<close>

definition mapParamWithType :: "object \<Rightarrow> string \<Rightarrow> string \<Rightarrow> (string \<times> json) option result" where
  "mapParamWithType source originalSetup mappingKey =
     (case split_at (CHR '','') originalSetup of
        originalKey # dataType # _ \<Rightarrow>
          (let value = (case mapParam source originalKey mappingKey of Some (_, v) \<Rightarrow> v | None \<Rightarrow> JUndef)
           in if value = JV JNull then Inl TypeError else Inr (if mappingKey \<noteq> [] then Some (mappingKey, convertType value dataType) else None))
      | [originalKey] \<Rightarrow> Inr (mapParam source originalKey mappingKey)
      | [] \<Rightarrow> Inr None)"

definition transformParams :: "object \<Rightarrow> (string \<times> string) list \<Rightarrow> object result" where
  "transformParams params specs =
     foldR (\<lambda>(specParam, setup) output. bindR (mapParamWithType params setup specParam) (\<lambda>r. Inr (case r of Some (k, v) \<Rightarrow> AList.update k v output | None \<Rightarrow> output))) specs []"

definition transformRequest :: "method_spec option \<Rightarrow> object \<Rightarrow> object" where
  "transformRequest methodDef params =
     (case methodDef of
        Some m \<Rightarrow> (case ms_source_params m of Some specs \<Rightarrow> (case transformParams params specs of Inr out \<Rightarrow> out | Inl _ \<Rightarrow> params) | None \<Rightarrow> params)
      | None \<Rightarrow> params)"

section \<open>The checks before a call\<close>

datatype refusal = Missing "string list" | Unknown "string list" | Pairings "string list list" | Invalid "string list"

definition refuse :: "param_report \<Rightarrow> refusal option" where
  "refuse report =
     (if rp_missing report \<noteq> [] then Some (Missing (rp_missing report))
      else if rp_unknown report \<noteq> [] then Some (Unknown (map fst (rp_unknown report)))
      else if rp_required report \<noteq> [] then Some (Pairings (rp_required report))
      else case rp_invalid report of Some (m # ms) \<Rightarrow> Some (Invalid (m # ms)) | _ \<Rightarrow> None)"

definition http_onBeforeCall :: "(object \<Rightarrow> (string \<times> param_spec) list \<Rightarrow> string list) \<Rightarrow> method_spec \<Rightarrow> object \<Rightarrow> refusal + object" where
  "http_onBeforeCall check m params =
     (let report = validateInputParams check params m in
      case refuse report of Some r \<Rightarrow> Inl r | None \<Rightarrow> Inr (transformRequest (Some m) (dropEmptyProps (rp_valid report))))"

definition rpc_onBeforeCall :: "(object \<Rightarrow> (string \<times> param_spec) list \<Rightarrow> string list) \<Rightarrow> method_spec \<Rightarrow> object \<Rightarrow> refusal + object" where
  "rpc_onBeforeCall check m params =
     (let report = validateInputParams check params m in
      case refuse report of Some r \<Rightarrow> Inl r | None \<Rightarrow> Inr (transformRequest (Some m) (rp_valid report)))"

section \<open>Routes\<close>

definition dropOneSlashAtBeginning :: "string \<Rightarrow> string" where
  "dropOneSlashAtBeginning s = (case s of c # cs \<Rightarrow> if c = CHR ''/'' then cs else s | [] \<Rightarrow> [])"

definition curlyBracketsToColon :: "string \<Rightarrow> string" where
  "curlyBracketsToColon s = filter (\<lambda>c. c \<noteq> CHR ''}'') (map (\<lambda>c. if c = CHR ''{'' then CHR '':'' else c) s)"

definition transformPath :: "string \<Rightarrow> string" where
  "transformPath url = curlyBracketsToColon (dropOneSlashAtBeginning url)"

definition getMethodName :: "method_spec \<Rightarrow> string" where
  "getMethodName m = (if ms_httpMethod m \<noteq> [] then ms_httpMethod m else ''GET'')"

definition usable_method :: "method_spec \<Rightarrow> bool" where
  "usable_method m \<longleftrightarrow> ms_version m = ''2.0'' \<and> ms_source_method m \<noteq> [] \<and> ms_swaggerApiPath m \<noteq> []"

text \<open>For every interface the methods of its directory and those of the registered modules.\<close>

definition getAllAPIs :: "((string \<times> method_spec) list \<times> (string \<times> method_spec) list list) list \<Rightarrow> (string \<times> method_spec) list" where
  "getAllAPIs apis = filter (\<lambda>(k, m). usable_method m) (fold (\<lambda>(k, m). AList.update k m) (concat (map (\<lambda>(common, modules). common @ concat modules) apis)) [])"

record route =
  rt_path :: string
  rt_aliases :: "(string \<times> string) list"
  rt_whitelist :: "string list"
  rt_methodPaths :: "(string \<times> method_spec) list"
  rt_etag :: etag

definition buildAPIAliases :: "(string \<times> method_spec) list \<Rightarrow> bool \<Rightarrow> (string \<times> string) list \<times> string list \<times> (string \<times> method_spec) list" where
  "buildAPIAliases methods isDefault =
     (let alias_of = (\<lambda>other m. getMethodName m @ '' '' @ (if isDefault then transformPath (ms_swaggerApiPath m) else other))
      in (fold (\<lambda>(k, m). AList.update (alias_of ''/'' m) (ms_source_method m)) methods [], map (\<lambda>(k, m). ms_source_method m) methods,
          fold (\<lambda>(k, m). AList.update (alias_of [] m) m) methods []))"

definition mk_route :: "string \<Rightarrow> (string \<times> method_spec) list \<Rightarrow> etag \<Rightarrow> route" where
  "mk_route path methods e =
     (let (aliases, whitelist, methodPaths) = buildAPIAliases methods (e = EDefault)
      in \<lparr>rt_path = path, rt_aliases = aliases, rt_whitelist = whitelist, rt_methodPaths = methodPaths, rt_etag = e\<rparr>)"

definition ALLOWED_ETAG_VALUES :: "etag list" where
  "ALLOWED_ETAG_VALUES = [EDefault, EWeak, ETrue, EFalse, ECustom]"

definition eTag_of :: "method_spec \<Rightarrow> etag" where
  "eTag_of m = (case ms_eTag m of Some e \<Rightarrow> e | None \<Rightarrow> EDefault)"

text \<open>The common part of the configuration, which every route shares, is left out.\<close>

definition registerApi :: "string \<Rightarrow> (string \<times> method_spec) list \<Rightarrow> route list" where
  "registerApi config_path allAPIs =
     concat (map (\<lambda>e. let apis = filter (\<lambda>(k, m). eTag_of m = e) allAPIs in
       if e = EDefault then [mk_route config_path apis EDefault]
       else map (\<lambda>(k, m). mk_route (config_path @ ms_swaggerApiPath m) [(''key'', m)] e) apis) ALLOWED_ETAG_VALUES)"

section \<open>The report\<close>

text \<open>The value that a parameter of the specification takes.\<close>

definition param_value :: "object \<Rightarrow> string \<times> param_spec \<Rightarrow> json" where
  "param_value input = (\<lambda>(k, s). let given = prop_of input k in
     if given = JUndef \<or> ps_type s = ''number'' \<and> given = JString [] then ps_default s
     else if ps_type s = ''number'' then json_Number given else given)"

lemma parse_param_prop: "prop_of acc (fst p) = JUndef \<Longrightarrow> prop_of (parse_param input p acc) k = (if k = fst p then param_value input p else prop_of acc k)"
  by (cases p) (auto simp: parse_param_def param_value_def Let_def prop_of_update)

lemma parse_param_keys:
  "fst ` set (parse_param input p acc) = (if ps_default (snd p) \<noteq> JUndef \<or> prop_of input (fst p) \<noteq> JUndef then insert (fst p) (fst ` set acc) else fst ` set acc)"
  by (cases p) (auto simp: parse_param_def Let_def dom_update)

lemma parseAll_prop:
  assumes "distinct (map fst spec)" and "\<forall>p \<in> set spec. prop_of acc (fst p) = JUndef"
  shows "prop_of (fold (parse_param input) spec acc) k = (case map_of spec k of Some s \<Rightarrow> param_value input (k, s) | None \<Rightarrow> prop_of acc k)"
  using assms
proof (induction spec arbitrary: acc)
  case (Cons p spec)
  have "\<forall>q \<in> set spec. prop_of (parse_param input p acc) (fst q) = JUndef" 
  proof
    fix q assume q: "q \<in> set spec"
    then have "fst q \<in> fst ` set spec" by (rule imageI)
    then have "fst q \<noteq> fst p" using Cons.prems(1) by (metis distinct.simps(2) list.set_map list.simps(9))
    then show "prop_of (parse_param input p acc) (fst q) = JUndef" using q Cons.prems(2) by (simp add: parse_param_prop)
  qed
  then have IH: "prop_of (fold (parse_param input) spec (parse_param input p acc)) k = (case map_of spec k of Some s \<Rightarrow> param_value input (k, s) | None \<Rightarrow> prop_of (parse_param input p acc) k)"
    using Cons.IH Cons.prems(1) by simp
  have "map_of spec (fst p) = None" using Cons.prems(1) by (simp add: map_of_eq_None_iff)
  then show ?case using IH Cons.prems(2) by (cases p) (auto simp: parse_param_prop split: option.splits)
qed simp

lemma parseAll_keys:
  "fst ` set (fold (parse_param input) spec acc) = fst ` set acc \<union> {k. \<exists>s. (k, s) \<in> set spec \<and> (ps_default s \<noteq> JUndef \<or> prop_of input k \<noteq> JUndef)}"
  by (induction spec arbitrary: acc) (auto simp: parse_param_keys)

lemma map_of_filter_defined: "distinct (map fst r) \<Longrightarrow> map_of (filter (\<lambda>(k, v). v \<noteq> JUndef) r) k = (if prop_of r k = JUndef then None else Some (prop_of r k))"
proof (induction r)
  case (Cons x r)
  have "map_of r (fst x) = None" using Cons.prems by (simp add: map_of_eq_None_iff)
  then show ?case using Cons by (cases x) (auto simp: prop_of_def)
qed (simp add: prop_of_def)

lemma distinct_parseAll: "distinct (map fst acc) \<Longrightarrow> distinct (map fst (fold (parse_param input) spec acc))"
  by (induction spec arbitrary: acc) (auto simp: parse_param_def Let_def distinct_update)

text \<open>The interesting requests: every key once, and no value undefined, as parsed from a query or a body.\<close>

definition plain_request :: "object \<Rightarrow> bool" where
  "plain_request input \<longleftrightarrow> distinct (map fst input) \<and> (\<forall>(k, v) \<in> set input. v \<noteq> JUndef)"

lemma plain_prop: "plain_request input \<Longrightarrow> k \<in> fst ` set input \<longleftrightarrow> prop_of input k \<noteq> JUndef"
proof -
  assume p: "plain_request input"
  show ?thesis
  proof (cases "map_of input k")
    case None
    then have "k \<notin> fst ` set input" by (simp add: map_of_eq_None_iff)
    then show ?thesis using None by (simp add: prop_of_def)
  next
    case (Some v)
    then have "(k, v) \<in> set input" by (rule map_of_SomeD)
    then show ?thesis using p Some by (force simp: plain_request_def prop_of_def)
  qed
qed

lemma unknown_keys:
  assumes "plain_request input"
  shows "set (map fst (snd (parseParams (parseAllParams spec input) (spread2 (parseDefaultParams spec) input)))) = fst ` set input - fst ` set spec"
proof -
  let ?sw = "parseAllParams spec input"
  have sw: "fst ` set ?sw = {k. \<exists>s. (k, s) \<in> set spec \<and> (ps_default s \<noteq> JUndef \<or> prop_of input k \<noteq> JUndef)}"
    by (simp add: parseAllParams_def parseAll_keys)
  have "fst ` set (parseDefaultParams spec) \<subseteq> fst ` set ?sw" by (force simp: parseDefaultParams_def sw)
  then show ?thesis using plain_prop [OF assms] by (auto simp: parseParams_def Let_def keys_spread2 sw comp_def) (force simp: image_iff)+
qed

lemma report_simps:
  "rp_valid (validateInputParams check input m) = filter (\<lambda>(k, v). v \<noteq> JUndef) (parseAllParams (ms_params m) input)"
  "rp_unknown (validateInputParams check input m) = snd (parseParams (parseAllParams (ms_params m) input) (spread2 (parseDefaultParams (ms_params m)) input))"
  "rp_required (validateInputParams check input m) = validateFromParamPairings (ms_paramsRequired m) (map fst input) (ms_validParamPairings m)"
  "rp_missing (validateInputParams check input m) = checkMissingParams (ms_params m) input"
  by (simp_all add: validateInputParams_def parseParams_def Let_def)

lemma refuse_None_iff:
  assumes "plain_request input"
  shows "refuse (validateInputParams check input m) = None \<longleftrightarrow>
     (\<forall>(k, s) \<in> set (ms_params m). ps_required s \<longrightarrow> k \<in> fst ` set input) \<and> fst ` set input \<subseteq> fst ` set (ms_params m)
     \<and> validateFromParamPairings (ms_paramsRequired m) (map fst input) (ms_validParamPairings m) = []
     \<and> check (dropEmptyProps input) (looseSpecParams (ms_params m)) = []"
proof -
  let ?r = "validateInputParams check input m"
  have u: "rp_unknown ?r = [] \<longleftrightarrow> fst ` set input \<subseteq> fst ` set (ms_params m)"
    using unknown_keys [OF assms, of "ms_params m"] unfolding report_simps by (metis Diff_eq_empty_iff list.map_disc_iff list.set(1) set_empty)
  have mi: "rp_missing ?r = [] \<longleftrightarrow> (\<forall>(k, s) \<in> set (ms_params m). ps_required s \<longrightarrow> k \<in> fst ` set input)"
    unfolding report_simps checkMissingParams_def by (auto simp: filter_empty_conv)
  have "rp_invalid ?r = (if rp_missing ?r \<noteq> [] \<or> rp_unknown ?r \<noteq> [] \<or> rp_required ?r \<noteq> [] then None
      else Some (check (dropEmptyProps input) (looseSpecParams (ms_params m))))"
    by (simp add: validateInputParams_def Let_def split: prod.splits)
  then show ?thesis unfolding u [symmetric] mi [symmetric] report_simps(3) [of check input m, symmetric]
    by (auto simp: refuse_def split: option.splits list.splits if_splits)
qed

section \<open>Properties\<close>

text \<open>
  What a service may see of a request: the value of a declared parameter, and nothing for any other name. The HTTP interface drops empty strings.
\<close>

definition seen :: "bool \<Rightarrow> object \<Rightarrow> method_spec \<Rightarrow> string \<Rightarrow> json" where
  "seen http input m k = (case map_of (ms_params m) k of None \<Rightarrow> JUndef
     | Some s \<Rightarrow> if http \<and> param_value input (k, s) = JString [] then JUndef else param_value input (k, s))"

text \<open>
  What a service receives under the name \<open>k\<close> for a setup such as \<^verbatim>\<open>=\<close>, \<^verbatim>\<open>address\<close> or \<^verbatim>\<open>=,number\<close>: the value seen under the same or the given name, converted to the
  type, if one is given.
\<close>

definition received :: "bool \<Rightarrow> object \<Rightarrow> method_spec \<Rightarrow> string \<Rightarrow> string \<Rightarrow> json" where
  "received http input m k setup =
     (let parts = split_at (CHR '','') setup; v = seen http input m (if hd parts = ''='' then k else hd parts)
      in if length parts = 1 then v else convertType v (parts ! 1))"

lemma split_at_nonempty: "split_at c s \<noteq> []"
  by (induction s) (auto split: list.splits)

definition mapped_value :: "object \<Rightarrow> string \<Rightarrow> string \<Rightarrow> json" where
  "mapped_value params k setup =
     (let parts = split_at (CHR '','') setup; v = prop_of params (if hd parts = ''='' then k else hd parts)
      in if length parts = 1 then v else convertType v (parts ! 1))"

lemma mapParam_mapped:
  assumes "\<And>k. prop_of params k \<noteq> JV JNull" and "sp \<noteq> []"
  shows "mapParamWithType params setup sp = Inr (Some (sp, mapped_value params sp setup))"
proof -
  obtain x xs where "split_at (CHR '','') setup = x # xs" using split_at_nonempty by (metis list.exhaust)
  then show ?thesis using assms by (cases xs) (auto simp: mapParamWithType_def mapped_value_def mapParam_def Let_def)
qed

lemma transform_values:
  assumes "\<And>k. prop_of params k \<noteq> JV JNull" and "\<forall>(sp, _) \<in> set specs. sp \<noteq> []" and "distinct (map fst specs)"
  shows "\<exists>out. foldR (\<lambda>(specParam, setup) output. bindR (mapParamWithType params setup specParam) (\<lambda>r. Inr (case r of Some (k, v) \<Rightarrow> AList.update k v output | None \<Rightarrow> output))) specs acc = Inr out
     \<and> fst ` set out = fst ` set acc \<union> fst ` set specs
     \<and> (\<forall>k. prop_of out k = (case map_of specs k of Some setup \<Rightarrow> mapped_value params k setup | None \<Rightarrow> prop_of acc k))"
  using assms(2,3)
proof (induction specs arbitrary: acc)
  case (Cons x specs)
  obtain sp su where x: "x = (sp, su)" by fastforce
  have sp: "mapParamWithType params su sp = Inr (Some (sp, mapped_value params sp su))" using Cons.prems by (intro mapParam_mapped [OF assms(1)]) (simp add: x)
  obtain out where out: "foldR (\<lambda>(specParam, setup) output. bindR (mapParamWithType params setup specParam) (\<lambda>r. Inr (case r of Some (k, v) \<Rightarrow> AList.update k v output | None \<Rightarrow> output))) specs
       (AList.update sp (mapped_value params sp su) acc) = Inr out"
    "fst ` set out = fst ` set (AList.update sp (mapped_value params sp su) acc) \<union> fst ` set specs"
    "\<forall>k. prop_of out k = (case map_of specs k of Some setup \<Rightarrow> mapped_value params k setup | None \<Rightarrow> prop_of (AList.update sp (mapped_value params sp su) acc) k)"
    using Cons.IH [of "AList.update sp (mapped_value params sp su) acc"] Cons.prems by auto
  have "map_of specs sp = None" using Cons.prems(2) by (simp add: x map_of_eq_None_iff)
  then show ?case using out sp by (intro exI [of _ out]) (auto simp: x dom_update prop_of_update split: option.splits)
qed simp

lemma transformed:
  assumes "ms_source_params m = Some specs" and "\<forall>(sp, _) \<in> set specs. sp \<noteq> []" and "distinct (map fst specs)" and "\<And>k. prop_of params k \<noteq> JV JNull"
  shows "fst ` set (transformRequest (Some m) params) = fst ` set specs"
    "(k, setup) \<in> set specs \<Longrightarrow> prop_of (transformRequest (Some m) params) k = mapped_value params k setup"
proof -
  obtain out where "transformParams params specs = Inr out" "fst ` set out = fst ` set specs"
    "\<forall>k. prop_of out k = (case map_of specs k of Some setup \<Rightarrow> mapped_value params k setup | None \<Rightarrow> prop_of [] k)"
    using transform_values [OF assms(4,2,3), of "[]"] unfolding transformParams_def by auto
  then show "fst ` set (transformRequest (Some m) params) = fst ` set specs"
    "(k, setup) \<in> set specs \<Longrightarrow> prop_of (transformRequest (Some m) params) k = mapped_value params k setup"
    using assms(1,3) by (simp_all add: transformRequest_def)
qed

lemma valid_prop:
  assumes "distinct (map fst (ms_params m))"
  shows "prop_of (rp_valid (validateInputParams check input m)) k = seen False input m k"
    "prop_of (dropEmptyProps (rp_valid (validateInputParams check input m))) k = seen True input m k"
proof -
  let ?all = "parseAllParams (ms_params m) input"
  have d: "distinct (map fst ?all)" by (simp add: parseAllParams_def distinct_parseAll)
  have a: "prop_of ?all k = seen False input m k"
    using parseAll_prop [OF assms, of "[]" input k] by (simp add: parseAllParams_def seen_def split: option.split)
  have v: "map_of (rp_valid (validateInputParams check input m)) k = (if prop_of ?all k = JUndef then None else Some (prop_of ?all k))"
    using d by (simp add: report_simps map_of_filter_defined)
  then show "prop_of (rp_valid (validateInputParams check input m)) k = seen False input m k" by (simp add: prop_of_def [of "rp_valid _"] a)
  have "map_of (filter (\<lambda>(k, v). v \<noteq> JString []) r) k = (case map_of r k of Some v \<Rightarrow> if v = JString [] then None else Some v | None \<Rightarrow> None)" if "distinct (map fst r)" for r :: object
    using that
  proof (induction r)
    case (Cons x r)
    have "map_of r (fst x) = None" using Cons.prems by (simp add: map_of_eq_None_iff)
    then show ?case using Cons by (cases x) auto
  qed simp
  moreover have "distinct (map fst (rp_valid (validateInputParams check input m)))" using d by (simp add: report_simps distinct_map_filter)
  ultimately show "prop_of (dropEmptyProps (rp_valid (validateInputParams check input m))) k = seen True input m k"
    using v by (simp add: dropEmptyProps_def prop_of_def [of "filter _ _"] a) (auto simp: seen_def split: option.splits)
qed

text \<open>
  C34: Which requests reach their service, and with what. By HTTP and by RPC alike a request passes exactly when it gives all required parameters, only declared ones, an
  allowed combination where one is needed, and values that the validator accepts. The service then receives exactly the names of its source, each with the value
  of the parameter that the source names for it: the given one, read as a number where one is declared, or the default if none is given, converted to the type that the
  source asks for; HTTP leaves out empty strings. This is for methods with a list of source parameters, without repeated names, and for requests in which every key occurs once and no
  value is \<^verbatim>\<open>null\<close>.
\<close>

theorem accepted_requests:
  assumes "plain_request input" and "distinct (map fst (ms_params m))"
    and "ms_source_params m = Some specs" and "\<forall>(sp, _) \<in> set specs. sp \<noteq> []" and "distinct (map fst specs)" and "\<forall>p \<in> set (ms_params m). param_value input p \<noteq> JV JNull"
  shows "let ok = (\<forall>(k, s) \<in> set (ms_params m). ps_required s \<longrightarrow> k \<in> fst ` set input) \<and> fst ` set input \<subseteq> fst ` set (ms_params m)
             \<and> validateFromParamPairings (ms_paramsRequired m) (map fst input) (ms_validParamPairings m) = []
             \<and> check (dropEmptyProps input) (looseSpecParams (ms_params m)) = []
     in ((\<exists>out. rpc_onBeforeCall check m input = Inr out) \<longleftrightarrow> ok) \<and> ((\<exists>out. http_onBeforeCall check m input = Inr out) \<longleftrightarrow> ok)
       \<and> (\<forall>out. rpc_onBeforeCall check m input = Inr out \<longrightarrow> fst ` set out = fst ` set specs \<and> (\<forall>(k, setup) \<in> set specs. prop_of out k = received False input m k setup))
       \<and> (\<forall>out. http_onBeforeCall check m input = Inr out \<longrightarrow> fst ` set out = fst ` set specs \<and> (\<forall>(k, setup) \<in> set specs. prop_of out k = received True input m k setup))"
proof -
  let ?r = "validateInputParams check input m"
  have null: "seen d input m k \<noteq> JV JNull" for d k using assms(6) by (auto simp: seen_def split: option.splits dest!: map_of_SomeD)
  have rec: "mapped_value (rp_valid ?r) k su = received False input m k su" "mapped_value (dropEmptyProps (rp_valid ?r)) k su = received True input m k su" for k su
    unfolding mapped_value_def received_def valid_prop [OF assms(2)] by simp_all
  have t: "fst ` set (transformRequest (Some m) p) = fst ` set specs \<and> (\<forall>(k, setup) \<in> set specs. prop_of (transformRequest (Some m) p) k = mapped_value p k setup)"
    if "p = rp_valid ?r \<or> p = dropEmptyProps (rp_valid ?r)" for p
  proof -
    have "prop_of p k \<noteq> JV JNull" for k using that null valid_prop [OF assms(2)] by (elim disjE) simp_all
    then show ?thesis using transformed [OF assms(3-5), of p] by blast
  qed
  have "rpc_onBeforeCall check m input = Inr out \<longleftrightarrow> refuse ?r = None \<and> out = transformRequest (Some m) (rp_valid ?r)"
    "http_onBeforeCall check m input = Inr out \<longleftrightarrow> refuse ?r = None \<and> out = transformRequest (Some m) (dropEmptyProps (rp_valid ?r))" for out
    by (auto simp: rpc_onBeforeCall_def http_onBeforeCall_def Let_def split: option.splits)
  then show ?thesis unfolding Let_def refuse_None_iff [OF assms(1), symmetric] using t [of "rp_valid ?r"] t [of "dropEmptyProps (rp_valid ?r)"] by (simp add: rec)
qed

text \<open>
  The combinations of parameters. Where combinations are declared, a request passes exactly when its parameters that occur in some combination are the
  parameters of one of them.
\<close>

theorem pairings_exact:
  assumes "distinct keys" and "\<forall>ks \<in> set pairings. distinct ks" and "pairings \<noteq> []"
  shows "validateFromParamPairings True keys pairings = [] \<longleftrightarrow> (\<exists>ks \<in> set pairings. set ks = {k \<in> set keys. \<exists>ks' \<in> set pairings. k \<in> set ks'})"
proof -
  let ?f = "filter (\<lambda>k. list_ex (\<lambda>ks. k \<in> set ks) pairings) keys"
  have f: "set ?f = {k \<in> set keys. \<exists>ks' \<in> set pairings. k \<in> set ks'}" by (auto simp: list_ex_iff)
  have "length ks = length ?f \<and> set ks \<subseteq> set ?f \<longleftrightarrow> set ks = set ?f" if "ks \<in> set pairings" for ks
  proof -
    have "card (set ks) = length ks" "card (set ?f) = length ?f" using assms(1,2) that distinct_card [OF distinct_filter] distinct_card by blast+
    then show ?thesis using card_subset_eq [of "set ?f" "set ks"] by auto
  qed
  then have "list_ex (\<lambda>ks. length ks = length ?f \<and> set ks \<subseteq> set ?f) pairings \<longleftrightarrow> (\<exists>ks \<in> set pairings. set ks = set ?f)" by (auto simp: list_ex_iff)
  then show ?thesis using assms(3) unfolding f [symmetric] by (simp add: validateFromParamPairings_def Let_def)
qed

text \<open>
  Both interfaces agree: a request that is refused by one is refused by the other for the same reason, and without empty values the service receives the same
  parameters.
\<close>

theorem http_rpc_agree:
  "(http_onBeforeCall check m input = Inl r \<longleftrightarrow> rpc_onBeforeCall check m input = Inl r)
   \<and> ((\<forall>(k, v) \<in> set (rp_valid (validateInputParams check input m)). v \<noteq> JString []) \<longrightarrow> http_onBeforeCall check m input = rpc_onBeforeCall check m input)"
proof (intro conjI impI)
  show "http_onBeforeCall check m input = Inl r \<longleftrightarrow> rpc_onBeforeCall check m input = Inl r"
    by (auto simp: http_onBeforeCall_def rpc_onBeforeCall_def Let_def split: option.splits)
next
  assume assms: "\<forall>(k, v) \<in> set (rp_valid (validateInputParams check input m)). v \<noteq> JString []"
  have "dropEmptyProps (rp_valid (validateInputParams check input m)) = rp_valid (validateInputParams check input m)"
    unfolding dropEmptyProps_def by (rule filter_True) (use assms in auto)
  then show "http_onBeforeCall check m input = rpc_onBeforeCall check m input" by (simp add: http_onBeforeCall_def rpc_onBeforeCall_def Let_def split: option.splits)
qed

lemma transform_keys:
  assumes "foldR (\<lambda>(specParam, setup) output. bindR (mapParamWithType params setup specParam) (\<lambda>r. Inr (case r of Some (k, v) \<Rightarrow> AList.update k v output | None \<Rightarrow> output))) specs acc = Inr out"
  shows "fst ` set out \<subseteq> fst ` set acc \<union> fst ` set specs"
  using assms
proof (induction specs arbitrary: acc)
  case (Cons x specs)
  obtain sp su where x: "x = (sp, su)" by fastforce
  obtain r where r: "mapParamWithType params su sp = Inr r" and
    rest: "foldR (\<lambda>(specParam, setup) output. bindR (mapParamWithType params setup specParam) (\<lambda>r. Inr (case r of Some (k, v) \<Rightarrow> AList.update k v output | None \<Rightarrow> output))) specs
       (case r of Some (k, v) \<Rightarrow> AList.update k v acc | None \<Rightarrow> acc) = Inr out"
    using Cons.prems by (auto simp: x bindR_eq_Inr)
  have "r = None \<or> (\<exists>v. r = Some (sp, v))"
    using r by (auto simp: mapParamWithType_def mapParam_def Let_def split: list.splits if_splits)
  then show ?case using Cons.IH [OF rest] by (elim disjE exE) (simp_all add: x dom_update, blast)
qed simp

text \<open>
  The service receives only parameters that its source declares, unless the translation fails; it fails only when a parameter with a type is null.
\<close>

theorem service_params_declared:
  assumes "ms_source_params m = Some specs" and "transformRequest (Some m) params = out"
  shows "fst ` set out \<subseteq> fst ` set specs \<or> out = params \<and> (\<exists>(k, v) \<in> set params. v = JV JNull)"
proof (cases "transformParams params specs")
  case (Inr r)
  then have "out = r" using assms by (simp add: transformRequest_def)
  then show ?thesis using transform_keys [of params specs "[]" out] Inr by (simp add: transformParams_def)
next
  case (Inl e)
  have "(\<exists>(k, v) \<in> set params. v = JV JNull)" if failed: "mapParamWithType params su sp = Inl e'" for sp su e'
  proof -
    obtain originalKey dataType l where "split_at (CHR '','') su = originalKey # dataType # l"
        "(case mapParam params originalKey sp of Some (_, v) \<Rightarrow> v | None \<Rightarrow> JUndef) = JV JNull"
      using failed by (fastforce simp: mapParamWithType_def Let_def split: list.splits if_splits)
    then obtain k where "prop_of params k = JV JNull" by (auto simp: mapParam_def split: if_splits)
    then show ?thesis by (force simp: prop_of_def split: option.splits dest: map_of_SomeD)
  qed
  moreover have "\<exists>sp setup e'. mapParamWithType params setup sp = Inl e'"
  proof -
    have "\<exists>sp setup e'. mapParamWithType params setup sp = Inl e'"
      if "foldR (\<lambda>(specParam, setup) output. bindR (mapParamWithType params setup specParam) (\<lambda>r. Inr (case r of Some (k, v) \<Rightarrow> AList.update k v output | None \<Rightarrow> output))) l acc = Inl e" for l acc
      using that by (induction l arbitrary: acc) (auto simp: bindR_eq_Inl split: prod.splits)
    then show ?thesis using Inl unfolding transformParams_def by blast
  qed
  ultimately show ?thesis using assms Inl by (auto simp: transformRequest_def)
qed

text \<open>
  Every method is registered exactly once, on a route of its own kind of entity tag.
\<close>

theorem methods_registered_once:
  "mset (concat (map rt_whitelist (registerApi path apis))) = mset (map (\<lambda>(k, m). ms_source_method m) apis)
     \<and> (\<forall>r \<in> set (registerApi path apis). \<forall>(a, m) \<in> set (rt_methodPaths r). eTag_of m = rt_etag r)"
proof
  have "mset (concat (map (\<lambda>e. map (\<lambda>(k, m). ms_source_method m) (filter (\<lambda>(k, m). eTag_of m = e) apis)) ALLOWED_ETAG_VALUES)) = mset (map (\<lambda>(k, m). ms_source_method m) apis)"
  proof (induction apis)
    case (Cons x apis)
    obtain k m where x: "x = (k, m)" by fastforce
    show ?case using Cons by (cases "eTag_of m") (simp_all add: x ALLOWED_ETAG_VALUES_def)
  qed (simp add: ALLOWED_ETAG_VALUES_def)
  moreover have "concat (map rt_whitelist (registerApi path apis)) = concat (map (\<lambda>e. map (\<lambda>(k, m). ms_source_method m) (filter (\<lambda>(k, m). eTag_of m = e) apis)) ALLOWED_ETAG_VALUES)"
  proof -
    have "concat (map rt_whitelist (map (\<lambda>(k, m). mk_route (path @ ms_swaggerApiPath m) [(''key'', m)] e) l)) = map (\<lambda>(k, m). ms_source_method m) l" for e and l :: "(string \<times> method_spec) list"
      by (induction l) (auto simp: mk_route_def buildAPIAliases_def Let_def)
    moreover have "rt_whitelist (mk_route path l EDefault) = map (\<lambda>(k, m). ms_source_method m) l" for l
      by (simp add: mk_route_def buildAPIAliases_def Let_def)
    ultimately show ?thesis by (simp add: registerApi_def ALLOWED_ETAG_VALUES_def Let_def)
  qed
  ultimately show "mset (concat (map rt_whitelist (registerApi path apis))) = mset (map (\<lambda>(k, m). ms_source_method m) apis)" by simp
next
  have "m \<in> snd ` set methods" if "(a, m) \<in> set (rt_methodPaths (mk_route p methods e))" for a m p methods e
  proof -
    have sub: "snd ` set (fold (\<lambda>(k, m). AList.update (f m) m) ms acc) \<subseteq> snd ` set acc \<union> snd ` set ms" for f :: "method_spec \<Rightarrow> string" and ms :: "(string \<times> method_spec) list" and acc
    proof (induction ms arbitrary: acc)
      case (Cons x ms)
      obtain k m where x: "x = (k, m)" by fastforce
      have "snd ` set (AList.update (f m) m acc) \<subseteq> insert m (snd ` set acc)" by (induction acc) auto
      then show ?case using Cons.IH [of "AList.update (f m) m acc"] by (simp add: x) blast
    qed simp
    obtain f where "rt_methodPaths (mk_route p methods e) = fold (\<lambda>(k, m). AList.update (f m) m) methods []"
      by (auto simp: mk_route_def buildAPIAliases_def Let_def)
    then have "snd ` set (rt_methodPaths (mk_route p methods e)) \<subseteq> snd ` set methods" using sub [of f methods "[]"] by simp
    then show ?thesis using that by force
  qed
  moreover have "\<exists>p methods. r = mk_route p methods (rt_etag r) \<and> (\<forall>m \<in> snd ` set methods. eTag_of m = rt_etag r)" if reg: "r \<in> set (registerApi path apis)" for r
  proof -
    have e: "rt_etag (mk_route p methods e) = e" for p methods e by (simp add: mk_route_def buildAPIAliases_def Let_def)
    obtain e where r: "r \<in> set (let as = filter (\<lambda>(k, m). eTag_of m = e) apis in
       if e = EDefault then [mk_route path as EDefault] else map (\<lambda>(k, m). mk_route (path @ ms_swaggerApiPath m) [(''key'', m)] e) as)"
      using reg unfolding registerApi_def by auto
    show ?thesis
    proof (cases "e = EDefault")
      case True
      then have "r = mk_route path (filter (\<lambda>(k, m). eTag_of m = EDefault) apis) EDefault" using r by simp
      then show ?thesis using e by (intro exI [of _ path] exI [of _ "filter (\<lambda>(k, m). eTag_of m = EDefault) apis"]) auto
    next
      case False
      then obtain k m where "(k, m) \<in> set apis" "eTag_of m = e" "r = mk_route (path @ ms_swaggerApiPath m) [(''key'', m)] e" using r by auto
      then show ?thesis using e by (intro exI [of _ "path @ ms_swaggerApiPath m"] exI [of _ "[(''key'', m)]"]) simp
    qed
  qed
  ultimately show "\<forall>r \<in> set (registerApi path apis). \<forall>(a, m) \<in> set (rt_methodPaths r). eTag_of m = rt_etag r" by (smt (verit) case_prodI2)
qed

section \<open>Examples\<close>

definition example_spec :: "string \<Rightarrow> json \<Rightarrow> param_spec" where
  "example_spec t d = \<lparr>ps_type = t, ps_required = (d = JUndef), ps_default = d, ps_convert = None\<rparr>"

definition example_method :: method_spec where
  "example_method = \<lparr>ms_version = ''2.0'', ms_params = [(''address'', example_spec ''string'' JUndef), (''limit'', example_spec ''number'' (JV (JNum 10)))],
     ms_paramsRequired = True, ms_validParamPairings = [[''address''], [''publicKey'']], ms_httpMethod = [], ms_swaggerApiPath = ''/stakes/{address}'', ms_rpcMethod = ''get.stakes'',
     ms_source_method = ''indexer.stakes'', ms_source_params = Some [(''address'', ''=,string''), (''limit'', ''='')], ms_definition = DNull, ms_envelope = [], ms_eTag = None\<rparr>"

definition example_request :: object where
  "example_request = [(''address'', JString ''klya'')]"

lemma example_plain_request: "plain_request example_request"
  by (simp add: plain_request_def example_request_def)

theorem accepted_requests_witness:
  "\<exists>out. http_onBeforeCall (\<lambda>_ _. []) example_method example_request = Inr out \<and> prop_of out ''limit'' = JV (JNum 10) \<and> prop_of out ''address'' = JString ''klya''"
proof -
  have d: "distinct (map fst (ms_params example_method))" "distinct (map fst [(''address'', ''=,string''), (''limit'', ''='')])"
    "\<forall>(sp, _) \<in> set [(''address'', ''=,string''), (''limit'', ''='')]. sp \<noteq> []" by (simp_all add: example_method_def)
  have s: "ms_source_params example_method = Some [(''address'', ''=,string''), (''limit'', ''='')]" by (simp add: example_method_def)
  have p: "split_at (CHR '','') ''=,string'' = [''='', ''string'']" "split_at (CHR '','') ''='' = [''='']" by simp_all
  have n: "\<forall>p \<in> set (ms_params example_method). param_value example_request p \<noteq> JV JNull"
    by (simp add: example_method_def example_spec_def param_value_def example_request_def prop_of_def Let_def)
  have sv: "seen True example_request example_method ''limit'' = JV (JNum 10)" "seen True example_request example_method ''address'' = JString ''klya''"
    by (simp_all add: seen_def example_method_def) (simp_all add: example_spec_def param_value_def example_request_def prop_of_def)
  have v: "received True example_request example_method ''limit'' ''='' = JV (JNum 10)" "received True example_request example_method ''address'' ''=,string'' = JString ''klya''"
    by (simp_all add: received_def p Let_def sv convertType_def json_typeof_def)
  have "\<exists>out. http_onBeforeCall (\<lambda>_ _. []) example_method example_request = Inr out"
    using accepted_requests [OF example_plain_request d(1) s d(3,2) n, of "\<lambda>_ _. []"]
    by (simp add: Let_def) (simp add: example_method_def example_request_def example_spec_def validateFromParamPairings_def)
  then obtain out where o: "http_onBeforeCall (\<lambda>_ _. []) example_method example_request = Inr out" by blast
  then have "\<forall>(k, setup) \<in> set [(''address'', ''=,string''), (''limit'', ''='')]. prop_of out k = received True example_request example_method k setup"
    by (rule accepted_requests [OF example_plain_request d(1) s d(3,2) n, unfolded Let_def, THEN conjunct2, THEN conjunct2, THEN conjunct2, THEN spec, THEN mp, THEN conjunct2])
  then show ?thesis using o v by simp
qed

theorem pairings_exact_witness: "validateFromParamPairings True [''address'', ''limit''] [[''address''], [''publicKey'']] = []"
  by (subst pairings_exact) auto

theorem http_rpc_agree_witness: "http_onBeforeCall (\<lambda>_ _. []) example_method example_request = rpc_onBeforeCall (\<lambda>_ _. []) example_method example_request"
proof -
  have "\<forall>(k, v) \<in> set (rp_valid (validateInputParams (\<lambda>_ _. []) example_request example_method)). v \<noteq> JString []"
    by (simp add: report_simps parseAllParams_def parse_param_def example_method_def example_request_def example_spec_def prop_of_def)
  then show ?thesis using http_rpc_agree [of "\<lambda>_ _. []" example_method example_request] by blast
qed

theorem service_params_declared_witness:
  "fst ` set (transformRequest (Some example_method) [(''address'', JString ''a''), (''secret'', JString ''b'')]) \<subseteq> {''address'', ''limit''}"
  using service_params_declared [of example_method "[(''address'', ''=,string''), (''limit'', ''='')]" "[(''address'', JString ''a''), (''secret'', JString ''b'')]"]
  by (simp add: example_method_def)

theorem methods_registered_once_witness:
  "mset (concat (map rt_whitelist (registerApi ''/api'' [(''stakes'', example_method)]))) = {#''indexer.stakes''#}"
  using methods_registered_once [of "''/api''" "[(''stakes'', example_method)]"] by (simp add: example_method_def)

end
