(* ===== verification/Gateway_Responses.thy ===== *)
theory Gateway_Responses
  imports Gateway_Params
begin

text \<open>
  The way of an answer through the gateway, \<^verbatim>\<open>services/gateway/shared\<close>: the mapper that follows the definition of a method (\<^verbatim>\<open>customMapper.js\<close>,
  \<^verbatim>\<open>transformResponse\<close> of \<^verbatim>\<open>apiUtils.js\<close>) and the handlers after a call (\<^verbatim>\<open>registerHttpApi.js\<close>, \<^verbatim>\<open>registerRpcApi.js\<close>).
\<close>

section \<open>Paths\<close>

definition resolvePath :: "json \<Rightarrow> string \<Rightarrow> json" where
  "resolvePath obj path =
     fold (\<lambda>prop subObj. if json_Boolean subObj then (case json_get subObj prop of Inr v \<Rightarrow> v | Inl _ \<Rightarrow> JUndef) else JUndef) (split_at (CHR ''.'') path) obj"

section \<open>The mapper\<close>

text \<open>The bytes of a string, in hexadecimal.\<close>

definition hex_string :: "string \<Rightarrow> string" where
  "hex_string s = concat (map (\<lambda>c. [hex_digit (of_char c div 16), hex_digit (of_char c mod 16)]) s)"

text \<open>
  The table \<^verbatim>\<open>cast\<close>; a type that is not in it is called as a function and throws. \<open>encode\<close> stands for the date formats and
  \<^verbatim>\<open>Buffer.from\<close> of values other than strings.
\<close>

definition cast_type :: "(string \<Rightarrow> json \<Rightarrow> json result) \<Rightarrow> string \<Rightarrow> json \<Rightarrow> json result" where
  "cast_type encode type input =
     (if type = ''number'' then Inr (json_Number input)
      else if type = ''string'' then Inr (JString (json_String input))
      else if type = ''boolean'' then Inr (JV (JBool (input \<noteq> JString ''0'' \<and> json_Boolean input)))
      else if type \<in> {''hex'', ''base64''} \<and> \<not> json_Boolean input then Inr JUndef
      else if type = ''hex'' \<and> json_typeof input = ''string'' then Inr (JString (hex_string (json_String input)))
      else if type \<in> {''isodate'', ''epoch'', ''datetime'', ''hex'', ''base64''} then encode type input
      else Inl TypeError)"

text \<open>A field whose definition is a string: the path of its value, and a type.\<close>

definition map_leaf :: "(string \<Rightarrow> json \<Rightarrow> json result) \<Rightarrow> json \<Rightarrow> json \<Rightarrow> string \<Rightarrow> string \<Rightarrow> json result" where
  "map_leaf encode rootObj subObj key setup =
     (let (path, type) = (case split_at (CHR '','') setup of p # t # _ \<Rightarrow> (p, t) | [p] \<Rightarrow> (p, []) | [] \<Rightarrow> ([], []))
      in bindR (if path = ''='' then json_get subObj key else Inr (resolvePath rootObj path)) (\<lambda>val.
         if (json_Boolean val \<or> val = JV (JNum 0)) \<and> type \<noteq> [] then cast_type encode type val else Inr val))"

text \<open>\<^verbatim>\<open>Object.keys\<close> and the values of a definition, also of a string or an array in its place\<close>

definition def_fields :: "mdef \<Rightarrow> (string \<times> mdef) list result" where
  "def_fields d =
     (case d of
        DObj fs \<Rightarrow> Inr fs
      | DList ds \<Rightarrow> Inr (zip (map show_nat [0..<length ds]) ds)
      | DStr s \<Rightarrow> Inr (zip (map show_nat [0..<length s]) (map (\<lambda>c. DStr [c]) s))
      | DNull \<Rightarrow> Inl TypeError)"

definition data_source :: "json \<Rightarrow> mdef \<Rightarrow> json" where
  "data_source rootObj p = (case p of DStr s \<Rightarrow> if s = [] then rootObj else resolvePath rootObj s | _ \<Rightarrow> JUndef)"

definition isObjectWithValues :: "object \<Rightarrow> bool" where
  "isObjectWithValues obj = list_ex (\<lambda>(k, v). v \<noteq> JUndef) obj"

lemma list_element_smaller: "e \<in> set es \<Longrightarrow> size e < Suc (size_list size es)"
  by (simp add: less_Suc_eq_le size_list_estimation')

lemma field_smaller: "(k, e) \<in> set fs \<Longrightarrow> size e < Suc (size_list (size_prod (\<lambda>_. 0) size) fs)"
  by (induction fs) auto

lemma def_fields_smaller: "def_fields d = Inr fs \<Longrightarrow> (k, e) \<in> set fs \<Longrightarrow> size e < size d \<or> (\<exists>c. e = DStr [c])"
  by (cases d) (auto simp: def_fields_def field_smaller dest!: set_zip_rightD intro: list_element_smaller)

text \<open>The argument \<open>subObj\<close> has the default \<open>rootObj\<close>. What is mapped twice for an element of an array is mapped once here.\<close>

function mapObject :: "(string \<Rightarrow> json \<Rightarrow> json result) \<Rightarrow> json \<Rightarrow> mdef \<Rightarrow> json \<Rightarrow> object result" where
  "mapObject encode rootObj definition subArg =
     (let subObj = (if subArg = JUndef then rootObj else subArg) in
      bindR (def_fields definition) (\<lambda>fields. foldR (\<lambda>(key, d) acc.
        case d of
          DStr setup \<Rightarrow> bindR (map_leaf encode rootObj subObj key setup) (\<lambda>v. Inr (AList.update key v acc))
        | DList [source, innerDef] \<Rightarrow>
            (case data_source rootObj source of
               JArr items \<Rightarrow> bindR (mapR (\<lambda>item. mapObject encode item innerDef JUndef) items) (\<lambda>objs.
                 Inr (AList.update key (JArr (map JObj (filter (\<lambda>obj. obj \<noteq> []) objs))) acc))
             | _ \<Rightarrow> Inr acc)
        | DList [innerDef] \<Rightarrow> bindR (mapObject encode rootObj innerDef rootObj) (\<lambda>obj. Inr (if obj \<noteq> [] then AList.update key (JArr [JObj obj]) acc else acc))
        | DList _ \<Rightarrow> Inr acc
        | _ \<Rightarrow> if json_Boolean rootObj \<and> json_get rootObj key \<noteq> Inr (JV JNull)
               then bindR (json_get subObj key) (\<lambda>subValue. bindR (mapObject encode rootObj d subValue) (\<lambda>obj.
                 Inr (if isObjectWithValues obj then AList.update key (JObj obj) acc else acc)))
               else Inr acc) fields []))"
  by pat_completeness auto
termination
  by (relation "measure (\<lambda>(encode, rootObj, definition, subArg). size definition)") (auto dest: def_fields_smaller)

declare mapObject.simps [simp del]

fun json_of_mdef :: "mdef \<Rightarrow> json" where
  "json_of_mdef (DStr s) = JString s"
| "json_of_mdef (DList ds) = JArr (map json_of_mdef ds)"
| "json_of_mdef (DObj fs) = JObj (map (\<lambda>(k, d). (k, json_of_mdef d)) fs)"
| "json_of_mdef DNull = JV JNull"

text \<open>The first two elements of the definition count; the second gives its first value under the name that the first one has become.\<close>

definition mapArray :: "(string \<Rightarrow> json \<Rightarrow> json result) \<Rightarrow> json \<Rightarrow> mdef list \<Rightarrow> json result" where
  "mapArray encode rootObj definition =
     bindR (case definition of
              [] \<Rightarrow> Inr []
            | DObj fs # _ \<Rightarrow> bindR (mapObject encode rootObj (DObj fs) JUndef) (\<lambda>obj. Inr [JObj obj])
            | d # _ \<Rightarrow> Inr [json_of_mdef d]) (\<lambda>acc.
     case definition of
       _ # DObj fs # _ \<Rightarrow> bindR (mapObject encode rootObj (DObj (map (\<lambda>(k, d). (json_String (hd acc), d)) (take 1 fs))) JUndef) (\<lambda>obj. Inr (JArr (acc @ [JObj obj])))
     | _ \<Rightarrow> Inr (JArr acc))"

definition mapper :: "(string \<Rightarrow> json \<Rightarrow> json result) \<Rightarrow> json \<Rightarrow> mdef \<Rightarrow> json result" where
  "mapper encode data def =
     (if def = DStr ''='' then Inr data
      else case def of DList ds \<Rightarrow> mapArray encode data ds | DObj fs \<Rightarrow> bindR (mapObject encode data def JUndef) (\<lambda>obj. Inr (JObj obj)) | _ \<Rightarrow> Inr (JObj []))"

definition transformResponse :: "(string \<Rightarrow> json \<Rightarrow> json result) \<Rightarrow> method_spec option \<Rightarrow> json \<Rightarrow> json result" where
  "transformResponse encode methodDef data =
     (case methodDef of
        None \<Rightarrow> Inr data
      | Some m \<Rightarrow> bindR (mapper encode data (ms_definition m)) (\<lambda>transformedData. Inr (JObj (spread2 (spread2 [] (ms_envelope m)) (spread_fields transformedData)))))"

section \<open>After a call\<close>

text \<open>An attachment of another kind than a table is never sent: its response stays open.\<close>

datatype http_reply =
    Attachment string string json
  | Open_Response string
  | Reply object "json option" json

text \<open>\<^verbatim>\<open>v && v.k\<close>, as far as it is true\<close>

definition opt_get :: "json \<Rightarrow> string \<Rightarrow> json" where
  "opt_get v k = (if json_Boolean v then (case json_get v k of Inr x \<Rightarrow> x | Inl _ \<Rightarrow> JUndef) else JUndef)"

definition send_file :: "json \<Rightarrow> json \<Rightarrow> http_reply result" where
  "send_file filename content =
     (case filename of
        JV (JStr f) \<Rightarrow> Inr (if has_suffix f ''.xlsx'' \<or> has_suffix f ''.xls'' then Attachment f ''application/vnd.ms-excel'' content
                        else if has_suffix f ''.csv'' then Attachment f ''text/csv'' content else Open_Response f)
      | _ \<Rightarrow> Inl TypeError)"

definition error_message :: "json \<Rightarrow> json \<Rightarrow> json" where
  "error_message status content =
     (if json_typeof content = ''object'' \<and> json_typeof (opt_get content ''error'') = ''string'' then opt_get content ''error''
      else JString (''The request ended up with '' @ json_String status @ '' error''))"

text \<open>\<open>cacheControl\<close> are the directives, if they are switched on, and \<open>StatusCodes\<close> the table of the package of status codes.\<close>

definition http_onAfterCall :: "string option \<Rightarrow> (string \<Rightarrow> json) \<Rightarrow> (string \<Rightarrow> json \<Rightarrow> json result) \<Rightarrow> method_spec option \<Rightarrow> json \<Rightarrow> http_reply result" where
  "http_onAfterCall cacheControl StatusCodes encode methodDef data =
     (let headers = (case cacheControl of Some d \<Rightarrow> [(''Cache-Control'', JString d)] | None \<Rightarrow> []);
          content = opt_get data ''data'';
          filename = opt_get (opt_get data ''meta'') ''filename'';
          given = opt_get data ''status''
      in if json_Boolean content \<and> json_Boolean filename then send_file filename content
         else if json_Boolean content \<and> json_Boolean given
         then let headers = (if given = JString ''SERVICE_UNAVAILABLE'' then [(''Retry-After'', JV (JNum 30))] else headers);
                  status = (if given = JString ''INVALID_PARAMS'' then JString ''BAD_REQUEST'' else given);
                  statusCode = (let c = StatusCodes (json_String status) in if json_Boolean c then c else status)
              in if status \<noteq> JString ''ACCEPTED''
                 then Inr (Reply headers (Some statusCode) (JObj [(''error'', JV (JBool True)), (''message'', error_message status content)]))
                 else bindR (transformResponse encode methodDef data) (\<lambda>body. Inr (Reply headers (Some statusCode) body))
         else bindR (transformResponse encode methodDef data) (\<lambda>body. Inr (Reply headers None body)))"

definition INVALID_REQUEST :: int where "INVALID_REQUEST = -32600"
definition INVALID_PARAMS :: int where "INVALID_PARAMS = -32602"
definition SERVICE_UNAVAILABLE :: int where "SERVICE_UNAVAILABLE = -32002"

datatype rpc_reply = Rpc_Error int json | Rpc_Result json

definition rpc_onAfterCall :: "(string \<Rightarrow> json \<Rightarrow> json result) \<Rightarrow> method_spec option \<Rightarrow> json \<Rightarrow> rpc_reply result" where
  "rpc_onAfterCall encode methodDef data =
     bindR (json_get data ''data'') (\<lambda>content.
     bindR (json_get data ''status'') (\<lambda>status.
       if json_Boolean content \<and> json_Boolean status \<and> status \<noteq> JString ''ACCEPTED''
       then Inr (Rpc_Error (if status = JString ''INVALID_PARAMS'' then INVALID_PARAMS else if status = JString ''SERVICE_UNAVAILABLE'' then SERVICE_UNAVAILABLE else INVALID_REQUEST)
              (opt_get content ''error''))
       else bindR (transformResponse encode methodDef data) (\<lambda>body. Inr (Rpc_Result body))))"

section \<open>The RPC interface\<close>

definition usable_rpc_method :: "method_spec \<Rightarrow> bool" where
  "usable_rpc_method m \<longleftrightarrow> ms_version m = ''2.0'' \<and> ms_source_method m \<noteq> [] \<and> ms_rpcMethod m \<noteq> []"

definition rpc_methods :: "((string \<times> method_spec) list \<times> (string \<times> method_spec) list list) list \<Rightarrow> (string \<times> method_spec) list" where
  "rpc_methods apis = filter (\<lambda>(k, m). usable_rpc_method m) (fold (\<lambda>(k, m). AList.update k m) (concat (map (\<lambda>(common, modules). common @ concat modules) apis)) [])"

text \<open>The description of the interface that \<^verbatim>\<open>apiMeta\<close> collects\<close>

record rpc_route_meta =
  rm_path :: string
  rm_params :: "string list"
  rm_response :: object

record rpc_api =
  ra_aliases :: "(string \<times> string) list"
  ra_whitelist :: "string list"
  ra_methodPaths :: "(string \<times> method_spec) list"

definition configureApi :: "((string \<times> method_spec) list \<times> (string \<times> method_spec) list list) list \<Rightarrow> rpc_api \<times> rpc_route_meta list" where
  "configureApi apis =
     (let methods = map snd (rpc_methods apis)
      in (\<lparr>ra_aliases = fold (\<lambda>m. AList.update (transformPath (ms_rpcMethod m)) (ms_source_method m)) methods [],
           ra_whitelist = map ms_source_method methods,
           ra_methodPaths = fold (\<lambda>m. AList.update (transformPath (ms_rpcMethod m)) m) methods []\<rparr>,
          map (\<lambda>m. \<lparr>rm_path = ms_rpcMethod m, rm_params = map fst (ms_params m),
                    rm_response = spread2 (spread2 [] (ms_envelope m)) (spread_fields (json_of_mdef (ms_definition m)))\<rparr>) methods))"

section \<open>Answers follow their definition\<close>

text \<open>The values that a field of a type can have: a value that is not true, and is not zero, stays as it is.\<close>

definition leaf_conforms :: "string \<Rightarrow> json \<Rightarrow> bool" where
  "leaf_conforms setup v =
     (case split_at (CHR '','') setup of
        p # t # _ \<Rightarrow> \<not> json_Boolean v
          \<or> (if t = ''number'' then json_typeof v = ''number'' else if t = ''string'' then json_typeof v = ''string''
              else if t = ''boolean'' then json_typeof v = ''boolean'' else True)
      | _ \<Rightarrow> True)"

text \<open>All fields of the object are declared, and their values have the declared form, at every depth.\<close>

function conforms :: "mdef \<Rightarrow> object \<Rightarrow> bool" where
  "conforms d obj =
     (case def_fields d of
        Inl _ \<Rightarrow> False
      | Inr decl \<Rightarrow> list_all (\<lambda>(k, v). list_ex (\<lambda>(k', e). k' = k \<and>
          (case e of
             DStr setup \<Rightarrow> leaf_conforms setup v
           | DList [_, innerDef] \<Rightarrow> (case v of JArr vs \<Rightarrow> list_all (\<lambda>w. case w of JObj o' \<Rightarrow> o' \<noteq> [] \<and> conforms innerDef o' | _ \<Rightarrow> False) vs | _ \<Rightarrow> False)
           | DList [innerDef] \<Rightarrow> (case v of JArr [JObj o'] \<Rightarrow> o' \<noteq> [] \<and> conforms innerDef o' | _ \<Rightarrow> False)
           | DObj _ \<Rightarrow> (case v of JObj o' \<Rightarrow> conforms e o' | _ \<Rightarrow> False)
           | _ \<Rightarrow> False)) decl) obj)"
  by pat_completeness auto
termination
  by (relation "measure (\<lambda>(d, obj). size d)") (auto dest: def_fields_smaller)

declare conforms.simps [simp del]

text \<open>One field with its value\<close>

definition field_conforms :: "mdef \<Rightarrow> json \<Rightarrow> bool" where
  "field_conforms e v =
     (case e of
        DStr setup \<Rightarrow> leaf_conforms setup v
      | DList [_, innerDef] \<Rightarrow> (case v of JArr vs \<Rightarrow> list_all (\<lambda>w. case w of JObj o' \<Rightarrow> o' \<noteq> [] \<and> conforms innerDef o' | _ \<Rightarrow> False) vs | _ \<Rightarrow> False)
      | DList [innerDef] \<Rightarrow> (case v of JArr [JObj o'] \<Rightarrow> o' \<noteq> [] \<and> conforms innerDef o' | _ \<Rightarrow> False)
      | DObj _ \<Rightarrow> (case v of JObj o' \<Rightarrow> conforms e o' | _ \<Rightarrow> False)
      | _ \<Rightarrow> False)"

lemma conforms_fields:
  "conforms d obj \<longleftrightarrow> (\<exists>decl. def_fields d = Inr decl \<and> (\<forall>(k, v) \<in> set obj. \<exists>e. (k, e) \<in> set decl \<and> field_conforms e v))"
  unfolding conforms.simps [of d obj] field_conforms_def by (auto simp: list_all_iff list_ex_iff split: sum.splits) fastforce

lemma cast_conforms:
  "cast_type encode t val = Inr v \<Longrightarrow> t \<in> {''number'', ''string'', ''boolean''} \<Longrightarrow> json_typeof v = t"
proof -
  have "js_typeof (js_Number x) = ''number''" for x by (cases x) (auto split: option.splits)
  then show "cast_type encode t val = Inr v \<Longrightarrow> t \<in> {''number'', ''string'', ''boolean''} \<Longrightarrow> json_typeof v = t"
    by (auto simp: cast_type_def json_typeof_def json_Number_def split: json.splits option.splits)
qed

lemma map_leaf_conforms: "map_leaf encode root sub key setup = Inr v \<Longrightarrow> leaf_conforms setup v"
proof -
  assume v: "map_leaf encode root sub key setup = Inr v"
  show "leaf_conforms setup v"
  proof (cases "\<exists>p t ts. split_at (CHR '','') setup = p # t # ts")
    case True
    then obtain p t ts where st: "split_at (CHR '','') setup = p # t # ts" by blast
    then obtain val where val: "v = (val :: json) \<and> (\<not> (json_Boolean val \<or> val = JV (JNum 0)) \<or> t = []) \<or> cast_type encode t val = Inr v"
      using v by (auto simp: map_leaf_def bindR_eq_Inr split: if_splits)
    then show ?thesis using cast_conforms [of encode t val v] st by (auto simp: leaf_conforms_def)
  next
    case False
    then show ?thesis by (auto simp: leaf_conforms_def split: list.splits)
  qed
qed

lemma update_field:
  assumes "\<forall>(k, v) \<in> set acc. \<exists>e. (k, e) \<in> set decl \<and> field_conforms e v" and "(key, e) \<in> set decl" and "field_conforms e v"
  shows "\<forall>(k, v) \<in> set (AList.update key v acc). \<exists>e. (k, e) \<in> set decl \<and> field_conforms e v"
proof -
  have "set (AList.update key v acc) \<subseteq> insert (key, v) (set acc)" by (induction acc) auto
  then show ?thesis using assms by fastforce
qed

lemma mapObject_conforms: "mapObject encode root d sub = Inr obj \<Longrightarrow> conforms d obj"
proof (induction encode root d sub arbitrary: obj rule: mapObject.induct)
  case (1 encode root d subArg)
  let ?sub = "if subArg = JUndef then root else subArg"
  obtain decl where decl: "def_fields d = Inr decl" using "1.prems" by (subst (asm) mapObject.simps) (auto simp: Let_def bindR_eq_Inr)
  let ?P = "\<lambda>acc. \<forall>(k, v) \<in> set acc. \<exists>e. (k, e) \<in> set decl \<and> field_conforms e v"
  have IH1: "(key, DList [i]) \<in> set decl \<Longrightarrow> mapObject encode root i root = Inr o' \<Longrightarrow> conforms i o'" for key i o'
    using "1.IH"(1) [OF refl decl _ refl refl refl refl] by blast
  have IH2: "(key, DList [s, i]) \<in> set decl \<Longrightarrow> data_source root s = JArr items \<Longrightarrow> item \<in> set items \<Longrightarrow> mapObject encode item i JUndef = Inr o' \<Longrightarrow> conforms i o'"
    for key s i items item o' using "1.IH"(2) [OF refl decl _ refl refl refl refl refl] by blast
  have IH3: "(key, e) \<in> set decl \<Longrightarrow> e = DObj fs \<or> e = DNull \<Longrightarrow> json_Boolean root \<and> json_get root key \<noteq> Inr (JV JNull) \<Longrightarrow> json_get ?sub key = Inr v
      \<Longrightarrow> mapObject encode root e v = Inr o' \<Longrightarrow> conforms e o'"
    for key e v o' fs using "1.IH"(3,4) [OF refl decl _ refl] by blast
  have "?P obj"
    using "1.prems" unfolding mapObject.simps [of encode root d subArg] Let_def decl bindR_Inr
  proof (rule foldR_invariant, goal_cases)
    case (2 x acc acc')
    obtain key e where x: "x = (key, e)" by force
    note here = 2(1) [unfolded x] and acc = 2(2) and step = 2(3) [unfolded x prod.case]
    note upd = update_field [OF acc here]
    show ?case
    proof (cases e)
      case (DStr su)
      then obtain v where "map_leaf encode root ?sub key su = Inr v" "acc' = AList.update key v acc" using step by (auto simp: bindR_eq_Inr)
      then show ?thesis using upd [of v] map_leaf_conforms DStr by (simp add: field_conforms_def)
    next
      case (DList ds)
      consider (two) s i where "ds = [s, i]" | (one) i where "ds = [i]" | (rest) "acc' = acc"
        using step DList by (auto split: list.splits)
      then show ?thesis
      proof cases
        case two
        show ?thesis
        proof (cases "data_source root s")
          case (JArr items)
          then obtain objs where objs: "mapR (\<lambda>item. mapObject encode item i JUndef) items = Inr objs"
              and acc': "acc' = AList.update key (JArr (map JObj (filter (\<lambda>obj. obj \<noteq> []) objs))) acc"
            using step DList two by (auto simp: bindR_eq_Inr)
          have "conforms i o'" if "o' \<in> set objs" for o'
            using IH2 mapR_set [OF objs that] here DList two JArr by blast
          then have "field_conforms e (JArr (map JObj (filter (\<lambda>obj. obj \<noteq> []) objs)))"
            by (simp add: field_conforms_def DList two list_all_iff)
          then show ?thesis using upd acc' by blast
        qed (use step DList two acc in auto)
      next
        case one
        then obtain o' where o': "mapObject encode root i root = Inr o'" "acc' = (if o' \<noteq> [] then AList.update key (JArr [JObj o']) acc else acc)"
          using step DList by (auto simp: bindR_eq_Inr)
        then have "conforms i o'" using IH1 here DList one by blast
        then show ?thesis using upd [of "JArr [JObj o']"] o' acc by (auto simp: field_conforms_def DList one)
      qed (use acc in simp)
    next
      case (DObj fs)
      then consider "acc' = acc" | v o' where "json_Boolean root \<and> json_get root key \<noteq> Inr (JV JNull)" "json_get ?sub key = Inr v" "mapObject encode root e v = Inr o'"
          "acc' = (if isObjectWithValues o' then AList.update key (JObj o') acc else acc)"
        using step by (auto simp: bindR_eq_Inr split: if_splits)
      then show ?thesis
      proof cases
        case (2 v o')
        then have "conforms e o'" using IH3 here DObj by blast
        then show ?thesis using upd [of "JObj o'"] 2(4) acc by (auto simp: field_conforms_def DObj)
      qed (use acc in simp)
    next
      case DNull
      then have "acc' = acc" using step by (auto simp: bindR_eq_Inr mapObject.simps [of _ _ DNull] def_fields_def split: if_splits)
      then show ?thesis using acc by simp
    qed
  qed simp
  then show ?case using decl by (simp add: conforms_fields)
qed

section \<open>Properties\<close>

text \<open>
  C33: A service cannot leak a field. Whatever it answers, the object that the gateway sends has, beside the fields of the envelope, only fields of the definition of its
  method, each with a value of the declared form; this holds at every depth of the definition.
\<close>

theorem response_follows_definition:
  assumes "ms_definition m = DObj fs" and "transformResponse encode (Some m) data = Inr r"
  shows "\<exists>obj. conforms (DObj fs) obj \<and> r = JObj (spread2 (spread2 [] (ms_envelope m)) obj)
    \<and> (\<forall>k. k \<notin> fst ` set fs \<longrightarrow> opt_get r k = prop_of (spread2 [] (ms_envelope m)) k)"
proof -
  obtain obj where obj: "mapObject encode data (DObj fs) JUndef = Inr obj" and r: "r = JObj (spread2 (spread2 [] (ms_envelope m)) obj)"
    using assms by (auto simp: transformResponse_def mapper_def spread_fields_def bindR_eq_Inr)
  from obj have c: "conforms (DObj fs) obj" by (rule mapObject_conforms)
  have "map_of (rev obj) k = None" if "k \<notin> fst ` set fs" for k
  proof -
    have "fst ` set obj \<subseteq> fst ` set fs" using c by (force simp: conforms_fields def_fields_def)
    then show ?thesis using that by (auto simp: map_of_eq_None_iff)
  qed
  then have "opt_get r k = prop_of (spread2 [] (ms_envelope m)) k" if "k \<notin> fst ` set fs" for k
    using that by (simp add: r opt_get_def json_Boolean_def json_get_def prop_of_def spread2_def [of _ obj] map_of_updates)
  then show ?thesis using c r by blast
qed

text \<open>
  Both interfaces treat an answer alike: for an answer that is no file, HTTP sends an error object exactly when RPC throws an error, and otherwise both send the same body; a failure
  of the mapper is a failure of both.
\<close>

theorem after_call_agree:
  assumes "json_Boolean data" and "\<not> (json_Boolean (opt_get data ''data'') \<and> json_Boolean (opt_get (opt_get data ''meta'') ''filename''))"
  shows "case rpc_onAfterCall encode m data of
      Inr (Rpc_Result body) \<Rightarrow> \<exists>headers code. http_onAfterCall cc codes encode m data = Inr (Reply headers code body)
    | Inr (Rpc_Error c msg) \<Rightarrow> \<exists>headers code message. http_onAfterCall cc codes encode m data = Inr (Reply headers (Some code) (JObj [(''error'', JV (JBool True)), (''message'', message)]))
        \<and> (json_typeof (opt_get data ''data'') = ''object'' \<and> json_typeof msg = ''string'' \<longrightarrow> message = msg)
    | Inl e \<Rightarrow> http_onAfterCall cc codes encode m data = Inl e"
proof -
  have get: "json_get data k = Inr (opt_get data k)" for k
  proof (cases data)
    case (JV x)
    then show ?thesis using assms(1) by (cases x) (simp_all add: opt_get_def json_get_def json_Boolean_def)
  qed (simp_all add: opt_get_def json_get_def json_Boolean_def)
  show ?thesis
  proof (cases "json_Boolean (opt_get data ''data'') \<and> json_Boolean (opt_get data ''status'') \<and> opt_get data ''status'' \<noteq> JString ''ACCEPTED''")
    case True
    then show ?thesis using assms(2) by (simp add: rpc_onAfterCall_def get http_onAfterCall_def Let_def error_message_def)
  next
    case False
    then show ?thesis using assms(2)
      by (cases "transformResponse encode m data") (auto simp: rpc_onAfterCall_def get http_onAfterCall_def Let_def)
  qed
qed

text \<open>
  A nested object that is missing in an answer is filled from the answer itself: the default of the third argument replaces the missing object by the root, so that fields of the same
  name appear inside an object that the service never sent.
\<close>

theorem missing_object_filled_from_root:
  assumes "prop_of root k = JUndef" and "prop_of root x \<noteq> JUndef"
  shows "mapObject encode (JObj root) (DObj [(k, DObj [(x, DStr ''='')])]) JUndef = Inr [(k, JObj [(x, prop_of root x)])]"
proof -
  have leaf: "map_leaf encode (JObj root) (JObj root) x ''='' = Inr (prop_of root x)"
    by (simp add: map_leaf_def json_get_def)
  have inner: "mapObject encode (JObj root) (DObj [(x, DStr ''='')]) JUndef = Inr [(x, prop_of root x)]"
    by (simp add: mapObject.simps [of _ _ "DObj [(x, DStr ''='')]"] def_fields_def leaf)
  show ?thesis using assms
    by (simp add: mapObject.simps [of _ _ "DObj [(k, DObj [(x, DStr ''='')])]"] def_fields_def json_Boolean_def json_get_def inner isObjectWithValues_def)
qed

text \<open>A file whose name has none of the three known endings is never sent: the response is left open.\<close>

theorem unknown_file_never_sent:
  "http_onAfterCall cc codes encode m (JObj [(''data'', JString (c # content)), (''meta'', JObj [(''filename'', JString ''history.pdf'')])]) = Inr (Open_Response ''history.pdf'')"
  by (simp add: http_onAfterCall_def Let_def opt_get_def json_Boolean_def json_get_def prop_of_def send_file_def has_suffix_def)

section \<open>Examples\<close>

definition example_generator :: mdef where
  "example_generator = DObj [(''name'', DStr ''generatorName,string'')]"

definition example_block_fields :: mdef where
  "example_block_fields = DObj [(''height'', DStr ''=,number''), (''generator'', example_generator)]"

definition example_definition :: "(string \<times> mdef) list" where
  "example_definition = [(''data'', DList [DStr ''data'', example_block_fields])]"

definition example_answer :: json where
  "example_answer = JObj [(''data'', JArr [JObj [(''height'', JString ''12''), (''generatorName'', JString ''genesis_1''), (''secret'', JString ''x'')]])]"

definition example_answering :: method_spec where
  "example_answering = example_method\<lparr>ms_definition := DObj example_definition, ms_envelope := [(''links'', JObj [])]\<rparr>"

definition example_mapped :: object where
  "example_mapped = [(''data'', JArr [JObj [(''height'', JV (JNum 12)), (''generator'', JObj [(''name'', JString ''genesis_1'')])]])]"

lemma example_transformed:
  "transformResponse (\<lambda>_ _. Inl TypeError) (Some example_answering) example_answer = Inr (JObj ((''links'', JObj []) # example_mapped))"
proof -
  let ?item = "JObj [(''height'', JString ''12''), (''generatorName'', JString ''genesis_1''), (''secret'', JString ''x'')]"
  let ?e = "\<lambda>_ _. Inl TypeError"
  note evals = map_leaf_def json_get_def prop_of_def json_Boolean_def resolvePath_def cast_type_def json_typeof_def
  have l1: "map_leaf ?e ?item ?item ''name'' ''generatorName,string'' = Inr (JString ''genesis_1'')" by (simp add: evals)
  have "parse_int ''12'' = Some 12" by code_simp
  then have l2: "map_leaf ?e ?item ?item ''height'' ''=,number'' = Inr (JV (JNum 12))" by (simp add: evals json_Number_def)
  have g: "mapObject ?e ?item example_generator JUndef = Inr [(''name'', JString ''genesis_1'')]"
    by (subst mapObject.simps) (simp add: example_generator_def def_fields_def l1)
  have b: "mapObject ?e ?item example_block_fields JUndef = Inr [(''height'', JV (JNum 12)), (''generator'', JObj [(''name'', JString ''genesis_1'')])]"
    using g by (subst mapObject.simps) (simp add: example_block_fields_def example_generator_def def_fields_def l2 json_Boolean_def json_get_def prop_of_def isObjectWithValues_def)
  have "data_source example_answer (DStr ''data'') = JArr [?item]" by (simp add: data_source_def example_answer_def resolvePath_def json_Boolean_def json_get_def prop_of_def)
  then have "mapObject ?e example_answer (DObj example_definition) JUndef = Inr example_mapped"
    using b by (subst mapObject.simps) (simp add: example_definition_def def_fields_def example_mapped_def)
  then show ?thesis by (simp add: transformResponse_def mapper_def example_answering_def spread_fields_def spread2_def example_mapped_def)
qed

theorem response_follows_definition_witness:
  "opt_get (JObj ((''links'', JObj []) # example_mapped)) ''secret'' = JUndef"
proof -
  have d: "ms_definition example_answering = DObj example_definition" by (simp add: example_answering_def)
  have "''secret'' \<notin> fst ` set example_definition" by (simp add: example_definition_def)
  moreover have "prop_of (spread2 [] (ms_envelope example_answering)) ''secret'' = JUndef" by code_simp
  ultimately show ?thesis using response_follows_definition [OF d example_transformed] by metis
qed

theorem after_call_agree_witness:
  "\<exists>headers code. http_onAfterCall None (\<lambda>_. JUndef) (\<lambda>_ _. Inl TypeError) (Some example_answering) example_answer = Inr (Reply headers code (JObj ((''links'', JObj []) # example_mapped)))"
proof -
  have "rpc_onAfterCall (\<lambda>_ _. Inl TypeError) (Some example_answering) example_answer = Inr (Rpc_Result (JObj ((''links'', JObj []) # example_mapped)))"
    using example_transformed by (simp add: rpc_onAfterCall_def example_answer_def json_get_def prop_of_def json_Boolean_def)
  moreover have "json_Boolean example_answer" "\<not> (json_Boolean (opt_get example_answer ''data'') \<and> json_Boolean (opt_get (opt_get example_answer ''meta'') ''filename''))"
    by (simp_all add: example_answer_def json_Boolean_def opt_get_def json_get_def prop_of_def)
  ultimately show ?thesis using after_call_agree [where data = example_answer and encode = "\<lambda>_ _. Inl TypeError" and m = "Some example_answering" and cc = None and codes = "\<lambda>_. JUndef"]
    by simp
qed

theorem missing_object_filled_from_root_witness:
  "mapObject (\<lambda>_ _. Inl TypeError) (JObj [(''name'', JString ''a'')]) (DObj [(''generator'', DObj [(''name'', DStr ''='')])]) JUndef = Inr [(''generator'', JObj [(''name'', JString ''a'')])]"
  using missing_object_filled_from_root [of "[(''name'', JString ''a'')]" "''generator''" "''name''"] by (simp add: prop_of_def)

end
