(* ===== verification/Dex_Processors.thy ===== *)
theory Dex_Processors
  imports Events Pool_Address
begin

text \<open>
  The DEX commands of \<^verbatim>\<open>indexer/transactionProcessor/dex\<close>: for every command the effect of
  applying a transaction to the index and of reverting it when its block is deleted, with
  \<^verbatim>\<open>indexer/utils/dexSync.js\<close>. The block's database transaction is \<^verbatim>\<open>dbTrx\<close>, the
  \<open>True\<close> of the table operations; operations the code calls without it pass \<open>False\<close>. Calls of the
  node, of the cryptography library and of the decimal arithmetic library are fields of \<open>env\<close>.
  Logging is left out, except that a property read inside a log message may throw.
\<close>

section \<open>State, transactions and environment\<close>

text \<open>\<open>indexed\<close> are the addresses handed to \<^verbatim>\<open>indexAccountAddress\<close>, \<open>uploads\<close> the objects
  handed to \<^verbatim>\<open>nftStorageUploadQueue\<close>.\<close>

record istate =
  st_db :: db
  indexed :: "jsval list"
  uploads :: "row list"

record tx =
  tx_id :: string
  executionStatus :: string
  senderPublicKey :: string
  tx_params :: row

record env =
  getKlayr32AddressFromAddress :: "buffer \<Rightarrow> string"
  getAddressFromKlayr32Address :: "string \<Rightarrow> buffer result"
  getKlayr32AddressFromPublicKeyHelper :: "buffer \<Rightarrow> string"
  hash :: "buffer \<Rightarrow> buffer"
  decimal_price :: "jsval \<Rightarrow> jsval \<Rightarrow> jsval \<Rightarrow> bool \<Rightarrow> jsval"
  dex_getPool :: "pool_key \<Rightarrow> row result"
  dex_getMetadata :: "string \<Rightarrow> string \<Rightarrow> row result"
  getTokenFactoriesMeta :: "jsval \<Rightarrow> jsval list result"

text \<open>\<^verbatim>\<open>tickFormatter.getPriceAtTick\<close>: the decimals default to 8; \<open>decimal_price\<close> is the power of
  1.0001 that the decimal library computes and rounds. \<open>getTokenFactoriesMeta\<close> gives the logo of each
  entry of the answer.\<close>

definition getPriceAtTick :: "env \<Rightarrow> jsval \<Rightarrow> jsval \<Rightarrow> jsval \<Rightarrow> bool \<Rightarrow> jsval" where
  "getPriceAtTick env tick decimals0 decimals1 inverted =
     decimal_price env tick (if decimals0 = JUndefined then JNum 8 else decimals0)
       (if decimals1 = JUndefined then JNum 8 else decimals1) inverted"

definition with_db :: "(db \<Rightarrow> db result) \<Rightarrow> istate \<Rightarrow> istate result" where
  "with_db f st = bindR (f (st_db st)) (\<lambda>d. Inr (st\<lparr>st_db := d\<rparr>))"

definition indexAccountAddress :: "jsval \<Rightarrow> istate \<Rightarrow> istate" where
  "indexAccountAddress a st = st\<lparr>indexed := indexed st @ [a]\<rparr>"

text \<open>A property read on \<^verbatim>\<open>undefined\<close> throws; \<open>deref\<close> is the read on a search result, \<open>str_param\<close>
  a parameter that is used as a string.\<close>

definition deref :: "'a option \<Rightarrow> 'a result" where
  "deref x = (case x of Some a \<Rightarrow> Inr a | None \<Rightarrow> Inl TypeError)"

definition str_param :: "tx \<Rightarrow> string \<Rightarrow> string result" where
  "str_param tx c = (case field (tx_params tx) c of JStr s \<Rightarrow> Inr s | _ \<Rightarrow> Inl TypeError)"

definition senderAddress :: "env \<Rightarrow> tx \<Rightarrow> jsval" where
  "senderAddress env tx = JStr (getKlayr32AddressFromPublicKeyHelper env (hex_decode (senderPublicKey tx)))"

definition dex_event :: "event option list \<Rightarrow> string \<Rightarrow> tx \<Rightarrow> event option result" where
  "dex_event events name tx = parseSingleEvent events ''dex'' name (Some (tx_id tx))"

text \<open>\<^verbatim>\<open>const [token] = await tokenTable.find(...)\<close>\<close>

definition token_row :: "string \<Rightarrow> string list \<Rightarrow> bool \<Rightarrow> db \<Rightarrow> row option result" where
  "token_row tokenId columns dbTrx d =
     bindR (find_tbl dexTokenTableSchema [(''tokenId'', PVal (JStr tokenId)), (''limit'', PVal (JNum 1))] (Some columns) dbTrx d) (\<lambda>rs.
       Inr (case rs of x # _ \<Rightarrow> Some x | [] \<Rightarrow> None))"

section \<open>Synchronisation of a pool with the node\<close>

definition syncPoolData :: "env \<Rightarrow> string \<Rightarrow> istate \<Rightarrow> istate result" where
  "syncPoolData env poolAddress st =
     bindR (decodePoolAddress (getAddressFromKlayr32Address env) (AStr poolAddress)) (\<lambda>pool.
     bindR (dex_getPool env pool) (\<lambda>poolData.
     let updates = [(''liquidity'', field poolData ''liquidity''), (''tick'', field poolData ''tick'')] in
     bindR (with_db (update_tbl poolTableSchema [(''poolAddress'', PVal (JStr poolAddress)), (''inverted'', PVal (JBool False))] updates False) st)
     (with_db (update_tbl poolTableSchema [(''poolAddress'', PVal (JStr poolAddress)), (''inverted'', PVal (JBool True))] updates False))))"

section \<open>Rows written by the liquidity commands\<close>

definition tvl_row :: "int \<Rightarrow> tx \<Rightarrow> jsval \<Rightarrow> string \<Rightarrow> int \<Rightarrow> jsval \<Rightarrow> string \<Rightarrow> row" where
  "tvl_row timestamp tx sender poolAddress index amount tokenId =
     [(''transactionId'', JStr (tx_id tx)), (''index'', JNum index), (''time'', JNum timestamp), (''sender'', sender),
      (''poolAddress'', JStr poolAddress), (''amount'', amount), (''tokenId'', JStr tokenId)]"

definition tick_row :: "string \<Rightarrow> jsval \<Rightarrow> jsval \<Rightarrow> row" where
  "tick_row poolAddress tick net =
     [(''poolAddress'', JStr poolAddress), (''tick'', js_Number tick), (''liquidityNet'', js_Number net)]"

text \<open>\<^verbatim>\<open>Number(`-${x}`)\<close>\<close>

definition neg_Number :: "jsval \<Rightarrow> jsval" where
  "neg_Number v = js_Number (JStr (CHR ''-'' # js_String v))"

text \<open>The two tick rows, with the net liquidity after or (\<^verbatim>\<open>Before\<close>) before the event; both calls
  lack the transaction.\<close>

definition upsert_ticks :: "string \<Rightarrow> event \<Rightarrow> string \<Rightarrow> istate \<Rightarrow> istate result" where
  "upsert_ticks poolAddress e suffix st =
     bindR (with_db (upsert tickTableSchema [tick_row poolAddress (data e ''tickLower'') (data e (''lowerLiquidityNet'' @ suffix))] False) st)
     (with_db (upsert tickTableSchema [tick_row poolAddress (data e ''tickUpper'') (data e (''upperLiquidityNet'' @ suffix))] False))"

text \<open>The TVL rows of both tokens are written or deleted; the log message after each step reads the
  symbol of the token.\<close>

definition upsert_tvl :: "row \<Rightarrow> row option \<Rightarrow> istate \<Rightarrow> istate result" where
  "upsert_tvl r token st = bindR (with_db (upsert tvlTableSchema [r] True) st) (\<lambda>st. bindR (deref token) (\<lambda>_. Inr st))"

definition row_params :: "row \<Rightarrow> params" where
  "row_params r = map (\<lambda>(c, v). (c, PVal v)) r"

definition delete_tvl :: "row \<Rightarrow> row option \<Rightarrow> istate \<Rightarrow> istate result" where
  "delete_tvl r token st = bindR (with_db (deleteByParams tvlTableSchema (row_params r) True) st) (\<lambda>st. bindR (deref token) (\<lambda>_. Inr st))"

definition add_liquidity :: "jsval \<Rightarrow> int result" where
  "add_liquidity v = (case js_Number v of JNum n \<Rightarrow> Inr n | _ \<Rightarrow> Inl (SqlError ''Unknown column NaN''))"

definition finish_liquidity :: "env \<Rightarrow> jsval \<Rightarrow> string \<Rightarrow> istate \<Rightarrow> istate result" where
  "finish_liquidity env sender poolAddress st =
     syncPoolData env poolAddress (indexAccountAddress (JStr poolAddress) (indexAccountAddress sender st))"

section \<open>increaseLiquidity and decreaseLiquidity\<close>

definition applyIncreaseLiquidity :: "env \<Rightarrow> int \<Rightarrow> tx \<Rightarrow> event option list \<Rightarrow> istate \<Rightarrow> istate result" where
  "applyIncreaseLiquidity env timestamp tx events st =
     (if executionStatus tx \<noteq> ''successful'' then Inr st else
      bindR (dex_event events ''mint'' tx) (\<lambda>mintEvent.
      bindR (dex_event events ''increaseLiquidity'' tx) (\<lambda>increaseLiquidityEvent.
      bindR (str_param tx ''poolAddress'') (\<lambda>poolAddress.
      bindR (decodePoolAddress (getAddressFromKlayr32Address env) (AStr poolAddress)) (\<lambda>poolKey.
      let sender = senderAddress env tx in
      bindR (token_row (token0 poolKey) [''symbol''] True (st_db st)) (\<lambda>t0.
      bindR (token_row (token1 poolKey) [''symbol''] True (st_db st)) (\<lambda>t1.
      bindR (deref increaseLiquidityEvent) (\<lambda>liq.
      bindR (upsert_tvl (tvl_row timestamp tx sender poolAddress 0 (js_Number (data liq ''amount0'')) (token0 poolKey)) t0 st) (\<lambda>st.
      bindR (upsert_tvl (tvl_row timestamp tx sender poolAddress 1 (js_Number (data liq ''amount1'')) (token1 poolKey)) t1 st) (\<lambda>st.
      bindR (deref mintEvent) (\<lambda>ticks.
      bindR (upsert_ticks poolAddress ticks '''' st) (\<lambda>st.
      bindR (add_liquidity (data liq ''liquidity'')) (\<lambda>n.
      bindR (with_db (increment positionTableSchema ''liquidity'' n [(''tokenId'', data liq ''tokenId'')] True) st)
      (finish_liquidity env sender poolAddress))))))))))))))"

definition revertIncreaseLiquidity :: "env \<Rightarrow> int \<Rightarrow> tx \<Rightarrow> event option list \<Rightarrow> istate \<Rightarrow> istate result" where
  "revertIncreaseLiquidity env timestamp tx events st =
     (if executionStatus tx \<noteq> ''successful'' then Inr st else
      bindR (dex_event events ''mint'' tx) (\<lambda>mintEvent.
      bindR (dex_event events ''increaseLiquidity'' tx) (\<lambda>increaseLiquidityEvent.
      bindR (str_param tx ''poolAddress'') (\<lambda>poolAddress.
      bindR (decodePoolAddress (getAddressFromKlayr32Address env) (AStr poolAddress)) (\<lambda>poolKey.
      let sender = senderAddress env tx in
      bindR (token_row (token0 poolKey) [''symbol''] True (st_db st)) (\<lambda>t0.
      bindR (token_row (token1 poolKey) [''symbol''] True (st_db st)) (\<lambda>t1.
      bindR (deref increaseLiquidityEvent) (\<lambda>liq.
      bindR (delete_tvl (tvl_row timestamp tx sender poolAddress 0 (js_Number (data liq ''amount0'')) (token0 poolKey)) t0 st) (\<lambda>st.
      bindR (delete_tvl (tvl_row timestamp tx sender poolAddress 1 (js_Number (data liq ''amount1'')) (token1 poolKey)) t1 st) (\<lambda>st.
      bindR (deref mintEvent) (\<lambda>ticks.
      bindR (upsert_ticks poolAddress ticks ''Before'' st) (\<lambda>st.
      bindR (add_liquidity (data liq ''liquidity'')) (\<lambda>n.
      bindR (with_db (decrement positionTableSchema ''liquidity'' n [(''tokenId'', data liq ''tokenId'')] True) st)
      (finish_liquidity env sender poolAddress))))))))))))))"

definition applyDecreaseLiquidity :: "env \<Rightarrow> int \<Rightarrow> tx \<Rightarrow> event option list \<Rightarrow> istate \<Rightarrow> istate result" where
  "applyDecreaseLiquidity env timestamp tx events st =
     (if executionStatus tx \<noteq> ''successful'' then Inr st else
      bindR (dex_event events ''burn'' tx) (\<lambda>burnEvent.
      bindR (dex_event events ''decreaseLiquidity'' tx) (\<lambda>decreaseLiquidityEvent.
      bindR (str_param tx ''poolAddress'') (\<lambda>poolAddress.
      bindR (decodePoolAddress (getAddressFromKlayr32Address env) (AStr poolAddress)) (\<lambda>poolKey.
      let sender = senderAddress env tx in
      bindR (token_row (token0 poolKey) [''symbol''] True (st_db st)) (\<lambda>t0.
      bindR (token_row (token1 poolKey) [''symbol''] True (st_db st)) (\<lambda>t1.
      bindR (deref decreaseLiquidityEvent) (\<lambda>liq.
      bindR (upsert_tvl (tvl_row timestamp tx sender poolAddress 0 (neg_Number (data liq ''amount0'')) (token0 poolKey)) t0 st) (\<lambda>st.
      bindR (upsert_tvl (tvl_row timestamp tx sender poolAddress 1 (neg_Number (data liq ''amount1'')) (token1 poolKey)) t1 st) (\<lambda>st.
      bindR (deref burnEvent) (\<lambda>ticks.
      bindR (upsert_ticks poolAddress ticks '''' st) (\<lambda>st.
      bindR (add_liquidity (data liq ''liquidity'')) (\<lambda>n.
      bindR (with_db (decrement positionTableSchema ''liquidity'' n [(''tokenId'', data liq ''tokenId'')] True) st)
      (finish_liquidity env sender poolAddress))))))))))))))"

definition revertDecreaseLiquidity :: "env \<Rightarrow> int \<Rightarrow> tx \<Rightarrow> event option list \<Rightarrow> istate \<Rightarrow> istate result" where
  "revertDecreaseLiquidity env timestamp tx events st =
     (if executionStatus tx \<noteq> ''successful'' then Inr st else
      bindR (dex_event events ''burn'' tx) (\<lambda>burnEvent.
      bindR (dex_event events ''decreaseLiquidity'' tx) (\<lambda>decreaseLiquidityEvent.
      bindR (str_param tx ''poolAddress'') (\<lambda>poolAddress.
      bindR (decodePoolAddress (getAddressFromKlayr32Address env) (AStr poolAddress)) (\<lambda>poolKey.
      let sender = senderAddress env tx in
      bindR (token_row (token0 poolKey) [''symbol''] True (st_db st)) (\<lambda>t0.
      bindR (token_row (token1 poolKey) [''symbol''] True (st_db st)) (\<lambda>t1.
      bindR (deref decreaseLiquidityEvent) (\<lambda>liq.
      bindR (delete_tvl (tvl_row timestamp tx sender poolAddress 0 (neg_Number (data liq ''amount0'')) (token0 poolKey)) t0 st) (\<lambda>st.
      bindR (delete_tvl (tvl_row timestamp tx sender poolAddress 1 (neg_Number (data liq ''amount1'')) (token1 poolKey)) t1 st) (\<lambda>st.
      bindR (deref burnEvent) (\<lambda>ticks.
      bindR (upsert_ticks poolAddress ticks ''Before'' st) (\<lambda>st.
      bindR (add_liquidity (data liq ''liquidity'')) (\<lambda>n.
      bindR (with_db (increment positionTableSchema ''liquidity'' n [(''tokenId'', data liq ''tokenId'')] True) st)
      (finish_liquidity env sender poolAddress))))))))))))))"

section \<open>mint and burn\<close>

text \<open>\<^verbatim>\<open>getKlayr32AddressFromHexAddress(computePoolAddress(poolKey))\<close>; the argument is a Buffer already.\<close>

definition pool_address :: "env \<Rightarrow> pool_key \<Rightarrow> string result" where
  "pool_address env key = bindR (computePoolAddress key) (\<lambda>b. Inr (getKlayr32AddressFromAddress env b))"

definition tx_pool_key :: "tx \<Rightarrow> pool_key result" where
  "tx_pool_key tx = bindR (str_param tx ''token0'') (\<lambda>a. bindR (str_param tx ''token1'') (\<lambda>b. bindR (str_param tx ''fee'') (\<lambda>f. getPoolKey a b f)))"

definition event_nft :: "event \<Rightarrow> nft_id result" where
  "event_nft e = (case data e ''tokenId'' of JStr s \<Rightarrow> decodeNFTId s | _ \<Rightarrow> Inl TypeError)"

definition position_row :: "row \<Rightarrow> event \<Rightarrow> event \<Rightarrow> event \<Rightarrow> nft_id \<Rightarrow> row" where
  "position_row metadata mint liq uri nft =
     [(''tokenId'', data liq ''tokenId''), (''collectionId'', JStr (collectionId nft)), (''owner'', data liq ''ownerAddress''),
      (''name'', field metadata ''name''), (''description'', field metadata ''description''), (''image'', field metadata ''image''),
      (''tickUpper'', data mint ''tickUpper''), (''tickLower'', data mint ''tickLower''),
      (''liquidity'', js_Number (data liq ''liquidity'')), (''tokenURI'', data uri ''tokenURI'')]"

definition applyMint :: "env \<Rightarrow> int \<Rightarrow> tx \<Rightarrow> event option list \<Rightarrow> istate \<Rightarrow> istate result" where
  "applyMint env timestamp tx events st =
     (if executionStatus tx \<noteq> ''successful'' then Inr st else
      bindR (dex_event events ''mint'' tx) (\<lambda>mintEvent.
      bindR (dex_event events ''tokenURICreated'' tx) (\<lambda>tokenUriCreatedEvent.
      bindR (dex_event events ''increaseLiquidity'' tx) (\<lambda>increaseLiquidityEvent.
      bindR (tx_pool_key tx) (\<lambda>poolKey.
      bindR (pool_address env poolKey) (\<lambda>poolAddress.
      let sender = senderAddress env tx in
      bindR (deref increaseLiquidityEvent) (\<lambda>liq.
      bindR (event_nft liq) (\<lambda>nft.
      bindR (dex_getMetadata env poolAddress (show_nat (nft_index nft))) (\<lambda>metadata.
      let st = st\<lparr>uploads := uploads st @ [metadata]\<rparr> in
      bindR (deref mintEvent) (\<lambda>mint.
      bindR (deref tokenUriCreatedEvent) (\<lambda>uri.
      bindR (with_db (upsert positionTableSchema [position_row metadata mint liq uri nft] True) st) (\<lambda>st.
      bindR (token_row (token0 poolKey) [''symbol''] True (st_db st)) (\<lambda>t0.
      bindR (token_row (token1 poolKey) [''symbol''] True (st_db st)) (\<lambda>t1.
      bindR (upsert_tvl (tvl_row timestamp tx sender poolAddress 0 (js_Number (data liq ''amount0'')) (token0 poolKey)) t0 st) (\<lambda>st.
      bindR (upsert_tvl (tvl_row timestamp tx sender poolAddress 1 (js_Number (data liq ''amount1'')) (token1 poolKey)) t1 st) (\<lambda>st.
      bindR (upsert_ticks poolAddress mint '''' st)
      (finish_liquidity env sender poolAddress)))))))))))))))))"

definition revertMint :: "env \<Rightarrow> int \<Rightarrow> tx \<Rightarrow> event option list \<Rightarrow> istate \<Rightarrow> istate result" where
  "revertMint env timestamp tx events st =
     (if executionStatus tx \<noteq> ''successful'' then Inr st else
      bindR (dex_event events ''mint'' tx) (\<lambda>mintEvent.
      bindR (dex_event events ''increaseLiquidity'' tx) (\<lambda>increaseLiquidityEvent.
      bindR (deref increaseLiquidityEvent) (\<lambda>liq.
      bindR (with_db (deleteByPrimaryKey positionTableSchema [Scalar (data liq ''tokenId'')] True) st) (\<lambda>st.
      bindR (tx_pool_key tx) (\<lambda>poolKey.
      bindR (pool_address env poolKey) (\<lambda>poolAddress.
      let sender = senderAddress env tx in
      bindR (token_row (token0 poolKey) [''symbol''] True (st_db st)) (\<lambda>t0.
      bindR (token_row (token1 poolKey) [''symbol''] True (st_db st)) (\<lambda>t1.
      bindR (delete_tvl (tvl_row timestamp tx sender poolAddress 0 (js_Number (data liq ''amount0'')) (token0 poolKey)) t0 st) (\<lambda>st.
      bindR (delete_tvl (tvl_row timestamp tx sender poolAddress 1 (js_Number (data liq ''amount1'')) (token1 poolKey)) t1 st) (\<lambda>st.
      bindR (deref mintEvent) (\<lambda>mint.
      bindR (upsert_ticks poolAddress mint ''Before'' st)
      (finish_liquidity env sender poolAddress)))))))))))))"

definition applyBurn :: "env \<Rightarrow> int \<Rightarrow> tx \<Rightarrow> event option list \<Rightarrow> istate \<Rightarrow> istate result" where
  "applyBurn env timestamp tx events st =
     (if executionStatus tx \<noteq> ''successful'' then Inr st else
      bindR (dex_event events ''tokenURIDestroyed'' tx) (\<lambda>ev.
      bindR (deref ev) (\<lambda>e.
      with_db (upsert positionTableSchema [[(''tokenId'', data e ''tokenId''), (''owner'', JNull)]] True) st)))"

definition revertBurn :: "env \<Rightarrow> int \<Rightarrow> tx \<Rightarrow> event option list \<Rightarrow> istate \<Rightarrow> istate result" where
  "revertBurn env timestamp tx events st =
     (if executionStatus tx \<noteq> ''successful'' then Inr st else
      bindR (dex_event events ''tokenURIDestroyed'' tx) (\<lambda>ev.
      bindR (deref ev) (\<lambda>e.
      with_db (upsert positionTableSchema [[(''tokenId'', data e ''tokenId''), (''owner'', senderAddress env tx)]] True) st)))"

section \<open>collect\<close>

definition applyCollect :: "env \<Rightarrow> int \<Rightarrow> tx \<Rightarrow> event option list \<Rightarrow> istate \<Rightarrow> istate result" where
  "applyCollect env timestamp tx events st =
     (if executionStatus tx \<noteq> ''successful'' then Inr st else
      Inr (indexAccountAddress (field (tx_params tx) ''poolAddress'')
            (indexAccountAddress (field (tx_params tx) ''recipient'') st)))"

definition revertCollect :: "env \<Rightarrow> int \<Rightarrow> tx \<Rightarrow> event option list \<Rightarrow> istate \<Rightarrow> istate result" where
  "revertCollect env timestamp tx events st =
     (if executionStatus tx \<noteq> ''successful'' then Inr st else
      Inr (indexAccountAddress (field (tx_params tx) ''poolAddress'')
            (indexAccountAddress (field (tx_params tx) ''recipient'') st)))"

section \<open>createPool\<close>

definition register_token :: "env \<Rightarrow> event \<Rightarrow> istate \<Rightarrow> istate result" where
  "register_token env e st =
     (let logo = (case getTokenFactoriesMeta env (data e ''tokenId'') of Inr (l # _) \<Rightarrow> l | _ \<Rightarrow> JNull)
      in with_db (upsert dexTokenTableSchema [[(''tokenId'', data e ''tokenId''), (''symbol'', data e ''symbol''),
           (''decimal'', data e ''decimal''), (''logo'', logo)]] True) st)"

text \<open>The token is looked up outside the transaction; the fallback is the event object itself, on
  which \<^verbatim>\<open>decimal\<close> is not defined.\<close>

definition token_decimal :: "event list \<Rightarrow> event \<Rightarrow> string \<Rightarrow> db \<Rightarrow> jsval option result" where
  "token_decimal registered created c d =
     bindR (find_tbl dexTokenTableSchema [(''tokenId'', PVal (data created c)), (''limit'', PVal (JNum 1))] (Some [''decimal'']) False d) (\<lambda>rs.
       Inr (case rs of
              r # _ \<Rightarrow> Some (row_get r ''decimal'')
            | [] \<Rightarrow> (if List.find (\<lambda>t. data t ''tokenId'' = data created c) registered \<noteq> None then Some JUndefined else None)))"

definition pool_table_row :: "env \<Rightarrow> int \<Rightarrow> event \<Rightarrow> event \<Rightarrow> string \<Rightarrow> string \<Rightarrow> jsval \<Rightarrow> jsval \<Rightarrow> bool \<Rightarrow> row" where
  "pool_table_row env timestamp created initialized collId feeHex dec0 dec1 inverted =
     [(''token0'', data created (if inverted then ''token1'' else ''token0'')),
      (''token1'', data created (if inverted then ''token0'' else ''token1'')),
      (''fee'', js_Number (data created ''fee'')), (''inverted'', JBool inverted), (''created'', JNum timestamp),
      (''poolAddress'', data created ''poolAddress''), (''collectionId'', JStr collId), (''feeHex'', JStr feeHex),
      (''tickSpacing'', data created ''tickSpacing''), (''tick'', data initialized ''tick''), (''liquidity'', JNum 0),
      (''price'', getPriceAtTick env (data initialized ''tick'') dec0 dec1 inverted)]"

definition created_pool_id :: "env \<Rightarrow> event \<Rightarrow> string result" where
  "created_pool_id env created = (case data created ''poolAddress'' of
     JStr s \<Rightarrow> computePoolId (getAddressFromKlayr32Address env) (hash env) (AStr s) | _ \<Rightarrow> Inl TypeError)"

definition applyCreatePool :: "env \<Rightarrow> int \<Rightarrow> tx \<Rightarrow> event option list \<Rightarrow> istate \<Rightarrow> istate result" where
  "applyCreatePool env timestamp tx events st =
     (if executionStatus tx \<noteq> ''successful'' then Inr st else
      bindR (parseEvents events ''dex'' ''tokenRegistered'' (Some (tx_id tx))) (\<lambda>registered.
      bindR (foldR (register_token env) registered st) (\<lambda>st.
      bindR (dex_event events ''poolCreated'' tx) (\<lambda>poolCreated.
      bindR (dex_event events ''poolInitialized'' tx) (\<lambda>poolInitialized.
      bindR (deref poolCreated) (\<lambda>created.
      bindR (writeUIntBE (js_parseInt (js_String (data created ''fee''))) 3) (\<lambda>feeBuf.
      bindR (token_decimal registered created ''token0'' (st_db st)) (\<lambda>t0.
      bindR (token_decimal registered created ''token1'' (st_db st)) (\<lambda>t1.
      bindR (created_pool_id env created) (\<lambda>collId.
      bindR (deref poolInitialized) (\<lambda>initialized.
      bindR (deref t0) (\<lambda>dec0.
      bindR (deref t1) (\<lambda>dec1.
      bindR (with_db (upsert poolTableSchema [pool_table_row env timestamp created initialized collId (hex_encode feeBuf) dec0 dec1 False] True) st)
      (with_db (upsert poolTableSchema [pool_table_row env timestamp created initialized collId (hex_encode feeBuf) dec0 dec1 True] True)))))))))))))))"

definition revertCreatePool :: "env \<Rightarrow> int \<Rightarrow> tx \<Rightarrow> event option list \<Rightarrow> istate \<Rightarrow> istate result" where
  "revertCreatePool env timestamp tx events st =
     (if executionStatus tx \<noteq> ''successful'' then Inr st else
      bindR (parseEvents events ''dex'' ''tokenRegistered'' (Some (tx_id tx))) (\<lambda>registered.
      bindR (foldR (\<lambda>e. with_db (deleteByPrimaryKey dexTokenTableSchema [Scalar (data e ''tokenId'')] True)) registered st) (\<lambda>st.
      bindR (dex_event events ''poolCreated'' tx) (\<lambda>poolCreated.
      bindR (deref poolCreated) (\<lambda>created.
      bindR (with_db (deleteByPrimaryKey poolTableSchema
               [Scalar (data created ''token0''), Scalar (data created ''token1''), Scalar (js_Number (data created ''fee''))] True) st)
      (with_db (deleteByPrimaryKey poolTableSchema
               [Scalar (data created ''token1''), Scalar (data created ''token0''), Scalar (js_Number (data created ''fee''))] True)))))))"

section \<open>The statements behind the operations\<close>

lemma tvl_names: "tableName tvlTableSchema = ''tvl''" "tableName tickTableSchema = ''tick''"
  "tableName positionTableSchema = ''position''" "tableName poolTableSchema = ''pool''" "tableName dexTokenTableSchema = ''registered_dex_token''"
  by (simp_all add: schema_defs)

text \<open>A row of the TVL table with a numeric amount is stored as it is given.\<close>

abbreviation tvl_cells :: "int \<Rightarrow> tx \<Rightarrow> string \<Rightarrow> string \<Rightarrow> int \<Rightarrow> int \<Rightarrow> string \<Rightarrow> row" where
  "tvl_cells ts tx s pa i a tk \<equiv> tvl_row ts tx (JStr s) pa i (JNum a) tk"

lemma fill_tvl: "fill_row tvlTableSchema (tvl_cells ts tx s pa i a tk) = tvl_cells ts tx s pa i a tk"
  by (simp add: fill_row_def tvl_row_def schema_defs)

lemma row_key_tvl: "row_key tvlTableSchema (tvl_cells ts tx s pa i a tk) = [JStr (tx_id tx), JNum i]"
  by (simp add: row_key_def tvl_row_def schema_defs row_get_def)

lemma new_key_tvl: "new_key tvlTableSchema (tvl_cells ts tx s pa i a tk) = [JStr (tx_id tx), JNum i]"
  unfolding new_key_def fill_tvl by (rule row_key_tvl)

lemma upsert_tvl_stmt:
  "upsert_tvl (tvl_cells ts tx s pa i a tk) (Some t) st =
     Inr (st\<lparr>st_db := run_stmt ''tvl'' True (sql_insert_merge tvlTableSchema (tvl_cells ts tx s pa i a tk)) (st_db st)\<rparr>)"
proof -
  have "mapRowsBySchema [tvl_cells ts tx s pa i a tk] (schema tvlTableSchema) = Inr [tvl_cells ts tx s pa i a tk]"
    by (simp add: tvl_row_def schema_defs cast_def getValue_def)
  moreover have "not_null_ok tvlTableSchema (tvl_cells ts tx s pa i a tk)"
    unfolding not_null_ok_def fill_tvl by (simp add: tvl_row_def schema_defs row_get_def)
  ultimately show ?thesis by (simp add: upsert_tvl_def with_db_def upsert_def tvl_names deref_def)
qed

lemma delete_tvl_stmt:
  "delete_tvl (tvl_cells ts tx s pa i a tk) (Some t) st =
     Inr (st\<lparr>st_db := run_stmt ''tvl'' True (sql_delete (eq_cond (tvl_cells ts tx s pa i a tk))) (st_db st)\<rparr>)"
proof -
  have "queryBuilder False (row_params (tvl_cells ts tx s pa i a tk)) = Inr (eq_cond (tvl_cells ts tx s pa i a tk))"
    by (simp add: tvl_row_def row_params_def queryBuilder_def where_clauses_def resolveQueryParams_def KNOWN_QUERY_PARAMS_def
        sort_clauses_def sort_param_def in_clauses_def whereIn_clauses_def nested_clauses_def null_clauses_def like_clauses_def eval_where_both)
  then show ?thesis by (simp add: delete_tvl_def with_db_def deleteByParams_def tvl_names deref_def)
qed

text \<open>Inserting the two rows of a transaction and deleting them again restores the table.\<close>

lemma eq_cond_refl: "distinct (map fst r) \<Longrightarrow> eq_cond r r"
  by (auto simp: eq_cond_def list_all_iff row_get_def sql_eq_def)

lemma tvl_eq_key:
  assumes "row_typed tvlTableSchema r" and "eq_cond (tvl_cells ts tx s pa i a tk) r"
  shows "row_key tvlTableSchema r = [JStr (tx_id tx), JNum i]"
proof -
  have "cell_ok ''string'' (row_get r ''transactionId'')" "cell_ok ''integer'' (row_get r ''index'')"
    using assms(1) by (simp_all add: row_typed_def schema_defs)
  moreover have "sql_eq (row_get r ''transactionId'') (JStr (tx_id tx))" "sql_eq (row_get r ''index'') (JNum i)"
    using assms(2) by (simp_all add: eq_cond_def tvl_row_def)
  ultimately have "row_get r ''transactionId'' = JStr (tx_id tx)" "row_get r ''index'' = JNum i"
    by (simp_all add: sql_eq_typed)
  then show ?thesis by (simp add: row_key_def schema_defs)
qed

lemma tvl_restore:
  assumes t: "table_typed tvlTableSchema t"
    and fresh: "lookup_key tvlTableSchema [JStr (tx_id tx), JNum 0] t = None" "lookup_key tvlTableSchema [JStr (tx_id tx), JNum 1] t = None"
  shows "sql_delete (eq_cond (tvl_cells ts tx s pa 1 a1 tk1)) (sql_delete (eq_cond (tvl_cells ts tx s pa 0 a0 tk0))
     (sql_insert_merge tvlTableSchema (tvl_cells ts tx s pa 1 a1 tk1) (sql_insert_merge tvlTableSchema (tvl_cells ts tx s pa 0 a0 tk0) t))) = t"
proof -
  let ?r0 = "tvl_cells ts tx s pa 0 a0 tk0" and ?r1 = "tvl_cells ts tx s pa 1 a1 tk1"
  have none: "\<not> eq_cond (tvl_cells ts tx s pa i a tk) r" if "r \<in> set t" "i = 0 \<or> i = 1" for r i a tk
    using that fresh t tvl_eq_key [of r] by (auto simp: lookup_key_None table_typed_def list_all_iff)
  have i0: "sql_insert_merge tvlTableSchema ?r0 t = t @ [?r0]"
    using fresh by (simp add: insert_fresh new_key_tvl fill_tvl)
  have i1: "sql_insert_merge tvlTableSchema ?r1 (t @ [?r0]) = t @ [?r0, ?r1]"
    using fresh by (simp add: insert_fresh new_key_tvl fill_tvl lookup_key_None row_key_tvl)
  have eqs: "eq_cond ?r0 ?r0" "\<not> eq_cond ?r0 ?r1" "eq_cond ?r1 ?r1"
    by (auto intro!: eq_cond_refl) (auto simp: tvl_row_def eq_cond_def row_get_def sql_eq_def)
  have "sql_delete (eq_cond ?r0) (t @ [?r0, ?r1]) = t @ [?r1]" "sql_delete (eq_cond ?r1) (t @ [?r1]) = t"
    using none eqs by (simp_all add: sql_delete_def filter_id_conv)
  then show ?thesis using i0 i1 by simp
qed

abbreviation tick_cells :: "string \<Rightarrow> int \<Rightarrow> int \<Rightarrow> row" where
  "tick_cells pa t net \<equiv> [(''poolAddress'', JStr pa), (''tick'', JNum t), (''liquidityNet'', JNum net)]"

lemma fill_tick: "fill_row tickTableSchema (tick_cells pa t net) = tick_cells pa t net"
  by (simp add: fill_row_def schema_defs)

lemma new_key_tick: "new_key tickTableSchema (tick_cells pa t net) = [JStr pa, JNum t]"
  unfolding new_key_def fill_tick by (simp add: row_key_def schema_defs row_get_def)

lemma upsert_tick_stmt:
  "with_db (upsert tickTableSchema [tick_cells pa t net] False) st =
     Inr (st\<lparr>st_db := run_stmt ''tick'' False (sql_insert_merge tickTableSchema (tick_cells pa t net)) (st_db st)\<rparr>)"
proof -
  have "mapRowsBySchema [tick_cells pa t net] (schema tickTableSchema) = Inr [tick_cells pa t net]"
    by (simp add: schema_defs cast_def getValue_def)
  moreover have "not_null_ok tickTableSchema (tick_cells pa t net)"
    unfolding not_null_ok_def fill_tick by (simp add: schema_defs row_get_def)
  ultimately show ?thesis by (simp add: with_db_def upsert_def tvl_names)
qed

definition ticks_db :: "string \<Rightarrow> int \<Rightarrow> int \<Rightarrow> int \<Rightarrow> int \<Rightarrow> db \<Rightarrow> db" where
  "ticks_db pa l nl u nu d = run_stmt ''tick'' False (sql_insert_merge tickTableSchema (tick_cells pa u nu))
     (run_stmt ''tick'' False (sql_insert_merge tickTableSchema (tick_cells pa l nl)) d)"

lemma upsert_ticks_stmt:
  assumes "js_Number (data e ''tickLower'') = JNum l" "js_Number (data e ''tickUpper'') = JNum u"
    "js_Number (data e (''lowerLiquidityNet'' @ sfx)) = JNum nl" "js_Number (data e (''upperLiquidityNet'' @ sfx)) = JNum nu"
  shows "upsert_ticks pa e sfx st = Inr (st\<lparr>st_db := ticks_db pa l nl u nu (st_db st)\<rparr>)"
  using assms by (simp add: upsert_ticks_def tick_row_def upsert_tick_stmt ticks_db_def)

definition position_db :: "jsval \<Rightarrow> int \<Rightarrow> db \<Rightarrow> db" where
  "position_db v n d = run_stmt ''position'' True (sql_add (eq_cond [(''tokenId'', v)]) ''liquidity'' n) d"

lemma position_query: "v \<noteq> JUndefined \<Longrightarrow> queryBuilder False [(''where'', PRow [(''tokenId'', v)])] = Inr (eq_cond [(''tokenId'', v)])"
  by (simp add: queryBuilder_def where_clauses_def sort_clauses_def sort_param_def in_clauses_def whereIn_clauses_def nested_clauses_def
      null_clauses_def like_clauses_def eval_where_both)

lemma position_add_stmt:
  assumes "v \<noteq> JUndefined"
  shows "with_db (increment positionTableSchema ''liquidity'' n [(''tokenId'', v)] True) st = Inr (st\<lparr>st_db := position_db v n (st_db st)\<rparr>)"
    "with_db (decrement positionTableSchema ''liquidity'' n [(''tokenId'', v)] True) st = Inr (st\<lparr>st_db := position_db v (- n) (st_db st)\<rparr>)"
  by (simp_all add: with_db_def increment_def decrement_def position_query [OF assms] tvl_names position_db_def)

lemma position_back:
  "numeric_col ''liquidity'' t \<Longrightarrow> m + n = 0 \<Longrightarrow>
   sql_add (eq_cond [(''tokenId'', v)]) ''liquidity'' n (sql_add (eq_cond [(''tokenId'', v)]) ''liquidity'' m t) = t"
  by (rule sql_add_back) (simp_all add: eq_cond_def row_get_add)

text \<open>The synchronisation only writes the pool table.\<close>

definition pool_sync_db :: "string \<Rightarrow> row \<Rightarrow> db \<Rightarrow> db" where
  "pool_sync_db pa pd d =
     (let updates = filter (\<lambda>(c, v). v \<noteq> JUndefined) [(''liquidity'', field pd ''liquidity''), (''tick'', field pd ''tick'')]
      in run_stmt ''pool'' False (sql_update (eq_cond [(''poolAddress'', JStr pa), (''inverted'', JBool True)]) updates)
          (run_stmt ''pool'' False (sql_update (eq_cond [(''poolAddress'', JStr pa), (''inverted'', JBool False)]) updates) d))"

lemma pool_query:
  "queryBuilder False [(''poolAddress'', PVal (JStr pa)), (''inverted'', PVal (JBool b))] = Inr (eq_cond [(''poolAddress'', JStr pa), (''inverted'', JBool b)])"
  by (simp add: queryBuilder_def where_clauses_def resolveQueryParams_def KNOWN_QUERY_PARAMS_def sort_clauses_def sort_param_def
      in_clauses_def whereIn_clauses_def nested_clauses_def null_clauses_def like_clauses_def eval_where_both)

lemma syncPoolData_stmt:
  assumes "decodePoolAddress (getAddressFromKlayr32Address env) (AStr pa) = Inr key" "dex_getPool env key = Inr pd"
  shows "syncPoolData env pa st = Inr (st\<lparr>st_db := pool_sync_db pa pd (st_db st)\<rparr>)"
  using assms by (simp add: syncPoolData_def with_db_def update_tbl_def pool_query tvl_names pool_sync_db_def Let_def)

section \<open>Applying and reverting a change of liquidity\<close>

text \<open>The events, parameters and answers a successful command comes with; \<open>name\<close> is the event of the
  position manager, \<open>tname\<close> the one of the pool.\<close>

definition liquidity_context :: "env \<Rightarrow> tx \<Rightarrow> event option list \<Rightarrow> string \<Rightarrow> event \<Rightarrow> string \<Rightarrow> event \<Rightarrow> string \<Rightarrow> pool_key \<Rightarrow> row \<Rightarrow> bool" where
  "liquidity_context env tx events name liq tname ticks pa key pd \<longleftrightarrow>
     executionStatus tx = ''successful''
     \<and> dex_event events name tx = Inr (Some liq) \<and> dex_event events tname tx = Inr (Some ticks)
     \<and> str_param tx ''poolAddress'' = Inr pa
     \<and> decodePoolAddress (getAddressFromKlayr32Address env) (AStr pa) = Inr key
     \<and> dex_getPool env key = Inr pd \<and> data liq ''tokenId'' \<noteq> JUndefined"

record tick_change =
  tc_lower :: int
  tc_upper :: int
  tc_lowerNet :: int
  tc_upperNet :: int
  tc_lowerBefore :: int
  tc_upperBefore :: int

definition tick_numbers :: "event \<Rightarrow> tick_change \<Rightarrow> bool" where
  "tick_numbers e tc \<longleftrightarrow>
     js_Number (data e ''tickLower'') = JNum (tc_lower tc) \<and> js_Number (data e ''tickUpper'') = JNum (tc_upper tc)
   \<and> js_Number (data e ''lowerLiquidityNet'') = JNum (tc_lowerNet tc) \<and> js_Number (data e ''upperLiquidityNet'') = JNum (tc_upperNet tc)
   \<and> js_Number (data e ''lowerLiquidityNetBefore'') = JNum (tc_lowerBefore tc) \<and> js_Number (data e ''upperLiquidityNetBefore'') = JNum (tc_upperBefore tc)"

definition tokens_known :: "pool_key \<Rightarrow> db \<Rightarrow> bool" where
  "tokens_known key d \<longleftrightarrow> (\<exists>r. token_row (token0 key) [''symbol''] True d = Inr (Some r))
     \<and> (\<exists>r. token_row (token1 key) [''symbol''] True d = Inr (Some r))"

definition tvl_fresh :: "tx \<Rightarrow> db \<Rightarrow> bool" where
  "tvl_fresh tx d \<longleftrightarrow> table_typed tvlTableSchema (working d ''tvl'')
     \<and> lookup_key tvlTableSchema [JStr (tx_id tx), JNum 0] (working d ''tvl'') = None
     \<and> lookup_key tvlTableSchema [JStr (tx_id tx), JNum 1] (working d ''tvl'') = None"

abbreviation sender_of :: "env \<Rightarrow> tx \<Rightarrow> string" where
  "sender_of env tx \<equiv> getKlayr32AddressFromPublicKeyHelper env (hex_decode (senderPublicKey tx))"

definition tvl_db :: "int \<Rightarrow> tx \<Rightarrow> string \<Rightarrow> string \<Rightarrow> pool_key \<Rightarrow> int \<Rightarrow> int \<Rightarrow> db \<Rightarrow> db" where
  "tvl_db ts tx s pa key a0 a1 d =
     run_stmt ''tvl'' True (sql_insert_merge tvlTableSchema (tvl_cells ts tx s pa 1 a1 (token1 key)))
       (run_stmt ''tvl'' True (sql_insert_merge tvlTableSchema (tvl_cells ts tx s pa 0 a0 (token0 key))) d)"

definition tvl_undo_db :: "int \<Rightarrow> tx \<Rightarrow> string \<Rightarrow> string \<Rightarrow> pool_key \<Rightarrow> int \<Rightarrow> int \<Rightarrow> db \<Rightarrow> db" where
  "tvl_undo_db ts tx s pa key a0 a1 d =
     run_stmt ''tvl'' True (sql_delete (eq_cond (tvl_cells ts tx s pa 1 a1 (token1 key))))
       (run_stmt ''tvl'' True (sql_delete (eq_cond (tvl_cells ts tx s pa 0 a0 (token0 key)))) d)"

text \<open>The whole effect of a command and of its reversal on the database.\<close>

definition liquidity_db :: "int \<Rightarrow> tx \<Rightarrow> string \<Rightarrow> string \<Rightarrow> pool_key \<Rightarrow> row \<Rightarrow> jsval \<Rightarrow> int \<Rightarrow> int \<Rightarrow> int \<Rightarrow> tick_change \<Rightarrow> db \<Rightarrow> db" where
  "liquidity_db ts tx s pa key pd nft a0 a1 n tc d =
     pool_sync_db pa pd (position_db nft n
       (ticks_db pa (tc_lower tc) (tc_lowerNet tc) (tc_upper tc) (tc_upperNet tc) (tvl_db ts tx s pa key a0 a1 d)))"

definition liquidity_undo_db :: "int \<Rightarrow> tx \<Rightarrow> string \<Rightarrow> string \<Rightarrow> pool_key \<Rightarrow> row \<Rightarrow> jsval \<Rightarrow> int \<Rightarrow> int \<Rightarrow> int \<Rightarrow> tick_change \<Rightarrow> db \<Rightarrow> db" where
  "liquidity_undo_db ts tx s pa key pd nft a0 a1 n tc d =
     pool_sync_db pa pd (position_db nft n
       (ticks_db pa (tc_lower tc) (tc_lowerBefore tc) (tc_upper tc) (tc_upperBefore tc) (tvl_undo_db ts tx s pa key a0 a1 d)))"

definition indexing :: "env \<Rightarrow> tx \<Rightarrow> string \<Rightarrow> istate \<Rightarrow> istate" where
  "indexing env tx pa st = indexAccountAddress (JStr pa) (indexAccountAddress (JStr (sender_of env tx)) st)"

lemmas liquidity_stmts = upsert_tvl_stmt delete_tvl_stmt upsert_ticks_stmt position_add_stmt syncPoolData_stmt
  finish_liquidity_def indexing_def indexAccountAddress_def senderAddress_def deref_def add_liquidity_def Let_def

lemma increase_effect:
  assumes c: "liquidity_context env tx events ''increaseLiquidity'' liq ''mint'' ticks pa key pd"
    and t: "tick_numbers ticks tc" and k: "tokens_known key (st_db st)"
    and n: "js_Number (data liq ''amount0'') = JNum a0" "js_Number (data liq ''amount1'') = JNum a1" "js_Number (data liq ''liquidity'') = JNum n"
  shows "applyIncreaseLiquidity env ts tx events st =
      Inr (indexing env tx pa st\<lparr>st_db := liquidity_db ts tx (sender_of env tx) pa key pd (data liq ''tokenId'') a0 a1 n tc (st_db st)\<rparr>)"
    and "revertIncreaseLiquidity env ts tx events st =
      Inr (indexing env tx pa st\<lparr>st_db := liquidity_undo_db ts tx (sender_of env tx) pa key pd (data liq ''tokenId'') a0 a1 (- n) tc (st_db st)\<rparr>)"
proof -
  note c' = c [unfolded liquidity_context_def] and t' = t [unfolded tick_numbers_def] and k' = k [unfolded tokens_known_def]
  show "applyIncreaseLiquidity env ts tx events st =
      Inr (indexing env tx pa st\<lparr>st_db := liquidity_db ts tx (sender_of env tx) pa key pd (data liq ''tokenId'') a0 a1 n tc (st_db st)\<rparr>)"
    using c' t' k' n by (auto simp: applyIncreaseLiquidity_def liquidity_stmts liquidity_db_def tvl_db_def)
  show "revertIncreaseLiquidity env ts tx events st =
      Inr (indexing env tx pa st\<lparr>st_db := liquidity_undo_db ts tx (sender_of env tx) pa key pd (data liq ''tokenId'') a0 a1 (- n) tc (st_db st)\<rparr>)"
    using c' t' k' n by (auto simp: revertIncreaseLiquidity_def liquidity_stmts liquidity_undo_db_def tvl_undo_db_def)
qed

lemma decrease_effect:
  assumes c: "liquidity_context env tx events ''decreaseLiquidity'' liq ''burn'' ticks pa key pd"
    and t: "tick_numbers ticks tc" and k: "tokens_known key (st_db st)"
    and n: "neg_Number (data liq ''amount0'') = JNum a0" "neg_Number (data liq ''amount1'') = JNum a1" "js_Number (data liq ''liquidity'') = JNum n"
  shows "applyDecreaseLiquidity env ts tx events st =
      Inr (indexing env tx pa st\<lparr>st_db := liquidity_db ts tx (sender_of env tx) pa key pd (data liq ''tokenId'') a0 a1 (- n) tc (st_db st)\<rparr>)"
    and "revertDecreaseLiquidity env ts tx events st =
      Inr (indexing env tx pa st\<lparr>st_db := liquidity_undo_db ts tx (sender_of env tx) pa key pd (data liq ''tokenId'') a0 a1 n tc (st_db st)\<rparr>)"
proof -
  note c' = c [unfolded liquidity_context_def] and t' = t [unfolded tick_numbers_def] and k' = k [unfolded tokens_known_def]
  show "applyDecreaseLiquidity env ts tx events st =
      Inr (indexing env tx pa st\<lparr>st_db := liquidity_db ts tx (sender_of env tx) pa key pd (data liq ''tokenId'') a0 a1 (- n) tc (st_db st)\<rparr>)"
    using c' t' k' n by (auto simp: applyDecreaseLiquidity_def liquidity_stmts liquidity_db_def tvl_db_def)
  show "revertDecreaseLiquidity env ts tx events st =
      Inr (indexing env tx pa st\<lparr>st_db := liquidity_undo_db ts tx (sender_of env tx) pa key pd (data liq ''tokenId'') a0 a1 n tc (st_db st)\<rparr>)"
    using c' t' k' n by (auto simp: revertDecreaseLiquidity_def liquidity_stmts liquidity_undo_db_def tvl_undo_db_def)
qed

text \<open>The pool table with the rows of one pool, in both directions, at the liquidity and tick that the node reports.\<close>

definition pool_as_reported :: "string \<Rightarrow> row \<Rightarrow> table \<Rightarrow> table" where
  "pool_as_reported pa pd =
     sql_update (\<lambda>r. eq_cond [(''poolAddress'', JStr pa), (''inverted'', JBool False)] r \<or> eq_cond [(''poolAddress'', JStr pa), (''inverted'', JBool True)] r)
       (filter (\<lambda>(c, v). v \<noteq> JUndefined) [(''liquidity'', field pd ''liquidity''), (''tick'', field pd ''tick'')])"

text \<open>What the two tick rows read afterwards, in one view of the table.\<close>

definition tick_net :: "table \<Rightarrow> string \<Rightarrow> int \<Rightarrow> jsval option" where
  "tick_net t pa i = map_option (\<lambda>r. row_get r ''liquidityNet'') (lookup_key tickTableSchema [JStr pa, JNum i] t)"

definition ticks_reverted :: "string \<Rightarrow> tick_change \<Rightarrow> table \<Rightarrow> table \<Rightarrow> bool" where
  "ticks_reverted pa tc t t' \<longleftrightarrow>
     tick_net t' pa (tc_lower tc) = Some (JNum (tc_lowerBefore tc)) \<and> tick_net t' pa (tc_upper tc) = Some (JNum (tc_upperBefore tc))
   \<and> (\<forall>k. k \<noteq> [JStr pa, JNum (tc_lower tc)] \<longrightarrow> k \<noteq> [JStr pa, JNum (tc_upper tc)] \<longrightarrow>
        lookup_key tickTableSchema k t' = lookup_key tickTableSchema k t)
   \<and> (tick_net t pa (tc_lower tc) = Some (JNum (tc_lowerBefore tc)) \<longrightarrow> tick_net t pa (tc_upper tc) = Some (JNum (tc_upperBefore tc)) \<longrightarrow> t' = t)"

lemma row_wf_tick: "row_wf tickTableSchema r \<Longrightarrow> \<exists>x y z. r = [(''poolAddress'', x), (''tick'', y), (''liquidityNet'', z)]"
  by (auto simp: row_wf_def schema_defs map_eq_Cons_conv)

lemma merge_tick: "row_wf tickTableSchema r \<Longrightarrow> merge_row r (tick_cells pa t net) = tick_cells pa t net"
  using row_wf_tick [of r] by (auto simp: merge_row_def)

lemma look_tick_upd:
  assumes "table_wf tickTableSchema t"
  shows "lookup_key tickTableSchema k (sql_insert_merge tickTableSchema (tick_cells pa i net) t) =
     (if k = [JStr pa, JNum i] then Some (tick_cells pa i net) else lookup_key tickTableSchema k t)"
proof -
  have "merge_row r (tick_cells pa i net) = tick_cells pa i net" if "lookup_key tickTableSchema k t = Some r" for r
    using that lookup_key_Some [OF assms] row_wf_of [OF assms] merge_tick by blast
  then show ?thesis using tick_tbl.look_upd [OF assms, of k "tick_cells pa i net"]
    by (simp add: new_key_tick fill_tick split: option.splits)
qed

lemma tick_same:
  assumes "table_wf tickTableSchema t" and "tick_net t pa i = Some (JNum b)"
  shows "\<exists>r. lookup_key tickTableSchema [JStr pa, JNum i] t = Some r \<and> merge_row r (tick_cells pa i b) = r"
proof -
  obtain r where r: "lookup_key tickTableSchema [JStr pa, JNum i] t = Some r" "row_get r ''liquidityNet'' = JNum b"
    using assms(2) by (auto simp: tick_net_def)
  then have "row_wf tickTableSchema r" "row_key tickTableSchema r = [JStr pa, JNum i]"
    using lookup_key_Some [OF assms(1)] row_wf_of [OF assms(1)] by auto
  then show ?thesis using r row_wf_tick [of r] by (auto simp: row_key_def schema_defs row_get_def merge_row_def)
qed

lemma ticks_revert:
  assumes t: "table_wf tickTableSchema t" and ne: "tc_lower tc \<noteq> tc_upper tc"
  shows "ticks_reverted pa tc t
    (sql_insert_merge tickTableSchema (tick_cells pa (tc_upper tc) (tc_upperBefore tc)) (sql_insert_merge tickTableSchema (tick_cells pa (tc_lower tc) (tc_lowerBefore tc))
    (sql_insert_merge tickTableSchema (tick_cells pa (tc_upper tc) (tc_upperNet tc)) (sql_insert_merge tickTableSchema (tick_cells pa (tc_lower tc) (tc_lowerNet tc)) t))))"
    (is "ticks_reverted pa tc t ?t'")
proof -
  note wf = t tick_tbl.inv_upd [OF t] tick_tbl.inv_upd [OF tick_tbl.inv_upd [OF t]] tick_tbl.inv_upd [OF tick_tbl.inv_upd [OF tick_tbl.inv_upd [OF t]]]
  have "?t' = t" if b: "tick_net t pa (tc_lower tc) = Some (JNum (tc_lowerBefore tc))" "tick_net t pa (tc_upper tc) = Some (JNum (tc_upperBefore tc))"
  proof -
    obtain rl ru where "lookup_key tickTableSchema [JStr pa, JNum (tc_lower tc)] t = Some rl" "merge_row rl (tick_cells pa (tc_lower tc) (tc_lowerBefore tc)) = rl"
      "lookup_key tickTableSchema [JStr pa, JNum (tc_upper tc)] t = Some ru" "merge_row ru (tick_cells pa (tc_upper tc) (tc_upperBefore tc)) = ru"
      using tick_same [OF t b(1)] tick_same [OF t b(2)] by blast
    then show ?thesis using ne by (intro tick_tbl.write_back_pair [OF t]) (simp_all add: new_key_tick)
  qed
  moreover have "tick_net ?t' pa (tc_lower tc) = Some (JNum (tc_lowerBefore tc))" "tick_net ?t' pa (tc_upper tc) = Some (JNum (tc_upperBefore tc))"
    using ne by (simp_all add: tick_net_def wf look_tick_upd row_get_def)
  ultimately show ?thesis using ne by (simp add: ticks_reverted_def wf look_tick_upd)
qed

text \<open>Applying and then undoing, table by table.\<close>

lemma eq_cond_merge: "map_of u ''poolAddress'' = None \<Longrightarrow> map_of u ''inverted'' = None \<Longrightarrow>
    eq_cond [(''poolAddress'', x), (''inverted'', y)] (merge_row r u) = eq_cond [(''poolAddress'', x), (''inverted'', y)] r"
  by (simp add: eq_cond_def row_get_merge_other)

lemma synced_twice:
  assumes "map_of u ''poolAddress'' = None" and "map_of u ''inverted'' = None"
  shows "sql_update (eq_cond [(''poolAddress'', x), (''inverted'', JBool True)]) u (sql_update (eq_cond [(''poolAddress'', x), (''inverted'', JBool False)]) u t)
      = sql_update (\<lambda>r. eq_cond [(''poolAddress'', x), (''inverted'', JBool False)] r \<or> eq_cond [(''poolAddress'', x), (''inverted'', JBool True)] r) u t"
    "sql_update (\<lambda>r. eq_cond [(''poolAddress'', x), (''inverted'', JBool False)] r \<or> eq_cond [(''poolAddress'', x), (''inverted'', JBool True)] r) u
       (sql_update (\<lambda>r. eq_cond [(''poolAddress'', x), (''inverted'', JBool False)] r \<or> eq_cond [(''poolAddress'', x), (''inverted'', JBool True)] r) u t)
      = sql_update (\<lambda>r. eq_cond [(''poolAddress'', x), (''inverted'', JBool False)] r \<or> eq_cond [(''poolAddress'', x), (''inverted'', JBool True)] r) u t"
  by (auto simp: sql_update_def eq_cond_merge [OF assms] merge_row_twice [OF subset_refl])

lemma liquidity_undo:
  assumes "tvl_fresh tx d" and "numeric_col ''liquidity'' (working d ''position'')" and "m + n = 0"
    and "table_wf tickTableSchema (working d ''tick'')" and "table_wf tickTableSchema (committed d ''tick'')" and "tc_lower tc \<noteq> tc_upper tc"
  shows "let d' = liquidity_undo_db ts tx s pa key pd nft a0 a1 n tc (liquidity_db ts tx s pa key pd nft a0 a1 m tc d)
     in (\<forall>name. name \<noteq> ''tick'' \<longrightarrow> name \<noteq> ''pool'' \<longrightarrow> working d' name = working d name \<and> committed d' name = committed d name)
      \<and> working d' ''pool'' = pool_as_reported pa pd (working d ''pool'') \<and> committed d' ''pool'' = pool_as_reported pa pd (committed d ''pool'')
      \<and> ticks_reverted pa tc (working d ''tick'') (working d' ''tick'') \<and> ticks_reverted pa tc (committed d ''tick'') (committed d' ''tick'')"
proof -
  let ?u = "filter (\<lambda>(c, v). v \<noteq> JUndefined) [(''liquidity'', field pd ''liquidity''), (''tick'', field pd ''tick'')]"
  have u: "map_of ?u ''poolAddress'' = None" "map_of ?u ''inverted'' = None" by simp_all
  note synced = synced_twice [OF u, where x = "JStr pa"]
  show ?thesis
    using assms tvl_restore [of "working d ''tvl''" tx] position_back [OF assms(2,3)] ticks_revert [OF assms(4,6)] ticks_revert [OF assms(5,6)] synced
    by (simp add: Let_def pool_as_reported_def liquidity_undo_db_def liquidity_db_def pool_sync_db_def position_db_def ticks_db_def tvl_db_def tvl_undo_db_def tvl_fresh_def
        del: filter.simps)
qed

lemma tokens_known_kept: "tokens_known key (liquidity_db ts tx s pa key' pd nft a0 a1 m tc d) = tokens_known key d"
  by (simp add: tokens_known_def token_row_def find_tbl_def read_table_def tvl_names liquidity_db_def pool_sync_db_def position_db_def ticks_db_def tvl_db_def Let_def)

section \<open>A concrete block\<close>

text \<open>A pool of two known tokens, a position and the events of one transaction, on which the hypotheses
  of the theorems below are checked.\<close>

definition example_env :: env where
  "example_env = \<lparr>getKlayr32AddressFromAddress = (\<lambda>b. CHR ''k'' # hex_encode b),
     getAddressFromKlayr32Address = (\<lambda>s. Inr (hex_decode (tl s))), getKlayr32AddressFromPublicKeyHelper = hex_encode,
     hash = (\<lambda>b. b), decimal_price = (\<lambda>_ _ _ _. JNum 1),
     dex_getPool = (\<lambda>_. Inr [(''liquidity'', JStr ''10''), (''tick'', JNum 5)]), dex_getMetadata = (\<lambda>_ _. Inr []),
     getTokenFactoriesMeta = (\<lambda>_. Inr [])\<rparr>"

definition example_pool :: string where
  "example_pool = ''0000000000000000000000010000000000000bb8''"

definition example_key :: pool_key where
  "example_key = \<lparr>token0 = ''0000000000000000'', token1 = ''0000000100000000'', fee = show_nat 3000\<rparr>"

definition example_tx :: tx where
  "example_tx = \<lparr>tx_id = ''ab'', executionStatus = ''successful'', senderPublicKey = ''01'', tx_params = [(''poolAddress'', JStr example_pool)]\<rparr>"

definition example_event :: "string \<Rightarrow> row \<Rightarrow> event" where
  "example_event name d = \<lparr>ev_id = ''e'', ev_name = name, ev_module = ''dex'', ev_topics = Some [''04ab''], ev_index = 0, ev_height = 7, ev_data = d\<rparr>"

definition example_ticks :: "string \<Rightarrow> event" where
  "example_ticks name = example_event name [(''tickLower'', JNum (-60)), (''tickUpper'', JNum 60), (''lowerLiquidityNet'', JStr ''5''), (''upperLiquidityNet'', JStr ''-5''),
     (''lowerLiquidityNetBefore'', JStr ''3''), (''upperLiquidityNetBefore'', JStr ''-3'')]"

definition example_change :: tick_change where
  "example_change = \<lparr>tc_lower = -60, tc_upper = 60, tc_lowerNet = 5, tc_upperNet = -5, tc_lowerBefore = 3, tc_upperBefore = -3\<rparr>"

definition example_liq :: "string \<Rightarrow> event" where
  "example_liq name = example_event name [(''tokenId'', JStr ''00''), (''amount0'', JStr ''7''), (''amount1'', JStr ''9''), (''liquidity'', JStr ''2'')]"

definition example_state :: istate where
  "example_state = \<lparr>st_db = (let t = (\<lambda>n. if n = ''registered_dex_token''
        then map (\<lambda>i. [(''tokenId'', JStr i), (''symbol'', JStr ''T''), (''decimal'', JNum 8), (''logo'', JNull)]) [''0000000000000000'', ''0000000100000000''] else [])
      in \<lparr>committed = t, working = t\<rparr>), indexed = [], uploads = []\<rparr>"

lemma parse_small: "parse_int ''5'' = Some 5" "parse_int ''-5'' = Some (-5)" "parse_int ''3'' = Some 3" "parse_int ''-3'' = Some (-3)"
  "parse_int ''7'' = Some 7" "parse_int ''-7'' = Some (-7)" "parse_int ''9'' = Some 9" "parse_int ''-9'' = Some (-9)" "parse_int ''2'' = Some 2"
  by (simp_all add: parse_int_def is_digit_def digits_val_def digit_val_def)

lemma example_decode: "decodePoolAddress (getAddressFromKlayr32Address example_env) (AStr example_pool) = Inr example_key"
  by (simp add: decodePoolAddress_def example_pool_def example_key_def hex_val_def readUIntBE_def be_val_def hex_digit_def char_of_def bit_0)

lemma example_context:
  assumes "name \<noteq> tname"
  shows "liquidity_context example_env example_tx [Some (example_ticks tname), Some (example_liq name)] name (example_liq name) tname (example_ticks tname)
     example_pool example_key [(''liquidity'', JStr ''10''), (''tick'', JNum 5)]"
  using assms example_decode
  by (simp add: liquidity_context_def dex_event_def parseSingleEvent_def event_matches_def topics_include_def example_tx_def
      example_ticks_def example_liq_def example_event_def TX_ID_def str_param_def field_def) (simp add: example_env_def)

lemma example_numbers: "tick_numbers (example_ticks name) example_change"
  by (simp add: tick_numbers_def example_ticks_def example_event_def example_change_def field_def parse_small)

lemma example_tables:
  "tokens_known example_key (st_db example_state)" "tvl_fresh example_tx (st_db example_state)"
  "numeric_col ''liquidity'' (working (st_db example_state) ''position'')"
  "table_wf tickTableSchema (working (st_db example_state) ''tick'')" "table_wf tickTableSchema (committed (st_db example_state) ''tick'')"
  by (simp_all add: tokens_known_def token_row_def find_tbl_def find_query_simps read_table_def example_state_def example_key_def
      tvl_names tvl_fresh_def table_typed_def table_wf_def lookup_key_def numeric_col_def row_get_def sql_eq_def Let_def)



text \<open>
  Reverting a decrease of liquidity that was applied succeeds and restores the index: the TVL rows of the transaction
  are gone, the position has its old liquidity, the two ticks of the pool read the net liquidity they
  had before the event and no other tick has changed (the tick table is exactly the old one if it
  agreed with the event), and no other table has changed, apart from the pool's tick and
  liquidity, which follow the node. This holds in the view of the block's transaction as well as in the
  committed one.
\<close>

theorem decrease_apply_revert:
  assumes "liquidity_context env tx events ''decreaseLiquidity'' liq ''burn'' ticks pa key pd" and "tick_numbers ticks tc"
    and "neg_Number (data liq ''amount0'') = JNum a0" and "neg_Number (data liq ''amount1'') = JNum a1" and "js_Number (data liq ''liquidity'') = JNum n"
    and "tokens_known key (st_db st)" and "tvl_fresh tx (st_db st)" and "numeric_col ''liquidity'' (working (st_db st) ''position'')"
    and "table_wf tickTableSchema (working (st_db st) ''tick'')" and "table_wf tickTableSchema (committed (st_db st) ''tick'')"
    and "tc_lower tc \<noteq> tc_upper tc"
  shows "\<exists>st1 st2. applyDecreaseLiquidity env ts tx events st = Inr st1 \<and> revertDecreaseLiquidity env ts tx events st1 = Inr st2
     \<and> (\<forall>name. name \<noteq> ''tick'' \<longrightarrow> name \<noteq> ''pool'' \<longrightarrow>
          working (st_db st2) name = working (st_db st) name \<and> committed (st_db st2) name = committed (st_db st) name)
     \<and> ticks_reverted pa tc (working (st_db st) ''tick'') (working (st_db st2) ''tick'')
     \<and> ticks_reverted pa tc (committed (st_db st) ''tick'') (committed (st_db st2) ''tick'')"
proof -
  define st1 where "st1 = indexing env tx pa st\<lparr>st_db := liquidity_db ts tx (sender_of env tx) pa key pd (data liq ''tokenId'') a0 a1 (- n) tc (st_db st)\<rparr>"
  have 1: "applyDecreaseLiquidity env ts tx events st = Inr st1"
    unfolding st1_def by (rule decrease_effect [OF assms(1,2,6,3,4,5)])
  have "tokens_known key (st_db st1)" using assms(6) by (simp add: st1_def tokens_known_kept)
  note 2 = decrease_effect(2) [OF assms(1,2) this assms(3,4,5), of ts]
  show ?thesis using 1 2 liquidity_undo [OF assms(7,8) _ assms(9,10,11), of "- n" n ts "sender_of env tx" pa key pd "data liq ''tokenId''" a0 a1]
    by (auto simp: Let_def st1_def)
qed

theorem decrease_apply_revert_witness:
  "\<exists>st1 st2. applyDecreaseLiquidity example_env 100 example_tx [Some (example_ticks ''burn''), Some (example_liq ''decreaseLiquidity'')] example_state = Inr st1
     \<and> revertDecreaseLiquidity example_env 100 example_tx [Some (example_ticks ''burn''), Some (example_liq ''decreaseLiquidity'')] st1 = Inr st2
     \<and> working (st_db st2) ''tvl'' = []"
proof -
  have c: "liquidity_context example_env example_tx [Some (example_ticks ''burn''), Some (example_liq ''decreaseLiquidity'')] ''decreaseLiquidity'' (example_liq ''decreaseLiquidity'') ''burn''
      (example_ticks ''burn'') example_pool example_key [(''liquidity'', JStr ''10''), (''tick'', JNum 5)]"
    by (rule example_context) simp
  have n: "neg_Number (data (example_liq ''decreaseLiquidity'') ''amount0'') = JNum (-7)" "neg_Number (data (example_liq ''decreaseLiquidity'') ''amount1'') = JNum (-9)"
    "js_Number (data (example_liq ''decreaseLiquidity'') ''liquidity'') = JNum 2"
    by (simp_all add: example_liq_def example_event_def field_def neg_Number_def parse_small)
  have "working (st_db example_state) ''tvl'' = []" by (simp add: example_state_def Let_def)
  then show ?thesis
    using decrease_apply_revert [OF c example_numbers n example_tables, of 100] by (fastforce simp: example_change_def)
qed

section \<open>Minting and burning a position\<close>

text \<open>What the position row becomes in the table; the identifier is a string.\<close>

definition position_cells :: "row \<Rightarrow> event \<Rightarrow> event \<Rightarrow> event \<Rightarrow> nft_id \<Rightarrow> row" where
  "position_cells metadata mint liq uri nft =
     (let str = (\<lambda>v. getValue (if v = JUndefined then JNull else JStr (js_String v)));
          num = (\<lambda>v. getValue (if v = JUndefined then JNull else js_Number v));
          raw = (\<lambda>v. getValue (if v = JUndefined then JNull else v))
      in [(''tokenId'', str (data liq ''tokenId'')), (''collectionId'', JStr (collectionId nft)), (''owner'', str (data liq ''ownerAddress'')),
          (''name'', str (field metadata ''name'')), (''description'', raw (field metadata ''description'')), (''image'', raw (field metadata ''image'')),
          (''tickUpper'', num (data mint ''tickUpper'')), (''tickLower'', num (data mint ''tickLower'')),
          (''liquidity'', raw (js_Number (data liq ''liquidity''))), (''tokenURI'', str (data uri ''tokenURI''))])"

lemma map_position_row:
  "map_row (position_row metadata mint liq uri nft) (schema positionTableSchema) = Inr (position_cells metadata mint liq uri nft)"
  by (simp add: position_row_def position_cells_def schema_defs cast_types Let_def)

lemma fill_position: "fill_row positionTableSchema (position_cells metadata mint liq uri nft) = position_cells metadata mint liq uri nft"
  by (simp add: fill_row_def position_cells_def schema_defs Let_def)

lemma new_key_position:
  "data liq ''tokenId'' = JStr i \<Longrightarrow> new_key positionTableSchema (position_cells metadata mint liq uri nft) = [JStr i]"
  unfolding new_key_def fill_position by (simp add: row_key_def position_cells_def schema_defs row_get_def Let_def)

definition mint_position_db :: "row \<Rightarrow> event \<Rightarrow> event \<Rightarrow> event \<Rightarrow> nft_id \<Rightarrow> db \<Rightarrow> db" where
  "mint_position_db metadata mint liq uri nft d =
     run_stmt ''position'' True (sql_insert_merge positionTableSchema (position_cells metadata mint liq uri nft)) d"

lemma mint_position_stmt:
  assumes "data liq ''tokenId'' = JStr i"
  shows "with_db (upsert positionTableSchema [position_row metadata mint liq uri nft] True) st =
     Inr (st\<lparr>st_db := mint_position_db metadata mint liq uri nft (st_db st)\<rparr>)"
proof -
  have "not_null_ok positionTableSchema (position_cells metadata mint liq uri nft)"
    unfolding not_null_ok_def fill_position using assms by (simp add: position_cells_def schema_defs row_get_def Let_def)
  then show ?thesis
    by (simp add: with_db_def upsert_def map_position_row tvl_names mint_position_db_def)
qed

definition position_delete_db :: "string \<Rightarrow> db \<Rightarrow> db" where
  "position_delete_db i d = run_stmt ''position'' True (delete_key positionTableSchema [JStr i]) d"

lemma position_delete_stmt:
  "with_db (deleteByPrimaryKey positionTableSchema [Scalar (JStr i)] True) st = Inr (st\<lparr>st_db := position_delete_db i (st_db st)\<rparr>)"
proof -
  have "length (primaryKey positionTableSchema) = 1" by (simp add: schema_defs)
  then show ?thesis by (simp add: with_db_def deleteByPrimaryKey_def tvl_names position_delete_db_def delete_key_def)
qed

definition mint_context :: "env \<Rightarrow> tx \<Rightarrow> event option list \<Rightarrow> event \<Rightarrow> event \<Rightarrow> event \<Rightarrow> pool_key \<Rightarrow> string \<Rightarrow> nft_id \<Rightarrow> row \<Rightarrow> row \<Rightarrow> string \<Rightarrow> bool" where
  "mint_context env tx events mint liq uri key pa nft metadata pd i \<longleftrightarrow>
     executionStatus tx = ''successful''
     \<and> dex_event events ''mint'' tx = Inr (Some mint) \<and> dex_event events ''increaseLiquidity'' tx = Inr (Some liq)
     \<and> dex_event events ''tokenURICreated'' tx = Inr (Some uri)
     \<and> tx_pool_key tx = Inr key \<and> pool_address env key = Inr pa
     \<and> decodePoolAddress (getAddressFromKlayr32Address env) (AStr pa) = Inr key \<and> dex_getPool env key = Inr pd
     \<and> data liq ''tokenId'' = JStr i \<and> event_nft liq = Inr nft \<and> dex_getMetadata env pa (show_nat (nft_index nft)) = Inr metadata"

definition mint_db :: "int \<Rightarrow> tx \<Rightarrow> string \<Rightarrow> string \<Rightarrow> pool_key \<Rightarrow> row \<Rightarrow> int \<Rightarrow> int \<Rightarrow> tick_change \<Rightarrow> db \<Rightarrow> db" where
  "mint_db ts tx s pa key pd a0 a1 tc d =
     pool_sync_db pa pd (ticks_db pa (tc_lower tc) (tc_lowerNet tc) (tc_upper tc) (tc_upperNet tc) (tvl_db ts tx s pa key a0 a1 d))"

definition mint_undo_db :: "int \<Rightarrow> tx \<Rightarrow> string \<Rightarrow> string \<Rightarrow> pool_key \<Rightarrow> row \<Rightarrow> int \<Rightarrow> int \<Rightarrow> tick_change \<Rightarrow> db \<Rightarrow> db" where
  "mint_undo_db ts tx s pa key pd a0 a1 tc d =
     pool_sync_db pa pd (ticks_db pa (tc_lower tc) (tc_lowerBefore tc) (tc_upper tc) (tc_upperBefore tc) (tvl_undo_db ts tx s pa key a0 a1 d))"

lemma tokens_known_run: "n \<noteq> ''registered_dex_token'' \<Longrightarrow> tokens_known key (run_stmt n trx f d) = tokens_known key d"
  by (simp add: tokens_known_def token_row_def find_tbl_def read_table_def tvl_names)

lemma mint_effect:
  assumes c: "mint_context env tx events mint liq uri key pa nft metadata pd i"
    and t: "tick_numbers mint tc" and k: "tokens_known key (st_db st)"
    and n: "js_Number (data liq ''amount0'') = JNum a0" "js_Number (data liq ''amount1'') = JNum a1"
  shows "applyMint env ts tx events st =
      Inr (indexing env tx pa (st\<lparr>uploads := uploads st @ [metadata]\<rparr>)
        \<lparr>st_db := mint_db ts tx (sender_of env tx) pa key pd a0 a1 tc (mint_position_db metadata mint liq uri nft (st_db st))\<rparr>)"
    and "revertMint env ts tx events st =
      Inr (indexing env tx pa st\<lparr>st_db := mint_undo_db ts tx (sender_of env tx) pa key pd a0 a1 tc (position_delete_db i (st_db st))\<rparr>)"
proof -
  note c' = c [unfolded mint_context_def] and t' = t [unfolded tick_numbers_def]
  have k1: "tokens_known key (mint_position_db metadata mint liq uri nft (st_db st))"
    and k2: "tokens_known key (position_delete_db i (st_db st))"
    using k by (simp_all add: mint_position_db_def position_delete_db_def tokens_known_run)
  show "applyMint env ts tx events st =
      Inr (indexing env tx pa (st\<lparr>uploads := uploads st @ [metadata]\<rparr>)
        \<lparr>st_db := mint_db ts tx (sender_of env tx) pa key pd a0 a1 tc (mint_position_db metadata mint liq uri nft (st_db st))\<rparr>)"
    using c' t' k1 [unfolded tokens_known_def] n
    by (auto simp: applyMint_def liquidity_stmts mint_position_stmt mint_db_def tvl_db_def)
  show "revertMint env ts tx events st =
      Inr (indexing env tx pa st\<lparr>st_db := mint_undo_db ts tx (sender_of env tx) pa key pd a0 a1 tc (position_delete_db i (st_db st))\<rparr>)"
    using c' t' k2 [unfolded tokens_known_def] n
    by (auto simp: revertMint_def liquidity_stmts position_delete_stmt mint_undo_db_def tvl_undo_db_def)
qed

text \<open>
  Minting a position adds it and reverting the mint removes it again: for a position that was
  not in the index and a transaction that had no TVL rows, applying and then reverting succeeds and
  restores all tables, with the two ticks reading their net liquidity from before the event and
  the pool's tick and liquidity following the node.
\<close>

theorem mint_apply_revert:
  assumes "mint_context env tx events mint liq uri key pa nft metadata pd i" and "tick_numbers mint tc"
    and "js_Number (data liq ''amount0'') = JNum a0" and "js_Number (data liq ''amount1'') = JNum a1"
    and "tokens_known key (st_db st)" and "tvl_fresh tx (st_db st)"
    and "table_wf positionTableSchema (working (st_db st) ''position'')" and "lookup_key positionTableSchema [JStr i] (working (st_db st) ''position'') = None"
    and "table_wf tickTableSchema (working (st_db st) ''tick'')" and "table_wf tickTableSchema (committed (st_db st) ''tick'')"
    and "tc_lower tc \<noteq> tc_upper tc"
  shows "\<exists>st1 st2. applyMint env ts tx events st = Inr st1 \<and> revertMint env ts tx events st1 = Inr st2
     \<and> lookup_key positionTableSchema [JStr i] (working (st_db st1) ''position'') = Some (position_cells metadata mint liq uri nft)
     \<and> (\<forall>name. name \<noteq> ''tick'' \<longrightarrow> name \<noteq> ''pool'' \<longrightarrow>
          working (st_db st2) name = working (st_db st) name \<and> committed (st_db st2) name = committed (st_db st) name)
     \<and> ticks_reverted pa tc (working (st_db st) ''tick'') (working (st_db st2) ''tick'')
     \<and> ticks_reverted pa tc (committed (st_db st) ''tick'') (committed (st_db st2) ''tick'')"
proof -
  let ?s = "sender_of env tx" and ?d = "st_db st"
  define d1 where "d1 = mint_db ts tx ?s pa key pd a0 a1 tc (mint_position_db metadata mint liq uri nft ?d)"
  define st1 where "st1 = indexing env tx pa (st\<lparr>uploads := uploads st @ [metadata]\<rparr>)\<lparr>st_db := d1\<rparr>"
  have 1: "applyMint env ts tx events st = Inr st1"
    unfolding st1_def d1_def by (rule mint_effect [OF assms(1,2,5,3,4)])
  have k1: "tokens_known key (st_db st1)"
    using assms(5) by (simp add: st1_def d1_def mint_db_def pool_sync_db_def ticks_db_def tvl_db_def mint_position_db_def tokens_known_run Let_def)
  have i: "data liq ''tokenId'' = JStr i" using assms(1) by (simp add: mint_context_def)
  have key: "new_key positionTableSchema (position_cells metadata mint liq uri nft) = [JStr i]" by (rule new_key_position [OF i])
  have pos: "delete_key positionTableSchema [JStr i] (sql_insert_merge positionTableSchema (position_cells metadata mint liq uri nft) (working ?d ''position'')) = working ?d ''position''"
    using position_tbl.del_fresh [OF assms(7), of "position_cells metadata mint liq uri nft"] key assms(8) by simp
  have found: "lookup_key positionTableSchema [JStr i] (working d1 ''position'') = Some (position_cells metadata mint liq uri nft)"
    using position_tbl.look_upd [OF assms(7), of "[JStr i]" "position_cells metadata mint liq uri nft"] assms(8)
    by (simp add: key fill_position d1_def mint_db_def pool_sync_db_def ticks_db_def tvl_db_def mint_position_db_def Let_def)
  have undo: "(\<forall>name. name \<noteq> ''tick'' \<longrightarrow> name \<noteq> ''pool'' \<longrightarrow> working d2 name = working ?d name \<and> committed d2 name = committed ?d name)
      \<and> ticks_reverted pa tc (working ?d ''tick'') (working d2 ''tick'') \<and> ticks_reverted pa tc (committed ?d ''tick'') (committed d2 ''tick'')"
    if "d2 = mint_undo_db ts tx ?s pa key pd a0 a1 tc (position_delete_db i d1)" for d2
    using that pos tvl_restore [of "working ?d ''tvl''" tx] assms(6) ticks_revert [OF assms(9,11)] ticks_revert [OF assms(10,11)]
    by (simp add: d1_def mint_db_def mint_undo_db_def pool_sync_db_def ticks_db_def tvl_db_def tvl_undo_db_def tvl_fresh_def
        mint_position_db_def position_delete_db_def Let_def)
  show ?thesis using 1 found undo [OF refl] mint_effect(2) [OF assms(1,2) k1 assms(3,4), of ts] by (auto simp: st1_def)
qed

definition example_mint_tx :: tx where
  "example_mint_tx = \<lparr>tx_id = ''ab'', executionStatus = ''successful'', senderPublicKey = ''01'',
     tx_params = [(''token0'', JStr ''0000000000000000''), (''token1'', JStr ''0000000100000000''), (''fee'', JStr (show_nat 3000))]\<rparr>"

definition example_nft :: string where
  "example_nft = ''0000000000001234000000000000002a''"

definition example_minted :: event where
  "example_minted = example_event ''increaseLiquidity'' [(''tokenId'', JStr example_nft), (''amount0'', JStr ''7''), (''amount1'', JStr ''9''), (''liquidity'', JStr ''2'')]"

definition example_uri :: event where
  "example_uri = example_event ''tokenURICreated'' [(''tokenURI'', JStr ''u'')]"

lemma example_key_valid: "valid_pool_key example_key 3000"
  by (simp add: valid_pool_key_def example_key_def is_token_id_def is_hex_def is_digit_def less_char_def)

lemma example_mint_context:
  obtains pa nft where "mint_context example_env example_mint_tx [Some (example_ticks ''mint''), Some example_minted, Some example_uri]
     (example_ticks ''mint'') example_minted example_uri example_key pa nft [] [(''liquidity'', JStr ''10''), (''tick'', JNum 5)] example_nft"
proof -
  define bs where "bs = hex_decode (token0 example_key) @ hex_decode (token1 example_key) @ be_bytes 4 3000"
  have bs: "computePoolAddress example_key = Inr bs" unfolding bs_def by (rule computePoolAddress_valid [OF example_key_valid])
  have t: "is_token_id (token0 example_key)" "is_token_id (token1 example_key)" using example_key_valid by (simp_all add: valid_pool_key_def)
  have len: "length bs = 20" and bytes: "list_all is_byte bs" using token_bytes [OF t(1)] token_bytes [OF t(2)] by (simp_all add: bs_def)
  have dec: "decodePoolAddress (getAddressFromKlayr32Address example_env) (AStr (CHR ''k'' # hex_encode bs)) = Inr example_key"
    using decode_pool_bytes [OF example_key_valid] len bytes by (simp add: decodePoolAddress_def example_env_def bs_def)
  have key: "tx_pool_key example_mint_tx = Inr example_key"
    by (simp add: tx_pool_key_def str_param_def example_mint_tx_def field_def getPoolKey_def example_key_def less_char_def)
  obtain nft where nft: "decodeNFTId example_nft = Inr nft"
    by (simp add: decodeNFTId_def example_nft_def hex_val_def readUIntBE_def)
  have "mint_context example_env example_mint_tx [Some (example_ticks ''mint''), Some example_minted, Some example_uri]
     (example_ticks ''mint'') example_minted example_uri example_key (CHR ''k'' # hex_encode bs) nft [] [(''liquidity'', JStr ''10''), (''tick'', JNum 5)] example_nft"
    using dec key bs nft
    by (simp add: mint_context_def dex_event_def parseSingleEvent_def event_matches_def topics_include_def pool_address_def event_nft_def
        example_mint_tx_def example_ticks_def example_minted_def example_uri_def example_event_def TX_ID_def field_def) (simp add: example_env_def)
  then show ?thesis by (rule that)
qed

theorem mint_apply_revert_witness:
  "\<exists>st1 st2. applyMint example_env 100 example_mint_tx [Some (example_ticks ''mint''), Some example_minted, Some example_uri] example_state = Inr st1
     \<and> revertMint example_env 100 example_mint_tx [Some (example_ticks ''mint''), Some example_minted, Some example_uri] st1 = Inr st2
     \<and> working (st_db st2) ''position'' = []"
proof -
  obtain pa nft where c: "mint_context example_env example_mint_tx [Some (example_ticks ''mint''), Some example_minted, Some example_uri]
     (example_ticks ''mint'') example_minted example_uri example_key pa nft [] [(''liquidity'', JStr ''10''), (''tick'', JNum 5)] example_nft"
    by (rule example_mint_context)
  have n: "js_Number (data example_minted ''amount0'') = JNum 7" "js_Number (data example_minted ''amount1'') = JNum 9"
    by (simp_all add: example_minted_def example_event_def field_def parse_small)
  have t: "tvl_fresh example_mint_tx (st_db example_state)" "table_wf positionTableSchema (working (st_db example_state) ''position'')"
    "lookup_key positionTableSchema [JStr example_nft] (working (st_db example_state) ''position'') = None"
    by (simp_all add: tvl_fresh_def table_typed_def table_wf_def lookup_key_def example_state_def Let_def)
  have "working (st_db example_state) ''position'' = []" by (simp add: example_state_def Let_def)
  then show ?thesis
    using mint_apply_revert [OF c example_numbers n example_tables(1) t example_tables(4,5), of 100] by (fastforce simp: example_change_def)
qed

text \<open>Burning writes the string \<^verbatim>\<open>'null'\<close> as the owner, since the conversion of the string column is
  applied to \<^verbatim>\<open>null\<close> too.\<close>

lemma owner_stmt:
  "with_db (upsert positionTableSchema [[(''tokenId'', JStr i), (''owner'', v)]] True) st =
     Inr (st\<lparr>st_db := run_stmt ''position'' True (sql_insert_merge positionTableSchema
       [(''tokenId'', JStr i), (''owner'', getValue (if v = JUndefined then JNull else JStr (js_String v)))]) (st_db st)\<rparr>)"
proof -
  let ?r = "[(''tokenId'', JStr i), (''owner'', getValue (if v = JUndefined then JNull else JStr (js_String v)))]"
  have "map_row [(''tokenId'', JStr i), (''owner'', v)] (schema positionTableSchema) = Inr ?r"
    by (simp add: schema_defs cast_types)
  moreover have "not_null_ok positionTableSchema ?r"
    by (simp add: not_null_ok_def fill_row_def schema_defs row_get_def)
  ultimately show ?thesis by (simp add: with_db_def upsert_def tvl_names)
qed

lemma new_key_owner: "new_key positionTableSchema [(''tokenId'', JStr i), (''owner'', v)] = [JStr i]"
  by (simp add: new_key_def row_key_def fill_row_def schema_defs row_get_def)

text \<open>
  Burning a position and reverting the burn restores the index exactly when the sender was the
  recorded owner; in between, the recorded owner is the string \<^verbatim>\<open>null\<close>. Nothing else is touched.
\<close>

theorem burn_apply_revert:
  assumes "executionStatus tx = ''successful''" and "dex_event events ''tokenURIDestroyed'' tx = Inr (Some e)" and "data e ''tokenId'' = JStr i"
    and "table_wf positionTableSchema (working (st_db st) ''position'')"
    and "lookup_key positionTableSchema [JStr i] (working (st_db st) ''position'') = Some r" and "row_get r ''owner'' = senderAddress env tx"
  shows "\<exists>st1 st2 r1. applyBurn env ts tx events st = Inr st1 \<and> revertBurn env ts tx events st1 = Inr st2
     \<and> lookup_key positionTableSchema [JStr i] (working (st_db st1) ''position'') = Some r1 \<and> row_get r1 ''owner'' = JStr ''null''
     \<and> (\<forall>name. working (st_db st2) name = working (st_db st) name \<and> committed (st_db st2) name = committed (st_db st) name)"
proof -
  let ?t = "working (st_db st) ''position''" and ?s = "sender_of env tx"
  let ?n = "[(''tokenId'', JStr i), (''owner'', JStr ''null'')]" and ?own = "[(''tokenId'', JStr i), (''owner'', JStr ?s)]"
  have r: "row_wf positionTableSchema r" "row_key positionTableSchema r = [JStr i]"
    using assms(5) lookup_key_Some [OF assms(4)] row_wf_of [OF assms(4)] by auto
  have d: "distinct (map fst r)" using r(1) by (simp add: row_wf_def schema_defs)
  have cells: "map_of r ''tokenId'' = Some (JStr i)" "map_of r ''owner'' = Some (JStr ?s)"
    using r assms(6) map_of_row_wf [OF r(1)]
    by (auto simp: row_key_def schema_defs row_get_def senderAddress_def split: option.splits)
  have m: "merge_row r ?own = r" using cells by (intro merge_row_id [OF d]) (auto split: if_splits)
  have restored: "sql_insert_merge positionTableSchema ?own (sql_insert_merge positionTableSchema ?n ?t) = ?t"
    using position_tbl.upd_absorb [OF assms(4), of ?n ?own] position_tbl.upd_same [OF assms(4), of ?own r] m assms(5)
    by (simp add: new_key_owner)
  have look: "lookup_key positionTableSchema [JStr i] (sql_insert_merge positionTableSchema ?n ?t) = Some (merge_row r ?n)"
    using position_tbl.look_upd [OF assms(4), of "[JStr i]" ?n] assms(5) by (simp add: new_key_owner)
  have null: "row_get (merge_row r ?n) ''owner'' = JStr ''null''" using cells by (simp add: row_get_merge)
  show ?thesis using restored look null assms(1-3)
    by (auto simp: applyBurn_def revertBurn_def deref_def owner_stmt senderAddress_def)
qed

theorem burn_apply_revert_witness:
  "let st = \<lparr>st_db = \<lparr>committed = (\<lambda>_. []), working = (\<lambda>n. if n = ''position'' then [fill_row positionTableSchema [(''tokenId'', JStr ''00''), (''owner'', JStr ''01'')]] else [])\<rparr>, indexed = [], uploads = []\<rparr>;
       evs = [Some (example_event ''tokenURIDestroyed'' [(''tokenId'', JStr ''00'')])]
   in \<exists>st1 st2. applyBurn example_env 100 example_tx evs st = Inr st1 \<and> revertBurn example_env 100 example_tx evs st1 = Inr st2
      \<and> working (st_db st2) ''position'' = working (st_db st) ''position''"
proof -
  let ?st = "\<lparr>st_db = \<lparr>committed = (\<lambda>_. []), working = (\<lambda>n. if n = ''position'' then [fill_row positionTableSchema [(''tokenId'', JStr ''00''), (''owner'', JStr ''01'')]] else [])\<rparr>, indexed = [], uploads = []\<rparr>"
  let ?e = "example_event ''tokenURIDestroyed'' [(''tokenId'', JStr ''00'')]" and ?r = "fill_row positionTableSchema [(''tokenId'', JStr ''00''), (''owner'', JStr ''01'')]"
  have e: "executionStatus example_tx = ''successful''" "dex_event [Some ?e] ''tokenURIDestroyed'' example_tx = Inr (Some ?e)" "data ?e ''tokenId'' = JStr ''00''"
    by (simp_all add: dex_event_def parseSingleEvent_def event_matches_def topics_include_def example_tx_def example_event_def TX_ID_def field_def)
  have key: "row_key positionTableSchema ?r = [JStr ''00'']" by (simp add: row_key_def fill_row_def schema_defs row_get_def)
  have t: "table_wf positionTableSchema (working (st_db ?st) ''position'')" "lookup_key positionTableSchema [JStr ''00''] (working (st_db ?st) ''position'') = Some ?r"
    using key by (simp_all add: table_wf_def lookup_key_def)
  have own: "row_get ?r ''owner'' = senderAddress example_env example_tx"
    by (simp add: fill_row_def schema_defs row_get_def senderAddress_def example_env_def example_tx_def hex_val_def hex_digit_def char_of_def bit_0)
  show ?thesis using burn_apply_revert [OF e t own, of 100] by (auto simp: Let_def)
qed

section \<open>Creating a pool\<close>

text \<open>The two rows as they are stored.\<close>

definition pool_cells :: "env \<Rightarrow> int \<Rightarrow> event \<Rightarrow> event \<Rightarrow> string \<Rightarrow> string \<Rightarrow> nat \<Rightarrow> string \<Rightarrow> string \<Rightarrow> jsval \<Rightarrow> jsval \<Rightarrow> bool \<Rightarrow> row" where
  "pool_cells env ts created initialized a b f pa cid dec0 dec1 inverted =
     (let num = (\<lambda>v. getValue (if v = JUndefined then JNull else js_Number v));
          raw = (\<lambda>v. getValue (if v = JUndefined then JNull else v))
      in [(''token0'', JStr (if inverted then b else a)), (''token1'', JStr (if inverted then a else b)), (''fee'', JNum (int f)),
          (''inverted'', JBool inverted), (''created'', JNum ts), (''poolAddress'', JStr pa), (''collectionId'', JStr cid),
          (''feeHex'', JStr (hex_encode (be_bytes 3 f))), (''tickSpacing'', num (data created ''tickSpacing'')),
          (''tick'', num (data initialized ''tick'')), (''liquidity'', JNum 0),
          (''price'', raw (getPriceAtTick env (data initialized ''tick'') dec0 dec1 inverted))])"

definition created_ok :: "event \<Rightarrow> string \<Rightarrow> string \<Rightarrow> nat \<Rightarrow> string \<Rightarrow> bool" where
  "created_ok created a b f pa \<longleftrightarrow> data created ''token0'' = JStr a \<and> data created ''token1'' = JStr b \<and> a \<noteq> b
     \<and> data created ''fee'' = JStr (show_nat f) \<and> f < 2 ^ 24 \<and> data created ''poolAddress'' = JStr pa"

lemma pool_fee_number: "f < 2 ^ 24 \<Longrightarrow> js_Number (JStr (show_nat f)) = JNum (int f)"
  using parse_show_int [of "int f"] show_nat_digits [of f] by (simp add: show_int_def)

lemma pool_row_stmt:
  assumes c: "created_ok created a b f pa"
  shows "with_db (upsert poolTableSchema [pool_table_row env ts created initialized cid (hex_encode (be_bytes 3 f)) dec0 dec1 inverted] True) st =
     Inr (st\<lparr>st_db := run_stmt ''pool'' True (sql_insert_merge poolTableSchema (pool_cells env ts created initialized a b f pa cid dec0 dec1 inverted)) (st_db st)\<rparr>)"
proof -
  let ?c = "pool_cells env ts created initialized a b f pa cid dec0 dec1 inverted"
  have "map_row (pool_table_row env ts created initialized cid (hex_encode (be_bytes 3 f)) dec0 dec1 inverted) (schema poolTableSchema) = Inr ?c"
    using c pool_fee_number [of f]
    by (simp add: pool_table_row_def pool_cells_def created_ok_def schema_defs cast_types Let_def getValue_def [of "JNum _"] getValue_def [of "JBool _"])
  moreover have "fill_row poolTableSchema ?c = ?c"
    by (rule fill_full [OF config_wf_poolTableSchema]) (simp add: pool_cells_def schema_defs Let_def)
  then have "not_null_ok poolTableSchema ?c"
    unfolding not_null_ok_def by (simp add: pool_cells_def schema_defs row_get_def Let_def)
  ultimately show ?thesis by (simp add: with_db_def upsert_def tvl_names)
qed

lemma pool_cells_key:
  "row_key poolTableSchema (pool_cells env ts created initialized a b f pa cid dec0 dec1 inverted) =
     [JStr (if inverted then b else a), JStr (if inverted then a else b), JNum (int f)]"
  "map fst (pool_cells env ts created initialized a b f pa cid dec0 dec1 inverted) = map col_name (schema poolTableSchema)"
  by (simp_all add: row_key_def pool_cells_def schema_defs row_get_def Let_def)

text \<open>
  Creating a pool indexes it once in each direction: with the registration of its tokens done,
  the transaction leaves a row for the pair in the order of the event and one for the reversed pair
  marked as inverted, under the same address, fee, collection and initial tick, with liquidity 0
  and a six-digit hexadecimal fee.
\<close>

theorem createPool_indexes_both_directions:
  assumes "executionStatus tx = ''successful''" and "parseEvents events ''dex'' ''tokenRegistered'' (Some (tx_id tx)) = Inr registered"
    and "foldR (register_token env) registered st = Inr st0"
    and "dex_event events ''poolCreated'' tx = Inr (Some created)" and "dex_event events ''poolInitialized'' tx = Inr (Some initialized)"
    and "created_ok created a b f pa" and "computePoolId (getAddressFromKlayr32Address env) (hash env) (AStr pa) = Inr cid"
    and "token_decimal registered created ''token0'' (st_db st0) = Inr (Some dec0)" and "token_decimal registered created ''token1'' (st_db st0) = Inr (Some dec1)"
    and "table_wf poolTableSchema (working (st_db st0) ''pool'')"
  shows "\<exists>st1. applyCreatePool env ts tx events st = Inr st1
     \<and> lookup_key poolTableSchema [JStr a, JStr b, JNum (int f)] (working (st_db st1) ''pool'') = Some (pool_cells env ts created initialized a b f pa cid dec0 dec1 False)
     \<and> lookup_key poolTableSchema [JStr b, JStr a, JNum (int f)] (working (st_db st1) ''pool'') = Some (pool_cells env ts created initialized a b f pa cid dec0 dec1 True)
     \<and> length (hex_encode (be_bytes 3 f)) = 6"
proof -
  let ?c = "\<lambda>i. pool_cells env ts created initialized a b f pa cid dec0 dec1 i"
  define st1 where "st1 = st0\<lparr>st_db := run_stmt ''pool'' True (sql_insert_merge poolTableSchema (?c True)) (run_stmt ''pool'' True (sql_insert_merge poolTableSchema (?c False)) (st_db st0))\<rparr>"
  have fee: "writeUIntBE (js_parseInt (js_String (data created ''fee''))) 3 = Inr (be_bytes 3 f)"
    using assms(6) js_parseInt_show_nat [of f] by (simp add: created_ok_def writeUIntBE_def)
  have cid: "created_pool_id env created = Inr cid" using assms(6,7) by (simp add: created_pool_id_def created_ok_def)
  have "applyCreatePool env ts tx events st = Inr st1"
    using assms(1-5,8,9) fee cid by (simp add: applyCreatePool_def deref_def pool_row_stmt [OF assms(6)] st1_def)
  moreover have "a \<noteq> b" using assms(6) by (simp add: created_ok_def)
  moreover have wf: "table_wf poolTableSchema (sql_insert_merge poolTableSchema (?c False) (working (st_db st0) ''pool''))"
    by (rule pool_tbl.inv_upd [OF assms(10)])
  ultimately show ?thesis
    using lookup_insert_full [OF config_wf_poolTableSchema assms(10) pool_cells_key(2)] lookup_insert_full [OF config_wf_poolTableSchema wf pool_cells_key(2)]
    by (auto simp: st1_def pool_cells_key)
qed

definition example_created :: event where
  "example_created = example_event ''poolCreated'' [(''token0'', JStr ''0000000000000000''), (''token1'', JStr ''0000000100000000''), (''fee'', JStr (show_nat 3000)),
     (''poolAddress'', JStr (CHR ''k'' # example_pool)), (''tickSpacing'', JNum 60)]"

definition example_initialized :: event where
  "example_initialized = example_event ''poolInitialized'' [(''tick'', JNum 5)]"

lemma example_pool_events:
  "parseEvents [Some example_created, Some example_initialized] ''dex'' ''tokenRegistered'' (Some (tx_id example_tx)) = Inr []"
  "dex_event [Some example_created, Some example_initialized] ''poolCreated'' example_tx = Inr (Some example_created)"
  "dex_event [Some example_created, Some example_initialized] ''poolInitialized'' example_tx = Inr (Some example_initialized)"
  by (simp_all add: parseEvents_def dex_event_def parseSingleEvent_def event_matches_def topics_include_def example_tx_def
      example_created_def example_initialized_def example_event_def TX_ID_def map_filter_simps)

lemma example_created_ok: "created_ok example_created ''0000000000000000'' ''0000000100000000'' 3000 (CHR ''k'' # example_pool)"
  by (simp add: created_ok_def example_created_def example_event_def field_def)

lemma example_decimals:
  "token_decimal [] example_created ''token0'' (st_db example_state) = Inr (Some (JNum 8))"
  "token_decimal [] example_created ''token1'' (st_db example_state) = Inr (Some (JNum 8))"
  by (simp_all add: token_decimal_def find_tbl_def find_query_simps read_table_def example_state_def example_created_def example_event_def
      field_def tvl_names row_get_def sql_eq_def Let_def)

theorem createPool_indexes_both_directions_witness:
  "\<exists>st1 r. applyCreatePool example_env 100 example_tx [Some example_created, Some example_initialized] example_state = Inr st1
     \<and> lookup_key poolTableSchema [JStr ''0000000100000000'', JStr ''0000000000000000'', JNum (int 3000)] (working (st_db st1) ''pool'') = Some r"
proof -
  have id: "\<exists>cid. computePoolId (getAddressFromKlayr32Address example_env) (hash example_env) (AStr (CHR ''k'' # example_pool)) = Inr cid"
    by (simp add: computePoolId_def example_env_def example_pool_def hex_val_def)
  then obtain cid where cid: "computePoolId (getAddressFromKlayr32Address example_env) (hash example_env) (AStr (CHR ''k'' # example_pool)) = Inr cid" ..
  have s: "executionStatus example_tx = ''successful''" by (simp add: example_tx_def)
  have f: "foldR (register_token example_env) [] example_state = Inr example_state" by simp
  have t: "table_wf poolTableSchema (working (st_db example_state) ''pool'')" by (simp add: table_wf_def example_state_def Let_def)
  show ?thesis
    using createPool_indexes_both_directions [OF s example_pool_events(1) f example_pool_events(2,3) example_created_ok cid example_decimals t, of 100] by blast
qed

text \<open>
  A block in which a pool was created cannot be reverted: the reversal passes three separate
  values where the three-column primary key of the pool table needs one tuple, and the database
  refuses the statement, whatever the state of the index.
\<close>

theorem createPool_revert_fails:
  assumes "executionStatus tx = ''successful''" and "parseEvents events ''dex'' ''tokenRegistered'' (Some (tx_id tx)) = Inr registered"
    and "dex_event events ''poolCreated'' tx = Inr (Some created)"
  shows "revertCreatePool env ts tx events st = Inl (SqlError ''Operand should contain n column(s)'')"
proof -
  have "\<exists>st'. foldR (\<lambda>e. with_db (deleteByPrimaryKey dexTokenTableSchema [Scalar (data e ''tokenId'')] True)) registered st = Inr st'"
    by (induction registered arbitrary: st) (simp_all add: with_db_def deleteByPrimaryKey_def schema_defs)
  moreover have "length (primaryKey poolTableSchema) = 3" by (simp add: schema_defs)
  ultimately show ?thesis using assms by (auto simp: revertCreatePool_def deref_def with_db_def deleteByPrimaryKey_def)
qed

theorem createPool_revert_fails_witness:
  "revertCreatePool example_env 100 example_tx [Some example_created, Some example_initialized] example_state = Inl (SqlError ''Operand should contain n column(s)'')"
proof -
  have "executionStatus example_tx = ''successful''" by (simp add: example_tx_def)
  then show ?thesis by (rule createPool_revert_fails [OF _ example_pool_events(1,2)])
qed

text \<open>The tick rows are written outside the block's transaction: when the block is rolled back, the TVL
  rows disappear but the ticks keep the new net liquidity.\<close>

lemma rollback_keeps_ticks:
  assumes "liquidity_context env tx events ''increaseLiquidity'' liq ''mint'' ticks pa key pd" and "tick_numbers ticks tc"
    and "js_Number (data liq ''amount0'') = JNum a0" and "js_Number (data liq ''amount1'') = JNum a1" and "js_Number (data liq ''liquidity'') = JNum n"
    and "tokens_known key (st_db st)" and "table_wf tickTableSchema (committed (st_db st) ''tick'')" and "tc_lower tc \<noteq> tc_upper tc"
  shows "\<exists>st1. applyIncreaseLiquidity env ts tx events st = Inr st1
     \<and> working (rollbackDBTransaction (st_db st1)) ''tvl'' = committed (st_db st) ''tvl''
     \<and> tick_net (working (rollbackDBTransaction (st_db st1)) ''tick'') pa (tc_lower tc) = Some (JNum (tc_lowerNet tc))"
proof -
  note wf = assms(7) tick_tbl.inv_upd [OF assms(7)]
  show ?thesis unfolding increase_effect(1) [OF assms(1,2,6,3,4,5)]
    using assms(8) by (simp add: rollbackDBTransaction_def liquidity_db_def pool_sync_db_def position_db_def ticks_db_def tvl_db_def
        tick_net_def wf look_tick_upd row_get_def Let_def)
qed

end
