(* ===== verification/Pos_Processors.thy ===== *)
theory Pos_Processors
  imports Dex_Processors
begin

text \<open>
  The commands of the modules \<^verbatim>\<open>pos\<close> and \<^verbatim>\<open>legacy\<close> (\<^verbatim>\<open>indexer/transactionProcessor/pos\<close>,
  \<^verbatim>\<open>indexer/transactionProcessor/legacy\<close>) and the rewards of a block's generator
  (\<^verbatim>\<open>indexer/utils/validator.js\<close>, \<^verbatim>\<open>indexer/utils/blockchainIndex.js\<close>). A transaction is the one of
  \<open>Dex_Processors\<close> with its module, its command, the fields the transactions table takes, and
  the parameters that are arrays.
\<close>

section \<open>Transactions and environment\<close>

record command_tx = tx +
  tx_module :: string
  tx_command :: string
  tx_fields :: row
  objects_param :: "string \<Rightarrow> row list"
  strings_param :: "string \<Rightarrow> string list"

text \<open>
  \<open>q96_muldiv a b c\<close> is \<^verbatim>\<open>q96(a).muldiv(q96(b), q96(c)).floor()\<close> of \<^verbatim>\<open>@klayr/utils\<close>,
  \<open>formatTransaction\<close> the minimum fee the connector computes with an additional fee, \<open>kv_prefix\<close>
  the key prefix of the service.
\<close>

record pos_env = env +
  kv_prefix :: string
  getPosTokenID :: string
  defaultCommission :: jsval
  validatorRegistrationFee :: jsval
  formatTransaction :: "command_tx \<Rightarrow> jsval \<Rightarrow> jsval result"
  q96_muldiv :: "int \<Rightarrow> int \<Rightarrow> int \<Rightarrow> int"

definition SUCCESSFUL :: string where "SUCCESSFUL = ''successful''"

definition TOTAL_LOCKED :: string where "TOTAL_LOCKED = ''total_locked_''"

definition TOTAL_STAKED :: string where "TOTAL_STAKED = ''total_staked_''"

definition TOTAL_SELF_STAKED :: string where "TOTAL_SELF_STAKED = ''total_self_staked_''"

definition MAX_COMMISSION :: int where "MAX_COMMISSION = 10000"

definition senderOf :: "'a env_scheme \<Rightarrow> command_tx \<Rightarrow> jsval" where
  "senderOf env tx = JStr (getKlayr32AddressFromPublicKeyHelper env (hex_decode (senderPublicKey tx)))"

section \<open>Running totals in the key-value store\<close>

text \<open>The current amount is read outside the transaction, the new one written inside.\<close>

definition add_total :: "string \<Rightarrow> string \<Rightarrow> int \<Rightarrow> db \<Rightarrow> db result" where
  "add_total prefix key change d =
     bindR (kv_get prefix key False d) (\<lambda>v. bindR (js_BigInt (js_or v (JNum 0))) (\<lambda>cur.
       kv_set prefix key (JBig (cur + change)) True d))"

definition updateTotalStake :: "pos_env \<Rightarrow> int \<Rightarrow> istate \<Rightarrow> istate result" where
  "updateTotalStake env changeAmount = with_db (add_total (kv_prefix env) (TOTAL_STAKED @ getPosTokenID env) changeAmount)"

definition updateTotalSelfStake :: "pos_env \<Rightarrow> int \<Rightarrow> istate \<Rightarrow> istate result" where
  "updateTotalSelfStake env changeAmount = with_db (add_total (kv_prefix env) (TOTAL_SELF_STAKED @ getPosTokenID env) changeAmount)"

definition updateTotalLockedAmounts :: "pos_env \<Rightarrow> (string \<times> int) list \<Rightarrow> istate \<Rightarrow> istate result" where
  "updateTotalLockedAmounts env changes =
     foldR (\<lambda>(tokenID, change). with_db (add_total (kv_prefix env) (TOTAL_LOCKED @ tokenID) change)) changes"

section \<open>stake\<close>

record stake =
  stakerAddress :: jsval
  validatorAddress :: jsval
  stake_amount :: int

definition stake_of :: "pos_env \<Rightarrow> command_tx \<Rightarrow> row \<Rightarrow> stake result" where
  "stake_of env tx s = bindR (js_BigInt (field s ''amount'')) (\<lambda>n.
     Inr \<lparr>stakerAddress = senderOf env tx, validatorAddress = field s ''validatorAddress'', stake_amount = n\<rparr>)"

definition getStakeIndexingInfo :: "pos_env \<Rightarrow> command_tx \<Rightarrow> stake list result" where
  "getStakeIndexingInfo env tx = mapR (stake_of env tx) (objects_param tx ''stakes'')"

definition stake_where :: "stake \<Rightarrow> row" where
  "stake_where s = [(''stakerAddress'', stakerAddress s), (''validatorAddress'', validatorAddress s)]"

definition rows_affected :: "table_config \<Rightarrow> row \<Rightarrow> bool \<Rightarrow> db \<Rightarrow> nat" where
  "rows_affected cfg wh trx d = length (filter (eq_cond wh) (read_table (tableName cfg) trx d))"

definition incrementStakeTrx :: "stake \<Rightarrow> db \<Rightarrow> db result" where
  "incrementStakeTrx s d =
     bindR (increment stakesTableSchema ''amount'' (stake_amount s) (stake_where s) True d) (\<lambda>d'.
       if rows_affected stakesTableSchema (stake_where s) True d = 0
       then upsert stakesTableSchema [stake_where s @ [(''amount'', JBig (stake_amount s))]] True d'
       else Inr d')"

definition decrementStakeTrx :: "stake \<Rightarrow> db \<Rightarrow> db result" where
  "decrementStakeTrx s d = decrement stakesTableSchema ''amount'' (stake_amount s) (stake_where s) True d"

definition self_stakes :: "stake list \<Rightarrow> stake list" where
  "self_stakes ss = filter (\<lambda>s. stakerAddress s = validatorAddress s) ss"

definition total_of :: "stake list \<Rightarrow> int" where
  "total_of ss = sum_list (map stake_amount ss)"

definition applyStake :: "pos_env \<Rightarrow> block \<Rightarrow> command_tx \<Rightarrow> event option list \<Rightarrow> istate \<Rightarrow> istate result" where
  "applyStake env blockHeader tx events st =
     (if executionStatus tx \<noteq> SUCCESSFUL then Inr st
      else bindR (getStakeIndexingInfo env tx) (\<lambda>stakes.
           bindR (foldR (\<lambda>s. with_db (incrementStakeTrx s)) stakes st) (\<lambda>st.
           bindR (updateTotalStake env (total_of stakes) st)
                 (updateTotalSelfStake env (total_of (self_stakes stakes))))))"

definition revertStake :: "pos_env \<Rightarrow> block \<Rightarrow> command_tx \<Rightarrow> event option list \<Rightarrow> istate \<Rightarrow> istate result" where
  "revertStake env blockHeader tx events st =
     (if executionStatus tx \<noteq> SUCCESSFUL then Inr st
      else bindR (getStakeIndexingInfo env tx) (\<lambda>stakes.
           bindR (foldR (\<lambda>s. with_db (decrementStakeTrx s)) stakes st) (\<lambda>st.
           bindR (updateTotalStake env (- total_of stakes) st)
                 (updateTotalSelfStake env (- total_of (self_stakes stakes))))))"

section \<open>changeCommission, registerValidator, updateGeneratorKey\<close>

definition commission_row :: "jsval \<Rightarrow> jsval \<Rightarrow> block \<Rightarrow> row" where
  "commission_row address commission blockHeader =
     [(''address'', address), (''commission'', commission), (''height'', JNum (bl_height blockHeader))]"

definition applyChangeCommission :: "pos_env \<Rightarrow> block \<Rightarrow> command_tx \<Rightarrow> event option list \<Rightarrow> istate \<Rightarrow> istate result" where
  "applyChangeCommission env blockHeader tx events st =
     (if executionStatus tx \<noteq> SUCCESSFUL then Inr st
      else with_db (upsert commissionsTableSchema
             [commission_row (senderOf env tx) (field (tx_params tx) ''newCommission'') blockHeader] True) st)"

definition revertChangeCommission :: "pos_env \<Rightarrow> block \<Rightarrow> command_tx \<Rightarrow> event option list \<Rightarrow> istate \<Rightarrow> istate result" where
  "revertChangeCommission env blockHeader tx events st =
     (if executionStatus tx \<noteq> SUCCESSFUL then Inr st
      else with_db (deleteByParams commissionsTableSchema
             (row_params (commission_row (senderOf env tx) (field (tx_params tx) ''newCommission'') blockHeader)) True) st)"

definition with_field :: "row \<Rightarrow> string \<Rightarrow> jsval \<Rightarrow> row" where
  "with_field r c v = (c, v) # filter (\<lambda>(d, _). d \<noteq> c) r"

definition applyRegisterValidator :: "pos_env \<Rightarrow> block \<Rightarrow> command_tx \<Rightarrow> event option list \<Rightarrow> istate \<Rightarrow> istate result" where
  "applyRegisterValidator env blockHeader tx events st =
     (if executionStatus tx \<noteq> SUCCESSFUL then Inr st
      else let p = field (tx_params tx);
               account = [(''address'', field (tx_fields tx) ''senderAddress''), (''publicKey'', JStr (senderPublicKey tx)),
                 (''name'', p ''name''), (''isValidator'', JBool True), (''blsKey'', p ''blsKey''),
                 (''proofOfPossession'', p ''proofOfPossession''), (''generatorKey'', p ''generatorKey'')]
           in bindR (with_db (upsert accountsTableSchema [account] True) st) (\<lambda>st.
              bindR (with_db (upsert validatorsTableSchema [account] True) st) (\<lambda>st.
              bindR (formatTransaction env tx (validatorRegistrationFee env)) (\<lambda>minFee.
              bindR (with_db (upsert transactionsTableSchema [with_field (tx_fields tx) ''minFee'' minFee] True) st)
                (with_db (upsert commissionsTableSchema
                   [commission_row (field (tx_fields tx) ''senderAddress'') (defaultCommission env) blockHeader] True))))))"

definition revertRegisterValidator :: "pos_env \<Rightarrow> block \<Rightarrow> command_tx \<Rightarrow> event option list \<Rightarrow> istate \<Rightarrow> istate result" where
  "revertRegisterValidator env blockHeader tx events st =
     (if executionStatus tx \<noteq> SUCCESSFUL then Inr st
      else let address = field (tx_fields tx) ''senderAddress'';
               account = [(''address'', address), (''publicKey'', JStr (senderPublicKey tx)), (''name'', JNull),
                 (''isValidator'', JBool False), (''blsKey'', JNull), (''proofOfPossession'', JNull), (''generatorKey'', JNull)]
           in bindR (with_db (upsert accountsTableSchema [account] True) st) (\<lambda>st.
              bindR (with_db (deleteByPrimaryKey validatorsTableSchema [Scalar address] True) st)
                (with_db (deleteByParams commissionsTableSchema
                   (row_params (commission_row address (defaultCommission env) blockHeader)) True))))"

definition applyUpdateGeneratorKey :: "pos_env \<Rightarrow> block \<Rightarrow> command_tx \<Rightarrow> event option list \<Rightarrow> istate \<Rightarrow> istate result" where
  "applyUpdateGeneratorKey env blockHeader tx events st =
     (if executionStatus tx \<noteq> SUCCESSFUL then Inr st
      else let validator = [(''address'', senderOf env tx), (''publicKey'', JStr (senderPublicKey tx)),
                 (''isValidator'', JBool True), (''generatorKey'', field (tx_params tx) ''generatorKey'')]
           in bindR (with_db (upsert accountsTableSchema [validator] True) st)
                (with_db (upsert validatorsTableSchema [validator] True)))"

definition revertUpdateGeneratorKey :: "pos_env \<Rightarrow> block \<Rightarrow> command_tx \<Rightarrow> event option list \<Rightarrow> istate \<Rightarrow> istate result" where
  "revertUpdateGeneratorKey env blockHeader tx events st =
     (if executionStatus tx \<noteq> SUCCESSFUL then Inr st
      else with_db (upsert validatorsTableSchema [[(''address'', senderOf env tx), (''generatorKey'', JNull)]] True) st)"

section \<open>legacy: registerKeys\<close>

definition applyRegisterKeys :: "pos_env \<Rightarrow> block \<Rightarrow> command_tx \<Rightarrow> event option list \<Rightarrow> istate \<Rightarrow> istate result" where
  "applyRegisterKeys env blockHeader tx events st =
     (if executionStatus tx \<noteq> SUCCESSFUL then Inr st
      else let p = field (tx_params tx);
               account = [(''address'', senderOf env tx), (''publicKey'', JStr (senderPublicKey tx)), (''isValidator'', JBool True),
                 (''blsKey'', p ''blsKey''), (''proofOfPossession'', p ''proofOfPossession''), (''generatorKey'', p ''generatorKey'')]
           in bindR (with_db (upsert accountsTableSchema [account] True) st)
                (with_db (upsert validatorsTableSchema [account] True)))"

definition revertRegisterKeys :: "pos_env \<Rightarrow> block \<Rightarrow> command_tx \<Rightarrow> event option list \<Rightarrow> istate \<Rightarrow> istate result" where
  "revertRegisterKeys env blockHeader tx events st =
     (if executionStatus tx \<noteq> SUCCESSFUL then Inr st
      else let account = [(''address'', senderOf env tx), (''publicKey'', JStr (senderPublicKey tx)), (''isValidator'', JBool True),
                 (''blsKey'', JNull), (''proofOfPossession'', JNull), (''generatorKey'', JNull)]
           in bindR (with_db (upsert accountsTableSchema [account] True) st)
                (with_db (deleteByPrimaryKey validatorsTableSchema [Scalar (senderOf env tx)] True)))"

section \<open>Rewards of the generator\<close>

definition calcCommissionAmount :: "pos_env \<Rightarrow> jsval \<Rightarrow> int \<Rightarrow> int \<Rightarrow> db \<Rightarrow> int result" where
  "calcCommissionAmount env generatorAddress blockHeight blockReward d =
     bindR (find_tbl commissionsTableSchema
        [(''address'', PVal generatorAddress),
         (''propBetweens'', PBetweens [\<lparr>pb_property = ''height'', pb_from = None, pb_to = None, pb_greaterThanEqualTo = None,
            pb_lowerThanEqualTo = None, pb_greaterThan = None, pb_lowerThan = Some (JNum blockHeight)\<rparr>]),
         (''sort'', PVal (JStr ''height:desc'')), (''limit'', PVal (JNum 1))]
        (Some [''commission'']) False d) (\<lambda>rs.
     bindR (js_BigInt (case rs of r # _ \<Rightarrow> row_get r ''commission'' | [] \<Rightarrow> JNum 0)) (\<lambda>commission.
       Inr (q96_muldiv env blockReward commission MAX_COMMISSION)))"

definition calcSelfStakeReward :: "pos_env \<Rightarrow> jsval \<Rightarrow> int \<Rightarrow> int \<Rightarrow> db \<Rightarrow> int result" where
  "calcSelfStakeReward env generatorAddress blockReward commissionAmount d =
     bindR (find_tbl stakesTableSchema [(''validatorAddress'', PVal generatorAddress)] (Some [''stakerAddress'', ''amount'']) False d) (\<lambda>stakerInfo.
     bindR (mapR (\<lambda>r. js_BigInt (row_get r ''amount'')) (filter (\<lambda>r. row_get r ''stakerAddress'' = generatorAddress) stakerInfo)) (\<lambda>own.
     bindR (mapR (\<lambda>r. js_BigInt (row_get r ''amount'')) stakerInfo) (\<lambda>all.
       let selfStakes = sum_list own; totalStakes = sum_list all in
       Inr (if totalStakes \<le> 0 then 0
            else q96_muldiv env (blockReward - commissionAmount) selfStakes totalStakes))))"

section \<open>The stakes table\<close>

definition stakes_ok :: "table \<Rightarrow> bool" where
  "stakes_ok t \<longleftrightarrow> table_typed stakesTableSchema t \<and> list_all (\<lambda>r. row_get r ''amount'' \<noteq> JNull) t"

fun num_of :: "jsval \<Rightarrow> int" where
  "num_of (JNum n) = n"
| "num_of (JBig n) = n"
| "num_of _ = 0"

definition staked :: "table \<Rightarrow> jsval \<Rightarrow> jsval \<Rightarrow> int" where
  "staked t validator staker = (case lookup_key stakesTableSchema [validator, staker] t of
     None \<Rightarrow> 0 | Some r \<Rightarrow> num_of (row_get r ''amount''))"

definition stake_typed :: "stake \<Rightarrow> bool" where
  "stake_typed s \<longleftrightarrow> is_str (stakerAddress s) \<and> is_str (validatorAddress s)"

abbreviation stake_key :: "stake \<Rightarrow> jsval list" where
  "stake_key s \<equiv> [validatorAddress s, stakerAddress s]"

lemma stakes_names [simp]: "tableName stakesTableSchema = ''stakes''" "primaryKey stakesTableSchema = [''validatorAddress'', ''stakerAddress'']"
  by (simp_all add: stakesTableSchema_def)

lemma stakes_cells:
  assumes "stakes_ok t" and "r \<in> set t"
  shows "cell_ok ''string'' (row_get r ''stakerAddress'')" "cell_ok ''string'' (row_get r ''validatorAddress'')" "is_num (row_get r ''amount'')"
  using assms by (auto simp: stakes_ok_def table_typed_def list_all_iff row_typed_def stakesTableSchema_def mk_col_def cell_ok_def)

lemma stake_where_key:
  assumes "stakes_ok t" and "r \<in> set t" and "stake_typed s"
  shows "eq_cond (stake_where s) r \<longleftrightarrow> row_key stakesTableSchema r = stake_key s"
proof -
  obtain a b where "stakerAddress s = JStr a" "validatorAddress s = JStr b"
    using assms(3) by (auto simp: stake_typed_def elim!: is_str.elims)
  then show ?thesis using stakes_cells [OF assms(1,2)]
    by (auto simp: eq_cond_def stake_where_def row_key_def sql_eq_typed)
qed

lemma stake_query: "stake_typed s \<Longrightarrow> queryBuilder False [(''where'', PRow (stake_where s))] = Inr (eq_cond (stake_where s))"
  by (auto simp: queryBuilder_def where_clauses_def sort_clauses_def sort_param_def in_clauses_def whereIn_clauses_def
      nested_clauses_def null_clauses_def like_clauses_def eval_where_both stake_where_def stake_typed_def)

lemma stakes_ok_add: "stakes_ok t \<Longrightarrow> stakes_ok (sql_add P ''amount'' n t)"
proof -
  assume t: "stakes_ok t"
  have "row_get (map (\<lambda>(d, v). (d, if d = ''amount'' then sql_plus v n else v)) r) ''amount'' \<noteq> JNull" if "is_num (row_get r ''amount'')" for r
    using that by (induction r) (auto simp: row_get_def elim!: is_num.elims)
  then show ?thesis using t stakes_cells(3) [OF t] table_typed_add [of "''amount''" stakesTableSchema t P n]
    by (auto simp: stakes_ok_def list_all_iff sql_add_def)
qed

lemma row_get_add_num:
  "is_num (row_get r c) \<Longrightarrow> row_get (map (\<lambda>(d, v). (d, if d = c then sql_plus v n else v)) r) c = sql_plus (row_get r c) n"
  by (simp add: row_get_add) (auto simp: row_get_def split: option.splits)

lemma num_of_plus: "is_num v \<Longrightarrow> num_of (sql_plus v n) = num_of v + n"
  by (cases v) simp_all

lemma lookup_add:
  assumes "c \<notin> set (primaryKey cfg)"
  shows "lookup_key cfg k (sql_add P c n t) =
     map_option (\<lambda>r. if P r then map (\<lambda>(d, v). (d, if d = c then sql_plus v n else v)) r else r) (lookup_key cfg k t)"
  unfolding lookup_key_def sql_add_def
  by (rule find_map_if) (use assms in \<open>auto simp: row_key_def row_get_add\<close>)

lemma lookup_stakes_add: "lookup_key stakesTableSchema k (sql_add P ''amount'' n t) = None \<longleftrightarrow> lookup_key stakesTableSchema k t = None"
  by (simp add: lookup_add)

lemma staked_add:
  assumes t: "stakes_ok t" and s: "stake_typed s"
  shows "staked (sql_add (eq_cond (stake_where s)) ''amount'' n t) v w =
     staked t v w + (if [v, w] = stake_key s \<and> lookup_key stakesTableSchema (stake_key s) t \<noteq> None then n else 0)"
proof -
  let ?a = "\<lambda>r. if eq_cond (stake_where s) r then map (\<lambda>(d, x). (d, if d = ''amount'' then sql_plus x n else x)) r else r"
  have wf: "table_wf stakesTableSchema t" using t by (simp add: stakes_ok_def table_typed_def)
  have num: "num_of (row_get (?a r) ''amount'') = num_of (row_get r ''amount'') + (if row_key stakesTableSchema r = stake_key s then n else 0)"
    if "r \<in> set t" for r
    using stake_where_key [OF t that s] stakes_cells(3) [OF t that] by (simp add: row_get_add_num num_of_plus)
  show ?thesis
  proof (cases "lookup_key stakesTableSchema [v, w] t")
    case None
    then show ?thesis by (auto simp: staked_def lookup_add)
  next
    case (Some r)
    then have r: "r \<in> set t" "row_key stakesTableSchema r = [v, w]" using lookup_key_Some [OF wf] by auto
    have "staked (sql_add (eq_cond (stake_where s)) ''amount'' n t) v w = num_of (row_get (?a r) ''amount'')"
      using Some by (simp add: staked_def lookup_add)
    then show ?thesis using Some num [OF r(1)] r(2) by (auto simp: staked_def)
  qed
qed

lemma rows_affected_lookup:
  assumes "stakes_ok (working d ''stakes'')" and "stake_typed s"
  shows "rows_affected stakesTableSchema (stake_where s) True d = 0 \<longleftrightarrow> lookup_key stakesTableSchema (stake_key s) (working d ''stakes'') = None"
  using stake_where_key [OF assms(1) _ assms(2)] by (simp add: rows_affected_def read_table_def filter_empty_conv lookup_key_None)

definition stake_cells :: "stake \<Rightarrow> row" where
  "stake_cells s = stake_where s @ [(''amount'', JBig (stake_amount s))]"

lemma upsert_stake:
  assumes "stake_typed s"
  shows "upsert stakesTableSchema [stake_cells s] True d = Inr (run_stmt ''stakes'' True (sql_insert_merge stakesTableSchema (stake_cells s)) d)"
proof -
  obtain a b where ab: "stakerAddress s = JStr a" "validatorAddress s = JStr b"
    using assms by (auto simp: stake_typed_def elim!: is_str.elims)
  have "mapRowsBySchema [stake_cells s] (schema stakesTableSchema) = Inr [stake_cells s]"
    using ab by (simp add: stake_cells_def stake_where_def stakesTableSchema_def mk_col_def cast_def getValue_def)
  moreover have "not_null_ok stakesTableSchema (stake_cells s)"
    using ab by (simp add: not_null_ok_def stake_cells_def stake_where_def stakesTableSchema_def mk_col_def fill_row_def row_get_def)
  ultimately show ?thesis by (simp add: upsert_def)
qed

lemma stakes_insert:
  assumes t: "stakes_ok t" and s: "stake_typed s" and new: "lookup_key stakesTableSchema (stake_key s) t = None"
  shows "stakes_ok (sql_insert_merge stakesTableSchema (stake_cells s) t)"
    "staked (sql_insert_merge stakesTableSchema (stake_cells s) t) v w = staked t v w + (if [v, w] = stake_key s then stake_amount s else 0)"
proof -
  obtain a b where ab: "stakerAddress s = JStr a" "validatorAddress s = JStr b"
    using s by (auto simp: stake_typed_def elim!: is_str.elims)
  have names: "map fst (stake_cells s) = map col_name (schema stakesTableSchema)"
    by (simp add: stake_cells_def stake_where_def stakesTableSchema_def mk_col_def)
  have key: "row_key stakesTableSchema (stake_cells s) = stake_key s"
    by (simp add: row_key_def stake_cells_def stake_where_def row_get_def)
  have fill: "fill_row stakesTableSchema (stake_cells s) = stake_cells s"
    by (rule fill_full [OF config_wf_stakesTableSchema names])
  have wf: "table_wf stakesTableSchema t" using t by (simp add: stakes_ok_def table_typed_def)
  have ins: "sql_insert_merge stakesTableSchema (stake_cells s) t = t @ [stake_cells s]"
    using new by (simp add: insert_merge_cases fill key)
  have "row_typed stakesTableSchema (stake_cells s)" using ab
    by (simp add: row_typed_def stake_cells_def stake_where_def stakesTableSchema_def mk_col_def row_get_def cell_ok_def)
  moreover have "table_wf stakesTableSchema (t @ [stake_cells s])"
    using table_wf_insert [OF config_wf_stakesTableSchema wf, of "stake_cells s"] ins by simp
  ultimately show "stakes_ok (sql_insert_merge stakesTableSchema (stake_cells s) t)"
    using t by (simp add: ins stakes_ok_def table_typed_def) (simp add: stake_cells_def stake_where_def row_get_def)
  show "staked (sql_insert_merge stakesTableSchema (stake_cells s) t) v w = staked t v w + (if [v, w] = stake_key s then stake_amount s else 0)"
    using new lookup_insert_full [OF config_wf_stakesTableSchema wf names]
    by (auto simp: staked_def key) (simp_all add: stake_cells_def stake_where_def row_get_def)
qed

text \<open>One step: the amount of one pair changes, nothing else.\<close>

lemma increment_stake_step:
  assumes t: "stakes_ok (working d ''stakes'')" and s: "stake_typed s"
  shows "\<exists>d'. incrementStakeTrx s d = Inr d' \<and> stakes_ok (working d' ''stakes'')
     \<and> (\<forall>n. n \<noteq> ''stakes'' \<longrightarrow> working d' n = working d n) \<and> committed d' = committed d
     \<and> (\<forall>k. lookup_key stakesTableSchema k (working d' ''stakes'') = None \<longleftrightarrow> k \<noteq> stake_key s \<and> lookup_key stakesTableSchema k (working d ''stakes'') = None)
     \<and> (\<forall>v w. staked (working d' ''stakes'') v w = staked (working d ''stakes'') v w + (if [v, w] = stake_key s then stake_amount s else 0))"
proof -
  let ?d = "run_stmt ''stakes'' True (sql_add (eq_cond (stake_where s)) ''amount'' (stake_amount s)) d"
  have inc: "increment stakesTableSchema ''amount'' (stake_amount s) (stake_where s) True d = Inr ?d"
    using stake_query [OF s] by (simp add: increment_def)
  show ?thesis
  proof (cases "lookup_key stakesTableSchema (stake_key s) (working d ''stakes'') = None")
    case True
    have id: "sql_add (eq_cond (stake_where s)) ''amount'' (stake_amount s) (working d ''stakes'') = working d ''stakes''"
      using True stake_where_key [OF t _ s] by (auto simp: sql_add_def lookup_key_None intro!: map_idI)
    let ?d' = "run_stmt ''stakes'' True (sql_insert_merge stakesTableSchema (stake_cells s)) ?d"
    have "incrementStakeTrx s d = Inr ?d'"
      using True inc upsert_stake [OF s] rows_affected_lookup [OF t s] by (simp add: incrementStakeTrx_def stake_cells_def)
    moreover have "lookup_key stakesTableSchema k (sql_insert_merge stakesTableSchema (stake_cells s) (working d ''stakes'')) = None
        \<longleftrightarrow> k \<noteq> stake_key s \<and> lookup_key stakesTableSchema k (working d ''stakes'') = None" for k
    proof -
      have "row_key stakesTableSchema (fill_row stakesTableSchema (stake_cells s)) = stake_key s"
        by (simp add: row_key_def stake_cells_def stake_where_def row_get_def fill_row_def stakesTableSchema_def mk_col_def)
      then show ?thesis using True by (auto simp: insert_merge_cases lookup_key_None)
    qed
    moreover have "committed ?d' = committed d" by (simp add: run_stmt_def)
    ultimately show ?thesis using stakes_insert [OF t s True] by (auto simp: id)
  next
    case False
    have "incrementStakeTrx s d = Inr ?d"
      using False inc rows_affected_lookup [OF t s] by (auto simp: incrementStakeTrx_def)
    moreover have "lookup_key stakesTableSchema k (sql_add (eq_cond (stake_where s)) ''amount'' (stake_amount s) (working d ''stakes'')) = None
        \<longleftrightarrow> k \<noteq> stake_key s \<and> lookup_key stakesTableSchema k (working d ''stakes'') = None" for k
      using False lookup_stakes_add by metis
    moreover have "committed ?d = committed d" by (simp add: run_stmt_def)
    ultimately show ?thesis using stakes_ok_add [OF t] staked_add [OF t s] False by auto
  qed
qed


definition pair_total :: "stake list \<Rightarrow> jsval \<Rightarrow> jsval \<Rightarrow> int" where
  "pair_total ss v w = sum_list (map (\<lambda>s. if [v, w] = stake_key s then stake_amount s else 0) ss)"

text \<open>\<open>stakes_changed ss m st st'\<close>: every pair's amount changed by \<open>m\<close> times its total in \<open>ss\<close>, the
  rows of \<open>ss\<close> exist, and no other table changed.\<close>

definition stakes_changed :: "stake list \<Rightarrow> int \<Rightarrow> istate \<Rightarrow> istate \<Rightarrow> bool" where
  "stakes_changed ss m st st' \<longleftrightarrow> (\<exists>d'. st' = st\<lparr>st_db := d'\<rparr>) \<and> stakes_ok (working (st_db st') ''stakes'')
     \<and> (\<forall>n. n \<noteq> ''stakes'' \<longrightarrow> working (st_db st') n = working (st_db st) n) \<and> committed (st_db st') = committed (st_db st)
     \<and> (\<forall>s \<in> set ss. lookup_key stakesTableSchema (stake_key s) (working (st_db st') ''stakes'') \<noteq> None)
     \<and> (\<forall>v w. staked (working (st_db st') ''stakes'') v w = staked (working (st_db st) ''stakes'') v w + m * pair_total ss v w)"

lemma increment_stakes:
  assumes "list_all stake_typed ss" and "stakes_ok (working (st_db st) ''stakes'')"
  shows "\<exists>st'. foldR (\<lambda>s. with_db (incrementStakeTrx s)) ss st = Inr st' \<and> stakes_changed ss 1 st st'
     \<and> (\<forall>k. lookup_key stakesTableSchema k (working (st_db st) ''stakes'') \<noteq> None \<longrightarrow> lookup_key stakesTableSchema k (working (st_db st') ''stakes'') \<noteq> None)"
  using assms
proof (induction ss arbitrary: st)
  case Nil
  then show ?case by (auto simp: stakes_changed_def pair_total_def intro: exI [of _ "st_db st"])
next
  case (Cons s ss)
  obtain d' where d': "incrementStakeTrx s (st_db st) = Inr d'" "stakes_ok (working d' ''stakes'')"
    "\<And>n. n \<noteq> ''stakes'' \<Longrightarrow> working d' n = working (st_db st) n" "committed d' = committed (st_db st)"
    "\<And>k. lookup_key stakesTableSchema k (working d' ''stakes'') = None \<longleftrightarrow> k \<noteq> stake_key s \<and> lookup_key stakesTableSchema k (working (st_db st) ''stakes'') = None"
    "\<And>v w. staked (working d' ''stakes'') v w = staked (working (st_db st) ''stakes'') v w + (if [v, w] = stake_key s then stake_amount s else 0)"
    using increment_stake_step [of "st_db st" s] Cons.prems by auto
  obtain st' where st': "foldR (\<lambda>s. with_db (incrementStakeTrx s)) ss (st\<lparr>st_db := d'\<rparr>) = Inr st'" "stakes_changed ss 1 (st\<lparr>st_db := d'\<rparr>) st'"
    "\<And>k. lookup_key stakesTableSchema k (working d' ''stakes'') \<noteq> None \<Longrightarrow> lookup_key stakesTableSchema k (working (st_db st') ''stakes'') \<noteq> None"
    using Cons.IH [of "st\<lparr>st_db := d'\<rparr>"] Cons.prems d'(2) by auto
  have "foldR (\<lambda>s. with_db (incrementStakeTrx s)) (s # ss) st = Inr st'" using d'(1) st'(1) by (simp add: with_db_def)
  moreover have "lookup_key stakesTableSchema k (working (st_db st') ''stakes'') \<noteq> None"
    if "k = stake_key s \<or> lookup_key stakesTableSchema k (working (st_db st) ''stakes'') \<noteq> None" for k
    using that d'(5) [of k] st'(3) [of k] by auto
  ultimately show ?case using st'(2) d'(3,4,6) by (auto simp: stakes_changed_def pair_total_def)
qed

lemma decrement_stakes:
  assumes "list_all stake_typed ss" and "stakes_ok (working (st_db st) ''stakes'')"
    and "\<forall>s \<in> set ss. lookup_key stakesTableSchema (stake_key s) (working (st_db st) ''stakes'') \<noteq> None"
  shows "\<exists>st'. foldR (\<lambda>s. with_db (decrementStakeTrx s)) ss st = Inr st' \<and> stakes_changed ss (- 1) st st'
     \<and> (\<forall>k. lookup_key stakesTableSchema k (working (st_db st') ''stakes'') = None \<longleftrightarrow> lookup_key stakesTableSchema k (working (st_db st) ''stakes'') = None)"
  using assms
proof (induction ss arbitrary: st)
  case Nil
  then show ?case by (auto simp: stakes_changed_def pair_total_def intro: exI [of _ "st_db st"])
next
  case (Cons s ss)
  let ?f = "sql_add (eq_cond (stake_where s)) ''amount'' (- stake_amount s)"
  let ?d = "run_stmt ''stakes'' True ?f (st_db st)"
  have s: "stake_typed s" "stakes_ok (working (st_db st) ''stakes'')" using Cons.prems by auto
  have dec: "decrementStakeTrx s (st_db st) = Inr ?d" using stake_query [OF s(1)] by (simp add: decrementStakeTrx_def decrement_def)
  have com: "committed ?d = committed (st_db st)" by (simp add: run_stmt_def)
  obtain st' where st': "foldR (\<lambda>s. with_db (decrementStakeTrx s)) ss (st\<lparr>st_db := ?d\<rparr>) = Inr st'" "stakes_changed ss (- 1) (st\<lparr>st_db := ?d\<rparr>) st'"
    and kept: "\<And>k. lookup_key stakesTableSchema k (working (st_db st') ''stakes'') = None \<longleftrightarrow> lookup_key stakesTableSchema k (working (st_db st) ''stakes'') = None"
    using Cons.IH [of "st\<lparr>st_db := ?d\<rparr>"] Cons.prems stakes_ok_add [OF s(2)] by (auto simp: lookup_stakes_add)
  have "foldR (\<lambda>s. with_db (decrementStakeTrx s)) (s # ss) st = Inr st'" using dec st'(1) by (simp add: with_db_def)
  moreover have "stakes_changed (s # ss) (- 1) st st'"
  proof -
    have "staked (working ?d ''stakes'') v w = staked (working (st_db st) ''stakes'') v w - (if [v, w] = stake_key s then stake_amount s else 0)" for v w
      using staked_add [OF s(2,1), of "- stake_amount s"] Cons.prems(3) by simp
    moreover have "lookup_key stakesTableSchema (stake_key s) (working (st_db st') ''stakes'') \<noteq> None"
      using kept Cons.prems(3) by auto
    ultimately show ?thesis using st'(2) com by (auto simp: stakes_changed_def pair_total_def algebra_simps)
  qed
  ultimately show ?case using kept by blast
qed

section \<open>The totals\<close>

definition total_value :: "string \<Rightarrow> string \<Rightarrow> db \<Rightarrow> int \<Rightarrow> bool" where
  "total_value p k d n \<longleftrightarrow> kv_get p k False d = Inr (JBig n) \<or> (n = 0 \<and> kv_get p k False d = Inr JUndefined)"

lemma add_total_stmt:
  assumes "total_value p k d n"
  shows "add_total p k c d = Inr (run_stmt ''key_value_store'' True (sql_insert_merge keyValueStoreSchema (kv_cells p k (JBig (n + c)))) d)"
  using assms by (auto simp: add_total_def total_value_def js_or_def kv_set_stmt)

lemma total_value_committed: "committed d' ''key_value_store'' = committed d ''key_value_store'' \<Longrightarrow> total_value p k d' n = total_value p k d n"
  by (simp add: total_value_def kv_get_def find_tbl_def read_table_def) (simp add: keyValueStoreSchema_def)

lemma kv_get_working: "working d' ''key_value_store'' = working d ''key_value_store'' \<Longrightarrow> kv_get p k True d' = kv_get p k True d"
  by (simp add: kv_get_def find_tbl_def read_table_def) (simp add: keyValueStoreSchema_def)

text \<open>Both totals written after the rows.\<close>

lemma totals_written:
  assumes kv: "db_typed keyValueStoreSchema (st_db st)"
    and T: "total_value (kv_prefix env) (TOTAL_STAKED @ getPosTokenID env) (st_db st) T"
    and S: "total_value (kv_prefix env) (TOTAL_SELF_STAKED @ getPosTokenID env) (st_db st) S"
  shows "\<exists>d'. bindR (updateTotalStake env a st) (updateTotalSelfStake env b) = Inr (st\<lparr>st_db := d'\<rparr>)
     \<and> committed d' = committed (st_db st) \<and> (\<forall>n. n \<noteq> ''key_value_store'' \<longrightarrow> working d' n = working (st_db st) n)
     \<and> db_typed keyValueStoreSchema d'
     \<and> kv_get (kv_prefix env) (TOTAL_STAKED @ getPosTokenID env) True d' = Inr (JBig (T + a))
     \<and> kv_get (kv_prefix env) (TOTAL_SELF_STAKED @ getPosTokenID env) True d' = Inr (JBig (S + b))"
proof -
  let ?p = "kv_prefix env" and ?k1 = "TOTAL_STAKED @ getPosTokenID env" and ?k2 = "TOTAL_SELF_STAKED @ getPosTokenID env"
  have ne: "?k1 \<noteq> ?k2"
  proof
    assume "?k1 = ?k2"
    then have "take 9 ?k1 = take 9 ?k2" by simp
    then show False by (simp add: TOTAL_STAKED_def TOTAL_SELF_STAKED_def)
  qed
  obtain d1 where d1: "kv_set ?p ?k1 (JBig (T + a)) True (st_db st) = Inr d1" by (simp add: kv_set_stmt)
  obtain d2 where d2: "kv_set ?p ?k2 (JBig (S + b)) True d1 = Inr d2" by (simp add: kv_set_stmt)
  have c: "committed d1 = committed (st_db st)" "committed d2 = committed (st_db st)"
    using d1 d2 by (auto simp: kv_set_stmt run_stmt_def)
  have w: "working d2 n = working (st_db st) n" if "n \<noteq> ''key_value_store''" for n
    using d1 d2 that by (auto simp: kv_set_stmt)
  have t1: "db_typed keyValueStoreSchema d1" using d1 upsert_typed [OF config_typed_kv kv] by (auto simp: kv_set_def)
  have t2: "db_typed keyValueStoreSchema d2" using d2 upsert_typed [OF config_typed_kv t1] by (auto simp: kv_set_def)
  have "add_total ?p ?k1 a (st_db st) = Inr d1" using add_total_stmt [OF T] d1 by (simp add: kv_set_stmt)
  moreover have "add_total ?p ?k2 b d1 = Inr d2"
    using add_total_stmt [of ?p ?k2 d1 S b] S d2 c(1) total_value_committed [of d1 "st_db st"] by (simp add: kv_set_stmt)
  ultimately have "bindR (updateTotalStake env a st) (updateTotalSelfStake env b) = Inr (st\<lparr>st_db := d2\<rparr>)"
    by (simp add: updateTotalStake_def updateTotalSelfStake_def with_db_def)
  moreover have "kv_get ?p ?k1 True d2 = Inr (JBig (T + a))" "kv_get ?p ?k2 True d2 = Inr (JBig (S + b))"
    using kv_get_set_gen [OF kv d1, of ?k1] kv_get_set_gen [OF t1 d2] ne format_stored [of "JBig (T + a)"] format_stored [of "JBig (S + b)"] by simp_all
  ultimately show ?thesis using c w t2 by blast
qed


text \<open>The block's transaction is committed and the transaction of a later job begins.\<close>

definition next_trx :: "istate \<Rightarrow> istate" where
  "next_trx st = st\<lparr>st_db := startDBTransaction (commitDBTransaction (st_db st))\<rparr>"

definition stake_tx_ok :: "pos_env \<Rightarrow> command_tx \<Rightarrow> stake list \<Rightarrow> bool" where
  "stake_tx_ok env tx ss \<longleftrightarrow> executionStatus tx = SUCCESSFUL \<and> getStakeIndexingInfo env tx = Inr ss \<and> list_all stake_typed ss"

definition totals_are :: "pos_env \<Rightarrow> bool \<Rightarrow> db \<Rightarrow> int \<Rightarrow> int \<Rightarrow> bool" where
  "totals_are env trx d T S \<longleftrightarrow> kv_get (kv_prefix env) (TOTAL_STAKED @ getPosTokenID env) trx d = Inr (JBig T)
     \<and> kv_get (kv_prefix env) (TOTAL_SELF_STAKED @ getPosTokenID env) trx d = Inr (JBig S)"

definition totals_start :: "pos_env \<Rightarrow> db \<Rightarrow> int \<Rightarrow> int \<Rightarrow> bool" where
  "totals_start env d T S \<longleftrightarrow> db_typed keyValueStoreSchema d
     \<and> total_value (kv_prefix env) (TOTAL_STAKED @ getPosTokenID env) d T
     \<and> total_value (kv_prefix env) (TOTAL_SELF_STAKED @ getPosTokenID env) d S"

lemma stakes_then_totals:
  assumes ch: "stakes_changed ss m st st1" and T: "totals_start env (st_db st) T S"
  shows "\<exists>st2. bindR (updateTotalStake env a st1) (updateTotalSelfStake env b) = Inr st2 \<and> stakes_changed ss m st (st2\<lparr>st_db := (st_db st2)\<lparr>working := (working (st_db st2))(''key_value_store'' := working (st_db st) ''key_value_store'')\<rparr>\<rparr>)
     \<and> db_typed keyValueStoreSchema (st_db st2) \<and> committed (st_db st2) = committed (st_db st) \<and> totals_are env True (st_db st2) (T + a) (S + b)"
proof -
  have kv: "working (st_db st1) ''key_value_store'' = working (st_db st) ''key_value_store''" "committed (st_db st1) = committed (st_db st)"
    using ch by (auto simp: stakes_changed_def)
  have "db_typed keyValueStoreSchema (st_db st1)"
    using T kv by (simp add: totals_start_def db_typed_def) (simp add: keyValueStoreSchema_def)
  then obtain d' where d': "bindR (updateTotalStake env a st1) (updateTotalSelfStake env b) = Inr (st1\<lparr>st_db := d'\<rparr>)"
    "committed d' = committed (st_db st1)" "\<And>n. n \<noteq> ''key_value_store'' \<Longrightarrow> working d' n = working (st_db st1) n"
    "db_typed keyValueStoreSchema d'" "totals_are env True d' (T + a) (S + b)"
    using totals_written [of st1 env T S a b] T kv total_value_committed [of "st_db st1" "st_db st"]
    by (auto simp: totals_start_def totals_are_def)
  show ?thesis using d' ch kv by (intro exI [of _ "st1\<lparr>st_db := d'\<rparr>"]) (auto simp: stakes_changed_def)
qed

lemma applyStake_effect:
  assumes tx: "stake_tx_ok env tx ss" and st: "stakes_ok (working (st_db st) ''stakes'')" "totals_start env (st_db st) T S"
  shows "\<exists>st'. applyStake env b tx ev st = Inr st' \<and> stakes_ok (working (st_db st') ''stakes'')
     \<and> (\<forall>s \<in> set ss. lookup_key stakesTableSchema (stake_key s) (working (st_db st') ''stakes'') \<noteq> None)
     \<and> (\<forall>v w. staked (working (st_db st') ''stakes'') v w = staked (working (st_db st) ''stakes'') v w + pair_total ss v w)
     \<and> db_typed keyValueStoreSchema (st_db st') \<and> committed (st_db st') = committed (st_db st)
     \<and> totals_are env True (st_db st') (T + total_of ss) (S + total_of (self_stakes ss))"
proof -
  have ss: "list_all stake_typed ss" using tx by (simp add: stake_tx_ok_def)
  obtain st1 where st1: "foldR (\<lambda>s. with_db (incrementStakeTrx s)) ss st = Inr st1" "stakes_changed ss 1 st st1"
    using increment_stakes [OF ss st(1)] by blast
  from stakes_then_totals [OF st1(2) st(2)] obtain st2 where
    "bindR (updateTotalStake env (total_of ss) st1) (updateTotalSelfStake env (total_of (self_stakes ss))) = Inr st2"
    "stakes_changed ss 1 st (st2\<lparr>st_db := (st_db st2)\<lparr>working := (working (st_db st2))(''key_value_store'' := working (st_db st) ''key_value_store'')\<rparr>\<rparr>)"
    "db_typed keyValueStoreSchema (st_db st2)" "committed (st_db st2) = committed (st_db st)"
    "totals_are env True (st_db st2) (T + total_of ss) (S + total_of (self_stakes ss))" by blast
  then show ?thesis using tx st1(1) by (auto simp: applyStake_def stake_tx_ok_def stakes_changed_def)
qed

lemma revertStake_effect:
  assumes tx: "stake_tx_ok env tx ss" and st: "stakes_ok (working (st_db st) ''stakes'')" "totals_start env (st_db st) T S"
    and ex: "\<forall>s \<in> set ss. lookup_key stakesTableSchema (stake_key s) (working (st_db st) ''stakes'') \<noteq> None"
  shows "\<exists>st'. revertStake env b tx ev st = Inr st'
     \<and> (\<forall>v w. staked (working (st_db st') ''stakes'') v w = staked (working (st_db st) ''stakes'') v w - pair_total ss v w)
     \<and> totals_are env True (st_db st') (T - total_of ss) (S - total_of (self_stakes ss))"
proof -
  have ss: "list_all stake_typed ss" using tx by (simp add: stake_tx_ok_def)
  obtain st1 where st1: "foldR (\<lambda>s. with_db (decrementStakeTrx s)) ss st = Inr st1" "stakes_changed ss (- 1) st st1"
    using decrement_stakes [OF ss st(1) ex] by blast
  from stakes_then_totals [OF st1(2) st(2)] obtain st2 where
    "bindR (updateTotalStake env (- total_of ss) st1) (updateTotalSelfStake env (- total_of (self_stakes ss))) = Inr st2"
    "stakes_changed ss (- 1) st (st2\<lparr>st_db := (st_db st2)\<lparr>working := (working (st_db st2))(''key_value_store'' := working (st_db st) ''key_value_store'')\<rparr>\<rparr>)"
    "totals_are env True (st_db st2) (T + - total_of ss) (S + - total_of (self_stakes ss))" by blast
  then show ?thesis using tx st1(1) by (auto simp: revertStake_def stake_tx_ok_def stakes_changed_def)
qed

text \<open>
  C6: A stake transaction is indexed and reverted. Applying it succeeds and adds to every pair of
  validator and staker exactly what the transaction stakes there (unstaking is negative), and
  the totals become those before the block plus the staked and the self-staked amounts.
  Once the block is committed, reverting the transaction in a later database transaction
  succeeds and gives every pair its former amount and both totals their former values.
\<close>

theorem stake_apply_revert:
  assumes tx: "stake_tx_ok env tx ss" and st: "stakes_ok (working (st_db st) ''stakes'')" "totals_start env (st_db st) T S"
  shows "\<exists>st1 st2. applyStake env b tx ev st = Inr st1
     \<and> (\<forall>v w. staked (working (st_db st1) ''stakes'') v w = staked (working (st_db st) ''stakes'') v w + pair_total ss v w)
     \<and> totals_are env True (st_db st1) (T + total_of ss) (S + total_of (self_stakes ss))
     \<and> revertStake env b tx ev (next_trx st1) = Inr st2
     \<and> (\<forall>v w. staked (working (st_db st2) ''stakes'') v w = staked (working (st_db st) ''stakes'') v w)
     \<and> totals_are env True (st_db st2) T S"
proof -
  from applyStake_effect [OF assms] obtain st1 where st1: "applyStake env b tx ev st = Inr st1"
    "stakes_ok (working (st_db st1) ''stakes'')"
    "\<forall>s \<in> set ss. lookup_key stakesTableSchema (stake_key s) (working (st_db st1) ''stakes'') \<noteq> None"
    "\<forall>v w. staked (working (st_db st1) ''stakes'') v w = staked (working (st_db st) ''stakes'') v w + pair_total ss v w"
    "db_typed keyValueStoreSchema (st_db st1)" "totals_are env True (st_db st1) (T + total_of ss) (S + total_of (self_stakes ss))" by blast
  let ?st = "next_trx st1"
  have w: "working (st_db ?st) = working (st_db st1)" "committed (st_db ?st) = working (st_db st1)"
    by (simp_all add: next_trx_def startDBTransaction_def commitDBTransaction_def)
  have "kv_get p k False (st_db ?st) = kv_get p k True (st_db st1)" for p k
    by (simp add: kv_get_def find_tbl_def read_table_def w)
  then have "totals_start env (st_db ?st) (T + total_of ss) (S + total_of (self_stakes ss))"
    using st1(5,6) by (simp add: totals_start_def total_value_def totals_are_def db_typed_def w)
  from revertStake_effect [OF tx _ this, of b ev] obtain st2 where "revertStake env b tx ev ?st = Inr st2"
     "\<forall>v w. staked (working (st_db st2) ''stakes'') v w = staked (working (st_db st1) ''stakes'') v w - pair_total ss v w"
     "totals_are env True (st_db st2) T S" using st1(2,3) w by auto
  then show ?thesis using st1 by auto
qed

text \<open>
  Two stake transactions in one block lose an update. The totals are read outside the block's
  transaction, so the second transaction does not see what the first one wrote: the totals
  end up as those before the block plus the second transaction's amounts alone.
\<close>

theorem stake_totals_lose_update:
  assumes tx: "stake_tx_ok env tx1 ss1" "stake_tx_ok env tx2 ss2"
    and st: "stakes_ok (working (st_db st) ''stakes'')" "totals_start env (st_db st) T S"
  shows "\<exists>st1 st2. applyStake env b tx1 ev st = Inr st1 \<and> applyStake env b tx2 ev st1 = Inr st2
     \<and> totals_are env True (st_db st2) (T + total_of ss2) (S + total_of (self_stakes ss2))"
proof -
  from applyStake_effect [OF tx(1) st] obtain st1 where st1: "applyStake env b tx1 ev st = Inr st1"
    "stakes_ok (working (st_db st1) ''stakes'')" "db_typed keyValueStoreSchema (st_db st1)" "committed (st_db st1) = committed (st_db st)" by blast
  have "totals_start env (st_db st1) T S"
    using st(2) st1(3,4) total_value_committed [of "st_db st1" "st_db st"] by (simp add: totals_start_def)
  from applyStake_effect [OF tx(2) st1(2) this, of b ev] show ?thesis using st1(1) by blast
qed

definition example_pos_env :: pos_env where
  "example_pos_env = env.extend example_env \<lparr>kv_prefix = ''p'', getPosTokenID = ''t'', defaultCommission = JNum 10000,
     validatorRegistrationFee = JStr ''1'', formatTransaction = (\<lambda>_ _. Inr (JNum 0)), q96_muldiv = (\<lambda>a b c. a * b div c)\<rparr>"

definition example_stake_tx :: "string \<Rightarrow> int \<Rightarrow> command_tx" where
  "example_stake_tx v n = tx.extend (example_tx\<lparr>executionStatus := SUCCESSFUL\<rparr>)
     \<lparr>tx_module = ''pos'', tx_command = ''stake'', tx_fields = [], objects_param = (\<lambda>_. [[(''validatorAddress'', JStr v), (''amount'', JBig n)]]),
      strings_param = (\<lambda>_. [])\<rparr>"

definition example_header :: block where
  "example_header = \<lparr>bl_id = ''b'', bl_height = 7, bl_timestamp = 70, bl_isFinal = False\<rparr>"

definition empty_state :: istate where
  "empty_state = \<lparr>st_db = \<lparr>committed = (\<lambda>_. []), working = (\<lambda>_. [])\<rparr>, indexed = [], uploads = []\<rparr>"

lemma example_stake_ok: "\<exists>w. stake_tx_ok example_pos_env (example_stake_tx v n) [\<lparr>stakerAddress = JStr w, validatorAddress = JStr v, stake_amount = n\<rparr>]"
  by (simp add: stake_tx_ok_def example_stake_tx_def tx.defs getStakeIndexingInfo_def stake_of_def field_def senderOf_def stake_typed_def)

lemma empty_totals: "totals_start example_pos_env (st_db empty_state) 0 0" "stakes_ok (working (st_db empty_state) ''stakes'')"
proof -
  have "db_typed keyValueStoreSchema (st_db empty_state)" by (simp add: db_typed_def empty_state_def table_typed_def table_wf_def)
  moreover have "kv_get p k False (st_db empty_state) = Inr JUndefined" for p k
    using kv_get_lookup [of False "st_db empty_state"] by (simp add: empty_state_def read_table_def lookup_key_def table_typed_def table_wf_def)
  ultimately show "totals_start example_pos_env (st_db empty_state) 0 0" by (simp add: totals_start_def total_value_def)
  show "stakes_ok (working (st_db empty_state) ''stakes'')" by (simp add: stakes_ok_def empty_state_def table_typed_def table_wf_def)
qed

theorem stake_apply_revert_witness:
  "\<exists>st1 st2 S. applyStake example_pos_env example_header (example_stake_tx ''v'' 10) [] empty_state = Inr st1
     \<and> totals_are example_pos_env True (st_db st1) 10 S
     \<and> revertStake example_pos_env example_header (example_stake_tx ''v'' 10) [] (next_trx st1) = Inr st2
     \<and> totals_are example_pos_env True (st_db st2) 0 0"
proof -
  obtain w where w: "stake_tx_ok example_pos_env (example_stake_tx ''v'' 10) [\<lparr>stakerAddress = JStr w, validatorAddress = JStr ''v'', stake_amount = 10\<rparr>]"
    using example_stake_ok by blast
  show ?thesis using stake_apply_revert [OF w empty_totals(2,1), of example_header "[]"] by (auto simp: total_of_def)
qed

theorem stake_totals_lose_update_witness:
  "\<exists>st1 st2 S. applyStake example_pos_env example_header (example_stake_tx ''v'' 10) [] empty_state = Inr st1
     \<and> applyStake example_pos_env example_header (example_stake_tx ''v'' 7) [] st1 = Inr st2 \<and> totals_are example_pos_env True (st_db st2) 7 S"
proof -
  obtain w where w: "stake_tx_ok example_pos_env (example_stake_tx ''v'' 10) [\<lparr>stakerAddress = JStr w, validatorAddress = JStr ''v'', stake_amount = 10\<rparr>]"
    using example_stake_ok by blast
  obtain u where u: "stake_tx_ok example_pos_env (example_stake_tx ''v'' 7) [\<lparr>stakerAddress = JStr u, validatorAddress = JStr ''v'', stake_amount = 7\<rparr>]"
    using example_stake_ok by blast
  show ?thesis using stake_totals_lose_update [OF w u empty_totals(2,1), of example_header "[]"] by (auto simp: total_of_def)
qed

section \<open>The rewards of the generator\<close>

lemma mapR_sum:
  assumes "mapR f xs = Inr ys" and "mapR f (filter P xs) = Inr zs" and "\<And>x y. x \<in> set xs \<Longrightarrow> f x = Inr y \<Longrightarrow> (0::int) \<le> y"
  shows "0 \<le> sum_list zs \<and> sum_list zs \<le> sum_list ys"
  using assms
proof (induction xs arbitrary: ys zs)
  case (Cons x xs)
  obtain y ys' where y: "f x = Inr y" "mapR f xs = Inr ys'" "ys = y # ys'" using Cons.prems(1) by (auto simp: bindR_eq_Inr)
  obtain zs' where zs: "mapR f (filter P xs) = Inr zs'" "zs = (if P x then y # zs' else zs')"
    using Cons.prems(2) y(1) by (auto simp: bindR_eq_Inr split: if_splits)
  have "0 \<le> sum_list zs' \<and> sum_list zs' \<le> sum_list ys'" using Cons.IH [OF y(2) zs(1)] Cons.prems(3) by auto
  moreover have "0 \<le> y" using Cons.prems(3) y(1) by auto
  ultimately show ?case using y(3) zs(2) by auto
qed simp

lemma frac_le: "0 \<le> a \<Longrightarrow> 0 \<le> b \<Longrightarrow> b \<le> c \<Longrightarrow> 0 < c \<Longrightarrow> 0 \<le> a * b div c \<and> a * b div c \<le> (a::int)"
proof -
  assume "0 \<le> a" "0 \<le> b" "b \<le> c" "0 < c"
  then have "a * b div c \<le> a * c div c" by (intro zdiv_mono1 mult_left_mono) simp_all
  then show ?thesis using \<open>0 \<le> a\<close> \<open>0 \<le> b\<close> \<open>0 < c\<close> by (simp add: pos_imp_zdiv_nonneg_iff)
qed

text \<open>
  The generator's share of a block reward is bounded. If the indexed commissions lie between 0
  and 100 per cent, the indexed stakes are not negative and the fixed-point library
  computes the rounded-down quotient, then the commission is between 0 and the reward, and
  the reward for the own stake is between 0 and what the commission leaves.
\<close>

theorem generator_rewards_bounded:
  assumes q96: "\<And>a b c. 0 < c \<Longrightarrow> q96_muldiv env a b c = a * b div c" and reward: "0 \<le> reward"
    and com: "\<forall>r \<in> set (committed d ''commissions''). \<forall>n. js_BigInt (row_get r ''commission'') = Inr n \<longrightarrow> 0 \<le> n \<and> n \<le> MAX_COMMISSION"
    and stk: "\<forall>r \<in> set (committed d ''stakes''). \<forall>n. js_BigInt (row_get r ''amount'') = Inr n \<longrightarrow> 0 \<le> n"
    and c: "calcCommissionAmount env gen height reward d = Inr c" and s: "calcSelfStakeReward env gen reward c d = Inr s"
  shows "0 \<le> c \<and> c \<le> reward \<and> 0 \<le> s \<and> s \<le> reward - c"
proof -
  obtain ps rs n where rs: "find_tbl commissionsTableSchema ps (Some [''commission'']) False d = Inr rs"
    and n: "js_BigInt (case rs of r # _ \<Rightarrow> row_get r ''commission'' | [] \<Rightarrow> JNum 0) = Inr n"
    and c_eq: "c = q96_muldiv env reward n MAX_COMMISSION"
    using c by (auto simp: calcCommissionAmount_def bindR_eq_Inr)
  have "0 \<le> n \<and> n \<le> MAX_COMMISSION"
  proof (cases rs)
    case (Cons r rl)
    then obtain q where "q \<in> set (committed d ''commissions'')" "row_get r ''commission'' = row_get q ''commission''"
      using find_rows_member [OF rs, of r] by (auto simp: commissionsTableSchema_def)
    then show ?thesis using com n Cons by auto
  qed (use n in \<open>simp add: MAX_COMMISSION_def\<close>)
  then have cb: "0 \<le> c \<and> c \<le> reward" unfolding c_eq using reward q96 [of MAX_COMMISSION] frac_le by (simp add: MAX_COMMISSION_def)
  obtain xs own all where xs: "find_tbl stakesTableSchema [(''validatorAddress'', PVal gen)] (Some [''stakerAddress'', ''amount'']) False d = Inr xs"
    and own: "mapR (\<lambda>r. js_BigInt (row_get r ''amount'')) (filter (\<lambda>r. row_get r ''stakerAddress'' = gen) xs) = Inr own"
    and all: "mapR (\<lambda>r. js_BigInt (row_get r ''amount'')) xs = Inr all"
    and s_eq: "s = (if sum_list all \<le> 0 then 0 else q96_muldiv env (reward - c) (sum_list own) (sum_list all))"
    using s by (auto simp: calcSelfStakeReward_def bindR_eq_Inr Let_def)
  have "0 \<le> sum_list own \<and> sum_list own \<le> sum_list all"
  proof (rule mapR_sum [OF all own])
    fix r y assume "r \<in> set xs" "js_BigInt (row_get r ''amount'') = Inr y"
    then show "0 \<le> y" using find_rows_member [OF xs] stk by fastforce
  qed
  then show ?thesis using cb q96 frac_le [of "reward - c" "sum_list own" "sum_list all"] by (auto simp: s_eq)
qed


definition commission_query :: "jsval \<Rightarrow> int \<Rightarrow> params" where
  "commission_query a h = [(''address'', PVal a),
         (''propBetweens'', PBetweens [\<lparr>pb_property = ''height'', pb_from = None, pb_to = None, pb_greaterThanEqualTo = None,
            pb_lowerThanEqualTo = None, pb_greaterThan = None, pb_lowerThan = Some (JNum h)\<rparr>]),
         (''sort'', PVal (JStr ''height:desc'')), (''limit'', PVal (JNum 1))]"

definition commission_rows :: "string \<Rightarrow> int \<Rightarrow> table \<Rightarrow> table" where
  "commission_rows a h t = filter (\<lambda>r. row_get r ''height'' \<noteq> JNull \<and> sql_eq (row_get r ''address'') (JStr a) \<and> sql_less (row_get r ''height'') (JNum h)) t"

lemma commission_find:
  "find_tbl commissionsTableSchema (commission_query (JStr a) h) (Some [''commission'']) False d =
     Inr (map (\<lambda>r. map (\<lambda>c. (c, row_get r c)) [''commission'', ''height''])
       (take 1 (rev (sort_key (\<lambda>r. row_get r ''height'') (rev (commission_rows a h (committed d ''commissions'')))))))"
proof -
  have "queryBuilder False (commission_query (JStr a) h) = Inr (\<lambda>r. row_get r ''height'' \<noteq> JNull \<and> sql_eq (row_get r ''address'') (JStr a) \<and> sql_less (row_get r ''height'') (JNum h))"
    by (simp add: commission_query_def queryBuilder_def where_clauses_def resolveQueryParams_def KNOWN_QUERY_PARAMS_def sort_param_def
        sort_clauses_def in_clauses_def whereIn_clauses_def nested_clauses_def null_clauses_def like_clauses_def between_clauses_def)
       (simp add: eq_clauses_def fun_eq_iff)
  moreover have "tableName commissionsTableSchema = ''commissions''" by (simp add: commissionsTableSchema_def)
  moreover have "limit_rows (commission_query (JStr a) h) t = take 1 t" for t by (simp add: commission_query_def limit_rows_def num_param_def)
  moreover have "sort_param (commission_query (JStr a) h) ''sort'' = Some (''height'', True)" "sort_param (commission_query (JStr a) h) ''order'' = None"
    by (simp_all add: commission_query_def sort_param_def)
  ultimately show ?thesis
    by (simp add: find_tbl_def read_table_def sort_columns_def order_by_def commission_rows_def)
qed

definition example_rewards_db :: db where
  "example_rewards_db = (let t = (\<lambda>n. if n = ''stakes'' then [[(''stakerAddress'', JStr ''g''), (''validatorAddress'', JStr ''g''), (''amount'', JBig 30)],
        [(''stakerAddress'', JStr ''h''), (''validatorAddress'', JStr ''g''), (''amount'', JBig 70)]] else [])
     in \<lparr>committed = t, working = t\<rparr>)"

theorem generator_rewards_bounded_witness:
  "\<exists>c s. calcCommissionAmount example_pos_env (JStr ''g'') 5 1000 example_rewards_db = Inr c
     \<and> calcSelfStakeReward example_pos_env (JStr ''g'') 1000 c example_rewards_db = Inr s \<and> s = 300 \<and> s \<le> 1000 - c"
proof -
  have q: "queryBuilder False [(''validatorAddress'', PVal (JStr ''g''))] = Inr (\<lambda>r. sql_eq (row_get r ''validatorAddress'') (JStr ''g''))"
    by (simp add: find_query_simps)
  have t: "committed example_rewards_db ''commissions'' = []"
    "committed example_rewards_db ''stakes'' = [[(''stakerAddress'', JStr ''g''), (''validatorAddress'', JStr ''g''), (''amount'', JBig 30)],
        [(''stakerAddress'', JStr ''h''), (''validatorAddress'', JStr ''g''), (''amount'', JBig 70)]]"
    by (simp_all add: example_rewards_db_def Let_def)
  have m: "q96_muldiv example_pos_env = (\<lambda>a b c. a * b div c)" by (simp add: example_pos_env_def env.defs)
  have c: "calcCommissionAmount example_pos_env (JStr ''g'') 5 1000 example_rewards_db = Inr 0"
    using commission_find [of "''g''" 5 example_rewards_db]
    by (simp add: calcCommissionAmount_def commission_query_def commission_rows_def t m)
  have s: "calcSelfStakeReward example_pos_env (JStr ''g'') 1000 0 example_rewards_db = Inr 300"
    by (simp add: calcSelfStakeReward_def find_tbl_def q read_table_def t limit_rows_def order_by_def
        sort_columns_def sort_param_def num_param_def row_get_def m)
  have "300 \<le> (1000 :: int) - 0"
    using generator_rewards_bounded [of example_pos_env 1000 example_rewards_db "JStr ''g''" 5 0 300] c s
    by (simp add: t row_get_def m)
  then show ?thesis using c s by auto
qed

lemma num_prefix_show: "num_prefix (show_nat n) = int n"
proof -
  obtain c cs where c: "show_nat n = c # cs" using show_nat_digits [of n] by (cases "show_nat n") auto
  have "is_digit c" using show_nat_digits [of n] c by simp
  then have "c \<noteq> CHR ''-''" by (auto simp: is_digit_def)
  moreover have "takeWhile is_digit (show_nat n) = show_nat n"
    using show_nat_digits [of n] by (simp add: takeWhile_eq_all_conv list_all_iff)
  ultimately show ?thesis using c digits_val_show_nat [of n] by (simp add: num_prefix_def)
qed

definition commission_cells :: "string \<Rightarrow> string \<Rightarrow> nat \<Rightarrow> row" where
  "commission_cells address commission height =
     [(''address'', JStr address), (''commission'', JStr commission), (''height'', JStr (show_nat height))]"

text \<open>
  A commission that is out of date may be used. Heights are stored as strings and sorted as
  strings: when the validator changed its commission at heights \<open>h1 < h2\<close> below the block and
  the decimal string of \<open>h2\<close> sorts before that of \<open>h1\<close> (9 and 10, for example), the block's
  commission is computed from the older entry.
\<close>

theorem commission_out_of_date:
  assumes h: "h1 < h2" "h2 < h" and lex: "show_nat h2 < show_nat h1" and c1: "js_BigInt (JStr c1) = Inr n1"
    and d: "committed d ''commissions'' = [commission_cells a c1 h1, commission_cells a c2 h2]"
  shows "calcCommissionAmount env (JStr a) (int h) reward d = Inr (q96_muldiv env reward n1 MAX_COMMISSION)"
proof -
  have less: "sql_less (JStr (show_nat k)) (JNum (int h))" if "k < h" for k
    using that by (simp add: sql_less_def num_prefix_show)
  have rows: "commission_rows a (int h) (committed d ''commissions'') = [commission_cells a c1 h1, commission_cells a c2 h2]"
    using less [of h1] less [of h2] h by (simp add: commission_rows_def d commission_cells_def row_get_def sql_eq_def)
  have "JStr (show_nat h2) < JStr (show_nat h1)" using lex by (simp add: less_jsval_def)
  then have "rev (sort_key (\<lambda>r. row_get r ''height'') (rev (commission_rows a (int h) (committed d ''commissions'')))) =
      [commission_cells a c1 h1, commission_cells a c2 h2]"
    by (simp add: rows) (simp add: commission_cells_def row_get_def less_imp_le)
  then show ?thesis using commission_find [of a "int h" d] c1
    by (simp add: calcCommissionAmount_def commission_query_def) (simp add: commission_cells_def row_get_def)
qed

theorem commission_out_of_date_witness:
  "calcCommissionAmount example_pos_env (JStr ''a'') 11 10000
     \<lparr>committed = (\<lambda>_. [commission_cells ''a'' ''500'' 9, commission_cells ''a'' ''700'' 10]), working = (\<lambda>_. [])\<rparr> = Inr 500"
proof -
  have n: "show_nat 10 < show_nat 9" by code_simp
  have "js_BigInt (JStr ''500'') = Inr 500" by (simp add: parse_int_def digits_val_def is_digit_def digit_val_def)
  moreover have "q96_muldiv example_pos_env = (\<lambda>a b c. a * b div c)" by (simp add: example_pos_env_def env.defs)
  ultimately show ?thesis
    using commission_out_of_date [of 9 10 11 "''500''" 500 _ "''a''" "''700''" example_pos_env 10000] n
    by (simp add: MAX_COMMISSION_def)
qed

end
