(* ===== verification/Token_Processors.thy ===== *)
theory Token_Processors
  imports Pos_Processors
begin

text \<open>
  The commands of the modules \<^verbatim>\<open>token\<close>, \<^verbatim>\<open>nft\<close>, \<^verbatim>\<open>tokenFactory\<close>, \<^verbatim>\<open>auth\<close> and
  \<^verbatim>\<open>interoperability\<close>, the remaining commands of \<^verbatim>\<open>dex\<close>, and the dispatch of
  \<^verbatim>\<open>indexer/transactionProcessor/index.js\<close>. The codec, the rendering of logos, the connector, the
  application registry and the gateway are fields of the environment.
\<close>

section \<open>Environment\<close>

text \<open>
  \<open>factory_attribute tokenId key\<close> is the attribute of the token's factory on the chain (hex), \<open>None\<close>
  where the chain has none; \<open>decode_metadata\<close> the codec; \<open>registry_tokens\<close> the answer of
  \<^verbatim>\<open>blockchain.apps.meta.tokens\<close>, of each token its plain fields, \<^verbatim>\<open>logo.png\<close> and the units
  (\<^verbatim>\<open>denom\<close> and \<^verbatim>\<open>decimals\<close>); \<open>chain_account\<close> the name and the
  status of a chain; \<open>getTransactions\<close> gives of each transaction found the \<^verbatim>\<open>sendingChainID\<close> of its
  parameters and the timestamp and the height of its block. \<^verbatim>\<open>logo.save\<close> and \<^verbatim>\<open>logo.delete\<close> of the gateway only touch its files and may
  fail.
\<close>

record registry_token =
  rt_fields :: row
  rt_logo_png :: jsval
  rt_displayDenom :: jsval
  rt_denomUnits :: "(jsval \<times> jsval) list"

record token_env = pos_env +
  factory_attribute :: "string \<Rightarrow> string \<Rightarrow> string option result"
  decode_metadata :: "string \<Rightarrow> row result"
  isTokenAvailable :: "row \<Rightarrow> bool result"
  registry_tokens :: "string \<Rightarrow> registry_token list result"
  render_png :: "string \<Rightarrow> string"
  save_logo :: "string \<Rightarrow> string \<Rightarrow> unit result"
  delete_logo :: "string \<Rightarrow> unit result"
  serviceUrl :: string
  chain_account :: "jsval \<Rightarrow> (jsval \<times> jsval) result"
  getMainchainID :: jsval
  isMainchain :: bool
  getTransactions :: "params \<Rightarrow> (jsval \<times> jsval \<times> jsval) list result"

section \<open>token\<close>

definition init_event :: "string \<Rightarrow> command_tx \<Rightarrow> event option list \<Rightarrow> event option result" where
  "init_event name tx events =
     bindR (findR (\<lambda>e. case e of None \<Rightarrow> Inl TypeError
        | Some e \<Rightarrow> if ev_name e = name \<and> data e ''address'' = field (tx_params tx) ''recipientAddress''
                    then (case ev_topics e of None \<Rightarrow> Inl TypeError | Some ts \<Rightarrow> Inr (tx_id tx \<in> set ts)) else Inr False) events)
       (\<lambda>r. Inr (case r of Some (Some e) \<Rightarrow> Some e | _ \<Rightarrow> None))"

text \<open>\<^verbatim>\<open>{ ...tx, ...tx.params }\<close>\<close>

definition merged_tx :: "command_tx \<Rightarrow> row" where
  "merged_tx tx = tx_params tx @ filter (\<lambda>(c, _). c \<notin> fst ` set (tx_params tx)) (tx_fields tx)"

definition apply_transfer :: "string \<Rightarrow> token_env \<Rightarrow> block \<Rightarrow> command_tx \<Rightarrow> event option list \<Rightarrow> istate \<Rightarrow> istate result" where
  "apply_transfer init_name env blockHeader tx events st0 =
     (let st = indexAccountAddress (field (tx_params tx) ''recipientAddress'') st0 in
      if executionStatus tx \<noteq> SUCCESSFUL then Inr st
      else bindR (init_event init_name tx events) (\<lambda>e.
           bindR (case e of None \<Rightarrow> Inr (merged_tx tx)
                  | Some e \<Rightarrow> bindR (formatTransaction env tx (data e ''initializationFee'')) (\<lambda>minFee.
                       Inr (with_field (merged_tx tx) ''minFee'' minFee))) (\<lambda>row.
             with_db (upsert transactionsTableSchema [row] True) st)))"

definition revert_transfer :: "token_env \<Rightarrow> block \<Rightarrow> command_tx \<Rightarrow> event option list \<Rightarrow> istate \<Rightarrow> istate result" where
  "revert_transfer env blockHeader tx events st = Inr (indexAccountAddress (field (tx_params tx) ''recipientAddress'') st)"

definition applyTransfer :: "token_env \<Rightarrow> block \<Rightarrow> command_tx \<Rightarrow> event option list \<Rightarrow> istate \<Rightarrow> istate result" where
  "applyTransfer = apply_transfer ''initializeUserAccount''"

definition applyTransferCrossChain :: "token_env \<Rightarrow> block \<Rightarrow> command_tx \<Rightarrow> event option list \<Rightarrow> istate \<Rightarrow> istate result" where
  "applyTransferCrossChain = apply_transfer ''initializeEscrowAccount''"

section \<open>nft\<close>

definition nft_transfer_to :: "string \<Rightarrow> command_tx \<Rightarrow> event option list \<Rightarrow> istate \<Rightarrow> istate result" where
  "nft_transfer_to who tx events st =
     (if executionStatus tx \<noteq> SUCCESSFUL then Inr st
      else bindR (parseSingleEvent events ''nft'' ''transfer'' (Some (tx_id tx))) (\<lambda>e. bindR (deref e) (\<lambda>e.
           with_db (upsert positionTableSchema [[(''tokenId'', data e ''nftID''), (''owner'', data e who)]] True) st)))"

definition applyNftTransfer :: "token_env \<Rightarrow> block \<Rightarrow> command_tx \<Rightarrow> event option list \<Rightarrow> istate \<Rightarrow> istate result" where
  "applyNftTransfer env blockHeader tx events = nft_transfer_to ''recipientAddress'' tx events"

definition revertNftTransfer :: "token_env \<Rightarrow> block \<Rightarrow> command_tx \<Rightarrow> event option list \<Rightarrow> istate \<Rightarrow> istate result" where
  "revertNftTransfer env blockHeader tx events = nft_transfer_to ''senderAddress'' tx events"

section \<open>tokenFactory\<close>

definition supply_where :: "command_tx \<Rightarrow> row" where
  "supply_where tx = [(''tokenID'', field (tx_params tx) ''tokenId'')]"

definition applyTokenBurn :: "token_env \<Rightarrow> block \<Rightarrow> command_tx \<Rightarrow> event option list \<Rightarrow> istate \<Rightarrow> istate result" where
  "applyTokenBurn env blockHeader tx events st =
     (if executionStatus tx \<noteq> SUCCESSFUL then Inr st
      else bindR (js_BigInt (field (tx_params tx) ''amount'')) (\<lambda>n.
           with_db (decrement tokenFactoryTableSchema ''supply'' n (supply_where tx) True) st))"

definition revertTokenBurn :: "token_env \<Rightarrow> block \<Rightarrow> command_tx \<Rightarrow> event option list \<Rightarrow> istate \<Rightarrow> istate result" where
  "revertTokenBurn env blockHeader tx events st =
     (if executionStatus tx \<noteq> SUCCESSFUL then Inr st
      else bindR (js_BigInt (field (tx_params tx) ''amount'')) (\<lambda>n.
           with_db (increment tokenFactoryTableSchema ''supply'' n (supply_where tx) True) st))"

definition increasedSupply :: "command_tx \<Rightarrow> int result" where
  "increasedSupply tx = bindR (mapR (\<lambda>r. js_BigInt (field r ''amount'')) (objects_param tx ''distribution'')) (\<lambda>ns. Inr (sum_list ns))"

definition applyTokenMint :: "token_env \<Rightarrow> block \<Rightarrow> command_tx \<Rightarrow> event option list \<Rightarrow> istate \<Rightarrow> istate result" where
  "applyTokenMint env blockHeader tx events st =
     (if executionStatus tx \<noteq> SUCCESSFUL then Inr st
      else bindR (increasedSupply tx) (\<lambda>n. with_db (increment tokenFactoryTableSchema ''supply'' n (supply_where tx) True) st))"

definition revertTokenMint :: "token_env \<Rightarrow> block \<Rightarrow> command_tx \<Rightarrow> event option list \<Rightarrow> istate \<Rightarrow> istate result" where
  "revertTokenMint env blockHeader tx events st =
     (if executionStatus tx \<noteq> SUCCESSFUL then Inr st
      else bindR (increasedSupply tx) (\<lambda>n. with_db (decrement tokenFactoryTableSchema ''supply'' n (supply_where tx) True) st))"

definition to_lower :: "char \<Rightarrow> char" where
  "to_lower c = (let n = (of_char c :: nat) in if 65 \<le> n \<and> n \<le> 90 then char_of (n + 32) else c)"

definition logo_file :: "jsval \<Rightarrow> string \<Rightarrow> string result" where
  "logo_file symbol ext = (case symbol of JStr s \<Rightarrow> Inr (map to_lower s @ ext) | _ \<Rightarrow> Inl TypeError)"

definition network_of :: "string \<Rightarrow> string" where
  "network_of tokenId =
     (if take 2 tokenId = ''00'' then ''mainnet'' else if take 2 tokenId = ''01'' then ''testnet''
      else if take 2 tokenId = ''04'' then ''devnet'' else ''unknown'')"

definition factory_event :: "string \<Rightarrow> command_tx \<Rightarrow> event option list \<Rightarrow> (event \<times> string) result" where
  "factory_event name tx events =
     bindR (parseSingleEvent events ''tokenFactory'' name (Some (tx_id tx))) (\<lambda>e. bindR (deref e) (\<lambda>e.
       case data e ''tokenId'' of JStr tid \<Rightarrow> Inr (e, tid) | _ \<Rightarrow> Inl TypeError))"

definition override :: "row \<Rightarrow> row \<Rightarrow> row" where
  "override r s = s @ filter (\<lambda>(c, _). c \<notin> fst ` set s) r"

definition save_logos :: "token_env \<Rightarrow> jsval \<Rightarrow> string \<Rightarrow> row result" where
  "save_logos env symbol svg =
     bindR (logo_file symbol ''.svg'') (\<lambda>svg_file. bindR (save_logo env svg_file svg) (\<lambda>_.
     bindR (logo_file symbol ''.png'') (\<lambda>png_file. bindR (save_logo env png_file (render_png env svg)) (\<lambda>_.
       Inr [(''logoSvg'', JStr (serviceUrl env @ ''/static/img/logo/'' @ svg_file)),
            (''logoPng'', JStr (serviceUrl env @ ''/static/img/logo/'' @ png_file))]))))"

definition metadata_row :: "string \<Rightarrow> row \<Rightarrow> row" where
  "metadata_row tid metadata =
     [(''chainName'', JStr ''swaptoshi''), (''network'', JStr (network_of tid)),
      (''tokenName'', field metadata ''tokenName''), (''tokenID'', JStr tid)]"

text \<open>The columns the registry overwrites; the decimals only if the display unit is listed.\<close>

definition registry_columns :: "registry_token \<Rightarrow> row" where
  "registry_columns t =
     [(''tokenName'', field (rt_fields t) ''tokenName''), (''description'', field (rt_fields t) ''description''),
      (''baseDenom'', field (rt_fields t) ''baseDenom''), (''symbol'', field (rt_fields t) ''symbol''), (''logoPng'', rt_logo_png t)]
     @ (case List.find (\<lambda>(denom, _). denom = rt_displayDenom t) (rt_denomUnits t) of
          Some (_, decimals) \<Rightarrow> [(''decimal'', decimals)] | None \<Rightarrow> [])"

definition applyTokenCreate :: "token_env \<Rightarrow> block \<Rightarrow> command_tx \<Rightarrow> event option list \<Rightarrow> istate \<Rightarrow> istate result" where
  "applyTokenCreate env blockHeader tx events st =
     (if executionStatus tx \<noteq> SUCCESSFUL then Inr st
      else bindR (factory_event ''factoryCreated'' tx events) (\<lambda>(e, tid).
           bindR (factory_attribute env tid ''metadata'') (\<lambda>ma. case ma of None \<Rightarrow> Inr st | Some hex \<Rightarrow>
           bindR (decode_metadata env hex) (\<lambda>metadata.
           bindR (isTokenAvailable env metadata) (\<lambda>available. if \<not> available then Inr st else
           let param = override metadata [(''tokenID'', JStr tid), (''owner'', data e ''ownerAddress''), (''supply'', data e ''amount'')] in
           bindR (registry_tokens env tid) (\<lambda>reg.
           let param = (case reg of [] \<Rightarrow> param | t # _ \<Rightarrow> override param (registry_columns t)) in
           bindR (factory_attribute env tid ''svg'') (\<lambda>sa. case sa of None \<Rightarrow> Inr st | Some svg \<Rightarrow>
           bindR (save_logos env (field metadata ''symbol'') svg) (\<lambda>logos.
           bindR (with_db (upsert tokenFactoryTableSchema [override param logos] True) st)
             (with_db (upsert tokenMetadataTableSchema [metadata_row tid metadata] True)))))))))) "

text \<open>The search returns an array, which is never falsy and has no symbol: \<open>JUndefined\<close>.\<close>

definition revertTokenCreate :: "token_env \<Rightarrow> block \<Rightarrow> command_tx \<Rightarrow> event option list \<Rightarrow> istate \<Rightarrow> istate result" where
  "revertTokenCreate env blockHeader tx events st =
     (if executionStatus tx \<noteq> SUCCESSFUL then Inr st
      else bindR (factory_event ''factoryCreated'' tx events) (\<lambda>(e, tid).
           bindR (find_tbl tokenFactoryTableSchema [(''tokenID'', PVal (JStr tid))] (Some [''symbol'']) False (st_db st)) (\<lambda>metadata.
           bindR (bindR (logo_file JUndefined ''.svg'') (delete_logo env)) (\<lambda>_.
           bindR (bindR (logo_file JUndefined ''.png'') (delete_logo env)) (\<lambda>_.
           bindR (with_db (deleteByPrimaryKey tokenFactoryTableSchema [Scalar (JStr tid)] True) st)
             (with_db (deleteByPrimaryKey tokenMetadataTableSchema [Scalar (JStr tid)] True)))))))"

definition applyFactorySetAttributes :: "token_env \<Rightarrow> block \<Rightarrow> command_tx \<Rightarrow> event option list \<Rightarrow> istate \<Rightarrow> istate result" where
  "applyFactorySetAttributes env blockHeader tx events st =
     (if executionStatus tx \<noteq> SUCCESSFUL then Inr st
      else bindR (factory_event ''factorySetAttributes'' tx events) (\<lambda>(e, tid).
           if data e ''key'' = JStr ''svg'' then
             bindR (factory_attribute env tid ''svg'') (\<lambda>sa. case sa of None \<Rightarrow> Inr st | Some svg \<Rightarrow>
             bindR (find_tbl tokenFactoryTableSchema [(''tokenID'', PVal (JStr tid))] (Some [''symbol'']) False (st_db st)) (\<lambda>metadata.
             bindR (save_logos env JUndefined svg) (\<lambda>logos.
               with_db (upsert tokenFactoryTableSchema [(''tokenID'', JStr tid) # logos] True) st)))
           else if data e ''key'' = JStr ''metadata'' then
             bindR (factory_attribute env tid ''metadata'') (\<lambda>ma. case ma of None \<Rightarrow> Inr st | Some hex \<Rightarrow>
             bindR (decode_metadata env hex) (\<lambda>metadata.
             bindR (with_db (upsert tokenFactoryTableSchema [override [(''tokenID'', JStr tid)] metadata] True) st)
               (with_db (upsert tokenMetadataTableSchema [metadata_row tid metadata] True))))
           else Inr st))"

definition revertFactorySetAttributes :: "token_env \<Rightarrow> block \<Rightarrow> command_tx \<Rightarrow> event option list \<Rightarrow> istate \<Rightarrow> istate result" where
  "revertFactorySetAttributes env blockHeader tx events st = Inr st"

section \<open>auth\<close>

definition resolveMultisignatureMemberships :: "token_env \<Rightarrow> command_tx \<Rightarrow> row list result" where
  "resolveMultisignatureMemberships env tx =
     mapR (\<lambda>key. let member = getKlayr32AddressFromPublicKeyHelper env (hex_decode key) in
        case field (tx_fields tx) ''senderAddress'' of
          JStr sender \<Rightarrow> Inr [(''id'', JStr (sender @ ''_'' @ member)), (''memberAddress'', JStr member), (''groupAddress'', JStr sender)]
        | _ \<Rightarrow> Inl TypeError)
       (strings_param tx ''mandatoryKeys'' @ strings_param tx ''optionalKeys'')"

definition index_keys :: "command_tx \<Rightarrow> istate \<Rightarrow> istate" where
  "index_keys tx st = st\<lparr>indexed := indexed st @ map JStr (strings_param tx ''mandatoryKeys'' @ strings_param tx ''optionalKeys'')\<rparr>"

definition applyRegisterMultisignature :: "token_env \<Rightarrow> block \<Rightarrow> command_tx \<Rightarrow> event option list \<Rightarrow> istate \<Rightarrow> istate result" where
  "applyRegisterMultisignature env blockHeader tx events st0 =
     (let st = index_keys tx st0 in
      if executionStatus tx \<noteq> SUCCESSFUL then Inr st
      else bindR (resolveMultisignatureMemberships env tx) (\<lambda>rows. with_db (upsert multisignatureTableSchema rows True) st))"

definition revertRegisterMultisignature :: "token_env \<Rightarrow> block \<Rightarrow> command_tx \<Rightarrow> event option list \<Rightarrow> istate \<Rightarrow> istate result" where
  "revertRegisterMultisignature env blockHeader tx events st0 =
     (let st = index_keys tx st0 in
      if executionStatus tx \<noteq> SUCCESSFUL then Inr st
      else bindR (resolveMultisignatureMemberships env tx) (\<lambda>rows.
           with_db (deleteByPrimaryKey multisignatureTableSchema (map (\<lambda>r. Scalar (row_get r ''id'')) rows) True) st))"

section \<open>interoperability\<close>

definition app_row :: "token_env \<Rightarrow> jsval \<Rightarrow> jsval \<Rightarrow> jsval \<Rightarrow> block \<Rightarrow> command_tx \<Rightarrow> row" where
  "app_row env chainID name status blockHeader tx =
     [(''chainID'', chainID), (''chainName'', name), (''status'', status), (''address'', senderOf env tx),
      (''lastUpdated'', JNum (bl_timestamp blockHeader)), (''lastCertificateHeight'', JNum (bl_height blockHeader))]"

definition applyRegisterSidechain :: "token_env \<Rightarrow> block \<Rightarrow> command_tx \<Rightarrow> event option list \<Rightarrow> istate \<Rightarrow> istate result" where
  "applyRegisterSidechain env blockHeader tx events st =
     (if executionStatus tx \<noteq> SUCCESSFUL then Inr st
      else let chainID = field (tx_params tx) ''chainID'' in
           bindR (chain_account env chainID) (\<lambda>(_, status).
             with_db (upsert blockchainAppsTableSchema [app_row env chainID (field (tx_params tx) ''name'') status blockHeader tx] True) st))"

definition revertRegisterSidechain :: "token_env \<Rightarrow> block \<Rightarrow> command_tx \<Rightarrow> event option list \<Rightarrow> istate \<Rightarrow> istate result" where
  "revertRegisterSidechain env blockHeader tx events st =
     (if executionStatus tx \<noteq> SUCCESSFUL then Inr st
      else with_db (deleteByPrimaryKey blockchainAppsTableSchema [Scalar (field (tx_params tx) ''chainID'')] True) st)"

definition applyRegisterMainchain :: "token_env \<Rightarrow> block \<Rightarrow> command_tx \<Rightarrow> event option list \<Rightarrow> istate \<Rightarrow> istate result" where
  "applyRegisterMainchain env blockHeader tx events st =
     (if executionStatus tx \<noteq> SUCCESSFUL then Inr st
      else bindR (chain_account env (getMainchainID env)) (\<lambda>(name, status).
             with_db (upsert blockchainAppsTableSchema [app_row env (getMainchainID env) name status blockHeader tx] True) st))"

definition revertRegisterMainchain :: "token_env \<Rightarrow> block \<Rightarrow> command_tx \<Rightarrow> event option list \<Rightarrow> istate \<Rightarrow> istate result" where
  "revertRegisterMainchain env blockHeader tx events st =
     (if executionStatus tx \<noteq> SUCCESSFUL then Inr st
      else with_db (deleteByPrimaryKey blockchainAppsTableSchema [Scalar (getMainchainID env)] True) st)"

definition applyTerminateSidechain :: "token_env \<Rightarrow> block \<Rightarrow> command_tx \<Rightarrow> event option list \<Rightarrow> istate \<Rightarrow> istate result" where
  "applyTerminateSidechain env blockHeader tx events st =
     (if executionStatus tx \<noteq> SUCCESSFUL then Inr st
      else let chainID = field (tx_params tx) ''chainID'' in
           bindR (chain_account env chainID) (\<lambda>(_, status).
             with_db (upsert blockchainAppsTableSchema [[(''chainID'', chainID), (''status'', status)]] True) st))"

definition applySubmitCCU :: "token_env \<Rightarrow> block \<Rightarrow> command_tx \<Rightarrow> event option list \<Rightarrow> istate \<Rightarrow> istate result" where
  "applySubmitCCU env blockHeader tx events st =
     (if executionStatus tx \<noteq> SUCCESSFUL then Inr st
      else let chainID = field (tx_params tx) ''sendingChainID'' in
           bindR (chain_account env chainID) (\<lambda>(_, status).
           bindR (with_db (upsert blockchainAppsTableSchema [[(''chainID'', chainID), (''status'', status),
                (''lastUpdated'', JNum (bl_timestamp blockHeader)), (''lastCertificateHeight'', JNum (bl_height blockHeader))]] True) st)
             (with_db (upsert ccuTableSchema [[(''height'', field (tx_fields tx) ''height''), (''sendingChainID'', chainID),
                (''transactionID'', JStr (tx_id tx))]] True))))"

definition below_height :: "block \<Rightarrow> pval" where
  "below_height blockHeader = PBetweens [\<lparr>pb_property = ''height'', pb_from = None, pb_to = None, pb_greaterThanEqualTo = None,
     pb_lowerThanEqualTo = None, pb_greaterThan = None, pb_lowerThan = Some (JNum (bl_height blockHeader))\<rparr>]"

fun first_result :: "(row \<Rightarrow> (jsval \<times> jsval \<times> jsval) list result) \<Rightarrow> row list \<Rightarrow> (jsval \<times> jsval \<times> jsval) list result" where
  "first_result f [] = Inr []"
| "first_result f (r # rs) = bindR (f r) (\<lambda>res. if res \<noteq> [] then Inr res else first_result f rs)"

definition revertSubmitCCU :: "token_env \<Rightarrow> block \<Rightarrow> command_tx \<Rightarrow> event option list \<Rightarrow> istate \<Rightarrow> istate result" where
  "revertSubmitCCU env blockHeader tx events st =
     (if executionStatus tx \<noteq> SUCCESSFUL then Inr st
      else let chainID = field (tx_params tx) ''sendingChainID'' in
           bindR (chain_account env chainID) (\<lambda>(_, status).
           bindR (if status = JStr ''activated''
                  then bindR (find_tbl ccuTableSchema [(''sendingChainID'', PVal chainID), (''propBetweens'', below_height blockHeader),
                                (''sort'', PVal (JStr ''height:desc''))] (Some [''height'']) False (st_db st))
                         (first_result (\<lambda>r. getTransactions env [(''height'', PVal (row_get r ''height'')),
                            (''moduleCommand'', PVal (field (tx_fields tx) ''moduleCommand'')), (''executionStatus'', PVal (JStr SUCCESSFUL))]))
                  else if status = JStr ''registered''
                  then getTransactions env [(''moduleCommand'', PVal (JStr (''interoperability:'' @
                         (if isMainchain env then ''registerSidechain'' else ''registerMainchain'')))),
                         (''executionStatus'', PVal (JStr SUCCESSFUL)), (''propBetweens'', below_height blockHeader)]
                  else Inr []) (\<lambda>res.
           bindR (deref (List.find (\<lambda>(c, _). c = chainID) res)) (\<lambda>(_, timestamp, height).
             with_db (upsert blockchainAppsTableSchema [[(''chainID'', chainID), (''status'', status),
                (''lastUpdated'', timestamp), (''lastCertificateHeight'', height)]] True) st))))"

section \<open>treasurify\<close>

definition treasurify :: "token_env \<Rightarrow> block \<Rightarrow> command_tx \<Rightarrow> event option list \<Rightarrow> istate \<Rightarrow> istate result" where
  "treasurify env blockHeader tx events st =
     (if executionStatus tx \<noteq> SUCCESSFUL then Inr st
      else bindR (parseSingleEvent events ''dex'' ''treasurify'' (Some (tx_id tx))) (\<lambda>e. bindR (deref e) (\<lambda>e.
           case (data e ''treasuryAddress'', data e ''poolAddress'') of
             (JStr t, JStr p) \<Rightarrow> Inr (indexAccountAddress (JStr (getKlayr32AddressFromAddress env (hex_decode p)))
                (indexAccountAddress (JStr (getKlayr32AddressFromAddress env (hex_decode t))) st))
           | _ \<Rightarrow> Inl TypeError)))"


section \<open>The dispatch\<close>

type_synonym processor = "token_env \<Rightarrow> block \<Rightarrow> command_tx \<Rightarrow> event option list \<Rightarrow> istate \<Rightarrow> istate result"

definition dex_command :: "(env \<Rightarrow> int \<Rightarrow> tx \<Rightarrow> event option list \<Rightarrow> istate \<Rightarrow> istate result) \<Rightarrow> processor" where
  "dex_command f env blockHeader tx events st = f (env.truncate env) (bl_timestamp blockHeader) (tx.truncate tx) events st"

definition pos_command :: "(pos_env \<Rightarrow> block \<Rightarrow> command_tx \<Rightarrow> event option list \<Rightarrow> istate \<Rightarrow> istate result) \<Rightarrow> processor" where
  "pos_command f env = f (pos_env.truncate env)"

definition no_op :: processor where
  "no_op env blockHeader tx events st = Inr st"

text \<open>The files under the module's directory: their command, \<^verbatim>\<open>applyTransaction\<close> and
  \<^verbatim>\<open>revertTransaction\<close>.\<close>

definition processors :: "((string \<times> string) \<times> (processor \<times> processor)) list" where
  "processors =
    [((''auth'', ''registerMultisignature''), (applyRegisterMultisignature, revertRegisterMultisignature)),
     ((''dex'', ''burn''), (dex_command applyBurn, dex_command revertBurn)),
     ((''dex'', ''collect''), (dex_command applyCollect, dex_command revertCollect)),
     ((''dex'', ''createPool''), (dex_command applyCreatePool, dex_command revertCreatePool)),
     ((''dex'', ''decreaseLiquidity''), (dex_command applyDecreaseLiquidity, dex_command revertDecreaseLiquidity)),
     ((''dex'', ''exactInput''), (no_op, no_op)), ((''dex'', ''exactInputSingle''), (no_op, no_op)),
     ((''dex'', ''exactOutput''), (no_op, no_op)), ((''dex'', ''exactOutputSingle''), (no_op, no_op)),
     ((''dex'', ''increaseLiquidity''), (dex_command applyIncreaseLiquidity, dex_command revertIncreaseLiquidity)),
     ((''dex'', ''mint''), (dex_command applyMint, dex_command revertMint)),
     ((''dex'', ''treasurify''), (treasurify, treasurify)),
     ((''interoperability'', ''initializeMessageRecovery''), (no_op, no_op)), ((''interoperability'', ''initializeStateRecovery''), (no_op, no_op)),
     ((''interoperability'', ''recoverMessage''), (no_op, no_op)), ((''interoperability'', ''recoverState''), (no_op, no_op)),
     ((''interoperability'', ''registerMainchain''), (applyRegisterMainchain, revertRegisterMainchain)),
     ((''interoperability'', ''registerSidechain''), (applyRegisterSidechain, revertRegisterSidechain)),
     ((''interoperability'', ''submitMainchainCrossChainUpdate''), (applySubmitCCU, revertSubmitCCU)),
     ((''interoperability'', ''submitSidechainCrossChainUpdate''), (applySubmitCCU, revertSubmitCCU)),
     ((''interoperability'', ''terminateSidechainForLiveness''), (applyTerminateSidechain, applyTerminateSidechain)),
     ((''legacy'', ''reclaimKLY''), (no_op, no_op)),
     ((''legacy'', ''registerKeys''), (pos_command applyRegisterKeys, pos_command revertRegisterKeys)),
     ((''nft'', ''transfer''), (applyNftTransfer, revertNftTransfer)),
     ((''pos'', ''changeCommission''), (pos_command applyChangeCommission, pos_command revertChangeCommission)),
     ((''pos'', ''claimRewards''), (no_op, no_op)),
     ((''pos'', ''registerValidator''), (pos_command applyRegisterValidator, pos_command revertRegisterValidator)),
     ((''pos'', ''reportMisbehavior''), (no_op, no_op)),
     ((''pos'', ''stake''), (pos_command applyStake, pos_command revertStake)),
     ((''pos'', ''unlock''), (no_op, no_op)),
     ((''pos'', ''updateGeneratorKey''), (pos_command applyUpdateGeneratorKey, pos_command revertUpdateGeneratorKey)),
     ((''token'', ''transfer''), (applyTransfer, revert_transfer)),
     ((''token'', ''transferCrossChain''), (applyTransferCrossChain, revert_transfer)),
     ((''tokenFactory'', ''burn''), (applyTokenBurn, revertTokenBurn)),
     ((''tokenFactory'', ''factorySetAttributes''), (applyFactorySetAttributes, revertFactorySetAttributes)),
     ((''tokenFactory'', ''tokenCreate''), (applyTokenCreate, revertTokenCreate)),
     ((''tokenFactory'', ''tokenMint''), (applyTokenMint, revertTokenMint))]"

text \<open>\<open>registeredModules\<close> are the modules the node reports; commands without a processor are only
  indexed generically.\<close>

definition applyTransaction :: "token_env \<Rightarrow> string list \<Rightarrow> block \<Rightarrow> command_tx \<Rightarrow> event option list \<Rightarrow> istate \<Rightarrow> istate result" where
  "applyTransaction env registeredModules blockHeader tx events st =
     (if tx_module tx \<notin> set registeredModules then Inr st
      else case map_of processors (tx_module tx, tx_command tx) of
             None \<Rightarrow> Inr st | Some (ap, _) \<Rightarrow> ap env blockHeader tx events st)"

definition revertTransaction :: "token_env \<Rightarrow> string list \<Rightarrow> block \<Rightarrow> command_tx \<Rightarrow> event option list \<Rightarrow> istate \<Rightarrow> istate result" where
  "revertTransaction env registeredModules blockHeader tx events st =
     (if tx_module tx \<notin> set registeredModules then Inr st
      else case map_of processors (tx_module tx, tx_command tx) of
             None \<Rightarrow> Inr st | Some (_, rv) \<Rightarrow> rv env blockHeader tx events st)"

section \<open>The tables the commands may change\<close>

definition command_tables :: "string list" where
  "command_tables = [''accounts'', ''validators'', ''commissions'', ''stakes'', ''transactions'', ''key_value_store'', ''multisignature'',
     ''blockchain_apps'', ''ccu'', ''position'', ''pool'', ''tick'', ''tvl'', ''registered_dex_token'', ''token_factory'', ''token_metadata'']"

definition same_table :: "string \<Rightarrow> db \<Rightarrow> db \<Rightarrow> bool" where
  "same_table n d d' \<longleftrightarrow> committed d' n = committed d n \<and> working d' n = working d n"

text \<open>\<open>keeps n st r\<close>: if the step \<open>r\<close> that starts in \<open>st\<close> succeeds, table \<open>n\<close> is unchanged.\<close>

definition keeps :: "string \<Rightarrow> istate \<Rightarrow> istate result \<Rightarrow> bool" where
  "keeps n st r \<longleftrightarrow> (\<forall>st'. r = Inr st' \<longrightarrow> same_table n (st_db st) (st_db st'))"

definition db_keeps :: "string \<Rightarrow> (db \<Rightarrow> db result) \<Rightarrow> bool" where
  "db_keeps n f \<longleftrightarrow> (\<forall>d d'. f d = Inr d' \<longrightarrow> same_table n d d')"

named_theorems keep_rules "rules that show a table unchanged"

lemma same_table_run: "m \<noteq> n \<Longrightarrow> same_table n d (run_stmt m trx f d)"
  by (simp add: same_table_def)

lemma db_keeps_ops [keep_rules]:
  "tableName cfg \<noteq> n \<Longrightarrow> db_keeps n (upsert cfg rows trx)"
  "tableName cfg \<noteq> n \<Longrightarrow> db_keeps n (deleteByParams cfg ps trx)"
  "tableName cfg \<noteq> n \<Longrightarrow> db_keeps n (deleteByPrimaryKey cfg ids trx)"
  "tableName cfg \<noteq> n \<Longrightarrow> db_keeps n (update_tbl cfg ps ups trx)"
  "tableName cfg \<noteq> n \<Longrightarrow> db_keeps n (increment cfg c k wh trx)"
  "tableName cfg \<noteq> n \<Longrightarrow> db_keeps n (decrement cfg c k wh trx)"
  by (auto simp: db_keeps_def upsert_def deleteByParams_def deleteByPrimaryKey_def update_tbl_def increment_def decrement_def
      bindR_eq_Inr intro!: same_table_run split: if_splits)

lemma same_table_trans: "same_table n a b \<Longrightarrow> same_table n b c \<Longrightarrow> same_table n a c"
  by (simp add: same_table_def)

lemma keep_with_db [keep_rules]: "st_db st1 = st_db st \<Longrightarrow> db_keeps n f \<Longrightarrow> keeps n st (with_db f st1)"
  by (auto simp: keeps_def db_keeps_def with_db_def bindR_eq_Inr)

lemma keep_Inr [keep_rules]: "st_db st1 = st_db st \<Longrightarrow> keeps n st (Inr st1)"
  by (simp add: keeps_def same_table_def)

lemma keep_Inl [keep_rules]: "keeps n st (Inl e)"
  by (simp add: keeps_def)

lemma keep_if [keep_rules]: "keeps n st a \<Longrightarrow> keeps n st b \<Longrightarrow> keeps n st (if P then a else b)"
  by simp

lemma keep_let [keep_rules]: "keeps n st (f a) \<Longrightarrow> keeps n st (let x = a in f x)"
  by (simp add: Let_def)

lemma keep_seq: "keeps n st r \<Longrightarrow> (\<And>st1. keeps n st1 (f st1)) \<Longrightarrow> keeps n st (bindR r f)"
  by (auto simp: keeps_def bindR_eq_Inr intro: same_table_trans)

lemma keep_bind: "(\<And>x. keeps n st (f x)) \<Longrightarrow> keeps n st (bindR r f)"
  by (auto simp: keeps_def bindR_eq_Inr)

lemma keep_option [keep_rules]: "keeps n st a \<Longrightarrow> (\<And>x. keeps n st (f x)) \<Longrightarrow> keeps n st (case v of None \<Rightarrow> a | Some x \<Rightarrow> f x)"
  by (cases v) auto

lemma keep_prod [keep_rules]: "(\<And>a b. keeps n st (f a b)) \<Longrightarrow> keeps n st (case p of (a, b) \<Rightarrow> f a b)"
  by (cases p) auto

lemma keep_fold [keep_rules]: "(\<And>x st1. keeps n st1 (f x st1)) \<Longrightarrow> keeps n st (foldR f xs st)"
proof (induction xs arbitrary: st)
  case (Cons x xs)
  then show ?case by (auto intro!: keep_seq)
qed (simp add: keeps_def same_table_def)

lemma keep_from: "keeps n st1 r \<Longrightarrow> st_db st1 = st_db st \<Longrightarrow> keeps n st r"
  by (simp add: keeps_def)

lemma st_db_indexAccountAddress [simp]: "st_db (indexAccountAddress a st) = st_db st"
  by (simp add: indexAccountAddress_def)

lemma st_db_index_keys [simp]: "st_db (index_keys tx st) = st_db st"
  by (simp add: index_keys_def)

abbreviation outside :: "string \<Rightarrow> bool" where
  "outside n \<equiv> n \<notin> set command_tables"

lemma outside_names:
  assumes "outside n"
  shows "tableName tvlTableSchema \<noteq> n" "tableName tickTableSchema \<noteq> n" "tableName positionTableSchema \<noteq> n" "tableName poolTableSchema \<noteq> n"
    "tableName dexTokenTableSchema \<noteq> n" "tableName accountsTableSchema \<noteq> n" "tableName validatorsTableSchema \<noteq> n"
    "tableName commissionsTableSchema \<noteq> n" "tableName stakesTableSchema \<noteq> n" "tableName transactionsTableSchema \<noteq> n"
    "tableName keyValueStoreSchema \<noteq> n" "tableName multisignatureTableSchema \<noteq> n" "tableName blockchainAppsTableSchema \<noteq> n"
    "tableName ccuTableSchema \<noteq> n" "tableName tokenFactoryTableSchema \<noteq> n" "tableName tokenMetadataTableSchema \<noteq> n"
  using assms by (auto simp: command_tables_def tvlTableSchema_def tickTableSchema_def positionTableSchema_def poolTableSchema_def
    dexTokenTableSchema_def accountsTableSchema_def validatorsTableSchema_def commissionsTableSchema_def stakesTableSchema_def
    transactionsTableSchema_def keyValueStoreSchema_def multisignatureTableSchema_def blockchainAppsTableSchema_def ccuTableSchema_def
    tokenFactoryTableSchema_def tokenMetadataTableSchema_def)

lemma keep_dex_helpers [keep_rules]:
  assumes "outside n"
  shows "keeps n st (syncPoolData env p st)" "keeps n st (upsert_ticks p e s st)" "keeps n st (upsert_tvl r t st)" "keeps n st (delete_tvl r t st)"
    "keeps n st (register_token env e st)"
  unfolding syncPoolData_def upsert_ticks_def upsert_tvl_def delete_tvl_def register_token_def
  by (intro keep_rules keep_seq keep_bind outside_names [OF assms] refl)+


lemma keep_finish [keep_rules]: "outside n \<Longrightarrow> keeps n st (finish_liquidity env s p st)"
  unfolding finish_liquidity_def by (rule keep_from [OF keep_dex_helpers(1)]) simp_all

lemma keep_dex [keep_rules]:
  assumes "outside n"
  shows "keeps n st (applyIncreaseLiquidity env ts tx ev st)" "keeps n st (revertIncreaseLiquidity env ts tx ev st)"
    "keeps n st (applyDecreaseLiquidity env ts tx ev st)" "keeps n st (revertDecreaseLiquidity env ts tx ev st)"
    "keeps n st (revertMint env ts tx ev st)" "keeps n st (applyBurn env ts tx ev st)" "keeps n st (revertBurn env ts tx ev st)"
    "keeps n st (applyCollect env ts tx ev st)" "keeps n st (revertCollect env ts tx ev st)"
    "keeps n st (applyCreatePool env ts tx ev st)" "keeps n st (revertCreatePool env ts tx ev st)"
  unfolding applyIncreaseLiquidity_def revertIncreaseLiquidity_def applyDecreaseLiquidity_def revertDecreaseLiquidity_def revertMint_def
    applyBurn_def revertBurn_def applyCollect_def revertCollect_def applyCreatePool_def revertCreatePool_def
  by (intro keep_rules keep_seq keep_bind outside_names [OF assms] assms refl | simp)+

lemma keep_mint [keep_rules]:
  assumes "outside n"
  shows "keeps n st (applyMint env ts tx ev st)"
  unfolding applyMint_def
  by (intro keep_rules keep_seq keep_bind outside_names [OF assms] assms refl | simp)+

lemma db_keeps_kv [keep_rules]:
  "outside n \<Longrightarrow> db_keeps n (add_total p k c)"
  by (auto simp: db_keeps_def add_total_def bindR_eq_Inr kv_set_stmt command_tables_def intro!: same_table_run)

lemma db_keepsD: "db_keeps n f \<Longrightarrow> f d = Inr d' \<Longrightarrow> same_table n d d'"
  by (simp add: db_keeps_def)

lemma db_keeps_stake [keep_rules]:
  assumes "outside n"
  shows "db_keeps n (incrementStakeTrx s)" "db_keeps n (decrementStakeTrx s)"
proof -
  note ops = db_keeps_ops [OF outside_names(9) [OF assms]]
  show "db_keeps n (decrementStakeTrx s)" using ops(6) by (simp add: db_keeps_def decrementStakeTrx_def)
  show "db_keeps n (incrementStakeTrx s)" unfolding db_keeps_def
  proof (intro allI impI)
    fix d d' assume "incrementStakeTrx s d = Inr d'"
    then obtain d1 where d1: "increment stakesTableSchema ''amount'' (stake_amount s) (stake_where s) True d = Inr d1"
      and "d' = d1 \<or> upsert stakesTableSchema [stake_where s @ [(''amount'', JBig (stake_amount s))]] True d1 = Inr d'"
      by (auto simp: incrementStakeTrx_def bindR_eq_Inr split: if_splits)
    then show "same_table n d d'" using db_keepsD [OF ops(5) d1] db_keepsD [OF ops(1)] same_table_trans by blast
  qed
qed

lemma keep_pos [keep_rules]:
  assumes "outside n"
  shows "keeps n st (updateTotalStake penv c st)" "keeps n st (updateTotalSelfStake penv c st)"
    "keeps n st (applyStake penv b ctx ev st)" "keeps n st (revertStake penv b ctx ev st)"
    "keeps n st (applyChangeCommission penv b ctx ev st)" "keeps n st (revertChangeCommission penv b ctx ev st)"
    "keeps n st (applyRegisterValidator penv b ctx ev st)" "keeps n st (revertRegisterValidator penv b ctx ev st)"
    "keeps n st (applyUpdateGeneratorKey penv b ctx ev st)" "keeps n st (revertUpdateGeneratorKey penv b ctx ev st)"
    "keeps n st (applyRegisterKeys penv b ctx ev st)" "keeps n st (revertRegisterKeys penv b ctx ev st)"
  unfolding applyStake_def revertStake_def applyChangeCommission_def revertChangeCommission_def applyRegisterValidator_def
    revertRegisterValidator_def applyUpdateGeneratorKey_def revertUpdateGeneratorKey_def applyRegisterKeys_def revertRegisterKeys_def
    updateTotalStake_def updateTotalSelfStake_def
  by (intro keep_rules keep_seq keep_bind outside_names [OF assms] assms refl | simp)+

lemma keep_token [keep_rules]:
  assumes "outside n"
  shows "keeps n st (applyTransfer tenv b ctx ev st)" "keeps n st (applyTransferCrossChain tenv b ctx ev st)" "keeps n st (revert_transfer tenv b ctx ev st)"
    "keeps n st (applyNftTransfer tenv b ctx ev st)" "keeps n st (revertNftTransfer tenv b ctx ev st)"
    "keeps n st (applyTokenBurn tenv b ctx ev st)" "keeps n st (revertTokenBurn tenv b ctx ev st)"
    "keeps n st (applyTokenMint tenv b ctx ev st)" "keeps n st (revertTokenMint tenv b ctx ev st)"
    "keeps n st (applyTokenCreate tenv b ctx ev st)" "keeps n st (revertTokenCreate tenv b ctx ev st)"
    "keeps n st (applyFactorySetAttributes tenv b ctx ev st)" "keeps n st (revertFactorySetAttributes tenv b ctx ev st)"
    "keeps n st (applyRegisterMultisignature tenv b ctx ev st)" "keeps n st (revertRegisterMultisignature tenv b ctx ev st)"
  unfolding applyTransfer_def applyTransferCrossChain_def apply_transfer_def revert_transfer_def applyNftTransfer_def revertNftTransfer_def
    nft_transfer_to_def applyTokenBurn_def revertTokenBurn_def applyTokenMint_def revertTokenMint_def applyTokenCreate_def revertTokenCreate_def
    applyFactorySetAttributes_def revertFactorySetAttributes_def applyRegisterMultisignature_def revertRegisterMultisignature_def
  by (intro keep_rules keep_seq keep_bind outside_names [OF assms] assms refl | simp)+


lemma keep_chain [keep_rules]:
  assumes "outside n"
  shows "keeps n st (applyRegisterSidechain tenv b ctx ev st)" "keeps n st (revertRegisterSidechain tenv b ctx ev st)"
    "keeps n st (applyRegisterMainchain tenv b ctx ev st)" "keeps n st (revertRegisterMainchain tenv b ctx ev st)"
    "keeps n st (applyTerminateSidechain tenv b ctx ev st)" "keeps n st (applySubmitCCU tenv b ctx ev st)" "keeps n st (revertSubmitCCU tenv b ctx ev st)"
  unfolding applyRegisterSidechain_def revertRegisterSidechain_def applyRegisterMainchain_def revertRegisterMainchain_def
    applyTerminateSidechain_def applySubmitCCU_def revertSubmitCCU_def
  by (intro keep_rules keep_seq keep_bind outside_names [OF assms] assms refl | simp)+

lemma keep_treasurify [keep_rules]: "keeps n st (treasurify tenv b ctx ev st)"
proof -
  have "keeps n st (case (u, v) of (JStr t, JStr p) \<Rightarrow> Inr (indexAccountAddress (f p) (indexAccountAddress (g t) st)) | _ \<Rightarrow> Inl TypeError)" for u v f g
    by (cases u; cases v) (simp_all add: keeps_def same_table_def)
  then show ?thesis unfolding treasurify_def
    by (intro keep_if keep_bind) (simp_all add: keeps_def same_table_def)
qed

lemma keep_processors:
  assumes "outside n" and "map_of processors mc = Some (ap, rv)"
  shows "keeps n st (ap env b tx ev st)" "keeps n st (rv env b tx ev st)"
proof -
  have "\<forall>(mc, ap, rv) \<in> set processors. \<forall>st env b tx ev. keeps n st (ap env b tx ev st) \<and> keeps n st (rv env b tx ev st)"
    unfolding processors_def
    by (simp add: dex_command_def pos_command_def no_op_def keep_rules assms(1))
  then show "keeps n st (ap env b tx ev st)" "keeps n st (rv env b tx ev st)"
    using map_of_SomeD [OF assms(2)] by auto
qed

lemma keep_transaction [keep_rules]:
  assumes "outside n"
  shows "keeps n st (applyTransaction env ms b tx ev st)" "keeps n st (revertTransaction env ms b tx ev st)"
  using keep_processors [OF assms]
  by (auto simp: applyTransaction_def revertTransaction_def keep_Inr split: option.splits)

text \<open>
  C18: Processing a transaction touches only its tables. Whatever the module and the command,
  applying or reverting a transaction leaves every table outside \<^const>\<open>command_tables\<close> as it
  was, in the block's transaction and outside it; in particular the blocks, the events and
  the price and volume tables.
\<close>

theorem transactions_touch_only_their_tables:
  assumes "n \<notin> set command_tables"
    and "applyTransaction env modules header tx events st = Inr st' \<or> revertTransaction env modules header tx events st = Inr st'"
  shows "committed (st_db st') n = committed (st_db st) n \<and> working (st_db st') n = working (st_db st) n"
  using keep_transaction [OF assms(1), of st env modules header tx events] assms(2) by (auto simp: keeps_def same_table_def)


definition example_token_env :: token_env where
  "example_token_env = pos_env.extend example_pos_env \<lparr>factory_attribute = (\<lambda>_ _. Inr None), decode_metadata = (\<lambda>_. Inr []),
     isTokenAvailable = (\<lambda>_. Inr True), registry_tokens = (\<lambda>_. Inr []), render_png = (\<lambda>s. s), save_logo = (\<lambda>_ _. Inr ()),
     delete_logo = (\<lambda>_. Inr ()), serviceUrl = ''http'', chain_account = (\<lambda>_. Inr (JStr ''c'', JStr ''activated'')),
     getMainchainID = JStr ''00000000'', isMainchain = False, getTransactions = (\<lambda>_. Inr [])\<rparr>"

theorem transactions_touch_only_their_tables_witness:
  "\<exists>st'. applyTransaction example_token_env [''pos''] example_header (example_stake_tx ''v'' 10) [] empty_state = Inr st'
     \<and> working (st_db st') ''blocks'' = []"
proof -
  obtain w where w: "stake_tx_ok example_pos_env (example_stake_tx ''v'' 10) [\<lparr>stakerAddress = JStr w, validatorAddress = JStr ''v'', stake_amount = 10\<rparr>]"
    using example_stake_ok by blast
  have tr: "pos_env.truncate example_token_env = example_pos_env"
    by (simp add: example_token_env_def example_pos_env_def pos_env.defs env.defs)
  obtain st' where st': "applyStake example_pos_env example_header (example_stake_tx ''v'' 10) [] empty_state = Inr st'"
    using applyStake_effect [OF w empty_totals(2,1)] by blast
  have disp: "tx_module (example_stake_tx ''v'' 10) = ''pos''" "tx_command (example_stake_tx ''v'' 10) = ''stake''"
    by (simp_all add: example_stake_tx_def tx.defs)
  have "applyTransaction example_token_env [''pos''] example_header (example_stake_tx ''v'' 10) [] empty_state = Inr st'"
    by (simp add: applyTransaction_def processors_def disp pos_command_def tr st')
  moreover from this have "working (st_db st') ''blocks'' = working (st_db empty_state) ''blocks''"
    using transactions_touch_only_their_tables [of "''blocks''" example_token_env "[''pos'']" example_header "example_stake_tx ''v'' 10" "[]" empty_state st']
    by (simp add: command_tables_def)
  ultimately show ?thesis by (simp add: empty_state_def)
qed

text \<open>
  Reverting the creation of a token always fails. The search for the token's symbol returns an
  array and the code reads the symbol of the array, so that whenever the transaction's
  event is found, whatever the tables hold, the revert stops with a type error and the
  token stays in the index.
\<close>

theorem tokenCreate_revert_fails:
  assumes "executionStatus tx = SUCCESSFUL" and "factory_event ''factoryCreated'' tx events = Inr (e, tid)"
  shows "revertTokenCreate env header tx events st = Inl TypeError"
proof -
  have "queryBuilder False [(''tokenID'', PVal (JStr tid))] = Inr (\<lambda>r. sql_eq (row_get r ''tokenID'') (JStr tid))"
    by (simp add: find_query_simps)
  then obtain rs where "find_tbl tokenFactoryTableSchema [(''tokenID'', PVal (JStr tid))] (Some [''symbol'']) False (st_db st) = Inr rs"
    by (simp add: find_tbl_def Let_def)
  then show ?thesis using assms by (simp add: revertTokenCreate_def logo_file_def)
qed

definition example_created_token :: event where
  "example_created_token = \<lparr>ev_id = ''e'', ev_name = ''factoryCreated'', ev_module = ''tokenFactory'', ev_topics = Some [''04ab''], ev_index = 0,
     ev_height = 7, ev_data = [(''tokenId'', JStr ''0000000000000001'')]\<rparr>"

theorem tokenCreate_revert_fails_witness:
  "revertTokenCreate example_token_env example_header (example_stake_tx ''v'' 10) [Some example_created_token] empty_state = Inl TypeError"
proof (rule tokenCreate_revert_fails)
  show "executionStatus (example_stake_tx ''v'' 10) = SUCCESSFUL" by (simp add: example_stake_tx_def tx.defs)
  have "tx_id (example_stake_tx ''v'' 10) = ''ab''" by (simp add: example_stake_tx_def tx.defs example_tx_def)
  then show "factory_event ''factoryCreated'' (example_stake_tx ''v'' 10) [Some example_created_token] = Inr (example_created_token, ''0000000000000001'')"
    by (simp add: factory_event_def parseSingleEvent_def event_matches_def topics_include_def example_created_token_def TX_ID_def deref_def field_def)
qed

end
