(* ===== verification/App_Registry.thy ===== *)
theory App_Registry
  imports Token_Processors KV_Store Json_Values Js_Sort
begin

text \<open>
  The index of the application registry, \<^verbatim>\<open>services/blockchain-app-registry\<close>: metadata files of a git repository are kept in a directory and indexed in two
  tables (\<^verbatim>\<open>shared/metadataIndex.js\<close>); a job compares the repository with the last commit that was seen and brings directory and tables
  up to date (\<^verbatim>\<open>shared/utils/downloadRepository.js\<close>).
\<close>

section \<open>Files\<close>

text \<open>
  A path is the list of its names. A file is kept as what \<^verbatim>\<open>JSON.parse\<close> makes of it, \<open>None\<close> if it is not JSON. A directory
  exists as far as there are files below it.
\<close>

type_synonym path = "string list"

type_synonym files = "(path \<times> json option) list"

definition read_json :: "files \<Rightarrow> path \<Rightarrow> json result" where
  "read_json fs p = (case map_of fs p of None \<Rightarrow> Inl (Error ''ENOENT'') | Some None \<Rightarrow> Inl SyntaxError | Some (Some j) \<Rightarrow> Inr j)"

definition is_prefix :: "path \<Rightarrow> path \<Rightarrow> bool" where
  "is_prefix d p \<longleftrightarrow> take (length d) p = d"

definition rmdir :: "path \<Rightarrow> files \<Rightarrow> files" where
  "rmdir d fs = filter (\<lambda>(p, c). \<not> is_prefix d p) fs"

definition getDirectories :: "files \<Rightarrow> path \<Rightarrow> path list result" where
  "getDirectories fs d =
     (if list_ex (\<lambda>(p, c). is_prefix d p) fs
      then Inr (map (\<lambda>n. d @ [n]) (rev (remdups (map (\<lambda>(p, c). p ! length d) (filter (\<lambda>(p, c). is_prefix d p \<and> length d + 1 < length p) fs)))))
      else Inl (Error ''ENOENT''))"

definition getFiles :: "files \<Rightarrow> path \<Rightarrow> path list" where
  "getFiles fs d = filter (\<lambda>p. p \<noteq> [] \<and> butlast p = d) (map fst fs)"

definition mv :: "path \<Rightarrow> path \<Rightarrow> files \<Rightarrow> files result" where
  "mv from to fs = (case map_of fs from of None \<Rightarrow> Inl (Error ''ENOENT'') | Some c \<Rightarrow> Inr (AList.update to c (filter (\<lambda>(p, c). p \<noteq> from) fs)))"

record reg_config =
  rc_dataDir :: path
  rc_repo :: string
  rc_supportedNetworks :: "string list"
  rc_defaultApps :: "string list"
  rc_kvPrefix :: string

definition APP_JSON :: string where "APP_JSON = ''app.json''"

definition NATIVETOKENS_JSON :: string where "NATIVETOKENS_JSON = ''nativetokens.json''"

abbreviation repo_dir :: "reg_config \<Rightarrow> path" where
  "repo_dir cfg \<equiv> rc_dataDir cfg @ [rc_repo cfg]"

section \<open>Indexing a file\<close>

text \<open>A value as the table layer sees it: what is not a scalar is converted with \<^verbatim>\<open>String\<close>.\<close>

definition cell_of :: "json \<Rightarrow> jsval" where
  "cell_of v = (case v of JV x \<Rightarrow> x | _ \<Rightarrow> JStr (json_String v))"

definition toLowerCase :: "json \<Rightarrow> jsval result" where
  "toLowerCase v = (case v of JV (JStr s) \<Rightarrow> Inr (JStr (map to_lower s)) | _ \<Rightarrow> Inl TypeError)"

definition array_of :: "json \<Rightarrow> json list result" where
  "array_of v = (case v of JArr vs \<Rightarrow> Inr vs | _ \<Rightarrow> Inl TypeError)"

definition metadata_token_row :: "object \<Rightarrow> json \<Rightarrow> row result" where
  "metadata_token_row tokenMeta token =
     bindR (json_get token ''tokenName'') (\<lambda>tokenName. bindR (json_get token ''tokenID'') (\<lambda>tokenID. bindR (toLowerCase tokenID) (\<lambda>lower.
       Inr [(''chainName'', cell_of (prop_of tokenMeta ''chainName'')), (''network'', cell_of (prop_of tokenMeta ''network'')), (''tokenName'', cell_of tokenName), (''tokenID'', lower)])))"

definition indexTokensMeta :: "object \<Rightarrow> bool \<Rightarrow> db \<Rightarrow> db result" where
  "indexTokensMeta tokenMeta dbTrx d =
     bindR (array_of (prop_of tokenMeta ''tokens'')) (\<lambda>tokens. bindR (mapR (metadata_token_row tokenMeta) tokens) (\<lambda>rows.
       upsert tokenMetadataIndexSchema rows dbTrx d))"

definition application_row :: "reg_config \<Rightarrow> object \<Rightarrow> row" where
  "application_row cfg appMeta =
     [(''chainID'', cell_of (prop_of appMeta ''chainID'')), (''displayName'', cell_of (prop_of appMeta ''displayName'')), (''chainName'', cell_of (prop_of appMeta ''chainName'')),
      (''network'', cell_of (prop_of appMeta ''networkType'')), (''isDefault'', JBool (list_ex (\<lambda>e. JString e = prop_of appMeta ''chainName'') (rc_defaultApps cfg))),
      (''appDirName'', cell_of (prop_of appMeta ''appDirName''))]"

definition indexAppMeta :: "reg_config \<Rightarrow> object \<Rightarrow> bool \<Rightarrow> db \<Rightarrow> db result" where
  "indexAppMeta cfg appMeta dbTrx d = upsert applicationMetadataIndexSchema [application_row cfg appMeta] dbTrx d"

text \<open>\<^verbatim>\<open>filePath.split('/').slice(-3)\<close>\<close>

definition last3 :: "path \<Rightarrow> string option \<times> string option \<times> string option" where
  "last3 p = (case drop (length p - 3) p of [a, b, c] \<Rightarrow> (Some a, Some b, Some c) | [a, b] \<Rightarrow> (Some a, Some b, None) | [a] \<Rightarrow> (Some a, None, None) | _ \<Rightarrow> (None, None, None))"

definition absent :: "string option \<Rightarrow> bool" where
  "absent s \<longleftrightarrow> s = None \<or> s = Some []"

text \<open>The file \<^verbatim>\<open>app.json\<close> beside the given file is read, if it exists, and the one of the repository otherwise. A missing file name is \<^verbatim>\<open>undefined\<close>, never \<^verbatim>\<open>null\<close>.\<close>

definition indexMetadataFromFile :: "reg_config \<Rightarrow> path \<Rightarrow> bool \<Rightarrow> files \<Rightarrow> db \<Rightarrow> db result" where
  "indexMetadataFromFile cfg filePath dbTrx fs d =
     (let (network, app, filename) = last3 filePath in
      if absent network \<or> absent app then Inl (Error ''Require both network and app.'')
      else let oldAppJsonPath = repo_dir cfg @ [the network, the app, APP_JSON];
               downloadedAppJsonPath = butlast filePath @ [APP_JSON];
               appJsonPath = (if map_of fs downloadedAppJsonPath \<noteq> None then downloadedAppJsonPath else oldAppJsonPath)
           in bindR (read_json fs appJsonPath) (\<lambda>parsed. let appMeta = spread2 (spread2 [] (spread_fields parsed)) [(''appDirName'', JString (the app))] in
              bindR (if filename = Some APP_JSON then indexAppMeta cfg appMeta dbTrx d else Inr d) (\<lambda>d1.
              if filename = Some NATIVETOKENS_JSON
              then bindR (read_json fs filePath) (\<lambda>tokens.
                     indexTokensMeta (spread2 (spread2 [] (spread_fields tokens)) [(''chainName'', prop_of appMeta ''chainName''), (''network'', JString (the network))]) dbTrx d1)
              else Inr d1)))"

section \<open>Removing what a file has put into the index\<close>

definition deleteAppMeta :: "object \<Rightarrow> bool \<Rightarrow> db \<Rightarrow> db result" where
  "deleteAppMeta appMeta dbTrx d =
     deleteByParams applicationMetadataIndexSchema [(''network'', PVal (cell_of (prop_of appMeta ''networkType''))), (''chainName'', PVal (cell_of (prop_of appMeta ''chainName'')))] dbTrx d"

definition deleteTokensMeta :: "json list \<Rightarrow> bool \<Rightarrow> db \<Rightarrow> db result" where
  "deleteTokensMeta tokenIDs dbTrx d =
     foldR (\<lambda>tokenID d. bindR (toLowerCase tokenID) (\<lambda>lower. deleteByParams tokenMetadataIndexSchema [(''tokenID'', PVal lower)] dbTrx d)) tokenIDs d"

definition deleteIndexedMetadataFromFile :: "path \<Rightarrow> bool \<Rightarrow> files \<Rightarrow> db \<Rightarrow> db result" where
  "deleteIndexedMetadataFromFile filePath dbTrx fs d =
     (let (network, app, filename) = last3 filePath in
      if absent network \<or> absent app then Inl (Error ''Require both network and app.'')
      else bindR (read_json fs (butlast filePath @ [APP_JSON])) (\<lambda>parsed.
           bindR (if filename = Some APP_JSON then deleteAppMeta (spread2 [] (spread_fields parsed)) dbTrx d else Inr d) (\<lambda>d1.
           if filename = Some NATIVETOKENS_JSON
           then bindR (read_json fs filePath) (\<lambda>tokenMeta. bindR (json_get tokenMeta ''tokens'') (\<lambda>tokens. bindR (array_of tokens) (\<lambda>ts.
                  bindR (mapR (\<lambda>t. json_get t ''tokenID'') ts) (\<lambda>tokenIDs. deleteTokensMeta tokenIDs dbTrx d1))))
           else Inr d1)))"

definition indexAllBlockchainAppsMeta :: "reg_config \<Rightarrow> bool \<Rightarrow> files \<Rightarrow> db \<Rightarrow> db result" where
  "indexAllBlockchainAppsMeta cfg dbTrx fs d =
     foldR (\<lambda>network d. bindR (getDirectories fs (repo_dir cfg @ [network])) (\<lambda>apps.
       foldR (\<lambda>app d. foldR (\<lambda>file d. if last file \<in> {APP_JSON, NATIVETOKENS_JSON} then indexMetadataFromFile cfg file dbTrx fs d else Inr d) (getFiles fs app) d) apps d))
       (rc_supportedNetworks cfg) d"

section \<open>The remote repository\<close>

record file_info =
  fi_filename :: path
  fi_status :: string

text \<open>What GitHub answers, and what its files contain\<close>

record remote =
  rm_latestCommit :: "string result"
  rm_diff :: "jsval \<Rightarrow> string \<Rightarrow> file_info list result"
  rm_download :: "path \<Rightarrow> json option result"
  rm_tarball :: "files result"

record reg_state =
  rs_db :: db
  rs_files :: files

definition COMMIT_HASH_UNTIL_LAST_SYNC :: string where
  "COMMIT_HASH_UNTIL_LAST_SYNC = ''commitHashUntilLastSync''"

definition getCommitInfo :: "reg_config \<Rightarrow> remote \<Rightarrow> bool \<Rightarrow> db \<Rightarrow> (jsval \<times> string) result" where
  "getCommitInfo cfg remote dbTrx d =
     bindR (kv_get (rc_kvPrefix cfg) COMMIT_HASH_UNTIL_LAST_SYNC dbTrx d) (\<lambda>lastSynced. bindR (rm_latestCommit remote) (\<lambda>latest. Inr (lastSynced, latest)))"

definition isMetadataFile :: "string option \<Rightarrow> bool" where
  "isMetadataFile filePath \<longleftrightarrow> (case filePath of Some f \<Rightarrow> f \<noteq> [] \<and> (has_suffix f APP_JSON \<or> has_suffix f NATIVETOKENS_JSON) | None \<Rightarrow> False)"

type_synonym grouped = "(string \<times> (string \<times> file_info list) list) list"

definition group_file :: "reg_config \<Rightarrow> file_info \<Rightarrow> grouped \<Rightarrow> grouped" where
  "group_file cfg f groups =
     (case last3 (fi_filename f) of
        (Some network, Some appName, fileName) \<Rightarrow>
          if network \<notin> set (rc_supportedNetworks cfg) \<or> \<not> isMetadataFile fileName then groups
          else let apps = (case map_of groups network of Some a \<Rightarrow> a | None \<Rightarrow> []);
                   files = (case map_of apps appName of Some fs \<Rightarrow> fs | None \<Rightarrow> [])
               in AList.update network (AList.update appName (files @ [f]) apps) groups
      | _ \<Rightarrow> groups)"

text \<open>\<open>localeCompare\<close> is the comparison of strings of the language, which depends on its locale.\<close>

definition groupFilesByNetworkAndApp :: "(string \<Rightarrow> string \<Rightarrow> int) \<Rightarrow> reg_config \<Rightarrow> file_info list \<Rightarrow> grouped" where
  "groupFilesByNetworkAndApp localeCompare cfg fileInfos =
     fold (group_file cfg) (js_sort (\<lambda>a b. localeCompare (join_with ''/'' (fi_filename a)) (join_with ''/'' (fi_filename b))) fileInfos) []"

definition grouped_files :: "grouped \<Rightarrow> file_info list" where
  "grouped_files groups = concat (map (\<lambda>(network, apps). concat (map snd apps)) groups)"

definition getModifiedFileNames :: "grouped \<Rightarrow> path list" where
  "getModifiedFileNames groups = map fi_filename (grouped_files groups)"

section \<open>The event after an update\<close>

definition filterMetaConfigFilesByNetwork :: "string \<Rightarrow> path list \<Rightarrow> path list" where
  "filterMetaConfigFilesByNetwork network filesChanged =
     filter (\<lambda>p. let file = join_with ''/'' p in take (length network) file = network \<and> (has_suffix file APP_JSON \<or> has_suffix file NATIVETOKENS_JSON)) filesChanged"

text \<open>The first two names of every path, each pair once, in the order of their first occurrence\<close>

definition getUniqueNetworkAppDirPairs :: "path list \<Rightarrow> (string \<times> string) list" where
  "getUniqueNetworkAppDirPairs ps = rev (remdups (rev (map (\<lambda>p. case p of n # a # _ \<Rightarrow> (n, a) | [n] \<Rightarrow> (n, ''undefined'') | [] \<Rightarrow> ([], ''undefined'')) ps)))"

definition resolveChainNameByNetworkAppDir :: "string \<Rightarrow> string \<Rightarrow> db \<Rightarrow> jsval result" where
  "resolveChainNameByNetworkAppDir network appDirName d =
     bindR (find_tbl applicationMetadataIndexSchema [(''network'', PVal (JStr network)), (''appDirName'', PVal (JStr appDirName))] (Some [''chainName'']) False d) (\<lambda>rows.
       Inr (case rows of [] \<Rightarrow> JStr [] | r # _ \<Rightarrow> row_get r ''chainName''))"

definition buildEventPayload :: "reg_config \<Rightarrow> path list \<Rightarrow> db \<Rightarrow> (string \<times> jsval list) list result" where
  "buildEventPayload cfg allFilesModified d =
     mapR (\<lambda>networkType. bindR (mapR (\<lambda>(n, a). resolveChainNameByNetworkAppDir n a d)
         (getUniqueNetworkAppDirPairs (filterMetaConfigFilesByNetwork networkType allFilesModified))) (\<lambda>apps. Inr (networkType, apps)))
       (rc_supportedNetworks cfg)"

section \<open>Synchronisation\<close>

definition temp_dir :: "reg_config \<Rightarrow> path" where
  "temp_dir cfg = repo_dir cfg @ [''temp-downloads'']"

text \<open>While files are processed: the database, the files, what is to be deleted and what is to be moved\<close>

record sync_acc =
  sa_db :: db
  sa_files :: files
  sa_delete :: "path list"
  sa_move :: "(path \<times> path) list"

definition old_info :: "string \<Rightarrow> bool" where
  "old_info status \<longleftrightarrow> status \<in> {''removed'', ''modified'', ''changed''}"

text \<open>A file of the difference; the first component is the error that ends the synchronisation.\<close>

definition process_file :: "reg_config \<Rightarrow> remote \<Rightarrow> file_info \<Rightarrow> sync_acc \<Rightarrow> js_error option \<times> sync_acc" where
  "process_file cfg remote f acc =
     (let localFilePath = repo_dir cfg @ fi_filename f in
      case (if old_info (fi_status f) then deleteIndexedMetadataFromFile localFilePath True (sa_files acc) (sa_db acc) else Inr (sa_db acc)) of
        Inl e \<Rightarrow> (Some e, acc)
      | Inr d1 \<Rightarrow>
          (if fi_status f = ''removed'' then (None, acc\<lparr>sa_db := d1, sa_delete := sa_delete acc @ [localFilePath]\<rparr>)
           else let tempFilePath = temp_dir cfg @ fi_filename f in
             case rm_download remote (fi_filename f) of
               Inl e \<Rightarrow> (Some e, acc\<lparr>sa_db := d1\<rparr>)
             | Inr content \<Rightarrow>
                 (let acc1 = acc\<lparr>sa_db := d1, sa_files := AList.update tempFilePath content (sa_files acc)\<rparr> in
                  case indexMetadataFromFile cfg tempFilePath True (sa_files acc1) d1 of
                    Inl e \<Rightarrow> (Some e, acc1)
                  | Inr d2 \<Rightarrow> (None, acc1\<lparr>sa_db := d2, sa_move := sa_move acc1 @ [(tempFilePath, localFilePath)]\<rparr>))))"

fun process_files :: "reg_config \<Rightarrow> remote \<Rightarrow> file_info list \<Rightarrow> sync_acc \<Rightarrow> js_error option \<times> sync_acc" where
  "process_files cfg remote [] acc = (None, acc)"
| "process_files cfg remote (f # fs) acc =
     (case process_file cfg remote f acc of (None, acc1) \<Rightarrow> process_files cfg remote fs acc1 | (Some e, acc1) \<Rightarrow> (Some e, acc1))"

text \<open>What happens to the files once the transaction is committed\<close>

definition settle_files :: "reg_config \<Rightarrow> sync_acc \<Rightarrow> files result" where
  "settle_files cfg acc =
     bindR (foldR (\<lambda>(from, to) fs. mv from to fs) (sa_move acc) (filter (\<lambda>(p, c). p \<notin> set (sa_delete acc)) (sa_files acc))) (\<lambda>fs. Inr (rmdir (temp_dir cfg) fs))"

type_synonym payload = "(string \<times> jsval list) list"

text \<open>
  \<open>own\<close>: no transaction is passed, so that the function starts, commits and rolls back one of its own. The result is the error that is thrown or the payload of the signal, if one is
  dispatched. An error after the commit is thrown too; the roll back then has no effect.
\<close>

definition syncWithRemoteRepo :: "(string \<Rightarrow> string \<Rightarrow> int) \<Rightarrow> reg_config \<Rightarrow> remote \<Rightarrow> bool \<Rightarrow> reg_state \<Rightarrow> payload option result \<times> reg_state" where
  "syncWithRemoteRepo localeCompare cfg remote own st =
     (let d0 = (if own then startDBTransaction (rs_db st) else rs_db st);
          undo = (\<lambda>d. if own then rollbackDBTransaction d else d);
          finish = (\<lambda>d. if own then commitDBTransaction d else d)
      in case getCommitInfo cfg remote True d0 of
           Inl e \<Rightarrow> (Inl e, st\<lparr>rs_db := undo d0\<rparr>)
         | Inr (lastSynced, latest) \<Rightarrow>
             if lastSynced = JStr latest then (Inr None, st\<lparr>rs_db := undo d0\<rparr>)
             else let fs0 = rmdir (temp_dir cfg) (rs_files st) in
               case rm_diff remote lastSynced latest of
                 Inl e \<Rightarrow> (Inl e, \<lparr>rs_db = undo d0, rs_files = fs0\<rparr>)
               | Inr files \<Rightarrow>
                   (let groups = groupFilesByNetworkAndApp localeCompare cfg files in
                    case process_files cfg remote (grouped_files groups) \<lparr>sa_db = d0, sa_files = fs0, sa_delete = [], sa_move = []\<rparr> of
                      (Some e, acc) \<Rightarrow> (Inl e, \<lparr>rs_db = undo (sa_db acc), rs_files = sa_files acc\<rparr>)
                    | (None, acc) \<Rightarrow>
                        (case kv_set (rc_kvPrefix cfg) COMMIT_HASH_UNTIL_LAST_SYNC (JStr latest) True (sa_db acc) of
                           Inl e \<Rightarrow> (Inl e, \<lparr>rs_db = undo (sa_db acc), rs_files = sa_files acc\<rparr>)
                         | Inr d1 \<Rightarrow>
                             (let d2 = finish d1 in
                              case settle_files cfg acc of
                                Inl e \<Rightarrow> (Inl e, \<lparr>rs_db = undo d2, rs_files = sa_files acc\<rparr>)
                              | Inr fs1 \<Rightarrow>
                                  (if groups = [] then (Inr None, \<lparr>rs_db = d2, rs_files = fs1\<rparr>)
                                   else case buildEventPayload cfg (getModifiedFileNames groups) d2 of
                                          Inl e \<Rightarrow> (Inl e, \<lparr>rs_db = undo d2, rs_files = fs1\<rparr>)
                                        | Inr p \<Rightarrow> (Inr (Some p), \<lparr>rs_db = d2, rs_files = fs1\<rparr>))))))"

section \<open>Start-up\<close>

definition dir_exists :: "files \<Rightarrow> path \<Rightarrow> bool" where
  "dir_exists fs d = list_ex (\<lambda>(p, c). is_prefix d p) fs"

text \<open>The archive is unpacked into the data directory; its first directory, the most recent one, is renamed to that of the repository.\<close>

definition clone_repo :: "reg_config \<Rightarrow> remote \<Rightarrow> files \<Rightarrow> files result" where
  "clone_repo cfg remote fs =
     bindR (rm_tarball remote) (\<lambda>tarball.
     let unpacked = fold (\<lambda>(p, c). AList.update (rc_dataDir cfg @ p) c) tarball (rmdir (repo_dir cfg) fs) in
     bindR (getDirectories unpacked (rc_dataDir cfg)) (\<lambda>dirs. case dirs of
       [] \<Rightarrow> Inl TypeError
     | old # _ \<Rightarrow> Inr (map (\<lambda>(p, c). (if is_prefix old p then repo_dir cfg @ drop (length old) p else p, c)) unpacked)))"

definition downloadRepositoryToFS :: "(string \<Rightarrow> string \<Rightarrow> int) \<Rightarrow> reg_config \<Rightarrow> remote \<Rightarrow> reg_state \<Rightarrow> unit result \<times> reg_state" where
  "downloadRepositoryToFS localeCompare cfg remote st =
     (case kv_get (rc_kvPrefix cfg) COMMIT_HASH_UNTIL_LAST_SYNC True (rs_db st) of
        Inl e \<Rightarrow> (Inl e, st)
      | Inr lastSynced \<Rightarrow>
          (if js_Boolean lastSynced \<and> dir_exists (rs_files st) (repo_dir cfg)
           then (case syncWithRemoteRepo localeCompare cfg remote False st of (Inl e, st1) \<Rightarrow> (Inl e, st1) | (Inr _, st1) \<Rightarrow> (Inr (), st1))
           else case clone_repo cfg remote (rs_files st) of
                  Inl e \<Rightarrow> (Inl e, st\<lparr>rs_files := rmdir (repo_dir cfg) (rs_files st)\<rparr>)
                | Inr fs \<Rightarrow>
                    (case bindR (rm_latestCommit remote) (\<lambda>latest. kv_set (rc_kvPrefix cfg) COMMIT_HASH_UNTIL_LAST_SYNC (JStr latest) True (rs_db st)) of
                       Inl e \<Rightarrow> (Inl e, st\<lparr>rs_files := fs\<rparr>)
                     | Inr d \<Rightarrow> (Inr (), \<lparr>rs_db = d, rs_files = fs\<rparr>))))"

definition registry_init :: "(string \<Rightarrow> string \<Rightarrow> int) \<Rightarrow> reg_config \<Rightarrow> remote \<Rightarrow> reg_state \<Rightarrow> reg_state" where
  "registry_init localeCompare cfg remote st =
     (case downloadRepositoryToFS localeCompare cfg remote (st\<lparr>rs_db := startDBTransaction (rs_db st)\<rparr>) of
        (Inl e, st1) \<Rightarrow> st1\<lparr>rs_db := rollbackDBTransaction (rs_db st1)\<rparr>
      | (Inr _, st1) \<Rightarrow>
          (case indexAllBlockchainAppsMeta cfg True (rs_files st1) (rs_db st1) of
             Inl e \<Rightarrow> st1\<lparr>rs_db := rollbackDBTransaction (rs_db st1)\<rparr>
           | Inr d \<Rightarrow> st1\<lparr>rs_db := commitDBTransaction d\<rparr>))"

section \<open>The job that removes other files\<close>

text \<open>Every file below the data directory that is neither an image nor a metadata file is removed; empty directories disappear with their files.\<close>

definition removeEmptyDirectoriesAndNonMetaFiles :: "path \<Rightarrow> files \<Rightarrow> files" where
  "removeEmptyDirectoriesAndNonMetaFiles dirPath fs =
     filter (\<lambda>(p, c). \<not> is_prefix dirPath p \<or> has_suffix (last p) ''.png'' \<or> has_suffix (last p) ''.svg'' \<or> isMetadataFile (Some (last p))) fs"

section \<open>Effects on the tables\<close>

definition reg_ok :: "db \<Rightarrow> bool" where
  "reg_ok d \<longleftrightarrow> db_typed applicationMetadataIndexSchema d \<and> db_typed tokenMetadataIndexSchema d"

definition app_at :: "db \<Rightarrow> jsval list \<Rightarrow> row option" where
  "app_at d k = lookup_key applicationMetadataIndexSchema k (working d ''application_metadata'')"

definition token_at :: "db \<Rightarrow> jsval list \<Rightarrow> row option" where
  "token_at d k = lookup_key tokenMetadataIndexSchema k (working d ''token_metadata'')"

text \<open>A cell of a column of strings\<close>

definition stored :: "jsval \<Rightarrow> jsval" where
  "stored v = (if v = JUndefined then JNull else JStr (js_String v))"

definition stored_app :: "reg_config \<Rightarrow> object \<Rightarrow> row" where
  "stored_app cfg am =
     [(''chainName'', stored (cell_of (prop_of am ''chainName''))), (''displayName'', stored (cell_of (prop_of am ''displayName''))), (''chainID'', stored (cell_of (prop_of am ''chainID''))),
      (''network'', stored (cell_of (prop_of am ''networkType''))), (''isDefault'', JBool (list_ex (\<lambda>e. JString e = prop_of am ''chainName'') (rc_defaultApps cfg))),
      (''appDirName'', stored (cell_of (prop_of am ''appDirName'')))]"

definition app_key :: "object \<Rightarrow> jsval list" where
  "app_key am = [stored (cell_of (prop_of am ''networkType'')), stored (cell_of (prop_of am ''chainName''))]"

lemma schema_names [simp]:
  "tableName applicationMetadataIndexSchema = ''application_metadata''" "tableName tokenMetadataIndexSchema = ''token_metadata''"
  by (simp_all add: applicationMetadataIndexSchema_def tokenMetadataIndexSchema_def)

lemma reg_config_typed: "config_typed applicationMetadataIndexSchema" "config_typed tokenMetadataIndexSchema"
  by (simp_all add: config_typed_def config_wf_def applicationMetadataIndexSchema_def tokenMetadataIndexSchema_def mk_col_def cell_ok_def)

lemma reg_ok_wf:
  "reg_ok d \<Longrightarrow> table_wf applicationMetadataIndexSchema (working d ''application_metadata'')" "reg_ok d \<Longrightarrow> table_wf tokenMetadataIndexSchema (working d ''token_metadata'')"
  by (auto simp: reg_ok_def db_typed_def table_typed_def)

text \<open>Only one table changes, and only inside the transaction.\<close>

definition only_table :: "string \<Rightarrow> db \<Rightarrow> db \<Rightarrow> bool" where
  "only_table n d d' \<longleftrightarrow> committed d' = committed d \<and> (\<forall>m. m \<noteq> n \<longrightarrow> working d' m = working d m)"

lemma only_table_run: "only_table n d (run_stmt n True f d)"
  by (simp add: only_table_def run_stmt_def)

lemma only_table_trans: "only_table n d d1 \<Longrightarrow> only_table n d1 d2 \<Longrightarrow> only_table n d d2"
  by (simp add: only_table_def)

lemma only_table_typed: "only_table n d d' \<Longrightarrow> db_typed cfg d \<Longrightarrow> tableName cfg \<noteq> n \<Longrightarrow> db_typed cfg d'"
  by (simp add: only_table_def db_typed_def)

lemma upsert_only: "upsert cfg rows True d = Inr d' \<Longrightarrow> only_table (tableName cfg) d d'"
  by (auto simp: upsert_def bindR_eq_Inr only_table_run split: if_splits)

lemma deleteByParams_only: "deleteByParams cfg ps True d = Inr d' \<Longrightarrow> only_table (tableName cfg) d d'"
  by (auto simp: deleteByParams_def bindR_eq_Inr only_table_run)

lemma getValue_stored: "(if v = JUndefined then JNull else JStr (js_String v)) = stored v" "getValue (stored v) = stored v"
  by (simp_all add: stored_def)

lemma map_app_row: "map_row (application_row cfg am) (schema applicationMetadataIndexSchema) = Inr (stored_app cfg am)"
  by (simp add: applicationMetadataIndexSchema_def application_row_def mk_col_def cast_types getValue_stored stored_app_def) (simp add: getValue_def)

lemma index_app:
  assumes "reg_ok d" and "indexAppMeta cfg am True d = Inr d'"
  shows "reg_ok d' \<and> only_table ''application_metadata'' d d' \<and> app_at d' k = (if k = app_key am then Some (stored_app cfg am) else app_at d k)"
proof -
  let ?cfg = applicationMetadataIndexSchema
  have up: "upsert ?cfg [application_row cfg am] True d = Inr d'" using assms(2) by (simp add: indexAppMeta_def)
  then have only: "only_table ''application_metadata'' d d'" using upsert_only by fastforce
  have typed: "db_typed ?cfg d'" using upsert_typed [OF reg_config_typed(1) _ up] assms(1) by (simp add: reg_ok_def)
  have "d' = run_stmt ''application_metadata'' True (sql_insert_merge ?cfg (stored_app cfg am)) d"
    using up by (auto simp: upsert_def map_app_row split: if_splits)
  then have w: "working d' ''application_metadata'' = sql_insert_merge ?cfg (stored_app cfg am) (working d ''application_metadata'')" by simp
  have full: "map fst (stored_app cfg am) = map col_name (schema ?cfg)" by (simp add: stored_app_def applicationMetadataIndexSchema_def mk_col_def)
  have key: "row_key ?cfg (stored_app cfg am) = app_key am" by (simp add: row_key_def applicationMetadataIndexSchema_def row_get_def stored_app_def app_key_def)
  have "app_at d' k = (if k = app_key am then Some (stored_app cfg am) else app_at d k)"
    using lookup_insert_full [OF config_wf_applicationMetadataIndexSchema reg_ok_wf(1) [OF assms(1)] full, of k] by (simp add: app_at_def w key)
  moreover have "reg_ok d'" using typed only_table_typed [OF only, of tokenMetadataIndexSchema] assms(1) by (simp add: reg_ok_def)
  ultimately show ?thesis using only by blast
qed

lemma lookup_sql_delete:
  assumes "\<forall>r \<in> set t. P r \<longleftrightarrow> row_key cfg r = k'"
  shows "lookup_key cfg k (sql_delete P t) = (if k = k' then None else lookup_key cfg k t)"
proof -
  have "sql_delete P t = delete_key cfg k' t" using assms by (auto simp: sql_delete_def delete_key_def intro: filter_cong)
  then show ?thesis by (simp add: lookup_delete)
qed

lemma string_cell: "table_typed cfg t \<Longrightarrow> r \<in> set t \<Longrightarrow> c \<in> set (schema cfg) \<Longrightarrow> col_type c = ''string'' \<Longrightarrow> cell_ok ''string'' (row_get r (col_name c))"
  by (force simp: table_typed_def list_all_iff row_typed_def)

lemma delete_app:
  assumes "reg_ok d" and "deleteAppMeta am True d = Inr d'" and "prop_of am ''networkType'' = JString n" and "prop_of am ''chainName'' = JString c"
  shows "reg_ok d' \<and> only_table ''application_metadata'' d d' \<and> app_at d' k = (if k = app_key am then None else app_at d k)"
proof -
  let ?cfg = applicationMetadataIndexSchema and ?t = "working d ''application_metadata''"
  let ?P = "\<lambda>r. sql_eq (row_get r ''network'') (JStr n) \<and> sql_eq (row_get r ''chainName'') (JStr c)"
  have del: "deleteByParams ?cfg [(''network'', PVal (JStr n)), (''chainName'', PVal (JStr c))] True d = Inr d'"
    using assms(2-4) by (simp add: deleteAppMeta_def cell_of_def)
  have only: "only_table ''application_metadata'' d d'" using deleteByParams_only [OF del] by simp
  have typed: "db_typed ?cfg d'" using deleteByParams_typed [OF _ del] assms(1) by (simp add: reg_ok_def)
  have t: "table_typed ?cfg ?t" using assms(1) by (simp add: reg_ok_def db_typed_def)
  have "row_key ?cfg r = [row_get r ''network'', row_get r ''chainName'']" for r by (simp add: row_key_def applicationMetadataIndexSchema_def)
  moreover have "cell_ok ''string'' (row_get r ''network'')" "cell_ok ''string'' (row_get r ''chainName'')" if "r \<in> set ?t" for r
    using string_cell [OF t that, of "mk_col ''network'' ''string''"] string_cell [OF t that, of "mk_col ''chainName'' ''string''"]
    by (simp_all add: applicationMetadataIndexSchema_def mk_col_def)
  ultimately have match: "\<forall>r \<in> set ?t. ?P r \<longleftrightarrow> row_key ?cfg r = app_key am"
    using assms(3,4) by (auto simp: sql_eq_typed app_key_def cell_of_def stored_def)
  have w: "working d' ''application_metadata'' = sql_delete ?P ?t"
    using del by (auto simp: deleteByParams_def find_query_simps)
  have "app_at d' k = (if k = app_key am then None else app_at d k)" unfolding app_at_def w by (rule lookup_sql_delete [OF match])
  moreover have "reg_ok d'" using typed only_table_typed [OF only, of tokenMetadataIndexSchema] assms(1) by (simp add: reg_ok_def)
  ultimately show ?thesis using only by blast
qed

lemma lookup_inserts_full:
  assumes "config_wf cfg" and "table_wf cfg t" and "\<forall>r \<in> set rs. map fst r = map col_name (schema cfg)"
  shows "lookup_key cfg k (fold (sql_insert_merge cfg) rs t) = (case map_of (rev (map (\<lambda>r. (row_key cfg r, r)) rs)) k of Some r \<Rightarrow> Some r | None \<Rightarrow> lookup_key cfg k t)"
  using assms(2,3)
proof (induction rs arbitrary: t)
  case (Cons r rs)
  have "lookup_key cfg k (sql_insert_merge cfg r t) = (if k = row_key cfg r then Some r else lookup_key cfg k t)"
    using lookup_insert_full [OF assms(1) Cons.prems(1)] Cons.prems(2) by simp
  then show ?case using Cons.IH [OF table_wf_insert [OF assms(1) Cons.prems(1)]] Cons.prems(2)
    by (auto simp: map_add_def split: option.splits)
qed simp

definition stored_row :: "row \<Rightarrow> row" where
  "stored_row r = map (\<lambda>(c, v). (c, stored v)) r"

definition token_columns :: "string list" where
  "token_columns = [''chainName'', ''network'', ''tokenName'', ''tokenID'']"

lemma metadata_token_columns: "metadata_token_row tm t = Inr r \<Longrightarrow> map fst r = token_columns"
  by (auto simp: metadata_token_row_def bindR_eq_Inr token_columns_def)

lemma map_token_row:
  assumes "map fst r = token_columns"
  shows "map_row r (schema tokenMetadataIndexSchema) = Inr (stored_row r)"
proof -
  obtain a b c e where "r = [(''chainName'', a), (''network'', b), (''tokenName'', c), (''tokenID'', e)]"
    using assms by (auto simp: token_columns_def map_eq_Cons_conv)
  then show ?thesis by (simp add: tokenMetadataIndexSchema_def mk_col_def cast_types getValue_stored stored_row_def)
qed

lemma map_token_rows: "\<forall>r \<in> set rs. map fst r = token_columns \<Longrightarrow> mapRowsBySchema rs (schema tokenMetadataIndexSchema) = Inr (map stored_row rs)"
  by (induction rs) (simp_all add: map_token_row)

definition token_key :: "row \<Rightarrow> jsval list" where
  "token_key r = [stored (row_get r ''tokenID'')]"

lemma row_key_stored: "map fst r = token_columns \<Longrightarrow> row_key tokenMetadataIndexSchema (stored_row r) = token_key r"
  by (auto simp: token_columns_def map_eq_Cons_conv row_key_def tokenMetadataIndexSchema_def stored_row_def row_get_def token_key_def)

definition metadata_token_rows :: "object \<Rightarrow> row list result" where
  "metadata_token_rows tm = bindR (array_of (prop_of tm ''tokens'')) (mapR (metadata_token_row tm))"

lemma index_tokens:
  assumes "reg_ok d" and "indexTokensMeta tm True d = Inr d'"
  obtains rows where "metadata_token_rows tm = Inr rows" and "reg_ok d'" and "only_table ''token_metadata'' d d'"
    and "\<forall>k. token_at d' k = (case map_of (rev (map (\<lambda>r. (token_key r, stored_row r)) rows)) k of Some r \<Rightarrow> Some r | None \<Rightarrow> token_at d k)"
proof -
  let ?cfg = tokenMetadataIndexSchema
  obtain rows where rows: "metadata_token_rows tm = Inr rows" and up: "upsert ?cfg rows True d = Inr d'"
    using assms(2) by (auto simp: indexTokensMeta_def metadata_token_rows_def bindR_eq_Inr)
  have cols: "\<forall>r \<in> set rows. map fst r = token_columns"
    using rows mapR_set metadata_token_columns by (fastforce simp: metadata_token_rows_def bindR_eq_Inr)
  have only: "only_table ''token_metadata'' d d'" using upsert_only [OF up] by simp
  have "db_typed ?cfg d'" using upsert_typed [OF reg_config_typed(2) _ up] assms(1) by (simp add: reg_ok_def)
  then have ok: "reg_ok d'" using only_table_typed [OF only, of applicationMetadataIndexSchema] assms(1) by (simp add: reg_ok_def)
  have "d' = run_stmt ''token_metadata'' True (fold (sql_insert_merge ?cfg) (map stored_row rows)) d"
    using up by (auto simp: upsert_def map_token_rows [OF cols] split: if_splits)
  then have w: "working d' ''token_metadata'' = fold (sql_insert_merge ?cfg) (map stored_row rows) (working d ''token_metadata'')" by simp
  have full: "\<forall>r \<in> set (map stored_row rows). map fst r = map col_name (schema ?cfg)"
  proof
    fix r assume "r \<in> set (map stored_row rows)"
    then obtain q where q: "r = stored_row q" "map fst q = token_columns" using cols by auto
    then show "map fst r = map col_name (schema ?cfg)" by (simp add: stored_row_def token_columns_def tokenMetadataIndexSchema_def mk_col_def comp_def case_prod_beta)
  qed
  have keys: "map (\<lambda>r. (row_key ?cfg r, r)) (map stored_row rows) = map (\<lambda>r. (token_key r, stored_row r)) rows"
    using cols by (simp add: row_key_stored)
  show thesis
    by (rule that [OF rows ok only], unfold token_at_def w, rule allI) (simp add: lookup_inserts_full [OF config_wf_tokenMetadataIndexSchema reg_ok_wf(2) [OF assms(1)] full] keys del: map_map)
qed

definition token_id_keys :: "json list \<Rightarrow> jsval list set" where
  "token_id_keys ids = {[v] | v i. i \<in> set ids \<and> toLowerCase i = Inr v}"

lemma delete_token:
  assumes "reg_ok d" and "deleteByParams tokenMetadataIndexSchema [(''tokenID'', PVal (JStr s))] True d = Inr d'"
  shows "reg_ok d' \<and> only_table ''token_metadata'' d d' \<and> token_at d' k = (if k = [JStr s] then None else token_at d k)"
proof -
  let ?cfg = tokenMetadataIndexSchema and ?t = "working d ''token_metadata''"
  let ?P = "\<lambda>r. sql_eq (row_get r ''tokenID'') (JStr s)"
  have only: "only_table ''token_metadata'' d d'" using deleteByParams_only [OF assms(2)] by simp
  have "db_typed ?cfg d'" using deleteByParams_typed [OF _ assms(2)] assms(1) by (simp add: reg_ok_def)
  then have ok: "reg_ok d'" using only_table_typed [OF only, of applicationMetadataIndexSchema] assms(1) by (simp add: reg_ok_def)
  have t: "table_typed ?cfg ?t" using assms(1) by (simp add: reg_ok_def db_typed_def)
  have "cell_ok ''string'' (row_get r ''tokenID'')" if "r \<in> set ?t" for r
    using string_cell [OF t that, of "mk_col ''tokenID'' ''string''"] by (simp_all add: tokenMetadataIndexSchema_def mk_col_def)
  then have match: "\<forall>r \<in> set ?t. ?P r \<longleftrightarrow> row_key ?cfg r = [JStr s]"
    by (simp add: sql_eq_typed row_key_def tokenMetadataIndexSchema_def)
  have w: "working d' ''token_metadata'' = sql_delete ?P ?t"
    using assms(2) by (auto simp: deleteByParams_def find_query_simps)
  have "token_at d' k = (if k = [JStr s] then None else token_at d k)" unfolding token_at_def w by (rule lookup_sql_delete [OF match])
  then show ?thesis using ok only by blast
qed

lemma delete_tokens:
  assumes "reg_ok d" and "deleteTokensMeta ids True d = Inr d'"
  shows "reg_ok d' \<and> only_table ''token_metadata'' d d' \<and> (\<forall>k. token_at d' k = (if k \<in> token_id_keys ids then None else token_at d k))"
  using assms unfolding deleteTokensMeta_def
proof (induction ids arbitrary: d)
  case Nil
  then show ?case by (simp add: only_table_def token_id_keys_def)
next
  case (Cons i ids)
  obtain v d1 where v: "toLowerCase i = Inr v" and d1: "deleteByParams tokenMetadataIndexSchema [(''tokenID'', PVal v)] True d = Inr d1"
      and rest: "foldR (\<lambda>tokenID d. bindR (toLowerCase tokenID) (\<lambda>lower. deleteByParams tokenMetadataIndexSchema [(''tokenID'', PVal lower)] True d)) ids d1 = Inr d'"
    using Cons.prems(2) by (auto simp: bindR_eq_Inr)
  obtain s where s: "v = JStr s" using v by (auto simp: toLowerCase_def split: json.splits jsval.splits)
  note one = delete_token [OF Cons.prems(1) d1 [unfolded s]]
  have "token_id_keys (i # ids) = insert [JStr s] (token_id_keys ids)" using v s by (auto simp: token_id_keys_def)
  then show ?case using one Cons.IH [OF _ rest] only_table_trans [of "''token_metadata''" d d1 d'] by auto
qed

section \<open>What a file contributes to the index\<close>

text \<open>The keys of both tables: \<open>Inl\<close> for applications, \<open>Inr\<close> for tokens\<close>

type_synonym index_key = "jsval list + jsval list"

definition entry :: "db \<Rightarrow> index_key \<Rightarrow> row option" where
  "entry d k = (case k of Inl a \<Rightarrow> app_at d a | Inr t \<Rightarrow> token_at d t)"

definition tokens_of :: "json \<Rightarrow> json list" where
  "tokens_of j = (case json_get j ''tokens'' of Inr (JArr ts) \<Rightarrow> ts | _ \<Rightarrow> [])"

definition token_ids :: "json \<Rightarrow> jsval list set" where
  "token_ids t = (case json_get t ''tokenID'' of Inr i \<Rightarrow> token_id_keys [i] | Inl _ \<Rightarrow> {})"

definition keys_of :: "string \<Rightarrow> json \<Rightarrow> index_key set" where
  "keys_of name j =
     (if name = APP_JSON then {Inl (app_key (spread2 [] (spread_fields j)))}
      else if name = NATIVETOKENS_JSON then Inr ` (\<Union>t \<in> set (tokens_of j). token_ids t) else {})"

text \<open>The row of a key, as the file gives it\<close>

definition entry_from :: "reg_config \<Rightarrow> string \<Rightarrow> string \<Rightarrow> json \<Rightarrow> index_key \<Rightarrow> row \<Rightarrow> bool" where
  "entry_from cfg network app j k r =
     (case k of
        Inl _ \<Rightarrow> r = stored_app cfg (spread2 (spread2 [] (spread_fields j)) [(''appDirName'', JString app)])
      | Inr t \<Rightarrow> (\<exists>token \<in> set (tokens_of j). t \<in> token_ids token \<and> t = [row_get r ''tokenID''] \<and> row_get r ''network'' = JStr network
          \<and> (\<exists>n. json_get token ''tokenName'' = Inr n \<and> row_get r ''tokenName'' = stored (cell_of n))))"

text \<open>A parsed file: an object with every key once, with names where it describes an application\<close>

definition parsed_ok :: "string \<Rightarrow> json \<Rightarrow> bool" where
  "parsed_ok name j \<longleftrightarrow>
     (case j of JObj obj \<Rightarrow> distinct (map fst obj)
        \<and> (name = APP_JSON \<longrightarrow> json_typeof (prop_of obj ''networkType'') = ''string'' \<and> json_typeof (prop_of obj ''chainName'') = ''string'')
      | _ \<Rightarrow> False)"

lemma prop_of_spread_Nil: "distinct (map fst obj) \<Longrightarrow> prop_of (spread2 [] obj) k = prop_of obj k"
proof -
  assume "distinct (map fst obj)"
  then have "map_of (rev obj) = map_of obj" by (subst map_of_inject_set) (simp_all add: rev_map [symmetric])
  then show ?thesis by (simp add: prop_of_def spread2_def map_of_updates split: option.splits)
qed

lemma prop_of_spread_one: "prop_of (spread2 a [(k, v)]) k' = (if k' = k then v else prop_of a k')"
  by (simp add: spread2_def prop_of_update)

lemma json_string: "json_typeof v = ''string'' \<Longrightarrow> \<exists>s. v = JString s"
proof (cases v)
  case (JV x)
  then show "json_typeof v = ''string'' \<Longrightarrow> ?thesis" by (cases x) (simp_all add: json_typeof_def)
qed (simp_all add: json_typeof_def)

lemma last3_append [simp]: "last3 (p @ [a, b, c]) = (Some a, Some b, Some c)"
  by (simp add: last3_def)

lemma names_differ [simp]: "NATIVETOKENS_JSON \<noteq> APP_JSON" "APP_JSON \<noteq> NATIVETOKENS_JSON"
  by (simp_all add: NATIVETOKENS_JSON_def APP_JSON_def)

lemma only_token_entry: "only_table ''token_metadata'' d d' \<Longrightarrow> entry d' (Inl k) = entry d (Inl k)"
  by (simp add: only_table_def entry_def app_at_def)

lemma only_app_entry: "only_table ''application_metadata'' d d' \<Longrightarrow> entry d' (Inr k) = entry d (Inr k)"
  by (simp add: only_table_def entry_def token_at_def)

text \<open>Both tables of the index may change, and nothing else.\<close>

definition only_index :: "db \<Rightarrow> db \<Rightarrow> bool" where
  "only_index d d' \<longleftrightarrow> committed d' = committed d \<and> (\<forall>m. m \<noteq> ''application_metadata'' \<and> m \<noteq> ''token_metadata'' \<longrightarrow> working d' m = working d m)"

lemma only_index_tables: "only_table ''application_metadata'' d d' \<Longrightarrow> only_index d d'" "only_table ''token_metadata'' d d' \<Longrightarrow> only_index d d'"
  by (auto simp: only_table_def only_index_def)

lemma only_index_trans: "only_index d d1 \<Longrightarrow> only_index d1 d2 \<Longrightarrow> only_index d d2"
  by (simp add: only_index_def)

lemma array_of_Inr [simp]: "array_of v = Inr ts \<longleftrightarrow> v = JArr ts"
  by (simp add: array_of_def split: json.split)

lemma token_id_keys_Cons: "token_id_keys (i # is) = token_id_keys [i] \<union> token_id_keys is"
  by (auto simp: token_id_keys_def)

lemma token_id_keys_ids: "mapR (\<lambda>t. json_get t ''tokenID'') ts = Inr ids \<Longrightarrow> token_id_keys ids = (\<Union>t \<in> set ts. token_ids t)"
proof (induction ts arbitrary: ids)
  case Nil
  then show ?case by (simp add: token_id_keys_def)
next
  case (Cons t ts)
  then obtain i "is" where "json_get t ''tokenID'' = Inr i" "mapR (\<lambda>t. json_get t ''tokenID'') ts = Inr is" "ids = i # is" by (auto simp: bindR_eq_Inr)
  then show ?case using Cons.IH token_id_keys_Cons [of i "is"] by (simp add: token_ids_def)
qed

lemma delete_file:
  assumes d: "reg_ok d" and del: "deleteIndexedMetadataFromFile (p @ [n, a, x]) True fs d = Inr d'" and x: "x \<in> {APP_JSON, NATIVETOKENS_JSON}"
    and j: "map_of fs (p @ [n, a, x]) = Some (Some j)" and ok: "parsed_ok x j"
  shows "reg_ok d' \<and> only_index d d' \<and> entry d' k = (if k \<in> keys_of x j then None else entry d k)"
proof (cases "x = APP_JSON")
  case True
  obtain obj where obj: "j = JObj obj" "distinct (map fst obj)" using ok by (auto simp: parsed_ok_def split: json.splits)
  obtain nt cn where "prop_of obj ''networkType'' = JString nt" "prop_of obj ''chainName'' = JString cn"
    using ok True obj json_string by (fastforce simp: parsed_ok_def)
  then have names: "prop_of (spread2 [] obj) ''networkType'' = JString nt" "prop_of (spread2 [] obj) ''chainName'' = JString cn"
    using prop_of_spread_Nil [OF obj(2)] by simp_all
  have "deleteAppMeta (spread2 [] obj) True d = Inr d'"
    using del j True obj by (auto simp: deleteIndexedMetadataFromFile_def Let_def read_json_def spread_fields_def butlast_append bindR_eq_Inr split: if_splits)
  note del' = delete_app [OF d this names]
  have "keys_of x j = {Inl (app_key (spread2 [] obj))}" using True obj by (simp add: keys_of_def spread_fields_def)
  moreover have "entry d' (Inl q) = (if q = app_key (spread2 [] obj) then None else entry d (Inl q))" for q using del' by (simp add: entry_def)
  ultimately show ?thesis using del' only_index_tables(1) only_app_entry by (cases k) auto
next
  case False
  then have xt: "x = NATIVETOKENS_JSON" using x by simp
  obtain ts ids where ts: "json_get j ''tokens'' = Inr (JArr ts)" "mapR (\<lambda>t. json_get t ''tokenID'') ts = Inr ids" "deleteTokensMeta ids True d = Inr d'"
    using del j xt by (auto simp: deleteIndexedMetadataFromFile_def Let_def read_json_def bindR_eq_Inr split: if_splits)
  note del' = delete_tokens [OF d ts(3)]
  have "keys_of x j = Inr ` token_id_keys ids" using xt ts token_id_keys_ids [OF ts(2)] by (simp add: keys_of_def tokens_of_def)
  moreover have "entry d' (Inr q) = (if q \<in> token_id_keys ids then None else entry d (Inr q))" for q using del' by (simp add: entry_def)
  ultimately show ?thesis using del' only_index_tables(2) only_token_entry by (cases k) auto
qed

lemma app_key_dir: "app_key (spread2 am [(''appDirName'', v)]) = app_key am"
  by (simp add: app_key_def prop_of_spread_one)

lemma spread_token_meta: "prop_of (spread2 tm [(''chainName'', c), (''network'', n)]) k = (if k = ''network'' then n else if k = ''chainName'' then c else prop_of tm k)"
  by (simp add: spread2_def prop_of_update)

lemma metadata_token_row_Inr:
  assumes "metadata_token_row tm t = Inr r"
  obtains n i where "json_get t ''tokenName'' = Inr n" and "token_ids t = {[JStr i]}"
    and "r = [(''chainName'', cell_of (prop_of tm ''chainName'')), (''network'', cell_of (prop_of tm ''network'')), (''tokenName'', cell_of n), (''tokenID'', JStr i)]"
proof -
  obtain n i l where r: "json_get t ''tokenName'' = Inr n" "json_get t ''tokenID'' = Inr i" "toLowerCase i = Inr l"
      "r = [(''chainName'', cell_of (prop_of tm ''chainName'')), (''network'', cell_of (prop_of tm ''network'')), (''tokenName'', cell_of n), (''tokenID'', l)]"
    using assms by (auto simp: metadata_token_row_def bindR_eq_Inr)
  moreover obtain s where "l = JStr s" using r(3) by (auto simp: toLowerCase_def split: json.splits jsval.splits)
  moreover have "token_ids t = {[l]}" using r by (auto simp: token_ids_def token_id_keys_def)
  ultimately show thesis using that by blast
qed

lemma token_key_row: "token_key [(''chainName'', c), (''network'', n), (''tokenName'', t), (''tokenID'', JStr i)] = [JStr i]"
  by (simp add: token_key_def row_get_def stored_def)

lemma last_write: 
  assumes "x \<in> set xs"
  shows "\<exists>y \<in> set xs. map_of (rev (map (\<lambda>r. (f r, g r)) xs)) (f x) = Some (g y) \<and> f y = f x"
proof -
  obtain v where v: "map_of (rev (map (\<lambda>r. (f r, g r)) xs)) (f x) = Some v"
    using assms by (cases "map_of (rev (map (\<lambda>r. (f r, g r)) xs)) (f x)") (auto simp: map_of_eq_None_iff image_iff)
  then have "(f x, v) \<in> set (map (\<lambda>r. (f r, g r)) xs)" by (metis map_of_SomeD set_rev)
  then show ?thesis using v by auto
qed

lemma token_keys_rows: "mapR (metadata_token_row tm) ts = Inr rows \<Longrightarrow> (\<Union>t \<in> set ts. token_ids t) = token_key ` set rows"
proof (induction ts arbitrary: rows)
  case (Cons t ts)
  then obtain r rs where r: "metadata_token_row tm t = Inr r" "mapR (metadata_token_row tm) ts = Inr rs" "rows = r # rs" by (auto simp: bindR_eq_Inr)
  have "token_ids t = {token_key r}" using metadata_token_row_Inr [OF r(1)] token_key_row by metis
  then show ?case using Cons.IH [OF r(2)] r(3) by simp
qed simp

lemma index_file:
  assumes d: "reg_ok d" and idx: "indexMetadataFromFile cfg (p @ [n, a, x]) True fs d = Inr d'" and x: "x \<in> {APP_JSON, NATIVETOKENS_JSON}"
    and j: "map_of fs (p @ [n, a, x]) = Some (Some j)" and ok: "parsed_ok x j"
  shows "reg_ok d' \<and> only_index d d' \<and> (if k \<in> keys_of x j then \<exists>r. entry d' k = Some r \<and> entry_from cfg n a j k r else entry d' k = entry d k)"
proof -
  obtain obj where obj: "j = JObj obj" "distinct (map fst obj)" using ok by (auto simp: parsed_ok_def split: json.splits)
  show ?thesis
  proof (cases "x = APP_JSON")
    case True
    let ?am = "spread2 (spread2 [] obj) [(''appDirName'', JString a)]"
    have "indexAppMeta cfg ?am True d = Inr d'"
      using idx j True obj by (auto simp: indexMetadataFromFile_def Let_def read_json_def spread_fields_def butlast_append bindR_eq_Inr split: if_splits)
    note idx' = index_app [OF d this]
    have "keys_of x j = {Inl (app_key (spread2 [] obj))}" using True obj by (simp add: keys_of_def spread_fields_def)
    moreover have "entry d' (Inl q) = (if q = app_key (spread2 [] obj) then Some (stored_app cfg ?am) else entry d (Inl q))" for q using idx' by (simp add: entry_def app_key_dir)
    ultimately show ?thesis using idx' only_index_tables(1) only_app_entry obj by (cases k) (auto simp: entry_from_def spread_fields_def)
  next
    case False
    then have xt: "x = NATIVETOKENS_JSON" using x by simp
    obtain c where tok: "indexTokensMeta (spread2 (spread2 [] obj) [(''chainName'', c), (''network'', JString n)]) True d = Inr d'" (is "indexTokensMeta ?tm True d = _")
      using idx j xt obj by (auto simp: indexMetadataFromFile_def Let_def read_json_def bindR_eq_Inr spread_fields_def split: if_splits)
    obtain rows where rows: "metadata_token_rows ?tm = Inr rows" "reg_ok d'" "only_table ''token_metadata'' d d'"
      and at: "\<forall>k. token_at d' k = (case map_of (rev (map (\<lambda>r. (token_key r, stored_row r)) rows)) k of Some r \<Rightarrow> Some r | None \<Rightarrow> token_at d k)"
      by (rule index_tokens [OF d tok])
    have tp: "prop_of ?tm ''tokens'' = prop_of obj ''tokens''" "prop_of ?tm ''network'' = JString n" by (simp_all add: spread_token_meta prop_of_spread_Nil [OF obj(2)])
    obtain ts where ts: "prop_of obj ''tokens'' = JArr ts" "mapR (metadata_token_row ?tm) ts = Inr rows" using rows(1) tp by (auto simp: metadata_token_rows_def bindR_eq_Inr)
    have tj: "tokens_of j = ts" using ts(1) obj by (simp add: tokens_of_def json_get_def)
    have keys: "keys_of x j = Inr ` token_key ` set rows" using xt tj token_keys_rows [OF ts(2)] by (simp add: keys_of_def)
    show ?thesis
    proof (cases "k \<in> keys_of x j")
      case True
      then obtain r where r: "r \<in> set rows" "k = Inr (token_key r)" using keys by auto
      from last_write [OF r(1), of token_key stored_row] obtain q
        where q: "q \<in> set rows" "map_of (rev (map (\<lambda>r. (token_key r, stored_row r)) rows)) (token_key r) = Some (stored_row q)" "token_key q = token_key r" by blast
      obtain t where t: "t \<in> set ts" "metadata_token_row ?tm t = Inr q" using mapR_set [OF ts(2) q(1)] by blast
      obtain m i where m: "json_get t ''tokenName'' = Inr m" "token_ids t = {[JStr i]}"
          "q = [(''chainName'', cell_of (prop_of ?tm ''chainName'')), (''network'', cell_of (prop_of ?tm ''network'')), (''tokenName'', cell_of m), (''tokenID'', JStr i)]"
        by (rule metadata_token_row_Inr [OF t(2)])
      have "token_key q = [JStr i]" unfolding m(3) by (rule token_key_row)
      then have "entry_from cfg n a j k (stored_row q)" unfolding entry_from_def r(2) sum.case tj q(3) [symmetric]
        using t(1) m tp(2) by (intro bexI [of _ t]) (auto simp: stored_row_def row_get_def stored_def cell_of_def)
      then show ?thesis using True rows at q(2) r(2) only_index_tables(2) by (auto simp: entry_def)
    next
      case False
      then have "map_of (rev (map (\<lambda>r. (token_key r, stored_row r)) rows)) q = None" if "k = Inr q" for q
        using that keys by (auto simp: map_of_eq_None_iff)
      then have "entry d' k = entry d k" using at rows(3) only_token_entry by (cases k) (auto simp: entry_def app_at_def only_table_def)
      then show ?thesis using False rows only_index_tables(2) by auto
    qed
  qed
qed

section \<open>The loop over the changed files\<close>

text \<open>A changed file lies in the directory of an application; the old version is parsed where it is removed from the index, the new one where it is added.\<close>

definition good_file :: "reg_config \<Rightarrow> remote \<Rightarrow> files \<Rightarrow> file_info \<Rightarrow> bool" where
  "good_file cfg remote fs f \<longleftrightarrow>
     (\<exists>n a x. fi_filename f = [n, a, x] \<and> x \<in> {APP_JSON, NATIVETOKENS_JSON}
       \<and> (old_info (fi_status f) \<longrightarrow> (\<exists>j. map_of fs (repo_dir cfg @ [n, a, x]) = Some (Some j) \<and> parsed_ok x j))
       \<and> (fi_status f \<noteq> ''removed'' \<longrightarrow> (\<exists>j. rm_download remote [n, a, x] = Inr (Some j) \<and> parsed_ok x j)))"

definition old_keys :: "reg_config \<Rightarrow> files \<Rightarrow> file_info \<Rightarrow> index_key set" where
  "old_keys cfg fs f =
     (if old_info (fi_status f) then (case map_of fs (repo_dir cfg @ fi_filename f) of Some (Some j) \<Rightarrow> keys_of (last (fi_filename f)) j | _ \<Rightarrow> {}) else {})"

definition new_keys :: "remote \<Rightarrow> file_info \<Rightarrow> index_key set" where
  "new_keys remote f = (if fi_status f = ''removed'' then {} else case rm_download remote (fi_filename f) of Inr (Some j) \<Rightarrow> keys_of (last (fi_filename f)) j | _ \<Rightarrow> {})"

definition from_remote :: "reg_config \<Rightarrow> remote \<Rightarrow> file_info \<Rightarrow> index_key \<Rightarrow> row \<Rightarrow> bool" where
  "from_remote cfg remote f k r =
     (case (fi_filename f, rm_download remote (fi_filename f)) of ([n, a, x], Inr (Some j)) \<Rightarrow> entry_from cfg n a j k r | _ \<Rightarrow> False)"

text \<open>The effect of one file on the index\<close>

definition file_effect :: "reg_config \<Rightarrow> remote \<Rightarrow> files \<Rightarrow> file_info \<Rightarrow> db \<Rightarrow> db \<Rightarrow> bool" where
  "file_effect cfg remote fs f d d' \<longleftrightarrow>
     reg_ok d' \<and> only_index d d'
     \<and> (\<forall>k. if k \<in> new_keys remote f then \<exists>r. entry d' k = Some r \<and> from_remote cfg remote f k r
          else if k \<in> old_keys cfg fs f then entry d' k = None else entry d' k = entry d k)"

lemma process_file_None:
  assumes "process_file cfg remote f acc = (None, acc')"
  obtains d1 where "(if old_info (fi_status f) then deleteIndexedMetadataFromFile (repo_dir cfg @ fi_filename f) True (sa_files acc) (sa_db acc) else Inr (sa_db acc)) = Inr d1"
    and "if fi_status f = ''removed'' then acc' = acc\<lparr>sa_db := d1, sa_delete := sa_delete acc @ [repo_dir cfg @ fi_filename f]\<rparr>
         else \<exists>content d2. rm_download remote (fi_filename f) = Inr content
           \<and> indexMetadataFromFile cfg (temp_dir cfg @ fi_filename f) True (AList.update (temp_dir cfg @ fi_filename f) content (sa_files acc)) d1 = Inr d2
           \<and> acc' = acc\<lparr>sa_db := d2, sa_files := AList.update (temp_dir cfg @ fi_filename f) content (sa_files acc), sa_move := sa_move acc @ [(temp_dir cfg @ fi_filename f, repo_dir cfg @ fi_filename f)]\<rparr>"
  using assms that by (auto simp: process_file_def Let_def split: sum.splits if_splits)

lemma process_file_effect:
  assumes p: "process_file cfg remote f acc = (None, acc')" and d: "reg_ok (sa_db acc)" and good: "good_file cfg remote (sa_files acc) f"
  shows "file_effect cfg remote (sa_files acc) f (sa_db acc) (sa_db acc')"
proof -
  let ?fs = "sa_files acc" and ?d = "sa_db acc"
  obtain n a x where fn: "fi_filename f = [n, a, x]" and x: "x \<in> {APP_JSON, NATIVETOKENS_JSON}" using good by (auto simp: good_file_def)
  obtain d1 where d1: "(if old_info (fi_status f) then deleteIndexedMetadataFromFile (repo_dir cfg @ fi_filename f) True ?fs ?d else Inr ?d) = Inr d1"
    and rest: "if fi_status f = ''removed'' then acc' = acc\<lparr>sa_db := d1, sa_delete := sa_delete acc @ [repo_dir cfg @ fi_filename f]\<rparr>
         else \<exists>content d2. rm_download remote (fi_filename f) = Inr content
           \<and> indexMetadataFromFile cfg (temp_dir cfg @ fi_filename f) True (AList.update (temp_dir cfg @ fi_filename f) content ?fs) d1 = Inr d2
           \<and> acc' = acc\<lparr>sa_db := d2, sa_files := AList.update (temp_dir cfg @ fi_filename f) content ?fs, sa_move := sa_move acc @ [(temp_dir cfg @ fi_filename f, repo_dir cfg @ fi_filename f)]\<rparr>"
    by (rule process_file_None [OF p])
  have one: "reg_ok d1 \<and> only_index ?d d1 \<and> entry d1 k = (if k \<in> old_keys cfg ?fs f then None else entry ?d k)" for k
  proof (cases "old_info (fi_status f)")
    case True
    then obtain j where j: "map_of ?fs (repo_dir cfg @ [n, a, x]) = Some (Some j)" "parsed_ok x j" using good fn by (auto simp: good_file_def)
    then have "old_keys cfg ?fs f = keys_of x j" using True fn by (simp add: old_keys_def)
    then show ?thesis using delete_file [OF d _ x j] d1 True fn by auto
  next
    case False
    then show ?thesis using d1 d by (simp add: old_keys_def only_index_def)
  qed
  show ?thesis
  proof (cases "fi_status f = ''removed''")
    case True
    then show ?thesis using one rest by (simp add: file_effect_def new_keys_def)
  next
    case False
    then obtain j where j: "rm_download remote [n, a, x] = Inr (Some j)" "parsed_ok x j" using good fn by (auto simp: good_file_def)
    then have new: "new_keys remote f = keys_of x j" and fr: "from_remote cfg remote f k r = entry_from cfg n a j k r" for k r
      using False fn by (simp_all add: new_keys_def from_remote_def)
    have "indexMetadataFromFile cfg (temp_dir cfg @ [n, a, x]) True (AList.update (temp_dir cfg @ [n, a, x]) (Some j) ?fs) d1 = Inr (sa_db acc')"
      using rest False fn j by auto
    from index_file [OF conjunct1 [OF one] this x _ j(2)]
    have two: "reg_ok (sa_db acc') \<and> only_index d1 (sa_db acc')
        \<and> (if k \<in> keys_of x j then \<exists>r. entry (sa_db acc') k = Some r \<and> entry_from cfg n a j k r else entry (sa_db acc') k = entry d1 k)" for k
      by (simp add: update_conv')
    have "only_index ?d (sa_db acc')" using one two only_index_trans by blast
    then show ?thesis using one two unfolding file_effect_def new fr by presburger
  qed
qed

lemma temp_not_local: "length p = length q \<Longrightarrow> temp_dir cfg @ p \<noteq> repo_dir cfg @ q"
  by (metis Suc_n_not_n add_right_cancel append_assoc length_append length_append_singleton temp_dir_def)

lemma process_file_local:
  assumes "process_file cfg remote f acc = (None, acc')" and "length (fi_filename f) = 3" and "length q = 3"
  shows "map_of (sa_files acc') (repo_dir cfg @ q) = map_of (sa_files acc) (repo_dir cfg @ q)"
  using process_file_None [OF assms(1)] temp_not_local [of "fi_filename f" q cfg] assms(2,3)
  by (smt (verit) map_of_Cons_code sync_acc.select_convs(2) sync_acc.surjective sync_acc.update_convs update_conv fun_upd_other)

lemma good_length: "good_file cfg remote fs f \<Longrightarrow> length (fi_filename f) = 3"
  by (auto simp: good_file_def)

lemma good_file_cong: "map_of fs (repo_dir cfg @ fi_filename f) = map_of fs' (repo_dir cfg @ fi_filename f) \<Longrightarrow> good_file cfg remote fs f \<longleftrightarrow> good_file cfg remote fs' f"
  unfolding good_file_def by (metis (no_types, lifting))

lemma old_keys_cong: "map_of fs (repo_dir cfg @ fi_filename f) = map_of fs' (repo_dir cfg @ fi_filename f) \<Longrightarrow> old_keys cfg fs f = old_keys cfg fs' f"
  by (simp add: old_keys_def)

text \<open>No two changed files speak about the same key.\<close>

definition separate_files :: "reg_config \<Rightarrow> remote \<Rightarrow> files \<Rightarrow> file_info list \<Rightarrow> bool" where
  "separate_files cfg remote fs infos \<longleftrightarrow> distinct infos
     \<and> (\<forall>f \<in> set infos. \<forall>g \<in> set infos. f \<noteq> g \<longrightarrow> (old_keys cfg fs f \<union> new_keys remote f) \<inter> (old_keys cfg fs g \<union> new_keys remote g) = {})"

definition files_effect :: "reg_config \<Rightarrow> remote \<Rightarrow> files \<Rightarrow> file_info list \<Rightarrow> db \<Rightarrow> db \<Rightarrow> bool" where
  "files_effect cfg remote fs infos d d' \<longleftrightarrow>
     reg_ok d' \<and> only_index d d'
     \<and> (\<forall>k. (\<forall>f \<in> set infos. k \<notin> old_keys cfg fs f \<union> new_keys remote f) \<longrightarrow> entry d' k = entry d k)
     \<and> (\<forall>f \<in> set infos. \<forall>k \<in> new_keys remote f. \<exists>r. entry d' k = Some r \<and> from_remote cfg remote f k r)
     \<and> (\<forall>f \<in> set infos. \<forall>k \<in> old_keys cfg fs f - new_keys remote f. entry d' k = None)"

lemma files_effect_Cons:
  assumes one: "file_effect cfg remote fs f d d1" and rest: "files_effect cfg remote fs infos d1 d2" and sep: "separate_files cfg remote fs (f # infos)"
  shows "files_effect cfg remote fs (f # infos) d d2"
proof -
  have keep: "entry d2 k = entry d1 k" if "k \<in> old_keys cfg fs f \<union> new_keys remote f" for k
  proof -
    have "k \<notin> old_keys cfg fs g \<union> new_keys remote g" if "g \<in> set infos" for g
      using sep that \<open>k \<in> _\<close> unfolding separate_files_def by (metis IntI distinct.simps(2) empty_iff list.set_intros)
    then show ?thesis using rest by (simp add: files_effect_def)
  qed
  have "only_index d d2" using one rest only_index_trans by (auto simp: file_effect_def files_effect_def)
  moreover have "entry d2 k = entry d k" if "\<forall>g \<in> set (f # infos). k \<notin> old_keys cfg fs g \<union> new_keys remote g" for k
    using that one rest by (simp add: file_effect_def files_effect_def)
  moreover have "\<exists>r. entry d2 k = Some r \<and> from_remote cfg remote f k r" if "k \<in> new_keys remote f" for k
    using that one keep [of k] by (simp add: file_effect_def)
  moreover have "entry d2 k = None" if "k \<in> old_keys cfg fs f - new_keys remote f" for k
    using that one keep [of k] by (simp add: file_effect_def)
  ultimately show ?thesis using rest unfolding files_effect_def by (metis list.set_cases list.set_intros(2) set_ConsD)
qed

lemma process_files_effect:
  assumes "process_files cfg remote infos acc = (None, acc')" and "reg_ok (sa_db acc)" and "\<forall>f \<in> set infos. good_file cfg remote (sa_files acc) f"
    and "separate_files cfg remote (sa_files acc) infos"
  shows "files_effect cfg remote (sa_files acc) infos (sa_db acc) (sa_db acc')"
  using assms
proof (induction infos arbitrary: acc)
  case Nil
  then show ?case by (simp add: files_effect_def only_index_def)
next
  case (Cons f infos)
  obtain acc1 where p: "process_file cfg remote f acc = (None, acc1)" and rest: "process_files cfg remote infos acc1 = (None, acc')"
    using Cons.prems(1) by (auto split: prod.splits option.splits)
  have good: "good_file cfg remote (sa_files acc) f" using Cons.prems(3) by simp
  note eff = process_file_effect [OF p Cons.prems(2) good]
  have same: "map_of (sa_files acc1) (repo_dir cfg @ fi_filename g) = map_of (sa_files acc) (repo_dir cfg @ fi_filename g)" if "g \<in> set infos" for g
    using process_file_local [OF p good_length [OF good]] good_length Cons.prems(3) that by auto
  have "\<forall>g \<in> set infos. good_file cfg remote (sa_files acc1) g" using Cons.prems(3) same good_file_cong by (metis list.set_intros(2))
  moreover have old: "\<forall>g \<in> set infos. old_keys cfg (sa_files acc1) g = old_keys cfg (sa_files acc) g" using same old_keys_cong by metis
  moreover from this have "separate_files cfg remote (sa_files acc1) infos" using Cons.prems(4) by (simp add: separate_files_def)
  ultimately have "files_effect cfg remote (sa_files acc1) infos (sa_db acc1) (sa_db acc')" using Cons.IH [OF rest] eff by (simp add: file_effect_def)
  then have "files_effect cfg remote (sa_files acc) infos (sa_db acc1) (sa_db acc')" using old by (simp add: files_effect_def)
  then show ?case using files_effect_Cons [OF eff _ Cons.prems(4)] by blast
qed

section \<open>What happens to the files\<close>

definition moves_of :: "reg_config \<Rightarrow> file_info list \<Rightarrow> (path \<times> path) list" where
  "moves_of cfg infos = map (\<lambda>f. (temp_dir cfg @ fi_filename f, repo_dir cfg @ fi_filename f)) (filter (\<lambda>f. fi_status f \<noteq> ''removed'') infos)"

definition deletes_of :: "reg_config \<Rightarrow> file_info list \<Rightarrow> path list" where
  "deletes_of cfg infos = map (\<lambda>f. repo_dir cfg @ fi_filename f) (filter (\<lambda>f. fi_status f = ''removed'') infos)"

text \<open>Whether or not an error ends the loop, it touches only the directory of downloads and the open transaction.\<close>

definition local_same :: "reg_config \<Rightarrow> sync_acc \<Rightarrow> sync_acc \<Rightarrow> bool" where
  "local_same cfg acc acc' \<longleftrightarrow> committed (sa_db acc') = committed (sa_db acc)
     \<and> (\<forall>p. \<not> is_prefix (temp_dir cfg) p \<longrightarrow> map_of (sa_files acc') p = map_of (sa_files acc) p)"

lemma deleteTokens_committed: "deleteTokensMeta ids True d = Inr d' \<Longrightarrow> committed d' = committed d"
  unfolding deleteTokensMeta_def
  by (erule foldR_invariant [where P = "\<lambda>e. committed e = committed d"]) (auto simp: bindR_eq_Inr only_table_def dest!: deleteByParams_only)

lemma deleteFile_committed: "deleteIndexedMetadataFromFile p True fs d = Inr d' \<Longrightarrow> committed d' = committed d"
  by (auto simp: deleteIndexedMetadataFromFile_def deleteAppMeta_def Let_def bindR_eq_Inr only_table_def split: prod.splits if_splits
      dest!: deleteTokens_committed deleteByParams_only)

lemma indexFile_committed: "indexMetadataFromFile cfg p True fs d = Inr d' \<Longrightarrow> committed d' = committed d"
  by (auto simp: indexMetadataFromFile_def indexAppMeta_def indexTokensMeta_def Let_def bindR_eq_Inr only_table_def split: prod.splits if_splits
      dest!: upsert_only)

lemma is_prefix_append [simp]: "is_prefix d (d @ p)"
  by (simp add: is_prefix_def)

lemma process_file_same: "process_file cfg remote f acc = (r, acc') \<Longrightarrow> local_same cfg acc acc'"
proof -
  have upd: "\<not> is_prefix (temp_dir cfg) p \<Longrightarrow> map_of (AList.update (temp_dir cfg @ q) c fs) p = map_of fs p" for p q c fs
    by (auto simp: update_conv')
  show "process_file cfg remote f acc = (r, acc') \<Longrightarrow> local_same cfg acc acc'"
    by (auto simp: process_file_def Let_def local_same_def upd split: sum.splits if_splits dest!: deleteFile_committed indexFile_committed)
qed

lemma process_files_same: "process_files cfg remote infos acc = (r, acc') \<Longrightarrow> local_same cfg acc acc'"
proof (induction infos arbitrary: acc)
  case (Cons f infos)
  obtain r1 acc1 where p: "process_file cfg remote f acc = (r1, acc1)" by fastforce
  then have "local_same cfg acc acc1" by (rule process_file_same)
  then show ?case using Cons p by (cases r1) (fastforce simp: local_same_def)+
qed (simp add: local_same_def)

lemma process_file_lists:
  assumes "process_file cfg remote f acc = (None, acc')"
  shows "if fi_status f = ''removed'' then sa_files acc' = sa_files acc \<and> sa_move acc' = sa_move acc \<and> sa_delete acc' = sa_delete acc @ [repo_dir cfg @ fi_filename f]
    else \<exists>c. rm_download remote (fi_filename f) = Inr c \<and> sa_files acc' = AList.update (temp_dir cfg @ fi_filename f) c (sa_files acc)
      \<and> sa_move acc' = sa_move acc @ [(temp_dir cfg @ fi_filename f, repo_dir cfg @ fi_filename f)] \<and> sa_delete acc' = sa_delete acc"
proof -
  obtain d1 where "if fi_status f = ''removed'' then acc' = acc\<lparr>sa_db := d1, sa_delete := sa_delete acc @ [repo_dir cfg @ fi_filename f]\<rparr>
         else \<exists>content d2. rm_download remote (fi_filename f) = Inr content
           \<and> indexMetadataFromFile cfg (temp_dir cfg @ fi_filename f) True (AList.update (temp_dir cfg @ fi_filename f) content (sa_files acc)) d1 = Inr d2
           \<and> acc' = acc\<lparr>sa_db := d2, sa_files := AList.update (temp_dir cfg @ fi_filename f) content (sa_files acc), sa_move := sa_move acc @ [(temp_dir cfg @ fi_filename f, repo_dir cfg @ fi_filename f)]\<rparr>"
    by (rule process_file_None [OF assms])
  then show ?thesis by (cases "fi_status f = ''removed''") auto
qed

text \<open>The content of a path after the loop: a downloaded file where one was downloaded\<close>

definition downloaded :: "reg_config \<Rightarrow> remote \<Rightarrow> file_info list \<Rightarrow> path \<Rightarrow> json option option" where
  "downloaded cfg remote infos p =
     (if \<exists>f \<in> set infos. fi_status f \<noteq> ''removed'' \<and> p = temp_dir cfg @ fi_filename f
      then (case rm_download remote (drop (length (temp_dir cfg)) p) of Inr c \<Rightarrow> Some c | Inl _ \<Rightarrow> None) else None)"

lemma process_files_lists:
  assumes "process_files cfg remote infos acc = (None, acc')"
  shows "sa_move acc' = sa_move acc @ moves_of cfg infos \<and> sa_delete acc' = sa_delete acc @ deletes_of cfg infos
    \<and> (\<forall>p. map_of (sa_files acc') p = (case downloaded cfg remote infos p of Some c \<Rightarrow> Some c | None \<Rightarrow> map_of (sa_files acc) p))
    \<and> (\<forall>f \<in> set infos. fi_status f \<noteq> ''removed'' \<longrightarrow> (\<exists>c. rm_download remote (fi_filename f) = Inr c))"
  using assms
proof (induction infos arbitrary: acc)
  case (Cons f infos)
  obtain acc1 where p: "process_file cfg remote f acc = (None, acc1)" and rest: "process_files cfg remote infos acc1 = (None, acc')"
    using Cons.prems by (auto split: prod.splits option.splits)
  note one = process_file_lists [OF p] and IH = Cons.IH [OF rest]
  show ?case
  proof (cases "fi_status f = ''removed''")
    case True
    then have fs: "sa_files acc1 = sa_files acc" and rest: "sa_move acc1 = sa_move acc" "sa_delete acc1 = sa_delete acc @ [repo_dir cfg @ fi_filename f]" using one by auto
    have "downloaded cfg remote (f # infos) = downloaded cfg remote infos" using True by (auto simp: downloaded_def fun_eq_iff)
    then show ?thesis using IH [unfolded fs rest] True by (simp add: moves_of_def deletes_of_def)
  next
    case False
    then obtain c where c: "rm_download remote (fi_filename f) = Inr c" "sa_files acc1 = AList.update (temp_dir cfg @ fi_filename f) c (sa_files acc)"
        "sa_move acc1 = sa_move acc @ [(temp_dir cfg @ fi_filename f, repo_dir cfg @ fi_filename f)]" "sa_delete acc1 = sa_delete acc" using one by auto
    have "(case downloaded cfg remote infos q of Some c \<Rightarrow> Some c | None \<Rightarrow> map_of (sa_files acc1) q)
        = (case downloaded cfg remote (f # infos) q of Some c \<Rightarrow> Some c | None \<Rightarrow> map_of (sa_files acc) q)" for q
      using c(1) False by (auto simp: c(2) update_conv' downloaded_def split: option.splits sum.splits)
    then show ?thesis using False c IH by (simp add: moves_of_def deletes_of_def)
  qed
qed (simp add: moves_of_def deletes_of_def downloaded_def)

lemma map_of_filter_key: "map_of (filter (\<lambda>(p, c). P p) fs) q = (if P q then map_of fs q else None)"
  by (induction fs) auto

lemma mv_content: "mv s t fs = Inr fs' \<Longrightarrow> map_of fs' q = (if q = t then map_of fs s else if q = s then None else map_of fs q)"
  by (auto simp: mv_def update_conv' map_of_filter_key [where P = "\<lambda>p. p \<noteq> s"] split: option.splits)

lemma mv_ok: "map_of fs s \<noteq> None \<Longrightarrow> \<exists>fs'. mv s t fs = Inr fs'"
  by (auto simp: mv_def)

lemma mvs_content:
  assumes "distinct (map fst ms)" and "distinct (map snd ms)" and "fst ` set ms \<inter> snd ` set ms = {}" and "\<forall>m \<in> set ms. map_of fs (fst m) \<noteq> None"
  shows "\<exists>fs'. foldR (\<lambda>(from, to) fs. mv from to fs) ms fs = Inr fs' \<and> (\<forall>(s, t) \<in> set ms. map_of fs' t = map_of fs s)
    \<and> (\<forall>s \<in> fst ` set ms. map_of fs' s = None) \<and> (\<forall>q. q \<notin> fst ` set ms \<union> snd ` set ms \<longrightarrow> map_of fs' q = map_of fs q)"
  using assms
proof (induction ms arbitrary: fs)
  case (Cons m ms)
  obtain s t where m: "m = (s, t)" by fastforce
  obtain fs1 where fs1: "mv s t fs = Inr fs1" using mv_ok [of fs s t] Cons.prems(4) m by auto
  note content = mv_content [OF fs1]
  have out: "s \<notin> fst ` set ms" "t \<notin> snd ` set ms" "s \<notin> snd ` set ms" "t \<notin> fst ` set ms" "s \<noteq> t" using Cons.prems(1-3) m by auto
  have keep: "map_of fs1 (fst q) = map_of fs (fst q)" if "q \<in> set ms" for q
    using content [of "fst q"] out that by (metis imageI)
  have pre: "\<forall>q \<in> set ms. map_of fs1 (fst q) \<noteq> None" using keep Cons.prems(4) by simp
  have "fst ` set ms \<inter> snd ` set ms = {}" "distinct (map fst ms)" "distinct (map snd ms)" using Cons.prems(1-3) by auto
  from Cons.IH [OF this(2,3,1) pre] obtain fs' where IH: "foldR (\<lambda>(from, to) fs. mv from to fs) ms fs1 = Inr fs'" "\<forall>(s, t) \<in> set ms. map_of fs' t = map_of fs1 s"
      "\<forall>s \<in> fst ` set ms. map_of fs' s = None" "\<forall>q. q \<notin> fst ` set ms \<union> snd ` set ms \<longrightarrow> map_of fs' q = map_of fs1 q" by blast
  have "map_of fs' t = map_of fs s" "map_of fs' s = None" using IH(4) out content [of t] content [of s] by simp_all
  moreover have "\<forall>(s, t) \<in> set ms. map_of fs' t = map_of fs s" using IH(2) keep by fastforce
  moreover have "map_of fs' q = map_of fs q" if "q \<notin> fst ` set (m # ms) \<union> snd ` set (m # ms)" for q
    using that IH(4) content [of q] m by simp
  ultimately show ?case using IH(1,3) fs1 m by (intro exI [of _ fs']) auto
qed simp

lemma in_temp: "is_prefix (temp_dir cfg) (repo_dir cfg @ n # q) \<longleftrightarrow> n = ''temp-downloads''"
  by (auto simp: is_prefix_def temp_dir_def)

lemma settle_content:
  assumes p: "process_files cfg remote infos \<lparr>sa_db = d, sa_files = rmdir (temp_dir cfg) fs, sa_delete = [], sa_move = []\<rparr> = (None, acc)"
    and names: "\<forall>f \<in> set infos. length (fi_filename f) = 3 \<and> hd (fi_filename f) \<noteq> ''temp-downloads''" and dist: "distinct (map fi_filename infos)"
  shows "\<exists>fs'. settle_files cfg acc = Inr fs'
    \<and> (\<forall>f \<in> set infos. map_of fs' (repo_dir cfg @ fi_filename f) = (if fi_status f = ''removed'' then None else case rm_download remote (fi_filename f) of Inr c \<Rightarrow> Some c | Inl _ \<Rightarrow> None))
    \<and> (\<forall>q. \<not> is_prefix (temp_dir cfg) q \<and> q \<notin> (\<lambda>f. repo_dir cfg @ fi_filename f) ` set infos \<longrightarrow> map_of fs' q = map_of fs q)
    \<and> (\<forall>q. is_prefix (temp_dir cfg) q \<longrightarrow> map_of fs' q = None)"
proof -
  let ?fs0 = "rmdir (temp_dir cfg) fs" and ?ms = "moves_of cfg infos" and ?ds = "deletes_of cfg infos"
  let ?fs1 = "filter (\<lambda>(p, c). p \<notin> set ?ds) (sa_files acc)"
  have lists: "sa_move acc = ?ms" "sa_delete acc = ?ds" and content: "map_of (sa_files acc) q = (case downloaded cfg remote infos q of Some c \<Rightarrow> Some c | None \<Rightarrow> map_of ?fs0 q)"
      and down: "\<forall>f \<in> set infos. fi_status f \<noteq> ''removed'' \<longrightarrow> (\<exists>c. rm_download remote (fi_filename f) = Inr c)" for q
    using process_files_lists [OF p] unfolding sync_acc.select_convs by auto
  have rmd: "map_of (rmdir (temp_dir cfg) g) q = (if is_prefix (temp_dir cfg) q then None else map_of g q)" for g q
    by (simp add: rmdir_def map_of_filter_key [where P = "\<lambda>p. \<not> is_prefix (temp_dir cfg) p"])
  have local: "\<not> is_prefix (temp_dir cfg) (repo_dir cfg @ fi_filename f)" if "f \<in> set infos" for f
    using names that in_temp [of cfg "hd (fi_filename f)" "tl (fi_filename f)"] by (cases "fi_filename f") auto
  have ds: "\<not> is_prefix (temp_dir cfg) q" if "q \<in> set ?ds" for q using that local by (auto simp: deletes_of_def)
  have fs1: "map_of ?fs1 q = (if q \<in> set ?ds then None else map_of (sa_files acc) q)" for q by (simp add: map_of_filter_key [where P = "\<lambda>p. p \<notin> set ?ds"])
  have got: "map_of ?fs1 (temp_dir cfg @ fi_filename f) = (case rm_download remote (fi_filename f) of Inr c \<Rightarrow> Some c | Inl _ \<Rightarrow> None)"
      "map_of ?fs1 (temp_dir cfg @ fi_filename f) \<noteq> None" if "f \<in> set infos" "fi_status f \<noteq> ''removed''" for f
  proof -
    have "temp_dir cfg @ fi_filename f \<notin> set ?ds" using ds is_prefix_append by blast
    moreover have "downloaded cfg remote infos (temp_dir cfg @ fi_filename f) = (case rm_download remote (fi_filename f) of Inr c \<Rightarrow> Some c | Inl _ \<Rightarrow> None)"
      using that by (auto simp: downloaded_def)
    ultimately show "map_of ?fs1 (temp_dir cfg @ fi_filename f) = (case rm_download remote (fi_filename f) of Inr c \<Rightarrow> Some c | Inl _ \<Rightarrow> None)"
      "map_of ?fs1 (temp_dir cfg @ fi_filename f) \<noteq> None" using fs1 content down that by auto
  qed
  have "distinct (map fi_filename (filter (\<lambda>f. fi_status f \<noteq> ''removed'') infos))" using dist by (induction infos) auto
  then have m1: "distinct (map fst ?ms)" "distinct (map snd ?ms)" by (simp_all add: moves_of_def distinct_map comp_def inj_on_def)
  have m2: "fst ` set ?ms \<inter> snd ` set ?ms = {}"
  proof -
    have "temp_dir cfg @ fi_filename g \<noteq> repo_dir cfg @ fi_filename h" if "g \<in> set infos" "h \<in> set infos" for g h using that names temp_not_local by metis
    then show ?thesis by (auto simp: moves_of_def)
  qed
  have m3: "\<forall>m \<in> set ?ms. map_of ?fs1 (fst m) \<noteq> None" using got(2) by (auto simp: moves_of_def)
  from mvs_content [OF m1 m2 m3] obtain fs' where mvs: "foldR (\<lambda>(from, to) fs. mv from to fs) ?ms ?fs1 = Inr fs'" "\<forall>(s, t) \<in> set ?ms. map_of fs' t = map_of ?fs1 s"
      "\<forall>q. q \<notin> fst ` set ?ms \<union> snd ` set ?ms \<longrightarrow> map_of fs' q = map_of ?fs1 q" by (elim exE conjE)
  have settle: "settle_files cfg acc = Inr (rmdir (temp_dir cfg) fs')" using mvs(1) lists by (simp add: settle_files_def)
  have a: "map_of fs' (repo_dir cfg @ fi_filename f) = (if fi_status f = ''removed'' then None else case rm_download remote (fi_filename f) of Inr c \<Rightarrow> Some c | Inl _ \<Rightarrow> None)"
    if f: "f \<in> set infos" for f
  proof (cases "fi_status f = ''removed''")
    case True
    have "g = f" if "g \<in> set infos" "fi_filename g = fi_filename f" for g using that dist f by (simp add: distinct_map inj_on_def)
    then have "repo_dir cfg @ fi_filename f \<notin> snd ` set ?ms" using True by (auto simp: moves_of_def)
    moreover have "repo_dir cfg @ fi_filename f \<notin> fst ` set ?ms" using local [OF f] is_prefix_append by (auto simp: moves_of_def)
    moreover have "repo_dir cfg @ fi_filename f \<in> set ?ds" using True f by (auto simp: deletes_of_def)
    ultimately show ?thesis using mvs(3) fs1 True by auto
  next
    case False
    then have "(temp_dir cfg @ fi_filename f, repo_dir cfg @ fi_filename f) \<in> set ?ms" using f by (auto simp: moves_of_def)
    then have "map_of fs' (repo_dir cfg @ fi_filename f) = map_of ?fs1 (temp_dir cfg @ fi_filename f)" using mvs(2) by auto
    then show ?thesis using got(1) [OF f False] False by simp
  qed
  have b: "map_of fs' q = map_of fs q" if "\<not> is_prefix (temp_dir cfg) q" "q \<notin> (\<lambda>f. repo_dir cfg @ fi_filename f) ` set infos" for q
  proof -
    have "q \<notin> fst ` set ?ms \<union> snd ` set ?ms" "q \<notin> set ?ds" using that is_prefix_append by (auto simp: moves_of_def deletes_of_def)
    moreover have "downloaded cfg remote infos q = None" using that(1) is_prefix_append by (auto simp: downloaded_def)
    ultimately show ?thesis using mvs(3) fs1 content [of q] rmd [of fs q] that(1) by auto
  qed
  show ?thesis
    by (rule exI [of _ "rmdir (temp_dir cfg) fs'"]) (use settle rmd a b local in simp)
qed

end
