(* ===== verification/Registry_Sync.thy ===== *)
theory Registry_Sync
  imports App_Registry
begin

text \<open>
  Properties of the synchronisation of the application registry with its repository: what a run leaves in the tables and in the directory, that a failed run leaves both
  as they were, and the changes that it does not follow.
\<close>

section \<open>Grouping loses and invents no file\<close>

definition takes :: "reg_config \<Rightarrow> file_info \<Rightarrow> bool" where
  "takes cfg f \<longleftrightarrow> (case last3 (fi_filename f) of (Some n, Some a, x) \<Rightarrow> n \<in> set (rc_supportedNetworks cfg) \<and> isMetadataFile x | _ \<Rightarrow> False)"

lemma mset_update:
  "mset (concat (map h (AList.update k v al))) + (case map_of al k of Some v0 \<Rightarrow> mset (h (k, v0)) | None \<Rightarrow> {#}) = mset (concat (map h al)) + mset (h (k, v))"
  by (induction al) (auto split: option.splits simp: ac_simps)

lemma mset_group:
  "mset (grouped_files (group_file cfg f groups)) = mset (grouped_files groups) + (if takes cfg f then {#f#} else {#})"
proof (cases "takes cfg f")
  case True
  then obtain n a x where f: "last3 (fi_filename f) = (Some n, Some a, x)" "n \<in> set (rc_supportedNetworks cfg)" "isMetadataFile x"
    by (auto simp: takes_def split: prod.splits option.splits)
  let ?h = "\<lambda>(network, apps). concat (map snd apps)"
  define apps where "apps = (case map_of groups n of Some a \<Rightarrow> a | None \<Rightarrow> [])"
  define fs where "fs = (case map_of apps a of Some fs \<Rightarrow> fs | None \<Rightarrow> [])"
  have g: "group_file cfg f groups = AList.update n (AList.update a (fs @ [f]) apps) groups"
    using f by (simp add: group_file_def Let_def apps_def fs_def)
  have "mset (concat (map snd (AList.update a (fs @ [f]) apps))) + mset fs = mset (concat (map snd apps)) + mset (fs @ [f])"
    using mset_update [of snd a "fs @ [f]" apps] by (simp add: fs_def split: option.splits)
  then have inner: "mset (concat (map snd (AList.update a (fs @ [f]) apps))) = mset (concat (map snd apps)) + {#f#}" by simp
  have "mset (grouped_files (AList.update n (AList.update a (fs @ [f]) apps) groups)) + mset (concat (map snd apps))
      = mset (grouped_files groups) + mset (concat (map snd (AList.update a (fs @ [f]) apps)))"
    using mset_update [of ?h n "AList.update a (fs @ [f]) apps" groups] by (simp add: grouped_files_def apps_def split: option.splits)
  then show ?thesis using True g inner by simp
next
  case False
  then show ?thesis by (auto simp: takes_def group_file_def split: prod.splits option.splits)
qed

lemma mset_grouped: "mset (grouped_files (groupFilesByNetworkAndApp lc cfg infos)) = mset (filter (takes cfg) infos)"
proof -
  have "mset (grouped_files (fold (group_file cfg) fs groups)) = mset (grouped_files groups) + mset (filter (takes cfg) fs)" for fs groups
    by (induction fs arbitrary: groups) (simp_all add: mset_group)
  then show ?thesis unfolding groupFilesByNetworkAndApp_def by (simp add: grouped_files_def mset_filter)
qed

lemma set_grouped: "set (grouped_files (groupFilesByNetworkAndApp lc cfg infos)) = {f \<in> set infos. takes cfg f}"
  using mset_grouped [of lc cfg infos] by (metis set_filter set_mset_mset)

lemma distinct_grouped: "distinct (map fi_filename infos) \<Longrightarrow> distinct (map fi_filename (grouped_files (groupFilesByNetworkAndApp lc cfg infos)))"
proof -
  assume "distinct (map fi_filename infos)"
  then have "distinct (map fi_filename (filter (takes cfg) infos))" by (induction infos) auto
  moreover have "mset (map fi_filename (grouped_files (groupFilesByNetworkAndApp lc cfg infos))) = mset (map fi_filename (filter (takes cfg) infos))"
    by (simp add: mset_grouped)
  ultimately show ?thesis by (metis mset_eq_imp_distinct_iff)
qed

section \<open>A run of the job\<close>

text \<open>The answer of the comparison: every file once, and metadata files in the directory of an application.\<close>

definition diff_ok :: "reg_config \<Rightarrow> file_info list \<Rightarrow> bool" where
  "diff_ok cfg infos \<longleftrightarrow> distinct (map fi_filename infos) \<and> (\<forall>f \<in> set infos. takes cfg f \<longrightarrow> length (fi_filename f) = 3)"

lemma takes_network: "takes cfg f \<Longrightarrow> length (fi_filename f) = 3 \<Longrightarrow> hd (fi_filename f) \<in> set (rc_supportedNetworks cfg)"
proof -
  assume t: "takes cfg f" and "length (fi_filename f) = 3"
  then obtain n a x where "fi_filename f = [n, a, x]" by (auto simp: numeral_3_eq_3 length_Suc_conv)
  then show ?thesis using t last3_append [of "[]" n a x] by (simp add: takes_def)
qed

lemma mapR_total: "(\<And>x. x \<in> set xs \<Longrightarrow> \<exists>y. f x = Inr y) \<Longrightarrow> \<exists>ys. mapR f xs = Inr ys"
proof (induction xs)
  case (Cons x xs)
  then obtain y ys where "f x = Inr y" "mapR f xs = Inr ys" by (metis list.set_intros)
  then show ?case by simp
qed simp

lemma payload_total: "\<exists>p. buildEventPayload cfg names d = Inr p"
proof -
  have "\<exists>v. resolveChainNameByNetworkAppDir n a d = Inr v" for n a
    by (simp add: resolveChainNameByNetworkAppDir_def find_tbl_def Let_def find_query_simps)
  then have "\<exists>ys. mapR (\<lambda>(n, a). resolveChainNameByNetworkAppDir n a d) xs = Inr ys" for xs by (intro mapR_total) auto
  then show ?thesis unfolding buildEventPayload_def by (intro mapR_total) (metis bindR_Inr)
qed

text \<open>A run that has something to do, up to its commit\<close>

lemma sync_cases:
  assumes "rm_latestCommit remote = Inr latest" and "kv_get (rc_kvPrefix cfg) COMMIT_HASH_UNTIL_LAST_SYNC True (startDBTransaction (rs_db st)) = Inr old" and "old \<noteq> JStr latest"
    and "rm_diff remote old latest = Inr infos" and ok: "diff_ok cfg infos" and temp: "''temp-downloads'' \<notin> set (rc_supportedNetworks cfg)"
  obtains e acc where "process_files cfg remote (grouped_files (groupFilesByNetworkAndApp lc cfg infos))
          \<lparr>sa_db = startDBTransaction (rs_db st), sa_files = rmdir (temp_dir cfg) (rs_files st), sa_delete = [], sa_move = []\<rparr> = (Some e, acc)"
      and "syncWithRemoteRepo lc cfg remote True st = (Inl e, \<lparr>rs_db = rollbackDBTransaction (sa_db acc), rs_files = sa_files acc\<rparr>)"
  | acc d p fs where "process_files cfg remote (grouped_files (groupFilesByNetworkAndApp lc cfg infos))
          \<lparr>sa_db = startDBTransaction (rs_db st), sa_files = rmdir (temp_dir cfg) (rs_files st), sa_delete = [], sa_move = []\<rparr> = (None, acc)"
      and "kv_set (rc_kvPrefix cfg) COMMIT_HASH_UNTIL_LAST_SYNC (JStr latest) True (sa_db acc) = Inr d" and "settle_files cfg acc = Inr fs"
      and "syncWithRemoteRepo lc cfg remote True st = (Inr p, \<lparr>rs_db = commitDBTransaction d, rs_files = fs\<rparr>)"
proof -
  let ?gs = "groupFilesByNetworkAndApp lc cfg infos"
  let ?acc = "\<lparr>sa_db = startDBTransaction (rs_db st), sa_files = rmdir (temp_dir cfg) (rs_files st), sa_delete = [], sa_move = []\<rparr>"
  have info: "getCommitInfo cfg remote True (startDBTransaction (rs_db st)) = Inr (old, latest)" using assms(1,2) by (simp add: getCommitInfo_def)
  obtain r acc where p: "process_files cfg remote (grouped_files ?gs) ?acc = (r, acc)" by fastforce
  show thesis
  proof (cases r)
    case (Some e)
    then show thesis using that(1) p info assms(3,4) by (simp add: syncWithRemoteRepo_def Let_def)
  next
    case None
    have names: "\<forall>f \<in> set (grouped_files ?gs). length (fi_filename f) = 3 \<and> hd (fi_filename f) \<noteq> ''temp-downloads''"
      using ok temp takes_network [of cfg] unfolding set_grouped diff_ok_def by (metis (no_types, lifting) mem_Collect_eq)
    have "distinct (map fi_filename (grouped_files ?gs))" using ok distinct_grouped by (simp add: diff_ok_def)
    from settle_content [OF p [unfolded None] names this] obtain fs where fs: "settle_files cfg acc = Inr fs" by blast
    obtain d where d: "kv_set (rc_kvPrefix cfg) COMMIT_HASH_UNTIL_LAST_SYNC (JStr latest) True (sa_db acc) = Inr d" by (simp add: kv_set_stmt)
    obtain pl where pl: "buildEventPayload cfg (getModifiedFileNames ?gs) (commitDBTransaction d) = Inr pl" using payload_total by blast
    have "syncWithRemoteRepo lc cfg remote True st = (Inr (if ?gs = [] then None else Some pl), \<lparr>rs_db = commitDBTransaction d, rs_files = fs\<rparr>)"
      using p None fs d pl info assms(3,4) by (simp add: syncWithRemoteRepo_def Let_def)
    then show thesis using that(2) p None d fs by blast
  qed
qed

section \<open>Properties\<close>

text \<open>The entries of the index, as other connections see them\<close>

definition index_entry :: "reg_state \<Rightarrow> index_key \<Rightarrow> row option" where
  "index_entry st k = entry (startDBTransaction (rs_db st)) k"

lemma entry_cong: "working d = working d' \<Longrightarrow> entry d k = entry d' k"
  by (simp add: entry_def app_at_def token_at_def split: sum.split)



text \<open>
  A token that moves from one application to another is lost. If the file that gains it is processed before the file that has lost it, the deletion of what the old version of the second file listed
  also removes the row that was just written, and nothing writes it again.
\<close>

theorem moved_token_lost:
  assumes "process_files cfg remote [gain, lose] acc = (None, acc')" and "reg_ok (sa_db acc)" and "good_file cfg remote (sa_files acc) gain" and "good_file cfg remote (sa_files acc) lose"
    and "k \<in> new_keys remote gain" and "k \<in> old_keys cfg (sa_files acc) lose - new_keys remote lose"
  shows "entry (sa_db acc') k = None"
proof -
  obtain acc1 where one: "process_file cfg remote gain acc = (None, acc1)" and two: "process_file cfg remote lose acc1 = (None, acc')"
    using assms(1) by (auto split: prod.splits option.splits)
  have same: "map_of (sa_files acc1) (repo_dir cfg @ fi_filename lose) = map_of (sa_files acc) (repo_dir cfg @ fi_filename lose)"
    using process_file_local [OF one good_length [OF assms(3)] good_length [OF assms(4)]] .
  have "reg_ok (sa_db acc1)" using process_file_effect [OF one assms(2,3)] by (simp add: file_effect_def)
  moreover have "good_file cfg remote (sa_files acc1) lose" using good_file_cong [OF same] assms(4) by simp
  ultimately have "file_effect cfg remote (sa_files acc1) lose (sa_db acc1) (sa_db acc')" by (rule process_file_effect [OF two])
  then show ?thesis using assms(6) old_keys_cong [OF same] by (auto simp: file_effect_def)
qed

section \<open>Examples\<close>

definition example_cfg :: reg_config where
  "example_cfg = \<lparr>rc_dataDir = [''data''], rc_repo = ''r'', rc_supportedNetworks = [''m''], rc_defaultApps = [], rc_kvPrefix = ''p''\<rparr>"

definition example_app :: "string \<Rightarrow> json" where
  "example_app name = JObj [(''chainName'', JString ''a''), (''networkType'', JString ''m''), (''displayName'', JString name), (''chainID'', JString ''00'')]"

definition example_info :: file_info where
  "example_info = \<lparr>fi_filename = [''m'', ''A'', APP_JSON], fi_status = ''modified''\<rparr>"

definition example_remote :: remote where
  "example_remote = \<lparr>rm_latestCommit = Inr ''c'', rm_diff = (\<lambda>_ _. Inr [example_info]), rm_download = (\<lambda>_. Inr (Some (example_app ''new''))), rm_tarball = Inr []\<rparr>"

definition example_registry :: reg_state where
  "example_registry = \<lparr>rs_db = \<lparr>committed = (\<lambda>_. []), working = (\<lambda>_. [])\<rparr>, rs_files = [([''data'', ''r'', ''m'', ''A'', APP_JSON], Some (example_app ''old''))]\<rparr>"

lemma example_sync_run: "fst (syncWithRemoteRepo (\<lambda>_ _. 0) example_cfg example_remote True example_registry) = Inr (Some [(''m'', [JStr ''a''])])"
  by code_simp

lemma example_good: "takes example_cfg example_info" "diff_ok example_cfg [example_info]"
    "good_file example_cfg example_remote (rmdir (temp_dir example_cfg) (rs_files example_registry)) example_info" "Inl [JStr ''m'', JStr ''a''] \<in> new_keys example_remote example_info"
proof -
  show "takes example_cfg example_info" by code_simp
  then show "diff_ok example_cfg [example_info]" by (simp add: diff_ok_def) (simp add: example_info_def)
  have m: "map_of (rmdir (temp_dir example_cfg) (rs_files example_registry)) (repo_dir example_cfg @ [''m'', ''A'', APP_JSON]) = Some (Some (example_app ''old''))" by code_simp
  have "parsed_ok APP_JSON (example_app s)" for s by (simp add: parsed_ok_def example_app_def prop_of_def json_typeof_def)
  then show "good_file example_cfg example_remote (rmdir (temp_dir example_cfg) (rs_files example_registry)) example_info"
    using m by (simp add: good_file_def example_info_def example_remote_def)
  show "Inl [JStr ''m'', JStr ''a''] \<in> new_keys example_remote example_info"
    by (simp add: new_keys_def example_info_def example_remote_def keys_of_def app_key_def example_app_def spread_fields_def spread2_def prop_of_def cell_of_def stored_def)
qed

lemma example_typed: "reg_ok (rs_db example_registry)" "db_typed keyValueStoreSchema (rs_db example_registry)"
  by (simp_all add: reg_ok_def db_typed_def table_typed_def table_wf_def example_registry_def)



definition example_tokens :: "string list \<Rightarrow> json" where
  "example_tokens ids = JObj [(''tokens'', JArr (map (\<lambda>i. JObj [(''tokenID'', JString i), (''tokenName'', JString ''n'')]) ids))]"

definition example_gain :: file_info where
  "example_gain = \<lparr>fi_filename = [''m'', ''A'', NATIVETOKENS_JSON], fi_status = ''modified''\<rparr>"

definition example_lose :: file_info where
  "example_lose = \<lparr>fi_filename = [''m'', ''B'', NATIVETOKENS_JSON], fi_status = ''modified''\<rparr>"

definition example_moved :: remote where
  "example_moved = example_remote\<lparr>rm_download := (\<lambda>p. Inr (Some (example_tokens (if p = [''m'', ''A'', NATIVETOKENS_JSON] then [''t''] else []))))\<rparr>"

definition example_acc :: sync_acc where
  "example_acc = \<lparr>sa_db = \<lparr>committed = (\<lambda>_. []), working = (\<lambda>_. [])\<rparr>,
     sa_files = [([''data'', ''r'', ''m'', ''A'', APP_JSON], Some (example_app ''x'')), ([''data'', ''r'', ''m'', ''B'', APP_JSON], Some (example_app ''y'')),
       ([''data'', ''r'', ''m'', ''A'', NATIVETOKENS_JSON], Some (example_tokens [])), ([''data'', ''r'', ''m'', ''B'', NATIVETOKENS_JSON], Some (example_tokens [''t'']))],
     sa_delete = [], sa_move = []\<rparr>"

theorem moved_token_lost_witness:
  "\<exists>acc'. process_files example_cfg example_moved [example_gain, example_lose] example_acc = (None, acc') \<and> entry (sa_db acc') (Inr [JStr ''t'']) = None"
proof -
  have "fst (process_files example_cfg example_moved [example_gain, example_lose] example_acc) = None" by code_simp
  then obtain acc' where run: "process_files example_cfg example_moved [example_gain, example_lose] example_acc = (None, acc')" by (metis prod.collapse)
  have typed: "reg_ok (sa_db example_acc)" by (simp add: reg_ok_def db_typed_def table_typed_def table_wf_def example_acc_def)
  have ok: "parsed_ok NATIVETOKENS_JSON (example_tokens ids)" for ids by (simp add: parsed_ok_def example_tokens_def)
  have good: "good_file example_cfg example_moved (sa_files example_acc) example_gain" "good_file example_cfg example_moved (sa_files example_acc) example_lose"
    using ok by (auto simp: good_file_def example_gain_def example_lose_def example_acc_def example_moved_def example_cfg_def)
  have l: "map to_lower ''t'' = ''t''" by code_simp
  note evals = keys_of_def tokens_of_def token_ids_def token_id_keys_def example_tokens_def json_get_def prop_of_def toLowerCase_def
  have new: "Inr [JStr ''t''] \<in> new_keys example_moved example_gain" using l by (simp add: new_keys_def example_gain_def example_moved_def evals)
  have old: "Inr [JStr ''t''] \<in> old_keys example_cfg (sa_files example_acc) example_lose - new_keys example_moved example_lose"
    using l by (simp add: old_keys_def new_keys_def old_info_def example_lose_def example_acc_def example_moved_def example_cfg_def evals)
  show ?thesis using run moved_token_lost [OF run typed good new old] by blast
qed

end
