(* ===== verification/Table_Queries.thy ===== *)
theory Table_Queries
  imports Json_Values
begin

text \<open>
  What the requests of the services share: the parameters of a request as an object that is copied with a key more or less, the answer with its data and its counts, and that a query with a limit and an offset is
  a page of all rows of the query.
\<close>

section \<open>Parameters\<close>

text \<open>\<^verbatim>\<open>{ ...params, k: v }\<close> and \<^verbatim>\<open>const { k, ...rest } = params\<close>\<close>

definition with_param :: "string \<Rightarrow> pval \<Rightarrow> params \<Rightarrow> params" where
  "with_param k v ps = AList.update k v ps"

definition without_param :: "string \<Rightarrow> params \<Rightarrow> params" where
  "without_param k ps = filter (\<lambda>(k', v). k' \<noteq> k) ps"

text \<open>A parameter that is a string other than the empty one, and a number\<close>

definition string_param :: "params \<Rightarrow> string \<Rightarrow> string option" where
  "string_param ps k = (case map_of ps k of Some (PVal (JStr s)) \<Rightarrow> if s = [] then None else Some s | _ \<Rightarrow> None)"

definition int_param :: "params \<Rightarrow> string \<Rightarrow> int option" where
  "int_param ps k = (case map_of ps k of Some (PVal (JNum n)) \<Rightarrow> Some n | _ \<Rightarrow> None)"

definition csv :: "string \<Rightarrow> jsval list" where
  "csv s = map JStr (split_at (CHR '','') s)"

definition search_for :: "string \<Rightarrow> string \<Rightarrow> search_param" where
  "search_for c pattern = \<lparr>se_property = c, se_pattern = pattern, se_startsWith = [], se_endsWith = [], se_allowWildCards = False\<rparr>"

definition prefix_search :: "string \<Rightarrow> string \<Rightarrow> search_param" where
  "prefix_search c s = \<lparr>se_property = c, se_pattern = [], se_startsWith = s, se_endsWith = [], se_allowWildCards = False\<rparr>"

definition count_rows :: "table_config \<Rightarrow> params \<Rightarrow> db \<Rightarrow> int result" where
  "count_rows cfg ps d = bindR (count_tbl cfg ps None False d) (\<lambda>c. case c of Inl (JNum n) \<Rightarrow> Inr n | _ \<Rightarrow> Inl TypeError)"

record 'a reply =
  rp_data :: "'a list"
  rp_count :: nat
  rp_offset :: "pval option"
  rp_total :: int

definition bool_param :: "params \<Rightarrow> string \<Rightarrow> bool option" where
  "bool_param ps k = (case map_of ps k of Some (PVal (JBool b)) \<Rightarrow> Some b | _ \<Rightarrow> None)"

text \<open>\<^verbatim>\<open>slice(from, to)\<close> of an array; negative positions count from the end.\<close>

definition slice_position :: "int \<Rightarrow> 'a list \<Rightarrow> nat" where
  "slice_position i xs = nat (if i < 0 then max (int (length xs) + i) 0 else min i (int (length xs)))"

definition js_slice :: "int \<Rightarrow> int \<Rightarrow> 'a list \<Rightarrow> 'a list" where
  "js_slice i j xs = drop (slice_position i xs) (take (slice_position j xs) xs)"

text \<open>A parameter that is given and truthy\<close>

definition truthy_param :: "params \<Rightarrow> string \<Rightarrow> bool" where
  "truthy_param ps k = (case map_of ps k of Some (PVal v) \<Rightarrow> js_Boolean v | Some _ \<Rightarrow> True | None \<Rightarrow> False)"

section \<open>Pages\<close>

text \<open>Limit and offset do not take part in the conditions of a query.\<close>

lemma resolve_known: "k \<in> set KNOWN_QUERY_PARAMS \<Longrightarrow> resolveQueryParams (AList.update k v ps) = resolveQueryParams ps"
  unfolding resolveQueryParams_def by (induction ps) auto

lemma map_of_with: "map_of (with_param k v ps) k' = (if k' = k then Some v else map_of ps k')"
  by (simp add: with_param_def update_conv')

lemma resolve_plain: "k \<notin> set KNOWN_QUERY_PARAMS \<Longrightarrow> resolveQueryParams (with_param k v ps) = with_param k v (resolveQueryParams ps)"
  unfolding resolveQueryParams_def with_param_def by (induction ps) auto

lemma query_cong:
  assumes r: "resolveQueryParams ps = resolveQueryParams ps'" and m: "\<And>k. k \<noteq> ''limit'' \<Longrightarrow> k \<noteq> ''offset'' \<Longrightarrow> map_of ps k = map_of ps' k"
  shows "queryBuilder b ps = queryBuilder b ps'" and "sort_param ps ''sort'' = sort_param ps' ''sort''" and "sort_param ps ''order'' = sort_param ps' ''order''" and "sort_columns ps = sort_columns ps'"
proof -
  show s: "sort_param ps ''sort'' = sort_param ps' ''sort''" "sort_param ps ''order'' = sort_param ps' ''order''"
    by (simp_all add: sort_param_def m)
  then show "sort_columns ps = sort_columns ps'" by (simp add: sort_columns_def)
  show "queryBuilder b ps = queryBuilder b ps'"
    by (simp add: queryBuilder_def where_clauses_def r m s sort_clauses_def whereIn_clauses_def in_clauses_def nested_clauses_def like_clauses_def null_clauses_def
        cong: option.case_cong pval.case_cong)
qed

text \<open>All rows of a query, in its order\<close>

definition all_rows :: "table_config \<Rightarrow> params \<Rightarrow> (row \<Rightarrow> bool) \<Rightarrow> string list \<Rightarrow> db \<Rightarrow> row list" where
  "all_rows cfg ps P cols d = map (\<lambda>r. map (\<lambda>c. (c, row_get r c)) (cols @ filter (\<lambda>c. c \<notin> set cols) (sort_columns ps)))
     (order_by (sort_param ps ''sort'') (order_by (sort_param ps ''order'') (filter P (read_table (tableName cfg) False d))))"

lemma find_page:
  assumes "queryBuilder False ps = Inr P" and "map_of ps ''limit'' = Some (PVal (JNum l))" "0 < l" and "map_of ps ''offset'' = Some (PVal (JNum off))" "0 \<le> off"
  shows "find_tbl cfg ps (Some cols) False d = Inr (take (nat l) (drop (nat off) (all_rows cfg ps P cols d)))"
proof -
  have "limit_rows ps rs = take (nat l) (drop (nat off) rs)" for rs
    using assms(2-5) by (cases "off = 0") (simp_all add: limit_rows_def num_param_def)
  then show ?thesis using assms(1) by (simp add: find_tbl_def Let_def all_rows_def take_map drop_map)
qed

lemma length_order_by [simp]: "length (order_by s rs) = length rs"
  by (auto simp: order_by_def split: option.splits)

text \<open>A page of two lists one after the other, cut out of the lists\<close>

lemma page_of_append:
  assumes "l > 0"
  shows "take l (drop off (xs @ ys)) = (let p = take l (drop off xs) in if length p < l then p @ take (l - length p) (drop (off - length xs) ys) else p)"
  using assms by (auto simp: Let_def min_def)

lemma page_of_append_int:
  assumes "0 < l" "0 \<le> off"
  shows "(let p = take (nat l) (drop (nat off) xs) in if int (length p) < l then p @ take (nat (l - int (length p))) (drop (nat (off - int (length xs))) ys) else p)
    = take (nat l) (drop (nat off) (xs @ ys))"
proof -
  have "nat (off - int (length xs)) = nat off - length xs" "nat (l - int n) = nat l - n" "int n < l \<longleftrightarrow> n < nat l" for n using assms by arith+
  then show ?thesis using page_of_append [of "nat l" "nat off" xs ys] assms by (simp only: Let_def)
qed

text \<open>Parameters as a request gives them: no value undefined, no conditions of its own, a limit and an offset\<close>

definition paged_params :: "params \<Rightarrow> int \<Rightarrow> int \<Rightarrow> bool" where
  "paged_params ps l off \<longleftrightarrow> (\<forall>(k, v) \<in> set ps. v \<noteq> PVal JUndefined) \<and> map_of ps ''where'' = None
     \<and> map_of ps ''limit'' = Some (PVal (JNum l)) \<and> 0 < l \<and> map_of ps ''offset'' = Some (PVal (JNum off)) \<and> 0 \<le> off"

lemma defined_query: "\<forall>(k, v) \<in> set ps. v \<noteq> PVal JUndefined \<Longrightarrow> map_of ps ''where'' = None \<Longrightarrow> \<exists>P. queryBuilder b ps = Inr P"
proof -
  assume d: "\<forall>(k, v) \<in> set ps. v \<noteq> PVal JUndefined" and w: "map_of ps ''where'' = None"
  have "v \<in> snd ` set (plain_conds qs) \<Longrightarrow> \<exists>k. (k, PVal v) \<in> set qs" for v qs by (induction qs rule: plain_conds.induct) auto
  then have "JUndefined \<notin> snd ` set (plain_conds (resolveQueryParams ps))" using d by (fastforce simp: resolveQueryParams_def)
  then show ?thesis using w by (simp add: queryBuilder_def where_clauses_def Let_def)
qed

lemma paged_query: "paged_params ps l off \<Longrightarrow> \<exists>P. queryBuilder b ps = Inr P"
  by (rule defined_query) (simp_all add: paged_params_def)

lemma set_with: "set (with_param k v ps) \<subseteq> insert (k, v) (set ps)"
  unfolding with_param_def by (induction ps) auto

lemma js_slice_page: "0 \<le> i \<Longrightarrow> 0 \<le> n \<Longrightarrow> js_slice i (i + n) xs = take (nat n) (drop (nat i) xs)"
proof -
  assume "0 \<le> i" "0 \<le> n"
  then have "slice_position i xs = min (nat i) (length xs)" "slice_position (i + n) xs = min (nat i + nat n) (length xs)"
    by (auto simp: slice_position_def nat_add_distrib min_def)
  moreover have "drop (min a n) (take (min (a + b) n) xs) = take b (drop a xs)" if "n = length xs" for a b n :: nat
    using that by (cases "a \<le> n") (auto simp: drop_take min_def)
  ultimately show ?thesis by (simp add: js_slice_def)
qed

lemma mapR_drop: "mapR f xs = Inr ys \<Longrightarrow> mapR f (drop n xs) = Inr (drop n ys)"
  by (induction xs arbitrary: ys n) (auto simp: bindR_eq_Inr drop_Cons split: nat.splits)

lemma mapR_take: "mapR f xs = Inr ys \<Longrightarrow> mapR f (take n xs) = Inr (take n ys)"
  by (induction xs arbitrary: ys n) (auto simp: bindR_eq_Inr take_Cons split: nat.splits)

lemma mapR_length: "mapR f xs = Inr ys \<Longrightarrow> length ys = length xs"
  by (induction xs arbitrary: ys) (auto simp: bindR_eq_Inr)

lemma mapR_Inr: "(\<And>x. x \<in> set xs \<Longrightarrow> f x = Inr (g x)) \<Longrightarrow> mapR f xs = Inr (map g xs)"
  by (induction xs) auto

end
