(* ===== verification/Registry_Queries.thy ===== *)
theory Registry_Queries
  imports App_Registry Table_Queries
begin

text \<open>
  Requests for metadata, \<^verbatim>\<open>services/blockchain-app-registry/shared/metadata.js\<close>: the tables say which applications and tokens are asked for, the files have their descriptions. Default
  applications come before the others.
\<close>

section \<open>Tables\<close>

abbreviation apps_tbl :: table_config where "apps_tbl \<equiv> applicationMetadataIndexSchema"

abbreviation tokens_tbl :: table_config where "tokens_tbl \<equiv> tokenMetadataIndexSchema"

section \<open>The list of applications\<close>

definition list_params :: "params \<Rightarrow> params" where
  "list_params ps =
     (let ps1 = (case string_param ps ''search'' of Some s \<Rightarrow> with_param ''search'' (PSearch [search_for ''chainName'' s]) (without_param ''search'' ps) | None \<Rightarrow> ps)
      in case string_param ps1 ''network'' of Some n \<Rightarrow> with_param ''whereIn'' (PIn [(''network'', csv n)]) (without_param ''network'' ps1) | None \<Rightarrow> ps1)"

text \<open>The offset of the second part; an offset that is not given becomes \<^verbatim>\<open>NaN\<close>.\<close>

definition rest_offset :: "int option \<Rightarrow> int \<Rightarrow> pval" where
  "rest_offset offset totalDefault = (case offset of Some n \<Rightarrow> PVal (JNum (max (n - totalDefault) 0)) | None \<Rightarrow> PVal JNaN)"

definition getBlockchainAppsMetaList :: "params \<Rightarrow> db \<Rightarrow> row reply result" where
  "getBlockchainAppsMetaList request d =
     (let ps = list_params request; columns = Some [''network'', ''chainID'', ''chainName''] in
      bindR (find_tbl apps_tbl (with_param ''isDefault'' (PVal (JBool True)) ps) columns False d) (\<lambda>defaultApps.
      bindR (case int_param ps ''limit'' of
               Some limit \<Rightarrow>
                 if int (length defaultApps) < limit
                 then bindR (count_rows apps_tbl (with_param ''isDefault'' (PVal (JBool True)) ps) d) (\<lambda>totalDefault.
                      bindR (find_tbl apps_tbl (with_param ''isDefault'' (PVal (JBool False)) (with_param ''offset'' (rest_offset (int_param ps ''offset'') totalDefault)
                               (with_param ''limit'' (PVal (JNum (limit - int (length defaultApps)))) ps))) columns False d) (\<lambda>nonDefaultApps.
                      Inr (defaultApps @ nonDefaultApps)))
                 else Inr defaultApps
             | None \<Rightarrow> Inr defaultApps) (\<lambda>data.
      bindR (count_rows apps_tbl ps d) (\<lambda>total. Inr \<lparr>rp_data = data, rp_count = length data, rp_offset = map_of ps ''offset'', rp_total = total\<rparr>))))"

section \<open>The descriptions of applications\<close>

definition LENGTH_CHAIN_ID :: nat where "LENGTH_CHAIN_ID = 8"

definition CHAIN_ID_PREFIX_NETWORK_MAP :: "(string \<times> string) list" where
  "CHAIN_ID_PREFIX_NETWORK_MAP = [(''00'', ''mainnet''), (''01'', ''testnet''), (''04'', ''devnet'')]"

definition knownMainchainIDs :: "string list" where
  "knownMainchainIDs = map (\<lambda>(p, n). p @ replicate (LENGTH_CHAIN_ID - length p) (CHR ''0'')) CHAIN_ID_PREFIX_NETWORK_MAP"

definition hex_char :: "char \<Rightarrow> bool" where
  "hex_char c \<longleftrightarrow> is_digit c \<or> (let n = (of_char c :: nat) in 97 \<le> n \<and> n \<le> 102 \<or> 65 \<le> n \<and> n \<le> 70)"

text \<open>\<^verbatim>\<open>/^[a-fA-F0-9]{2}000000$/\<close>\<close>

definition isMainchainID :: "string \<Rightarrow> bool" where
  "isMainchainID s \<longleftrightarrow> length s = 8 \<and> list_all hex_char (take 2 s) \<and> drop 2 s = ''000000''"

text \<open>The other services: the chain ID of the node, \<^verbatim>\<open>blockchain.apps\<close> and \<^verbatim>\<open>factory.token.meta\<close> of the indexer, and HTTP requests\<close>

record reg_services =
  sv_chainID :: "string result"
  sv_apps :: "json \<Rightarrow> json result"
  sv_factory :: "string \<Rightarrow> json result"
  sv_http :: "string \<Rightarrow> json result"

definition chain_network :: "string \<Rightarrow> string" where
  "chain_network chainID = (case map_of CHAIN_ID_PREFIX_NETWORK_MAP (take 2 chainID) of Some n \<Rightarrow> n | None \<Rightarrow> [])"

text \<open>The networks of the given chains, each once; a chain of no known network contributes an empty name.\<close>

definition networks_of :: "string list \<Rightarrow> string" where
  "networks_of chainIDs = join_with '','' (rev (remdups (rev (map chain_network chainIDs))))"

definition push_in :: "string \<times> jsval list \<Rightarrow> params \<Rightarrow> params" where
  "push_in c ps = with_param ''whereIn'' (PIn ((case map_of ps ''whereIn'' of Some (PIn cs) \<Rightarrow> cs | _ \<Rightarrow> []) @ [c])) ps"

definition metadata_params :: "params \<Rightarrow> params" where
  "metadata_params request =
     (let ps0 = with_param ''whereIn'' (PIn []) request;
          ps1 = (case string_param ps0 ''chainID'' of
                   Some chainID \<Rightarrow>
                     (let chainIDs = split_at (CHR '','') chainID; ps = push_in (''chainID'', map JStr chainIDs) (without_param ''chainID'' ps0)
                      in if map_of ps ''network'' = None then with_param ''network'' (PVal (JStr (networks_of chainIDs))) ps else ps)
                 | None \<Rightarrow> ps0);
          ps2 = (case string_param ps1 ''network'' of Some n \<Rightarrow> push_in (''network'', csv n) (without_param ''network'' ps1) | None \<Rightarrow> ps1)
      in case string_param ps2 ''search'' of
           Some s \<Rightarrow> with_param ''orSearch'' (PSearch [search_for ''chainName'' s, search_for ''displayName'' s]) (without_param ''search'' ps2) | None \<Rightarrow> ps2)"

definition readMetadataFromClonedRepo :: "reg_config \<Rightarrow> files \<Rightarrow> jsval \<Rightarrow> jsval \<Rightarrow> string \<Rightarrow> json result" where
  "readMetadataFromClonedRepo cfg fs network appDirName filename = read_json fs (repo_dir cfg @ [js_String network, js_String appDirName, filename])"

text \<open>\<^verbatim>\<open>blockchainApp && blockchainApp.length > 0\<close>: only an array, or an object with such a field, passes.\<close>

definition app_status :: "json \<Rightarrow> json result" where
  "app_status answer =
     (if json_Boolean answer
      then bindR (json_get answer ''length'') (\<lambda>len.
           if (case json_Number len of JV (JNum n) \<Rightarrow> 0 < n | _ \<Rightarrow> False)
           then bindR (json_get answer ''0'') (\<lambda>first. bindR (json_get first ''data'') (\<lambda>data. json_get data ''status''))
           else Inr (JString ''unregistered''))
      else Inr (JString ''unregistered''))"

definition describe_app :: "reg_config \<Rightarrow> reg_services \<Rightarrow> files \<Rightarrow> row \<Rightarrow> object result" where
  "describe_app cfg sv fs app =
     bindR (readMetadataFromClonedRepo cfg fs (row_get app ''network'') (row_get app ''appDirName'') APP_JSON) (\<lambda>parsed.
     case parsed of
       JObj obj \<Rightarrow>
         (let appMeta = AList.update ''isDefault'' (JV (row_get app ''isDefault'')) obj; chainID = prop_of appMeta ''chainID'' in
          bindR (sv_chainID sv) (\<lambda>own.
          bindR (if isMainchainID own \<and> chainID \<in> set (map JString knownMainchainIDs) then Inr (JString ''activated'')
                 else bindR (sv_apps sv chainID) app_status) (\<lambda>status. Inr (AList.update ''status'' status appMeta))))
     | _ \<Rightarrow> Inl TypeError)"

text \<open>
  The rows whose files are read. With \<^verbatim>\<open>isDefault: false\<close> the offset is the object \<^verbatim>\<open>{ params }\<close>, which is no number.
\<close>

definition metadata_offset :: "int option \<Rightarrow> int \<Rightarrow> pval" where
  "metadata_offset offset totalDefault = PVal (JNum (case offset of Some n \<Rightarrow> if n - totalDefault > 0 then n - totalDefault else 0 | None \<Rightarrow> 0))"

definition metadata_rows :: "reg_config \<Rightarrow> params \<Rightarrow> db \<Rightarrow> row list result" where
  "metadata_rows cfg ps d =
     (let columns = Some [''network'', ''appDirName'', ''isDefault''];
          limit = int_param ps ''limit'';
          wide = PVal (case limit of Some n \<Rightarrow> JNum (n * int (length (rc_supportedNetworks cfg))) | None \<Rightarrow> JNaN) in
      bindR (if bool_param ps ''isDefault'' \<noteq> Some False then find_tbl apps_tbl (with_param ''isDefault'' (PVal (JBool True)) (with_param ''limit'' wide ps)) columns False d else Inr []) (\<lambda>defaultApps.
      if bool_param ps ''isDefault'' \<noteq> Some True \<and> (case limit of Some n \<Rightarrow> int (length defaultApps) < n | None \<Rightarrow> False)
      then bindR (if map_of ps ''isDefault'' = None
                  then bindR (count_rows apps_tbl (with_param ''isDefault'' (PVal (JBool True)) (with_param ''limit'' wide ps)) d) (\<lambda>totalDefault. Inr (metadata_offset (int_param ps ''offset'') totalDefault))
                  else Inr (PVal (JStr ''[object Object]''))) (\<lambda>offset.
           bindR (find_tbl apps_tbl (with_param ''isDefault'' (PVal (JBool False)) (with_param ''limit'' wide (with_param ''offset'' offset ps))) columns False d) (\<lambda>nonDefaultApps.
           Inr (defaultApps @ nonDefaultApps)))
      else Inr defaultApps))"

text \<open>\<^verbatim>\<open>slice(0, limit)\<close>\<close>

definition slice_limit :: "params \<Rightarrow> 'a list \<Rightarrow> 'a list" where
  "slice_limit ps xs = (case int_param ps ''limit'' of Some n \<Rightarrow> take (nat n) xs | None \<Rightarrow> xs)"

definition getBlockchainAppsMetadata :: "reg_config \<Rightarrow> reg_services \<Rightarrow> files \<Rightarrow> params \<Rightarrow> db \<Rightarrow> object reply result" where
  "getBlockchainAppsMetadata cfg sv fs request d =
     (let ps = metadata_params request in
      bindR (metadata_rows cfg ps d) (\<lambda>rows.
      bindR (mapR (describe_app cfg sv fs) (slice_limit ps rows)) (\<lambda>data.
      bindR (count_rows apps_tbl ps d) (\<lambda>total. Inr \<lparr>rp_data = data, rp_count = length data, rp_offset = map_of ps ''offset'', rp_total = total\<rparr>))))"

section \<open>The descriptions of tokens\<close>

definition token_params :: "params \<Rightarrow> params" where
  "token_params request =
     (let ps0 = with_param ''whereIn'' (PIn []) request;
          ps1 = (case string_param ps0 ''search'' of Some s \<Rightarrow> with_param ''search'' (PSearch [search_for ''chainName'' s]) (without_param ''search'' ps0) | None \<Rightarrow> ps0);
          ps2 = (case string_param ps1 ''tokenName'' of Some n \<Rightarrow> push_in (''tokenName'', csv n) (without_param ''tokenName'' ps1) | None \<Rightarrow> ps1);
          ps3 = (case string_param ps2 ''tokenID'' of Some n \<Rightarrow> push_in (''tokenID'', csv n) (without_param ''tokenID'' ps2) | None \<Rightarrow> ps2);
          ps4 = (case string_param ps3 ''chainID'' of Some c \<Rightarrow> with_param ''search'' (PSearch [prefix_search ''tokenID'' c]) (without_param ''chainID'' ps3) | None \<Rightarrow> ps3)
      in case string_param ps4 ''network'' of Some n \<Rightarrow> push_in (''network'', csv n) (without_param ''network'' ps4) | None \<Rightarrow> ps4)"

definition token_chain :: "row \<Rightarrow> string" where
  "token_chain r = take LENGTH_CHAIN_ID (js_String (row_get r ''tokenID''))"

text \<open>The tokens of a file that are asked for, with the names of their chain\<close>

definition pick_tokens :: "jsval list \<Rightarrow> row \<Rightarrow> json \<Rightarrow> object list result" where
  "pick_tokens ids tokenMeta parsed =
     bindR (json_get parsed ''tokens'') (\<lambda>v. bindR (array_of v) (\<lambda>tokens.
     bindR (mapR (\<lambda>t. bindR (json_get t ''tokenID'') (\<lambda>i. Inr (if i \<in> JV ` set ids
         then [spread2 (spread2 [] (spread_fields t)) [(''chainID'', JString (token_chain tokenMeta)), (''chainName'', JV (row_get tokenMeta ''chainName'')), (''network'', JV (row_get tokenMeta ''network''))]]
         else []))) tokens) (\<lambda>found. Inr (concat found))))"

definition describe_tokens :: "reg_config \<Rightarrow> files \<Rightarrow> jsval list \<Rightarrow> db \<Rightarrow> row \<Rightarrow> object list result" where
  "describe_tokens cfg fs ids d tokenMeta =
     bindR (find_tbl apps_tbl [(''network'', PVal (row_get tokenMeta ''network'')), (''chainID'', PVal (JStr (token_chain tokenMeta)))] (Some [''appDirName'']) False d) (\<lambda>apps.
     case apps of
       [] \<Rightarrow> Inr []
     | metadata # _ \<Rightarrow> bindR (readMetadataFromClonedRepo cfg fs (row_get tokenMeta ''network'') (row_get metadata ''appDirName'') NATIVETOKENS_JSON) (pick_tokens ids tokenMeta))"

definition getBlockchainAppsTokenMetadata :: "reg_config \<Rightarrow> reg_services \<Rightarrow> files \<Rightarrow> params \<Rightarrow> db \<Rightarrow> object reply result" where
  "getBlockchainAppsTokenMetadata cfg sv fs request d =
     (let all = token_params request; noFactory = (case map_of all ''noFactory'' of Some (PVal v) \<Rightarrow> js_Boolean v | Some _ \<Rightarrow> True | None \<Rightarrow> False); ps = without_param ''noFactory'' all in
      bindR (find_tbl tokens_tbl ps (Some [''network'', ''tokenID'', ''chainName'']) False d) (\<lambda>tokensResultSet.
      let uniqueChainMap = fold (\<lambda>r. AList.update (token_chain r) r) tokensResultSet [];
          ids = rev (remdups (rev (map (\<lambda>r. row_get r ''tokenID'') tokensResultSet)))
      in bindR (mapR (describe_tokens cfg fs ids d) (map snd uniqueChainMap)) (\<lambda>described.
         bindR (count_rows tokens_tbl ps d) (\<lambda>total.
         bindR (if \<not> noFactory \<and> ids \<noteq> [] then bindR (sv_factory sv (join_with '','' (map js_String ids))) (\<lambda>answer. bindR (json_get answer ''data'') (\<lambda>v. bindR (array_of v) (\<lambda>ts. Inr ts)))
                else Inr []) (\<lambda>factory.
         Inr (let data = map JObj (concat described) @ factory
              in \<lparr>rp_data = map spread_fields data, rp_count = length data, rp_offset = map_of ps ''offset'', rp_total = total\<rparr>))))))"

section \<open>The tokens that a chain supports\<close>

text \<open>The files of the chains, each once, in the order of the tokens; a chain without an application ends the loop with an error.\<close>

definition resolveTokenMetaInfo :: "reg_config \<Rightarrow> files \<Rightarrow> row list \<Rightarrow> db \<Rightarrow> object list result" where
  "resolveTokenMetaInfo cfg fs tokenInfoFromDB d =
     (let ids = map (\<lambda>r. row_get r ''tokenID'') tokenInfoFromDB in
      bindR (foldR (\<lambda>r (processed, tokensMeta).
          if token_chain r \<in> set processed then Inr (processed, tokensMeta)
          else bindR (find_tbl apps_tbl [(''chainID'', PVal (JStr (token_chain r))), (''limit'', PVal (JNum 1))] (Some [''appDirName'']) False d) (\<lambda>apps.
               case apps of
                 [] \<Rightarrow> Inl TypeError
               | app # _ \<Rightarrow> bindR (readMetadataFromClonedRepo cfg fs (row_get r ''network'') (row_get app ''appDirName'') NATIVETOKENS_JSON) (\<lambda>parsed.
                   bindR (pick_tokens ids r parsed) (\<lambda>ts. Inr (processed @ [token_chain r], tokensMeta @ ts)))))
        tokenInfoFromDB ([], [])) (\<lambda>(processed, tokensMeta). Inr tokensMeta))"

text \<open>The first service that answers with supported tokens; a request that fails ends the search.\<close>

fun getSupportedTokensFromServiceURLs :: "reg_services \<Rightarrow> json list \<Rightarrow> json result" where
  "getSupportedTokensFromServiceURLs sv [] = Inl (Error ''Failed to retrieve supported tokens from service URLs.'')"
| "getSupportedTokensFromServiceURLs sv (u # us) =
     bindR (json_get u ''http'') (\<lambda>http. bindR (sv_http sv (json_String http @ ''/api/v3/token/summary'')) (\<lambda>response.
       let get = (\<lambda>v k. if json_Boolean v then (case json_get v k of Inr x \<Rightarrow> x | Inl _ \<Rightarrow> JUndef) else JUndef);
           supported = get (get (get response ''data'') ''data'') ''supportedTokens''
       in if json_Boolean supported then Inr supported else getSupportedTokensFromServiceURLs sv us))"

definition page_params :: "params \<Rightarrow> params" where
  "page_params request = filter (\<lambda>(k, v). k \<in> {''limit'', ''offset'', ''sort''}) request"

definition tokens_page :: "reg_config \<Rightarrow> files \<Rightarrow> params \<Rightarrow> db \<Rightarrow> (object list \<times> int) result" where
  "tokens_page cfg fs searchParams d =
     bindR (find_tbl tokens_tbl searchParams (Some [''network'', ''tokenID'', ''chainName'']) False d) (\<lambda>rows.
     bindR (count_rows tokens_tbl searchParams d) (\<lambda>total.
     bindR (resolveTokenMetaInfo cfg fs rows d) (\<lambda>tokensMeta. Inr (tokensMeta, total))))"

definition getAllTokensMetaInNetworkByChainID :: "reg_config \<Rightarrow> files \<Rightarrow> string \<Rightarrow> params \<Rightarrow> db \<Rightarrow> (object list \<times> int) result" where
  "getAllTokensMetaInNetworkByChainID cfg fs chainID request d =
     tokens_page cfg fs ((''search'', PSearch [prefix_search ''tokenID'' (take 2 chainID)]) # page_params request) d"

definition getTokensMetaByTokenIDs :: "reg_config \<Rightarrow> files \<Rightarrow> string list \<Rightarrow> jsval list \<Rightarrow> params \<Rightarrow> db \<Rightarrow> (object list \<times> int) result" where
  "getTokensMetaByTokenIDs cfg fs patternTokenIDs exactTokenIDs request d =
     tokens_page cfg fs ((''whereIn'', PIn [(''tokenID'', exactTokenIDs)]) # (''orSearch'', PSearch (map (\<lambda>e. prefix_search ''tokenID'' (take LENGTH_CHAIN_ID e)) patternTokenIDs)) # page_params request) d"

definition strings_of :: "json \<Rightarrow> string list result" where
  "strings_of v = bindR (array_of v) (mapR (\<lambda>x. case x of JV (JStr s) \<Rightarrow> Inr s | _ \<Rightarrow> Inl TypeError))"

text \<open>An application without metadata, and every failure of a request or a file behind the service URLs, give an empty answer.\<close>

definition getBlockchainAppsTokensSupportedMetadata :: "reg_config \<Rightarrow> reg_services \<Rightarrow> files \<Rightarrow> params \<Rightarrow> db \<Rightarrow> object reply result" where
  "getBlockchainAppsTokensSupportedMetadata cfg sv fs request d =
     (let empty = \<lparr>rp_data = [], rp_count = 0, rp_offset = None, rp_total = 0\<rparr>; chainID = (case string_param request ''chainID'' of Some c \<Rightarrow> c | None \<Rightarrow> []) in
      bindR (find_tbl apps_tbl [(''chainID'', PVal (JStr chainID)), (''limit'', PVal (JNum 1))] (Some [''network'', ''chainName'', ''appDirName'']) False d) (\<lambda>apps.
      case apps of
        [] \<Rightarrow> Inr empty
      | app # _ \<Rightarrow>
          bindR (readMetadataFromClonedRepo cfg fs (row_get app ''network'') (row_get app ''appDirName'') APP_JSON) (\<lambda>parsed.
          bindR (json_get parsed ''serviceURLs'') (\<lambda>serviceURLs.
          case bindR (array_of serviceURLs) (\<lambda>urls. bindR (getSupportedTokensFromServiceURLs sv urls) (\<lambda>info.
                 bindR (json_get info ''isSupportAllTokens'') (\<lambda>isSupportAllTokens.
                 if json_Boolean isSupportAllTokens then getAllTokensMetaInNetworkByChainID cfg fs chainID request d
                 else bindR (json_get info ''patternTokenIDs'') (\<lambda>ps. bindR (strings_of ps) (\<lambda>patterns. bindR (json_get info ''exactTokenIDs'') (\<lambda>es. bindR (strings_of es) (\<lambda>exact.
                      getTokensMetaByTokenIDs cfg fs patterns (map JStr exact) request d))))))) of
            Inr (tokensMeta, t) \<Rightarrow> Inr \<lparr>rp_data = tokensMeta, rp_count = length tokensMeta, rp_offset = map_of request ''offset'', rp_total = t\<rparr>
          | Inl _ \<Rightarrow> Inr empty))))"

section \<open>Pages\<close>

text \<open>The parameters of the second query differ from those of the first in the flag, the limit and the offset.\<close>

lemma second_query:
  assumes "q = with_param ''isDefault'' f (with_param ''offset'' off (with_param ''limit'' l ps)) \<or> q = with_param ''isDefault'' f (with_param ''limit'' l (with_param ''offset'' off ps))
    \<or> q = with_param ''isDefault'' f (with_param ''limit'' l ps)"
  shows "queryBuilder b q = queryBuilder b (with_param ''isDefault'' f ps)" and "all_rows cfg q P cols d = all_rows cfg (with_param ''isDefault'' f ps) P cols d"
proof -
  have known: "resolveQueryParams (with_param ''offset'' v qs) = resolveQueryParams qs" "resolveQueryParams (with_param ''limit'' v qs) = resolveQueryParams qs" for v qs
    using resolve_known by (simp_all add: with_param_def KNOWN_QUERY_PARAMS_def)
  have plain: "resolveQueryParams (with_param ''isDefault'' f qs) = with_param ''isDefault'' f (resolveQueryParams qs)" for qs
    by (rule resolve_plain) (simp add: KNOWN_QUERY_PARAMS_def)
  have r: "resolveQueryParams q = resolveQueryParams (with_param ''isDefault'' f ps)" using assms by (elim disjE) (simp_all only: known plain)
  have m: "map_of q k = map_of (with_param ''isDefault'' f ps) k" if "k \<noteq> ''limit''" "k \<noteq> ''offset''" for k using assms that by (elim disjE) (simp_all only: map_of_with if_False)
  note c = query_cong [OF r m]
  show "queryBuilder b q = queryBuilder b (with_param ''isDefault'' f ps)" by (rule c(1))
  show "all_rows cfg q P cols d = all_rows cfg (with_param ''isDefault'' f ps) P cols d" by (simp add: all_rows_def c(2-4))
qed

text \<open>The conditions of the two queries, and that a count agrees with them\<close>

lemma isDefault_query:
  assumes "map_of ps ''where'' = None" and "queryBuilder True (with_param ''isDefault'' (PVal (JBool b)) ps) = Inr Q"
    and "\<forall>c \<in> set (sort_columns ps). row_get r c \<noteq> JNull"
  shows "\<exists>P. queryBuilder False (with_param ''isDefault'' (PVal (JBool b)) ps) = Inr P \<and> P r = Q r"
proof -
  let ?ps = "with_param ''isDefault'' (PVal (JBool b)) ps"
  have m: "map_of ?ps k = map_of ps k" if "k \<noteq> ''isDefault''" for k using that by (simp add: map_of_with)
  have sort: "sort_param ?ps k = sort_param ps k" if "k \<noteq> ''isDefault''" for k using m that by (simp add: sort_param_def)
  obtain w where w: "where_clauses ?ps = Inr w" using assms(2) by (auto simp: queryBuilder_def bindR_eq_Inr)
  have "plain_conds (resolveQueryParams ?ps) \<noteq> []"
  proof -
    have "\<exists>v. (''isDefault'', PVal v) \<in> set ?ps" by (metis map_of_SomeD map_of_with)
    then have "\<exists>v. (''isDefault'', PVal v) \<in> set (resolveQueryParams ?ps)" by (auto simp: resolveQueryParams_def KNOWN_QUERY_PARAMS_def)
    moreover have "(k, PVal v) \<in> set qs \<Longrightarrow> plain_conds qs \<noteq> []" for k v qs by (induction qs rule: plain_conds.induct) auto
    ultimately show ?thesis by blast
  qed
  then obtain c w' where w': "w = both c # w'" using w assms(1) m [of "''where''"]
    by (auto simp: where_clauses_def Let_def eq_clauses_def neq_Nil_conv split: if_splits)
  have "\<forall>cl \<in> set (sort_clauses ps). \<not> fst cl \<and> snd cl r"
    using assms(3) by (auto simp: sort_clauses_def sort_columns_def split: option.splits)
  moreover have "eval_where (cs @ both c # rest) r = eval_where (both c # rest) r" if "\<forall>cl \<in> set cs. \<not> fst cl \<and> snd cl r" for cs rest
  proof -
    have "eval_clauses True (cs @ both c # rest) r = eval_clauses True (both c # rest) r" if "\<forall>cl \<in> set cs. \<not> fst cl \<and> snd cl r" for cs
      using that by (induction cs) auto
    then show ?thesis using that by (cases cs) auto
  qed
  moreover have "sort_clauses ?ps = sort_clauses ps" using sort by (simp add: sort_clauses_def)
  ultimately show ?thesis using assms(2) w w' by (auto simp: queryBuilder_def)
qed

text \<open>No row of the table lacks a value in its key or in a column it is sorted by.\<close>

definition sortable :: "params \<Rightarrow> db \<Rightarrow> bool" where
  "sortable ps d \<longleftrightarrow> (\<forall>r \<in> set (committed d ''application_metadata''). row_get r ''network'' \<noteq> JNull \<and> (\<forall>c \<in> set (sort_columns ps). row_get r c \<noteq> JNull))"

lemma default_query:
  assumes ps: "paged_params ps l off" and s: "sortable ps d"
  obtains P where "queryBuilder False (with_param ''isDefault'' (PVal (JBool b)) ps) = Inr P"
    and "count_rows apps_tbl (with_param ''isDefault'' (PVal (JBool b)) ps) d = Inr (int (length (all_rows apps_tbl ps P cols d)))"
    and "all_rows apps_tbl (with_param ''isDefault'' (PVal (JBool b)) ps) P cols d = all_rows apps_tbl ps P cols d"
proof -
  let ?ps = "with_param ''isDefault'' (PVal (JBool b)) ps"
  have sp: "sort_param ?ps k = sort_param ps k" if "k \<noteq> ''isDefault''" for k using that by (simp add: sort_param_def map_of_with)
  then have sc: "sort_columns ?ps = sort_columns ps" by (simp add: sort_columns_def)
  have w: "map_of ps ''where'' = None" using ps by (simp add: paged_params_def)
  have "\<forall>(k, v) \<in> set ?ps. v \<noteq> PVal JUndefined" using ps set_with [of "''isDefault''" "PVal (JBool b)" ps] by (auto simp: paged_params_def)
  moreover have "map_of ?ps ''where'' = None" using w by (simp add: map_of_with)
  ultimately obtain P Q where P: "queryBuilder False ?ps = Inr P" and Q: "queryBuilder True ?ps = Inr Q"
    using defined_query [of ?ps] by blast
  have PQ: "P r = Q r \<and> row_get r ''network'' \<noteq> JNull" if "r \<in> set (committed d ''application_metadata'')" for r
    using isDefault_query [OF w Q, of r] s that P by (auto simp: sortable_def)
  have "filter (\<lambda>r. Q r \<and> row_get r ''network'' \<noteq> JNull) (committed d ''application_metadata'') = filter P (committed d ''application_metadata'')"
    using PQ by (intro filter_cong) auto
  moreover have "hd (primaryKey apps_tbl) = ''network''" by (simp add: applicationMetadataIndexSchema_def)
  ultimately have "count_rows apps_tbl ?ps d = Inr (int (length (filter P (committed d ''application_metadata''))))"
    using Q by (simp add: count_rows_def count_tbl_def Let_def read_table_def)
  then show thesis using that [OF P] by (simp add: all_rows_def sp sc read_table_def)
qed

text \<open>
  The pages of the list of applications are the pages of one list: the default applications in their order, followed by all others. Although each page is put together from two queries and a count, no application
  is left out or repeated between two pages.
\<close>

theorem app_list_pages:
  assumes "paged_params (list_params request) l off" and "sortable (list_params request) d"
  shows "\<exists>P N reply. queryBuilder False (with_param ''isDefault'' (PVal (JBool True)) (list_params request)) = Inr P
    \<and> queryBuilder False (with_param ''isDefault'' (PVal (JBool False)) (list_params request)) = Inr N
    \<and> getBlockchainAppsMetaList request d = Inr reply
    \<and> rp_data reply = take (nat l) (drop (nat off) (all_rows apps_tbl (list_params request) P [''network'', ''chainID'', ''chainName''] d
        @ all_rows apps_tbl (list_params request) N [''network'', ''chainID'', ''chainName''] d))"
proof -
  let ?ps = "list_params request" and ?cols = "[''network'', ''chainID'', ''chainName'']"
  let ?on = "with_param ''isDefault'' (PVal (JBool True)) ?ps" and ?off = "with_param ''isDefault'' (PVal (JBool False))"
  obtain P where P: "queryBuilder False ?on = Inr P" "count_rows apps_tbl ?on d = Inr (int (length (all_rows apps_tbl ?ps P ?cols d)))"
      "all_rows apps_tbl ?on P ?cols d = all_rows apps_tbl ?ps P ?cols d" by (rule default_query [OF assms, of True])
  obtain N where N: "queryBuilder False (?off ?ps) = Inr N" "all_rows apps_tbl (?off ?ps) N ?cols d = all_rows apps_tbl ?ps N ?cols d" by (rule default_query [OF assms, of False])
  let ?D = "all_rows apps_tbl ?ps P ?cols d" and ?R = "all_rows apps_tbl ?ps N ?cols d"
  let ?page = "take (nat l) (drop (nat off) ?D)"
  have l: "map_of ?ps ''limit'' = Some (PVal (JNum l))" "0 < l" "map_of ?ps ''offset'' = Some (PVal (JNum off))" "0 \<le> off" using assms(1) by (simp_all add: paged_params_def)
  have first: "find_tbl apps_tbl ?on (Some ?cols) False d = Inr ?page" using find_page [OF P(1), of l off apps_tbl ?cols d] l P(3) by (simp add: map_of_with)
  let ?rest = "\<lambda>n t. ?off (with_param ''offset'' (rest_offset (Some off) t) (with_param ''limit'' (PVal (JNum n)) ?ps))"
  have second: "find_tbl apps_tbl (?rest n t) (Some ?cols) False d = Inr (take (nat n) (drop (nat (off - t)) ?R))" if n: "0 < n" for n t
  proof -
    have "max (off - t) 0 = off - t \<or> nat (off - t) = nat (max (off - t) 0)" by auto
    moreover have "map_of (?rest n t) ''limit'' = Some (PVal (JNum n))" "map_of (?rest n t) ''offset'' = Some (PVal (JNum (max (off - t) 0)))" by (simp_all add: map_of_with rest_offset_def)
    moreover have "queryBuilder False (?rest n t) = Inr N" "all_rows apps_tbl (?rest n t) N ?cols d = ?R" using second_query [OF disjI1 [OF refl]] N by (simp_all del: list.simps)
    ultimately show ?thesis using find_page [of "?rest n t" N n "max (off - t) 0" apps_tbl ?cols d] n by auto
  qed
  obtain Q where Q: "queryBuilder True ?ps = Inr Q" using paged_query [OF assms(1)] by (rule exE)
  then obtain total where total: "count_rows apps_tbl ?ps d = Inr total" by (simp add: count_rows_def count_tbl_def Let_def)
  have lim: "int_param ?ps ''limit'' = Some l" "int_param ?ps ''offset'' = Some off" using l by (simp_all add: int_param_def)
  let ?data = "if int (length ?page) < l then ?page @ take (nat (l - int (length ?page))) (drop (nat (off - int (length ?D))) ?R) else ?page"
  define rep where "rep = \<lparr>rp_data = ?data, rp_count = length ?data, rp_offset = map_of ?ps ''offset'', rp_total = total\<rparr>"
  have reply: "getBlockchainAppsMetaList request d = Inr rep"
    unfolding rep_def getBlockchainAppsMetaList_def Let_def first lim option.case bindR_Inr P(2)
    by (cases "int (length ?page) < l") (simp_all only: if_True if_False bindR_Inr second [OF iffD2 [OF diff_gt_0_iff_gt]] total)
  have "rp_data rep = ?data" unfolding rep_def by (rule reply.select_convs)
  also have "\<dots> = take (nat l) (drop (nat off) (?D @ ?R))" using page_of_append_int [OF l(2,4), of ?D ?R] unfolding Let_def .
  finally show ?thesis by (intro exI [of _ P] exI [of _ N] exI [of _ rep] conjI P(1) N(1) reply)
qed

lemma wide_page:
  assumes "0 < l" and "0 \<le> off" and "0 < k"
  shows "take (nat l) (let p = take (nat (l * int k)) (drop (nat off) xs) in if int (length p) < l then p @ take (nat (l * int k)) (drop (nat (off - int (length xs))) ys) else p)
    = take (nat l) (drop (nat off) (xs @ ys))"
proof -
  let ?m = "nat (l * int k)" and ?p = "drop (nat off) xs" and ?q = "drop (nat off - length xs) ys"
  have m: "nat l \<le> ?m" using assms by (simp add: nat_mult_distrib Suc_leI)
  have o': "nat (off - int (length xs)) = nat off - length xs" using assms by arith
  show ?thesis
  proof (cases "length ?p < nat l")
    case True
    then have "take ?m ?p = ?p" "int (length ?p) < l" using m by simp_all
    moreover have "min (nat l - (length xs - nat off)) ?m = nat l - (length xs - nat off)" using m by simp
    ultimately show ?thesis using m True by (simp add: Let_def o' take_append)
  next
    case False
    then have "nat l \<le> length (take ?m ?p)" using m by simp
    then have "\<not> int (length (take ?m ?p)) < l" by linarith
    then show ?thesis using False m by (simp add: Let_def min_absorb1)
  qed
qed

text \<open>The same for the descriptions of applications: each page of a request that does not ask for default applications only is the page of the one list.\<close>

theorem app_metadata_pages:
  assumes "paged_params ps l off" and "sortable ps d" and "map_of ps ''isDefault'' = None" and "rc_supportedNetworks cfg \<noteq> []"
  shows "\<exists>P N rows. queryBuilder False (with_param ''isDefault'' (PVal (JBool True)) ps) = Inr P \<and> queryBuilder False (with_param ''isDefault'' (PVal (JBool False)) ps) = Inr N
    \<and> metadata_rows cfg ps d = Inr rows
    \<and> slice_limit ps rows = take (nat l) (drop (nat off) (all_rows apps_tbl ps P [''network'', ''appDirName'', ''isDefault''] d @ all_rows apps_tbl ps N [''network'', ''appDirName'', ''isDefault''] d))"
proof -
  let ?cols = "[''network'', ''appDirName'', ''isDefault'']"
  let ?on = "with_param ''isDefault'' (PVal (JBool True))" and ?off = "with_param ''isDefault'' (PVal (JBool False))"
  let ?n = "l * int (length (rc_supportedNetworks cfg))"
  have l: "map_of ps ''limit'' = Some (PVal (JNum l))" "0 < l" "map_of ps ''offset'' = Some (PVal (JNum off))" "0 \<le> off" using assms(1) by (simp_all add: paged_params_def)
  have k: "0 < length (rc_supportedNetworks cfg)" using assms(4) by simp
  then have n: "0 < ?n" using l(2) by simp
  obtain P where P: "queryBuilder False (?on ps) = Inr P" "count_rows apps_tbl (?on ps) d = Inr (int (length (all_rows apps_tbl ps P ?cols d)))"
      "all_rows apps_tbl (?on ps) P ?cols d = all_rows apps_tbl ps P ?cols d" by (rule default_query [OF assms(1,2), of True])
  obtain N where N: "queryBuilder False (?off ps) = Inr N" "all_rows apps_tbl (?off ps) N ?cols d = all_rows apps_tbl ps N ?cols d" by (rule default_query [OF assms(1,2), of False])
  define D where "D = all_rows apps_tbl ps P ?cols d"
  define R where "R = all_rows apps_tbl ps N ?cols d"
  let ?first = "?on (with_param ''limit'' (PVal (JNum ?n)) ps)"
  note first_same = second_query [OF disjI2 [OF disjI2 [OF refl]]]
  have first: "find_tbl apps_tbl ?first (Some ?cols) False d = Inr (take (nat ?n) (drop (nat off) D))"
  proof -
    have "find_tbl apps_tbl ?first (Some ?cols) False d = Inr (take (nat ?n) (drop (nat off) (all_rows apps_tbl ?first P ?cols d)))"
      by (rule find_page) (simp_all add: first_same P(1) map_of_with n l)
    then show ?thesis unfolding D_def P(3) [symmetric] first_same(2) .
  qed
  have count: "count_rows apps_tbl ?first d = Inr (int (length D))"
    using P(2) unfolding D_def count_rows_def count_tbl_def first_same(1) by simp
  let ?second = "\<lambda>t. ?off (with_param ''limit'' (PVal (JNum ?n)) (with_param ''offset'' (metadata_offset (Some off) t) ps))"
  note second_same = second_query [OF disjI2 [OF disjI1 [OF refl]]]
  have second: "find_tbl apps_tbl (?second t) (Some ?cols) False d = Inr (take (nat ?n) (drop (nat (off - t)) R))" for t
  proof -
    have "find_tbl apps_tbl (?second t) (Some ?cols) False d = Inr (take (nat ?n) (drop (nat (if off - t > 0 then off - t else 0)) (all_rows apps_tbl (?second t) N ?cols d)))"
      by (rule find_page) (simp_all add: second_same N(1) map_of_with n metadata_offset_def)
    then show ?thesis unfolding R_def N(2) [symmetric] second_same(2) by simp
  qed
  have par: "int_param ps ''limit'' = Some l" "int_param ps ''offset'' = Some off" "bool_param ps ''isDefault'' = None" using l assms(3) by (simp_all add: int_param_def bool_param_def)
  define rows where "rows = (let p = take (nat ?n) (drop (nat off) D) in if int (length p) < l then p @ take (nat ?n) (drop (nat (off - int (length D))) R) else p)"
  have "metadata_rows cfg ps d = Inr rows"
    unfolding metadata_rows_def Let_def par option.case first bindR_Inr assms(3) rows_def
    by (cases "int (length (take (nat ?n) (drop (nat off) D))) < l") (simp_all add: first count second)
  moreover have "slice_limit ps rows = take (nat l) (drop (nat off) (D @ R))"
    unfolding slice_limit_def par option.case rows_def by (rule wide_page [OF l(2,4) k])
  ultimately show ?thesis using P(1) N(1) unfolding D_def R_def by (intro exI [of _ P] exI [of _ N] exI [of _ rows] conjI)
qed

text \<open>
  With \<^verbatim>\<open>isDefault: false\<close> the offset has no effect. The variable is set to an object instead of the offset of the request, so that every page is the first one.
\<close>

theorem offset_without_effect:
  assumes "bool_param ps ''isDefault'' = Some False"
  shows "metadata_rows cfg (with_param ''offset'' v ps) d = metadata_rows cfg ps d"
proof -
  have twice: "with_param k a (with_param k b qs) = with_param k a qs" for k a b qs unfolding with_param_def by (induction qs) auto
  have other: "map_of (with_param ''offset'' v ps) k = map_of ps k" if "k \<noteq> ''offset''" for k using that by (simp add: map_of_with)
  have flag: "(map_of ps ''isDefault'' = None) = False" "(map_of (with_param ''offset'' v ps) ''isDefault'' = None) = False"
    using assms other [of "''isDefault''"] by (auto simp: bool_param_def split: option.splits)
  have same: "bool_param (with_param ''offset'' v ps) ''isDefault'' = Some False" "int_param (with_param ''offset'' v ps) ''limit'' = int_param ps ''limit''"
    using assms by (simp_all add: bool_param_def int_param_def other)
  show ?thesis by (simp add: metadata_rows_def Let_def flag same assms twice)
qed

text \<open>
  An application that is not a main chain is always reported as unregistered: the answer of the indexer is an object with the fields \<^verbatim>\<open>data\<close> and \<^verbatim>\<open>meta\<close>, and the code looks for the length of an array.
\<close>

theorem status_always_unregistered:
  "app_status (JObj [(''data'', applications), (''meta'', meta)]) = Inr (JString ''unregistered'')"
  by (simp add: app_status_def json_Boolean_def json_get_def prop_of_def json_Number_def)

text \<open>
  Patterns of supported tokens have no effect on their own. The conditions on exact and on patterned token IDs are combined with and: a chain that supports the tokens of some chains, and no others,
  is answered with an empty list.
\<close>

theorem patterned_tokens_missing:
  "getTokensMetaByTokenIDs cfg fs patterns [] request d = Inr ([], 0)"
proof -
  let ?ps = "(''whereIn'', PIn [(''tokenID'', [])]) # (''orSearch'', PSearch (map (\<lambda>e. prefix_search ''tokenID'' (take LENGTH_CHAIN_ID e)) patterns)) # page_params request"
  have none: "map_of (page_params request) k = None" if "k \<notin> {''limit'', ''offset'', ''sort''}" for k
    using that by (auto simp: page_params_def map_of_eq_None_iff)
  have res: "resolveQueryParams ?ps = []" by (auto simp: resolveQueryParams_def KNOWN_QUERY_PARAMS_def page_params_def filter_empty_conv)
  have False_clause: "eval_clauses acc (cs @ both (\<lambda>r. False) # rest) r = False" if "\<forall>c \<in> set cs. \<not> fst c" "\<forall>c \<in> set rest. \<not> fst c" for acc cs rest r
  proof -
    have f: "eval_clauses False xs r = False" if "\<forall>c \<in> set xs. \<not> fst c" for xs using that by (induction xs) auto
    show ?thesis using that f by (induction cs arbitrary: acc) auto
  qed
  have where_False: "eval_where (cs @ both (\<lambda>r. False) # rest) r = False" if "\<forall>c \<in> set cs. \<not> fst c" "\<forall>c \<in> set rest. \<not> fst c" for cs rest r
    using False_clause [of "tl cs" rest] False_clause [of "[]" rest] that by (cases cs) (auto simp: list.set_sel)
  have "\<exists>P. queryBuilder b ?ps = Inr P \<and> (\<forall>r. \<not> P r)" for b
  proof -
    have like: "\<forall>c \<in> set (like_clauses ?ps). \<not> fst c" by (auto simp: like_clauses_def none split: list.splits)
    have sort: "\<forall>c \<in> set (sort_clauses ?ps). \<not> fst c" by (auto simp: sort_clauses_def split: option.splits)
    have "queryBuilder b ?ps = Inr (eval_where ((if b then [] else sort_clauses ?ps) @ both (\<lambda>r. False) # like_clauses ?ps))"
      by (simp add: queryBuilder_def where_clauses_def res eq_clauses_def whereIn_clauses_def in_list_def in_clauses_def nested_clauses_def null_clauses_def none)
    then show ?thesis using where_False like sort by simp
  qed
  then obtain P Q where P: "queryBuilder False ?ps = Inr P" "\<And>r. \<not> P r" and Q: "queryBuilder True ?ps = Inr Q" "\<And>r. \<not> Q r" by metis
  have "find_tbl tokens_tbl ?ps (Some [''network'', ''tokenID'', ''chainName'']) False d = Inr []"
    using P by (simp add: find_tbl_def Let_def limit_rows_def order_by_def split: option.splits)
  moreover have "count_rows tokens_tbl ?ps d = Inr 0" using Q by (simp add: count_rows_def count_tbl_def Let_def)
  ultimately show ?thesis by (simp add: getTokensMetaByTokenIDs_def tokens_page_def resolveTokenMetaInfo_def)
qed

section \<open>Examples\<close>

definition example_app_page :: params where
  "example_app_page = [(''limit'', PVal (JNum 2)), (''offset'', PVal (JNum 1)), (''sort'', PVal (JStr ''chainName:asc''))]"

definition example_apps :: db where
  "example_apps = \<lparr>committed = (\<lambda>_. [[(''chainName'', JStr ''a''), (''displayName'', JStr ''A''), (''chainID'', JStr ''00''), (''network'', JStr ''m''), (''isDefault'', JBool False), (''appDirName'', JStr ''d'')]]),
     working = (\<lambda>_. [])\<rparr>"

lemma example_paged: "list_params example_app_page = example_app_page" "paged_params example_app_page 2 1" "sortable example_app_page example_apps"
proof -
  show "list_params example_app_page = example_app_page" by code_simp
  show "paged_params example_app_page 2 1" by (simp add: paged_params_def example_app_page_def)
  have "sort_columns example_app_page = [''chainName'']" by code_simp
  then show "sortable example_app_page example_apps" by (simp add: sortable_def example_apps_def row_get_def)
qed

theorem app_list_pages_witness: "\<exists>reply. getBlockchainAppsMetaList example_app_page example_apps = Inr reply \<and> length (rp_data reply) \<le> 2"
proof -
  have "paged_params (list_params example_app_page) 2 1" "sortable (list_params example_app_page) example_apps" using example_paged by simp_all
  from app_list_pages [OF this] obtain reply xs where "getBlockchainAppsMetaList example_app_page example_apps = Inr reply" "rp_data reply = take (nat 2) (drop (nat 1) xs)" by blast
  then show ?thesis by (intro exI [of _ reply]) simp
qed

theorem app_metadata_pages_witness:
  "\<exists>rows. metadata_rows \<lparr>rc_dataDir = [], rc_repo = ''r'', rc_supportedNetworks = [''m''], rc_defaultApps = [], rc_kvPrefix = ''p''\<rparr> example_app_page example_apps = Inr rows \<and> length (slice_limit example_app_page rows) \<le> 2"
proof -
  let ?cfg = "\<lparr>rc_dataDir = [], rc_repo = ''r'', rc_supportedNetworks = [''m''], rc_defaultApps = [], rc_kvPrefix = ''p''\<rparr>"
  have "map_of example_app_page ''isDefault'' = None" "rc_supportedNetworks ?cfg \<noteq> []" by (simp_all add: example_app_page_def)
  from app_metadata_pages [OF example_paged(2,3) this] obtain rows xs where "metadata_rows ?cfg example_app_page example_apps = Inr rows" "slice_limit example_app_page rows = take (nat 2) (drop (nat 1) xs)" by blast
  then show ?thesis by (intro exI [of _ rows]) simp
qed

theorem offset_without_effect_witness:
  "metadata_rows \<lparr>rc_dataDir = [], rc_repo = ''r'', rc_supportedNetworks = [''m''], rc_defaultApps = [], rc_kvPrefix = ''p''\<rparr> (with_param ''offset'' (PVal (JNum 10)) ((''isDefault'', PVal (JBool False)) # example_app_page)) example_apps
     = metadata_rows \<lparr>rc_dataDir = [], rc_repo = ''r'', rc_supportedNetworks = [''m''], rc_defaultApps = [], rc_kvPrefix = ''p''\<rparr> ((''isDefault'', PVal (JBool False)) # example_app_page) example_apps"
  by (rule offset_without_effect) (simp add: bool_param_def)

end
