(* ===== verification/Interleaving.thy ===== *)
theory Interleaving
  imports Prelude
begin

text \<open>
  Handlers that run at the same time. An asynchronous function is the list of its actions, each the part of its body up to the
  next \<^verbatim>\<open>await\<close>: it reads and writes the variables of the function and the shared state, or throws. Several
  handlers that are started together, as by \<^verbatim>\<open>BluebirdPromise.map\<close> with a concurrency that is not 1, take their actions in any
  order; only the actions of one handler keep theirs.
\<close>

type_synonym ('l, 's) action = "'l \<Rightarrow> 's \<Rightarrow> ('l \<times> 's) result"

text \<open>A handler that runs alone.\<close>

fun run_actions :: "('l, 's) action list \<Rightarrow> 'l \<Rightarrow> 's \<Rightarrow> 's result" where
  "run_actions [] l s = Inr s"
| "run_actions (a # as) l s = bindR (a l s) (\<lambda>(l', s'). run_actions as l' s')"

text \<open>A handler that waits: its variables and the actions that are left of it.\<close>

type_synonym ('l, 's) waiting = "'l \<times> ('l, 's) action list"

inductive interleave_step :: "('l, 's) waiting list \<times> 's \<Rightarrow> ('l, 's) waiting list \<times> 's \<Rightarrow> bool" where
  Action: "i < length ts \<Longrightarrow> ts ! i = (l, a # as) \<Longrightarrow> a l s = Inr (l', s') \<Longrightarrow> interleave_step (ts, s) (ts[i := (l', as)], s')"

definition all_ended :: "('l, 's) waiting list \<Rightarrow> bool" where
  "all_ended ts = list_all (\<lambda>(_, as). as = []) ts"

text \<open>All handlers are started with the variables \<open>l\<close> and all of them end.\<close>

definition interleaved :: "'l \<Rightarrow> ('l, 's) action list list \<Rightarrow> 's \<Rightarrow> 's \<Rightarrow> bool" where
  "interleaved l hs s s' \<longleftrightarrow> (\<exists>ts. interleave_step\<^sup>*\<^sup>* (map (Pair l) hs, s) (ts, s') \<and> all_ended ts)"

section \<open>One after the other is one of the orders\<close>

lemma run_alone:
  "run_actions as l s = Inr s' \<Longrightarrow> i < length ts \<Longrightarrow> ts ! i = (l, as) \<Longrightarrow>
     \<exists>l'. interleave_step\<^sup>*\<^sup>* (ts, s) (ts[i := (l', [])], s')"
proof (induction as arbitrary: l s ts)
  case Nil
  then have "ts[i := (l, [])] = ts" by (metis list_update_id)
  then show ?case using Nil by (metis run_actions.simps(1) rtranclp.rtrancl_refl sum.inject(2))
next
  case (Cons a as)
  then obtain l1 s1 where a: "a l s = Inr (l1, s1)" "run_actions as l1 s1 = Inr s'" by (auto simp: bindR_eq_Inr)
  have "interleave_step (ts, s) (ts[i := (l1, as)], s1)" using Action [OF Cons.prems(2,3) a(1)] .
  moreover obtain l' where "interleave_step\<^sup>*\<^sup>* (ts[i := (l1, as)], s1) ((ts[i := (l1, as)])[i := (l', [])], s')"
    using Cons.IH [OF a(2), of "ts[i := (l1, as)]"] Cons.prems(2) by auto
  ultimately show ?case by (metis converse_rtranclp_into_rtranclp list_update_overwrite)
qed

lemma sequential_run:
  "foldR (\<lambda>as. run_actions as l) hs s = Inr s' \<Longrightarrow> all_ended ts \<Longrightarrow>
     \<exists>ts'. interleave_step\<^sup>*\<^sup>* (ts @ map (Pair l) hs, s) (ts', s') \<and> all_ended ts'"
proof (induction hs arbitrary: s ts)
  case (Cons h hs)
  then obtain s1 where s1: "run_actions h l s = Inr s1" "foldR (\<lambda>as. run_actions as l) hs s1 = Inr s'" by (auto simp: bindR_eq_Inr)
  let ?ts = "ts @ map (Pair l) (h # hs)"
  have at: "length ts < length ?ts" "?ts ! length ts = (l, h)" by (simp_all add: nth_append)
  obtain l' where l': "interleave_step\<^sup>*\<^sup>* (?ts, s) (?ts[length ts := (l', [])], s1)" using run_alone [OF s1(1) at] by blast
  have "?ts[length ts := (l', [])] = (ts @ [(l', [])]) @ map (Pair l) hs" by (simp add: list_update_append)
  moreover have "all_ended (ts @ [(l', [])])" using Cons.prems(2) by (simp add: all_ended_def)
  ultimately obtain ts' where "interleave_step\<^sup>*\<^sup>* (?ts[length ts := (l', [])], s1) (ts', s')" "all_ended ts'"
    using Cons.IH [OF s1(2)] by metis
  then show ?case using rtranclp_trans [OF l'] by blast
qed auto

lemma sequential_interleaved: "foldR (\<lambda>as. run_actions as l) hs s = Inr s' \<Longrightarrow> interleaved l hs s s'"
  using sequential_run [of l hs s s' "[]"] by (simp add: interleaved_def all_ended_def)

section \<open>Invariants of all orders\<close>

text \<open>\<open>c i\<close> is the number of actions that handler \<open>i\<close> has done.\<close>

definition at_counts :: "('l, 's) action list list \<Rightarrow> (nat \<Rightarrow> nat) \<Rightarrow> ('l, 's) waiting list \<Rightarrow> bool" where
  "at_counts hs c ts \<longleftrightarrow> length ts = length hs \<and> (\<forall>i < length hs. c i \<le> length (hs ! i) \<and> (\<exists>l. ts ! i = (l, drop (c i) (hs ! i))))"

lemma interleave_invariant:
  assumes step: "\<And>c s i l l' s'. I c s \<Longrightarrow> i < length hs \<Longrightarrow> c i < length (hs ! i) \<Longrightarrow> (hs ! i ! c i) l s = Inr (l', s') \<Longrightarrow> I (c(i := Suc (c i))) s'"
    and run: "interleave_step\<^sup>*\<^sup>* (ts, s) (ts', s')" and c: "at_counts hs c ts" "I c s"
  shows "\<exists>c'. at_counts hs c' ts' \<and> I c' s'"
  using run
proof (induction rule: rtranclp_induct2)
  case refl
  then show ?case using c by blast
next
  case (step ts1 s1 ts2 s2)
  then obtain c1 where c1: "at_counts hs c1 ts1" "I c1 s1" by blast
  from step.hyps(2) show ?case
  proof cases
    case (Action i l a as l')
    then have i: "i < length hs" using c1(1) by (simp add: at_counts_def)
    then have d: "drop (c1 i) (hs ! i) = a # as" using c1(1) Action by (fastforce simp: at_counts_def)
    then have n: "c1 i < length (hs ! i)" "hs ! i ! c1 i = a" "as = drop (Suc (c1 i)) (hs ! i)"
      by (metis drop_eq_Nil linorder_not_less list.distinct(1), metis drop_eq_Nil hd_drop_conv_nth linorder_not_less list.distinct(1) list.sel(1),
          metis drop_Suc list.sel(3) tl_drop)
    have "I (c1(i := Suc (c1 i))) s2" using assms(1) [OF c1(2) i n(1)] n(2) Action by simp
    moreover have "at_counts hs (c1(i := Suc (c1 i))) ts2"
      using c1(1) n i Action by (auto simp: at_counts_def nth_list_update)
    ultimately show ?thesis by blast
  qed
qed

lemma interleaved_invariant:
  assumes "\<And>c s i l l' s'. I c s \<Longrightarrow> i < length hs \<Longrightarrow> c i < length (hs ! i) \<Longrightarrow> (hs ! i ! c i) l s = Inr (l', s') \<Longrightarrow> I (c(i := Suc (c i))) s'"
    and "interleaved l hs s s'" and "I (\<lambda>_. 0) s"
  shows "\<exists>c. (\<forall>i < length hs. c i = length (hs ! i)) \<and> I c s'"
proof -
  obtain ts where ts: "interleave_step\<^sup>*\<^sup>* (map (Pair l) hs, s) (ts, s')" "all_ended ts" using assms(2) by (auto simp: interleaved_def)
  have start: "at_counts hs (\<lambda>_. 0) (map (Pair l) hs)" by (simp add: at_counts_def)
  have "\<exists>c. at_counts hs c ts \<and> I c s'"
    by (rule interleave_invariant [where I = I and hs = hs, OF _ ts(1) start assms(3)]) (rule assms(1))
  then obtain c where c: "at_counts hs c ts" "I c s'" by blast
  have "c i = length (hs ! i)" if i: "i < length hs" for i
  proof -
    obtain l' where l': "ts ! i = (l', drop (c i) (hs ! i))" "c i \<le> length (hs ! i)" using c(1) i by (auto simp: at_counts_def)
    have "ts ! i \<in> set ts" using c(1) i by (simp add: at_counts_def)
    then have "drop (c i) (hs ! i) = []" using ts(2) l'(1) by (auto simp: all_ended_def list_all_iff)
    then show ?thesis using l'(2) by simp
  qed
  then show ?thesis using c(2) by blast
qed

end
