(* ===== verification/Swap_Process.thy ===== *)
theory Swap_Process
  imports Token_Processors Interleaving
begin

text \<open>
  Swaps of a block, \<^verbatim>\<open>indexer/utils/swapProcess.js\<close> with the fee growth of
  \<^verbatim>\<open>indexer/utils/priceFormatter.js\<close>: the swap events of a block go into the volume table, the
  pools and the last prices are updated; when the block is deleted the same events are undone.
  The code starts the handlers of the events of a block together and lets them interleave where they wait: \<open>swap_handler\<close> is one
  of them as a list of actions and \<open>swaps_interleaved\<close> what all their orders lead to. In \<open>process_swaps\<close>, which the jobs
  of the index use, they run one after the other, which is one of these orders.
\<close>

section \<open>Fee growth\<close>

definition Q128 :: int where "Q128 = 2 ^ 128"

text \<open>Division of bigints rounds towards zero; a zero divisor is a \<^verbatim>\<open>RangeError\<close>.\<close>

definition big_div :: "int \<Rightarrow> int \<Rightarrow> int result" where
  "big_div a b = (if b = 0 then Inl RangeError else Inr (a sdiv b))"

definition encodeFeeGrowth :: "jsval \<Rightarrow> jsval \<Rightarrow> string result" where
  "encodeFeeGrowth feeGrowth liquidity =
     bindR (js_BigInt feeGrowth) (\<lambda>f. bindR (js_BigInt liquidity) (\<lambda>l. bindR (big_div (f * Q128) l) (\<lambda>n. Inr (show_int n))))"

definition decodeFeeGrowth :: "jsval \<Rightarrow> jsval \<Rightarrow> string result" where
  "decodeFeeGrowth feeGrowthX128 liquidity =
     bindR (js_BigInt feeGrowthX128) (\<lambda>f. bindR (js_BigInt liquidity) (\<lambda>l. bindR (big_div (f * l) Q128) (\<lambda>n. Inr (show_int n))))"

section \<open>Swap events\<close>

text \<open>\<open>quote_price a b d\<close> is the answer of the price quoter, \<open>treasury\<close> that of
  \<^verbatim>\<open>getTreasuryAddress\<close>.\<close>

record swap_env = token_env +
  getKLYTokenID :: string
  treasury :: "string option"
  quote_price :: "string \<Rightarrow> string \<Rightarrow> db \<Rightarrow> jsval result"

definition EXCLUDED_ADDRESS :: "jsval list" where
  "EXCLUDED_ADDRESS = [JStr ''klywcryfecu7yyyggmuyqcetwxzgnz73ra5hf8cde'', JStr ''klyo5pdmf2zvezocqfyoejt37so5myqzqxfdke6go'']"

text \<open>\<^verbatim>\<open>event.topics[1]\<close>\<close>

definition swap_pool :: "event \<Rightarrow> jsval result" where
  "swap_pool e = (case ev_topics e of None \<Rightarrow> Inl TypeError | Some (_ # p # _) \<Rightarrow> Inr (JStr p) | Some _ \<Rightarrow> Inr JUndefined)"

definition set_add :: "'a \<Rightarrow> 'a list \<Rightarrow> 'a list" where
  "set_add x xs = (if x \<in> set xs then xs else xs @ [x])"

definition swap_addresses :: "swap_env \<Rightarrow> event \<Rightarrow> jsval list \<Rightarrow> jsval list result" where
  "swap_addresses env e acc =
     (let acc = (if data e ''senderAddress'' \<notin> set EXCLUDED_ADDRESS then set_add (data e ''senderAddress'') acc else acc);
          acc = (if data e ''recipientAddress'' \<notin> set EXCLUDED_ADDRESS then set_add (data e ''recipientAddress'') acc else acc)
      in bindR (swap_pool e) (\<lambda>p.
           Inr (case treasury env of Some a \<Rightarrow> set_add (JStr a) (set_add p acc) | None \<Rightarrow> set_add p acc)))"

definition fee_growth :: "event \<Rightarrow> string \<Rightarrow> string result" where
  "fee_growth e c =
     bindR (js_BigInt (data e c)) (\<lambda>a. bindR (js_BigInt (data e (c @ ''Before''))) (\<lambda>b.
       decodeFeeGrowth (JStr (show_int (a - b))) (data e ''liquidity'')))"

definition volume_row :: "block \<Rightarrow> string \<Rightarrow> event \<Rightarrow> row result" where
  "volume_row blockHeader poolAddress e =
     bindR (fee_growth e ''feeGrowthGlobal0X128'') (\<lambda>f0. bindR (fee_growth e ''feeGrowthGlobal1X128'') (\<lambda>f1.
       Inr [(''height'', JNum (ev_height e)), (''index'', JNum (ev_index e)), (''poolAddress'', JStr poolAddress),
            (''sender'', data e ''senderAddress''), (''recipient'', data e ''recipientAddress''),
            (''time'', JNum (bl_timestamp blockHeader)), (''amount0'', data e ''amount0''), (''amount1'', data e ''amount1''),
            (''feeGrowth0'', JStr f0), (''feeGrowth1'', JStr f1)]))"

definition update_pool :: "string \<Rightarrow> string \<Rightarrow> string \<Rightarrow> jsval \<Rightarrow> jsval \<Rightarrow> jsval \<Rightarrow> istate \<Rightarrow> istate result" where
  "update_pool a b f price tick liquidity =
     with_db (update_tbl poolTableSchema [(''token0'', PVal (JStr a)), (''token1'', PVal (JStr b)), (''fee'', PVal (JStr f))]
       [(''price'', price), (''tick'', tick), (''liquidity'', liquidity)] False)"

definition update_last_price :: "swap_env \<Rightarrow> string \<Rightarrow> istate \<Rightarrow> istate result" where
  "update_last_price env tokenId st =
     (if tokenId = getKLYTokenID env then Inr st
      else bindR (quote_price env tokenId (getKLYTokenID env) (st_db st)) (\<lambda>price.
           with_db (update_tbl lastPriceTableSchema [(''tokenId'', PVal (JStr tokenId))] [(''current'', price)] False) st))"

text \<open>One event: \<open>write\<close> puts the volume row or deletes it, \<open>suffix\<close> chooses the values after or
  (\<^verbatim>\<open>Before\<close>) before the swap.\<close>

definition swap_event :: "(row \<Rightarrow> db \<Rightarrow> db result) \<Rightarrow> string \<Rightarrow> swap_env \<Rightarrow> block \<Rightarrow> event \<Rightarrow> istate \<Rightarrow> istate result" where
  "swap_event write suffix env blockHeader e st =
     bindR (swap_pool e) (\<lambda>p. case p of JStr poolAddress \<Rightarrow>
       bindR (decodePoolAddress (getAddressFromKlayr32Address env) (AStr poolAddress)) (\<lambda>poolKey.
       bindR (token_row (token0 poolKey) [''symbol'', ''decimal''] True (st_db st)) (\<lambda>t0.
       bindR (token_row (token1 poolKey) [''symbol'', ''decimal''] True (st_db st)) (\<lambda>t1.
       bindR (volume_row blockHeader poolAddress e) (\<lambda>v.
       bindR (with_db (write v) st) (\<lambda>st.
       bindR (deref t0) (\<lambda>r0. bindR (deref t1) (\<lambda>r1.
       let tick = data e (''tick'' @ suffix); liquidity = data e (''liquidity'' @ suffix);
           price = getPriceAtTick (env.truncate env) tick (row_get r0 ''decimal'') (row_get r1 ''decimal'') in
       bindR (update_pool (token0 poolKey) (token1 poolKey) (fee poolKey) (price False) tick liquidity st) (\<lambda>st.
       bindR (update_pool (token1 poolKey) (token0 poolKey) (fee poolKey) (price True) tick liquidity st) (\<lambda>st.
       bindR (update_last_price env (token0 poolKey) st)
         (update_last_price env (token1 poolKey)))))))))))
     | _ \<Rightarrow> Inl TypeError)"

definition process_swaps :: "(row \<Rightarrow> db \<Rightarrow> db result) \<Rightarrow> string \<Rightarrow> swap_env \<Rightarrow> block \<Rightarrow> event option list \<Rightarrow> istate \<Rightarrow> istate result" where
  "process_swaps write suffix env blockHeader events st =
     bindR (parseEvents events ''dex'' ''swap'' None) (\<lambda>swapEvent.
     bindR (foldR (swap_addresses env) swapEvent []) (\<lambda>addressToIndex.
     bindR (foldR (swap_event write suffix env blockHeader) swapEvent st) (\<lambda>st.
       Inr (fold indexAccountAddress addressToIndex st))))"

definition applySwapEvent :: "swap_env \<Rightarrow> block \<Rightarrow> event option list \<Rightarrow> istate \<Rightarrow> istate result" where
  "applySwapEvent = process_swaps (\<lambda>v. upsert volumeTableSchema [v] True) ''''"

definition revertSwapEvent :: "swap_env \<Rightarrow> block \<Rightarrow> event option list \<Rightarrow> istate \<Rightarrow> istate result" where
  "revertSwapEvent = process_swaps (\<lambda>v. deleteByParams volumeTableSchema (row_params v) True) ''Before''"


section \<open>Laws of the fee growth\<close>

text \<open>
  Fee growth survives its fixed-point encoding up to one unit. For a non-negative amount of fees
  and a positive liquidity of at most 128 bits, the fees per unit of liquidity, encoded with
  128 fractional bits and decoded again, are the original amount or one less.
\<close>

theorem fee_growth_roundtrip:
  assumes "0 \<le> f" and l: "0 < l" "l \<le> 2 ^ 128"
  shows "\<exists>x n. encodeFeeGrowth (JBig f) (JBig l) = Inr x \<and> decodeFeeGrowth (JStr x) (JBig l) = Inr (show_int n) \<and> f - 1 \<le> n \<and> n \<le> f"
proof -
  let ?x = "f * Q128 div l"
  let ?n = "?x * l div Q128"
  have Q: "0 < Q128" "l \<le> Q128" using l by (simp_all add: Q128_def)
  have x0: "0 \<le> ?x" using assms Q by (simp add: pos_imp_zdiv_nonneg_iff)
  have xl: "?x * l = f * Q128 - f * Q128 mod l" using div_mult_mod_eq [of "f * Q128" l] by linarith
  have m: "0 \<le> f * Q128 mod l" "f * Q128 mod l < l" using l by simp_all
  have "?n \<le> f * Q128 div Q128" using xl m Q by (intro zdiv_mono1) auto
  moreover have "(f - 1) * Q128 div Q128 \<le> ?n"
  proof (rule zdiv_mono1)
    have "(f - 1) * Q128 = f * Q128 - Q128" by (simp add: algebra_simps)
    then show "(f - 1) * Q128 \<le> ?x * l" using xl m Q by linarith
  qed (rule Q)
  ultimately have n: "f - 1 \<le> ?n" "?n \<le> f" using Q by simp_all
  have "encodeFeeGrowth (JBig f) (JBig l) = Inr (show_int ?x)"
    using l assms Q by (simp add: encodeFeeGrowth_def big_div_def sdiv_pos)
  moreover have "decodeFeeGrowth (JStr (show_int ?x)) (JBig l) = Inr (show_int ?n)"
    using l x0 Q by (simp add: decodeFeeGrowth_def big_div_def sdiv_pos)
  ultimately show ?thesis using n by blast
qed

section \<open>The pools after the swaps of a block\<close>

definition pool_where :: "string \<Rightarrow> string \<Rightarrow> string \<Rightarrow> row" where
  "pool_where a b f = [(''token0'', JStr a), (''token1'', JStr b), (''fee'', JStr f)]"

definition pool_updates :: "jsval \<Rightarrow> jsval \<Rightarrow> jsval \<Rightarrow> row" where
  "pool_updates price tick liquidity = filter (\<lambda>(c, v). v \<noteq> JUndefined) [(''price'', price), (''tick'', tick), (''liquidity'', liquidity)]"

lemma update_pool_stmt:
  "update_pool a b f price tick liquidity st =
     Inr (st\<lparr>st_db := run_stmt ''pool'' False (sql_update (eq_cond (pool_where a b f)) (pool_updates price tick liquidity)) (st_db st)\<rparr>)"
proof -
  have "queryBuilder False [(''token0'', PVal (JStr a)), (''token1'', PVal (JStr b)), (''fee'', PVal (JStr f))] = Inr (eq_cond (pool_where a b f))"
    by (simp add: find_query_simps pool_where_def)
  moreover have "tableName poolTableSchema = ''pool''" by (simp add: poolTableSchema_def)
  ultimately show ?thesis by (simp add: update_pool_def update_tbl_def with_db_def pool_updates_def pool_where_def)
qed


lemma fee_growth_example: "encodeFeeGrowth (JBig 5) (JBig 3) = Inr (show_int (5 * 2 ^ 128 div 3))"
  by (simp add: encodeFeeGrowth_def big_div_def sdiv_pos Q128_def)

theorem fee_growth_roundtrip_witness:
  "\<exists>x n. encodeFeeGrowth (JBig 5) (JBig 3) = Inr x \<and> decodeFeeGrowth (JStr x) (JBig 3) = Inr (show_int n) \<and> 4 \<le> n \<and> n \<le> 5"
  using fee_growth_roundtrip [of 5 3] by auto

lemma bindR_InrE: "bindR x f = Inr b \<Longrightarrow> (\<And>a. x = Inr a \<Longrightarrow> f a = Inr b \<Longrightarrow> thesis) \<Longrightarrow> thesis"
  by (auto simp: bindR_eq_Inr)

lemma update_last_price_keeps: "keeps ''pool'' st (update_last_price env tok st)"
  unfolding update_last_price_def by (intro keep_rules keep_bind refl) (simp add: lastPriceTableSchema_def)

lemma row_get_merge_new: "map_of ups c = Some v \<Longrightarrow> map_of r c \<noteq> None \<Longrightarrow> row_get (merge_row r ups) c = v"
  by (auto simp: row_get_def map_of_merge_row)

lemma pool_updates_cells:
  "c \<notin> {''price'', ''tick'', ''liquidity''} \<Longrightarrow> map_of (pool_updates p t l) c = None"
  "t \<noteq> JUndefined \<Longrightarrow> map_of (pool_updates p t l) ''tick'' = Some t"
  "l \<noteq> JUndefined \<Longrightarrow> map_of (pool_updates p t l) ''liquidity'' = Some l"
  by (simp_all add: pool_updates_def)

lemma pool_where_merge: "eq_cond (pool_where a b f) (merge_row r (pool_updates p t l)) = eq_cond (pool_where a b f) r"
  by (simp add: eq_cond_def pool_where_def row_get_merge_other pool_updates_cells)

lemma pool_updated:
  assumes "t \<noteq> JUndefined" "l \<noteq> JUndefined" "map_of r ''tick'' \<noteq> None" "map_of r ''liquidity'' \<noteq> None"
  shows "row_get (merge_row r (pool_updates p t l)) ''tick'' = t" "row_get (merge_row r (pool_updates p t l)) ''liquidity'' = l"
    "map_of (merge_row r (pool_updates p t l)) ''tick'' \<noteq> None" "map_of (merge_row r (pool_updates p t l)) ''liquidity'' \<noteq> None"
  using assms row_get_merge_new pool_updates_cells by (auto simp: map_of_merge_row)

lemma st_db_fold_index [simp]: "st_db (fold indexAccountAddress as st) = st_db st"
  by (induction as arbitrary: st) simp_all

lemma keep_volume: "db_keeps ''pool'' (upsert volumeTableSchema rs trx)" "db_keeps ''pool'' (deleteByParams volumeTableSchema ps trx)"
  "db_keeps ''registered_dex_token'' (upsert volumeTableSchema rs trx)" "db_keeps ''registered_dex_token'' (deleteByParams volumeTableSchema ps trx)"
  by (intro keep_rules; simp add: volumeTableSchema_def)+

section \<open>Handlers that interleave\<close>

text \<open>The variables of a handler that it sets before one wait and uses after another.\<close>

record swap_locals =
  sl_t0 :: "row option"
  sl_t1 :: "row option"
  sl_price :: jsval

definition swap_locals0 :: swap_locals where
  "swap_locals0 = \<lparr>sl_t0 = None, sl_t1 = None, sl_price = JUndefined\<rparr>"

definition pool_action :: "swap_env \<Rightarrow> event \<Rightarrow> string \<Rightarrow> pool_key \<Rightarrow> bool \<Rightarrow> (swap_locals, istate) action" where
  "pool_action env e suffix poolKey inverted l st =
     bindR (deref (sl_t0 l)) (\<lambda>r0. bindR (deref (sl_t1 l)) (\<lambda>r1.
     let tick = data e (''tick'' @ suffix); liquidity = data e (''liquidity'' @ suffix);
         price = getPriceAtTick (env.truncate env) tick (row_get r0 ''decimal'') (row_get r1 ''decimal'') inverted in
     bindR (if inverted then update_pool (token1 poolKey) (token0 poolKey) (fee poolKey) price tick liquidity st
            else update_pool (token0 poolKey) (token1 poolKey) (fee poolKey) price tick liquidity st) (\<lambda>st. Inr (l, st))))"

definition quote_action :: "swap_env \<Rightarrow> string \<Rightarrow> (swap_locals, istate) action" where
  "quote_action env tokenId l st =
     (if tokenId = getKLYTokenID env then Inr (l, st)
      else bindR (quote_price env tokenId (getKLYTokenID env) (st_db st)) (\<lambda>price. Inr (l\<lparr>sl_price := price\<rparr>, st)))"

definition last_price_action :: "swap_env \<Rightarrow> string \<Rightarrow> (swap_locals, istate) action" where
  "last_price_action env tokenId l st =
     (if tokenId = getKLYTokenID env then Inr (l, st)
      else bindR (with_db (update_tbl lastPriceTableSchema [(''tokenId'', PVal (JStr tokenId))] [(''current'', sl_price l)] False) st) (\<lambda>st. Inr (l, st)))"

definition swap_actions :: "(row \<Rightarrow> db \<Rightarrow> db result) \<Rightarrow> string \<Rightarrow> swap_env \<Rightarrow> block \<Rightarrow> event \<Rightarrow> string \<Rightarrow> pool_key \<Rightarrow> (swap_locals, istate) action list" where
  "swap_actions write suffix env blockHeader e poolAddress poolKey =
     [\<lambda>l st. bindR (token_row (token0 poolKey) [''symbol'', ''decimal''] True (st_db st)) (\<lambda>t0. Inr (l\<lparr>sl_t0 := t0\<rparr>, st)),
      \<lambda>l st. bindR (token_row (token1 poolKey) [''symbol'', ''decimal''] True (st_db st)) (\<lambda>t1. Inr (l\<lparr>sl_t1 := t1\<rparr>, st)),
      \<lambda>l st. bindR (volume_row blockHeader poolAddress e) (\<lambda>v. bindR (with_db (write v) st) (\<lambda>st. Inr (l, st))),
      pool_action env e suffix poolKey False, pool_action env e suffix poolKey True,
      quote_action env (token0 poolKey), last_price_action env (token0 poolKey),
      quote_action env (token1 poolKey), last_price_action env (token1 poolKey)]"

definition swap_handler :: "(row \<Rightarrow> db \<Rightarrow> db result) \<Rightarrow> string \<Rightarrow> swap_env \<Rightarrow> block \<Rightarrow> event \<Rightarrow> (swap_locals, istate) action list result" where
  "swap_handler write suffix env blockHeader e =
     bindR (swap_pool e) (\<lambda>p. case p of JStr poolAddress \<Rightarrow>
       bindR (decodePoolAddress (getAddressFromKlayr32Address env) (AStr poolAddress)) (\<lambda>poolKey.
         Inr (swap_actions write suffix env blockHeader e poolAddress poolKey))
     | _ \<Rightarrow> Inl TypeError)"

lemma swap_event_alone:
  "swap_event write suffix env b e st = bindR (swap_handler write suffix env b e) (\<lambda>as. run_actions as swap_locals0 st)"
proof -
  have last: "bindR (quote_action env t l st) (\<lambda>(l, st). run_actions (last_price_action env t # as) l st) = bindR (update_last_price env t st)
      (run_actions as (if t = getKLYTokenID env then l else l\<lparr>sl_price := projr (quote_price env t (getKLYTokenID env) (st_db st))\<rparr>))" for t l st as
    by (cases "quote_price env t (getKLYTokenID env) (st_db st)") (simp_all add: quote_action_def last_price_action_def update_last_price_def bindR_assoc)
  have ends: "bindR x (run_actions [] l) = x" for x :: "istate result" and l :: swap_locals by (cases x) simp_all
  have "bindR (update_last_price env t st) (update_last_price env u) = bindR (quote_action env t l st) (\<lambda>(l, st).
      run_actions [last_price_action env t, quote_action env u, last_price_action env u] l st)" for t u l st
    unfolding last by (rule bindR_cong [OF refl]) (simp only: run_actions.simps(2) last ends)
  note last2 = this
  show ?thesis
    unfolding swap_event_def swap_handler_def bindR_assoc
    by (rule bindR_cong [OF refl])
      (auto simp: swap_actions_def pool_action_def bindR_assoc last2 swap_locals0_def Let_def split: jsval.splits intro!: bindR_cong)
qed

definition swaps_interleaved :: "(row \<Rightarrow> db \<Rightarrow> db result) \<Rightarrow> string \<Rightarrow> swap_env \<Rightarrow> block \<Rightarrow> event option list \<Rightarrow> istate \<Rightarrow> istate \<Rightarrow> bool" where
  "swaps_interleaved write suffix env blockHeader events st st' \<longleftrightarrow>
     (\<exists>swapEvent addressToIndex handlers st1. parseEvents events ''dex'' ''swap'' None = Inr swapEvent
        \<and> foldR (swap_addresses env) swapEvent [] = Inr addressToIndex
        \<and> mapR (swap_handler write suffix env blockHeader) swapEvent = Inr handlers
        \<and> interleaved swap_locals0 handlers st st1 \<and> st' = fold indexAccountAddress addressToIndex st1)"

definition applySwapEvent_interleaved :: "swap_env \<Rightarrow> block \<Rightarrow> event option list \<Rightarrow> istate \<Rightarrow> istate \<Rightarrow> bool" where
  "applySwapEvent_interleaved = swaps_interleaved (\<lambda>v. upsert volumeTableSchema [v] True) ''''"

definition revertSwapEvent_interleaved :: "swap_env \<Rightarrow> block \<Rightarrow> event option list \<Rightarrow> istate \<Rightarrow> istate \<Rightarrow> bool" where
  "revertSwapEvent_interleaved = swaps_interleaved (\<lambda>v. deleteByParams volumeTableSchema (row_params v) True) ''Before''"

lemma handlers_of_run:
  "foldR (swap_event write suffix env b) es st = Inr st' \<Longrightarrow>
     \<exists>hs. mapR (swap_handler write suffix env b) es = Inr hs \<and> foldR (\<lambda>as. run_actions as swap_locals0) hs st = Inr st'"
proof (induction es arbitrary: st)
  case (Cons e es)
  then obtain st1 where st1: "swap_event write suffix env b e st = Inr st1" "foldR (swap_event write suffix env b) es st1 = Inr st'"
    by (auto simp: bindR_eq_Inr)
  obtain as where "swap_handler write suffix env b e = Inr as" "run_actions as swap_locals0 st = Inr st1"
    using st1(1) unfolding swap_event_alone bindR_eq_Inr by blast
  then show ?case using Cons.IH [OF st1(2)] by auto
qed simp

text \<open>The order of the events is one of the orders.\<close>

lemma process_swaps_interleaved:
  "process_swaps write suffix env b events st = Inr st' \<Longrightarrow> swaps_interleaved write suffix env b events st st'"
  unfolding process_swaps_def swaps_interleaved_def using handlers_of_run [of "write" suffix env b] sequential_interleaved
  by (fastforce elim!: bindR_InrE)

section \<open>The pools after the swaps of a block\<close>

text \<open>The rows of the pool table, one for each direction, that a swap writes.\<close>

definition pool_of_swap :: "swap_env \<Rightarrow> event \<Rightarrow> row \<Rightarrow> bool" where
  "pool_of_swap env e r = (case swap_pool e of
     Inr (JStr pa) \<Rightarrow> (case decodePoolAddress (getAddressFromKlayr32Address env) (AStr pa) of
        Inr key \<Rightarrow> eq_cond (pool_where (token0 key) (token1 key) (fee key)) r \<or> eq_cond (pool_where (token1 key) (token0 key) (fee key)) r
      | Inl _ \<Rightarrow> False)
   | _ \<Rightarrow> False)"

text \<open>The tick and the liquidity of a swap in a row that differs from the old one in nothing else but the price.\<close>

definition shows_swap :: "string \<Rightarrow> event \<Rightarrow> row \<Rightarrow> bool" where
  "shows_swap suffix e r \<longleftrightarrow> row_get r ''tick'' = data e (''tick'' @ suffix) \<and> row_get r ''liquidity'' = data e (''liquidity'' @ suffix)"

definition same_pool :: "row \<Rightarrow> row \<Rightarrow> bool" where
  "same_pool r r' \<longleftrightarrow> map fst r' = map fst r \<and> (\<forall>c. c \<notin> {''price'', ''tick'', ''liquidity''} \<longrightarrow> row_get r' c = row_get r c)"

definition pools_after_swaps :: "swap_env \<Rightarrow> string \<Rightarrow> event list \<Rightarrow> table \<Rightarrow> table \<Rightarrow> bool" where
  "pools_after_swaps env suffix es t t' \<longleftrightarrow> list_all2 (\<lambda>r r'. same_pool r r' \<and>
     (if list_ex (\<lambda>e. pool_of_swap env e r) es then list_ex (\<lambda>e. pool_of_swap env e r \<and> shows_swap suffix e r') es else r' = r)) t t'"

lemma pool_where_same: "same_pool r r' \<Longrightarrow> eq_cond (pool_where a b f) r' = eq_cond (pool_where a b f) r"
  by (simp add: eq_cond_def pool_where_def same_pool_def)

text \<open>What the actions do to the table: only the fourth and the fifth write to it.\<close>

definition writes_row :: "pool_key \<Rightarrow> nat \<Rightarrow> row \<Rightarrow> bool" where
  "writes_row key n r \<longleftrightarrow> n = 3 \<and> eq_cond (pool_where (token0 key) (token1 key) (fee key)) r
     \<or> n = 4 \<and> eq_cond (pool_where (token1 key) (token0 key) (fee key)) r"

lemma action_pool:
  assumes w: "\<And>v. db_keeps ''pool'' (write v)" and n: "n < length (swap_actions write suffix env b e pa key)"
    and run: "(swap_actions write suffix env b e pa key ! n) l st = Inr (l', st')"
  shows "\<exists>p. committed (st_db st') ''pool'' = map (\<lambda>r. if writes_row key n r
     then merge_row r (pool_updates p (data e (''tick'' @ suffix)) (data e (''liquidity'' @ suffix))) else r) (committed (st_db st) ''pool'')"
proof -
  have upd: "\<exists>p. committed (st_db st') ''pool'' = sql_update (eq_cond (if inv then pool_where (token1 key) (token0 key) (fee key) else pool_where (token0 key) (token1 key) (fee key)))
       (pool_updates p (data e (''tick'' @ suffix)) (data e (''liquidity'' @ suffix))) (committed (st_db st) ''pool'')"
    if "pool_action env e suffix key inv l st = Inr (l', st')" for inv
    using that unfolding pool_action_def Let_def update_pool_stmt by (cases inv) (auto simp: bindR_eq_Inr)
  have pool: ?thesis if "n = 3" "pool_action env e suffix key False l st = Inr (l', st')"
    using upd [OF that(2)] that(1) by (simp add: sql_update_def writes_row_def del: append.simps)
  have inv: ?thesis if "n = 4" "pool_action env e suffix key True l st = Inr (l', st')"
    using upd [OF that(2)] that(1) by (simp add: sql_update_def writes_row_def del: append.simps)
  have same: ?thesis if "n \<noteq> 3" "n \<noteq> 4" "same_table ''pool'' (st_db st) (st_db st')" using that by (simp add: same_table_def writes_row_def)
  have vol: "same_table ''pool'' (st_db st) (st_db st1)" if "with_db (write v) st = Inr st1" for v st1
    using keep_with_db [OF refl w, of st v] that by (simp add: keeps_def)
  have last: "same_table ''pool'' (st_db st) (st_db st')" if "last_price_action env t l st = Inr (l', st')" for t
  proof -
    have "keeps ''pool'' st (with_db (update_tbl lastPriceTableSchema ps us False) st)" for ps us
      by (intro keep_rules refl) (simp add: lastPriceTableSchema_def)
    then show ?thesis using that by (auto simp: last_price_action_def bindR_eq_Inr keeps_def same_table_def split: if_splits)
  qed
  have quote: "st_db st' = st_db st" if "quote_action env t l st = Inr (l', st')" for t
    using that by (auto simp: quote_action_def bindR_eq_Inr split: if_splits)
  have refl: "same_table ''pool'' d d" for d by (simp add: same_table_def)
  have "n \<in> {0, 1, 2, 3, 4, 5, 6, 7, 8}" using n by (auto simp: swap_actions_def)
  then show ?thesis using run pool inv same
    by (elim insertE emptyE) (auto simp: swap_actions_def bindR_eq_Inr refl dest: vol last quote)
qed

lemma row_step:
  assumes same: "same_pool r r'" and cols: "''tick'' \<in> fst ` set r" "''liquidity'' \<in> fst ` set r"
    and def: "data e (''tick'' @ suffix) \<noteq> JUndefined" "data e (''liquidity'' @ suffix) \<noteq> JUndefined"
    and r1_def: "r1 = merge_row r' (pool_updates p (data e (''tick'' @ suffix)) (data e (''liquidity'' @ suffix)))"
  shows "same_pool r r1" "shows_swap suffix e r1"
proof -
  have "map fst r' = map fst r" using same by (simp add: same_pool_def)
  then have "fst ` set r' = fst ` set r" by (metis set_map)
  then have cs: "map_of r' ''tick'' \<noteq> None" "map_of r' ''liquidity'' \<noteq> None" using cols by (simp_all add: map_of_eq_None_iff)
  show "same_pool r r1" using same by (simp add: r1_def same_pool_def row_get_merge_other pool_updates_cells)
  show "shows_swap suffix e r1" using pool_updated [OF def cs] by (simp add: r1_def shows_swap_def)
qed

text \<open>What has been written when each handler has done the actions that \<open>c\<close> counts.\<close>

definition written :: "pool_key \<Rightarrow> nat \<Rightarrow> row \<Rightarrow> bool" where
  "written key n r \<longleftrightarrow> (\<exists>k < n. writes_row key k r)"

lemma written_Suc: "written key (Suc n) r \<longleftrightarrow> written key n r \<or> writes_row key n r"
  by (auto simp: written_def less_Suc_eq)

lemma written_all: "written key 9 r \<longleftrightarrow> eq_cond (pool_where (token0 key) (token1 key) (fee key)) r \<or> eq_cond (pool_where (token1 key) (token0 key) (fee key)) r"
  unfolding written_def writes_row_def by (auto intro: exI [of _ 3] exI [of _ 4])

lemma writes_row_same: "same_pool r r' \<Longrightarrow> writes_row key n r' = writes_row key n r"
  by (simp add: writes_row_def pool_where_same)

definition rows_inv :: "string \<Rightarrow> event list \<Rightarrow> pool_key list \<Rightarrow> table \<Rightarrow> (nat \<Rightarrow> nat) \<Rightarrow> istate \<Rightarrow> bool" where
  "rows_inv suffix es keys t c st \<longleftrightarrow> list_all2 (\<lambda>r r'. same_pool r r' \<and>
     (r' = r \<and> (\<forall>i < length es. \<not> written (keys ! i) (c i) r) \<or>
      (\<exists>i < length es. written (keys ! i) (c i) r \<and> shows_swap suffix (es ! i) r'))) t (committed (st_db st) ''pool'')"

lemma rows_inv_step:
  assumes w: "\<And>v. db_keeps ''pool'' (write v)" and wf: "table_wf poolTableSchema t" and inv: "rows_inv suffix es keys t c st"
    and i: "i < length es" and def: "data (es ! i) (''tick'' @ suffix) \<noteq> JUndefined" "data (es ! i) (''liquidity'' @ suffix) \<noteq> JUndefined"
    and n: "c i < length (swap_actions write suffix env b (es ! i) pa (keys ! i))"
    and run: "(swap_actions write suffix env b (es ! i) pa (keys ! i) ! c i) l st = Inr (l', st')"
  shows "rows_inv suffix es keys t (c(i := Suc (c i))) st'"
proof -
  let ?k = "keys ! i" and ?tick = "data (es ! i) (''tick'' @ suffix)" and ?liq = "data (es ! i) (''liquidity'' @ suffix)"
  obtain p where p: "committed (st_db st') ''pool'' = map (\<lambda>r. if writes_row ?k (c i) r then merge_row r (pool_updates p ?tick ?liq) else r) (committed (st_db st) ''pool'')"
    using action_pool [OF w n run] by blast
  have row: "same_pool r r1 \<and> (r1 = r \<and> (\<forall>j < length es. \<not> written (keys ! j) ((c(i := Suc (c i))) j) r) \<or>
      (\<exists>j < length es. written (keys ! j) ((c(i := Suc (c i))) j) r \<and> shows_swap suffix (es ! j) r1))"
    if r: "r \<in> set t" "same_pool r r'" "r' = r \<and> (\<forall>j < length es. \<not> written (keys ! j) (c j) r) \<or> (\<exists>j < length es. written (keys ! j) (c j) r \<and> shows_swap suffix (es ! j) r')"
      and r1: "r1 = (if writes_row ?k (c i) r' then merge_row r' (pool_updates p ?tick ?liq) else r')" for r r' r1
  proof (cases "writes_row ?k (c i) r")
    case True
    have "row_wf poolTableSchema r" using wf r(1) by (rule row_wf_of)
    then have "fst ` set r = set (map col_name (schema poolTableSchema))" by (metis row_wf_def set_map)
    then have cols: "''tick'' \<in> fst ` set r" "''liquidity'' \<in> fst ` set r" by (simp_all add: poolTableSchema_def mk_col_def)
    have "r1 = merge_row r' (pool_updates p ?tick ?liq)" using r1 True writes_row_same [OF r(2)] by simp
    then have "same_pool r r1" "shows_swap suffix (es ! i) r1" using row_step [OF r(2) cols def] by blast+
    moreover have "written ?k ((c(i := Suc (c i))) i) r" using True by (simp add: written_Suc)
    ultimately show ?thesis using i by blast
  next
    case False
    then have "r1 = r'" using r1 writes_row_same [OF r(2)] by simp
    moreover have "written (keys ! j) ((c(i := Suc (c i))) j) r = written (keys ! j) (c j) r" for j using False by (simp add: written_Suc)
    ultimately show ?thesis using r(2,3) by simp
  qed
  show ?thesis unfolding rows_inv_def p list.rel_map
    by (rule list.rel_mono_strong [OF inv [unfolded rows_inv_def]]) (rule row, simp_all)
qed

lemma handler_keys:
  "mapR (swap_handler write suffix env b) es = Inr hs \<Longrightarrow> \<exists>pas keys. length keys = length es \<and> length hs = length es \<and>
     (\<forall>i < length es. hs ! i = swap_actions write suffix env b (es ! i) (pas ! i) (keys ! i) \<and> swap_pool (es ! i) = Inr (JStr (pas ! i))
        \<and> decodePoolAddress (getAddressFromKlayr32Address env) (AStr (pas ! i)) = Inr (keys ! i))"
proof (induction es arbitrary: hs)
  case (Cons e es)
  then obtain h hs' where h: "swap_handler write suffix env b e = Inr h" "mapR (swap_handler write suffix env b) es = Inr hs'" "hs = h # hs'"
    by (auto simp: bindR_eq_Inr)
  obtain p where p: "swap_pool e = Inr p" using h(1) unfolding swap_handler_def by (elim bindR_InrE)
  then obtain pa key where k: "p = JStr pa" "decodePoolAddress (getAddressFromKlayr32Address env) (AStr pa) = Inr key" "h = swap_actions write suffix env b e pa key"
    using h(1) by (cases p) (auto simp: swap_handler_def bindR_eq_Inr)
  obtain pas keys where "length keys = length es" "length hs' = length es" "\<forall>i < length es. hs' ! i = swap_actions write suffix env b (es ! i) (pas ! i) (keys ! i)
      \<and> swap_pool (es ! i) = Inr (JStr (pas ! i)) \<and> decodePoolAddress (getAddressFromKlayr32Address env) (AStr (pas ! i)) = Inr (keys ! i)"
    using Cons.IH [OF h(2)] by blast
  then show ?case using p k h(3) by (intro exI [of _ "pa # pas"] exI [of _ "key # keys"]) (simp add: nth_Cons split: nat.split)
qed simp

lemma interleaved_pools:
  assumes w: "\<And>v. db_keeps ''pool'' (write v)" and run: "swaps_interleaved write suffix env b events st st'"
    and es: "parseEvents events ''dex'' ''swap'' None = Inr es" and wf: "table_wf poolTableSchema (committed (st_db st) ''pool'')"
    and def: "list_all (\<lambda>e. data e (''tick'' @ suffix) \<noteq> JUndefined \<and> data e (''liquidity'' @ suffix) \<noteq> JUndefined) es"
  shows "pools_after_swaps env suffix es (committed (st_db st) ''pool'') (committed (st_db st') ''pool'')"
proof -
  let ?t = "committed (st_db st) ''pool''"
  obtain hs st1 as where hs: "mapR (swap_handler write suffix env b) es = Inr hs" and il: "interleaved swap_locals0 hs st st1"
    and st': "st' = fold indexAccountAddress as st1" using run es by (auto simp: swaps_interleaved_def)
  obtain pas keys where k: "length keys = length es" "length hs = length es" "\<And>i. i < length es \<Longrightarrow> hs ! i = swap_actions write suffix env b (es ! i) (pas ! i) (keys ! i)
      \<and> swap_pool (es ! i) = Inr (JStr (pas ! i)) \<and> decodePoolAddress (getAddressFromKlayr32Address env) (AStr (pas ! i)) = Inr (keys ! i)"
    using handler_keys [OF hs] by blast
  have start: "rows_inv suffix es keys ?t (\<lambda>_. 0) st" by (simp add: rows_inv_def list.rel_refl written_def same_pool_def)
  have "\<exists>c. (\<forall>i < length hs. c i = length (hs ! i)) \<and> rows_inv suffix es keys ?t c st1"
  proof (rule interleaved_invariant [where I = "rows_inv suffix es keys ?t" and hs = hs, OF _ il start])
    fix c s i l l' s'
    assume a: "rows_inv suffix es keys ?t c s" "i < length hs" "c i < length (hs ! i)" "(hs ! i ! c i) l s = Inr (l', s')"
    have i: "i < length es" using a(2) k(2) by simp
    then have d: "data (es ! i) (''tick'' @ suffix) \<noteq> JUndefined" "data (es ! i) (''liquidity'' @ suffix) \<noteq> JUndefined"
      using def unfolding list_all_length by blast+
    show "rows_inv suffix es keys ?t (c(i := Suc (c i))) s'"
      using rows_inv_step [OF w wf a(1) i d] k(3) [OF i] a(3,4) by auto
  qed
  then obtain c where c': "\<forall>i < length hs. c i = length (hs ! i)" "rows_inv suffix es keys ?t c st1" by blast
  have "length (hs ! i) = 9" if "i < length es" for i using k(3) [OF that] by (simp add: swap_actions_def)
  then have c: "\<And>i. i < length es \<Longrightarrow> c i = 9" "rows_inv suffix es keys ?t c st1" using c' k(2) by simp_all
  have pool: "written (keys ! i) (c i) r \<longleftrightarrow> pool_of_swap env (es ! i) r" if "i < length es" for i r
    using k(3) [OF that] c(1) [OF that] by (simp add: pool_of_swap_def written_all)
  show ?thesis unfolding pools_after_swaps_def st' st_db_fold_index
    by (rule list.rel_mono_strong [OF c(2) [unfolded rows_inv_def]]) (auto simp: pool list_ex_length)
qed


text \<open>
  The pools after the swaps of a deleted block are undone, in whatever order the handlers interleave: a row whose pool is swapped in the block holds the
  tick and the liquidity from before one of these swaps, not necessarily from before the first of them.
\<close>

theorem reverted_swaps_pools:
  assumes "revertSwapEvent_interleaved env b events st st'" and "parseEvents events ''dex'' ''swap'' None = Inr es"
    and "table_wf poolTableSchema (committed (st_db st) ''pool'')"
    and "list_all (\<lambda>e. data e ''tickBefore'' \<noteq> JUndefined \<and> data e ''liquidityBefore'' \<noteq> JUndefined) es"
  shows "pools_after_swaps env ''Before'' es (committed (st_db st) ''pool'') (committed (st_db st') ''pool'')"
  using interleaved_pools [OF keep_volume(2) assms(1) [unfolded revertSwapEvent_interleaved_def] assms(2,3)] assms(4) by simp

text \<open>A block with two swaps in one pool: the tick goes from 1 to 5, then from 5 to 9.\<close>

definition example_swap :: "int \<Rightarrow> int \<Rightarrow> event" where
  "example_swap before after = (example_event ''swap'' [(''senderAddress'', JStr ''s''), (''recipientAddress'', JStr ''r''),
     (''amount0'', JStr ''7''), (''amount1'', JStr ''9''), (''liquidity'', JBig 10), (''liquidityBefore'', JBig 10),
     (''tick'', JNum after), (''tickBefore'', JNum before),
     (''feeGrowthGlobal0X128'', JBig 0), (''feeGrowthGlobal0X128Before'', JBig 0),
     (''feeGrowthGlobal1X128'', JBig 0), (''feeGrowthGlobal1X128Before'', JBig 0)])\<lparr>ev_topics := Some [''04ab'', example_pool]\<rparr>"

definition example_swap_env :: swap_env where
  "example_swap_env = token_env.extend example_token_env
     \<lparr>getKLYTokenID = ''0000000000000000'', treasury = None, quote_price = (\<lambda>_ _ _. Inr (JNum 1))\<rparr>"

definition example_pool_row :: "string \<Rightarrow> string \<Rightarrow> bool \<Rightarrow> row" where
  "example_pool_row a b inverted = [(''token0'', JStr a), (''token1'', JStr b), (''fee'', JNum 3000), (''inverted'', JBool inverted),
     (''created'', JNum 1), (''poolAddress'', JStr example_pool), (''collectionId'', JStr ''c''), (''feeHex'', JStr ''0bb8''),
     (''tickSpacing'', JNum 60), (''tick'', JNum 1), (''liquidity'', JBig 10), (''price'', JNum 1)]"

definition example_pools :: table where
  "example_pools = [example_pool_row ''0000000000000000'' ''0000000100000000'' False, example_pool_row ''0000000100000000'' ''0000000000000000'' True]"

definition example_swap_state :: istate where
  "example_swap_state = (let t = (committed (st_db example_state))(''pool'' := example_pools)
     in example_state\<lparr>st_db := \<lparr>committed = t, working = t\<rparr>\<rparr>)"

lemma swap_event_ok:
  assumes "swap_pool e = Inr (JStr pa)" "decodePoolAddress (getAddressFromKlayr32Address env) (AStr pa) = Inr key"
    and "token_row (token0 key) [''symbol'', ''decimal''] True (st_db st) = Inr (Some r0)"
    and "token_row (token1 key) [''symbol'', ''decimal''] True (st_db st) = Inr (Some r1)"
    and "volume_row b pa e = Inr v" and "\<And>d. \<exists>d'. write v d = Inr d'" and "\<And>x y d. quote_price env x y d = Inr p"
  shows "\<exists>st'. swap_event write suffix env b e st = Inr st'"
proof -
  obtain d' where "write v (st_db st) = Inr d'" using assms(6) by blast
  moreover have "queryBuilder False [(''tokenId'', PVal (JStr t))] = Inr (eq_cond [(''tokenId'', JStr t)])" for t
    by (simp add: find_query_simps)
  ultimately show ?thesis using assms(1-5,7)
    by (simp add: swap_event_def with_db_def deref_def update_pool_stmt update_last_price_def update_tbl_def Let_def)
qed

lemma token_row_same: "same_table ''registered_dex_token'' d d' \<Longrightarrow> token_row t cs True d' = token_row t cs True d"
  by (simp add: token_row_def find_tbl_def read_table_def same_table_def dexTokenTableSchema_def Let_def)

lemma keep_swap_event:
  assumes "\<And>v. db_keeps n (write v)" and n: "n \<noteq> ''pool''" "n \<noteq> ''last_price''"
  shows "keeps n st (swap_event write suffix env b e st)"
proof -
  have c: "keeps n st (case p of JStr a \<Rightarrow> f a | _ \<Rightarrow> Inl TypeError)" if "\<And>a. keeps n st (f a)" for p f
    using that by (cases p) (simp_all add: keep_Inl)
  have l: "keeps n st (update_last_price env t st)" for t st
    unfolding update_last_price_def using n by (intro keep_rules keep_bind refl) (simp add: lastPriceTableSchema_def)
  have p: "keeps n st (update_pool x y z u v w st)" for x y z u v w st
    unfolding update_pool_def using n by (intro keep_rules refl) (simp add: poolTableSchema_def)
  have w: "keeps n st (with_db (write v) st)" for v st by (intro keep_rules refl assms)
  show ?thesis unfolding swap_event_def Let_def
    by (rule keep_bind, rule c, rule keep_bind, rule keep_bind, rule keep_bind, rule keep_bind, rule keep_seq [OF w],
        rule keep_bind, rule keep_bind, rule keep_seq [OF p], rule keep_seq [OF p], rule keep_seq [OF l], rule l)
qed

lemma keep_swaps [keep_rules]:
  assumes "n \<noteq> ''volume''" "n \<noteq> ''pool''" "n \<noteq> ''last_price''"
  shows "keeps n st (applySwapEvent env b events st)" "keeps n st (revertSwapEvent env b events st)"
proof -
  have v: "tableName volumeTableSchema \<noteq> n" using assms by (simp add: volumeTableSchema_def)
  have i: "keeps n st (Inr (fold indexAccountAddress as st))" for as st by (rule keep_Inr) simp
  have e: "keeps n st (foldR (swap_event (\<lambda>v. upsert volumeTableSchema [v] True) suffix env b) es st)"
    "keeps n st (foldR (swap_event (\<lambda>v. deleteByParams volumeTableSchema (row_params v) True) suffix env b) es st)" for suffix es st
    by (intro keep_fold keep_swap_event db_keeps_ops v assms)+
  show "keeps n st (applySwapEvent env b events st)" unfolding applySwapEvent_def process_swaps_def
    by (rule keep_bind, rule keep_bind, rule keep_seq [OF e(1)], rule i)
  show "keeps n st (revertSwapEvent env b events st)" unfolding revertSwapEvent_def process_swaps_def
    by (rule keep_bind, rule keep_bind, rule keep_seq [OF e(2)], rule i)
qed

lemma example_swap_facts:
  "swap_pool (example_swap x y) = Inr (JStr example_pool)"
  "decodePoolAddress (getAddressFromKlayr32Address example_swap_env) (AStr example_pool) = Inr example_key"
  "parseEvents [Some (example_swap 1 5), Some (example_swap 5 9)] ''dex'' ''swap'' None = Inr ([example_swap 1 5] @ [example_swap 5 9])"
  "quote_price example_swap_env a b d = Inr (JNum 1)"
  "table_wf poolTableSchema (committed (st_db example_swap_state) ''pool'')"
proof -
  show "swap_pool (example_swap x y) = Inr (JStr example_pool)"
    by (simp add: swap_pool_def example_swap_def example_event_def)
  have "getAddressFromKlayr32Address example_swap_env = getAddressFromKlayr32Address example_env"
    by (simp add: example_swap_env_def example_token_env_def example_pos_env_def token_env.defs pos_env.defs env.defs)
  then show "decodePoolAddress (getAddressFromKlayr32Address example_swap_env) (AStr example_pool) = Inr example_key"
    using example_decode by simp
  show "parseEvents [Some (example_swap 1 5), Some (example_swap 5 9)] ''dex'' ''swap'' None = Inr ([example_swap 1 5] @ [example_swap 5 9])"
    by (simp add: parseEvents_def event_matches_def topics_include_def example_swap_def example_event_def map_filter_simps)
  show "quote_price example_swap_env a b d = Inr (JNum 1)" by (simp add: example_swap_env_def token_env.defs)
  show "table_wf poolTableSchema (committed (st_db example_swap_state) ''pool'')"
    by (simp add: example_swap_state_def Let_def example_pools_def example_pool_row_def table_wf_def row_wf_def row_key_def poolTableSchema_def mk_col_def row_get_def)
qed

lemma example_volume: "volume_row example_header example_pool (example_swap x y) = Inr
   [(''height'', JNum 7), (''index'', JNum 0), (''poolAddress'', JStr example_pool), (''sender'', JStr ''s''), (''recipient'', JStr ''r''),
    (''time'', JNum 70), (''amount0'', JStr ''7''), (''amount1'', JStr ''9''), (''feeGrowth0'', JStr ''0''), (''feeGrowth1'', JStr ''0'')]"
proof -
  have "show_int 0 = ''0''" by (simp add: show_int_def show_nat.simps digit_char_def char_of_def bit_0)
  then show ?thesis
    by (simp add: volume_row_def fee_growth_def decodeFeeGrowth_def big_div_def Q128_def example_swap_def example_event_def field_def example_header_def)
qed

lemma example_tokens:
  "same_table ''registered_dex_token'' (st_db example_swap_state) d \<Longrightarrow>
     \<exists>r0 r1. token_row (token0 example_key) [''symbol'', ''decimal''] True d = Inr (Some r0) \<and> token_row (token1 example_key) [''symbol'', ''decimal''] True d = Inr (Some r1)"
  by (simp only: token_row_same) (simp add: token_row_def find_tbl_def find_query_simps read_table_def example_swap_state_def example_state_def example_key_def
      tvl_names row_get_def sql_eq_def Let_def)

lemma example_swaps_ok:
  assumes w: "\<And>v. db_keeps ''registered_dex_token'' (write v)"
    and t: "\<And>v x y d. volume_row example_header example_pool (example_swap x y) = Inr v \<Longrightarrow> \<exists>d'. write v d = Inr d'"
  shows "\<exists>st'. process_swaps write suffix example_swap_env example_header [Some (example_swap 1 5), Some (example_swap 5 9)] example_swap_state = Inr st'"
proof -
  let ?run = "swap_event write suffix example_swap_env example_header"
  have ok: "\<exists>st'. ?run (example_swap x y) st = Inr st'" if same: "same_table ''registered_dex_token'' (st_db example_swap_state) (st_db st)" for x y st
  proof -
    obtain r0 r1 where "token_row (token0 example_key) [''symbol'', ''decimal''] True (st_db st) = Inr (Some r0)"
      "token_row (token1 example_key) [''symbol'', ''decimal''] True (st_db st) = Inr (Some r1)"
      using example_tokens [OF same] by blast
    then show ?thesis
      by (rule swap_event_ok [OF example_swap_facts(1,2) _ _ example_volume]) (rule t [OF example_volume], rule example_swap_facts(4))
  qed
  have "same_table ''registered_dex_token'' (st_db example_swap_state) (st_db example_swap_state)" by (simp add: same_table_def)
  then obtain st1 where st1: "?run (example_swap 1 5) example_swap_state = Inr st1" using ok by blast
  then have "same_table ''registered_dex_token'' (st_db example_swap_state) (st_db st1)"
    using keep_swap_event [of "''registered_dex_token''" "write", OF w] by (simp add: keeps_def)
  then obtain st2 where st2: "?run (example_swap 5 9) st1 = Inr st2" using ok by blast
  have "\<exists>as'. swap_addresses example_swap_env (example_swap x y) as = Inr as'" for x y as
    by (simp add: swap_addresses_def example_swap_facts(1) Let_def)
  then obtain as where "foldR (swap_addresses example_swap_env) [example_swap 1 5, example_swap 5 9] [] = Inr as"
    by (metis bindR_Inr foldR.simps)
  then show ?thesis using st1 st2 by (simp add: process_swaps_def example_swap_facts(3))
qed

lemma example_swap_data: "data (example_swap x y) ''tick'' = JNum y" "data (example_swap x y) ''tickBefore'' = JNum x"
  "data (example_swap x y) ''liquidity'' = JBig 10" "data (example_swap x y) ''liquidityBefore'' = JBig 10"
  by (simp_all add: example_swap_def example_event_def field_def)

lemma example_writes: "\<exists>d'. upsert volumeTableSchema [v] True d = Inr d'" "\<exists>d'. deleteByParams volumeTableSchema (row_params v) True d = Inr d'"
  if "volume_row example_header example_pool (example_swap x y) = Inr v"
proof -
  have v: "v = [(''height'', JNum 7), (''index'', JNum 0), (''poolAddress'', JStr example_pool), (''sender'', JStr ''s''), (''recipient'', JStr ''r''),
    (''time'', JNum 70), (''amount0'', JStr ''7''), (''amount1'', JStr ''9''), (''feeGrowth0'', JStr ''0''), (''feeGrowth1'', JStr ''0'')]"
    using that unfolding example_volume by simp
  show "\<exists>d'. upsert volumeTableSchema [v] True d = Inr d'" unfolding v
    by (simp add: upsert_def volumeTableSchema_def mk_col_def cast_def getValue_def not_null_ok_def fill_row_def row_get_def)
  show "\<exists>d'. deleteByParams volumeTableSchema (row_params v) True d = Inr d'" unfolding v
    by (simp add: deleteByParams_def row_params_def find_query_simps)
qed

lemma num_prefix_show_nat: "num_prefix (show_nat n) = int n"
proof -
  obtain c cs where c: "show_nat n = c # cs" using show_nat_digits [of n] by (cases "show_nat n") auto
  have d: "list_all is_digit (c # cs)" using show_nat_digits [of n] c by simp
  then have tw: "takeWhile is_digit cs = cs" by (simp add: list_all_iff takeWhile_eq_all_conv)
  show ?thesis using d digit_not_minus [of c] digits_val_show_nat [of n] unfolding num_prefix_def c list.case takeWhile.simps tw by simp
qed

lemma example_pool_of_swap: "r \<in> set example_pools \<Longrightarrow> pool_of_swap example_swap_env (example_swap x y) r"
proof -
  have f: "sql_eq (JNum 3000) (JStr (show_nat 3000))" by (simp add: sql_eq_def num_prefix_show_nat)
  assume "r \<in> set example_pools"
  then consider "r = example_pool_row (token0 example_key) (token1 example_key) False" | "r = example_pool_row (token1 example_key) (token0 example_key) True"
    by (auto simp: example_pools_def example_key_def)
  then show ?thesis
    by cases (simp_all add: pool_of_swap_def example_swap_facts(1,2) eq_cond_def pool_where_def example_pool_row_def row_get_def f example_key_def)
qed

lemma example_after_swaps:
  assumes "pools_after_swaps example_swap_env suffix [example_swap 1 5, example_swap 5 9] (committed (st_db example_swap_state) ''pool'') t'"
  shows "length t' = 2 \<and> list_all (\<lambda>r. row_get r ''tick'' \<in> {data (example_swap 1 5) (''tick'' @ suffix), data (example_swap 5 9) (''tick'' @ suffix)}) t'"
proof -
  have t: "committed (st_db example_swap_state) ''pool'' = example_pools" by (simp add: example_swap_state_def Let_def)
  have "list_all2 (\<lambda>r r'. row_get r' ''tick'' \<in> {data (example_swap 1 5) (''tick'' @ suffix), data (example_swap 5 9) (''tick'' @ suffix)}) example_pools t'"
    by (rule list.rel_mono_strong [OF assms [unfolded pools_after_swaps_def t]]) (auto simp: example_pool_of_swap shows_swap_def)
  moreover from this have "length t' = 2" by (auto dest!: list_all2_lengthD simp: example_pools_def)
  ultimately show ?thesis by (auto simp: list_all2_conv_all_nth list_all_length example_pools_def)
qed


theorem reverted_swaps_pools_witness:
  "\<exists>st'. revertSwapEvent_interleaved example_swap_env example_header [Some (example_swap 1 5), Some (example_swap 5 9)] example_swap_state st'
     \<and> list_all (\<lambda>r. row_get r ''tick'' \<in> {JNum 1, JNum 5}) (committed (st_db st') ''pool'')"
proof -
  obtain st' where "revertSwapEvent example_swap_env example_header [Some (example_swap 1 5), Some (example_swap 5 9)] example_swap_state = Inr st'"
    using example_swaps_ok [of "\<lambda>v. deleteByParams volumeTableSchema (row_params v) True" "''Before''"] keep_volume(4) example_writes(2)
    unfolding revertSwapEvent_def by blast
  then have run: "revertSwapEvent_interleaved example_swap_env example_header [Some (example_swap 1 5), Some (example_swap 5 9)] example_swap_state st'"
    unfolding revertSwapEvent_def revertSwapEvent_interleaved_def by (rule process_swaps_interleaved)
  have "pools_after_swaps example_swap_env ''Before'' ([example_swap 1 5] @ [example_swap 5 9]) (committed (st_db example_swap_state) ''pool'') (committed (st_db st') ''pool'')"
    by (rule reverted_swaps_pools [OF run example_swap_facts(3,5)]) (simp add: example_swap_data)
  then show ?thesis using run example_after_swaps [of "''Before''"] by (auto simp: example_swap_data)
qed

end
