(* ===== verification/Missing_Blocks.thy ===== *)
theory Missing_Blocks
  imports Schemas
begin

text \<open>
  How the service finds out which blocks it still has to index. The indexer's part is in
  \<^verbatim>\<open>indexer/blockchainIndex.js\<close> (\<^verbatim>\<open>findMissingBlocksInRange\<close>, \<^verbatim>\<open>getMissingBlocks\<close>,
  \<^verbatim>\<open>getIndexVerifiedHeight\<close>, \<^verbatim>\<open>isGenesisBlockIndexed\<close>) and \<^verbatim>\<open>indexer/indexStatus.js\<close>; the
  coordinator asks it and schedules the jobs in
  \<^verbatim>\<open>blockchain-coordinator/shared/scheduler.js\<close>. Heights are integers, the \<^verbatim>\<open>blocks\<close>
  table is the one of \<open>Schemas\<close>. The message queues are the lists of the jobs added to them.
\<close>

section \<open>Shared helpers\<close>

text \<open>\<^verbatim>\<open>utils/array.js\<close>: an absent or zero end makes the start the end; the length of the
  array must not be negative.\<close>

definition range_js :: "int \<Rightarrow> int option \<Rightarrow> int \<Rightarrow> int list result" where
  "range_js start end0 step =
     (let (s, e) = (case end0 of None \<Rightarrow> (0, start) | Some e \<Rightarrow> if e = 0 then (0, start) else (start, e))
      in if step = 0 \<or> (e - s) div step < 0 then Inl RangeError
         else Inr (map (\<lambda>i. s + int i * step) [0..<nat ((e - s) div step)]))"

definition ceil_div :: "int \<Rightarrow> int \<Rightarrow> int" where
  "ceil_div a b = - ((- a) div b)"

section \<open>The indexer: searching the blocks table\<close>

definition block_heights :: "table \<Rightarrow> int list" where
  "block_heights t = List.map_filter (\<lambda>r. case row_get r ''height'' of JNum n \<Rightarrow> Some n | _ \<Rightarrow> None) t"

text \<open>The raw query: the blocks strictly inside the batch whose predecessor is not indexed end
  a gap, which begins after the highest indexed block below.\<close>

definition missingBlocksQuery :: "table \<Rightarrow> int \<Rightarrow> int \<Rightarrow> (int \<times> int) list" where
  "missingBlocksQuery t batchStartHeight batchEndHeight =
     (let hs = block_heights t in
      map (\<lambda>h. (case filter (\<lambda>b. b < h) hs of [] \<Rightarrow> batchStartHeight | b # bs \<Rightarrow> fold max bs b + 1, h - 1))
        (filter (\<lambda>h. batchStartHeight + 1 \<le> h \<and> h \<le> batchEndHeight \<and> h \<noteq> batchEndHeight
                   \<and> (h - 1) \<notin> set hs) hs))"

definition height_range :: "int \<Rightarrow> int \<Rightarrow> params" where
  "height_range a b = [(''propBetweens'', PBetweens [\<lparr>pb_property = ''height'', pb_from = Some (JNum a),
     pb_to = Some (JNum b), pb_greaterThanEqualTo = None, pb_lowerThanEqualTo = None,
     pb_greaterThan = None, pb_lowerThan = None\<rparr>])]"

fun count_value :: "jsval + row list \<Rightarrow> int" where
  "count_value (Inl (JNum n)) = n"
| "count_value _ = 0"

definition findMissingBlocksInRange :: "int \<Rightarrow> int \<Rightarrow> db \<Rightarrow> (int \<times> int) list result" where
  "findMissingBlocksInRange fromHeight toHeight d =
     (let totalNumOfBlocks = toHeight - fromHeight + 1 in
      bindR (count_tbl blocksTableSchema (height_range fromHeight toHeight) None False d) (\<lambda>c.
        let indexedBlockCount = count_value c in
        if indexedBlockCount < 3 then Inr [(fromHeight, toHeight)]
        else if indexedBlockCount \<noteq> totalNumOfBlocks
        then (let NUM_BATCHES = ceil_div (toHeight - fromHeight) 25000 in
              Inr (concat (map (\<lambda>i. let batchStartHeight = fromHeight + int i * 25000;
                                          batchEndHeight = min (batchStartHeight + 25000) toHeight
                                      in missingBlocksQuery (committed d ''blocks'') batchStartHeight batchEndHeight)
                     [0..<nat NUM_BATCHES])))
        else Inr []))"

fun flat_ranges :: "(int \<times> int) list \<Rightarrow> int list result" where
  "flat_ranges [] = Inr []"
| "flat_ranges ((a, b) # rs) =
     bindR (range_js a (Some (b + 1)) 1) (\<lambda>xs. bindR (flat_ranges rs) (\<lambda>ys. Inr (xs @ ys)))"

definition getMissingBlocks :: "int \<Rightarrow> int \<Rightarrow> db \<Rightarrow> int list result" where
  "getMissingBlocks a b d = bindR (findMissingBlocksInRange a b d) flat_ranges"

text \<open>\<^verbatim>\<open>lastIndexedFinalBlock.height || null\<close>; \<open>None\<close> is \<^verbatim>\<open>null\<close>.\<close>

definition height_of :: "row list \<Rightarrow> int option" where
  "height_of rs = (case rs of r # _ \<Rightarrow> (case row_get r ''height'' of JNum n \<Rightarrow> Some n | _ \<Rightarrow> None) | [] \<Rightarrow> None)"

definition getIndexVerifiedHeight :: "db \<Rightarrow> int option result" where
  "getIndexVerifiedHeight d =
     bindR (find_tbl blocksTableSchema [(''isFinal'', PVal (JBool True)), (''sort'', PVal (JStr ''height:desc'')),
              (''limit'', PVal (JNum 1))] (Some [''height'']) False d) (\<lambda>rs.
       Inr (case height_of rs of Some n \<Rightarrow> (if n = 0 then None else Some n) | None \<Rightarrow> None))"

definition isGenesisBlockIndexed :: "int \<Rightarrow> db \<Rightarrow> bool result" where
  "isGenesisBlockIndexed genesisHeight d =
     bindR (find_tbl blocksTableSchema [(''height'', PVal (JNum genesisHeight)), (''limit'', PVal (JNum 1))]
              (Some [''height'']) False d) (\<lambda>rs. Inr (rs \<noteq> []))"

text \<open>\<^verbatim>\<open>getIndexStats\<close> without the percentage, which only goes to the log and the API.
  \<open>None\<close> is the answer \<^verbatim>\<open>{ error: true }\<close>, whose fields are \<^verbatim>\<open>undefined\<close>.\<close>

record index_stats =
  currentChainHeight :: int
  numBlocksIndexed :: int
  lastIndexedBlock :: "int option"
  chainLength :: int

definition lastIndexedHeight :: "db \<Rightarrow> int option result" where
  "lastIndexedHeight d =
     bindR (find_tbl blocksTableSchema [(''sort'', PVal (JStr ''height:desc'')), (''limit'', PVal (JNum 1))]
              (Some [''height'']) False d) (\<lambda>rs. Inr (height_of rs))"

definition getIndexStats :: "int \<Rightarrow> int \<Rightarrow> db \<Rightarrow> index_stats option" where
  "getIndexStats currentHeight genesisHeight d =
     (case bindR (count_tbl blocksTableSchema [] None False d) (\<lambda>c.
             bindR (lastIndexedHeight d) (\<lambda>h. Inr (count_value c, h))) of
        Inl _ \<Rightarrow> None
      | Inr (n, h) \<Rightarrow>
          Some \<lparr>currentChainHeight = currentHeight, numBlocksIndexed = n, lastIndexedBlock = h,
                chainLength = currentHeight - genesisHeight + 1\<rparr>)"

definition validateIndexReadiness :: "bool \<Rightarrow> index_stats option \<Rightarrow> bool" where
  "validateIndexReadiness strict stats =
     (case stats of None \<Rightarrow> False
      | Some st \<Rightarrow> (if strict then chainLength st else chainLength st - 1) \<le> numBlocksIndexed st)"

section \<open>The coordinator: scheduling the jobs\<close>

record coord_config =
  skipThreshold :: int
  maxBlocksToSchedule :: int

text \<open>
  What the coordinator reads from the other services in one run: the successive answers to
  \<^verbatim>\<open>getLiveIndexingJobCount\<close> (each time it is asked, the head of \<open>jobCounts\<close>), the heights,
  the answers of the indexer. An error of \<^verbatim>\<open>getMissingBlocks\<close> is turned into a value that is
  no array; a failed \<^verbatim>\<open>getIndexStatus\<close> into \<^verbatim>\<open>null\<close>.
\<close>

record coord_env =
  genesis_indexed :: bool
  genesisHeight :: int
  currentHeight :: int
  verifiedHeight :: "int option"
  missing_blocks :: "int \<Rightarrow> int \<Rightarrow> int list result"
  indexStatus :: "index_stats option option"

record coord_state =
  blockMessageQueue :: "int list"
  accountMessageQueue :: "row list"
  jobCounts :: "int list"

text \<open>\<^verbatim>\<open>waitForJobCountToFallBelowThreshold\<close>: \<open>None\<close> when none of the answers is below the
  threshold, so that the loop is still waiting.\<close>

fun wait_below :: "int \<Rightarrow> int list \<Rightarrow> int list option" where
  "wait_below threshold [] = None"
| "wait_below threshold (c # cs) = (if c < threshold then Some cs else wait_below threshold cs)"

definition MAX_BATCH_SIZE :: nat where "MAX_BATCH_SIZE = 15000"

definition slice :: "nat \<Rightarrow> nat \<Rightarrow> 'a list \<Rightarrow> 'a list" where
  "slice a b xs = take (b - a) (drop a xs)"

fun schedule_batches :: "int \<Rightarrow> int list \<Rightarrow> nat list \<Rightarrow> coord_state \<Rightarrow> coord_state option" where
  "schedule_batches threshold heights [] st = Some st"
| "schedule_batches threshold heights (i # is) st =
     (case wait_below threshold (jobCounts st) of
        None \<Rightarrow> None
      | Some cs \<Rightarrow> schedule_batches threshold heights is
          (st\<lparr>jobCounts := cs, blockMessageQueue := blockMessageQueue st
                @ slice (i * MAX_BATCH_SIZE) ((i + 1) * MAX_BATCH_SIZE) heights\<rparr>))"

definition scheduleBlocksIndexing :: "coord_config \<Rightarrow> int list \<Rightarrow> coord_state \<Rightarrow> coord_state option" where
  "scheduleBlocksIndexing cfg heights st =
     (let blockHeights = sort heights;
          numBatches = nat (ceil_div (int (length blockHeights)) (int MAX_BATCH_SIZE))
      in schedule_batches (skipThreshold cfg) blockHeights [0..<numBatches] st)"

definition scheduleValidatorsIndexing :: "row list \<Rightarrow> coord_state \<Rightarrow> coord_state" where
  "scheduleValidatorsIndexing validators st =
     st\<lparr>accountMessageQueue := accountMessageQueue st
          @ map (\<lambda>v. filter (\<lambda>(c, _). c \<noteq> ''isValidator'') v @ [(''isValidator'', JBool True)]) validators\<rparr>"

text \<open>One answer to \<^verbatim>\<open>getLiveIndexingJobCount\<close>; \<open>None\<close> while there is none.\<close>

definition read_count :: "coord_state \<Rightarrow> (int \<times> coord_state) option" where
  "read_count st = (case jobCounts st of [] \<Rightarrow> None | c # cs \<Rightarrow> Some (c, st\<lparr>jobCounts := cs\<rparr>))"

definition height_or :: "int option \<Rightarrow> int \<Rightarrow> int" where
  "height_or v fallback = (case v of None \<Rightarrow> fallback | Some n \<Rightarrow> if n = 0 then fallback else n)"

definition initIndexingScheduler :: "coord_config \<Rightarrow> coord_env \<Rightarrow> row list \<Rightarrow> coord_state \<Rightarrow> coord_state option" where
  "initIndexingScheduler cfg env validators st0 =
     (let st1 = (if validators \<noteq> [] then scheduleValidatorsIndexing validators st0 else st0) in
      case read_count st1 of None \<Rightarrow> None
      | Some (jobCount, st) \<Rightarrow>
          if skipThreshold cfg < jobCount then Some st
          else (let lastVerifiedHeight = height_or (verifiedHeight env) (genesisHeight env + 1) in
                case missing_blocks env lastVerifiedHeight (currentHeight env) of
                  Inr hs \<Rightarrow> if hs \<noteq> [] then scheduleBlocksIndexing cfg hs st else Some st
                | Inl _ \<Rightarrow> Some st))"

definition tiny_gap :: "coord_env \<Rightarrow> int list \<Rightarrow> int list result" where
  "tiny_gap env missingBlocksByHeight =
     (case indexStatus env of None \<Rightarrow> Inr missingBlocksByHeight
      | Some None \<Rightarrow> Inr missingBlocksByHeight
      | Some (Some ix) \<Rightarrow>
          let numStillMissingJobs = chainLength ix - numBlocksIndexed ix - int (length missingBlocksByHeight) in
          if 0 < numStillMissingJobs \<and> numStillMissingJobs \<le> 100
          then bindR (range_js (currentChainHeight ix - numStillMissingJobs + 1) (Some (currentChainHeight ix + 1)) 1)
                 (\<lambda>xs. Inr (missingBlocksByHeight @ xs))
          else Inr missingBlocksByHeight)"

definition missing_by_batches :: "coord_env \<Rightarrow> int \<Rightarrow> int \<Rightarrow> int list" where
  "missing_by_batches env blockIndexLowerRange blockIndexHigherRange =
     (let NUM_BATCHES = ceil_div (blockIndexHigherRange - blockIndexLowerRange) 10000 in
      concat (map (\<lambda>i. let batchStartHeight = blockIndexLowerRange + int i * 10000;
                             batchEndHeight = min (batchStartHeight + 10000) blockIndexHigherRange
                         in (case missing_blocks env batchStartHeight batchEndHeight of Inr hs \<Rightarrow> hs | Inl _ \<Rightarrow> []))
               [0..<nat NUM_BATCHES]))"

definition scheduleMissingBlocksIndexing :: "coord_config \<Rightarrow> coord_env \<Rightarrow> coord_state \<Rightarrow> coord_state option" where
  "scheduleMissingBlocksIndexing cfg env st0 =
     (if \<not> genesis_indexed env then Some st0
      else case read_count st0 of None \<Rightarrow> None
      | Some (jobCount, st) \<Rightarrow>
          if skipThreshold cfg < jobCount then Some st
          else (let blockIndexLowerRange = height_or (verifiedHeight env) (genesisHeight env);
                    blockIndexHigherRange = min (blockIndexLowerRange + maxBlocksToSchedule cfg) (currentHeight env);
                    missingBlocksByHeight = missing_by_batches env blockIndexLowerRange blockIndexHigherRange
                in case tiny_gap env missingBlocksByHeight of
                     Inl _ \<Rightarrow> Some st
                   | Inr hs \<Rightarrow> if hs \<noteq> [] then scheduleBlocksIndexing cfg hs st else Some st))"

section \<open>The coordinator beside the indexer\<close>

text \<open>\<^verbatim>\<open>sources/indexer.js\<close>: the answers of an indexer with database \<open>d\<close> to the requests of the
  coordinator.\<close>

definition indexer_env :: "int \<Rightarrow> int \<Rightarrow> db \<Rightarrow> coord_env" where
  "indexer_env genesis current d =
     \<lparr>genesis_indexed = (case isGenesisBlockIndexed genesis d of Inr b \<Rightarrow> b | Inl _ \<Rightarrow> False),
      genesisHeight = genesis, currentHeight = current,
      verifiedHeight = (case getIndexVerifiedHeight d of Inr v \<Rightarrow> v | Inl _ \<Rightarrow> None),
      missing_blocks = (\<lambda>a b. getMissingBlocks a b d),
      indexStatus = Some (getIndexStats current genesis d)\<rparr>"

section \<open>The heights in the table\<close>

definition blocks_ok :: "table \<Rightarrow> bool" where
  "blocks_ok t \<longleftrightarrow> table_typed blocksTableSchema t \<and> list_all (\<lambda>r. row_get r ''height'' \<noteq> JNull) t"

definition row_height :: "row \<Rightarrow> int" where
  "row_height r = (case row_get r ''height'' of JNum n \<Rightarrow> n | _ \<Rightarrow> 0)"

lemma blocks_height:
  assumes "blocks_ok t" and "r \<in> set t"
  shows "row_get r ''height'' = JNum (row_height r)"
proof -
  have "cell_ok ''integer'' (row_get r ''height'')" and "row_get r ''height'' \<noteq> JNull"
    using assms by (auto simp: blocks_ok_def table_typed_def list_all_iff row_typed_def blocksTableSchema_def mk_col_def)
  then show ?thesis by (cases "row_get r ''height''") (simp_all add: cell_ok_def row_height_def)
qed

lemma block_heights_map: "blocks_ok t \<Longrightarrow> block_heights t = map row_height t"
proof (induction t)
  case (Cons r t)
  have "blocks_ok t" using Cons.prems by (auto simp: blocks_ok_def table_typed_def table_wf_def)
  then show ?case using Cons.IH blocks_height [OF Cons.prems, of r]
    by (simp add: block_heights_def map_filter_simps)
qed (simp add: block_heights_def map_filter_simps)

lemma row_key_blocks: "blocks_ok t \<Longrightarrow> r \<in> set t \<Longrightarrow> row_key blocksTableSchema r = [JNum (row_height r)]"
  by (simp add: row_key_def blocks_height) (simp add: blocksTableSchema_def blocks_height)

lemma distinct_heights: "blocks_ok t \<Longrightarrow> distinct (block_heights t)"
proof -
  assume t: "blocks_ok t"
  then have "distinct (map (\<lambda>r. [JNum (row_height r)]) t)"
    using row_key_blocks [OF t] by (simp add: blocks_ok_def table_typed_def table_wf_def cong: map_cong)
  then show ?thesis by (simp add: block_heights_map [OF t] distinct_map inj_on_def)
qed

lemma count_in_range:
  assumes "blocks_ok (committed d ''blocks'')"
  shows "count_tbl blocksTableSchema (height_range a b) None False d =
    Inr (Inl (JNum (int (card {h \<in> set (block_heights (committed d ''blocks'')). a \<le> h \<and> h \<le> b}))))"
proof -
  let ?t = "committed d ''blocks''"
  have P: "queryBuilder True (height_range a b) =
     Inr (\<lambda>r. sql_leq (JNum a) (row_get r ''height'') \<and> sql_leq (row_get r ''height'') (JNum b))"
    by (simp add: height_range_def find_query_simps between_clauses_def) (simp add: eq_clauses_def fun_eq_iff)
  have "filter (\<lambda>r. (sql_leq (JNum a) (row_get r ''height'') \<and> sql_leq (row_get r ''height'') (JNum b)) \<and> row_get r ''height'' \<noteq> JNull) ?t
      = filter (\<lambda>r. a \<le> row_height r \<and> row_height r \<le> b) ?t"
    by (rule filter_cong) (auto simp: blocks_height [OF assms])
  moreover have "length (filter (\<lambda>r. a \<le> row_height r \<and> row_height r \<le> b) ?t)
      = length (filter (\<lambda>h. a \<le> h \<and> h \<le> b) (block_heights ?t))"
    by (simp add: block_heights_map [OF assms] filter_map o_def)
  moreover have "\<dots> = card {h \<in> set (block_heights ?t). a \<le> h \<and> h \<le> b}"
    using distinct_card [OF distinct_filter [OF distinct_heights [OF assms], of "\<lambda>h. a \<le> h \<and> h \<le> b"]] by simp
  ultimately show ?thesis by (simp add: count_tbl_def P read_table_def) (simp add: blocksTableSchema_def)
qed

section \<open>Ranges\<close>

lemma range_interval: "a \<le> b \<Longrightarrow> b \<noteq> 0 \<Longrightarrow> range_js a (Some b) 1 = Inr [a..b - 1]"
proof -
  assume a: "a \<le> b" "b \<noteq> 0"
  have "map (\<lambda>i. a + int i) [0..<nat (b - a)] = [a..b - 1]"
    by (rule nth_equalityI) (auto simp: nth_upto)
  then show ?thesis using a by (simp add: range_js_def)
qed

lemma flat_ranges_set:
  assumes "\<And>a b. (a, b) \<in> set rs \<Longrightarrow> a \<le> b + 1 \<and> b + 1 \<noteq> 0"
  shows "flat_ranges rs = Inr (concat (map (\<lambda>(a, b). [a..b]) rs))"
  using assms
proof (induction rs)
  case (Cons r rs)
  obtain a b where r: "r = (a, b)" by (cases r)
  have "range_js a (Some (b + 1)) 1 = Inr [a..b]" using range_interval [of a "b + 1"] Cons.prems r by fastforce
  moreover have "flat_ranges rs = Inr (concat (map (\<lambda>(a, b). [a..b]) rs))"
    by (rule Cons.IH) (use Cons.prems in auto)
  ultimately show ?case using r by simp
qed simp

section \<open>The query of one batch\<close>

definition gap_start :: "int set \<Rightarrow> int \<Rightarrow> int \<Rightarrow> int" where
  "gap_start H s h = (if {b \<in> H. b < h} = {} then s else Max {b \<in> H. b < h} + 1)"

lemma gap_start_le: "finite H \<Longrightarrow> s \<le> h \<Longrightarrow> gap_start H s h \<le> h"
proof (cases "{b \<in> H. b < h} = {}")
  case False
  assume "finite H"
  then have "Max {b \<in> H. b < h} \<in> {b \<in> H. b < h}" using False by (intro Max_in) simp_all
  then show ?thesis by (auto simp: gap_start_def)
qed (simp add: gap_start_def)

lemma missingBlocksQuery_set:
  "set (missingBlocksQuery t s e) =
     (\<lambda>h. (gap_start (set (block_heights t)) s h, h - 1)) ` {h \<in> set (block_heights t). s < h \<and> h < e \<and> h - 1 \<notin> set (block_heights t)}"
proof -
  let ?hs = "block_heights t"
  have start: "(case filter (\<lambda>b. b < h) ?hs of [] \<Rightarrow> s | b # bs \<Rightarrow> fold max bs b + 1) = gap_start (set ?hs) s h" for h
  proof (cases "filter (\<lambda>b. b < h) ?hs")
    case Nil
    then have "{b \<in> set ?hs. b < h} = {}" by (metis empty_set set_filter)
    then show ?thesis using Nil by (simp add: gap_start_def)
  next
    case (Cons b bs)
    then have "{b \<in> set ?hs. b < h} = set (b # bs)" by (metis set_filter)
    then show ?thesis using Cons by (simp only: gap_start_def Max.set_eq_fold list.case) simp
  qed
  have conds: "{h \<in> set ?hs. s + 1 \<le> h \<and> h \<le> e \<and> h \<noteq> e \<and> h - 1 \<notin> set ?hs}
      = {h \<in> set ?hs. s < h \<and> h < e \<and> h - 1 \<notin> set ?hs}" by auto
  show ?thesis by (simp only: missingBlocksQuery_def Let_def set_map set_filter start conds)
qed

lemma gap_start_interval:
  assumes "finite H"
  shows "x \<in> {gap_start H s h..h - 1} \<longleftrightarrow> x < h \<and> {x..<h} \<inter> H = {} \<and> (s \<le> x \<or> (\<exists>b \<in> H. b < x))"
proof (cases "{b \<in> H. b < h} = {}")
  case True
  then have below: "\<not> b < h" if "b \<in> H" for b using that by blast
  then have "{x..<h} \<inter> H = {}" by auto
  moreover have "\<not> b < x" if "b \<in> H" "x < h" for b using below [OF that(1)] that(2) by linarith
  ultimately show ?thesis using True by (auto simp: gap_start_def)
next
  case False
  let ?B = "{b \<in> H. b < h}"
  have fin: "finite ?B" using assms by simp
  have "Max ?B < x \<longleftrightarrow> (\<forall>b \<in> ?B. b < x)" using fin False by simp
  also have "\<dots> \<longleftrightarrow> {x..<h} \<inter> H = {}" by (auto simp: not_less)
  finally have m: "Max ?B < x \<longleftrightarrow> {x..<h} \<inter> H = {}" .
  obtain b where b: "b \<in> H" "b < h" using False by auto
  have "b < x" if "{x..<h} \<inter> H = {}" using b that by (auto simp: not_less [symmetric])
  then show ?thesis using False m b(1) by (auto simp: gap_start_def)
qed

text \<open>The batches cut the range at multiples of their size.\<close>

lemma batch_of:
  fixes h a b :: int
  assumes "a < h" and "h < b" and n: "0 < n" and nd: "\<not> n dvd (h - a)"
  defines "i \<equiv> nat ((h - a) div n)"
  shows "i < nat (ceil_div (b - a) n)" "a + int i * n < h" "h < a + int i * n + n"
proof -
  have i: "int i = (h - a) div n" using assms by (simp add: pos_imp_zdiv_nonneg_iff)
  have "(h - a) mod n \<noteq> 0" "0 \<le> (h - a) mod n" using n nd by (simp_all add: dvd_eq_mod_eq_0)
  then have mod: "0 < (h - a) mod n" "(h - a) mod n < n" using pos_mod_bound [OF n, of "h - a"] by linarith+
  have e: "h - a = int i * n + (h - a) mod n" using i by simp
  show "a + int i * n < h" "h < a + int i * n + n" using e mod by linarith+
  have "int i * n < b - a" using e mod assms(2) by linarith
  moreover have "(- (b - a)) div n * n \<le> - (b - a)"
    using pos_mod_sign [OF n, of "- (b - a)"] div_mult_mod_eq [of "- (b - a)" n] by linarith
  ultimately have "(- (b - a)) div n * n < - int i * n" by linarith
  then have "(- (b - a)) div n < - int i" using n mult_less_cancel_right_pos by blast
  then show "i < nat (ceil_div (b - a) n)" by (simp add: ceil_div_def)
qed


definition missing_spec :: "int set \<Rightarrow> int \<Rightarrow> int \<Rightarrow> int set" where
  "missing_spec H a b = {x. \<exists>h \<in> H. a < h \<and> h < b \<and> \<not> 25000 dvd (h - a) \<and> x < h \<and> {x..<h} \<inter> H = {}
      \<and> (a + 25000 * ((h - a) div 25000) \<le> x \<or> (\<exists>g \<in> H. g < x))}"

definition batched_gaps :: "table \<Rightarrow> int \<Rightarrow> int \<Rightarrow> (int \<times> int) list" where
  "batched_gaps t a b = concat (map (\<lambda>i. missingBlocksQuery t (a + int i * 25000) (min (a + int i * 25000 + 25000) b))
      [0..<nat (ceil_div (b - a) 25000)])"

lemma batched_gaps_mem:
  "(g, e) \<in> set (batched_gaps t a b) \<longleftrightarrow>
     (\<exists>h \<in> set (block_heights t). a < h \<and> h < b \<and> \<not> 25000 dvd (h - a) \<and> h - 1 \<notin> set (block_heights t)
        \<and> g = gap_start (set (block_heights t)) (a + 25000 * ((h - a) div 25000)) h \<and> e = h - 1)" (is "?L \<longleftrightarrow> ?R")
proof
  let ?H = "set (block_heights t)"
  assume ?L
  then obtain i h where h: "h \<in> ?H" "a + int i * 25000 < h" "h < min (a + int i * 25000 + 25000) b" "h - 1 \<notin> ?H"
    and ge: "g = gap_start ?H (a + int i * 25000) h" "e = h - 1"
    by (auto simp: batched_gaps_def missingBlocksQuery_set)
  have eq: "h - a = 25000 * int i + (h - a - int i * 25000)" by simp
  have "(h - a) div 25000 = int i" by (rule int_div_pos_eq [OF eq]) (use h in auto)
  moreover have "(h - a) mod 25000 = h - a - int i * 25000" by (rule int_mod_pos_eq [OF eq]) (use h in auto)
  ultimately show ?R using h ge by (auto simp: mult.commute dvd_eq_mod_eq_0 intro!: bexI [of _ h])
next
  let ?H = "set (block_heights t)"
  assume ?R
  then obtain h where h: "h \<in> ?H" "a < h" "h < b" "\<not> 25000 dvd (h - a)" "h - 1 \<notin> ?H"
    and ge: "g = gap_start ?H (a + 25000 * ((h - a) div 25000)) h" "e = h - 1" by auto
  let ?i = "nat ((h - a) div 25000)"
  have i: "25000 * ((h - a) div 25000) = int ?i * 25000" using h(2) by simp
  show ?L using batch_of [OF h(2,3) _ h(4)] h ge
    by (auto simp: batched_gaps_def missingBlocksQuery_set i image_iff intro!: bexI [of _ ?i])
qed


lemma findMissingBlocksInRange_eq:
  fixes a b :: int
  assumes "blocks_ok (committed d ''blocks'')"
  defines "H \<equiv> set (block_heights (committed d ''blocks''))"
  defines "n \<equiv> int (card {h \<in> H. a \<le> h \<and> h \<le> b})"
  shows "findMissingBlocksInRange a b d = Inr (if n < 3 then [(a, b)] else if n \<noteq> b - a + 1
     then batched_gaps (committed d ''blocks'') a b else [])"
  by (simp add: findMissingBlocksInRange_def count_in_range [OF assms(1)] n_def H_def batched_gaps_def Let_def)

text \<open>C20: Which heights \<^verbatim>\<open>getMissingBlocks\<close> answers for a range: the whole range when fewer than
  three of its blocks are indexed; nothing when all are; otherwise, up to duplicates, exactly
  the heights that are not indexed and lie in a gap closed by an indexed block strictly inside
  the range and not at a multiple of 25000 from its start. A gap that an indexed block at a
  batch boundary closes, and the heights above the last indexed block, are not found.\<close>

theorem getMissingBlocks_finds:
  fixes d :: db and a b :: int
  assumes ok: "blocks_ok (committed d ''blocks'')" and ab: "0 \<le> a" "a \<le> b"
  defines "H \<equiv> set (block_heights (committed d ''blocks''))"
  defines "n \<equiv> int (card {h \<in> H. a \<le> h \<and> h \<le> b})"
  shows "\<exists>xs. getMissingBlocks a b d = Inr xs
     \<and> set xs = (if n < 3 then {a..b} else if n = b - a + 1 then {} else missing_spec H a b)"
proof -
  let ?rs = "if n < 3 then [(a, b)] else if n \<noteq> b - a + 1 then batched_gaps (committed d ''blocks'') a b else []"
  have fin: "finite H" by (simp add: H_def)
  have gap: "g \<le> e + 1 \<and> e + 1 \<noteq> 0" if "(g, e) \<in> set (batched_gaps (committed d ''blocks'') a b)" for g e
  proof -
    from that obtain h where h: "h \<in> H" "a < h" "h - 1 \<notin> H" "e = h - 1"
      and g: "g = gap_start H (a + 25000 * ((h - a) div 25000)) h"
      by (auto simp: batched_gaps_mem H_def)
    have "25000 * ((h - a) div 25000) \<le> h - a" by simp
    then have "g \<le> h" using g gap_start_le [OF fin] by simp
    then show ?thesis using h ab by simp
  qed
  have "flat_ranges ?rs = Inr (concat (map (\<lambda>(a, b). [a..b]) ?rs))"
    by (rule flat_ranges_set) (use gap ab in \<open>auto split: if_splits\<close>)
  moreover have "(\<Union>(g, e) \<in> set (batched_gaps (committed d ''blocks'') a b). {g..e}) = missing_spec H a b"
  proof (rule set_eqI)
    fix x
    have pred_free: "h - 1 \<notin> H" if "x < h" "{x..<h} \<inter> H = {}" for h
      using that by (metis IntI atLeastLessThan_iff empty_iff less_add_one diff_add_cancel zle_diff1_eq linorder_not_le)
    have "x \<in> (\<Union>(g, e) \<in> set (batched_gaps (committed d ''blocks'') a b). {g..e}) \<longleftrightarrow>
       (\<exists>h \<in> H. a < h \<and> h < b \<and> \<not> 25000 dvd (h - a) \<and> h - 1 \<notin> H
         \<and> x \<in> {gap_start H (a + 25000 * ((h - a) div 25000)) h..h - 1})"
      unfolding H_def by (simp only: Bex_def split_paired_Ex UN_iff prod.case batched_gaps_mem atLeastAtMost_iff) blast
    also have "\<dots> \<longleftrightarrow> x \<in> missing_spec H a b"
      unfolding gap_start_interval [OF fin] missing_spec_def mem_Collect_eq using pred_free by blast
    finally show "x \<in> (\<Union>(g, e) \<in> set (batched_gaps (committed d ''blocks'') a b). {g..e}) \<longleftrightarrow> x \<in> missing_spec H a b" .
  qed
  ultimately show ?thesis
    by (auto simp: getMissingBlocks_def findMissingBlocksInRange_eq [OF ok] H_def [symmetric] n_def [symmetric] image_iff split_beta)
qed

section \<open>Scheduling\<close>

abbreviation below :: "int \<Rightarrow> int list \<Rightarrow> nat" where
  "below threshold cs \<equiv> length (filter (\<lambda>c. c < threshold) cs)"

lemma wait_below_Some: "0 < below threshold cs \<Longrightarrow> \<exists>cs'. wait_below threshold cs = Some cs' \<and> below threshold cs' = below threshold cs - 1"
  by (induction cs) auto

lemma slice_append: "a \<le> b \<Longrightarrow> b \<le> c \<Longrightarrow> slice a b xs @ slice b c xs = slice a c xs"
proof -
  assume "a \<le> b" "b \<le> c"
  then have "c - a = (b - a) + (c - b)" "drop b xs = drop (b - a) (drop a xs)" by simp_all
  then show ?thesis by (simp only: slice_def take_add)
qed

lemma schedule_batches_all:
  assumes "n - i \<le> below threshold (jobCounts st)" and "i \<le> n"
  shows "\<exists>cs. schedule_batches threshold hs [i..<n] st =
    Some (st\<lparr>jobCounts := cs, blockMessageQueue := blockMessageQueue st @ slice (i * MAX_BATCH_SIZE) (n * MAX_BATCH_SIZE) hs\<rparr>)"
  using assms
proof (induction "n - i" arbitrary: i st)
  case 0
  have "jobCounts st = jobCounts st" ..
  then show ?case using 0 by (intro exI [of _ "jobCounts st"]) (simp add: slice_def)
next
  case (Suc k)
  then have i: "i < n" by simp
  obtain cs where cs: "wait_below threshold (jobCounts st) = Some cs" "below threshold cs = below threshold (jobCounts st) - 1"
  proof -
    have "0 < below threshold (jobCounts st)" using Suc.hyps(2) Suc.prems(1) by linarith
    then show ?thesis using wait_below_Some that by blast
  qed
  let ?st = "st\<lparr>jobCounts := cs, blockMessageQueue := blockMessageQueue st @ slice (i * MAX_BATCH_SIZE) ((i + 1) * MAX_BATCH_SIZE) hs\<rparr>"
  obtain cs' where cs': "schedule_batches threshold hs [Suc i..<n] ?st =
     Some (?st\<lparr>jobCounts := cs', blockMessageQueue := blockMessageQueue ?st @ slice (Suc i * MAX_BATCH_SIZE) (n * MAX_BATCH_SIZE) hs\<rparr>)"
  proof -
    have "k = n - Suc i" "n - Suc i \<le> below threshold (jobCounts ?st)" "Suc i \<le> n"
      using Suc.hyps(2) Suc.prems cs(2) i by simp_all
    then show ?thesis using Suc.hyps(1) [of "Suc i" ?st] that by blast
  qed
  have "slice (i * MAX_BATCH_SIZE) ((i + 1) * MAX_BATCH_SIZE) hs @ slice (Suc i * MAX_BATCH_SIZE) (n * MAX_BATCH_SIZE) hs
      = slice (i * MAX_BATCH_SIZE) (n * MAX_BATCH_SIZE) hs"
    using i by (simp add: slice_append mult_le_mono1 Suc_leI del: mult_Suc)
  then have "schedule_batches threshold hs [i..<n] st = Some (st\<lparr>jobCounts := cs', blockMessageQueue :=
      blockMessageQueue st @ slice (i * MAX_BATCH_SIZE) (n * MAX_BATCH_SIZE) hs\<rparr>)"
    using cs(1) cs' i by (simp add: upt_conv_Cons)
  then show ?case by blast
qed

definition batches_of :: "int list \<Rightarrow> nat" where
  "batches_of hs = nat (ceil_div (int (length hs)) (int MAX_BATCH_SIZE))"

lemma batches_cover: "length hs \<le> batches_of hs * MAX_BATCH_SIZE"
proof -
  let ?M = "int MAX_BATCH_SIZE" and ?n = "int (length hs)"
  have M: "0 < ?M" by (simp add: MAX_BATCH_SIZE_def)
  have "(- ?n) div ?M * ?M \<le> - ?n"
    using pos_mod_sign [OF M, of "- ?n"] div_mult_mod_eq [of "- ?n" ?M] by linarith
  then have "?n \<le> ceil_div ?n ?M * ?M" by (simp add: ceil_div_def)
  moreover have "0 \<le> ceil_div ?n ?M" using M by (simp add: ceil_div_def div_nonpos_pos_le0)
  ultimately have "?n \<le> int (batches_of hs * MAX_BATCH_SIZE)" by (simp add: batches_of_def)
  then show ?thesis by (simp only: of_nat_le_iff)
qed

lemma scheduleBlocksIndexing_all:
  assumes "batches_of hs \<le> below (skipThreshold cfg) (jobCounts st)"
  shows "\<exists>cs. scheduleBlocksIndexing cfg hs st = Some (st\<lparr>jobCounts := cs, blockMessageQueue := blockMessageQueue st @ sort hs\<rparr>)"
proof -
  have "slice 0 (batches_of hs * MAX_BATCH_SIZE) (sort hs) = sort hs"
    using batches_cover [of hs] by (simp add: slice_def)
  then show ?thesis using schedule_batches_all [of "batches_of hs" 0 "skipThreshold cfg" st "sort hs"] assms
    by (simp add: scheduleBlocksIndexing_def batches_of_def Let_def)
qed

section \<open>An index without gaps\<close>

lemma getMissingBlocks_contiguous:
  assumes ok: "blocks_ok (committed d ''blocks'')" and H: "set (block_heights (committed d ''blocks'')) = {g..L}"
    and a: "0 \<le> g" "g \<le> a" "a \<le> b"
  shows "getMissingBlocks a b d = Inr (if L \<le> a + 1 \<or> b \<le> a + 1 then [a..b] else [])"
proof -
  have n: "{h \<in> {g..L}. a \<le> h \<and> h \<le> b} = {a..min L b}" using a by auto
  have gaps: "batched_gaps (committed d ''blocks'') a b = []"
  proof (rule ccontr)
    assume "batched_gaps (committed d ''blocks'') a b \<noteq> []"
    then obtain s e where "(s, e) \<in> set (batched_gaps (committed d ''blocks'') a b)" by (metis list.set_intros(1) neq_Nil_conv surj_pair)
    then show False using a H by (auto simp: batched_gaps_mem)
  qed
  have "range_js a (Some (b + 1)) 1 = Inr [a..b]" using range_interval [of a "b + 1"] a by simp
  moreover have "findMissingBlocksInRange a b d = Inr (if L \<le> a + 1 \<or> b \<le> a + 1 then [(a, b)] else [])"
    unfolding findMissingBlocksInRange_eq [OF ok] H n gaps using a by (auto simp: min_def)
  ultimately show ?thesis by (simp add: getMissingBlocks_def)
qed


section \<open>Lookups of the coordinator\<close>

lemma count_all:
  assumes "blocks_ok (committed d ''blocks'')"
  shows "count_tbl blocksTableSchema [] None False d = Inr (Inl (JNum (int (card (set (block_heights (committed d ''blocks'')))))))"
proof -
  let ?t = "committed d ''blocks''"
  have "queryBuilder True [] = Inr (\<lambda>r. True)"
    by (simp add: find_query_simps)
  moreover have "filter (\<lambda>r. row_get r ''height'' \<noteq> JNull) ?t = ?t"
    by (simp add: filter_id_conv blocks_height [OF assms])
  moreover have "length ?t = card (set (block_heights ?t))"
    using distinct_card [OF distinct_heights [OF assms]] by (simp add: block_heights_map [OF assms])
  ultimately show ?thesis by (simp add: count_tbl_def read_table_def) (simp add: blocksTableSchema_def)
qed

lemma verified_indexed:
  assumes "blocks_ok (committed d ''blocks'')" and "getIndexVerifiedHeight d = Inr (Some v)"
  shows "v \<in> set (block_heights (committed d ''blocks''))"
proof -
  obtain rs where rs: "find_tbl blocksTableSchema [(''isFinal'', PVal (JBool True)), (''sort'', PVal (JStr ''height:desc'')),
              (''limit'', PVal (JNum 1))] (Some [''height'']) False d = Inr rs" "height_of rs = Some v"
    using assms(2) by (auto simp: getIndexVerifiedHeight_def bindR_eq_Inr split: option.splits if_splits)
  then obtain r rl where r: "rs = r # rl" "row_get r ''height'' = JNum v"
    by (auto simp: height_of_def split: list.splits jsval.splits)
  have "tableName blocksTableSchema = ''blocks''" by (simp add: blocksTableSchema_def)
  then obtain q where "q \<in> set (committed d ''blocks'')" "row_get q ''height'' = JNum v"
    using find_rows_member [OF rs(1) [unfolded r(1)], of r] r(2) by auto
  then have "q \<in> set (committed d ''blocks'')" "v = row_height q" by (simp_all add: row_height_def)
  then show ?thesis unfolding block_heights_map [OF assms(1)] by simp
qed


lemma getIndexStats_contiguous:
  assumes ok: "blocks_ok (committed d ''blocks'')" and H: "set (block_heights (committed d ''blocks'')) = {g..L}" and g: "g \<le> L"
  shows "\<exists>h. getIndexStats N g d = Some \<lparr>currentChainHeight = N, numBlocksIndexed = L - g + 1,
     lastIndexedBlock = h, chainLength = N - g + 1\<rparr>"
proof -
  have "queryBuilder False [(''sort'', PVal (JStr ''height:desc'')), (''limit'', PVal (JNum 1))] = Inr (\<lambda>r. row_get r ''height'' \<noteq> JNull)"
    by (simp add: queryBuilder_def where_clauses_def resolveQueryParams_def KNOWN_QUERY_PARAMS_def sort_param_def
        sort_clauses_def in_clauses_def whereIn_clauses_def nested_clauses_def null_clauses_def like_clauses_def) (simp add: eq_clauses_def fun_eq_iff)
  then obtain h where "lastIndexedHeight d = Inr h" by (simp add: lastIndexedHeight_def find_tbl_def Let_def)
  then show ?thesis using count_all [OF ok] g by (simp add: getIndexStats_def H)
qed

lemma genesis_indexed_contiguous:
  assumes ok: "blocks_ok (committed d ''blocks'')" and g: "g \<in> set (block_heights (committed d ''blocks''))"
  shows "isGenesisBlockIndexed g d = Inr True"
proof -
  obtain r where r: "r \<in> set (committed d ''blocks'')" "row_get r ''height'' = JNum g"
    using g blocks_height [OF ok] by (auto simp: block_heights_map [OF ok])
  have "queryBuilder False [(''height'', PVal (JNum g)), (''limit'', PVal (JNum 1))] = Inr (\<lambda>r. sql_eq (row_get r ''height'') (JNum g))"
    by (simp add: find_query_simps)
  moreover have "filter (\<lambda>r. sql_eq (row_get r ''height'') (JNum g)) (committed d ''blocks'') \<noteq> []"
    using r by (auto simp: filter_empty_conv sql_eq_def)
  moreover have "tableName blocksTableSchema = ''blocks''" by (simp add: blocksTableSchema_def)
  ultimately show ?thesis
    by (simp add: isGenesisBlockIndexed_def find_tbl_def Let_def read_table_def find_query_simps)
qed


section \<open>Enough jobs\<close>

lemma ceil_div_bounds:
  assumes "0 < n"
  shows "a \<le> ceil_div a n * n" "ceil_div a n * n < a + n"
proof -
  have "(- a) div n * n + (- a) mod n = - a" by (rule div_mult_mod_eq)
  moreover have "ceil_div a n * n = - ((- a) div n * n)" by (simp add: ceil_div_def)
  ultimately show "a \<le> ceil_div a n * n" "ceil_div a n * n < a + n"
    using pos_mod_sign [OF assms, of "- a"] pos_mod_bound [OF assms, of "- a"] by linarith+
qed

lemma missing_by_batches_all:
  assumes lt: "v < hi" and all: "\<And>a b. v \<le> a \<Longrightarrow> a \<le> b \<Longrightarrow> missing_blocks env a b = Inr [a..b]"
  shows "{v..hi} \<subseteq> set (missing_by_batches env v hi)"
proof
  fix x assume x: "x \<in> {v..hi}"
  define y where "y = (if x = hi then hi - 1 else x)"
  have y: "v \<le> y" "y < hi" "x \<le> y + 1" "y \<le> x" using x lt by (auto simp: y_def)
  obtain i where i: "int i = (y - v) div 10000" using y by (metis nat_0_le pos_imp_zdiv_nonneg_iff zero_less_numeral diff_ge_0_iff_ge)
  have e: "y - v = int i * 10000 + (y - v) mod 10000" using i by simp
  have m: "0 \<le> (y - v) mod 10000" "(y - v) mod 10000 < 10000" by simp_all
  have "int i * 10000 < hi - v" using e m y by linarith
  then have "int i < ceil_div (hi - v) 10000" using ceil_div_bounds(1) [of 10000 "hi - v"] by linarith
  then have "i \<in> set [0..<nat (ceil_div (hi - v) 10000)]" by simp
  moreover have "missing_blocks env (v + int i * 10000) (min (v + int i * 10000 + 10000) hi) =
      Inr [v + int i * 10000..min (v + int i * 10000 + 10000) hi]"
    using e m y by (intro all) linarith+
  moreover have "x \<in> {v + int i * 10000..min (v + int i * 10000 + 10000) hi}" using e m y x by auto
  ultimately show "x \<in> set (missing_by_batches env v hi)"
    by (auto simp: missing_by_batches_def Let_def intro!: bexI [of _ i])
qed

lemma tiny_gap_contiguous:
  assumes ok: "blocks_ok (committed d ''blocks'')" and H: "set (block_heights (committed d ''blocks'')) = {g..L}"
    and g: "0 \<le> g" "g \<le> L" "L < N"
  shows "tiny_gap (indexer_env g N d) ms = Inr (ms @ (let k = N - L - int (length ms) in if 0 < k \<and> k \<le> 100 then [L + int (length ms) + 1..N] else []))"
proof -
  obtain h where ix: "getIndexStats N g d = Some \<lparr>currentChainHeight = N, numBlocksIndexed = L - g + 1,
     lastIndexedBlock = h, chainLength = N - g + 1\<rparr>" using getIndexStats_contiguous [OF ok H g(2)] by blast
  have "range_js (L + int (length ms) + 1) (Some (N + 1)) 1 = Inr [L + int (length ms) + 1..N]" if "int (length ms) < N - L"
    using range_interval [of "L + int (length ms) + 1" "N + 1"] that g by simp
  then show ?thesis by (simp add: tiny_gap_def indexer_env_def ix Let_def)
qed

lemma scheduleMissing_run:
  assumes "genesis_indexed env" and "c \<le> skipThreshold cfg"
    and "v = height_or (verifiedHeight env) (genesisHeight env)"
    and "tiny_gap env (missing_by_batches env v (min (v + maxBlocksToSchedule cfg) (currentHeight env))) = Inr hs"
    and "batches_of hs \<le> below (skipThreshold cfg) cs"
  shows "\<exists>cs'. scheduleMissingBlocksIndexing cfg env (st\<lparr>jobCounts := c # cs\<rparr>) =
     Some (st\<lparr>jobCounts := cs', blockMessageQueue := blockMessageQueue st @ sort hs\<rparr>)"
proof (cases "hs = []")
  case True
  then show ?thesis using assms by (auto simp: scheduleMissingBlocksIndexing_def read_count_def Let_def)
next
  case False
  then show ?thesis using assms scheduleBlocksIndexing_all [of hs cfg "st\<lparr>jobCounts := cs\<rparr>"]
    by (auto simp: scheduleMissingBlocksIndexing_def read_count_def Let_def)
qed

lemma verified_in_index:
  assumes ok: "blocks_ok (committed d ''blocks'')" and H: "set (block_heights (committed d ''blocks'')) = {g..L}" and g: "g \<le> L"
  shows "height_or (verifiedHeight (indexer_env g N d)) g \<in> {g..L}"
  using verified_indexed [OF ok] H g
  by (auto simp: indexer_env_def height_or_def split: option.splits sum.splits)


text \<open>
  The missing-blocks job stalls. With an index without gaps from \<open>g\<close> to \<open>L\<close>, two or more
  indexed blocks above the highest final one, more than 100 blocks missing and the node within
  10000 blocks of the verified height, the job schedules nothing: the query finds no gap
  below \<open>L\<close>, and the check for tiny gaps gives up above 100.
\<close>

theorem missing_job_stalls:
  fixes d :: db and g L N :: int
  assumes ok: "blocks_ok (committed d ''blocks'')" and H: "set (block_heights (committed d ''blocks'')) = {g..L}"
    and g: "0 \<le> g" "g \<le> L" and mx: "2 \<le> maxBlocksToSchedule cfg" and c: "c \<le> skipThreshold cfg"
  defines "v \<equiv> height_or (verifiedHeight (indexer_env g N d)) g"
  assumes lag: "v + 2 \<le> L" "L + 100 < N" "N \<le> v + 10000"
  shows "scheduleMissingBlocksIndexing cfg (indexer_env g N d) (st\<lparr>jobCounts := c # cs\<rparr>) = Some (st\<lparr>jobCounts := cs\<rparr>)"
proof -
  let ?env = "indexer_env g N d" and ?hi = "min (v + maxBlocksToSchedule cfg) N"
  have v: "g \<le> v" using verified_in_index [OF ok H g(2)] by (simp add: v_def)
  have hi: "v + 2 \<le> ?hi" "?hi \<le> v + 10000" using mx lag by auto
  have "ceil_div (?hi - v) 10000 = 1"
    using ceil_div_bounds [of 10000 "?hi - v"] hi by linarith
  then have "missing_by_batches ?env v ?hi = []"
    using getMissingBlocks_contiguous [OF ok H g(1) v, of ?hi] hi lag(1)
    by (simp add: missing_by_batches_def indexer_env_def)
  moreover have "tiny_gap ?env [] = Inr []"
    using tiny_gap_contiguous [OF ok H g, of N "[]"] lag(2) by simp
  moreover have "genesis_indexed ?env"
    using genesis_indexed_contiguous [OF ok, of g] H g by (simp add: indexer_env_def)
  ultimately show ?thesis using c v_def
    by (simp add: scheduleMissingBlocksIndexing_def read_count_def Let_def) (simp add: indexer_env_def)
qed


definition example_block :: "int \<Rightarrow> row" where
  "example_block h = [(''id'', JStr (''b'' @ show_int h)), (''height'', JNum h), (''timestamp'', JNum (10 * h)),
     (''generatorAddress'', JStr ''kly''), (''size'', JNum 0), (''isFinal'', JBool False),
     (''assetsModules'', JNull), (''numberOfEvents'', JNum 0), (''reward'', JBig 0)]"

definition example_db :: "int list \<Rightarrow> db" where
  "example_db hs = \<lparr>committed = (\<lambda>n. if n = ''blocks'' then map example_block hs else []),
     working = (\<lambda>n. if n = ''blocks'' then map example_block hs else [])\<rparr>"

lemma example_height [simp]: "row_get (example_block h) ''height'' = JNum h"
  by (simp add: example_block_def row_get_def)

lemma example_db_ok: "distinct hs \<Longrightarrow> blocks_ok (committed (example_db hs) ''blocks'')"
proof -
  assume "distinct hs"
  moreover have "row_key blocksTableSchema (example_block h) = [JNum h]" for h
    by (simp add: row_key_def blocksTableSchema_def)
  moreover have "row_typed blocksTableSchema (example_block h)" "row_wf blocksTableSchema (example_block h)" for h
    by (simp_all add: row_typed_def row_wf_def blocksTableSchema_def mk_col_def example_block_def row_get_def cell_ok_def)
  ultimately show ?thesis
    by (simp add: blocks_ok_def table_typed_def table_wf_def example_db_def list_all_iff distinct_map inj_on_def o_def)
qed

lemma example_db_heights: "block_heights (committed (example_db hs) ''blocks'') = hs"
  by (induction hs) (simp_all add: block_heights_def example_db_def map_filter_simps)

lemma example_verified: "getIndexVerifiedHeight (example_db hs) = Inr None"
proof -
  have "queryBuilder False [(''isFinal'', PVal (JBool True)), (''sort'', PVal (JStr ''height:desc'')), (''limit'', PVal (JNum 1))]
      = Inr (\<lambda>r. row_get r ''height'' \<noteq> JNull \<and> sql_eq (row_get r ''isFinal'') (JBool True))"
    by (simp add: queryBuilder_def where_clauses_def resolveQueryParams_def KNOWN_QUERY_PARAMS_def sort_param_def
        sort_clauses_def in_clauses_def whereIn_clauses_def nested_clauses_def null_clauses_def like_clauses_def)
       (simp add: eq_clauses_def fun_eq_iff)
  moreover have "\<not> sql_eq (row_get (example_block h) ''isFinal'') (JBool True)" for h
    by (simp add: example_block_def row_get_def sql_eq_def)
  moreover have "tableName blocksTableSchema = ''blocks''" by (simp add: blocksTableSchema_def)
  ultimately show ?thesis
    by (simp add: getIndexVerifiedHeight_def find_tbl_def Let_def read_table_def example_db_def limit_rows_def
      num_param_def sort_param_def order_by_def height_of_def)
qed

theorem getMissingBlocks_finds_witness:
  "\<exists>xs. getMissingBlocks 0 9 (example_db [0, 1, 2, 6, 9]) = Inr xs \<and> 4 \<in> set xs \<and> 8 \<notin> set xs"
proof -
  let ?t = "committed (example_db [0, 1, 2, 6, 9]) ''blocks''"
  have "{h \<in> set (block_heights ?t). 0 \<le> h \<and> h \<le> 9} = set [0, 1, 2, 6, 9]" by (auto simp: example_db_heights)
  then have "card {h \<in> set (block_heights ?t). 0 \<le> h \<and> h \<le> 9} = 5" by simp
  moreover have "4 \<in> missing_spec (set (block_heights ?t)) 0 9"
    unfolding missing_spec_def example_db_heights by (auto intro!: bexI [of _ 6])
  moreover have "8 \<notin> missing_spec (set (block_heights ?t)) 0 9"
    unfolding missing_spec_def example_db_heights by auto
  ultimately show ?thesis using getMissingBlocks_finds [of "example_db [0, 1, 2, 6, 9]" 0 9] example_db_ok [of "[0, 1, 2, 6, 9]"]
    by auto
qed


theorem missing_job_stalls_witness:
  "scheduleMissingBlocksIndexing \<lparr>skipThreshold = 1000, maxBlocksToSchedule = 25000\<rparr> (indexer_env 0 150 (example_db [0, 1, 2]))
     \<lparr>blockMessageQueue = [], accountMessageQueue = [], jobCounts = [0, 0]\<rparr>
   = Some \<lparr>blockMessageQueue = [], accountMessageQueue = [], jobCounts = [0]\<rparr>"
proof -
  have v: "verifiedHeight (indexer_env 0 150 (example_db [0, 1, 2])) = None" by (simp add: indexer_env_def example_verified)
  have H: "set (block_heights (committed (example_db [0, 1, 2]) ''blocks'')) = {0..2}"
    by (auto simp: example_db_heights)
  show ?thesis
    using missing_job_stalls [of "example_db [0, 1, 2]" 0 2 "\<lparr>skipThreshold = 1000, maxBlocksToSchedule = 25000\<rparr>" 0 150
        "[0]" "\<lparr>blockMessageQueue = [], accountMessageQueue = [], jobCounts = []\<rparr>"]
    by (simp add: example_db_ok H v height_or_def)
qed

text \<open>
  Start-up scheduling. When the number of live jobs is within the threshold and the indexer
  answers with missing heights, every validator is queued, marked as a validator, and exactly
  the missing heights are queued behind what the queue held, in ascending order, provided
  the job count falls below the threshold once for each batch of 15000.
\<close>

theorem init_schedules_missing:
  assumes "missing_blocks env (height_or (verifiedHeight env) (genesisHeight env + 1)) (currentHeight env) = Inr hs"
    and "jobCounts st = c # cs" and "c \<le> skipThreshold cfg" and "batches_of hs \<le> below (skipThreshold cfg) cs"
  shows "\<exists>st'. initIndexingScheduler cfg env validators st = Some st'
     \<and> blockMessageQueue st' = blockMessageQueue st @ sort hs
     \<and> length (accountMessageQueue st') = length (accountMessageQueue st) + length validators
     \<and> (\<forall>v \<in> set (drop (length (accountMessageQueue st)) (accountMessageQueue st')). row_get v ''isValidator'' = JBool True)"
proof -
  let ?st = "scheduleValidatorsIndexing validators st"
  have flag: "row_get (filter (\<lambda>(c, _). c \<noteq> ''isValidator'') v @ [(''isValidator'', JBool True)]) ''isValidator'' = JBool True" for v
    by (induction v) (auto simp: row_get_def)
  have st: "(if validators \<noteq> [] then ?st else st) = ?st" by (simp add: scheduleValidatorsIndexing_def)
  obtain cs' where "scheduleBlocksIndexing cfg hs (?st\<lparr>jobCounts := cs\<rparr>) =
      Some (?st\<lparr>jobCounts := cs', blockMessageQueue := blockMessageQueue ?st @ sort hs\<rparr>)"
    using scheduleBlocksIndexing_all [of hs cfg "?st\<lparr>jobCounts := cs\<rparr>"] assms(4) by auto
  then have "initIndexingScheduler cfg env validators st = Some (if hs = [] then ?st\<lparr>jobCounts := cs\<rparr>
      else ?st\<lparr>jobCounts := cs', blockMessageQueue := blockMessageQueue ?st @ sort hs\<rparr>)"
    using assms st by (auto simp: initIndexingScheduler_def Let_def read_count_def scheduleValidatorsIndexing_def)
  then show ?thesis by (auto simp: scheduleValidatorsIndexing_def flag)
qed

theorem init_schedules_missing_witness:
  "\<exists>st'. initIndexingScheduler \<lparr>skipThreshold = 10, maxBlocksToSchedule = 20\<rparr>
       \<lparr>genesis_indexed = True, genesisHeight = 0, currentHeight = 3, verifiedHeight = Some 1,
        missing_blocks = (\<lambda>a b. Inr [3, 2]), indexStatus = None\<rparr> [[(''address'', JStr ''kly'')]]
       \<lparr>blockMessageQueue = [9], accountMessageQueue = [], jobCounts = [0, 0]\<rparr> = Some st'
     \<and> blockMessageQueue st' = [9, 2, 3]"
  using init_schedules_missing [of "\<lparr>genesis_indexed = True, genesisHeight = 0, currentHeight = 3, verifiedHeight = Some 1,
        missing_blocks = (\<lambda>a b. Inr [3, 2]), indexStatus = None\<rparr>" "[3, 2]"
      "\<lparr>blockMessageQueue = [9], accountMessageQueue = [], jobCounts = [0, 0]\<rparr>" 0 "[0]"
      "\<lparr>skipThreshold = 10, maxBlocksToSchedule = 20\<rparr>" "[[(''address'', JStr ''kly'')]]"]
  by (auto simp: batches_of_def MAX_BATCH_SIZE_def ceil_div_def)


end
