(* ===== verification/Price_Index.thy ===== *)
theory Price_Index
  imports Swap_Process Missing_Blocks
begin

text \<open>
  The price history of the DEX tokens, \<^verbatim>\<open>dataService/dex/priceIndexer.js\<close> with
  \<^verbatim>\<open>dataService/dex/timestamp.js\<close> and the history queries of \<^verbatim>\<open>dataService/dex/priceQuoter.js\<close>: tick
  prices, candles and last prices at normalised times, their removal with a deleted block and the
  jobs that fetch the KLY/USD history. A time that is not a number is \<open>None\<close>.
\<close>

section \<open>Times\<close>

definition intervalToSecond :: "(string \<times> int) list" where
  "intervalToSecond =
    [(''current'', 0), (''1s'', 1), (''1m'', 60), (''3m'', 180), (''5m'', 300), (''15m'', 900), (''30m'', 1800), (''1h'', 3600),
     (''2h'', 7200), (''4h'', 14400), (''6h'', 21600), (''8h'', 28800), (''12h'', 43200), (''24h'', 86400), (''1d'', 86400),
     (''3d'', 259200), (''7d'', 604800), (''1w'', 604800), (''1M'', 2592000), (''30d'', 2592000), (''1y'', 31104000)]"

definition normalizeBlockTime :: "int \<Rightarrow> string \<Rightarrow> int option" where
  "normalizeBlockTime blockTime interval =
     (let second = (case map_of intervalToSecond interval of Some s \<Rightarrow> s | None \<Rightarrow> 1)
      in if second = 0 then None else Some (blockTime - blockTime smod second))"

text \<open>The database refuses a time that is not a number.\<close>

definition sql_time :: "int option \<Rightarrow> int result" where
  "sql_time t = (case t of Some n \<Rightarrow> Inr n | None \<Rightarrow> Inl (SqlError ''Unknown column NaN''))"

section \<open>History queries\<close>

text \<open>\<open>currentTimestamp\<close> is the clock in seconds; the last two fields are the answers of the market service.\<close>

record price_env = swap_env +
  tickTimeframe :: string
  ohlcTimeframes :: "string list"
  lastPriceInterval :: string
  currentTimestamp :: int
  getKLYUSDPriceAtTimestamp :: "int \<Rightarrow> jsval result"
  getKLYUSDCandles :: "int \<Rightarrow> int option \<Rightarrow> string \<Rightarrow> row list result"

definition OHLC_TIMEFRAMES :: "price_env \<Rightarrow> string list" where
  "OHLC_TIMEFRAMES env = filter (\<lambda>t. t \<in> fst ` set intervalToSecond) (ohlcTimeframes env)"

definition tick_time :: "row \<Rightarrow> int" where
  "tick_time r = (case row_get r ''time'' of JNum n \<Rightarrow> n | _ \<Rightarrow> 0)"

definition tick_rows :: "string \<Rightarrow> bool \<Rightarrow> db \<Rightarrow> table" where
  "tick_rows pair trx d = read_table (tableName (getTickPriceTableSchema pair)) trx d"

text \<open>\<^verbatim>\<open>ORDER BY ABS(time - timestamp) LIMIT 1\<close>; of two equally near rows the first of the table.\<close>

definition nearestLastPriceQuery :: "int \<Rightarrow> table \<Rightarrow> jsval list" where
  "nearestLastPriceQuery timestamp t = map (\<lambda>r. row_get r ''value'') (take 1 (sort_key (\<lambda>r. \<bar>tick_time r - timestamp\<bar>) t))"

definition lastPriceQuery :: "int \<Rightarrow> table \<Rightarrow> jsval list" where
  "lastPriceQuery timestamp t = map (\<lambda>r. row_get r ''value'') (take 1 (filter (\<lambda>r. tick_time r = timestamp) t))"

definition getLastPriceFromTickPriceTable :: "string \<Rightarrow> int \<Rightarrow> string \<Rightarrow> db \<Rightarrow> jsval result" where
  "getLastPriceFromTickPriceTable pair timestamp timeframe d =
     (case map_of intervalToSecond timeframe of None \<Rightarrow> Inl (Error ''invalid timeframe'')
      | Some s \<Rightarrow> let t = tick_rows pair False d; exact = lastPriceQuery (timestamp - s) t;
                      price = (if exact = [] then nearestLastPriceQuery (timestamp - s) t else exact)
                  in Inr (case price of v # _ \<Rightarrow> v | [] \<Rightarrow> JNum 0))"

definition last_intervals :: "string list" where
  "last_intervals = [''current'', ''1h'', ''24h'', ''7d'', ''30d'', ''1y'']"

definition getLastPrice :: "price_env \<Rightarrow> string \<Rightarrow> int \<Rightarrow> db \<Rightarrow> row result" where
  "getLastPrice env pair timestampSecond d =
     bindR (sql_time (normalizeBlockTime timestampSecond (lastPriceInterval env))) (\<lambda>timestamp.
     bindR (mapR (\<lambda>i. bindR (getLastPriceFromTickPriceTable pair timestamp i d) (\<lambda>v. Inr (i, v))) last_intervals) (\<lambda>vs.
       Inr ((''updatedOn'', JNum timestamp) # vs)))"

text \<open>\<^verbatim>\<open>MIN\<close> and \<^verbatim>\<open>MAX\<close> skip \<^verbatim>\<open>NULL\<close>; \<^verbatim>\<open>COALESCE(x, 0)\<close>.\<close>

definition sql_extremum :: "(jsval \<Rightarrow> jsval \<Rightarrow> bool) \<Rightarrow> jsval list \<Rightarrow> jsval" where
  "sql_extremum better vs = foldl (\<lambda>m v. if v = JNull then m else if m = JNull \<or> better v m then v else m) JNull vs"

definition coalesce0 :: "jsval \<Rightarrow> jsval" where
  "coalesce0 v = (if v = JNull then JNum 0 else v)"

record candle =
  c_open :: jsval
  c_high :: jsval
  c_low :: jsval
  c_close :: jsval

definition candle_of :: "table \<Rightarrow> table \<Rightarrow> candle" where
  "candle_of t g =
     (let at = (\<lambda>x. coalesce0 (case filter (\<lambda>r. tick_time r = x) t of r # _ \<Rightarrow> row_get r ''value'' | [] \<Rightarrow> JNull));
          times = map tick_time g; values = map (\<lambda>r. row_get r ''value'') g
      in \<lparr>c_open = at (Min (set times)), c_high = coalesce0 (sql_extremum (\<lambda>v m. sql_leq m v) values),
          c_low = coalesce0 (sql_extremum sql_leq values), c_close = at (Max (set times))\<rparr>)"

text \<open>The groups appear in the order in which the scan of the table meets them.\<close>

definition transformTickToOhlc :: "string \<Rightarrow> string \<Rightarrow> int \<Rightarrow> int \<Rightarrow> bool \<Rightarrow> db \<Rightarrow> candle list" where
  "transformTickToOhlc pair timeframe from till trx d =
     (let second = the (map_of intervalToSecond timeframe); t = tick_rows pair trx d;
          rows = filter (\<lambda>r. from \<le> tick_time r \<and> tick_time r \<le> till) t;
          open_time = (\<lambda>r. tick_time r div second)
      in map (\<lambda>k. candle_of t (filter (\<lambda>r. open_time r = k) rows)) (rev (remdups (rev (map open_time rows)))))"

section \<open>Indexing of the prices of a token\<close>

definition pair_of :: "string \<Rightarrow> string \<Rightarrow> istate \<Rightarrow> string option result" where
  "pair_of baseTokenId quoteTokenId st =
     bindR (token_row baseTokenId [''symbol''] False (st_db st)) (\<lambda>base.
     bindR (token_row quoteTokenId [''symbol''] False (st_db st)) (\<lambda>quote.
       Inr (case (base, quote) of (Some b, Some q) \<Rightarrow>
              Some (map to_lower (js_String (row_get b ''symbol'') @ js_String (row_get q ''symbol''))) | _ \<Rightarrow> None)))"

definition at_time :: "int \<Rightarrow> params" where
  "at_time time = [(''time'', PVal (JNum time)), (''limit'', PVal (JNum 1))]"

definition indexTokenTickPrice :: "price_env \<Rightarrow> int \<Rightarrow> string \<Rightarrow> string \<Rightarrow> bool \<Rightarrow> istate \<Rightarrow> istate result" where
  "indexTokenTickPrice env timestamp baseTokenId quoteTokenId dbTrx st =
     bindR (pair_of baseTokenId quoteTokenId st) (\<lambda>p. case p of None \<Rightarrow> Inr st | Some pair \<Rightarrow>
     bindR (sql_time (normalizeBlockTime timestamp (tickTimeframe env))) (\<lambda>time.
     bindR (find_tbl (getTickPriceTableSchema pair) (at_time time) (Some [''time'']) dbTrx (st_db st)) (\<lambda>priceAtTimestamp.
     if priceAtTimestamp \<noteq> [] then Inr st
     else bindR (quote_price env baseTokenId quoteTokenId (st_db st)) (\<lambda>v.
          if v \<noteq> JNum 0 then with_db (upsert (getTickPriceTableSchema pair) [[(''time'', JNum time), (''value'', v)]] dbTrx) st
          else Inr st))))"

definition candle_row :: "int \<Rightarrow> candle \<Rightarrow> row" where
  "candle_row time c = [(''time'', JNum time), (''open'', c_open c), (''high'', c_high c), (''low'', c_low c), (''close'', c_close c)]"

definition index_candle :: "string \<Rightarrow> int \<Rightarrow> bool \<Rightarrow> string \<Rightarrow> istate \<Rightarrow> istate result" where
  "index_candle pair timestamp dbTrx timeframe st =
     bindR (sql_time (normalizeBlockTime timestamp timeframe)) (\<lambda>time.
     let previousTime = time - the (map_of intervalToSecond timeframe) in
     bindR (find_tbl (getOhlcTableSchema pair timeframe) (at_time time) (Some [''time'']) dbTrx (st_db st)) (\<lambda>ohlcAtTimestamp.
     if ohlcAtTimestamp \<noteq> [] then Inr st
     else case transformTickToOhlc pair timeframe previousTime time dbTrx (st_db st) of
            c # _ \<Rightarrow> with_db (upsert (getOhlcTableSchema pair timeframe) [candle_row time c] dbTrx) st
          | [] \<Rightarrow> Inr st))"

definition indexTokenOhlcPrice :: "price_env \<Rightarrow> int \<Rightarrow> string \<Rightarrow> string \<Rightarrow> bool \<Rightarrow> istate \<Rightarrow> istate result" where
  "indexTokenOhlcPrice env timestamp baseTokenId quoteTokenId dbTrx st =
     bindR (pair_of baseTokenId quoteTokenId st) (\<lambda>p. case p of None \<Rightarrow> Inr st | Some pair \<Rightarrow>
       foldR (index_candle pair timestamp dbTrx) (OHLC_TIMEFRAMES env) st)"

definition updateLastPrice :: "price_env \<Rightarrow> string \<Rightarrow> string \<Rightarrow> int option \<Rightarrow> bool \<Rightarrow> istate \<Rightarrow> istate result" where
  "updateLastPrice env baseTokenId pair t dbTrx st =
     bindR (sql_time t) (\<lambda>time.
     bindR (find_tbl lastPriceTableSchema [(''tokenId'', PVal (JStr baseTokenId)), (''updatedOn'', PVal (JNum time)), (''limit'', PVal (JNum 1))]
              (Some [''updatedOn'']) dbTrx (st_db st)) (\<lambda>lastPriceAtTimestamp.
     if lastPriceAtTimestamp \<noteq> [] then Inr st
     else bindR (getLastPrice env pair time (st_db st)) (\<lambda>lastPrice.
          if list_all (\<lambda>(_, v). js_Boolean v) lastPrice
          then with_db (upsert lastPriceTableSchema [(''tokenId'', JStr baseTokenId) # lastPrice] dbTrx) st
          else Inr st)))"

definition indexTokenLastPrice :: "price_env \<Rightarrow> int \<Rightarrow> string \<Rightarrow> string \<Rightarrow> bool \<Rightarrow> istate \<Rightarrow> istate result" where
  "indexTokenLastPrice env timestamp baseTokenId quoteTokenId dbTrx st =
     (if quoteTokenId \<noteq> getKLYTokenID env then Inl (Error ''quoting last price only supported on KLY'')
      else bindR (pair_of baseTokenId quoteTokenId st) (\<lambda>p. case p of None \<Rightarrow> Inr st | Some pair \<Rightarrow>
           updateLastPrice env baseTokenId pair (normalizeBlockTime timestamp (lastPriceInterval env)) dbTrx st))"

text \<open>The fourth argument of the call, the transaction, is not a parameter of this function.\<close>

definition indexTokenPrice :: "price_env \<Rightarrow> int \<Rightarrow> string \<Rightarrow> string \<Rightarrow> istate \<Rightarrow> istate result" where
  "indexTokenPrice env timestamp baseTokenId quoteTokenId st =
     bindR (indexTokenTickPrice env timestamp baseTokenId quoteTokenId False st) (\<lambda>st.
     bindR (indexTokenOhlcPrice env timestamp baseTokenId quoteTokenId False st)
       (indexTokenLastPrice env timestamp baseTokenId quoteTokenId False))"

section \<open>Blocks\<close>

definition add_token_price :: "price_env \<Rightarrow> int \<Rightarrow> row \<Rightarrow> istate \<Rightarrow> istate result" where
  "add_token_price env timestamp token st =
     (case row_get token ''tokenId'' of
        JStr t \<Rightarrow> if t \<noteq> getKLYTokenID env then indexTokenPrice env timestamp t (getKLYTokenID env) st else Inr st
      | _ \<Rightarrow> Inl TypeError)"

text \<open>The job added to \<^verbatim>\<open>indexCurrentKLYUSDPriceQueue\<close> carries the timestamp of the block.\<close>

definition addPriceIndex :: "price_env \<Rightarrow> block \<Rightarrow> istate \<Rightarrow> istate result" where
  "addPriceIndex env blockHeader st =
     bindR (find_tbl dexTokenTableSchema [] None False (st_db st)) (\<lambda>registeredDexTokens.
     bindR (foldR (add_token_price env (bl_timestamp blockHeader)) registeredDexTokens st)
       (updateLastPrice env (getKLYTokenID env) ''klyusd'' (normalizeBlockTime (bl_timestamp blockHeader) (lastPriceInterval env)) True))"

definition after_time :: "int \<Rightarrow> params" where
  "after_time time = [(''propBetweens'', PBetweens [\<lparr>pb_property = ''time'', pb_from = None, pb_to = None, pb_greaterThanEqualTo = None,
     pb_lowerThanEqualTo = None, pb_greaterThan = Some (JNum time), pb_lowerThan = None\<rparr>])]"

definition kly_pair :: "row \<Rightarrow> string result" where
  "kly_pair token = (case row_get token ''symbol'' of JStr s \<Rightarrow> Inr (map to_lower s @ ''kly'') | _ \<Rightarrow> Inl TypeError)"

definition deleteTickPriceIndex :: "price_env \<Rightarrow> row \<Rightarrow> block \<Rightarrow> istate \<Rightarrow> istate result" where
  "deleteTickPriceIndex env token blockHeader st =
     bindR (kly_pair token) (\<lambda>pair.
     bindR (sql_time (normalizeBlockTime (bl_timestamp blockHeader) (tickTimeframe env))) (\<lambda>tickTimestamp.
       with_db (deleteByParams (getTickPriceTableSchema pair) (after_time tickTimestamp) True) st))"

definition deleteOhlcPriceIndex :: "price_env \<Rightarrow> row \<Rightarrow> block \<Rightarrow> istate \<Rightarrow> istate result" where
  "deleteOhlcPriceIndex env token blockHeader st =
     foldR (\<lambda>timeframe st.
       bindR (kly_pair token) (\<lambda>pair.
       bindR (sql_time (normalizeBlockTime (bl_timestamp blockHeader) timeframe)) (\<lambda>ohlcTimestamp.
         with_db (deleteByParams (getOhlcTableSchema pair timeframe) (after_time ohlcTimestamp) True) st))) (OHLC_TIMEFRAMES env) st"

definition delete_token_price :: "price_env \<Rightarrow> block \<Rightarrow> row \<Rightarrow> istate \<Rightarrow> istate result" where
  "delete_token_price env blockHeader token st =
     bindR (deleteTickPriceIndex env token blockHeader st) (\<lambda>st.
     bindR (deleteOhlcPriceIndex env token blockHeader st) (\<lambda>st.
     case row_get token ''tokenId'' of
       JStr t \<Rightarrow> indexTokenLastPrice env (bl_timestamp blockHeader) t (getKLYTokenID env) True st
     | _ \<Rightarrow> Inl TypeError))"

definition deletePriceIndex :: "price_env \<Rightarrow> block \<Rightarrow> istate \<Rightarrow> istate result" where
  "deletePriceIndex env blockHeader st =
     bindR (find_tbl dexTokenTableSchema [] (Some [''tokenId'', ''symbol'']) False (st_db st)) (\<lambda>registeredDexTokens.
     bindR (foldR (delete_token_price env blockHeader) registeredDexTokens st)
       (updateLastPrice env (getKLYTokenID env) ''klyusd'' (normalizeBlockTime (bl_timestamp blockHeader) (lastPriceInterval env)) True))"

section \<open>The KLY/USD history\<close>

definition MAX_PREVIOUS_KLYUSD_INDEX_BATCH :: int where "MAX_PREVIOUS_KLYUSD_INDEX_BATCH = 720"

function price_ranges :: "int \<Rightarrow> int \<Rightarrow> int \<Rightarrow> (int \<times> int) list" where
  "price_ranges second i now =
     (if i < now \<and> 0 < second
      then (let from = i - i smod second in (from, from + second * MAX_PREVIOUS_KLYUSD_INDEX_BATCH - 1))
           # price_ranges second (i + second * MAX_PREVIOUS_KLYUSD_INDEX_BATCH) now
      else [])"
  by pat_completeness auto
termination by (relation "measure (\<lambda>(s, i, n). nat (n - i))") (auto simp: MAX_PREVIOUS_KLYUSD_INDEX_BATCH_def)

declare price_ranges.simps [simp del]

text \<open>
  The loop over the batches of a timeframe. For a timeframe of no seconds the counter stands still and the
  loop never ends, \<open>None\<close>; for an unknown timeframe the counter becomes not-a-number after one round.
\<close>

definition history_jobs :: "string \<Rightarrow> int \<Rightarrow> int \<Rightarrow> (int \<times> int option) list option" where
  "history_jobs timeframe start now =
     (case map_of intervalToSecond timeframe of
        None \<Rightarrow> Some (if start < now then [(start, None)] else [])
      | Some s \<Rightarrow> if s = 0 then (if start < now then None else Some [])
                 else Some (map (\<lambda>(a, b). (a, Some b)) (price_ranges s start now)))"

record price_jobs =
  tickJobs :: "(int \<times> int option) list"
  ohlcJobs :: "(string \<times> int \<times> int option) list"

fun ohlc_jobs :: "string list \<Rightarrow> int \<Rightarrow> int \<Rightarrow> (string \<times> int \<times> int option) list option" where
  "ohlc_jobs [] start now = Some []"
| "ohlc_jobs (t # ts) start now =
     (case history_jobs t start now of None \<Rightarrow> None
      | Some js \<Rightarrow> (case ohlc_jobs ts start now of None \<Rightarrow> None | Some rest \<Rightarrow> Some (map (Pair t) js @ rest)))"

definition addGenesisPriceIndex :: "price_env \<Rightarrow> block \<Rightarrow> price_jobs option" where
  "addGenesisPriceIndex env blockHeader =
     (case history_jobs (tickTimeframe env) (bl_timestamp blockHeader) (currentTimestamp env) of None \<Rightarrow> None
      | Some ticks \<Rightarrow> (case ohlc_jobs (OHLC_TIMEFRAMES env) (bl_timestamp blockHeader) (currentTimestamp env) of None \<Rightarrow> None
          | Some ohlcs \<Rightarrow> Some \<lparr>tickJobs = ticks, ohlcJobs = ohlcs\<rparr>))"

definition indexKLYUSDTickPrice :: "price_env \<Rightarrow> int \<Rightarrow> istate \<Rightarrow> istate result" where
  "indexKLYUSDTickPrice env timestamp st =
     bindR (sql_time (normalizeBlockTime timestamp (tickTimeframe env))) (\<lambda>time.
     bindR (find_tbl (getTickPriceTableSchema ''klyusd'') (at_time time) (Some [''time'']) False (st_db st)) (\<lambda>priceAtTimestamp.
     if priceAtTimestamp \<noteq> [] then Inr st
     else bindR (getKLYUSDPriceAtTimestamp env time) (\<lambda>v.
          if \<not> js_Boolean v then Inr st
          else with_db (upsert (getTickPriceTableSchema ''klyusd'') [[(''time'', JNum time), (''value'', v)]] False) st)))"

definition indexKLYUSDOhlcPrice :: "price_env \<Rightarrow> int \<Rightarrow> istate \<Rightarrow> istate result" where
  "indexKLYUSDOhlcPrice env timestamp st = foldR (index_candle ''klyusd'' timestamp False) (OHLC_TIMEFRAMES env) st"

definition indexCurrentKLYUSDPrice :: "price_env \<Rightarrow> int \<Rightarrow> istate \<Rightarrow> istate result" where
  "indexCurrentKLYUSDPrice env timestamp st =
     bindR (indexKLYUSDTickPrice env timestamp st) (indexKLYUSDOhlcPrice env timestamp)"

definition start_indexed :: "table_config \<Rightarrow> row list \<Rightarrow> istate \<Rightarrow> bool result" where
  "start_indexed cfg candles st =
     (case candles of [] \<Rightarrow> Inr False
      | c # _ \<Rightarrow> bindR (find_tbl cfg [(''time'', PVal (field c ''start'')), (''limit'', PVal (JNum 1))] (Some [''time'']) False (st_db st))
                  (\<lambda>rs. Inr (rs \<noteq> [])))"

definition indexPreviousKLYUSDTickPrice :: "price_env \<Rightarrow> int \<Rightarrow> int option \<Rightarrow> istate \<Rightarrow> istate result" where
  "indexPreviousKLYUSDTickPrice env from till st =
     bindR (getKLYUSDCandles env from till (tickTimeframe env)) (\<lambda>candles.
     bindR (start_indexed (getTickPriceTableSchema ''klyusd'') candles st) (\<lambda>known.
     if known then Inr st
     else foldR (\<lambda>c. with_db (upsert (getTickPriceTableSchema ''klyusd'')
            [[(''time'', field c ''start''), (''value'', field c ''open'')]] False)) candles st))"

definition indexPreviousKLYUSDOhlcPrice :: "price_env \<Rightarrow> string \<Rightarrow> int \<Rightarrow> int option \<Rightarrow> istate \<Rightarrow> istate result" where
  "indexPreviousKLYUSDOhlcPrice env timeframe from till st =
     bindR (getKLYUSDCandles env from till timeframe) (\<lambda>candles.
     bindR (start_indexed (getOhlcTableSchema ''klyusd'' timeframe) candles st) (\<lambda>known.
     if known then Inr st
     else foldR (\<lambda>c. with_db (upsert (getOhlcTableSchema ''klyusd'' timeframe)
            [override [(''time'', field c ''start'')] c] False)) candles st))"

section \<open>Laws of the times\<close>

lemma normalize_pos:
  assumes "map_of intervalToSecond interval = Some s" "0 < s" "0 \<le> t"
  shows "normalizeBlockTime t interval = Some (s * (t div s))"
  using assms smod_pos [of t s] by (simp add: normalizeBlockTime_def minus_mod_eq_mult_div)

lemma normalize_idem:
  assumes "map_of intervalToSecond interval = Some s" "0 < s" "0 \<le> t" "normalizeBlockTime t interval = Some n"
  shows "normalizeBlockTime n interval = Some n" "n \<le> t" "t < n + s" "0 \<le> n"
proof -
  have n: "n = s * (t div s)" using assms normalize_pos [OF assms(1-3)] by simp
  then show n0: "0 \<le> n" using assms(2,3) by (simp add: pos_imp_zdiv_nonneg_iff)
  show "normalizeBlockTime n interval = Some n" using n n0 assms(2) normalize_pos [OF assms(1,2), of n] by simp
  show "n \<le> t" using n assms(2) minus_mod_eq_mult_div [of t s] pos_mod_sign [of s t] by linarith
  show "t < n + s" using n assms(2) minus_mod_eq_mult_div [of t s] pos_mod_bound [of s t] by linarith
qed

definition batch :: "int \<Rightarrow> int" where "batch s = s * MAX_PREVIOUS_KLYUSD_INDEX_BATCH"

lemma batch_pos: "0 < s \<Longrightarrow> 0 < batch s"
  by (simp add: batch_def MAX_PREVIOUS_KLYUSD_INDEX_BATCH_def)

lemma next_batch: "0 < s \<Longrightarrow> s * ((i + batch s) div s) = s * (i div s) + batch s"
  by (simp add: batch_def algebra_simps)

lemma price_ranges_step:
  assumes "0 < s" "0 \<le> i" "i < now"
  shows "price_ranges s i now = (s * (i div s), s * (i div s) + batch s - 1) # price_ranges s (i + batch s) now"
  using assms smod_pos [of i s] by (subst price_ranges.simps) (simp add: batch_def minus_mod_eq_mult_div Let_def)

lemma price_ranges_above:
  assumes "0 < s" "0 \<le> i" "(a, b) \<in> set (price_ranges s i now)"
  shows "s * (i div s) \<le> a \<and> s dvd a \<and> b = a + batch s - 1"
  using assms
proof (induction s i now arbitrary: a b rule: price_ranges.induct)
  case (1 s i now)
  show ?case
  proof (cases "i < now")
    case True
    then have step: "price_ranges s i now = (s * (i div s), s * (i div s) + batch s - 1) # price_ranges s (i + batch s) now"
      using 1 price_ranges_step by blast
    show ?thesis
    proof (cases "(a, b) \<in> set (price_ranges s (i + batch s) now)")
      case True
      then show ?thesis using "1.IH" [folded batch_def, of a b] \<open>i < now\<close> "1.prems" next_batch [of s i] batch_pos [of s] by auto
    next
      case False
      then show ?thesis using "1.prems" step by auto
    qed
  next
    case False
    then show ?thesis using "1.prems" by (simp add: price_ranges.simps)
  qed
qed

lemma price_ranges_cover:
  assumes "0 < s" "0 \<le> i" "s * (i div s) \<le> t" "t + s \<le> now"
  shows "length (filter (\<lambda>(a, b). a \<le> t \<and> t \<le> b) (price_ranges s i now)) = 1"
  using assms
proof (induction s i now rule: price_ranges.induct)
  case (1 s i now)
  show ?case
  proof (cases "i < now")
    case True
    note step = price_ranges_step [OF "1.prems"(1,2) True]
    have pos: "0 < batch s" using batch_pos "1.prems" by blast
    show ?thesis
    proof (cases "t < s * (i div s) + batch s")
      case True
      have "filter (\<lambda>(a, b). a \<le> t \<and> t \<le> b) (price_ranges s (i + batch s) now) = []"
        using price_ranges_above [of s "i + batch s" _ _ now] True "1.prems" pos next_batch [of s i]
        by (fastforce simp: filter_empty_conv)
      then show ?thesis using True "1.prems" by (simp add: step)
    next
      case False
      then have "length (filter (\<lambda>(a, b). a \<le> t \<and> t \<le> b) (price_ranges s (i + batch s) now)) = 1"
        using "1.IH" [folded batch_def] \<open>i < now\<close> "1.prems" next_batch [of s i] pos by simp
      then show ?thesis using False by (simp add: step)
    qed
  next
    case False
    have "i - i mod s \<le> t" using "1.prems" by (simp add: minus_mod_eq_mult_div)
    then have "i < now" using "1.prems" pos_mod_bound [of s i] by linarith
    then show ?thesis using False by simp
  qed
qed

text \<open>
  C25: The jobs for the KLY/USD history leave no gap and do not overlap. For every timeframe of positive
  length the loop ends, every job begins at a normalised time and spans 720 intervals, and every second from the
  normalised time of the genesis block to one interval before the present lies in exactly one job.
\<close>

theorem history_jobs_partition:
  assumes "map_of intervalToSecond timeframe = Some s" and "0 < s" and "0 \<le> start"
  shows "\<exists>jobs. history_jobs timeframe start now = Some jobs
     \<and> (\<forall>t. the (normalizeBlockTime start timeframe) \<le> t \<and> t + s \<le> now \<longrightarrow>
           length (filter (\<lambda>(a, b). a \<le> t \<and> t \<le> the b) jobs) = 1)
     \<and> (\<forall>(a, b) \<in> set jobs. normalizeBlockTime a timeframe = Some a \<and> b = Some (a + s * 720 - 1))"
proof -
  let ?r = "price_ranges s start now"
  have norm: "the (normalizeBlockTime start timeframe) = s * (start div s)" using normalize_pos [OF assms] by simp
  have "length (filter (\<lambda>(a, b). a \<le> t \<and> t \<le> the b) (map (\<lambda>(a, b). (a, Some b)) ?r)) = 1"
    if "s * (start div s) \<le> t" "t + s \<le> now" for t
    using price_ranges_cover [OF assms(2,3) that] by (simp add: filter_map o_def case_prod_unfold)
  moreover have "normalizeBlockTime a timeframe = Some a \<and> b = a + s * 720 - 1" if ab: "(a, b) \<in> set ?r" for a b
  proof -
    have a: "s * (start div s) \<le> a" "s dvd a" "b = a + batch s - 1" using price_ranges_above [OF assms(2,3) ab] by auto
    have "0 \<le> s * (start div s)" using assms by (simp add: pos_imp_zdiv_nonneg_iff)
    then have "0 \<le> a" using a(1) by linarith
    then show ?thesis using a normalize_pos [OF assms(1,2)] by (simp add: batch_def MAX_PREVIOUS_KLYUSD_INDEX_BATCH_def)
  qed
  ultimately show ?thesis using assms unfolding norm by (auto simp: history_jobs_def)
qed

theorem history_jobs_partition_witness:
  "\<exists>jobs. history_jobs ''5m'' 1000 1000000 = Some jobs \<and> length (filter (\<lambda>(a, b). a \<le> 500000 \<and> 500000 \<le> the b) jobs) = 1"
proof -
  have "map_of intervalToSecond ''5m'' = Some 300" by (simp add: intervalToSecond_def)
  then have n: "normalizeBlockTime 1000 ''5m'' = Some 900" using normalize_pos [of "''5m''" 300 1000] by simp
  show ?thesis using history_jobs_partition [of "''5m''" 300 1000 1000000] \<open>map_of intervalToSecond ''5m'' = Some 300\<close> n by auto
qed

section \<open>Prices are written once\<close>

lemma find_at_time:
  assumes t: "table_typed cfg (read_table (tableName cfg) trx d)" and k: "primaryKey cfg = [''time'']"
    and c: "(''time'', ''integer'') \<in> set (map (\<lambda>c. (col_name c, col_type c)) (schema cfg))"
  shows "\<exists>rs. find_tbl cfg (at_time time) (Some [''time'']) trx d = Inr rs
     \<and> (rs = [] \<longleftrightarrow> lookup_key cfg [JNum time] (read_table (tableName cfg) trx d) = None)"
proof -
  let ?t = "read_table (tableName cfg) trx d"
  have key: "sql_eq (row_get r ''time'') (JNum time) \<longleftrightarrow> row_key cfg r = [JNum time]" if "r \<in> set ?t" for r
  proof -
    obtain e where "e \<in> set (schema cfg)" "col_name e = ''time''" "col_type e = ''integer''" using c by auto
    then have "cell_ok ''integer'' (row_get r ''time'')"
      using t that by (force simp: table_typed_def list_all_iff row_typed_def)
    then show ?thesis using sql_eq_typed(2) k by (simp add: row_key_def)
  qed
  have q: "queryBuilder False (at_time time) = Inr (\<lambda>r. sql_eq (row_get r ''time'') (JNum time))"
    by (simp add: find_query_simps at_time_def)
  have f: "find_tbl cfg (at_time time) (Some [''time'']) trx d
      = Inr (map (\<lambda>r. [(''time'', row_get r ''time'')]) (take 1 (filter (\<lambda>r. sql_eq (row_get r ''time'') (JNum time)) ?t)))"
    by (simp add: find_tbl_def q [unfolded at_time_def] at_time_def sort_columns_def sort_param_def order_by_def limit_rows_def num_param_def)
  show ?thesis unfolding f using key by (auto simp: lookup_key_None filter_empty_conv)
qed

lemma tick_upsert:
  assumes "v \<noteq> JUndefined" "v \<noteq> JNaN"
  shows "upsert (getTickPriceTableSchema pair) [[(''time'', JNum time), (''value'', v)]] trx d
    = Inr (run_stmt (''tick_'' @ pair) trx (sql_insert_merge (getTickPriceTableSchema pair) [(''time'', JNum time), (''value'', v)]) d)"
  using assms by (simp add: upsert_def getTickPriceTableSchema_def mk_col_def cast_types getValue_def not_null_ok_def fill_row_def row_get_def)

text \<open>
  The price of a token is written once per interval. When the price of a pair of registered tokens
  is indexed at a time and the quoted price is not 0, indexing succeeds; the normalised time has a price
  afterwards, the one that was already there or else the quoted one, and the prices of all other times
  are unchanged. It is written directly to the table and not in the transaction of the block.
\<close>

theorem tick_price_written_once:
  assumes p: "pair_of base quote st = Inr (Some pair)" and n: "normalizeBlockTime timestamp (tickTimeframe env) = Some time"
    and t: "table_typed (getTickPriceTableSchema pair) (committed (st_db st) (''tick_'' @ pair))"
    and v: "quote_price env base quote (st_db st) = Inr v" "v \<notin> {JNum 0, JUndefined, JNaN}"
  shows "\<exists>st'. indexTokenTickPrice env timestamp base quote False st = Inr st'
     \<and> (\<forall>k. lookup_key (getTickPriceTableSchema pair) [JNum k] (committed (st_db st') (''tick_'' @ pair)) =
          (case lookup_key (getTickPriceTableSchema pair) [JNum k] (committed (st_db st) (''tick_'' @ pair)) of
             Some r \<Rightarrow> Some r
           | None \<Rightarrow> if k = time then Some [(''time'', JNum time), (''value'', v)] else None))"
proof -
  let ?cfg = "getTickPriceTableSchema pair"
  define tn where "tn = ''tick_'' @ pair"
  let ?t = "committed (st_db st) tn"
  have name: "tableName ?cfg = tn" by (simp add: getTickPriceTableSchema_def tn_def)
  have cols: "primaryKey ?cfg = [''time'']" "(''time'', ''integer'') \<in> set (map (\<lambda>c. (col_name c, col_type c)) (schema ?cfg))"
    "map fst [(''time'', JNum time), (''value'', v)] = map col_name (schema ?cfg)"
    by (simp_all add: getTickPriceTableSchema_def mk_col_def)
  note t = t [folded tn_def]
  obtain rs where rs: "find_tbl ?cfg (at_time time) (Some [''time'']) False (st_db st) = Inr rs"
    "rs = [] \<longleftrightarrow> lookup_key ?cfg [JNum time] ?t = None"
    using find_at_time [of ?cfg False "st_db st" time] t cols(1,2) by (auto simp: name read_table_def)
  have key: "row_key ?cfg [(''time'', JNum time), (''value'', v)] = [JNum time]" by (simp add: row_key_def cols(1) row_get_def)
  show ?thesis unfolding tn_def [symmetric]
  proof (cases "rs = []")
    case True
    have "table_wf ?cfg ?t" using t by (simp add: table_typed_def)
    note ins = lookup_insert_full [OF config_wf_getTickPriceTableSchema this cols(3)]
    let ?st = "st\<lparr>st_db := run_stmt tn False (sql_insert_merge ?cfg [(''time'', JNum time), (''value'', v)]) (st_db st)\<rparr>"
    have "indexTokenTickPrice env timestamp base quote False st = Inr ?st"
      using True rs p n v tick_upsert [of v pair time False, folded tn_def] by (simp add: indexTokenTickPrice_def sql_time_def with_db_def)
    then show "\<exists>st'. indexTokenTickPrice env timestamp base quote False st = Inr st'
     \<and> (\<forall>k. lookup_key ?cfg [JNum k] (committed (st_db st') tn) = (case lookup_key ?cfg [JNum k] ?t of
             Some r \<Rightarrow> Some r | None \<Rightarrow> if k = time then Some [(''time'', JNum time), (''value'', v)] else None))"
      using True rs(2) by (intro exI [of _ ?st]) (auto simp: ins key split: option.splits)
  next
    case False
    then show "\<exists>st'. indexTokenTickPrice env timestamp base quote False st = Inr st'
     \<and> (\<forall>k. lookup_key ?cfg [JNum k] (committed (st_db st') tn) = (case lookup_key ?cfg [JNum k] ?t of
             Some r \<Rightarrow> Some r | None \<Rightarrow> if k = time then Some [(''time'', JNum time), (''value'', v)] else None))"
      using rs p n by (auto simp: indexTokenTickPrice_def sql_time_def split: option.splits)
  qed
qed

definition example_price_env :: price_env where
  "example_price_env = swap_env.extend example_swap_env
     \<lparr>tickTimeframe = ''5m'', ohlcTimeframes = [''1h'', ''1d''], lastPriceInterval = ''5m'', currentTimestamp = 1000000,
      getKLYUSDPriceAtTimestamp = (\<lambda>_. Inr (JNum 2)), getKLYUSDCandles = (\<lambda>_ _ _. Inr [])\<rparr>"

theorem tick_price_written_once_witness:
  "\<exists>st'. indexTokenTickPrice example_price_env 1000 ''0000000100000000'' ''0000000000000000'' False example_swap_state = Inr st'
     \<and> lookup_key (getTickPriceTableSchema ''tt'') [JNum 900] (committed (st_db st') ''tick_tt'') = Some [(''time'', JNum 900), (''value'', JNum 1)]"
proof -
  have "to_lower (CHR ''T'') = CHR ''t''" by (simp add: to_lower_def char_of_def bit_0)
  then have p: "pair_of ''0000000100000000'' ''0000000000000000'' example_swap_state = Inr (Some ''tt'')"
    by (simp add: pair_of_def token_row_def find_tbl_def find_query_simps read_table_def example_swap_state_def example_state_def
        tvl_names row_get_def sql_eq_def Let_def)
  have i: "map_of intervalToSecond ''5m'' = Some 300" by (simp add: intervalToSecond_def)
  have n: "normalizeBlockTime 1000 (tickTimeframe example_price_env) = Some 900"
    using normalize_pos [OF i, of 1000] by (simp add: example_price_env_def swap_env.defs)
  have e: "committed (st_db example_swap_state) (''tick_'' @ ''tt'') = []"
    by (simp add: example_swap_state_def example_state_def Let_def)
  then have t: "table_typed (getTickPriceTableSchema ''tt'') (committed (st_db example_swap_state) (''tick_'' @ ''tt''))"
    by (simp add: table_typed_def table_wf_def)
  have q: "quote_price example_price_env ''0000000100000000'' ''0000000000000000'' (st_db example_swap_state) = Inr (JNum 1)"
    using example_swap_facts(4) by (simp add: example_price_env_def swap_env.defs)
  show ?thesis using tick_price_written_once [OF p n t q] e by (auto simp: lookup_key_def)
qed

section \<open>Deleted blocks\<close>

lemma after_time_query: "queryBuilder False (after_time time) = Inr (\<lambda>r. sql_less (JNum time) (row_get r ''time''))"
  by (simp add: after_time_def find_query_simps between_clauses_def) (simp add: eq_clauses_def fun_eq_iff)

text \<open>
  Deleting a block keeps the price that the block brought. The prices of a token that are removed with a
  block are exactly those later than the normalised time of the block; the price at the normalised time
  itself, which indexing the block may have written, stays in the table and is never written again.
\<close>

theorem deleted_block_keeps_price:
  assumes "kly_pair token = Inr pair" and "normalizeBlockTime (bl_timestamp b) (tickTimeframe env) = Some time"
    and "list_all (\<lambda>r. \<exists>n. row_get r ''time'' = JNum n) (working (st_db st) (''tick_'' @ pair))"
  shows "\<exists>st'. deleteTickPriceIndex env token b st = Inr st'
     \<and> working (st_db st') (''tick_'' @ pair) = filter (\<lambda>r. tick_time r \<le> time) (working (st_db st) (''tick_'' @ pair))"
proof -
  have "filter (\<lambda>r. \<not> sql_less (JNum time) (row_get r ''time'')) (working (st_db st) (''tick_'' @ pair))
      = filter (\<lambda>r. tick_time r \<le> time) (working (st_db st) (''tick_'' @ pair))"
    using assms(3) by (intro filter_cong) (auto simp: list_all_iff tick_time_def sql_less_def)
  moreover have "tableName (getTickPriceTableSchema pair) = ''tick_'' @ pair" by (simp add: getTickPriceTableSchema_def)
  ultimately show ?thesis using assms(1,2)
    by (simp add: deleteTickPriceIndex_def sql_time_def with_db_def deleteByParams_def after_time_query sql_delete_def)
qed

theorem deleted_block_keeps_price_witness:
  "\<exists>st'. deleteTickPriceIndex example_price_env [(''symbol'', JStr ''abc'')] (example_header\<lparr>bl_timestamp := 1000\<rparr>)
       (empty_state\<lparr>st_db := \<lparr>committed = (\<lambda>_. []), working = (\<lambda>_. [[(''time'', JNum 900), (''value'', JNum 1)], [(''time'', JNum 1200), (''value'', JNum 2)]])\<rparr>\<rparr>) = Inr st'
     \<and> working (st_db st') ''tick_abckly'' = [[(''time'', JNum 900), (''value'', JNum 1)]]"
proof -
  have "to_lower c = c" if "c \<in> set ''abc''" for c using that by (auto simp: to_lower_def)
  then have k: "kly_pair [(''symbol'', JStr ''abc'')] = Inr ''abckly''" by (simp add: kly_pair_def row_get_def)
  have i: "map_of intervalToSecond ''5m'' = Some 300" by (simp add: intervalToSecond_def)
  have n: "normalizeBlockTime (bl_timestamp (example_header\<lparr>bl_timestamp := 1000\<rparr>)) (tickTimeframe example_price_env) = Some 900"
    using normalize_pos [OF i, of 1000] by (simp add: example_price_env_def swap_env.defs)
  show ?thesis using deleted_block_keeps_price [OF k n,
      of "empty_state\<lparr>st_db := \<lparr>committed = (\<lambda>_. []), working = (\<lambda>_. [[(''time'', JNum 900), (''value'', JNum 1)], [(''time'', JNum 1200), (''value'', JNum 2)]])\<rparr>\<rparr>"]
    by (simp add: row_get_def tick_time_def)
qed

section \<open>The tables the price index may change\<close>

definition price_table :: "string \<Rightarrow> bool" where
  "price_table n \<longleftrightarrow> n = ''last_price'' \<or> (\<exists>p. n = ''tick_'' @ p) \<or> (\<exists>p t. n = ''ohlc_'' @ p @ ''_'' @ t)"

lemma price_names: "\<not> price_table n \<Longrightarrow> tableName lastPriceTableSchema \<noteq> n"
  "\<not> price_table n \<Longrightarrow> tableName (getTickPriceTableSchema p) \<noteq> n" "\<not> price_table n \<Longrightarrow> tableName (getOhlcTableSchema p t) \<noteq> n"
  by (auto simp: price_table_def lastPriceTableSchema_def getTickPriceTableSchema_def getOhlcTableSchema_def)

lemma keep_last_price: "\<not> price_table n \<Longrightarrow> keeps n st (updateLastPrice env base pair t trx st)"
  unfolding updateLastPrice_def by (intro keep_bind keep_rules refl price_names)

lemma keep_index_last: "\<not> price_table n \<Longrightarrow> keeps n st (indexTokenLastPrice env ts base quote trx st)"
  unfolding indexTokenLastPrice_def by (intro keep_bind keep_rules refl keep_last_price)

lemma keep_tick_price: "\<not> price_table n \<Longrightarrow> keeps n st (indexTokenTickPrice env ts base quote trx st)"
  unfolding indexTokenTickPrice_def by (intro keep_bind keep_rules refl price_names)

lemma keep_candle: "\<not> price_table n \<Longrightarrow> keeps n st (index_candle pair ts trx tf st)"
proof -
  assume n: "\<not> price_table n"
  have "keeps n st (case cs of c # _ \<Rightarrow> with_db (upsert (getOhlcTableSchema pair tf) [f c] trx) st | [] \<Rightarrow> Inr st)" for cs f
    using n by (cases cs) (auto intro!: keep_rules price_names)
  then show ?thesis unfolding index_candle_def by (intro keep_bind keep_let keep_if keep_Inr refl)
qed

lemma keep_ohlc_price: "\<not> price_table n \<Longrightarrow> keeps n st (indexTokenOhlcPrice env ts base quote trx st)"
  unfolding indexTokenOhlcPrice_def by (intro keep_bind keep_option keep_Inr refl keep_fold keep_candle)

lemma keep_token_price: "\<not> price_table n \<Longrightarrow> keeps n st (add_token_price env ts token st)"
proof -
  assume n: "\<not> price_table n"
  have "keeps n st (indexTokenPrice env ts t q st)" for t q
    unfolding indexTokenPrice_def by (intro keep_seq keep_tick_price keep_ohlc_price keep_index_last n)
  then show ?thesis unfolding add_token_price_def by (auto intro!: keep_rules split: jsval.splits)
qed

lemma keep_addPriceIndex [keep_rules]: "\<not> price_table n \<Longrightarrow> keeps n st (addPriceIndex env b st)"
  unfolding addPriceIndex_def by (intro keep_bind keep_seq keep_fold keep_token_price keep_last_price)

lemma keep_delete_price: "\<not> price_table n \<Longrightarrow> keeps n st (delete_token_price env b token st)"
proof -
  assume n: "\<not> price_table n"
  have "keeps n st (deleteTickPriceIndex env token b st)" for st
    unfolding deleteTickPriceIndex_def by (intro keep_bind keep_rules refl price_names n)
  moreover have "keeps n st (deleteOhlcPriceIndex env token b st)" for st
    unfolding deleteOhlcPriceIndex_def by (intro keep_fold keep_bind keep_with_db db_keeps_ops refl price_names n)
  moreover have "keeps n st (case x of JStr t \<Rightarrow> indexTokenLastPrice env ts t q True st | _ \<Rightarrow> Inl TypeError)" for x st ts q
    using n by (auto intro!: keep_index_last keep_Inl split: jsval.splits)
  ultimately show ?thesis unfolding delete_token_price_def by (intro keep_seq)
qed

lemma keep_deletePriceIndex [keep_rules]: "\<not> price_table n \<Longrightarrow> keeps n st (deletePriceIndex env b st)"
  unfolding deletePriceIndex_def by (intro keep_bind keep_seq keep_fold keep_delete_price keep_last_price)

end
