(* ===== verification/Account_Index.thy ===== *)
theory Account_Index
  imports Price_Index
begin

text \<open>
  The index of accounts, \<^verbatim>\<open>indexer/accountBalanceIndex.js\<close> and \<^verbatim>\<open>indexer/accountIndex.js\<close>: sets in Redis
  collect the accounts that a block touches, and periodic jobs take entries out of the sets and
  update the tables. Redis chooses which entries \<^verbatim>\<open>SPOP\<close> takes: \<open>shuffle\<close> is its order.
\<close>

section \<open>Redis sets\<close>

definition sadd :: "'a list \<Rightarrow> 'a list \<Rightarrow> 'a list" where
  "sadd xs s = fold set_add xs s"

definition spop :: "('a list \<Rightarrow> 'a list) \<Rightarrow> nat \<Rightarrow> 'a list \<Rightarrow> 'a list \<times> 'a list" where
  "spop shuffle n s = (take n (shuffle s), drop n (shuffle s))"

lemma set_sadd [simp]: "set (sadd xs s) = set s \<union> set xs"
  by (induction xs arbitrary: s) (auto simp: sadd_def set_add_def)

lemma distinct_sadd [simp]: "distinct s \<Longrightarrow> distinct (sadd xs s)"
  by (induction xs arbitrary: s) (auto simp: sadd_def set_add_def)

section \<open>Balances\<close>

text \<open>A balance of an account: the token, the available and the locked amounts.\<close>

record balance_info =
  bi_tokenID :: jsval
  bi_available :: jsval
  bi_locked :: "jsval list"

record account_env =
  getTokenBalances :: "params \<Rightarrow> balance_info list result"
  shuffle :: "string list \<Rightarrow> string list"
  batchSize :: nat
  addressOfPublicKey :: "string \<Rightarrow> string"
  pkConcurrency :: nat
  addrConcurrency :: nat

text \<open>\<^verbatim>\<open>const [address, cTokenID] = s.split('_')\<close>: the parts before and after the first separator, the
  second one up to the next separator.\<close>

definition split_entry :: "string \<Rightarrow> string \<times> string option" where
  "split_entry s = (takeWhile (\<lambda>c. c \<noteq> CHR ''_'') s,
     case dropWhile (\<lambda>c. c \<noteq> CHR ''_'') s of [] \<Rightarrow> None | _ # t \<Rightarrow> Some (takeWhile (\<lambda>c. c \<noteq> CHR ''_'') t))"

definition balance_params :: "string \<Rightarrow> params" where
  "balance_params s = (case split_entry s of
     (address, Some t) \<Rightarrow> if t \<noteq> [] then [(''address'', PVal (JStr address)), (''tokenID'', PVal (JStr t))] else [(''address'', PVal (JStr address))]
   | (address, None) \<Rightarrow> [(''address'', PVal (JStr address))])"

definition balance_row :: "string \<Rightarrow> balance_info \<Rightarrow> row result" where
  "balance_row address b =
     bindR (mapR js_BigInt (bi_locked b)) (\<lambda>locked. bindR (js_BigInt (bi_available b)) (\<lambda>available.
       Inr [(''address'', JStr address), (''tokenID'', bi_tokenID b), (''balance'', JBig (available + sum_list locked))]))"

definition updateAccountBalances :: "account_env \<Rightarrow> string \<Rightarrow> db \<Rightarrow> db result" where
  "updateAccountBalances env addressTokenID d =
     bindR (getTokenBalances env (balance_params addressTokenID)) (\<lambda>balanceInfos.
     bindR (mapR (balance_row (fst (split_entry addressTokenID))) balanceInfos) (\<lambda>rows.
       upsert accountBalancesTableSchema rows False d))"

definition scheduleAddressesBalanceUpdate :: "string list \<Rightarrow> string list \<Rightarrow> string list" where
  "scheduleAddressesBalanceUpdate addressTokens s = (if addressTokens \<noteq> [] then sadd addressTokens s else s)"

text \<open>The loop: an entry whose update fails goes to the end of the array and the loop is left.\<close>

fun update_loop :: "account_env \<Rightarrow> string list \<Rightarrow> db \<Rightarrow> string list \<times> db" where
  "update_loop env [] d = ([], d)"
| "update_loop env (a # as) d =
     (case updateAccountBalances env a d of Inr d' \<Rightarrow> update_loop env as d' | Inl _ \<Rightarrow> (as @ [a], d))"

definition triggerAccountsBalanceUpdate :: "account_env \<Rightarrow> string list \<Rightarrow> db \<Rightarrow> string list \<times> db" where
  "triggerAccountsBalanceUpdate env s d =
     (let (entries, rest) = spop (shuffle env) (batchSize env) s; (remaining, d') = update_loop env entries d
      in (scheduleAddressesBalanceUpdate remaining rest, d'))"

text \<open>\<^verbatim>\<open>key.toLowerCase().includes('address')\<close>\<close>

definition js_includes :: "string \<Rightarrow> string \<Rightarrow> bool" where
  "js_includes s t = list_ex (\<lambda>i. take (length t) (drop i s) = t) [0..<length s + 1]"

definition address_entry :: "event \<Rightarrow> jsval \<Rightarrow> string" where
  "address_entry e address =
     (let tokenID = (if js_Boolean (data e ''tokenID'') then data e ''tokenID'' else data e ''messageFeeTokenID'')
      in if js_Boolean tokenID then js_String address @ ''_'' @ js_String tokenID else js_String address)"

definition event_addresses :: "event \<Rightarrow> string list" where
  "event_addresses e = map (\<lambda>(k, v). address_entry e v) (filter (\<lambda>(k, v). js_includes (map to_lower k) ''address'') (ev_data e))"

definition getAddressesFromTokenEvents :: "event option list \<Rightarrow> string list" where
  "getAddressesFromTokenEvents events =
     concat (map (\<lambda>e. case e of Some e \<Rightarrow> if ev_module e = ''token'' then event_addresses e else [] | None \<Rightarrow> []) events)"

section \<open>Accounts\<close>

text \<open>The job of a public key or of an address: on an error it goes back to its set.\<close>

definition updateAccountInfoPk :: "account_env \<Rightarrow> string \<Rightarrow> string list \<times> db \<Rightarrow> string list \<times> db" where
  "updateAccountInfoPk env publicKey = (\<lambda>(s, d).
     case upsert accountsTableSchema [[(''address'', JStr (addressOfPublicKey env publicKey)), (''publicKey'', JStr publicKey)]] False d of
       Inr d' \<Rightarrow> (s, d') | Inl _ \<Rightarrow> (sadd [publicKey] s, d))"

definition updateAccountInfoAddr :: "string \<Rightarrow> string list \<times> db \<Rightarrow> string list \<times> db" where
  "updateAccountInfoAddr address = (\<lambda>(s, d).
     case upsert accountsTableSchema [[(''address'', JStr address)]] False d of
       Inr d' \<Rightarrow> (s, d') | Inl _ \<Rightarrow> (sadd [address] s, d))"

record account_sets =
  indexAccountPublicKeySet :: "string list"
  indexAccountAddressSet :: "string list"
  accountPkUpdateQueue :: "string list"
  accountAddrUpdateQueue :: "string list"

definition triggerAccountUpdates :: "account_env \<Rightarrow> account_sets \<Rightarrow> account_sets" where
  "triggerAccountUpdates env st =
     (let (publicKeys, pks) = spop (shuffle env) (pkConcurrency env) (indexAccountPublicKeySet st);
          (addresses, addrs) = spop (shuffle env) (addrConcurrency env) (indexAccountAddressSet st)
      in \<lparr>indexAccountPublicKeySet = pks, indexAccountAddressSet = addrs,
          accountPkUpdateQueue = accountPkUpdateQueue st @ publicKeys, accountAddrUpdateQueue = accountAddrUpdateQueue st @ addresses\<rparr>)"

section \<open>No entry is lost\<close>

lemma update_loop_split:
  "\<exists>ds. foldR (updateAccountBalances env) ds d = Inr (snd (update_loop env es d))
     \<and> set es = set ds \<union> set (fst (update_loop env es d)) \<and> length es = length ds + length (fst (update_loop env es d))"
proof (induction es arbitrary: d)
  case (Cons a as)
  show ?case
  proof (cases "updateAccountBalances env a d")
    case (Inr d')
    obtain ds where "foldR (updateAccountBalances env) ds d' = Inr (snd (update_loop env as d'))"
      "set as = set ds \<union> set (fst (update_loop env as d'))" "length as = length ds + length (fst (update_loop env as d'))"
      using Cons by blast
    then show ?thesis using Inr by (intro exI [of _ "a # ds"]) auto
  next
    case (Inl e)
    then show ?thesis by (intro exI [of _ "[]"]) auto
  qed
qed simp

lemma disjoint_of_length:
  assumes "distinct es" "set es = set xs \<union> set ys" "length es = length xs + length ys"
  shows "set xs \<inter> set ys = {}" "distinct xs"
proof -
  have "length es = card (set xs \<union> set ys)" using assms by (metis distinct_card)
  then have "length xs + length ys = card (set xs) + card (set ys) - card (set xs \<inter> set ys)"
    using assms(3) card_Un_Int [of "set xs" "set ys"] by simp
  moreover have "card (set xs) \<le> length xs" "card (set ys) \<le> length ys" by (simp_all add: card_length)
  moreover have "card (set xs \<inter> set ys) \<le> card (set xs)" by (simp add: card_mono)
  ultimately have "card (set xs \<inter> set ys) = 0 \<and> card (set xs) = length xs" by linarith
  then show "set xs \<inter> set ys = {}" "distinct xs" by (simp_all add: card_distinct)
qed

text \<open>
  C22: No account is lost by the balance updates. Whatever the node answers and wherever an update fails, a
  run of the job updates the balances of some of the scheduled entries, one after the other, and all other
  entries remain scheduled.
\<close>

theorem balance_updates_not_lost:
  assumes "distinct s" and "distinct (shuffle env s)" and "set (shuffle env s) = set s"
    and "triggerAccountsBalanceUpdate env s d = (s', d')"
  shows "\<exists>ds. distinct ds \<and> length ds \<le> batchSize env \<and> foldR (updateAccountBalances env) ds d = Inr d'
     \<and> set s' = set s - set ds \<and> set ds \<subseteq> set s"
proof -
  let ?p = "shuffle env s"
  let ?es = "take (batchSize env) ?p" and ?rest = "drop (batchSize env) ?p"
  obtain ds where don: "foldR (updateAccountBalances env) ds d = Inr (snd (update_loop env ?es d))"
    "set ?es = set ds \<union> set (fst (update_loop env ?es d))" "length ?es = length ds + length (fst (update_loop env ?es d))"
    using update_loop_split by blast
  have "distinct ?es" using assms(2) by simp
  note dis = disjoint_of_length [OF this don(2,3)]
  have sp: "set s = set ?es \<union> set ?rest" "set ?es \<inter> set ?rest = {}"
    using assms(2,3) set_append [of ?es ?rest] distinct_append [of ?es ?rest] by simp_all
  have "set s' = set ?rest \<union> set (fst (update_loop env ?es d))" "d' = snd (update_loop env ?es d)"
    using assms(4) by (auto simp: triggerAccountsBalanceUpdate_def spop_def scheduleAddressesBalanceUpdate_def split: prod.splits if_splits)
  then show ?thesis using don dis sp by (intro exI [of _ ds]) auto
qed

definition example_account_env :: account_env where
  "example_account_env = \<lparr>getTokenBalances = (\<lambda>_. Inl TypeError), shuffle = rev, batchSize = 1, addressOfPublicKey = (\<lambda>k. k),
     pkConcurrency = 1, addrConcurrency = 1\<rparr>"

theorem balance_updates_not_lost_witness:
  "\<exists>ds. distinct ds \<and> length ds \<le> 1
     \<and> set (fst (triggerAccountsBalanceUpdate example_account_env [''a_1'', ''b''] (st_db empty_state))) = {''a_1'', ''b''} - set ds"
proof -
  obtain s' d' where r: "triggerAccountsBalanceUpdate example_account_env [''a_1'', ''b''] (st_db empty_state) = (s', d')"
    by (cases "triggerAccountsBalanceUpdate example_account_env [''a_1'', ''b''] (st_db empty_state)")
  have e: "shuffle example_account_env = rev" "batchSize example_account_env = 1" by (simp_all add: example_account_env_def)
  obtain ds where ds: "distinct ds" "length ds \<le> batchSize example_account_env" "set s' = set [''a_1'', ''b''] - set ds"
    using balance_updates_not_lost [of "[''a_1'', ''b'']" example_account_env, OF _ _ _ r] e by auto
  show ?thesis by (intro exI [of _ ds] conjI) (use ds e r in simp_all)
qed

end
