(* ===== verification/Genesis_Block.thy ===== *)
theory Genesis_Block
  imports Account_Index Request_All Liquidity_Amounts "HOL-Library.Multiset"
begin

text \<open>
  The assets of the genesis block, \<^verbatim>\<open>indexer/genesisBlock.js\<close>: the token, PoS, token factory, DEX and NFT
  modules are asked for their genesis stores page by page, and the stores are written to the tables in the transaction of the block.
  The balances of the accounts are collected in memory and written later by a periodic job. The entries that the code
  handles together run in the order of the store.
\<close>

section \<open>Stores\<close>

record genesis_user =
  gu_address :: jsval
  gu_tokenID :: string
  gu_availableBalance :: jsval
  gu_lockedBalances :: "jsval list"

record genesis_validator =
  gv_address :: jsval
  gv_commission :: jsval
  gv_generatorKey :: string

record genesis_staker =
  gs_address :: jsval
  gs_stakes :: "(jsval \<times> jsval) list"

record genesis_pool =
  gp_token0 :: string
  gp_token1 :: string
  gp_fee :: string
  gp_tickSpacing :: jsval
  gp_tick :: jsval
  gp_sqrtPriceX96 :: jsval
  gp_liquidity :: jsval

record genesis_symbol =
  gt_tokenId :: string
  gt_symbol :: string
  gt_decimal :: jsval

record genesis_tick =
  gi_poolAddress :: string
  gi_tick :: jsval
  gi_liquidityNet :: jsval

record genesis_factory =
  gf_tokenId :: string
  gf_owner :: jsval
  gf_attributes :: "(string \<times> string) list"

record genesis_nft =
  gn_nftID :: string
  gn_owner :: string
  gn_attributes :: "(string \<times> string) list"

text \<open>The decoded attributes of a position; all numbers are strings.\<close>

record nft_attribute =
  na_token0 :: string
  na_token1 :: string
  na_fee :: string
  na_tickLower :: string
  na_tickUpper :: string
  na_liquidity :: string

text \<open>
  The connector: \<open>getGenesisAssetsLength\<close> is the entry of a module in the answer, and for every store the
  function of limit and offset that \<^verbatim>\<open>getGenesisAssetByModule\<close> is. The codec and the endpoints of the DEX are
  fields too.
\<close>

record genesis_env = price_env +
  genesis_height :: int
  getGenesisAssetsLength :: "string \<Rightarrow> (string \<times> nat) list option result"
  genesis_users :: "nat \<Rightarrow> nat \<Rightarrow> genesis_user response result"
  genesis_supplies :: "nat \<Rightarrow> nat \<Rightarrow> (string \<times> jsval) response result"
  genesis_validators :: "nat \<Rightarrow> nat \<Rightarrow> genesis_validator response result"
  genesis_stakers :: "nat \<Rightarrow> nat \<Rightarrow> genesis_staker response result"
  genesis_pools :: "nat \<Rightarrow> nat \<Rightarrow> genesis_pool response result"
  genesis_symbols :: "nat \<Rightarrow> nat \<Rightarrow> genesis_symbol response result"
  genesis_ticks :: "nat \<Rightarrow> nat \<Rightarrow> genesis_tick response result"
  genesis_factories :: "nat \<Rightarrow> nat \<Rightarrow> genesis_factory response result"
  genesis_nfts :: "nat \<Rightarrow> nat \<Rightarrow> genesis_nft response result"
  decode_nft_attribute :: "string \<Rightarrow> nft_attribute result"
  dex_getTokenURI :: "string \<Rightarrow> string \<Rightarrow> jsval result"

definition assets_length :: "genesis_env \<Rightarrow> string \<Rightarrow> (string \<times> nat) list result" where
  "assets_length env m = bindR (getGenesisAssetsLength env m) (\<lambda>l. case l of Some ls \<Rightarrow> Inr ls | None \<Rightarrow> Inl TypeError)"

definition store_entries :: "'a response \<Rightarrow> string \<Rightarrow> 'a list result" where
  "store_entries r k = (case resp_prop r k of Arr xs \<Rightarrow> Inr xs | _ \<Rightarrow> Inl TypeError)"

text \<open>The number of entries is positive; a missing number is not.\<close>

definition some_entries :: "nat option \<Rightarrow> bool" where
  "some_entries n = (case n of Some m \<Rightarrow> 0 < m | None \<Rightarrow> False)"

section \<open>Token module\<close>

definition add_locked :: "string \<Rightarrow> int \<Rightarrow> (string \<times> int) list \<Rightarrow> (string \<times> int) list" where
  "add_locked k n m = (if k \<in> fst ` set m then map (\<lambda>(k', v). (k', if k' = k then v + n else v)) m else m @ [(k, n)])"

definition genesis_balance :: "genesis_user \<Rightarrow> row result" where
  "genesis_balance u =
     bindR (mapR js_BigInt (gu_lockedBalances u)) (\<lambda>locked.
     bindR (js_BigInt (gu_availableBalance u)) (\<lambda>available.
       Inr [(''address'', gu_address u), (''tokenID'', JStr (gu_tokenID u)), (''balance'', JBig (available + sum_list locked))]))"

definition genesis_user_step :: "genesis_user \<Rightarrow> row list \<times> (string \<times> int) list \<Rightarrow> (row list \<times> (string \<times> int) list) result" where
  "genesis_user_step u = (\<lambda>(balances, locked).
     bindR (genesis_balance u) (\<lambda>r.
     bindR (foldR (\<lambda>a m. bindR (js_BigInt a) (\<lambda>n. Inr (add_locked (gu_tokenID u) n m))) (gu_lockedBalances u) locked) (\<lambda>m.
       Inr (balances @ [r], m))))"

text \<open>The second component of the result are the entries that are pushed to \<^verbatim>\<open>genesisAccountBalances\<close>.\<close>

definition indexTokenModuleAssets :: "genesis_env \<Rightarrow> istate \<Rightarrow> (istate \<times> row list) result" where
  "indexTokenModuleAssets env st =
     bindR (assets_length env ''token'') (\<lambda>ls.
     bindR (requestAll (genesis_users env) (Some 1000) (map_of ls ''userSubstore'')) (\<lambda>tokenModuleData.
     bindR (store_entries tokenModuleData ''userSubstore'') (\<lambda>users.
     bindR (foldR genesis_user_step users ([], [])) (\<lambda>(balances, locked).
     bindR (updateTotalLockedAmounts (pos_env.truncate env) locked st) (\<lambda>st. Inr (st, balances))))))"

section \<open>PoS module\<close>

definition INVALID_ED25519_KEY :: string where
  "INVALID_ED25519_KEY = replicate 64 (CHR ''f'')"

definition isGeneratorKeyValid :: "string \<Rightarrow> bool" where
  "isGeneratorKeyValid generatorKey \<longleftrightarrow> generatorKey \<noteq> INVALID_ED25519_KEY"

text \<open>The account is written outside the transaction; if this fails its key is scheduled instead.\<close>

definition index_validator_key :: "genesis_env \<Rightarrow> genesis_validator \<Rightarrow> istate \<Rightarrow> istate" where
  "index_validator_key env v st =
     (if isGeneratorKeyValid (gv_generatorKey v)
      then (case with_db (upsert accountsTableSchema [[(''address'', JStr (getKlayr32AddressFromPublicKeyHelper env (hex_decode (gv_generatorKey v)))),
              (''publicKey'', JStr (gv_generatorKey v))]] False) st of
              Inr st' \<Rightarrow> st' | Inl _ \<Rightarrow> st\<lparr>indexed := indexed st @ [JStr (gv_generatorKey v)]\<rparr>)
      else st)"

definition genesis_commission :: "genesis_env \<Rightarrow> genesis_validator \<Rightarrow> row" where
  "genesis_commission env v = [(''address'', gv_address v), (''commission'', gv_commission v), (''height'', JNum (genesis_height env))]"

definition indexPosValidatorsInfo :: "genesis_env \<Rightarrow> nat option \<Rightarrow> istate \<Rightarrow> istate result" where
  "indexPosValidatorsInfo env numValidators st =
     (if some_entries numValidators
      then bindR (requestAll (genesis_validators env) (Some 1000) numValidators) (\<lambda>posModuleData.
           bindR (store_entries posModuleData ''validators'') (\<lambda>validators.
             with_db (upsert commissionsTableSchema (map (genesis_commission env) validators) True) (fold (index_validator_key env) validators st)))
      else Inr st)"

definition genesis_stake :: "jsval \<Rightarrow> jsval \<times> jsval \<Rightarrow> stake result" where
  "genesis_stake staker = (\<lambda>(validator, amount). bindR (js_BigInt amount) (\<lambda>n.
     Inr \<lparr>stakerAddress = staker, validatorAddress = validator, stake_amount = n\<rparr>))"

definition genesis_stakes :: "genesis_staker list \<Rightarrow> stake list result" where
  "genesis_stakes stakers = bindR (mapR (\<lambda>s. mapR (genesis_stake (gs_address s)) (gs_stakes s)) stakers) (\<lambda>sss. Inr (concat sss))"

definition indexPosStakesInfo :: "genesis_env \<Rightarrow> nat option \<Rightarrow> istate \<Rightarrow> istate result" where
  "indexPosStakesInfo env numStakers st =
     bindR (if some_entries numStakers
            then bindR (requestAll (genesis_stakers env) (Some 1000) numStakers) (\<lambda>posModuleData.
                 bindR (store_entries posModuleData ''stakers'') (\<lambda>stakers.
                 bindR (genesis_stakes stakers) (\<lambda>allStakes.
                 bindR (with_db (upsert stakesTableSchema (map stake_cells allStakes) True) st) (\<lambda>st. Inr (st, allStakes)))))
            else Inr (st, [])) (\<lambda>(st, allStakes).
     bindR (updateTotalStake (pos_env.truncate env) (total_of allStakes) st)
       (updateTotalSelfStake (pos_env.truncate env) (total_of (self_stakes allStakes))))"

definition indexPosModuleAssets :: "genesis_env \<Rightarrow> istate \<Rightarrow> istate result" where
  "indexPosModuleAssets env st =
     bindR (assets_length env ''pos'') (\<lambda>ls.
     bindR (indexPosValidatorsInfo env (map_of ls ''validators'') st)
       (indexPosStakesInfo env (map_of ls ''stakers'')))"

section \<open>Token factory module\<close>

definition to_upper :: "char \<Rightarrow> char" where
  "to_upper c = (let n = (of_char c :: nat) in if 97 \<le> n \<and> n \<le> 122 then char_of (n - 32) else c)"

definition upper_symbol :: "row \<Rightarrow> jsval result" where
  "upper_symbol metadata = (case field metadata ''symbol'' of JStr s \<Rightarrow> Inr (JStr (map to_upper s)) | _ \<Rightarrow> Inl TypeError)"

definition factory_param :: "row \<Rightarrow> genesis_factory \<Rightarrow> jsval \<Rightarrow> row result" where
  "factory_param metadata infos totalSupply =
     bindR (upper_symbol metadata) (\<lambda>symbol.
       Inr (override metadata [(''symbol'', symbol), (''tokenID'', JStr (gf_tokenId infos)), (''owner'', gf_owner infos), (''supply'', js_Number totalSupply)]))"

definition index_factory :: "genesis_env \<Rightarrow> (string \<times> jsval) list result \<Rightarrow> genesis_factory \<Rightarrow> istate \<Rightarrow> istate result" where
  "index_factory env supplies infos st =
     (case map_of (gf_attributes infos) ''metadata'' of None \<Rightarrow> Inr st | Some hex \<Rightarrow>
      bindR (decode_metadata env hex) (\<lambda>metadata.
      bindR (isTokenAvailable env metadata) (\<lambda>available. if \<not> available then Inr st else
      bindR supplies (\<lambda>supplySubstoreInfos.
      case map_of supplySubstoreInfos (gf_tokenId infos) of None \<Rightarrow> Inl (Error ''supply info not found'') | Some totalSupply \<Rightarrow>
      bindR (factory_param metadata infos totalSupply) (\<lambda>param.
      case map_of (gf_attributes infos) ''svg'' of None \<Rightarrow> Inr st | Some svg \<Rightarrow>
      bindR (save_logos (token_env.truncate env) (field metadata ''symbol'') svg) (\<lambda>logos.
      bindR (with_db (upsert tokenFactoryTableSchema [override param logos] True) st)
        (with_db (upsert tokenMetadataTableSchema [metadata_row (gf_tokenId infos) metadata] True))))))))"

definition indexTokenFactoryInfo :: "genesis_env \<Rightarrow> nat option \<Rightarrow> istate \<Rightarrow> istate result" where
  "indexTokenFactoryInfo env numFactory st =
     (if some_entries numFactory
      then bindR (requestAll (genesis_factories env) (Some 1000) numFactory) (\<lambda>tokenFactoryModuleData.
           bindR (assets_length env ''token'') (\<lambda>ls.
           bindR (requestAll (genesis_supplies env) (Some 1000) (map_of ls ''supplySubstore'')) (\<lambda>tokenModuleData.
           bindR (store_entries tokenFactoryModuleData ''factorySubstore'') (\<lambda>factories.
             foldR (index_factory env (store_entries tokenModuleData ''supplySubstore'')) factories st))))
      else Inr st)"

definition indexTokenFactoryModuleAssets :: "genesis_env \<Rightarrow> istate \<Rightarrow> istate result" where
  "indexTokenFactoryModuleAssets env st =
     bindR (getGenesisAssetsLength env ''tokenFactory'') (\<lambda>l. case l of
       Some ls \<Rightarrow> indexTokenFactoryInfo env (map_of ls ''factorySubstore'') st
     | None \<Rightarrow> Inr st)"

section \<open>DEX module\<close>

definition genesis_pool_row :: "genesis_env \<Rightarrow> int \<Rightarrow> genesis_pool \<Rightarrow> buffer \<Rightarrow> string \<Rightarrow> buffer \<Rightarrow> jsval \<Rightarrow> jsval \<Rightarrow> bool \<Rightarrow> row" where
  "genesis_pool_row env timestamp infos poolAddress collId feeHex dec0 dec1 inverted =
     [(''token0'', JStr (if inverted then gp_token1 infos else gp_token0 infos)),
      (''token1'', JStr (if inverted then gp_token0 infos else gp_token1 infos)),
      (''fee'', js_Number (JStr (gp_fee infos))), (''inverted'', JBool inverted), (''created'', JNum timestamp),
      (''poolAddress'', JStr (getKlayr32AddressFromAddress env poolAddress)), (''collectionId'', JStr collId), (''feeHex'', JStr (hex_encode feeHex)),
      (''tickSpacing'', gp_tickSpacing infos), (''tick'', gp_tick infos), (''liquidity'', gp_liquidity infos),
      (''price'', getPriceAtTick (env.truncate env) (gp_tick infos) dec0 dec1 inverted)]"

definition symbol_decimal :: "genesis_symbol list result \<Rightarrow> string \<Rightarrow> jsval result" where
  "symbol_decimal syms tokenId =
     bindR syms (\<lambda>ts. case List.find (\<lambda>t. gt_tokenId t = tokenId) ts of
       Some t \<Rightarrow> Inr (gt_decimal t) | None \<Rightarrow> Inl (Error ''error when indexing dex pools''))"

definition index_pool :: "genesis_env \<Rightarrow> int \<Rightarrow> genesis_symbol list result \<Rightarrow> genesis_pool \<Rightarrow> istate \<Rightarrow> istate result" where
  "index_pool env timestamp syms infos st =
     bindR (writeUIntBE (js_parseInt (gp_fee infos)) 3) (\<lambda>feeHex.
     bindR (computePoolAddress \<lparr>token0 = gp_token0 infos, token1 = gp_token1 infos, fee = gp_fee infos\<rparr>) (\<lambda>poolAddress.
     bindR (symbol_decimal syms (gp_token0 infos)) (\<lambda>dec0.
     bindR (symbol_decimal syms (gp_token1 infos)) (\<lambda>dec1.
     bindR (computePoolId (getAddressFromKlayr32Address env) (hash env) (ABuf poolAddress)) (\<lambda>collId.
     bindR (with_db (upsert poolTableSchema [genesis_pool_row env timestamp infos poolAddress collId feeHex dec0 dec1 False] True) st)
       (with_db (upsert poolTableSchema [genesis_pool_row env timestamp infos poolAddress collId feeHex dec0 dec1 True] True)))))))"

definition indexDexPoolInfo :: "genesis_env \<Rightarrow> nat option \<Rightarrow> nat option \<Rightarrow> block \<Rightarrow> istate \<Rightarrow> istate result" where
  "indexDexPoolInfo env numPools numTokens blockHeader st =
     (if some_entries numPools
      then bindR (requestAll (genesis_pools env) (Some 1000) numPools) (\<lambda>dexModuleData.
           bindR (requestAll (genesis_symbols env) (Some 1000) numTokens) (\<lambda>dexTokenModuleData.
           bindR (store_entries dexModuleData ''poolSubstore'') (\<lambda>pools.
             foldR (index_pool env (bl_timestamp blockHeader) (store_entries dexTokenModuleData ''tokenSymbolSubstore'')) pools st)))
      else Inr st)"

definition genesis_logo :: "genesis_env \<Rightarrow> genesis_symbol \<Rightarrow> jsval" where
  "genesis_logo env infos =
     (case getTokenFactoriesMeta env (JStr (gt_tokenId infos)) of
        Inr (l # _) \<Rightarrow> l
      | _ \<Rightarrow> JStr (serviceUrl env @ ''/static/img/logo/'' @ map to_lower (gt_symbol infos) @ ''.svg''))"

definition indexDexRegisteredTokenInfo :: "genesis_env \<Rightarrow> nat option \<Rightarrow> istate \<Rightarrow> istate result" where
  "indexDexRegisteredTokenInfo env numTokens st =
     (if some_entries numTokens
      then bindR (requestAll (genesis_symbols env) (Some 1000) numTokens) (\<lambda>dexModuleData.
           bindR (store_entries dexModuleData ''tokenSymbolSubstore'') (\<lambda>syms.
             foldR (\<lambda>infos. with_db (upsert dexTokenTableSchema [[(''tokenId'', JStr (gt_tokenId infos)), (''symbol'', JStr (gt_symbol infos)),
               (''decimal'', gt_decimal infos), (''logo'', genesis_logo env infos)]] True)) syms st))
      else Inr st)"

definition indexDexTickInfo :: "genesis_env \<Rightarrow> nat option \<Rightarrow> istate \<Rightarrow> istate result" where
  "indexDexTickInfo env numTick st =
     (if some_entries numTick
      then bindR (requestAll (genesis_ticks env) (Some 1000) numTick) (\<lambda>dexModuleData.
           bindR (store_entries dexModuleData ''tickInfoSubstore'') (\<lambda>ticks.
             foldR (\<lambda>infos. with_db (upsert tickTableSchema [tick_row (gi_poolAddress infos) (gi_tick infos) (gi_liquidityNet infos)] True)) ticks st))
      else Inr st)"

definition indexDexModuleAssets :: "genesis_env \<Rightarrow> block \<Rightarrow> istate \<Rightarrow> istate result" where
  "indexDexModuleAssets env blockHeader st =
     bindR (getGenesisAssetsLength env ''dex'') (\<lambda>l. case l of
       Some ls \<Rightarrow>
         bindR (indexDexRegisteredTokenInfo env (map_of ls ''tokenSymbolSubstore'') st) (\<lambda>st.
         bindR (indexDexTickInfo env (map_of ls ''tickInfoSubstore'') st)
           (indexDexPoolInfo env (map_of ls ''poolSubstore'') (map_of ls ''tokenSymbolSubstore'') blockHeader))
     | None \<Rightarrow> Inr st)"

section \<open>NFT module\<close>

definition genesis_position :: "genesis_nft \<Rightarrow> string \<Rightarrow> nft_attribute \<Rightarrow> row \<Rightarrow> jsval \<Rightarrow> string \<Rightarrow> row" where
  "genesis_position infos collId a metadata tokenURI owner =
     [(''tokenId'', JStr (gn_nftID infos)), (''collectionId'', JStr collId), (''owner'', JStr owner),
      (''name'', field metadata ''name''), (''description'', field metadata ''description''), (''image'', field metadata ''image''),
      (''tickUpper'', JStr (na_tickUpper a)), (''tickLower'', JStr (na_tickLower a)),
      (''liquidity'', js_Number (JStr (na_liquidity a))), (''tokenURI'', tokenURI)]"

definition genesis_tvl :: "genesis_nft \<Rightarrow> int \<Rightarrow> string \<Rightarrow> string \<Rightarrow> int \<Rightarrow> int \<Rightarrow> string \<Rightarrow> row" where
  "genesis_tvl infos timestamp owner poolAddress i amount tokenId =
     [(''transactionId'', JStr (''genesisNFT_'' @ gn_nftID infos)), (''index'', JNum i), (''time'', JNum timestamp), (''sender'', JStr owner),
      (''poolAddress'', JStr poolAddress), (''amount'', js_Number (JBig amount)), (''tokenId'', JStr tokenId)]"

text \<open>The amounts of a position at the price of its pool; the strings are converted by \<^verbatim>\<open>BigInt\<close>.\<close>

definition position_amounts :: "genesis_pool \<Rightarrow> nft_attribute \<Rightarrow> (int \<times> int) result" where
  "position_amounts p a =
     bindR (bindR (js_BigInt (JStr (na_tickLower a))) getSqrtRatioAtTick) (\<lambda>lower.
     bindR (bindR (js_BigInt (JStr (na_tickUpper a))) getSqrtRatioAtTick) (\<lambda>upper.
     bindR (js_BigInt (gp_sqrtPriceX96 p)) (\<lambda>price.
     bindR (js_BigInt (JStr (na_liquidity a))) (\<lambda>liquidity.
       getAmountsForLiquidity price lower upper liquidity))))"

definition index_position :: "genesis_env \<Rightarrow> int \<Rightarrow> genesis_pool list result \<Rightarrow> genesis_nft \<Rightarrow> string \<Rightarrow> istate \<Rightarrow> istate result" where
  "index_position env timestamp pools infos attributes st =
     bindR (decode_nft_attribute env attributes) (\<lambda>a.
     bindR (computePoolAddress \<lparr>token0 = na_token0 a, token1 = na_token1 a, fee = na_fee a\<rparr>) (\<lambda>addr.
     let poolAddress = getKlayr32AddressFromAddress env addr; owner = getKlayr32AddressFromAddress env (hex_decode (gn_owner infos)) in
     bindR (readUIntBE (hex_decode (drop 16 (gn_nftID infos))) 8) (\<lambda>tokenId.
     bindR (dex_getMetadata env poolAddress (show_nat tokenId)) (\<lambda>metadata.
     bindR (dex_getTokenURI env poolAddress (show_nat tokenId)) (\<lambda>tokenURI.
     bindR (decodeNFTId (gn_nftID infos)) (\<lambda>nft.
     bindR (with_db (upsert positionTableSchema [genesis_position infos (collectionId nft) a metadata tokenURI owner] True) st) (\<lambda>st.
     bindR pools (\<lambda>poolSubstoreInfos.
     case List.find (\<lambda>t. gp_token0 t = na_token0 a \<and> gp_token1 t = na_token1 a \<and> gp_fee t = na_fee a) poolSubstoreInfos of
       None \<Rightarrow> Inl (Error ''poolAddress not found'')
     | Some p \<Rightarrow>
         bindR (position_amounts p a) (\<lambda>(amount0, amount1).
         bindR (with_db (upsert tvlTableSchema [genesis_tvl infos timestamp owner poolAddress 0 amount0 (na_token0 a)] True) st)
           (with_db (upsert tvlTableSchema [genesis_tvl infos timestamp owner poolAddress 1 amount1 (na_token1 a)] True)))))))))))"

definition index_nft :: "genesis_env \<Rightarrow> int \<Rightarrow> genesis_pool list result \<Rightarrow> genesis_nft \<Rightarrow> istate \<Rightarrow> istate result" where
  "index_nft env timestamp pools infos st =
     (case map_of (gn_attributes infos) ''dex'' of None \<Rightarrow> Inr st
      | Some attributes \<Rightarrow> index_position env timestamp pools infos attributes st)"

definition indexNFTPositionInfo :: "genesis_env \<Rightarrow> nat option \<Rightarrow> nat option \<Rightarrow> block \<Rightarrow> istate \<Rightarrow> istate result" where
  "indexNFTPositionInfo env numTokens numPools blockHeader st =
     (if some_entries numTokens
      then bindR (requestAll (genesis_nfts env) (Some 1000) numTokens) (\<lambda>nftModuleData.
           bindR (requestAll (genesis_pools env) (Some 1000) numPools) (\<lambda>dexModuleData.
           bindR (store_entries nftModuleData ''nftSubstore'') (\<lambda>nfts.
             foldR (index_nft env (bl_timestamp blockHeader) (store_entries dexModuleData ''poolSubstore'')) nfts st)))
      else Inr st)"

definition indexNFTModuleAssets :: "genesis_env \<Rightarrow> block \<Rightarrow> istate \<Rightarrow> istate result" where
  "indexNFTModuleAssets env blockHeader st =
     bindR (getGenesisAssetsLength env ''nft'') (\<lambda>l. case l of
       Some ls \<Rightarrow> bindR (getGenesisAssetsLength env ''dex'') (\<lambda>dl. case dl of
           Some dls \<Rightarrow> indexNFTPositionInfo env (map_of ls ''nftSubstore'') (map_of dls ''poolSubstore'') blockHeader st
         | None \<Rightarrow> Inr st)
     | None \<Rightarrow> Inr st)"

section \<open>All assets\<close>

text \<open>At the end the scheduled accounts are handed to their queues, \<^const>\<open>triggerAccountUpdates\<close> on the sets in
  Redis; the index is not touched by this.\<close>

definition indexGenesisBlockAssets :: "genesis_env \<Rightarrow> block \<Rightarrow> istate \<Rightarrow> (istate \<times> row list) result" where
  "indexGenesisBlockAssets env blockHeader st =
     bindR (indexTokenModuleAssets env st) (\<lambda>(st, balances).
     bindR (indexPosModuleAssets env st) (\<lambda>st.
     bindR (indexTokenFactoryModuleAssets env st) (\<lambda>st.
     bindR (indexDexModuleAssets env blockHeader st) (\<lambda>st.
     bindR (indexNFTModuleAssets env blockHeader st) (\<lambda>st. Inr (st, balances))))))"

text \<open>
  The periodic job writes the collected balances, one after the other; an entry whose write fails goes to the
  end of the list. \<open>faults\<close> tells for each attempt whether the database fails; the list is
  what can be observed of it in a run.
\<close>

fun index_genesis_balances :: "bool list \<Rightarrow> row list \<Rightarrow> db \<Rightarrow> row list \<times> db" where
  "index_genesis_balances faults [] d = ([], d)"
| "index_genesis_balances [] (e # es) d = (e # es, d)"
| "index_genesis_balances (fault # faults) (e # es) d =
     (case (if fault then Inl (SqlError ''connection'') else upsert accountBalancesTableSchema [e] False d) of
        Inr d' \<Rightarrow> index_genesis_balances faults es d'
      | Inl _ \<Rightarrow> index_genesis_balances faults (es @ [e]) d)"

section \<open>The genesis stakes\<close>

lemma request_all_of:
  assumes "serves fn k xs" and "k \<noteq> ''error''" and "xs \<noteq> []"
  shows "bindR (requestAll fn (Some 1000) (Some (length xs))) (\<lambda>r. bindR (store_entries r k) f) = f xs"
  using requestAll_section [OF assms(1,2), of "length xs" 1000] assms(3) by (simp add: store_entries_def resp_prop_def)

lemma upsert_stakes:
  assumes "list_all stake_typed ss"
  shows "upsert stakesTableSchema (map stake_cells ss) True d
     = Inr (run_stmt ''stakes'' True (fold (\<lambda>s. sql_insert_merge stakesTableSchema (stake_cells s)) ss) d)"
proof -
  have "mapRowsBySchema (map stake_cells ss) (schema stakesTableSchema) = Inr (map stake_cells ss)
      \<and> list_all (not_null_ok stakesTableSchema) (map stake_cells ss)"
    using assms
  proof (induction ss)
    case (Cons s ss)
    obtain a b where "stakerAddress s = JStr a" "validatorAddress s = JStr b"
      using Cons.prems by (auto simp: stake_typed_def elim!: is_str.elims)
    then have "map_row (stake_cells s) (schema stakesTableSchema) = Inr (stake_cells s)" "not_null_ok stakesTableSchema (stake_cells s)"
      by (simp_all add: stake_cells_def stake_where_def stakesTableSchema_def mk_col_def cast_def getValue_def not_null_ok_def fill_row_def row_get_def)
    then show ?case using Cons by simp
  qed simp
  then show ?thesis by (simp add: upsert_def fold_map comp_def)
qed

lemma stakes_fold:
  assumes "stakes_ok t" and "list_all stake_typed ss" and "distinct (map stake_key ss)"
    and "\<And>s. s \<in> set ss \<Longrightarrow> lookup_key stakesTableSchema (stake_key s) t = None"
  shows "staked (fold (\<lambda>s. sql_insert_merge stakesTableSchema (stake_cells s)) ss t) v w = staked t v w + pair_total ss v w"
  using assms
proof (induction ss arbitrary: t)
  case (Cons s ss)
  let ?t = "sql_insert_merge stakesTableSchema (stake_cells s) t"
  have s: "stake_typed s" "lookup_key stakesTableSchema (stake_key s) t = None" using Cons.prems by simp_all
  have names: "map fst (stake_cells s) = map col_name (schema stakesTableSchema)"
    by (simp add: stake_cells_def stake_where_def stakesTableSchema_def mk_col_def)
  have key: "row_key stakesTableSchema (stake_cells s) = stake_key s"
    by (simp add: row_key_def stake_cells_def stake_where_def row_get_def)
  have wf: "table_wf stakesTableSchema t" using Cons.prems(1) by (simp add: stakes_ok_def table_typed_def)
  have "lookup_key stakesTableSchema (stake_key s') ?t = None" if "s' \<in> set ss" for s'
    using lookup_insert_full [OF config_wf_stakesTableSchema wf names, of "stake_key s'"] Cons.prems(3,4) that key by (auto simp: image_iff)
  then have "staked (fold (\<lambda>s. sql_insert_merge stakesTableSchema (stake_cells s)) ss ?t) v w = staked ?t v w + pair_total ss v w"
    using Cons.prems(2,3) stakes_insert(1) [OF Cons.prems(1) s] by (intro Cons.IH) simp_all
  then show ?case using stakes_insert(2) [OF Cons.prems(1) s] by (simp add: pair_total_def)
qed (simp add: pair_total_def)

text \<open>
  The genesis stakes are all indexed. If the node serves the stakers of the genesis block, each pair of
  validator and staker once, indexing them succeeds; the index then shows for every pair the staked amount, and the
  totals have grown by the sum of all amounts and by the sum of the self-stakes.
\<close>

theorem genesis_stakes_indexed:
  assumes "serves (genesis_stakers env) ''stakers'' xs" and "xs \<noteq> []" and "genesis_stakes xs = Inr ss"
    and "list_all stake_typed ss" and "distinct (map stake_key ss)"
    and "working (st_db st) ''stakes'' = []" and "totals_start (pos_env.truncate env) (st_db st) T S"
  shows "\<exists>st'. indexPosStakesInfo env (Some (length xs)) st = Inr st'
     \<and> (\<forall>v w. staked (working (st_db st') ''stakes'') v w = pair_total ss v w)
     \<and> totals_are (pos_env.truncate env) True (st_db st') (T + total_of ss) (S + total_of (self_stakes ss))"
proof -
  let ?f = "fold (\<lambda>s. sql_insert_merge stakesTableSchema (stake_cells s)) ss" and ?p = "pos_env.truncate env"
  let ?d = "run_stmt ''stakes'' True ?f (st_db st)"
  have kv: "db_typed keyValueStoreSchema ?d" using assms(7) by (simp add: totals_start_def db_typed_def) (simp add: keyValueStoreSchema_def)
  have c: "committed ?d ''key_value_store'' = committed (st_db st) ''key_value_store''" by simp
  obtain d' where d': "bindR (updateTotalStake ?p (total_of ss) (st\<lparr>st_db := ?d\<rparr>)) (updateTotalSelfStake ?p (total_of (self_stakes ss)))
        = Inr (st\<lparr>st_db := ?d, st_db := d'\<rparr>)"
      "\<forall>n. n \<noteq> ''key_value_store'' \<longrightarrow> working d' n = working ?d n"
      "totals_are ?p True d' (T + total_of ss) (S + total_of (self_stakes ss))"
    using totals_written [of "st\<lparr>st_db := ?d\<rparr>" ?p T S "total_of ss" "total_of (self_stakes ss)"] kv assms(7) total_value_committed [OF c]
    by (auto simp: totals_start_def totals_are_def)
  have pages: "bindR (requestAll (genesis_stakers env) (Some 1000) (Some (length xs))) (\<lambda>posModuleData.
      bindR (store_entries posModuleData ''stakers'') (\<lambda>stakers.
      bindR (genesis_stakes stakers) (\<lambda>allStakes.
      bindR (with_db (upsert stakesTableSchema (map stake_cells allStakes) True) st) (\<lambda>st. Inr (st, allStakes)))))
    = Inr (st\<lparr>st_db := ?d\<rparr>, ss)"
    using assms(3) upsert_stakes [OF assms(4)] by (subst request_all_of [OF assms(1) _ assms(2)]) (simp_all add: with_db_def)
  then have "indexPosStakesInfo env (Some (length xs)) st = Inr (st\<lparr>st_db := d'\<rparr>)"
    using d'(1) assms(2) by (simp add: indexPosStakesInfo_def some_entries_def)
  moreover have "staked (working d' ''stakes'') v w = pair_total ss v w" for v w
  proof -
    have "stakes_ok []" by (simp add: stakes_ok_def table_typed_def table_wf_def)
    then show ?thesis using stakes_fold [of "[]" ss v w] assms(4-6) d'(2) by (simp add: lookup_key_def staked_def)
  qed
  ultimately show ?thesis using d'(3) by auto
qed

section \<open>Balances and locked amounts\<close>

definition locked_of :: "(string \<times> int) list \<Rightarrow> string \<Rightarrow> int" where
  "locked_of m k = (case map_of m k of Some n \<Rightarrow> n | None \<Rightarrow> 0)"

lemma locked_of_add: "locked_of (add_locked k n m) k' = locked_of m k' + (if k' = k then n else 0)"
proof -
  have u: "map_of (map (\<lambda>(k', v). (k', if k' = k then v + n else v)) m) x = map_option (\<lambda>v. if x = k then v + n else v) (map_of m x)" for x
    by (induction m) auto
  show ?thesis
  proof (cases "k \<in> fst ` set m")
    case True
    then obtain v where "map_of m k = Some v" by (metis map_of_eq_None_iff not_None_eq)
    then show ?thesis using True by (cases "k' = k") (simp_all add: locked_of_def add_locked_def u split: option.split)
  next
    case False
    then have "map_of m k = None" "add_locked k n m = m @ [(k, n)]" by (simp_all add: map_of_eq_None_iff add_locked_def)
    then show ?thesis by (simp add: locked_of_def map_add_def split: option.split)
  qed
qed

definition user_amounts :: "genesis_user \<Rightarrow> int \<Rightarrow> int list \<Rightarrow> bool" where
  "user_amounts u available locked \<longleftrightarrow> js_BigInt (gu_availableBalance u) = Inr available \<and> mapR js_BigInt (gu_lockedBalances u) = Inr locked"

lemma add_amounts:
  "mapR js_BigInt as = Inr ns \<Longrightarrow> \<exists>m'. foldR (\<lambda>a m. bindR (js_BigInt a) (\<lambda>n. Inr (add_locked k n m))) as m = Inr m'
     \<and> (\<forall>t. locked_of m' t = locked_of m t + (if t = k then sum_list ns else 0))"
proof (induction as arbitrary: m ns)
  case (Cons a as)
  then obtain n ns' where n: "js_BigInt a = Inr n" "mapR js_BigInt as = Inr ns'" "ns = n # ns'" by (auto simp: bindR_eq_Inr)
  from Cons.IH [OF n(2), of "add_locked k n m"] show ?case using n by (auto simp: locked_of_add)
qed simp

lemma users_fold:
  assumes "list_all2 (\<lambda>u (av, lk). user_amounts u av lk) users amounts"
  shows "\<exists>locked'. foldR genesis_user_step users (bs, locked) = Inr (bs @ map2 (\<lambda>u (av, lk).
        [(''address'', gu_address u), (''tokenID'', JStr (gu_tokenID u)), (''balance'', JBig (av + sum_list lk))]) users amounts, locked')
     \<and> (\<forall>t. locked_of locked' t = locked_of locked t + sum_list (map2 (\<lambda>u (_, lk). if gu_tokenID u = t then sum_list lk else 0) users amounts))"
  using assms
proof (induction users amounts arbitrary: bs locked rule: list_all2_induct)
  case (Cons u us a as)
  obtain av lk where a: "a = (av, lk)" by (cases a)
  then have am: "js_BigInt (gu_availableBalance u) = Inr av" "mapR js_BigInt (gu_lockedBalances u) = Inr lk" using Cons.hyps(1) by (simp_all add: user_amounts_def)
  from add_amounts [OF am(2)] obtain m' where m': "foldR (\<lambda>x m. bindR (js_BigInt x) (\<lambda>n. Inr (add_locked (gu_tokenID u) n m))) (gu_lockedBalances u) locked = Inr m'"
    "\<forall>t. locked_of m' t = locked_of locked t + (if t = gu_tokenID u then sum_list lk else 0)" by blast
  let ?r = "[(''address'', gu_address u), (''tokenID'', JStr (gu_tokenID u)), (''balance'', JBig (av + sum_list lk))]"
  from Cons.IH [of "bs @ [?r]" m'] m' am show ?case by (auto simp: genesis_user_step_def genesis_balance_def a)
qed simp

text \<open>
  The genesis balances are complete. For readable amounts the loop over the users of the token module collects one
  balance per user, the available amount plus all locked amounts, in the order of the store, and for each token the sum of the locked amounts of
  all its holders.
\<close>

theorem genesis_balances_complete:
  assumes "list_all2 (\<lambda>u (av, lk). user_amounts u av lk) users amounts"
  shows "\<exists>locked. foldR genesis_user_step users ([], []) = Inr (map2 (\<lambda>u (av, lk).
        [(''address'', gu_address u), (''tokenID'', JStr (gu_tokenID u)), (''balance'', JBig (av + sum_list lk))]) users amounts, locked)
     \<and> (\<forall>t. locked_of locked t = sum_list (map2 (\<lambda>u (_, lk). if gu_tokenID u = t then sum_list lk else 0) users amounts))"
  using users_fold [OF assms, of "[]" "[]"] by (simp add: locked_of_def)

theorem genesis_balances_complete_witness:
  "let u = (\<lambda>a t. \<lparr>gu_address = JStr a, gu_tokenID = t, gu_availableBalance = JBig 5, gu_lockedBalances = [JBig 1, JBig 2]\<rparr>) in
   \<exists>locked. foldR genesis_user_step [u ''a'' ''t'', u ''b'' ''t''] ([], []) = Inr ([[(''address'', JStr ''a''), (''tokenID'', JStr ''t''), (''balance'', JBig 8)],
       [(''address'', JStr ''b''), (''tokenID'', JStr ''t''), (''balance'', JBig 8)]], locked) \<and> locked_of locked ''t'' = 6"
proof -
  let ?u = "\<lambda>a t. \<lparr>gu_address = JStr a, gu_tokenID = t, gu_availableBalance = JBig 5, gu_lockedBalances = [JBig 1, JBig 2]\<rparr>"
  have "list_all2 (\<lambda>u (av, lk). user_amounts u av lk) [?u ''a'' ''t'', ?u ''b'' ''t''] [(5, [1, 2]), (5, [1, 2])]" by (simp add: user_amounts_def)
  from genesis_balances_complete [OF this] show ?thesis by (auto simp: Let_def)
qed

section \<open>Positions\<close>

text \<open>
  The value of a genesis position is always found. For ticks in order inside the tick range, a price of the pool of at
  most 160 bits and a liquidity of at most 128 bits, the two amounts are computed without an error, are not negative, and
  outside the price range of the position only one token has an amount.
\<close>

theorem position_value_exists:
  assumes "js_BigInt (JStr (na_tickLower a)) = Inr lo" and "js_BigInt (JStr (na_tickUpper a)) = Inr up" and "MIN_TICK \<le> lo" and "lo < up" and "up \<le> MAX_TICK"
    and "js_BigInt (gp_sqrtPriceX96 p) = Inr price" and "0 \<le> price" and "price < 2 ^ 160"
    and "js_BigInt (JStr (na_liquidity a)) = Inr l" and "0 \<le> l" and "l < 2 ^ 128"
  shows "\<exists>x y plo pup. position_amounts p a = Inr (x, y) \<and> 0 \<le> x \<and> 0 \<le> y \<and> getSqrtRatioAtTick lo = Inr plo \<and> getSqrtRatioAtTick up = Inr pup
     \<and> (pup \<le> price \<longrightarrow> x = 0) \<and> (price \<le> plo \<longrightarrow> y = 0)"
proof -
  obtain plo pup where p: "getSqrtRatioAtTick lo = Inr plo" "getSqrtRatioAtTick up = Inr pup" "plo < pup" "MIN_SQRT_RATIO \<le> plo" "pup \<le> MAX_SQRT_RATIO"
    using tick_prices [OF assms(3-5)] by blast
  then have "0 < plo" "pup < 2 ^ 160" by (simp_all add: MIN_SQRT_RATIO_def MAX_SQRT_RATIO_def)
  from amounts_exist [OF this(1) p(3) this(2) assms(7,8,10,11)] obtain x y where
    "getAmountsForLiquidity price plo pup l = Inr (x, y)" "0 \<le> x" "0 \<le> y" "pup \<le> price \<longrightarrow> x = 0" "price \<le> plo \<longrightarrow> y = 0" by blast
  then show ?thesis using p(1,2) assms by (auto simp: position_amounts_def)
qed

section \<open>The balances job\<close>

text \<open>
  Every genesis balance is written in the end. If the entries can be stored and the database answers often enough, the
  job writes every entry, once, and leaves none behind, however the failures are spread.
\<close>

theorem genesis_balances_written:
  assumes "\<And>e d. e \<in> set es \<Longrightarrow> \<exists>d'. upsert accountBalancesTableSchema [e] False d = Inr d'"
    and "length es \<le> length (filter Not faults)"
  shows "\<exists>ds d'. index_genesis_balances faults es d = ([], d') \<and> mset ds = mset es
     \<and> foldR (\<lambda>e. upsert accountBalancesTableSchema [e] False) ds d = Inr d'"
  using assms
proof (induction faults es d rule: index_genesis_balances.induct)
  case (3 fault faults e es d)
  show ?case
  proof (cases fault)
    case True
    have "\<exists>ds d'. index_genesis_balances faults (es @ [e]) d = ([], d') \<and> mset ds = mset (es @ [e])
        \<and> foldR (\<lambda>e. upsert accountBalancesTableSchema [e] False) ds d = Inr d'"
      using 3(1) [of "SqlError ''connection''"] 3(3,4) True by simp
    then show ?thesis using True by simp
  next
    case False
    obtain d1 where d1: "upsert accountBalancesTableSchema [e] False d = Inr d1" using 3(3) by (meson list.set_intros(1))
    have "\<exists>ds d'. index_genesis_balances faults es d1 = ([], d') \<and> mset ds = mset es
        \<and> foldR (\<lambda>e. upsert accountBalancesTableSchema [e] False) ds d1 = Inr d'"
      using 3(2) [of d1] 3(3,4) False d1 by simp
    then obtain ds d' where "index_genesis_balances faults es d1 = ([], d')" "mset ds = mset es"
      "foldR (\<lambda>e. upsert accountBalancesTableSchema [e] False) ds d1 = Inr d'" by blast
    then show ?thesis using False d1 by (intro exI [of _ "e # ds"] exI [of _ d']) simp
  qed
qed simp_all

section \<open>The tables of the genesis assets\<close>

lemma keep_validator_key: "outside n \<Longrightarrow> same_table n (st_db st) (st_db (index_validator_key env v st))"
  using keep_with_db [OF refl db_keeps_ops(1) [OF outside_names(6)], of n st "[[(''address'', JStr (getKlayr32AddressFromPublicKeyHelper env (hex_decode (gv_generatorKey v)))),
              (''publicKey'', JStr (gv_generatorKey v))]]" False]
  by (auto simp: index_validator_key_def keeps_def same_table_def split: sum.splits)

lemma keep_validator_keys: "outside n \<Longrightarrow> same_table n (st_db st) (st_db (fold (index_validator_key env) vs st))"
proof (induction vs arbitrary: st)
  case (Cons v vs)
  then show ?case using keep_validator_key [of n st env v] by (auto intro: same_table_trans)
qed (simp add: same_table_def)

lemma keep_after: "same_table n (st_db st) (st_db st1) \<Longrightarrow> keeps n st1 r \<Longrightarrow> keeps n st r"
  by (auto simp: keeps_def intro: same_table_trans)

lemma keep_genesis_pos:
  assumes "outside n"
  shows "keeps n st (indexPosModuleAssets env st)"
proof -
  have "keeps n st (with_db (upsert commissionsTableSchema rows True) (fold (index_validator_key env) vs st))" for rows vs st
    by (rule keep_after [OF keep_validator_keys [OF assms, of st env vs]]) (intro keep_with_db db_keeps_ops refl outside_names [OF assms])
  then have "keeps n st (indexPosValidatorsInfo env m st)" for m st
    unfolding indexPosValidatorsInfo_def by (intro keep_if keep_bind keep_Inr refl)
  moreover have "keeps n st (indexPosStakesInfo env m st)" for m st
  proof (cases "some_entries m")
    case True
    have "keeps n st (bindR r (\<lambda>d. bindR (g d) (\<lambda>stakers. bindR (genesis_stakes stakers) (\<lambda>ss.
        bindR (with_db (upsert stakesTableSchema (map stake_cells ss) True) st) (\<lambda>st.
        bindR (updateTotalStake p (total_of ss) st) (updateTotalSelfStake p (total_of (self_stakes ss))))))))" for r g p
      by (intro keep_bind keep_seq keep_pos(1,2) [OF assms] keep_with_db refl db_keeps_ops outside_names [OF assms])
    then show ?thesis using True by (simp add: indexPosStakesInfo_def bindR_assoc cong: bindR_cong)
  next
    case False
    then show ?thesis by (simp add: indexPosStakesInfo_def) (intro keep_seq keep_pos(1,2) [OF assms])
  qed
  ultimately show ?thesis unfolding indexPosModuleAssets_def by (intro keep_bind keep_seq)
qed

lemma keep_genesis_stores:
  assumes "outside n"
  shows "keeps n st (indexTokenFactoryModuleAssets env st)" "keeps n st (indexDexModuleAssets env b st)" "keeps n st (indexNFTModuleAssets env b st)"
  unfolding indexTokenFactoryModuleAssets_def indexTokenFactoryInfo_def index_factory_def indexDexModuleAssets_def indexDexRegisteredTokenInfo_def
    indexDexTickInfo_def indexDexPoolInfo_def index_pool_def indexNFTModuleAssets_def indexNFTPositionInfo_def index_nft_def index_position_def Let_def
  by (intro keep_rules keep_seq keep_bind outside_names [OF assms] refl)+

lemma keep_genesis:
  assumes "outside n" and "indexGenesisBlockAssets env b st = Inr (st', balances)"
  shows "same_table n (st_db st) (st_db st')"
proof -
  obtain st1 where "indexTokenModuleAssets env st = Inr (st1, balances)"
    and rest: "bindR (indexPosModuleAssets env st1) (\<lambda>st. bindR (indexTokenFactoryModuleAssets env st) (\<lambda>st.
      bindR (indexDexModuleAssets env b st) (indexNFTModuleAssets env b))) = Inr st'"
    using assms(2) by (auto simp: indexGenesisBlockAssets_def bindR_eq_Inr)
  then obtain locked where "updateTotalLockedAmounts (pos_env.truncate env) locked st = Inr st1"
    by (auto simp: indexTokenModuleAssets_def bindR_eq_Inr)
  moreover have "keeps n st (updateTotalLockedAmounts (pos_env.truncate env) locked st)"
  proof -
    have "keeps n st ((\<lambda>(tokenID, change). with_db (add_total p (TOTAL_LOCKED @ tokenID) change)) x st)" for p x st
      by (cases x) (auto intro!: keep_with_db db_keeps_kv assms)
    then show ?thesis unfolding updateTotalLockedAmounts_def by (intro keep_fold)
  qed
  ultimately have "same_table n (st_db st) (st_db st1)" by (simp add: keeps_def)
  moreover have "keeps n st1 (bindR (indexPosModuleAssets env st1) (\<lambda>st. bindR (indexTokenFactoryModuleAssets env st) (\<lambda>st.
      bindR (indexDexModuleAssets env b st) (indexNFTModuleAssets env b))))"
    by (intro keep_seq keep_genesis_pos keep_genesis_stores assms)
  ultimately show ?thesis using rest by (auto simp: keeps_def intro: same_table_trans)
qed

section \<open>Examples\<close>

text \<open>A genesis block with one account and no other assets.\<close>

definition example_page :: "string \<Rightarrow> 'a list \<Rightarrow> nat \<Rightarrow> nat \<Rightarrow> 'a response result" where
  "example_page k xs l o' = Inr (RObject [(k, Arr (take l (drop o' xs)))])"

definition example_user :: genesis_user where
  "example_user = \<lparr>gu_address = JStr ''a'', gu_tokenID = ''t'', gu_availableBalance = JStr ''5'', gu_lockedBalances = []\<rparr>"

definition example_genesis_env :: genesis_env where
  "example_genesis_env = price_env.extend example_price_env
     \<lparr>genesis_height = 0,
      getGenesisAssetsLength = (\<lambda>m. Inr (if m = ''token'' then Some [(''userSubstore'', 1)] else if m = ''pos'' then Some [(''validators'', 0), (''stakers'', 0)] else None)),
      genesis_users = example_page ''userSubstore'' [example_user], genesis_supplies = example_page ''supplySubstore'' [],
      genesis_validators = example_page ''validators'' [], genesis_stakers = example_page ''stakers'' [], genesis_pools = example_page ''poolSubstore'' [],
      genesis_symbols = example_page ''tokenSymbolSubstore'' [], genesis_ticks = example_page ''tickInfoSubstore'' [],
      genesis_factories = example_page ''factorySubstore'' [], genesis_nfts = example_page ''nftSubstore'' [],
      decode_nft_attribute = (\<lambda>_. Inl TypeError), dex_getTokenURI = (\<lambda>_ _. Inr JNull)\<rparr>"

lemmas example_genesis_simps = example_genesis_env_def example_price_env_def example_swap_env_def example_token_env_def
  price_env.defs swap_env.defs token_env.defs pos_env.defs

lemma example_serves: "serves (example_page k xs) k xs"
  by (simp add: serves_def example_page_def)

lemma example_pos: "pos_env.truncate example_genesis_env = example_pos_env"
  by (simp add: example_genesis_simps env.defs example_pos_env_def)

text \<open>Without PoS entries the totals are written with their old values.\<close>

lemma no_stakes:
  assumes "totals_start (pos_env.truncate env) (st_db st) T S" and "getGenesisAssetsLength env ''pos'' = Inr (Some [(''validators'', 0), (''stakers'', 0)])"
  shows "\<exists>d'. indexPosModuleAssets env st = Inr (st\<lparr>st_db := d'\<rparr>) \<and> committed d' = committed (st_db st)
     \<and> (\<forall>n. n \<noteq> ''key_value_store'' \<longrightarrow> working d' n = working (st_db st) n)"
  using totals_written [of st "pos_env.truncate env" T S "total_of []" "total_of (self_stakes [])"] assms
  by (auto simp: totals_start_def indexPosModuleAssets_def assets_length_def indexPosValidatorsInfo_def indexPosStakesInfo_def some_entries_def)

lemma example_assets:
  assumes "st_db st = st_db empty_state"
  shows "\<exists>d' bs. indexGenesisBlockAssets example_genesis_env b st = Inr (st\<lparr>st_db := d'\<rparr>, bs)
     \<and> (\<forall>n. n \<noteq> ''key_value_store'' \<longrightarrow> working d' n = working (st_db empty_state) n)"
proof -
  let ?e = example_genesis_env
  have l: "getGenesisAssetsLength ?e ''token'' = Inr (Some [(''userSubstore'', 1)])" "getGenesisAssetsLength ?e ''pos'' = Inr (Some [(''validators'', 0), (''stakers'', 0)])"
    "getGenesisAssetsLength ?e ''tokenFactory'' = Inr None" "getGenesisAssetsLength ?e ''dex'' = Inr None" "getGenesisAssetsLength ?e ''nft'' = Inr None"
    "genesis_users ?e = example_page ''userSubstore'' [example_user]"
    by (simp_all add: example_genesis_env_def price_env.defs)
  have "list_all2 (\<lambda>u (av, lk). user_amounts u av lk) [example_user] [(5, [])]"
    by (simp add: user_amounts_def example_user_def) code_simp
  from users_fold [OF this, of "[]" "[]"] have "\<exists>bs. foldR genesis_user_step [example_user] ([], []) = Inr (bs, [])"
    by (auto simp: genesis_user_step_def genesis_balance_def example_user_def bindR_eq_Inr)
  then obtain bs where "foldR genesis_user_step [example_user] ([], []) = Inr (bs, [])" by blast
  then have t: "indexTokenModuleAssets ?e st = Inr (st, bs)"
    by (simp add: indexTokenModuleAssets_def assets_length_def l updateTotalLockedAmounts_def
        request_all_of [OF example_serves, of "''userSubstore''" "[example_user]", simplified])
  have "totals_start (pos_env.truncate ?e) (st_db st) 0 0" unfolding example_pos assms by (rule empty_totals(1))
  from no_stakes [OF this l(2)] show ?thesis
    by (auto simp: indexGenesisBlockAssets_def t indexTokenFactoryModuleAssets_def indexDexModuleAssets_def indexNFTModuleAssets_def l assms)
qed

theorem genesis_stakes_indexed_witness:
  "\<exists>st'. indexPosStakesInfo (example_genesis_env\<lparr>genesis_stakers := example_page ''stakers'' [\<lparr>gs_address = JStr ''s'', gs_stakes = [(JStr ''v'', JBig 10), (JStr ''s'', JBig 5)]\<rparr>]\<rparr>) (Some 1) empty_state = Inr st'
     \<and> staked (working (st_db st') ''stakes'') (JStr ''v'') (JStr ''s'') = 10 \<and> totals_are example_pos_env True (st_db st') 15 5"
proof -
  let ?xs = "[\<lparr>gs_address = JStr ''s'', gs_stakes = [(JStr ''v'', JBig 10), (JStr ''s'', JBig 5)]\<rparr>]"
  let ?env = "example_genesis_env\<lparr>genesis_stakers := example_page ''stakers'' ?xs\<rparr>"
  let ?ss = "[\<lparr>stakerAddress = JStr ''s'', validatorAddress = JStr ''v'', stake_amount = 10\<rparr>, \<lparr>stakerAddress = JStr ''s'', validatorAddress = JStr ''s'', stake_amount = 5\<rparr>]"
  have p: "pos_env.truncate ?env = example_pos_env" by (simp add: example_genesis_simps env.defs example_pos_env_def)
  have s: "serves (genesis_stakers ?env) ''stakers'' ?xs" by (simp add: example_serves)
  have g: "genesis_stakes ?xs = Inr ?ss" by (simp add: genesis_stakes_def genesis_stake_def)
  have t: "list_all stake_typed ?ss" by (simp add: stake_typed_def)
  have "totals_start (pos_env.truncate ?env) (st_db empty_state) 0 0" unfolding p by (rule empty_totals(1))
  from genesis_stakes_indexed [OF s _ g t _ _ this] show ?thesis
    unfolding p by (auto simp: empty_state_def pair_total_def total_of_def self_stakes_def)
qed

theorem position_value_exists_witness:
  "\<exists>x y. position_amounts \<lparr>gp_token0 = ''00'', gp_token1 = ''01'', gp_fee = ''3000'', gp_tickSpacing = JNum 60, gp_tick = JNum 0, gp_sqrtPriceX96 = JBig (2 ^ 96), gp_liquidity = JBig 7\<rparr>
       \<lparr>na_token0 = ''00'', na_token1 = ''01'', na_fee = ''3000'', na_tickLower = ''0'', na_tickUpper = ''60'', na_liquidity = ''7''\<rparr> = Inr (x, y) \<and> 0 \<le> x \<and> 0 \<le> y"
proof -
  let ?p = "\<lparr>gp_token0 = ''00'', gp_token1 = ''01'', gp_fee = ''3000'', gp_tickSpacing = JNum 60, gp_tick = JNum 0, gp_sqrtPriceX96 = JBig (2 ^ 96), gp_liquidity = JBig 7\<rparr>"
  let ?a = "\<lparr>na_token0 = ''00'', na_token1 = ''01'', na_fee = ''3000'', na_tickLower = ''0'', na_tickUpper = ''60'', na_liquidity = ''7''\<rparr>"
  have "js_BigInt (JStr ''0'') = Inr 0" "js_BigInt (JStr ''60'') = Inr 60" "js_BigInt (JStr ''7'') = Inr 7" by code_simp+
  then show ?thesis using position_value_exists [of ?a 0 60 ?p "2 ^ 96" 7] by (auto simp: MIN_TICK_def MAX_TICK_def)
qed

theorem genesis_balances_written_witness:
  "\<exists>ds d'. index_genesis_balances [True, False] [[(''address'', JStr ''a''), (''tokenID'', JStr ''t''), (''balance'', JBig 8)]] (st_db empty_state) = ([], d')
     \<and> mset ds = {#[(''address'', JStr ''a''), (''tokenID'', JStr ''t''), (''balance'', JBig 8)]#}
     \<and> foldR (\<lambda>e. upsert accountBalancesTableSchema [e] False) ds (st_db empty_state) = Inr d'"
proof -
  let ?e = "[(''address'', JStr ''a''), (''tokenID'', JStr ''t''), (''balance'', JBig 8)]"
  have "\<exists>d'. upsert accountBalancesTableSchema [?e] False d = Inr d'" for d
    by (simp add: upsert_def accountBalancesTableSchema_def cast_def getValue_def not_null_ok_def fill_row_def row_get_def)
  then show ?thesis using genesis_balances_written [of "[?e]" "[True, False]"] by simp
qed

end
