(* ===== verification/Block_Index.thy ===== *)
theory Block_Index
  imports Genesis_Block
begin

text \<open>
  Indexing and deletion of blocks, \<^verbatim>\<open>indexer/blockchainIndex.js\<close>, with the caches of
  \<^verbatim>\<open>dataService/business/events.js\<close> and the transactions of a block of
  \<^verbatim>\<open>dataService/business/transactions.js\<close>: the two job queues, the transaction of a block from the
  first statement to the commit, and the deletion of the blocks of a fork. A job first reads the index and later commits its transaction, and
  jobs of the two queues may overlap in between; the handlers that the code starts together for the transactions of a block run one after the other, in the order of the block.
  The JSON column \<^verbatim>\<open>assetsModules\<close> is left out.
\<close>

section \<open>Blocks and environment\<close>

record node_block = block +
  previousBlockID :: string
  generatorAddress :: string
  bl_size :: int
  bl_transactions :: "command_tx list"

text \<open>
  The node: \<open>chain_height\<close> and \<open>finalized_height\<close> are its latest heights, \<open>getBlockByHeight\<close> and
  \<open>getBlockByID\<close> its blocks after \<^verbatim>\<open>normalizeBlock\<close> (\<open>None\<close>: \<^verbatim>\<open>undefined\<close>). \<open>parse_event\<close> and \<open>stringify_event\<close> are
  \<^verbatim>\<open>JSON.parse\<close> and \<^verbatim>\<open>JSON.stringify\<close>.
\<close>

record block_env = genesis_env +
  chain_height :: int
  finalized_height :: int
  registeredModules :: "string list"
  getBlockByHeight :: "int \<Rightarrow> node_block option result"
  getBlockByID :: "string \<Rightarrow> node_block result"
  getEventsByHeightFromNode :: "int \<Rightarrow> event option list result"
  isPersistEvents :: bool
  parse_event :: "string \<Rightarrow> event option"
  stringify_event :: "event \<Rightarrow> string"
  scheduledJobsMaxCount :: nat

text \<open>
  A job of \<^verbatim>\<open>deleteIndexedBlocks\<close> is the list of the heights of its blocks, the only field that is
  read of them.
\<close>

record chain_state =
  idx :: istate
  eventCache :: "int \<Rightarrow> event option list option"
  eventCacheByBlockID :: "string \<Rightarrow> event option list option"
  indexBlocksQueue :: "int list"
  deleteIndexedBlocksQueue :: "int list list"
  indexing_paused :: bool
  balanceUpdateSet :: "string list"
  genesisAccountBalances :: "row list"
  currentPriceJobs :: "int list"
  historyJobs :: "price_jobs list"

definition validateBlock :: "node_block option \<Rightarrow> bool" where
  "validateBlock b = (case b of Some b \<Rightarrow> 0 \<le> bl_height b | None \<Rightarrow> False)"

section \<open>Events of a block\<close>

definition db_events :: "block_env \<Rightarrow> params \<Rightarrow> db \<Rightarrow> event option list result" where
  "db_events env ps d =
     bindR (find_tbl eventsTableSchema ps (Some [''eventStr'']) False d) (\<lambda>rs.
       Inr (map (\<lambda>r. case row_get r ''eventStr'' of JStr s \<Rightarrow> if s \<noteq> [] then parse_event env s else None | _ \<Rightarrow> None) rs))"

definition getEventsByHeight :: "block_env \<Rightarrow> int \<Rightarrow> chain_state \<Rightarrow> (event option list \<times> chain_state) result" where
  "getEventsByHeight env height s =
     (case eventCache s height of Some es \<Rightarrow> Inr (es, s)
      | None \<Rightarrow>
          bindR (if isPersistEvents env then db_events env [(''height'', PVal (JNum height))] (st_db (idx s)) else Inr []) (\<lambda>dbEvents.
          bindR (if dbEvents \<noteq> [] then Inr dbEvents else getEventsByHeightFromNode env height) (\<lambda>es.
            Inr (es, s\<lparr>eventCache := (eventCache s)(height \<mapsto> es)\<rparr>))))"

definition getEventsByBlockID :: "block_env \<Rightarrow> string \<Rightarrow> chain_state \<Rightarrow> (event option list \<times> chain_state) result" where
  "getEventsByBlockID env blockID s =
     (case eventCacheByBlockID s blockID of Some es \<Rightarrow> Inr (es, s)
      | None \<Rightarrow> bindR (db_events env [(''blockID'', PVal (JStr blockID))] (st_db (idx s))) (\<lambda>dbEvents.
          Inr (dbEvents, if dbEvents \<noteq> [] then s\<lparr>eventCacheByBlockID := (eventCacheByBlockID s)(blockID \<mapsto> dbEvents)\<rparr> else s)))"

definition cacheEventsByBlockID :: "string \<Rightarrow> event option list \<Rightarrow> chain_state \<Rightarrow> chain_state" where
  "cacheEventsByBlockID blockID es s = s\<lparr>eventCacheByBlockID := (eventCacheByBlockID s)(blockID \<mapsto> es)\<rparr>"

definition deleteEventsFromCacheByBlockID :: "string \<Rightarrow> chain_state \<Rightarrow> chain_state" where
  "deleteEventsFromCacheByBlockID blockID s = s\<lparr>eventCacheByBlockID := (eventCacheByBlockID s)(blockID := None)\<rparr>"

definition getTransactionExecutionStatus :: "command_tx \<Rightarrow> event option list \<Rightarrow> string result" where
  "getTransactionExecutionStatus tx events =
     bindR (filterR (\<lambda>e. case e of None \<Rightarrow> Inl TypeError
        | Some e \<Rightarrow> Inr (ev_module e @ '':'' @ ev_name e = tx_module tx @ '':'' @ ''commandExecutionResult'')) events) (\<lambda>results.
     bindR (findR (\<lambda>e. case e of None \<Rightarrow> Inl TypeError | Some e \<Rightarrow>
        (case ev_topics e of None \<Rightarrow> Inl TypeError | Some ts \<Rightarrow> Inr (TX_ID @ tx_id tx \<in> set ts \<or> tx_id tx \<in> set ts))) results) (\<lambda>r.
     case r of Some (Some e) \<Rightarrow> Inr (if js_Boolean (data e ''success'') then SUCCESSFUL else ''failed'')
     | _ \<Rightarrow> Inl (Error ''Event unavailable to determine execution status'')))"

section \<open>Stages of indexing a block\<close>

definition prepared_tx :: "block_env \<Rightarrow> node_block \<Rightarrow> nat \<Rightarrow> string \<Rightarrow> command_tx \<Rightarrow> command_tx" where
  "prepared_tx env b i status tx =
     tx\<lparr>executionStatus := status,
        tx_fields := override (tx_fields tx) [(''index'', JNum (int i)), (''moduleCommand'', JStr (tx_module tx @ '':'' @ tx_command tx)),
          (''blockID'', JStr (bl_id b)), (''height'', JNum (bl_height b)), (''senderAddress'', senderOf env tx),
          (''timestamp'', JNum (bl_timestamp b)), (''executionStatus'', JStr status)]\<rparr>"

definition index_transaction :: "block_env \<Rightarrow> node_block \<Rightarrow> event option list \<Rightarrow> nat \<times> command_tx \<Rightarrow> istate \<Rightarrow> istate result" where
  "index_transaction env b events = (\<lambda>(i, tx) st.
     bindR (getTransactionExecutionStatus tx events) (\<lambda>status.
     let tx' = prepared_tx env b i status tx; st = st\<lparr>indexed := indexed st @ [JStr (senderPublicKey tx)]\<rparr> in
     bindR (with_db (upsert transactionsTableSchema [tx_fields tx'] True) st)
       (applyTransaction (token_env.truncate env) (registeredModules env) (block.truncate b) tx' events)))"

definition index_transactions :: "block_env \<Rightarrow> node_block \<Rightarrow> event option list \<Rightarrow> istate \<Rightarrow> istate result" where
  "index_transactions env b events = foldR (index_transaction env b events) (enumerate 0 (bl_transactions b))"

definition generator_where :: "string \<Rightarrow> row" where
  "generator_where a = [(''address'', JStr a)]"

definition count_generated :: "node_block \<Rightarrow> istate \<Rightarrow> istate result" where
  "count_generated b st =
     bindR (with_db (increment validatorsTableSchema ''generatedBlocks'' 1 (generator_where (generatorAddress b)) True) st) (\<lambda>st'.
       if rows_affected validatorsTableSchema (generator_where (generatorAddress b)) True (st_db st) = 0
       then with_db (upsert validatorsTableSchema [[(''address'', JStr (generatorAddress b)), (''generatedBlocks'', JNum 1)]] True) st'
       else Inr st')"

definition index_events :: "block_env \<Rightarrow> node_block \<Rightarrow> event option list \<Rightarrow> istate \<Rightarrow> istate result" where
  "index_events env b events st =
     (if events = [] then Inr st
      else bindR (getEventsInfoToIndex (isPersistEvents env) (stringify_event env) (block.truncate b) events) (\<lambda>info.
           bindR (with_db (upsert eventsTableSchema (eventsInfo info) True) st)
             (with_db (upsert eventTopicsTableSchema (eventTopicsInfo info) True))))"

text \<open>\<open>strict\<close>: when a block is indexed a missing event is not skipped.\<close>

definition rewardEvent :: "bool \<Rightarrow> event option list \<Rightarrow> event option result" where
  "rewardEvent strict events =
     bindR (findR (\<lambda>e. case e of None \<Rightarrow> if strict then Inl TypeError else Inr False
        | Some e \<Rightarrow> Inr (ev_module e \<in> {''reward'', ''dynamicReward''} \<and> ev_name e = ''rewardMinted'')) events)
       (\<lambda>r. Inr (Option.bind r (\<lambda>e. e)))"

definition blockReward :: "bool \<Rightarrow> event option list \<Rightarrow> int result" where
  "blockReward strict events =
     bindR (rewardEvent strict events) (\<lambda>r. case r of None \<Rightarrow> Inr 0 | Some e \<Rightarrow> js_BigInt (js_or (data e ''amount'') (JStr ''0'')))"

text \<open>\<open>change\<close> is \<open>increment\<close> when a block is indexed and \<open>decrement\<close> when it is deleted.\<close>

definition reward_generator ::
  "(table_config \<Rightarrow> string \<Rightarrow> int \<Rightarrow> row \<Rightarrow> bool \<Rightarrow> db \<Rightarrow> db result) \<Rightarrow> block_env \<Rightarrow> bool \<Rightarrow> string \<Rightarrow> int \<Rightarrow> event option list \<Rightarrow> istate \<Rightarrow> istate result" where
  "reward_generator change env strict generator height events st =
     (if events = [] then Inr st
      else bindR (blockReward strict events) (\<lambda>reward.
           if reward = 0 then Inr st
           else bindR (calcCommissionAmount (pos_env.truncate env) (JStr generator) height reward (st_db st)) (\<lambda>commission.
                bindR (calcSelfStakeReward (pos_env.truncate env) (JStr generator) reward commission (st_db st)) (\<lambda>self.
                bindR (with_db (change validatorsTableSchema ''totalCommission'' commission (generator_where generator) True) st)
                  (with_db (change validatorsTableSchema ''totalSelfStakeRewards'' self (generator_where generator) True))))))"

definition lockedChanges :: "bool \<Rightarrow> int \<Rightarrow> event option list \<Rightarrow> (string \<times> int) list result" where
  "lockedChanges strict sign events =
     foldR (\<lambda>e m. case e of None \<Rightarrow> if strict then Inl TypeError else Inr m
        | Some e \<Rightarrow> if ev_name e \<in> {''lock'', ''unlock''}
            then bindR (js_BigInt (data e ''amount'')) (\<lambda>n.
                   Inr (add_locked (js_String (data e ''tokenID'')) (if ev_name e = ''lock'' then sign * n else - sign * n) m))
            else Inr m) events []"

definition update_locked :: "block_env \<Rightarrow> bool \<Rightarrow> int \<Rightarrow> event option list \<Rightarrow> istate \<Rightarrow> istate result" where
  "update_locked env strict sign events st =
     (if events = [] then Inr st
      else bindR (lockedChanges strict sign events) (\<lambda>m. updateTotalLockedAmounts (pos_env.truncate env) m st))"

definition index_prices :: "block_env \<Rightarrow> node_block \<Rightarrow> istate \<Rightarrow> istate result" where
  "index_prices env b st =
     (if bl_height b = genesis_height env then Inr st else addPriceIndex (price_env.truncate env) (block.truncate b) st)"

definition index_stages :: "block_env \<times> node_block \<times> event option list \<Rightarrow> (istate \<Rightarrow> istate result) list" where
  "index_stages = (\<lambda>(env, b, events).
     [index_transactions env b events, count_generated b, index_events env b events,
      reward_generator increment env True (generatorAddress b) (bl_height b) events,
      update_locked env True 1 events, index_prices env b,
      applySwapEvent (swap_env.truncate env) (block.truncate b) events])"

definition block_row :: "node_block \<Rightarrow> nat \<Rightarrow> int \<Rightarrow> row" where
  "block_row b numberOfEvents reward =
     [(''id'', JStr (bl_id b)), (''height'', JNum (bl_height b)), (''timestamp'', JNum (bl_timestamp b)),
      (''generatorAddress'', JStr (generatorAddress b)), (''size'', JNum (bl_size b)), (''isFinal'', JBool (bl_isFinal b)),
      (''numberOfEvents'', JNum (int numberOfEvents)), (''reward'', JBig reward)]"

definition run_stages :: "(istate \<Rightarrow> istate result) list \<Rightarrow> istate \<Rightarrow> istate result" where
  "run_stages = foldR (\<lambda>stage. stage)"

definition write_block :: "node_block \<Rightarrow> event option list \<Rightarrow> istate \<Rightarrow> istate result" where
  "write_block b events st =
     bindR (blockReward True events) (\<lambda>reward. with_db (upsert blocksTableSchema [block_row b (length events) reward] True) st)"

definition finish_trx :: "istate \<Rightarrow> istate" where
  "finish_trx st = st\<lparr>st_db := commitDBTransaction (st_db st)\<rparr>"

definition begin_trx :: "istate \<Rightarrow> istate" where
  "begin_trx st = st\<lparr>st_db := startDBTransaction (st_db st)\<rparr>"

section \<open>indexBlock\<close>

definition block_at :: "int \<Rightarrow> db \<Rightarrow> row list result" where
  "block_at height d =
     find_tbl blocksTableSchema [(''where'', PRow [(''height'', JNum height)]), (''limit'', PVal (JNum 1))] (Some [''id'', ''height'']) False d"

datatype index_plan =
    Skip
  | DeleteFirst int
  | Proceed node_block

text \<open>
  What a job does before it opens a transaction: nothing, schedule the deletion of a block with the
  wrong identifier, or index the block of the node. An empty answer for the previous block is
  \<^verbatim>\<open>undefined\<close>, whose keys are a type error.
\<close>

definition plan_index :: "block_env \<Rightarrow> int \<Rightarrow> db \<Rightarrow> index_plan result" where
  "plan_index env job_height d =
     bindR (lastIndexedHeight d) (\<lambda>lastIndexed.
     let height = (case lastIndexed of Some l \<Rightarrow> l + 1 | None \<Rightarrow> job_height) in
     if lastIndexed \<noteq> None \<and> chain_height env < height then Inr Skip
     else bindR (block_at height d) (\<lambda>currentBlockInDB.
          bindR (if genesis_height env + 1 < height then block_at (height - 1) d else Inr [[]]) (\<lambda>prev.
          bindR (getBlockByHeight env height) (\<lambda>fetched.
          case fetched of None \<Rightarrow> Inl TypeError | Some b \<Rightarrow>
          if \<not> validateBlock fetched then Inl (Error ''Invalid block'')
          else if currentBlockInDB \<noteq> [] \<and> row_get (hd currentBlockInDB) ''id'' \<noteq> JStr (bl_id b)
               then (case row_get (hd currentBlockInDB) ''height'' of JNum h \<Rightarrow> Inr (DeleteFirst h) | _ \<Rightarrow> Inl TypeError)
          else if prev = [] then Inl TypeError
          else if hd prev \<noteq> [] \<and> row_get (hd prev) ''id'' \<noteq> JStr (previousBlockID b)
               then (case row_get (hd prev) ''height'' of JNum h \<Rightarrow> Inr (DeleteFirst h) | _ \<Rightarrow> Inl TypeError)
          else if currentBlockInDB \<noteq> [] \<and> (case lastIndexed of Some l \<Rightarrow> chain_height env \<le> l | None \<Rightarrow> False)
               then Inr Skip
          else Inr (Proceed b)))))"

definition scheduleBlockDeletion :: "int list \<Rightarrow> chain_state \<Rightarrow> chain_state" where
  "scheduleBlockDeletion blocks s = s\<lparr>deleteIndexedBlocksQueue := deleteIndexedBlocksQueue s @ [blocks]\<rparr>"

text \<open>The jobs that run are still counted; \<open>active\<close> is their number.\<close>

definition getLiveIndexingJobCount :: "nat \<Rightarrow> chain_state \<Rightarrow> nat" where
  "getLiveIndexingJobCount active s = active + length (indexBlocksQueue s) + length (deleteIndexedBlocksQueue s)"

definition addHeightToIndexBlocksQueue :: "block_env \<Rightarrow> nat \<Rightarrow> int \<Rightarrow> chain_state \<Rightarrow> chain_state" where
  "addHeightToIndexBlocksQueue env active height s =
     (if scheduledJobsMaxCount env < getLiveIndexingJobCount active s then s
      else s\<lparr>indexBlocksQueue := indexBlocksQueue s @ [height]\<rparr>)"

text \<open>The history jobs of the genesis block; \<open>None\<close> if their loop never ends.\<close>

definition price_jobs_of :: "block_env \<Rightarrow> node_block \<Rightarrow> chain_state \<Rightarrow> chain_state option" where
  "price_jobs_of env b s =
     (if bl_height b = genesis_height env
      then (case addGenesisPriceIndex (price_env.truncate env) (block.truncate b) of None \<Rightarrow> None
            | Some js \<Rightarrow> Some (s\<lparr>historyJobs := historyJobs s @ [js]\<rparr>))
      else Some (s\<lparr>currentPriceJobs := currentPriceJobs s @ [bl_timestamp b]\<rparr>))"

datatype outcome =
    Done chain_state
  | Failed js_error
  | Hangs

definition genesis_assets :: "block_env \<Rightarrow> node_block \<Rightarrow> istate \<Rightarrow> (istate \<times> row list) result" where
  "genesis_assets env b st =
     (if bl_height b = genesis_height env then indexGenesisBlockAssets (genesis_env.truncate env) (block.truncate b) st else Inr (st, []))"

definition index_block :: "block_env \<Rightarrow> node_block \<Rightarrow> chain_state \<Rightarrow> outcome" where
  "index_block env b s =
     (case bindR (genesis_assets env b (begin_trx (idx s))) (\<lambda>(st, balances).
           bindR (getEventsByHeight env (bl_height b) (s\<lparr>idx := st\<rparr>)) (\<lambda>(events, s1).
           bindR (run_stages (index_stages (env, b, events)) st) (\<lambda>st.
           bindR (write_block b events st) (\<lambda>st.
             Inr (cacheEventsByBlockID (bl_id b) events s1\<lparr>idx := finish_trx st, genesisAccountBalances := genesisAccountBalances s @ balances,
                balanceUpdateSet := scheduleAddressesBalanceUpdate (getAddressesFromTokenEvents events) (balanceUpdateSet s)\<rparr>))))) of
        Inl e \<Rightarrow> Failed e
      | Inr s' \<Rightarrow> (case price_jobs_of env b s' of None \<Rightarrow> Hangs | Some s'' \<Rightarrow> Done s''))"

definition indexBlock :: "block_env \<Rightarrow> int \<Rightarrow> chain_state \<Rightarrow> outcome" where
  "indexBlock env job_height s =
     (case plan_index env job_height (st_db (idx s)) of
        Inl e \<Rightarrow> Failed e
      | Inr Skip \<Rightarrow> Done s
      | Inr (DeleteFirst h) \<Rightarrow> Done (addHeightToIndexBlocksQueue env 1 h (scheduleBlockDeletion [h] s))
      | Inr (Proceed b) \<Rightarrow> index_block env b s)"

section \<open>Deletion of blocks\<close>

definition getBlocksToDelete :: "int list \<Rightarrow> db \<Rightarrow> row list result" where
  "getBlocksToDelete blocks d =
     (if blocks = [] then Inr []
      else find_tbl blocksTableSchema [(''propBetweens'', PBetweens [\<lparr>pb_property = ''height'', pb_from = None, pb_to = None,
               pb_greaterThanEqualTo = Some (JNum (Min (set blocks))), pb_lowerThanEqualTo = None, pb_greaterThan = None, pb_lowerThan = None\<rparr>]),
             (''sort'', PVal (JStr ''height:desc''))]
           (Some [''id'', ''height'', ''generatorAddress'', ''timestamp'', ''isFinal'']) False d)"

definition block_of_row :: "row \<Rightarrow> block" where
  "block_of_row r = \<lparr>bl_id = js_String (row_get r ''id''), bl_height = row_height r,
     bl_timestamp = (case row_get r ''timestamp'' of JNum n \<Rightarrow> n | _ \<Rightarrow> 0), bl_isFinal = js_Boolean (row_get r ''isFinal'')\<rparr>"

definition getTransactionIDsByBlockID :: "string \<Rightarrow> db \<Rightarrow> jsval list result" where
  "getTransactionIDsByBlockID blockID d =
     bindR (find_tbl transactionsTableSchema [(''whereIn'', PIn [(''blockID'', [JStr blockID])])] (Some [''id'']) False d) (\<lambda>rs.
       Inr (map (\<lambda>r. row_get r ''id'') rs))"

text \<open>
  \<^verbatim>\<open>formatTransactionsInBlock\<close>: the execution status is the indexed one or else found in the events. The
  transactions are those of the node, they have no \<^verbatim>\<open>senderAddress\<close>.
\<close>

definition format_transaction :: "block_env \<Rightarrow> node_block \<Rightarrow> nat \<times> command_tx \<Rightarrow> chain_state \<Rightarrow> (command_tx \<times> chain_state) result" where
  "format_transaction env b = (\<lambda>(i, tx) s.
     bindR (find_tbl transactionsTableSchema [(''id'', PVal (JStr (tx_id tx))), (''limit'', PVal (JNum 1))] (Some [''executionStatus'']) False (st_db (idx s))) (\<lambda>rs.
     bindR (if rs \<noteq> [] \<and> js_Boolean (row_get (hd rs) ''executionStatus'') then Inr (js_String (row_get (hd rs) ''executionStatus''), s)
            else bindR (getEventsByHeight env (bl_height b) s) (\<lambda>(es, s1). bindR (getTransactionExecutionStatus tx es) (\<lambda>status. Inr (status, s1)))) (\<lambda>(status, s1).
       Inr (tx\<lparr>executionStatus := status,
              tx_fields := override (tx_fields tx) [(''executionStatus'', JStr status), (''index'', JNum (int i))]\<rparr>, s1))))"

definition getTransactionsByBlockID :: "block_env \<Rightarrow> string \<Rightarrow> chain_state \<Rightarrow> (command_tx list \<times> chain_state) result" where
  "getTransactionsByBlockID env blockID s =
     bindR (getBlockByID env blockID) (\<lambda>b.
       foldR (\<lambda>it (txs, s). bindR (format_transaction env b it s) (\<lambda>(tx, s1). Inr (txs @ [tx], s1))) (enumerate 0 (bl_transactions b)) ([], s))"

definition revert_transactions :: "block_env \<Rightarrow> block \<Rightarrow> command_tx list \<Rightarrow> event option list \<Rightarrow> istate \<Rightarrow> istate result" where
  "revert_transactions env b txs events =
     foldR (\<lambda>tx. revertTransaction (token_env.truncate env) (registeredModules env) b tx events) txs"

definition delete_transactions :: "block \<Rightarrow> istate \<Rightarrow> istate result" where
  "delete_transactions b st =
     bindR (getTransactionIDsByBlockID (bl_id b) (st_db st)) (\<lambda>ids.
       if ids = [] then Inr st else with_db (deleteByPrimaryKey transactionsTableSchema (map Scalar ids) True) st)"

definition uncount_generated :: "string \<Rightarrow> istate \<Rightarrow> istate result" where
  "uncount_generated generator = with_db (decrement validatorsTableSchema ''generatedBlocks'' 1 (generator_where generator) True)"

definition delete_events :: "block_env \<Rightarrow> block \<Rightarrow> event option list \<Rightarrow> istate \<Rightarrow> istate result" where
  "delete_events env b events st =
     (if events = [] then Inr st
      else bindR (getEventsInfoToIndex (isPersistEvents env) (stringify_event env) b events) (\<lambda>info.
           let eventIDs = map (\<lambda>r. row_get r ''id'') (eventsInfo info) in
           bindR (with_db (deleteByParams eventTopicsTableSchema [(''whereIn'', PIn [(''eventID'', eventIDs)])] True) st)
             (with_db (deleteByPrimaryKey eventsTableSchema (map Scalar eventIDs) True))))"

definition delete_stages :: "block_env \<times> block \<times> string \<times> command_tx list \<times> event option list \<Rightarrow> (istate \<Rightarrow> istate result) list" where
  "delete_stages = (\<lambda>(env, b, generator, txs, events).
     [revert_transactions env b txs events, delete_transactions b, uncount_generated generator, delete_events env b events,
      reward_generator decrement env False generator (bl_height b) events, update_locked env False (- 1) events,
      revertSwapEvent (swap_env.truncate env) b events, deletePriceIndex (price_env.truncate env) b])"

text \<open>One block of the job. \<open>None\<close>: the block is not in the index. The addresses are those of this
  block alone.\<close>

definition delete_block :: "block_env \<Rightarrow> row \<Rightarrow> chain_state \<times> string list \<Rightarrow> (chain_state \<times> string list) result" where
  "delete_block env r = (\<lambda>(s, addresses).
     let b = block_of_row r in
     bindR (find_tbl blocksTableSchema [(''height'', PVal (JNum (bl_height b))), (''limit'', PVal (JNum 1))] None False (st_db (idx s))) (\<lambda>inDB.
     if inDB = [] then Inr (s, addresses)
     else bindR (getTransactionsByBlockID env (bl_id b) s) (\<lambda>(txs, s0).
          bindR (getEventsByBlockID env (bl_id b) s0) (\<lambda>(events, s1).
          bindR (run_stages (delete_stages (env, b, js_String (row_get r ''generatorAddress''), txs, events)) (idx s1)) (\<lambda>st.
            Inr (deleteEventsFromCacheByBlockID (bl_id b) s1\<lparr>idx := st\<rparr>,
                 if events = [] then addresses else getAddressesFromTokenEvents events))))))"

definition delete_listed :: "block_env \<Rightarrow> row list \<Rightarrow> chain_state \<Rightarrow> outcome" where
  "delete_listed env blocksToDelete s =
     (case bindR (foldR (delete_block env) blocksToDelete (s\<lparr>idx := begin_trx (idx s)\<rparr>, [])) (\<lambda>(s1, addresses).
           bindR (with_db (deleteByParams blocksTableSchema [(''whereIn'', PIn [(''id'', map (\<lambda>r. row_get r ''id'') blocksToDelete)])] True) (idx s1)) (\<lambda>st.
             Inr (s1\<lparr>idx := finish_trx st, balanceUpdateSet := scheduleAddressesBalanceUpdate addresses (balanceUpdateSet s1)\<rparr>))) of
        Inl e \<Rightarrow> Failed e
      | Inr s' \<Rightarrow> Done s')"

definition deleteIndexedBlocks :: "block_env \<Rightarrow> int list \<Rightarrow> chain_state \<Rightarrow> outcome" where
  "deleteIndexedBlocks env blocks s =
     (case getBlocksToDelete blocks (st_db (idx s)) of
        Inl e \<Rightarrow> Failed e
      | Inr blocksToDelete \<Rightarrow> delete_listed env blocksToDelete s)"

text \<open>
  The handler of the queue catches the error: the job counts as completed. \<open>attemptsMade\<close> and \<open>attempts\<close>
  belong to the job; \<open>failed\<close> is the state that a failing run leaves.
\<close>

definition finish_deletion :: "nat \<Rightarrow> nat \<Rightarrow> int list \<Rightarrow> chain_state \<Rightarrow> outcome \<Rightarrow> chain_state" where
  "finish_deletion attemptsMade attempts blocks failed result =
     (let s1 = (case result of
                  Done s' \<Rightarrow> s'
                | _ \<Rightarrow> if attemptsMade + 1 = attempts then scheduleBlockDeletion blocks failed else failed)
      in if deleteIndexedBlocksQueue s1 = [] then s1\<lparr>indexing_paused := False\<rparr> else s1)"

definition deleteIndexedBlocksWrapper :: "block_env \<Rightarrow> nat \<Rightarrow> nat \<Rightarrow> int list \<Rightarrow> chain_state \<Rightarrow> chain_state \<Rightarrow> chain_state" where
  "deleteIndexedBlocksWrapper env attemptsMade attempts blocks failed s =
     finish_deletion attemptsMade attempts blocks failed (deleteIndexedBlocks env blocks (s\<lparr>indexing_paused := True\<rparr>))"

section \<open>Durability checks\<close>

text \<open>After a commit or a rollback the jobs poll these conditions with \<^verbatim>\<open>waitForIt\<close> until they hold.\<close>

datatype db_status = COMMIT | ROLLBACK

definition checkBlockHeightIndexStatusInDB :: "int \<Rightarrow> db_status \<Rightarrow> db \<Rightarrow> bool result" where
  "checkBlockHeightIndexStatusInDB blockHeight status d =
     bindR (find_tbl blocksTableSchema [(''height'', PVal (JNum blockHeight))] (Some [''height'']) False d) (\<lambda>rs.
     let height = (case rs of r # _ \<Rightarrow> row_get r ''height'' | [] \<Rightarrow> JUndefined) in
       Inr (status = COMMIT \<and> height = JNum blockHeight \<or> status = ROLLBACK \<and> height = JUndefined))"

definition checkBlockIDsDeleteStatusInDB :: "jsval list \<Rightarrow> db_status \<Rightarrow> db \<Rightarrow> bool result" where
  "checkBlockIDsDeleteStatusInDB blockIDs status d =
     bindR (find_tbl blocksTableSchema [(''whereIn'', PIn [(''id'', blockIDs)])] None False d) (\<lambda>resultSet.
       Inr (status = COMMIT \<and> resultSet = [] \<or> status = ROLLBACK \<and> resultSet \<noteq> []))"

section \<open>New blocks\<close>

definition indexNewBlock :: "block_env \<Rightarrow> node_block \<Rightarrow> chain_state \<Rightarrow> chain_state result" where
  "indexNewBlock env b s =
     bindR (find_tbl blocksTableSchema [(''height'', PVal (JNum (bl_height b))), (''limit'', PVal (JNum 1))]
              (Some [''id'', ''height'', ''generatorAddress'', ''timestamp'', ''isFinal'']) False (st_db (idx s))) (\<lambda>inDB.
     let fork = (case inDB of r # _ \<Rightarrow> row_get r ''id'' \<noteq> JStr (bl_id b) | [] \<Rightarrow> False);
         s1 = (if fork then scheduleBlockDeletion [row_height (hd inDB)] s else s);
         s2 = (if inDB = [] \<or> fork then s1\<lparr>indexBlocksQueue := indexBlocksQueue s1 @ [bl_height b]\<rparr> else s1) in
     bindR (with_db (update_tbl blocksTableSchema
              [(''isFinal'', PVal (JBool False)), (''propBetweens'', PBetweens [\<lparr>pb_property = ''height'', pb_from = None, pb_to = None,
                 pb_greaterThanEqualTo = None, pb_lowerThanEqualTo = Some (JNum (finalized_height env)), pb_greaterThan = None, pb_lowerThan = None\<rparr>])]
              [(''isFinal'', JBool True)] False) (idx s2)) (\<lambda>st.
       Inr (s2\<lparr>idx := st\<rparr>)))"

section \<open>The stages leave the blocks alone\<close>

text \<open>
  The contract between the job and the handlers of a block: no handler touches the table the job
  itself is responsible for. It holds of a whole run if it holds of each stage.
\<close>

locale table_frame =
  fixes n :: string and stages :: "'x \<Rightarrow> (istate \<Rightarrow> istate result) list"
  assumes stage_keeps: "stage \<in> set (stages x) \<Longrightarrow> keeps n st (stage st)"
begin

lemma run_keeps: "keeps n st (run_stages (stages x) st)"
proof -
  have "keeps n st (foldR (\<lambda>stage. stage) ss st)" if "set ss \<subseteq> set (stages x)" for ss st
    using that
  proof (induction ss arbitrary: st)
    case (Cons f ss)
    then show ?case using stage_keeps [of f x st] by (auto intro!: keep_seq)
  qed (simp add: keep_Inr)
  then show ?thesis by (simp add: run_stages_def)
qed

lemma run_same: "run_stages (stages x) st = Inr st' \<Longrightarrow> same_table n (st_db st) (st_db st')"
  using run_keeps [of st x] by (simp add: keeps_def)

end

lemma blocks_outside: "outside ''blocks''" "\<not> price_table ''blocks''"
  by (simp_all add: command_tables_def price_table_def)

lemma stage_names:
  "tableName transactionsTableSchema \<noteq> ''blocks''" "tableName validatorsTableSchema \<noteq> ''blocks''" "tableName eventsTableSchema \<noteq> ''blocks''"
  "tableName eventTopicsTableSchema \<noteq> ''blocks''"
  by (simp_all add: transactionsTableSchema_def validatorsTableSchema_def eventsTableSchema_def eventTopicsTableSchema_def)

lemma keep_index_transaction: "keeps ''blocks'' st (index_transaction env b events it st)"
proof -
  obtain i tx where it: "it = (i, tx)" by (cases it)
  have w: "keeps ''blocks'' st (with_db (upsert transactionsTableSchema rs True) (st\<lparr>indexed := xs\<rparr>))" for rs xs
    by (intro keep_with_db db_keeps_ops stage_names) simp
  show ?thesis unfolding it index_transaction_def prod.case Let_def
    by (rule keep_bind, rule keep_seq [OF w], rule keep_transaction(1) [OF blocks_outside(1)])
qed

lemma keep_count: "keeps ''blocks'' st (count_generated b st)"
  unfolding count_generated_def
  by (rule keep_seq; intro keep_if keep_with_db keep_Inr db_keeps_ops refl stage_names)

lemma keep_index_events: "keeps ''blocks'' st (index_events env b events st)"
proof -
  have w: "keeps ''blocks'' st (with_db (upsert eventsTableSchema rs True) st)"
    "keeps ''blocks'' st (with_db (upsert eventTopicsTableSchema rs True) st)" for rs st
    by (intro keep_with_db db_keeps_ops refl stage_names)+
  show ?thesis unfolding index_events_def by (intro keep_if keep_Inr refl keep_bind keep_seq w)
qed

lemma keep_delete_events: "keeps ''blocks'' st (delete_events env b events st)"
proof -
  have w: "keeps ''blocks'' st (with_db (deleteByParams eventTopicsTableSchema ps True) st)"
    "keeps ''blocks'' st (with_db (deleteByPrimaryKey eventsTableSchema ks True) st)" for ps ks st
    by (intro keep_with_db db_keeps_ops refl stage_names)+
  show ?thesis unfolding delete_events_def Let_def by (intro keep_if keep_Inr refl keep_bind keep_seq w)
qed

lemma keep_reward:
  assumes "\<And>c k wh. db_keeps ''blocks'' (change validatorsTableSchema c k wh True)"
  shows "keeps ''blocks'' st (reward_generator change env strict g h events st)"
proof -
  have w: "keeps ''blocks'' st (with_db (change validatorsTableSchema c k wh True) st)" for c k wh st
    by (intro keep_with_db refl assms)
  show ?thesis unfolding reward_generator_def
    by (rule keep_if, rule keep_Inr, rule refl, rule keep_bind, rule keep_if, rule keep_Inr, rule refl, rule keep_bind, rule keep_bind,
        rule keep_seq [OF w], rule w)
qed

lemma keep_locked: "keeps ''blocks'' st (update_locked env strict sign events st)"
proof -
  have "keeps ''blocks'' st (updateTotalLockedAmounts penv m st)" for penv m st
  proof -
    have "keeps ''blocks'' st ((\<lambda>(tokenID, change). with_db (add_total p (TOTAL_LOCKED @ tokenID) change)) x st)" for p x st
      by (cases x) (auto intro!: keep_with_db db_keeps_kv blocks_outside)
    then show ?thesis unfolding updateTotalLockedAmounts_def by (intro keep_fold)
  qed
  then show ?thesis unfolding update_locked_def by (intro keep_if keep_Inr refl keep_bind)
qed

lemma keep_delete_transactions: "keeps ''blocks'' st (delete_transactions b st)"
  unfolding delete_transactions_def by (intro keep_bind keep_if keep_Inr refl keep_with_db db_keeps_ops stage_names)

interpretation index_frame: table_frame "''blocks''" index_stages
proof
  fix stage x st assume "stage \<in> set (index_stages x)"
  moreover obtain env b events where x: "x = (env, b, events)" by (cases x)
  moreover have "keeps ''blocks'' st (index_transactions env b events st)"
    unfolding index_transactions_def by (intro keep_fold keep_index_transaction)
  moreover have "keeps ''blocks'' st (index_prices env b st)"
    unfolding index_prices_def by (intro keep_if keep_Inr refl keep_addPriceIndex blocks_outside)
  moreover have "keeps ''blocks'' st (reward_generator increment env True (generatorAddress b) (bl_height b) events st)"
    by (intro keep_reward db_keeps_ops stage_names)
  moreover have "keeps ''blocks'' st (applySwapEvent (swap_env.truncate env) (block.truncate b) events st)" by (intro keep_swaps) simp_all
  ultimately show "keeps ''blocks'' st (stage st)"
    by (auto simp: index_stages_def intro: keep_count keep_index_events keep_locked)
qed

interpretation delete_frame: table_frame "''blocks''" delete_stages
proof
  fix stage x st assume "stage \<in> set (delete_stages x)"
  moreover obtain env b g txs events where x: "x = (env, b, g, txs, events)" by (cases x)
  moreover have "keeps ''blocks'' st (revert_transactions env b txs events st)"
    unfolding revert_transactions_def by (intro keep_fold keep_transaction(2) blocks_outside)
  moreover have "keeps ''blocks'' st (uncount_generated g st)"
    unfolding uncount_generated_def by (intro keep_with_db db_keeps_ops refl stage_names)
  moreover have "keeps ''blocks'' st (reward_generator decrement env False g (bl_height b) events st)"
    by (intro keep_reward db_keeps_ops stage_names)
  moreover have "keeps ''blocks'' st (revertSwapEvent (swap_env.truncate env) b events st)" by (intro keep_swaps) simp_all
  moreover have "keeps ''blocks'' st (deletePriceIndex (price_env.truncate env) b st)" by (intro keep_deletePriceIndex blocks_outside)
  ultimately show "keeps ''blocks'' st (stage st)"
    by (auto simp: delete_stages_def intro: keep_delete_transactions keep_delete_events keep_locked)
qed

section \<open>The last indexed block\<close>

lemma blocks_name: "tableName blocksTableSchema = ''blocks''"
  by (simp add: blocksTableSchema_def)

lemma sorted_le_last: "sorted (map f s) \<Longrightarrow> r \<in> set s \<Longrightarrow> f r \<le> f (last s)"
  by (induction s) auto

lemma desc_head:
  assumes "blocks_ok t" "t \<noteq> []"
  shows "\<exists>r \<in> set t. take 1 (rev (sort_key (\<lambda>r. row_get r ''height'') (rev t))) = [r] \<and> row_height r = Max (set (block_heights t))"
proof -
  define s where "s = sort_key (\<lambda>r. row_get r ''height'') (rev t)"
  have set: "set s = set t" by (simp add: s_def)
  have ne: "s \<noteq> []" using assms(2) set by auto
  then have last: "take 1 (rev s) = [last s]" by (induction s rule: rev_induct) simp_all
  have mem: "last s \<in> set t" using last_in_set [OF ne] set by simp
  have "row_height r \<le> row_height (last s)" if r: "r \<in> set t" for r
  proof -
    have "sorted (map (\<lambda>r. row_get r ''height'') s)" by (simp add: s_def)
    then have "row_get r ''height'' \<le> row_get (last s) ''height''"
      using r set by (intro sorted_le_last [of "\<lambda>r. row_get r ''height''"]) simp_all
    then show ?thesis using blocks_height [OF assms(1)] r mem by (simp add: less_eq_jsval_def) linarith
  qed
  then have "row_height (last s) = Max (set (block_heights t))"
    using mem by (intro Max_eqI [symmetric]) (auto simp: block_heights_map [OF assms(1)])
  then show ?thesis using last mem by (auto simp: s_def)
qed

lemma last_indexed:
  assumes "blocks_ok (committed d ''blocks'')"
  shows "lastIndexedHeight d = Inr (if committed d ''blocks'' = [] then None else Some (Max (set (block_heights (committed d ''blocks'')))))"
proof -
  let ?t = "committed d ''blocks''"
  have q: "queryBuilder False [(''sort'', PVal (JStr ''height:desc'')), (''limit'', PVal (JNum 1))] = Inr (\<lambda>r. row_get r ''height'' \<noteq> JNull)"
    by (simp add: queryBuilder_def where_clauses_def resolveQueryParams_def KNOWN_QUERY_PARAMS_def sort_param_def
        sort_clauses_def in_clauses_def whereIn_clauses_def nested_clauses_def null_clauses_def like_clauses_def) (simp add: eq_clauses_def fun_eq_iff)
  have all: "filter (\<lambda>r. row_get r ''height'' \<noteq> JNull) ?t = ?t" using assms by (simp add: blocks_ok_def filter_id_conv list_all_iff)
  have f: "find_tbl blocksTableSchema [(''sort'', PVal (JStr ''height:desc'')), (''limit'', PVal (JNum 1))] (Some [''height'']) False d
      = Inr (map (\<lambda>r. [(''height'', row_get r ''height'')]) (take 1 (rev (sort_key (\<lambda>r. row_get r ''height'') (rev ?t)))))"
    by (simp add: find_tbl_def q sort_columns_def sort_param_def order_by_def limit_rows_def num_param_def read_table_def blocks_name all)
  show ?thesis
  proof (cases "?t = []")
    case True
    then show ?thesis by (simp add: lastIndexedHeight_def f height_of_def)
  next
    case False
    then obtain r where "r \<in> set ?t" "take 1 (rev (sort_key (\<lambda>r. row_get r ''height'') (rev ?t))) = [r]" "row_height r = Max (set (block_heights ?t))"
      using desc_head [OF assms] by blast
    then show ?thesis using False blocks_height [OF assms] by (simp add: lastIndexedHeight_def f height_of_def row_get_def)
  qed
qed

lemma height_filter:
  assumes "blocks_ok t"
  shows "filter (\<lambda>r. sql_eq (row_get r ''height'') (JNum h)) t = filter (\<lambda>r. row_height r = h) t"
  using blocks_height [OF assms] by (intro filter_cong) (auto simp: sql_eq_def)

lemma block_at_eq:
  assumes "blocks_ok (committed d ''blocks'')"
  shows "block_at h d = Inr (map (\<lambda>r. [(''id'', row_get r ''id''), (''height'', row_get r ''height'')])
     (take 1 (filter (\<lambda>r. row_height r = h) (committed d ''blocks''))))"
proof -
  have "queryBuilder False [(''where'', PRow [(''height'', JNum h)]), (''limit'', PVal (JNum 1))] = Inr (\<lambda>r. sql_eq (row_get r ''height'') (JNum h))"
    by (simp add: find_query_simps)
  then show ?thesis
    by (simp add: block_at_def find_tbl_def sort_columns_def sort_param_def order_by_def limit_rows_def num_param_def read_table_def blocks_name
        height_filter [OF assms])
qed

text \<open>The node answers a request for a height with a block of this height.\<close>

definition node_ok :: "block_env \<Rightarrow> bool" where
  "node_ok env \<longleftrightarrow> (\<forall>h b. getBlockByHeight env h = Inr (Some b) \<longrightarrow> bl_height b = h)"

definition next_height :: "int \<Rightarrow> table \<Rightarrow> int" where
  "next_height job_height t = (if t = [] then job_height else Max (set (block_heights t)) + 1)"

lemma plan_proceed:
  assumes ok: "blocks_ok (committed d ''blocks'')" and env: "node_ok env" and plan: "plan_index env j d = Inr (Proceed b)"
  shows "bl_height b = next_height j (committed d ''blocks'')" "0 \<le> bl_height b"
    "genesis_height env + 1 < bl_height b \<Longrightarrow>
       \<exists>r \<in> set (committed d ''blocks''). row_height r = bl_height b - 1 \<and> row_get r ''id'' = JStr (previousBlockID b)"
proof -
  let ?t = "committed d ''blocks''" and ?h = "next_height j (committed d ''blocks'')"
  have h: "(case (if ?t = [] then None else Some (Max (set (block_heights ?t)))) of Some l \<Rightarrow> l + 1 | None \<Rightarrow> j) = ?h"
    by (simp add: next_height_def)
  obtain cur prev where prev: "(if genesis_height env + 1 < ?h then block_at (?h - 1) d else Inr [[]]) = Inr prev" "prev \<noteq> []"
    "\<not> (hd prev \<noteq> [] \<and> row_get (hd prev) ''id'' \<noteq> JStr (previousBlockID b))"
    and b: "getBlockByHeight env ?h = Inr (Some b)" "validateBlock (Some b)"
    using plan unfolding plan_index_def last_indexed [OF ok] bindR_Inr Let_def h
    by (auto simp: bindR_eq_Inr split: if_splits option.splits jsval.splits)
  show hb: "bl_height b = ?h" using env b(1) by (simp add: node_ok_def)
  show "0 \<le> bl_height b" using b(2) by (simp add: validateBlock_def)
  assume "genesis_height env + 1 < bl_height b"
  then have p: "prev = map (\<lambda>r. [(''id'', row_get r ''id''), (''height'', row_get r ''height'')]) (take 1 (filter (\<lambda>r. row_height r = ?h - 1) ?t))"
    using prev(1) hb block_at_eq [OF ok] by simp
  then obtain r where r: "take 1 (filter (\<lambda>r. row_height r = ?h - 1) ?t) = [r]"
    using prev(2) by (cases "filter (\<lambda>r. row_height r = ?h - 1) ?t") auto
  then have "r \<in> set (take 1 (filter (\<lambda>r. row_height r = ?h - 1) ?t))" by simp
  then have "r \<in> set ?t" "row_height r = ?h - 1" by (auto dest!: in_set_takeD)
  moreover have "row_get r ''id'' = JStr (previousBlockID b)" using prev(3) unfolding p r by (simp add: row_get_def)
  ultimately show "\<exists>r \<in> set ?t. row_height r = bl_height b - 1 \<and> row_get r ''id'' = JStr (previousBlockID b)" using hb by auto
qed

lemma plan_proceed_fetched:
  assumes ok: "blocks_ok (committed d ''blocks'')" and env: "node_ok env" and plan: "plan_index env j d = Inr (Proceed b)"
  shows "getBlockByHeight env (bl_height b) = Inr (Some b)"
proof -
  obtain h where "getBlockByHeight env h = Inr (Some b)"
    using plan by (auto simp: plan_index_def Let_def bindR_eq_Inr split: if_splits option.splits jsval.splits)
  then show ?thesis using env by (auto simp: node_ok_def)
qed

section \<open>What a job does to the blocks\<close>

definition block_cells :: "node_block \<Rightarrow> nat \<Rightarrow> int \<Rightarrow> row" where
  "block_cells b n reward =
     [(''id'', JStr (bl_id b)), (''height'', JNum (bl_height b)), (''timestamp'', JNum (bl_timestamp b)),
      (''generatorAddress'', JStr (generatorAddress b)), (''size'', JNum (bl_size b)), (''isFinal'', JBool (bl_isFinal b)),
      (''assetsModules'', JNull), (''numberOfEvents'', JNum (int n)), (''reward'', JBig reward)]"

lemma block_row_insert:
  "upsert blocksTableSchema [block_row b n reward] True d
     = Inr (run_stmt ''blocks'' True (sql_insert_merge blocksTableSchema (block_row b n reward)) d)"
  "fill_row blocksTableSchema (block_row b n reward) = block_cells b n reward"
  by (simp_all add: upsert_def block_row_def block_cells_def blocksTableSchema_def mk_col_def cast_types getValue_def cast_def fill_row_def
      not_null_ok_def row_get_def)

lemma block_cells_ok:
  "row_wf blocksTableSchema (block_cells b n reward)" "row_typed blocksTableSchema (block_cells b n reward)"
  "row_get (block_cells b n reward) ''height'' = JNum (bl_height b)" "row_get (block_cells b n reward) ''id'' = JStr (bl_id b)"
  by (simp_all add: row_wf_def row_typed_def blocksTableSchema_def mk_col_def block_cells_def row_get_def cell_ok_def)

lemma block_appended:
  assumes ok: "blocks_ok t" and fresh: "bl_height b \<notin> set (block_heights t)"
  shows "sql_insert_merge blocksTableSchema (block_row b n reward) t = t @ [block_cells b n reward]"
    and "blocks_ok (t @ [block_cells b n reward])"
    and "block_heights (t @ [block_cells b n reward]) = block_heights t @ [bl_height b]"
proof -
  have key: "row_key blocksTableSchema (block_cells b n reward) = [JNum (bl_height b)]"
    by (simp add: row_key_def blocksTableSchema_def block_cells_ok)
  have new: "row_key blocksTableSchema r \<noteq> [JNum (bl_height b)]" if "r \<in> set t" for r
  proof -
    have "row_height r \<in> set (block_heights t)" using that by (simp add: block_heights_map [OF ok])
    then have "row_height r \<noteq> bl_height b" using fresh by metis
    then show ?thesis using row_key_blocks [OF ok that] by simp
  qed
  then show "sql_insert_merge blocksTableSchema (block_row b n reward) t = t @ [block_cells b n reward]"
    unfolding sql_insert_merge_def block_row_insert Let_def key by auto
  show all: "blocks_ok (t @ [block_cells b n reward])"
  proof -
    have "row_key blocksTableSchema (block_cells b n reward) \<notin> set (map (row_key blocksTableSchema) t)"
      unfolding key set_map using new by (metis imageE)
    then have "distinct (map (row_key blocksTableSchema) (t @ [block_cells b n reward]))"
      using ok by (simp add: blocks_ok_def table_typed_def table_wf_def)
    then show ?thesis using ok block_cells_ok by (simp add: blocks_ok_def table_typed_def table_wf_def)
  qed
  show "block_heights (t @ [block_cells b n reward]) = block_heights t @ [bl_height b]"
    by (simp add: block_heights_map [OF all] block_heights_map [OF ok] row_height_def block_cells_ok)
qed

definition blocks_of :: "chain_state \<Rightarrow> table" where
  "blocks_of s = committed (st_db (idx s)) ''blocks''"

lemma same_blocks: "same_table ''blocks'' d d' \<Longrightarrow> working d' ''blocks'' = working d ''blocks'' \<and> committed d' ''blocks'' = committed d ''blocks''"
  by (simp add: same_table_def)

lemma events_keep_idx: "getEventsByHeight env h s = Inr (es, s') \<Longrightarrow> idx s' = idx s"
  "getEventsByBlockID env i s = Inr (es, s') \<Longrightarrow> idx s' = idx s"
  by (auto simp: getEventsByHeight_def getEventsByBlockID_def bindR_eq_Inr split: option.splits)

lemma cache_grows: "getEventsByHeight env h s = Inr (es, s') \<Longrightarrow> eventCache s \<subseteq>\<^sub>m eventCache s'"
  by (auto simp: getEventsByHeight_def bindR_eq_Inr map_le_def split: option.splits)

lemma getEventsByBlockID_height_cache: "getEventsByBlockID env i s = Inr (es, s') \<Longrightarrow> eventCache s' = eventCache s"
  by (auto simp: getEventsByBlockID_def bindR_eq_Inr split: option.splits if_splits)

lemma index_block_done:
  assumes ok: "blocks_ok (blocks_of s)" and env: "node_ok env" and fresh: "bl_height b \<notin> set (block_heights (blocks_of s))"
    and run: "index_block env b s = Done s'"
  shows "\<exists>n reward. blocks_of s' = blocks_of s @ [block_cells b n reward]"
proof -
  obtain st balances events s1 st1 st2 where
    gen: "genesis_assets env b (begin_trx (idx s)) = Inr (st, balances)"
    and stages: "run_stages (index_stages (env, b, events)) st = Inr st1" and wr: "write_block b events st1 = Inr st2"
    and s': "idx s' = finish_trx st2"
    using run by (auto simp: index_block_def price_jobs_of_def bindR_eq_Inr cacheEventsByBlockID_def split: sum.splits option.splits if_splits)
  have "same_table ''blocks'' (st_db (begin_trx (idx s))) (st_db st)"
    using gen keep_genesis [OF blocks_outside(1)] by (auto simp: genesis_assets_def same_table_def split: if_splits)
  moreover have "same_table ''blocks'' (st_db st) (st_db st1)" using stages by (rule index_frame.run_same)
  ultimately have same: "working (st_db st1) ''blocks'' = blocks_of s"
    by (simp add: same_table_def begin_trx_def startDBTransaction_def blocks_of_def)
  obtain reward where "with_db (upsert blocksTableSchema [block_row b (length events) reward] True) st1 = Inr st2"
    using wr by (auto simp: write_block_def bindR_eq_Inr)
  then have "working (st_db st2) ''blocks'' = sql_insert_merge blocksTableSchema (block_row b (length events) reward) (blocks_of s)"
    using same by (auto simp: with_db_def block_row_insert)
  then have "blocks_of s' = blocks_of s @ [block_cells b (length events) reward]"
    using s' block_appended(1) [OF ok fresh] by (simp add: blocks_of_def finish_trx_def commitDBTransaction_def)
  then show ?thesis by blast
qed

lemma next_height_fresh: "finite (set (block_heights t)) \<Longrightarrow> next_height j t \<notin> set (block_heights t)"
proof
  assume m: "next_height j t \<in> set (block_heights t)"
  then have "t \<noteq> []" by (auto simp: block_heights_def map_filter_simps)
  then have "Max (set (block_heights t)) + 1 \<in> set (block_heights t)" using m by (simp add: next_height_def)
  then show False using Max_ge [of "set (block_heights t)" "Max (set (block_heights t)) + 1"] by simp
qed

lemma indexBlock_blocks:
  assumes ok: "blocks_ok (blocks_of s)" and env: "node_ok env" and run: "indexBlock env h s = Done s'"
  shows "blocks_of s' = blocks_of s \<or>
    (\<exists>b n reward. bl_height b = next_height h (blocks_of s) \<and> 0 \<le> bl_height b \<and> getBlockByHeight env (bl_height b) = Inr (Some b)
       \<and> blocks_of s' = blocks_of s @ [block_cells b n reward]
       \<and> (genesis_height env + 1 < bl_height b \<longrightarrow>
            (\<exists>r \<in> set (blocks_of s). row_height r = bl_height b - 1 \<and> row_get r ''id'' = JStr (previousBlockID b))))"
proof -
  let ?d = "st_db (idx s)"
  consider (skip) "plan_index env h ?d = Inr Skip" "s' = s"
    | (fork) k where "plan_index env h ?d = Inr (DeleteFirst k)" "s' = addHeightToIndexBlocksQueue env 1 k (scheduleBlockDeletion [k] s)"
    | (go) b where "plan_index env h ?d = Inr (Proceed b)" "index_block env b s = Done s'"
    using run by (auto simp: indexBlock_def split: sum.splits index_plan.splits)
  then show ?thesis
  proof cases
    case skip
    then show ?thesis by simp
  next
    case fork
    then show ?thesis by (simp add: addHeightToIndexBlocksQueue_def scheduleBlockDeletion_def blocks_of_def)
  next
    case go
    note p = plan_proceed [OF ok [unfolded blocks_of_def] env go(1), folded blocks_of_def]
    have "bl_height b \<notin> set (block_heights (blocks_of s))" using p(1) next_height_fresh by simp
    then obtain n reward where "blocks_of s' = blocks_of s @ [block_cells b n reward]" using index_block_done [OF ok env _ go(2)] by blast
    moreover have "getBlockByHeight env (bl_height b) = Inr (Some b)" using plan_proceed_fetched [OF ok [unfolded blocks_of_def] env go(1)] .
    ultimately show ?thesis using p by blast
  qed
qed

text \<open>
  C2: A block enters the index only on top of its predecessor. Whatever height the job asks for, a job
  that ends without an error either leaves the indexed blocks as they are or adds exactly one block, the block
  that the node has at the height after the last indexed one; and above the first block after genesis, the last indexed block
  is the one that the new block names as its predecessor.
\<close>

theorem block_extends_index:
  assumes "blocks_ok (blocks_of s)" and "node_ok env" and "indexBlock env h s = Done s'" and "blocks_of s' \<noteq> blocks_of s"
  shows "\<exists>b n reward. getBlockByHeight env (next_height h (blocks_of s)) = Inr (Some b) \<and> bl_height b = next_height h (blocks_of s)
     \<and> blocks_of s' = blocks_of s @ [block_cells b n reward]
     \<and> (genesis_height env + 1 < bl_height b \<longrightarrow>
          (\<exists>r \<in> set (blocks_of s). row_height r = bl_height b - 1 \<and> row_get r ''id'' = JStr (previousBlockID b)))"
  using indexBlock_blocks [OF assms(1-3)] assms(4) by metis

section \<open>Deletion\<close>

text \<open>A block identifier is a hash of the header, which contains the height: \<open>hid\<close> gives the height that
  belongs to an identifier.\<close>

definition ids_ok :: "(string \<Rightarrow> int) \<Rightarrow> table \<Rightarrow> bool" where
  "ids_ok hid t = list_all (\<lambda>r. case row_get r ''id'' of JStr i \<Rightarrow> hid i = row_height r | _ \<Rightarrow> False) t"

lemma find_ge:
  assumes "blocks_ok (committed d ''blocks'')" and "bs \<noteq> []"
  shows "\<exists>rs. getBlocksToDelete bs d = Inr rs
     \<and> (\<lambda>r. row_get r ''id'') ` set rs = (\<lambda>r. row_get r ''id'') ` {r \<in> set (committed d ''blocks''). Min (set bs) \<le> row_height r}"
proof -
  let ?t = "committed d ''blocks''" and ?m = "Min (set bs)"
  let ?ps = "[(''propBetweens'', PBetweens [\<lparr>pb_property = ''height'', pb_from = None, pb_to = None,
               pb_greaterThanEqualTo = Some (JNum ?m), pb_lowerThanEqualTo = None, pb_greaterThan = None, pb_lowerThan = None\<rparr>]),
             (''sort'', PVal (JStr ''height:desc''))]"
  define P where "P = (\<lambda>r. row_get r ''height'' \<noteq> JNull \<and> sql_leq (JNum ?m) (row_get r ''height''))"
  have q: "queryBuilder False ?ps = Inr P" unfolding P_def
    by (simp add: queryBuilder_def where_clauses_def resolveQueryParams_def KNOWN_QUERY_PARAMS_def sort_param_def between_clauses_def
        sort_clauses_def in_clauses_def whereIn_clauses_def nested_clauses_def null_clauses_def like_clauses_def) (simp add: eq_clauses_def fun_eq_iff)
  have f: "filter P ?t = filter (\<lambda>r. ?m \<le> row_height r) ?t"
    unfolding P_def using blocks_height [OF assms(1)] by (intro filter_cong) auto
  let ?sel = "\<lambda>r. [(''id'', row_get r ''id''), (''height'', row_get r ''height''), (''generatorAddress'', row_get r ''generatorAddress''),
    (''timestamp'', row_get r ''timestamp''), (''isFinal'', row_get r ''isFinal'')]"
  have g: "getBlocksToDelete bs d = Inr (map ?sel (rev (sort_key (\<lambda>r. row_get r ''height'') (rev (filter (\<lambda>r. ?m \<le> row_height r) ?t)))))"
    using assms(2) by (simp add: getBlocksToDelete_def find_tbl_def q sort_columns_def sort_param_def order_by_def limit_rows_def num_param_def
        read_table_def blocks_name f)
  have "row_get (?sel r) ''id'' = row_get r ''id''" for r by (simp add: row_get_def)
  then have ids: "(\<lambda>r. row_get r ''id'') ` set (map ?sel xs) = (\<lambda>r. row_get r ''id'') ` set xs" for xs by (simp only: set_map image_image)
  show ?thesis
    by (rule exI [of _ "map ?sel (rev (sort_key (\<lambda>r. row_get r ''height'') (rev (filter (\<lambda>r. ?m \<le> row_height r) ?t))))"])
       (simp only: g ids set_rev set_sort set_filter simp_thms)
qed

lemma same_table_refl [simp]: "same_table n d d"
  by (simp add: same_table_def)

lemma format_transaction_state:
  assumes "format_transaction env b it s = Inr (tx', s')"
  shows "idx s' = idx s" "eventCache s \<subseteq>\<^sub>m eventCache s'"
proof -
  obtain i tx where it: "it = (i, tx)" by (cases it)
  have "s' = s \<or> (\<exists>es. getEventsByHeight env (bl_height b) s = Inr (es, s'))"
    using assms by (auto simp: format_transaction_def it bindR_eq_Inr split: if_splits)
  then show "idx s' = idx s" "eventCache s \<subseteq>\<^sub>m eventCache s'" using events_keep_idx(1) cache_grows by auto
qed

lemma getTransactions_state:
  assumes "getTransactionsByBlockID env i s = Inr (txs, s')"
  shows "idx s' = idx s" "eventCache s \<subseteq>\<^sub>m eventCache s'"
proof -
  obtain b where fold: "foldR (\<lambda>it (txs, s). bindR (format_transaction env b it s) (\<lambda>(tx, s1). Inr (txs @ [tx], s1)))
      (enumerate 0 (bl_transactions b)) ([], s) = Inr (txs, s')"
    using assms by (auto simp: getTransactionsByBlockID_def bindR_eq_Inr)
  have "idx (snd (txs, s')) = idx s \<and> eventCache s \<subseteq>\<^sub>m eventCache (snd (txs, s'))"
  proof (rule foldR_invariant [OF fold])
    fix it and x y :: "command_tx list \<times> chain_state"
    assume x: "idx (snd x) = idx s \<and> eventCache s \<subseteq>\<^sub>m eventCache (snd x)"
      and y: "(\<lambda>(txs, s). bindR (format_transaction env b it s) (\<lambda>(tx, s1). Inr (txs @ [tx], s1))) x = Inr y"
    obtain tx where "format_transaction env b it (snd x) = Inr (tx, snd y)" using y by (cases x) (auto simp: bindR_eq_Inr)
    from format_transaction_state [OF this] x show "idx (snd y) = idx s \<and> eventCache s \<subseteq>\<^sub>m eventCache (snd y)"
      using map_le_trans by metis
  qed simp
  then show "idx s' = idx s" "eventCache s \<subseteq>\<^sub>m eventCache s'" by simp_all
qed

text \<open>What the deletion of one block has done when it succeeds.\<close>

lemma delete_block_cases:
  assumes "delete_block env r (s, a) = Inr (s', a')"
  obtains "s' = s"
    | txs events s1 st where "idx s1 = idx s" "eventCache s \<subseteq>\<^sub>m eventCache s1"
        "run_stages (delete_stages (env, block_of_row r, js_String (row_get r ''generatorAddress''), txs, events)) (idx s1) = Inr st"
        "s' = deleteEventsFromCacheByBlockID (bl_id (block_of_row r)) s1\<lparr>idx := st\<rparr>"
proof -
  define stages where "stages txs es t = run_stages (delete_stages (env, block_of_row r, js_String (row_get r ''generatorAddress''), txs, es)) t" for txs es t
  note d = assms [unfolded delete_block_def Let_def prod.case, folded stages_def]
  obtain inDB :: "row list" where "(if inDB = [] then Inr (s, a)
     else bindR (getTransactionsByBlockID env (bl_id (block_of_row r)) s) (\<lambda>(txs, s0).
          bindR (getEventsByBlockID env (bl_id (block_of_row r)) s0) (\<lambda>(events, s1).
          bindR (stages txs events (idx s1)) (\<lambda>st. Inr (deleteEventsFromCacheByBlockID (bl_id (block_of_row r)) s1\<lparr>idx := st\<rparr>,
                 if events = [] then a else getAddressesFromTokenEvents events))))) = Inr (s', a')"
    using d unfolding bindR_eq_Inr [of "find_tbl _ _ _ _ _"] by (elim exE conjE) (rule that)
  then consider "s' = s" | txs s0 events s1 st where "getTransactionsByBlockID env (bl_id (block_of_row r)) s = Inr (txs, s0)"
      "getEventsByBlockID env (bl_id (block_of_row r)) s0 = Inr (events, s1)" "stages txs events (idx s1) = Inr st"
      "s' = deleteEventsFromCacheByBlockID (bl_id (block_of_row r)) s1\<lparr>idx := st\<rparr>"
    by (auto simp: bindR_eq_Inr split: if_splits)
  then show thesis
  proof cases
    case 2
    have "idx s1 = idx s" "eventCache s \<subseteq>\<^sub>m eventCache s1"
      using getTransactions_state [OF 2(1)] events_keep_idx(2) [OF 2(2)] getEventsByBlockID_height_cache [OF 2(2)] by simp_all
    then show ?thesis using that(2) 2(3,4) by (simp add: stages_def)
  qed (rule that(1))
qed

lemma delete_block_frame:
  assumes "delete_block env r (s, a) = Inr (s', a')"
  shows "same_table ''blocks'' (st_db (idx s)) (st_db (idx s'))" "eventCache s \<subseteq>\<^sub>m eventCache s'"
  using assms delete_frame.run_same
  by (elim delete_block_cases; force simp: deleteEventsFromCacheByBlockID_def)+

lemma delete_fold_frame:
  assumes "foldR (delete_block env) rs (s, a) = Inr (s', a')"
  shows "same_table ''blocks'' (st_db (idx s)) (st_db (idx s'))"
proof -
  have "same_table ''blocks'' (st_db (idx s)) (st_db (idx (fst (s', a'))))"
  proof (rule foldR_invariant [OF assms])
    fix r and x y :: "chain_state \<times> string list"
    assume "same_table ''blocks'' (st_db (idx s)) (st_db (idx (fst x)))" "delete_block env r x = Inr y"
    then show "same_table ''blocks'' (st_db (idx s)) (st_db (idx (fst y)))"
      using delete_block_frame(1) [of env r "fst x" "snd x" "fst y" "snd y"] by (auto intro: same_table_trans)
  qed simp
  then show ?thesis by simp
qed

lemma where_ids: "deleteByParams blocksTableSchema [(''whereIn'', PIn [(''id'', vs)])] True d
    = Inr (run_stmt ''blocks'' True (sql_delete (\<lambda>r. in_list vs (row_get r ''id''))) d)"
proof -
  have "queryBuilder False [(''whereIn'', PIn [(''id'', vs)])] = Inr (\<lambda>r. in_list vs (row_get r ''id''))"
    by (simp add: find_query_simps) (simp add: eq_clauses_def fun_eq_iff)
  then show ?thesis by (simp add: deleteByParams_def blocks_name)
qed

lemma deleted_rows:
  assumes ok: "blocks_ok t" "ids_ok hid t" and vs: "set vs = (\<lambda>r. row_get r ''id'') ` {r \<in> set t. m \<le> row_height r}"
  shows "sql_delete (\<lambda>r. in_list vs (row_get r ''id'')) t = filter (\<lambda>r. row_height r < m) t"
proof -
  have "in_list vs (row_get r ''id'') \<longleftrightarrow> m \<le> row_height r" if r: "r \<in> set t" for r
  proof -
    have id: "\<exists>i. row_get q ''id'' = JStr i \<and> hid i = row_height q" if "q \<in> set t" for q
      using bspec [OF ok(2) [unfolded ids_ok_def list_all_iff] that] by (cases "row_get q ''id''") simp_all
    then obtain i where i: "row_get r ''id'' = JStr i" "hid i = row_height r" using r by blast
    have "m \<le> row_height r" if v: "v \<in> set vs" "sql_eq (JStr i) v" for v
    proof -
      obtain q where q: "q \<in> set t" "m \<le> row_height q" "v = row_get q ''id''" using v(1) vs by auto
      then obtain j where "row_get q ''id'' = JStr j" "hid j = row_height q" using id by blast
      then show ?thesis using q v(2) i by simp
    qed
    moreover have "row_get r ''id'' \<in> set vs" if "m \<le> row_height r" using that vs r by auto
    ultimately show ?thesis using i by (auto simp: in_list_def list_ex_iff intro!: bexI [of _ "JStr i"])
  qed
  then show ?thesis unfolding sql_delete_def by (intro filter_cong) auto
qed

lemma listed_final:
  assumes run: "delete_listed env rs s = Done s'"
  shows "blocks_of s' = sql_delete (\<lambda>r. in_list (map (\<lambda>r. row_get r ''id'') rs) (row_get r ''id'')) (blocks_of s)"
proof -
  obtain s1 a st where fold: "foldR (delete_block env) rs (s\<lparr>idx := begin_trx (idx s)\<rparr>, []) = Inr (s1, a)"
    and del: "with_db (deleteByParams blocksTableSchema [(''whereIn'', PIn [(''id'', map (\<lambda>r. row_get r ''id'') rs)])] True) (idx s1) = Inr st"
    and s': "idx s' = finish_trx st"
    using run by (auto simp: delete_listed_def bindR_eq_Inr split: sum.splits)
  have same: "working (st_db (idx s1)) ''blocks'' = blocks_of s"
    using delete_fold_frame [OF fold] by (simp add: same_table_def begin_trx_def startDBTransaction_def blocks_of_def)
  then show ?thesis using del s' by (auto simp: with_db_def where_ids blocks_of_def finish_trx_def commitDBTransaction_def)
qed

lemma delete_final:
  assumes "deleteIndexedBlocks env bs s = Done s'" and "getBlocksToDelete bs (st_db (idx s)) = Inr rs"
  shows "blocks_of s' = sql_delete (\<lambda>r. in_list (map (\<lambda>r. row_get r ''id'') rs) (row_get r ''id'')) (blocks_of s)"
  using assms by (intro listed_final) (simp add: deleteIndexedBlocks_def)

lemma delete_done:
  assumes ok: "blocks_ok (blocks_of s)" "ids_ok hid (blocks_of s)" and run: "deleteIndexedBlocks env bs s = Done s'"
  shows "blocks_of s' = (if bs = [] then blocks_of s else filter (\<lambda>r. row_height r < Min (set bs)) (blocks_of s))"
proof -
  obtain rs where rs: "getBlocksToDelete bs (st_db (idx s)) = Inr rs"
    using run by (auto simp: deleteIndexedBlocks_def delete_listed_def bindR_eq_Inr split: sum.splits)
  note final = delete_final [OF run rs]
  show ?thesis
  proof (cases "bs = []")
    case True
    then show ?thesis using rs final by (simp add: getBlocksToDelete_def in_list_def sql_delete_def)
  next
    case False
    then have "set (map (\<lambda>r. row_get r ''id'') rs) = (\<lambda>r. row_get r ''id'') ` {r \<in> set (blocks_of s). Min (set bs) \<le> row_height r}"
      using find_ge [OF ok(1) [unfolded blocks_of_def] False] rs by (simp add: blocks_of_def)
    then show ?thesis using False final deleted_rows [OF ok] by simp
  qed
qed

text \<open>
  C5: Deleting blocks removes exactly a suffix of the index. When a deletion job succeeds, the blocks from the lowest
  height of the job on are gone and all blocks below it are untouched; a job without blocks changes nothing. The identifiers
  of the blocks belong to their heights.
\<close>

theorem deletion_cuts_suffix:
  assumes "blocks_ok (blocks_of s)" and "ids_ok hid (blocks_of s)" and "deleteIndexedBlocks env bs s = Done s'"
  shows "blocks_of s' = (if bs = [] then blocks_of s else filter (\<lambda>r. row_height r < Min (set bs)) (blocks_of s))"
  using delete_done [OF assms] .

section \<open>Durability\<close>

lemma check_height:
  assumes "blocks_ok (committed d ''blocks'')"
  shows "checkBlockHeightIndexStatusInDB h st d = Inr (st = COMMIT \<longleftrightarrow> h \<in> set (block_heights (committed d ''blocks'')))"
proof -
  let ?t = "committed d ''blocks''"
  have "queryBuilder False [(''height'', PVal (JNum h))] = Inr (\<lambda>r. sql_eq (row_get r ''height'') (JNum h))" by (simp add: find_query_simps)
  then have f: "find_tbl blocksTableSchema [(''height'', PVal (JNum h))] (Some [''height'']) False d
      = Inr (map (\<lambda>r. [(''height'', row_get r ''height'')]) (filter (\<lambda>r. row_height r = h) ?t))"
    by (simp add: find_tbl_def sort_columns_def sort_param_def order_by_def limit_rows_def num_param_def read_table_def blocks_name
        height_filter [OF assms])
  show ?thesis
  proof (cases "filter (\<lambda>r. row_height r = h) ?t")
    case Nil
    then have "h \<notin> set (block_heights ?t)" by (auto simp: block_heights_map [OF assms] filter_empty_conv)
    then show ?thesis by (cases st) (simp_all add: checkBlockHeightIndexStatusInDB_def f Nil)
  next
    case (Cons r rs)
    then have r: "r \<in> set ?t" "row_height r = h" by (auto dest: filter_eq_ConsD)
    then have "h \<in> set (block_heights ?t)" by (auto simp: block_heights_map [OF assms])
    moreover have "row_get r ''height'' = JNum h" using blocks_height [OF assms r(1)] r(2) by simp
    ultimately show ?thesis by (cases st) (simp_all add: checkBlockHeightIndexStatusInDB_def f Cons row_get_def)
  qed
qed

lemma check_ids: "checkBlockIDsDeleteStatusInDB ids st d
    = Inr (st = ROLLBACK \<longleftrightarrow> (\<exists>r \<in> set (committed d ''blocks''). in_list ids (row_get r ''id'')))"
proof -
  have "queryBuilder False [(''whereIn'', PIn [(''id'', ids)])] = Inr (\<lambda>r. in_list ids (row_get r ''id''))"
    by (simp add: find_query_simps) (simp add: eq_clauses_def fun_eq_iff)
  then show ?thesis
    by (cases st) (auto simp: checkBlockIDsDeleteStatusInDB_def find_tbl_def sort_columns_def sort_param_def order_by_def limit_rows_def
        num_param_def read_table_def blocks_name filter_empty_conv)
qed

text \<open>
  The transaction of a job up to some point: the first \<open>k\<close> stages of the indexing of a block, the last of which writes its
  row, and the first \<open>k\<close> blocks of a deletion, with or without the \<open>final\<close> statement.
\<close>

definition index_attempt :: "block_env \<Rightarrow> node_block \<Rightarrow> event option list \<Rightarrow> nat \<Rightarrow> chain_state \<Rightarrow> istate result" where
  "index_attempt env b events k s =
     bindR (genesis_assets env b (begin_trx (idx s))) (\<lambda>(st, _). run_stages (take k (index_stages (env, b, events) @ [write_block b events])) st)"

definition delete_attempt :: "block_env \<Rightarrow> row list \<Rightarrow> nat \<Rightarrow> bool \<Rightarrow> chain_state \<Rightarrow> istate result" where
  "delete_attempt env rs k final s =
     bindR (foldR (delete_block env) (take k rs) (s\<lparr>idx := begin_trx (idx s)\<rparr>, [])) (\<lambda>(s1, _).
       if final then with_db (deleteByParams blocksTableSchema [(''whereIn'', PIn [(''id'', map (\<lambda>r. row_get r ''id'') rs)])] True) (idx s1) else Inr (idx s1))"

lemma write_block_committed: "write_block b events st = Inr st' \<Longrightarrow> committed (st_db st') ''blocks'' = committed (st_db st) ''blocks''"
  by (auto simp: write_block_def bindR_eq_Inr with_db_def block_row_insert)

lemma attempt_index:
  assumes "index_attempt env b events k s = Inr st1"
  shows "committed (st_db st1) ''blocks'' = blocks_of s"
proof -
  let ?S = "index_stages (env, b, events)"
  obtain st bal where gen: "genesis_assets env b (begin_trx (idx s)) = Inr (st, bal)" and run: "run_stages (take k (?S @ [write_block b events])) st = Inr st1"
    using assms by (auto simp: index_attempt_def bindR_eq_Inr)
  have "same_table ''blocks'' (st_db (begin_trx (idx s))) (st_db st)"
    using gen keep_genesis [OF blocks_outside(1)] by (auto simp: genesis_assets_def same_table_def split: if_splits)
  then have 1: "committed (st_db st) ''blocks'' = blocks_of s" by (simp add: same_table_def begin_trx_def startDBTransaction_def blocks_of_def)
  have "committed (st_db st1) ''blocks'' = committed (st_db st) ''blocks''"
    using run unfolding run_stages_def
  proof (rule foldR_invariant [where P = "\<lambda>x. committed (st_db x) ''blocks'' = committed (st_db st) ''blocks''"])
    fix f x y
    assume f: "f \<in> set (take k (?S @ [write_block b events]))" "committed (st_db x) ''blocks'' = committed (st_db st) ''blocks''" "f x = Inr y"
    then have "f \<in> set ?S \<or> f = write_block b events" by (auto dest!: in_set_takeD)
    then show "committed (st_db y) ''blocks'' = committed (st_db st) ''blocks''"
    proof
      assume "f \<in> set ?S"
      then have "keeps ''blocks'' x (f x)" by (rule index_frame.stage_keeps)
      then show ?thesis using f(2,3) by (simp add: keeps_def same_table_def)
    qed (use f write_block_committed in simp)
  qed simp
  then show ?thesis using 1 by simp
qed

lemma attempt_delete:
  assumes "delete_attempt env rs k final s = Inr st2"
  shows "committed (st_db st2) ''blocks'' = blocks_of s"
proof -
  obtain s1 a where fold: "foldR (delete_block env) (take k rs) (s\<lparr>idx := begin_trx (idx s)\<rparr>, []) = Inr (s1, a)"
    and st2: "(if final then with_db (deleteByParams blocksTableSchema [(''whereIn'', PIn [(''id'', map (\<lambda>r. row_get r ''id'') rs)])] True) (idx s1) else Inr (idx s1)) = Inr st2"
    using assms by (auto simp: delete_attempt_def bindR_eq_Inr)
  have "committed (st_db st2) ''blocks'' = committed (st_db (idx s1)) ''blocks''" using st2 by (auto simp: with_db_def where_ids split: if_splits)
  then show ?thesis using delete_fold_frame [OF fold] by (simp add: same_table_def begin_trx_def startDBTransaction_def blocks_of_def)
qed

lemma listed_found:
  assumes "blocks_ok (blocks_of s)" and "ids_ok hid (blocks_of s)" and rs: "getBlocksToDelete bs (st_db (idx s)) = Inr rs"
  shows "(\<exists>r \<in> set (blocks_of s). in_list (map (\<lambda>r. row_get r ''id'') rs) (row_get r ''id'')) \<longleftrightarrow> rs \<noteq> []"
proof
  assume ne: "rs \<noteq> []"
  then have "bs \<noteq> []" using rs by (auto simp: getBlocksToDelete_def)
  then have "(\<lambda>r. row_get r ''id'') ` set rs = (\<lambda>r. row_get r ''id'') ` {r \<in> set (blocks_of s). Min (set bs) \<le> row_height r}"
    using find_ge [OF assms(1) [unfolded blocks_of_def], of bs] rs by (simp add: blocks_of_def)
  then have ids: "(\<lambda>r. row_get r ''id'') ` set rs \<subseteq> (\<lambda>r. row_get r ''id'') ` set (blocks_of s)" by auto
  obtain r where r: "r \<in> set rs" using ne by (cases rs) auto
  then have "row_get r ''id'' \<in> (\<lambda>r. row_get r ''id'') ` set (blocks_of s)" using ids by blast
  then obtain q where "q \<in> set (blocks_of s)" "row_get q ''id'' = row_get r ''id''" by (elim imageE) (rule that, simp_all)
  then have q: "q \<in> set (blocks_of s)" "row_get r ''id'' = row_get q ''id''" by simp_all
  obtain i where "row_get q ''id'' = JStr i"
    using bspec [OF assms(2) [unfolded ids_ok_def list_all_iff] q(1)] by (cases "row_get q ''id''") simp_all
  then have "in_list (map (\<lambda>r. row_get r ''id'') rs) (row_get q ''id'')"
    using r q(2) by (auto simp: in_list_def sql_eq_def list_ex_iff intro!: bexI [of _ r])
  then show "\<exists>r \<in> set (blocks_of s). in_list (map (\<lambda>r. row_get r ''id'') rs) (row_get r ''id'')" using q(1) by blast
qed (auto simp: in_list_def)


section \<open>All runs\<close>

text \<open>
  What a failing run may leave: the transaction is rolled back and the handlers do not touch the queues,
  but a statement outside the transaction may have changed any other table.
\<close>

definition rolled_back :: "chain_state \<Rightarrow> chain_state \<Rightarrow> bool" where
  "rolled_back s s' \<longleftrightarrow> blocks_of s' = blocks_of s \<and> indexBlocksQueue s' = indexBlocksQueue s
     \<and> deleteIndexedBlocksQueue s' = deleteIndexedBlocksQueue s \<and> indexing_paused s' = indexing_paused s"

text \<open>The environment with the block identifiers of \<open>hid\<close> and the genesis height \<open>G\<close>.\<close>

definition chain_env :: "int \<Rightarrow> (string \<Rightarrow> int) \<Rightarrow> block_env \<Rightarrow> bool" where
  "chain_env G hid env \<longleftrightarrow> node_ok env \<and> genesis_height env = G
     \<and> (\<forall>h b. getBlockByHeight env h = Inr (Some b) \<longrightarrow> hid (bl_id b) = bl_height b)"

text \<open>
  The two queues have a worker each. A job of either kind first reads the committed tables and later commits a transaction; in between it is active:
  \<open>jb_index\<close> is the height of the active indexing job with the block that has passed its checks, \<open>jb_delete\<close> the blocks of the active deletion job with
  the rows that it has found. A transaction takes effect at its commit.
\<close>

record jobs =
  jb_chain :: chain_state
  jb_index :: "(int \<times> node_block) option"
  jb_delete :: "(int list \<times> row list) option"

text \<open>
  The steps of the indexer: a job of either queue starts or ends, a new block is announced, a height or
  a deletion is scheduled, a cached entry is dropped. What the node answers may differ from step to step. A failed
  indexing job is tried again or, after the last attempt, dropped. A deletion pauses the queue of the indexing jobs, which keeps the next one from starting but does not wait for
  the active one.
\<close>

inductive job_step :: "int \<Rightarrow> (string \<Rightarrow> int) \<Rightarrow> jobs \<Rightarrow> jobs \<Rightarrow> bool" for G hid where
  IndexChecks: "jb_index j = None \<Longrightarrow> s = jb_chain j \<Longrightarrow> indexBlocksQueue s = h # hs \<Longrightarrow> \<not> indexing_paused s \<Longrightarrow> chain_env G hid env
    \<Longrightarrow> plan_index env h (st_db (idx s)) = Inr (Proceed b) \<Longrightarrow> job_step G hid j (j\<lparr>jb_chain := s\<lparr>indexBlocksQueue := hs\<rparr>, jb_index := Some (h, b)\<rparr>)"
| IndexStops: "jb_index j = None \<Longrightarrow> s = jb_chain j \<Longrightarrow> indexBlocksQueue s = h # hs \<Longrightarrow> \<not> indexing_paused s \<Longrightarrow> chain_env G hid env
    \<Longrightarrow> plan_index env h (st_db (idx s)) = Inr p \<Longrightarrow> p = Skip \<or> p = DeleteFirst k \<Longrightarrow> indexBlock env h (s\<lparr>indexBlocksQueue := hs\<rparr>) = Done s'
    \<Longrightarrow> job_step G hid j (j\<lparr>jb_chain := s'\<rparr>)"
| IndexRefused: "jb_index j = None \<Longrightarrow> s = jb_chain j \<Longrightarrow> indexBlocksQueue s = h # hs \<Longrightarrow> \<not> indexing_paused s \<Longrightarrow> chain_env G hid env
    \<Longrightarrow> plan_index env h (st_db (idx s)) = Inl e \<Longrightarrow> q \<in> {hs, h # hs} \<Longrightarrow> job_step G hid j (j\<lparr>jb_chain := s\<lparr>indexBlocksQueue := q\<rparr>\<rparr>)"
| IndexCommits: "jb_index j = Some (h, b) \<Longrightarrow> chain_env G hid env \<Longrightarrow> index_block env b (jb_chain j) = Done s'
    \<Longrightarrow> job_step G hid j (j\<lparr>jb_chain := s', jb_index := None\<rparr>)"
| IndexFails: "jb_index j = Some (h, b) \<Longrightarrow> s = jb_chain j \<Longrightarrow> chain_env G hid env \<Longrightarrow> index_block env b s = Failed e
    \<Longrightarrow> q \<in> {indexBlocksQueue s, h # indexBlocksQueue s} \<Longrightarrow> rolled_back (s\<lparr>indexBlocksQueue := q\<rparr>) s' \<Longrightarrow> job_step G hid j (j\<lparr>jb_chain := s', jb_index := None\<rparr>)"
| DeleteReads: "jb_delete j = None \<Longrightarrow> s = jb_chain j \<Longrightarrow> deleteIndexedBlocksQueue s = bs # rest \<Longrightarrow> getBlocksToDelete bs (st_db (idx s)) = Inr rs
    \<Longrightarrow> job_step G hid j (j\<lparr>jb_chain := s\<lparr>deleteIndexedBlocksQueue := rest, indexing_paused := True\<rparr>, jb_delete := Some (bs, rs)\<rparr>)"
| DeleteRefused: "jb_delete j = None \<Longrightarrow> s = jb_chain j \<Longrightarrow> deleteIndexedBlocksQueue s = bs # rest \<Longrightarrow> getBlocksToDelete bs (st_db (idx s)) = Inl e
    \<Longrightarrow> job_step G hid j (j\<lparr>jb_chain := finish_deletion made attempts bs (s\<lparr>deleteIndexedBlocksQueue := rest, indexing_paused := True\<rparr>) (Failed e)\<rparr>)"
| DeleteEnds: "jb_delete j = Some (bs, rs) \<Longrightarrow> chain_env G hid env \<Longrightarrow> rolled_back (jb_chain j) f
    \<Longrightarrow> job_step G hid j (j\<lparr>jb_chain := finish_deletion made attempts bs f (delete_listed env rs (jb_chain j)), jb_delete := None\<rparr>)"
| NewBlock: "chain_env G hid env \<Longrightarrow> indexNewBlock env b (jb_chain j) = Inr s' \<Longrightarrow> job_step G hid j (j\<lparr>jb_chain := s'\<rparr>)"
| Schedule: "job_step G hid j (j\<lparr>jb_chain := addHeightToIndexBlocksQueue env active h (jb_chain j)\<rparr>)"
| ScheduleDelete: "job_step G hid j (j\<lparr>jb_chain := scheduleBlockDeletion bs (jb_chain j)\<rparr>)"
| Evict: "s = jb_chain j \<Longrightarrow>
    job_step G hid j (j\<lparr>jb_chain := s\<lparr>eventCache := (eventCache s)(h := None), eventCacheByBlockID := (eventCacheByBlockID s)(i := None)\<rparr>\<rparr>)"

text \<open>The runs in which no indexing job is active while a deletion job is.\<close>

inductive reachable_apart :: "int \<Rightarrow> (string \<Rightarrow> int) \<Rightarrow> jobs \<Rightarrow> jobs \<Rightarrow> bool" for G hid j0 where
  Start: "reachable_apart G hid j0 j0"
| Step: "reachable_apart G hid j0 j \<Longrightarrow> job_step G hid j j' \<Longrightarrow> jb_index j' = None \<or> jb_delete j' = None \<Longrightarrow> reachable_apart G hid j0 j'"

text \<open>The invariant: the indexed heights are an interval that begins at the genesis block or just after it.\<close>

definition contiguous :: "int \<Rightarrow> (string \<Rightarrow> int) \<Rightarrow> table \<Rightarrow> bool" where
  "contiguous G hid t \<longleftrightarrow> blocks_ok t \<and> ids_ok hid t
     \<and> (t = [] \<or> (\<exists>g L. 0 \<le> g \<and> g \<le> G + 1 \<and> g \<le> L \<and> set (block_heights t) = {g..L}))"

lemma contiguous_append:
  assumes c: "contiguous G hid t" and h: "bl_height b = next_height j t" "0 \<le> bl_height b" and id: "hid (bl_id b) = bl_height b"
    and first: "t = [] \<Longrightarrow> bl_height b \<le> G + 1"
  shows "contiguous G hid (t @ [block_cells b n reward])"
proof -
  have ok: "blocks_ok t" using c by (simp add: contiguous_def)
  have "bl_height b \<notin> set (block_heights t)" using h(1) next_height_fresh by simp
  note app = block_appended [OF ok this, where n = n and reward = reward]
  have ids: "ids_ok hid (t @ [block_cells b n reward])"
    using c id by (simp add: contiguous_def ids_ok_def block_cells_ok row_height_def)
  show ?thesis
  proof (cases "t = []")
    case True
    then have "set (block_heights (t @ [block_cells b n reward])) = {bl_height b..bl_height b}"
      using app(3) by (simp add: block_heights_def map_filter_simps)
    then show ?thesis using app(2) ids first [OF True] h(2) unfolding contiguous_def by (metis order_refl)
  next
    case False
    then obtain g L where g: "0 \<le> g" "g \<le> G + 1" "g \<le> L" "set (block_heights t) = {g..L}" using c by (auto simp: contiguous_def)
    have "Max {g..L} = L" using g(3) by (intro Max_eqI) auto
    then have "bl_height b = L + 1" using h(1) False g(4) by (simp add: next_height_def)
    then have "set (block_heights (t @ [block_cells b n reward])) = {g..L + 1}" using app(3) g(3,4) by auto
    then show ?thesis using app(2) ids g unfolding contiguous_def by (metis add_increasing2 zero_le_one)
  qed
qed

lemma blocks_ok_filter: "blocks_ok t \<Longrightarrow> blocks_ok (filter P t)"
  by (auto simp: blocks_ok_def table_typed_def table_wf_def list_all_iff distinct_map inj_on_def)

lemma contiguous_cut:
  assumes c: "contiguous G hid t"
  shows "contiguous G hid (filter (\<lambda>r. row_height r < m) t)"
proof -
  let ?t = "filter (\<lambda>r. row_height r < m) t"
  have ok: "blocks_ok t" "blocks_ok ?t" using c blocks_ok_filter by (auto simp: contiguous_def)
  have ids: "ids_ok hid ?t" using c by (auto simp: contiguous_def ids_ok_def list_all_iff)
  have hs: "set (block_heights ?t) = {h \<in> set (block_heights t). h < m}"
    by (auto simp: block_heights_map [OF ok(1)] block_heights_map [OF ok(2)])
  show ?thesis
  proof (cases "?t = []")
    case True
    then show ?thesis using ok(2) ids by (simp add: contiguous_def)
  next
    case False
    then have "t \<noteq> []" by auto
    then obtain g L where g: "0 \<le> g" "g \<le> G + 1" "g \<le> L" "set (block_heights t) = {g..L}" using c by (auto simp: contiguous_def)
    obtain r where "r \<in> set ?t" using False by (cases ?t) auto
    then have "row_height r \<in> set (block_heights ?t)" by (simp add: block_heights_map [OF ok(2)])
    then have "g \<le> row_height r" "row_height r < m" using hs g(4) by auto
    then have "g \<le> min L (m - 1)" using g(3) by auto
    moreover have "set (block_heights ?t) = {g..min L (m - 1)}" using hs g(4) by auto
    ultimately show ?thesis using ok(2) ids g(1,2) unfolding contiguous_def by metis
  qed
qed

lemma final_row:
  "row_get (merge_row r [(''isFinal'', JBool True)]) c = (if c = ''isFinal'' \<and> map_of r ''isFinal'' \<noteq> None then JBool True else row_get r c)"
  using row_get_merge_other [of "[(''isFinal'', JBool True)]" c r] row_get_merge_new [of "[(''isFinal'', JBool True)]" "''isFinal''" "JBool True" r]
  by (auto simp: row_get_def map_of_merge_row split: option.splits)

lemma contiguous_final:
  assumes c: "contiguous G hid t"
  shows "contiguous G hid (sql_update P [(''isFinal'', JBool True)] t)"
proof -
  define m where "m = (\<lambda>r. if P r then merge_row r [(''isFinal'', JBool True)] else r)"
  let ?t = "sql_update P [(''isFinal'', JBool True)] t"
  have t: "?t = map m t" by (simp add: sql_update_def m_def)
  have get: "row_get (m r) ''height'' = row_get r ''height''" "row_get (m r) ''id'' = row_get r ''id''" "row_height (m r) = row_height r" for r
    by (simp_all add: final_row row_height_def m_def)
  have ok: "blocks_ok t" using c by (simp add: contiguous_def)
  have key: "row_key blocksTableSchema (merge_row r [(''isFinal'', JBool True)]) = row_key blocksTableSchema r" for r
    by (simp add: row_key_def blocksTableSchema_def final_row)
  have "table_wf blocksTableSchema ?t" using ok key by (intro table_wf_sql_update) (simp_all add: blocks_ok_def table_typed_def)
  moreover have "row_typed blocksTableSchema (m r)" if "row_typed blocksTableSchema r" for r
    using that by (auto simp: row_typed_def blocksTableSchema_def mk_col_def final_row cell_ok_def m_def)
  ultimately have ok': "blocks_ok ?t" using ok get(1) unfolding blocks_ok_def table_typed_def t by (simp add: list_all_iff)
  have "block_heights ?t = block_heights t" unfolding block_heights_map [OF ok'] block_heights_map [OF ok] unfolding t using get(3) by simp
  moreover have "ids_ok hid ?t" using c unfolding contiguous_def ids_ok_def t list.pred_map o_def get by simp
  moreover have "?t = [] \<longleftrightarrow> t = []" unfolding t by simp
  ultimately show ?thesis using c ok' by (simp add: contiguous_def)
qed

lemma heights_final:
  assumes "blocks_ok t"
  shows "block_heights (sql_update P [(''isFinal'', JBool True)] t) = block_heights t"
    "map (\<lambda>r. row_get r ''id'') (sql_update P [(''isFinal'', JBool True)] t) = map (\<lambda>r. row_get r ''id'') t"
    "map row_height (sql_update P [(''isFinal'', JBool True)] t) = map row_height t"
proof -
  have get: "row_get (if P r then merge_row r [(''isFinal'', JBool True)] else r) c = row_get r c" if "c \<noteq> ''isFinal''" for r c
    using that by (simp add: final_row)
  show "map (\<lambda>r. row_get r ''id'') (sql_update P [(''isFinal'', JBool True)] t) = map (\<lambda>r. row_get r ''id'') t" by (simp add: sql_update_def get)
  show "map row_height (sql_update P [(''isFinal'', JBool True)] t) = map row_height t" by (simp add: sql_update_def row_height_def get)
  show "block_heights (sql_update P [(''isFinal'', JBool True)] t) = block_heights t"
    unfolding block_heights_def List.map_filter_def sql_update_def filter_map map_map o_def by (simp add: get)
qed

text \<open>
  What an active job relies on: its block is the one after the last indexed block, its rows are those from some height on.
\<close>

definition index_valid :: "int \<Rightarrow> (string \<Rightarrow> int) \<Rightarrow> int \<times> node_block \<Rightarrow> table \<Rightarrow> bool" where
  "index_valid G hid = (\<lambda>(h, b) t. bl_height b = next_height h t \<and> 0 \<le> bl_height b \<and> hid (bl_id b) = bl_height b \<and> (t = [] \<longrightarrow> bl_height b \<le> G + 1))"

definition delete_valid :: "int list \<times> row list \<Rightarrow> table \<Rightarrow> bool" where
  "delete_valid = (\<lambda>(bs, rs) t. if bs = [] then rs = []
     else (\<lambda>r. row_get r ''id'') ` set rs = (\<lambda>r. row_get r ''id'') ` {r \<in> set t. Min (set bs) \<le> row_height r})"

definition jobs_valid :: "int \<Rightarrow> (string \<Rightarrow> int) \<Rightarrow> jobs \<Rightarrow> bool" where
  "jobs_valid G hid j \<longleftrightarrow> contiguous G hid (blocks_of (jb_chain j))
     \<and> (case jb_index j of Some x \<Rightarrow> index_valid G hid x (blocks_of (jb_chain j)) | None \<Rightarrow> True)
     \<and> (case jb_delete j of Some x \<Rightarrow> delete_valid x (blocks_of (jb_chain j)) | None \<Rightarrow> True)
     \<and> (jb_index j = None \<or> jb_delete j = None)"

text \<open>Only the heights and the identifiers of the blocks matter to the jobs.\<close>

definition like_blocks :: "table \<Rightarrow> table \<Rightarrow> bool" where
  "like_blocks t t' \<longleftrightarrow> map row_height t' = map row_height t \<and> map (\<lambda>r. row_get r ''id'') t' = map (\<lambda>r. row_get r ''id'') t \<and> block_heights t' = block_heights t"

lemma ids_from: "(\<lambda>r. row_get r ''id'') ` {r \<in> set t. m \<le> row_height r} = {i. \<exists>h. (i, h) \<in> set (zip (map (\<lambda>r. row_get r ''id'') t) (map row_height t)) \<and> m \<le> h}"
proof -
  have "set (zip (map (\<lambda>r. row_get r ''id'') t) (map row_height t)) = (\<lambda>r. (row_get r ''id'', row_height r)) ` set t"
    by (simp add: zip_map_map zip_same_conv_map image_image)
  then show ?thesis by auto
qed

lemma like_valid:
  assumes "like_blocks t t'"
  shows "index_valid G hid x t' = index_valid G hid x t" "delete_valid y t' = delete_valid y t"
proof -
  have "t' = [] \<longleftrightarrow> t = []" using assms unfolding like_blocks_def by (metis map_is_Nil_conv)
  then show "index_valid G hid x t' = index_valid G hid x t" using assms by (cases x) (simp add: index_valid_def next_height_def like_blocks_def)
  show "delete_valid y t' = delete_valid y t" using assms by (cases y) (simp add: delete_valid_def ids_from like_blocks_def)
qed

lemma valid_like:
  assumes "jobs_valid G hid j" and "contiguous G hid (blocks_of s)" and "like_blocks (blocks_of (jb_chain j)) (blocks_of s)"
  shows "jobs_valid G hid (j\<lparr>jb_chain := s\<rparr>)"
  using assms like_valid [OF assms(3)] by (simp add: jobs_valid_def split: option.splits del: split_paired_All)

lemma like_refl: "like_blocks t t"
  by (simp add: like_blocks_def)

lemma valid_same:
  assumes "jobs_valid G hid j" and "blocks_of s = blocks_of (jb_chain j)"
  shows "jobs_valid G hid (j\<lparr>jb_chain := s\<rparr>)"
  using assms by (intro valid_like) (simp_all add: jobs_valid_def like_refl)

lemma new_block_like:
  assumes c: "contiguous G hid (blocks_of s)" and run: "indexNewBlock env b s = Inr s'"
  shows "contiguous G hid (blocks_of s')" "like_blocks (blocks_of s) (blocks_of s')"
proof -
  obtain st ps where upd: "with_db (update_tbl blocksTableSchema ps [(''isFinal'', JBool True)] False) (idx s) = Inr st" and s': "idx s' = st"
    using run by (auto simp: indexNewBlock_def Let_def bindR_eq_Inr scheduleBlockDeletion_def split: if_splits)
  obtain P where "st = (idx s)\<lparr>st_db := run_stmt ''blocks'' False (sql_update P [(''isFinal'', JBool True)]) (st_db (idx s))\<rparr>"
    using upd by (auto simp: with_db_def update_tbl_def bindR_eq_Inr blocks_name)
  then have t: "blocks_of s' = sql_update P [(''isFinal'', JBool True)] (blocks_of s)" by (simp add: blocks_of_def s')
  show "contiguous G hid (blocks_of s')" using contiguous_final [OF c] t by simp
  have "blocks_ok (blocks_of s)" using c by (simp add: contiguous_def)
  then show "like_blocks (blocks_of s) (blocks_of s')" unfolding like_blocks_def t by (simp add: heights_final)
qed

lemma checked_valid:
  assumes c: "contiguous G hid (blocks_of s)" and env: "chain_env G hid env" and plan: "plan_index env h (st_db (idx s)) = Inr (Proceed b)"
  shows "index_valid G hid (h, b) (blocks_of s)"
proof -
  have ok: "blocks_ok (committed (st_db (idx s)) ''blocks'')" "node_ok env" "genesis_height env = G"
    using c env by (simp_all add: contiguous_def chain_env_def blocks_of_def)
  note p = plan_proceed [OF ok(1,2) plan, folded blocks_of_def]
  have "hid (bl_id b) = bl_height b" using plan_proceed_fetched [OF ok(1,2) plan] env by (auto simp: chain_env_def)
  moreover have "bl_height b \<le> G + 1" if "blocks_of s = []" using p(3) ok(3) that by force
  ultimately show ?thesis using p(1,2) by (simp add: index_valid_def)
qed

lemma commit_contiguous:
  assumes c: "contiguous G hid (blocks_of s)" and v: "index_valid G hid (h, b) (blocks_of s)" and env: "node_ok env" and run: "index_block env b s = Done s'"
  shows "contiguous G hid (blocks_of s')"
proof -
  have ok: "blocks_ok (blocks_of s)" using c by (simp add: contiguous_def)
  have v': "bl_height b = next_height h (blocks_of s)" "0 \<le> bl_height b" "hid (bl_id b) = bl_height b" "blocks_of s = [] \<Longrightarrow> bl_height b \<le> G + 1"
    using v by (simp_all add: index_valid_def)
  have "bl_height b \<notin> set (block_heights (blocks_of s))" using v'(1) next_height_fresh by simp
  then obtain n reward where "blocks_of s' = blocks_of s @ [block_cells b n reward]" using index_block_done [OF ok env _ run] by blast
  then show ?thesis using contiguous_append [OF c v'(1-4)] by simp
qed

lemma read_valid:
  assumes "contiguous G hid (blocks_of s)" and "getBlocksToDelete bs (st_db (idx s)) = Inr rs"
  shows "delete_valid (bs, rs) (blocks_of s)"
proof (cases "bs = []")
  case True
  then show ?thesis using assms(2) by (simp add: delete_valid_def getBlocksToDelete_def)
next
  case False
  have "blocks_ok (committed (st_db (idx s)) ''blocks'')" using assms(1) by (simp add: contiguous_def blocks_of_def)
  from find_ge [OF this False] show ?thesis using assms(2) False by (simp add: delete_valid_def blocks_of_def)
qed

lemma ends_contiguous:
  assumes c: "contiguous G hid (blocks_of s)" and v: "delete_valid (bs, rs) (blocks_of s)" and f: "blocks_of f = blocks_of s"
  shows "contiguous G hid (blocks_of (finish_deletion made attempts bs f (delete_listed env rs s)))"
proof -
  have "contiguous G hid (blocks_of s')" if "delete_listed env rs s = Done s'" for s'
  proof (cases "bs = []")
    case True
    then show ?thesis using v c by (simp add: listed_final [OF that] delete_valid_def in_list_def sql_delete_def)
  next
    case False
    have ok: "blocks_ok (blocks_of s)" "ids_ok hid (blocks_of s)" using c by (simp_all add: contiguous_def)
    have "set (map (\<lambda>r. row_get r ''id'') rs) = (\<lambda>r. row_get r ''id'') ` {r \<in> set (blocks_of s). Min (set bs) \<le> row_height r}"
      using v False by (simp add: delete_valid_def)
    then show ?thesis unfolding listed_final [OF that] deleted_rows [OF ok] using contiguous_cut [OF c] by (simp add: deleted_rows [OF ok])
  qed
  then show ?thesis using c f by (simp add: finish_deletion_def Let_def blocks_of_def scheduleBlockDeletion_def split: outcome.split)
qed

lemma step_valid: "job_step G hid j j' \<Longrightarrow> jobs_valid G hid j \<Longrightarrow> jb_index j' = None \<or> jb_delete j' = None \<Longrightarrow> jobs_valid G hid j'"
proof (induction rule: job_step.induct)
  case (IndexChecks j s h hs env b)
  then have "index_valid G hid (h, b) (blocks_of s)" by (intro checked_valid) (simp_all add: jobs_valid_def)
  then show ?case using IndexChecks by (simp add: jobs_valid_def blocks_of_def)
next
  case (IndexStops j s h hs env p k s')
  have "blocks_of s' = blocks_of s"
    using IndexStops(6-8) by (auto simp: indexBlock_def blocks_of_def addHeightToIndexBlocksQueue_def scheduleBlockDeletion_def)
  then show ?case using IndexStops by (intro valid_same) simp_all
next
  case (IndexCommits j h b env s')
  have "contiguous G hid (blocks_of s')"
    using IndexCommits by (intro commit_contiguous [of G hid "jb_chain j" h b env s']) (simp_all add: jobs_valid_def chain_env_def)
  then show ?case using IndexCommits by (simp add: jobs_valid_def)
next
  case (IndexFails j h b s env e q s')
  then show ?case by (simp add: jobs_valid_def rolled_back_def blocks_of_def)
next
  case (DeleteReads j s bs rest rs)
  then have "delete_valid (bs, rs) (blocks_of s)" by (intro read_valid [of G hid]) (simp_all add: jobs_valid_def)
  then show ?case using DeleteReads by (simp add: jobs_valid_def blocks_of_def)
next
  case (DeleteEnds j bs rs env f made attempts)
  then have "contiguous G hid (blocks_of (finish_deletion made attempts bs f (delete_listed env rs (jb_chain j))))"
    by (intro ends_contiguous) (simp_all add: jobs_valid_def rolled_back_def)
  then show ?case using DeleteEnds by (simp add: jobs_valid_def)
next
  case (NewBlock env b j s')
  then show ?case using new_block_like [of G hid "jb_chain j" env b s'] by (intro valid_like) (simp_all add: jobs_valid_def)
qed (rule valid_same; simp add: blocks_of_def addHeightToIndexBlocksQueue_def scheduleBlockDeletion_def finish_deletion_def Let_def)+


text \<open>
  The jobs do overlap in the program, and then a gap is left. If both are active, the indexing job with the block that follows the last indexed one and the deletion job with the
  blocks from a lower indexed height on, and the deletion ends first, the new block enters the index above the hole.
\<close>

lemma overlapping_jobs_leave_gap:
  assumes c: "contiguous G hid (blocks_of s)" and m: "bs \<noteq> []" "Min (set bs) \<in> set (block_heights (blocks_of s))"
    and read: "getBlocksToDelete bs (st_db (idx s)) = Inr rs" and plan: "index_valid G hid (h, b) (blocks_of s)" and env: "node_ok env"
    and d: "delete_listed env' rs s = Done s1" and i: "index_block env b s1 = Done s2"
  shows "Min (set bs) \<notin> set (block_heights (blocks_of s2))" "bl_height b \<in> set (block_heights (blocks_of s2))" "Min (set bs) < bl_height b"
proof -
  let ?m = "Min (set bs)" and ?t = "blocks_of s"
  have ok: "blocks_ok ?t" "ids_ok hid ?t" using c by (simp_all add: contiguous_def)
  have ne: "?t \<noteq> []" using m(2) by (auto simp: block_heights_def map_filter_simps)
  have "set (map (\<lambda>r. row_get r ''id'') rs) = (\<lambda>r. row_get r ''id'') ` {r \<in> set ?t. ?m \<le> row_height r}"
    using read_valid [OF c read] m(1) by (simp add: delete_valid_def)
  then have t1: "blocks_of s1 = filter (\<lambda>r. row_height r < ?m) ?t" using listed_final [OF d] deleted_rows [OF ok] by simp
  have ok1: "blocks_ok (blocks_of s1)" unfolding t1 by (rule blocks_ok_filter [OF ok(1)])
  have h1: "set (block_heights (blocks_of s1)) = {x \<in> set (block_heights ?t). x < ?m}"
    unfolding block_heights_map [OF ok1] block_heights_map [OF ok(1)] by (auto simp: t1)
  have b: "bl_height b = Max (set (block_heights ?t)) + 1" using plan ne by (simp add: index_valid_def next_height_def)
  have le: "?m \<le> Max (set (block_heights ?t))" using m(2) by (intro Max_ge) auto
  then show gt: "?m < bl_height b" using b by linarith
  have "bl_height b \<notin> set (block_heights (blocks_of s1))" using h1 gt by auto
  then obtain n reward where t2: "blocks_of s2 = blocks_of s1 @ [block_cells b n reward]" and f: "bl_height b \<notin> set (block_heights (blocks_of s1))"
    using index_block_done [OF ok1 env _ i] by blast
  have "set (block_heights (blocks_of s2)) = insert (bl_height b) (set (block_heights (blocks_of s1)))" unfolding t2 using block_appended(3) [OF ok1 f] by simp
  then show "?m \<notin> set (block_heights (blocks_of s2))" "bl_height b \<in> set (block_heights (blocks_of s2))" using h1 gt by auto
qed

section \<open>Failing deletions\<close>

text \<open>
  A deletion that fails is dropped. The handler of the queue swallows the error, so that the queue sees a
  completed job and never tries it again: the number of attempts stays 0, and with more than one attempt allowed the job is not
  scheduled again either. The blocks of the fork stay in the index and, if no other deletion waits, indexing is
  resumed on top of them.
\<close>

theorem failed_deletion_dropped:
  assumes "deleteIndexedBlocks env bs (s\<lparr>indexing_paused := True\<rparr>) = Failed e" and "1 < attempts"
    and "rolled_back (s\<lparr>indexing_paused := True\<rparr>) f"
  shows "blocks_of (deleteIndexedBlocksWrapper env 0 attempts bs f s) = blocks_of s
     \<and> deleteIndexedBlocksQueue (deleteIndexedBlocksWrapper env 0 attempts bs f s) = deleteIndexedBlocksQueue s
     \<and> (deleteIndexedBlocksQueue s = [] \<longrightarrow> \<not> indexing_paused (deleteIndexedBlocksWrapper env 0 attempts bs f s))"
  using assms by (simp add: deleteIndexedBlocksWrapper_def finish_deletion_def rolled_back_def blocks_of_def)

text \<open>
  A block with a multisignature registration cannot be deleted. The transactions that are reverted come from the node and
  lack the sender's address that the revert of a registration reads: if the registration was successful and
  names a key, reverting it is a type error, whatever the index holds.
\<close>

theorem multisignature_revert_fails:
  assumes fmt: "format_transaction env b (i, tx) s = Inr (tx', s')" and no: "''senderAddress'' \<notin> fst ` set (tx_fields tx)"
    and tx: "tx_module tx = ''auth''" "tx_command tx = ''registerMultisignature''" "strings_param tx ''mandatoryKeys'' @ strings_param tx ''optionalKeys'' \<noteq> []"
    and ok: "executionStatus tx' = SUCCESSFUL" "''auth'' \<in> set modules"
  shows "revertTransaction tenv modules header tx' events st = Inl TypeError"
proof -
  obtain status where t: "tx' = tx\<lparr>executionStatus := status, tx_fields := override (tx_fields tx) [(''executionStatus'', JStr status), (''index'', JNum (int i))]\<rparr>"
    using fmt by (auto simp: format_transaction_def bindR_eq_Inr)
  have "field (tx_fields tx') ''senderAddress'' = JUndefined"
  proof -
    have "map_of (filter P (tx_fields tx)) ''senderAddress'' = None" for P using no by (auto simp: map_of_eq_None_iff)
    then show ?thesis by (simp add: t override_def field_def)
  qed
  moreover obtain k ks where "strings_param tx ''mandatoryKeys'' @ strings_param tx ''optionalKeys'' = k # ks"
    using tx(3) unfolding neq_Nil_conv by blast
  ultimately have "resolveMultisignatureMemberships tenv tx' = Inl TypeError"
    by (simp add: resolveMultisignatureMemberships_def t Let_def)
  then have "revertRegisterMultisignature tenv header tx' events st = Inl TypeError"
    using ok by (simp add: revertRegisterMultisignature_def)
  then show ?thesis using ok tx by (simp add: revertTransaction_def processors_def t)
qed

section \<open>The cache of events\<close>

lemma getEventsByHeight_cached: "getEventsByHeight env h s = Inr (es, s') \<Longrightarrow> eventCache s' h = Some es"
  by (auto simp: getEventsByHeight_def bindR_eq_Inr split: option.splits)

lemma index_block_caches:
  assumes "index_block env b s = Done s'"
  shows "\<exists>es. eventCache s' (bl_height b) = Some es \<and> eventCacheByBlockID s' (bl_id b) = Some es"
proof -
  obtain st events s1 where "getEventsByHeight env (bl_height b) (s\<lparr>idx := st\<rparr>) = Inr (events, s1)"
    "eventCache s' = eventCache s1" "eventCacheByBlockID s' = (eventCacheByBlockID s1)(bl_id b \<mapsto> events)"
    using assms by (auto simp: index_block_def price_jobs_of_def bindR_eq_Inr cacheEventsByBlockID_def split: sum.splits option.splits if_splits)
  then show ?thesis using getEventsByHeight_cached by fastforce
qed

lemma delete_keeps_height_cache:
  assumes "deleteIndexedBlocks env bs s = Done s'"
  shows "eventCache s \<subseteq>\<^sub>m eventCache s'"
proof -
  obtain rs s1 a where fold: "foldR (delete_block env) rs (s\<lparr>idx := begin_trx (idx s)\<rparr>, []) = Inr (s1, a)" and s': "eventCache s' = eventCache s1"
    using assms by (auto simp: deleteIndexedBlocks_def delete_listed_def bindR_eq_Inr split: sum.splits)
  have "eventCache s \<subseteq>\<^sub>m eventCache (fst (s1, a))"
  proof (rule foldR_invariant [OF fold])
    fix r and x y :: "chain_state \<times> string list"
    assume "eventCache s \<subseteq>\<^sub>m eventCache (fst x)" and "delete_block env r x = Inr y"
    then show "eventCache s \<subseteq>\<^sub>m eventCache (fst y)" by (cases x; cases y) (auto intro: map_le_trans delete_block_frame(2))
  qed simp
  then show ?thesis using s' by simp
qed

text \<open>
  C31: After a fork the events of the deleted block are used again. Indexing a block caches its events
  under its height, and deleting the block only removes them under its identifier: as long as the entry is not evicted,
  the block that replaces it at this height is indexed with the events of the deleted block, whatever the node answers.
\<close>

theorem stale_events_after_fork:
  assumes "index_block env b s = Done s1" and "deleteIndexedBlocks env1 bs s1 = Done s2"
  shows "\<exists>es. eventCacheByBlockID s1 (bl_id b) = Some es \<and> (\<forall>env2. getEventsByHeight env2 (bl_height b) s2 = Inr (es, s2))"
proof -
  obtain es where "eventCache s1 (bl_height b) = Some es" "eventCacheByBlockID s1 (bl_id b) = Some es" using index_block_caches [OF assms(1)] by blast
  moreover from this have "eventCache s2 (bl_height b) = Some es"
    using delete_keeps_height_cache [OF assms(2)] by (metis domI map_le_def)
  ultimately show ?thesis by (simp add: getEventsByHeight_def)
qed

section \<open>Examples\<close>

definition example_block :: node_block where
  "example_block = \<lparr>bl_id = ''a0'', bl_height = 0, bl_timestamp = 1000, bl_isFinal = False, previousBlockID = '''', generatorAddress = ''g'',
     bl_size = 10, bl_transactions = []\<rparr>"

definition example_block_env :: block_env where
  "example_block_env = genesis_env.extend example_genesis_env
     \<lparr>chain_height = 0, finalized_height = 0, registeredModules = [],
      getBlockByHeight = (\<lambda>h. Inr (if h = 0 then Some example_block else None)), getBlockByID = (\<lambda>_. Inr example_block),
      getEventsByHeightFromNode = (\<lambda>_. Inr []), isPersistEvents = False, parse_event = (\<lambda>_. None), stringify_event = (\<lambda>_. []),
      scheduledJobsMaxCount = 10\<rparr>"

lemmas example_block_simps = example_block_env_def example_block_def genesis_env.defs example_genesis_simps block.defs

definition example_chain :: chain_state where
  "example_chain = \<lparr>idx = empty_state, eventCache = (\<lambda>_. None), eventCacheByBlockID = (\<lambda>_. None), indexBlocksQueue = [],
     deleteIndexedBlocksQueue = [], indexing_paused = False, balanceUpdateSet = [], genesisAccountBalances = [], currentPriceJobs = [], historyJobs = []\<rparr>"

lemma example_plan: "plan_index example_block_env 0 (st_db empty_state) = Inr (Proceed example_block)"
proof -
  have ok: "blocks_ok (committed (st_db empty_state) ''blocks'')" by (simp add: empty_state_def blocks_ok_def table_typed_def table_wf_def)
  have e: "committed (st_db empty_state) ''blocks'' = []" by (simp add: empty_state_def)
  show ?thesis unfolding plan_index_def last_indexed [OF ok] block_at_eq [OF ok] e by (simp add: example_block_simps validateBlock_def)
qed

lemma generator_writes:
  "\<exists>st'. with_db (upsert validatorsTableSchema [[(''address'', JStr a), (''generatedBlocks'', JNum 1)]] True) st = Inr st'"
  "\<exists>st'. with_db (increment validatorsTableSchema c n (generator_where a) True) st = Inr st'"
  "\<exists>st'. uncount_generated a st = Inr st'"
  by (simp_all add: with_db_def upsert_def validatorsTableSchema_def mk_col_def cast_types getValue_def cast_def not_null_ok_def fill_row_def row_get_def
      increment_def decrement_def generator_where_def find_query_simps uncount_generated_def)

lemma example_count: "\<exists>st'. count_generated b st = Inr st'"
proof -
  obtain st1 where "with_db (increment validatorsTableSchema ''generatedBlocks'' 1 (generator_where (generatorAddress b)) True) st = Inr st1"
    using generator_writes(2) by blast
  then show ?thesis using generator_writes(1) [of "generatorAddress b" st1] by (simp add: count_generated_def)
qed

lemma example_stages:
  assumes "bl_transactions b = []" "bl_height b = genesis_height env"
  shows "run_stages (index_stages (env, b, [])) st = count_generated b st"
  using assms example_count [of b st]
  by (auto simp: run_stages_def index_stages_def index_transactions_def index_events_def reward_generator_def update_locked_def
        index_prices_def applySwapEvent_def process_swaps_def parseEvents_def)

lemma example_jobs: "\<exists>js. addGenesisPriceIndex (price_env.truncate example_block_env) (block.truncate example_block) = Some js"
  by (simp add: addGenesisPriceIndex_def example_block_simps OHLC_TIMEFRAMES_def history_jobs_def intervalToSecond_def)

lemma example_fields:
  "bl_transactions example_block = []" "bl_height example_block = 0" "genesis_height example_block_env = 0" "bl_id example_block = ''a0''"
  "getEventsByHeightFromNode example_block_env 0 = Inr []" "\<not> isPersistEvents example_block_env"
  "getBlockByID example_block_env i = Inr example_block"
  by (simp_all add: example_block_simps)

lemma example_genesis_assets:
  obtains st0 bs where "genesis_assets example_block_env example_block (begin_trx empty_state) = Inr (st0, bs)"
    "\<And>n. n \<noteq> ''key_value_store'' \<Longrightarrow> working (st_db st0) n = []"
proof -
  have "genesis_env.truncate example_block_env = example_genesis_env" by (simp add: example_block_env_def genesis_env.defs)
  moreover have e: "working (st_db empty_state) n = []" for n by (simp add: empty_state_def)
  moreover have b: "st_db (begin_trx empty_state) = st_db empty_state" by (simp add: begin_trx_def startDBTransaction_def empty_state_def)
  moreover obtain d' bs where "indexGenesisBlockAssets example_genesis_env (block.truncate example_block) (begin_trx empty_state)
      = Inr ((begin_trx empty_state)\<lparr>st_db := d'\<rparr>, bs)" "\<forall>n. n \<noteq> ''key_value_store'' \<longrightarrow> working d' n = []"
    using example_assets [OF b, of "block.truncate example_block"] e by auto
  ultimately show ?thesis by (intro that) (auto simp: genesis_assets_def example_fields)
qed

lemma example_indexed:
  assumes "eventCache s 0 = None" and "idx s = empty_state"
  shows "\<exists>st0 st s'. (\<forall>n. n \<noteq> ''key_value_store'' \<longrightarrow> working (st_db st0) n = []) \<and> count_generated example_block st0 = Inr st
     \<and> index_block example_block_env example_block s = Done s'
     \<and> st_db (idx s') = commitDBTransaction (run_stmt ''blocks'' True (sql_insert_merge blocksTableSchema (block_row example_block 0 0)) (st_db st))
     \<and> eventCacheByBlockID s' ''a0'' = Some [] \<and> eventCache s' 0 = Some []"
proof -
  obtain js where "addGenesisPriceIndex (price_env.truncate example_block_env) (block.truncate example_block) = Some js" using example_jobs by blast
  moreover obtain st0 bs where g: "genesis_assets example_block_env example_block (begin_trx empty_state) = Inr (st0, bs)"
    "\<And>n. n \<noteq> ''key_value_store'' \<Longrightarrow> working (st_db st0) n = []" using example_genesis_assets by blast
  moreover obtain st where "count_generated example_block st0 = Inr st" using example_count by blast
  moreover from this have "run_stages (index_stages (example_block_env, example_block, [])) st0 = Inr st"
    by (subst example_stages) (simp_all add: example_fields)
  ultimately show ?thesis using assms
    by (intro exI [of _ st0] exI [of _ st]) (simp add: index_block_def getEventsByHeight_def write_block_def blockReward_def rewardEvent_def with_db_def block_row_insert
        price_jobs_of_def example_fields cacheEventsByBlockID_def finish_trx_def)
qed

lemma empty_find:
  assumes "read_table (tableName cfg) trx d = []" and "queryBuilder False ps = Inr P"
  shows "find_tbl cfg ps cols trx d = Inr []"
proof -
  have "order_by k [] = []" for k by (simp add: order_by_def split: option.split)
  then have "limit_rows ps (order_by k (order_by k' [])) = []" for k k' by (simp add: limit_rows_def Let_def split: option.split)
  then show ?thesis using assms by (simp add: find_tbl_def)
qed

lemma example_price_deleted:
  assumes "committed (st_db st) ''registered_dex_token'' = []" "committed (st_db st) ''tick_klyusd'' = []" "working (st_db st) ''last_price'' = []"
    and time: "bl_timestamp b = 1000"
  shows "deletePriceIndex (price_env.truncate example_block_env) b st = Inr st"
proof -
  have i: "map_of intervalToSecond ''5m'' = Some 300" by (simp add: intervalToSecond_def)
  have n: "normalizeBlockTime 1000 ''5m'' = Some 900" "normalizeBlockTime 900 ''5m'' = Some 900"
    using normalize_pos [OF i, of 1000] normalize_pos [OF i, of 900] by simp_all
  have e: "lastPriceInterval (price_env.truncate example_block_env) = ''5m''"
    by (simp add: example_block_simps)
  have t: "find_tbl dexTokenTableSchema [] cols False (st_db st) = Inr []" for cols
    by (rule empty_find) (simp_all add: assms dexTokenTableSchema_def find_query_simps read_table_def)
  have l: "find_tbl lastPriceTableSchema [(''tokenId'', PVal (JStr k)), (''updatedOn'', PVal (JNum 900)), (''limit'', PVal (JNum 1))] cols True (st_db st) = Inr []" for k cols
    by (rule empty_find) (simp_all add: assms lastPriceTableSchema_def find_query_simps read_table_def)
  have "tick_rows ''klyusd'' False (st_db st) = []" using assms(2) by (simp add: tick_rows_def getTickPriceTableSchema_def read_table_def)
  then have "\<exists>vs. getLastPrice (price_env.truncate example_block_env) ''klyusd'' 900 (st_db st) = Inr vs \<and> \<not> list_all (\<lambda>(_, v). js_Boolean v) vs"
    by (simp add: getLastPrice_def n e sql_time_def last_intervals_def getLastPriceFromTickPriceTable_def intervalToSecond_def lastPriceQuery_def
        nearestLastPriceQuery_def)
  then show ?thesis using time by (auto simp: deletePriceIndex_def updateLastPrice_def t l n e sql_time_def)
qed

lemma example_delete_stages:
  assumes "committed (st_db st) ''transactions'' = []" "committed (st_db st) ''registered_dex_token'' = []"
    "committed (st_db st) ''tick_klyusd'' = []" "working (st_db st) ''last_price'' = []" "bl_timestamp b = 1000"
  shows "\<exists>st'. run_stages (delete_stages (example_block_env, b, g, [], [])) st = Inr st'"
proof -
  have "find_tbl transactionsTableSchema [(''whereIn'', PIn [(''blockID'', [JStr i])])] cols False (st_db st) = Inr []" for i cols
    by (rule empty_find) (simp_all add: assms(1) transactionsTableSchema_def find_query_simps read_table_def)
  then have tx: "delete_transactions b st = Inr st" by (simp add: delete_transactions_def getTransactionIDsByBlockID_def)
  obtain st1 where g: "uncount_generated g st = Inr st1" using generator_writes(3) by blast
  have "keeps n st (uncount_generated g st)" if "n \<noteq> ''validators''" for n
    unfolding uncount_generated_def using that by (intro keep_with_db db_keeps_ops refl) (simp add: validatorsTableSchema_def)
  then have "same_table n (st_db st) (st_db st1)" if "n \<noteq> ''validators''" for n using g that by (simp add: keeps_def)
  then have "deletePriceIndex (price_env.truncate example_block_env) b st1 = Inr st1"
    using assms by (intro example_price_deleted) (simp_all add: same_table_def)
  then show ?thesis
    by (simp add: run_stages_def delete_stages_def revert_transactions_def tx g delete_events_def reward_generator_def update_locked_def
        revertSwapEvent_def process_swaps_def parseEvents_def)
qed

lemma example_deleted:
  assumes blocks: "committed (st_db (idx s)) ''blocks'' = [block_cells example_block 0 0]" and c: "eventCacheByBlockID s ''a0'' = Some []"
    and t: "committed (st_db (idx s)) ''transactions'' = []" "committed (st_db (idx s)) ''registered_dex_token'' = []"
      "committed (st_db (idx s)) ''tick_klyusd'' = []" "committed (st_db (idx s)) ''last_price'' = []"
  shows "\<exists>s'. deleteIndexedBlocks example_block_env [0] s = Done s'"
proof -
  let ?r = "[(''id'', JStr ''a0''), (''height'', JNum 0), (''generatorAddress'', JStr ''g''), (''timestamp'', JNum 1000), (''isFinal'', JBool False)]"
  have q: "getBlocksToDelete [0] (st_db (idx s)) = Inr [?r]"
    by (simp add: getBlocksToDelete_def find_tbl_def find_query_simps between_clauses_def read_table_def blocks_name blocks block_cells_def
        example_block_def row_get_def) (simp add: eq_clauses_def)
  have f: "find_tbl blocksTableSchema [(''height'', PVal (JNum 0)), (''limit'', PVal (JNum 1))] None False (st_db (begin_trx (idx s))) = Inr [[(''height'', JNum 0)]]"
    by (simp add: find_tbl_def find_query_simps read_table_def blocks_name begin_trx_def startDBTransaction_def blocks block_cells_def
        example_block_def row_get_def sql_eq_def) (simp add: blocksTableSchema_def)
  have b: "block_of_row ?r = block.truncate example_block" by (simp add: block_of_row_def row_get_def row_height_def example_block_def block.defs)
  obtain st where "run_stages (delete_stages (example_block_env, block.truncate example_block, ''g'', [], [])) (begin_trx (idx s)) = Inr st"
    using example_delete_stages [of "begin_trx (idx s)" "block.truncate example_block" "''g''"] t
    by (auto simp: begin_trx_def startDBTransaction_def example_block_def block.defs)
  then have "\<exists>y. delete_block example_block_env ?r (s\<lparr>idx := begin_trx (idx s)\<rparr>, []) = Inr y"
    using f c by (simp add: delete_block_def b block.defs example_fields getTransactionsByBlockID_def getEventsByBlockID_def Let_def row_get_def)
  then obtain s1 a where "foldR (delete_block example_block_env) [?r] (s\<lparr>idx := begin_trx (idx s)\<rparr>, []) = Inr (s1, a)" by force
  then show ?thesis
    by (simp add: deleteIndexedBlocks_def delete_listed_def q deleteByParams_def find_query_simps with_db_def)
qed

lemma example_chain_env: "chain_env 0 (\<lambda>_. 0) example_block_env"
proof -
  have "\<forall>h b. getBlockByHeight example_block_env h = Inr (Some b) \<longrightarrow> h = 0 \<and> b = example_block"
    by (simp add: example_block_simps split: if_splits)
  then show ?thesis using example_fields by (auto simp: chain_env_def node_ok_def)
qed

lemma example_node_ok: "node_ok example_block_env"
  using example_chain_env by (simp add: chain_env_def)

text \<open>The genesis block is indexed in an empty index, and deleted again.\<close>

lemma example_run:
  obtains s1 where "indexBlock example_block_env 0 example_chain = Done s1" "index_block example_block_env example_block example_chain = Done s1"
    "blocks_of s1 = [block_cells example_block 0 0]" "\<exists>s2. deleteIndexedBlocks example_block_env [0] s1 = Done s2"
proof -
  have idx: "idx example_chain = empty_state" by (simp add: example_chain_def)
  obtain st0 st s1 where st0: "\<And>n. n \<noteq> ''key_value_store'' \<Longrightarrow> working (st_db st0) n = []" and st: "count_generated example_block st0 = Inr st"
    and run: "index_block example_block_env example_block example_chain = Done s1"
    and d: "st_db (idx s1) = commitDBTransaction (run_stmt ''blocks'' True (sql_insert_merge blocksTableSchema (block_row example_block 0 0)) (st_db st))"
    and c: "eventCacheByBlockID s1 ''a0'' = Some []"
    using example_indexed [of example_chain] by (auto simp: idx example_chain_def)
  have "keeps n st0 (count_generated example_block st0)" if "n \<noteq> ''validators''" for n
  proof -
    have t: "tableName validatorsTableSchema \<noteq> n" using that by (simp add: validatorsTableSchema_def)
    show ?thesis unfolding count_generated_def by (rule keep_seq; intro keep_if keep_with_db keep_Inr db_keeps_ops refl t)
  qed
  then have "same_table n (st_db st0) (st_db st)" if "n \<noteq> ''validators''" for n using st that by (simp add: keeps_def)
  then have e: "working (st_db st) n = []" if "n \<noteq> ''validators''" "n \<noteq> ''key_value_store''" for n
    using that st0 by (simp add: same_table_def)
  have t: "committed (st_db (idx s1)) n = []" if "n \<notin> {''blocks'', ''validators'', ''key_value_store''}" for n
    using that e by (simp add: d commitDBTransaction_def run_stmt_def)
  have "blocks_ok []" by (simp add: blocks_ok_def table_typed_def table_wf_def)
  then have "sql_insert_merge blocksTableSchema (block_row example_block 0 0) [] = [] @ [block_cells example_block 0 0]"
    by (rule block_appended) (simp add: block_heights_def map_filter_simps)
  then have blocks: "committed (st_db (idx s1)) ''blocks'' = [block_cells example_block 0 0]"
    using e by (simp add: d commitDBTransaction_def run_stmt_def)
  show ?thesis
  proof (rule that [OF _ run])
    show "indexBlock example_block_env 0 example_chain = Done s1" by (simp add: indexBlock_def idx example_plan run)
    show "\<exists>s2. deleteIndexedBlocks example_block_env [0] s1 = Done s2" by (rule example_deleted [OF blocks c]) (simp_all add: t)
  qed (simp add: blocks_of_def blocks)
qed

lemma example_blocks:
  "blocks_ok (blocks_of example_chain)" "blocks_of example_chain = []" "blocks_ok [block_cells example_block 0 0]" "ids_ok (\<lambda>_. 0) [block_cells example_block 0 0]"
proof -
  have ok: "blocks_ok []" by (simp add: blocks_ok_def table_typed_def table_wf_def)
  then show "blocks_ok (blocks_of example_chain)" "blocks_of example_chain = []" by (simp_all add: blocks_of_def example_chain_def empty_state_def)
  have "blocks_ok ([] @ [block_cells example_block 0 0])" by (rule block_appended [OF ok]) (simp add: block_heights_def map_filter_simps)
  then show "blocks_ok [block_cells example_block 0 0]" by simp
  show "ids_ok (\<lambda>_. 0) [block_cells example_block 0 0]" by (simp add: ids_ok_def block_cells_ok row_height_def example_fields)
qed

theorem block_extends_index_witness:
  "\<exists>s' b n reward. indexBlock example_block_env 0 example_chain = Done s' \<and> bl_height b = 0 \<and> blocks_of s' = [block_cells b n reward]"
proof -
  obtain s1 where "indexBlock example_block_env 0 example_chain = Done s1" "blocks_of s1 = [block_cells example_block 0 0]" using example_run by blast
  then show ?thesis
    using block_extends_index [OF example_blocks(1) example_node_ok, of 0 s1] by (auto simp: example_blocks next_height_def)
qed


theorem deletion_cuts_suffix_witness:
  "\<exists>s1 s2. blocks_of s1 = [block_cells example_block 0 0] \<and> deleteIndexedBlocks example_block_env [0] s1 = Done s2 \<and> blocks_of s2 = []"
proof -
  obtain s1 s2 where s: "blocks_of s1 = [block_cells example_block 0 0]" "deleteIndexedBlocks example_block_env [0] s1 = Done s2"
    using example_run by metis
  then have "blocks_of s2 = []"
    using deletion_cuts_suffix [of s1 "\<lambda>_. 0" example_block_env "[0]" s2] example_blocks
    by (simp add: row_height_def block_cells_ok example_fields)
  then show ?thesis using s by blast
qed

theorem stale_events_after_fork_witness:
  "\<exists>s1 s2 es. index_block example_block_env example_block example_chain = Done s1 \<and> deleteIndexedBlocks example_block_env [0] s1 = Done s2
     \<and> getEventsByHeight (example_block_env\<lparr>getEventsByHeightFromNode := (\<lambda>_. Inr [None])\<rparr>) 0 s2 = Inr (es, s2)"
proof -
  obtain s1 s2 where s: "index_block example_block_env example_block example_chain = Done s1" "deleteIndexedBlocks example_block_env [0] s1 = Done s2"
    using example_run by metis
  then show ?thesis using stale_events_after_fork [OF s] unfolding example_fields by blast
qed

theorem failed_deletion_dropped_witness:
  "\<exists>s env e. deleteIndexedBlocks env [0] (s\<lparr>indexing_paused := True\<rparr>) = Failed e
     \<and> blocks_of (deleteIndexedBlocksWrapper env 0 5 [0] (s\<lparr>indexing_paused := True\<rparr>) s) = [block_cells example_block 0 0]"
proof -
  define s where "s = example_chain\<lparr>idx := empty_state\<lparr>st_db := \<lparr>committed = (\<lambda>_. [block_cells example_block 0 0]), working = (\<lambda>_. [])\<rparr>\<rparr>\<rparr>"
  let ?env = "example_block_env\<lparr>getBlockByID := (\<lambda>_. Inl TypeError)\<rparr>" and ?s = "s\<lparr>indexing_paused := True\<rparr>"
  have blocks: "committed (st_db (idx s)) ''blocks'' = [block_cells example_block 0 0]" by (simp add: s_def)
  have q: "\<exists>r. getBlocksToDelete [0] (st_db (idx ?s)) = Inr [r] \<and> row_height r = 0"
    by (simp add: getBlocksToDelete_def find_tbl_def find_query_simps between_clauses_def read_table_def blocks_name blocks block_cells_def
        example_block_def row_get_def) (simp add: eq_clauses_def row_height_def row_get_def)
  have "find_tbl blocksTableSchema [(''height'', PVal (JNum 0)), (''limit'', PVal (JNum 1))] None False (st_db (begin_trx (idx s))) = Inr [[(''height'', JNum 0)]]"
    by (simp add: find_tbl_def find_query_simps read_table_def blocks_name begin_trx_def startDBTransaction_def blocks block_cells_def
        example_block_def row_get_def sql_eq_def) (simp add: blocksTableSchema_def)
  then have "delete_block ?env r (s\<lparr>indexing_paused := True, idx := begin_trx (idx s)\<rparr>, a) = Inl TypeError" if "row_height r = 0" for r a
    using that by (simp add: delete_block_def block_of_row_def getTransactionsByBlockID_def Let_def)
  then have f: "deleteIndexedBlocks ?env [0] ?s = Failed TypeError" using q by (auto simp: deleteIndexedBlocks_def delete_listed_def)
  then have "blocks_of (deleteIndexedBlocksWrapper ?env 0 5 [0] ?s s) = blocks_of s"
    using failed_deletion_dropped [OF f, of 5 ?s] by (simp add: rolled_back_def)
  then show ?thesis using f blocks by (auto simp: blocks_of_def)
qed

theorem multisignature_revert_fails_witness:
  "\<exists>s tx'. format_transaction example_block_env example_block
       (0, (example_stake_tx ''v'' 10)\<lparr>tx_module := ''auth'', tx_command := ''registerMultisignature'', strings_param := (\<lambda>_. [''ab''])\<rparr>) s = Inr (tx', s)
     \<and> revertTransaction example_token_env [''auth''] example_header tx' [] empty_state = Inl TypeError"
proof -
  let ?tx = "(example_stake_tx ''v'' 10)\<lparr>tx_module := ''auth'', tx_command := ''registerMultisignature'', strings_param := (\<lambda>_. [''ab''])\<rparr>"
  define s where "s = example_chain\<lparr>idx := empty_state\<lparr>st_db := \<lparr>committed = (\<lambda>_. [[(''id'', JStr ''ab''), (''executionStatus'', JStr SUCCESSFUL)]]), working = (\<lambda>_. [])\<rparr>\<rparr>\<rparr>"
  have t: "tx_id ?tx = ''ab''" "tx_fields ?tx = []" by (simp_all add: example_stake_tx_def tx.defs example_tx_def)
  have "find_tbl transactionsTableSchema [(''id'', PVal (JStr (tx_id ?tx))), (''limit'', PVal (JNum 1))] (Some [''executionStatus'']) False (st_db (idx s))
     = Inr [[(''executionStatus'', JStr SUCCESSFUL)]]"
    unfolding t by (simp add: find_tbl_def find_query_simps read_table_def s_def row_get_def sql_eq_def)
  then obtain tx' where f: "format_transaction example_block_env example_block (0, ?tx) s = Inr (tx', s)" and x: "executionStatus tx' = SUCCESSFUL"
    by (auto simp: format_transaction_def row_get_def SUCCESSFUL_def)
  have "revertTransaction example_token_env [''auth''] example_header tx' [] empty_state = Inl TypeError"
    by (rule multisignature_revert_fails [OF f]) (simp_all add: t x)
  then show ?thesis using f by blast
qed


end
