(* ===== verification/Transaction_Queries.thy ===== *)
theory Transaction_Queries
  imports Table_Queries Schemas "HOL-Library.Sublist" "HOL-Library.Multiset"
begin

text \<open>
  Transactions as a client sees them: those in the pool of the node, which the service keeps in a list (\<^verbatim>\<open>dataService/business/pendingTransactions.js\<close>), those in the index, described with the answers of the node
  (\<^verbatim>\<open>dataService/business/transactions.js\<close>), and the two merged into one list (\<^verbatim>\<open>dataService/transactions.js\<close>). A transaction is an object; cryptography and the node are parameters.
\<close>

section \<open>Values\<close>

text \<open>
  \<^verbatim>\<open>parseToJSONCompatObj\<close>: big integers become strings. A big integer 0 that is an element of an array, unlike one that is a property, is falsy and stays as it is.
\<close>

lemma element_smaller [termination_simp]: "v \<in> set vs \<Longrightarrow> size v < Suc (size_list size vs)"
  by (simp add: less_Suc_eq_le size_list_estimation')

lemma property_smaller [termination_simp]: "kv \<in> set kvs \<Longrightarrow> size (snd kv) < Suc (size_list (size_prod (\<lambda>_. 0) size) kvs)"
proof -
  assume "kv \<in> set kvs"
  then have "size_prod (\<lambda>_. 0) size kv \<le> size_list (size_prod (\<lambda>_. 0) size) kvs" by (rule size_list_estimation') simp
  then show ?thesis by (cases kv) simp
qed

fun parseToJSONCompatObj :: "json \<Rightarrow> json" where
  "parseToJSONCompatObj (JV v) = JV (case v of JBig n \<Rightarrow> if n = 0 then v else JStr (show_int n) | _ \<Rightarrow> v)"
| "parseToJSONCompatObj (JArr vs) = JArr (map parseToJSONCompatObj vs)"
| "parseToJSONCompatObj (JObj kvs) = JObj (map (\<lambda>kv. (fst kv, case snd kv of JV (JBig n) \<Rightarrow> JString (show_int n) | _ \<Rightarrow> parseToJSONCompatObj (snd kv))) kvs)"

definition compat_object :: "object \<Rightarrow> object" where
  "compat_object obj = (case parseToJSONCompatObj (JObj obj) of JObj o' \<Rightarrow> o' | _ \<Rightarrow> [])"

definition normalizeTransaction :: "object \<Rightarrow> object" where
  "normalizeTransaction tx = compat_object (AList.update ''moduleCommand'' (JString (json_String (prop_of tx ''module'') @ '':'' @ json_String (prop_of tx ''command''))) tx)"

text \<open>\<^verbatim>\<open>String.prototype.trim\<close>\<close>

definition js_trim :: "string \<Rightarrow> string" where
  "js_trim s = rev (dropWhile is_space (rev (dropWhile is_space s)))"

section \<open>Accounts\<close>

definition getIndexedAccountInfo :: "params \<Rightarrow> string list \<Rightarrow> db \<Rightarrow> row result" where
  "getIndexedAccountInfo ps columns d =
     (if map_of ps ''publicKey'' = None \<or> truthy_param ps ''publicKey''
      then bindR (find_tbl accountsTableSchema (if map_of ps ''limit'' = None then (''limit'', PVal (JNum 1)) # ps else ps) (Some columns) False d) (\<lambda>rows.
           Inr (case rows of account # _ \<Rightarrow> account | [] \<Rightarrow> []))
      else Inr [])"

text \<open>A property of a row, \<^verbatim>\<open>undefined\<close> where the row does not have it\<close>

definition cell :: "row \<Rightarrow> string \<Rightarrow> json" where
  "cell r k = (case map_of r k of Some v \<Rightarrow> JV v | None \<Rightarrow> JUndef)"

definition json_or :: "json \<Rightarrow> json \<Rightarrow> json" where
  "json_or a b = (if json_Boolean a then a else b)"

text \<open>
  The world outside: addresses of public keys, the identifier of the chain, the pool and the transactions of the node, and the finalized height.
\<close>

record tx_env =
  te_address :: "string \<Rightarrow> string"
  te_chainID :: "string result"
  te_pool :: "object list result"
  te_transactionsByIDs :: "jsval list \<Rightarrow> object list result"
  te_finalizedHeight :: "int result"

definition getKlayr32AddressFromPublicKey :: "tx_env \<Rightarrow> json \<Rightarrow> string result" where
  "getKlayr32AddressFromPublicKey env publicKey = (case publicKey of JV (JStr pk) \<Rightarrow> Inr (te_address env pk) | _ \<Rightarrow> Inl TypeError)"

text \<open>The value of a parameter that is looked up in the table of accounts\<close>

definition address_param :: "json \<Rightarrow> pval" where
  "address_param v = PVal (case v of JV x \<Rightarrow> x | _ \<Rightarrow> JStr (json_String v))"

text \<open>\<^verbatim>\<open>transaction.meta\<close>, set for a transaction with a recipient\<close>

definition with_recipient :: "db \<Rightarrow> object \<Rightarrow> object result" where
  "with_recipient d tx =
     bindR (json_get (prop_of tx ''params'') ''recipientAddress'') (\<lambda>recipient.
       if json_Boolean recipient
       then bindR (getIndexedAccountInfo [(''address'', address_param recipient), (''limit'', PVal (JNum 1))] [''publicKey'', ''name''] d) (\<lambda>account.
            Inr (AList.update ''meta'' (JObj [(''recipient'', JObj [(''address'', recipient), (''publicKey'', cell account ''publicKey''), (''name'', cell account ''name'')])]) tx))
       else Inr tx)"

section \<open>The pool\<close>

definition PENDING :: string where "PENDING = ''pending''"

text \<open>A transaction of the pool, with the public key that is handed to the index of accounts\<close>

definition formatPendingTransaction :: "tx_env \<Rightarrow> db \<Rightarrow> object \<Rightarrow> (object \<times> json) result" where
  "formatPendingTransaction env d transaction =
     (let tx = normalizeTransaction transaction; publicKey = prop_of tx ''senderPublicKey'' in
      bindR (getKlayr32AddressFromPublicKey env publicKey) (\<lambda>sender.
      bindR (getIndexedAccountInfo [(''address'', PVal (JStr sender))] [''name''] d) (\<lambda>account.
      bindR (with_recipient d (AList.update ''sender'' (JObj [(''address'', JString sender), (''publicKey'', publicKey), (''name'', json_or (cell account ''name'') (JV JNull))]) tx)) (\<lambda>tx.
      Inr (AList.update ''executionStatus'' (JString PENDING) tx, publicKey)))))"

definition getPendingTransactionsFromNode :: "tx_env \<Rightarrow> db \<Rightarrow> (object \<times> json) list result" where
  "getPendingTransactionsFromNode env d = bindR (te_pool env) (mapR (formatPendingTransaction env d))"

text \<open>The list is replaced when the pool can be read and kept otherwise.\<close>

definition loadAllPendingTransactions :: "tx_env \<Rightarrow> db \<Rightarrow> object list \<Rightarrow> object list" where
  "loadAllPendingTransactions env d pending = (case getPendingTransactionsFromNode env d of Inr txs \<Rightarrow> map fst txs | Inl _ \<Rightarrow> pending)"

definition txPoolNewTransactionListener :: "object list \<Rightarrow> object list \<Rightarrow> object list" where
  "txPoolNewTransactionListener payload pending = pending @ take 1 payload"

text \<open>What a request asks for\<close>

record pending_filter =
  pf_id :: "string option"
  pf_address :: "string option"
  pf_senderAddress :: "string option"
  pf_recipientAddress :: "string option"
  pf_moduleCommand :: "string option"
  pf_receivingChainID :: "string option"
  pf_currentChainTransactions :: bool

definition pending_validateParams :: "tx_env \<Rightarrow> params \<Rightarrow> pending_filter result" where
  "pending_validateParams env ps =
     (if truthy_param ps ''nonce'' \<and> \<not> truthy_param ps ''senderAddress'' then Inl (Error ''Nonce based retrieval is only possible along with senderAddress'')
      else let v = \<lparr>pf_id = string_param ps ''id'', pf_address = string_param ps ''address'', pf_senderAddress = string_param ps ''senderAddress'',
                    pf_recipientAddress = string_param ps ''recipientAddress'', pf_moduleCommand = string_param ps ''moduleCommand'', pf_receivingChainID = None, pf_currentChainTransactions = False\<rparr>
           in case string_param ps ''receivingChainID'' of
                None \<Rightarrow> Inr v
              | Some c \<Rightarrow> bindR (te_chainID env) (\<lambda>current. Inr (if c = current then v\<lparr>pf_currentChainTransactions := True\<rparr> else v\<lparr>pf_receivingChainID := Some c\<rparr>)))"

text \<open>A condition on a transaction, checked only when it is asked for; \<^verbatim>\<open>a && b\<close> does not look at \<open>b\<close> when \<open>a\<close> fails.\<close>

definition asked :: "string option \<Rightarrow> (string \<Rightarrow> bool result) \<Rightarrow> bool result" where
  "asked p f = (case p of None \<Rightarrow> Inr True | Some s \<Rightarrow> f s)"

definition andR :: "bool result \<Rightarrow> bool result \<Rightarrow> bool result" where
  "andR a b = bindR a (\<lambda>x. if x then b else Inr False)"

definition prop_is :: "object \<Rightarrow> string \<Rightarrow> string \<Rightarrow> string \<Rightarrow> bool result" where
  "prop_is tx k k' s = bindR (json_get (prop_of tx k) k') (\<lambda>v. Inr (v = JString s))"

definition pending_matches :: "pending_filter \<Rightarrow> object \<Rightarrow> bool result" where
  "pending_matches v tx =
     andR (asked (pf_id v) (\<lambda>s. Inr (prop_of tx ''id'' = JString s)))
    (andR (asked (pf_senderAddress v) (prop_is tx ''sender'' ''address''))
    (andR (asked (pf_recipientAddress v) (prop_is tx ''params'' ''recipientAddress''))
    (andR (asked (pf_address v) (\<lambda>s. bindR (prop_is tx ''sender'' ''address'' s) (\<lambda>b. if b then Inr True else prop_is tx ''params'' ''recipientAddress'' s)))
    (andR (asked (pf_moduleCommand v) (\<lambda>s. Inr (prop_of tx ''moduleCommand'' = JString s)))
    (andR (asked (pf_receivingChainID v) (prop_is tx ''params'' ''receivingChainID''))
          (if pf_currentChainTransactions v then bindR (json_get (prop_of tx ''params'') ''receivingChainID'') (\<lambda>c. Inr (\<not> json_Boolean c)) else Inr True))))))"

text \<open>An answer, with its \<^verbatim>\<open>meta\<close> as an object\<close>

record tx_reply =
  tr_data :: "object list"
  tr_meta :: object

text \<open>\<^verbatim>\<open>Number(params[k]) || n\<close>\<close>

definition number_or :: "params \<Rightarrow> string \<Rightarrow> int \<Rightarrow> int" where
  "number_or ps k n = (case map_of ps k of Some (PVal v) \<Rightarrow> (case js_Number v of JNum m \<Rightarrow> if m = 0 then n else m | _ \<Rightarrow> n) | _ \<Rightarrow> n)"

text \<open>The status is written into transactions that already have it.\<close>

definition business_getPendingTransactions :: "tx_env \<Rightarrow> params \<Rightarrow> object list \<Rightarrow> tx_reply result" where
  "business_getPendingTransactions env ps pending =
     (let none = \<lparr>tr_data = [], tr_meta = [(''total'', JV (JNum 0))]\<rparr>; offset = number_or ps ''offset'' 0; limit = number_or ps ''limit'' 10 in
      if list_ex (\<lambda>k. map_of ps k \<noteq> None) [''blockID'', ''timestamp'', ''height''] then Inr none
      else bindR (pending_validateParams env ps) (\<lambda>v.
           if pending = [] then Inr none
           else bindR (filterR (pending_matches v) pending) (\<lambda>filtered.
                let data = map (AList.update ''executionStatus'' (JString PENDING)) (js_slice offset (offset + limit) filtered)
                in Inr \<lparr>tr_data = data, tr_meta = [(''count'', JV (JNum (int (length data)))), (''offset'', JV (JNum offset)), (''total'', JV (JNum (int (length filtered))))]\<rparr>)))"

section \<open>The index\<close>

text \<open>A range \<^verbatim>\<open>from:to\<close>, one end of which may be missing\<close>

definition range_between :: "string \<Rightarrow> string \<Rightarrow> string \<Rightarrow> prop_between result" where
  "range_between property fromStr toStr =
     (let pb = \<lparr>pb_property = property, pb_from = None, pb_to = None, pb_greaterThanEqualTo = None, pb_lowerThanEqualTo = None, pb_greaterThan = None, pb_lowerThan = None\<rparr>
      in case (js_Number (JStr fromStr), js_Number (JStr toStr)) of
           (JNum m, JNum n) \<Rightarrow>
             if fromStr \<noteq> [] \<and> toStr \<noteq> [] \<and> m > n then Inl (Error ''From property cannot be greater than to property.'')
             else Inr (if fromStr = [] then pb\<lparr>pb_to := Some (JNum n)\<rparr>
                       else if toStr = [] then pb\<lparr>pb_from := Some (JNum m)\<rparr>
                       else pb\<lparr>pb_from := Some (JNum m), pb_to := Some (JNum n)\<rparr>)
         | _ \<Rightarrow> Inl (Error ''Invalid (non-numeric) range values supplied''))"

definition normalizeRangeParam :: "params \<Rightarrow> string \<Rightarrow> params result" where
  "normalizeRangeParam ps property =
     (case string_param ps property of
        Some s \<Rightarrow>
          (case split_at (CHR '':'') s of
             fromStr # toStr # _ \<Rightarrow>
               bindR (range_between property fromStr toStr) (\<lambda>pb.
               Inr (with_param ''propBetweens'' (PBetweens ((case map_of ps ''propBetweens'' of Some (PBetweens pbs) \<Rightarrow> pbs | _ \<Rightarrow> []) @ [pb])) (without_param property ps)))
           | _ \<Rightarrow> Inr ps)
      | None \<Rightarrow> Inr ps)"

text \<open>\<^verbatim>\<open>params[k] && params[k].includes(':')\<close> for a string\<close>

definition range_param :: "params \<Rightarrow> string \<Rightarrow> params result" where
  "range_param ps k = (case string_param ps k of Some s \<Rightarrow> if CHR '':'' \<in> set s then normalizeRangeParam ps k else Inr ps | None \<Rightarrow> Inr ps)"

text \<open>The receiving chain, the status and the address of a request as conditions of a query\<close>

definition chain_params :: "tx_env \<Rightarrow> params \<Rightarrow> params result" where
  "chain_params env ps = (case string_param ps ''receivingChainID'' of
     Some c \<Rightarrow> bindR (te_chainID env) (\<lambda>current. Inr (if c = current then with_param ''receivingChainID'' (PVal JNull) ps else ps)) | None \<Rightarrow> Inr ps)"

definition status_params :: "params \<Rightarrow> params" where
  "status_params ps = (case string_param ps ''executionStatus'' of
     Some s \<Rightarrow> with_param ''whereIn'' (PIn [(''executionStatus'', map JStr (filter (\<lambda>e. e \<noteq> ''any'') (map js_trim (split_at (CHR '','') s))))]) (without_param ''executionStatus'' ps)
   | None \<Rightarrow> ps)"

definition own_params :: "params \<Rightarrow> params" where
  "own_params ps = (case string_param ps ''address'' of
     Some a \<Rightarrow> with_param ''orWhereWith'' (PRow [(''senderAddress'', JStr a)]) (with_param ''orWhere'' (PRow [(''recipientAddress'', JStr a)]) (without_param ''address'' ps))
   | None \<Rightarrow> ps)"

definition validateParams :: "tx_env \<Rightarrow> params \<Rightarrow> params result" where
  "validateParams env request =
     bindR (range_param request ''height'') (\<lambda>ps. bindR (range_param ps ''timestamp'') (\<lambda>ps.
       if truthy_param ps ''nonce'' \<and> \<not> truthy_param ps ''senderAddress'' then Inl (Error ''Nonce based retrieval is only possible along with senderAddress'')
       else bindR (chain_params env ps) (\<lambda>ps. Inr (own_params (status_params ps)))))"

definition BATCH_SIZE :: nat where "BATCH_SIZE = 25"

definition getTransactionsByIDs :: "tx_env \<Rightarrow> jsval list \<Rightarrow> object list result" where
  "getTransactionsByIDs env ids = bindR (te_transactionsByIDs env ids) (\<lambda>txs. Inr (map normalizeTransaction txs))"

definition fetch_batches :: "tx_env \<Rightarrow> jsval list \<Rightarrow> object list result" where
  "fetch_batches env ids =
     foldR (\<lambda>i acc. bindR (getTransactionsByIDs env (take BATCH_SIZE (drop (i * BATCH_SIZE) ids))) (\<lambda>txs. Inr (acc @ txs))) [0..<(length ids + (BATCH_SIZE - 1)) div BATCH_SIZE] []"

text \<open>What the index knows about a transaction; \<open>infos\<close> are the rows of the answer.\<close>

definition describe_tx :: "tx_env \<Rightarrow> db \<Rightarrow> row list \<Rightarrow> object \<Rightarrow> object result" where
  "describe_tx env d infos tx =
     (let publicKey = prop_of tx ''senderPublicKey'' in
      bindR (getKlayr32AddressFromPublicKey env publicKey) (\<lambda>sender.
      bindR (getIndexedAccountInfo [(''address'', PVal (JStr sender)), (''limit'', PVal (JNum 1))] [''name''] d) (\<lambda>account.
      bindR (with_recipient d (AList.update ''sender'' (JObj [(''address'', JString sender), (''publicKey'', publicKey), (''name'', cell account ''name'')]) tx)) (\<lambda>tx.
      bindR (te_finalizedHeight env) (\<lambda>finalized.
      let info = (case find (\<lambda>r. JV (row_get r ''id'') = prop_of tx ''id'') infos of Some r \<Rightarrow> r | None \<Rightarrow> []);
          block = JObj [(''id'', cell info ''blockID''), (''height'', cell info ''height''), (''timestamp'', cell info ''timestamp''),
                        (''isFinal'', JV (JBool (case cell info ''height'' of JV (JNum h) \<Rightarrow> h \<le> finalized | _ \<Rightarrow> False)))]
      in Inr (AList.update ''minFee'' (cell info ''minFee'') (AList.update ''index'' (cell info ''index'') (AList.update ''executionStatus'' (cell info ''executionStatus'') (AList.update ''block'' block tx)))))))))"

definition tx_columns :: "string list" where
  "tx_columns = [''id'', ''timestamp'', ''height'', ''blockID'', ''executionStatus'', ''index'', ''minFee'']"

definition limit_or :: "params \<Rightarrow> int \<Rightarrow> pval" where
  "limit_or ps n = (if truthy_param ps ''limit'' then the (map_of ps ''limit'') else PVal (JNum n))"

definition param_json :: "params \<Rightarrow> string \<Rightarrow> json" where
  "param_json ps k = (case map_of ps k of Some (PVal v) \<Rightarrow> JV v | _ \<Rightarrow> JUndef)"

definition business_getTransactions :: "tx_env \<Rightarrow> params \<Rightarrow> db \<Rightarrow> tx_reply result" where
  "business_getTransactions env request d =
     bindR (validateParams env request) (\<lambda>ps.
     bindR (count_rows transactionsTableSchema ps d) (\<lambda>n.
     bindR (find_tbl transactionsTableSchema (with_param ''limit'' (limit_or ps n) ps) (Some tx_columns) False d) (\<lambda>infos.
     bindR (fetch_batches env (map (\<lambda>r. row_get r ''id'') infos)) (\<lambda>txs.
     bindR (mapR (describe_tx env d infos) txs) (\<lambda>data.
     Inr \<lparr>tr_data = data, tr_meta = [(''total'', JV (JNum n)), (''count'', JV (JNum (int (length data)))), (''offset'', param_json ps ''offset'')]\<rparr>)))))"

section \<open>Pool and index together\<close>

definition isIncludePendingTransactions :: "params \<Rightarrow> bool" where
  "isIncludePendingTransactions ps = (case string_param ps ''executionStatus'' of None \<Rightarrow> False | Some s \<Rightarrow> fold (\<lambda>status isInclude. isInclude \<or> status = PENDING) (split_at (CHR '','') s) False)"

definition meta_total :: "tx_reply \<Rightarrow> int" where
  "meta_total r = (case prop_of (tr_meta r) ''total'' of JV (JNum n) \<Rightarrow> n | _ \<Rightarrow> 0)"

text \<open>The limit and the offset for the index; without a limit or an offset they are \<^verbatim>\<open>NaN\<close>.\<close>

definition index_limit :: "int option \<Rightarrow> int \<Rightarrow> int \<Rightarrow> pval" where
  "index_limit limit numTotalPendingTx n = PVal (case limit of Some l \<Rightarrow> JNum (max 1 (l - (numTotalPendingTx - n))) | None \<Rightarrow> JNaN)"

definition index_offset :: "int option \<Rightarrow> int \<Rightarrow> pval" where
  "index_offset offset numTotalPendingTx = PVal (case offset of Some i \<Rightarrow> JNum (max 0 (i - numTotalPendingTx)) | None \<Rightarrow> JNaN)"

definition mergeTransactions :: "tx_env \<Rightarrow> params \<Rightarrow> object list \<Rightarrow> db \<Rightarrow> tx_reply result" where
  "mergeTransactions env ps pending d =
     bindR (business_getPendingTransactions env ps pending) (\<lambda>pendingTxs.
       let limit = int_param ps ''limit''; offset = int_param ps ''offset''; n = int (length (tr_data pendingTxs));
           ps' = with_param ''offset'' (index_offset offset (meta_total pendingTxs)) (with_param ''limit'' (index_limit limit (meta_total pendingTxs) n) ps) in
       bindR (case business_getTransactions env ps' d of
                Inr response \<Rightarrow> Inr response
              | Inl e \<Rightarrow> if tr_data pendingTxs = [] then Inl e else Inr \<lparr>tr_data = [], tr_meta = []\<rparr>) (\<lambda>transactions.
       let data = (if limit = Some n then tr_data pendingTxs
                   else case limit of Some l \<Rightarrow> js_slice 0 l (tr_data pendingTxs @ tr_data transactions) | None \<Rightarrow> tr_data pendingTxs @ tr_data transactions)
       in Inr \<lparr>tr_data = data, tr_meta = [(''count'', JV (JNum (int (length data)))), (''offset'', param_json ps ''offset''), (''total'', JV (JNum (meta_total pendingTxs + meta_total transactions)))]\<rparr>))"

definition getTransactions :: "tx_env \<Rightarrow> params \<Rightarrow> object list \<Rightarrow> db \<Rightarrow> tx_reply result" where
  "getTransactions env ps pending d = (if isIncludePendingTransactions ps then mergeTransactions env ps pending d else business_getTransactions env ps d)"

section \<open>Batches\<close>

text \<open>A node that answers every identifier with its transaction\<close>

definition node_serves :: "tx_env \<Rightarrow> (jsval \<Rightarrow> object) \<Rightarrow> bool" where
  "node_serves env f \<longleftrightarrow> te_transactionsByIDs env = (\<lambda>ids. Inr (map f ids)) \<and> (\<forall>s. prop_of (f (JStr s)) ''id'' = JString s)"

text \<open>Fetching in batches of 25 is fetching at once: no transaction is lost or repeated where two batches meet.\<close>

lemma batches_upto:
  assumes "\<And>ids. te_transactionsByIDs env ids = Inr (map f ids)"
  shows "foldR (\<lambda>i acc. bindR (getTransactionsByIDs env (take BATCH_SIZE (drop (i * BATCH_SIZE) ids))) (\<lambda>txs. Inr (acc @ txs))) [0..<k] []
    = Inr (map (\<lambda>i. normalizeTransaction (f i)) (take (k * BATCH_SIZE) ids))"
proof (induction k)
  case (Suc k)
  have "take (Suc k * BATCH_SIZE) ids = take (k * BATCH_SIZE) ids @ take BATCH_SIZE (drop (k * BATCH_SIZE) ids)"
    by (metis add.commute mult_Suc take_add)
  then show ?case using Suc assms by (simp add: foldR_append getTransactionsByIDs_def)
qed simp

lemma fetch_batches_all:
  assumes "\<And>ids. te_transactionsByIDs env ids = Inr (map f ids)"
  shows "fetch_batches env ids = Inr (map (\<lambda>i. normalizeTransaction (f i)) ids)"
proof -
  have "length ids \<le> (length ids + (BATCH_SIZE - 1)) div BATCH_SIZE * BATCH_SIZE" unfolding BATCH_SIZE_def by simp
  then show ?thesis unfolding fetch_batches_def batches_upto [of env f, OF assms] by simp
qed

section \<open>What keeps the identifier of a transaction\<close>

lemma prop_of_map_fst:
  "prop_of (map (\<lambda>kv. (fst kv, g (snd kv))) obj) k = (case map_of obj k of Some v \<Rightarrow> g v | None \<Rightarrow> JUndef)"
  by (induction obj) (auto simp: prop_of_def)

lemma normalize_string:
  assumes "prop_of tx k = JString s" "k \<noteq> ''moduleCommand''"
  shows "prop_of (normalizeTransaction tx) k = JString s"
proof -
  let ?tx = "AList.update ''moduleCommand'' (JString (json_String (prop_of tx ''module'') @ '':'' @ json_String (prop_of tx ''command''))) tx"
  have "map_of ?tx k = Some (JString s)" using assms by (auto simp: prop_of_def update_conv' split: option.splits)
  moreover have "compat_object ?tx = map (\<lambda>kv. (fst kv, case snd kv of JV (JBig n) \<Rightarrow> JString (show_int n) | _ \<Rightarrow> parseToJSONCompatObj (snd kv))) ?tx" by (simp add: compat_object_def)
  ultimately show ?thesis unfolding normalizeTransaction_def by (simp add: prop_of_map_fst [of "\<lambda>v. case v of JV (JBig n) \<Rightarrow> JString (show_int n) | _ \<Rightarrow> parseToJSONCompatObj v"])
qed

lemma with_recipient_keeps: "with_recipient d tx = Inr tx' \<Longrightarrow> k \<noteq> ''meta'' \<Longrightarrow> prop_of tx' k = prop_of tx k"
  by (auto simp: with_recipient_def bindR_eq_Inr prop_of_update split: if_splits)

lemma find_own:
  assumes "distinct (map g rs)" "r \<in> set rs"
  shows "find (\<lambda>x. g x = g r) rs = Some r"
  using assms by (induction rs) (auto simp: image_iff)

text \<open>Among rows with different identifiers, a transaction is described by its own row.\<close>

lemma describe_own_row:
  assumes "distinct (map (\<lambda>r. row_get r ''id'') infos)" "r \<in> set infos" "prop_of tx ''id'' = JV (row_get r ''id'')"
  shows "describe_tx env d infos tx = describe_tx env d [r] tx"
proof -
  have own: "find (\<lambda>x. row_get x ''id'' = row_get r ''id'') infos = Some r" by (rule find_own [OF assms(1,2)])
  have "find (\<lambda>x. JV (row_get x ''id'') = prop_of tx' ''id'') infos = find (\<lambda>x. JV (row_get x ''id'') = prop_of tx' ''id'') [r]"
    if "with_recipient d (AList.update ''sender'' v tx) = Inr tx'" for tx' v
    using with_recipient_keeps [OF that, of "''id''"] assms(3) own by (simp add: prop_of_update)
  then show ?thesis unfolding describe_tx_def Let_def by (intro bindR_cong refl) simp
qed

section \<open>Pages of the index\<close>

definition described :: "tx_env \<Rightarrow> db \<Rightarrow> (jsval \<Rightarrow> object) \<Rightarrow> row \<Rightarrow> object result" where
  "described env d f r = describe_tx env d [r] (normalizeTransaction (f (row_get r ''id'')))"

text \<open>The table: different identifiers, all of them strings\<close>

definition identified :: "db \<Rightarrow> bool" where
  "identified d \<longleftrightarrow> distinct (map (\<lambda>r. row_get r ''id'') (committed d ''transactions'')) \<and> (\<forall>r \<in> set (committed d ''transactions''). \<exists>s. row_get r ''id'' = JStr s)"

lemma ids_of_all_rows:
  "map (\<lambda>r. row_get r ''id'') (all_rows transactionsTableSchema ps P tx_columns d)
     = map (\<lambda>r. row_get r ''id'') (order_by (sort_param ps ''sort'') (order_by (sort_param ps ''order'') (filter P (committed d ''transactions''))))"
proof -
  have "row_get (map (\<lambda>c. (c, row_get r c)) (tx_columns @ cs)) ''id'' = row_get r ''id''" for r cs by (simp add: tx_columns_def row_get_def)
  then show ?thesis by (simp add: all_rows_def read_table_def transactionsTableSchema_def comp_def)
qed

lemma all_rows_identified:
  assumes "identified d"
  shows "distinct (map (\<lambda>r. row_get r ''id'') (all_rows transactionsTableSchema ps P tx_columns d))" (is "distinct ?ids")
    and "\<forall>v \<in> set (map (\<lambda>r. row_get r ''id'') (all_rows transactionsTableSchema ps P tx_columns d)). \<exists>s. v = JStr s"
proof -
  have m: "mset ?ids = mset (map (\<lambda>r. row_get r ''id'') (filter P (committed d ''transactions'')))" unfolding ids_of_all_rows by simp
  have "distinct (map (\<lambda>r. row_get r ''id'') (filter P (committed d ''transactions'')))" using assms by (simp add: identified_def distinct_map_filter)
  then show "distinct ?ids" using m by (metis mset_eq_imp_distinct_iff)
  have "set ?ids = set (map (\<lambda>r. row_get r ''id'') (filter P (committed d ''transactions'')))" using m by (metis set_mset_mset)
  then show "\<forall>v \<in> set ?ids. \<exists>s. v = JStr s" using assms by (auto simp: identified_def)
qed

text \<open>The transactions of a page, once its rows are known\<close>

lemma page_described:
  assumes "node_serves env f" "identified d" and T: "mapR (described env d f) (all_rows transactionsTableSchema ps P tx_columns d) = Inr T"
    and infos: "infos = take n (drop m (all_rows transactionsTableSchema ps P tx_columns d))"
  shows "bindR (fetch_batches env (map (\<lambda>r. row_get r ''id'') infos)) (mapR (describe_tx env d infos)) = Inr (take n (drop m T))"
proof -
  let ?all = "all_rows transactionsTableSchema ps P tx_columns d"
  have dist: "distinct (map (\<lambda>r. row_get r ''id'') infos)" unfolding infos take_map [symmetric] drop_map [symmetric] by (intro distinct_take distinct_drop all_rows_identified(1) assms(2))
  have sub: "set infos \<subseteq> set ?all" using infos by (meson in_set_dropD in_set_takeD subsetI)
  have f: "te_transactionsByIDs env ids = Inr (map f ids)" for ids using assms(1) by (simp add: node_serves_def)
  have own: "describe_tx env d infos (normalizeTransaction (f (row_get r ''id''))) = described env d f r" if r: "r \<in> set infos" for r
  proof -
    obtain s where s: "row_get r ''id'' = JStr s" using all_rows_identified(2) [OF assms(2), of ps P] sub r by auto
    have "prop_of (normalizeTransaction (f (row_get r ''id''))) ''id'' = JV (row_get r ''id'')"
      using normalize_string [of "f (JStr s)" "''id''" s] assms(1) s by (simp add: node_serves_def)
    from describe_own_row [OF dist r this] show ?thesis by (simp add: described_def)
  qed
  have map: "mapR g (map h xs) = mapR (\<lambda>x. g (h x)) xs" for g :: "object \<Rightarrow> object result" and h and xs :: "row list" by (induction xs) auto
  have "mapR (describe_tx env d infos) (map (\<lambda>i. normalizeTransaction (f i)) (map (\<lambda>r. row_get r ''id'') infos)) = mapR (described env d f) infos"
    unfolding list.map_comp comp_def map by (rule mapR_cong [OF refl own])
  moreover have "mapR (described env d f) infos = Inr (take n (drop m T))" unfolding infos by (rule mapR_take [OF mapR_drop [OF T]])
  ultimately show ?thesis unfolding fetch_batches_all [of env f, OF f] by simp
qed

section \<open>Parameters of the two queries\<close>

text \<open>Changing the limit or the offset of a request changes nothing else of the query.\<close>

lemma update_commute_present: "k \<in> fst ` set ps \<Longrightarrow> k \<noteq> k' \<Longrightarrow> AList.update k' v' (AList.update k v ps) = AList.update k v (AList.update k' v' ps)"
  by (induction ps) auto

lemma without_with: "k \<noteq> k' \<Longrightarrow> without_param k' (with_param k v ps) = with_param k v (without_param k' ps)"
  unfolding without_param_def with_param_def by (induction ps) auto

lemma present_without: "k \<in> fst ` set ps \<Longrightarrow> k \<noteq> k' \<Longrightarrow> k \<in> fst ` set (without_param k' ps)"
  unfolding without_param_def by (induction ps) auto

lemma present_with: "k \<in> fst ` set ps \<Longrightarrow> k \<in> fst ` set (with_param k' v ps)"
  unfolding with_param_def by (simp add: dom_update)

lemma lookup_with: "k' \<noteq> k \<Longrightarrow> map_of (with_param k v ps) k' = map_of ps k'"
  by (simp add: map_of_with)

lemma param_with: "k' \<noteq> k \<Longrightarrow> string_param (with_param k v ps) k' = string_param ps k'" "k' \<noteq> k \<Longrightarrow> truthy_param (with_param k v ps) k' = truthy_param ps k'"
  by (simp_all add: string_param_def truthy_param_def lookup_with)

definition page_key :: "string \<Rightarrow> bool" where
  "page_key k \<longleftrightarrow> k = ''limit'' \<or> k = ''offset''"

lemma range_param_with:
  assumes "page_key k" "k \<in> fst ` set ps" "c \<in> {''height'', ''timestamp''}"
  shows "range_param (with_param k v ps) c = bindR (range_param ps c) (\<lambda>q. Inr (with_param k v q)) \<and> (\<forall>q. range_param ps c = Inr q \<longrightarrow> k \<in> fst ` set q)"
proof -
  have ne: "c \<noteq> k" "k \<noteq> ''propBetweens''" using assms by (auto simp: page_key_def)
  have move: "with_param ''propBetweens'' x (without_param c (with_param k v ps)) = with_param k v (with_param ''propBetweens'' x (without_param c ps))" for x
    using update_commute_present [OF present_without [OF assms(2) ne(1) [symmetric]] ne(2)] ne by (simp add: without_with) (simp add: with_param_def)
  have l: "string_param (with_param k v ps) c = string_param ps c" "map_of (with_param k v ps) ''propBetweens'' = map_of ps ''propBetweens''" using ne by (simp_all add: lookup_with param_with)
  have "normalizeRangeParam (with_param k v ps) c = bindR (normalizeRangeParam ps c) (\<lambda>q. Inr (with_param k v q))"
    unfolding normalizeRangeParam_def l move by (simp add: bindR_assoc split: option.splits list.splits)
  moreover have "k \<in> fst ` set q" if "normalizeRangeParam ps c = Inr q" for q
    using that assms(2) present_with [OF present_without [OF assms(2) ne(1) [symmetric]]]
    by (auto simp: normalizeRangeParam_def bindR_eq_Inr split: option.splits list.splits)
  ultimately show ?thesis using assms(2) ne by (auto simp: range_param_def param_with split: option.splits)
qed

lemma status_params_with:
  assumes "page_key k" "k \<in> fst ` set ps"
  shows "status_params (with_param k v ps) = with_param k v (status_params ps)" and "k \<in> fst ` set (status_params ps)"
proof -
  have ne: "k \<noteq> ''executionStatus''" "k \<noteq> ''whereIn''" using assms(1) by (auto simp: page_key_def)
  have p: "k \<in> fst ` set (without_param ''executionStatus'' ps)" by (rule present_without [OF assms(2) ne(1)])
  show "status_params (with_param k v ps) = with_param k v (status_params ps)"
    using ne update_commute_present [OF p ne(2)] by (simp add: status_params_def param_with without_with split: option.splits) (simp add: with_param_def)
  show "k \<in> fst ` set (status_params ps)" using assms(2) present_with [OF p] by (simp add: status_params_def split: option.splits)
qed

lemma own_params_with:
  assumes "page_key k" "k \<in> fst ` set ps"
  shows "own_params (with_param k v ps) = with_param k v (own_params ps)" and "k \<in> fst ` set (own_params ps)"
proof -
  have ne: "k \<noteq> ''address''" "k \<noteq> ''orWhere''" "k \<noteq> ''orWhereWith''" using assms(1) by (auto simp: page_key_def)
  have p: "k \<in> fst ` set (without_param ''address'' ps)" by (rule present_without [OF assms(2) ne(1)])
  have p2: "k \<in> fst ` set (AList.update ''orWhere'' x (without_param ''address'' ps))" for x using present_with [OF p] by (simp add: with_param_def)
  show "own_params (with_param k v ps) = with_param k v (own_params ps)"
    using ne by (simp add: own_params_def param_with without_with split: option.splits) (simp add: with_param_def update_commute_present [OF p ne(2)] update_commute_present [OF p2 ne(3)])
  show "k \<in> fst ` set (own_params ps)" using assms(2) present_with [OF present_with [OF p]] by (simp add: own_params_def split: option.splits)
qed

lemma chain_params_with:
  assumes "page_key k" "k \<in> fst ` set ps"
  shows "chain_params env (with_param k v ps) = bindR (chain_params env ps) (\<lambda>q. Inr (with_param k v q)) \<and> (\<forall>q. chain_params env ps = Inr q \<longrightarrow> k \<in> fst ` set q)"
proof -
  have ne: "k \<noteq> ''receivingChainID''" using assms(1) by (auto simp: page_key_def)
  have "with_param ''receivingChainID'' x (with_param k v ps) = with_param k v (with_param ''receivingChainID'' x ps)" for x using update_commute_present [OF assms(2) ne] by (simp add: with_param_def)
  then show ?thesis using ne assms(2) present_with [OF assms(2)] by (auto simp: chain_params_def param_with bindR_assoc bindR_eq_Inr intro: bindR_cong split: option.splits if_splits)
qed

lemma validateParams_with:
  assumes k: "page_key k" "k \<in> fst ` set ps" and "validateParams env ps = Inr q"
  shows "validateParams env (with_param k v ps) = Inr (with_param k v q)" and "k \<in> fst ` set q"
proof -
  obtain p1 p2 p3 where 1: "range_param ps ''height'' = Inr p1" and 2: "range_param p1 ''timestamp'' = Inr p2" and n: "\<not> (truthy_param p2 ''nonce'' \<and> \<not> truthy_param p2 ''senderAddress'')"
      and 3: "chain_params env p2 = Inr p3" and q: "q = own_params (status_params p3)"
    using assms(3) by (auto simp: validateParams_def bindR_eq_Inr split: if_splits)
  have k1: "k \<in> fst ` set p1" using range_param_with [OF k, of "''height''"] 1 by simp
  have k2: "k \<in> fst ` set p2" using range_param_with [OF k(1) k1, of "''timestamp''"] 2 by simp
  have k3: "k \<in> fst ` set p3" using chain_params_with [OF k(1) k2] 3 by simp
  have ne: "''nonce'' \<noteq> k" "''senderAddress'' \<noteq> k" using k(1) by (auto simp: page_key_def)
  have "range_param (with_param k v ps) ''height'' = Inr (with_param k v p1)" "range_param (with_param k v p1) ''timestamp'' = Inr (with_param k v p2)" "chain_params env (with_param k v p2) = Inr (with_param k v p3)"
    using range_param_with [OF k, of "''height''"] range_param_with [OF k(1) k1, of "''timestamp''"] chain_params_with [OF k(1) k2] 1 2 3 by simp_all
  then show "validateParams env (with_param k v ps) = Inr (with_param k v q)"
    using n ne by (simp add: validateParams_def param_with q status_params_with(1) [OF k(1) k3] own_params_with(1) [OF k(1) status_params_with(2) [OF k(1) k3]])
  show "k \<in> fst ` set q" unfolding q by (rule own_params_with(2) [OF k(1) status_params_with(2) [OF k(1) k3]])
qed

text \<open>A request without conditions of its own and without undefined values gives such a query, with the limit and the offset of the request.\<close>

definition plain_params :: "params \<Rightarrow> bool" where
  "plain_params ps \<longleftrightarrow> (\<forall>(k, v) \<in> set ps. v \<noteq> PVal JUndefined \<and> k \<noteq> ''where'')"

lemma plain_with: "plain_params ps \<Longrightarrow> v \<noteq> PVal JUndefined \<Longrightarrow> k \<noteq> ''where'' \<Longrightarrow> plain_params (with_param k v ps)"
  using set_with [of k v ps] by (auto simp: plain_params_def)

lemma plain_without: "plain_params ps \<Longrightarrow> plain_params (without_param k ps)"
  by (auto simp: plain_params_def without_param_def)

lemma plain_range: "plain_params ps \<Longrightarrow> range_param ps k = Inr q \<Longrightarrow> plain_params q"
  by (auto simp: range_param_def normalizeRangeParam_def bindR_eq_Inr intro!: plain_with plain_without split: option.splits if_splits list.splits)

lemma plain_validated:
  assumes "plain_params request" "validateParams env request = Inr ps"
  shows "plain_params ps"
proof -
  have last: "plain_params (own_params (status_params q))" if "plain_params q" for q
    using that by (auto simp: own_params_def status_params_def intro!: plain_with plain_without split: option.splits)
  have chain: "plain_params q'" if "plain_params q" "chain_params env q = Inr q'" for q q'
    using that by (auto simp: chain_params_def bindR_eq_Inr intro!: plain_with split: option.splits if_splits)
  obtain p1 p2 p3 where p: "range_param request ''height'' = Inr p1" "range_param p1 ''timestamp'' = Inr p2" "chain_params env p2 = Inr p3" "ps = own_params (status_params p3)"
    using assms(2) by (auto simp: validateParams_def bindR_eq_Inr split: if_splits)
  show ?thesis unfolding p(4) by (rule last [OF chain [OF plain_range [OF plain_range [OF assms(1) p(1)] p(2)] p(3)]])
qed

lemma validated_keeps:
  assumes "page_key k" "map_of request k = Some v" "validateParams env request = Inr ps"
  shows "map_of ps k = Some v"
proof -
  have "k \<in> fst ` set request" using assms(2) by (force dest: map_of_SomeD)
  from validateParams_with(1) [OF assms(1) this assms(3), of v] have "validateParams env request = Inr (with_param k v ps)" using assms(2) by (simp add: with_param_def update_triv)
  then have "ps = with_param k v ps" using assms(3) by simp
  then show ?thesis by (metis map_of_with)
qed

section \<open>Pages of transactions\<close>

text \<open>The first property of an answer to a page: limit, offset and query are those of the request.\<close>

lemma index_page:
  assumes "validateParams env request = Inr ps" "plain_params ps" "map_of ps ''limit'' = Some (PVal (JNum l))" "0 < l" "map_of ps ''offset'' = Some (PVal (JNum off))" "0 \<le> off"
    and "queryBuilder False ps = Inr P" "node_serves env f" "identified d" and T: "mapR (described env d f) (all_rows transactionsTableSchema ps P tx_columns d) = Inr T"
  shows "\<exists>reply. business_getTransactions env request d = Inr reply \<and> tr_data reply = take (nat l) (drop (nat off) T)"
proof -
  let ?infos = "take (nat l) (drop (nat off) (all_rows transactionsTableSchema ps P tx_columns d))"
  have w: "map_of ps ''where'' = None" using assms(2) by (auto simp: plain_params_def map_of_eq_None_iff)
  obtain Q where "queryBuilder True ps = Inr Q" using defined_query [of ps True] assms(2) w by (auto simp: plain_params_def)
  then obtain n where n: "count_rows transactionsTableSchema ps d = Inr n" by (auto simp: count_rows_def count_tbl_def Let_def)
  have same: "with_param ''limit'' (limit_or ps n) ps = ps" using assms(3,4) by (simp add: limit_or_def truthy_param_def with_param_def update_triv)
  have "find_tbl transactionsTableSchema ps (Some tx_columns) False d = Inr ?infos" by (rule find_page [OF assms(7,3,4,5,6)])
  then show ?thesis using page_described [OF assms(8,9) T refl, of "nat l" "nat off"] n
    by (auto simp: business_getTransactions_def assms(1) same bindR_eq_Inr)
qed

section \<open>The list of pending transactions\<close>

text \<open>Every entry of the list carries the status of a pending transaction, whether it was loaded or announced.\<close>

definition all_pending :: "object list \<Rightarrow> bool" where
  "all_pending pending \<longleftrightarrow> (\<forall>tx \<in> set pending. map_of tx ''executionStatus'' = Some (JString PENDING))"

lemma formatted_pending: "formatPendingTransaction env d tx = Inr (tx', pk) \<Longrightarrow> map_of tx' ''executionStatus'' = Some (JString PENDING)"
  by (auto simp: formatPendingTransaction_def Let_def bindR_eq_Inr update_conv')

inductive pool_step :: "object list \<Rightarrow> object list \<Rightarrow> bool" where
  load: "pool_step pending (loadAllPendingTransactions env d pending)"
| announce: "formatPendingTransaction env d tx = Inr (tx', pk) \<Longrightarrow> pool_step pending (txPoolNewTransactionListener [tx'] pending)"

lemma pool_step_pending:
  assumes "pool_step pending pending'" "all_pending pending"
  shows "all_pending pending'"
  using assms
proof (induction rule: pool_step.induct)
  case (load pending env d)
  have "map_of tx ''executionStatus'' = Some (JString PENDING)" if g: "getPendingTransactionsFromNode env d = Inr txs" and m: "(tx, pk) \<in> set txs" for txs tx pk
  proof -
    obtain pool where "mapR (formatPendingTransaction env d) pool = Inr txs" using g by (auto simp: getPendingTransactionsFromNode_def bindR_eq_Inr)
    from mapR_set [OF this m] show ?thesis using formatted_pending by blast
  qed
  then show ?case using load by (auto simp: loadAllPendingTransactions_def all_pending_def split: sum.splits)
next
  case (announce env d tx tx' pk pending)
  then show ?case using formatted_pending by (auto simp: txPoolNewTransactionListener_def all_pending_def)
qed

lemma reachable_all_pending: "pool_step\<^sup>*\<^sup>* [] pending \<Longrightarrow> all_pending pending"
proof (induction rule: rtranclp_induct)
  case base
  show ?case by (simp add: all_pending_def)
next
  case (step y z)
  then show ?case using pool_step_pending by blast
qed

text \<open>The answer for a page of the pool: the transactions that match, cut to the page\<close>

definition paged_request :: "params \<Rightarrow> int \<Rightarrow> int \<Rightarrow> bool" where
  "paged_request ps l off \<longleftrightarrow> plain_params ps \<and> map_of ps ''limit'' = Some (PVal (JNum l)) \<and> 0 < l \<and> map_of ps ''offset'' = Some (PVal (JNum off)) \<and> 0 \<le> off"

lemma pool_page:
  assumes "paged_request ps l off" "map_of ps ''blockID'' = None" "map_of ps ''timestamp'' = None" "map_of ps ''height'' = None"
    and "pending_validateParams env ps = Inr v" "filterR (pending_matches v) pending = Inr F" "all_pending pending"
  shows "\<exists>reply. business_getPendingTransactions env ps pending = Inr reply \<and> tr_data reply = take (nat l) (drop (nat off) F) \<and> meta_total reply = int (length F)"
proof -
  have num: "number_or ps ''offset'' 0 = off" "number_or ps ''limit'' 10 = l" using assms(1) by (auto simp: paged_request_def number_or_def)
  have F: "set F \<subseteq> set pending" using filterR_set [OF assms(6)] by blast
  have "AList.update ''executionStatus'' (JString PENDING) tx = tx" if "tx \<in> set F" for tx
    using that F assms(7) by (auto simp: all_pending_def update_triv)
  then have "map (AList.update ''executionStatus'' (JString PENDING)) (take n (drop m F)) = take n (drop m F)" for m n
    by (intro map_idI) (meson in_set_dropD in_set_takeD)
  moreover have "js_slice off (off + l) F = take (nat l) (drop (nat off) F)" using assms(1) by (intro js_slice_page) (simp_all add: paged_request_def)
  ultimately show ?thesis using assms(2-6)
    by (cases "pending = []") (auto simp: business_getPendingTransactions_def Let_def num meta_total_def prop_of_def)
qed

section \<open>Pages of pool and index\<close>

text \<open>
  \<open>F\<close> are the transactions of the pool that a request asks for and \<open>T\<close> the transactions of the index, described by a node that serves all of them, in the order of the request.
\<close>

definition listing :: "tx_env \<Rightarrow> params \<Rightarrow> object list \<Rightarrow> db \<Rightarrow> int \<Rightarrow> int \<Rightarrow> object list \<Rightarrow> object list \<Rightarrow> bool" where
  "listing env request pending d l off F T \<longleftrightarrow>
     paged_request request l off \<and> isIncludePendingTransactions request \<and> map_of request ''blockID'' = None \<and> map_of request ''timestamp'' = None \<and> map_of request ''height'' = None
   \<and> (\<exists>v. pending_validateParams env request = Inr v \<and> filterR (pending_matches v) pending = Inr F)
   \<and> (\<exists>ps P f. validateParams env request = Inr ps \<and> queryBuilder False ps = Inr P \<and> node_serves env f
        \<and> mapR (described env d f) (all_rows transactionsTableSchema ps P tx_columns d) = Inr T)"

text \<open>The query of the index differs from the request in its limit and its offset.\<close>

lemma index_part:
  assumes "listing env request pending d l off F T" "identified d" "0 < l'" "0 \<le> off'"
  shows "\<exists>reply. business_getTransactions env (with_param ''offset'' (PVal (JNum off')) (with_param ''limit'' (PVal (JNum l')) request)) d = Inr reply
    \<and> tr_data reply = take (nat l') (drop (nat off') T)"
proof -
  obtain ps P f where ps: "validateParams env request = Inr ps" and P: "queryBuilder False ps = Inr P" and f: "node_serves env f"
      and T: "mapR (described env d f) (all_rows transactionsTableSchema ps P tx_columns d) = Inr T" using assms(1) unfolding listing_def by blast
  have req: "paged_request request l off" using assms(1) by (simp add: listing_def)
  let ?r1 = "with_param ''limit'' (PVal (JNum l')) request" and ?p1 = "with_param ''limit'' (PVal (JNum l')) ps"
  let ?r2 = "with_param ''offset'' (PVal (JNum off')) ?r1" and ?p2 = "with_param ''offset'' (PVal (JNum off')) ?p1"
  have in_req: "''limit'' \<in> fst ` set request" "''offset'' \<in> fst ` set request" using req by (force simp: paged_request_def dest: map_of_SomeD)+
  have k: "page_key ''limit''" "page_key ''offset''" by (simp_all add: page_key_def)
  have v1: "validateParams env ?r1 = Inr ?p1" by (rule validateParams_with(1) [OF k(1) in_req(1) ps])
  have v2: "validateParams env ?r2 = Inr ?p2" by (rule validateParams_with(1) [OF k(2) present_with [OF in_req(2)] v1])
  have plain: "plain_params ?p2" using plain_validated [OF _ ps] req by (intro plain_with) (simp_all add: paged_request_def)
  have known: "resolveQueryParams (with_param ''offset'' v qs) = resolveQueryParams qs" "resolveQueryParams (with_param ''limit'' v qs) = resolveQueryParams qs" for v qs
    using resolve_known by (simp_all add: with_param_def KNOWN_QUERY_PARAMS_def)
  have "resolveQueryParams ?p2 = resolveQueryParams ps" by (simp only: known)
  moreover have "map_of ?p2 k = map_of ps k" if "k \<noteq> ''limit''" "k \<noteq> ''offset''" for k using that by (simp only: map_of_with if_False)
  ultimately have q: "queryBuilder False ?p2 = queryBuilder False ps" "all_rows transactionsTableSchema ?p2 P tx_columns d = all_rows transactionsTableSchema ps P tx_columns d"
    using query_cong [of ?p2 ps] by (simp_all add: all_rows_def)
  have l': "map_of ?p2 ''limit'' = Some (PVal (JNum l'))" "map_of ?p2 ''offset'' = Some (PVal (JNum off'))" by (simp_all add: map_of_with)
  have P2: "queryBuilder False ?p2 = Inr P" unfolding q(1) by (rule P)
  have T2: "mapR (described env d f) (all_rows transactionsTableSchema ?p2 P tx_columns d) = Inr T" unfolding q(2) by (rule T)
  show ?thesis by (rule index_page [OF v2 plain l'(1) assms(3) l'(2) assms(4) P2 f assms(2) T2])
qed

lemma merged_data:
  assumes "listing env request pending d l off F T" "all_pending pending" "identified d"
  shows "\<exists>reply. getTransactions env request pending d = Inr reply \<and>
    tr_data reply = (let p = take (nat l) (drop (nat off) F); k = l - (int (length F) - int (length p))
                     in p @ take (min (nat l - length p) (nat (max 1 k))) (drop (nat off - length F) T))"
proof -
  have req: "paged_request request l off" and inc: "isIncludePendingTransactions request" using assms(1) by (simp_all add: listing_def)
  then have l: "0 < l" "0 \<le> off" by (simp_all add: paged_request_def)
  obtain pr where pr: "business_getPendingTransactions env request pending = Inr pr" "tr_data pr = take (nat l) (drop (nat off) F)" "meta_total pr = int (length F)"
    using pool_page [OF req] assms(1,2) unfolding listing_def by blast
  let ?p = "take (nat l) (drop (nat off) F)"
  let ?l = "max 1 (l - (int (length F) - int (length ?p)))" and ?off = "max 0 (off - int (length F))"
  have pos: "0 < ?l" "0 \<le> ?off" by linarith+
  obtain ir where ir: "business_getTransactions env (with_param ''offset'' (PVal (JNum ?off)) (with_param ''limit'' (PVal (JNum ?l)) request)) d = Inr ir"
      "tr_data ir = take (nat ?l) (drop (nat ?off) T)" using index_part [OF assms(1,3) pos] by blast
  have par: "int_param request ''limit'' = Some l" "int_param request ''offset'' = Some off" using req by (simp_all add: paged_request_def int_param_def)
  have cut: "js_slice 0 l xs = take (nat l) xs" for xs :: "object list" using js_slice_page [of 0 l xs] l by simp
  have off: "nat ?off = nat off - length F" using l by (simp add: max_def) arith
  have len: "length ?p \<le> nat l" by simp
  have "getTransactions env request pending d = Inr \<lparr>tr_data = (if l = int (length ?p) then ?p else take (nat l) (?p @ tr_data ir)),
      tr_meta = [(''count'', JV (JNum (int (length (if l = int (length ?p) then ?p else take (nat l) (?p @ tr_data ir)))))), (''offset'', param_json request ''offset''),
        (''total'', JV (JNum (int (length F) + meta_total ir)))]\<rparr>"
    unfolding getTransactions_def if_P [OF inc] mergeTransactions_def pr(1) bindR_Inr Let_def par pr(2,3) index_limit_def index_offset_def option.case ir(1) sum.case cut
    by (simp del: length_take length_drop)
  moreover have "(if l = int (length ?p) then ?p else take (nat l) (?p @ tr_data ir)) = ?p @ take (min (nat l - length ?p) (nat ?l)) (drop (nat off - length F) T)"
  proof (cases "l = int (length ?p)")
    case True
    then have "nat l - length ?p = 0" by linarith
    then show ?thesis using True by (simp del: length_take length_drop)
  next
    case False
    have "take (nat l) (?p @ tr_data ir) = ?p @ take (nat l - length ?p) (tr_data ir)" using len by simp
    then show ?thesis using False unfolding ir(2) off take_take by (simp del: length_take length_drop)
  qed
  ultimately show ?thesis by (auto simp: Let_def simp del: length_take length_drop)
qed

text \<open>
  C37: A request that includes pending transactions is answered with a page of one list, the matching transactions of the pool followed by those of the index. The page always begins like the page of that list,
  and it is the whole page when it is the first one or no transaction of the pool matches.
\<close>

theorem merged_pages:
  assumes "listing env request pending d l off F T" and "pool_step\<^sup>*\<^sup>* [] pending" and "identified d"
  shows "\<exists>reply. getTransactions env request pending d = Inr reply \<and> prefix (tr_data reply) (take (nat l) (drop (nat off) (F @ T)))
    \<and> (off = 0 \<or> F = [] \<longrightarrow> tr_data reply = take (nat l) (drop (nat off) (F @ T)))"
proof -
  let ?p = "take (nat l) (drop (nat off) F)" and ?k = "\<lambda>p. nat (max 1 (l - (int (length F) - int (length p))))"
  obtain reply where r: "getTransactions env request pending d = Inr reply" "tr_data reply = ?p @ take (min (nat l - length ?p) (?k ?p)) (drop (nat off - length F) T)"
    using merged_data [OF assms(1) reachable_all_pending [OF assms(2)] assms(3)] by (auto simp: Let_def)
  have l: "0 < l" "0 \<le> off" using assms(1) by (simp_all add: listing_def paged_request_def)
  have page: "take (nat l) (drop (nat off) (F @ T)) = ?p @ take (nat l - length ?p) (drop (nat off - length F) T)"
  proof -
    have "nat l - length (drop (nat off) F) = nat l - length ?p" by (simp add: min_def)
    then show ?thesis by (simp only: drop_append take_append)
  qed
  have "min (nat l - length ?p) (?k ?p) = nat l - length ?p" if "off = 0 \<or> F = []" using that l by (auto simp: min_def)
  moreover have "prefix (take (min a b) xs) (take a xs)" for a b and xs :: "object list" by (metis take_is_prefix take_take min.commute)
  ultimately show ?thesis using r unfolding page by (intro exI [of _ reply]) (simp del: length_take length_drop)
qed

text \<open>
  Every later page is short: when the transactions of the pool fit on earlier pages, a page holds as many transactions less as there are in the pool, and those are on no other page. The number of
  pending transactions that are not on the page is subtracted from the limit although they were skipped by the offset.
\<close>

theorem later_pages_short:
  assumes "listing env request pending d l off F T" and "pool_step\<^sup>*\<^sup>* [] pending" and "identified d" and "int (length F) \<le> off" and "int (length F) < l"
  shows "\<exists>reply. getTransactions env request pending d = Inr reply \<and> tr_data reply = take (nat l - length F) (drop (nat off) (F @ T))"
proof -
  have "take (nat l) (drop (nat off) F) = []" using assms(4) by simp
  moreover have "nat (max 1 (l - int (length F))) = nat l - length F" using assms(5) by linarith
  moreover have "drop (nat off) (F @ T) = drop (nat off - length F) T" using assms(4) by simp
  moreover have "nat (l - int (length F)) = nat l - length F" using assms(5) by linarith
  ultimately show ?thesis using merged_data [OF assms(1) reachable_all_pending [OF assms(2)] assms(3)] by (simp add: Let_def del: length_take length_drop)
qed

text \<open>Without pending transactions, a page of the index is a page of all transactions that match.\<close>

theorem index_pages:
  assumes "paged_request request l off" and "\<not> isIncludePendingTransactions request" and "validateParams env request = Inr ps" and "queryBuilder False ps = Inr P"
    and "node_serves env f" and "identified d" and "mapR (described env d f) (all_rows transactionsTableSchema ps P tx_columns d) = Inr T"
  shows "\<exists>reply. getTransactions env request pending d = Inr reply \<and> tr_data reply = take (nat l) (drop (nat off) T)"
proof -
  have r: "plain_params request" "map_of request ''limit'' = Some (PVal (JNum l))" "0 < l" "map_of request ''offset'' = Some (PVal (JNum off))" "0 \<le> off" using assms(1) by (simp_all add: paged_request_def)
  have k: "page_key ''limit''" "page_key ''offset''" by (simp_all add: page_key_def)
  have "map_of ps ''limit'' = Some (PVal (JNum l))" "map_of ps ''offset'' = Some (PVal (JNum off))" by (rule validated_keeps [OF k(1) r(2) assms(3)], rule validated_keeps [OF k(2) r(4) assms(3)])
  from index_page [OF assms(3) plain_validated [OF r(1) assms(3)] this(1) r(3) this(2) r(5) assms(4-7)] show ?thesis using assms(2) by (simp add: getTransactions_def)
qed

section \<open>Examples\<close>

definition example_tx_env :: tx_env where
  "example_tx_env = \<lparr>te_address = (\<lambda>pk. ''kly'' @ pk), te_chainID = Inr ''04000000'', te_pool = Inr [[(''id'', JString ''c3''), (''module'', JString ''token''), (''command'', JString ''transfer''), (''senderPublicKey'', JString ''ab''), (''params'', JObj [])]],
     te_transactionsByIDs = (\<lambda>ids. Inr (map (\<lambda>i. [(''id'', JV i), (''senderPublicKey'', JString ''ab''), (''params'', JObj [])]) ids)), te_finalizedHeight = Inr 9\<rparr>"

definition example_tx_db :: db where
  "example_tx_db = \<lparr>committed = (\<lambda>t. if t = ''transactions'' then map (\<lambda>i. [(''id'', JStr i), (''height'', JNum 7), (''executionStatus'', JStr ''successful''), (''senderAddress'', JStr ''klyab'')]) [''a1'', ''b2''] else []), working = (\<lambda>_. [])\<rparr>"

definition example_tx_request :: "int \<Rightarrow> params" where
  "example_tx_request off = [(''limit'', PVal (JNum 2)), (''offset'', PVal (JNum off)), (''executionStatus'', PVal (JStr ''pending,successful''))]"

definition example_pending :: "object list" where
  "example_pending = loadAllPendingTransactions example_tx_env example_tx_db []"

lemma example_listing:
  assumes "off \<in> {0, 1}"
  shows "\<exists>T. listing example_tx_env (example_tx_request off) example_pending example_tx_db 2 off example_pending T \<and> map (\<lambda>tx. prop_of tx ''id'') T = [JString ''a1'', JString ''b2'']"
proof -
  let ?ps = "[(''limit'', PVal (JNum 2)), (''offset'', PVal (JNum off)), (''whereIn'', PIn [(''executionStatus'', [JStr ''pending'', JStr ''successful''])])]"
  let ?f = "\<lambda>i. [(''id'', JV i), (''senderPublicKey'', JString ''ab''), (''params'', JObj [])]"
  let ?v = "\<lparr>pf_id = None, pf_address = None, pf_senderAddress = None, pf_recipientAddress = None, pf_moduleCommand = None, pf_receivingChainID = None, pf_currentChainTransactions = False\<rparr>"
  have par: "string_param (example_tx_request off) k = (if k = ''executionStatus'' then Some ''pending,successful'' else None)" for k by (simp add: string_param_def example_tx_request_def)
  have req: "paged_request (example_tx_request off) 2 off" using assms by (auto simp: paged_request_def plain_params_def example_tx_request_def)
  have inc: "isIncludePendingTransactions (example_tx_request off)" by (simp add: isIncludePendingTransactions_def par PENDING_def)
  have no: "map_of (example_tx_request off) ''blockID'' = None" "map_of (example_tx_request off) ''timestamp'' = None" "map_of (example_tx_request off) ''height'' = None" by (simp_all add: example_tx_request_def)
  have v: "pending_validateParams example_tx_env (example_tx_request off) = Inr ?v" by (simp add: pending_validateParams_def par truthy_param_def) (simp add: example_tx_request_def)
  have F: "filterR (pending_matches ?v) xs = Inr xs" for xs by (induction xs) (simp_all add: pending_matches_def asked_def andR_def)
  have ps: "validateParams example_tx_env (example_tx_request off) = Inr ?ps"
  proof -
    have "status_params (example_tx_request off) = ?ps" unfolding status_params_def par by (simp add: example_tx_request_def with_param_def without_param_def js_trim_def is_space_def)
    moreover have "own_params ?ps = ?ps" by (simp add: own_params_def string_param_def)
    ultimately show ?thesis by (simp add: validateParams_def range_param_def par chain_params_def truthy_param_def) (simp add: example_tx_request_def)
  qed
  let ?P = "\<lambda>r. in_list [JStr ''pending'', JStr ''successful''] (row_get r ''executionStatus'')"
  let ?rows = "map (\<lambda>i. map (\<lambda>c. (c, row_get [(''id'', JStr i), (''height'', JNum 7), (''executionStatus'', JStr ''successful''), (''senderAddress'', JStr ''klyab'')] c)) tx_columns) [''a1'', ''b2'']"
  have P: "queryBuilder False ?ps = Inr ?P"
    by (auto simp: queryBuilder_def where_clauses_def resolveQueryParams_def KNOWN_QUERY_PARAMS_def eq_clauses_def whereIn_clauses_def in_clauses_def nested_clauses_def like_clauses_def null_clauses_def sort_clauses_def sort_param_def)
  have rows: "all_rows transactionsTableSchema ?ps ?P tx_columns example_tx_db = ?rows"
    by (simp add: all_rows_def sort_columns_def sort_param_def order_by_def read_table_def transactionsTableSchema_def example_tx_db_def in_list_def row_get_def sql_eq_def)
  let ?m = "mapR (described example_tx_env example_tx_db ?f) ?rows"
  have T: "?m = Inr (projr ?m)" "map (\<lambda>tx. prop_of tx ''id'') (projr ?m) = [JString ''a1'', JString ''b2'']" by code_simp+
  have f: "node_serves example_tx_env ?f" by (simp add: node_serves_def example_tx_env_def prop_of_def)
  have "\<exists>ps P f. validateParams example_tx_env (example_tx_request off) = Inr ps \<and> queryBuilder False ps = Inr P \<and> node_serves example_tx_env f
      \<and> mapR (described example_tx_env example_tx_db f) (all_rows transactionsTableSchema ps P tx_columns example_tx_db) = Inr (projr ?m)"
    by (intro exI [of _ ?ps] exI [of _ ?P] exI [of _ ?f] conjI ps P f) (simp only: rows, rule T(1))
  then show ?thesis using req inc no v F T(2) unfolding listing_def by (intro exI [of _ "projr ?m"]) simp
qed

lemma example_state: "pool_step\<^sup>*\<^sup>* [] example_pending" "identified example_tx_db" "length example_pending = 1"
proof -
  show "pool_step\<^sup>*\<^sup>* [] example_pending" unfolding example_pending_def by (rule r_into_rtranclp) (rule pool_step.load)
  show "identified example_tx_db" by (simp add: identified_def example_tx_db_def row_get_def)
  show "length example_pending = 1" by code_simp
qed

theorem merged_pages_witness:
  "\<exists>reply T. getTransactions example_tx_env (example_tx_request 0) example_pending example_tx_db = Inr reply \<and> tr_data reply = take 2 (example_pending @ T) \<and> length T = 2"
proof -
  obtain T where T: "listing example_tx_env (example_tx_request 0) example_pending example_tx_db 2 0 example_pending T" "map (\<lambda>tx. prop_of tx ''id'') T = [JString ''a1'', JString ''b2'']"
    using example_listing [of 0] by auto
  have "length T = 2" using arg_cong [OF T(2), of length] by simp
  then show ?thesis using merged_pages [OF T(1) example_state(1,2)] by auto
qed

text \<open>With one pending transaction, the second page of size 2 has one transaction, and the one after it is lost.\<close>

theorem later_pages_short_witness:
  "\<exists>reply T. getTransactions example_tx_env (example_tx_request 1) example_pending example_tx_db = Inr reply \<and> length T = 2 \<and> tr_data reply = take 1 T"
proof -
  obtain T where T: "listing example_tx_env (example_tx_request 1) example_pending example_tx_db 2 1 example_pending T" "map (\<lambda>tx. prop_of tx ''id'') T = [JString ''a1'', JString ''b2'']"
    using example_listing [of 1] by auto
  have "length T = 2" using arg_cong [OF T(2), of length] by simp
  then show ?thesis using later_pages_short [OF T(1) example_state(1,2)] example_state(3) by auto
qed

end
