(* ===== verification/Block_Queries.thy ===== *)
theory Block_Queries
  imports Transaction_Queries Validator_List
begin

text \<open>
  Blocks as a client sees them: a block of the node is completed with its generator, its counts and its sums (\<^verbatim>\<open>dataService/business/blocks.js\<close>), requests are answered from the index or
  directly by the node, and the last block is kept in a cache that other parts of the service read (\<^verbatim>\<open>dataService/blocks.js\<close>).
\<close>

section \<open>Blocks\<close>

record raw_block =
  rb_header :: object
  rb_transactions :: "object list"
  rb_assets :: "json list"

text \<open>
  The world outside: heights, the assets of the genesis block, the blocks of the node, and the names of validators in the cache. The events of a block are those of \<^verbatim>\<open>business/events.js\<close>, whose caches belong to the
  index of blocks.
\<close>

record bq_env =
  be_finalizedHeight :: "int result"
  be_genesisHeight :: "int result"
  be_genesisAssetsLength :: "object result"
  be_eventsByHeight :: "json \<Rightarrow> object list result"
  be_eventsByBlockID :: "json \<Rightarrow> object list result"
  be_validatorName :: "string \<Rightarrow> string option"
  be_lastBlock :: "raw_block result"
  be_blockByHeight :: "jsval \<Rightarrow> raw_block result"
  be_blockByID :: "string \<Rightarrow> raw_block result"
  be_blocksByIDs :: "jsval list \<Rightarrow> raw_block list result"

text \<open>The name of a validator; a name that is found is written to the table of accounts, and a failure of that is not noticed.\<close>

definition getNameByAddress :: "bq_env \<Rightarrow> json \<Rightarrow> db \<Rightarrow> json \<times> db" where
  "getNameByAddress env address d =
     (case address of
        JV (JStr a) \<Rightarrow>
          (case be_validatorName env a of
             Some name \<Rightarrow> if name = [] then (JV JNull, d)
               else (JString name, case upsert accountsTableSchema [[(''address'', JStr a), (''name'', JStr name)]] False d of Inr d' \<Rightarrow> d' | Inl _ \<Rightarrow> d)
           | None \<Rightarrow> (JV JNull, d))
      | _ \<Rightarrow> (JV JNull, d))"

definition block_generator :: "bq_env \<Rightarrow> object \<Rightarrow> db \<Rightarrow> (object \<times> db) result" where
  "block_generator env block d =
     (let address = prop_of block ''generatorAddress'' in
      if \<not> json_Boolean address then Inr (block, d)
      else bindR (getIndexedAccountInfo [(''address'', address_param address), (''limit'', PVal (JNum 1))] [''publicKey'', ''name''] d) (\<lambda>info.
           let (name, d') = (if json_Boolean (cell info ''name'') then (cell info ''name'', d) else getNameByAddress env address d)
           in Inr (AList.update ''generator'' (JObj [(''address'', address), (''publicKey'', cell info ''publicKey''), (''name'', name)]) block, d')))"

text \<open>The number of events and the reward of a block, from the index if it has the block\<close>

definition is_reward :: "object \<Rightarrow> bool" where
  "is_reward e \<longleftrightarrow> prop_of e ''module'' \<in> {JString ''reward'', JString ''dynamicReward''} \<and> prop_of e ''name'' = JString ''rewardMinted''"

definition events_and_reward :: "bq_env \<Rightarrow> bool \<Rightarrow> object \<Rightarrow> db \<Rightarrow> (json \<times> json) result" where
  "events_and_reward env isDeletedBlock block d =
     bindR (find_tbl blocksTableSchema [(''height'', address_param (prop_of block ''height'')), (''limit'', PVal (JNum 1))] (Some [''numberOfEvents'', ''reward'']) False d) (\<lambda>rows.
       case rows of
         r # _ \<Rightarrow> Inr (cell r ''numberOfEvents'', cell r ''reward'')
       | [] \<Rightarrow> bindR (if isDeletedBlock then be_eventsByBlockID env (prop_of block ''id'') else be_eventsByHeight env (prop_of block ''height'')) (\<lambda>events.
           bindR (case find is_reward events of Some e \<Rightarrow> json_get (prop_of e ''data'') ''amount'' | None \<Rightarrow> Inr (JV JNull)) (\<lambda>reward.
           Inr (JV (JNum (int (length events))), reward))))"

definition json_BigInt :: "json \<Rightarrow> int result" where
  "json_BigInt v = (case v of JV x \<Rightarrow> js_BigInt x | _ \<Rightarrow> Inl SyntaxError)"

text \<open>The sums over the transactions\<close>

record block_sums =
  sm_transactions :: "object list"
  sm_size :: jsval
  sm_totalForged :: int
  sm_totalBurnt :: int
  sm_networkFee :: int

definition add_size :: "jsval \<Rightarrow> json \<Rightarrow> jsval" where
  "add_size n v = (case (n, v) of (JNum a, JV (JNum b)) \<Rightarrow> JNum (a + b) | _ \<Rightarrow> JNaN)"

definition add_transaction :: "object \<Rightarrow> block_sums \<Rightarrow> block_sums result" where
  "add_transaction transaction s =
     (let txn = normalizeTransaction transaction in
      bindR (json_BigInt (prop_of txn ''fee'')) (\<lambda>fee. bindR (json_BigInt (prop_of txn ''minFee'')) (\<lambda>minFee.
        Inr \<lparr>sm_transactions = sm_transactions s @ [txn], sm_size = add_size (sm_size s) (prop_of txn ''size''), sm_totalForged = sm_totalForged s + fee,
             sm_totalBurnt = sm_totalBurnt s + minFee, sm_networkFee = sm_networkFee s + (fee - minFee)\<rparr>)))"

definition block_height :: "object \<Rightarrow> int option" where
  "block_height block = (case prop_of block ''height'' of JV (JNum h) \<Rightarrow> Some h | _ \<Rightarrow> None)"

definition number_of_assets :: "bq_env \<Rightarrow> object \<Rightarrow> json list \<Rightarrow> int result" where
  "number_of_assets env block assets =
     bindR (be_genesisHeight env) (\<lambda>genesis.
       if prop_of block ''height'' \<noteq> JV (JNum genesis) then Inr (int (length assets))
       else bindR (be_genesisAssetsLength env) (\<lambda>response. Inr (int (length response))))"

definition normalizeBlock :: "bq_env \<Rightarrow> bool \<Rightarrow> raw_block \<Rightarrow> db \<Rightarrow> (object \<times> db) result" where
  "normalizeBlock env isDeletedBlock originalBlock d =
     (let block = AList.update ''assets'' (JArr (rb_assets originalBlock)) (AList.update ''transactions'' (JArr (map JObj (rb_transactions originalBlock))) (rb_header originalBlock)) in
      bindR (block_generator env block d) (\<lambda>(block, d').
      bindR (be_finalizedHeight env) (\<lambda>finalized.
      bindR (number_of_assets env block (rb_assets originalBlock)) (\<lambda>numberOfAssets.
      bindR (events_and_reward env isDeletedBlock block d') (\<lambda>(numberOfEvents, reward).
      bindR (json_BigInt (json_or reward (JString ''0''))) (\<lambda>forged.
      bindR (foldR add_transaction (rb_transactions originalBlock) \<lparr>sm_transactions = [], sm_size = JNum 0, sm_totalForged = forged, sm_totalBurnt = 0, sm_networkFee = 0\<rparr>) (\<lambda>s.
      Inr (compat_object (AList.update ''transactions'' (JArr (map JObj (sm_transactions s)))
            (AList.update ''networkFee'' (JV (JBig (sm_networkFee s))) (AList.update ''totalBurnt'' (JV (JBig (sm_totalBurnt s))) (AList.update ''totalForged'' (JV (JBig (sm_totalForged s)))
            (AList.update ''reward'' reward (AList.update ''size'' (JV (sm_size s)) (AList.update ''numberOfEvents'' numberOfEvents
            (AList.update ''numberOfAssets'' (JV (JNum numberOfAssets)) (AList.update ''numberOfTransactions'' (JV (JNum (int (length (rb_transactions originalBlock)))))
            (AList.update ''isFinal'' (JV (JBool (case block_height block of Some h \<Rightarrow> h \<le> finalized | None \<Rightarrow> False))) block)))))))))), d'))))))))"

definition normalizeBlocks :: "bq_env \<Rightarrow> raw_block list \<Rightarrow> db \<Rightarrow> (object list \<times> db) result" where
  "normalizeBlocks env blocks d = foldR (\<lambda>b (acc, d). bindR (normalizeBlock env False b d) (\<lambda>(block, d'). Inr (acc @ [block], d'))) blocks ([], d)"

section \<open>Requests to the index or to the node\<close>

text \<open>The caches of the service: the last block, and the latest block that the node was asked for\<close>

record bq_state =
  bs_db :: db
  bs_lastBlock :: "object option"
  bs_latestBlock :: "object option"

definition business_getLastBlock :: "bq_env \<Rightarrow> bq_state \<Rightarrow> (object \<times> bq_state) result" where
  "business_getLastBlock env st =
     bindR (be_lastBlock env) (\<lambda>response. bindR (normalizeBlock env False response (bs_db st)) (\<lambda>(block, d').
       Inr (block, st\<lparr>bs_db := d', bs_latestBlock := if json_Boolean (prop_of block ''id'') then Some block else bs_latestBlock st\<rparr>)))"

definition getBlock :: "raw_block result \<Rightarrow> bq_env \<Rightarrow> bq_state \<Rightarrow> (object \<times> bq_state) result" where
  "getBlock answer env st = bindR answer (\<lambda>response. bindR (normalizeBlock env False response (bs_db st)) (\<lambda>(block, d'). Inr (block, st\<lparr>bs_db := d'\<rparr>)))"

definition getBlocksByIDs :: "jsval list \<Rightarrow> bq_env \<Rightarrow> bq_state \<Rightarrow> (object list \<times> bq_state) result" where
  "getBlocksByIDs ids env st = bindR (be_blocksByIDs env ids) (\<lambda>response. bindR (normalizeBlocks env response (bs_db st)) (\<lambda>(blocks, d'). Inr (blocks, st\<lparr>bs_db := d'\<rparr>)))"

definition isQueryFromIndex :: "params \<Rightarrow> bool" where
  "isQueryFromIndex ps =
     (let paramProps = map fst ps;
          directQueryParams = [''id'', ''height'', ''heightBetween''];
          defaultQueryParams = [''limit'', ''offset'', ''sort''];
          isDirectQuery = (length (filter (\<lambda>p. p \<in> set directQueryParams) paramProps) = 1 \<and> list_all (\<lambda>p. p \<in> set (directQueryParams @ defaultQueryParams)) paramProps);
          one = (map_of ps ''limit'' = Some (PVal (JNum 1)));
          zero = (map_of ps ''offset'' = Some (PVal (JNum 0)));
          desc = (case string_param ps ''sort'' of Some s \<Rightarrow> (case split_at (CHR '':'') s of _ # ord # _ \<Rightarrow> ord = ''desc'' | _ \<Rightarrow> False) | None \<Rightarrow> False);
          isLatestBlockFetch = ((length paramProps = 1 \<and> one) \<or> (length paramProps = 2 \<and> ((one \<and> zero) \<or> (desc \<and> (one \<or> zero)))) \<or> (length paramProps = 3 \<and> one \<and> zero \<and> desc))
      in \<not> isDirectQuery \<and> \<not> isLatestBlockFetch)"

definition mentions :: "string \<Rightarrow> string \<Rightarrow> bool" where
  "mentions s sub \<longleftrightarrow> list_ex (\<lambda>i. take (length sub) (drop i s) = sub) [0..<Suc (length s)]"

definition message_of :: "js_error \<Rightarrow> string" where
  "message_of e = (case e of Error m \<Rightarrow> m | SqlError m \<Rightarrow> m | _ \<Rightarrow> [])"

definition block_params :: "params \<Rightarrow> params result" where
  "block_params request =
     (let ps = (case string_param request ''blockID'' of Some b \<Rightarrow> with_param ''id'' (PVal (JStr b)) (without_param ''blockID'' request) | None \<Rightarrow> request)
      in bindR (range_param ps ''height'') (\<lambda>ps. range_param ps ''timestamp''))"

text \<open>\<^verbatim>\<open>if ('offset' in params && params.limit) data.slice(params.offset, params.offset + params.limit)\<close>\<close>

definition slice_page :: "params \<Rightarrow> 'a list \<Rightarrow> 'a list" where
  "slice_page ps xs = (case (int_param ps ''offset'', int_param ps ''limit'') of (Some off, Some l) \<Rightarrow> if l \<noteq> 0 then js_slice off (off + l) xs else xs | _ \<Rightarrow> xs)"

definition fetch_blocks :: "bq_env \<Rightarrow> params \<Rightarrow> jsval list option \<Rightarrow> bq_state \<Rightarrow> (object list \<times> bq_state) result" where
  "fetch_blocks env ps ids st =
     (case ids of
        Some is \<Rightarrow> if is = [] then Inr ([], st) else getBlocksByIDs is env st
      | None \<Rightarrow>
          (case string_param ps ''id'' of
             Some i \<Rightarrow> bindR (getBlock (be_blockByID env i) env st) (\<lambda>(b, st'). Inr (slice_page ps [b], st'))
           | None \<Rightarrow> if truthy_param ps ''height''
               then bindR (getBlock (be_blockByHeight env (case param_json ps ''height'' of JV v \<Rightarrow> js_Number v | _ \<Rightarrow> JNaN)) env st) (\<lambda>(b, st'). Inr (slice_page ps [b], st'))
               else bindR (business_getLastBlock env st) (\<lambda>(b, st'). Inr ([b], st'))))"

definition business_getBlocks :: "bq_env \<Rightarrow> params \<Rightarrow> bq_state \<Rightarrow> (tx_reply \<times> bq_state) result" where
  "business_getBlocks env request st =
     bindR (block_params request) (\<lambda>ps.
     bindR (count_rows blocksTableSchema ps (bs_db st)) (\<lambda>n.
     bindR (if isQueryFromIndex ps then bindR (find_tbl blocksTableSchema ps (Some [''id'']) False (bs_db st)) (\<lambda>rows. Inr (Some (map (\<lambda>r. row_get r ''id'') rows))) else Inr None) (\<lambda>ids.
     bindR (case fetch_blocks env ps ids st of Inl e \<Rightarrow> if mentions (message_of e) ''does not exist'' then Inr ([], st) else Inl e | Inr r \<Rightarrow> Inr r) (\<lambda>(data, st').
     Inr (\<lparr>tr_data = data, tr_meta = [(''count'', JV (JNum (int (length data)))), (''offset'', param_json ps ''offset''), (''total'', JV (JNum n))]\<rparr>, st')))))"

definition filterBlockAssets :: "string list \<Rightarrow> object list \<Rightarrow> object list" where
  "filterBlockAssets modules assets = (if modules \<noteq> [] then filter (\<lambda>a. json_String (prop_of a ''module'') \<in> set modules) assets else assets)"

section \<open>The last block\<close>

definition setLastBlock :: "object \<Rightarrow> bq_state \<Rightarrow> bq_state" where
  "setLastBlock block st = st\<lparr>bs_lastBlock := Some block\<rparr>"

definition getLastBlock :: "bq_state \<Rightarrow> object" where
  "getLastBlock st = (case bs_lastBlock st of Some b \<Rightarrow> b | None \<Rightarrow> [])"

definition getTotalNumberOfBlocks :: "bq_env \<Rightarrow> bq_state \<Rightarrow> jsval result" where
  "getTotalNumberOfBlocks env st = bindR (be_genesisHeight env) (\<lambda>genesis. Inr (case block_height (getLastBlock st) of Some h \<Rightarrow> JNum (h - genesis + 1) | None \<Rightarrow> JNaN))"

text \<open>Every block of an answer is written to the cache, one after the other.\<close>

definition getBlocksFromServer :: "bq_env \<Rightarrow> params \<Rightarrow> bq_state \<Rightarrow> (tx_reply \<times> bq_state) result" where
  "getBlocksFromServer env ps st = bindR (business_getBlocks env ps st) (\<lambda>(response, st'). Inr (response, fold setLastBlock (tr_data response) st'))"

definition getBlocksTotal :: "bq_env \<Rightarrow> params \<Rightarrow> tx_reply \<Rightarrow> bq_state \<Rightarrow> json result" where
  "getBlocksTotal env ps blocksResponse st =
     (let ranged = (\<lambda>k. case string_param ps k of Some s \<Rightarrow> CHR '':'' \<in> set s | None \<Rightarrow> False);
          counted = JV (JNum (int (length (tr_data blocksResponse)))) in
      if truthy_param ps ''generatorAddress'' then Inr (case map_of (tr_meta blocksResponse) ''total'' of Some t \<Rightarrow> t | None \<Rightarrow> JV JNull)
      else if truthy_param ps ''blockID'' \<or> (case param_json ps ''height'' of JV v \<Rightarrow> js_Number v \<noteq> JNaN | _ \<Rightarrow> False) then Inr counted
      else if ranged ''height'' \<or> ranged ''timestamp'' then Inr (prop_of (tr_meta blocksResponse) ''total'')
      else bindR (getTotalNumberOfBlocks env st) (\<lambda>n. Inr (json_or (JV n) counted)))"

definition business_formatBlock :: "bq_env \<Rightarrow> raw_block \<Rightarrow> bool \<Rightarrow> bq_state \<Rightarrow> (object \<times> bq_state) result" where
  "business_formatBlock env block isDeletedBlock st = bindR (normalizeBlock env isDeletedBlock block (bs_db st)) (\<lambda>(b, d'). Inr (b, st\<lparr>bs_db := d'\<rparr>))"

text \<open>A block that arrives may lack transactions and assets, which are then empty.\<close>

definition formatBlock :: "bq_env \<Rightarrow> raw_block \<Rightarrow> bool \<Rightarrow> bq_state \<Rightarrow> (tx_reply \<times> bq_state) result" where
  "formatBlock env blockInfo isDeletedBlock st =
     bindR (business_formatBlock env blockInfo isDeletedBlock st) (\<lambda>(b, st').
       let response = \<lparr>tr_data = [b], tr_meta = []\<rparr> in
       bindR (getBlocksTotal env [] response st') (\<lambda>n. Inr (\<lparr>tr_data = [b], tr_meta = [(''count'', JV (JNum 1)), (''offset'', JV (JNum 0)), (''total'', n)]\<rparr>, st')))"

definition getBlocks :: "bq_env \<Rightarrow> params \<Rightarrow> bq_state \<Rightarrow> (tx_reply \<times> bq_state) result" where
  "getBlocks env ps st =
     bindR (getBlocksFromServer env ps st) (\<lambda>(response, st').
     bindR (getBlocksTotal env ps response st') (\<lambda>n.
       Inr (\<lparr>tr_data = tr_data response, tr_meta = [(''count'', JV (JNum (int (length (tr_data response))))), (''offset'', JV (JNum (case param_json ps ''offset'' of JV v \<Rightarrow> (case js_parseInt (js_String v) of JNum i \<Rightarrow> i | _ \<Rightarrow> 0) | _ \<Rightarrow> 0))), (''total'', n)]\<rparr>, st')))"

definition performLastBlockUpdate :: "object \<Rightarrow> bq_state \<Rightarrow> bq_state" where
  "performLastBlockUpdate newBlock st = setLastBlock newBlock st"

section \<open>Sums\<close>

definition compat_property :: "json \<Rightarrow> json" where
  "compat_property v = (case v of JV (JBig n) \<Rightarrow> JString (show_int n) | _ \<Rightarrow> parseToJSONCompatObj v)"

lemma prop_of_compat: "prop_of (compat_object obj) k = (case map_of obj k of Some v \<Rightarrow> compat_property v | None \<Rightarrow> JUndef)"
proof -
  have "compat_object obj = map (\<lambda>kv. (fst kv, compat_property (snd kv))) obj" by (simp add: compat_object_def compat_property_def)
  then show ?thesis by (simp only: prop_of_map_fst)
qed

lemma compat_property_simps [simp]:
  "compat_property (JV (JBig n)) = JString (show_int n)" "compat_property (JV (JNum n)) = JV (JNum n)" "compat_property (JString t) = JString t" "compat_property (JV JNull) = JV JNull"
  by (simp_all add: compat_property_def)

lemma fold_sums:
  assumes "foldR add_transaction txs s0 = Inr s"
  shows "sm_totalForged s - sm_totalForged s0 = (sm_totalBurnt s - sm_totalBurnt s0) + (sm_networkFee s - sm_networkFee s0)"
  using assms
proof (induction txs arbitrary: s0)
  case (Cons tx txs)
  then obtain s1 where 1: "add_transaction tx s0 = Inr s1" "foldR add_transaction txs s1 = Inr s" by (auto simp: bindR_eq_Inr)
  have "sm_totalForged s1 - sm_totalForged s0 = (sm_totalBurnt s1 - sm_totalBurnt s0) + (sm_networkFee s1 - sm_networkFee s0)"
    using 1(1) by (auto simp: add_transaction_def Let_def bindR_eq_Inr)
  then show ?case using Cons.IH [OF 1(2)] by linarith
qed simp

text \<open>A reward counts the same before and after the block is made printable.\<close>

lemma reward_printed:
  assumes "json_BigInt (json_or reward (JString ''0'')) = Inr r" "map_of obj ''reward'' = Some reward"
  shows "json_BigInt (json_or (prop_of (compat_object obj) ''reward'') (JString ''0'')) = Inr r"
proof (cases "\<exists>n. reward = JV (JBig n)")
  case True
  then obtain n where n: "reward = JV (JBig n)" by blast
  then have "r = n" using assms(1) by (cases "n = 0") (auto simp: json_or_def json_Boolean_def json_BigInt_def parse_int_def is_digit_def digits_val_def digit_val_def)
  then show ?thesis using n assms(2) show_int_nonempty [of n] by (simp add: prop_of_compat json_or_def json_Boolean_def json_BigInt_def)
next
  case False
  then have "prop_of (compat_object obj) ''reward'' = parseToJSONCompatObj reward" using assms(2) by (auto simp: prop_of_compat compat_property_def split: json.splits jsval.splits)
  moreover have "\<exists>x. reward = JV x" using assms(1) by (cases reward) (auto simp: json_or_def json_Boolean_def json_BigInt_def)
  ultimately show ?thesis using False assms(1) by (auto split: jsval.splits)
qed


section \<open>What a request does to the last block\<close>

lemma last_of_writes: "bs_lastBlock (fold setLastBlock bs st) = (if bs = [] then bs_lastBlock st else Some (last bs))"
  by (induction bs arbitrary: st) (auto simp: setLastBlock_def)

lemma getBlocks_last:
  assumes "getBlocks env ps st = Inr (reply, st')" "tr_data reply \<noteq> []"
  shows "getLastBlock st' = last (tr_data reply)"
  using assms by (auto simp: getBlocks_def getBlocksFromServer_def bindR_eq_Inr getLastBlock_def last_of_writes)

text \<open>A new block is the last block until the next request for blocks.\<close>

lemma performed_update_is_last: "getLastBlock (performLastBlockUpdate block st) = block"
  by (simp add: performLastBlockUpdate_def setLastBlock_def getLastBlock_def)


text \<open>
  The list of validators takes the height of the last block to decide who is punished: \<^verbatim>\<open>computeValidatorStatus\<close> in \<^verbatim>\<open>dataService/pos/validators.js\<close> reads the same cache.
\<close>

definition at_last_block :: "validator_env \<Rightarrow> bq_state \<Rightarrow> validator_env" where
  "at_last_block venv st = venv\<lparr>latest_height := block_height (getLastBlock st)\<rparr>"

text \<open>
  A request for an old block lifts a punishment: a validator that is punished at the head of the chain gets another status once any client has asked for a block outside the period.
\<close>

theorem old_block_lifts_punishment:
  assumes "\<not> pv_isBanned v" and "list_ex (in_period (block_height (getLastBlock st))) (punishmentPeriods v)"
    and "getBlocks env ps st = Inr (reply, st')" and "tr_data reply \<noteq> []" and "block_height (last (tr_data reply)) = Some h" and "\<not> list_ex (in_period (Some h)) (punishmentPeriods v)"
  shows "validator_status (at_last_block venv st) active standby v = ''punished'' \<and> validator_status (at_last_block venv st') active standby v \<noteq> ''punished''"
  using assms getBlocks_last [OF assms(3,4)] by (simp add: validator_status_def at_last_block_def)

section \<open>Examples\<close>

definition example_raw :: "jsval \<Rightarrow> int \<Rightarrow> raw_block" where
  "example_raw i h = \<lparr>rb_header = [(''id'', JV i), (''height'', JV (JNum h))], rb_transactions = [[(''id'', JString ''t''), (''fee'', JString ''30''), (''minFee'', JString ''20''), (''size'', JV (JNum 5))]], rb_assets = []\<rparr>"

definition example_bq_env :: bq_env where
  "example_bq_env = \<lparr>be_finalizedHeight = Inr 5, be_genesisHeight = Inr 0, be_genesisAssetsLength = Inr [], be_eventsByHeight = (\<lambda>_. Inr []), be_eventsByBlockID = (\<lambda>_. Inr []), be_validatorName = (\<lambda>_. None),
     be_lastBlock = Inr (example_raw (JStr ''b11'') 11), be_blockByHeight = (\<lambda>_. Inl TypeError), be_blockByID = (\<lambda>_. Inl TypeError),
     be_blocksByIDs = (\<lambda>ids. Inr (map (\<lambda>i. example_raw i (if i = JStr ''b11'' then 11 else 10)) ids))\<rparr>"

definition example_bq_state :: bq_state where
  "example_bq_state = \<lparr>bs_db = \<lparr>committed = (\<lambda>t. if t = ''blocks'' then [[(''id'', JStr ''b11''), (''height'', JNum 11), (''numberOfEvents'', JNum 2), (''reward'', JBig 7)], [(''id'', JStr ''b10''), (''height'', JNum 10), (''numberOfEvents'', JNum 2), (''reward'', JBig 7)]] else []), working = (\<lambda>_. [])\<rparr>,
     bs_lastBlock = Some [(''height'', JV (JNum 11))], bs_latestBlock = None\<rparr>"

definition example_second_page :: params where
  "example_second_page = [(''limit'', PVal (JNum 1)), (''offset'', PVal (JNum 1)), (''sort'', PVal (JStr ''height:desc''))]"

lemma example_query:
  "block_params example_second_page = Inr example_second_page" "isQueryFromIndex example_second_page" "count_rows blocksTableSchema example_second_page (bs_db example_bq_state) = Inr 2"
  "find_tbl blocksTableSchema example_second_page (Some [''id'']) False (bs_db example_bq_state) = Inr [[(''id'', JStr ''b10''), (''height'', JNum 10)]]"
  by code_simp+

lemma example_second_block:
  obtains reply st' where "getBlocks example_bq_env example_second_page example_bq_state = Inr (reply, st')" "tr_data reply \<noteq> []" "block_height (last (tr_data reply)) = Some 10"
proof -
  have "case normalizeBlock example_bq_env False (example_raw (JStr ''b10'') 10) (bs_db example_bq_state) of Inr (block, d') \<Rightarrow> block_height block = Some 10 | Inl _ \<Rightarrow> False" by code_simp
  then obtain block d' where b: "normalizeBlock example_bq_env False (example_raw (JStr ''b10'') 10) (bs_db example_bq_state) = Inr (block, d')" "block_height block = Some 10" by (auto split: sum.splits)
  have i: "be_blocksByIDs example_bq_env [JStr ''b10''] = Inr [example_raw (JStr ''b10'') 10]" "be_genesisHeight example_bq_env = Inr 0" by (simp_all add: example_bq_env_def)
  have none: "map_of example_second_page k = None" if "k \<in> {''generatorAddress'', ''blockID'', ''height'', ''timestamp''}" for k using that by (auto simp: example_second_page_def)
  have "\<exists>m. business_getBlocks example_bq_env example_second_page example_bq_state = Inr (\<lparr>tr_data = [block], tr_meta = m\<rparr>, example_bq_state\<lparr>bs_db := d'\<rparr>)"
    by (simp add: business_getBlocks_def example_query fetch_blocks_def getBlocksByIDs_def normalizeBlocks_def row_get_def i b)
  then obtain m where "business_getBlocks example_bq_env example_second_page example_bq_state = Inr (\<lparr>tr_data = [block], tr_meta = m\<rparr>, example_bq_state\<lparr>bs_db := d'\<rparr>)" by blast
  then show thesis using that b(2)
    by (simp add: getBlocks_def getBlocksFromServer_def getBlocksTotal_def Let_def truthy_param_def string_param_def param_json_def none getTotalNumberOfBlocks_def i)
qed



definition example_punished :: pos_validator where
  "example_punished = \<lparr>pv_address = ''v'', pv_name = ''v'', pv_isBanned = False, totalStake = JBig 50, selfStake = JBig 6, punishmentPeriods = [(JNum 11, JNum 20)], reportMisbehaviorHeights = [], validatorWeight = 50,
     pv_publicKey = JNull, pv_rank = None, pv_status = None, pv_generatedBlocks = JUndefined, pv_rewards = JUndefined, pv_commission = JNum 100\<rparr>"

theorem old_block_lifts_punishment_witness:
  "\<exists>reply st'. getBlocks example_bq_env example_second_page example_bq_state = Inr (reply, st') \<and> validator_status (at_last_block example_validator_env example_bq_state) [''v''] [] example_punished = ''punished''
    \<and> validator_status (at_last_block example_validator_env st') [''v''] [] example_punished \<noteq> ''punished''"
proof -
  obtain reply st' where r: "getBlocks example_bq_env example_second_page example_bq_state = Inr (reply, st')" "tr_data reply \<noteq> []" "block_height (last (tr_data reply)) = Some 10" by (rule example_second_block)
  have h: "block_height (getLastBlock example_bq_state) = Some 11" by code_simp
  have p: "list_ex (in_period (block_height (getLastBlock example_bq_state))) (punishmentPeriods example_punished)" "\<not> list_ex (in_period (Some 10)) (punishmentPeriods example_punished)"
    "\<not> pv_isBanned example_punished" by (simp_all add: h example_punished_def in_period_def)
  show ?thesis using old_block_lifts_punishment [OF p(3,1) r p(2), of example_validator_env "[''v'']" "[]"] r(1) by auto
qed

end
