(* ===== verification/Pos_Queries.thy ===== *)
theory Pos_Queries
  imports Block_Queries
begin

text \<open>
  Requests about validators and stakes: the list of validators with its filters, its order and its pages (\<^verbatim>\<open>dataService/pos/validators.js\<close>), the stakers of a validator, and the stakes that are waiting to be unlocked
  (\<^verbatim>\<open>dataService/business/pos/stakers.js\<close> and \<^verbatim>\<open>unlocks.js\<close>).
\<close>

section \<open>Sorting by a property\<close>

text \<open>\<^verbatim>\<open>Array.prototype.sort\<close> with a comparator that may throw\<close>

fun js_insertR :: "('a \<Rightarrow> 'a \<Rightarrow> int result) \<Rightarrow> 'a \<Rightarrow> 'a list \<Rightarrow> 'a list result" where
  "js_insertR cmp x [] = Inr [x]"
| "js_insertR cmp x (y # ys) = bindR (cmp x y) (\<lambda>c. if c \<le> 0 then Inr (x # y # ys) else bindR (js_insertR cmp x ys) (\<lambda>zs. Inr (y # zs)))"

fun js_sortR :: "('a \<Rightarrow> 'a \<Rightarrow> int result) \<Rightarrow> 'a list \<Rightarrow> 'a list result" where
  "js_sortR cmp [] = Inr []"
| "js_sortR cmp (x # xs) = bindR (js_sortR cmp xs) (js_insertR cmp x)"

lemma js_insertR_total:
  assumes "\<And>y. y \<in> set ys \<Longrightarrow> cmp x y = Inr (c x y)"
  shows "js_insertR cmp x ys = Inr (js_insert c x ys)"
  using assms by (induction ys) auto

lemma js_sortR_total:
  assumes "\<And>x y. x \<in> set xs \<Longrightarrow> y \<in> set xs \<Longrightarrow> cmp x y = Inr (c x y)"
  shows "js_sortR cmp xs = Inr (js_sort c xs)"
  using assms
proof (induction xs)
  case (Cons x xs)
  have "js_sortR cmp xs = Inr (js_sort c xs)" using Cons by simp
  moreover have "js_insertR cmp x (js_sort c xs) = Inr (js_insert c x (js_sort c xs))" using Cons.prems by (intro js_insertR_total) simp
  ultimately show ?case by (simp add: js_sort_def)
qed (simp add: js_sort_def)

text \<open>\<^verbatim>\<open>a - b\<close>: \<open>None\<close> is \<^verbatim>\<open>NaN\<close>; a big integer is subtracted from a big integer only.\<close>

definition subtract :: "jsval \<Rightarrow> jsval \<Rightarrow> int option result" where
  "subtract a b = (case (a, b) of
     (JBig m, JBig n) \<Rightarrow> Inr (Some (m - n)) | (JBig _, _) \<Rightarrow> Inl TypeError | (_, JBig _) \<Rightarrow> Inl TypeError
   | _ \<Rightarrow> (case (js_Number a, js_Number b) of (JNum m, JNum n) \<Rightarrow> Inr (Some (m - n)) | _ \<Rightarrow> Inr None))"

text \<open>
  \<^verbatim>\<open>sortComparator\<close>: numbers first, strings when the first value is no number; \<^verbatim>\<open>sort\<close> takes \<^verbatim>\<open>NaN\<close> as 0. \<open>loc\<close> is \<^verbatim>\<open>localeCompare\<close>.
\<close>

definition sortComparator :: "(string \<Rightarrow> string \<Rightarrow> int) \<Rightarrow> bool \<Rightarrow> ('a \<Rightarrow> jsval) \<Rightarrow> 'a \<Rightarrow> 'a \<Rightarrow> int result" where
  "sortComparator loc asc property a b =
     (case (if js_Number (property a) = JNaN then Inl TypeError else if asc then subtract (property a) (property b) else subtract (property b) (property a)) of
        Inr d \<Rightarrow> Inr (case d of Some n \<Rightarrow> n | None \<Rightarrow> 0)
      | Inl _ \<Rightarrow> (case (property a, property b) of (JStr s, JStr t) \<Rightarrow> Inr (if asc then loc s t else loc t s) | _ \<Rightarrow> Inl TypeError))"

text \<open>By a property that is a number or a big integer everywhere, the comparator is a difference, and sorting with it sorts.\<close>

lemma numeric_comparator:
  assumes "(property a = JNum (f a) \<and> property b = JNum (f b)) \<or> (property a = JBig (f a) \<and> property b = JBig (f b))"
  shows "sortComparator loc asc property a b = Inr (if asc then f a - f b else f b - f a)"
  using assms by (auto simp: sortComparator_def subtract_def)

interpretation numeric_order: consistent_comparator "\<lambda>a b. if asc then f a - f b else f b - f a" for asc :: bool and f :: "'a \<Rightarrow> int"
  by unfold_locales (auto split: if_splits)

section \<open>The list of validators\<close>

record listed_validator = pos_validator +
  lv_generatedBlocks :: jsval
  lv_totalCommission :: jsval
  lv_totalSelfStakeRewards :: jsval
  lv_earnedRewards :: jsval

definition validator_prop :: "string \<Rightarrow> 'a pos_validator_scheme \<Rightarrow> jsval" where
  "validator_prop p v =
     (if p = ''name'' then JStr (pv_name v) else if p = ''commission'' then pv_commission v else if p = ''validatorWeight'' then JBig (validatorWeight v)
      else if p = ''rank'' then (case pv_rank v of Some n \<Rightarrow> JNum (int n) | None \<Rightarrow> JUndefined) else JUndefined)"

text \<open>\<^verbatim>\<open>isSubstringInArray\<close> on the name, the address and the public key\<close>

definition lowercase :: "string \<Rightarrow> string" where
  "lowercase s = map (\<lambda>c. let n = (of_char c :: nat) in if 65 \<le> n \<and> n \<le> 90 then char_of (n + 32) else c) s"

definition isSubstringInArray :: "jsval list \<Rightarrow> string \<Rightarrow> bool" where
  "isSubstringInArray collection pattern \<longleftrightarrow> list_ex (\<lambda>item. case item of JStr s \<Rightarrow> s \<noteq> [] \<and> pattern \<noteq> [] \<and> mentions (lowercase s) (lowercase pattern) | _ \<Rightarrow> False) collection"

definition csv_values :: "params \<Rightarrow> string \<Rightarrow> string list" where
  "csv_values ps k = (case string_param ps k of Some s \<Rightarrow> split_at (CHR '','') s | None \<Rightarrow> [])"

definition validator_matches :: "params \<Rightarrow> pos_validator \<Rightarrow> bool" where
  "validator_matches ps v \<longleftrightarrow>
     (csv_values ps ''address'' = [] \<or> pv_address v \<in> set (csv_values ps ''address''))
   \<and> (csv_values ps ''name'' = [] \<or> pv_name v \<in> set (csv_values ps ''name''))
   \<and> (csv_values ps ''status'' = [] \<or> (\<exists>s. pv_status v = Some s \<and> s \<in> set (csv_values ps ''status'')))
   \<and> (case string_param ps ''search'' of Some s \<Rightarrow> isSubstringInArray [JStr (pv_name v), JStr (pv_address v), pv_publicKey v] s | None \<Rightarrow> True)"

text \<open>The sum of two columns of one type; a default is stored as a number, a sum as a big integer.\<close>

definition add_values :: "jsval \<Rightarrow> jsval \<Rightarrow> jsval result" where
  "add_values a b = (case (a, b) of (JBig m, JBig n) \<Rightarrow> Inr (JBig (m + n)) | (JBig m, JNum n) \<Rightarrow> Inr (JBig (m + n)) | (JNum m, JBig n) \<Rightarrow> Inr (JBig (m + n)) | (JNum m, JNum n) \<Rightarrow> Inr (JNum (m + n)) | _ \<Rightarrow> Inl TypeError)"

definition describe_validator :: "db \<Rightarrow> pos_validator \<Rightarrow> listed_validator result" where
  "describe_validator d v =
     bindR (find_tbl validatorsTableSchema [(''address'', PVal (JStr (pv_address v))), (''limit'', PVal (JNum 1))] (Some [''generatedBlocks'', ''totalCommission'', ''totalSelfStakeRewards'']) False d) (\<lambda>rows.
       let (blocks, commission, rewards) = (case rows of r # _ \<Rightarrow> (row_get r ''generatedBlocks'', row_get r ''totalCommission'', row_get r ''totalSelfStakeRewards'') | [] \<Rightarrow> (JNum 0, JBig 0, JBig 0))
       in bindR (add_values commission rewards) (\<lambda>earned.
            Inr (pos_validator.extend v \<lparr>lv_generatedBlocks = blocks, lv_totalCommission = commission, lv_totalSelfStakeRewards = rewards, lv_earnedRewards = earned\<rparr>)))"

record 'a page_reply =
  pg_data :: "'a list"
  pg_count :: nat
  pg_offset :: int
  pg_total :: int

definition no_page :: "'a page_reply" where
  "no_page = \<lparr>pg_data = [], pg_count = 0, pg_offset = 0, pg_total = 0\<rparr>"

text \<open>The filters of a request; with a public key that belongs to another address there is nothing to list.\<close>

definition validator_request :: "validator_env \<Rightarrow> params \<Rightarrow> params option" where
  "validator_request env ps = (case string_param ps ''publicKey'' of
     None \<Rightarrow> Some ps
   | Some pk \<Rightarrow> let a = publicKey_to_address env pk in
       if csv_values ps ''address'' \<noteq> [] \<and> a \<notin> set (csv_values ps ''address'') then None else Some (with_param ''address'' (PVal (JStr a)) ps))"

definition sort_request :: "params \<Rightarrow> (string \<times> bool) result" where
  "sort_request ps = (case string_param ps ''sort'' of Some s \<Rightarrow> (case split_at (CHR '':'') s of p # ord # _ \<Rightarrow> Inr (p, ord = ''asc'') | p # [] \<Rightarrow> Inr (p, False) | [] \<Rightarrow> Inl TypeError) | None \<Rightarrow> Inl TypeError)"

definition getPosValidators :: "validator_env \<Rightarrow> (string \<Rightarrow> string \<Rightarrow> int) \<Rightarrow> params \<Rightarrow> db \<Rightarrow> pos_validator list \<Rightarrow> (listed_validator page_reply \<times> pos_validator list) result" where
  "getPosValidators env loc request d validatorList =
     (case validator_request env request of
        None \<Rightarrow> Inr (no_page, validatorList)
      | Some ps \<Rightarrow>
          bindR (getAllValidators env validatorList) (\<lambda>allValidators.
          bindR (mapR (describe_validator d) (filter (validator_matches ps) allValidators)) (\<lambda>data.
          let validatorList' = (if list_all (\<lambda>v. pv_rank v = None) data then computeValidatorRank env allValidators else allValidators) in
          bindR (sort_request ps) (\<lambda>(p, asc).
          bindR (js_sortR (sortComparator loc asc (validator_prop p)) data) (\<lambda>sorted.
          let off = number_or ps ''offset'' 0; page = js_slice off (off + number_or ps ''limit'' 0) sorted
          in Inr (\<lparr>pg_data = page, pg_count = length page, pg_offset = off, pg_total = int (length data)\<rparr>, validatorList'))))))"

section \<open>Stakers\<close>

record pq_env =
  pe_address :: "string \<Rightarrow> string"
  pe_addressByName :: "string \<Rightarrow> string option"
  pe_pendingUnlocks :: "string \<Rightarrow> object list result"
  pe_lastBlock :: "(int \<times> int) result"
  pe_blockTime :: int
  pe_posTokenID :: "string result"

text \<open>The validator that is asked for: a public key overrides an address, a name overrides both; \<open>None\<close> is \<^verbatim>\<open>undefined\<close>. The second component is what the answer says about it.\<close>

definition stakers_validator :: "pq_env \<Rightarrow> params \<Rightarrow> db \<Rightarrow> (string option \<times> object) result" where
  "stakers_validator env ps d =
     (let (v1, m1) = (case string_param ps ''address'' of Some a \<Rightarrow> (Some a, [(''address'', JString a)]) | None \<Rightarrow> (string_param ps ''validatorAddress'', []));
          (v2, m2) = (case string_param ps ''publicKey'' of Some pk \<Rightarrow> (Some (pe_address env pk), AList.update ''publicKey'' (JString pk) (AList.update ''address'' (JString (pe_address env pk)) m1)) | None \<Rightarrow> (v1, m1))
      in case string_param ps ''name'' of
           Some name \<Rightarrow> bindR (getIndexedAccountInfo [(''name'', PVal (JStr name))] [''address''] d) (\<lambda>account.
             Inr (case cell account ''address'' of JV (JStr a) \<Rightarrow> Some a | _ \<Rightarrow> None, AList.update ''name'' (JString name) m2))
         | None \<Rightarrow> Inr (v2, m2))"

definition search_accounts :: "string \<Rightarrow> db \<Rightarrow> (string \<times> jsval) list result" where
  "search_accounts search d =
     bindR (find_tbl accountsTableSchema [(''orSearch'', PSearch [search_for ''name'' search, search_for ''address'' search, search_for ''publicKey'' search])] (Some [''name'', ''address'']) False d) (\<lambda>rows.
       Inr (fold (\<lambda>r m. AList.update (js_String (row_get r ''address'')) (row_get r ''name'') m) rows []))"

definition stakes_query :: "(string \<times> jsval) list option \<Rightarrow> string \<Rightarrow> params \<Rightarrow> params" where
  "stakes_query names validatorAddress ps =
     (case names of Some m \<Rightarrow> [(''whereIn'', PIn [(''stakerAddress'', map (\<lambda>(a, _). JStr a) m)])] | None \<Rightarrow> [])
     @ [(''validatorAddress'', PVal (JStr validatorAddress)),
        (''propBetweens'', PBetweens [\<lparr>pb_property = ''amount'', pb_from = None, pb_to = None, pb_greaterThanEqualTo = None, pb_lowerThanEqualTo = None, pb_greaterThan = Some (JBig 0), pb_lowerThan = None\<rparr>]),
        (''limit'', case map_of ps ''limit'' of Some v \<Rightarrow> v | None \<Rightarrow> PVal JUndefined), (''offset'', case map_of ps ''offset'' of Some v \<Rightarrow> v | None \<Rightarrow> PVal JUndefined),
        (''sort'', PVal (JStr ''amount:desc'')), (''order'', PVal (JStr ''stakerAddress:asc''))]"

definition describe_staker :: "(string \<times> jsval) list \<Rightarrow> db \<Rightarrow> row \<Rightarrow> object result" where
  "describe_staker names d stake =
     (let a = row_get stake ''stakerAddress''; cached = (case map_of names (js_String a) of Some n \<Rightarrow> JV n | None \<Rightarrow> JUndef) in
      bindR (if json_Boolean cached then Inr cached else bindR (getIndexedAccountInfo [(''address'', PVal a)] [''name''] d) (\<lambda>account. Inr (cell account ''name''))) (\<lambda>name.
      Inr [(''address'', JV a), (''amount'', JV (row_get stake ''amount'')), (''name'', name)]))"

record stakers_reply =
  sk_stakers :: "object list"
  sk_validator :: object
  sk_total :: int

definition getStakers :: "pq_env \<Rightarrow> params \<Rightarrow> db \<Rightarrow> stakers_reply result" where
  "getStakers env ps d =
     bindR (stakers_validator env ps d) (\<lambda>(validatorAddress, meta).
       case validatorAddress of
         None \<Rightarrow> Inr \<lparr>sk_stakers = [], sk_validator = meta, sk_total = 0\<rparr>
       | Some a \<Rightarrow>
           bindR (case string_param ps ''search'' of Some s \<Rightarrow> bindR (search_accounts s d) (\<lambda>m. Inr (Some m)) | None \<Rightarrow> Inr None) (\<lambda>names.
           let query = stakes_query names a ps in
           bindR (find_tbl stakesTableSchema query (Some [''stakerAddress'', ''amount'']) False d) (\<lambda>stakes.
           bindR (mapR (describe_staker (case names of Some m \<Rightarrow> m | None \<Rightarrow> []) d) stakes) (\<lambda>stakers.
           bindR (getIndexedAccountInfo [(''address'', PVal (JStr a))] [''name'', ''publicKey''] d) (\<lambda>account.
           bindR (count_rows stakesTableSchema query d) (\<lambda>n.
           Inr \<lparr>sk_stakers = stakers,
                sk_validator = [(''address'', json_or (prop_of meta ''address'') (JString a)), (''name'', json_or (prop_of meta ''name'') (cell account ''name'')),
                                (''publicKey'', json_or (json_or (prop_of meta ''publicKey'') (cell account ''publicKey'')) (JV JNull))],
                sk_total = n\<rparr>))))))"

section \<open>Stakes that wait to be unlocked\<close>

definition unlock_entry :: "string \<Rightarrow> int \<Rightarrow> int \<Rightarrow> int \<Rightarrow> object \<Rightarrow> object result" where
  "unlock_entry tokenID height timestamp blockTime pendingUnlock =
     (let rest = filter (\<lambda>(k, v). k \<noteq> ''unlockable'') pendingUnlock in
      case prop_of rest ''expectedUnlockableHeight'' of
        JV (JNum h) \<Rightarrow> Inr (AList.update ''tokenID'' (JString tokenID) (AList.update ''expectedUnlockTime'' (JV (JNum (timestamp + (h - height) * blockTime)))
                         (AList.update ''isLocked'' (JV (JBool (\<not> json_Boolean (prop_of pendingUnlock ''unlockable'')))) rest)))
      | _ \<Rightarrow> Inr (AList.update ''tokenID'' (JString tokenID) (AList.update ''expectedUnlockTime'' (JV JNaN) (AList.update ''isLocked'' (JV (JBool (\<not> json_Boolean (prop_of pendingUnlock ''unlockable'')))) rest))))"

record unlocks_reply =
  ul_address :: string
  ul_publicKey :: json
  ul_name :: json
  ul_pendingUnlocks :: "object list"
  ul_total :: nat

definition unlocks_address :: "pq_env \<Rightarrow> params \<Rightarrow> string option" where
  "unlocks_address env ps = (case string_param ps ''publicKey'' of Some pk \<Rightarrow> Some (pe_address env pk)
     | None \<Rightarrow> (case string_param ps ''name'' of Some n \<Rightarrow> pe_addressByName env n | None \<Rightarrow> string_param ps ''address''))"

definition wanted_lock :: "params \<Rightarrow> object \<Rightarrow> bool" where
  "wanted_lock ps u = (case bool_param ps ''isLocked'' of None \<Rightarrow> True | Some b \<Rightarrow> b = (\<not> json_Boolean (prop_of u ''unlockable'')))"

definition getPosUnlocks :: "pq_env \<Rightarrow> params \<Rightarrow> db \<Rightarrow> unlocks_reply option result" where
  "getPosUnlocks env ps d =
     (case unlocks_address env ps of
        None \<Rightarrow> Inr None
      | Some a \<Rightarrow>
          bindR (pe_pendingUnlocks env a) (\<lambda>pendingUnlocks.
          bindR (pe_lastBlock env) (\<lambda>(height, timestamp).
          bindR (pe_posTokenID env) (\<lambda>tokenID.
          bindR (mapR (unlock_entry tokenID height timestamp (pe_blockTime env)) (filter (wanted_lock ps) pendingUnlocks)) (\<lambda>filtered.
          bindR (getIndexedAccountInfo [(''address'', PVal (JStr a)), (''limit'', PVal (JNum 1))] [''name'', ''publicKey''] d) (\<lambda>account.
          Inr (Some \<lparr>ul_address = a, ul_publicKey = json_or (cell account ''publicKey'') (JV JNull), ul_name = json_or (cell account ''name'') (JV JNull),
                     ul_pendingUnlocks = js_slice (number_or ps ''offset'' 0) (number_or ps ''offset'' 0 + number_or ps ''limit'' 0) filtered, ul_total = length filtered\<rparr>)))))))"

section \<open>Pages of validators\<close>

text \<open>
  Sorted by a property that is a number, the pages of the validators are the pages of one list: all validators that pass the filters, in the order that is asked for, and their number is the total.
\<close>

theorem validators_page:
  assumes "validator_request env request = Some ps" and "getAllValidators env validatorList = Inr allValidators" and "mapR (describe_validator d) (filter (validator_matches ps) allValidators) = Inr data"
    and "sort_request ps = Inr (p, asc)" and "(\<forall>v \<in> set data. validator_prop p v = JNum (f v)) \<or> (\<forall>v \<in> set data. validator_prop p v = JBig (f v))"
    and "number_or ps ''offset'' 0 = off" and "0 \<le> off" and "number_or ps ''limit'' 0 = l" and "0 \<le> l"
  shows "\<exists>reply vs S. getPosValidators env loc request d validatorList = Inr (reply, vs) \<and> mset S = mset data \<and> sorted_wrt (\<lambda>a b. if asc then f a \<le> f b else f b \<le> f a) S
    \<and> pg_data reply = take (nat l) (drop (nat off) S) \<and> pg_total reply = int (length data)"
proof -
  let ?cmp = "\<lambda>a b. if asc then f a - f b else f b - f a"
  let ?S = "js_sort ?cmp data"
  have "js_sortR (sortComparator loc asc (validator_prop p)) data = Inr ?S" using assms(5) by (intro js_sortR_total numeric_comparator) auto
  moreover have "js_slice off (off + l) ?S = take (nat l) (drop (nat off) ?S)" by (rule js_slice_page [OF assms(7,9)])
  moreover have "sorted_wrt (\<lambda>a b. if asc then f a \<le> f b else f b \<le> f a) ?S"
    using numeric_order.sorted_sort [of asc f data] by (rule sorted_wrt_mono_rel [rotated]) (auto split: if_splits)
  moreover have "mset ?S = mset data" by simp
  moreover obtain reply vs where "getPosValidators env loc request d validatorList = Inr (reply, vs)" "pg_data reply = js_slice off (off + l) ?S" "pg_total reply = int (length data)"
    using assms(1-4,6,8) calculation(1) by (simp add: getPosValidators_def Let_def)
  ultimately show ?thesis by (intro exI [of _ reply] exI [of _ vs] exI [of _ ?S]) simp
qed

text \<open>
  By name the comparator has no order: a name of digits is equal to every other name when it comes first and different when it comes second, so that the list that is returned depends on how it is sorted.
\<close>

lemma comparator_digits:
  assumes "property a = JStr s" "property b = JStr t" "js_Number (JStr s) = JNum m" "js_Number (JStr t) = JNaN"
  shows "sortComparator loc True property a b = Inr 0" "sortComparator loc True property b a = Inr (loc t s)"
  unfolding sortComparator_def subtract_def assms(1,2) by (simp_all only: assms(3,4) jsval.case prod.case jsval.distinct if_True if_False sum.case option.case refl)

lemma digits_and_letters: "js_Number (JStr ''1'') = JNum 1" "js_Number (JStr ''a'') = JNaN"
proof -
  have "parse_int ''1'' = Some 1" "parse_int ''a'' = None" by code_simp+
  then show "js_Number (JStr ''1'') = JNum 1" "js_Number (JStr ''a'') = JNaN" by simp_all
qed

theorem name_order_inconsistent:
  assumes "pv_name a = ''1''" and "pv_name b = ''a''" and "0 < loc ''a'' ''1''"
  shows "sortComparator loc True (validator_prop ''name'') a b = Inr 0 \<and> sortComparator loc True (validator_prop ''name'') b a = Inr (loc ''a'' ''1'') \<and> loc ''a'' ''1'' \<noteq> 0"
proof -
  have p: "validator_prop ''name'' v = JStr (pv_name v)" for v by (simp only: validator_prop_def if_True refl)
  show ?thesis
  proof (intro conjI)
    show "sortComparator loc True (validator_prop ''name'') a b = Inr 0"
      by (rule comparator_digits(1) [of "validator_prop ''name''" a "pv_name a" b "pv_name b" 1]) (simp_all only: p assms(1,2) digits_and_letters)
    show "sortComparator loc True (validator_prop ''name'') b a = Inr (loc ''a'' ''1'')" unfolding assms(1,2) [symmetric]
      by (rule comparator_digits(2) [of "validator_prop ''name''" a "pv_name a" b "pv_name b" 1]) (simp_all only: p assms(1,2) digits_and_letters)
    show "loc ''a'' ''1'' \<noteq> 0" using assms(3) by (rule less_imp_neq [symmetric])
  qed
qed

section \<open>Stakers of another validator\<close>

text \<open>
  A request with an address and a name of different validators lists the stakers of the one that is named under the address of the other.
\<close>

theorem stakers_of_another:
  assumes "string_param ps ''address'' = Some a" and "string_param ps ''publicKey'' = None" and "string_param ps ''name'' = Some name" and "string_param ps ''search'' = None"
    and "getIndexedAccountInfo [(''name'', PVal (JStr name))] [''address''] d = Inr account" and "cell account ''address'' = JString b" and "getStakers env ps d = Inr reply"
  shows "prop_of (sk_validator reply) ''address'' = JString a
    \<and> (\<exists>stakes. find_tbl stakesTableSchema (stakes_query None b ps) (Some [''stakerAddress'', ''amount'']) False d = Inr stakes \<and> mapR (describe_staker [] d) stakes = Inr (sk_stakers reply))"
proof -
  have "a \<noteq> []" using assms(1) by (auto simp: string_param_def split: option.splits pval.splits jsval.splits if_splits)
  moreover have "stakers_validator env ps d = Inr (Some b, [(''address'', JString a), (''name'', JString name)])" using assms(1-3,5,6) by (simp add: stakers_validator_def)
  ultimately show ?thesis using assms(4,7) by (auto simp: getStakers_def Let_def bindR_eq_Inr prop_of_def json_or_def json_Boolean_def)
qed

section \<open>Examples\<close>

definition example_validator_request :: params where
  "example_validator_request = [(''limit'', PVal (JNum 1)), (''offset'', PVal (JNum 1)), (''sort'', PVal (JStr ''validatorWeight:desc''))]"

definition example_stakes_db :: db where
  "example_stakes_db = \<lparr>committed = (\<lambda>t. if t = ''accounts'' then [[(''address'', JStr ''klyb''), (''name'', JStr ''bob''), (''publicKey'', JNull)]]
     else if t = ''stakes'' then [[(''validatorAddress'', JStr ''klyb''), (''stakerAddress'', JStr ''klyc''), (''amount'', JBig 5)]] else []), working = (\<lambda>_. [])\<rparr>"

theorem validators_page_witness:
  "\<exists>reply vs S. getPosValidators example_validator_env (\<lambda>_ _. 0) example_validator_request example_stakes_db example_list = Inr (reply, vs) \<and> pg_data reply = take 1 (drop 1 S) \<and> length S = 2
    \<and> sorted_wrt (\<lambda>a b. validatorWeight b \<le> validatorWeight a) S"
proof -
  let ?ps = example_validator_request and ?loc = "\<lambda>_ _. 0"
  have r: "validator_request example_validator_env ?ps = Some ?ps" "sort_request ?ps = Inr (''validatorWeight'', False)" by code_simp+
  have a: "getAllValidators example_validator_env example_list = Inr example_list" by (simp add: getAllValidators_def example_list_def)
  have n: "number_or ?ps ''offset'' 0 = 1" "number_or ?ps ''limit'' 0 = 1" by (simp_all add: number_or_def example_validator_request_def)
  have rows: "find_tbl validatorsTableSchema [(''address'', PVal (JStr x)), (''limit'', PVal (JNum 1))] cols False example_stakes_db = Inr []" for x cols
    by (simp add: find_tbl_def Let_def queryBuilder_def where_clauses_def resolveQueryParams_def KNOWN_QUERY_PARAMS_def read_table_def example_stakes_db_def validatorsTableSchema_def limit_rows_def order_by_def split: option.splits)
  then have "\<forall>v. \<exists>lv. describe_validator example_stakes_db v = Inr lv" by (simp add: describe_validator_def add_values_def)
  then obtain g where "\<And>v. describe_validator example_stakes_db v = Inr (g v)" by metis
  then have "mapR (describe_validator example_stakes_db) vs = Inr (map g vs)" for vs by (rule mapR_Inr)
  then obtain data where d: "mapR (describe_validator example_stakes_db) (filter (validator_matches ?ps) example_list) = Inr data" by blast
  have "filter (validator_matches ?ps) example_list = example_list" by (simp add: example_list_def validator_matches_def csv_values_def string_param_def example_validator_request_def)
  then have len: "length data = 2" using mapR_length [OF d] by (simp add: example_list_def)
  have w: "(\<forall>v \<in> set data. validator_prop ''validatorWeight'' v = JNum (validatorWeight v)) \<or> (\<forall>v \<in> set data. validator_prop ''validatorWeight'' v = JBig (validatorWeight v))" by (simp add: validator_prop_def)
  obtain reply vs S where s: "getPosValidators example_validator_env ?loc ?ps example_stakes_db example_list = Inr (reply, vs)" "mset S = mset data"
      "sorted_wrt (\<lambda>a b. if False then validatorWeight a \<le> validatorWeight b else validatorWeight b \<le> validatorWeight a) S" "pg_data reply = take (nat 1) (drop (nat 1) S)"
    using validators_page [OF r(1) a d r(2) w n(1) _ n(2), of ?loc] by (simp only: zero_le_one simp_thms) blast
  have "length S = 2" using s(2) len by (metis size_mset)
  then show ?thesis using s by (intro exI [of _ reply] exI [of _ vs] exI [of _ S]) simp
qed

theorem name_order_inconsistent_witness:
  "sortComparator (\<lambda>s t. if s = t then 0 else if s < t then - 1 else 1) True (validator_prop ''name'') ((example_validator ''x'' 5)\<lparr>pv_name := ''1''\<rparr>) ((example_validator ''y'' 5)\<lparr>pv_name := ''a''\<rparr>) = Inr 0"
proof -
  have "(0 :: int) < (\<lambda>s t. if s = t then 0 else if s < t then - 1 else 1) ''a'' ''1''" by code_simp
  then show ?thesis
    using name_order_inconsistent [of "(example_validator ''x'' 5)\<lparr>pv_name := ''1''\<rparr>" "(example_validator ''y'' 5)\<lparr>pv_name := ''a''\<rparr>" "\<lambda>s t. if s = t then 0 else if s < t then - 1 else 1"] by simp
qed

theorem stakers_of_another_witness:
  "\<exists>reply. getStakers \<lparr>pe_address = id, pe_addressByName = (\<lambda>_. None), pe_pendingUnlocks = (\<lambda>_. Inr []), pe_lastBlock = Inr (0, 0), pe_blockTime = 10, pe_posTokenID = Inr ''00''\<rparr>
     [(''address'', PVal (JStr ''klya'')), (''name'', PVal (JStr ''bob''))] example_stakes_db = Inr reply \<and> prop_of (sk_validator reply) ''address'' = JString ''klya'' \<and> length (sk_stakers reply) = 1"
proof -
  let ?env = "\<lparr>pe_address = id, pe_addressByName = (\<lambda>_. None), pe_pendingUnlocks = (\<lambda>_. Inr []), pe_lastBlock = Inr (0, 0), pe_blockTime = 10, pe_posTokenID = Inr ''00''\<rparr>"
  let ?ps = "[(''address'', PVal (JStr ''klya'')), (''name'', PVal (JStr ''bob''))]"
  have "case getStakers ?env ?ps example_stakes_db of Inr r \<Rightarrow> length (sk_stakers r) = 1 | Inl _ \<Rightarrow> False" by code_simp
  then obtain reply where r: "getStakers ?env ?ps example_stakes_db = Inr reply" "length (sk_stakers reply) = 1" by (auto split: sum.splits)
  have p: "string_param ?ps ''address'' = Some ''klya''" "string_param ?ps ''publicKey'' = None" "string_param ?ps ''name'' = Some ''bob''" "string_param ?ps ''search'' = None" by (simp_all add: string_param_def)
  have a: "getIndexedAccountInfo [(''name'', PVal (JStr ''bob''))] [''address''] example_stakes_db = Inr [(''address'', JStr ''klyb'')]" "cell [(''address'', JStr ''klyb'')] ''address'' = JString ''klyb''" by code_simp+
  show ?thesis using stakers_of_another [OF p a r(1)] r by blast
qed

end
