(* ===== verification/Message_Processor.thy ===== *)
theory Message_Processor
  imports Prelude
begin

text \<open>
  The jobs that the coordinator sends to the indexer, \<^verbatim>\<open>shared/messageProcessor.js\<close>: new and deleted blocks, new rounds and new transactions of the pool. The handlers work on the state \<open>'s\<close> of the service; what they
  changed before they throw stays. The queue is the one of the package \<^verbatim>\<open>bull\<close>: a job whose processor throws is put back until its attempts are used up.
\<close>

section \<open>Actions\<close>

type_synonym ('s, 'a) action = "'s \<Rightarrow> 'a result \<times> 's"

definition bindA :: "('s, 'a) action \<Rightarrow> ('a \<Rightarrow> ('s, 'b) action) \<Rightarrow> ('s, 'b) action" where
  "bindA m f s = (case m s of (Inr a, s') \<Rightarrow> f a s' | (Inl e, s') \<Rightarrow> (Inl e, s'))"

definition returnA :: "'a \<Rightarrow> ('s, 'a) action" where
  "returnA a s = (Inr a, s)"

section \<open>Processors\<close>

datatype ('b, 'h, 't) job_data = NewBlockJob 'b | DeleteBlockJob 'h | NewRoundJob | PoolJob 't | OtherJob

datatype ('r, 'g, 't) signal = SNewBlock 'r | SDeleteBlock 'r | SNewRound 'g | SPoolTransaction 't

text \<open>
  What the processors call: formatting of a block and of the header of a deleted one (\<open>'r\<close>, the answer with the block as its first entry \<open>'n\<close>), the index, the last block, the caches of validators and
  generators, the formatting of a transaction, and the dispatch of a signal to its listeners.
\<close>

record ('s, 'b, 'h, 't, 'r, 'n, 'g) handlers =
  hd_formatBlock :: "'b \<Rightarrow> ('s, 'r) action"
  hd_formatDeleted :: "'h \<Rightarrow> ('s, 'r) action"
  hd_firstBlock :: "'r \<Rightarrow> 'n"
  hd_indexNewBlock :: "'n \<Rightarrow> ('s, unit) action"
  hd_performLastBlockUpdate :: "'n \<Rightarrow> ('s, unit) action"
  hd_scheduleBlockDeletion :: "'h \<Rightarrow> ('s, unit) action"
  hd_reloadValidatorCache :: "('s, unit) action"
  hd_reloadGeneratorsCache :: "('s, unit) action"
  hd_getNumberOfGenerators :: "('s, int) action"
  hd_getGenerators :: "int \<Rightarrow> ('s, 'g) action"
  hd_formatPendingTransaction :: "'t \<Rightarrow> ('s, 't) action"
  hd_dispatch :: "('r, 'g, 't) signal \<Rightarrow> ('s, unit) action"

definition newBlockProcessor :: "('s, 'b, 'h, 't, 'r, 'n, 'g) handlers \<Rightarrow> 'b \<Rightarrow> ('s, unit) action" where
  "newBlockProcessor hs block =
     bindA (hd_formatBlock hs block) (\<lambda>response.
     bindA (hd_indexNewBlock hs (hd_firstBlock hs response)) (\<lambda>_.
     bindA (hd_performLastBlockUpdate hs (hd_firstBlock hs response)) (\<lambda>_.
     hd_dispatch hs (SNewBlock response))))"

definition deleteBlockProcessor :: "('s, 'b, 'h, 't, 'r, 'n, 'g) handlers \<Rightarrow> 'h \<Rightarrow> ('s, unit) action" where
  "deleteBlockProcessor hs header =
     bindA (hd_formatDeleted hs header) (\<lambda>response.
     bindA (hd_scheduleBlockDeletion hs header) (\<lambda>_.
     hd_dispatch hs (SDeleteBlock response)))"

definition newRoundProcessor :: "('s, 'b, 'h, 't, 'r, 'n, 'g) handlers \<Rightarrow> ('s, unit) action" where
  "newRoundProcessor hs =
     bindA (hd_reloadValidatorCache hs) (\<lambda>_. bindA (hd_reloadGeneratorsCache hs) (\<lambda>_.
     bindA (hd_getNumberOfGenerators hs) (\<lambda>limit. bindA (hd_getGenerators hs limit) (\<lambda>generators.
     hd_dispatch hs (SNewRound generators)))))"

definition txPoolNewTransactionProcessor :: "('s, 'b, 'h, 't, 'r, 'n, 'g) handlers \<Rightarrow> 't \<Rightarrow> ('s, unit) action" where
  "txPoolNewTransactionProcessor hs transaction = bindA (hd_formatPendingTransaction hs transaction) (\<lambda>tx. hd_dispatch hs (SPoolTransaction tx))"

text \<open>
  The processor of the queue of events, with the data of the jobs it adds. The error of a deletion is caught; on the last attempt the data is added to the queue again.
\<close>

record 'd job =
  jb_data :: 'd
  jb_attemptsMade :: nat
  jb_attempts :: nat

definition process_event :: "('s, 'b, 'h, 't, 'r, 'n, 'g) handlers \<Rightarrow> ('b, 'h, 't) job_data job \<Rightarrow> ('s, ('b, 'h, 't) job_data list) action" where
  "process_event hs job = (case jb_data job of
     NewBlockJob block \<Rightarrow> bindA (newBlockProcessor hs block) (\<lambda>_. returnA [])
   | DeleteBlockJob header \<Rightarrow> (\<lambda>s. case deleteBlockProcessor hs header s of
       (Inr _, s') \<Rightarrow> (Inr [], s')
     | (Inl _, s') \<Rightarrow> (Inr (if jb_attemptsMade job + 1 = jb_attempts job then [jb_data job] else []), s'))
   | NewRoundJob \<Rightarrow> bindA (newRoundProcessor hs) (\<lambda>_. returnA [])
   | PoolJob transaction \<Rightarrow> bindA (txPoolNewTransactionProcessor hs transaction) (\<lambda>_. returnA [])
   | OtherJob \<Rightarrow> returnA [])"

section \<open>The queue\<close>

text \<open>One job is taken from the queue and processed; \<open>n\<close> is the number of attempts of a new job, \<^verbatim>\<open>config.queue.defaultJobOptions.attempts\<close>.\<close>

definition new_job :: "nat \<Rightarrow> 'd \<Rightarrow> 'd job" where
  "new_job n x = \<lparr>jb_data = x, jb_attemptsMade = 0, jb_attempts = n\<rparr>"

definition queue_step :: "('s, 'b, 'h, 't, 'r, 'n, 'g) handlers \<Rightarrow> nat \<Rightarrow> ('b, 'h, 't) job_data job list \<times> 's \<Rightarrow> ('b, 'h, 't) job_data job list \<times> 's" where
  "queue_step hs n = (\<lambda>(jobs, s). case jobs of
     [] \<Rightarrow> ([], s)
   | job # rest \<Rightarrow>
       (case process_event hs job s of
          (Inr added, s') \<Rightarrow> (rest @ map (new_job n) added, s')
        | (Inl _, s') \<Rightarrow> (if jb_attemptsMade job + 1 < jb_attempts job then rest @ [job\<lparr>jb_attemptsMade := jb_attemptsMade job + 1\<rparr>] else rest, s')))"

section \<open>New blocks are retried, deletions are not\<close>

lemma bindA_ok: "m s = (Inr a, s') \<Longrightarrow> bindA m f s = f a s'" and bindA_fails: "m s = (Inl e, s') \<Longrightarrow> bindA m f s = (Inl e, s')"
  by (simp_all add: bindA_def)

text \<open>A new block is indexed before it becomes the last block, and it is announced after both.\<close>

lemma newBlock_announced:
  assumes "newBlockProcessor hs block s = (Inr u, s')"
  obtains response s1 s2 s3 where "hd_formatBlock hs block s = (Inr response, s1)" "hd_indexNewBlock hs (hd_firstBlock hs response) s1 = (Inr (), s2)"
    "hd_performLastBlockUpdate hs (hd_firstBlock hs response) s2 = (Inr (), s3)" "hd_dispatch hs (SNewBlock response) s3 = (Inr (), s')"
  using assms by (auto simp: newBlockProcessor_def bindA_def split: prod.splits sum.splits)

text \<open>
  The job of a new block leaves the queue only when the block was processed or all attempts failed: after a failed attempt it waits in the queue with one attempt less.
\<close>

theorem new_block_retried:
  assumes "jb_data job = NewBlockJob block" and "newBlockProcessor hs block s = (Inl e, s')" and "jb_attemptsMade job + 1 < jb_attempts job"
  shows "queue_step hs n (job # rest, s) = (rest @ [job\<lparr>jb_attemptsMade := jb_attemptsMade job + 1\<rparr>], s')"
  using assms by (simp add: queue_step_def process_event_def bindA_fails)

text \<open>
  A deletion that fails is lost: the processor catches the error, so that the queue counts the job as done after the first attempt, and the data is added again on the last attempt only, which is never reached.
  Whatever the handlers do later, the block stays in the index.
\<close>

theorem failed_deletion_lost:
  assumes "jb_data job = DeleteBlockJob header" and "deleteBlockProcessor hs header s = (Inl e, s')" and "jb_attemptsMade job = 0" and "1 < jb_attempts job"
  shows "queue_step hs n (job # rest, s) = (rest, s')"
  using assms by (simp add: queue_step_def process_event_def)

text \<open>No job of a deletion is ever in its second attempt.\<close>

definition first_attempts :: "('b, 'h, 't) job_data job list \<Rightarrow> bool" where
  "first_attempts jobs \<longleftrightarrow> (\<forall>j \<in> set jobs. (\<exists>h. jb_data j = DeleteBlockJob h) \<longrightarrow> jb_attemptsMade j = 0)"

lemma queue_step_first_attempts:
  assumes "first_attempts jobs" "queue_step hs n (jobs, s) = (jobs', s')"
  shows "first_attempts jobs'"
proof (cases jobs)
  case (Cons job rest)
  show ?thesis
  proof (cases "\<exists>h. jb_data job = DeleteBlockJob h")
    case True
    then obtain h where h: "jb_data job = DeleteBlockJob h" by blast
    show ?thesis using assms Cons h by (auto simp: first_attempts_def queue_step_def process_event_def new_job_def split: prod.splits sum.splits if_splits)
  next
    case False
    then have "set added = {}" if "process_event hs job s = (Inr added, s2)" for added s2
      using that by (auto simp: process_event_def bindA_def returnA_def split: job_data.splits prod.splits sum.splits)
    then show ?thesis using assms Cons False by (auto simp: first_attempts_def queue_step_def split: prod.splits sum.splits if_splits)
  qed
qed (use assms in \<open>simp add: queue_step_def\<close>)

lemma first_attempts_always:
  assumes "first_attempts jobs"
  shows "first_attempts (fst ((queue_step hs n ^^ k) (jobs, s)))"
proof (induction k)
  case (Suc k)
  obtain j1 s1 where q: "(queue_step hs n ^^ k) (jobs, s) = (j1, s1)" by (rule prod.exhaust)
  obtain j2 s2 where q2: "queue_step hs n (j1, s1) = (j2, s2)" by (rule prod.exhaust)
  have "first_attempts j1" using Suc q by simp
  then have "first_attempts j2" by (rule queue_step_first_attempts [OF _ q2])
  then show ?case using q q2 by simp
qed (simp add: assms)

theorem deletions_never_retried:
  assumes "first_attempts jobs" and "(queue_step hs n ^^ k) (jobs, s) = (job # rest, s')" and "jb_data job = DeleteBlockJob header" and "1 < jb_attempts job"
  shows "fst (queue_step hs n (job # rest, s')) = rest"
proof -
  have "jb_attemptsMade job = 0" using first_attempts_always [OF assms(1), where hs = hs and n = n and k = k and s = s] assms(2,3) by (simp add: first_attempts_def)
  then show ?thesis using assms(3,4) by (auto simp: queue_step_def process_event_def split: prod.splits sum.splits)
qed

section \<open>Examples\<close>

text \<open>Handlers that record what was called; the node cannot be reached for the deletion of a block and the first indexing of another.\<close>

definition log_call :: "string \<Rightarrow> 'a \<Rightarrow> (string list, 'a) action" where
  "log_call name v s = (Inr v, s @ [name])"

definition example_handlers :: "(string list, nat, nat, nat, nat, nat, nat) handlers" where
  "example_handlers = \<lparr>hd_formatBlock = log_call ''format'', hd_formatDeleted = (\<lambda>h s. (Inl TypeError, s)), hd_firstBlock = id,
     hd_indexNewBlock = (\<lambda>b s. if ''tried'' \<in> set s then (Inr (), s @ [''index'']) else (Inl TypeError, s @ [''tried''])),
     hd_performLastBlockUpdate = (\<lambda>b. log_call ''last'' ()), hd_scheduleBlockDeletion = (\<lambda>h. log_call ''delete'' ()), hd_reloadValidatorCache = log_call ''validators'' (), hd_reloadGeneratorsCache = log_call ''generators'' (),
     hd_getNumberOfGenerators = log_call ''number'' 3, hd_getGenerators = (\<lambda>n. log_call ''list'' 0), hd_formatPendingTransaction = log_call ''pending'', hd_dispatch = (\<lambda>_. log_call ''dispatch'' ())\<rparr>"

theorem new_block_retried_witness:
  "queue_step example_handlers 5 ([new_job 5 (NewBlockJob 7)], []) = ([(new_job 5 (NewBlockJob 7))\<lparr>jb_attemptsMade := 1\<rparr>], [''format'', ''tried''])"
proof -
  have "newBlockProcessor example_handlers 7 [] = (Inl TypeError, [''format'', ''tried''])" by (simp add: newBlockProcessor_def example_handlers_def bindA_def log_call_def)
  from new_block_retried [OF _ this, of "new_job 5 (NewBlockJob 7)" 5 "[]"] show ?thesis by (simp add: new_job_def)
qed

theorem failed_deletion_lost_witness: "queue_step example_handlers 5 ([new_job 5 (DeleteBlockJob 6)], []) = ([], [])"
proof -
  have "deleteBlockProcessor example_handlers 6 [] = (Inl TypeError, [])" by (simp add: deleteBlockProcessor_def example_handlers_def bindA_def)
  from failed_deletion_lost [OF _ this, of "new_job 5 (DeleteBlockJob 6)" 5 "[]"] show ?thesis by (simp add: new_job_def)
qed

theorem deletions_never_retried_witness: "fst (queue_step example_handlers 5 ((queue_step example_handlers 5 ^^ 1) ([new_job 5 OtherJob, new_job 5 (DeleteBlockJob 6)], []))) = []"
proof -
  have q: "(queue_step example_handlers 5 ^^ 1) ([new_job 5 OtherJob, new_job 5 (DeleteBlockJob 6)], []) = ([new_job 5 (DeleteBlockJob 6)], [])"
    by (simp add: queue_step_def process_event_def returnA_def new_job_def)
  have "first_attempts [new_job 5 OtherJob, new_job 5 (DeleteBlockJob 6)]" by (simp add: first_attempts_def new_job_def)
  from deletions_never_retried [OF this q, of 6] show ?thesis using q by (simp add: new_job_def)
qed

end
