(* ===== verification/Connector_Cache.thy ===== *)
theory Connector_Cache
  imports Table_Queries
begin

text \<open>
  What the connector remembers of the node: blocks that are not final, in two tables that are filled from a waiting list (\<^verbatim>\<open>shared/sdk/cache.js\<close>), and the peers of the network with statistics
  about them (\<^verbatim>\<open>shared/sdk/peerCache.js\<close>). The tables are given by their primary keys; a block is stored as JSON and read back as it was.
\<close>

section \<open>The cache of blocks\<close>

record 't cached_block =
  cb_id :: string
  cb_height :: int
  cb_timestamp :: int
  cb_transactions :: "(string \<times> 't) list"

text \<open>The table of blocks, the table from transactions to blocks, and the waiting list\<close>

record 't block_cache =
  bc_blocks :: "(string \<times> 't cached_block) list"
  bc_transactions :: "(string \<times> string) list"
  bc_waitlist :: "'t cached_block list"

text \<open>Blocks that are not final are put on the waiting list; nothing happens when the node does not answer.\<close>

definition cacheBlocksIfEnabled :: "bool \<Rightarrow> int result \<Rightarrow> 't cached_block list \<Rightarrow> 't block_cache \<Rightarrow> 't block_cache" where
  "cacheBlocksIfEnabled isBlockCachingEnabled finalizedHeight blocks st =
     (if \<not> isBlockCachingEnabled then st
      else case finalizedHeight of
             Inl _ \<Rightarrow> st
           | Inr f \<Rightarrow> st\<lparr>bc_waitlist := bc_waitlist st @ filter (\<lambda>b. cb_height b > f) blocks\<rparr>)"

text \<open>The first \<open>k\<close> transactions of a block are written, then the block itself.\<close>

definition write_transactions :: "'t cached_block \<Rightarrow> nat \<Rightarrow> 't block_cache \<Rightarrow> 't block_cache" where
  "write_transactions b k st = st\<lparr>bc_transactions := fold (\<lambda>(i, _) m. AList.update i (cb_id b) m) (take k (cb_transactions b)) (bc_transactions st)\<rparr>"

definition store_block :: "'t cached_block \<Rightarrow> 't block_cache \<Rightarrow> 't block_cache" where
  "store_block b st = (write_transactions b (length (cb_transactions b)) st)\<lparr>bc_blocks := AList.update (cb_id b) b (bc_blocks st)\<rparr>"

text \<open>
  The waiting list is worked off from its front. \<open>attempt n\<close> is the fate of the \<open>n\<close>-th block that is tried: \<open>None\<close> if all statements succeed, \<open>Some k\<close> if the database fails after \<open>k\<close> transactions. A block that
  failed goes back to the front, and the loop ends when it has seen more than four errors.
\<close>

function cacheBlocksFromWaitlist :: "(nat \<Rightarrow> nat option) \<Rightarrow> nat \<Rightarrow> nat \<Rightarrow> 't block_cache \<Rightarrow> 't block_cache" where
  "cacheBlocksFromWaitlist attempt n numErrors st =
     (case bc_waitlist st of
        [] \<Rightarrow> st
      | b # rest \<Rightarrow>
          (case attempt n of
             None \<Rightarrow> cacheBlocksFromWaitlist attempt (Suc n) numErrors (store_block b (st\<lparr>bc_waitlist := rest\<rparr>))
           | Some k \<Rightarrow>
               let st' = write_transactions b k st in
               if numErrors > 3 then st' else cacheBlocksFromWaitlist attempt (Suc n) (Suc numErrors) st'))"
  by pat_completeness auto
termination
  by (relation "measure (\<lambda>(attempt, n, numErrors, st). length (bc_waitlist st) + (4 - numErrors))") (auto simp: store_block_def write_transactions_def)

declare cacheBlocksFromWaitlist.simps [simp del]

definition getBlockByIDFromCache :: "string \<Rightarrow> 't block_cache \<Rightarrow> 't cached_block option" where
  "getBlockByIDFromCache i st = map_of (bc_blocks st) i"

definition getTransactionByIDFromCache :: "string \<Rightarrow> 't block_cache \<Rightarrow> 't option" where
  "getTransactionByIDFromCache transactionID st =
     (case map_of (bc_transactions st) transactionID of
        None \<Rightarrow> None
      | Some blockID \<Rightarrow> (case getBlockByIDFromCache blockID st of None \<Rightarrow> None | Some b \<Rightarrow> map_of (cb_transactions b) transactionID))"

text \<open>Old blocks are dropped with the entries of their transactions; \<open>now\<close> is the time in seconds.\<close>

definition expired_blocks :: "int \<Rightarrow> int \<Rightarrow> 't block_cache \<Rightarrow> string list" where
  "expired_blocks now expiryInHours st = map fst (filter (\<lambda>(i, b). cb_timestamp b \<le> now - expiryInHours * 3600) (bc_blocks st))"

definition cacheCleanup :: "int \<Rightarrow> int \<Rightarrow> 't block_cache \<Rightarrow> 't block_cache" where
  "cacheCleanup now expiryInHours st =
     (let blockIDs = expired_blocks now expiryInHours st
      in st\<lparr>bc_transactions := filter (\<lambda>(t, i). i \<notin> set blockIDs) (bc_transactions st), bc_blocks := filter (\<lambda>(i, b). i \<notin> set blockIDs) (bc_blocks st)\<rparr>)"

section \<open>Nothing on the waiting list is lost\<close>

lemma waitlist_write [simp]: "bc_waitlist (write_transactions b k st) = bc_waitlist st" "bc_blocks (write_transactions b k st) = bc_blocks st"
  by (simp_all add: write_transactions_def)

lemma store_fields [simp]: "bc_waitlist (store_block b st) = bc_waitlist st" "bc_blocks (store_block b st) = AList.update (cb_id b) b (bc_blocks st)"
  by (simp_all add: store_block_def)

text \<open>
  However the database behaves, a run leaves a rest of the waiting list and has stored every block before it, the latest one where blocks share an identifier.
\<close>

theorem waitlist_drained:
  "\<exists>stored rest. bc_waitlist st = stored @ rest \<and> bc_waitlist (cacheBlocksFromWaitlist attempt n numErrors st) = rest
    \<and> bc_blocks (cacheBlocksFromWaitlist attempt n numErrors st) = fold (\<lambda>b. AList.update (cb_id b) b) stored (bc_blocks st)"
proof (induction attempt n numErrors st rule: cacheBlocksFromWaitlist.induct)
  case (1 attempt n numErrors st)
  show ?case
  proof (cases "bc_waitlist st")
    case Nil
    then show ?thesis by (simp add: cacheBlocksFromWaitlist.simps)
  next
    case (Cons b rest)
    show ?thesis
    proof (cases "attempt n")
      case None
      let ?st = "store_block b (st\<lparr>bc_waitlist := rest\<rparr>)"
      obtain stored rest' where "rest = stored @ rest'" "bc_waitlist (cacheBlocksFromWaitlist attempt (Suc n) numErrors ?st) = rest'"
          "bc_blocks (cacheBlocksFromWaitlist attempt (Suc n) numErrors ?st) = fold (\<lambda>b. AList.update (cb_id b) b) stored (AList.update (cb_id b) b (bc_blocks st))"
        using 1(1) [OF Cons None] by auto
      then show ?thesis using Cons None by (intro exI [of _ "b # stored"] exI [of _ rest']) (simp add: cacheBlocksFromWaitlist.simps [of attempt n numErrors st])
    next
      case (Some k)
      show ?thesis
      proof (cases "numErrors > 3")
        case True
        then show ?thesis using Cons Some by (intro exI [of _ "[]"] exI [of _ "b # rest"]) (simp add: cacheBlocksFromWaitlist.simps [of attempt n numErrors st])
      next
        case False
        then show ?thesis using 1(2) [OF Cons Some refl False] Cons Some by (simp add: cacheBlocksFromWaitlist.simps [of attempt n numErrors st])
      qed
    qed
  qed
qed

text \<open>With fewer than five errors the whole list is stored.\<close>

lemma waitlist_emptied:
  assumes "card {m. n \<le> m \<and> attempt m \<noteq> None} + numErrors \<le> 4" "finite {m. n \<le> m \<and> attempt m \<noteq> None}"
  shows "bc_waitlist (cacheBlocksFromWaitlist attempt n numErrors st) = []"
  using assms
proof (induction attempt n numErrors st rule: cacheBlocksFromWaitlist.induct)
  case (1 attempt n numErrors st)
  let ?F = "\<lambda>n. {m. n \<le> m \<and> attempt m \<noteq> None}"
  show ?case
  proof (cases "bc_waitlist st")
    case Nil
    then show ?thesis by (simp add: cacheBlocksFromWaitlist.simps)
  next
    case (Cons b rest)
    show ?thesis
    proof (cases "attempt n")
      case None
      then have "?F (Suc n) = ?F n" by (auto simp: Suc_le_eq order_less_le)
      then show ?thesis using 1(1) [OF Cons None] 1(3,4) Cons None by (simp add: cacheBlocksFromWaitlist.simps [of attempt n numErrors st])
    next
      case (Some k)
      have F: "?F n = insert n (?F (Suc n))" using Some by (auto simp: Suc_le_eq order_less_le)
      then have fin: "finite (?F (Suc n))" using 1(4) by simp
      then have "card (?F n) = Suc (card (?F (Suc n)))" using F by simp
      then have "card (?F (Suc n)) + Suc numErrors \<le> 4" "\<not> numErrors > 3" using 1(3) by linarith+
      then show ?thesis using 1(2) [OF Cons Some refl] fin Cons Some by (simp add: cacheBlocksFromWaitlist.simps [of attempt n numErrors st])
    qed
  qed
qed

text \<open>A transaction of a block that was stored is found, with the content it has in the block.\<close>

lemma written_entries:
  "map_of (fold (\<lambda>(i, _) m. AList.update i v m) txs m) t = (if t \<in> fst ` set txs then Some v else map_of m t)"
  by (induction txs arbitrary: m) (auto simp: update_conv')

lemma stored_transaction_found:
  assumes "t \<in> fst ` set (cb_transactions b)"
  shows "getTransactionByIDFromCache t (store_block b st) = map_of (cb_transactions b) t"
  using assms by (simp add: getTransactionByIDFromCache_def getBlockByIDFromCache_def store_block_def write_transactions_def written_entries update_conv')

section \<open>Every entry leads to a block\<close>

text \<open>The operations in any order; a run of the waiting list may fail in any way.\<close>

inductive cache_step :: "'t block_cache \<Rightarrow> 't block_cache \<Rightarrow> bool" where
  queue: "cache_step st (cacheBlocksIfEnabled e f blocks st)"
| drain: "cache_step st (cacheBlocksFromWaitlist attempt 0 0 st)"
| clean: "cache_step st (cacheCleanup now h st)"

text \<open>An entry of a transaction belongs to a block in the cache or on the waiting list: a block whose writing failed half-way has entries, and it is tried again.\<close>

definition linked :: "'t block_cache \<Rightarrow> bool" where
  "linked st \<longleftrightarrow> snd ` set (bc_transactions st) \<subseteq> fst ` set (bc_blocks st) \<union> cb_id ` set (bc_waitlist st)"

lemma written_targets: "snd ` set (fold (\<lambda>(i, _) m. AList.update i v m) txs m) \<subseteq> insert v (snd ` set m)"
proof (induction txs arbitrary: m)
  case (Cons x txs)
  obtain i t where x: "x = (i, t)" by (rule prod.exhaust)
  have "snd ` set (AList.update i v m) \<subseteq> insert v (snd ` set m)" by (induction m) auto
  then have "snd ` set (fold (\<lambda>(i, _) m. AList.update i v m) txs (AList.update i v m)) \<subseteq> insert v (snd ` set m)" using Cons [of "AList.update i v m"] by blast
  then show ?case by (simp add: x)
qed auto

lemma added_target: "T' \<subseteq> insert x T \<Longrightarrow> T \<subseteq> B \<Longrightarrow> x \<in> B \<Longrightarrow> T' \<subseteq> B"
  by blast

lemma linked_write:
  assumes "linked st" "b \<in> set (bc_waitlist st)"
  shows "linked (write_transactions b k st)"
proof -
  have "snd ` set (bc_transactions (write_transactions b k st)) \<subseteq> fst ` set (bc_blocks st) \<union> cb_id ` set (bc_waitlist st)"
  proof (rule added_target)
    show "snd ` set (bc_transactions (write_transactions b k st)) \<subseteq> insert (cb_id b) (snd ` set (bc_transactions st))"
      using written_targets [of "cb_id b" "take k (cb_transactions b)" "bc_transactions st"] by (simp add: write_transactions_def)
  qed (use assms in \<open>simp_all add: linked_def\<close>)
  then show ?thesis by (simp add: linked_def)
qed

lemma linked_store:
  assumes "linked st" "bc_waitlist st = b # rest"
  shows "linked (store_block b (st\<lparr>bc_waitlist := rest\<rparr>))"
proof -
  have "snd ` set (bc_transactions (store_block b (st\<lparr>bc_waitlist := rest\<rparr>))) \<subseteq> insert (cb_id b) (fst ` set (bc_blocks st)) \<union> cb_id ` set rest"
  proof (rule added_target)
    show "snd ` set (bc_transactions (store_block b (st\<lparr>bc_waitlist := rest\<rparr>))) \<subseteq> insert (cb_id b) (snd ` set (bc_transactions st))"
      using written_targets [of "cb_id b" "cb_transactions b" "bc_transactions st"] by (simp add: store_block_def write_transactions_def)
  qed (use assms in \<open>simp_all add: linked_def\<close>)
  then show ?thesis by (simp add: linked_def dom_update)
qed

lemma linked_drain: "linked st \<Longrightarrow> linked (cacheBlocksFromWaitlist attempt n numErrors st)"
proof (induction attempt n numErrors st rule: cacheBlocksFromWaitlist.induct)
  case (1 attempt n numErrors st)
  show ?case
  proof (cases "bc_waitlist st")
    case (Cons b rest)
    then have w: "linked (write_transactions b k st)" for k using linked_write [OF 1(3)] by simp
    show ?thesis
    proof (cases "attempt n")
      case None
      then show ?thesis using 1(1) [OF Cons None linked_store [OF 1(3) Cons]] Cons by (simp add: cacheBlocksFromWaitlist.simps [of attempt n numErrors st])
    next
      case (Some k)
      then show ?thesis using 1(2) [OF Cons Some refl _ w] w [of k] Cons
        by (cases "3 < numErrors") (simp_all add: cacheBlocksFromWaitlist.simps [of attempt n numErrors st] Let_def)
    qed
  qed (use 1 in \<open>simp add: cacheBlocksFromWaitlist.simps\<close>)
qed

lemma linked_clean:
  assumes "linked st"
  shows "linked (cacheCleanup now h st)"
  unfolding linked_def
proof
  fix i assume "i \<in> snd ` set (bc_transactions (cacheCleanup now h st))"
  then obtain t where t: "(t, i) \<in> set (bc_transactions st)" "i \<notin> set (expired_blocks now h st)" by (auto simp: cacheCleanup_def Let_def)
  have "i \<in> snd ` set (bc_transactions st)" using imageI [OF t(1), of snd] by simp
  then consider "i \<in> fst ` set (bc_blocks st)" | "i \<in> cb_id ` set (bc_waitlist st)" using assms unfolding linked_def by blast
  then show "i \<in> fst ` set (bc_blocks (cacheCleanup now h st)) \<union> cb_id ` set (bc_waitlist (cacheCleanup now h st))"
  proof cases
    case 1
    then obtain b where "(i, b) \<in> set (bc_blocks st)" by auto
    then have "(i, b) \<in> set (bc_blocks (cacheCleanup now h st))" using t(2) by (simp add: cacheCleanup_def Let_def)
    from imageI [OF this, of fst] show ?thesis by simp
  qed (simp add: cacheCleanup_def Let_def)
qed


section \<open>Peers\<close>

record raw_peer =
  ry_ipAddress :: string
  ry_height :: jsval
  ry_version :: jsval
  ry_networkVersion :: jsval
  ry_os :: jsval

datatype peer_state = CONNECTED | DISCONNECTED

record 'l peer =
  pr_ip :: string
  pr_state :: peer_state
  pr_height :: jsval
  pr_version :: jsval
  pr_networkVersion :: jsval
  pr_os :: jsval
  pr_location :: "'l option"

text \<open>\<open>location\<close> is the geographic service; a peer it does not know has an empty location.\<close>

definition refactorPeer :: "(string \<Rightarrow> 'l result) \<Rightarrow> peer_state \<Rightarrow> raw_peer \<Rightarrow> 'l peer" where
  "refactorPeer location state p =
     \<lparr>pr_ip = ry_ipAddress p, pr_state = state, pr_height = ry_height p, pr_version = ry_version p, pr_networkVersion = ry_networkVersion p, pr_os = ry_os p,
      pr_location = (case location (ry_ipAddress p) of Inr l \<Rightarrow> Some l | Inl _ \<Rightarrow> None)\<rparr>"

definition getNetworkPeers :: "(string \<Rightarrow> 'l result) \<Rightarrow> raw_peer list result \<Rightarrow> raw_peer list result \<Rightarrow> 'l peer list result" where
  "getNetworkPeers location connectedPeers disconnectedPeers =
     bindR connectedPeers (\<lambda>cs. bindR disconnectedPeers (\<lambda>ds. Inr (map (refactorPeer location CONNECTED) cs @ map (refactorPeer location DISCONNECTED) ds)))"

text \<open>\<^verbatim>\<open>if (elem) stats[elem] = (stats[elem] || 0) + 1\<close> for every element\<close>

definition count_in :: "(string \<times> nat) list \<Rightarrow> string \<Rightarrow> nat" where
  "count_in m k = (case map_of m k of Some n \<Rightarrow> n | None \<Rightarrow> 0)"

definition peer_tally :: "jsval list \<Rightarrow> (string \<times> nat) list" where
  "peer_tally elems = fold (\<lambda>e m. if js_Boolean e then AList.update (js_String e) (count_in m (js_String e) + 1) m else m) elems []"

text \<open>The name of a Linux system is cut to its version up to the first dash; a name without a dot has no version to cut.\<close>

definition short_os :: "jsval \<Rightarrow> jsval result" where
  "short_os v = (case v of
     JStr s \<Rightarrow> if take 5 s = ''linux'' then (case split_at (CHR ''.'') s of a # b # _ \<Rightarrow> Inr (JStr (a @ ''.'' @ hd (split_at (CHR ''-'') b))) | _ \<Rightarrow> Inl TypeError) else Inr v
   | _ \<Rightarrow> Inr v)"

record peer_statistics =
  pt_totalPeers :: nat
  pt_connectedPeers :: nat
  pt_disconnectedPeers :: nat
  pt_height :: "(string \<times> nat) list"
  pt_coreVer :: "(string \<times> nat) list"
  pt_networkVersion :: "(string \<times> nat) list"
  pt_os :: "(string \<times> nat) list"

record 'l peer_store =
  po_peers :: "'l peer list"
  po_connected :: "'l peer list"
  po_disconnected :: "'l peer list"
  po_statistics :: "peer_statistics option"

definition refreshStatistics :: "'l peer_store \<Rightarrow> peer_statistics result" where
  "refreshStatistics st =
     bindR (mapR short_os (map pr_os (po_connected st))) (\<lambda>oss.
       Inr \<lparr>pt_totalPeers = length (po_peers st), pt_connectedPeers = length (po_connected st), pt_disconnectedPeers = length (po_disconnected st), pt_height = peer_tally (map pr_height (po_connected st)),
            pt_coreVer = peer_tally (map pr_version (po_connected st)), pt_networkVersion = peer_tally (map pr_networkVersion (po_connected st)), pt_os = peer_tally oss\<rparr>)"

text \<open>A failure while counting keeps the old statistics beside the new peers.\<close>

definition reload_peers :: "(string \<Rightarrow> 'l result) \<Rightarrow> raw_peer list result \<Rightarrow> raw_peer list result \<Rightarrow> 'l peer_store \<Rightarrow> 'l peer_store" where
  "reload_peers location connectedPeers disconnectedPeers st =
     (case getNetworkPeers location connectedPeers disconnectedPeers of
        Inl _ \<Rightarrow> st
      | Inr peers \<Rightarrow>
          let st' = st\<lparr>po_peers := peers, po_connected := filter (\<lambda>p. pr_state p = CONNECTED) peers, po_disconnected := filter (\<lambda>p. pr_state p = DISCONNECTED) peers\<rparr>
          in case refreshStatistics st' of Inr s \<Rightarrow> st'\<lparr>po_statistics := Some s\<rparr> | Inl _ \<Rightarrow> st')"

text \<open>A tally holds, for every name, the number of elements of that name.\<close>

lemma count_tally: "count_in (peer_tally elems) k = length (filter (\<lambda>e. js_Boolean e \<and> js_String e = k) elems)"
proof -
  have "count_in (fold (\<lambda>e m. if js_Boolean e then AList.update (js_String e) (count_in m (js_String e) + 1) m else m) elems m) k
      = count_in m k + length (filter (\<lambda>e. js_Boolean e \<and> js_String e = k) elems)" for m
    by (induction elems arbitrary: m) (auto simp: count_in_def update_conv')
  then show ?thesis by (simp add: peer_tally_def count_in_def)
qed

lemma refactored_state [simp]: "pr_state (refactorPeer location s p) = s"
  by (simp add: refactorPeer_def)

lemma reloaded_peers:
  "filter (\<lambda>p. pr_state p = CONNECTED) (map (refactorPeer location CONNECTED) cs @ map (refactorPeer location DISCONNECTED) ds) = map (refactorPeer location CONNECTED) cs"
  "filter (\<lambda>p. pr_state p = DISCONNECTED) (map (refactorPeer location CONNECTED) cs @ map (refactorPeer location DISCONNECTED) ds) = map (refactorPeer location DISCONNECTED) ds"
  by (simp_all add: filter_map comp_def)

text \<open>
  After the peers are loaded, the statistics count them: all peers are connected or disconnected, and for every height there are as many connected peers as the statistics say.
\<close>

theorem statistics_count_peers:
  assumes "\<forall>p \<in> set cs. \<exists>v. short_os (ry_os p) = Inr v"
  shows "\<exists>s. po_statistics (reload_peers location (Inr cs) (Inr ds) st) = Some s \<and> pt_totalPeers s = length cs + length ds \<and> pt_connectedPeers s = length cs \<and> pt_disconnectedPeers s = length ds
    \<and> (\<forall>k. count_in (pt_height s) k = length (filter (\<lambda>p. js_Boolean (ry_height p) \<and> js_String (ry_height p) = k) cs))"
proof -
  have "\<exists>oss. mapR short_os (map ry_os cs) = Inr oss" using assms by (induction cs) auto
  then obtain oss where "mapR short_os (map ry_os cs) = Inr oss" by blast
  moreover have "map pr_os (map (refactorPeer location CONNECTED) cs) = map ry_os cs" "map pr_height (map (refactorPeer location CONNECTED) cs) = map ry_height cs" by (simp_all add: refactorPeer_def)
  ultimately show ?thesis
    by (simp add: reload_peers_def getNetworkPeers_def Let_def reloaded_peers refreshStatistics_def count_tally filter_map comp_def del: filter_append map_map)
qed

text \<open>
  One peer whose system is named \<^verbatim>\<open>linux\<close> without a version freezes the statistics: the list of peers is new, and the counts are those of an earlier list.
\<close>

theorem nameless_linux_freezes_statistics:
  assumes "p \<in> set cs" and "ry_os p = JStr ''linux''"
  shows "po_statistics (reload_peers location (Inr cs) (Inr ds) st) = po_statistics st \<and> length (po_connected (reload_peers location (Inr cs) (Inr ds) st)) = length cs"
proof -
  have "short_os (JStr ''linux'') = Inl TypeError" by (simp add: short_os_def)
  then have "mapR short_os (map ry_os cs) = Inl TypeError \<or> (\<exists>e. mapR short_os (map ry_os cs) = Inl e)" using assms by (induction cs) (auto simp: bindR_def split: sum.splits)
  then obtain e where "mapR short_os (map ry_os cs) = Inl e" by blast
  moreover have "map pr_os (map (refactorPeer location CONNECTED) cs) = map ry_os cs" by (simp add: refactorPeer_def)
  ultimately show ?thesis by (simp add: reload_peers_def getNetworkPeers_def Let_def reloaded_peers refreshStatistics_def del: filter_append map_map)
qed

section \<open>Examples\<close>

definition example_cached :: "nat cached_block" where
  "example_cached = \<lparr>cb_id = ''b'', cb_height = 12, cb_timestamp = 100, cb_transactions = [(''t'', 7)]\<rparr>"


definition example_peer :: "string \<Rightarrow> raw_peer" where
  "example_peer os = \<lparr>ry_ipAddress = ''10.0.0.1'', ry_height = JNum 12, ry_version = JStr ''4.0.0'', ry_networkVersion = JStr ''4.0'', ry_os = JStr os\<rparr>"

definition example_store :: "string peer_store" where
  "example_store = \<lparr>po_peers = [], po_connected = [], po_disconnected = [], po_statistics = None\<rparr>"

theorem statistics_count_peers_witness:
  "\<exists>s. po_statistics (reload_peers (\<lambda>_. Inl TypeError) (Inr [example_peer ''linux5.15.0-78'']) (Inr []) example_store) = Some s \<and> count_in (pt_height s) ''12'' = 1"
proof -
  have "short_os (JStr ''linux5.15.0-78'') = Inr (JStr ''linux5.15'')" by code_simp
  then have "\<forall>p \<in> set [example_peer ''linux5.15.0-78'']. \<exists>v. short_os (ry_os p) = Inr v" by (simp add: example_peer_def)
  from statistics_count_peers [OF this, of "\<lambda>_. Inl TypeError" "[]" example_store] obtain s where
    "po_statistics (reload_peers (\<lambda>_. Inl TypeError) (Inr [example_peer ''linux5.15.0-78'']) (Inr []) example_store) = Some s"
    "count_in (pt_height s) ''12'' = length (filter (\<lambda>p. js_Boolean (ry_height p) \<and> js_String (ry_height p) = ''12'') [example_peer ''linux5.15.0-78''])" by blast
  moreover have "length (filter (\<lambda>p. js_Boolean (ry_height p) \<and> js_String (ry_height p) = ''12'') [example_peer ''linux5.15.0-78'']) = 1" by code_simp
  ultimately show ?thesis by simp
qed

theorem nameless_linux_freezes_statistics_witness:
  "po_statistics (reload_peers (\<lambda>_. Inl TypeError) (Inr [example_peer ''linux'']) (Inr []) example_store) = None"
proof -
  have "ry_os (example_peer ''linux'') = JStr ''linux''" by (simp add: example_peer_def)
  from nameless_linux_freezes_statistics [OF _ this, of "[example_peer ''linux'']" "\<lambda>_. Inl TypeError" "[]" example_store] show ?thesis by (simp add: example_store_def)
qed

end
