(* ===== verification/Spec2Isabelle.thy ===== *)
theory Spec2Isabelle
  imports Liquidity_Amounts Price_Quoter Request_All Export_Jobs Validator_List Fee_Estimates Transaction_Statistics Fee_Estimator Gateway_Responses Registry_Sync Registry_Queries Block_Index Pos_Queries Message_Processor Connector_Cache
begin

text \<open>
  \<^bold>\<open>Swaptoshi Service\<close>: a verification library of the middleware that indexes a Swaptoshi chain into MySQL.

  \<^bold>\<open>The program.\<close> A node of the chain is reached through the connector service. The coordinator
  (\<^verbatim>\<open>services/blockchain-coordinator\<close>) listens for new blocks, finds the heights that are missing in the index and schedules
  jobs. The indexer (\<^verbatim>\<open>services/blockchain-indexer\<close>) takes a job per height, reads block and events from the node, applies the
  transactions of the block to the tables within one database transaction, counts rewards, records swaps and prices, and adds the
  row of the block; after a fork it deletes blocks by reverting their transactions. Requests of users are answered from the tables.
  All access to MySQL goes through the table layer of the framework (\<^verbatim>\<open>framework/src/database\<close>).

  \<^bold>\<open>Theories\<close>, in the order in which they build on each other.

  \<^item> \<open>Prelude\<close>: the result type of fallible code (\<open>Inl\<close> is the error that is thrown), its composition \<open>bindR\<close>, folds and maps over
    it, and generic lemmas. \<open>Js_Values\<close>: the values of JavaScript that reach the database, \<open>Number\<close>, \<open>BigInt\<close>,
    \<open>parseInt\<close>, truthiness, hex and buffers.
  \<^item> \<open>Dex_Int\<close> (\<^verbatim>\<open>indexer/utils/dexLib/int\<close>): the fixed-width integer classes with their wrap-around; they are shown to be word
    arithmetic by the locale \<open>int_class\<close>, interpreted for the widths that the DEX uses. \<open>Tick_Math\<close>
    (\<^verbatim>\<open>tick_math.js\<close>, \<^verbatim>\<open>full_math.js\<close>): both conversions between ticks and square root prices, exact,
    monotone and total on their range. \<open>Liquidity_Amounts\<close> (\<^verbatim>\<open>liquidity_amounts.js\<close>): liquidity never promises more than the amounts it came
    from.
  \<^item> \<open>Database\<close> (\<^verbatim>\<open>framework/src/database/util.js\<close>): casts, the query builder and the operations of a table on the meaning of the
    SQL they send; a database has committed tables and the tables of the open transaction. The locale \<open>keyed_table\<close> is the contract
    of a table with a primary key. \<open>Schemas\<close>: all table schemas, each an interpretation of that contract. \<open>KV_Store\<close>
    (\<^verbatim>\<open>mysql/kvStore.js\<close>): the key-value table.
  \<^item> \<open>Pool_Address\<close> (\<^verbatim>\<open>poolAddress.js\<close>, \<^verbatim>\<open>tradingPath.js\<close>): codecs. \<open>Price_Quoter\<close> (\<^verbatim>\<open>dataService/dex/priceQuoter.js\<close>): routes between tokens and
    prices along them; the route found is a shortest one, the price the product along it. \<open>Events\<close> (\<^verbatim>\<open>utils/events.js\<close>): selection of
    events, their rows and the pruning of old ones.
  \<^item> \<open>Dex_Processors\<close>, \<open>Pos_Processors\<close>, \<open>Token_Processors\<close> (\<^verbatim>\<open>indexer/transactionProcessor\<close>): apply and revert of every command, and the dispatch on
    module and command. Shown: which commands are restored exactly by their revert, which tables a transaction may touch, and the
    reverts that fail. \<open>Swap_Process\<close> (\<^verbatim>\<open>utils/swapProcess.js\<close>): the swap events of a block on pools, volumes and last prices.
  \<^item> \<open>Missing_Blocks\<close> (\<^verbatim>\<open>blockchain-coordinator/shared/scheduler.js\<close> with \<^verbatim>\<open>getMissingBlocks\<close> of the indexer): the search for missing
    heights and the job that schedules them.
  \<^item> \<open>Price_Index\<close> (\<^verbatim>\<open>dataService/dex/priceIndexer.js\<close>, \<^verbatim>\<open>tickIndexer.js\<close>): tick and OHLC prices per interval. \<open>Account_Index\<close>
    (\<^verbatim>\<open>accountBalanceIndex.js\<close>, \<^verbatim>\<open>accountIndex.js\<close>): the sets of accounts in Redis and their update. \<open>Request_All\<close>
    (\<^verbatim>\<open>utils/requestAll.js\<close>): requests page by page. \<open>Genesis_Block\<close> (\<^verbatim>\<open>genesisBlock.js\<close>): the assets of the genesis block.
  \<^item> \<open>Block_Index\<close> (\<^verbatim>\<open>blockchainIndex.js\<close>, \<^verbatim>\<open>dataService/business/events.js\<close>): the two job handlers composed of all the above. A state \<open>chain_state\<close>
    has the index, the caches, the queues and the sets in Redis; \<open>chain_step\<close> interleaves jobs, new blocks, forks of the node, failures and evictions.
    Its invariant is that the indexed heights never have a gap. The locale \<open>table_frame\<close> is the contract of the
    stages of a job towards the table of blocks, interpreted for the stages of both jobs.
  \<^item> \<open>Validator_List\<close> (\<^verbatim>\<open>dataService/pos/validators.js\<close>): weights, ranks and status of the validators and the listener that follows new and
    deleted blocks; the locale \<open>consistent_comparator\<close> is what a sort needs, interpreted for the ranking. \<open>Fee_Estimates\<close>
    (\<^verbatim>\<open>business/transactionsEstimateFees.js\<close>): the fee of a transaction before it is sent.
  \<^item> \<open>Export_Entries\<close>, \<open>Export_Jobs\<close> (\<^verbatim>\<open>services/export\<close>): the lines of the history of an account, and the jobs, requests and files
    around them. Shown: a history has the lines of every day of its interval, whichever days come from partial files; the partial files stay
    those of the history; an accepted request is served.
  \<^item> \<open>Transaction_Statistics\<close> (\<^verbatim>\<open>services/transaction-statistics\<close>): the job of a day counts its transactions by type and range into a table, requests add
    up the rows. Shown: a request over an interval counts every transaction of its days. \<open>Js_Sort\<close> is the sort with a comparator.
  \<^item> \<open>Fee_Estimator\<close> (\<^verbatim>\<open>services/fee-estimator\<close>): averages of fees per byte, their smoothing block by block and the answers. Shown: a computation
    reaches the head of the chain (the fuel of \<open>batch_loop\<close> is one round per block), averages stay within their inputs, kept blocks are those of the node.
  \<^item> \<open>Gateway_Params\<close> (\<^verbatim>\<open>services/gateway/shared\<close>): the report on the parameters of a request, their translation for the service that answers, and the routes.
    Shown: which requests pass and with which values, that a service sees only declared parameters, and that HTTP and RPC agree. \<open>Gateway_Responses\<close> (\<^verbatim>\<open>customMapper.js\<close> and the handlers after a call): the mapping of
    an answer by the recursive definition of its method. Shown: a response has only declared fields, at every depth, and both interfaces agree on errors.
  \<^item> \<open>App_Registry\<close>, \<open>Registry_Sync\<close>, \<open>Registry_Queries\<close> (\<^verbatim>\<open>services/blockchain-app-registry\<close>): metadata files of a git repository, their index in two tables, the job that
    follows the repository, and the requests. Shown: a run brings tables and directory to the state of the repository, a failed run changes nothing, and the pages of a list
    that comes from two queries fit together. \<open>Json_Values\<close> has the arrays and objects that gateway, registry and requests use, \<open>Table_Queries\<close> parameters, answers and pages.
  \<^item> \<open>Transaction_Queries\<close>, \<open>Block_Queries\<close>, \<open>Pos_Queries\<close> (\<^verbatim>\<open>dataService/transactions.js\<close>, \<^verbatim>\<open>blocks.js\<close>, \<^verbatim>\<open>pos/validators.js\<close> and \<^verbatim>\<open>business\<close>): transactions of the pool and the index in one list, blocks with their sums and the cache of the
    last block, validators and stakers. Shown: the first page is the page of one list and later pages are short, the sums of a block balance, a request for blocks replaces the last block, sorted pages of validators.
  \<^item> \<open>Message_Processor\<close> (\<^verbatim>\<open>messageProcessor.js\<close>): the queue of events with its retries; new blocks are retried, deletions are not. \<open>Connector_Cache\<close> (\<^verbatim>\<open>blockchain-connector/shared/sdk/cache.js\<close>, \<^verbatim>\<open>peerCache.js\<close>): the cache of
    blocks that are not final, filled from a waiting list, and the peers. Shown: the loop ends and loses no block, every entry leads to a block, the statistics count the peers.

  \<^bold>\<open>How the model corresponds to the code.\<close> A definition has the name of the function it models; a part of a larger function has a name in lower case.
  A table is the list of its rows, a row the list of its cells with the values MySQL keeps. Calls of the node, the cryptography
  and codec libraries, the decimal library and other services are fields of the environment records (\<open>env\<close>, \<open>pos_env\<close>, \<open>token_env\<close>,
  \<open>swap_env\<close>, \<open>price_env\<close>, \<open>genesis_env\<close>, \<open>block_env\<close>, each extends the one before). What depends on time or on other
  processes, such as the jobs counted while waiting, the members that Redis takes out of a set or the faults of the database, is an
  argument: a list of observations, one per attempt, so that a run that consumes the list is a run that is still waiting.
  The results on such loops say how long a list is enough. Loops that may not end give \<open>Hangs\<close> or \<open>None\<close>.

  \<^bold>\<open>What is simplified.\<close> A job is atomic against other jobs, and the promises that the code starts together for the
  transactions or entries of one block run in their order. A failed job may leave behind what was written outside the database
  transaction; the steps allow every such state. Prices in decimal notation are opaque values except in \<open>Price_Quoter\<close>,
  where they are exact rationals; rationals also stand for the rates of \<open>Fee_Estimates\<close> and \<open>Fee_Estimator\<close>. The cache of public keys of the export does not evict
  during a job.

  \<^bold>\<open>Not modelled.\<close> The transport and the method specifications of the gateway, the connector apart from its caches, and the parts of the data service that only format rows and answers of the node; the
  market service; the registration of signals and cron jobs; in the table layer joins, grouping, JSON
  containment and raw queries; printing of the integer classes. They are input and output, glue around third-party packages, or
  floating-point estimates.
\<close>

end
